(* ===== verification/Prelude.thy ===== *)
theory Prelude
  imports Main "HOL-Library.Word"
begin

text \<open>
  What every theory of the development shares: the machine integer types of the code under the
  names of \<^verbatim>\<open>stdint.h\<close>, the collections of simplification rules, the circular order of
  16-bit sequence numbers, and a few facts on lists and arrays written in a loop.
\<close>

unbundle bit_operations_syntax

type_synonym u8 = "8 word"
type_synonym u16 = "16 word"
type_synonym u32 = "32 word"
type_synonym u64 = "64 word"

named_theorems wire_simps
  "bytes of words, loads and stores: enough to compute a getter after a setter"
named_theorems seq_simps
  "distances between sequence numbers"

subsection \<open>Words as natural numbers\<close>

lemma unat_u16_less [simp]: "unat (x :: u16) < 65536"
  by (rule order_less_le_trans [OF unsigned_less]) simp

lemma unat_u8_less [simp]: "unat (x :: u8) < 256"
  by (rule order_less_le_trans [OF unsigned_less]) simp

lemma unat_u32_less [simp]: "unat (x :: u32) < 4294967296"
  by (rule order_less_le_trans [OF unsigned_less]) simp

lemma unat_u64_less [simp]: "unat (x :: u64) < 18446744073709551616"
  by (rule order_less_le_trans [OF unsigned_less]) simp

lemma unat_sub_u16: "unat (a - b :: u16) = (if unat b \<le> unat a then unat a - unat b
   else unat a + 65536 - unat b)"
  by (simp add: unat_sub_if')

lemma unat_add_u16: "unat (a + b :: u16) = (unat a + unat b) mod 65536"
  by (simp add: unat_word_ariths)

lemma eq_of_nat_unat: "unat (w :: 'a::len word) = k \<Longrightarrow> w = of_nat k"
  by auto

lemma unat_of_nat_u64: "k < 2 ^ 64 \<Longrightarrow> unat (of_nat k :: u64) = k"
  by (simp add: unat_of_nat)

lemma unat_of_nat_u32: "k < 4294967296 \<Longrightarrow> unat (of_nat k :: u32) = k"
  by (simp add: unat_of_nat)

lemma uint_of_nat_u32: "k < 4294967296 \<Longrightarrow> uint (of_nat k :: u32) = int k"
  by (subst of_nat_unat [symmetric]) (simp only: unat_of_nat_u32)

lemma unat_of_nat_u16: "k < 65536 \<Longrightarrow> unat (of_nat k :: u16) = k"
  by (simp add: unat_of_nat)

lemma unat_Suc_u16: "unat (a + 1 :: u16) = (if unat a = 65535 then 0 else Suc (unat a))"
  using unat_u16_less [of a] by (auto simp: unat_word_ariths simp del: unat_u16_less)

lemma u16_eq_iff: "(a :: u16) = b \<longleftrightarrow> unat a = unat b"
  by (simp add: word_unat_eq_iff)

lemma unat_push_bit: "unat (push_bit n w :: 'a::len word) = (unat w * 2 ^ n) mod 2 ^ LENGTH('a)"
  by (simp add: unsigned_push_bit_eq push_bit_eq_mult [of n "unat w"] take_bit_eq_mod)

lemma unat_drop_bit: "unat (drop_bit n w :: 'a::len word) = unat w div 2 ^ n"
  by (simp add: unsigned_drop_bit_eq drop_bit_eq_div [of n "unat w"] take_bit_eq_mod)

lemma unat_take_bit: "unat (take_bit n w :: 'a::len word) = unat w mod 2 ^ n"
  by (simp add: unsigned_take_bit_eq take_bit_eq_mod [of n "unat w"])

lemma unat_ucast_mod: "unat (ucast (w :: 'a::len word) :: 'b::len word) = unat w mod 2 ^ LENGTH('b)"
  by (simp add: unsigned_ucast_eq take_bit_eq_mod)

lemma bit_mark: "bit (blp OR push_bit d 1 :: u16) k \<longleftrightarrow> bit blp k \<or> k = d \<and> d < 16"
  by (auto simp: bit_simps)

text \<open>Division of C integers, which rounds towards zero.\<close>

definition c_div :: "int \<Rightarrow> int \<Rightarrow> int" where
  "c_div a b = sgn a * sgn b * (\<bar>a\<bar> div \<bar>b\<bar>)"

text \<open>The circular distance \<open>b - a\<close> as a number: how many steps lead from \<open>a\<close> to \<open>b\<close>.\<close>

definition seq_dist :: "u16 \<Rightarrow> u16 \<Rightarrow> nat" where
  "seq_dist a b = unat (b - a)"

lemma seq_dist_less [simp, intro]: "seq_dist a b < 65536"
  by (simp add: seq_dist_def)

lemma seq_dist_self [simp]: "seq_dist a a = 0"
  by (simp add: seq_dist_def)

lemma seq_dist_0_iff [simp]: "seq_dist a b = 0 \<longleftrightarrow> a = b"
  by (auto simp: seq_dist_def unat_eq_0)

lemma seq_dist_pos_iff [simp]: "0 < seq_dist a b \<longleftrightarrow> a \<noteq> b"
  by (metis neq0_conv seq_dist_0_iff)

lemma seq_dist_add: "n < 65536 \<Longrightarrow> seq_dist a (a + of_nat n) = n"
  by (simp add: seq_dist_def unat_of_nat)

lemma add_seq_dist: "a + of_nat (seq_dist a b) = b"
  by (simp add: seq_dist_def)

lemma seq_dist_Suc:
  assumes "a \<noteq> b"
  shows "seq_dist a b = Suc (seq_dist (a + 1) b)"
proof -
  have "b - a \<noteq> 0" using assms by simp
  then have "unat (b - a - 1) = unat (b - a) - 1" and "0 < unat (b - a)"
    by (simp_all add: unat_minus_one unat_gt_0)
  moreover have "b - a - 1 = b - (a + 1)" by (simp add: algebra_simps)
  ultimately show ?thesis by (simp add: seq_dist_def)
qed

lemma seq_dist_rev: "a \<noteq> b \<Longrightarrow> seq_dist b a = 65536 - seq_dist a b"
  using unat_u16_less [of a] unat_u16_less [of b]
  by (auto simp: seq_dist_def unat_sub_u16 u16_eq_iff simp del: unat_u16_less split: if_splits)

lemma seq_dist_trans:
  assumes "seq_dist a b + seq_dist b c < 65536"
  shows "seq_dist a c = seq_dist a b + seq_dist b c"
proof -
  have "unat (c - a) = unat ((b - a) + (c - b))" by simp
  also have "\<dots> = unat (b - a) + unat (c - b)"
    by (subst unat_add_u16) (use assms in \<open>simp add: seq_dist_def\<close>)
  finally show ?thesis by (simp add: seq_dist_def)
qed

lemma seq_dist_diff:
  assumes "seq_dist z a \<le> seq_dist z b"
  shows "seq_dist a b = seq_dist z b - seq_dist z a"
proof -
  have "b - a = (b - z) - (a - z)" by simp
  then have "unat (b - a) = unat (b - z) - unat (a - z)"
    using assms by (metis seq_dist_def word_le_nat_alt unat_sub)
  then show ?thesis by (simp add: seq_dist_def)
qed

lemma seq_dist_minus:
  assumes "n < 65536"
  shows "seq_dist a (b - of_nat n) =
    (if n \<le> seq_dist a b then seq_dist a b - n else seq_dist a b + 65536 - n)"
proof -
  have "b - of_nat n - a = (b - a) - of_nat n" by simp
  then have "seq_dist a (b - of_nat n) = unat ((b - a) - of_nat n)" by (simp only: seq_dist_def)
  then show ?thesis using assms by (simp add: unat_sub_u16 unat_of_nat seq_dist_def)
qed

lemma mod_add_inj:
  fixes a i j m :: nat
  assumes "(a + i) mod m = (a + j) mod m" "i < m" "j < m"
  shows "i = j"
proof -
  have *: "i = j" if "i \<le> j" "(a + j) mod m = (a + i) mod m" "j < m" for i j
  proof -
    have "m dvd j - i" using that mod_eq_dvd_iff_nat [of "a + i" "a + j" m] by simp
    then have "j - i = 0" using \<open>j < m\<close> dvd_imp_le [of m "j - i"] by (cases "j - i") auto
    then show ?thesis using \<open>i \<le> j\<close> by simp
  qed
  show ?thesis using * [of i j] * [of j i] assms by (cases "i \<le> j") simp_all
qed

subsection \<open>Consecutive numbers\<close>

fun consecutive_from :: "u16 \<Rightarrow> u16 list \<Rightarrow> bool" where
  "consecutive_from a [] \<longleftrightarrow> True"
| "consecutive_from a (x # xs) \<longleftrightarrow> x = a \<and> consecutive_from (a + 1) xs"

lemma consecutive_from_iff:
  "consecutive_from a xs \<longleftrightarrow> (\<forall>k < length xs. xs ! k = a + of_nat k)"
proof (induction xs arbitrary: a)
  case (Cons x xs)
  then show ?case by (auto simp: less_Suc_eq_0_disj add.assoc)
qed simp

subsection \<open>Arrays written in a loop\<close>

text \<open>
  A run of writes into an array modelled as a function: what was there before matters only at
  the indices that no later write touches.
\<close>

fun write_all :: "('i \<times> 'v) list \<Rightarrow> ('i \<Rightarrow> 'v) \<Rightarrow> 'i \<Rightarrow> 'v" where
  "write_all [] f = f"
| "write_all ((i, v) # ws) f = write_all ws (f(i := v))"

lemma write_all_append [simp]: "write_all (xs @ ys) f = write_all ys (write_all xs f)"
  by (induction xs arbitrary: f) auto

lemma write_all_other: "i \<notin> fst ` set ws \<Longrightarrow> write_all ws f i = f i"
  by (induction ws arbitrary: f) auto

lemma write_all_covered: "i \<in> fst ` set ws \<Longrightarrow> write_all ws f i = write_all ws g i"
proof (induction ws arbitrary: f g)
  case (Cons w ws)
  obtain j v where w: "w = (j, v)" by (cases w)
  show ?case
  proof (cases "i \<in> fst ` set ws")
    case True
    then show ?thesis using Cons.IH by (simp add: w)
  next
    case False
    with Cons.prems show ?thesis by (auto simp: w write_all_other)
  qed
qed simp

lemma write_all_absorb:
  assumes "fst ` set xs \<subseteq> fst ` set ys"
  shows "write_all ys (write_all xs f) = write_all ys f"
proof
  fix i
  show "write_all ys (write_all xs f) i = write_all ys f i"
  proof (cases "i \<in> fst ` set ys")
    case True
    then show ?thesis by (rule write_all_covered)
  next
    case False
    with assms have "i \<notin> fst ` set xs" by auto
    with False show ?thesis by (simp add: write_all_other)
  qed
qed

lemma write_all_nth:
  assumes "inj_on i {..<d}" "k < d"
  shows "write_all (map (\<lambda>k. (i k, v k)) [0..<d]) f (i k) = v k"
  using assms
proof (induction d)
  case (Suc d)
  show ?case
  proof (cases "k = d")
    case False
    with Suc.prems have "k < d" "i d \<noteq> i k" by (auto simp: inj_on_def)
    with Suc show ?thesis by (simp add: lessThan_Suc)
  qed simp
qed simp

end
