(* ===== verification/SeqOrder.thy ===== *)
theory SeqOrder
  imports Prelude
begin

text \<open>
  The circular order on RTP sequence numbers. The code has two comparisons,
  \<^verbatim>\<open>RtpUtils::sequenceNumberLessThan\<close> and \<^verbatim>\<open>RtpPacketQueue::rtpSequenceLessThan\<close>: both
  call \<open>x\<close> less than \<open>y\<close> when \<open>y\<close> is a few steps ahead of \<open>x\<close> on the circle, for windows of 4096
  and of 32768 steps. The locale \<open>circular_order\<close> is what the rest of the code needs of either.
\<close>

locale circular_order =
  fixes less :: "u16 \<Rightarrow> u16 \<Rightarrow> bool" and window :: nat
  assumes less_iff: "less a b \<longleftrightarrow> 0 < seq_dist a b \<and> seq_dist a b < window"
    and window_le: "window \<le> 32768"
begin

lemma irrefl: "\<not> less a a"
  by (simp add: less_iff)

lemma asym: "less a b \<Longrightarrow> \<not> less b a"
  using window_le seq_dist_rev [of a b] by (auto simp: less_iff)

lemma less_add: "n < 65536 \<Longrightarrow> less a (a + of_nat n) \<longleftrightarrow> 0 < n \<and> n < window"
  by (simp add: less_iff seq_dist_add)

lemma less_Suc: "1 < window \<Longrightarrow> less a (a + 1)"
  using less_add [of 1 a] by simp

lemma shift: "less (a + c) (b + c) \<longleftrightarrow> less a b"
  by (simp add: less_iff seq_dist_def)

text \<open>Seen from a common base the comparison is that of the distances, if they are close.\<close>

lemma less_from_base:
  assumes "seq_dist z a \<le> seq_dist z b" "seq_dist z b - seq_dist z a < window"
  shows "less a b \<longleftrightarrow> seq_dist z a < seq_dist z b"
  using seq_dist_diff [OF assms(1)] assms(2) by (auto simp: less_iff)

lemma trans_close:
  assumes "less a b" "less b c" "seq_dist a b + seq_dist b c < window"
  shows "less a c"
proof -
  have "seq_dist a c = seq_dist a b + seq_dist b c"
    using assms(3) window_le by (intro seq_dist_trans) simp
  with assms show ?thesis by (simp add: less_iff)
qed

end

subsection \<open>RtpUtils::sequenceNumberLessThan\<close>

definition sequenceNumberLessThan :: "u16 \<Rightarrow> u16 \<Rightarrow> bool" where
  "sequenceNumberLessThan a b = (let result = a - b in result > 0xF000)"

lemma sequenceNumberLessThan_iff:
  "sequenceNumberLessThan a b \<longleftrightarrow> 0 < seq_dist a b \<and> seq_dist a b < 4096"
proof (cases "a = b")
  case False
  have "sequenceNumberLessThan a b \<longleftrightarrow> 61440 < seq_dist b a"
    by (simp add: sequenceNumberLessThan_def word_less_nat_alt seq_dist_def)
  with False seq_dist_less [of a b] show ?thesis
    by (auto simp: seq_dist_rev [of a b] simp del: seq_dist_less)
qed (simp add: sequenceNumberLessThan_def)

interpretation rtp_less: circular_order sequenceNumberLessThan 4096
  by unfold_locales (auto simp: sequenceNumberLessThan_iff)

subsection \<open>RtpPacketQueue::rtpSequenceLessThan\<close>

definition rtpSequenceLessThan :: "u16 \<Rightarrow> u16 \<Rightarrow> bool" where
  "rtpSequenceLessThan x y =
     (let diff = int (unat y) - int (unat x)
      in if diff > 0 then diff < 0x8000 else if diff < 0 then diff < -0x8000 else False)"

lemma rtpSequenceLessThan_iff:
  "rtpSequenceLessThan a b \<longleftrightarrow> 0 < seq_dist a b \<and> seq_dist a b < 32768"
proof -
  define A B where "A = unat a" and "B = unat b"
  have lt: "A < 65536" "B < 65536" by (simp_all add: A_def B_def)
  have d: "seq_dist a b = (if A \<le> B then B - A else B + 65536 - A)"
    by (simp add: seq_dist_def unat_sub_u16 A_def B_def)
  show ?thesis
    unfolding rtpSequenceLessThan_def Let_def d A_def [symmetric] B_def [symmetric]
    using lt by auto
qed

interpretation queue_less: circular_order rtpSequenceLessThan 32768
  by unfold_locales (auto simp: rtpSequenceLessThan_iff)

end
