(* ===== verification/SeqTranslator.thy ===== *)
theory SeqTranslator
  imports SeqOrder
begin

text \<open>
  \<^verbatim>\<open>SequenceNumberTranslator\<close>: it renumbers a stream from which packets are dropped, or into
  which packets are inserted, so that the output has no gaps, and translates output numbers back
  for feedback. The two buffers are vectors of 1023 entries, only ever indexed modulo 1023; they
  are modelled as functions of that index.
\<close>

datatype SequenceNumberType = Valid | Skip | Discard | Generated

record SequenceNumber =
  sn_input :: u16
  sn_output :: u16
  sn_type :: SequenceNumberType

abbreviation SN :: "u16 \<Rightarrow> u16 \<Rightarrow> SequenceNumberType \<Rightarrow> SequenceNumber" where
  "SN i out t \<equiv> \<lparr>sn_input = i, sn_output = out, sn_type = t\<rparr>"

definition kMaxSequenceNumberInBuffer :: nat where
  "kMaxSequenceNumberInBuffer = 1023"

definition kMaxDistance :: u16 where
  "kMaxDistance = 500"

record translator =
  in_out_buffer :: "nat \<Rightarrow> SequenceNumber"
  out_in_buffer :: "nat \<Rightarrow> SequenceNumber"
  first_input_sequence_number :: u16
  last_input_sequence_number :: u16
  last_output_sequence_number :: u16
  offset :: u16
  snt_initialized :: bool
  snt_reset_pending :: bool

definition new_translator :: translator where
  "new_translator = \<lparr>in_out_buffer = (\<lambda>_. SN 0 0 Valid), out_in_buffer = (\<lambda>_. SN 0 0 Valid),
     first_input_sequence_number = 0, last_input_sequence_number = 0,
     last_output_sequence_number = 0, offset = 0, snt_initialized = False,
     snt_reset_pending = False\<rparr>"

definition slot :: "u16 \<Rightarrow> nat" where
  "slot n = unat n mod kMaxSequenceNumberInBuffer"

definition snt_add :: "SequenceNumber \<Rightarrow> translator \<Rightarrow> translator" where
  "snt_add sn t = t\<lparr>in_out_buffer := (in_out_buffer t)(slot (sn_input sn) := sn),
                    out_in_buffer := (out_in_buffer t)(slot (sn_output sn) := sn)\<rparr>"

text \<open>The loop of \<^verbatim>\<open>fill\<close>, from \<open>n\<close> up to \<open>lst\<close>; it returns the output number it got to.\<close>

function fill_loop :: "u16 \<Rightarrow> u16 \<Rightarrow> u16 \<Rightarrow> translator \<Rightarrow> translator \<times> u16" where
  "fill_loop n lst out t =
     (if sequenceNumberLessThan n lst
      then fill_loop (n + 1) lst (out + 1) (snt_add (SN n out Valid) t)
      else (t, out))"
  by pat_completeness auto
termination
proof (relation "measure (\<lambda>(n, lst, out, t). seq_dist n lst)")
  fix n lst out :: u16 and t :: translator
  assume "sequenceNumberLessThan n lst"
  then have "n \<noteq> lst" by (auto simp: sequenceNumberLessThan_iff)
  then have "seq_dist n lst = Suc (seq_dist (n + 1) lst)" by (rule seq_dist_Suc)
  then show "((n + 1, lst, out + 1, snt_add (SN n out Valid) t), (n, lst, out, t))
      \<in> measure (\<lambda>(n, lst, out, t). seq_dist n lst)"
    by simp
qed simp

declare fill_loop.simps [simp del]

text \<open>
  \<^verbatim>\<open>fill\<close> calls itself for the two halves of a range that wraps around; a half does not wrap, so
  \<open>fill_straight\<close> is the call's body below that test.
\<close>

definition fill_straight :: "u16 \<Rightarrow> u16 \<Rightarrow> translator \<Rightarrow> translator \<times> u16" where
  "fill_straight first_sn last_sn t =
     fill_loop first_sn last_sn (last_output_sequence_number t + offset t + 1) t"

definition snt_fill :: "u16 \<Rightarrow> u16 \<Rightarrow> translator \<Rightarrow> translator \<times> u16" where
  "snt_fill first_sn last_sn t =
     (let t' = (if last_sn < first_sn
                then fst (fill_straight 0 last_sn (fst (fill_straight first_sn 65535 t)))
                else t)
      in fill_straight first_sn last_sn t')"

definition internalGet :: "u16 \<Rightarrow> translator \<Rightarrow> SequenceNumber" where
  "internalGet n t = in_out_buffer t (slot n)"

definition internalReverse :: "u16 \<Rightarrow> translator \<Rightarrow> SequenceNumber" where
  "internalReverse n t = out_in_buffer t (slot n)"

definition snt_get_const :: "u16 \<Rightarrow> translator \<Rightarrow> SequenceNumber" where
  "snt_get_const n t =
     (let result = in_out_buffer t (slot n)
      in if sn_input result = n then result else SN 0 0 Skip)"

definition snt_generate :: "translator \<Rightarrow> SequenceNumber \<times> translator" where
  "snt_generate t =
     (let t = t\<lparr>offset := offset t + 1\<rparr>;
          output_sequence_number = offset t + last_output_sequence_number t;
          sn = SN 0 output_sequence_number Generated
      in (sn, t\<lparr>out_in_buffer := (out_in_buffer t)(slot (sn_output sn) := sn)\<rparr>))"

definition updateLastOutputSequenceNumber :: "bool \<Rightarrow> u16 \<Rightarrow> translator \<Rightarrow> translator" where
  "updateLastOutputSequenceNumber skip out t =
     (let first_packet = \<not> snt_initialized t \<and> \<not> (snt_reset_pending t \<or> offset t > 0)
      in if \<not> skip \<and> (sequenceNumberLessThan (last_output_sequence_number t) out \<or> first_packet)
         then t\<lparr>last_output_sequence_number := out\<rparr> else t)"

text \<open>\<^verbatim>\<open>get(input, skip)\<close>, one definition per branch.\<close>

definition snt_get_first :: "u16 \<Rightarrow> bool \<Rightarrow> translator \<Rightarrow> SequenceNumber \<times> translator" where
  "snt_get_first inp skip t =
     (let typ = (if skip then Skip else Valid);
          out = (if snt_reset_pending t \<or> offset t > 0
                 then last_output_sequence_number t + offset t + 1 else inp);
          t = snt_add (SN inp out typ) t;
          t = updateLastOutputSequenceNumber skip out t;
          t = (if \<not> skip
               then t\<lparr>last_input_sequence_number := inp, first_input_sequence_number := inp,
                      snt_initialized := True, snt_reset_pending := False, offset := 0\<rparr>
               else t)
      in (snt_get_const inp t, t))"

definition snt_get_ahead :: "u16 \<Rightarrow> bool \<Rightarrow> translator \<Rightarrow> SequenceNumber \<times> translator" where
  "snt_get_ahead inp skip t =
     (let (t, out) = snt_fill (last_input_sequence_number t + 1) inp t;
          typ = (if skip then Skip else Valid);
          t = updateLastOutputSequenceNumber skip out t;
          t = snt_add (SN inp out typ) t;
          t = t\<lparr>last_input_sequence_number := inp\<rparr>;
          t = (if sequenceNumberLessThan (first_input_sequence_number t)
                    (last_input_sequence_number t - kMaxDistance)
               then t\<lparr>first_input_sequence_number := last_input_sequence_number t - kMaxDistance\<rparr>
               else t);
          info = snt_get_const inp t;
          t = (if \<not> skip then t\<lparr>offset := 0\<rparr> else t)
      in (info, t))"

text \<open>
  In the branch for packets not ahead of the last one, the code changes the entry it found in
  place, through a reference into each buffer.
\<close>

definition snt_get_late :: "u16 \<Rightarrow> bool \<Rightarrow> translator \<Rightarrow> SequenceNumber \<times> translator" where
  "snt_get_late inp skip t =
     (let result = internalGet inp t;
          (result, t) =
            (if sn_type result = Valid
             then (let typ = (if skip then Discard else Valid);
                       rev = internalReverse (sn_output result) t;
                       result' = result\<lparr>sn_type := typ\<rparr>
                   in (result',
                       t\<lparr>out_in_buffer := (out_in_buffer t)(slot (sn_output result) := rev\<lparr>sn_type := typ\<rparr>),
                         in_out_buffer := (in_out_buffer t)(slot inp := result')\<rparr>))
             else (result, t));
          t = updateLastOutputSequenceNumber skip (sn_output result) t
      in (result, t))"

definition snt_get :: "u16 \<Rightarrow> bool \<Rightarrow> translator \<Rightarrow> SequenceNumber \<times> translator" where
  "snt_get inp skip t =
     (if \<not> snt_initialized t then snt_get_first inp skip t
      else if sequenceNumberLessThan inp (first_input_sequence_number t) then (SN inp 0 Skip, t)
      else if sequenceNumberLessThan (last_input_sequence_number t) inp then snt_get_ahead inp skip t
      else snt_get_late inp skip t)"

definition snt_reverse :: "u16 \<Rightarrow> translator \<Rightarrow> SequenceNumber" where
  "snt_reverse out t =
     (let result = out_in_buffer t (slot out)
      in if sn_output result \<noteq> out
            \<or> sequenceNumberLessThan (sn_input result) (first_input_sequence_number t)
            \<or> sequenceNumberLessThan (last_input_sequence_number t) (sn_input result)
         then SN 0 out Discard else result)"

definition snt_reset :: "translator \<Rightarrow> translator" where
  "snt_reset t =
     (if \<not> snt_initialized t then t
      else t\<lparr>snt_initialized := False, snt_reset_pending := True, first_input_sequence_number := 0,
             last_input_sequence_number := 0, in_out_buffer := (\<lambda>_. SN 0 0 Valid),
             out_in_buffer := (\<lambda>_. SN 0 0 Valid)\<rparr>)"

end
