(* ===== verification/SeqTranslatorProps.thy ===== *)
theory SeqTranslatorProps
  imports SeqTranslator
begin

text \<open>
  What the translator promises: the two halves \<^verbatim>\<open>fill\<close> writes for a range that wraps around are
  redundant; a packet ahead of the last one gets the next free output number; an abstract
  counter machine that the detailed one refines; and from it, that the numbers of the packets
  sent form an interval.
\<close>

subsection \<open>The loop of fill, as two runs of writes\<close>

definition in_writes :: "u16 \<Rightarrow> u16 \<Rightarrow> nat \<Rightarrow> (nat \<times> SequenceNumber) list" where
  "in_writes n out d = map (\<lambda>k. (slot (n + of_nat k), SN (n + of_nat k) (out + of_nat k) Valid)) [0..<d]"

definition out_writes :: "u16 \<Rightarrow> u16 \<Rightarrow> nat \<Rightarrow> (nat \<times> SequenceNumber) list" where
  "out_writes n out d = map (\<lambda>k. (slot (out + of_nat k), SN (n + of_nat k) (out + of_nat k) Valid)) [0..<d]"

definition write_both :: "u16 \<Rightarrow> u16 \<Rightarrow> nat \<Rightarrow> translator \<Rightarrow> translator" where
  "write_both n out d t =
     t\<lparr>in_out_buffer := write_all (in_writes n out d) (in_out_buffer t),
       out_in_buffer := write_all (out_writes n out d) (out_in_buffer t)\<rparr>"

lemma writes_0 [simp]: "in_writes n out 0 = []" "out_writes n out 0 = []"
  by (simp_all add: in_writes_def out_writes_def)

lemma writes_Suc:
  "in_writes n out (Suc d) = (slot n, SN n out Valid) # in_writes (n + 1) (out + 1) d"
  "out_writes n out (Suc d) = (slot out, SN n out Valid) # out_writes (n + 1) (out + 1) d"
  by (simp_all add: in_writes_def out_writes_def map_upt_Suc del: upt_Suc) (simp_all add: algebra_simps)

lemma fill_loop_eq:
  "seq_dist n lst < 4096 \<Longrightarrow>
   fill_loop n lst out t = (write_both n out (seq_dist n lst) t, out + of_nat (seq_dist n lst))"
proof (induction n lst out t rule: fill_loop.induct)
  case (1 n lst out t)
  show ?case
  proof (cases "n = lst")
    case True
    then show ?thesis
      by (simp add: fill_loop.simps [of lst lst] sequenceNumberLessThan_iff write_both_def)
  next
    case False
    then have d: "seq_dist n lst = Suc (seq_dist (n + 1) lst)" by (rule seq_dist_Suc)
    have l: "sequenceNumberLessThan n lst"
      using False "1.prems" by (simp add: sequenceNumberLessThan_iff)
    show ?thesis
      using "1.IH" [OF l] "1.prems" l
      by (simp add: fill_loop.simps [of n lst] d write_both_def writes_Suc snt_add_def algebra_simps)
  qed
qed

lemma write_both_simps [simp]:
  "last_output_sequence_number (write_both n out d t) = last_output_sequence_number t"
  "last_input_sequence_number (write_both n out d t) = last_input_sequence_number t"
  "first_input_sequence_number (write_both n out d t) = first_input_sequence_number t"
  "offset (write_both n out d t) = offset t"
  "snt_initialized (write_both n out d t) = snt_initialized t"
  "snt_reset_pending (write_both n out d t) = snt_reset_pending t"
  "in_out_buffer (write_both n out d t) = write_all (in_writes n out d) (in_out_buffer t)"
  "out_in_buffer (write_both n out d t) = write_all (out_writes n out d) (out_in_buffer t)"
  by (simp_all add: write_both_def)

lemma fst_in_writes: "fst ` set (in_writes n out d) = {slot (n + of_nat k) | k. k < d}"
  and fst_out_writes: "fst ` set (out_writes n out d) = {slot (out + of_nat k) | k. k < d}"
  by (simp_all add: in_writes_def out_writes_def image_image atLeast0LessThan setcompr_eq_image
      lessThan_def)

lemma write_both_absorb:
  assumes "\<And>k. k < d' \<Longrightarrow> \<exists>j < d. n' + of_nat k = n + of_nat j" "d' \<le> d"
  shows "write_both n out d (write_both n' out d' t) = write_both n out d t"
proof -
  have "fst ` set (in_writes n' out d') \<subseteq> fst ` set (in_writes n out d)"
  proof
    fix x assume "x \<in> fst ` set (in_writes n' out d')"
    then obtain k where "k < d'" and x: "x = slot (n' + of_nat k)"
      by (auto simp: fst_in_writes)
    with assms(1) [of k] show "x \<in> fst ` set (in_writes n out d)" by (auto simp: fst_in_writes)
  qed
  moreover have "fst ` set (out_writes n' out d') \<subseteq> fst ` set (out_writes n out d)"
    using assms(2) by (auto simp: fst_out_writes)
  ultimately show ?thesis by (simp add: write_both_def write_all_absorb)
qed

lemma fill_straight_eq:
  "seq_dist f l < 4096 \<Longrightarrow> fill_straight f l t =
     (write_both f (last_output_sequence_number t + offset t + 1) (seq_dist f l) t,
      last_output_sequence_number t + offset t + 1 + of_nat (seq_dist f l))"
  by (simp add: fill_straight_def fill_loop_eq)

lemma fill_halves:
  assumes "seq_dist f l < 4096"
  shows "snt_fill f l t = fill_straight f l t"
proof (cases "l < f")
  case False
  then show ?thesis by (simp add: snt_fill_def Let_def)
next
  case True
  let ?o = "last_output_sequence_number t + offset t + 1" and ?d = "seq_dist f l"
  let ?a = "seq_dist f 65535" and ?b = "seq_dist 0 l"
  have lt: "unat l < unat f" "unat f \<le> 65535"
    using True unat_u16_less [of f] by (simp_all add: word_less_nat_alt less_Suc_eq_le del: unat_u16_less)
  have a: "?a = 65535 - unat f" and b: "?b = unat l" and d: "?d = unat l + 65536 - unat f"
    using lt by (simp_all add: seq_dist_def unat_sub_u16)
  have le: "?a \<le> ?d" "?b \<le> ?d" and small: "?a < 4096" "?b < 4096" "?a + 1 + ?b = ?d"
    using assms lt a b d by linarith+
  have w1: "\<exists>j < ?d. f + of_nat k = f + of_nat j" if "k < ?a" for k
    using less_le_trans [OF that le(1)] by blast
  have w2: "\<exists>j < ?d. 0 + of_nat k = f + of_nat j" if "k < ?b" for k
  proof (intro exI conjI)
    show "?a + 1 + k < ?d" using that small(3) by linarith
    have "f + of_nat (?a + 1 + k) = (f + of_nat ?a) + 1 + of_nat k" by (simp add: algebra_simps)
    also have "\<dots> = 65535 + 1 + of_nat k" by (simp only: add_seq_dist)
    also have "\<dots> = 0 + of_nat k" by simp
    finally show "0 + of_nat k = f + of_nat (?a + 1 + k)" by (rule sym)
  qed
  have "snt_fill f l t = fill_straight f l
      (write_both 0 ?o ?b (write_both f ?o ?a t))"
    using True small by (simp add: snt_fill_def fill_straight_eq)
  also have "\<dots> = (write_both f ?o ?d (write_both 0 ?o ?b (write_both f ?o ?a t)), ?o + of_nat ?d)"
    using assms by (simp add: fill_straight_eq)
  also have "\<dots> = (write_both f ?o ?d t, ?o + of_nat ?d)"
    using write_both_absorb [OF w2 le(2)] write_both_absorb [OF w1 le(1)] by simp
  finally show ?thesis using assms by (simp add: fill_straight_eq)
qed

subsection \<open>A packet ahead of the last one\<close>

definition snt_inv :: "translator \<Rightarrow> bool" where
  "snt_inv t \<longleftrightarrow> snt_initialized t
     \<and> seq_dist (first_input_sequence_number t) (last_input_sequence_number t) \<le> 500"

lemma kMaxDistance_of_nat: "kMaxDistance = of_nat 500"
  by (simp add: kMaxDistance_def)

lemma window_move:
  assumes "seq_dist f n \<le> 4595"
  shows "sequenceNumberLessThan f (n - kMaxDistance) \<longleftrightarrow> 500 < seq_dist f n"
    and "500 < seq_dist f n \<Longrightarrow> seq_dist (n - kMaxDistance) n = 500"
proof -
  have m: "seq_dist f (n - kMaxDistance) =
      (if 500 \<le> seq_dist f n then seq_dist f n - 500 else seq_dist f n + 65536 - 500)"
    using seq_dist_minus [of 500 f n] by (simp add: kMaxDistance_def)
  have z: "f \<noteq> n - kMaxDistance \<longleftrightarrow> 0 < seq_dist f (n - kMaxDistance)" by simp
  show "sequenceNumberLessThan f (n - kMaxDistance) \<longleftrightarrow> 500 < seq_dist f n"
    unfolding sequenceNumberLessThan_iff z m using assms by auto
  show "seq_dist (n - kMaxDistance) n = 500"
    by (simp add: seq_dist_def kMaxDistance_def)
qed

lemma fill_next:
  assumes "0 < seq_dist l n" "seq_dist l n < 4096"
  shows "snt_fill (l + 1) n t =
    (write_both (l + 1) (last_output_sequence_number t + offset t + 1) (seq_dist l n - 1) t,
     last_output_sequence_number t + offset t + of_nat (seq_dist l n))"
proof -
  have d: "seq_dist l n = Suc (seq_dist (l + 1) n)"
    using assms(1) by (intro seq_dist_Suc) simp
  then show ?thesis
    using assms(2) by (simp add: fill_halves fill_straight_eq)
qed

lemma snt_get_ahead_branch:
  assumes "snt_inv t" "0 < seq_dist (last_input_sequence_number t) inp"
    "seq_dist (last_input_sequence_number t) inp < 4096"
  shows "snt_get inp skip t = snt_get_ahead inp skip t"
    and "seq_dist (first_input_sequence_number t) inp \<le> 4595"
proof -
  let ?f = "first_input_sequence_number t" and ?l = "last_input_sequence_number t"
  have D: "seq_dist ?f inp = seq_dist ?f ?l + seq_dist ?l inp"
    using assms by (intro seq_dist_trans) (simp add: snt_inv_def)
  then show "seq_dist ?f inp \<le> 4595" using assms by (simp add: snt_inv_def)
  have "0 < seq_dist ?f inp" using D assms(2) by linarith
  then have "seq_dist inp ?f = 65536 - seq_dist ?f inp" by (intro seq_dist_rev) auto
  then have "\<not> sequenceNumberLessThan inp ?f"
    using \<open>seq_dist ?f inp \<le> 4595\<close> by (simp add: sequenceNumberLessThan_iff)
  moreover have "sequenceNumberLessThan ?l inp"
    using assms by (simp add: sequenceNumberLessThan_iff)
  ultimately show "snt_get inp skip t = snt_get_ahead inp skip t"
    using assms(1) by (simp add: snt_get_def snt_inv_def)
qed

lemma snt_add_simps [simp]:
  "last_output_sequence_number (snt_add sn t) = last_output_sequence_number t"
  "last_input_sequence_number (snt_add sn t) = last_input_sequence_number t"
  "first_input_sequence_number (snt_add sn t) = first_input_sequence_number t"
  "offset (snt_add sn t) = offset t" "snt_initialized (snt_add sn t) = snt_initialized t"
  "snt_reset_pending (snt_add sn t) = snt_reset_pending t"
  "in_out_buffer (snt_add sn t) (slot (sn_input sn)) = sn"
  "out_in_buffer (snt_add sn t) (slot (sn_output sn)) = sn"
  by (simp_all add: snt_add_def)

lemma updateLast_simps [simp]:
  "in_out_buffer (updateLastOutputSequenceNumber s out t) = in_out_buffer t"
  "out_in_buffer (updateLastOutputSequenceNumber s out t) = out_in_buffer t"
  "last_input_sequence_number (updateLastOutputSequenceNumber s out t) = last_input_sequence_number t"
  "first_input_sequence_number (updateLastOutputSequenceNumber s out t) = first_input_sequence_number t"
  "offset (updateLastOutputSequenceNumber s out t) = offset t"
  "snt_initialized (updateLastOutputSequenceNumber s out t) = snt_initialized t"
  "snt_reset_pending (updateLastOutputSequenceNumber s out t) = snt_reset_pending t"
  by (simp_all add: updateLastOutputSequenceNumber_def Let_def)

text \<open>One packet ahead: its number, and the state after it.\<close>

lemma snt_get_ahead_spec:
  fixes t inp skip
  defines "d \<equiv> seq_dist (last_input_sequence_number t) inp"
  defines "out \<equiv> last_output_sequence_number t + offset t + of_nat d"
  assumes "snt_inv t" "0 < d" "d < 4096"
  shows "fst (snt_get inp skip t) = SN inp out (if skip then Skip else Valid)"
    and "last_input_sequence_number (snd (snt_get inp skip t)) = inp"
    and "offset (snd (snt_get inp skip t)) = (if skip then offset t else 0)"
    and "last_output_sequence_number (snd (snt_get inp skip t)) =
      (if \<not> skip \<and> sequenceNumberLessThan (last_output_sequence_number t) out
       then out else last_output_sequence_number t)"
    and "snt_inv (snd (snt_get inp skip t))"
    and "out_in_buffer (snd (snt_get inp skip t)) (slot out) = SN inp out (if skip then Skip else Valid)"
proof -
  note b = snt_get_ahead_branch [OF assms(3) assms(4,5) [unfolded d_def]]
  note f = fill_next [OF assms(4,5) [unfolded d_def], where t = t, folded d_def, folded out_def]
  note w = window_move [OF b(2)]
  have i: "snt_initialized t" using assms(3) by (simp add: snt_inv_def)
  show "fst (snt_get inp skip t) = SN inp out (if skip then Skip else Valid)"
    by (simp add: b(1) snt_get_ahead_def f snt_get_const_def Let_def snt_add_def)
  show "last_input_sequence_number (snd (snt_get inp skip t)) = inp"
    "offset (snd (snt_get inp skip t)) = (if skip then offset t else 0)"
    by (simp_all add: b(1) snt_get_ahead_def f Let_def)
  show "last_output_sequence_number (snd (snt_get inp skip t)) =
      (if \<not> skip \<and> sequenceNumberLessThan (last_output_sequence_number t) out
       then out else last_output_sequence_number t)"
    using i by (simp add: b(1) snt_get_ahead_def f Let_def updateLastOutputSequenceNumber_def)
  show "snt_inv (snd (snt_get inp skip t))"
    using w i by (auto simp add: b(1) snt_get_ahead_def f Let_def snt_inv_def)
  show "out_in_buffer (snd (snt_get inp skip t)) (slot out) = SN inp out (if skip then Skip else Valid)"
    by (simp add: b(1) snt_get_ahead_def f Let_def snt_add_def)
qed

subsection \<open>The abstract translator\<close>

text \<open>
  The contract: the last input number, the last output number, and how many packets were
  generated since. A packet \<open>d\<close> steps ahead gets the number \<open>d\<close> steps after the last one used; a
  skipped packet uses no number.
\<close>

record counter =
  last_in :: u16
  last_out :: u16
  generated :: u16

datatype snt_op = Packet u16 bool | Generate

definition counter_of :: "translator \<Rightarrow> counter" where
  "counter_of t = \<lparr>last_in = last_input_sequence_number t, last_out = last_output_sequence_number t,
                   generated = offset t\<rparr>"

fun counter_step :: "snt_op \<Rightarrow> counter \<Rightarrow> u16 \<times> counter" where
  "counter_step (Packet inp skip) c =
     (let out = last_out c + generated c + (inp - last_in c)
      in (out, if skip then c\<lparr>last_in := inp\<rparr>
               else c\<lparr>last_in := inp, last_out := out, generated := 0\<rparr>))"
| "counter_step Generate c =
     (last_out c + generated c + 1, c\<lparr>generated := generated c + 1\<rparr>)"

fun snt_step :: "snt_op \<Rightarrow> translator \<Rightarrow> SequenceNumber \<times> translator" where
  "snt_step (Packet inp skip) t = snt_get inp skip t"
| "snt_step Generate t = snt_generate t"

text \<open>The window of the sequence number comparison bounds how far one step may go.\<close>

fun in_window :: "snt_op \<Rightarrow> counter \<Rightarrow> bool" where
  "in_window (Packet inp skip) c \<longleftrightarrow>
     inp \<noteq> last_in c \<and> unat (generated c) + seq_dist (last_in c) inp < 4096"
| "in_window Generate c \<longleftrightarrow> True"

lemma translator_refines_counter_all:
  assumes "snt_inv t" "in_window p (counter_of t)"
  shows "sn_output (fst (snt_step p t)) = fst (counter_step p (counter_of t))
    \<and> counter_of (snd (snt_step p t)) = snd (counter_step p (counter_of t))
    \<and> snt_inv (snd (snt_step p t))"
proof (cases p)
  case Generate
  then show ?thesis
    using assms(1) by (simp add: snt_generate_def Let_def counter_of_def snt_inv_def algebra_simps)
next
  case (Packet inp skip)
  let ?d = "seq_dist (last_input_sequence_number t) inp"
  have d: "0 < ?d" "?d < 4096" "unat (offset t) + ?d < 4096"
    using assms(2) by (auto simp: Packet counter_of_def)
  have o: "of_nat ?d = inp - last_input_sequence_number t" by (simp add: seq_dist_def)
  have "offset t + of_nat ?d = of_nat (unat (offset t) + ?d)" by simp
  then have "sequenceNumberLessThan (last_output_sequence_number t)
      (last_output_sequence_number t + (offset t + of_nat ?d))"
    using d by (simp add: rtp_less.less_add del: of_nat_add)
  then have less: "sequenceNumberLessThan (last_output_sequence_number t)
      (last_output_sequence_number t + offset t + (inp - last_input_sequence_number t))"
    by (simp add: o add.assoc)
  show ?thesis
    using snt_get_ahead_spec [OF assms(1) d(1,2), of skip] less
    by (simp add: Packet counter_of_def Let_def o)
qed

subsection \<open>A stream without losses\<close>

text \<open>
  Every packet is the successor of the one before, and fewer than a comparison window of packets
  are generated between two of them. Such a stream may be of any length, and wrap.
\<close>

fun paced :: "snt_op list \<Rightarrow> u16 \<Rightarrow> nat \<Rightarrow> bool" where
  "paced [] l g \<longleftrightarrow> True"
| "paced (Packet inp skip # ops) l g \<longleftrightarrow>
     inp = l + 1 \<and> g + 1 < 4096 \<and> paced ops inp (if skip then g else 0)"
| "paced (Generate # ops) l g \<longleftrightarrow> g + 1 < 4096 \<and> paced ops l (g + 1)"

fun snt_run :: "snt_op list \<Rightarrow> translator \<Rightarrow> SequenceNumber list \<times> translator" where
  "snt_run [] t = ([], t)"
| "snt_run (p # ops) t =
     (let (sn, t) = snt_step p t; (sns, t) = snt_run ops t in (sn # sns, t))"

lemma snt_run_Cons:
  "snt_run (p # ops) t =
     (fst (snt_step p t) # fst (snt_run ops (snd (snt_step p t))), snd (snt_run ops (snd (snt_step p t))))"
  by (simp add: case_prod_beta Let_def)

declare snt_run.simps(2) [simp del]

definition sent :: "SequenceNumber \<Rightarrow> bool" where
  "sent sn \<longleftrightarrow> sn_type sn = Valid \<or> sn_type sn = Generated"

lemma paced_in_window:
  "paced (p # ops) (last_in c) (unat (generated c)) \<Longrightarrow> in_window p c"
proof (cases p)
  case (Packet inp skip)
  assume "paced (p # ops) (last_in c) (unat (generated c))"
  then show ?thesis by (simp add: Packet seq_dist_def)
qed simp

lemma paced_next:
  assumes "snt_inv t" "paced (p # ops) (last_input_sequence_number t) (unat (offset t))"
  shows "snt_inv (snd (snt_step p t))"
    and "counter_of (snd (snt_step p t)) = snd (counter_step p (counter_of t))"
    and "sn_output (fst (snt_step p t)) = fst (counter_step p (counter_of t))"
    and "paced ops (last_input_sequence_number (snd (snt_step p t))) (unat (offset (snd (snt_step p t))))"
proof -
  have w: "in_window p (counter_of t)"
    using assms(2) paced_in_window [of p ops "counter_of t"] by (simp add: counter_of_def)
  note r = translator_refines_counter_all [OF assms(1) w]
  show "snt_inv (snd (snt_step p t))"
    "counter_of (snd (snt_step p t)) = snd (counter_step p (counter_of t))"
    "sn_output (fst (snt_step p t)) = fst (counter_step p (counter_of t))"
    using r by simp_all
  have c: "last_input_sequence_number t' = last_in (counter_of t')"
    "offset t' = generated (counter_of t')" for t'
    by (simp_all add: counter_of_def)
  show "paced ops (last_input_sequence_number (snd (snt_step p t))) (unat (offset (snd (snt_step p t))))"
  proof (cases p)
    case (Packet inp skip)
    then have "last_input_sequence_number (snd (snt_step p t)) = inp"
      "offset (snd (snt_step p t)) = (if skip then offset t else 0)"
      using r unfolding c by (simp_all add: Let_def)
    then show ?thesis using assms(2) by (simp add: Packet split: if_splits)
  next
    case Generate
    then show ?thesis
      using assms(2) by (simp add: snt_generate_def Let_def unat_Suc_u16 split: if_splits)
  qed
qed

fun uses_number :: "snt_op \<Rightarrow> bool" where
  "uses_number (Packet inp skip) \<longleftrightarrow> \<not> skip"
| "uses_number Generate \<longleftrightarrow> True"

lemma sent_step:
  assumes "snt_inv t" "in_window p (counter_of t)"
  shows "sent (fst (snt_step p t)) \<longleftrightarrow> uses_number p"
proof (cases p)
  case (Packet inp skip)
  let ?d = "seq_dist (last_input_sequence_number t) inp"
  have "0 < ?d" "?d < 4096" using assms(2) by (auto simp: Packet counter_of_def)
  then show ?thesis
    using snt_get_ahead_spec(1) [OF assms(1), of inp skip] by (simp add: Packet sent_def)
qed (simp add: snt_generate_def Let_def sent_def)

lemma no_gaps:
  assumes "snt_inv t" "paced ops (last_input_sequence_number t) (unat (offset t))"
  shows "map sn_output (filter sent (fst (snt_run ops t)))
       = map (\<lambda>k. last_output_sequence_number t + offset t + 1 + of_nat k)
           [0..<length (filter uses_number ops)]"
  using assms
proof (induction ops arbitrary: t)
  case (Cons p ops)
  let ?t = "snd (snt_step p t)" and ?s = "fst (snt_step p t)"
  have w: "in_window p (counter_of t)"
    using Cons.prems(2) paced_in_window [of p ops "counter_of t"] by (simp add: counter_of_def)
  note n = paced_next [OF Cons.prems]
  note IH = Cons.IH [OF n(1) n(4)]
  have run: "fst (snt_run (p # ops) t) = ?s # fst (snt_run ops ?t)"
    by (simp add: snt_run_Cons)
  have c: "last_output_sequence_number t' + offset t' = last_out (counter_of t') + generated (counter_of t')"
    for t' by (simp add: counter_of_def)
  show ?case
  proof (cases "uses_number p")
    case False
    then have "\<not> sent ?s" using sent_step [OF Cons.prems(1) w] by simp
    moreover have "last_output_sequence_number ?t + offset ?t = last_output_sequence_number t + offset t"
      using False unfolding c n(2) by (cases p) (auto simp: Let_def)
    ultimately show ?thesis using IH False by (simp add: run)
  next
    case True
    then have s: "sent ?s" using sent_step [OF Cons.prems(1) w] by simp
    have o: "sn_output ?s = last_output_sequence_number t + offset t + 1"
      and t: "last_output_sequence_number ?t + offset ?t = last_output_sequence_number t + offset t + 1"
      using True Cons.prems(2) unfolding c n(2,3)
      by (cases p; auto simp: counter_of_def Let_def)+
    show ?thesis
      using IH True by (simp add: run s o t map_upt_Suc algebra_simps del: upt_Suc)
  qed
qed simp

subsection \<open>Translating back\<close>

lemma window_bounds:
  assumes "seq_dist f n + seq_dist n l \<le> 500"
  shows "\<not> sequenceNumberLessThan n f" "\<not> sequenceNumberLessThan l n"
proof -
  show "\<not> sequenceNumberLessThan n f"
    using assms seq_dist_rev [of f n] by (cases "n = f") (auto simp: sequenceNumberLessThan_iff)
  show "\<not> sequenceNumberLessThan l n"
    using assms seq_dist_rev [of n l] by (cases "n = l") (auto simp: sequenceNumberLessThan_iff)
qed

lemma snt_reverse_window:
  assumes "snt_inv t" "out_in_buffer t (slot out) = SN inp out ty"
    "seq_dist (first_input_sequence_number t) inp + seq_dist inp (last_input_sequence_number t) \<le> 500"
  shows "snt_reverse out t = SN inp out ty"
  using window_bounds [OF assms(3)] by (simp add: snt_reverse_def assms(2))

lemma reverse_after_ahead:
  assumes "snt_inv t" "0 < seq_dist (last_input_sequence_number t) inp"
    "seq_dist (last_input_sequence_number t) inp < 4096"
  shows "snt_reverse (sn_output (fst (snt_get inp skip t))) (snd (snt_get inp skip t)) = fst (snt_get inp skip t)"
proof -
  note s = snt_get_ahead_spec [OF assms]
  have "snt_inv (snd (snt_get inp skip t))" by (rule s(5))
  then show ?thesis
    unfolding s(1) SequenceNumber.select_convs
    by (intro snt_reverse_window) (simp_all add: s(2) s(6) [of skip] snt_inv_def)
qed

lemma slot_period: "slot a = slot b \<longleftrightarrow> unat a mod 1023 = unat b mod 1023"
  by (simp add: slot_def kMaxSequenceNumberInBuffer_def)

text \<open>
  65536 is 64 more than a multiple of 1023, so two numbers 64 steps apart share a slot when the
  step from 65535 to 0 lies between them.
\<close>

lemma slot_alias_wrap:
  assumes "65472 \<le> unat a"
  shows "slot (a + 64) = slot a"
proof -
  have "unat (a + 64) = unat a + 64 - 65536"
    using assms unat_u16_less [of a] by (simp add: unat_add_u16 mod_if del: unat_u16_less)
  moreover obtain k where "unat a = 1023 * 64 + k" and "k < 64"
    using assms unat_u16_less [of a] by (intro that [of "unat a - 65472"]) (simp_all del: unat_u16_less)
  then have "unat a mod 1023 = k" by (simp only: mod_mult_self4) simp
  ultimately show ?thesis
    using \<open>unat a = 1023 * 64 + k\<close> \<open>k < 64\<close> by (simp add: slot_period)
qed

lemma snt_inv_first:
  "\<not> snt_initialized t \<Longrightarrow> snt_inv (snd (snt_get inp False t))"
  by (simp add: snt_get_def snt_get_first_def snt_inv_def Let_def)

subsection \<open>Packets that arrive late\<close>

lemma slot_inj:
  assumes "unat n + d \<le> 65536" "d \<le> 1023"
  shows "inj_on (\<lambda>j. slot (n + of_nat j)) {..<d}"
proof (rule inj_onI)
  have u: "unat (n + of_nat j) = unat n + j" if "j < d" for j
    using that assms(1) by (simp add: unat_add_u16 unat_of_nat)
  fix i j assume "i \<in> {..<d}" "j \<in> {..<d}" "slot (n + of_nat i) = slot (n + of_nat j)"
  then have m: "(unat n + i) mod 1023 = (unat n + j) mod 1023" and "i < 1023" "j < 1023"
    using assms(2) by (simp_all add: slot_period u)
  then show "i = j" by (intro mod_add_inj [of "unat n" i 1023 j])
qed

lemma gap_entry:
  assumes "k < d" "unat n + d \<le> 65536" "d \<le> 1023"
  shows "in_out_buffer (write_both n out d t) (slot (n + of_nat k)) = SN (n + of_nat k) (out + of_nat k) Valid"
  using write_all_nth [OF slot_inj [OF assms(2,3)] assms(1)]
  by (simp add: in_writes_def)

lemma snt_get_late_branch:
  assumes "snt_inv t" "in_out_buffer t (slot n) = SN n out Valid"
    "seq_dist (first_input_sequence_number t) n + seq_dist n (last_input_sequence_number t) \<le> 500"
  shows "fst (snt_get n skip t) = SN n out (if skip then Discard else Valid)"
  using window_bounds [OF assms(3)] assms(1,2)
  by (simp add: snt_get_def snt_inv_def snt_get_late_def internalGet_def Let_def)

lemma late_in_gap:
  fixes t inp n
  defines "d \<equiv> seq_dist (last_input_sequence_number t) inp"
  assumes "snt_inv t" "d \<le> 500" "0 < k" "k < d" "unat (last_input_sequence_number t) + d < 65536"
  shows "fst (snt_get (last_input_sequence_number t + of_nat k) False (snd (snt_get inp skip t)))
    = SN (last_input_sequence_number t + of_nat k) (last_output_sequence_number t + offset t + of_nat k) Valid"
proof -
  let ?l = "last_input_sequence_number t" and ?t = "snd (snt_get inp skip t)"
  let ?n = "?l + of_nat k"
  have d: "0 < seq_dist ?l inp" "seq_dist ?l inp < 4096" using assms by (auto simp del: seq_dist_pos_iff)
  note b = snt_get_ahead_branch [OF assms(2) d]
  note f = fill_next [OF d, where t = t, folded d_def]
  note s = snt_get_ahead_spec [OF assms(2) d]
  note w = window_move [OF b(2)]
  obtain j where k: "k = Suc j" using assms(4) by (cases k) auto
  have inp: "inp = ?l + 1 + of_nat (d - 1)"
    using assms add_seq_dist [of ?l inp] by (cases d) (simp_all add: algebra_simps)
  have n: "?n = ?l + 1 + of_nat j" by (simp add: k)
  have u: "unat (?l + 1) + d \<le> 65536"
    using assms by (auto simp: unat_Suc_u16)
  have inj: "inj_on (\<lambda>j. slot (?l + 1 + of_nat j)) {..<d}"
    using slot_inj [OF u] assms(3) by simp
  have "slot (?l + 1 + of_nat j) \<noteq> slot (?l + 1 + of_nat (d - 1))"
    by (subst inj_on_eq_iff [OF inj]) (use assms(4,5) k in auto)
  then have "slot ?n \<noteq> slot inp" by (simp only: n inp [symmetric] not_False_eq_True)
  moreover have "in_out_buffer ?t = (in_out_buffer (write_both (?l + 1)
      (last_output_sequence_number t + offset t + 1) (d - 1) t))
      (slot inp := fst (snt_get inp skip t))"
    by (simp add: b(1) snt_get_ahead_def f Let_def snt_add_def snt_get_const_def)
  moreover have "in_out_buffer (write_both (?l + 1) out (d - 1) t) (slot ?n) = SN ?n (out + of_nat j) Valid" for out
    unfolding n using assms u by (intro gap_entry) (auto simp: k)
  ultimately have e: "in_out_buffer ?t (slot ?n) = SN ?n (last_output_sequence_number t + offset t + of_nat k) Valid"
    by (simp add: k add.assoc)
  let ?f = "first_input_sequence_number t" and ?f' = "first_input_sequence_number ?t"
  have "?n = ?l + of_nat k" "inp = ?n + of_nat (d - k)"
    using assms(5) add_seq_dist [of ?l inp] by (simp_all add: d_def of_nat_diff)
  then have ln: "seq_dist ?l ?n = k" and ni: "seq_dist ?n inp = d - k"
    using assms(3,5) seq_dist_add [of k ?l] seq_dist_add [of "d - k" ?n] by simp_all
  have f': "?f' = (if 500 < seq_dist ?f inp then inp - kMaxDistance else ?f)"
    using w by (simp add: b(1) snt_get_ahead_def f Let_def)
  have win: "seq_dist ?f' ?n + seq_dist ?n (last_input_sequence_number ?t) \<le> 500"
  proof (cases "500 < seq_dist ?f inp")
    case True
    have "(inp - kMaxDistance) + of_nat (500 - (d - k)) = inp - of_nat (d - k)"
      using assms(3,5) by (simp add: kMaxDistance_def of_nat_diff)
    also have "\<dots> = ?n" by (subst \<open>inp = ?n + of_nat (d - k)\<close>) (rule add_diff_cancel_right')
    finally have "seq_dist (inp - kMaxDistance) ?n = 500 - (d - k)"
      using seq_dist_add [of "500 - (d - k)" "inp - kMaxDistance"] by simp
    then show ?thesis using True assms(3) by (simp add: f' s(2) ni)
  next
    case False
    have "seq_dist ?f ?l \<le> 500" using assms(2) by (simp add: snt_inv_def)
    then have "seq_dist ?f ?n = seq_dist ?f ?l + k" "seq_dist ?f inp = seq_dist ?f ?l + d"
      using seq_dist_trans [of ?f ?l ?n] seq_dist_trans [of ?f ?l inp] assms(3,5) by (simp_all add: ln d_def)
    then show ?thesis using False assms(5) by (simp add: f' s(2) ni)
  qed
  have "snt_inv ?t" by (rule s(5))
  from snt_get_late_branch [OF this e win, of False] show ?thesis by simp
qed

subsection \<open>The properties\<close>

text \<open>The witnesses start from the translator after one packet.\<close>

lemma first_packet:
  "last_input_sequence_number (snd (snt_get n False new_translator)) = n"
  "last_output_sequence_number (snd (snt_get n False new_translator)) = n"
  "offset (snd (snt_get n False new_translator)) = 0"
  "snt_inv (snd (snt_get n False new_translator))"
  by (simp_all add: snt_get_def snt_get_first_def snt_inv_def new_translator_def Let_def
      updateLastOutputSequenceNumber_def)

text \<open>
  C1: The translator refines the counter machine: as long as a packet is ahead of the last one by
  less than the comparison window, its output number, the numbers the translator keeps and its
  window invariant are those of the counter.
\<close>
theorem translator_refines_counter:
  assumes "snt_inv t" "in_window p (counter_of t)"
  shows "sn_output (fst (snt_step p t)) = fst (counter_step p (counter_of t))
    \<and> counter_of (snd (snt_step p t)) = snd (counter_step p (counter_of t))
    \<and> snt_inv (snd (snt_step p t))"
  by (rule translator_refines_counter_all [OF assms])

theorem translator_refines_counter_witness:
  "sn_output (fst (snt_step (Packet 14 False) (snd (snt_get 10 False new_translator)))) = 14"
proof -
  have "in_window (Packet 14 False) (counter_of (snd (snt_get 10 False new_translator)))"
    by (simp add: counter_of_def first_packet seq_dist_def)
  from translator_refines_counter [OF first_packet(4) this] show ?thesis
    by (simp add: counter_of_def first_packet Let_def)
qed



text \<open>
  The output number of a packet ahead of the last one translates back to that packet: the
  entry \<^verbatim>\<open>reverse\<close> returns for it is the one \<^verbatim>\<open>get\<close> returned.
\<close>
theorem reverse_of_get:
  assumes "snt_inv t" "0 < seq_dist (last_input_sequence_number t) inp"
    "seq_dist (last_input_sequence_number t) inp < 4096"
  shows "snt_reverse (sn_output (fst (snt_get inp skip t))) (snd (snt_get inp skip t)) = fst (snt_get inp skip t)"
  by (rule reverse_after_ahead [OF assms])

theorem reverse_of_get_witness:
  "sn_input (snt_reverse (sn_output (fst (snt_get 12 False (snd (snt_get 10 False new_translator)))))
     (snd (snt_get 12 False (snd (snt_get 10 False new_translator))))) = 12"
proof -
  let ?t = "snd (snt_get 10 False new_translator)"
  have d: "0 < seq_dist (last_input_sequence_number ?t) 12" "seq_dist (last_input_sequence_number ?t) 12 < 4096"
    by (simp_all add: first_packet del: seq_dist_pos_iff) (simp_all add: seq_dist_def)
  show ?thesis
    using reverse_of_get [OF first_packet(4) d, of False] snt_get_ahead_spec(1) [OF first_packet(4) d, of False]
    by simp
qed

text \<open>
  A packet lost in a gap keeps its place: when a packet arrives \<open>d\<close> numbers after the last
  one, a later \<^verbatim>\<open>get\<close> for the \<open>k\<close>-th number of the gap still yields the \<open>k\<close>-th output number,
  provided the gap fits the 500-packet window and does not wrap.
\<close>
theorem late_packet_keeps_place:
  assumes "snt_inv t" "seq_dist (last_input_sequence_number t) inp \<le> 500"
    "0 < k" "k < seq_dist (last_input_sequence_number t) inp"
    "unat (last_input_sequence_number t) + seq_dist (last_input_sequence_number t) inp < 65536"
  shows "fst (snt_get (last_input_sequence_number t + of_nat k) False (snd (snt_get inp skip t)))
    = SN (last_input_sequence_number t + of_nat k) (last_output_sequence_number t + offset t + of_nat k) Valid"
  by (rule late_in_gap [OF assms])

theorem late_packet_keeps_place_witness:
  "fst (snt_get 12 False (snd (snt_get 15 True (snd (snt_get 10 False new_translator))))) = SN 12 12 Valid"
proof -
  let ?t = "snd (snt_get 10 False new_translator)"
  have d: "seq_dist (last_input_sequence_number ?t) 15 = 5"
    by (simp add: first_packet seq_dist_def)
  show ?thesis
    using late_packet_keeps_place [OF first_packet(4), of 10 15 2 True] d
    by (simp add: first_packet)
qed

text \<open>
  A stream that is reset goes on where it was: whatever number its next packet has, the
  output number is the one after the last number sent or generated.
\<close>
theorem reset_continues_output:
  assumes "snt_initialized t"
  shows "fst (snt_get inp False (snt_reset t))
    = SN inp (last_output_sequence_number t + offset t + 1) Valid"
  using assms
  by (simp add: snt_reset_def snt_get_def snt_get_first_def Let_def snt_get_const_def snt_add_def)

theorem reset_continues_output_witness:
  "fst (snt_get 4000 False (snt_reset (snd (snt_get 10 False new_translator)))) = SN 4000 11 Valid"
proof -
  have "snt_initialized (snd (snt_get 10 False new_translator))"
    using first_packet(4) snt_inv_def by blast
  from reset_continues_output [OF this] show ?thesis by (simp add: first_packet)
qed

text \<open>
  The two halves that \<^verbatim>\<open>fill\<close> writes first when its range wraps around are redundant: the
  last loop writes every slot they wrote.
\<close>
theorem fill_halves_redundant:
  assumes "seq_dist f l < 4096"
  shows "snt_fill f l t = fill_straight f l t"
  by (rule fill_halves [OF assms])

theorem fill_halves_redundant_witness:
  "snt_fill 65530 3 new_translator = fill_straight 65530 3 new_translator"
  by (rule fill_halves_redundant) (simp add: seq_dist_def)

text \<open>
  Across the step from 65535 to 0 the buffers forget too early: 65536 is not a multiple of
  1023, so the packet whose output number is 64 after that of an earlier packet takes its slot,
  and feedback about the earlier one is discarded although it is well inside the window of 500.
\<close>
theorem reverse_forgets_across_wrap:
  assumes "snt_inv t" "0 < seq_dist (last_input_sequence_number t) inp"
    "seq_dist (last_input_sequence_number t) inp < 4096"
    "65472 \<le> unat out" "sn_output (fst (snt_get inp skip t)) = out + 64"
  shows "snt_reverse out (snd (snt_get inp skip t)) = SN 0 out Discard"
  using snt_get_ahead_spec(1) [OF assms(1-3), of skip] snt_get_ahead_spec(6) [OF assms(1-3), of skip]
    assms(5) slot_alias_wrap [OF assms(4)]
  by (simp add: snt_reverse_def)

theorem reverse_forgets_across_wrap_witness:
  "snt_reverse 65500 (snd (snt_get 28 False (snd (snt_get 65500 False new_translator)))) = SN 0 65500 Discard"
proof -
  let ?t = "snd (snt_get 65500 False new_translator)"
  have d: "0 < seq_dist (last_input_sequence_number ?t) 28" "seq_dist (last_input_sequence_number ?t) 28 < 4096"
    by (simp_all add: first_packet del: seq_dist_pos_iff) (simp_all add: seq_dist_def)
  show ?thesis
    using snt_get_ahead_spec(1) [OF first_packet(4) d, of False]
    by (intro reverse_forgets_across_wrap [OF first_packet(4) d]) (simp_all add: first_packet seq_dist_def)
qed

text \<open>
  When a packet is skipped after a gap, the next packet takes the number the lost packet of
  the gap holds: packets 6, 8 (skipped) and 9 arrive, then 7 arrives late, and 9 and 7 both go
  out as number 7.
\<close>
lemma skip_after_gap_duplicates:
  "fst (snt_run [Packet 8 True, Packet 9 False, Packet 7 False] (snd (snt_get 6 False new_translator)))
   = [SN 8 8 Skip, SN 9 7 Valid, SN 7 7 Valid]"
  by code_simp

end
