(* ===== verification/Wire.thy ===== *)
theory Wire
  imports Prelude
begin

text \<open>
  Packet memory and byte order. The code reads headers by casting a \<^verbatim>\<open>char*\<close> into a packet
  to a struct of bit fields; a buffer is modelled as the function from offsets to bytes, and a
  struct member as a little-endian load or store at its offset (the layout of the System V ABI,
  which the code assumes). \<^verbatim>\<open>ntohs\<close>, \<^verbatim>\<open>ntohl\<close> and their inverses are the
  byte swaps of that machine.

  The locale \<open>wire_field\<close> is the interface every header field offers: what a getter returns after
  the setter, and that the setter leaves every bit outside the field's footprint alone.
\<close>

type_synonym mem = "nat \<Rightarrow> u8"

subsection \<open>Bytes of a word\<close>

definition byteN :: "'a::len word \<Rightarrow> nat \<Rightarrow> u8" where
  "byteN w k = ucast (drop_bit (8 * k) w)"

definition join16 :: "u8 \<Rightarrow> u8 \<Rightarrow> u16" where
  "join16 b0 b1 = ucast b0 OR push_bit 8 (ucast b1)"

definition join32 :: "u8 \<Rightarrow> u8 \<Rightarrow> u8 \<Rightarrow> u8 \<Rightarrow> u32" where
  "join32 b0 b1 b2 b3 =
     ucast b0 OR push_bit 8 (ucast b1) OR push_bit 16 (ucast b2) OR push_bit 24 (ucast b3)"

definition join64 :: "u32 \<Rightarrow> u32 \<Rightarrow> u64" where
  "join64 lo hi = ucast lo OR push_bit 32 (ucast hi)"

lemma bit_byteN: "bit (byteN w k) n \<longleftrightarrow> n < 8 \<and> bit w (8 * k + n)"
  by (auto simp: byteN_def bit_simps add.commute)

lemma byteN_join16 [simp, wire_simps]:
  "byteN (join16 b0 b1) 0 = b0" "byteN (join16 b0 b1) (Suc 0) = b1"
  by (rule bit_word_eqI, force simp: bit_byteN join16_def bit_simps dest: bit_imp_le_length)+

lemma byteN_join32 [simp, wire_simps]:
  "byteN (join32 b0 b1 b2 b3) 0 = b0" "byteN (join32 b0 b1 b2 b3) (Suc 0) = b1"
  "byteN (join32 b0 b1 b2 b3) 2 = b2" "byteN (join32 b0 b1 b2 b3) 3 = b3"
  by (rule bit_word_eqI, force simp: bit_byteN join32_def bit_simps dest: bit_imp_le_length)+

lemma u16_bytes_eqI: "byteN v 0 = byteN w 0 \<Longrightarrow> byteN v (Suc 0) = byteN w (Suc 0) \<Longrightarrow> v = (w :: u16)"
proof (rule bit_word_eqI)
  fix n assume e: "byteN v 0 = byteN w 0" "byteN v (Suc 0) = byteN w (Suc 0)" and n: "n < LENGTH(16)"
  then consider "n < 8" | "8 \<le> n" "n - 8 < 8" by fastforce
  then show "bit v n = bit w n"
    using arg_cong [OF e(1), of "\<lambda>x. bit x n"] arg_cong [OF e(2), of "\<lambda>x. bit x (n - 8)"]
    by cases (auto simp: bit_byteN)
qed

lemma u32_bytes_eqI:
  assumes e: "byteN v 0 = byteN w 0" "byteN v (Suc 0) = byteN w (Suc 0)" "byteN v 2 = byteN w 2"
    "byteN v 3 = byteN w 3"
  shows "v = (w :: u32)"
proof (rule bit_word_eqI)
  fix n assume n: "n < LENGTH(32)"
  then consider "n < 8" | "8 \<le> n" "n - 8 < 8" | "16 \<le> n" "n - 16 < 8" | "24 \<le> n" "n - 24 < 8"
    by fastforce
  then show "bit v n = bit w n"
    using arg_cong [OF e(1), of "\<lambda>x. bit x n"] arg_cong [OF e(2), of "\<lambda>x. bit x (n - 8)"]
      arg_cong [OF e(3), of "\<lambda>x. bit x (n - 16)"] arg_cong [OF e(4), of "\<lambda>x. bit x (n - 24)"]
    by cases (auto simp: bit_byteN)
qed

lemma join16_bytes [simp, wire_simps]: "join16 (byteN w 0) (byteN w (Suc 0)) = w"
  by (rule u16_bytes_eqI) simp_all

lemma join32_bytes [simp, wire_simps]:
  "join32 (byteN w 0) (byteN w (Suc 0)) (byteN w 2) (byteN w 3) = w"
  by (rule u32_bytes_eqI) simp_all

lemma join16_eq_iff [simp]: "join16 a b = join16 c d \<longleftrightarrow> a = c \<and> b = d"
  by (metis byteN_join16)

lemma join32_eq_iff [simp]: "join32 a b c d = join32 e f g h \<longleftrightarrow> a = e \<and> b = f \<and> c = g \<and> d = h"
  by (metis byteN_join32)

lemma byteN_ucast32_16 [simp, wire_simps]:
  "byteN (ucast (w :: u16) :: u32) 0 = byteN w 0"
  "byteN (ucast (w :: u16) :: u32) (Suc 0) = byteN w (Suc 0)"
  by (rule bit_word_eqI, force simp: bit_byteN bit_simps)+

subsection \<open>Byte order\<close>

definition ntohs :: "u16 \<Rightarrow> u16" where
  "ntohs w = join16 (byteN w 1) (byteN w 0)"

definition htons :: "u16 \<Rightarrow> u16" where
  "htons w = join16 (byteN w 1) (byteN w 0)"

definition ntohl :: "u32 \<Rightarrow> u32" where
  "ntohl w = join32 (byteN w 3) (byteN w 2) (byteN w 1) (byteN w 0)"

definition htonl :: "u32 \<Rightarrow> u32" where
  "htonl w = join32 (byteN w 3) (byteN w 2) (byteN w 1) (byteN w 0)"

lemma ntohs_htons [simp, wire_simps]: "ntohs (htons w) = w" "htons (ntohs w) = w"
  by (simp_all add: ntohs_def htons_def)

lemma ntohl_htonl [simp, wire_simps]: "ntohl (htonl w) = w" "htonl (ntohl w) = w"
  by (simp_all add: ntohl_def htonl_def)

subsection \<open>Loads and stores\<close>

definition load16 :: "mem \<Rightarrow> nat \<Rightarrow> u16" where
  "load16 m p = join16 (m p) (m (p + 1))"

definition load24 :: "mem \<Rightarrow> nat \<Rightarrow> u32" where
  "load24 m p = join32 (m p) (m (p + 1)) (m (p + 2)) 0"

definition load32 :: "mem \<Rightarrow> nat \<Rightarrow> u32" where
  "load32 m p = join32 (m p) (m (p + 1)) (m (p + 2)) (m (p + 3))"

definition load64 :: "mem \<Rightarrow> nat \<Rightarrow> u64" where
  "load64 m p = join64 (load32 m p) (load32 m (p + 4))"

definition store8 :: "nat \<Rightarrow> u8 \<Rightarrow> mem \<Rightarrow> mem" where
  "store8 p b m = m(p := b)"

definition store16 :: "nat \<Rightarrow> u16 \<Rightarrow> mem \<Rightarrow> mem" where
  "store16 p w m = m(p := byteN w 0, p + 1 := byteN w 1)"

definition store24 :: "nat \<Rightarrow> u32 \<Rightarrow> mem \<Rightarrow> mem" where
  "store24 p w m = m(p := byteN w 0, p + 1 := byteN w 1, p + 2 := byteN w 2)"

definition store32 :: "nat \<Rightarrow> u32 \<Rightarrow> mem \<Rightarrow> mem" where
  "store32 p w m = m(p := byteN w 0, p + 1 := byteN w 1, p + 2 := byteN w 2, p + 3 := byteN w 3)"

lemma load16_store16 [simp, wire_simps]: "load16 (store16 p w m) p = w"
  by (simp add: load16_def store16_def)

lemma load32_store32 [simp, wire_simps]: "load32 (store32 p w m) p = w"
  by (simp add: load32_def store32_def)

lemma byteN_24bits [simp, wire_simps]:
  "byteN (w AND 0xFFFFFF :: u32) 0 = byteN w 0" "byteN (w AND 0xFFFFFF :: u32) (Suc 0) = byteN w (Suc 0)"
  "byteN (w AND 0xFFFFFF :: u32) 2 = byteN w 2" "byteN (w AND 0xFFFFFF :: u32) 3 = 0"
proof -
  have m: "(0xFFFFFF :: u32) = mask 24" by (simp add: mask_eq_exp_minus_1)
  show "byteN (w AND 0xFFFFFF) 0 = byteN w 0" "byteN (w AND 0xFFFFFF) (Suc 0) = byteN w (Suc 0)"
    "byteN (w AND 0xFFFFFF) 2 = byteN w 2" "byteN (w AND 0xFFFFFF) 3 = 0"
    unfolding m by (rule bit_word_eqI, force simp: bit_byteN bit_simps)+
qed

lemma load24_store24 [simp, wire_simps]: "load24 (store24 p w m) p = w AND 0xFFFFFF"
  by (intro u32_bytes_eqI) (simp_all add: load24_def store24_def)

lemma store_other:
  "i \<noteq> p \<Longrightarrow> store8 p b m i = m i"
  "i < p \<or> p + 2 \<le> i \<Longrightarrow> store16 p w m i = m i"
  "i < p \<or> p + 3 \<le> i \<Longrightarrow> store24 p v m i = m i"
  "i < p \<or> p + 4 \<le> i \<Longrightarrow> store32 p v m i = m i"
  by (auto simp: store8_def store16_def store24_def store32_def)

text \<open>\<^verbatim>\<open>memcpy (buffer + at, from, n)\<close> and \<^verbatim>\<open>memset (buffer + at, b, n)\<close>.\<close>

definition copy_mem :: "nat \<Rightarrow> mem \<Rightarrow> nat \<Rightarrow> mem \<Rightarrow> mem" where
  "copy_mem at from n m = (\<lambda>i. if at \<le> i \<and> i < at + n then from (i - at) else m i)"

definition fill_mem :: "nat \<Rightarrow> u8 \<Rightarrow> nat \<Rightarrow> mem \<Rightarrow> mem" where
  "fill_mem at b n m = (\<lambda>i. if at \<le> i \<and> i < at + n then b else m i)"

subsection \<open>Bit fields\<close>

definition get_bits :: "nat \<Rightarrow> nat \<Rightarrow> u8 \<Rightarrow> u8" where
  "get_bits s n b = take_bit n (drop_bit s b)"

definition put_bits :: "nat \<Rightarrow> nat \<Rightarrow> u8 \<Rightarrow> u8 \<Rightarrow> u8" where
  "put_bits s n v b = (b AND NOT (push_bit s (mask n))) OR push_bit s (take_bit n v)"

lemma bit_put_bits:
  "bit (put_bits s n v b) j \<longleftrightarrow> j < 8 \<and> (if s \<le> j \<and> j < s + n then bit v (j - s) else bit b j)"
  by (auto simp: put_bits_def bit_simps)

lemma get_put_bits: "s + n \<le> 8 \<Longrightarrow> get_bits s n (put_bits s n v b) = take_bit n v"
  by (rule bit_word_eqI) (auto simp: get_bits_def bit_simps bit_put_bits)

lemma get_put_bits_other:
  "s + n \<le> t \<or> t + k \<le> s \<Longrightarrow> get_bits t k (put_bits s n v b) = get_bits t k b"
  by (rule bit_word_eqI) (auto simp: get_bits_def bit_simps bit_put_bits dest: bit_imp_le_length)

lemma unat_get_bits_less: "unat (get_bits s n b) < 2 ^ n"
  by (simp add: get_bits_def unsigned_take_bit_eq)

subsection \<open>The interface of a header field\<close>

text \<open>
  \<open>norm\<close> is what the width of the field does to the value stored (the identity for a field as wide
  as its setter's argument, a truncation for a bit field); \<open>foot\<close> tells which bits of which bytes the
  field occupies.
\<close>

locale wire_field =
  fixes get :: "mem \<Rightarrow> 'v"
    and put :: "'v \<Rightarrow> mem \<Rightarrow> mem"
    and norm :: "'v \<Rightarrow> 'v"
    and foot :: "nat \<Rightarrow> nat \<Rightarrow> bool"
  assumes get_put: "get (put v m) = norm v"
    and frame: "\<not> foot i j \<Longrightarrow> bit (put v m i) j = bit (m i) j"
    and footprint: "(\<And>i j. foot i j \<Longrightarrow> bit (m i) j = bit (m' i) j) \<Longrightarrow> get m = get m'"
begin

lemma put_put: "get (put w (put v m)) = norm w"
  by (rule get_put)

lemma bytes_outside: "(\<And>j. \<not> foot i j) \<Longrightarrow> put v m i = m i"
  by (rule bit_word_eqI) (simp add: frame)

end

locale disjoint_fields =
  a: wire_field get put norm foot + b: wire_field get' put' norm' foot'
  for get :: "mem \<Rightarrow> 'v" and put norm foot
    and get' :: "mem \<Rightarrow> 'w" and put' norm' foot' +
  assumes disjoint: "foot i j \<Longrightarrow> \<not> foot' i j"
begin

lemma get_other: "get' (put v m) = get' m"
  by (rule b.footprint) (meson a.frame disjoint)

lemma get_other': "get (put' w m) = get m"
  by (rule a.footprint) (meson b.frame disjoint)

lemma both_survive: "get (put' w (put v m)) = norm v \<and> get' (put' w (put v m)) = norm' w"
  by (simp add: get_other' a.get_put b.get_put)

end

subsection \<open>The three shapes of field the headers are made of\<close>

lemma bits_wire_field:
  assumes "s + n \<le> 8"
  shows "wire_field (\<lambda>m. get_bits s n (m p)) (\<lambda>v m. store8 p (put_bits s n v (m p)) m) (take_bit n)
    (\<lambda>i j. i = p \<and> s \<le> j \<and> j < s + n)"
proof
  show "get_bits s n (m p) = get_bits s n (m' p)"
    if "\<And>i j. i = p \<and> s \<le> j \<and> j < s + n \<Longrightarrow> bit (m i) j = bit (m' i) j" for m m' :: mem
    by (rule bit_word_eqI) (use that in \<open>auto simp: get_bits_def bit_simps\<close>)
qed (use assms in \<open>auto simp: store8_def get_put_bits bit_put_bits dest: bit_imp_le_length\<close>)

lemma u16_wire_field:
  "wire_field (\<lambda>m. ntohs (load16 m p)) (\<lambda>v m. store16 p (htons v) m) id
    (\<lambda>i j. p \<le> i \<and> i < p + 2)"
proof
  show "ntohs (load16 m p) = ntohs (load16 m' p)"
    if "\<And>i j. p \<le> i \<and> i < p + 2 \<Longrightarrow> bit (m i) j = bit (m' i) j" for m m' :: mem
  proof -
    have "m p = m' p" "m (Suc p) = m' (Suc p)"
      by (rule bit_word_eqI, use that in simp)+
    then show ?thesis by (simp add: load16_def)
  qed
qed (auto simp: store_other)

lemma u32_wire_field:
  "wire_field (\<lambda>m. ntohl (load32 m p)) (\<lambda>v m. store32 p (htonl v) m) id
    (\<lambda>i j. p \<le> i \<and> i < p + 4)"
proof
  show "ntohl (load32 m p) = ntohl (load32 m' p)"
    if "\<And>i j. p \<le> i \<and> i < p + 4 \<Longrightarrow> bit (m i) j = bit (m' i) j" for m m' :: mem
  proof -
    have "m i = m' i" if "p \<le> i" "i < p + 4" for i
      by (rule bit_word_eqI) (use that \<open>\<And>i j. p \<le> i \<and> i < p + 4 \<Longrightarrow> bit (m i) j = bit (m' i) j\<close> in blast)
    then show ?thesis by (simp add: load32_def)
  qed
qed (auto simp: store_other)

lemma load_cong:
  "(\<And>i. p \<le> i \<Longrightarrow> i < p + 2 \<Longrightarrow> m i = m' i) \<Longrightarrow> load16 m p = load16 m' p"
  "(\<And>i. p \<le> i \<Longrightarrow> i < p + 4 \<Longrightarrow> m i = m' i) \<Longrightarrow> load32 m p = load32 m' p"
  by (simp_all add: load16_def load32_def)

lemma byteN_drop_bit_8 [simp, wire_simps]:
  "byteN (drop_bit 8 w :: u32) 0 = byteN w (Suc 0)" "byteN (drop_bit 8 w :: u32) (Suc 0) = byteN w 2"
  "byteN (drop_bit 8 w :: u32) 2 = byteN w 3" "byteN (drop_bit 8 w :: u32) 3 = 0"
  by (rule bit_word_eqI, force simp: bit_byteN bit_drop_bit_eq dest: bit_imp_le_length)+

end
