(* ===== verification/Media.thy ===== *)
theory Media
  imports Wire
begin

text \<open>
  \<^verbatim>\<open>MediaDefinitions.h\<close>: the packet that travels through the pipeline, the SSRCs a source
  and a sink announce, and what a handler may do with a packet (\<^verbatim>\<open>ctx->fireRead\<close>,
  \<^verbatim>\<open>ctx->fireWrite\<close>). A handler is modelled as a function that returns its new state
  and the list of those calls, in the order it makes them.
\<close>

datatype packetType = VIDEO_PACKET | AUDIO_PACKET | OTHER_PACKET

record dataPacket =
  comp :: int
  data :: mem
  packet_length :: int
  packet_type :: packetType
  received_time_ms :: u64
  compatible_spatial_layers :: "int list"
  compatible_temporal_layers :: "int list"
  is_keyframe :: bool
  ending_of_layer_frame :: bool
  picture_id :: int
  codec :: string

definition zero_mem :: mem where
  "zero_mem = (\<lambda>_. 0)"

text \<open>
  The constructor used by the code: it copies \<open>len\<close> bytes into the packet. The bytes it leaves
  uninitialised are 0 in the model; no operation of the model depends on them.
\<close>

definition new_dataPacket :: "int \<Rightarrow> mem \<Rightarrow> int \<Rightarrow> packetType \<Rightarrow> u64 \<Rightarrow> dataPacket" where
  "new_dataPacket c d len t now =
     \<lparr>comp = c, data = copy_mem 0 d (nat len) zero_mem, packet_length = len, packet_type = t,
      received_time_ms = now, compatible_spatial_layers = [], compatible_temporal_layers = [],
      is_keyframe = False, ending_of_layer_frame = False, picture_id = -1, codec = ''''\<rparr>"

definition belongsToSpatialLayer :: "dataPacket \<Rightarrow> int \<Rightarrow> bool" where
  "belongsToSpatialLayer p l \<longleftrightarrow> l \<in> set (compatible_spatial_layers p)"

definition belongsToTemporalLayer :: "dataPacket \<Rightarrow> int \<Rightarrow> bool" where
  "belongsToTemporalLayer p l \<longleftrightarrow> l \<in> set (compatible_temporal_layers p)"

datatype fire = FireRead dataPacket | FireWrite dataPacket

primrec fired :: "fire \<Rightarrow> dataPacket" where
  "fired (FireRead p) = p"
| "fired (FireWrite p) = p"

subsection \<open>Sinks and sources\<close>

record mediaSink =
  audio_sink_ssrc :: u32
  video_sink_ssrc :: u32

definition new_mediaSink :: mediaSink where
  "new_mediaSink = \<lparr>audio_sink_ssrc = 0, video_sink_ssrc = 0\<rparr>"

definition isVideoSinkSSRC :: "mediaSink \<Rightarrow> u32 \<Rightarrow> bool" where
  "isVideoSinkSSRC s ssrc \<longleftrightarrow> ssrc = video_sink_ssrc s"

definition isAudioSinkSSRC :: "mediaSink \<Rightarrow> u32 \<Rightarrow> bool" where
  "isAudioSinkSSRC s ssrc \<longleftrightarrow> ssrc = audio_sink_ssrc s"

record mediaSource =
  audio_source_ssrc :: u32
  video_source_ssrc_list :: "u32 list"

definition new_mediaSource :: mediaSource where
  "new_mediaSource = \<lparr>audio_source_ssrc = 0, video_source_ssrc_list = [0]\<rparr>"

text \<open>Reading element 0 of an empty list is undefined behaviour of the code: \<open>None\<close>.\<close>

definition getVideoSourceSSRC :: "mediaSource \<Rightarrow> u32 option" where
  "getVideoSourceSSRC s =
     (case video_source_ssrc_list s of [] \<Rightarrow> None | x # _ \<Rightarrow> Some x)"

definition setVideoSourceSSRC :: "u32 \<Rightarrow> mediaSource \<Rightarrow> mediaSource option" where
  "setVideoSourceSSRC ssrc s =
     (case video_source_ssrc_list s of [] \<Rightarrow> None
      | _ # xs \<Rightarrow> Some (s\<lparr>video_source_ssrc_list := ssrc # xs\<rparr>))"

definition setVideoSourceSSRCList :: "u32 list \<Rightarrow> mediaSource \<Rightarrow> mediaSource" where
  "setVideoSourceSSRCList xs s = s\<lparr>video_source_ssrc_list := xs\<rparr>"

definition isVideoSourceSSRC :: "mediaSource \<Rightarrow> u32 \<Rightarrow> bool" where
  "isVideoSourceSSRC s ssrc \<longleftrightarrow> ssrc \<in> set (video_source_ssrc_list s)"

definition isAudioSourceSSRC :: "mediaSource \<Rightarrow> u32 \<Rightarrow> bool" where
  "isAudioSourceSSRC s ssrc \<longleftrightarrow> audio_source_ssrc s = ssrc"

lemma set_get_VideoSourceSSRC:
  "setVideoSourceSSRC ssrc s = Some s' \<Longrightarrow> getVideoSourceSSRC s' = Some ssrc"
  by (auto simp: setVideoSourceSSRC_def getVideoSourceSSRC_def split: list.splits)

lemma getVideoSourceSSRC_isVideo: "getVideoSourceSSRC s = Some x \<Longrightarrow> isVideoSourceSSRC s x"
  by (auto simp: getVideoSourceSSRC_def isVideoSourceSSRC_def split: list.splits)

end
