(* ===== verification/RtpHeader.thy ===== *)
theory RtpHeader
  imports Media
begin

text \<open>
  The RTP half of \<^verbatim>\<open>RtpHeaders.h\<close>: \<^verbatim>\<open>RtpHeader\<close> (at the start of
  a packet's buffer), the absolute send time extension, the retransmission header and the RED
  header, every getter and setter as a load or store at the member's offset. The bit fields of one
  byte are laid out from the least significant bit, as the compiler does on a little-endian machine.
\<close>

subsection \<open>RtpHeader\<close>

definition rtp_MIN_SIZE :: nat where
  "rtp_MIN_SIZE = 12"

text \<open>The constructor: every member it initialises, the version 2 (the top bits of byte 0).\<close>

definition new_RtpHeader :: "mem \<Rightarrow> mem" where
  "new_RtpHeader m = fill_mem 1 0 15 (store8 0 0x80 m)"

definition hasPadding :: "mem \<Rightarrow> u8" where
  "hasPadding m = get_bits 5 1 (m 0)"

definition setPadding :: "u8 \<Rightarrow> mem \<Rightarrow> mem" where
  "setPadding v m = store8 0 (put_bits 5 1 v (m 0)) m"

definition getVersion :: "mem \<Rightarrow> u8" where
  "getVersion m = get_bits 6 2 (m 0)"

definition setVersion :: "u8 \<Rightarrow> mem \<Rightarrow> mem" where
  "setVersion v m = store8 0 (put_bits 6 2 v (m 0)) m"

definition getMarker :: "mem \<Rightarrow> u8" where
  "getMarker m = get_bits 7 1 (m 1)"

definition setMarker :: "u8 \<Rightarrow> mem \<Rightarrow> mem" where
  "setMarker v m = store8 1 (put_bits 7 1 v (m 1)) m"

definition getExtension :: "mem \<Rightarrow> u8" where
  "getExtension m = get_bits 4 1 (m 0)"

definition setExtension :: "u8 \<Rightarrow> mem \<Rightarrow> mem" where
  "setExtension v m = store8 0 (put_bits 4 1 v (m 0)) m"

definition getCc :: "mem \<Rightarrow> u8" where
  "getCc m = get_bits 0 4 (m 0)"

definition setCc :: "u8 \<Rightarrow> mem \<Rightarrow> mem" where
  "setCc v m = store8 0 (put_bits 0 4 v (m 0)) m"

definition getPayloadType :: "mem \<Rightarrow> u8" where
  "getPayloadType m = get_bits 0 7 (m 1)"

definition setPayloadType :: "u8 \<Rightarrow> mem \<Rightarrow> mem" where
  "setPayloadType v m = store8 1 (put_bits 0 7 v (m 1)) m"

definition getSeqNumber :: "mem \<Rightarrow> u16" where
  "getSeqNumber m = ntohs (load16 m 2)"

definition setSeqNumber :: "u16 \<Rightarrow> mem \<Rightarrow> mem" where
  "setSeqNumber v m = store16 2 (htons v) m"

definition getTimestamp :: "mem \<Rightarrow> u32" where
  "getTimestamp m = ntohl (load32 m 4)"

definition setTimestamp :: "u32 \<Rightarrow> mem \<Rightarrow> mem" where
  "setTimestamp v m = store32 4 (htonl v) m"

definition getSSRC :: "mem \<Rightarrow> u32" where
  "getSSRC m = ntohl (load32 m 8)"

definition setSSRC :: "u32 \<Rightarrow> mem \<Rightarrow> mem" where
  "setSSRC v m = store32 8 (htonl v) m"

definition getExtId :: "mem \<Rightarrow> u16" where
  "getExtId m = ntohs (load16 m 12)"

definition setExtId :: "u16 \<Rightarrow> mem \<Rightarrow> mem" where
  "setExtId v m = store16 12 (htons v) m"

definition getExtLength :: "mem \<Rightarrow> u16" where
  "getExtLength m = ntohs (load16 m 14)"

definition setExtLength :: "u16 \<Rightarrow> mem \<Rightarrow> mem" where
  "setExtLength v m = store16 14 (htons v) m"

definition getHeaderLength :: "mem \<Rightarrow> nat" where
  "getHeaderLength m = rtp_MIN_SIZE + unat (getCc m) * 4
     + unat (getExtension m) * (4 + unat (ntohs (load16 m 14)) * 4)"

subsection \<open>Every member is a field of its own\<close>

interpretation rtp_cc: wire_field getCc setCc "take_bit 4"
  "\<lambda>i j. i = 0 \<and> 0 \<le> j \<and> j < 0 + 4"
  unfolding getCc_def [abs_def] setCc_def [abs_def] by (rule bits_wire_field) simp

interpretation rtp_ext: wire_field getExtension setExtension "take_bit 1"
  "\<lambda>i j. i = 0 \<and> 4 \<le> j \<and> j < 4 + 1"
  unfolding getExtension_def [abs_def] setExtension_def [abs_def] by (rule bits_wire_field) simp

interpretation rtp_padding: wire_field hasPadding setPadding "take_bit 1"
  "\<lambda>i j. i = 0 \<and> 5 \<le> j \<and> j < 5 + 1"
  unfolding hasPadding_def [abs_def] setPadding_def [abs_def] by (rule bits_wire_field) simp

interpretation rtp_version: wire_field getVersion setVersion "take_bit 2"
  "\<lambda>i j. i = 0 \<and> 6 \<le> j \<and> j < 6 + 2"
  unfolding getVersion_def [abs_def] setVersion_def [abs_def] by (rule bits_wire_field) simp

interpretation rtp_payload: wire_field getPayloadType setPayloadType "take_bit 7"
  "\<lambda>i j. i = 1 \<and> 0 \<le> j \<and> j < 0 + 7"
  unfolding getPayloadType_def [abs_def] setPayloadType_def [abs_def] by (rule bits_wire_field) simp

interpretation rtp_marker: wire_field getMarker setMarker "take_bit 1"
  "\<lambda>i j. i = 1 \<and> 7 \<le> j \<and> j < 7 + 1"
  unfolding getMarker_def [abs_def] setMarker_def [abs_def] by (rule bits_wire_field) simp

interpretation rtp_seq: wire_field getSeqNumber setSeqNumber id "\<lambda>i j. 2 \<le> i \<and> i < 2 + 2"
  unfolding getSeqNumber_def [abs_def] setSeqNumber_def [abs_def] by (rule u16_wire_field)

interpretation rtp_timestamp: wire_field getTimestamp setTimestamp id "\<lambda>i j. 4 \<le> i \<and> i < 4 + 4"
  unfolding getTimestamp_def [abs_def] setTimestamp_def [abs_def] by (rule u32_wire_field)

interpretation rtp_ssrc: wire_field getSSRC setSSRC id "\<lambda>i j. 8 \<le> i \<and> i < 8 + 4"
  unfolding getSSRC_def [abs_def] setSSRC_def [abs_def] by (rule u32_wire_field)

interpretation rtp_extid: wire_field getExtId setExtId id "\<lambda>i j. 12 \<le> i \<and> i < 12 + 2"
  unfolding getExtId_def [abs_def] setExtId_def [abs_def] by (rule u16_wire_field)

interpretation rtp_extlen: wire_field getExtLength setExtLength id "\<lambda>i j. 14 \<le> i \<and> i < 14 + 2"
  unfolding getExtLength_def [abs_def] setExtLength_def [abs_def] by (rule u16_wire_field)

text \<open>The pairs of members the handlers rely on: writing one does not disturb the other.\<close>

interpretation rtp_seq_timestamp: disjoint_fields
  getSeqNumber setSeqNumber id "\<lambda>i j. 2 \<le> i \<and> i < 2 + 2"
  getTimestamp setTimestamp id "\<lambda>i j. 4 \<le> i \<and> i < 4 + 4"
  by unfold_locales auto

interpretation rtp_seq_ssrc: disjoint_fields
  getSeqNumber setSeqNumber id "\<lambda>i j. 2 \<le> i \<and> i < 2 + 2"
  getSSRC setSSRC id "\<lambda>i j. 8 \<le> i \<and> i < 8 + 4"
  by unfold_locales auto

interpretation rtp_timestamp_ssrc: disjoint_fields
  getTimestamp setTimestamp id "\<lambda>i j. 4 \<le> i \<and> i < 4 + 4"
  getSSRC setSSRC id "\<lambda>i j. 8 \<le> i \<and> i < 8 + 4"
  by unfold_locales auto

interpretation rtp_marker_seq: disjoint_fields
  getMarker setMarker "take_bit 1" "\<lambda>i j. i = 1 \<and> 7 \<le> j \<and> j < 7 + 1"
  getSeqNumber setSeqNumber id "\<lambda>i j. 2 \<le> i \<and> i < 2 + 2"
  by unfold_locales auto

interpretation rtp_marker_payload: disjoint_fields
  getMarker setMarker "take_bit 1" "\<lambda>i j. i = 1 \<and> 7 \<le> j \<and> j < 7 + 1"
  getPayloadType setPayloadType "take_bit 7" "\<lambda>i j. i = 1 \<and> 0 \<le> j \<and> j < 0 + 7"
  by unfold_locales auto

interpretation rtp_padding_cc: disjoint_fields
  hasPadding setPadding "take_bit 1" "\<lambda>i j. i = 0 \<and> 5 \<le> j \<and> j < 5 + 1"
  getCc setCc "take_bit 4" "\<lambda>i j. i = 0 \<and> 0 \<le> j \<and> j < 0 + 4"
  by unfold_locales auto

interpretation rtp_padding_seq: disjoint_fields
  hasPadding setPadding "take_bit 1" "\<lambda>i j. i = 0 \<and> 5 \<le> j \<and> j < 5 + 1"
  getSeqNumber setSeqNumber id "\<lambda>i j. 2 \<le> i \<and> i < 2 + 2"
  by unfold_locales auto

interpretation rtp_padding_timestamp: disjoint_fields
  hasPadding setPadding "take_bit 1" "\<lambda>i j. i = 0 \<and> 5 \<le> j \<and> j < 5 + 1"
  getTimestamp setTimestamp id "\<lambda>i j. 4 \<le> i \<and> i < 4 + 4"
  by unfold_locales auto

interpretation rtp_padding_ssrc: disjoint_fields
  hasPadding setPadding "take_bit 1" "\<lambda>i j. i = 0 \<and> 5 \<le> j \<and> j < 5 + 1"
  getSSRC setSSRC id "\<lambda>i j. 8 \<le> i \<and> i < 8 + 4"
  by unfold_locales auto

interpretation rtp_padding_marker: disjoint_fields
  hasPadding setPadding "take_bit 1" "\<lambda>i j. i = 0 \<and> 5 \<le> j \<and> j < 5 + 1"
  getMarker setMarker "take_bit 1" "\<lambda>i j. i = 1 \<and> 7 \<le> j \<and> j < 7 + 1"
  by unfold_locales auto

interpretation rtp_padding_payload: disjoint_fields
  hasPadding setPadding "take_bit 1" "\<lambda>i j. i = 0 \<and> 5 \<le> j \<and> j < 5 + 1"
  getPayloadType setPayloadType "take_bit 7" "\<lambda>i j. i = 1 \<and> 0 \<le> j \<and> j < 0 + 7"
  by unfold_locales auto

interpretation rtp_marker_timestamp: disjoint_fields
  getMarker setMarker "take_bit 1" "\<lambda>i j. i = 1 \<and> 7 \<le> j \<and> j < 7 + 1"
  getTimestamp setTimestamp id "\<lambda>i j. 4 \<le> i \<and> i < 4 + 4"
  by unfold_locales auto

interpretation rtp_marker_ssrc: disjoint_fields
  getMarker setMarker "take_bit 1" "\<lambda>i j. i = 1 \<and> 7 \<le> j \<and> j < 7 + 1"
  getSSRC setSSRC id "\<lambda>i j. 8 \<le> i \<and> i < 8 + 4"
  by unfold_locales auto

interpretation rtp_payload_seq: disjoint_fields
  getPayloadType setPayloadType "take_bit 7" "\<lambda>i j. i = 1 \<and> 0 \<le> j \<and> j < 0 + 7"
  getSeqNumber setSeqNumber id "\<lambda>i j. 2 \<le> i \<and> i < 2 + 2"
  by unfold_locales auto

interpretation rtp_payload_timestamp: disjoint_fields
  getPayloadType setPayloadType "take_bit 7" "\<lambda>i j. i = 1 \<and> 0 \<le> j \<and> j < 0 + 7"
  getTimestamp setTimestamp id "\<lambda>i j. 4 \<le> i \<and> i < 4 + 4"
  by unfold_locales auto

interpretation rtp_payload_ssrc: disjoint_fields
  getPayloadType setPayloadType "take_bit 7" "\<lambda>i j. i = 1 \<and> 0 \<le> j \<and> j < 0 + 7"
  getSSRC setSSRC id "\<lambda>i j. 8 \<le> i \<and> i < 8 + 4"
  by unfold_locales auto

lemmas rtp_setters_disjoint [simp, wire_simps] =
  rtp_seq_timestamp.get_other rtp_seq_timestamp.get_other' rtp_seq_ssrc.get_other
  rtp_seq_ssrc.get_other' rtp_timestamp_ssrc.get_other rtp_timestamp_ssrc.get_other'
  rtp_marker_seq.get_other rtp_marker_seq.get_other' rtp_marker_payload.get_other
  rtp_marker_payload.get_other' rtp_padding_cc.get_other rtp_padding_cc.get_other'
  rtp_padding_seq.get_other rtp_padding_seq.get_other'
  rtp_padding_timestamp.get_other rtp_padding_timestamp.get_other'
  rtp_padding_ssrc.get_other rtp_padding_ssrc.get_other'
  rtp_padding_marker.get_other rtp_padding_marker.get_other'
  rtp_padding_payload.get_other rtp_padding_payload.get_other'
  rtp_marker_timestamp.get_other rtp_marker_timestamp.get_other'
  rtp_marker_ssrc.get_other rtp_marker_ssrc.get_other'
  rtp_payload_seq.get_other rtp_payload_seq.get_other'
  rtp_payload_timestamp.get_other rtp_payload_timestamp.get_other'
  rtp_payload_ssrc.get_other rtp_payload_ssrc.get_other'

lemmas rtp_get_set [simp, wire_simps] =
  rtp_cc.get_put rtp_ext.get_put rtp_padding.get_put rtp_version.get_put rtp_payload.get_put
  rtp_marker.get_put rtp_seq.get_put rtp_timestamp.get_put rtp_ssrc.get_put rtp_extid.get_put
  rtp_extlen.get_put

lemma getHeaderLength_setters [simp, wire_simps]:
  "getHeaderLength (setSeqNumber v m) = getHeaderLength m"
  "getHeaderLength (setTimestamp t m) = getHeaderLength m"
  "getHeaderLength (setSSRC t m) = getHeaderLength m"
  "getHeaderLength (setMarker b m) = getHeaderLength m"
  "getHeaderLength (setPadding b m) = getHeaderLength m"
  by (simp_all add: getHeaderLength_def getCc_def getExtension_def load16_def setSeqNumber_def
      setTimestamp_def setSSRC_def setMarker_def setPadding_def store16_def store32_def store8_def
      get_put_bits_other)

lemma getHeaderLength_bounds: "12 \<le> getHeaderLength m" "getHeaderLength m \<le> 76 + 262144"
proof -
  have cc: "unat (getCc m) \<le> 15" and x: "unat (getExtension m) \<le> 1"
    using unat_get_bits_less [of 0 4 "m 0"] unat_get_bits_less [of 4 1 "m 0"]
    by (simp_all add: getCc_def getExtension_def)
  have l: "unat (ntohs (load16 m 14)) \<le> 65535"
    using unat_u16_less [of "ntohs (load16 m 14)"] by linarith
  have "unat (getExtension m) * (4 + unat (ntohs (load16 m 14)) * 4) \<le> 1 * (4 + 65535 * 4)"
    by (intro mult_le_mono x add_le_mono l order_refl)
  with cc show "getHeaderLength m \<le> 76 + 262144" by (simp add: getHeaderLength_def rtp_MIN_SIZE_def)
  show "12 \<le> getHeaderLength m" by (simp add: getHeaderLength_def rtp_MIN_SIZE_def)
qed

lemma new_RtpHeader_fields [simp]:
  "getVersion (new_RtpHeader m) = 2" "getCc (new_RtpHeader m) = 0"
  "hasPadding (new_RtpHeader m) = 0" "getExtension (new_RtpHeader m) = 0"
  "getHeaderLength (new_RtpHeader m) = 12"
  by (simp_all add: new_RtpHeader_def getVersion_def getCc_def hasPadding_def getExtension_def
      getHeaderLength_def rtp_MIN_SIZE_def fill_mem_def store8_def get_bits_def)

subsection \<open>AbsSendTimeExtension\<close>

text \<open>One byte of id and length, then a 24-bit time; \<open>p\<close> is where the extension starts.\<close>

definition ext_getId :: "mem \<Rightarrow> nat \<Rightarrow> u8" where
  "ext_getId m p = drop_bit 4 (m p)"

definition ext_getLength :: "mem \<Rightarrow> nat \<Rightarrow> u8" where
  "ext_getLength m p = m p AND 0x0F"

definition getAbsSendTime :: "mem \<Rightarrow> nat \<Rightarrow> u32" where
  "getAbsSendTime m p = drop_bit 8 (ntohl (load24 m (p + 1)))"

definition setAbsSendTime :: "nat \<Rightarrow> u32 \<Rightarrow> mem \<Rightarrow> mem" where
  "setAbsSendTime p t m = store24 (p + 1) (drop_bit 8 (htonl t)) m"

lemma getAbsSendTime_set: "getAbsSendTime (setAbsSendTime p t m) p = t AND 0xFFFFFF"
  by (intro u32_bytes_eqI) (simp_all add: getAbsSendTime_def setAbsSendTime_def ntohl_def htonl_def)

subsection \<open>RtpRtxHeader\<close>

text \<open>The original sequence number follows a whole \<^verbatim>\<open>RtpHeader\<close> (20 bytes).\<close>

definition getOsn :: "mem \<Rightarrow> u16" where
  "getOsn m = ntohs (load16 m 20)"

definition setOs :: "u16 \<Rightarrow> mem \<Rightarrow> mem" where
  "setOs v m = store16 20 (htons v) m"

interpretation rtx_osn: wire_field getOsn setOs id "\<lambda>i j. 20 \<le> i \<and> i < 20 + 2"
  unfolding getOsn_def [abs_def] setOs_def [abs_def] by (rule u16_wire_field)

subsection \<open>RedHeader\<close>

definition red_payloadtype :: "mem \<Rightarrow> nat \<Rightarrow> u8" where
  "red_payloadtype m p = get_bits 0 7 (m p)"

definition red_follow :: "mem \<Rightarrow> nat \<Rightarrow> u8" where
  "red_follow m p = get_bits 7 1 (m p)"

definition red_getTS :: "mem \<Rightarrow> nat \<Rightarrow> u32" where
  "red_getTS m p = drop_bit 18 (ntohl (load24 m (p + 1)) AND 0xfffc0000)"

definition red_getLength :: "mem \<Rightarrow> nat \<Rightarrow> u32" where
  "red_getLength m p = ntohl (load24 m (p + 1)) AND 0x3ff00"

end
