(* ===== verification/RtcpHeader.thy ===== *)
theory RtcpHeader
  imports RtpHeader
begin

text \<open>
  The RTCP half of \<^verbatim>\<open>RtpHeaders.h\<close>. An \<^verbatim>\<open>RtcpHeader*\<close> is an offset \<open>p\<close> into a
  buffer, since a compound packet holds several one after the other; the report union starts at
  \<open>p + 8\<close>. The bit rate of a REMB message is a mantissa of 18 bits and an exponent of 6.
\<close>

subsection \<open>Payload types\<close>

abbreviation "RTCP_Sender_PT \<equiv> (200 :: u8)"
abbreviation "RTCP_Receiver_PT \<equiv> (201 :: u8)"
abbreviation "RTCP_SDES_PT \<equiv> (202 :: u8)"
abbreviation "RTCP_BYE \<equiv> (203 :: u8)"
abbreviation "RTCP_RTP_Feedback_PT \<equiv> (205 :: u8)"
abbreviation "RTCP_PS_Feedback_PT \<equiv> (206 :: u8)"
abbreviation "RTCP_PLI_FMT \<equiv> (1 :: u8)"
abbreviation "RTCP_SLI_FMT \<equiv> (2 :: u8)"
abbreviation "RTCP_FIR_FMT \<equiv> (4 :: u8)"
abbreviation "RTCP_AFB \<equiv> (15 :: u8)"
abbreviation "OPUS_48000_PT \<equiv> (111 :: u8)"
abbreviation "RTCP_AUDIO_INTERVAL \<equiv> (5000 :: u16)"
abbreviation "RTCP_VIDEO_INTERVAL \<equiv> (1000 :: u16)"
abbreviation "kNackCommonHeaderLengthBytes \<equiv> (12 :: nat)"

subsection \<open>The common header\<close>

definition new_RtcpHeader :: "nat \<Rightarrow> mem \<Rightarrow> mem" where
  "new_RtcpHeader p m = fill_mem (p + 1) 0 7 (store8 p 0x80 m)"

definition getPacketType :: "mem \<Rightarrow> nat \<Rightarrow> u8" where
  "getPacketType m p = m (p + 1)"

definition setPacketType :: "nat \<Rightarrow> u8 \<Rightarrow> mem \<Rightarrow> mem" where
  "setPacketType p v m = store8 (p + 1) v m"

definition isFeedback :: "mem \<Rightarrow> nat \<Rightarrow> bool" where
  "isFeedback m p \<longleftrightarrow> getPacketType m p = RTCP_Receiver_PT \<or> getPacketType m p = RTCP_PS_Feedback_PT
     \<or> getPacketType m p = RTCP_RTP_Feedback_PT"

definition isRtcp :: "mem \<Rightarrow> nat \<Rightarrow> bool" where
  "isRtcp m p \<longleftrightarrow> 194 \<le> getPacketType m p \<and> getPacketType m p \<le> 223"

definition getBlockCount :: "mem \<Rightarrow> nat \<Rightarrow> u8" where
  "getBlockCount m p = get_bits 0 5 (m p)"

definition setBlockCount :: "nat \<Rightarrow> u8 \<Rightarrow> mem \<Rightarrow> mem" where
  "setBlockCount p v m = store8 p (put_bits 0 5 v (m p)) m"

definition rtcp_getLength :: "mem \<Rightarrow> nat \<Rightarrow> u16" where
  "rtcp_getLength m p = ntohs (load16 m (p + 2))"

definition rtcp_setLength :: "nat \<Rightarrow> u16 \<Rightarrow> mem \<Rightarrow> mem" where
  "rtcp_setLength p v m = store16 (p + 2) (htons v) m"

definition rtcp_getSSRC :: "mem \<Rightarrow> nat \<Rightarrow> u32" where
  "rtcp_getSSRC m p = ntohl (load32 m (p + 4))"

definition rtcp_setSSRC :: "nat \<Rightarrow> u32 \<Rightarrow> mem \<Rightarrow> mem" where
  "rtcp_setSSRC p v m = store32 (p + 4) (htonl v) m"

subsection \<open>Receiver report\<close>

definition getSourceSSRC :: "mem \<Rightarrow> nat \<Rightarrow> u32" where
  "getSourceSSRC m p = ntohl (load32 m (p + 8))"

definition setSourceSSRC :: "nat \<Rightarrow> u32 \<Rightarrow> mem \<Rightarrow> mem" where
  "setSourceSSRC p v m = store32 (p + 8) (htonl v) m"

definition getFractionLost :: "mem \<Rightarrow> nat \<Rightarrow> u8" where
  "getFractionLost m p = m (p + 12)"

definition setFractionLost :: "nat \<Rightarrow> u8 \<Rightarrow> mem \<Rightarrow> mem" where
  "setFractionLost p v m = store8 (p + 12) v m"

text \<open>The cumulative loss is a signed member of 24 bits: reading it extends the sign.\<close>

definition sign_extend24 :: "u32 \<Rightarrow> u32" where
  "sign_extend24 w = (if bit w 23 then w OR 0xFF000000 else w)"

definition getLostPackets :: "mem \<Rightarrow> nat \<Rightarrow> u32" where
  "getLostPackets m p = drop_bit 8 (ntohl (sign_extend24 (load24 m (p + 13))))"

definition setLostPackets :: "nat \<Rightarrow> u32 \<Rightarrow> mem \<Rightarrow> mem" where
  "setLostPackets p v m = store24 (p + 13) (drop_bit 8 (htonl v)) m"

definition getSeqnumCycles :: "mem \<Rightarrow> nat \<Rightarrow> u16" where
  "getSeqnumCycles m p = ntohs (load16 m (p + 16))"

definition setSeqnumCycles :: "nat \<Rightarrow> u16 \<Rightarrow> mem \<Rightarrow> mem" where
  "setSeqnumCycles p v m = store16 (p + 16) (htons v) m"

definition getHighestSeqnum :: "mem \<Rightarrow> nat \<Rightarrow> u16" where
  "getHighestSeqnum m p = ntohs (load16 m (p + 18))"

definition setHighestSeqnum :: "nat \<Rightarrow> u16 \<Rightarrow> mem \<Rightarrow> mem" where
  "setHighestSeqnum p v m = store16 (p + 18) (htons v) m"

definition getJitter :: "mem \<Rightarrow> nat \<Rightarrow> u32" where
  "getJitter m p = ntohl (load32 m (p + 20))"

definition setJitter :: "nat \<Rightarrow> u32 \<Rightarrow> mem \<Rightarrow> mem" where
  "setJitter p v m = store32 (p + 20) (htonl v) m"

definition getLastSr :: "mem \<Rightarrow> nat \<Rightarrow> u32" where
  "getLastSr m p = ntohl (load32 m (p + 24))"

definition setLastSr :: "nat \<Rightarrow> u32 \<Rightarrow> mem \<Rightarrow> mem" where
  "setLastSr p v m = store32 (p + 24) (htonl v) m"

definition getDelaySinceLastSr :: "mem \<Rightarrow> nat \<Rightarrow> u32" where
  "getDelaySinceLastSr m p = ntohl (load32 m (p + 28))"

definition setDelaySinceLastSr :: "nat \<Rightarrow> u32 \<Rightarrow> mem \<Rightarrow> mem" where
  "setDelaySinceLastSr p v m = store32 (p + 28) (htonl v) m"

subsection \<open>Sender report\<close>

definition getPacketsSent :: "mem \<Rightarrow> nat \<Rightarrow> u32" where
  "getPacketsSent m p = ntohl (load32 m (p + 20))"

definition setPacketsSent :: "nat \<Rightarrow> u32 \<Rightarrow> mem \<Rightarrow> mem" where
  "setPacketsSent p v m = store32 (p + 20) (htonl v) m"

definition getOctetsSent :: "mem \<Rightarrow> nat \<Rightarrow> u32" where
  "getOctetsSent m p = ntohl (load32 m (p + 24))"

definition setOctetsSent :: "nat \<Rightarrow> u32 \<Rightarrow> mem \<Rightarrow> mem" where
  "setOctetsSent p v m = store32 (p + 24) (htonl v) m"

definition getNtpTimestamp :: "mem \<Rightarrow> nat \<Rightarrow> u64" where
  "getNtpTimestamp m p =
     (let ntp = load64 m (p + 8)
      in push_bit 32 (ucast (htonl (ucast ntp))) + ucast (htonl (ucast (drop_bit 32 ntp))))"

definition setNtpTimestamp :: "nat \<Rightarrow> u64 \<Rightarrow> mem \<Rightarrow> mem" where
  "setNtpTimestamp p v m =
     (let w = push_bit 32 (ucast (ntohl (ucast v))) + ucast (ntohl (ucast (drop_bit 32 v))) :: u64
      in store32 (p + 12) (ucast (drop_bit 32 w)) (store32 (p + 8) (ucast w) m))"

definition get32MiddleNtp :: "mem \<Rightarrow> nat \<Rightarrow> u32" where
  "get32MiddleNtp m p =
     (let middle = drop_bit 32 (push_bit 16 (load64 m (p + 8))) in ntohl (ucast middle))"

subsection \<open>NACK\<close>

definition getNackPid :: "mem \<Rightarrow> nat \<Rightarrow> u16" where
  "getNackPid m p = ntohs (load16 m (p + 12))"

definition setNackPid :: "nat \<Rightarrow> u16 \<Rightarrow> mem \<Rightarrow> mem" where
  "setNackPid p v m = store16 (p + 12) (htons v) m"

definition getNackBlp :: "mem \<Rightarrow> nat \<Rightarrow> u16" where
  "getNackBlp m p = ntohs (load16 m (p + 14))"

definition setNackBlp :: "nat \<Rightarrow> u16 \<Rightarrow> mem \<Rightarrow> mem" where
  "setNackBlp p v m = store16 (p + 14) (htons v) m"

subsection \<open>REMB\<close>

text \<open>
  The loop of \<^verbatim>\<open>setREMBBitRate\<close>: the exponent grows while the bit rate does not fit below \<open>max\<close>.
  (With the exponent at 64 the code would shift by 64, which is undefined; that takes a bit rate of
  at least \<open>0x3FFFF * 2 ^ 46\<close>.)
\<close>

function remb_exponent :: "u64 \<Rightarrow> u64 \<Rightarrow> u16 \<Rightarrow> u16" where
  "remb_exponent bitRate mx e =
     (if bitRate \<ge> mx \<and> e < 64 then remb_exponent bitRate (push_bit 1 mx) (e + 1) else e)"
  by pat_completeness auto
termination
proof (relation "measure (\<lambda>(_, _, e). 64 - unat e)")
  fix bitRate mx :: u64 and e :: u16
  assume "bitRate \<ge> mx \<and> e < 64"
  then have "unat e < 64" by (simp add: word_less_nat_alt)
  then show "((bitRate, push_bit 1 mx, e + 1), (bitRate, mx, e)) \<in> measure (\<lambda>(_, _, e). 64 - unat e)"
    by (simp add: unat_Suc_u16)
qed simp

declare remb_exponent.simps [simp del]

definition remb_line :: "u64 \<Rightarrow> u32" where
  "remb_line bitRate =
     (let e = remb_exponent bitRate 0x3FFFF 0;
          mantissa = drop_bit (unat e) bitRate;
          e' = e AND 0x3F;
          mantissa' = mantissa AND 0x3FFFF
      in ucast (mantissa' + push_bit 18 (ucast e')))"

definition setREMBBitRate :: "nat \<Rightarrow> u64 \<Rightarrow> mem \<Rightarrow> mem" where
  "setREMBBitRate p bitRate m = store24 (p + 17) (drop_bit 8 (htonl (remb_line bitRate))) m"

definition getBrExp :: "mem \<Rightarrow> nat \<Rightarrow> u32" where
  "getBrExp m p = drop_bit 26 (ntohl (load24 m (p + 17)))"

definition getBrMantis :: "mem \<Rightarrow> nat \<Rightarrow> u32" where
  "getBrMantis m p = drop_bit 8 (ntohl (load24 m (p + 17))) AND 0x3ffff"

text \<open>The shift is done in 32 bits, before the result is widened.\<close>

definition getREMBBitRate :: "mem \<Rightarrow> nat \<Rightarrow> u64" where
  "getREMBBitRate m p = ucast (push_bit (unat (getBrExp m p)) (getBrMantis m p))"

definition getREMBNumSSRC :: "mem \<Rightarrow> nat \<Rightarrow> u8" where
  "getREMBNumSSRC m p = m (p + 16)"

definition setREMBNumSSRC :: "nat \<Rightarrow> u8 \<Rightarrow> mem \<Rightarrow> mem" where
  "setREMBNumSSRC p v m = store8 (p + 16) v m"

definition getREMBFeedSSRC :: "mem \<Rightarrow> nat \<Rightarrow> u32" where
  "getREMBFeedSSRC m p = ntohl (load32 m (p + 20))"

definition setREMBFeedSSRC :: "nat \<Rightarrow> u32 \<Rightarrow> mem \<Rightarrow> mem" where
  "setREMBFeedSSRC p v m = store32 (p + 20) (htonl v) m"

text \<open>\<^verbatim>\<open>memcpy(&uniqueid, "REMB", 4)\<close> and the test \<^verbatim>\<open>!strncmp(uniqueId, "REMB", 4)\<close>.\<close>

definition setUniqueId :: "nat \<Rightarrow> mem \<Rightarrow> mem" where
  "setUniqueId p m = m(p + 12 := 0x52, p + 13 := 0x45, p + 14 := 0x4D, p + 15 := 0x42)"

definition isREMB :: "mem \<Rightarrow> nat \<Rightarrow> bool" where
  "isREMB m p \<longleftrightarrow> m (p + 12) = 0x52 \<and> m (p + 13) = 0x45 \<and> m (p + 14) = 0x4D \<and> m (p + 15) = 0x42"

subsection \<open>PLI and FIR\<close>

definition getFCI :: "mem \<Rightarrow> nat \<Rightarrow> u32" where
  "getFCI m p = ntohl (load32 m (p + 12))"

definition setFCI :: "nat \<Rightarrow> u32 \<Rightarrow> mem \<Rightarrow> mem" where
  "setFCI p v m = store32 (p + 12) (htonl v) m"

definition setFIRSourceSSRC :: "nat \<Rightarrow> u32 \<Rightarrow> mem \<Rightarrow> mem" where
  "setFIRSourceSSRC p v m = store32 (p + 12) (htonl v) m"

definition setFIRSequenceNumber :: "nat \<Rightarrow> u8 \<Rightarrow> mem \<Rightarrow> mem" where
  "setFIRSequenceNumber p v m = store8 (p + 16) v m"

subsection \<open>Every member is a field of its own\<close>

interpretation rtcp_blockcount: wire_field "\<lambda>m. getBlockCount m p" "setBlockCount p" "take_bit 5"
  "\<lambda>i j. i = p \<and> 0 \<le> j \<and> j < 0 + 5" for p
  unfolding getBlockCount_def [abs_def] setBlockCount_def [abs_def] by (rule bits_wire_field) simp

interpretation rtcp_length: wire_field "\<lambda>m. rtcp_getLength m p" "rtcp_setLength p" id
  "\<lambda>i j. p + 2 \<le> i \<and> i < p + 2 + 2" for p
  unfolding rtcp_getLength_def [abs_def] rtcp_setLength_def [abs_def] by (rule u16_wire_field)

interpretation rtcp_ssrc: wire_field "\<lambda>m. rtcp_getSSRC m p" "rtcp_setSSRC p" id
  "\<lambda>i j. p + 4 \<le> i \<and> i < p + 4 + 4" for p
  unfolding rtcp_getSSRC_def [abs_def] rtcp_setSSRC_def [abs_def] by (rule u32_wire_field)

interpretation rtcp_source: wire_field "\<lambda>m. getSourceSSRC m p" "setSourceSSRC p" id
  "\<lambda>i j. p + 8 \<le> i \<and> i < p + 8 + 4" for p
  unfolding getSourceSSRC_def [abs_def] setSourceSSRC_def [abs_def] by (rule u32_wire_field)

interpretation rr_cycles: wire_field "\<lambda>m. getSeqnumCycles m p" "setSeqnumCycles p" id
  "\<lambda>i j. p + 16 \<le> i \<and> i < p + 16 + 2" for p
  unfolding getSeqnumCycles_def [abs_def] setSeqnumCycles_def [abs_def] by (rule u16_wire_field)

interpretation rr_highest: wire_field "\<lambda>m. getHighestSeqnum m p" "setHighestSeqnum p" id
  "\<lambda>i j. p + 18 \<le> i \<and> i < p + 18 + 2" for p
  unfolding getHighestSeqnum_def [abs_def] setHighestSeqnum_def [abs_def] by (rule u16_wire_field)

interpretation rr_jitter: wire_field "\<lambda>m. getJitter m p" "setJitter p" id
  "\<lambda>i j. p + 20 \<le> i \<and> i < p + 20 + 4" for p
  unfolding getJitter_def [abs_def] setJitter_def [abs_def] by (rule u32_wire_field)

interpretation rr_lastsr: wire_field "\<lambda>m. getLastSr m p" "setLastSr p" id
  "\<lambda>i j. p + 24 \<le> i \<and> i < p + 24 + 4" for p
  unfolding getLastSr_def [abs_def] setLastSr_def [abs_def] by (rule u32_wire_field)

interpretation rr_delay: wire_field "\<lambda>m. getDelaySinceLastSr m p" "setDelaySinceLastSr p" id
  "\<lambda>i j. p + 28 \<le> i \<and> i < p + 28 + 4" for p
  unfolding getDelaySinceLastSr_def [abs_def] setDelaySinceLastSr_def [abs_def] by (rule u32_wire_field)

interpretation sr_packets: wire_field "\<lambda>m. getPacketsSent m p" "setPacketsSent p" id
  "\<lambda>i j. p + 20 \<le> i \<and> i < p + 20 + 4" for p
  unfolding getPacketsSent_def [abs_def] setPacketsSent_def [abs_def] by (rule u32_wire_field)

interpretation sr_octets: wire_field "\<lambda>m. getOctetsSent m p" "setOctetsSent p" id
  "\<lambda>i j. p + 24 \<le> i \<and> i < p + 24 + 4" for p
  unfolding getOctetsSent_def [abs_def] setOctetsSent_def [abs_def] by (rule u32_wire_field)

interpretation nack_pid: wire_field "\<lambda>m. getNackPid m p" "setNackPid p" id
  "\<lambda>i j. p + 12 \<le> i \<and> i < p + 12 + 2" for p
  unfolding getNackPid_def [abs_def] setNackPid_def [abs_def] by (rule u16_wire_field)

interpretation nack_blp: wire_field "\<lambda>m. getNackBlp m p" "setNackBlp p" id
  "\<lambda>i j. p + 14 \<le> i \<and> i < p + 14 + 2" for p
  unfolding getNackBlp_def [abs_def] setNackBlp_def [abs_def] by (rule u16_wire_field)

interpretation remb_feed: wire_field "\<lambda>m. getREMBFeedSSRC m p" "setREMBFeedSSRC p" id
  "\<lambda>i j. p + 20 \<le> i \<and> i < p + 20 + 4" for p
  unfolding getREMBFeedSSRC_def [abs_def] setREMBFeedSSRC_def [abs_def] by (rule u32_wire_field)

interpretation pli_fci: wire_field "\<lambda>m. getFCI m p" "setFCI p" id
  "\<lambda>i j. p + 12 \<le> i \<and> i < p + 12 + 4" for p
  unfolding getFCI_def [abs_def] setFCI_def [abs_def] by (rule u32_wire_field)

interpretation rr_cycles_rr_highest: disjoint_fields
  "\<lambda>m. getSeqnumCycles m p" "setSeqnumCycles p" id "\<lambda>i j. p + 16 \<le> i \<and> i < p + 16 + 2"
  "\<lambda>m. getHighestSeqnum m p" "setHighestSeqnum p" id "\<lambda>i j. p + 18 \<le> i \<and> i < p + 18 + 2" for p
  by unfold_locales auto

interpretation nack_pid_nack_blp: disjoint_fields
  "\<lambda>m. getNackPid m p" "setNackPid p" id "\<lambda>i j. p + 12 \<le> i \<and> i < p + 12 + 2"
  "\<lambda>m. getNackBlp m p" "setNackBlp p" id "\<lambda>i j. p + 14 \<le> i \<and> i < p + 14 + 2" for p
  by unfold_locales auto

interpretation sr_packets_sr_octets: disjoint_fields
  "\<lambda>m. getPacketsSent m p" "setPacketsSent p" id "\<lambda>i j. p + 20 \<le> i \<and> i < p + 20 + 4"
  "\<lambda>m. getOctetsSent m p" "setOctetsSent p" id "\<lambda>i j. p + 24 \<le> i \<and> i < p + 24 + 4" for p
  by unfold_locales auto

interpretation rtcp_ssrc_rtcp_source: disjoint_fields
  "\<lambda>m. rtcp_getSSRC m p" "rtcp_setSSRC p" id "\<lambda>i j. p + 4 \<le> i \<and> i < p + 4 + 4"
  "\<lambda>m. getSourceSSRC m p" "setSourceSSRC p" id "\<lambda>i j. p + 8 \<le> i \<and> i < p + 8 + 4" for p
  by unfold_locales auto

interpretation rtcp_source_nack_pid: disjoint_fields
  "\<lambda>m. getSourceSSRC m p" "setSourceSSRC p" id "\<lambda>i j. p + 8 \<le> i \<and> i < p + 8 + 4"
  "\<lambda>m. getNackPid m p" "setNackPid p" id "\<lambda>i j. p + 12 \<le> i \<and> i < p + 12 + 2" for p
  by unfold_locales auto

lemmas rtcp_get_set [simp, wire_simps] =
  rtcp_length.get_put
  rtcp_ssrc.get_put
  rtcp_source.get_put
  rr_cycles.get_put
  rr_highest.get_put
  rr_jitter.get_put
  rr_lastsr.get_put
  rr_delay.get_put
  sr_packets.get_put
  sr_octets.get_put
  nack_pid.get_put
  nack_blp.get_put
  remb_feed.get_put
  pli_fci.get_put rtcp_blockcount.get_put

lemmas rtcp_setters_disjoint [simp, wire_simps] =
  rr_cycles_rr_highest.get_other rr_cycles_rr_highest.get_other'
  nack_pid_nack_blp.get_other nack_pid_nack_blp.get_other'
  sr_packets_sr_octets.get_other sr_packets_sr_octets.get_other'
  rtcp_ssrc_rtcp_source.get_other rtcp_ssrc_rtcp_source.get_other'
  rtcp_source_nack_pid.get_other rtcp_source_nack_pid.get_other'

lemmas rtcp_setter_defs =
  setPacketType_def setBlockCount_def rtcp_setLength_def rtcp_setSSRC_def setSourceSSRC_def
  setFractionLost_def setLostPackets_def setSeqnumCycles_def setHighestSeqnum_def setJitter_def
  setLastSr_def setDelaySinceLastSr_def setPacketsSent_def setOctetsSent_def setNackPid_def
  setNackBlp_def setREMBBitRate_def setREMBNumSSRC_def setREMBFeedSSRC_def setFCI_def
  setFIRSourceSSRC_def setFIRSequenceNumber_def setUniqueId_def new_RtcpHeader_def
  store8_def store16_def store24_def store32_def fill_mem_def

lemmas rtcp_getter_defs =
  getPacketType_def getBlockCount_def rtcp_getLength_def rtcp_getSSRC_def getSourceSSRC_def
  getFractionLost_def getLostPackets_def getSeqnumCycles_def getHighestSeqnum_def getJitter_def
  getLastSr_def getDelaySinceLastSr_def getPacketsSent_def getOctetsSent_def getNackPid_def
  getNackBlp_def getBrExp_def getBrMantis_def getREMBNumSSRC_def getREMBFeedSSRC_def getFCI_def
  isREMB_def load16_def load24_def load32_def

text \<open>A setter writes nothing below its header, so it leaves the blocks before it alone.\<close>

lemma rtcp_setters_below:
  assumes "i < p"
  shows "setPacketType p a m i = m i" "setBlockCount p a m i = m i" "rtcp_setLength p w m i = m i"
    "rtcp_setSSRC p v m i = m i" "setSourceSSRC p v m i = m i" "setFractionLost p a m i = m i"
    "setLostPackets p v m i = m i" "setSeqnumCycles p w m i = m i" "setHighestSeqnum p w m i = m i"
    "setJitter p v m i = m i" "setLastSr p v m i = m i" "setDelaySinceLastSr p v m i = m i"
    "setNackPid p w m i = m i" "setNackBlp p w m i = m i" "new_RtcpHeader p m i = m i"
    "setREMBBitRate p b m i = m i"
  using assms by (simp_all add: rtcp_setter_defs)

lemma isFeedback_isRtcp: "isFeedback m p \<Longrightarrow> isRtcp m p"
  by (auto simp: isFeedback_def isRtcp_def)

end
