(* ===== verification/RembBitrate.thy ===== *)
theory RembBitrate
  imports RtcpHeader
begin

text \<open>
  What \<^verbatim>\<open>setREMBBitRate\<close> and \<^verbatim>\<open>getREMBBitRate\<close> of \<^verbatim>\<open>RtpHeaders.h\<close> do to a bit
  rate: below 18 bits it survives, up to 32 bits it loses less than one part in 131071, and from
  32 bits on the 32-bit shift of the getter loses the high bits.
\<close>

subsection \<open>The exponent\<close>

lemma remb_exponent_spec:
  assumes "unat mx = 262143 * 2 ^ unat e" "unat e \<le> 46" "unat b < 262143 * 2 ^ 46"
    "e = 0 \<or> 262143 * 2 ^ (unat e - 1) \<le> unat b"
  shows "unat (remb_exponent b mx e) \<le> 46 \<and> unat b < 262143 * 2 ^ unat (remb_exponent b mx e)
    \<and> (remb_exponent b mx e = 0 \<or> 262143 * 2 ^ (unat (remb_exponent b mx e) - 1) \<le> unat b)"
  using assms
proof (induction b mx e rule: remb_exponent.induct)
  case (1 b mx e)
  have e64: "e < 64" using "1.prems"(2) by (simp add: word_less_nat_alt)
  show ?case
  proof (cases "mx \<le> b")
    case False
    then show ?thesis
      using "1.prems" by (simp add: remb_exponent.simps [of b mx e] word_le_nat_alt)
  next
    case True
    then have le: "262143 * 2 ^ unat e \<le> unat b"
      using "1.prems"(1) by (simp add: word_le_nat_alt)
    have "(2 :: nat) ^ unat e < 2 ^ 46" using le "1.prems"(3) by linarith
    then have lt: "unat e < 46" by (rule power_less_imp_less_exp [rotated]) simp
    have e1: "unat (e + 1) = Suc (unat e)" using lt by (simp add: unat_Suc_u16)
    have "(2 :: nat) ^ Suc (unat e) \<le> 2 ^ 46" using lt by (intro power_increasing) auto
    then have b1: "2 * unat mx < 2 ^ 64" using "1.prems"(1) by simp
    have m1: "unat (push_bit 1 mx) = 262143 * 2 ^ unat (e + 1)"
      using b1 "1.prems"(1) by (subst unat_push_bit) (simp add: e1)
    have "remb_exponent b mx e = remb_exponent b (push_bit 1 mx) (e + 1)"
      using True e64 by (simp add: remb_exponent.simps [of b mx e])
    moreover have "unat (remb_exponent b (push_bit 1 mx) (e + 1)) \<le> 46
      \<and> unat b < 262143 * 2 ^ unat (remb_exponent b (push_bit 1 mx) (e + 1))
      \<and> (remb_exponent b (push_bit 1 mx) (e + 1) = 0
          \<or> 262143 * 2 ^ (unat (remb_exponent b (push_bit 1 mx) (e + 1)) - 1) \<le> unat b)"
      using True e64 lt le "1.prems"(3) by (intro "1.IH") (simp_all add: m1 [simplified] e1)
    ultimately show ?thesis by simp
  qed
qed

lemma remb_exponent_start:
  assumes "unat b < 262143 * 2 ^ 46"
  defines "e \<equiv> remb_exponent b 0x3FFFF 0"
  shows "unat e \<le> 46" "unat b < 262143 * 2 ^ unat e" "e = 0 \<or> 262143 * 2 ^ (unat e - 1) \<le> unat b"
  using remb_exponent_spec [of "0x3FFFF" 0 b] assms(1) unfolding e_def by simp_all

subsection \<open>The 24 bits on the wire\<close>

lemma unat_remb_line:
  assumes "unat b < 262143 * 2 ^ 46"
  defines "e \<equiv> remb_exponent b 0x3FFFF 0"
  shows "unat (remb_line b) = unat b div 2 ^ unat e + 262144 * unat e"
    and "unat b div 2 ^ unat e < 262143" and "unat e \<le> 46"
proof -
  have e: "unat e \<le> 46" and b: "unat b < 262143 * 2 ^ unat e"
    using remb_exponent_start [OF assms(1)] by (simp_all add: e_def [symmetric])
  show m: "unat b div 2 ^ unat e < 262143"
    using b by (simp add: less_mult_imp_div_less mult.commute)
  show "unat e \<le> 46" by (rule e)
  have e': "e AND 0x3F = e"
  proof -
    have "(0x3F :: u16) = mask 6" by (simp add: mask_eq_exp_minus_1)
    then have "e AND 0x3F = take_bit 6 e" by (simp add: take_bit_eq_mask)
    moreover have "unat (take_bit 6 e) = unat e"
      using e by (simp add: unat_take_bit)
    ultimately show ?thesis by (simp add: u16_eq_iff)
  qed
  have mm: "drop_bit (unat e) b AND 0x3FFFF = drop_bit (unat e) b"
  proof -
    have "(0x3FFFF :: u64) = mask 18" by (simp add: mask_eq_exp_minus_1)
    then have "drop_bit (unat e) b AND 0x3FFFF = take_bit 18 (drop_bit (unat e) b)"
      by (simp add: take_bit_eq_mask)
    moreover have "unat (take_bit 18 (drop_bit (unat e) b)) = unat (drop_bit (unat e) b)"
      using m by (simp add: unat_take_bit unat_drop_bit)
    ultimately show ?thesis by (simp add: word_unat_eq_iff)
  qed
  have ue: "unat (ucast e :: u64) = unat e"
    using e by (simp add: unat_ucast_mod)
  have pe: "unat (push_bit 18 (ucast e :: u64)) = 262144 * unat e"
    using e by (simp add: unat_push_bit ue)
  have s: "unat (drop_bit (unat e) b + push_bit 18 (ucast e)) = unat b div 2 ^ unat e + 262144 * unat e"
    using m e by (subst unat_plus_simple [THEN iffD1])
      (simp_all add: no_olen_add_nat pe unat_drop_bit)
  show "unat (remb_line b) = unat b div 2 ^ unat e + 262144 * unat e"
    using m e by (simp add: remb_line_def Let_def e_def [symmetric] e' mm unat_ucast_mod s)
qed

lemma remb_wire: "ntohl (load24 (setREMBBitRate p b m) (p + 17)) = push_bit 8 (remb_line b)"
proof -
  have "byteN (push_bit 8 w :: u32) 0 = 0" "byteN (push_bit 8 w :: u32) (Suc 0) = byteN w 0"
    "byteN (push_bit 8 w :: u32) 2 = byteN w (Suc 0)" "byteN (push_bit 8 w :: u32) 3 = byteN w 2" for w
    by (rule bit_word_eqI, force simp: bit_byteN bit_push_bit_iff)+
  then show ?thesis
    by (intro u32_bytes_eqI) (simp_all add: setREMBBitRate_def ntohl_def htonl_def)
qed

lemma remb_wire_fields:
  assumes "unat b < 262143 * 2 ^ 46"
  defines "e \<equiv> remb_exponent b 0x3FFFF 0"
  shows "unat (getBrExp (setREMBBitRate p b m) p) = unat e"
    and "unat (getBrMantis (setREMBBitRate p b m) p) = unat b div 2 ^ unat e"
proof -
  note l = unat_remb_line [OF assms(1), folded e_def]
  have lt: "256 * unat (remb_line b) < 2 ^ 32" using l by simp
  have s: "unat (push_bit 8 (remb_line b)) = 256 * unat (remb_line b)"
    using lt by (simp add: unat_push_bit)
  show "unat (getBrExp (setREMBBitRate p b m) p) = unat e"
    using l by (simp add: getBrExp_def remb_wire unat_drop_bit s)
  have m: "x AND 0x3ffff = take_bit 18 x" for x :: u32
  proof -
    have "(0x3ffff :: u32) = mask 18" by (simp add: mask_eq_exp_minus_1)
    then show ?thesis by (simp add: take_bit_eq_mask)
  qed
  show "unat (getBrMantis (setREMBBitRate p b m) p) = unat b div 2 ^ unat e"
    using l by (simp add: getBrMantis_def remb_wire m unat_take_bit unat_drop_bit s)
qed

lemma unat_getREMBBitRate:
  assumes "unat b < 2 ^ 32"
  defines "e \<equiv> remb_exponent b 0x3FFFF 0"
  shows "unat (getREMBBitRate (setREMBBitRate p b m) p) = unat b div 2 ^ unat e * 2 ^ unat e"
proof -
  have b: "unat b < 262143 * 2 ^ 46" using assms(1) by simp
  note w = remb_wire_fields [OF b, folded e_def]
  have le: "unat b div 2 ^ unat e * 2 ^ unat e \<le> unat b" by simp
  then have "unat b div 2 ^ unat e * 2 ^ unat e < 2 ^ 32" using assms(1) by linarith
  then show ?thesis
    by (simp add: getREMBBitRate_def w unat_ucast_mod unat_push_bit)
qed

end
