(* ===== verification/RtpUtils.thy ===== *)
theory RtpUtils
  imports RembBitrate SeqOrder
begin

text \<open>
  \<^verbatim>\<open>RtpUtils.cpp\<close>: the traversals of a compound RTCP packet that the handlers share, the
  recognition and the construction of PLI and FIR requests, and padding. A traversal takes the
  callback as a function on the buffer and a state of the caller's choice.
\<close>

subsection \<open>Traversals\<close>

text \<open>
  \<^verbatim>\<open>forEachRRBlock\<close>: the offset of a block is the total length before it, and each
  block is at least four bytes long, which is why the loop ends.
\<close>

function rr_blocks :: "(nat \<Rightarrow> mem \<times> 's \<Rightarrow> mem \<times> 's) \<Rightarrow> int \<Rightarrow> nat \<Rightarrow> mem \<times> 's \<Rightarrow> mem \<times> 's" where
  "rr_blocks f len p st =
     (let rtcp_length = (unat (ntohs (load16 (fst st) (p + 2))) + 1) * 4;
          total_length = p + rtcp_length;
          st' = f p st
      in if int total_length < len then rr_blocks f len total_length st' else st')"
  by pat_completeness auto
termination
  by (relation "measure (\<lambda>(f, len, p, st). nat len - p)") (auto simp del: of_nat_unat)

declare rr_blocks.simps [simp del]

definition forEachRRBlock ::
  "(nat \<Rightarrow> mem \<times> 's \<Rightarrow> mem \<times> 's) \<Rightarrow> dataPacket \<Rightarrow> 's \<Rightarrow> dataPacket \<times> 's" where
  "forEachRRBlock f packet s =
     (if isFeedback (data packet) 0
      then (let st = rr_blocks f (packet_length packet) 0 (data packet, s)
            in (packet\<lparr>data := fst st\<rparr>, snd st))
      else (packet, s))"

text \<open>\<^verbatim>\<open>forEachNack\<close>: one call per PID/BLP pair, at offsets four bytes apart.\<close>

function nack_items ::
  "(u16 \<Rightarrow> u16 \<Rightarrow> nat \<Rightarrow> mem \<times> 's \<Rightarrow> mem \<times> 's) \<Rightarrow> nat \<Rightarrow> nat \<Rightarrow> nat \<Rightarrow> mem \<times> 's \<Rightarrow> mem \<times> 's" where
  "nack_items f len current_position aux st =
     (if current_position < len
      then nack_items f len (current_position + 4) (aux + 4)
             (f (getNackPid (fst st) aux) (getNackBlp (fst st) aux) aux st)
      else st)"
  by pat_completeness auto
termination
  by (relation "measure (\<lambda>(f, len, c, aux, st). len - c)") auto

declare nack_items.simps [simp del]

definition forEachNack ::
  "(u16 \<Rightarrow> u16 \<Rightarrow> nat \<Rightarrow> mem \<times> 's \<Rightarrow> mem \<times> 's) \<Rightarrow> nat \<Rightarrow> mem \<times> 's \<Rightarrow> mem \<times> 's" where
  "forEachNack f p st =
     (if getPacketType (fst st) p = RTCP_RTP_Feedback_PT
      then nack_items f ((unat (rtcp_getLength (fst st) p) + 1) * 4) kNackCommonHeaderLengthBytes p st
      else st)"

definition updateREMB :: "nat \<Rightarrow> u32 \<Rightarrow> mem \<Rightarrow> mem" where
  "updateREMB p bitrate m =
     (if getPacketType m p = RTCP_PS_Feedback_PT \<and> getBlockCount m p = RTCP_AFB
      then if isREMB m p then setREMBBitRate p (ucast bitrate) m else m
      else m)"

subsection \<open>PLI and FIR\<close>

definition isPLI :: "dataPacket \<Rightarrow> bool" where
  "isPLI packet = snd (forEachRRBlock (\<lambda>p (m, is_pli).
     (m, if getPacketType m p = RTCP_PS_Feedback_PT \<and> getBlockCount m p = RTCP_PLI_FMT
         then True else is_pli)) packet False)"

definition isFIR :: "dataPacket \<Rightarrow> bool" where
  "isFIR packet = snd (forEachRRBlock (\<lambda>p (m, is_fir).
     (m, if getPacketType m p = RTCP_PS_Feedback_PT \<and> getBlockCount m p = RTCP_FIR_FMT
         then True else is_fir)) packet False)"

definition createPLI :: "u64 \<Rightarrow> u32 \<Rightarrow> u32 \<Rightarrow> dataPacket" where
  "createPLI now source_ssrc sink_ssrc =
     (let pli = new_RtcpHeader 0 zero_mem;
          pli = setPacketType 0 RTCP_PS_Feedback_PT pli;
          pli = setBlockCount 0 RTCP_PLI_FMT pli;
          pli = rtcp_setSSRC 0 sink_ssrc pli;
          pli = setSourceSSRC 0 source_ssrc pli;
          pli = rtcp_setLength 0 2 pli;
          len = (int (unat (rtcp_getLength pli 0)) + 1) * 4
      in new_dataPacket 0 pli len VIDEO_PACKET now)"

definition createFIR :: "u64 \<Rightarrow> u32 \<Rightarrow> u32 \<Rightarrow> u8 \<Rightarrow> dataPacket" where
  "createFIR now source_ssrc sink_ssrc seq_number =
     (let fir = new_RtcpHeader 0 zero_mem;
          fir = setPacketType 0 RTCP_PS_Feedback_PT fir;
          fir = setBlockCount 0 RTCP_FIR_FMT fir;
          fir = rtcp_setSSRC 0 sink_ssrc fir;
          fir = setSourceSSRC 0 source_ssrc fir;
          fir = rtcp_setLength 0 4 fir;
          fir = setFIRSourceSSRC 0 source_ssrc fir;
          fir = setFIRSequenceNumber 0 seq_number fir;
          len = (int (unat (rtcp_getLength fir 0)) + 1) * 4
      in new_dataPacket 0 fir len VIDEO_PACKET now)"

subsection \<open>Padding\<close>

definition getPaddingLength :: "dataPacket \<Rightarrow> int" where
  "getPaddingLength packet =
     (if hasPadding (data packet) \<noteq> 0
      then int (unat (data packet (nat (packet_length packet - 1)))) else 0)"

definition makePaddingPacket :: "u64 \<Rightarrow> dataPacket \<Rightarrow> u8 \<Rightarrow> dataPacket" where
  "makePaddingPacket now packet padding_size =
     (let header = data packet;
          packet_length = word_of_nat (getHeaderLength header) + ucast padding_size :: u16;
          buffer = fill_mem 0 0 (unat packet_length) zero_mem;
          buffer = copy_mem 0 header (getHeaderLength header) buffer;
          buffer = setPadding 1 buffer;
          buffer = store8 (unat (packet_length - 1)) padding_size buffer
      in new_dataPacket (comp packet) buffer (int (unat packet_length)) (packet_type packet) now)"

subsection \<open>What the traversals do\<close>

text \<open>The offsets of the blocks of a packet, and a callback that only reads: a fold over them.\<close>

function block_offsets :: "mem \<Rightarrow> int \<Rightarrow> nat \<Rightarrow> nat list" where
  "block_offsets m len p =
     p # (let q = p + (unat (ntohs (load16 m (p + 2))) + 1) * 4
          in if int q < len then block_offsets m len q else [])"
  by pat_completeness auto
termination
  by (relation "measure (\<lambda>(m, len, p). nat len - p)") (auto simp del: of_nat_unat)

declare block_offsets.simps [simp del]

lemma rr_blocks_fold:
  assumes "\<And>p s. fst (f p (m, s)) = m"
  shows "rr_blocks f len p (m, s) = (m, fold (\<lambda>p s. snd (f p (m, s))) (block_offsets m len p) s)"
proof -
  have "rr_blocks f len p st = (m, fold (\<lambda>p s. snd (f p (m, s))) (block_offsets m len p) (snd st))"
    if "fst st = m" for st
    using assms that
  proof (induction f len p st rule: rr_blocks.induct)
    case (1 f len p st)
    obtain s where st: "st = (m, s)" using "1.prems"(2) by (metis prod.collapse)
    obtain s' where e: "f p (m, s) = (m, s')" using "1.prems"(1) by (metis prod.collapse)
    let ?q = "p + (unat (ntohs (load16 m (p + 2))) + 1) * 4"
    have "rr_blocks f len ?q (m, s') = (m, fold (\<lambda>p s. snd (f p (m, s))) (block_offsets m len ?q) s')"
      if "int ?q < len"
      using "1.IH" [OF refl refl refl _ "1.prems"(1)] that by (simp add: st e)
    then show ?case
      by (simp add: rr_blocks.simps [of f len p "(m, s)"] block_offsets.simps [of m len p] Let_def st e
          del: of_nat_unat)
  qed
  then show ?thesis by simp
qed

lemma fold_or: "fold (\<lambda>p b. if P p then True else b) ps b \<longleftrightarrow> b \<or> (\<exists>p \<in> set ps. P p)"
  by (induction ps arbitrary: b) auto

lemma block_offsets_mem: "block_offsets m len p \<noteq> [] \<and> p \<in> set (block_offsets m len p)"
  by (subst block_offsets.simps, subst (2) block_offsets.simps) simp

lemma block_offsets_lt:
  "q \<in> set (block_offsets m len p) \<Longrightarrow> q = p \<or> p < q \<and> int q < len"
proof (induction m len p rule: block_offsets.induct)
  case (1 m len p)
  then show ?case
    by (auto simp: block_offsets.simps [of m len p] Let_def simp del: of_nat_unat split: if_splits)
qed

lemma rr_blocks_single:
  assumes "len \<le> int (p + (unat (ntohs (load16 (fst st) (p + 2))) + 1) * 4)"
  shows "rr_blocks f len p st = f p st"
  using assms by (subst rr_blocks.simps) (simp add: Let_def)

lemma nack_items_read_only:
  assumes "\<And>pid blp q m s. fst (f pid blp q (m, s)) = m"
  shows "fst (nack_items f len c aux st) = fst st"
  using assms
proof (induction f len c aux st rule: nack_items.induct)
  case (1 f len c aux st)
  have e: "fst (f pid blp q st) = fst st" for pid blp q using "1.prems" by (metis prod.collapse)
  show ?case using "1.IH" [OF _ "1.prems"] e by (subst nack_items.simps) simp
qed

text \<open>What every callback preserves, a traversal preserves.\<close>

lemma rr_blocks_invariant:
  assumes "\<And>p st. P (snd st) \<Longrightarrow> P (snd (f p st))" "P (snd st)"
  shows "P (snd (rr_blocks f len p st))"
  using assms
proof (induction f len p st rule: rr_blocks.induct)
  case (1 f len p st)
  have s: "P (snd (f p st))" by (rule "1.prems"(1) [OF "1.prems"(2)])
  show ?case
    using "1.IH" [OF refl refl refl _ "1.prems"(1) s] s by (subst rr_blocks.simps) (simp add: Let_def)
qed

lemma nack_items_invariant:
  assumes "\<And>pid blp q st. P (snd st) \<Longrightarrow> P (snd (f pid blp q st))" "P (snd st)"
  shows "P (snd (nack_items f len c aux st))"
  using assms
proof (induction f len c aux st rule: nack_items.induct)
  case (1 f len c aux st)
  have s: "P (snd (f pid blp q st))" for pid blp q by (rule "1.prems"(1) [OF "1.prems"(2)])
  show ?case
    using "1.IH" [OF _ "1.prems"(1) s] "1.prems"(2) by (subst nack_items.simps) simp
qed

lemma forEachRRBlock_invariant:
  "(\<And>p st. P (snd st) \<Longrightarrow> P (snd (f p st))) \<Longrightarrow> P s \<Longrightarrow> P (snd (forEachRRBlock f packet s))"
  using rr_blocks_invariant [of P f "(data packet, s)"] by (simp add: forEachRRBlock_def Let_def)

lemma forEachNack_invariant:
  "(\<And>pid blp q st. P (snd st) \<Longrightarrow> P (snd (f pid blp q st))) \<Longrightarrow> P (snd st) \<Longrightarrow> P (snd (forEachNack f p st))"
  using nack_items_invariant [of P f st] by (simp add: forEachNack_def)

lemma isPLI_iff:
  "isPLI packet \<longleftrightarrow> isFeedback (data packet) 0 \<and>
     (\<exists>p \<in> set (block_offsets (data packet) (packet_length packet) 0).
        getPacketType (data packet) p = RTCP_PS_Feedback_PT
        \<and> getBlockCount (data packet) p = RTCP_PLI_FMT)"
  by (simp add: isPLI_def forEachRRBlock_def Let_def rr_blocks_fold fold_or)

lemma isFIR_iff:
  "isFIR packet \<longleftrightarrow> isFeedback (data packet) 0 \<and>
     (\<exists>p \<in> set (block_offsets (data packet) (packet_length packet) 0).
        getPacketType (data packet) p = RTCP_PS_Feedback_PT
        \<and> getBlockCount (data packet) p = RTCP_FIR_FMT)"
  by (simp add: isFIR_def forEachRRBlock_def Let_def rr_blocks_fold fold_or)

lemma createPLI_length [simp]: "packet_length (createPLI now a b) = 12"
  "packet_type (createPLI now a b) = VIDEO_PACKET"
  by (simp_all add: createPLI_def Let_def new_dataPacket_def)

lemma createFIR_length [simp]: "packet_length (createFIR now a b n) = 20"
  "packet_type (createFIR now a b n) = VIDEO_PACKET"
  by (simp_all add: createFIR_def Let_def new_dataPacket_def rtcp_setter_defs rtcp_getter_defs ntohs_def
      htons_def)

text \<open>A video packet with a given number and SSRC, for the witnesses.\<close>

definition sample_packet :: "u16 \<Rightarrow> u32 \<Rightarrow> dataPacket" where
  "sample_packet n ssrc = (new_dataPacket 0 zero_mem 12 VIDEO_PACKET 0)
     \<lparr>data := setSSRC ssrc (setSeqNumber n zero_mem)\<rparr>"

lemma sample_packet_fields [simp]:
  "getSeqNumber (data (sample_packet n ssrc)) = n" "getSSRC (data (sample_packet n ssrc)) = ssrc"
  "packet_type (sample_packet n ssrc) = VIDEO_PACKET" "packet_length (sample_packet n ssrc) = 12"
  "received_time_ms (sample_packet n ssrc) = 0"
  by (simp_all add: sample_packet_def new_dataPacket_def)

end
