(* ===== verification/RtcpNackGenerator.thy ===== *)
theory RtcpNackGenerator
  imports RtpUtils
begin

text \<open>
  \<^verbatim>\<open>RtcpNackGenerator\<close>: it keeps the list of sequence numbers a video stream skipped and, when a
  receiver report goes out, appends a NACK packet that asks for them. The clock is the argument
  \<open>now\<close>, in milliseconds. The properties: the list stays bounded and holds exactly the numbers
  skipped, the NACK asks only for numbers on the list, and it parses back.
\<close>

subsection \<open>State\<close>

record nackInfo =
  ni_seq_num :: u16
  ni_retransmits :: u16
  ni_sent_time :: u64

definition new_NackInfo :: "u16 \<Rightarrow> nackInfo" where
  "new_NackInfo seq_num = \<lparr>ni_seq_num = seq_num, ni_retransmits = 0, ni_sent_time = 0\<rparr>"

record nackGenerator =
  ng_initialized :: bool
  ng_highest_seq_num :: u16
  ng_ssrc :: u32
  nack_info_list :: "nackInfo list"

definition new_RtcpNackGenerator :: "u32 \<Rightarrow> nackGenerator" where
  "new_RtcpNackGenerator ssrc =
     \<lparr>ng_initialized = False, ng_highest_seq_num = 0, ng_ssrc = ssrc, nack_info_list = []\<rparr>"

definition kMaxRetransmits :: u16 where "kMaxRetransmits = 2"
definition kMaxNacks :: nat where "kMaxNacks = 150"
definition kMinNackDelayMs :: u64 where "kMinNackDelayMs = 20"
definition kNackCommonHeaderLengthRtcp :: u16 where "kNackCommonHeaderLengthRtcp = 2"

subsection \<open>Incoming packets\<close>

text \<open>The two loops of \<^verbatim>\<open>addNacks\<close>: append every number skipped, then drop from the end.\<close>

function push_nacks :: "u16 \<Rightarrow> u16 \<Rightarrow> nackInfo list \<Rightarrow> nackInfo list" where
  "push_nacks current_seq_num seq_num xs =
     (if current_seq_num \<noteq> seq_num
      then push_nacks (current_seq_num + 1) seq_num (xs @ [new_NackInfo current_seq_num]) else xs)"
  by pat_completeness auto
termination
  by (relation "measure (\<lambda>(c, s, xs). seq_dist c s)") (simp_all add: seq_dist_Suc)

declare push_nacks.simps [simp del]

function trim_nacks :: "nackInfo list \<Rightarrow> nackInfo list" where
  "trim_nacks xs = (if length xs > kMaxNacks then trim_nacks (butlast xs) else xs)"
  by pat_completeness auto
termination
  by (relation "measure length") auto

declare trim_nacks.simps [simp del]

definition addNacks :: "u16 \<Rightarrow> nackGenerator \<Rightarrow> bool \<times> nackGenerator" where
  "addNacks seq_num g =
     (let xs = trim_nacks (push_nacks (ng_highest_seq_num g + 1) seq_num (nack_info_list g))
      in (xs \<noteq> [], g\<lparr>nack_info_list := xs\<rparr>))"

text \<open>\<^verbatim>\<open>find_if\<close> and \<^verbatim>\<open>erase\<close>: only the first entry with the number goes.\<close>

primrec erase_nack :: "u16 \<Rightarrow> nackInfo list \<Rightarrow> nackInfo list" where
  "erase_nack seq_num [] = []"
| "erase_nack seq_num (x # xs) = (if ni_seq_num x = seq_num then xs else x # erase_nack seq_num xs)"

definition nack_handleRtpPacket :: "dataPacket \<Rightarrow> nackGenerator \<Rightarrow> bool \<times> nackGenerator" where
  "nack_handleRtpPacket packet g =
     (if packet_type packet \<noteq> VIDEO_PACKET then (False, g)
      else let seq_num = getSeqNumber (data packet)
        in if getSSRC (data packet) \<noteq> ng_ssrc g then (False, g)
           else if \<not> ng_initialized g
           then (False, g\<lparr>ng_highest_seq_num := seq_num, ng_initialized := True\<rparr>)
           else if seq_num = ng_highest_seq_num g then (False, g)
           else if sequenceNumberLessThan seq_num (ng_highest_seq_num g)
           then (False, g\<lparr>nack_info_list := erase_nack seq_num (nack_info_list g)\<rparr>)
           else let (available_nacks, g) = addNacks seq_num g
             in (available_nacks, g\<lparr>ng_highest_seq_num := seq_num\<rparr>))"

subsection \<open>Building the request\<close>

definition isTimeToRetransmit :: "nackInfo \<Rightarrow> u64 \<Rightarrow> bool" where
  "isTimeToRetransmit info current_time_ms \<longleftrightarrow>
     ni_sent_time info = 0 \<or> current_time_ms - ni_sent_time info > kMinNackDelayMs"

definition mark_sent :: "u64 \<Rightarrow> nackInfo \<Rightarrow> nackInfo" where
  "mark_sent now info = info\<lparr>ni_sent_time := now, ni_retransmits := ni_retransmits info + 1\<rparr>"

text \<open>
  The inner loop of \<^verbatim>\<open>addNackPacketToRr\<close>. Both loops work on the list by index; \<^verbatim>\<open>erase\<close> at
  \<open>index\<close> moves the next element to \<open>index\<close>.
\<close>

definition erase_at :: "nat \<Rightarrow> 'a list \<Rightarrow> 'a list" where
  "erase_at index xs = take index xs @ drop (Suc index) xs"

lemma length_erase_at [simp]: "i < length xs \<Longrightarrow> length (erase_at i xs) = length xs - 1"
  by (simp add: erase_at_def)

function nack_blp :: "u64 \<Rightarrow> u16 \<Rightarrow> nat \<Rightarrow> u16 \<Rightarrow> nackInfo list \<Rightarrow> nat \<times> u16 \<times> nackInfo list" where
  "nack_blp now pid index blp xs =
     (if index + 1 < length xs
      then let index = index + 1; info = xs ! index; distance = ni_seq_num info - pid - 1
        in if distance \<le> 15
           then if \<not> isTimeToRetransmit info now then nack_blp now pid index blp xs
                else if ni_retransmits info \<ge> kMaxRetransmits
                then nack_blp now pid index blp (erase_at index xs)
                else nack_blp now pid index (blp OR push_bit (unat distance) 1)
                       (xs[index := mark_sent now info])
           else (index, blp, xs)
      else (index, blp, xs))"
  by pat_completeness auto
termination
  by (relation "measure (\<lambda>(now, pid, index, blp, xs). length xs - index)") auto

declare nack_blp.simps [simp del]

text \<open>The four ways the inner loop goes on, as conditional equations.\<close>

lemma nack_blp_end:
  "length xs \<le> index + 1 \<Longrightarrow> nack_blp now pid index blp xs = (index, blp, xs)"
  "index + 1 < length xs \<Longrightarrow> 15 < ni_seq_num (xs ! (index + 1)) - pid - 1 \<Longrightarrow>
    nack_blp now pid index blp xs = (index + 1, blp, xs)"
  by (simp_all add: nack_blp.simps [of now pid index blp xs] Let_def not_le [symmetric])

lemma nack_blp_step:
  assumes "index + 1 < length xs" "ni_seq_num (xs ! (index + 1)) - pid - 1 \<le> 15"
  shows "\<not> isTimeToRetransmit (xs ! (index + 1)) now \<Longrightarrow>
      nack_blp now pid index blp xs = nack_blp now pid (index + 1) blp xs"
    and "isTimeToRetransmit (xs ! (index + 1)) now \<Longrightarrow> kMaxRetransmits \<le> ni_retransmits (xs ! (index + 1)) \<Longrightarrow>
      nack_blp now pid index blp xs = nack_blp now pid (index + 1) blp (erase_at (index + 1) xs)"
    and "isTimeToRetransmit (xs ! (index + 1)) now \<Longrightarrow> \<not> kMaxRetransmits \<le> ni_retransmits (xs ! (index + 1)) \<Longrightarrow>
      nack_blp now pid index blp xs = nack_blp now pid (index + 1)
        (blp OR push_bit (unat (ni_seq_num (xs ! (index + 1)) - pid - 1)) 1)
        (xs[index + 1 := mark_sent now (xs ! (index + 1))])"
  using assms by (simp_all add: nack_blp.simps [of now pid index blp xs] Let_def)

text \<open>An induction rule over those ways.\<close>

lemma nack_blp_induct [case_names stop far wait erase mark]:
  assumes stop: "\<And>index blp xs. length xs \<le> index + 1 \<Longrightarrow> P index blp xs (index, blp, xs)"
    and far: "\<And>index blp xs. index + 1 < length xs \<Longrightarrow> 15 < ni_seq_num (xs ! (index + 1)) - pid - 1 \<Longrightarrow>
      P index blp xs (index + 1, blp, xs)"
    and wait: "\<And>index blp xs r. index + 1 < length xs \<Longrightarrow> ni_seq_num (xs ! (index + 1)) - pid - 1 \<le> 15 \<Longrightarrow>
      P (index + 1) blp xs r \<Longrightarrow> P index blp xs r"
    and erase: "\<And>index blp xs r. index + 1 < length xs \<Longrightarrow> ni_seq_num (xs ! (index + 1)) - pid - 1 \<le> 15 \<Longrightarrow>
      P (index + 1) blp (erase_at (index + 1) xs) r \<Longrightarrow> P index blp xs r"
    and mark: "\<And>index blp xs r. index + 1 < length xs \<Longrightarrow> ni_seq_num (xs ! (index + 1)) - pid - 1 \<le> 15 \<Longrightarrow>
      isTimeToRetransmit (xs ! (index + 1)) now \<Longrightarrow> ni_retransmits (xs ! (index + 1)) < kMaxRetransmits \<Longrightarrow>
      P (index + 1) (blp OR push_bit (unat (ni_seq_num (xs ! (index + 1)) - pid - 1)) 1)
        (xs[index + 1 := mark_sent now (xs ! (index + 1))]) r \<Longrightarrow> P index blp xs r"
  shows "P index blp xs (nack_blp now pid index blp xs)"
proof (induction "length xs - index" arbitrary: index blp xs rule: less_induct)
  case less
  let ?x = "xs ! (index + 1)"
  consider "length xs \<le> index + 1" | "index + 1 < length xs" "15 < ni_seq_num ?x - pid - 1"
    | "index + 1 < length xs" "ni_seq_num ?x - pid - 1 \<le> 15" "\<not> isTimeToRetransmit ?x now"
    | "index + 1 < length xs" "ni_seq_num ?x - pid - 1 \<le> 15" "isTimeToRetransmit ?x now"
      "kMaxRetransmits \<le> ni_retransmits ?x"
    | "index + 1 < length xs" "ni_seq_num ?x - pid - 1 \<le> 15" "isTimeToRetransmit ?x now"
      "\<not> kMaxRetransmits \<le> ni_retransmits ?x"
    by (meson not_le)
  then show ?case
  proof cases
    case 1 then show ?thesis by (simp add: nack_blp_end stop)
  next
    case 2 then show ?thesis using far by (simp add: nack_blp_end)
  next
    case 3
    show ?thesis unfolding nack_blp_step(1) [OF 3] by (rule wait [OF 3(1,2) less]) (use 3 in simp)
  next
    case 4
    show ?thesis unfolding nack_blp_step(2) [OF 4] by (rule erase [OF 4(1,2) less]) (use 4 in simp)
  next
    case 5
    show ?thesis unfolding nack_blp_step(3) [OF 5]
      by (rule mark [OF 5(1-3) _ less]) (use 5 in simp_all)
  qed
qed

lemma nack_blp_length:
  "length (snd (snd (nack_blp now pid index blp xs))) - fst (nack_blp now pid index blp xs) \<le> length xs - index
   \<and> length (snd (snd (nack_blp now pid index blp xs))) \<le> length xs"
  by (rule nack_blp_induct [where P = "\<lambda>index blp xs r.
      length (snd (snd r)) - fst r \<le> length xs - index \<and> length (snd (snd r)) \<le> length xs"]) auto

function nack_blocks ::
  "u64 \<Rightarrow> nat \<Rightarrow> (u16 \<times> u16) list \<Rightarrow> nackInfo list \<Rightarrow> (u16 \<times> u16) list \<times> nackInfo list" where
  "nack_blocks now index nack_vector xs =
     (if index < length xs
      then let base = xs ! index
        in if \<not> isTimeToRetransmit base now then nack_blocks now (index + 1) nack_vector xs
           else if ni_retransmits base \<ge> kMaxRetransmits
           then nack_blocks now index nack_vector (erase_at index xs)
           else let pid = ni_seq_num base;
                    (index', blp, xs') = nack_blp now pid index 0 (xs[index := mark_sent now base])
                in nack_blocks now (index' + 1) (nack_vector @ [(pid, blp)]) xs'
      else (nack_vector, xs))"
  by pat_completeness auto
termination
proof (relation "measure (\<lambda>(now, index, v, xs). length xs - index)", goal_cases)
  case (4 now index v xs base pid t index' u blp xs')
  then have "(index', blp, xs') = nack_blp now pid index 0 (xs[index := mark_sent now base])" by simp
  then have "length xs' - index' \<le> length xs - index \<and> length xs' \<le> length xs"
    using nack_blp_length [of now pid index 0 "xs[index := mark_sent now base]"]
    by (metis fst_conv length_list_update snd_conv)
  with 4(1) show ?case by auto
qed auto

declare nack_blocks.simps [simp del]

fun store_blocks :: "nat \<Rightarrow> (u16 \<times> u16) list \<Rightarrow> mem \<Rightarrow> mem" where
  "store_blocks p [] m = m"
| "store_blocks p ((pid, blp) # bs) m =
     store_blocks (p + 4) bs (store16 (p + 2) (htons blp) (store16 p (htons pid) m))"

definition addNackPacketToRr :: "u64 \<Rightarrow> dataPacket \<Rightarrow> nackGenerator \<Rightarrow> bool \<times> dataPacket \<times> nackGenerator" where
  "addNackPacketToRr now rr_packet g =
     (let (nack_vector, xs) = nack_blocks now 0 [] (nack_info_list g);
          g = g\<lparr>nack_info_list := xs\<rparr>
      in if nack_vector = [] then (False, rr_packet, g)
         else let buffer = nat (packet_length rr_packet);
                  nack_packet = new_RtcpHeader 0 zero_mem;
                  nack_packet = setPacketType 0 RTCP_RTP_Feedback_PT nack_packet;
                  nack_packet = setBlockCount 0 1 nack_packet;
                  nack_packet = rtcp_setSSRC 0 (ng_ssrc g) nack_packet;
                  nack_packet = setSourceSSRC 0 (ng_ssrc g) nack_packet;
                  nack_packet = rtcp_setLength 0
                    (kNackCommonHeaderLengthRtcp + of_nat (length nack_vector)) nack_packet;
                  m = copy_mem buffer nack_packet kNackCommonHeaderLengthBytes (data rr_packet);
                  m = store_blocks (buffer + kNackCommonHeaderLengthBytes) nack_vector m;
                  nack_length = (int (unat (rtcp_getLength nack_packet 0)) + 1) * 4
              in (True, rr_packet\<lparr>data := m, packet_length := packet_length rr_packet + nack_length\<rparr>, g))"

subsection \<open>Induction over the rounds\<close>

lemma nack_blocks_induct [case_names stop wait erase block]:
  assumes stop: "\<And>index v xs. length xs \<le> index \<Longrightarrow> P index v xs (v, xs)"
    and wait: "\<And>index v xs r. index < length xs \<Longrightarrow> P (index + 1) v xs r \<Longrightarrow> P index v xs r"
    and erase: "\<And>index v xs r. index < length xs \<Longrightarrow> P index v (erase_at index xs) r \<Longrightarrow> P index v xs r"
    and block: "\<And>index v xs index' blp xs' r. index < length xs \<Longrightarrow> isTimeToRetransmit (xs ! index) now \<Longrightarrow>
      ni_retransmits (xs ! index) < kMaxRetransmits \<Longrightarrow>
      nack_blp now (ni_seq_num (xs ! index)) index 0 (xs[index := mark_sent now (xs ! index)]) = (index', blp, xs') \<Longrightarrow>
      P (index' + 1) (v @ [(ni_seq_num (xs ! index), blp)]) xs' r \<Longrightarrow> P index v xs r"
  shows "P index v xs (nack_blocks now index v xs)"
proof (induction "length xs - index" arbitrary: index v xs rule: less_induct)
  case less
  let ?x = "xs ! index"
  show ?case
  proof (cases "index < length xs")
    case False
    then show ?thesis using stop by (simp add: nack_blocks.simps)
  next
    case i: True
    show ?thesis
    proof (cases "isTimeToRetransmit ?x now")
      case False
      then have "nack_blocks now index v xs = nack_blocks now (index + 1) v xs"
        by (simp add: nack_blocks.simps [of now index v xs] i Let_def)
      then show ?thesis using less [of xs "index + 1"] wait [OF i] i by simp
    next
      case t: True
      show ?thesis
      proof (cases "ni_retransmits ?x < kMaxRetransmits")
        case False
        then have "nack_blocks now index v xs = nack_blocks now index v (erase_at index xs)"
          by (simp add: nack_blocks.simps [of now index v xs] i t Let_def not_less)
        then show ?thesis using less [of "erase_at index xs" index] erase [OF i] i by simp
      next
        case r: True
        obtain index' blp xs' where b:
          "nack_blp now (ni_seq_num ?x) index 0 (xs[index := mark_sent now ?x]) = (index', blp, xs')"
          by (metis prod_cases3)
        then have "nack_blocks now index v xs = nack_blocks now (index' + 1) (v @ [(ni_seq_num ?x, blp)]) xs'"
          using leD [of kMaxRetransmits "ni_retransmits ?x"] r
          by (auto simp add: nack_blocks.simps [of now index v xs] i t Let_def)
        moreover have "length xs' - (index' + 1) < length xs - index"
          using nack_blp_length [of now "ni_seq_num ?x" index 0 "xs[index := mark_sent now ?x]"] b i by simp arith
        ultimately show ?thesis using less [of xs' "index' + 1"] block [OF i t r b] by simp
      qed
    qed
  qed
qed

lemma set_erase_at: "set (erase_at i xs) \<subseteq> set xs"
  by (auto simp: erase_at_def dest: in_set_takeD in_set_dropD)

lemma set_mark:
  "i < length xs \<Longrightarrow> set (xs[i := mark_sent now (xs ! i)]) \<subseteq> insert (mark_sent now (xs ! i)) (set xs)"
  by (rule set_update_subset_insert)

lemma mark_sent_simps [simp]:
  "ni_seq_num (mark_sent now x) = ni_seq_num x"
  "ni_retransmits (mark_sent now x) = ni_retransmits x + 1" "ni_sent_time (mark_sent now x) = now"
  by (simp_all add: mark_sent_def)

lemma seqs_mark: "i < length xs \<Longrightarrow> ni_seq_num ` set (xs[i := mark_sent now (xs ! i)]) = ni_seq_num ` set xs"
proof -
  assume "i < length xs"
  then have "map ni_seq_num (xs[i := mark_sent now (xs ! i)]) = map ni_seq_num xs"
    by (simp add: map_update list_update_same_conv)
  then show ?thesis by (metis list.set_map)
qed

subsection \<open>Every operation keeps the list bounded\<close>

definition nack_inv :: "nackGenerator \<Rightarrow> bool" where
  "nack_inv g \<longleftrightarrow> length (nack_info_list g) \<le> kMaxNacks
     \<and> (\<forall>x \<in> set (nack_info_list g). ni_retransmits x \<le> kMaxRetransmits)"

definition few_retransmits :: "nackInfo list \<Rightarrow> bool" where
  "few_retransmits xs \<longleftrightarrow> (\<forall>x \<in> set xs. ni_retransmits x \<le> kMaxRetransmits)"

lemma few_retransmits_erase: "few_retransmits xs \<Longrightarrow> few_retransmits (erase_at i xs)"
  using set_erase_at by (fastforce simp: few_retransmits_def)

lemma few_retransmits_mark:
  assumes "few_retransmits xs" "i < length xs" "ni_retransmits (xs ! i) < kMaxRetransmits"
  shows "few_retransmits (xs[i := mark_sent now (xs ! i)])"
proof -
  have "ni_retransmits (xs ! i) + 1 \<le> kMaxRetransmits" using assms(3) by (rule inc_le)
  then show ?thesis
    using assms(1) set_mark [OF assms(2), of now] by (fastforce simp: few_retransmits_def)
qed

lemma few_retransmits_blp:
  "few_retransmits xs \<longrightarrow> few_retransmits (snd (snd (nack_blp now pid index blp xs)))"
  by (rule nack_blp_induct [where P = "\<lambda>index blp xs r. few_retransmits xs \<longrightarrow> few_retransmits (snd (snd r))"])
    (auto intro: few_retransmits_erase few_retransmits_mark)

lemma few_retransmits_blocks:
  "few_retransmits xs \<longrightarrow> few_retransmits (snd (nack_blocks now index v xs))
     \<and> length (snd (nack_blocks now index v xs)) \<le> length xs
     \<and> length (fst (nack_blocks now index v xs)) \<le> length v + (length xs - index)"
proof (rule nack_blocks_induct [where P = "\<lambda>index v xs r. few_retransmits xs \<longrightarrow> few_retransmits (snd r)
    \<and> length (snd r) \<le> length xs \<and> length (fst r) \<le> length v + (length xs - index)"])
  fix index v xs index' blp xs' r
  assume a: "index < length xs" "ni_retransmits (xs ! index) < kMaxRetransmits"
    and b: "nack_blp now (ni_seq_num (xs ! index)) index 0 (xs[index := mark_sent now (xs ! index)]) = (index', blp, xs')"
    and IH: "few_retransmits xs' \<longrightarrow> few_retransmits (snd r) \<and> length (snd r) \<le> length xs'
      \<and> length (fst r) \<le> length (v @ [(ni_seq_num (xs ! index), blp)]) + (length xs' - (index' + 1))"
  show "few_retransmits xs \<longrightarrow> few_retransmits (snd r)
      \<and> length (snd r) \<le> length xs \<and> length (fst r) \<le> length v + (length xs - index)"
    using IH few_retransmits_mark [OF _ a, of now] a(1)
      few_retransmits_blp [of "xs[index := mark_sent now (xs ! index)]" now "ni_seq_num (xs ! index)" index 0]
      nack_blp_length [of now "ni_seq_num (xs ! index)" index 0 "xs[index := mark_sent now (xs ! index)]"]
    unfolding b by auto
qed (auto intro: few_retransmits_erase)

lemma push_nacks_eq:
  "push_nacks c n xs = xs @ map (\<lambda>k. new_NackInfo (c + of_nat k)) [0..<seq_dist c n]"
proof (induction c n xs rule: push_nacks.induct)
  case (1 c n xs)
  show ?case
  proof (cases "c = n")
    case True then show ?thesis by (simp add: push_nacks.simps)
  next
    case False
    show ?thesis
      using "1.IH" [OF False] False
      by (simp add: push_nacks.simps [of c n xs] seq_dist_Suc [OF False] map_upt_Suc add.assoc del: upt_Suc)
  qed
qed

lemma trim_nacks_eq: "trim_nacks xs = take kMaxNacks xs"
proof (induction xs rule: trim_nacks.induct)
  case (1 xs)
  show ?case
  proof (cases "kMaxNacks < length xs")
    case True
    then have "min kMaxNacks (length xs - 1) = kMaxNacks" by linarith
    then show ?thesis
      using "1.IH" [OF True] True by (simp add: trim_nacks.simps [of xs] butlast_conv_take)
  qed (simp add: trim_nacks.simps [of xs])
qed

lemma set_erase_nack: "set (erase_nack n xs) \<subseteq> set xs" "length (erase_nack n xs) \<le> length xs"
  by (induction xs) auto

lemma set_erase_nack_few: "few_retransmits xs \<Longrightarrow> few_retransmits (erase_nack n xs)"
  using set_erase_nack(1) [of n xs] by (auto simp: few_retransmits_def)

lemma nack_inv_iff: "nack_inv g \<longleftrightarrow> length (nack_info_list g) \<le> kMaxNacks \<and> few_retransmits (nack_info_list g)"
  by (simp add: nack_inv_def few_retransmits_def)

lemma few_retransmits_new: "few_retransmits (xs @ take n (map (\<lambda>k. new_NackInfo (f k)) ks))" if "few_retransmits xs"
  using that by (auto simp: few_retransmits_def new_NackInfo_def dest!: in_set_takeD)

subsection \<open>Only listed numbers are requested\<close>

text \<open>The numbers a PID/BLP pair asks for: bit \<open>k\<close> of the BLP stands for \<open>pid + k + 1\<close>.\<close>

definition requested :: "u16 \<times> u16 \<Rightarrow> u16 list" where
  "requested block = fst block # map (\<lambda>k. fst block + 1 + of_nat k) (filter (bit (snd block)) [0..<16])"

definition listed :: "nackInfo list \<Rightarrow> u16 set" where
  "listed xs = ni_seq_num ` set xs"

lemma listed_simps:
  "i < length xs \<Longrightarrow> listed (xs[i := mark_sent now (xs ! i)]) = listed xs"
  "listed (erase_at i xs) \<subseteq> listed xs" "i < length xs \<Longrightarrow> ni_seq_num (xs ! i) \<in> listed xs"
  using seqs_mark [of i xs now] set_erase_at [of i xs] by (auto simp: listed_def)

lemma nack_blp_listed:
  "listed (snd (snd (nack_blp now pid index blp xs))) \<subseteq> listed xs \<and>
   (\<forall>k. bit (fst (snd (nack_blp now pid index blp xs))) k \<longrightarrow> bit blp k \<or> pid + 1 + of_nat k \<in> listed xs)"
proof (rule nack_blp_induct [where P = "\<lambda>index blp xs r. listed (snd (snd r)) \<subseteq> listed xs \<and>
    (\<forall>k. bit (fst (snd r)) k \<longrightarrow> bit blp k \<or> pid + 1 + of_nat k \<in> listed xs)"])
  fix index xs r and blp :: u16
  assume i: "index + 1 < length xs"
    and IH: "listed (snd (snd r)) \<subseteq> listed (xs[index + 1 := mark_sent now (xs ! (index + 1))]) \<and>
      (\<forall>k. bit (fst (snd r)) k \<longrightarrow> bit (blp OR push_bit (unat (ni_seq_num (xs ! (index + 1)) - pid - 1)) 1) k
        \<or> pid + 1 + of_nat k \<in> listed (xs[index + 1 := mark_sent now (xs ! (index + 1))]))"
  have "pid + 1 + of_nat (unat (ni_seq_num (xs ! (index + 1)) - pid - 1)) = ni_seq_num (xs ! (index + 1))"
    by simp
  then show "listed (snd (snd r)) \<subseteq> listed xs \<and>
      (\<forall>k. bit (fst (snd r)) k \<longrightarrow> bit blp k \<or> pid + 1 + of_nat k \<in> listed xs)"
    using IH listed_simps(3) [OF i] unfolding bit_mark listed_simps(1) [OF i] by metis
next
  fix index xs r and blp :: u16
  assume "listed (snd (snd r)) \<subseteq> listed (erase_at (index + 1) xs) \<and>
    (\<forall>k. bit (fst (snd r)) k \<longrightarrow> bit blp k \<or> pid + 1 + of_nat k \<in> listed (erase_at (index + 1) xs))"
  then show "listed (snd (snd r)) \<subseteq> listed xs \<and>
      (\<forall>k. bit (fst (snd r)) k \<longrightarrow> bit blp k \<or> pid + 1 + of_nat k \<in> listed xs)"
    using listed_simps(2) by blast
qed auto

lemma nack_blocks_listed:
  "\<forall>block \<in> set (fst (nack_blocks now index v xs)).
     block \<in> set v \<or> set (requested block) \<subseteq> listed xs"
proof (rule nack_blocks_induct [where P = "\<lambda>index v xs r. \<forall>block \<in> set (fst r).
    block \<in> set v \<or> set (requested block) \<subseteq> listed xs"])
  fix index v xs index' blp xs' r
  assume i: "index < length xs"
    and b: "nack_blp now (ni_seq_num (xs ! index)) index 0 (xs[index := mark_sent now (xs ! index)]) = (index', blp, xs')"
    and IH: "\<forall>block \<in> set (fst r). block \<in> set (v @ [(ni_seq_num (xs ! index), blp)])
      \<or> set (requested block) \<subseteq> listed xs'"
  have sub: "listed xs' \<subseteq> listed xs" "set (requested (ni_seq_num (xs ! index), blp)) \<subseteq> listed xs"
    using nack_blp_listed [of now "ni_seq_num (xs ! index)" index 0 "xs[index := mark_sent now (xs ! index)]"]
      listed_simps(1,3) [OF i]
    unfolding b by (auto simp: requested_def)
  then show "\<forall>block \<in> set (fst r). block \<in> set v \<or> set (requested block) \<subseteq> listed xs"
    using IH by (metis (no_types, lifting) Un_iff empty_iff empty_set in_set_conv_nth list.set(2)
        order_trans set_ConsD set_append)
next
  fix index v xs r
  assume "\<forall>block \<in> set (fst r). block \<in> set v \<or> set (requested block) \<subseteq> listed (erase_at index xs)"
  then show "\<forall>block \<in> set (fst r). block \<in> set v \<or> set (requested block) \<subseteq> listed xs"
    using listed_simps(2) by blast
qed auto

subsection \<open>The packet written\<close>

lemma store_blocks_below: "i < p \<Longrightarrow> store_blocks p bs m i = m i"
  by (induction bs arbitrary: p m) (auto simp: store_other)

lemma nack_items_store:
  assumes "12 + 4 * length bs \<le> len - c + 12" "c \<le> len" "len - c = 4 * length bs"
  shows "nack_items (\<lambda>pid blp q (m, l). (m, l @ [(pid, blp)])) len c aux (store_blocks (aux + 12) bs m, l)
    = (store_blocks (aux + 12) bs m, l @ bs)"
  using assms
proof (induction bs arbitrary: c aux m l)
  case Nil
  then show ?case by (simp add: nack_items.simps)
next
  case (Cons b bs)
  obtain pid blp where b: "b = (pid, blp)" by (cases b)
  let ?m = "store16 (aux + 12 + 2) (htons blp) (store16 (aux + 12) (htons pid) m)"
  have "getNackPid (store_blocks (aux + 12 + 4) bs ?m) aux = getNackPid ?m aux"
    "getNackBlp (store_blocks (aux + 12 + 4) bs ?m) aux = getNackBlp ?m aux"
    by (simp_all add: getNackPid_def getNackBlp_def load16_def store_blocks_below)
  moreover have "getNackPid ?m aux = pid" "getNackBlp ?m aux = blp"
    by (simp_all add: getNackPid_def getNackBlp_def load16_def store16_def htons_def ntohs_def)
  ultimately show ?case
    using Cons.IH [of "c + 4" "aux + 4" ?m "l @ [(pid, blp)]"] Cons.prems
    by (simp add: b nack_items.simps [of _ _ c] add.commute add.left_commute)
qed

lemma addNackPacketToRr_sent:
  assumes "addNackPacketToRr now rr g = (True, rr', g')" "0 \<le> packet_length rr" "nack_inv g"
  defines "blocks \<equiv> fst (nack_blocks now 0 [] (nack_info_list g))" and "p \<equiv> nat (packet_length rr)"
  shows "packet_length rr' = packet_length rr + 12 + 4 * int (length blocks)"
    and "i < p \<Longrightarrow> data rr' i = data rr i"
    and "getPacketType (data rr') p = RTCP_RTP_Feedback_PT"
    and "unat (rtcp_getLength (data rr') p) = 2 + length blocks"
    and "\<exists>m. data rr' = store_blocks (p + 12) blocks m"
proof -
  have n: "length blocks \<le> 150"
    using assms(3) few_retransmits_blocks [of "nack_info_list g" now 0 "[]"]
    by (simp add: blocks_def nack_inv_iff kMaxNacks_def)
  define h where "h = rtcp_setLength 0 (2 + of_nat (length blocks)) (setSourceSSRC 0 (ng_ssrc g)
    (rtcp_setSSRC 0 (ng_ssrc g) (setBlockCount 0 1 (setPacketType 0 RTCP_RTP_Feedback_PT (new_RtcpHeader 0 zero_mem)))))"
  have l: "unat (rtcp_getLength h 0) = 2 + length blocks"
    using n by (simp add: h_def unat_add_u16 unat_of_nat)
  have d: "data rr' = store_blocks (p + 12) blocks (copy_mem p h 12 (data rr))"
    and "packet_length rr' = packet_length rr + (int (unat (rtcp_getLength h 0)) + 1) * 4"
    using assms(1)
    by (auto simp add: addNackPacketToRr_def Let_def case_prod_beta blocks_def p_def h_def
        kNackCommonHeaderLengthRtcp_def simp del: of_nat_unat split: if_splits)
  then show "packet_length rr' = packet_length rr + 12 + 4 * int (length blocks)"
    by (simp add: l del: of_nat_unat)
  show "i < p \<Longrightarrow> data rr' i = data rr i"
    by (simp add: d store_blocks_below copy_mem_def)
  show "getPacketType (data rr') p = RTCP_RTP_Feedback_PT"
    by (simp add: d getPacketType_def store_blocks_below copy_mem_def h_def rtcp_setter_defs)
  have "rtcp_getLength (data rr') p = rtcp_getLength h 0"
    by (simp add: d rtcp_getLength_def load16_def store_blocks_below copy_mem_def eval_nat_numeral)
  then show "unat (rtcp_getLength (data rr') p) = 2 + length blocks" using l by simp
  show "\<exists>m. data rr' = store_blocks (p + 12) blocks m" using d by blast
qed

lemma nack_inv_preserved:
  assumes "nack_inv g"
  shows "nack_inv (snd (nack_handleRtpPacket packet g))
    \<and> nack_inv (snd (snd (addNackPacketToRr now rr g)))"
proof
  show "nack_inv (snd (nack_handleRtpPacket packet g))"
    using assms set_erase_nack [of "getSeqNumber (data packet)" "nack_info_list g"]
      few_retransmits_new [of "nack_info_list g"]
    by (auto simp: nack_handleRtpPacket_def addNacks_def Let_def nack_inv_iff trim_nacks_eq push_nacks_eq
        intro: set_erase_nack_few)
  show "nack_inv (snd (snd (addNackPacketToRr now rr g)))"
    using assms few_retransmits_blocks [of "nack_info_list g" now 0 "[]"]
    by (auto simp: addNackPacketToRr_def Let_def case_prod_beta nack_inv_iff)
qed

lemma written_blocks:
  assumes "addNackPacketToRr now rr g = (True, rr', g')" "0 \<le> packet_length rr" "nack_inv g"
  shows "snd (forEachNack (\<lambda>pid blp q (m, l). (m, l @ [(pid, blp)])) (nat (packet_length rr)) (data rr', []))
      = fst (nack_blocks now 0 [] (nack_info_list g))"
    "packet_length rr' \<le> packet_length rr + 612"
proof -
  note s = addNackPacketToRr_sent [OF assms]
  let ?p = "nat (packet_length rr)" and ?bs = "fst (nack_blocks now 0 [] (nack_info_list g))"
  have "length ?bs \<le> 150"
    using assms(3) few_retransmits_blocks [of "nack_info_list g" now 0 "[]"]
    by (simp add: nack_inv_iff kMaxNacks_def)
  then show "packet_length rr' \<le> packet_length rr + 612" using s(1) by simp
  obtain m where m: "data rr' = store_blocks (?p + 12) ?bs m" using s(5) by blast
  show "snd (forEachNack (\<lambda>pid blp q (m, l). (m, l @ [(pid, blp)])) ?p (data rr', [])) = ?bs"
    using nack_items_store [of ?bs "4 * Suc (Suc (Suc (length ?bs)))" 12 ?p m "[]"] s(3,4)
    by (simp add: forEachNack_def m mult.commute)
qed

subsection \<open>How often a number is requested\<close>

text \<open>The requests that are left for a number: two for each of its entries, less those made.\<close>

definition chances :: "u16 \<Rightarrow> nackInfo list \<Rightarrow> nat" where
  "chances n xs = sum_list (map (\<lambda>x. if ni_seq_num x = n then 2 - unat (ni_retransmits x) else 0) xs)"

lemma chances_append [simp]: "chances n (xs @ ys) = chances n xs + chances n ys"
  by (simp add: chances_def)

lemma chances_split:
  "i < length xs \<Longrightarrow> chances n xs = chances n (take i xs) + chances n [xs ! i] + chances n (drop (Suc i) xs)"
  using id_take_nth_drop [of i xs] chances_append by (metis append_Cons append_Nil add.assoc)

lemma chances_take: "chances n (take k xs) \<le> chances n xs"
  using chances_append [of n "take k xs" "drop k xs"] by simp

lemma chances_erase_at: "i < length xs \<Longrightarrow> chances n (erase_at i xs) \<le> chances n xs"
  by (simp add: erase_at_def chances_split [of i xs n])

lemma chances_erase_nack: "chances n (erase_nack k xs) \<le> chances n xs"
  by (induction xs) (auto simp: chances_def)

lemma chances_mark:
  assumes "i < length xs" "ni_retransmits (xs ! i) < kMaxRetransmits"
  shows "(if ni_seq_num (xs ! i) = n then 1 else 0) + chances n (xs[i := mark_sent now (xs ! i)]) = chances n xs"
proof -
  let ?r = "ni_retransmits (xs ! i)"
  have "unat ?r < 2" using assms(2) by (simp add: kMaxRetransmits_def word_less_nat_alt)
  moreover from this have "unat (?r + 1) = unat ?r + 1" by (simp add: unat_add_u16)
  ultimately have "(if ni_seq_num (xs ! i) = n then 1 else 0) + chances n [mark_sent now (xs ! i)] = chances n [xs ! i]"
    by (auto simp: chances_def)
  moreover have "chances n (xs[i := mark_sent now (xs ! i)])
      = chances n (take i xs) + chances n [mark_sent now (xs ! i)] + chances n (drop (Suc i) xs)"
    using chances_append [of n "take i xs" "[mark_sent now (xs ! i)] @ drop (Suc i) xs"]
      chances_append [of n "[mark_sent now (xs ! i)]" "drop (Suc i) xs"] assms(1)
    by (simp add: upd_conv_take_nth_drop)
  ultimately show ?thesis using chances_split [OF assms(1), of n] by linarith
qed

lemma chances_new:
  "chances n (map new_NackInfo ns) = 2 * count_list ns n"
  by (induction ns) (simp_all add: chances_def new_NackInfo_def)

text \<open>How often a PID/BLP pair asks for a number.\<close>

definition bits_for :: "u16 \<Rightarrow> u16 \<Rightarrow> u16 \<Rightarrow> nat" where
  "bits_for n pid blp = length (filter (\<lambda>k. bit blp k \<and> pid + 1 + of_nat k = n) [0..<16])"

lemma count_requested: "count_list (requested (pid, blp)) n = (if pid = n then 1 else 0) + bits_for n pid blp"
proof -
  have "count_list (map f ks) n = length (filter (\<lambda>k. f k = n) ks)" for f :: "nat \<Rightarrow> u16" and ks
    by (induction ks) auto
  then show ?thesis
    by (simp add: requested_def bits_for_def conj_commute)
qed

lemma bits_for_mark:
  "bits_for n pid (blp OR push_bit d 1) \<le> bits_for n pid blp + (if pid + 1 + of_nat d = n then 1 else 0)"
proof -
  have "length (filter (\<lambda>k. P k \<or> Q k) ks) \<le> length (filter P ks) + length (filter Q ks)" for P Q and ks :: "nat list"
    by (induction ks) auto
  note this [of "\<lambda>k. bit blp k \<and> pid + 1 + of_nat k = n" "\<lambda>k. k = d \<and> pid + 1 + of_nat k = n" "[0..<16]"]
  moreover have "length (filter (\<lambda>k. k = d \<and> pid + 1 + of_nat k = n) [0..<16]) \<le> (if pid + 1 + of_nat d = n then 1 else 0)"
  proof (cases "pid + 1 + of_nat d = n")
    case True
    then have "filter (\<lambda>k. k = d \<and> pid + 1 + of_nat k = n) [0..<16] = filter (\<lambda>k. k = d) [0..<16]"
      by (intro filter_cong) auto
    moreover have "card (set (filter (\<lambda>k. k = d) [0..<16])) = length (filter (\<lambda>k. k = d) [0..<16])"
      by (rule distinct_card) simp
    moreover have "card (set (filter (\<lambda>k. k = d) [0..<16])) \<le> card {d}" by (rule card_mono) auto
    ultimately show ?thesis using True by simp
  next
    case False
    then have "filter (\<lambda>k. k = d \<and> pid + 1 + of_nat k = n) [0..<16] = []" by (auto simp: filter_empty_conv)
    then show ?thesis by simp
  qed
  moreover have "filter (\<lambda>k. bit (blp OR push_bit d 1) k \<and> pid + 1 + of_nat k = n) [0..<16]
      = filter (\<lambda>k. (bit blp k \<and> pid + 1 + of_nat k = n) \<or> (k = d \<and> pid + 1 + of_nat k = n)) [0..<16]"
    by (rule filter_cong) (auto simp: bit_simps)
  ultimately show ?thesis by (simp only: bits_for_def)
qed

lemma nack_blp_chances:
  "bits_for n pid (fst (snd (nack_blp now pid index blp xs))) + chances n (snd (snd (nack_blp now pid index blp xs)))
    \<le> bits_for n pid blp + chances n xs"
proof (rule nack_blp_induct [where P = "\<lambda>index blp xs r.
    bits_for n pid (fst (snd r)) + chances n (snd (snd r)) \<le> bits_for n pid blp + chances n xs"])
  fix index blp and xs :: "nackInfo list" and r :: "nat \<times> u16 \<times> nackInfo list"
  assume "index + 1 < length xs" "bits_for n pid (fst (snd r)) + chances n (snd (snd r))
    \<le> bits_for n pid blp + chances n (erase_at (index + 1) xs)"
  then show "bits_for n pid (fst (snd r)) + chances n (snd (snd r)) \<le> bits_for n pid blp + chances n xs"
    using chances_erase_at [of "index + 1" xs n] by linarith
next
  fix index blp and xs :: "nackInfo list" and r :: "nat \<times> u16 \<times> nackInfo list"
  let ?x = "xs ! (index + 1)"
  assume a: "index + 1 < length xs" "ni_retransmits ?x < kMaxRetransmits"
    "bits_for n pid (fst (snd r)) + chances n (snd (snd r))
      \<le> bits_for n pid (blp OR push_bit (unat (ni_seq_num ?x - pid - 1)) 1) + chances n (xs[index + 1 := mark_sent now ?x])"
  then show "bits_for n pid (fst (snd r)) + chances n (snd (snd r)) \<le> bits_for n pid blp + chances n xs"
    using chances_mark [OF a(1,2), of n now] bits_for_mark [of n pid blp "unat (ni_seq_num ?x - pid - 1)"]
    by (simp split: if_splits)
qed simp_all

lemma nack_blocks_chances:
  "count_list (concat (map requested (fst (nack_blocks now index v xs)))) n + chances n (snd (nack_blocks now index v xs))
    \<le> count_list (concat (map requested v)) n + chances n xs"
proof (rule nack_blocks_induct [where P = "\<lambda>index v xs r.
    count_list (concat (map requested (fst r))) n + chances n (snd r) \<le> count_list (concat (map requested v)) n + chances n xs"])
  fix index and v :: "(u16 \<times> u16) list" and xs :: "nackInfo list" and r :: "(u16 \<times> u16) list \<times> nackInfo list"
  assume "index < length xs" "count_list (concat (map requested (fst r))) n + chances n (snd r)
    \<le> count_list (concat (map requested v)) n + chances n (erase_at index xs)"
  then show "count_list (concat (map requested (fst r))) n + chances n (snd r) \<le> count_list (concat (map requested v)) n + chances n xs"
    using chances_erase_at [of index xs n] by linarith
next
  fix index index' blp and v :: "(u16 \<times> u16) list" and xs xs' :: "nackInfo list" and r :: "(u16 \<times> u16) list \<times> nackInfo list"
  let ?x = "xs ! index"
  assume a: "index < length xs" "ni_retransmits ?x < kMaxRetransmits"
    and b: "nack_blp now (ni_seq_num ?x) index 0 (xs[index := mark_sent now ?x]) = (index', blp, xs')"
    and IH: "count_list (concat (map requested (fst r))) n + chances n (snd r)
      \<le> count_list (concat (map requested (v @ [(ni_seq_num ?x, blp)]))) n + chances n xs'"
  have z: "bits_for n (ni_seq_num ?x) 0 = 0" by (simp add: bits_for_def)
  show "count_list (concat (map requested (fst r))) n + chances n (snd r) \<le> count_list (concat (map requested v)) n + chances n xs"
    using IH chances_mark [OF a, of n now]
      nack_blp_chances [of n "ni_seq_num ?x" now index 0 "xs[index := mark_sent now ?x]"]
    unfolding b by (simp add: count_requested z)
qed simp_all

text \<open>
  Runs: packets that arrive, and reports that go out. What a run requests is read from the bytes
  of the reports. What a stream skips is told by its packets alone.
\<close>

datatype ng_event = NgPacket dataPacket | NgReport u64 dataPacket

definition ng_step :: "ng_event \<Rightarrow> nackGenerator \<Rightarrow> u16 list \<times> nackGenerator" where
  "ng_step e g = (case e of NgPacket p \<Rightarrow> ([], snd (nack_handleRtpPacket p g))
     | NgReport now rr \<Rightarrow> (let (added, rr', g') = addNackPacketToRr now rr g
         in (if added then concat (map requested (snd (forEachNack (\<lambda>pid blp q (m, l). (m, l @ [(pid, blp)]))
               (nat (packet_length rr)) (data rr', [])))) else [], g')))"

fun ng_run :: "ng_event list \<Rightarrow> nackGenerator \<Rightarrow> u16 list \<times> nackGenerator" where
  "ng_run [] g = ([], g)"
| "ng_run (e # es) g = (let (ns, g) = ng_step e g; (ms, g) = ng_run es g in (ns @ ms, g))"

fun skipped_numbers :: "u32 \<Rightarrow> u16 option \<Rightarrow> ng_event list \<Rightarrow> u16 list" where
  "skipped_numbers ssrc hi [] = []"
| "skipped_numbers ssrc hi (NgReport now rr # es) = skipped_numbers ssrc hi es"
| "skipped_numbers ssrc hi (NgPacket p # es) =
     (let n = getSeqNumber (data p)
      in if packet_type p \<noteq> VIDEO_PACKET \<or> getSSRC (data p) \<noteq> ssrc then skipped_numbers ssrc hi es
         else case hi of None \<Rightarrow> skipped_numbers ssrc (Some n) es
           | Some h \<Rightarrow> if n = h \<or> sequenceNumberLessThan n h then skipped_numbers ssrc hi es
               else map (\<lambda>k. h + 1 + of_nat k) [0..<seq_dist h n - 1] @ skipped_numbers ssrc (Some n) es)"

definition ng_highest :: "nackGenerator \<Rightarrow> u16 option" where
  "ng_highest g = (if ng_initialized g then Some (ng_highest_seq_num g) else None)"

lemma ng_step_packet:
  assumes "ng_step (NgPacket p) g = (ns, g')"
  shows "ns = [] \<and> ng_ssrc g' = ng_ssrc g \<and> (\<exists>ms. skipped_numbers (ng_ssrc g) (ng_highest g) (NgPacket p # es)
      = ms @ skipped_numbers (ng_ssrc g) (ng_highest g') es
    \<and> chances n (nack_info_list g') \<le> chances n (nack_info_list g) + 2 * count_list ms n)"
proof -
  let ?n = "getSeqNumber (data p)" and ?h = "ng_highest_seq_num g"
  have g': "ns = []" "g' = snd (nack_handleRtpPacket p g)" using assms by (simp_all add: ng_step_def)
  consider "packet_type p \<noteq> VIDEO_PACKET \<or> getSSRC (data p) \<noteq> ng_ssrc g"
    | "\<not> (packet_type p \<noteq> VIDEO_PACKET \<or> getSSRC (data p) \<noteq> ng_ssrc g)" "\<not> ng_initialized g"
    | "\<not> (packet_type p \<noteq> VIDEO_PACKET \<or> getSSRC (data p) \<noteq> ng_ssrc g)" "ng_initialized g" "?n = ?h"
    | "\<not> (packet_type p \<noteq> VIDEO_PACKET \<or> getSSRC (data p) \<noteq> ng_ssrc g)" "ng_initialized g" "?n \<noteq> ?h"
      "sequenceNumberLessThan ?n ?h"
    | "\<not> (packet_type p \<noteq> VIDEO_PACKET \<or> getSSRC (data p) \<noteq> ng_ssrc g)" "ng_initialized g" "?n \<noteq> ?h"
      "\<not> sequenceNumberLessThan ?n ?h"
    by blast
  then show ?thesis
  proof cases
    case 5
    let ?ms = "map (\<lambda>k. ?h + 1 + of_nat k) [0..<seq_dist ?h ?n - 1]"
    have d: "seq_dist (?h + 1) ?n = seq_dist ?h ?n - 1" using seq_dist_Suc [of ?h ?n] 5(3) by simp
    have "g' = g\<lparr>nack_info_list := take kMaxNacks (nack_info_list g @ map new_NackInfo ?ms), ng_highest_seq_num := ?n\<rparr>"
      using 5 by (simp add: g' nack_handleRtpPacket_def addNacks_def trim_nacks_eq push_nacks_eq d o_def Let_def)
    then show ?thesis
      using 5 chances_take [of n kMaxNacks "nack_info_list g @ map new_NackInfo ?ms"] chances_new [of n ?ms]
      by (intro conjI exI [of _ ?ms]) (simp_all add: g' ng_highest_def Let_def)
  qed (auto simp: g' nack_handleRtpPacket_def ng_highest_def Let_def chances_erase_nack intro!: exI [of _ "[]"])
qed

lemma ng_run_chances:
  assumes "ng_run es g = (asked, g')" "nack_inv g"
    "list_all (\<lambda>e. case e of NgReport now rr \<Rightarrow> 0 \<le> packet_length rr | NgPacket p \<Rightarrow> True) es"
  shows "nack_inv g' \<and> count_list asked n + chances n (nack_info_list g')
    \<le> chances n (nack_info_list g) + 2 * count_list (skipped_numbers (ng_ssrc g) (ng_highest g) es) n"
  using assms
proof (induction es arbitrary: g asked)
  case Nil
  then show ?case by simp
next
  case (Cons e es)
  obtain ns g1 where 1: "ng_step e g = (ns, g1)" by (cases "ng_step e g")
  obtain ms where 2: "ng_run es g1 = (ms, g')" "asked = ns @ ms"
    using Cons.prems(1) 1 by (cases "ng_run es g1") auto
  have inv: "nack_inv g1"
    using nack_inv_preserved [OF Cons.prems(2)] 1 by (cases e) (auto simp: ng_step_def case_prod_beta)
  note ih = Cons.IH [OF 2(1) inv]
  show ?case
  proof (cases e)
    case (NgPacket p)
    note s = ng_step_packet [OF 1 [unfolded NgPacket], of es n]
    then show ?thesis using ih Cons.prems(3) by (auto simp: 2(2) NgPacket)
  next
    case (NgReport now rr)
    obtain b rr' where a: "addNackPacketToRr now rr g = (b, rr', g1)"
      using 1 by (cases "addNackPacketToRr now rr g") (auto simp: NgReport ng_step_def)
    have rr: "0 \<le> packet_length rr" using Cons.prems(3) by (simp add: NgReport)
    have g1: "g1 = g\<lparr>nack_info_list := snd (nack_blocks now 0 [] (nack_info_list g))\<rparr>"
      using a by (auto simp: addNackPacketToRr_def Let_def case_prod_beta split: if_splits)
    have "count_list ns n \<le> count_list (concat (map requested (fst (nack_blocks now 0 [] (nack_info_list g))))) n"
    proof (cases b)
      case True
      then show ?thesis
        using 1 a True written_blocks(1) [of now rr g rr' g1] rr Cons.prems(2)
        by (simp add: NgReport ng_step_def a case_prod_beta)
    qed (use 1 in \<open>simp add: NgReport ng_step_def a\<close>)
    then have "count_list ns n + chances n (nack_info_list g1) \<le> chances n (nack_info_list g)"
      using nack_blocks_chances [of now 0 "[]" "nack_info_list g" n] by (simp add: g1)
    moreover have "ng_ssrc g1 = ng_ssrc g" "ng_highest g1 = ng_highest g" by (simp_all add: g1 ng_highest_def)
    ultimately show ?thesis using ih Cons.prems(3) by (simp add: 2(2) NgReport)
  qed
qed

subsection \<open>The properties\<close>

text \<open>
  C4: Over any run of a new generator, of any packets and any reports (their lengths not
  negative), the list of missing numbers never holds more than 150 entries, and a number is
  requested at most twice for every time the stream skipped it. The requests are counted in the
  bytes of the reports that go out, the skips in the packets that came in.
\<close>
theorem nack_list_bounded:
  assumes "ng_run es (new_RtcpNackGenerator ssrc) = (asked, g)"
    "list_all (\<lambda>e. case e of NgReport now rr \<Rightarrow> 0 \<le> packet_length rr | NgPacket p \<Rightarrow> True) es"
  shows "length (nack_info_list g) \<le> 150 \<and> count_list asked n \<le> 2 * count_list (skipped_numbers ssrc None es) n"
proof -
  have "nack_inv (new_RtcpNackGenerator ssrc)" by (simp add: nack_inv_def new_RtcpNackGenerator_def)
  from ng_run_chances [OF assms(1) this assms(2), of n] show ?thesis
    by (simp add: nack_inv_def kMaxNacks_def new_RtcpNackGenerator_def ng_highest_def chances_def)
qed

definition sample_ng_run :: "ng_event list" where
  "sample_ng_run = [NgPacket (sample_packet 9 7), NgPacket (sample_packet 11 7), NgReport 100 (sample_packet 9 7),
     NgReport 200 (sample_packet 9 7), NgReport 300 (sample_packet 9 7)]"

theorem nack_list_bounded_witness:
  "count_list (fst (ng_run sample_ng_run (new_RtcpNackGenerator 7))) 10 \<le> 2
   \<and> fst (ng_run sample_ng_run (new_RtcpNackGenerator 7)) = [10, 10]"
proof -
  let ?r = "ng_run sample_ng_run (new_RtcpNackGenerator 7)"
  have s: "skipped_numbers 7 None sample_ng_run = [10]" by code_simp
  have "fst ?r = [10, 10]" by code_simp
  then show ?thesis
    using nack_list_bounded [of sample_ng_run 7 "fst ?r" "snd ?r" 10] by (simp add: s sample_ng_run_def)
qed

text \<open>
  A video packet of the stream that is ahead of the highest one appends exactly the numbers
  in between, in order, up to the limit of 150, and asks for a report if the list is not empty.
\<close>
theorem nack_gap_is_listed:
  assumes "packet_type packet = VIDEO_PACKET" "getSSRC (data packet) = ng_ssrc g" "ng_initialized g"
    "n = getSeqNumber (data packet)" "\<not> sequenceNumberLessThan n (ng_highest_seq_num g)"
    "n \<noteq> ng_highest_seq_num g"
  defines "xs \<equiv> take 150 (nack_info_list g @
      map (\<lambda>k. new_NackInfo (ng_highest_seq_num g + 1 + of_nat k)) [0..<seq_dist (ng_highest_seq_num g) n - 1])"
  shows "nack_handleRtpPacket packet g = (xs \<noteq> [], g\<lparr>nack_info_list := xs, ng_highest_seq_num := n\<rparr>)"
  using assms seq_dist_Suc [of "ng_highest_seq_num g" n]
  by (simp add: nack_handleRtpPacket_def addNacks_def Let_def trim_nacks_eq push_nacks_eq kMaxNacks_def)

theorem nack_gap_is_listed_witness:
  "map ni_seq_num (nack_info_list (snd (nack_handleRtpPacket (sample_packet 1 7)
     (snd (nack_handleRtpPacket (sample_packet 65534 7) (new_RtcpNackGenerator 7)))))) = [65535, 0]"
proof -
  let ?g = "snd (nack_handleRtpPacket (sample_packet 65534 7) (new_RtcpNackGenerator 7))"
  have g: "ng_ssrc ?g = 7" "ng_initialized ?g" "ng_highest_seq_num ?g = 65534" "nack_info_list ?g = []"
    by (simp_all add: nack_handleRtpPacket_def new_RtcpNackGenerator_def)
  have u: "[0..<2] = [0, Suc 0]" by (simp add: upt_rec)
  have d: "\<not> sequenceNumberLessThan 1 (ng_highest_seq_num ?g)" "seq_dist 65534 1 = 3"
    by (simp_all add: g sequenceNumberLessThan_def seq_dist_def)
  show ?thesis
    by (subst nack_gap_is_listed [OF _ _ g(2) refl])
      (use g d u in \<open>simp_all add: new_NackInfo_def\<close>)
qed

text \<open>
  A request only asks for packets that are missing: every number of every PID/BLP pair is
  on the list.
\<close>
theorem nack_requests_only_listed:
  "set (concat (map requested (fst (nack_blocks now 0 [] (nack_info_list g))))) \<subseteq> listed (nack_info_list g)"
  using nack_blocks_listed [of now 0 "[]" "nack_info_list g"] by auto

text \<open>
  C6: The request is a well-formed RTCP packet behind the report: its bytes leave the report as
  it was, the length grows by at most 612 bytes, and reading the packet back with
  \<^verbatim>\<open>forEachNack\<close> yields the PID/BLP pairs that were built.
\<close>
theorem nack_packet_parses_back:
  assumes "addNackPacketToRr now rr g = (True, rr', g')" "0 \<le> packet_length rr" "nack_inv g"
  shows "snd (forEachNack (\<lambda>pid blp q (m, l). (m, l @ [(pid, blp)])) (nat (packet_length rr)) (data rr', []))
      = fst (nack_blocks now 0 [] (nack_info_list g))
    \<and> packet_length rr' \<le> packet_length rr + 612
    \<and> (\<forall>i < nat (packet_length rr). data rr' i = data rr i)"
  using written_blocks [OF assms] addNackPacketToRr_sent(2) [OF assms] by simp

theorem nack_packet_parses_back_witness:
  "\<exists>rr' g'. snd (forEachNack (\<lambda>pid blp q (m, l). (m, l @ [(pid, blp)])) 12 (data rr', []))
      = fst (nack_blocks 40 0 [] [new_NackInfo 3])
    \<and> addNackPacketToRr 40 (sample_packet 9 7)
        \<lparr>ng_initialized = True, ng_highest_seq_num = 9, ng_ssrc = 7, nack_info_list = [new_NackInfo 3]\<rparr> = (True, rr', g')"
proof -
  let ?g = "\<lparr>ng_initialized = True, ng_highest_seq_num = 9, ng_ssrc = 7, nack_info_list = [new_NackInfo 3]\<rparr>"
  have b: "fst (nack_blocks 40 0 [] [new_NackInfo 3]) \<noteq> []" by code_simp
  have "fst (addNackPacketToRr 40 (sample_packet 9 7) ?g)"
    by (simp add: addNackPacketToRr_def Let_def case_prod_beta b)
  moreover obtain r rr' g' where "addNackPacketToRr 40 (sample_packet 9 7) ?g = (r, rr', g')"
    by (rule prod_cases3)
  ultimately have a: "addNackPacketToRr 40 (sample_packet 9 7) ?g = (True, rr', g')" by simp
  have "nack_inv ?g" by (simp add: nack_inv_def kMaxNacks_def new_NackInfo_def)
  with nack_packet_parses_back [OF a] a show ?thesis
    by (intro exI [of _ rr'] exI [of _ g']) simp
qed

text \<open>
  A round of requests misses packets. After 1 the list holds 2 (requested twice already) and
  3, all due: removing 2 inside the loop makes the loop step over 3. And with 1, 30 and 31 due,
  the number 30 that ends the window of 1 is stepped over too.
\<close>
lemma nack_round_skips_packets:
  "fst (nack_blocks 100 0 [] [new_NackInfo 1, \<lparr>ni_seq_num = 2, ni_retransmits = 2, ni_sent_time = 50\<rparr>, new_NackInfo 3])
     = [(1, 0)]
   \<and> fst (nack_blocks 100 0 [] [new_NackInfo 1, new_NackInfo 30, new_NackInfo 31]) = [(1, 0), (31, 0)]"
  by code_simp

end
