(* ===== verification/RtcpRrGenerator.thy ===== *)
theory RtcpRrGenerator
  imports RtpUtils Complex_Main
begin

text \<open>
  \<^verbatim>\<open>RtcpRrGenerator\<close>: the statistics of an incoming stream (extended highest sequence number,
  packets lost, fraction lost, interarrival jitter) and the receiver reports that carry them. The
  clock is the argument \<open>now\<close>; the random spread of the report interval is the argument
  \<open>random\<close>, a function of the two bounds. The jitter, a \<^verbatim>\<open>double\<close>, is a rational number:
  rounding is not modelled. The buffer \<^verbatim>\<open>packet_\<close>, which every report overwrites before it is
  read, is a local value here.
\<close>

subsection \<open>State\<close>

record rrJitter =
  transit_time :: int
  jitter :: rat

record rrPacketInfo =
  last_sr_ts :: u64
  next_packet_ms :: u64
  last_packet_ms :: u64
  last_sr_mid_ntp :: u32
  last_rr_ts :: u32
  last_rtp_ts :: u32
  packets_received :: u32
  extended_seq :: u32
  lost :: u32
  expected_prior :: u32
  received_prior :: u32
  last_recv_ts :: u32
  max_seq :: int
  base_seq :: int
  cycle :: u16
  frac_lost :: u8
  rr_jitter_info :: rrJitter

definition new_RrPacketInfo :: rrPacketInfo where
  "new_RrPacketInfo = \<lparr>last_sr_ts = 0, next_packet_ms = 0, last_packet_ms = 0, last_sr_mid_ntp = 0,
     last_rr_ts = 0, last_rtp_ts = 0, packets_received = 0, extended_seq = 0, lost = 0,
     expected_prior = 0, received_prior = 0, last_recv_ts = 0, max_seq = -1, base_seq = -1,
     cycle = 0, frac_lost = 0, rr_jitter_info = \<lparr>transit_time = 0, jitter = 0\<rparr>\<rparr>"

record rrGenerator =
  rr_info :: rrPacketInfo
  rg_ssrc :: u32
  rg_type :: packetType

definition new_RtcpRrGenerator :: "u32 \<Rightarrow> packetType \<Rightarrow> rrGenerator" where
  "new_RtcpRrGenerator ssrc t = \<lparr>rr_info = new_RrPacketInfo, rg_ssrc = ssrc, rg_type = t\<rparr>"

definition MAX_DELAY :: int where "MAX_DELAY = 450000"

subsection \<open>Jitter\<close>

definition getAudioClockRate :: "u8 \<Rightarrow> int" where
  "getAudioClockRate payload_type = (if payload_type = OPUS_48000_PT then 48 else 8)"

definition getVideoClockRate :: "u8 \<Rightarrow> int" where
  "getVideoClockRate payload_type = 90"

definition rr_clock_rate :: "packetType \<Rightarrow> mem \<Rightarrow> int" where
  "rr_clock_rate t head = (if t = VIDEO_PACKET then getVideoClockRate (getPayloadType head)
     else getAudioClockRate (getPayloadType head))"

definition isRetransmitOfOldPacket :: "rrGenerator \<Rightarrow> dataPacket \<Rightarrow> bool" where
  "isRetransmitOfOldPacket g packet =
     (let head = data packet; i = rr_info g
      in if \<not> sequenceNumberLessThan (getSeqNumber head) (word_of_int (max_seq i)) \<or> jitter (rr_jitter_info i) = 0
         then False
         else let time_diff_ms = uint (ucast (received_time_ms packet) - last_recv_ts i :: u32);
                  timestamp_diff = sint (getTimestamp head - last_rtp_ts i);
                  clock_rate = rr_clock_rate (rg_type g) head;
                  rtp_time_stamp_diff_ms = c_div timestamp_diff clock_rate;
                  max_delay_ms = \<lfloor>2 * jitter (rr_jitter_info i) / of_int clock_rate\<rfloor>
              in time_diff_ms > rtp_time_stamp_diff_ms + max_delay_ms)"

definition update_jitter :: "rrGenerator \<Rightarrow> dataPacket \<Rightarrow> rrJitter" where
  "update_jitter g packet =
     (let head = data packet; j = rr_jitter_info (rr_info g);
          clock_rate = rr_clock_rate (rg_type g) head;
          transit = sint (ucast (received_time_ms packet * word_of_int clock_rate - ucast (getTimestamp head)) :: u32);
          delta = \<bar>transit - transit_time j\<bar>;
          j = (if transit_time j \<noteq> 0 \<and> delta < MAX_DELAY
               then j\<lparr>jitter := jitter j + 1 / 16 * (of_int delta - jitter j)\<rparr> else j)
      in j\<lparr>transit_time := transit\<rparr>)"

subsection \<open>Incoming packets\<close>

definition selectInterval :: "rrGenerator \<Rightarrow> u16" where
  "selectInterval g = (if rg_type g = VIDEO_PACKET then RTCP_VIDEO_INTERVAL else RTCP_AUDIO_INTERVAL)"

text \<open>The sequence number part of \<^verbatim>\<open>handleRtpPacket\<close>.\<close>

definition update_seq :: "u16 \<Rightarrow> rrPacketInfo \<Rightarrow> rrPacketInfo" where
  "update_seq seq_num i =
     (let i = i\<lparr>packets_received := packets_received i + 1\<rparr>;
          i = (if base_seq i = -1 then i\<lparr>base_seq := uint seq_num\<rparr> else i);
          i = (if max_seq i = -1 then i\<lparr>max_seq := uint seq_num\<rparr>
               else if \<not> sequenceNumberLessThan seq_num (word_of_int (max_seq i))
               then (if uint seq_num < max_seq i then i\<lparr>cycle := cycle i + 1\<rparr> else i)\<lparr>max_seq := uint seq_num\<rparr>
               else i)
      in i\<lparr>extended_seq := push_bit 16 (ucast (cycle i)) OR word_of_int (max_seq i)\<rparr>)"

definition rr_handleRtpPacket :: "u64 \<Rightarrow> dataPacket \<Rightarrow> rrGenerator \<Rightarrow> bool \<times> rrGenerator" where
  "rr_handleRtpPacket now packet g =
     (let head = data packet
      in if rg_ssrc g \<noteq> getSSRC head then (False, g)
         else
           let i = update_seq (getSeqNumber head) (rr_info g);
               i = (if getTimestamp head \<noteq> last_rtp_ts i \<and> \<not> isRetransmitOfOldPacket (g\<lparr>rr_info := i\<rparr>) packet
                    then i\<lparr>rr_jitter_info := update_jitter (g\<lparr>rr_info := i\<rparr>) packet\<rparr> else i);
               i = i\<lparr>last_rtp_ts := getTimestamp head, last_recv_ts := ucast (received_time_ms packet)\<rparr>
           in if next_packet_ms i = 0
              then (False, g\<lparr>rr_info := i\<lparr>next_packet_ms := now + ucast (selectInterval g)\<rparr>\<rparr>)
              else (now \<ge> next_packet_ms i, g\<lparr>rr_info := i\<rparr>))"

subsection \<open>Reports\<close>

text \<open>The numbers of a report: what is expected, what is lost, and the fraction since the last one.\<close>

definition update_lost :: "rrPacketInfo \<Rightarrow> rrPacketInfo" where
  "update_lost i =
     (let expected = extended_seq i - word_of_int (base_seq i) + 1;
          i = i\<lparr>lost := (if expected < packets_received i then 0 else expected - packets_received i)\<rparr>;
          expected_interval = expected - expected_prior i;
          i = i\<lparr>expected_prior := expected\<rparr>;
          received_interval = packets_received i - received_prior i;
          i = i\<lparr>received_prior := packets_received i\<rparr>;
          lost_interval = uint expected_interval - uint received_interval;
          fraction = (if expected_interval \<noteq> 0 \<and> lost_interval > 0
                      then ucast (push_bit 8 (word_of_int lost_interval :: u32) div expected_interval) else 0 :: u8)
      in i\<lparr>frac_lost := fraction\<rparr>)"

definition rr_header :: "u64 \<Rightarrow> u32 \<Rightarrow> rrPacketInfo \<Rightarrow> mem" where
  "rr_header delay_since_last_sr ssrc i =
     (let h = new_RtcpHeader 0 zero_mem;
          h = setPacketType 0 RTCP_Receiver_PT h;
          h = rtcp_setSSRC 0 ssrc h;
          h = setSourceSSRC 0 ssrc h;
          h = setHighestSeqnum 0 (ucast (extended_seq i)) h;
          h = setSeqnumCycles 0 (cycle i) h;
          h = setLostPackets 0 (lost i) h;
          h = setFractionLost 0 (frac_lost i) h;
          h = setJitter 0 (word_of_int \<lfloor>jitter (rr_jitter_info i)\<rfloor>) h;
          h = setDelaySinceLastSr 0 (ucast delay_since_last_sr) h;
          h = setLastSr 0 (last_sr_mid_ntp i) h;
          h = rtcp_setLength 0 7 h
      in setBlockCount 0 1 h)"

definition generateReceiverReport ::
  "(u16 \<Rightarrow> u16 \<Rightarrow> u16) \<Rightarrow> u64 \<Rightarrow> rrGenerator \<Rightarrow> dataPacket \<times> rrGenerator" where
  "generateReceiverReport random now g =
     (let i = rr_info g;
          delay_since_last_sr = (if last_sr_ts i = 0 then 0 else (now - last_sr_ts i) * 65536 div 1000);
          i = update_lost i;
          head = rr_header delay_since_last_sr (rg_ssrc g) i;
          len = (int (unat (rtcp_getLength head 0)) + 1) * 4;
          i = i\<lparr>last_rr_ts := ucast now\<rparr>;
          selected_interval = selectInterval g;
          i = i\<lparr>next_packet_ms := now + ucast (random (selected_interval div 2) (3 * selected_interval div 2)),
                last_packet_ms := now\<rparr>
      in (new_dataPacket 0 head len (rg_type g) now, g\<lparr>rr_info := i\<rparr>))"

definition handleSr :: "dataPacket \<Rightarrow> rrGenerator \<Rightarrow> rrGenerator" where
  "handleSr packet g =
     (if rg_ssrc g \<noteq> rtcp_getSSRC (data packet) 0 then g
      else g\<lparr>rr_info := (rr_info g)\<lparr>last_sr_mid_ntp := get32MiddleNtp (data packet) 0,
                                    last_sr_ts := received_time_ms packet\<rparr>\<rparr>)"

subsection \<open>The extended sequence number counts packets\<close>

lemma unat_extended:
  "unat (push_bit 16 (ucast (c :: u16)) OR ucast (m :: u16) :: u32) = unat c * 65536 + unat m"
proof -
  have "push_bit 16 (ucast c) OR ucast m = (push_bit 16 (ucast c) + ucast m :: u32)"
    by (rule disjunctive_add [symmetric]) (auto simp: bit_simps dest: bit_imp_le_length)
  moreover have "unat (push_bit 16 (ucast c) :: u32) = unat c * 65536"
    using unat_u16_less [of c] by (subst unat_push_bit) (simp add: unat_ucast_mod del: unat_u16_less)
  moreover have "unat c * 65536 + unat m < 2 ^ 32"
    using unat_u16_less [of c] unat_u16_less [of m] by (simp del: unat_u16_less)
  ultimately show ?thesis by (simp add: unat_word_ariths unat_ucast_mod)
qed

definition ext_inv :: "rrPacketInfo \<Rightarrow> bool" where
  "ext_inv i \<longleftrightarrow> (\<exists>m :: u16. max_seq i = uint m \<and> unat (extended_seq i) = unat (cycle i) * 65536 + unat m)"

lemma uint_not_neg1 [simp]: "uint (w :: 'a::len word) \<noteq> -1"
  by (metis uint_ge_0 not_numeral_le_zero zero_le_numeral neg_0_le_iff_le not_one_le_zero)

lemma update_seq_first:
  "base_seq i = -1 \<Longrightarrow> max_seq i = -1 \<Longrightarrow> cycle i = 0 \<Longrightarrow>
    max_seq (update_seq n i) = uint n \<and> base_seq (update_seq n i) = uint n \<and> cycle (update_seq n i) = 0
    \<and> unat (extended_seq (update_seq n i)) = unat n"
  using unat_extended [of 0 n] by (simp add: update_seq_def Let_def)

lemma update_seq_ahead:
  assumes "max_seq i = uint m" "unat (extended_seq i) = unat (cycle i) * 65536 + unat m"
    "seq_dist m n \<le> 61440" "unat (extended_seq i) + seq_dist m n < 4294967296"
  shows "max_seq (update_seq n i) = uint n"
    and "unat (extended_seq (update_seq n i)) = unat (cycle (update_seq n i)) * 65536 + unat n"
    and "unat (extended_seq (update_seq n i)) = unat (extended_seq i) + seq_dist m n"
proof -
  have "\<not> sequenceNumberLessThan n m"
    using assms(3) seq_dist_rev [of m n] by (cases "m = n") (auto simp: sequenceNumberLessThan_iff)
  then have eq: "max_seq (update_seq n i) = uint n"
      "cycle (update_seq n i) = (if unat n < unat m then cycle i + 1 else cycle i)"
    by (auto simp: update_seq_def Let_def assms(1) word_less_nat_alt [symmetric] word_less_def)
  then show "max_seq (update_seq n i) = uint n" by simp
  have "extended_seq (update_seq n i) = push_bit 16 (ucast (cycle (update_seq n i))) OR ucast n"
    using eq(1) by (simp add: update_seq_def Let_def)
  then show e: "unat (extended_seq (update_seq n i)) = unat (cycle (update_seq n i)) * 65536 + unat n"
    by (simp only: unat_extended)
  have d: "seq_dist m n = (if unat m \<le> unat n then unat n - unat m else unat n + 65536 - unat m)"
    by (simp add: seq_dist_def unat_sub_u16)
  show "unat (extended_seq (update_seq n i)) = unat (extended_seq i) + seq_dist m n"
  proof (cases "unat n < unat m")
    case False
    then show ?thesis using e eq(2) assms(2) d by simp
  next
    case True
    then have d: "seq_dist m n = unat n + 65536 - unat m" using d by simp
    have "unat (cycle i) * 65536 + unat n + 65536 < 4294967296"
      using assms(2,4) d True unat_u16_less [of m] by linarith
    then have "unat (cycle i) < 65535" by linarith
    then have "unat (cycle i + 1) = Suc (unat (cycle i))" by (simp add: unat_Suc_u16)
    then show ?thesis using e eq(2) assms(2) d True unat_u16_less [of m] by (simp del: unat_u16_less)
  qed
qed

lemma update_seq_other:
  "packets_received (update_seq n i) = packets_received i + 1"
  "base_seq i \<noteq> -1 \<Longrightarrow> base_seq (update_seq n i) = base_seq i"
  by (simp_all add: update_seq_def Let_def)

text \<open>The numbers that follow \<open>m\<close> in a stream in order, from the steps to each next one.\<close>

fun next_seqs :: "u16 \<Rightarrow> nat list \<Rightarrow> u16 list" where
  "next_seqs m [] = []"
| "next_seqs m (d # ds) = (m + of_nat d) # next_seqs (m + of_nat d) ds"

lemma update_seq_stream:
  assumes "max_seq i = uint m" "unat (extended_seq i) = unat (cycle i) * 65536 + unat m" "base_seq i \<noteq> -1"
    "\<forall>d \<in> set ds. d \<le> 61440" "unat (extended_seq i) + sum_list ds < 4294967296"
  shows "unat (extended_seq (fold update_seq (next_seqs m ds) i)) = unat (extended_seq i) + sum_list ds
    \<and> packets_received (fold update_seq (next_seqs m ds) i) = packets_received i + of_nat (length ds)
    \<and> base_seq (fold update_seq (next_seqs m ds) i) = base_seq i"
  using assms
proof (induction ds arbitrary: m i)
  case (Cons d ds)
  let ?n = "m + of_nat d"
  have d: "seq_dist m ?n = d" using Cons.prems(4) by (intro seq_dist_add) auto
  note u = update_seq_ahead [OF Cons.prems(1,2), of ?n, unfolded d] update_seq_other [where n = ?n and i = i]
  have u1: "max_seq (update_seq ?n i) = uint ?n"
    "unat (extended_seq (update_seq ?n i)) = unat (cycle (update_seq ?n i)) * 65536 + unat ?n"
    "unat (extended_seq (update_seq ?n i)) = unat (extended_seq i) + d"
    using u(1-3) Cons.prems(4,5) by auto
  have b: "base_seq (update_seq ?n i) = base_seq i" using u(5) Cons.prems(3) by simp
  have r: "\<forall>d \<in> set ds. d \<le> 61440" "unat (extended_seq (update_seq ?n i)) + sum_list ds < 4294967296"
    using Cons.prems(4,5) u1(3) by auto
  note IH = Cons.IH [OF u1(1,2) _ r, unfolded b, OF Cons.prems(3)]
  show ?case
    using IH u1(3) u(4) by (simp_all add: algebra_simps)
qed simp_all

lemma sum_list_ge_length: "\<forall>d \<in> set ds. 0 < d \<Longrightarrow> length ds \<le> sum_list (ds :: nat list)"
  by (induction ds) auto

lemma update_lost_of_stream:
  assumes "\<forall>d \<in> set ds. 0 < d \<and> d \<le> 61440" "unat n + sum_list ds < 4294967295"
  defines "i \<equiv> fold update_seq (n # next_seqs n ds) new_RrPacketInfo"
  shows "unat (lost (update_lost i)) = sum_list ds - length ds"
proof -
  let ?i = "update_seq n new_RrPacketInfo"
  have f: "max_seq ?i = uint n" "base_seq ?i = uint n" "cycle ?i = 0" "unat (extended_seq ?i) = unat n"
    using update_seq_first [of new_RrPacketInfo n] by (simp_all add: new_RrPacketInfo_def)
  have p: "packets_received ?i = 1" by (simp add: update_seq_def new_RrPacketInfo_def Let_def)
  have s: "unat (extended_seq i) = unat n + sum_list ds"
    "packets_received i = 1 + of_nat (length ds)" "base_seq i = uint n"
    using update_seq_stream [of ?i n ds] f p assms(1,2) by (auto simp: i_def)
  have le: "length ds \<le> sum_list ds" using assms(1) by (intro sum_list_ge_length) auto
  have "of_nat (unat (extended_seq i)) = (of_nat (unat n + sum_list ds) :: u32)" by (simp only: s(1))
  then have "extended_seq i = of_nat (unat n + sum_list ds)" by simp
  then have e: "extended_seq i - word_of_int (base_seq i) + 1 = of_nat (sum_list ds + 1)"
    by (simp add: s(3))
  moreover have "unat (of_nat (sum_list ds + 1) :: u32) = sum_list ds + 1"
    using assms(2) by (intro unat_of_nat_u32) simp
  moreover have "unat (packets_received i) = 1 + length ds"
    using s(2) le assms(2) unat_of_nat_u32 [of "1 + length ds"] by simp
  ultimately have "unat (extended_seq i - word_of_int (base_seq i) + 1 - packets_received i) = sum_list ds - length ds"
    "\<not> extended_seq i - word_of_int (base_seq i) + 1 < packets_received i"
    unfolding e using le by (simp_all add: unat_sub word_le_nat_alt word_less_nat_alt)
  then show ?thesis by (simp add: update_lost_def Let_def)
qed

subsection \<open>The report\<close>

lemma getLostPackets_set: "getLostPackets (setLostPackets p v m) p = v AND 0xFFFFFF"
proof -
  have m: "(0xFF000000 :: u32) = push_bit 24 (mask 8)" by (simp add: mask_eq_exp_minus_1)
  have b: "byteN (sign_extend24 w) k = byteN w k" if "k < 3" for w k
    using that unfolding sign_extend24_def m by (intro bit_word_eqI) (auto simp: bit_byteN bit_simps)
  show ?thesis
    by (intro u32_bytes_eqI)
      (simp_all add: getLostPackets_def setLostPackets_def load24_def store24_def ntohl_def htonl_def b)
qed

lemma unat_frac:
  assumes "0 < l" "l < e" "e < 2 ^ 24"
  shows "unat (ucast (push_bit 8 (of_nat l :: u32) div of_nat e) :: u8) = l * 256 div e"
proof -
  have u: "unat (of_nat l :: u32) = l" "unat (of_nat e :: u32) = e"
    using assms by (auto intro!: unat_of_nat_u32)
  have "unat (push_bit 8 (of_nat l :: u32)) = l * 256"
    using assms by (subst unat_push_bit) (simp add: u)
  then have "unat (push_bit 8 (of_nat l :: u32) div of_nat e) = l * 256 div e"
    by (simp add: unat_div u)
  moreover have "l * 256 div e < 256" using assms by (simp add: less_mult_imp_div_less)
  ultimately show ?thesis by (simp add: unat_ucast_mod)
qed

lemma rr_header_length: "unat (rtcp_getLength (rr_header d ssrc i) 0) = 7"
  by (simp add: rr_header_def Let_def rtcp_setter_defs rtcp_getter_defs ntohs_def htons_def)

lemma report_data:
  "data (fst (generateReceiverReport random now g)) = copy_mem 0
     (rr_header (if last_sr_ts (rr_info g) = 0 then 0 else (now - last_sr_ts (rr_info g)) * 65536 div 1000)
       (rg_ssrc g) (update_lost (rr_info g))) 32 zero_mem"
  "packet_length (fst (generateReceiverReport random now g)) = 32"
  using rr_header_length
  by (simp_all add: generateReceiverReport_def Let_def new_dataPacket_def del: of_nat_unat)

lemma rr_header_fields:
  "getPacketType (copy_mem 0 (rr_header d ssrc i) 32 m) 0 = RTCP_Receiver_PT"
  "getSourceSSRC (copy_mem 0 (rr_header d ssrc i) 32 m) 0 = ssrc"
  "getFractionLost (copy_mem 0 (rr_header d ssrc i) 32 m) 0 = frac_lost i"
  "getHighestSeqnum (copy_mem 0 (rr_header d ssrc i) 32 m) 0 = ucast (extended_seq i)"
  "getSeqnumCycles (copy_mem 0 (rr_header d ssrc i) 32 m) 0 = cycle i"
  "getLastSr (copy_mem 0 (rr_header d ssrc i) 32 m) 0 = last_sr_mid_ntp i"
  "getDelaySinceLastSr (copy_mem 0 (rr_header d ssrc i) 32 m) 0 = ucast d"
  by (simp_all add: rr_header_def Let_def rtcp_setter_defs rtcp_getter_defs copy_mem_def
      ntohs_def htons_def ntohl_def htonl_def)

lemma rr_header_lost:
  "getLostPackets (copy_mem 0 (rr_header d ssrc i) 32 m) 0 = lost i AND 0xFFFFFF"
proof -
  have "load24 (copy_mem 0 (rr_header d ssrc i) 32 m) 13 = load24 (setLostPackets 0 (lost i) zero_mem) 13"
    by (simp add: rr_header_def Let_def rtcp_setter_defs load24_def copy_mem_def)
  then have "getLostPackets (copy_mem 0 (rr_header d ssrc i) 32 m) 0
      = getLostPackets (setLostPackets 0 (lost i) zero_mem) 0"
    by (simp add: getLostPackets_def)
  then show ?thesis by (simp add: getLostPackets_set)
qed

subsection \<open>Whole packets\<close>

definition seq_part :: "rrPacketInfo \<Rightarrow> u32 \<times> int \<times> int \<times> u16 \<times> u32" where
  "seq_part i = (packets_received i, base_seq i, max_seq i, cycle i, extended_seq i)"

lemma seq_part_update_seq: "seq_part i = seq_part j \<Longrightarrow> seq_part (update_seq n i) = seq_part (update_seq n j)"
  by (simp add: seq_part_def update_seq_def Let_def)

lemma seq_part_lost: "seq_part i = seq_part j \<Longrightarrow> lost (update_lost i) = lost (update_lost j)"
  by (simp add: seq_part_def update_lost_def Let_def)

lemma seq_part_handle:
  "rg_ssrc g = getSSRC (data packet) \<Longrightarrow>
    seq_part (rr_info (snd (rr_handleRtpPacket now packet g))) = seq_part (update_seq (getSeqNumber (data packet)) (rr_info g))
    \<and> rg_ssrc (snd (rr_handleRtpPacket now packet g)) = rg_ssrc g"
  by (simp add: rr_handleRtpPacket_def Let_def seq_part_def)

fun rr_receive :: "(u64 \<times> dataPacket) list \<Rightarrow> rrGenerator \<Rightarrow> rrGenerator" where
  "rr_receive [] g = g"
| "rr_receive ((now, packet) # ps) g = rr_receive ps (snd (rr_handleRtpPacket now packet g))"

lemma seq_part_receive:
  assumes "\<forall>(now, packet) \<in> set ps. getSSRC (data packet) = rg_ssrc g" "seq_part (rr_info g) = seq_part i"
  shows "seq_part (rr_info (rr_receive ps g)) = seq_part (fold update_seq (map (getSeqNumber \<circ> data \<circ> snd) ps) i)"
  using assms
proof (induction ps arbitrary: g i)
  case (Cons p ps)
  obtain now packet where p: "p = (now, packet)" by (cases p)
  then have ssrc: "rg_ssrc g = getSSRC (data packet)" using Cons.prems(1) by auto
  let ?g = "snd (rr_handleRtpPacket now packet g)" and ?i = "update_seq (getSeqNumber (data packet)) i"
  have h: "seq_part (rr_info ?g) = seq_part ?i" "rg_ssrc ?g = rg_ssrc g"
    using seq_part_handle [OF ssrc, of now] seq_part_update_seq [OF Cons.prems(2)] by simp_all
  have "\<forall>(now, packet) \<in> set ps. getSSRC (data packet) = rg_ssrc ?g"
    using Cons.prems(1) unfolding h(2) by auto
  from Cons.IH [OF this h(1)] show ?case
    unfolding p rr_receive.simps list.map fold.simps comp_apply snd_conv .
qed simp

subsection \<open>The properties\<close>

text \<open>
  C11: In a stream received in order, the cumulative loss is the number of sequence numbers
  skipped, however often the 16-bit numbers wrap: the first packet has number \<open>n\<close>, and each next
  one is \<open>d\<close> numbers further on.
\<close>
theorem rr_loss_counts_gaps:
  assumes "map (getSeqNumber \<circ> data \<circ> snd) ps = n # next_seqs n ds"
    "\<forall>(now, packet) \<in> set ps. getSSRC (data packet) = ssrc"
    "\<forall>d \<in> set ds. 0 < d \<and> d \<le> 61440" "unat n + sum_list ds < 4294967295"
  shows "unat (lost (update_lost (rr_info (rr_receive ps (new_RtcpRrGenerator ssrc t)))))
    = sum_list (map (\<lambda>d. d - 1) ds)"
proof -
  have *: "sum_list ds - length ds = sum_list (map (\<lambda>d. d - 1) ds)" using assms(3)
  proof (induction ds)
    case (Cons d ds)
    then show ?case using sum_list_ge_length [of ds] by auto
  qed simp
  have "seq_part (rr_info (rr_receive ps (new_RtcpRrGenerator ssrc t)))
      = seq_part (fold update_seq (n # next_seqs n ds) new_RrPacketInfo)"
    using seq_part_receive [of ps "new_RtcpRrGenerator ssrc t" new_RrPacketInfo] assms(1,2)
    by (simp add: new_RtcpRrGenerator_def)
  from seq_part_lost [OF this] update_lost_of_stream [OF assms(3,4)] show ?thesis
    by (simp only: *)
qed

theorem rr_loss_counts_gaps_witness:
  "unat (lost (update_lost (rr_info (rr_receive
     [(1, sample_packet 65534 7), (2, sample_packet 2 7)] (new_RtcpRrGenerator 7 VIDEO_PACKET))))) = 3"
  using rr_loss_counts_gaps [of "[(1, sample_packet 65534 7), (2, sample_packet 2 7)]" 65534 "[4]" 7 VIDEO_PACKET]
  by simp

text \<open>
  The fraction lost of a report is the share of the packets expected since the last report
  that did not arrive, in 256ths rounded down, as long as some packet of the interval arrived.
\<close>
theorem rr_fraction_lost:
  assumes "extended_seq i - word_of_int (base_seq i) + 1 - expected_prior i = of_nat expected"
    "packets_received i - received_prior i = of_nat received"
    "0 < received" "received < expected" "expected < 2 ^ 24"
  shows "unat (frac_lost (update_lost i)) = (expected - received) * 256 div expected"
proof -
  have u: "uint (of_nat expected :: u32) = int expected" "uint (of_nat received :: u32) = int received"
    using assms by (auto intro!: uint_of_nat_u32)
  have "(of_nat expected :: u32) \<noteq> 0"
    using assms unat_of_nat_u32 [of expected] by auto
  moreover from this have "extended_seq i - word_of_int (base_seq i) + 1 \<noteq> expected_prior i"
    unfolding assms(1) [symmetric] by auto
  moreover have "word_of_int (int expected - int received) = (of_nat (expected - received) :: u32)"
    using assms(4) by (simp add: of_nat_diff)
  ultimately show ?thesis
    using assms(4) unat_frac [of "expected - received" expected] assms(3,5)
    by (simp add: update_lost_def Let_def assms(1,2) u)
qed

theorem rr_fraction_lost_witness:
  "unat (frac_lost (update_lost (update_seq 9 (update_seq 5 new_RrPacketInfo)))) = 153"
  using rr_fraction_lost [of "update_seq 9 (update_seq 5 new_RrPacketInfo)" 5 2]
  by (simp add: update_seq_def new_RrPacketInfo_def sequenceNumberLessThan_def Let_def)

text \<open>
  A report is an RTCP receiver report of 32 bytes whose fields, read back with the
  accessors of the header, are the statistics of the generator (the cumulative loss modulo its
  24 bits) and the middle bits of the last sender report.
\<close>
theorem rr_report_reads_back:
  "let (packet, g') = generateReceiverReport random now g; m = data packet; i = rr_info g' in
     packet_length packet = 32 \<and> getPacketType m 0 = RTCP_Receiver_PT \<and> getSourceSSRC m 0 = rg_ssrc g
     \<and> getFractionLost m 0 = frac_lost i \<and> getLostPackets m 0 = lost i AND 0xFFFFFF
     \<and> getHighestSeqnum m 0 = ucast (extended_seq i) \<and> getSeqnumCycles m 0 = cycle i
     \<and> getLastSr m 0 = last_sr_mid_ntp i"
proof -
  let ?g = "snd (generateReceiverReport random now g)"
  have "frac_lost (rr_info ?g) = frac_lost (update_lost (rr_info g))"
    "lost (rr_info ?g) = lost (update_lost (rr_info g))"
    "extended_seq (rr_info ?g) = extended_seq (update_lost (rr_info g))"
    "cycle (rr_info ?g) = cycle (update_lost (rr_info g))"
    "last_sr_mid_ntp (rr_info ?g) = last_sr_mid_ntp (update_lost (rr_info g))"
    by (simp_all add: generateReceiverReport_def Let_def)
  then show ?thesis
    by (simp only: case_prod_beta Let_def report_data rr_header_fields rr_header_lost)
qed

end
