(* ===== verification/RtcpFeedbackGeneration.thy ===== *)
theory RtcpFeedbackGeneration
  imports RtcpNackGenerator RtcpRrGenerator
begin

text \<open>
  \<^verbatim>\<open>RtcpFeedbackGenerationHandler\<close>: one report generator and, for video, one NACK generator per
  SSRC; packets that arrive update them, and when one is due a receiver report with the NACKs goes
  back. An audio stream has no NACK generator: \<^verbatim>\<open>read\<close> calls it all the same through a null
  pointer, which only works as long as the call returns before it reads a member. Reading one is
  the result \<open>None\<close> of the model.
\<close>

record generatorPair =
  rr_generator :: rrGenerator
  nack_generator :: "nackGenerator option"

record feedbackHandler =
  generators_map :: "u32 \<rightharpoonup> generatorPair"
  fh_enabled :: bool
  fh_initialized :: bool
  nacks_enabled :: bool

definition new_RtcpFeedbackGenerationHandler :: "bool \<Rightarrow> feedbackHandler" where
  "new_RtcpFeedbackGenerationHandler nacks =
     \<lparr>generators_map = Map.empty, fh_enabled = True, fh_initialized = False, nacks_enabled = nacks\<rparr>"

definition fh_enable :: "feedbackHandler \<Rightarrow> feedbackHandler" where
  "fh_enable h = h\<lparr>fh_enabled := True\<rparr>"

definition fh_disable :: "feedbackHandler \<Rightarrow> feedbackHandler" where
  "fh_disable h = h\<lparr>fh_enabled := False\<rparr>"

text \<open>\<^verbatim>\<open>notifyUpdate\<close>, given the SSRC list and the audio SSRC of the connection.\<close>

definition add_video_generator :: "u32 \<Rightarrow> feedbackHandler \<Rightarrow> feedbackHandler" where
  "add_video_generator ssrc h =
     (if ssrc \<noteq> 0
      then h\<lparr>generators_map := (generators_map h)(ssrc \<mapsto>
             \<lparr>rr_generator = new_RtcpRrGenerator ssrc VIDEO_PACKET,
              nack_generator = (if nacks_enabled h then Some (new_RtcpNackGenerator ssrc) else None)\<rparr>)\<rparr>
      else h)"

definition fh_notifyUpdate :: "u32 list \<Rightarrow> u32 \<Rightarrow> feedbackHandler \<Rightarrow> feedbackHandler" where
  "fh_notifyUpdate video_ssrc_list audio_ssrc h =
     (if fh_initialized h then h
      else let h = fold add_video_generator video_ssrc_list h;
               h = (if audio_ssrc \<noteq> 0
                    then h\<lparr>generators_map := (generators_map h)(audio_ssrc \<mapsto>
                           \<lparr>rr_generator = new_RtcpRrGenerator audio_ssrc AUDIO_PACKET, nack_generator = None\<rparr>)\<rparr>
                    else h)
           in h\<lparr>fh_initialized := True\<rparr>)"

text \<open>The call on the NACK generator, null or not.\<close>

definition call_nack_generator :: "dataPacket \<Rightarrow> nackGenerator option \<Rightarrow> (bool \<times> nackGenerator option) option" where
  "call_nack_generator packet n =
     (case n of
        None \<Rightarrow> if packet_type packet \<noteq> VIDEO_PACKET then Some (False, None) else None
      | Some n \<Rightarrow> let (b, n) = nack_handleRtpPacket packet n in Some (b, Some n))"

definition add_nacks :: "bool \<Rightarrow> u64 \<Rightarrow> dataPacket \<Rightarrow> nackGenerator option \<Rightarrow> dataPacket \<times> nackGenerator option" where
  "add_nacks nacks now rtcp_packet n =
     (case n of
        Some n \<Rightarrow> if nacks then let (b, rtcp_packet, n) = addNackPacketToRr now rtcp_packet n in (rtcp_packet, Some n)
                  else (rtcp_packet, Some n)
      | None \<Rightarrow> (rtcp_packet, None))"

text \<open>A packet for a known SSRC: the new pair, and the report to send, if any.\<close>

definition pair_read ::
  "(u16 \<Rightarrow> u16 \<Rightarrow> u16) \<Rightarrow> bool \<Rightarrow> u64 \<Rightarrow> dataPacket \<Rightarrow> generatorPair \<Rightarrow> (generatorPair \<times> dataPacket list) option" where
  "pair_read random nacks now packet pair =
     (let (should_send_rr, rr) = rr_handleRtpPacket now packet (rr_generator pair)
      in case (if nacks then call_nack_generator packet (nack_generator pair) else Some (False, nack_generator pair)) of
           None \<Rightarrow> None
         | Some (should_send_nack, n) \<Rightarrow>
             if should_send_rr \<or> should_send_nack
             then let (rtcp_packet, rr) = generateReceiverReport random now rr;
                      (rtcp_packet, n) = add_nacks nacks now rtcp_packet n
                  in Some (\<lparr>rr_generator = rr, nack_generator = n\<rparr>, [rtcp_packet])
             else Some (\<lparr>rr_generator = rr, nack_generator = n\<rparr>, []))"

definition fh_read ::
  "(u16 \<Rightarrow> u16 \<Rightarrow> u16) \<Rightarrow> u64 \<Rightarrow> dataPacket \<Rightarrow> feedbackHandler \<Rightarrow> (feedbackHandler \<times> fire list) option" where
  "fh_read random now packet h =
     (let chead = data packet
      in if \<not> fh_initialized h then Some (h, [FireRead packet])
         else if getPacketType chead 0 = RTCP_Sender_PT
         then let ssrc = rtcp_getSSRC chead 0
              in case generators_map h ssrc of
                   Some pair \<Rightarrow> Some (h\<lparr>generators_map := (generators_map h)
                     (ssrc \<mapsto> pair\<lparr>rr_generator := handleSr packet (rr_generator pair)\<rparr>)\<rparr>, [FireRead packet])
                 | None \<Rightarrow> Some (h, [FireRead packet])
         else if \<not> isRtcp chead 0
         then let ssrc = getSSRC chead
              in case generators_map h ssrc of
                   Some pair \<Rightarrow>
                     (case pair_read random (nacks_enabled h) now packet pair of
                        None \<Rightarrow> None
                      | Some (pair, reports) \<Rightarrow>
                          Some (h\<lparr>generators_map := (generators_map h)(ssrc \<mapsto> pair)\<rparr>,
                                map FireWrite reports @ [FireRead packet]))
                 | None \<Rightarrow> Some (h, [FireRead packet])
         else Some (h, [FireRead packet]))"

definition fh_write :: "dataPacket \<Rightarrow> feedbackHandler \<Rightarrow> feedbackHandler \<times> fire list" where
  "fh_write packet h = (h, [FireWrite packet])"

subsection \<open>Invariant\<close>

definition pair_inv :: "bool \<Rightarrow> u32 \<Rightarrow> generatorPair \<Rightarrow> bool" where
  "pair_inv nacks ssrc pair \<longleftrightarrow> rg_ssrc (rr_generator pair) = ssrc
     \<and> (case nack_generator pair of
          Some n \<Rightarrow> ng_ssrc n = ssrc \<and> nack_inv n
        | None \<Rightarrow> nacks \<longrightarrow> rg_type (rr_generator pair) = AUDIO_PACKET)"

definition fh_inv :: "feedbackHandler \<Rightarrow> bool" where
  "fh_inv h \<longleftrightarrow> (\<forall>ssrc pair. generators_map h ssrc = Some pair \<longrightarrow> pair_inv (nacks_enabled h) ssrc pair)"

text \<open>A packet of an audio stream is not marked as video.\<close>

definition typed_packet :: "feedbackHandler \<Rightarrow> dataPacket \<Rightarrow> bool" where
  "typed_packet h packet \<longleftrightarrow> (\<forall>pair. generators_map h (getSSRC (data packet)) = Some pair \<longrightarrow>
     rg_type (rr_generator pair) = AUDIO_PACKET \<longrightarrow> packet_type packet \<noteq> VIDEO_PACKET)"

lemma rr_generator_const [simp]:
  "rg_ssrc (snd (rr_handleRtpPacket now packet g)) = rg_ssrc g"
  "rg_type (snd (rr_handleRtpPacket now packet g)) = rg_type g"
  "rg_ssrc (snd (generateReceiverReport random now g)) = rg_ssrc g"
  "rg_type (snd (generateReceiverReport random now g)) = rg_type g"
  "rg_ssrc (handleSr packet g) = rg_ssrc g" "rg_type (handleSr packet g) = rg_type g"
  by (simp_all add: rr_handleRtpPacket_def generateReceiverReport_def handleSr_def Let_def)

lemma nack_generator_const [simp]:
  "ng_ssrc (snd (nack_handleRtpPacket packet g)) = ng_ssrc g"
  "ng_ssrc (snd (snd (addNackPacketToRr now rr g))) = ng_ssrc g"
  by (simp_all add: nack_handleRtpPacket_def addNacks_def addNackPacketToRr_def Let_def case_prod_beta)

subsection \<open>What a packet makes it send\<close>

text \<open>A report, with or without NACKs: an RR that fits the 1500 bytes of a packet.\<close>

definition is_report :: "dataPacket \<Rightarrow> bool" where
  "is_report r \<longleftrightarrow> getPacketType (data r) 0 = RTCP_Receiver_PT \<and> 32 \<le> packet_length r \<and> packet_length r \<le> 644"

lemma report_is_report: "is_report (fst (generateReceiverReport random now g))"
  by (simp add: is_report_def report_data rr_header_fields)

lemma add_nacks_report:
  assumes "packet_length r = 32" "is_report r" "nack_inv n"
  shows "is_report (fst (add_nacks nacks now r (Some n)))"
proof -
  obtain b r' n' where a: "addNackPacketToRr now r n = (b, r', n')" by (rule prod_cases3)
  have "is_report r'"
  proof (cases b)
    case False
    then have "r' = r"
      using a by (auto simp: addNackPacketToRr_def Let_def case_prod_beta split: if_splits)
    then show ?thesis using assms(2) by simp
  next
    case True
    with a have a': "addNackPacketToRr now r n = (True, r', n')" by simp
    note s = addNackPacketToRr_sent [OF a' _ assms(3)]
    have "length (fst (nack_blocks now 0 [] (nack_info_list n))) \<le> 150"
      using assms(3) few_retransmits_blocks [of "nack_info_list n" now 0 "[]"]
      by (simp add: nack_inv_iff kMaxNacks_def)
    then show ?thesis
      using s(1) s(2) [of 1] assms(1,2) by (simp add: is_report_def getPacketType_def)
  qed
  then show ?thesis using assms(2) by (simp add: add_nacks_def a)
qed

lemma pair_read_ok:
  assumes "pair_inv nacks ssrc pair" "rg_type (rr_generator pair) = AUDIO_PACKET \<longrightarrow> packet_type packet \<noteq> VIDEO_PACKET"
  shows "\<exists>pair' reports. pair_read random nacks now packet pair = Some (pair', reports)
    \<and> pair_inv nacks ssrc pair' \<and> rg_type (rr_generator pair') = rg_type (rr_generator pair)
    \<and> length reports \<le> 1 \<and> list_all is_report reports"
proof -
  obtain b1 rr where rr: "rr_handleRtpPacket now packet (rr_generator pair) = (b1, rr)" by (cases "rr_handleRtpPacket now packet (rr_generator pair)")
  have rrc: "rg_ssrc rr = ssrc" "rg_type rr = rg_type (rr_generator pair)"
    using rr_generator_const(1,2) [of now packet "rr_generator pair"] assms(1) by (simp_all add: rr pair_inv_def)
  obtain b2 n where n: "(if nacks then call_nack_generator packet (nack_generator pair)
        else Some (False, nack_generator pair)) = Some (b2, n)"
      and ninv: "case n of Some n \<Rightarrow> ng_ssrc n = ssrc \<and> nack_inv n | None \<Rightarrow> nacks \<longrightarrow> rg_type (rr_generator pair) = AUDIO_PACKET"
  proof (cases "nack_generator pair")
    case None
    then show ?thesis
      using that assms by (cases nacks) (auto simp: call_nack_generator_def pair_inv_def)
  next
    case (Some m)
    then have m: "ng_ssrc m = ssrc" "nack_inv m" using assms(1) by (auto simp: pair_inv_def)
    then have "ng_ssrc (snd (nack_handleRtpPacket packet m)) = ssrc" "nack_inv (snd (nack_handleRtpPacket packet m))"
      using nack_inv_preserved [OF m(2)] by simp_all
    then show ?thesis
      using that [of "fst (nack_handleRtpPacket packet m)" "Some (snd (nack_handleRtpPacket packet m))"] that [of False "Some m"] m
      by (cases nacks) (simp_all add: call_nack_generator_def Some case_prod_beta)
  qed
  let ?r = "generateReceiverReport random now rr"
  have add: "is_report (fst (add_nacks nacks now (fst ?r) n))
    \<and> pair_inv nacks ssrc \<lparr>rr_generator = snd ?r, nack_generator = snd (add_nacks nacks now (fst ?r) n)\<rparr>"
  proof (cases n)
    case None
    then show ?thesis using ninv rrc report_is_report by (simp add: add_nacks_def pair_inv_def)
  next
    case (Some m)
    then have m: "ng_ssrc m = ssrc" "nack_inv m" using ninv by auto
    show ?thesis
      using add_nacks_report [OF report_data(2) report_is_report m(2)] m rrc nack_inv_preserved [OF m(2)]
      by (auto simp add: Some pair_inv_def) (simp_all add: add_nacks_def case_prod_beta)
  qed
  show ?thesis
  proof (cases "b1 \<or> b2")
    case False
    then have "pair_read random nacks now packet pair = Some (\<lparr>rr_generator = rr, nack_generator = n\<rparr>, [])"
      by (simp add: pair_read_def rr n Let_def)
    then show ?thesis using ninv rrc by (auto simp: pair_inv_def split: option.splits)
  next
    case True
    then have "pair_read random nacks now packet pair =
        Some (\<lparr>rr_generator = snd ?r, nack_generator = snd (add_nacks nacks now (fst ?r) n)\<rparr>,
          [fst (add_nacks nacks now (fst ?r) n)])"
      by (simp add: pair_read_def rr n Let_def case_prod_beta)
    then show ?thesis using add rrc by simp
  qed
qed

lemma pair_inv_handleSr:
  "pair_inv nacks s (pair\<lparr>rr_generator := handleSr packet (rr_generator pair)\<rparr>) \<longleftrightarrow> pair_inv nacks s pair"
  by (simp add: pair_inv_def split: option.split)

lemma fh_read_ok:
  assumes "fh_inv h" "typed_packet h packet"
  shows "\<exists>h' reports. fh_read random now packet h = Some (h', map FireWrite reports @ [FireRead packet])
    \<and> fh_inv h' \<and> length reports \<le> 1 \<and> list_all is_report reports"
proof -
  have keep: "\<exists>reports. [FireRead packet] = map FireWrite reports @ [FireRead packet]
    \<and> length reports \<le> 1 \<and> list_all is_report reports" by (rule exI [of _ "[]"]) simp
  consider "\<not> fh_initialized h" | "fh_initialized h" "getPacketType (data packet) 0 = RTCP_Sender_PT"
    | "fh_initialized h" "getPacketType (data packet) 0 \<noteq> RTCP_Sender_PT" "isRtcp (data packet) 0"
    | "fh_initialized h" "getPacketType (data packet) 0 \<noteq> RTCP_Sender_PT" "\<not> isRtcp (data packet) 0"
    by blast
  then show ?thesis
  proof cases
    case 1
    then show ?thesis using keep assms(1) by (auto simp: fh_read_def Let_def)
  next
    case 3
    then show ?thesis using keep assms(1) by (auto simp: fh_read_def Let_def)
  next
    case 2
    then show ?thesis
      using keep assms(1)
      by (cases "generators_map h (rtcp_getSSRC (data packet) 0)")
        (auto simp: fh_read_def Let_def fh_inv_def pair_inv_handleSr)
  next
    case 4
    let ?ssrc = "getSSRC (data packet)"
    show ?thesis
    proof (cases "generators_map h ?ssrc")
      case None
      then show ?thesis using 4 keep assms(1) by (auto simp: fh_read_def Let_def)
    next
      case (Some pair)
      then have p: "pair_inv (nacks_enabled h) ?ssrc pair"
        "rg_type (rr_generator pair) = AUDIO_PACKET \<longrightarrow> packet_type packet \<noteq> VIDEO_PACKET"
        using assms by (auto simp: fh_inv_def typed_packet_def)
      obtain pair' reports where r: "pair_read random (nacks_enabled h) now packet pair = Some (pair', reports)"
        "pair_inv (nacks_enabled h) ?ssrc pair'" "length reports \<le> 1" "list_all is_report reports"
        using pair_read_ok [OF p, of random now] by blast
      have "fh_inv (h\<lparr>generators_map := (generators_map h)(?ssrc \<mapsto> pair')\<rparr>)"
        using assms(1) r(2) by (auto simp: fh_inv_def)
      then show ?thesis using 4 Some r by (auto simp: fh_read_def Let_def)
    qed
  qed
qed

lemma pair_inv_new:
  "pair_inv True s \<lparr>rr_generator = new_RtcpRrGenerator s VIDEO_PACKET,
     nack_generator = Some (new_RtcpNackGenerator s)\<rparr>"
  "pair_inv False s \<lparr>rr_generator = new_RtcpRrGenerator s VIDEO_PACKET, nack_generator = None\<rparr>"
  "pair_inv nacks s \<lparr>rr_generator = new_RtcpRrGenerator s AUDIO_PACKET, nack_generator = None\<rparr>"
  by (simp_all add: pair_inv_def new_RtcpRrGenerator_def new_RtcpNackGenerator_def nack_inv_def)

lemma fh_inv_notifyUpdate: "fh_inv h \<Longrightarrow> fh_inv (fh_notifyUpdate vs a h)"
proof -
  have v: "fh_inv h \<Longrightarrow> fh_inv (add_video_generator s h)" for s h
    using pair_inv_new(1,2) by (auto simp: add_video_generator_def fh_inv_def)
  have "fh_inv h \<Longrightarrow> fh_inv (fold add_video_generator vs h)" for vs h
    by (induction vs arbitrary: h) (use v in auto)
  then show "fh_inv h \<Longrightarrow> fh_inv (fh_notifyUpdate vs a h)"
    using pair_inv_new(3) by (auto simp: fh_notifyUpdate_def Let_def fh_inv_def)
qed

subsection \<open>The properties\<close>

text \<open>
  Every packet is passed on exactly once, after at most one report; a report is an RTCP
  receiver report of at most 644 bytes, so appending NACKs never overruns the 1500 bytes of a
  packet. No null generator is read, provided audio packets are not marked as video.
\<close>
theorem feedback_read_safe:
  assumes "fh_inv h" "typed_packet h packet"
  shows "\<exists>h' reports. fh_read random now packet h = Some (h', map FireWrite reports @ [FireRead packet])
    \<and> fh_inv h' \<and> length reports \<le> 1 \<and> list_all is_report reports"
  by (rule fh_read_ok [OF assms])

theorem feedback_read_safe_witness:
  "\<exists>h' reports. fh_read (\<lambda>a b. a) 5 (sample_packet 9 7) (fh_notifyUpdate [7] 8 (new_RtcpFeedbackGenerationHandler True))
     = Some (h', map FireWrite reports @ [FireRead (sample_packet 9 7)])
    \<and> fh_inv h' \<and> length reports \<le> 1 \<and> list_all is_report reports"
proof (rule feedback_read_safe)
  show "fh_inv (fh_notifyUpdate [7] 8 (new_RtcpFeedbackGenerationHandler True))"
    by (rule fh_inv_notifyUpdate) (simp add: fh_inv_def new_RtcpFeedbackGenerationHandler_def)
  show "typed_packet (fh_notifyUpdate [7] 8 (new_RtcpFeedbackGenerationHandler True)) (sample_packet 9 7)"
    by (simp add: typed_packet_def fh_notifyUpdate_def new_RtcpFeedbackGenerationHandler_def
        add_video_generator_def new_RtcpRrGenerator_def Let_def)
qed

text \<open>
  A packet marked as video with the SSRC of the audio stream makes the handler read a null
  NACK generator, once NACKs are enabled.
\<close>
lemma feedback_null_generator:
  "fh_read random now (sample_packet 9 8) (fh_notifyUpdate [7] 8 (new_RtcpFeedbackGenerationHandler True)) = None"
proof -
  have "getPacketType (data (sample_packet 9 8)) 0 = 0"
    by (simp add: sample_packet_def getPacketType_def zero_mem_def setSSRC_def setSeqNumber_def store16_def store32_def)
  then show ?thesis
    by (simp add: fh_read_def fh_notifyUpdate_def new_RtcpFeedbackGenerationHandler_def isRtcp_def
        add_video_generator_def pair_read_def call_nack_generator_def Let_def case_prod_beta)
qed

end
