(* ===== verification/RtpPacketQueue.thy ===== *)
theory RtpPacketQueue
  imports RtpUtils Complex_Main
begin

text \<open>
  \<^verbatim>\<open>RtpPacketQueue\<close>: the reordering queue, newest packet first. Depths are seconds, \<^verbatim>\<open>double\<close>s
  in the code and rationals here. Popping from an empty \<^verbatim>\<open>std::list\<close>, which a negative maximal
  depth would lead to, is the result \<open>None\<close>. The operations are those of one thread, or of several
  that do not overlap: \<^verbatim>\<open>pushPacket\<close> checks whether a packet is too late before it takes the mutex.
\<close>

subsection \<open>Operations\<close>

record rtpPacketQueue =
  pq_queue :: "dataPacket list"
  lastSequenceNumberGiven :: int
  timebase :: u32
  depthInSeconds :: rat
  maxDepthInSeconds :: rat

definition DEFAULT_DEPTH :: rat where "DEFAULT_DEPTH = 3"
definition DEFAULT_MAX :: rat where "DEFAULT_MAX = 5"

definition new_RtpPacketQueue :: "rat \<Rightarrow> rat \<Rightarrow> rtpPacketQueue" where
  "new_RtpPacketQueue depth max_depth =
     (let q = \<lparr>pq_queue = [], lastSequenceNumberGiven = -1, timebase = 0, depthInSeconds = depth,
               maxDepthInSeconds = max_depth\<rparr>
      in if depthInSeconds q \<ge> maxDepthInSeconds q
         then q\<lparr>depthInSeconds := DEFAULT_DEPTH, maxDepthInSeconds := DEFAULT_MAX\<rparr> else q)"

definition pk_seq :: "dataPacket \<Rightarrow> u16" where
  "pk_seq p = getSeqNumber (data p)"

definition getDepthInSeconds :: "u32 \<Rightarrow> dataPacket list \<Rightarrow> rat" where
  "getDepthInSeconds tb q =
     (if tb > 0 \<and> length q > 1
      then of_nat (unat (getTimestamp (data (hd q)) - getTimestamp (data (last q)))) / of_nat (unat tb)
      else 0)"

text \<open>The search for the place of a packet: before the first older one, or nowhere if it is a duplicate.\<close>

fun queue_insert :: "dataPacket \<Rightarrow> dataPacket list \<Rightarrow> dataPacket list" where
  "queue_insert packet [] = [packet]"
| "queue_insert packet (p # q) =
     (if pk_seq p = pk_seq packet then p # q
      else if rtpSequenceLessThan (pk_seq p) (pk_seq packet) then packet # p # q
      else p # queue_insert packet q)"

function enforce_max :: "u32 \<Rightarrow> rat \<Rightarrow> dataPacket list \<Rightarrow> dataPacket list option" where
  "enforce_max tb mx q =
     (if getDepthInSeconds tb q > mx then if q = [] then None else enforce_max tb mx (butlast q) else Some q)"
  by pat_completeness auto
termination
  by (relation "measure (\<lambda>(tb, mx, q). length q)") auto

declare enforce_max.simps [simp del]

definition too_late :: "u16 \<Rightarrow> rtpPacketQueue \<Rightarrow> bool" where
  "too_late n q \<longleftrightarrow> lastSequenceNumberGiven q \<ge> 0 \<and>
     (rtpSequenceLessThan n (word_of_int (lastSequenceNumberGiven q)) \<or> uint n = lastSequenceNumberGiven q)"

definition pushPacket :: "mem \<Rightarrow> int \<Rightarrow> rtpPacketQueue \<Rightarrow> rtpPacketQueue option" where
  "pushPacket d len q =
     (let currentSequenceNumber = getSeqNumber d
      in if too_late currentSequenceNumber q then Some q
         else let packet = new_dataPacket 0 d len OTHER_PACKET 0
              in case enforce_max (timebase q) (maxDepthInSeconds q) (queue_insert packet (pq_queue q)) of
                   None \<Rightarrow> None
                 | Some xs \<Rightarrow> Some (q\<lparr>pq_queue := xs\<rparr>))"

definition popPacket :: "bool \<Rightarrow> rtpPacketQueue \<Rightarrow> dataPacket option \<times> rtpPacketQueue" where
  "popPacket ignore_depth q =
     (if length (pq_queue q) > 0
      then if ignore_depth \<or> getDepthInSeconds (timebase q) (pq_queue q) > depthInSeconds q
           then let packet = last (pq_queue q)
                in (Some packet, q\<lparr>pq_queue := butlast (pq_queue q), lastSequenceNumberGiven := uint (pk_seq packet)\<rparr>)
           else (None, q)
      else (None, q))"

definition setTimebase :: "u32 \<Rightarrow> rtpPacketQueue \<Rightarrow> rtpPacketQueue" where
  "setTimebase tb q = q\<lparr>timebase := tb\<rparr>"

definition getSize :: "rtpPacketQueue \<Rightarrow> nat" where
  "getSize q = length (pq_queue q)"

definition hasData :: "rtpPacketQueue \<Rightarrow> bool" where
  "hasData q \<longleftrightarrow> getDepthInSeconds (timebase q) (pq_queue q) > depthInSeconds q"

subsection \<open>A queue in order, seen from a base\<close>

text \<open>
  Seen from a base number no newer than any of them, the packets are strictly newest first and
  within half of the number space.
\<close>

definition ordered_from :: "u16 \<Rightarrow> dataPacket list \<Rightarrow> bool" where
  "ordered_from b q \<longleftrightarrow> sorted_wrt (\<lambda>p p'. seq_dist b (pk_seq p') < seq_dist b (pk_seq p)) q
     \<and> (\<forall>p \<in> set q. 0 < seq_dist b (pk_seq p) \<and> seq_dist b (pk_seq p) \<le> 32768)"

lemma ordered_from_less:
  assumes "0 < seq_dist b m" "0 < seq_dist b n" "seq_dist b m \<le> 32768" "seq_dist b n \<le> 32768"
  shows "rtpSequenceLessThan m n \<longleftrightarrow> seq_dist b m < seq_dist b n"
proof (cases "seq_dist b m \<le> seq_dist b n")
  case True
  then have "seq_dist b n - seq_dist b m < 32768" using assms by linarith
  with True show ?thesis by (rule queue_less.less_from_base)
next
  case False
  then have "seq_dist b m - seq_dist b n < 32768" "seq_dist b n \<le> seq_dist b m" using assms by linarith+
  with False have "rtpSequenceLessThan n m" by (subst queue_less.less_from_base) auto
  with False show ?thesis using queue_less.asym by auto
qed

lemma seq_dist_inj: "seq_dist b m = seq_dist b n \<longleftrightarrow> m = n"
proof
  assume "seq_dist b m = seq_dist b n"
  then have "b + of_nat (seq_dist b m) = b + of_nat (seq_dist b n)" by simp
  then show "m = n" by (simp only: add_seq_dist)
qed simp

lemma set_queue_insert:
  "pk_seq ` set (queue_insert packet q) = insert (pk_seq packet) (pk_seq ` set q)"
  "set q \<subseteq> set (queue_insert packet q)" "set (queue_insert packet q) \<subseteq> insert packet (set q)"
  by (induction q) auto

lemma ordered_from_insert:
  assumes "ordered_from b q" "0 < seq_dist b (pk_seq packet)" "seq_dist b (pk_seq packet) \<le> 32768"
  shows "ordered_from b (queue_insert packet q)"
  using assms(1)
proof (induction q)
  case (Cons p q)
  have q: "ordered_from b q" using Cons.prems by (simp add: ordered_from_def)
  note IH = Cons.IH [OF q]
  have p: "0 < seq_dist b (pk_seq p)" "seq_dist b (pk_seq p) \<le> 32768"
    and pq: "\<forall>p' \<in> set q. seq_dist b (pk_seq p') < seq_dist b (pk_seq p)"
    using Cons.prems by (auto simp: ordered_from_def)
  consider "pk_seq p = pk_seq packet" | "pk_seq p \<noteq> pk_seq packet" "seq_dist b (pk_seq p) < seq_dist b (pk_seq packet)"
    | "seq_dist b (pk_seq packet) < seq_dist b (pk_seq p)"
    using less_linear [of "seq_dist b (pk_seq p)" "seq_dist b (pk_seq packet)"]
      seq_dist_inj [of b "pk_seq p" "pk_seq packet"] by blast
  then show ?case
  proof cases
    case 1
    then show ?thesis using Cons.prems by simp
  next
    case 2
    then show ?thesis
      using Cons.prems assms(2,3) pq ordered_from_less [OF p(1) assms(2) p(2) assms(3)]
      by (auto simp: ordered_from_def)
  next
    case 3
    then have "queue_insert packet (p # q) = p # queue_insert packet q"
      using ordered_from_less [OF p(1) assms(2) p(2) assms(3)] by auto
    moreover have "seq_dist b (pk_seq p') < seq_dist b (pk_seq p)" if "p' \<in> set (queue_insert packet q)" for p'
      using that set_queue_insert(3) [of packet q] pq 3 by auto
    ultimately show ?thesis using IH p by (auto simp: ordered_from_def)
  qed
qed (use assms in \<open>simp add: ordered_from_def\<close>)

lemma ordered_from_butlast: "ordered_from b q \<Longrightarrow> ordered_from b (butlast q)"
  by (auto simp: ordered_from_def butlast_conv_take sorted_wrt_take dest: in_set_takeD)

lemma enforce_max_take: "enforce_max tb mx q = Some q' \<Longrightarrow> \<exists>n. q' = take n q"
proof (induction tb mx q rule: enforce_max.induct)
  case (1 tb mx q)
  show ?case
  proof (cases "getDepthInSeconds tb q > mx")
    case False
    then show ?thesis using "1.prems" by (auto simp: enforce_max.simps [of tb mx q] intro: exI [of _ "length q"])
  next
    case True
    then obtain n where "q' = take n (butlast q)"
      using 1 by (auto simp: enforce_max.simps [of tb mx q] split: if_splits)
    then show ?thesis by (metis butlast_conv_take take_take)
  qed
qed

lemma enforce_max_some: "0 \<le> mx \<Longrightarrow> \<exists>q'. enforce_max tb mx q = Some q' \<and> getDepthInSeconds tb q' \<le> mx"
proof (induction tb mx q rule: enforce_max.induct)
  case (1 tb mx q)
  show ?case
  proof (cases "getDepthInSeconds tb q > mx")
    case True
    then have "q \<noteq> []" using "1.prems" by (auto simp: getDepthInSeconds_def)
    then show ?thesis using 1 True by (simp add: enforce_max.simps [of tb mx q])
  qed (simp add: enforce_max.simps [of tb mx q])
qed

lemma ordered_from_take: "ordered_from b q \<Longrightarrow> ordered_from b (take n q)"
  by (auto simp: ordered_from_def sorted_wrt_take dest: in_set_takeD)

subsection \<open>Runs\<close>

datatype pq_op = PushOp mem int | PopOp bool | TimebaseOp u32

definition pq_step :: "pq_op \<Rightarrow> rtpPacketQueue \<Rightarrow> (dataPacket option \<times> rtpPacketQueue) option" where
  "pq_step opr q = (case opr of
       PushOp d len \<Rightarrow> map_option (Pair None) (pushPacket d len q)
     | PopOp ignore_depth \<Rightarrow> Some (popPacket ignore_depth q)
     | TimebaseOp tb \<Rightarrow> Some (None, setTimebase tb q))"

text \<open>The packets that a run of operations hands out, in order.\<close>

fun pq_run :: "pq_op list \<Rightarrow> rtpPacketQueue \<Rightarrow> (dataPacket list \<times> rtpPacketQueue) option" where
  "pq_run [] q = Some ([], q)"
| "pq_run (opr # ops) q = (case pq_step opr q of None \<Rightarrow> None
     | Some (r, q) \<Rightarrow> map_option (\<lambda>(outs, q). ((case r of None \<Rightarrow> outs | Some p \<Rightarrow> p # outs), q)) (pq_run ops q))"

text \<open>What is pushed is at least a header; and the numbers pushed are in the half of the space after \<open>b\<close>.\<close>

definition long_push :: "pq_op \<Rightarrow> bool" where
  "long_push opr = (case opr of PushOp d len \<Rightarrow> 12 \<le> len | _ \<Rightarrow> True)"

definition ascends :: "u16 \<Rightarrow> u16 \<Rightarrow> bool" where
  "ascends a b \<longleftrightarrow> 0 < seq_dist a b \<and> seq_dist a b \<le> 32768"

definition push_after :: "u16 \<Rightarrow> pq_op \<Rightarrow> bool" where
  "push_after b opr = (case opr of PushOp d len \<Rightarrow> ascends b (getSeqNumber d) | _ \<Rightarrow> True)"

definition pq_inv :: "rtpPacketQueue \<Rightarrow> bool" where
  "pq_inv q \<longleftrightarrow> 0 \<le> maxDepthInSeconds q \<and> (\<exists>b :: u16. lastSequenceNumberGiven q = uint b \<and> ordered_from b (pq_queue q))"

lemma pk_seq_new: "12 \<le> len \<Longrightarrow> pk_seq (new_dataPacket c d len t now) = getSeqNumber d"
  using nat_mono [of 12 len]
  by (simp add: pk_seq_def new_dataPacket_def getSeqNumber_def load16_def copy_mem_def)

lemma not_late_window:
  assumes "\<not> rtpSequenceLessThan n b" "n \<noteq> b"
  shows "0 < seq_dist b n \<and> seq_dist b n \<le> 32768"
  using assms seq_dist_rev [of n b] by (auto simp: rtpSequenceLessThan_iff)

lemma pq_inv_push:
  assumes "pq_inv q" "12 \<le> len"
  shows "\<exists>q'. pushPacket d len q = Some q' \<and> pq_inv q' \<and> lastSequenceNumberGiven q' = lastSequenceNumberGiven q"
proof -
  obtain b :: u16 where b: "lastSequenceNumberGiven q = uint b" "ordered_from b (pq_queue q)" "0 \<le> maxDepthInSeconds q"
    using assms(1) by (auto simp: pq_inv_def)
  show ?thesis
  proof (cases "too_late (getSeqNumber d) q")
    case True
    then show ?thesis using assms(1) by (simp add: pushPacket_def)
  next
    case False
    let ?p = "new_dataPacket 0 d len OTHER_PACKET 0"
    have "0 < seq_dist b (pk_seq ?p)" "seq_dist b (pk_seq ?p) \<le> 32768"
      using False not_late_window [of "getSeqNumber d" b] by (auto simp: too_late_def b(1) pk_seq_new assms(2))
    then have o: "ordered_from b (queue_insert ?p (pq_queue q))" by (rule ordered_from_insert [OF b(2)])
    obtain xs where xs: "enforce_max (timebase q) (maxDepthInSeconds q) (queue_insert ?p (pq_queue q)) = Some xs"
      using enforce_max_some [OF b(3)] by blast
    then have "ordered_from b xs" using enforce_max_take ordered_from_take [OF o] by blast
    then show ?thesis using False xs b by (auto simp: pushPacket_def pq_inv_def)
  qed
qed

lemma pq_inv_pop:
  assumes "pq_inv q" "popPacket ignore_depth q = (r, q')"
  shows "pq_inv q' \<and> (case r of
      None \<Rightarrow> lastSequenceNumberGiven q' = lastSequenceNumberGiven q
    | Some p \<Rightarrow> lastSequenceNumberGiven q' = uint (pk_seq p)
        \<and> 0 < seq_dist (word_of_int (lastSequenceNumberGiven q)) (pk_seq p)
        \<and> seq_dist (word_of_int (lastSequenceNumberGiven q)) (pk_seq p) \<le> 32768)"
proof -
  obtain b :: u16 where b: "lastSequenceNumberGiven q = uint b" "ordered_from b (pq_queue q)" "0 \<le> maxDepthInSeconds q"
    using assms(1) by (auto simp: pq_inv_def)
  show ?thesis
  proof (cases r)
    case None
    then have "q' = q" using assms(2) by (auto simp: popPacket_def Let_def split: if_splits)
    then show ?thesis using assms(1) None by simp
  next
    case (Some p)
    then have q: "pq_queue q \<noteq> []" "p = last (pq_queue q)"
      "q' = q\<lparr>pq_queue := butlast (pq_queue q), lastSequenceNumberGiven := uint (pk_seq p)\<rparr>"
      using assms(2) by (auto simp: popPacket_def Let_def split: if_splits)
    then have split: "pq_queue q = butlast (pq_queue q) @ [p]" by simp
    then have lt: "\<forall>p' \<in> set (butlast (pq_queue q)). seq_dist b (pk_seq p) < seq_dist b (pk_seq p')"
      and p: "0 < seq_dist b (pk_seq p)" "seq_dist b (pk_seq p) \<le> 32768"
      using b(2) by (metis (no_types, lifting) ordered_from_def sorted_wrt_append list.set_intros(1),
        metis ordered_from_def in_set_conv_decomp, metis ordered_from_def in_set_conv_decomp)
    have d: "seq_dist (pk_seq p) (pk_seq p') = seq_dist b (pk_seq p') - seq_dist b (pk_seq p)"
      if "p' \<in> set (butlast (pq_queue q))" for p'
      using lt that by (intro seq_dist_diff) auto
    have "ordered_from (pk_seq p) (butlast (pq_queue q))"
      using ordered_from_butlast [OF b(2)] lt d unfolding ordered_from_def
      by (auto elim!: sorted_wrt_mono_rel [rotated] intro!: diff_less_mono)
    then show ?thesis using Some q b p by (auto simp: pq_inv_def)
  qed
qed

text \<open>
  Before the first packet is handed out there is no last number; the state then is one that the
  base number would have led to.
\<close>

definition pq_ready :: "u16 \<Rightarrow> rtpPacketQueue \<Rightarrow> bool" where
  "pq_ready b q \<longleftrightarrow> 0 \<le> maxDepthInSeconds q \<and>
     (if lastSequenceNumberGiven q = -1 then ordered_from b (pq_queue q) else pq_inv q)"

definition last_given :: "u16 \<Rightarrow> rtpPacketQueue \<Rightarrow> u16" where
  "last_given b q = (if lastSequenceNumberGiven q = -1 then b else word_of_int (lastSequenceNumberGiven q))"

lemma pq_inv_given: "pq_inv q \<Longrightarrow> lastSequenceNumberGiven q \<noteq> -1"
  using uint_ge_0 [where 'a = 16] by (auto simp: pq_inv_def) (metis less_le_not_le neg_eq_iff_add_eq_0 not_one_le_zero add.commute add_0 le_add_same_cancel1 uint_ge_0)

lemma pq_step_ready:
  assumes "pq_ready b q" "long_push opr" "lastSequenceNumberGiven q = -1 \<Longrightarrow> push_after b opr"
  shows "\<exists>r q'. pq_step opr q = Some (r, q') \<and> pq_ready b q' \<and> (case r of
      None \<Rightarrow> last_given b q' = last_given b q \<and> (lastSequenceNumberGiven q' = -1) = (lastSequenceNumberGiven q = -1)
    | Some p \<Rightarrow> pq_inv q' \<and> last_given b q' = pk_seq p \<and> ascends (last_given b q) (pk_seq p))"
proof (cases "lastSequenceNumberGiven q = -1")
  case False
  then have inv: "pq_inv q" "0 \<le> maxDepthInSeconds q" using assms(1) by (simp_all add: pq_ready_def)
  show ?thesis
  proof (cases opr)
    case (PushOp d len)
    then obtain q' where p: "pushPacket d len q = Some q'" "pq_inv q'" "lastSequenceNumberGiven q' = lastSequenceNumberGiven q"
      using pq_inv_push [OF inv(1), of len d] assms(2) by (auto simp: long_push_def)
    then have "0 \<le> maxDepthInSeconds q'" by (simp add: pq_inv_def)
    then show ?thesis using p False by (simp add: PushOp pq_step_def pq_ready_def last_given_def)
  next
    case (PopOp ignore_depth)
    obtain r q' where p: "popPacket ignore_depth q = (r, q')" by (cases "popPacket ignore_depth q")
    note i = pq_inv_pop [OF inv(1) p]
    then have "lastSequenceNumberGiven q' \<noteq> -1" "0 \<le> maxDepthInSeconds q'" using pq_inv_given [of q'] by (auto simp: pq_inv_def)
    then show ?thesis
      using i False by (cases r) (auto simp: PopOp pq_step_def p pq_ready_def last_given_def ascends_def)
  next
    case (TimebaseOp tb)
    then show ?thesis
      using inv False by (simp add: pq_step_def setTimebase_def pq_ready_def last_given_def pq_inv_def)
  qed
next
  case True
  let ?q = "q\<lparr>lastSequenceNumberGiven := uint b\<rparr>"
  have o: "ordered_from b (pq_queue q)" "0 \<le> maxDepthInSeconds q" using assms(1) True by (simp_all add: pq_ready_def)
  then have inv: "pq_inv ?q" by (auto simp: pq_inv_def)
  show ?thesis
  proof (cases opr)
    case (PushOp d len)
    then have len: "12 \<le> len" and d: "ascends b (getSeqNumber d)"
      using assms(2,3) True by (simp_all add: long_push_def push_after_def)
    let ?p = "new_dataPacket 0 d len OTHER_PACKET 0"
    have oi: "ordered_from b (queue_insert ?p (pq_queue q))"
      using d by (intro ordered_from_insert [OF o(1)]) (simp_all add: pk_seq_new len ascends_def)
    obtain xs where xs: "enforce_max (timebase q) (maxDepthInSeconds q) (queue_insert ?p (pq_queue q)) = Some xs"
      using enforce_max_some [OF o(2)] by blast
    then have "ordered_from b xs" using enforce_max_take ordered_from_take [OF oi] by blast
    then show ?thesis
      using True xs o by (simp add: PushOp pq_step_def pushPacket_def too_late_def pq_ready_def last_given_def)
  next
    case (PopOp ignore_depth)
    obtain r q' where p: "popPacket ignore_depth q = (r, q')" by (cases "popPacket ignore_depth q")
    show ?thesis
    proof (cases r)
      case None
      then have "q' = q" using p by (auto simp: popPacket_def Let_def split: if_splits)
      then show ?thesis using assms(1) None by (simp add: PopOp pq_step_def p)
    next
      case (Some x)
      have "popPacket ignore_depth ?q = (r, q')"
        using p Some by (auto simp: popPacket_def Let_def split: if_splits)
      note i = pq_inv_pop [OF inv this]
      then have "lastSequenceNumberGiven q' \<noteq> -1" "0 \<le> maxDepthInSeconds q'" using pq_inv_given [of q'] by (auto simp: pq_inv_def)
      then show ?thesis
        using i True by (auto simp: PopOp pq_step_def p Some pq_ready_def last_given_def ascends_def)
    qed
  next
    case (TimebaseOp tb)
    then show ?thesis
      using o True by (simp add: pq_step_def setTimebase_def pq_ready_def last_given_def)
  qed
qed

lemma pq_run_ready:
  assumes "pq_ready b q" "list_all long_push ops" "lastSequenceNumberGiven q \<noteq> -1 \<or> list_all (push_after b) ops"
  shows "\<exists>outs q'. pq_run ops q = Some (outs, q') \<and> pq_ready b q' \<and> (outs = [] \<or> pq_inv q')
    \<and> (lastSequenceNumberGiven q \<noteq> -1 \<longrightarrow> lastSequenceNumberGiven q' \<noteq> -1)
    \<and> successively ascends (last_given b q # map pk_seq outs) \<and> last_given b q' = last (last_given b q # map pk_seq outs)"
  using assms
proof (induction ops arbitrary: q)
  case Nil
  then show ?case by simp
next
  case (Cons opr ops)
  obtain r q1 where 1: "pq_step opr q = Some (r, q1)" "pq_ready b q1" "case r of
      None \<Rightarrow> last_given b q1 = last_given b q \<and> (lastSequenceNumberGiven q1 = -1) = (lastSequenceNumberGiven q = -1)
    | Some p \<Rightarrow> pq_inv q1 \<and> last_given b q1 = pk_seq p \<and> ascends (last_given b q) (pk_seq p)"
    using pq_step_ready [OF Cons.prems(1), of opr] Cons.prems(2,3) by auto
  have "lastSequenceNumberGiven q1 \<noteq> -1 \<or> list_all (push_after b) ops"
    using 1(3) Cons.prems(3) pq_inv_given [of q1] by (auto split: option.splits)
  then obtain outs q' where 2: "pq_run ops q1 = Some (outs, q')" "pq_ready b q'" "outs = [] \<or> pq_inv q'"
    "lastSequenceNumberGiven q1 \<noteq> -1 \<longrightarrow> lastSequenceNumberGiven q' \<noteq> -1"
    "successively ascends (last_given b q1 # map pk_seq outs)" "last_given b q' = last (last_given b q1 # map pk_seq outs)"
    using Cons.IH [OF 1(2)] Cons.prems(2) by auto
  show ?case
  proof (cases r)
    case None
    then show ?thesis using 1 2 by auto
  next
    case (Some p)
    then have g: "lastSequenceNumberGiven q' \<noteq> -1" using 2(4) 1(3) pq_inv_given [of q1] by simp
    then have "pq_inv q'" using 2(2) by (simp add: pq_ready_def)
    then show ?thesis using 1 2 Some g by (cases outs) auto
  qed
qed

lemma pq_run_append:
  "pq_run (xs @ ys) q = (case pq_run xs q of None \<Rightarrow> None
     | Some (outs, q) \<Rightarrow> map_option (\<lambda>(outs', q). (outs @ outs', q)) (pq_run ys q))"
proof (induction xs arbitrary: q)
  case Nil
  show ?case by (cases "pq_run ys q") auto
next
  case (Cons x xs)
  show ?case
  proof (cases "pq_step x q")
    case None
    then show ?thesis by simp
  next
    case (Some rq)
    obtain r q1 where q1: "rq = (r, q1)" by (cases rq)
    show ?thesis
      by (cases "pq_run xs q1"; cases "pq_run ys (snd (the (pq_run xs q1)))"; cases r)
        (auto simp: Cons.IH Some q1)
  qed
qed

lemma new_queue_ready:
  assumes "0 \<le> mx \<or> mx \<le> depth"
  shows "pq_ready b (new_RtpPacketQueue depth mx)" "lastSequenceNumberGiven (new_RtpPacketQueue depth mx) = -1"
  using assms by (auto simp: new_RtpPacketQueue_def pq_ready_def ordered_from_def Let_def DEFAULT_MAX_def)

subsection \<open>The properties\<close>

text \<open>
  C7: The queue hands out packets in order, from its constructor on: let the packets pushed before
  the first one is handed out lie in one half of the number space (after some number \<open>b\<close>), and
  every packet pushed have at least a header. Then whatever is pushed, popped and set after that,
  in whatever order, no operation fails, and the packets handed out have strictly ascending
  sequence numbers: no duplicate, no late packet, nothing out of order, across wraps. (The maximal
  depth must not be negative, unless the constructor replaces it.)
\<close>
theorem queue_hands_out_in_order:
  assumes "0 \<le> mx \<or> mx \<le> depth"
    "list_all long_push (before @ PopOp ignore_depth # after)" "list_all (push_after b) before"
    "pq_run (before @ [PopOp ignore_depth]) (new_RtpPacketQueue depth mx) = Some ([p], q)"
  shows "\<exists>outs q'. pq_run (before @ PopOp ignore_depth # after) (new_RtpPacketQueue depth mx) = Some (p # outs, q')
    \<and> successively ascends (map pk_seq (p # outs))"
proof -
  let ?q0 = "new_RtpPacketQueue depth mx"
  note n = new_queue_ready [OF assms(1)]
  have "list_all long_push (before @ [PopOp ignore_depth])" "list_all (push_after b) (before @ [PopOp ignore_depth])"
    using assms(2,3) by (simp_all add: push_after_def)
  from pq_run_ready [OF n(1) [of b] this(1)] this(2)
  have 1: "pq_ready b q" "pq_inv q" "last_given b q = pk_seq p" using assms(4) by auto
  then have g: "lastSequenceNumberGiven q \<noteq> -1" using pq_inv_given by blast
  have "list_all long_push after" using assms(2) by simp
  from pq_run_ready [OF 1(1) this] g obtain outs q' where
    2: "pq_run after q = Some (outs, q')" "successively ascends (pk_seq p # map pk_seq outs)"
    unfolding 1(3) by blast
  have "pq_run ((before @ [PopOp ignore_depth]) @ after) ?q0 = Some (p # outs, q')"
    by (subst pq_run_append) (simp add: assms(4) 2(1))
  then show ?thesis using 2(2) by auto
qed

definition sample_push :: "u16 \<Rightarrow> pq_op" where
  "sample_push n = PushOp (setSeqNumber n zero_mem) 12"

lemmas queue_eval = sample_push_def pq_step_def pushPacket_def too_late_def pk_seq_new popPacket_def getDepthInSeconds_def
  enforce_max.simps new_RtpPacketQueue_def Let_def rtpSequenceLessThan_def

theorem queue_hands_out_in_order_witness:
  "map_option (\<lambda>(outs, q). map pk_seq outs)
     (pq_run ([sample_push 0, sample_push 65535] @ PopOp True # [sample_push 65534, PopOp True, sample_push 7, PopOp True])
        (new_RtpPacketQueue 3 5)) = Some [65535, 0, 7]
   \<and> successively ascends [65535, 0, 7]"
proof -
  let ?before = "[sample_push 0, sample_push 65535]" and ?after = "[sample_push 65534, PopOp True, sample_push 7, PopOp True]"
  let ?q0 = "new_RtpPacketQueue 3 5"
  have "map_option (\<lambda>(outs, q). map pk_seq outs) (pq_run (?before @ [PopOp True]) ?q0) = Some [65535]" by (simp add: queue_eval)
  then obtain p q where r: "pq_run (?before @ [PopOp True]) ?q0 = Some ([p], q)" by auto
  have l: "list_all long_push (?before @ PopOp True # ?after)" by (simp add: long_push_def sample_push_def)
  have b: "list_all (push_after 65530) ?before"
    by (simp add: push_after_def sample_push_def ascends_def seq_dist_def)
  have m: "map_option (\<lambda>(outs, q). map pk_seq outs) (pq_run (?before @ PopOp True # ?after) ?q0) = Some [65535, 0, 7]"
    by (simp add: queue_eval)
  obtain outs q' where "pq_run (?before @ PopOp True # ?after) ?q0 = Some (p # outs, q')"
    "successively ascends (map pk_seq (p # outs))"
    using queue_hands_out_in_order [OF _ l b r] by auto
  then show ?thesis using m by simp
qed

text \<open>
  A packet that is not too late is either in the queue afterwards or was already there or is
  dropped for depth: the depth in seconds never exceeds the maximum after a push, and a queue with
  a sensible maximum never pops from an empty list.
\<close>
theorem queue_push_bounds_depth:
  assumes "0 \<le> maxDepthInSeconds q" "\<not> too_late (getSeqNumber d) q" "12 \<le> len"
  shows "\<exists>q' n. pushPacket d len q = Some q' \<and> getDepthInSeconds (timebase q') (pq_queue q') \<le> maxDepthInSeconds q'
    \<and> pq_queue q' = take n (queue_insert (new_dataPacket 0 d len OTHER_PACKET 0) (pq_queue q))"
proof -
  let ?x = "queue_insert (new_dataPacket 0 d len OTHER_PACKET 0) (pq_queue q)"
  obtain xs where xs: "enforce_max (timebase q) (maxDepthInSeconds q) ?x = Some xs"
    "getDepthInSeconds (timebase q) xs \<le> maxDepthInSeconds q"
    using enforce_max_some [OF assms(1)] by blast
  then obtain n where "xs = take n ?x" using enforce_max_take by blast
  then show ?thesis using xs assms(2) by (auto simp: pushPacket_def)
qed

theorem queue_push_bounds_depth_witness:
  "\<exists>q'. pushPacket (setSeqNumber 5 zero_mem) 12 (new_RtpPacketQueue 1 2) = Some q'
     \<and> getDepthInSeconds (timebase q') (pq_queue q') \<le> maxDepthInSeconds q'"
  using queue_push_bounds_depth [of "new_RtpPacketQueue 1 2" "setSeqNumber 5 zero_mem" 12]
  by (auto simp: new_RtpPacketQueue_def too_late_def Let_def)

end
