(* ===== verification/RtpPaddingRemoval.thy ===== *)
theory RtpPaddingRemoval
  imports RtpUtils SeqTranslatorProps
begin

text \<open>
  \<^verbatim>\<open>RtpPaddingRemovalHandler\<close>: incoming video packets lose their padding, packets of nothing but
  padding are dropped, and the rest is renumbered by a translator per SSRC so that no gap shows.
  NACKs on their way back are translated to the numbers of the sender. The main property joins
  the two components: whatever packets of a stream are pure padding, the packets passed on are
  numbered consecutively.
\<close>

record paddingRemoval =
  pr_enabled :: bool
  pr_initialized :: bool
  translator_map :: "u32 \<rightharpoonup> translator"

definition new_RtpPaddingRemovalHandler :: paddingRemoval where
  "new_RtpPaddingRemovalHandler = \<lparr>pr_enabled = True, pr_initialized = False, translator_map = Map.empty\<rparr>"

definition pr_enable :: "paddingRemoval \<Rightarrow> paddingRemoval" where
  "pr_enable h = h\<lparr>pr_enabled := True\<rparr>"

definition pr_disable :: "paddingRemoval \<Rightarrow> paddingRemoval" where
  "pr_disable h = h\<lparr>pr_enabled := False\<rparr>"

definition pr_notifyUpdate :: "paddingRemoval \<Rightarrow> paddingRemoval" where
  "pr_notifyUpdate h = (if pr_initialized h then h else h\<lparr>pr_initialized := True\<rparr>)"

definition getTranslatorForSsrc :: "u32 \<Rightarrow> bool \<Rightarrow> paddingRemoval \<Rightarrow> translator option \<times> paddingRemoval" where
  "getTranslatorForSsrc ssrc should_create h =
     (case translator_map h ssrc of
        Some t \<Rightarrow> (Some t, h)
      | None \<Rightarrow> if should_create
          then (Some new_translator, h\<lparr>translator_map := (translator_map h)(ssrc \<mapsto> new_translator)\<rparr>)
          else (None, h))"

text \<open>The packet without its padding, or \<open>None\<close> and the number skipped if nothing is left.\<close>

definition removePaddingBytes :: "dataPacket \<Rightarrow> translator \<Rightarrow> dataPacket option \<times> translator" where
  "removePaddingBytes packet t =
     (let header_length = int (getHeaderLength (data packet));
          padding_length = getPaddingLength packet
      in if padding_length + header_length = packet_length packet
         then (None, snd (snt_get (getSeqNumber (data packet)) True t))
         else (Some (packet\<lparr>packet_length := packet_length packet - padding_length,
                            data := setPadding 0 (data packet)\<rparr>), t))"

definition pr_read :: "dataPacket \<Rightarrow> paddingRemoval \<Rightarrow> paddingRemoval \<times> fire list" where
  "pr_read packet h =
     (if \<not> isRtcp (data packet) 0 \<and> pr_enabled h \<and> packet_type packet = VIDEO_PACKET
      then let ssrc = getSSRC (data packet)
        in case getTranslatorForSsrc ssrc True h of
             (None, h) \<Rightarrow> (h, [])
           | (Some t, h) \<Rightarrow>
             (case removePaddingBytes packet t of
                (None, t) \<Rightarrow> (h\<lparr>translator_map := (translator_map h)(ssrc \<mapsto> t)\<rparr>, [])
              | (Some packet, t) \<Rightarrow>
                let (info, t) = snt_get (getSeqNumber (data packet)) False t;
                    h = h\<lparr>translator_map := (translator_map h)(ssrc \<mapsto> t)\<rparr>
                in if sn_type info \<noteq> Valid then (h, [])
                   else (h, [FireRead (packet\<lparr>data := setSeqNumber (sn_output info) (data packet)\<rparr>)]))
      else (h, [FireRead packet]))"

subsection \<open>NACKs\<close>

text \<open>
  The 17 numbers from \<open>pid\<close> on, as far as they translate; \<open>blp\<close> is not looked at. The shift
  \<^verbatim>\<open>1 << distance\<close> is stored in 16 bits; distances of 32 and more, where C leaves the shift
  undefined, leave no bit here.
\<close>

definition nack_inputs :: "translator \<Rightarrow> u16 \<Rightarrow> u16 list" where
  "nack_inputs t pid =
     map (\<lambda>i. sn_input (snt_reverse (pid + of_nat i) t))
       (filter (\<lambda>i. sn_type (snt_reverse (pid + of_nat i) t) = Valid) [0..<17])"

definition nack_blp_of :: "u16 \<Rightarrow> u16 list \<Rightarrow> u16" where
  "nack_blp_of pid ns = fold (\<lambda>n blp. blp OR push_bit (unat (n - pid - 1)) 1) ns 0"

definition translate_nack :: "translator \<Rightarrow> u16 \<Rightarrow> u16 \<Rightarrow> (u16 \<times> u16) option" where
  "translate_nack t pid blp =
     (case nack_inputs t pid of [] \<Rightarrow> None | n # ns \<Rightarrow> Some (n, nack_blp_of n ns))"

definition rewrite_nack :: "translator \<Rightarrow> u16 \<Rightarrow> u16 \<Rightarrow> nat \<Rightarrow> mem \<times> unit \<Rightarrow> mem \<times> unit" where
  "rewrite_nack t pid blp p st =
     (case translate_nack t pid blp of
        None \<Rightarrow> st
      | Some (pid', blp') \<Rightarrow> (setNackBlp p blp' (setNackPid p pid' (fst st)), snd st))"

definition pr_write :: "dataPacket \<Rightarrow> paddingRemoval \<Rightarrow> paddingRemoval \<times> fire list" where
  "pr_write packet h =
     (if \<not> pr_enabled h \<or> packet_type packet \<noteq> VIDEO_PACKET \<or> \<not> isFeedback (data packet) 0
      then (h, [FireWrite packet])
      else case getTranslatorForSsrc (getSourceSSRC (data packet) 0) False h of
             (None, h) \<Rightarrow> (h, [FireWrite packet])
           | (Some t, h) \<Rightarrow>
               (h, [FireWrite (fst (forEachRRBlock (\<lambda>p st.
                      if getPacketType (fst st) p = RTCP_RTP_Feedback_PT
                      then forEachNack (rewrite_nack t) p st else st) packet ()))]))"

subsection \<open>Streams\<close>

definition pure_padding :: "dataPacket \<Rightarrow> bool" where
  "pure_padding packet \<longleftrightarrow> getPaddingLength packet + int (getHeaderLength (data packet)) = packet_length packet"

definition pr_op :: "dataPacket \<Rightarrow> snt_op" where
  "pr_op packet = Packet (getSeqNumber (data packet)) (pure_padding packet)"

fun pr_run :: "dataPacket list \<Rightarrow> paddingRemoval \<Rightarrow> fire list \<times> paddingRemoval" where
  "pr_run [] h = ([], h)"
| "pr_run (p # ps) h = (let (h, fs) = pr_read p h; (gs, h) = pr_run ps h in (fs @ gs, h))"

definition video_of :: "u32 \<Rightarrow> dataPacket \<Rightarrow> bool" where
  "video_of ssrc p \<longleftrightarrow> \<not> isRtcp (data p) 0 \<and> packet_type p = VIDEO_PACKET \<and> getSSRC (data p) = ssrc"

lemma pr_read_video:
  assumes "video_of ssrc p" "pr_enabled h" "translator_map h ssrc = Some t"
  shows "translator_map (fst (pr_read p h)) ssrc = Some (snd (snt_step (pr_op p) t))
    \<and> pr_enabled (fst (pr_read p h))
    \<and> map (\<lambda>f. getSeqNumber (data (fired f))) (snd (pr_read p h))
      = (if \<not> pure_padding p \<and> sn_type (fst (snt_step (pr_op p) t)) = Valid
         then [sn_output (fst (snt_step (pr_op p) t))] else [])"
proof (cases "pure_padding p")
  case True
  then show ?thesis
    using assms by (simp add: pr_read_def video_of_def getTranslatorForSsrc_def removePaddingBytes_def
        pure_padding_def pr_op_def Let_def)
next
  case False
  then show ?thesis
    using assms by (simp add: pr_read_def video_of_def getTranslatorForSsrc_def removePaddingBytes_def
        pure_padding_def pr_op_def Let_def case_prod_beta)
qed

lemma pr_run_Cons:
  "pr_run (p # ps) h = (snd (pr_read p h) @ fst (pr_run ps (fst (pr_read p h))), snd (pr_run ps (fst (pr_read p h))))"
  by (simp add: case_prod_beta Let_def)

declare pr_run.simps(2) [simp del]

lemma sent_pr_op:
  assumes "snt_inv t" "in_window (pr_op p) (counter_of t)"
  shows "sent (fst (snt_step (pr_op p) t))
    \<longleftrightarrow> \<not> pure_padding p \<and> sn_type (fst (snt_step (pr_op p) t)) = Valid"
proof -
  let ?d = "seq_dist (last_input_sequence_number t) (getSeqNumber (data p))"
  have "0 < ?d" "?d < 4096" using assms(2) by (auto simp: pr_op_def counter_of_def)
  then show ?thesis
    using snt_get_ahead_spec(1) [OF assms(1), of "getSeqNumber (data p)" "pure_padding p"]
    by (simp add: pr_op_def sent_def)
qed

lemma pr_run_outputs:
  assumes "list_all (video_of ssrc) ps" "pr_enabled h" "translator_map h ssrc = Some t"
    "snt_inv t" "paced (map pr_op ps) (last_input_sequence_number t) (unat (offset t))"
  shows "map (\<lambda>f. getSeqNumber (data (fired f))) (fst (pr_run ps h))
    = map sn_output (filter sent (fst (snt_run (map pr_op ps) t)))"
  using assms
proof (induction ps arbitrary: h t)
  case (Cons p ps)
  let ?h = "fst (pr_read p h)" and ?t = "snd (snt_step (pr_op p) t)"
  have v: "video_of ssrc p" using Cons.prems(1) by simp
  note r = pr_read_video [OF v Cons.prems(2,3)]
  have pc: "paced (pr_op p # map pr_op ps) (last_input_sequence_number t) (unat (offset t))"
    using Cons.prems(5) by simp
  note n = paced_next [OF Cons.prems(4) pc]
  have w: "in_window (pr_op p) (counter_of t)"
    using pc paced_in_window [of "pr_op p" "map pr_op ps" "counter_of t"] by (simp add: counter_of_def)
  have "map (\<lambda>f. getSeqNumber (data (fired f))) (fst (pr_run ps ?h))
      = map sn_output (filter sent (fst (snt_run (map pr_op ps) ?t)))"
    by (rule Cons.IH) (use Cons.prems(1) r n in simp_all)
  then show ?case
    using r sent_pr_op [OF Cons.prems(4) w] by (simp add: pr_run_Cons snt_run_Cons)
qed simp

lemma pr_op_uses_number: "uses_number (pr_op p) \<longleftrightarrow> \<not> pure_padding p"
  by (simp add: pr_op_def)

lemma nack_blp_of_bits:
  assumes "\<forall>n \<in> set ns. unat (n - pid - 1) < 16"
  shows "set (map (\<lambda>k. pid + 1 + of_nat k) (filter (bit (nack_blp_of pid ns)) [0..<16])) = set ns"
proof -
  have f: "bit (fold (\<lambda>n blp. blp OR push_bit (unat (n - pid - 1)) 1) ns b) k
      \<longleftrightarrow> bit b k \<or> (\<exists>n \<in> set ns. unat (n - pid - 1) = k \<and> k < 16)" for b :: u16 and k
    by (induction ns arbitrary: b) (auto simp only: fold.simps comp_apply id_apply bit_mark list.set)
  have g: "bit (nack_blp_of pid ns) k \<longleftrightarrow> (\<exists>n \<in> set ns. unat (n - pid - 1) = k \<and> k < 16)" for k
    unfolding nack_blp_of_def f by simp
  have e: "pid + 1 + of_nat (unat (n - pid - 1)) = n" for n by simp
  show ?thesis
  proof (intro equalityI subsetI)
    fix x assume "x \<in> set (map (\<lambda>k. pid + 1 + of_nat k) (filter (bit (nack_blp_of pid ns)) [0..<16]))"
    then obtain k n where "n \<in> set ns" "unat (n - pid - 1) = k" "x = pid + 1 + of_nat k" by (auto simp: g)
    then show "x \<in> set ns" using e [of n] by simp
  next
    fix n assume "n \<in> set ns"
    then have "unat (n - pid - 1) < 16" "bit (nack_blp_of pid ns) (unat (n - pid - 1))"
      using assms by (auto simp: g)
    then show "n \<in> set (map (\<lambda>k. pid + 1 + of_nat k) (filter (bit (nack_blp_of pid ns)) [0..<16]))"
      using e [of n] by (auto intro!: image_eqI [of _ _ "unat (n - pid - 1)"])
  qed
qed

subsection \<open>The properties\<close>

text \<open>
  The packets of a stream that are passed on are numbered consecutively, whichever of the
  packets were nothing but padding and were dropped, however long the stream is.
\<close>
theorem padding_removal_leaves_no_gap:
  assumes "list_all (video_of ssrc) ps" "pr_enabled h" "translator_map h ssrc = Some t"
    "snt_inv t" "paced (map pr_op ps) (last_input_sequence_number t) (unat (offset t))"
  shows "map (\<lambda>f. getSeqNumber (data (fired f))) (fst (pr_run ps h))
    = map (\<lambda>k. last_output_sequence_number t + offset t + 1 + of_nat k)
        [0..<length (filter (\<lambda>p. \<not> pure_padding p) ps)]"
proof -
  have "length (filter uses_number (map pr_op ps)) = length (filter (\<lambda>p. \<not> pure_padding p) ps)"
    by (induction ps) (simp_all add: pr_op_uses_number)
  then show ?thesis
    using pr_run_outputs [OF assms] no_gaps [OF assms(4,5)] by simp
qed

theorem padding_removal_leaves_no_gap_witness:
  "map (\<lambda>f. getSeqNumber (data (fired f))) (fst (pr_run [sample_packet 11 7, (sample_packet 12 7)\<lparr>packet_length := 50\<rparr>]
     (new_RtpPaddingRemovalHandler\<lparr>translator_map := [7 \<mapsto> snd (snt_get 10 False new_translator)]\<rparr>))) = [11]"
proof -
  let ?t = "snd (snt_get 10 False new_translator)"
  let ?ps = "[sample_packet 11 7, (sample_packet 12 7)\<lparr>packet_length := 50\<rparr>]"
  let ?h = "new_RtpPaddingRemovalHandler\<lparr>translator_map := [7 \<mapsto> ?t]\<rparr>"
  have b: "data (sample_packet n 7) 0 = 0" "data (sample_packet n 7) 1 = 0" for n
    by (simp_all add: sample_packet_def zero_mem_def setSSRC_def setSeqNumber_def store16_def store32_def)
  have h: "pure_padding (sample_packet n 7)" "\<not> pure_padding (sample_packet n 7 \<lparr>packet_length := 50\<rparr>)"
      "\<not> isRtcp (data (sample_packet n 7)) 0" for n
    using b [of n] by (simp_all add: pure_padding_def getPaddingLength_def hasPadding_def getHeaderLength_def
        rtp_MIN_SIZE_def isRtcp_def getPacketType_def getCc_def getExtension_def get_bits_def)
  have v: "list_all (video_of 7) ?ps" by (simp add: video_of_def h)
  have "paced (map pr_op ?ps) (last_input_sequence_number ?t) (unat (offset ?t))"
    by (simp add: pr_op_def first_packet h)
  from padding_removal_leaves_no_gap [OF v _ _ first_packet(4) this, of ?h]
  show ?thesis by (simp add: new_RtpPaddingRemovalHandler_def h first_packet)
qed

text \<open>
  When the sender's numbers lie within 16 of the first one, the translated NACK asks for
  exactly the packets of the sender that the 17 numbers from the PID on stand for.
\<close>
theorem translated_nack_requests:
  assumes "nack_inputs t pid = n # ns" "\<forall>m \<in> set ns. unat (m - n - 1) < 16"
    "translate_nack t pid blp = Some (pid', blp')"
  shows "insert pid' (set (map (\<lambda>k. pid' + 1 + of_nat k) (filter (bit blp') [0..<16])))
    = set (nack_inputs t pid)"
proof -
  have "pid' = n" "blp' = nack_blp_of n ns" using assms(1,3) by (auto simp: translate_nack_def)
  then show ?thesis using nack_blp_of_bits [OF assms(2)] assms(1) by simp
qed

theorem translated_nack_requests_witness:
  "insert 10 (set (map (\<lambda>k. 10 + 1 + of_nat k) (filter (bit (0 :: u16)) [0..<16])))
    = set (nack_inputs (snd (snt_get 10 False new_translator)) 10)"
proof -
  let ?t = "snd (snt_get 10 False new_translator)"
  have i: "nack_inputs ?t 10 = 10 # []" by code_simp
  then have "translate_nack ?t 10 0 = Some (10, 0)" by (simp add: translate_nack_def nack_blp_of_def)
  from translated_nack_requests [OF i _ this] show ?thesis by simp
qed

text \<open>
  The BLP of the NACK is ignored: with packets 10 to 14 in the stream and 12 dropped as
  padding, a request for the one packet 10 turns into a request for all four.
\<close>
lemma nack_translation_requests_too_much:
  "translate_nack (snd (snt_run [Packet 11 False, Packet 12 True, Packet 13 False, Packet 14 False]
      (snd (snt_get 10 False new_translator)))) 10 0 = Some (10, 0xD)"
  by code_simp

end
