(* ===== verification/RtpTrackMute.thy ===== *)
theory RtpTrackMute
  imports RtpUtils
begin

text \<open>
  \<^verbatim>\<open>RtpTrackMuteHandler\<close>: outgoing packets of a muted track are dropped, and after unmuting the
  sequence numbers go on without a gap; feedback is shifted back by the same offset. The arguments
  \<open>sink\<close> and \<open>video_source\<close> are what the connection answers for its SSRCs.
\<close>

record trackMuteInfo =
  tm_label :: string
  last_original_seq_num :: int
  seq_num_offset :: u16
  last_sent_seq_num :: u16
  mute_is_active :: bool

definition new_TrackMuteInfo :: "string \<Rightarrow> trackMuteInfo" where
  "new_TrackMuteInfo label = \<lparr>tm_label = label, last_original_seq_num = -1, seq_num_offset = 0,
     last_sent_seq_num = 0, mute_is_active = False\<rparr>"

record trackMute =
  audio_info :: trackMuteInfo
  video_info :: trackMuteInfo

definition new_RtpTrackMuteHandler :: trackMute where
  "new_RtpTrackMuteHandler = \<lparr>audio_info = new_TrackMuteInfo ''audio'', video_info = new_TrackMuteInfo ''video''\<rparr>"

definition muteTrack :: "u64 \<Rightarrow> mediaSink \<Rightarrow> u32 \<Rightarrow> bool \<Rightarrow> trackMuteInfo \<Rightarrow> trackMuteInfo \<times> fire list" where
  "muteTrack now sink video_source active info =
     (if mute_is_active info = active then (info, [])
      else let info = info\<lparr>mute_is_active := active\<rparr>
        in if \<not> mute_is_active info
           then (info\<lparr>seq_num_offset := word_of_int (last_original_seq_num info) - last_sent_seq_num info\<rparr>, [])
           else (info, if tm_label info = ''video''
                       then [FireRead (createPLI now (video_sink_ssrc sink) video_source)] else []))"

definition muteAudio :: "u64 \<Rightarrow> mediaSink \<Rightarrow> u32 \<Rightarrow> bool \<Rightarrow> trackMute \<Rightarrow> trackMute \<times> fire list" where
  "muteAudio now sink video_source active h =
     (let (i, fs) = muteTrack now sink video_source active (audio_info h) in (h\<lparr>audio_info := i\<rparr>, fs))"

definition muteVideo :: "u64 \<Rightarrow> mediaSink \<Rightarrow> u32 \<Rightarrow> bool \<Rightarrow> trackMute \<Rightarrow> trackMute \<times> fire list" where
  "muteVideo now sink video_source active h =
     (let (i, fs) = muteTrack now sink video_source active (video_info h) in (h\<lparr>video_info := i\<rparr>, fs))"

definition mute_notifyUpdate ::
  "u64 \<Rightarrow> mediaSink \<Rightarrow> u32 \<Rightarrow> bool \<Rightarrow> bool \<Rightarrow> trackMute \<Rightarrow> trackMute \<times> fire list" where
  "mute_notifyUpdate now sink video_source audio_muted video_muted h =
     (let (h, fs) = muteAudio now sink video_source audio_muted h;
          (h, gs) = muteVideo now sink video_source video_muted h
      in (h, fs @ gs))"

subsection \<open>Outgoing packets\<close>

definition setPacketSeqNumber :: "dataPacket \<Rightarrow> u16 \<Rightarrow> dataPacket" where
  "setPacketSeqNumber packet seq_number =
     (if isRtcp (data packet) 0 then packet else packet\<lparr>data := setSeqNumber seq_number (data packet)\<rparr>)"

definition mute_handlePacket :: "dataPacket \<Rightarrow> trackMuteInfo \<Rightarrow> trackMuteInfo \<times> fire list" where
  "mute_handlePacket packet info =
     (let offset = seq_num_offset info;
          info = info\<lparr>last_original_seq_num := uint (getSeqNumber (data packet))\<rparr>
      in if \<not> mute_is_active info
         then let info = info\<lparr>last_sent_seq_num := word_of_int (last_original_seq_num info) - offset\<rparr>;
                  packet = (if offset > 0 then setPacketSeqNumber packet (last_sent_seq_num info) else packet)
              in (info, [FireWrite packet])
         else (info, []))"

definition mute_write :: "dataPacket \<Rightarrow> trackMute \<Rightarrow> trackMute \<times> fire list" where
  "mute_write packet h =
     (if isRtcp (data packet) 0 then (h, [FireWrite packet])
      else if packet_type packet = AUDIO_PACKET
      then let (i, fs) = mute_handlePacket packet (audio_info h) in (h\<lparr>audio_info := i\<rparr>, fs)
      else if packet_type packet = VIDEO_PACKET
      then let (i, fs) = mute_handlePacket packet (video_info h) in (h\<lparr>video_info := i\<rparr>, fs)
      else (h, [FireWrite packet]))"

subsection \<open>Feedback\<close>

text \<open>One block. The comparison is one of C integers: both operands are promoted before the sum.\<close>

definition shift_block :: "u16 \<Rightarrow> nat \<Rightarrow> mem \<times> unit \<Rightarrow> mem \<times> unit" where
  "shift_block offset p st =
     (let m = fst st
      in if getPacketType m p = RTCP_Receiver_PT
         then let m = (if int (unat (getHighestSeqnum m p)) + int (unat offset) < int (unat (getHighestSeqnum m p))
                       then setSeqnumCycles p (getSeqnumCycles m p + 1) m else m)
              in (setHighestSeqnum p (getHighestSeqnum m p + offset) m, snd st)
         else if getPacketType m p = RTCP_RTP_Feedback_PT
         then (setNackPid p (getNackPid m p + offset) m, snd st)
         else st)"

definition mute_handleFeedback :: "trackMuteInfo \<Rightarrow> dataPacket \<Rightarrow> dataPacket" where
  "mute_handleFeedback info packet =
     (let offset = seq_num_offset info
      in if offset > 0
         then packet\<lparr>data := fst (rr_blocks (shift_block offset) (packet_length packet) 0 (data packet, ()))\<rparr>
         else packet)"

definition mute_read :: "mediaSink \<Rightarrow> dataPacket \<Rightarrow> trackMute \<Rightarrow> trackMute \<times> fire list" where
  "mute_read sink packet h =
     (let ssrc = getSourceSSRC (data packet) 0;
          packet = (if audio_sink_ssrc sink = ssrc then mute_handleFeedback (audio_info h) packet
                    else if video_sink_ssrc sink = ssrc then mute_handleFeedback (video_info h) packet
                    else packet)
      in (h, [FireRead packet]))"

subsection \<open>Numbering\<close>

text \<open>What happens to one track: a packet goes through, or the track is muted or unmuted.\<close>

datatype mute_event = Send dataPacket | Mute bool

definition track_event :: "mute_event \<Rightarrow> trackMuteInfo \<Rightarrow> trackMuteInfo \<times> fire list" where
  "track_event e info =
     (case e of Send packet \<Rightarrow> mute_handlePacket packet info | Mute active \<Rightarrow> muteTrack 0 new_mediaSink 0 active info)"

fun track_run :: "mute_event list \<Rightarrow> trackMuteInfo \<Rightarrow> fire list \<times> trackMuteInfo" where
  "track_run [] info = ([], info)"
| "track_run (e # es) info =
     (let (info, fs) = track_event e info; (gs, info) = track_run es info in (fs @ gs, info))"

text \<open>
  The invariant: once a packet was sent, the last number sent is the original one less the
  offset, unless packets were dropped since.
\<close>

definition track_inv :: "trackMuteInfo \<Rightarrow> bool" where
  "track_inv info \<longleftrightarrow> (\<not> mute_is_active info \<longrightarrow>
     last_sent_seq_num info = word_of_int (last_original_seq_num info) - seq_num_offset info)"

fun sends :: "mute_event list \<Rightarrow> u16 \<Rightarrow> bool" where
  "sends [] n \<longleftrightarrow> True"
| "sends (Send packet # es) n \<longleftrightarrow> \<not> isRtcp (data packet) 0 \<and> getSeqNumber (data packet) = n + 1 \<and> sends es (n + 1)"
| "sends (Mute active # es) n \<longleftrightarrow> sends es n"

lemma setPacketSeqNumber_seq [simp]:
  "\<not> isRtcp (data packet) 0 \<Longrightarrow> getSeqNumber (data (setPacketSeqNumber packet n)) = n"
  by (simp add: setPacketSeqNumber_def)

text \<open>The numbers of the packets written.\<close>

fun track_numbers :: "fire list \<Rightarrow> u16 list" where
  "track_numbers [] = []"
| "track_numbers (FireWrite p # fs) = getSeqNumber (data p) # track_numbers fs"
| "track_numbers (FireRead p # fs) = track_numbers fs"

lemma track_numbers_append [simp]: "track_numbers (fs @ gs) = track_numbers fs @ track_numbers gs"
  by (induction fs rule: track_numbers.induct) auto

lemma track_send:
  assumes "track_inv info" "last_original_seq_num info = uint n" "\<not> isRtcp (data packet) 0"
    "getSeqNumber (data packet) = n + 1"
  shows "last_original_seq_num (fst (track_event (Send packet) info)) = uint (n + 1)
    \<and> track_inv (fst (track_event (Send packet) info))
    \<and> (if mute_is_active info
       then track_numbers (snd (track_event (Send packet) info)) = []
         \<and> last_sent_seq_num (fst (track_event (Send packet) info)) = last_sent_seq_num info
       else track_numbers (snd (track_event (Send packet) info)) = [last_sent_seq_num info + 1]
         \<and> last_sent_seq_num (fst (track_event (Send packet) info)) = last_sent_seq_num info + 1)"
  using assms by (auto simp: track_event_def mute_handlePacket_def track_inv_def Let_def word_gt_0)

lemma track_mute:
  assumes "track_inv info" "last_original_seq_num info = uint n"
  shows "last_original_seq_num (fst (track_event (Mute active) info)) = uint n
    \<and> track_inv (fst (track_event (Mute active) info))
    \<and> track_numbers (snd (track_event (Mute active) info)) = []
    \<and> last_sent_seq_num (fst (track_event (Mute active) info)) = last_sent_seq_num info"
  using assms by (auto simp: track_event_def muteTrack_def track_inv_def Let_def)

lemma track_run_Cons:
  "track_run (e # es) info = (snd (track_event e info) @ fst (track_run es (fst (track_event e info))),
     snd (track_run es (fst (track_event e info))))"
  by (simp add: case_prod_beta Let_def)

declare track_run.simps(2) [simp del]

lemma track_run_written:
  assumes "track_inv info" "last_original_seq_num info = uint n" "sends es n"
  shows "consecutive_from (last_sent_seq_num info + 1) (track_numbers (fst (track_run es info)))
    \<and> track_inv (snd (track_run es info))"
  using assms
proof (induction es n arbitrary: info rule: sends.induct)
  case (2 packet es n)
  note t = track_send [OF "2.prems"(1,2), of packet]
  let ?i = "fst (track_event (Send packet) info)"
  have IH: "consecutive_from (last_sent_seq_num ?i + 1) (track_numbers (fst (track_run es ?i)))
      \<and> track_inv (snd (track_run es ?i))"
    by (rule "2.IH") (use t "2.prems"(3) in simp_all)
  then show ?case using t "2.prems"(3) by (simp add: track_run_Cons split: if_splits)
next
  case (3 active es n)
  let ?i = "fst (track_event (Mute active) info)"
  note t = track_mute [OF "3.prems"(1,2), of active]
  have "consecutive_from (last_sent_seq_num ?i + 1) (track_numbers (fst (track_run es ?i)))
      \<and> track_inv (snd (track_run es ?i))"
    by (rule "3.IH") (use t "3.prems"(3) in simp_all)
  with t show ?case by (simp add: track_run_Cons)
qed simp

lemma shift_block_cycles: "getSeqnumCycles (fst (shift_block offset p st)) p = getSeqnumCycles (fst st) p"
proof -
  have "getSeqnumCycles (setNackPid p v m) p = getSeqnumCycles m p" for v m
    by (simp add: getSeqnumCycles_def setNackPid_def load16_def store_other)
  then show ?thesis by (simp add: shift_block_def Let_def del: of_nat_unat)
qed

subsection \<open>The properties\<close>

text \<open>
  However often a track is muted and unmuted while its packets come in consecutively, the
  packets that go out are consecutive too, from the last number sent on.
\<close>
theorem mute_leaves_no_gap:
  assumes "track_inv info" "last_original_seq_num info = uint n" "sends es n"
  shows "consecutive_from (last_sent_seq_num info + 1) (track_numbers (fst (track_run es info)))"
  using track_run_written [OF assms] by blast

theorem mute_leaves_no_gap_witness:
  "track_numbers (fst (track_run [Mute True, Send (sample_packet 11 7), Mute False, Send (sample_packet 12 7)]
     \<lparr>tm_label = ''audio'', last_original_seq_num = 10, seq_num_offset = 0, last_sent_seq_num = 10,
      mute_is_active = False\<rparr>)) = [11]"
proof -
  let ?es = "[Mute True, Send (sample_packet 11 7), Mute False, Send (sample_packet 12 7)]"
  let ?i = "\<lparr>tm_label = ''audio'', last_original_seq_num = 10, seq_num_offset = 0, last_sent_seq_num = 10,
      mute_is_active = False\<rparr>"
  have b: "data (sample_packet n 7) 1 = 0" for n
    by (simp add: sample_packet_def zero_mem_def setSSRC_def setSeqNumber_def store16_def store32_def)
  have s: "sends ?es 10" using b by (simp add: isRtcp_def getPacketType_def)
  have "length (track_numbers (fst (track_run ?es ?i))) = 1"
    by (simp add: track_run_Cons track_event_def muteTrack_def mute_handlePacket_def Let_def setPacketSeqNumber_def)
  then obtain x where x: "track_numbers (fst (track_run ?es ?i)) = [x]"
    by (cases "track_numbers (fst (track_run ?es ?i))") auto
  have "consecutive_from 11 (track_numbers (fst (track_run ?es ?i)))"
    using mute_leaves_no_gap [OF _ _ s, of ?i] by (simp add: track_inv_def)
  then show ?thesis unfolding x by simp
qed

text \<open>
  Feedback is shifted back: a receiver report for the last number that went out is passed on
  as a report for the last number that came in.
\<close>
theorem mute_feedback_restores_number:
  assumes "track_inv info" "\<not> mute_is_active info" "getPacketType (data packet) 0 = RTCP_Receiver_PT"
    "packet_length packet \<le> int ((unat (rtcp_getLength (data packet) 0) + 1) * 4)"
    "getHighestSeqnum (data packet) 0 = last_sent_seq_num info"
  shows "getHighestSeqnum (data (mute_handleFeedback info packet)) 0 = word_of_int (last_original_seq_num info)"
proof (cases "seq_num_offset info > 0")
  case True
  have "rr_blocks (shift_block (seq_num_offset info)) (packet_length packet) 0 (data packet, ())
      = shift_block (seq_num_offset info) 0 (data packet, ())"
    by (rule rr_blocks_single) (use assms(4) in \<open>simp add: rtcp_getLength_def del: of_nat_unat\<close>)
  then show ?thesis
    using assms(1,2,3,5) True
    by (simp add: mute_handleFeedback_def shift_block_def track_inv_def Let_def del: of_nat_unat)
next
  case False
  then show ?thesis
    using assms(1,2,5) by (simp add: mute_handleFeedback_def track_inv_def Let_def word_gt_0)
qed

theorem mute_feedback_restores_number_witness:
  "\<exists>info packet. word_of_int (last_original_seq_num info) = (12 :: u16)
     \<and> getHighestSeqnum (data packet) 0 = 10
     \<and> getHighestSeqnum (data (mute_handleFeedback info packet)) 0 = 12"
proof -
  let ?i = "\<lparr>tm_label = ''audio'', last_original_seq_num = 12, seq_num_offset = 2, last_sent_seq_num = 10,
    mute_is_active = False\<rparr>"
  let ?p = "(sample_packet 0 0)\<lparr>packet_length := 4, data := setHighestSeqnum 0 10 (setPacketType 0 RTCP_Receiver_PT zero_mem)\<rparr>"
  have p: "getPacketType (data ?p) 0 = RTCP_Receiver_PT"
    by (simp add: getPacketType_def setPacketType_def setHighestSeqnum_def store16_def store8_def)
  have "getHighestSeqnum (data (mute_handleFeedback ?i ?p)) 0 = word_of_int (last_original_seq_num ?i)"
    by (rule mute_feedback_restores_number) (use p in \<open>simp_all add: track_inv_def\<close>)
  then show ?thesis by (intro exI [of _ ?i] exI [of _ ?p]) simp
qed

text \<open>
  The carry into the cycle count never happens: the code compares the sum with its first
  term as C integers, so a report whose highest number wraps by the shift keeps its cycles.
\<close>
lemma mute_feedback_never_carries:
  "getSeqnumCycles (fst (shift_block offset p (m, ()))) p = getSeqnumCycles m p"
  using shift_block_cycles [of offset p "(m, ())"] by simp

end
