(* ===== verification/PacketBuffer.thy ===== *)
theory PacketBuffer
  imports RtpUtils
begin

text \<open>
  \<^verbatim>\<open>PacketBufferService\<close>: the last packets sent, in two rings of 256 indexed by sequence number.
  What its users rely on is the interface \<open>packet_ring\<close>: a lookup returns the last packet
  inserted at the index of its number, so a packet found with the number asked for is one that
  was inserted, and it is found as long as no other packet took its place.
\<close>

definition kServicePacketBufferSize :: nat where
  "kServicePacketBufferSize = 256"

record packetBuffer =
  pb_audio :: "nat \<Rightarrow> dataPacket option"
  pb_video :: "nat \<Rightarrow> dataPacket option"

definition new_PacketBufferService :: packetBuffer where
  "new_PacketBufferService = \<lparr>pb_audio = Map.empty, pb_video = Map.empty\<rparr>"

definition getIndexInBuffer :: "u16 \<Rightarrow> nat" where
  "getIndexInBuffer seq_num = unat seq_num mod kServicePacketBufferSize"

definition insertPacket :: "dataPacket \<Rightarrow> packetBuffer \<Rightarrow> packetBuffer" where
  "insertPacket packet b =
     (let i = getIndexInBuffer (getSeqNumber (data packet))
      in case packet_type packet of
           VIDEO_PACKET \<Rightarrow> b\<lparr>pb_video := (pb_video b)(i \<mapsto> packet)\<rparr>
         | AUDIO_PACKET \<Rightarrow> b\<lparr>pb_audio := (pb_audio b)(i \<mapsto> packet)\<rparr>
         | OTHER_PACKET \<Rightarrow> b)"

definition getVideoPacket :: "packetBuffer \<Rightarrow> u16 \<Rightarrow> dataPacket option" where
  "getVideoPacket b seq_num = pb_video b (getIndexInBuffer seq_num)"

definition getAudioPacket :: "packetBuffer \<Rightarrow> u16 \<Rightarrow> dataPacket option" where
  "getAudioPacket b seq_num = pb_audio b (getIndexInBuffer seq_num)"

subsection \<open>The interface\<close>

locale packet_ring =
  fixes insert :: "dataPacket \<Rightarrow> 's \<Rightarrow> 's" and lookup :: "'s \<Rightarrow> u16 \<Rightarrow> dataPacket option"
    and empty :: 's and kind :: packetType and index :: "u16 \<Rightarrow> nat"
  assumes lookup_empty: "lookup empty n = None"
    and lookup_insert: "lookup (insert p s) n =
      (if packet_type p = kind \<and> index (getSeqNumber (data p)) = index n then Some p else lookup s n)"
begin

lemma lookup_inserted:
  "lookup (fold insert ps s) n = Some p \<Longrightarrow> lookup s n = None \<Longrightarrow> p \<in> set ps \<and> packet_type p = kind"
proof (induction ps arbitrary: s)
  case (Cons q ps)
  show ?case
  proof (cases "lookup (insert q s) n")
    case None
    then show ?thesis using Cons.IH [of "insert q s"] Cons.prems(1) by auto
  next
    case (Some r)
    have "lookup (fold insert ps (insert q s)) n = Some p \<longrightarrow>
        p \<in> set ps \<and> packet_type p = kind \<or> lookup (insert q s) n = Some p" for s
      by (induction ps rule: rev_induct) (auto simp: lookup_insert)
    then show ?thesis
      using Cons.prems Some by (auto simp: lookup_insert split: if_splits)
  qed
qed simp

lemma lookup_kept:
  assumes "\<And>q. q \<in> set ps \<Longrightarrow> packet_type q = kind \<Longrightarrow>
      index (getSeqNumber (data q)) \<noteq> index (getSeqNumber (data p))"
    "packet_type p = kind"
  shows "lookup (fold insert ps (insert p s)) (getSeqNumber (data p)) = Some p"
proof -
  have "lookup (fold insert ps s') (getSeqNumber (data p)) = lookup s' (getSeqNumber (data p))" for s'
    using assms(1) by (induction ps arbitrary: s') (auto simp: lookup_insert)
  then show ?thesis using assms(2) by (simp add: lookup_insert)
qed

end

interpretation video_ring: packet_ring insertPacket getVideoPacket new_PacketBufferService VIDEO_PACKET getIndexInBuffer
  by unfold_locales (auto simp: getVideoPacket_def insertPacket_def new_PacketBufferService_def Let_def
      split: packetType.splits)

interpretation audio_ring: packet_ring insertPacket getAudioPacket new_PacketBufferService AUDIO_PACKET getIndexInBuffer
  by unfold_locales (auto simp: getAudioPacket_def insertPacket_def new_PacketBufferService_def Let_def
      split: packetType.splits)

lemma getIndexInBuffer_close:
  assumes "0 < d" "d < 256"
  shows "getIndexInBuffer (n + of_nat d) \<noteq> getIndexInBuffer n"
proof -
  have "unat (n + of_nat d) mod 256 = (unat n + d) mod 256"
    using assms by (simp add: unat_add_u16 unat_of_nat mod_mod_cancel)
  moreover have "(unat n + d) mod 256 \<noteq> (unat n + 0) mod 256"
    using assms mod_add_inj [of "unat n" d 256 0] by auto
  ultimately show ?thesis by (simp add: getIndexInBuffer_def kServicePacketBufferSize_def)
qed

end
