(* ===== verification/TokenBucket.thy ===== *)
theory TokenBucket
  imports Prelude
begin

text \<open>
  \<^verbatim>\<open>TokenBucket\<close>: a rate limiter that keeps one number, the time up to which the tokens are
  spent. Times are microseconds. A bucket belongs to one handler and is used by the thread of its
  connection, so no other thread stores a time; but \<^verbatim>\<open>compare_exchange_weak\<close> may fail spuriously.
  The outcomes of the exchanges to come are part of the state: \<open>False\<close> is a failure, and every
  exchange after the end of the list succeeds.
\<close>

record tokenBucket =
  tb_time :: u64
  time_per_token :: u64
  time_per_burst :: u64
  tb_exchanges :: "bool list"

definition empty_TokenBucket :: tokenBucket where
  "empty_TokenBucket = \<lparr>tb_time = 0, time_per_token = 0, time_per_burst = 0, tb_exchanges = []\<rparr>"

definition new_TokenBucket :: "bool list \<Rightarrow> u64 \<Rightarrow> u64 \<Rightarrow> tokenBucket" where
  "new_TokenBucket exchanges rate burst_size =
     (let per_token = 1000000 div max rate 1
      in \<lparr>tb_time = 0, time_per_token = per_token, time_per_burst = burst_size * per_token, tb_exchanges = exchanges\<rparr>)"

text \<open>Assignment copies the rates and keeps the time of the bucket assigned to.\<close>

definition tb_assign :: "tokenBucket \<Rightarrow> tokenBucket \<Rightarrow> tokenBucket" where
  "tb_assign other b = b\<lparr>time_per_token := time_per_token other, time_per_burst := time_per_burst other\<rparr>"

definition tb_reset :: "u64 \<Rightarrow> u64 \<Rightarrow> tokenBucket \<Rightarrow> tokenBucket" where
  "tb_reset rate burst_size b =
     (let b = b\<lparr>time_per_token := 1000000 div max rate 1\<rparr>;
          b = b\<lparr>time_per_burst := burst_size * time_per_token b\<rparr>
      in b\<lparr>tb_time := 0\<rparr>)"

text \<open>
  The loop of \<^verbatim>\<open>consume\<close>: whether tokens were granted, the time then stored, and the outcomes
  that are left. A failed exchange reads the stored time again.
\<close>

fun consume_loop :: "u64 \<Rightarrow> u64 \<Rightarrow> u64 \<Rightarrow> u64 \<Rightarrow> bool list \<Rightarrow> bool \<times> u64 \<times> bool list" where
  "consume_loop now time_needed old_time new_time outcomes =
     (let new_time = new_time + time_needed
      in if new_time > now then (False, old_time, outcomes)
         else case outcomes of
             [] \<Rightarrow> (True, new_time, [])
           | True # outcomes \<Rightarrow> (True, new_time, outcomes)
           | False # outcomes \<Rightarrow> consume_loop now time_needed old_time old_time outcomes)"

declare consume_loop.simps [simp del]

definition start_time :: "u64 \<Rightarrow> tokenBucket \<Rightarrow> u64" where
  "start_time now b = (let min_time = now - time_per_burst b; old_time = tb_time b
     in if min_time > old_time then min_time else old_time)"

definition tb_consume :: "u64 \<Rightarrow> u64 \<Rightarrow> tokenBucket \<Rightarrow> bool \<times> tokenBucket" where
  "tb_consume now tokens b =
     (let time_needed = tokens * time_per_token b;
          (granted, t, outcomes) = consume_loop now time_needed (tb_time b) (start_time now b) (tb_exchanges b)
      in (granted, b\<lparr>tb_time := t, tb_exchanges := outcomes\<rparr>))"

subsection \<open>Grants over time\<close>

fun tb_run :: "(u64 \<times> u64) list \<Rightarrow> tokenBucket \<Rightarrow> nat \<times> tokenBucket" where
  "tb_run [] b = (0, b)"
| "tb_run ((now, tokens) # calls) b =
     (let (granted, b) = tb_consume now tokens b; (n, b) = tb_run calls b
      in ((if granted then unat tokens else 0) + n, b))"

text \<open>The clock runs forward, from at least a burst after its start, and nothing overflows.\<close>

fun calls_ok :: "nat \<Rightarrow> nat \<Rightarrow> nat \<Rightarrow> (u64 \<times> u64) list \<Rightarrow> bool" where
  "calls_ok t tp burst [] \<longleftrightarrow> True"
| "calls_ok t tp burst ((now, tokens) # calls) \<longleftrightarrow>
     t \<le> unat now \<and> burst \<le> unat now \<and> unat now + unat tokens * tp < 2 ^ 64
     \<and> calls_ok (unat now) tp burst calls"

lemma consume_loop_bound:
  assumes "consume_loop now need old new outs = (g, t, outs')"
    "unat now + unat need < 2 ^ 64" "unat old \<le> unat new" "unat new \<le> unat now"
  shows "(if g then unat old + unat need \<le> unat t \<and> unat t \<le> unat now else t = old)
    \<and> (False \<notin> set outs \<longrightarrow> False \<notin> set outs' \<and> (if g then unat t = unat new + unat need else True))"
  using assms
proof (induction now need old new outs rule: consume_loop.induct)
  case (1 now need old new outs)
  have u: "unat (new + need) = unat new + unat need"
    using 1(3,5) by (subst unat_word_ariths) (simp del: unat_u64_less)
  show ?case
  proof (cases "new + need > now")
    case True
    then show ?thesis using 1(2) by (auto simp: consume_loop.simps)
  next
    case False
    note f = False
    show ?thesis
    proof (cases outs)
      case Nil
      then show ?thesis using 1(2-5) f u by (auto simp: consume_loop.simps word_less_nat_alt)
    next
      case (Cons o1 os)
      show ?thesis
      proof (cases o1)
        case True
        then show ?thesis using 1(2-5) f u Cons by (auto simp: consume_loop.simps word_less_nat_alt)
      next
        case False
        then have "consume_loop now need old old os = (g, t, outs')"
          using 1(2) f Cons by (subst (asm) consume_loop.simps) simp
        then show ?thesis
          using 1(1) [OF refl f Cons _ _ 1(3)] 1(4,5) False Cons by auto
      qed
    qed
  qed
qed

lemma tb_consume_bound:
  assumes "unat (time_per_burst b) \<le> unat now" "unat now + unat tokens * unat (time_per_token b) < 2 ^ 64"
    "unat (tb_time b) \<le> unat now" "tb_consume now tokens b = (g, b')"
  defines "st \<equiv> max (unat (tb_time b)) (unat now - unat (time_per_burst b))"
  shows "(if g then unat (tb_time b) + unat tokens * unat (time_per_token b) \<le> unat (tb_time b')
      \<and> unat (tb_time b') \<le> unat now else tb_time b' = tb_time b)
    \<and> time_per_token b' = time_per_token b \<and> time_per_burst b' = time_per_burst b
    \<and> (False \<notin> set (tb_exchanges b) \<longrightarrow> False \<notin> set (tb_exchanges b')
        \<and> (if g then unat (tb_time b') = st + unat tokens * unat (time_per_token b) else True))"
proof -
  have s: "unat (start_time now b) = st"
    using assms(1) by (simp add: start_time_def st_def Let_def unat_sub word_le_nat_alt word_less_nat_alt max_def)
  have p: "unat (tokens * time_per_token b) = unat tokens * unat (time_per_token b)"
    using assms(2) by (simp add: unat_word_ariths)
  obtain t os where l: "consume_loop now (tokens * time_per_token b) (tb_time b) (start_time now b) (tb_exchanges b) = (g, t, os)"
    "b' = b\<lparr>tb_time := t, tb_exchanges := os\<rparr>"
    using assms(4) by (auto simp: tb_consume_def Let_def split: prod.splits)
  show ?thesis
    using consume_loop_bound [OF l(1)] assms(2,3) s p by (auto simp: l(2) st_def)
qed

lemma calls_ok_order:
  "calls_ok t tp bu calls \<Longrightarrow> calls = [] \<or> t \<le> unat (fst (hd calls)) \<and> unat (fst (hd calls)) \<le> unat (fst (last calls))"
  by (induction t tp bu calls rule: calls_ok.induct) fastforce+

lemma tb_run_bound:
  assumes "calls_ok t (unat (time_per_token b)) (unat (time_per_burst b)) calls" "unat (tb_time b) \<le> t"
    "calls \<noteq> []"
  shows "fst (tb_run calls b) * unat (time_per_token b) + unat (tb_time b) \<le> unat (fst (last calls))
    \<and> (False \<notin> set (tb_exchanges b) \<longrightarrow> fst (tb_run calls b) * unat (time_per_token b)
      + max (unat (tb_time b)) (unat (fst (hd calls)) - unat (time_per_burst b)) \<le> unat (fst (last calls)))"
  using assms
proof (induction calls arbitrary: t b)
  case (Cons c calls)
  obtain now tokens where c: "c = (now, tokens)" by (cases c)
  obtain g b1 where g: "tb_consume now tokens b = (g, b1)" by (cases "tb_consume now tokens b")
  let ?tp = "unat (time_per_token b)" and ?bu = "unat (time_per_burst b)"
  have now: "unat (tb_time b) \<le> unat now" and ok: "calls_ok (unat now) ?tp ?bu calls"
    and lim: "?bu \<le> unat now" "unat now + unat tokens * ?tp < 2 ^ 64"
    using Cons.prems by (auto simp: c)
  note step = tb_consume_bound [OF lim now g]
  have r: "fst (tb_run (c # calls) b) = (if g then unat tokens else 0) + fst (tb_run calls b1)"
    by (simp add: c g case_prod_beta)
  have b1: "unat (tb_time b1) \<le> unat now" using step now by (auto split: if_splits)
  show ?case
  proof (cases "calls = []")
    case True
    have "fst (tb_run (c # calls) b) = (if g then unat tokens else 0)" using r True by simp
    then show ?thesis using step now lim(1) True by (cases g) (auto simp: c simp del: tb_run.simps)
  next
    case False
    have h: "unat now \<le> unat (fst (hd calls))" "last (c # calls) = last calls"
      using calls_ok_order [OF ok] False by auto
    have "calls_ok (unat now) (unat (time_per_token b1)) (unat (time_per_burst b1)) calls" using ok step by simp
    note ih = Cons.IH [OF this b1 False]
    show ?thesis
      using ih step now h unfolding r by (cases g) (auto simp: c algebra_simps simp del: tb_run.simps)
  qed
qed simp

subsection \<open>The properties\<close>

text \<open>
  C8: The bucket limits the rate, for a clock that runs forward from at least a burst after its
  start and costs that do not overflow 64 bits. However often the weak exchange fails, over any
  run of requests the tokens granted cost no more time than passed since the time stored before
  the run; if no exchange fails, they cost no more than the time between the first and the last
  request, plus the burst.
\<close>
theorem token_bucket_limits_rate:
  assumes "calls_ok (unat (tb_time b)) (unat (time_per_token b)) (unat (time_per_burst b)) calls" "calls \<noteq> []"
  shows "fst (tb_run calls b) * unat (time_per_token b) + unat (tb_time b) \<le> unat (fst (last calls))
    \<and> (False \<notin> set (tb_exchanges b) \<longrightarrow> fst (tb_run calls b) * unat (time_per_token b)
        \<le> (unat (fst (last calls)) - unat (fst (hd calls))) + unat (time_per_burst b))"
  using tb_run_bound [OF assms(1) order_refl assms(2)] calls_ok_order [OF assms(1)] assms(2) by fastforce

theorem token_bucket_limits_rate_witness:
  "fst (tb_run [(1000000, 3), (1000010, 4)] (new_TokenBucket [] 500000 4)) * 2 \<le> 18
   \<and> fst (tb_run [(1000000, 3), (1000010, 4)] (new_TokenBucket [False, True, False] 500000 4)) * 2 \<le> 1000010"
  using token_bucket_limits_rate [of "new_TokenBucket [] 500000 4" "[(1000000, 3), (1000010, 4)]"]
    token_bucket_limits_rate [of "new_TokenBucket [False, True, False] 500000 4" "[(1000000, 3), (1000010, 4)]"]
  by (simp add: new_TokenBucket_def Let_def)

text \<open>
  A failed exchange forgets how much of the past is too old to count: with a burst of 100
  tokens, three requests of 50 at the same moment are all granted if the first exchange fails
  spuriously.
\<close>
lemma failed_exchange_grants_too_much:
  "let b = new_TokenBucket [False] 1000000 100
   in time_per_burst b = 100 \<and> fst (tb_run [(5000, 50), (5000, 50), (5000, 50)] b) = 150
    \<and> fst (tb_run [(5000, 50), (5000, 50), (5000, 50)] (new_TokenBucket [] 1000000 100)) = 100"
  by code_simp

end
