(* ===== verification/RtpRetransmission.thy ===== *)
theory RtpRetransmission
  imports PacketBuffer TokenBucket
begin

text \<open>
  \<^verbatim>\<open>RtpRetransmissionHandler\<close>: it stores what is sent, answers NACKs from the store as far as
  the token bucket allows, and swallows a NACK it could answer in full. Arguments: \<open>now\<close> in
  microseconds, \<open>sink\<close> for the SSRCs of the connection, and \<open>bitrate\<close>, the value of the
  statistic \<^verbatim>\<open>bitrateCalculated\<close> in bits (0 when it does not exist). The statistic
  \<^verbatim>\<open>rtxBitrate\<close> is the list of the values added to it. The rate \<^verbatim>\<open>bytes * 0.1f\<close> is the
  rounded down quotient; the rounding of \<^verbatim>\<open>float\<close> is not modelled. The constructor is given
  the outcomes of the bucket's exchanges.
\<close>

definition kBurstSize :: u64 where "kBurstSize = 26000"
definition kTimeToUpdateBitrate :: u64 where "kTimeToUpdateBitrate = 500000"
definition kNackBlpSize :: nat where "kNackBlpSize = 16"

record retransmission =
  rt_initialized :: bool
  rt_enabled :: bool
  rt_packet_buffer :: packetBuffer
  rt_bucket :: tokenBucket
  last_bitrate_time :: u64
  rtx_bitrate :: "int list"

definition new_RtpRetransmissionHandler :: "bool list \<Rightarrow> u64 \<Rightarrow> retransmission" where
  "new_RtpRetransmissionHandler exchanges now =
     \<lparr>rt_initialized = False, rt_enabled = True, rt_packet_buffer = new_PacketBufferService,
      rt_bucket = new_TokenBucket exchanges 30000 kBurstSize, last_bitrate_time = now, rtx_bitrate = []\<rparr>"

definition rt_enable :: "retransmission \<Rightarrow> retransmission" where
  "rt_enable h = h\<lparr>rt_enabled := True\<rparr>"

definition rt_disable :: "retransmission \<Rightarrow> retransmission" where
  "rt_disable h = h\<lparr>rt_enabled := False\<rparr>"

text \<open>Both services are in the pipeline, or one is missing.\<close>

definition rt_notifyUpdate :: "bool \<Rightarrow> retransmission \<Rightarrow> retransmission" where
  "rt_notifyUpdate services h = (if services then h\<lparr>rt_initialized := True\<rparr> else h)"

definition getBitrateCalculated :: "u64 \<Rightarrow> u64" where
  "getBitrateCalculated bitrate = bitrate div 8"

definition calculateRtxBitrate :: "u64 \<Rightarrow> u64 \<Rightarrow> retransmission \<Rightarrow> retransmission" where
  "calculateRtxBitrate now bitrate h =
     (if now - last_bitrate_time h > kTimeToUpdateBitrate
      then h\<lparr>last_bitrate_time := now,
             rt_bucket := tb_reset (getBitrateCalculated bitrate div 10) kBurstSize (rt_bucket h)\<rparr>
      else h)"

text \<open>What the callbacks collect: the handler, the packets written, and \<^verbatim>\<open>is_fully_recovered\<close>.\<close>

record rtx_state =
  rx_handler :: retransmission
  rx_writes :: "dataPacket list"
  is_fully_recovered :: bool
  contains_nack :: bool

definition rtx_recover :: "mediaSink \<Rightarrow> u32 \<Rightarrow> u16 \<Rightarrow> packetBuffer \<Rightarrow> dataPacket option" where
  "rtx_recover sink source_ssrc seq_num b =
     (if video_sink_ssrc sink = source_ssrc then getVideoPacket b seq_num
      else if audio_sink_ssrc sink = source_ssrc then getAudioPacket b seq_num else None)"

definition rtx_one :: "u64 \<Rightarrow> mediaSink \<Rightarrow> u32 \<Rightarrow> u16 \<Rightarrow> rtx_state \<Rightarrow> rtx_state" where
  "rtx_one now sink source_ssrc seq_num x =
     (let h = rx_handler x
      in case rtx_recover sink source_ssrc seq_num (rt_packet_buffer h) of
           Some recovered \<Rightarrow>
             (case tb_consume now (word_of_int (packet_length recovered)) (rt_bucket h) of
                (False, bucket) \<Rightarrow> x\<lparr>rx_handler := h\<lparr>rt_bucket := bucket\<rparr>\<rparr>
              | (True, bucket) \<Rightarrow>
                  let h = h\<lparr>rt_bucket := bucket\<rparr>
                  in if getSeqNumber (data recovered) = seq_num
                     then x\<lparr>rx_handler := h\<lparr>rtx_bitrate := rtx_bitrate h @ [packet_length recovered]\<rparr>,
                            rx_writes := rx_writes x @ [recovered]\<rparr>
                     else x\<lparr>rx_handler := h, is_fully_recovered := False\<rparr>)
         | None \<Rightarrow> x\<lparr>is_fully_recovered := False\<rparr>)"

text \<open>\<^verbatim>\<open>i\<close> runs from -1 to 16; bit 16 of a 16-bit BLP is never set.\<close>

definition packet_nacked :: "u16 \<Rightarrow> int \<Rightarrow> bool" where
  "packet_nacked plb i \<longleftrightarrow> i = -1 \<or> bit plb (nat i)"

definition rtx_nack :: "u64 \<Rightarrow> mediaSink \<Rightarrow> u32 \<Rightarrow> u16 \<Rightarrow> u16 \<Rightarrow> rtx_state \<Rightarrow> rtx_state" where
  "rtx_nack now sink source_ssrc initial_seq_num plb x =
     fold (\<lambda>i x. if packet_nacked plb i
                 then rtx_one now sink source_ssrc (initial_seq_num + word_of_int (i + 1)) x else x)
       [-1..int kNackBlpSize] x"

definition rt_read :: "u64 \<Rightarrow> mediaSink \<Rightarrow> u64 \<Rightarrow> dataPacket \<Rightarrow> retransmission \<Rightarrow> retransmission \<times> fire list" where
  "rt_read now sink bitrate packet h =
     (if \<not> rt_enabled h \<or> \<not> rt_initialized h then (h, [])
      else let h = calculateRtxBitrate now bitrate h;
               x = \<lparr>rx_handler = h, rx_writes = [], is_fully_recovered = True, contains_nack = False\<rparr>;
               x = snd (forEachRRBlock (\<lambda>p (m, x).
                     if getPacketType m p = RTCP_RTP_Feedback_PT
                     then forEachNack (\<lambda>new_seq_num new_plb q (m', x).
                            (m', rtx_nack now sink (getSourceSSRC m p) new_seq_num new_plb x)) p
                            (m, x\<lparr>contains_nack := True\<rparr>)
                     else (m, x)) packet x)
           in (rx_handler x, map FireWrite (rx_writes x) @
                (if \<not> contains_nack x \<or> \<not> is_fully_recovered x then [FireRead packet] else [])))"

definition rt_write :: "dataPacket \<Rightarrow> retransmission \<Rightarrow> retransmission \<times> fire list" where
  "rt_write packet h =
     (if \<not> rt_initialized h then (h, [])
      else let h = (if \<not> isRtcp (data packet) 0
                    then h\<lparr>rt_packet_buffer := insertPacket packet (rt_packet_buffer h)\<rparr> else h)
           in (h, [FireWrite packet]))"

subsection \<open>What is asked for\<close>

text \<open>
  The numbers a PID and a BLP ask for: the PID itself, and the number \<open>i + 1\<close> after it for every
  bit \<open>i\<close> of the BLP. What a packet asks for, in order: the generic feedback reports of the
  compound, each with its media source and its pairs, four bytes each after the header of 12.
\<close>

definition asked :: "u16 \<Rightarrow> u16 \<Rightarrow> u16 list" where
  "asked pid blp = pid # map (\<lambda>i. pid + 1 + of_nat i) (filter (bit blp) [0..<16])"

definition asked_in_report :: "mem \<Rightarrow> nat \<Rightarrow> (u32 \<times> u16) list" where
  "asked_in_report m p =
     (if getPacketType m p = RTCP_RTP_Feedback_PT
      then concat (map (\<lambda>k. map (Pair (getSourceSSRC m p)) (asked (getNackPid m (p + 4 * k)) (getNackBlp m (p + 4 * k))))
             [0..<unat (rtcp_getLength m p) - 2])
      else [])"

definition asked_numbers :: "dataPacket \<Rightarrow> (u32 \<times> u16) list" where
  "asked_numbers fb = (if isFeedback (data fb) 0
     then concat (map (asked_in_report (data fb)) (block_offsets (data fb) (packet_length fb) 0)) else [])"

lemma fold_filter: "fold (\<lambda>i x. if P i then f i x else x) xs x = fold f (filter P xs) x"
  by (induction xs arbitrary: x) auto

lemma nacked_numbers: "[-1..int kNackBlpSize] = -1 # map int [0..<16] @ [16]"
  by (simp add: kNackBlpSize_def upto.simps upt_rec)

lemma rtx_nack_asked: "rtx_nack now sink s pid blp x = fold (rtx_one now sink s) (asked pid blp) x"
proof -
  have f: "filter (packet_nacked blp) (map int [0..<16]) = map int (filter (bit blp) [0..<16])"
    by (simp add: filter_map o_def packet_nacked_def)
  have "\<not> bit blp 16" using bit_imp_le_length [of blp 16] by auto
  then have "filter (packet_nacked blp) [-1..int kNackBlpSize] = -1 # map int (filter (bit blp) [0..<16])"
    unfolding nacked_numbers by (simp add: f) (simp add: packet_nacked_def)
  then have "rtx_nack now sink s pid blp x = fold (\<lambda>i. rtx_one now sink s (pid + word_of_int (i + 1)))
      (-1 # map int (filter (bit blp) [0..<16])) x"
    by (simp only: rtx_nack_def fold_filter)
  also have "\<dots> = fold (rtx_one now sink s) (asked pid blp) x"
    by (simp add: asked_def fold_map o_def add.commute add.left_commute)
  finally show ?thesis .
qed

definition rtx_answers :: "u64 \<Rightarrow> mediaSink \<Rightarrow> (u32 \<times> u16) list \<Rightarrow> rtx_state \<Rightarrow> rtx_state" where
  "rtx_answers now sink reqs x = fold (\<lambda>(s, n). rtx_one now sink s n) reqs x"

lemma answers_append: "rtx_answers now sink (xs @ ys) x = rtx_answers now sink ys (rtx_answers now sink xs x)"
  by (simp add: rtx_answers_def)

lemma answers_report: "rtx_answers now sink (map (Pair s) ns) x = fold (rtx_one now sink s) ns x"
  by (induction ns arbitrary: x) (simp_all add: rtx_answers_def)

lemma nack_items_answers:
  "nack_items (\<lambda>pid blp q (m', x). (m', rtx_nack now sink s pid blp x)) (12 + 4 * j) (12 + 4 * i) (p + 4 * i) (m, x)
   = (m, rtx_answers now sink (concat (map (\<lambda>k. map (Pair s) (asked (getNackPid m (p + 4 * k)) (getNackBlp m (p + 4 * k)))) [i..<j])) x)"
proof (induction "j - i" arbitrary: i x)
  case 0
  then show ?case by (subst nack_items.simps) (simp add: rtx_answers_def)
next
  case (Suc d)
  then have "i < j" "d = j - Suc i" by linarith+
  then show ?case
    using Suc(1) [of "Suc i"] by (subst nack_items.simps)
      (simp add: upt_conv_Cons rtx_nack_asked answers_append answers_report algebra_simps)
qed

lemma forEachNack_answers:
  assumes "getPacketType m p = RTCP_RTP_Feedback_PT"
  shows "forEachNack (\<lambda>pid blp q (m', x). (m', rtx_nack now sink (getSourceSSRC m p) pid blp x)) p (m, x)
    = (m, rtx_answers now sink (asked_in_report m p) x)"
proof -
  let ?l = "unat (rtcp_getLength m p)"
  have "nack_items f ((?l + 1) * 4) 12 p st = nack_items f (12 + 4 * (?l - 2)) 12 p st"
    for f and st :: "mem \<times> rtx_state"
  proof (cases "?l \<ge> 2")
    case True
    then show ?thesis by (simp add: algebra_simps)
  next
    case False
    then show ?thesis by (simp add: nack_items.simps [of f _ 12])
  qed
  then show ?thesis
    using nack_items_answers [of now sink "getSourceSSRC m p" "?l - 2" 0 p m x] assms
    by (simp add: forEachNack_def asked_in_report_def)
qed

subsection \<open>What is answered\<close>

text \<open>
  The store stays as it is, and what is written was found under its number.
\<close>

definition resent_from :: "mediaSink \<Rightarrow> u32 \<Rightarrow> packetBuffer \<Rightarrow> dataPacket \<Rightarrow> u16 \<Rightarrow> bool" where
  "resent_from sink source_ssrc b p n \<longleftrightarrow>
     rtx_recover sink source_ssrc n b = Some p \<and> getSeqNumber (data p) = n"

definition rtx_inv :: "mediaSink \<Rightarrow> packetBuffer \<Rightarrow> (u32 \<times> u16) set \<Rightarrow> rtx_state \<Rightarrow> bool" where
  "rtx_inv sink b R x \<longleftrightarrow> rt_packet_buffer (rx_handler x) = b
     \<and> (\<forall>p \<in> set (rx_writes x). \<exists>r \<in> R. resent_from sink (fst r) b p (snd r))"

lemma rtx_one_inv: "rtx_inv sink b R x \<Longrightarrow> (s, n) \<in> R \<Longrightarrow> rtx_inv sink b R (rtx_one now sink s n x)"
  by (auto simp: rtx_one_def rtx_inv_def resent_from_def Let_def split: option.split prod.split bool.split
      intro!: bexI [of _ "(s, n)"])

lemma rtx_one_contains: "contains_nack (rtx_one now sink s n x) = contains_nack x"
  by (auto simp: rtx_one_def Let_def split: option.split prod.split bool.split)

lemma rtx_one_mono: "set (rx_writes x) \<subseteq> set (rx_writes (rtx_one now sink s n x))"
  by (auto simp: rtx_one_def Let_def split: option.split prod.split bool.split)

lemma rtx_one_buffer: "rt_packet_buffer (rx_handler (rtx_one now sink s n x)) = rt_packet_buffer (rx_handler x)"
  "rt_initialized (rx_handler (rtx_one now sink s n x)) = rt_initialized (rx_handler x)"
  by (auto simp: rtx_one_def Let_def split: option.split prod.split bool.split)

lemma answers_keep:
  "set (rx_writes x) \<subseteq> set (rx_writes (rtx_answers now sink reqs x))
   \<and> rt_packet_buffer (rx_handler (rtx_answers now sink reqs x)) = rt_packet_buffer (rx_handler x)
   \<and> rt_initialized (rx_handler (rtx_answers now sink reqs x)) = rt_initialized (rx_handler x)
   \<and> contains_nack (rtx_answers now sink reqs x) = contains_nack x"
proof (induction reqs arbitrary: x)
  case (Cons r reqs)
  obtain s n where r: "r = (s, n)" by (cases r)
  have a: "rtx_answers now sink (r # reqs) x = rtx_answers now sink reqs (rtx_one now sink s n x)"
    by (simp add: r rtx_answers_def)
  show ?case
    unfolding a using Cons.IH [of "rtx_one now sink s n x"] rtx_one_mono [of x now sink s n]
    by (auto simp: rtx_one_buffer rtx_one_contains)
qed (simp add: rtx_answers_def)

lemma answers_inv: "rtx_inv sink b R x \<Longrightarrow> set reqs \<subseteq> R \<Longrightarrow> rtx_inv sink b R (rtx_answers now sink reqs x)"
  by (induction reqs arbitrary: x) (auto simp: rtx_answers_def rtx_one_inv)

text \<open>
  Reading a packet is answering what it asks for, in order. Whether a report was a NACK is
  remembered beside it, and nothing that is answered depends on it.
\<close>

definition with_contains :: "bool \<Rightarrow> rtx_state \<Rightarrow> rtx_state" where
  "with_contains c x = x\<lparr>contains_nack := c\<rparr>"

lemma rtx_one_with: "rtx_one now sink s n (with_contains c x) = with_contains c (rtx_one now sink s n x)"
  by (auto simp: rtx_one_def with_contains_def Let_def split: option.split prod.split bool.split)

lemma answers_with: "rtx_answers now sink reqs (with_contains c x) = with_contains c (rtx_answers now sink reqs x)"
  by (induction reqs arbitrary: x) (auto simp: rtx_answers_def rtx_one_with)

definition rtx_start :: "u64 \<Rightarrow> u64 \<Rightarrow> retransmission \<Rightarrow> rtx_state" where
  "rtx_start now bitrate h =
     \<lparr>rx_handler = calculateRtxBitrate now bitrate h, rx_writes = [], is_fully_recovered = True, contains_nack = False\<rparr>"

lemma reports_answers:
  "\<exists>c. fold (\<lambda>p x. if getPacketType m p = RTCP_RTP_Feedback_PT
        then rtx_answers now sink (asked_in_report m p) (x\<lparr>contains_nack := True\<rparr>) else x) ps (with_contains c0 x)
     = with_contains c (rtx_answers now sink (concat (map (asked_in_report m) ps)) x)"
proof (induction ps arbitrary: x c0)
  case (Cons p ps)
  show ?case
  proof (cases "getPacketType m p = RTCP_RTP_Feedback_PT")
    case True
    have "(with_contains c0 x)\<lparr>contains_nack := True\<rparr> = with_contains True x" by (simp add: with_contains_def)
    then show ?thesis
      using Cons.IH [of True "rtx_answers now sink (asked_in_report m p) x"] True
      by (simp add: answers_with answers_append)
  next
    case False
    then show ?thesis using Cons.IH [of c0 x] by (simp add: asked_in_report_def)
  qed
qed (auto simp: rtx_answers_def)

lemma rt_read_answers:
  assumes "rt_enabled h" "rt_initialized h"
  shows "{p. FireWrite p \<in> set (snd (rt_read now sink bitrate fb h))}
    = set (rx_writes (rtx_answers now sink (asked_numbers fb) (rtx_start now bitrate h)))"
    "rt_packet_buffer (fst (rt_read now sink bitrate fb h)) = rt_packet_buffer h"
    "rt_initialized (fst (rt_read now sink bitrate fb h))"
proof -
  let ?f = "\<lambda>p (m, x). if getPacketType m p = RTCP_RTP_Feedback_PT
     then forEachNack (\<lambda>new_seq_num new_plb q (m', x).
            (m', rtx_nack now sink (getSourceSSRC m p) new_seq_num new_plb x)) p (m, x\<lparr>contains_nack := True\<rparr>)
     else (m, x)"
  let ?m = "data fb" and ?x = "rtx_start now bitrate h"
  let ?y = "snd (forEachRRBlock ?f fb ?x)"
  have "\<exists>c. ?y = with_contains c (rtx_answers now sink (asked_numbers fb) ?x)"
  proof (cases "isFeedback ?m 0")
    case True
    have e: "snd (?f p (?m, x)) = (if getPacketType ?m p = RTCP_RTP_Feedback_PT
        then rtx_answers now sink (asked_in_report ?m p) (x\<lparr>contains_nack := True\<rparr>) else x)" for p x
      by (simp add: forEachNack_answers)
    have "fst (?f p (?m, x)) = ?m" for p x
      by (simp add: forEachNack_answers)
    then have y: "?y = fold (\<lambda>p x. snd (?f p (?m, x))) (block_offsets ?m (packet_length fb) 0) ?x"
      using True by (simp only: forEachRRBlock_def rr_blocks_fold Let_def if_True snd_conv)
    have w: "with_contains False ?x = ?x" by (simp add: rtx_start_def with_contains_def)
    note r = reports_answers [of ?m now sink "block_offsets ?m (packet_length fb) 0" False ?x, unfolded w]
    show ?thesis
      using r unfolding y e asked_numbers_def by (simp only: True if_True)
  next
    case False
    have "?x = with_contains False ?x" by (simp add: rtx_start_def with_contains_def)
    then show ?thesis using False by (simp add: forEachRRBlock_def asked_numbers_def rtx_answers_def) metis
  qed
  then obtain c where y: "?y = with_contains c (rtx_answers now sink (asked_numbers fb) ?x)" by blast
  have r: "rt_read now sink bitrate fb h = (rx_handler ?y, map FireWrite (rx_writes ?y)
      @ (if \<not> contains_nack ?y \<or> \<not> is_fully_recovered ?y then [FireRead fb] else []))"
    using assms by (simp add: rt_read_def rtx_start_def Let_def)
  show "{p. FireWrite p \<in> set (snd (rt_read now sink bitrate fb h))} = set (rx_writes (rtx_answers now sink (asked_numbers fb) ?x))"
    unfolding r y by (auto simp: with_contains_def)
  show "rt_packet_buffer (fst (rt_read now sink bitrate fb h)) = rt_packet_buffer h"
    unfolding r y using answers_keep [of ?x now sink "asked_numbers fb"]
    by (simp add: with_contains_def rtx_start_def calculateRtxBitrate_def)
  show "rt_initialized (fst (rt_read now sink bitrate fb h))"
    unfolding r y using assms(2) answers_keep [of ?x now sink "asked_numbers fb"]
    by (simp add: with_contains_def rtx_start_def calculateRtxBitrate_def)
qed

subsection \<open>Runs\<close>

text \<open>
  What happens to a handler: packets to send, feedback (with the time, the SSRCs of the connection
  and the bitrate then), its switches, and the notification that the services are there.
\<close>

datatype rtx_event = RtxWrite dataPacket | RtxFeedback u64 mediaSink u64 dataPacket
  | RtxEnable | RtxDisable | RtxNotify bool

fun rtx_step :: "rtx_event \<Rightarrow> retransmission \<Rightarrow> retransmission \<times> fire list" where
  "rtx_step (RtxWrite p) h = rt_write p h"
| "rtx_step (RtxFeedback now sink bitrate fb) h = rt_read now sink bitrate fb h"
| "rtx_step RtxEnable h = (rt_enable h, [])"
| "rtx_step RtxDisable h = (rt_disable h, [])"
| "rtx_step (RtxNotify services) h = (rt_notifyUpdate services h, [])"

text \<open>The handler after a run, and the log of the run: each event with what was passed on.\<close>

fun rtx_run :: "rtx_event list \<Rightarrow> retransmission \<Rightarrow> retransmission \<times> (rtx_event \<times> fire list) list" where
  "rtx_run [] h = (h, [])"
| "rtx_run (e # es) h = (let (h, fires) = rtx_step e h; (h, log) = rtx_run es h in (h, (e, fires) # log))"

text \<open>The packets a run stores.\<close>

fun rtx_stored :: "rtx_event list \<Rightarrow> bool \<Rightarrow> dataPacket list" where
  "rtx_stored [] i = []"
| "rtx_stored (RtxWrite p # es) i = (if i \<and> \<not> isRtcp (data p) 0 then [p] else []) @ rtx_stored es i"
| "rtx_stored (RtxNotify b # es) i = rtx_stored es (i \<or> b)"
| "rtx_stored (e # es) i = rtx_stored es i"

lemma rt_read_keeps:
  "rt_packet_buffer (fst (rt_read now sink bitrate fb h)) = rt_packet_buffer h
   \<and> rt_initialized (fst (rt_read now sink bitrate fb h)) = rt_initialized h"
proof (cases "rt_enabled h \<and> rt_initialized h")
  case True
  then show ?thesis using rt_read_answers(2,3) [of h now sink bitrate fb] by simp
next
  case False
  then show ?thesis by (auto simp: rt_read_def)
qed

lemma rtx_run_buffer:
  "rt_packet_buffer (fst (rtx_run es h)) = fold insertPacket (rtx_stored es (rt_initialized h)) (rt_packet_buffer h)"
proof (induction es arbitrary: h)
  case (Cons e es)
  show ?case
    using Cons.IH [of "fst (rtx_step e h)"]
    by (cases e) (auto simp: case_prod_beta rt_write_def Let_def rt_enable_def rt_disable_def rt_notifyUpdate_def
        rt_read_keeps)
qed simp

lemma rtx_run_stored:
  "p \<in> set (rtx_stored es (rt_initialized h)) \<Longrightarrow>
     (RtxWrite p, [FireWrite p]) \<in> set (snd (rtx_run es h)) \<and> \<not> isRtcp (data p) 0"
proof (induction es arbitrary: h)
  case (Cons e es)
  show ?case
    using Cons.IH [of "fst (rtx_step e h)"] Cons.prems
    by (cases e) (auto simp: case_prod_beta rt_write_def Let_def rt_enable_def rt_disable_def rt_notifyUpdate_def
        rt_read_keeps split: if_splits)
qed simp

lemma rtx_stored_append:
  "rt_initialized (fst (rtx_run es h)) \<Longrightarrow>
     rtx_stored (es @ es') (rt_initialized h) = rtx_stored es (rt_initialized h) @ rtx_stored es' True"
proof (induction es arbitrary: h)
  case (Cons e es)
  show ?case
    using Cons.IH [of "fst (rtx_step e h)"] Cons.prems
    by (cases e) (auto simp: case_prod_beta rt_write_def Let_def rt_enable_def rt_disable_def rt_notifyUpdate_def
        rt_read_keeps split: if_splits)
qed simp

lemma rtx_stored_written: "q \<in> set (rtx_stored es i) \<Longrightarrow> RtxWrite q \<in> set es \<and> \<not> isRtcp (data q) 0"
  by (induction es i rule: rtx_stored.induct) (auto split: if_splits)

subsection \<open>The properties\<close>

text \<open>
  C10: A NACK, however malformed, only makes the handler resend packets that were sent before and
  that it asks for. After any run from the constructor, everything written while a packet is read
  was handed over to be written earlier and was passed on then, is no RTCP, has a number that the
  packet asks for (the PID of a pair, or the number of a bit of its BLP), and is of the kind whose
  SSRC the report names; and nothing is written unless the handler is enabled and initialised.
\<close>
theorem only_sent_packets_are_resent:
  assumes "rtx_run es (new_RtpRetransmissionHandler exchanges started) = (h, log)"
    "FireWrite p \<in> set (snd (rt_read now sink bitrate fb h))"
  shows "(RtxWrite p, [FireWrite p]) \<in> set log \<and> \<not> isRtcp (data p) 0
    \<and> ((video_sink_ssrc sink, getSeqNumber (data p)) \<in> set (asked_numbers fb) \<and> packet_type p = VIDEO_PACKET
      \<or> (audio_sink_ssrc sink, getSeqNumber (data p)) \<in> set (asked_numbers fb) \<and> packet_type p = AUDIO_PACKET)
    \<and> rt_enabled h \<and> rt_initialized h"
proof -
  let ?h0 = "new_RtpRetransmissionHandler exchanges started"
  have h0: "rt_packet_buffer ?h0 = new_PacketBufferService" "rt_initialized ?h0 = False"
    by (simp_all add: new_RtpRetransmissionHandler_def)
  have on: "rt_enabled h" "rt_initialized h" using assms(2) by (auto simp: rt_read_def split: if_splits)
  have b: "rt_packet_buffer h = fold insertPacket (rtx_stored es False) new_PacketBufferService"
    using rtx_run_buffer [of es ?h0] assms(1) by (simp add: h0)
  let ?R = "set (asked_numbers fb)"
  have "rtx_inv sink (rt_packet_buffer h) ?R (rtx_answers now sink (asked_numbers fb) (rtx_start now bitrate h))"
    by (rule answers_inv) (simp_all add: rtx_inv_def rtx_start_def calculateRtxBitrate_def)
  moreover have "p \<in> set (rx_writes (rtx_answers now sink (asked_numbers fb) (rtx_start now bitrate h)))"
    using assms(2) rt_read_answers(1) [OF on, of now sink bitrate fb] by blast
  ultimately obtain s n where n: "(s, n) \<in> ?R" "rtx_recover sink s n (rt_packet_buffer h) = Some p" "getSeqNumber (data p) = n"
    by (auto simp: rtx_inv_def resent_from_def)
  have "p \<in> set (rtx_stored es False) \<and> (s = video_sink_ssrc sink \<and> packet_type p = VIDEO_PACKET
      \<or> s = audio_sink_ssrc sink \<and> packet_type p = AUDIO_PACKET)"
    using n(2) video_ring.lookup_inserted [OF _ video_ring.lookup_empty, of "rtx_stored es False" n p]
      audio_ring.lookup_inserted [OF _ audio_ring.lookup_empty, of "rtx_stored es False" n p]
    unfolding b by (auto simp: rtx_recover_def split: if_splits)
  then show ?thesis
    using n on rtx_run_stored [of p es ?h0] assms(1) by (auto simp: h0)
qed

text \<open>A NACK for 9 and 10 of the stream 7.\<close>

definition sample_nack_packet :: dataPacket where
  "sample_nack_packet = new_dataPacket 0 (rtcp_setLength 0 3 (setNackPid 0 9 (setNackBlp 0 1 (setSourceSSRC 0 7
     (setBlockCount 0 1 (setPacketType 0 RTCP_RTP_Feedback_PT (new_RtcpHeader 0 zero_mem))))))) 16 VIDEO_PACKET 0"

definition sample_rtx_events :: "rtx_event list" where
  "sample_rtx_events = [RtxNotify True, RtxWrite (sample_packet 9 7), RtxWrite (sample_packet 11 7)]"

definition sample_rtx_sink :: mediaSink where
  "sample_rtx_sink = new_mediaSink\<lparr>video_sink_ssrc := 7\<rparr>"

lemma sample_nack_asks: "asked_numbers sample_nack_packet = [(7, 9), (7, 10)]"
  by code_simp

theorem only_sent_packets_are_resent_witness:
  "\<exists>p. FireWrite p \<in> set (snd (rt_read 9000000 sample_rtx_sink 800000 sample_nack_packet
       (fst (rtx_run sample_rtx_events (new_RtpRetransmissionHandler [False] 0)))))
    \<and> getSeqNumber (data p) = 9 \<and> (RtxWrite p, [FireWrite p])
       \<in> set (snd (rtx_run sample_rtx_events (new_RtpRetransmissionHandler [False] 0)))"
proof -
  let ?r = "rtx_run sample_rtx_events (new_RtpRetransmissionHandler [False] 0)"
  let ?o = "snd (rt_read 9000000 sample_rtx_sink 800000 sample_nack_packet (fst ?r))"
  have on: "rt_enabled (fst ?r)" "rt_initialized (fst ?r)" by code_simp+
  have "map (\<lambda>p. getSeqNumber (data p)) (rx_writes (rtx_answers 9000000 sample_rtx_sink [(7, 9), (7, 10)]
      (rtx_start 9000000 800000 (fst ?r)))) = [9]"
    by code_simp
  then obtain p where "p \<in> set (rx_writes (rtx_answers 9000000 sample_rtx_sink (asked_numbers sample_nack_packet)
      (rtx_start 9000000 800000 (fst ?r))))" "getSeqNumber (data p) = 9"
    by (auto simp: sample_nack_asks map_eq_Cons_conv)
  then have "FireWrite p \<in> set ?o" "getSeqNumber (data p) = 9"
    using rt_read_answers(1) [OF on, of 9000000 sample_rtx_sink 800000 sample_nack_packet] by blast+
  then show ?thesis
    using only_sent_packets_are_resent [of sample_rtx_events "[False]" 0 "fst ?r" "snd ?r" p] by fastforce
qed

text \<open>
  C12: A packet in the store is resent when asked for. Let a video or audio packet be written to an
  initialised handler, and let every packet of its kind written after it have a number 1 to 255
  after its own. Then any later packet that asks for its number under the SSRC of its kind, after
  other numbers perhaps, has it resent by an enabled handler, if the bucket grants its length
  when its turn comes. (With equal SSRCs for both kinds only video is looked up.)
\<close>
theorem stored_packet_is_resent:
  assumes "rt_initialized (fst (rtx_run es h0))" "\<not> isRtcp (data p) 0"
    "packet_type p = VIDEO_PACKET \<and> s = video_sink_ssrc sink
      \<or> packet_type p = AUDIO_PACKET \<and> s = audio_sink_ssrc sink \<and> s \<noteq> video_sink_ssrc sink"
    "\<forall>q. RtxWrite q \<in> set es' \<and> packet_type q = packet_type p \<and> \<not> isRtcp (data q) 0 \<longrightarrow>
       (\<exists>d. 0 < d \<and> d < 256 \<and> getSeqNumber (data q) = getSeqNumber (data p) + of_nat d)"
    "rtx_run (es @ RtxWrite p # es') h0 = (h, log)" "rt_enabled h"
    "asked_numbers fb = before @ (s, getSeqNumber (data p)) # after"
    "fst (tb_consume now (word_of_int (packet_length p))
       (rt_bucket (rx_handler (rtx_answers now sink before (rtx_start now bitrate h)))))"
  shows "FireWrite p \<in> set (snd (rt_read now sink bitrate fb h))"
proof -
  let ?n = "getSeqNumber (data p)" and ?y = "rtx_answers now sink before (rtx_start now bitrate h)"
  have i: "rt_initialized h \<and> (\<exists>b. rt_packet_buffer h = fold insertPacket (rtx_stored es' True) (insertPacket p b))"
  proof -
    have b: "rt_packet_buffer h = fold insertPacket (rtx_stored (es @ RtxWrite p # es') (rt_initialized h0)) (rt_packet_buffer h0)"
      using rtx_run_buffer [of "es @ RtxWrite p # es'" h0] assms(5) by simp
    have "rtx_run (xs @ ys) g = (let (g, l) = rtx_run xs g; (g, l') = rtx_run ys g in (g, l @ l'))" for xs ys g
      by (induction xs arbitrary: g) (auto simp: case_prod_beta Let_def)
    then have "h = fst (rtx_run (RtxWrite p # es') (fst (rtx_run es h0)))"
      using assms(5) by (simp add: case_prod_beta Let_def)
    moreover have "rt_initialized g \<Longrightarrow> rt_initialized (fst (rtx_run xs g))" for xs g
    proof (induction xs arbitrary: g)
      case (Cons e xs)
      then show ?case
        using Cons.IH [of "fst (rtx_step e g)"]
        by (cases e) (auto simp: case_prod_beta rt_write_def Let_def rt_enable_def rt_disable_def rt_notifyUpdate_def
            rt_read_keeps)
    qed simp
    ultimately have "rt_initialized h" using assms(1) by blast
    then show ?thesis
      using b rtx_stored_append [OF assms(1), of "RtxWrite p # es'"] assms(2) by auto
  qed
  then obtain b where on: "rt_initialized h" and b: "rt_packet_buffer h = fold insertPacket (rtx_stored es' True) (insertPacket p b)"
    by blast
  have far: "getIndexInBuffer (getSeqNumber (data q)) \<noteq> getIndexInBuffer ?n"
    if q: "q \<in> set (rtx_stored es' True)" "packet_type q = packet_type p" for q
  proof -
    have "RtxWrite q \<in> set es' \<and> \<not> isRtcp (data q) 0"
      by (rule rtx_stored_written [OF q(1)])
    then show ?thesis using assms(4) q(2) getIndexInBuffer_close by metis
  qed
  have "rtx_recover sink s ?n (rt_packet_buffer h) = Some p"
    using assms(3) video_ring.lookup_kept [of "rtx_stored es' True" p b] audio_ring.lookup_kept [of "rtx_stored es' True" p b] far
    unfolding b by (auto simp: rtx_recover_def)
  then have "p \<in> set (rx_writes (rtx_one now sink s ?n ?y))"
    using assms(8) answers_keep [of "rtx_start now bitrate h" now sink before]
    by (auto simp: rtx_one_def rtx_start_def calculateRtxBitrate_def Let_def split: prod.split bool.split)
  moreover have "rtx_answers now sink (asked_numbers fb) (rtx_start now bitrate h) = rtx_answers now sink after (rtx_one now sink s ?n ?y)"
    by (simp add: assms(7) answers_append) (simp add: rtx_answers_def)
  ultimately have "p \<in> set (rx_writes (rtx_answers now sink (asked_numbers fb) (rtx_start now bitrate h)))"
    using answers_keep [of "rtx_one now sink s ?n ?y" now sink after] by auto
  then show ?thesis using rt_read_answers(1) [OF assms(6) on, of now sink bitrate fb] by blast
qed

theorem stored_packet_is_resent_witness:
  "FireWrite (sample_packet 9 7) \<in> set (snd (rt_read 9000000 sample_rtx_sink 800000 sample_nack_packet
     (fst (rtx_run sample_rtx_events (new_RtpRetransmissionHandler [False] 0)))))"
proof -
  let ?h0 = "new_RtpRetransmissionHandler [False] 0" and ?p = "sample_packet 9 7"
  let ?r = "rtx_run sample_rtx_events ?h0"
  have i: "rt_initialized (fst (rtx_run [RtxNotify True] ?h0))" and e: "rt_enabled (fst ?r)" by code_simp+
  have n: "\<not> isRtcp (data ?p) 0" by code_simp
  have t: "fst (tb_consume 9000000 12 (rt_bucket (rx_handler (rtx_answers 9000000 sample_rtx_sink [] (rtx_start 9000000 800000 (fst ?r))))))"
    by code_simp
  have d: "\<exists>d. 0 < d \<and> d < 256 \<and> (11 :: u16) = 9 + of_nat d" by (rule exI [of _ 2]) simp
  have r: "rtx_run ([RtxNotify True] @ RtxWrite ?p # [RtxWrite (sample_packet 11 7)]) ?h0 = (fst ?r, snd ?r)"
    by (simp add: sample_rtx_events_def)
  show ?thesis
    by (rule stored_packet_is_resent [OF i n _ _ r e, of 7 sample_rtx_sink _ "[]" "[(7, 10)]"])
      (use d t in \<open>auto simp: sample_nack_asks sample_rtx_sink_def\<close>)
qed

text \<open>
  A disabled handler does not step aside: it drops every packet it reads, feedback or media,
  where the other handlers pass it on.
\<close>
lemma disabled_retransmission_drops:
  "rt_read now sink bitrate packet (rt_disable h) = (rt_disable h, [])"
  by (simp add: rt_read_def rt_disable_def)

end
