(* ===== verification/RtpVP8Parser.thy ===== *)
theory RtpVP8Parser
  imports RtpUtils
begin

text \<open>
  \<^verbatim>\<open>RtpVP8Parser\<close> and \<^verbatim>\<open>RtpVP8Fragmenter\<close>: the payload descriptor of VP8, its parser, the
  setter for the picture id, and the fragmentation of a frame into packets. A pointer is an
  offset into the buffer. The helpers of the parser return the payload as far as it was filled,
  and \<open>None\<close> for the error code -1. The main properties: the parser reads nothing beyond the
  length it is given, what the setter writes the parser reads, and fragments put together are
  the frame.
\<close>

subsection \<open>The payload descriptor\<close>

datatype VP8FrameTypes = kVP8IFrame | kVP8PFrame

record RTPPayloadVP8 =
  nonReferenceFrame :: bool
  beginningOfPartition :: bool
  partitionID :: int
  hasPictureID :: bool
  hasTl0PicIdx :: bool
  hasTID :: bool
  hasKeyIdx :: bool
  pictureID :: int
  tl0PicIdx :: int
  tID :: int
  layerSync :: bool
  keyIdx :: int
  frameWidth :: int
  frameHeight :: int
  frameType :: VP8FrameTypes
  vp8_data :: nat
  dataLength :: int

definition new_RTPPayloadVP8 :: RTPPayloadVP8 where
  "new_RTPPayloadVP8 = \<lparr>nonReferenceFrame = False, beginningOfPartition = False, partitionID = -1,
     hasPictureID = False, hasTl0PicIdx = False, hasTID = False, hasKeyIdx = False, pictureID = -1,
     tl0PicIdx = -1, tID = -1, layerSync = False, keyIdx = -1, frameWidth = -1, frameHeight = -1,
     frameType = kVP8PFrame, vp8_data = 0, dataLength = 0\<rparr>"

text \<open>Where the parser is: the pointer, the bytes left, and the bytes parsed.\<close>

type_synonym vp8_pos = "nat \<times> int \<times> int"

definition advance :: "vp8_pos \<Rightarrow> vp8_pos" where
  "advance pos = (case pos of (p, len, parsed) \<Rightarrow> (p + 1, len - 1, parsed + 1))"

definition u8i :: "u8 \<Rightarrow> int" where
  "u8i b = int (unat b)"

definition ParseVP8PictureID :: "mem \<Rightarrow> RTPPayloadVP8 \<Rightarrow> vp8_pos \<Rightarrow> RTPPayloadVP8 \<times> vp8_pos option" where
  "ParseVP8PictureID m vp8 pos =
     (let (p, len, parsed) = pos
      in if len \<le> 0 then (vp8, None)
         else let vp8 = vp8\<lparr>pictureID := u8i (m p AND 0x7F)\<rparr>
           in if m p AND 0x80 \<noteq> 0
              then if len - 1 \<le> 0 then (vp8, None)
                   else (vp8\<lparr>pictureID := pictureID vp8 * 256 + u8i (m (p + 1))\<rparr>, Some (advance (advance pos)))
              else (vp8, Some (advance pos)))"

definition ParseVP8Tl0PicIdx :: "mem \<Rightarrow> RTPPayloadVP8 \<Rightarrow> vp8_pos \<Rightarrow> RTPPayloadVP8 \<times> vp8_pos option" where
  "ParseVP8Tl0PicIdx m vp8 pos =
     (let (p, len, parsed) = pos
      in if len \<le> 0 then (vp8, None) else (vp8\<lparr>tl0PicIdx := u8i (m p)\<rparr>, Some (advance pos)))"

definition ParseVP8TIDAndKeyIdx :: "mem \<Rightarrow> RTPPayloadVP8 \<Rightarrow> vp8_pos \<Rightarrow> RTPPayloadVP8 \<times> vp8_pos option" where
  "ParseVP8TIDAndKeyIdx m vp8 pos =
     (let (p, len, parsed) = pos
      in if len \<le> 0 then (vp8, None)
         else let vp8 = (if hasTID vp8
                         then vp8\<lparr>tID := u8i (drop_bit 6 (m p) AND 0x03), layerSync := (m p AND 0x20 \<noteq> 0)\<rparr> else vp8);
                  vp8 = (if hasKeyIdx vp8 then vp8\<lparr>keyIdx := u8i (m p AND 0x1F)\<rparr> else vp8)
              in (vp8, Some (advance pos)))"

definition ParseVP8FrameSize :: "mem \<Rightarrow> RTPPayloadVP8 \<Rightarrow> nat \<Rightarrow> int \<Rightarrow> RTPPayloadVP8 \<times> bool" where
  "ParseVP8FrameSize m vp8 p len =
     (if frameType vp8 \<noteq> kVP8IFrame then (vp8, False)
      else if len < 10 then (vp8, False)
      else (vp8\<lparr>frameWidth := (u8i (m (p + 7)) * 256 + u8i (m (p + 6))) mod 0x4000,
                frameHeight := (u8i (m (p + 9)) * 256 + u8i (m (p + 8))) mod 0x4000\<rparr>, True))"

text \<open>One optional field: it is parsed if its flag is set and nothing failed before.\<close>

definition optional ::
  "bool \<Rightarrow> (RTPPayloadVP8 \<Rightarrow> vp8_pos \<Rightarrow> RTPPayloadVP8 \<times> vp8_pos option)
     \<Rightarrow> RTPPayloadVP8 \<times> vp8_pos option \<Rightarrow> RTPPayloadVP8 \<times> vp8_pos option" where
  "optional c f r = (case r of (vp8, Some pos) \<Rightarrow> if c then f vp8 pos else (vp8, Some pos) | (vp8, None) \<Rightarrow> (vp8, None))"

definition ParseVP8Extension :: "mem \<Rightarrow> RTPPayloadVP8 \<Rightarrow> nat \<Rightarrow> int \<Rightarrow> RTPPayloadVP8 \<times> vp8_pos option" where
  "ParseVP8Extension m vp8 p len =
     (if len \<le> 0 then (vp8, None)
      else let vp8 = vp8\<lparr>hasPictureID := (m p AND 0x80 \<noteq> 0), hasTl0PicIdx := (m p AND 0x40 \<noteq> 0),
                         hasTID := (m p AND 0x20 \<noteq> 0), hasKeyIdx := (m p AND 0x10 \<noteq> 0)\<rparr>;
               r = (vp8, Some (p + 1, len - 1, 1));
               r = optional (hasPictureID vp8) (ParseVP8PictureID m) r;
               r = optional (hasTl0PicIdx vp8) (ParseVP8Tl0PicIdx m) r
           in optional (hasTID vp8 \<or> hasKeyIdx vp8) (ParseVP8TIDAndKeyIdx m) r)"

text \<open>The part of \<^verbatim>\<open>parseVP8\<close> after the descriptor.\<close>

definition parse_vp8_frame :: "mem \<Rightarrow> RTPPayloadVP8 \<Rightarrow> nat \<Rightarrow> int \<Rightarrow> RTPPayloadVP8" where
  "parse_vp8_frame m vp8 p len =
     (if len \<le> 0 then vp8
      else let vp8 = vp8\<lparr>frameType := (if len > 0 \<and> beginningOfPartition vp8 \<and> partitionID vp8 = 0
                           then if m p AND 0x01 \<noteq> 0 then kVP8PFrame else kVP8IFrame else kVP8PFrame)\<rparr>
           in (fst (ParseVP8FrameSize m vp8 p len))\<lparr>vp8_data := p, dataLength := len\<rparr>)"

definition parseVP8 :: "mem \<Rightarrow> nat \<Rightarrow> int \<Rightarrow> RTPPayloadVP8" where
  "parseVP8 m p len =
     (let extension = (m p AND 0x80 \<noteq> 0);
          vp8 = new_RTPPayloadVP8\<lparr>nonReferenceFrame := (m p AND 0x20 \<noteq> 0),
                  beginningOfPartition := (m p AND 0x10 \<noteq> 0), partitionID := u8i (m p AND 0x0F)\<rparr>
      in if partitionID vp8 > 8 then vp8
         else if extension
         then case ParseVP8Extension m vp8 (p + 1) (len - 1) of
                (vp8, None) \<Rightarrow> vp8
              | (vp8, Some (_, _, parsed)) \<Rightarrow> parse_vp8_frame m vp8 (p + 1 + nat parsed) (len - 1 - parsed)
         else parse_vp8_frame m vp8 (p + 1) (len - 1))"

definition setVP8PictureID :: "nat \<Rightarrow> int \<Rightarrow> int \<Rightarrow> mem \<Rightarrow> mem" where
  "setVP8PictureID p len new_picture_id m =
     (let extension = (m p AND 0x80 \<noteq> 0); p = p + 1; len = len - 1
      in if extension
         then if len \<le> 0 then m
              else let has_picture_id = (m p AND 0x80 \<noteq> 0); p = p + 1; len = len - 1
                in if has_picture_id
                   then if len \<le> 0 then m
                        else let pic_id = word_of_int new_picture_id :: u16;
                                 picture_id_len = (if m p AND 0x80 \<noteq> 0 then 2 else 1)
                             in if picture_id_len > len then m
                                else if picture_id_len = 2
                                then store8 (p + 1) (ucast (pic_id AND 0xFF))
                                       (store8 p (0x80 OR ucast (drop_bit 8 pic_id AND 0x7F)) m)
                                else store8 p (ucast (pic_id AND 0x7F)) m
                   else m
         else m)"

subsection \<open>What the parser reads\<close>

lemma ParseVP8PictureID_cong:
  "(\<And>i. p \<le> i \<Longrightarrow> int i < int p + len \<Longrightarrow> m i = m' i) \<Longrightarrow>
    ParseVP8PictureID m vp8 (p, len, n) = ParseVP8PictureID m' vp8 (p, len, n)"
  by (simp add: ParseVP8PictureID_def Let_def)

lemma ParseVP8Tl0PicIdx_cong:
  "(\<And>i. p \<le> i \<Longrightarrow> int i < int p + len \<Longrightarrow> m i = m' i) \<Longrightarrow>
    ParseVP8Tl0PicIdx m vp8 (p, len, n) = ParseVP8Tl0PicIdx m' vp8 (p, len, n)"
  by (simp add: ParseVP8Tl0PicIdx_def Let_def)

lemma ParseVP8TIDAndKeyIdx_cong:
  "(\<And>i. p \<le> i \<Longrightarrow> int i < int p + len \<Longrightarrow> m i = m' i) \<Longrightarrow>
    ParseVP8TIDAndKeyIdx m vp8 (p, len, n) = ParseVP8TIDAndKeyIdx m' vp8 (p, len, n)"
  by (simp add: ParseVP8TIDAndKeyIdx_def Let_def)

text \<open>A position within the \<open>len\<close> bytes from \<open>p0\<close> on.\<close>

definition pos_in :: "nat \<Rightarrow> int \<Rightarrow> vp8_pos \<Rightarrow> bool" where
  "pos_in p0 len pos \<longleftrightarrow> (case pos of (p, l, n) \<Rightarrow>
     int p = int p0 + n \<and> l = len - n \<and> 0 \<le> l \<and> 1 \<le> n)"

lemma pos_in_steps:
  "pos_in p0 len pos \<Longrightarrow> ParseVP8PictureID m vp8 pos = (vp8', Some pos') \<Longrightarrow> pos_in p0 len pos'"
  "pos_in p0 len pos \<Longrightarrow> ParseVP8Tl0PicIdx m vp8 pos = (vp8', Some pos') \<Longrightarrow> pos_in p0 len pos'"
  "pos_in p0 len pos \<Longrightarrow> ParseVP8TIDAndKeyIdx m vp8 pos = (vp8', Some pos') \<Longrightarrow> pos_in p0 len pos'"
  by (auto simp: pos_in_def ParseVP8PictureID_def ParseVP8Tl0PicIdx_def ParseVP8TIDAndKeyIdx_def
      advance_def Let_def split: if_splits)

lemma optional_pos_in:
  assumes "\<And>vp8 pos vp8' pos'. pos_in p0 len pos \<Longrightarrow> f vp8 pos = (vp8', Some pos') \<Longrightarrow> pos_in p0 len pos'"
    "\<And>pos. snd r = Some pos \<Longrightarrow> pos_in p0 len pos" "snd (optional c f r) = Some pos"
  shows "pos_in p0 len pos"
proof (cases r)
  case (Pair vp8 o')
  then show ?thesis
    using assms by (cases o') (auto simp: optional_def split: if_splits intro: assms(1) [OF _ prod_eqI])
qed

lemma optional_cong_pos:
  assumes "\<And>pos. snd r = Some pos \<Longrightarrow> f (fst r) pos = g (fst r) pos"
  shows "optional c f r = optional c g r"
  using assms by (cases r) (auto simp: optional_def split: option.split)

lemma ParseVP8Extension_cong:
  assumes "\<And>i. p \<le> i \<Longrightarrow> int i < int p + len \<Longrightarrow> m i = m' i"
  shows "ParseVP8Extension m vp8 p len = ParseVP8Extension m' vp8 p len
    \<and> (\<forall>pos. snd (ParseVP8Extension m vp8 p len) = Some pos \<longrightarrow> pos_in p len pos)"
proof (cases "len \<le> 0")
  case False
  have c: "m i = m' i" if "pos_in p len (q, l, n)" "q \<le> i" "int i < int q + l" for i q l n
    using that by (intro assms) (auto simp: pos_in_def)
  have e: "f m vp8 pos = f m' vp8 pos" if "pos_in p len pos"
    "\<And>q l n. (\<And>i. q \<le> i \<Longrightarrow> int i < int q + l \<Longrightarrow> m i = m' i) \<Longrightarrow> f m vp8 (q, l, n) = f m' vp8 (q, l, n)"
    for f :: "mem \<Rightarrow> RTPPayloadVP8 \<Rightarrow> vp8_pos \<Rightarrow> RTPPayloadVP8 \<times> vp8_pos option" and vp8 pos
    using that c by (cases pos) blast
  let ?v = "vp8\<lparr>hasPictureID := (m p AND 0x80 \<noteq> 0), hasTl0PicIdx := (m p AND 0x40 \<noteq> 0),
      hasTID := (m p AND 0x20 \<noteq> 0), hasKeyIdx := (m p AND 0x10 \<noteq> 0)\<rparr>"
  let ?r0 = "(?v, Some (p + 1, len - 1, 1)) :: RTPPayloadVP8 \<times> vp8_pos option"
  let ?r1 = "optional (hasPictureID ?v) (ParseVP8PictureID m) ?r0"
  let ?r2 = "optional (hasTl0PicIdx ?v) (ParseVP8Tl0PicIdx m) ?r1"
  have p0: "pos_in p len pos" if "snd ?r0 = Some pos" for pos
    using that False by (auto simp: pos_in_def)
  have p1: "pos_in p len pos" if "snd ?r1 = Some pos" for pos
    by (rule optional_pos_in [OF pos_in_steps(1) p0 that]) auto
  have p2: "pos_in p len pos" if "snd ?r2 = Some pos" for pos
    by (rule optional_pos_in [OF pos_in_steps(2) p1 that]) auto
  have p3: "pos_in p len pos" if "snd (optional (hasTID ?v \<or> hasKeyIdx ?v) (ParseVP8TIDAndKeyIdx m) ?r2) = Some pos" for pos
    by (rule optional_pos_in [OF pos_in_steps(3) p2 that]) auto
  have mp: "m' p = m p" using False by (intro assms [symmetric]) auto
  have r1: "optional (hasPictureID ?v) (ParseVP8PictureID m') ?r0 = ?r1"
    by (rule optional_cong_pos, rule e [of _ ParseVP8PictureID, symmetric], erule p0, rule ParseVP8PictureID_cong) blast
  have r2: "optional (hasTl0PicIdx ?v) (ParseVP8Tl0PicIdx m') ?r1 = ?r2"
    by (rule optional_cong_pos, rule e [of _ ParseVP8Tl0PicIdx, symmetric], erule p1, rule ParseVP8Tl0PicIdx_cong) blast
  have r3: "optional (hasTID ?v \<or> hasKeyIdx ?v) (ParseVP8TIDAndKeyIdx m') ?r2
      = optional (hasTID ?v \<or> hasKeyIdx ?v) (ParseVP8TIDAndKeyIdx m) ?r2"
    by (rule optional_cong_pos, rule e [of _ ParseVP8TIDAndKeyIdx, symmetric], erule p2, rule ParseVP8TIDAndKeyIdx_cong) blast
  have A: "ParseVP8Extension m vp8 p len = optional (hasTID ?v \<or> hasKeyIdx ?v) (ParseVP8TIDAndKeyIdx m) ?r2"
    using False by (simp only: ParseVP8Extension_def Let_def if_False)
  have B: "ParseVP8Extension m' vp8 p len = optional (hasTID ?v \<or> hasKeyIdx ?v) (ParseVP8TIDAndKeyIdx m) ?r2"
    using False by (simp only: ParseVP8Extension_def Let_def if_False mp r1 r2 r3)
  show ?thesis
  proof (intro conjI allI impI)
    show "ParseVP8Extension m vp8 p len = ParseVP8Extension m' vp8 p len" by (simp only: A B)
    fix pos assume "snd (ParseVP8Extension m vp8 p len) = Some pos"
    then show "pos_in p len pos" unfolding A by (rule p3)
  qed
qed (simp add: ParseVP8Extension_def)

lemma parse_vp8_frame_cong:
  "(\<And>i. p \<le> i \<Longrightarrow> int i < int p + len \<Longrightarrow> m i = m' i) \<Longrightarrow> parse_vp8_frame m vp8 p len = parse_vp8_frame m' vp8 p len"
  by (simp add: parse_vp8_frame_def ParseVP8FrameSize_def Let_def)

lemma parseVP8_cong:
  assumes "1 \<le> len" "\<And>i. p \<le> i \<Longrightarrow> int i < int p + len \<Longrightarrow> m i = m' i"
  shows "parseVP8 m p len = parseVP8 m' p len"
proof -
  have mp: "m' p = m p" using assms(1) by (intro assms(2) [symmetric]) auto
  have e: "ParseVP8Extension m vp8 (p + 1) (len - 1) = ParseVP8Extension m' vp8 (p + 1) (len - 1)"
    and pos: "snd (ParseVP8Extension m vp8 (p + 1) (len - 1)) = Some pos \<Longrightarrow> pos_in (p + 1) (len - 1) pos" for vp8 pos
    using ParseVP8Extension_cong [of "p + 1" "len - 1" m m' vp8] assms(2) by auto
  have f: "parse_vp8_frame m vp8 (p + 1) (len - 1) = parse_vp8_frame m' vp8 (p + 1) (len - 1)" for vp8
    by (rule parse_vp8_frame_cong) (auto intro: assms(2))
  have g: "parse_vp8_frame m vp8 (p + 1 + nat n) (len - 1 - n) = parse_vp8_frame m' vp8 (p + 1 + nat n) (len - 1 - n)"
    if "pos_in (p + 1) (len - 1) (q, l, n)" for vp8 q l n
    using that by (intro parse_vp8_frame_cong assms(2)) (auto simp: pos_in_def)
  let ?v = "new_RTPPayloadVP8\<lparr>nonReferenceFrame := (m p AND 0x20 \<noteq> 0),
                  beginningOfPartition := (m p AND 0x10 \<noteq> 0), partitionID := u8i (m p AND 0x0F)\<rparr>"
  obtain v o' where x: "ParseVP8Extension m ?v (p + 1) (len - 1) = (v, o')" by fastforce
  then have x': "ParseVP8Extension m' ?v (p + 1) (len - 1) = (v, o')" using e by simp
  show ?thesis
  proof (cases o')
    case None
    then show ?thesis using x x' f by (simp add: parseVP8_def Let_def mp)
  next
    case (Some pos)
    obtain q l n where pos': "pos = (q, l, n)" by (cases pos) auto
    then have "parse_vp8_frame m v (p + 1 + nat n) (len - 1 - n) = parse_vp8_frame m' v (p + 1 + nat n) (len - 1 - n)"
      using g pos [of ?v pos] x Some by simp
    then show ?thesis using x x' f Some pos' by (simp add: parseVP8_def Let_def mp)
  qed
qed

subsection \<open>Setting the picture id\<close>

lemma pictureID_kept:
  "pictureID (fst (ParseVP8Tl0PicIdx m v pos)) = pictureID v"
  "pictureID (fst (ParseVP8TIDAndKeyIdx m v pos)) = pictureID v"
  "pictureID (parse_vp8_frame m v p len) = pictureID v"
  by (auto simp: ParseVP8Tl0PicIdx_def ParseVP8TIDAndKeyIdx_def parse_vp8_frame_def ParseVP8FrameSize_def
      Let_def split: prod.split)

lemma pictureID_optional:
  "(\<And>v pos. pictureID (fst (f v pos)) = pictureID v) \<Longrightarrow> pictureID (fst (optional c f r)) = pictureID (fst r)"
  by (cases r) (auto simp: optional_def split: option.split)

lemma pictureID_parse:
  assumes "m p AND 0x80 \<noteq> 0" "m (p + 1) AND 0x80 \<noteq> 0" "u8i (m p AND 0x0F) \<le> 8" "4 \<le> len"
  shows "pictureID (parseVP8 m p len) =
    (if m (p + 2) AND 0x80 \<noteq> 0 then u8i (m (p + 2) AND 0x7F) * 256 + u8i (m (p + 3)) else u8i (m (p + 2) AND 0x7F))"
proof -
  let ?v = "new_RTPPayloadVP8\<lparr>nonReferenceFrame := (m p AND 0x20 \<noteq> 0),
                  beginningOfPartition := (m p AND 0x10 \<noteq> 0), partitionID := u8i (m p AND 0x0F)\<rparr>"
  have "pictureID (fst (ParseVP8Extension m ?v (p + 1) (len - 1))) =
    (if m (p + 2) AND 0x80 \<noteq> 0 then u8i (m (p + 2) AND 0x7F) * 256 + u8i (m (p + 3)) else u8i (m (p + 2) AND 0x7F))"
    using assms(2,4)
    by (simp add: ParseVP8Extension_def Let_def pictureID_optional pictureID_kept)
      (simp add: optional_def ParseVP8PictureID_def Let_def eval_nat_numeral)
  moreover have "pictureID (parseVP8 m p len) = pictureID (fst (ParseVP8Extension m ?v (p + 1) (len - 1)))"
    using assms(1,3) by (auto simp: parseVP8_def Let_def pictureID_kept split: prod.split option.split)
  ultimately show ?thesis by simp
qed

lemma pic_id_bytes:
  fixes pic :: u16
  shows "unat ((0x80 OR ucast (drop_bit 8 pic AND 0x7F) :: u8) AND 0x7F) = unat pic div 256 mod 128"
    and "unat (ucast (pic AND 0xFF) :: u8) = unat pic mod 256"
    and "unat (ucast (pic AND 0x7F) AND 0x7F :: u8) = unat pic mod 128"
    and "(0x80 OR ucast (drop_bit 8 pic AND 0x7F) :: u8) AND 0x80 \<noteq> 0"
    and "(ucast (pic AND 0x7F) :: u8) AND 0x80 = 0"
proof -
  have m: "(0x7F :: u16) = mask 7" "(0x7F :: u8) = mask 7" "(0xFF :: u16) = mask 8"
    by (simp_all add: mask_eq_exp_minus_1)
  have or80: "(0x80 OR x :: u8) AND 0x7F = x AND 0x7F" "(0x80 OR x :: u8) AND 0x80 = 0x80 OR (x AND 0x80)" for x
    by (simp_all add: bit.conj_disj_distrib2)
  have a1: "(0x80 OR ucast (drop_bit 8 pic AND 0x7F) :: u8) AND 0x7F = ucast (take_bit 7 (drop_bit 8 pic))"
    unfolding or80 unfolding m by (rule bit_word_eqI) (auto simp: bit_simps)
  have a2: "(ucast (pic AND 0x7F) AND 0x7F :: u8) = ucast (take_bit 7 pic)"
    unfolding m by (rule bit_word_eqI) (auto simp: bit_simps)
  have a3: "(ucast (pic AND 0xFF) :: u8) = ucast (take_bit 8 pic)"
    unfolding m by (rule bit_word_eqI) (auto simp: bit_simps)
  show "unat ((0x80 OR ucast (drop_bit 8 pic AND 0x7F) :: u8) AND 0x7F) = unat pic div 256 mod 128"
    unfolding a1 by (simp add: unat_ucast_mod unat_take_bit unat_drop_bit mod_mod_cancel)
  show "unat (ucast (pic AND 0xFF) :: u8) = unat pic mod 256"
    unfolding a3 by (simp add: unat_ucast_mod unat_take_bit)
  show "unat (ucast (pic AND 0x7F) AND 0x7F :: u8) = unat pic mod 128"
    unfolding a2 by (simp add: unat_ucast_mod unat_take_bit mod_mod_cancel)
  have and80: "((x :: u8) AND 0x7F) AND 0x80 = 0" for x
    by (simp add: and.assoc)
  have lo: "(ucast (w AND 0x7F) :: u8) = ucast w AND 0x7F" for w :: u16
    unfolding m by (rule bit_word_eqI) (auto simp: bit_simps)
  show "(ucast (pic AND 0x7F) :: u8) AND 0x80 = 0" by (simp only: lo and80)
  show "(0x80 OR ucast (drop_bit 8 pic AND 0x7F) :: u8) AND 0x80 \<noteq> 0"
    unfolding or80 by (simp only: lo and80) simp
qed

lemma picture_id_byte_bits:
  fixes n :: int
  shows "unat (word_of_int n :: u16) = nat (n mod 65536)"
  by (simp add: unat_eq_nat_uint uint_word_of_int)

lemma setVP8PictureID_bytes:
  assumes "m p AND 0x80 \<noteq> 0" "m (p + 1) AND 0x80 \<noteq> 0" "4 \<le> len"
  shows "setVP8PictureID p len n m = (if m (p + 2) AND 0x80 \<noteq> 0
    then m(p + 2 := 0x80 OR ucast (drop_bit 8 (word_of_int n :: u16) AND 0x7F), p + 3 := ucast ((word_of_int n :: u16) AND 0xFF))
    else m(p + 2 := ucast ((word_of_int n :: u16) AND 0x7F)))"
  using assms by (simp add: setVP8PictureID_def Let_def store8_def eval_nat_numeral)

text \<open>
  Setting the picture id of a VP8 packet and parsing the packet gives the id back, in the
  15 bits or in the 7 bits that the packet reserves for it, and the setter changes no byte but
  those of the id.
\<close>
theorem vp8_picture_id_roundtrip:
  assumes "m p AND 0x80 \<noteq> 0" "m (p + 1) AND 0x80 \<noteq> 0" "u8i (m p AND 0x0F) \<le> 8" "4 \<le> len"
  shows "pictureID (parseVP8 (setVP8PictureID p len n m) p len)
      = (if m (p + 2) AND 0x80 \<noteq> 0 then n mod 32768 else n mod 128)
    \<and> (\<forall>i. i \<noteq> p + 2 \<and> i \<noteq> p + 3 \<longrightarrow> setVP8PictureID p len n m i = m i)"
proof -
  let ?w = "word_of_int n :: u16" and ?m = "setVP8PictureID p len n m"
  note set = setVP8PictureID_bytes [OF assms(1,2,4), of n]
  have kept: "?m p = m p" "?m (p + 1) = m (p + 1)" unfolding set by simp_all
  have parse: "pictureID (parseVP8 ?m p len) = (if ?m (p + 2) AND 0x80 \<noteq> 0
      then u8i (?m (p + 2) AND 0x7F) * 256 + u8i (?m (p + 3)) else u8i (?m (p + 2) AND 0x7F))"
    by (rule pictureID_parse) (use assms kept in simp_all)
  have "pictureID (parseVP8 ?m p len) = (if m (p + 2) AND 0x80 \<noteq> 0 then n mod 32768 else n mod 128)"
  proof (cases "m (p + 2) AND 0x80 = 0")
    case True
    then have "?m (p + 2) = ucast (?w AND 0x7F)" unfolding set by simp
    then have "pictureID (parseVP8 ?m p len) = int (nat (n mod 65536) mod 128)"
      using pic_id_bytes(3,5) [of ?w] by (simp only: parse u8i_def picture_id_byte_bits) simp
    then show ?thesis using True by (simp add: zmod_int mod_mod_cancel)
  next
    case False
    then have m2: "?m (p + 2) = 0x80 OR ucast (drop_bit 8 ?w AND 0x7F)" "?m (p + 3) = ucast (?w AND 0xFF)"
      unfolding set by simp_all
    have "pictureID (parseVP8 ?m p len)
        = int (nat (n mod 65536) div 256 mod 128) * 256 + int (nat (n mod 65536) mod 256)"
      unfolding parse m2 u8i_def pic_id_bytes(1,2) picture_id_byte_bits using pic_id_bytes(4) [of ?w] by (simp only: if_True simp_thms)
    also have "\<dots> = n mod 65536 mod (256 * 128)"
      using zmod_zmult2_eq [of 128 "n mod 65536" 256] by (simp only: zmod_int zdiv_int) simp
    also have "\<dots> = n mod 32768" by (simp add: mod_mod_cancel)
    finally show ?thesis using False by simp
  qed
  then show ?thesis unfolding set by simp
qed

theorem vp8_picture_id_roundtrip_witness:
  "pictureID (parseVP8 (setVP8PictureID 0 10 40000 ((\<lambda>_. 0)(0 := 0x80, 1 := 0x80, 2 := 0x80))) 0 10) = 7232"
  using vp8_picture_id_roundtrip [of "(\<lambda>_. 0)(0 := 0x80, 1 := 0x80, 2 := 0x80)" 0 10 40000] by (simp add: u8i_def)

text \<open>
  The VP8 parser reads no byte beyond the length it is given: two buffers that agree on the
  first \<open>len\<close> bytes of the payload are parsed alike, whatever flags the descriptor has.
\<close>
theorem vp8_parser_reads_within:
  assumes "1 \<le> len" "\<And>i. p \<le> i \<Longrightarrow> int i < int p + len \<Longrightarrow> m i = m' i"
  shows "parseVP8 m p len = parseVP8 m' p len"
  by (rule parseVP8_cong [OF assms])

theorem vp8_parser_reads_within_witness:
  "parseVP8 (\<lambda>_. 0xF0) 0 3 = parseVP8 (\<lambda>i. if i < 3 then 0xF0 else 0) 0 3"
  by (rule vp8_parser_reads_within) simp_all

subsection \<open>Fragmenting a frame\<close>

record Fragment =
  frag_position :: nat
  frag_size :: nat
  frag_first :: bool

text \<open>\<^verbatim>\<open>MAX_SIZE\<close>: the descriptor included.\<close>

abbreviation MAX_SIZE :: nat where
  "MAX_SIZE \<equiv> 1100"

function calculatePackets :: "nat \<Rightarrow> nat \<Rightarrow> Fragment list" where
  "calculatePackets currentPos remaining =
     (if remaining > 0
      then let size = (if remaining > MAX_SIZE - 1 then MAX_SIZE - 1 else remaining)
           in \<lparr>frag_position = currentPos, frag_size = size, frag_first = (currentPos = 0)\<rparr>
              # calculatePackets (currentPos + size) (remaining - size)
      else [])"
  by pat_completeness auto
termination by (relation "measure snd") auto

declare calculatePackets.simps [simp del]

definition writeFragment :: "mem \<Rightarrow> Fragment \<Rightarrow> mem \<Rightarrow> mem \<times> nat" where
  "writeFragment totalData f buffer =
     (let buffer = store8 0 0 buffer;
          buffer = (if frag_first f then store8 0 (buffer 0 OR 0x10) buffer else buffer)
      in (copy_mem 1 (\<lambda>i. totalData (frag_position f + i)) (frag_size f) buffer, frag_size f + 1))"

text \<open>The queue, the caller's buffer, and its \<^verbatim>\<open>length\<close> and \<^verbatim>\<open>lastPacket\<close>.\<close>

definition getPacket ::
  "mem \<Rightarrow> Fragment list \<Rightarrow> mem \<Rightarrow> nat \<Rightarrow> bool \<Rightarrow> Fragment list \<times> mem \<times> nat \<times> bool" where
  "getPacket totalData q buf len lastPacket =
     (case q of [] \<Rightarrow> (q, buf, len, lastPacket)
      | f # q \<Rightarrow> let (buf, len) = writeFragment totalData f buf
                 in (q, buf, len, if q = [] then True else lastPacket))"

text \<open>The caller's loop: it asks for packets until one is the last, at most \<open>n\<close> times.\<close>

fun fragments :: "nat \<Rightarrow> mem \<Rightarrow> Fragment list \<Rightarrow> mem \<Rightarrow> (mem \<times> nat \<times> bool) list" where
  "fragments 0 totalData q buf = []"
| "fragments (Suc n) totalData q buf =
     (let (q, buf, len, lastPacket) = getPacket totalData q buf 0 False
      in (buf, len, lastPacket) # (if lastPacket then [] else fragments n totalData q buf))"

definition fragment_payload :: "mem \<times> nat \<times> bool \<Rightarrow> u8 list" where
  "fragment_payload f = (case f of (buf, len, _) \<Rightarrow> map buf [1..<len])"

lemma writeFragment_payload:
  "writeFragment totalData f buf = (d, n) \<Longrightarrow>
    map d [1..<n] = map totalData [frag_position f..<frag_position f + frag_size f]
    \<and> n = frag_size f + 1 \<and> d 0 = (if frag_first f then 0x10 else 0)"
  by (auto simp: writeFragment_def Let_def copy_mem_def store8_def simp del: upt_Suc intro!: nth_equalityI split: if_splits)

lemma calculatePackets_Nil [simp]: "calculatePackets pos n = [] \<longleftrightarrow> n = 0"
  by (subst calculatePackets.simps) (simp add: Let_def)

lemma fragments_whole:
  assumes "0 < n" "n \<le> k"
  shows "concat (map fragment_payload (fragments k frame (calculatePackets pos n) buf)) = map frame [pos..<pos + n]
    \<and> (\<forall>(d, l, e) \<in> set (fragments k frame (calculatePackets pos n) buf). 2 \<le> l \<and> l \<le> MAX_SIZE)
    \<and> (\<exists>j. map (\<lambda>(d, l, e). (d 0, e)) (fragments k frame (calculatePackets pos n) buf)
         = zip ((if pos = 0 then 0x10 else 0) # replicate j 0) (replicate j False @ [True]))"
  using assms
proof (induction k arbitrary: pos n buf)
  case (Suc k)
  obtain w where s: "w = (if n > MAX_SIZE - 1 then MAX_SIZE - 1 else n)" "0 < w" "w < MAX_SIZE" "w \<le> n"
    using Suc.prems by (intro that [OF refl]) auto
  let ?f = "\<lparr>frag_position = pos, frag_size = w, frag_first = (pos = 0)\<rparr>"
  let ?q = "calculatePackets (pos + w) (n - w)"
  have c: "calculatePackets pos n = ?f # ?q"
    using Suc.prems by (subst calculatePackets.simps) (simp only: Let_def if_True s(1) [symmetric])
  obtain d l where wf: "writeFragment frame ?f buf = (d, l)" by (cases "writeFragment frame ?f buf")
  have wp: "map d [1..<l] = map frame [pos..<pos + w]" "l = w + 1" "d 0 = (if pos = 0 then 0x10 else 0)"
    using writeFragment_payload [OF wf] by (auto simp del: upt_Suc)
  have f: "fragments (Suc k) frame (calculatePackets pos n) buf
    = (d, l, n = w) # (if n = w then [] else fragments k frame ?q d)"
    using s(4) unfolding c fragments.simps getPacket_def
    by (simp only: list.case wf Let_def prod.case calculatePackets_Nil) simp
  show ?case
  proof (cases "n = w")
    case True
    then show ?thesis unfolding f using wp s(2,3)
      by (auto simp: fragment_payload_def simp del: upt_Suc intro!: exI [of _ 0])
  next
    case False
    then have "0 < n - w" "n - w \<le> k" "pos + w \<noteq> 0" using s Suc.prems by linarith+
    note ih = Suc.IH [OF this(1,2), of "pos + w" d]
    have app: "map frame [pos..<pos + w] @ map frame [pos + w..<pos + w + (n - w)] = map frame [pos..<pos + n]"
      using s by (simp only: map_append [symmetric] upt_add_eq_append [symmetric]) simp
    show ?thesis
    proof (intro conjI)
      show "concat (map fragment_payload (fragments (Suc k) frame (calculatePackets pos n) buf)) = map frame [pos..<pos + n]"
        unfolding f using False ih wp(1) app by (simp add: fragment_payload_def [of "(d, l, _)"])
      show "\<forall>(d, l, e) \<in> set (fragments (Suc k) frame (calculatePackets pos n) buf). 2 \<le> l \<and> l \<le> MAX_SIZE"
        unfolding f using False ih wp(2) s(2,3) by auto
      obtain j where "map (\<lambda>(d, l, e). (d 0, e)) (fragments k frame ?q d) = zip (0 # replicate j 0) (replicate j False @ [True])"
        using ih \<open>pos + w \<noteq> 0\<close> by (auto simp only: if_False)
      then show "\<exists>j. map (\<lambda>(d, l, e). (d 0, e)) (fragments (Suc k) frame (calculatePackets pos n) buf)
         = zip ((if pos = 0 then 0x10 else 0) # replicate j 0) (replicate j False @ [True])"
        unfolding f using False wp(3) by (intro exI [of _ "Suc j"]) simp
    qed
  qed
qed simp

text \<open>
  C9: The packets of a frame, put together without their descriptors, are the frame: no byte is
  lost, repeated or reordered. No packet exceeds \<^verbatim>\<open>MAX_SIZE\<close>, only the first has the start bit,
  and \<^verbatim>\<open>lastPacket\<close> is reported for the last one and no other.
\<close>
theorem vp8_fragments_are_the_frame:
  assumes "0 < n"
  shows "concat (map fragment_payload (fragments n frame (calculatePackets 0 n) buf)) = map frame [0..<n]
    \<and> (\<forall>(d, l, e) \<in> set (fragments n frame (calculatePackets 0 n) buf). 2 \<le> l \<and> l \<le> MAX_SIZE)
    \<and> (\<exists>j. map (\<lambda>(d, l, e). (d 0, e)) (fragments n frame (calculatePackets 0 n) buf)
         = zip (0x10 # replicate j 0) (replicate j False @ [True]))"
  using fragments_whole [OF assms order_refl, of frame 0 buf] by simp

theorem vp8_fragments_are_the_frame_witness:
  "length (concat (map fragment_payload (fragments 3000 (\<lambda>i. of_nat i) (calculatePackets 0 3000) (\<lambda>_. 0)))) = 3000"
  using vp8_fragments_are_the_frame [of 3000 "\<lambda>i. of_nat i" "\<lambda>_. 0"] by simp

end
