(* ===== verification/RtpVP9Parser.thy ===== *)
theory RtpVP9Parser
  imports RtpVP8Parser
begin

text \<open>
  \<^verbatim>\<open>RtpVP9Parser\<close>: the payload descriptor of VP9. The parser is not told where the buffer
  ends while it reads (its length argument is only stored), and the loop over the references of
  flexible mode ends when a byte says so: it is a partial function, and \<open>None\<close> means that no byte
  ever does. The specification is the descriptor as a value and its bytes, in the layout drawn in
  the comment of the source; the main property says which descriptors the parser reads back, and
  the lemmas at the end show the ones it does not.
\<close>

datatype VP9FrameTypes = kVP9IFrame | kVP9PFrame

record RTPPayloadVP9 =
  vp9_hasPictureID :: bool
  interPicturePrediction :: bool
  hasLayerIndices :: bool
  flexibleMode :: bool
  beginningOfLayerFrame :: bool
  endingOfLayerFrame :: bool
  hasScalabilityStructure :: bool
  largePictureID :: bool
  vp9_pictureID :: int
  temporalID :: int
  isSwitchingUp :: bool
  spatialID :: int
  isInterLayeredDepUsed :: bool
  vp9_tl0PicIdx :: int
  referenceIdx :: int
  additionalReferenceIdx :: bool
  spatialLayers :: int
  hasResolution :: bool
  hasGof :: bool
  numberOfFramesInGof :: int
  resolutions :: "(int \<times> int) list"
  vp9_data :: nat
  vp9_dataLength :: int
  vp9_frameType :: VP9FrameTypes

definition new_RTPPayloadVP9 :: RTPPayloadVP9 where
  "new_RTPPayloadVP9 = \<lparr>vp9_hasPictureID = False, interPicturePrediction = False, hasLayerIndices = False,
     flexibleMode = False, beginningOfLayerFrame = False, endingOfLayerFrame = False,
     hasScalabilityStructure = False, largePictureID = False, vp9_pictureID = -1, temporalID = -1,
     isSwitchingUp = False, spatialID = -1, isInterLayeredDepUsed = False, vp9_tl0PicIdx = -1,
     referenceIdx = -1, additionalReferenceIdx = False, spatialLayers = -1, hasResolution = False,
     hasGof = False, numberOfFramesInGof = -1, resolutions = [], vp9_data = 0, vp9_dataLength = 0,
     vp9_frameType = kVP9PFrame\<rparr>"

subsection \<open>The parser, a stage at a time\<close>

text \<open>A stage takes the pointer and returns it.\<close>

definition vp9_first_byte :: "mem \<Rightarrow> nat \<Rightarrow> RTPPayloadVP9 \<Rightarrow> RTPPayloadVP9 \<times> nat" where
  "vp9_first_byte m p v =
     (v\<lparr>vp9_hasPictureID := (m p AND 0x80 \<noteq> 0),
        interPicturePrediction := (m p AND 0x40 \<noteq> 0),
        vp9_frameType := (if m p AND 0x40 \<noteq> 0 then kVP9PFrame else kVP9IFrame),
        hasLayerIndices := (m p AND 0x20 \<noteq> 0),
        flexibleMode := (m p AND 0x10 \<noteq> 0),
        beginningOfLayerFrame := (m p AND 0x08 \<noteq> 0),
        endingOfLayerFrame := (m p AND 0x04 \<noteq> 0),
        hasScalabilityStructure := (m p AND 0x02 \<noteq> 0)\<rparr>, p + 1)"

text \<open>The argument of \<^verbatim>\<open>ntohs\<close> is converted to 16 bits.\<close>

definition vp9_picture_id :: "mem \<Rightarrow> nat \<Rightarrow> RTPPayloadVP9 \<Rightarrow> RTPPayloadVP9 \<times> nat" where
  "vp9_picture_id m p v =
     (if vp9_hasPictureID v
      then let v = v\<lparr>largePictureID := (m p AND 0x80 \<noteq> 0), vp9_pictureID := u8i (m p AND 0x7F)\<rparr>
           in if largePictureID v
              then (v\<lparr>vp9_pictureID :=
                     int (unat (ntohs (word_of_int (vp9_pictureID v * 65536 + u8i (m (p + 1))))))\<rparr>, p + 2)
              else (v, p + 1)
      else (v, p))"

partial_function (option) vp9_references :: "mem \<Rightarrow> nat \<Rightarrow> RTPPayloadVP9 \<Rightarrow> (RTPPayloadVP9 \<times> nat) option" where
  "vp9_references m p v =
     (let p = p + 1;
          v = v\<lparr>referenceIdx := u8i (drop_bit 1 (m p AND 0xFE)), additionalReferenceIdx := (m p AND 0x01 \<noteq> 0)\<rparr>
      in if additionalReferenceIdx v then vp9_references m p v else Some (v, p))"

definition vp9_layers :: "mem \<Rightarrow> nat \<Rightarrow> RTPPayloadVP9 \<Rightarrow> (RTPPayloadVP9 \<times> nat) option" where
  "vp9_layers m p v =
     (if hasLayerIndices v
      then let v = v\<lparr>temporalID := u8i (drop_bit 5 (m p AND 0xE0)),
                     isSwitchingUp := (m p AND 0x10 \<noteq> 0),
                     spatialID := u8i (drop_bit 1 (m p AND 0x0E)),
                     isInterLayeredDepUsed := (m p AND 0x01 \<noteq> 0)\<rparr>
           in if flexibleMode v
              then (case vp9_references m p v of None \<Rightarrow> None | Some (v, p) \<Rightarrow> Some (v, p + 1))
              else Some (v\<lparr>vp9_tl0PicIdx := u8i (m (p + 1))\<rparr>, p + 2)
      else Some (v, p))"

fun vp9_resolutions :: "nat \<Rightarrow> mem \<Rightarrow> nat \<Rightarrow> (int \<times> int) list \<Rightarrow> (int \<times> int) list \<times> nat" where
  "vp9_resolutions 0 m p rs = (rs, p)"
| "vp9_resolutions (Suc n) m p rs =
     vp9_resolutions n m (p + 4)
       (rs @ [(u8i (m p) * 256 + u8i (m (p + 1)), u8i (m (p + 2)) * 256 + u8i (m (p + 3)))])"

fun vp9_gof_frames :: "nat \<Rightarrow> mem \<Rightarrow> nat \<Rightarrow> nat" where
  "vp9_gof_frames 0 m p = p"
| "vp9_gof_frames (Suc n) m p = vp9_gof_frames n m (p + 1 + unat (drop_bit 2 (m p AND 0x0C)))"

definition vp9_structure :: "mem \<Rightarrow> nat \<Rightarrow> RTPPayloadVP9 \<Rightarrow> RTPPayloadVP9 \<times> nat" where
  "vp9_structure m p v =
     (if hasScalabilityStructure v
      then let v = v\<lparr>spatialLayers := u8i (drop_bit 5 (m p AND 0xE0)),
                     hasResolution := (m p AND 0x10 \<noteq> 0), hasGof := (m p AND 0x08 \<noteq> 0)\<rparr>;
               p = p + 1;
               (v, p) = (if hasResolution v
                         then let (rs, p) = vp9_resolutions (nat (spatialLayers v + 1)) m p (resolutions v)
                              in (v\<lparr>resolutions := rs\<rparr>, p)
                         else (v, p))
           in if hasGof v
              then let v = v\<lparr>numberOfFramesInGof := u8i (m p)\<rparr>
                   in (v, vp9_gof_frames (nat (numberOfFramesInGof v)) m (p + 1))
              else (v, p)
      else (v, p))"

definition parseVP9 :: "mem \<Rightarrow> nat \<Rightarrow> int \<Rightarrow> RTPPayloadVP9 option" where
  "parseVP9 m p len =
     (let (v, p) = vp9_first_byte m p new_RTPPayloadVP9;
          (v, p) = vp9_picture_id m p v
      in case vp9_layers m p v of
           None \<Rightarrow> None
         | Some (v, p) \<Rightarrow>
             let (v, p) = vp9_structure m p v
             in Some (v\<lparr>vp9_data := p, vp9_dataLength := len\<rparr>))"


subsection \<open>Fields of a byte\<close>

lemma u8_eqI:
  assumes "list_all (\<lambda>n. bit v n = bit w n) [0..<8]"
  shows "v = (w :: u8)"
  by (rule bit_word_eqI) (use assms in \<open>simp add: list_all_iff\<close>)

lemma u8_bit: "bit (x :: u8) n \<longleftrightarrow> odd (unat x div 2 ^ n)"
  by (simp flip: bit_iff_odd add: bit_unsigned_iff)

lemma u8_fields:
  fixes x :: u8
  shows "unat (drop_bit 5 (x AND 0xE0)) = unat x div 32"
    and "x AND 0x10 \<noteq> 0 \<longleftrightarrow> odd (unat x div 16)"
    and "x AND 0x08 \<noteq> 0 \<longleftrightarrow> odd (unat x div 8)"
    and "unat (drop_bit 1 (x AND 0x0E)) = unat x div 2 mod 8"
    and "unat (drop_bit 1 (x AND 0xFE)) = unat x div 2"
    and "unat (drop_bit 2 (x AND 0x0C)) = unat x div 4 mod 4"
    and "x AND 0x01 \<noteq> 0 \<longleftrightarrow> odd (unat x)"
proof -
  have "drop_bit 5 (x AND 0xE0) = drop_bit 5 x" by (rule u8_eqI) (auto simp: upt_rec bit_simps dest: bit_imp_le_length)
  then show "unat (drop_bit 5 (x AND 0xE0)) = unat x div 32" by (simp add: unat_drop_bit)
  have "drop_bit 1 (x AND 0x0E) = take_bit 3 (drop_bit 1 x)" by (rule u8_eqI) (auto simp: upt_rec bit_simps dest: bit_imp_le_length)
  then show "unat (drop_bit 1 (x AND 0x0E)) = unat x div 2 mod 8" by (simp add: unat_drop_bit unat_take_bit)
  have "drop_bit 1 (x AND 0xFE) = drop_bit 1 x" by (rule u8_eqI) (auto simp: upt_rec bit_simps dest: bit_imp_le_length)
  then show "unat (drop_bit 1 (x AND 0xFE)) = unat x div 2" by (simp add: unat_drop_bit)
  have "drop_bit 2 (x AND 0x0C) = take_bit 2 (drop_bit 2 x)" by (rule u8_eqI) (auto simp: upt_rec bit_simps dest: bit_imp_le_length)
  then show "unat (drop_bit 2 (x AND 0x0C)) = unat x div 4 mod 4" by (simp add: unat_drop_bit unat_take_bit)
  have "x AND 2 ^ n \<noteq> 0 \<longleftrightarrow> odd (unat x div 2 ^ n)" for n
    by (simp only: and_exp_eq_0_iff_not_bit u8_bit not_not)
  from this [of 4] this [of 3] this [of 0]
  show "x AND 0x10 \<noteq> 0 \<longleftrightarrow> odd (unat x div 16)" "x AND 0x08 \<noteq> 0 \<longleftrightarrow> odd (unat x div 8)"
    "x AND 0x01 \<noteq> 0 \<longleftrightarrow> odd (unat x)"
    by simp_all
qed

subsection \<open>The descriptor as a value\<close>

text \<open>
  What a descriptor says, and the bytes as the parser takes them (the bytes as drawn follow below).
  A picture id of 7 bits or one of 15
  bits as its two bytes; the layer indices with, in flexible mode, one or more references and
  otherwise \<open>TL0PICIDX\<close>; the scalability structure with optional resolutions (one per layer)
  and an optional group of frames, each frame with its first byte and its references.
\<close>

datatype vp9_pid = NoPid | ShortPid nat | LongPid u8 u8

record vp9_indices =
  ix_temporal :: nat
  ix_switching :: bool
  ix_spatial :: nat
  ix_dependent :: bool

record vp9_descriptor =
  vd_pid :: vp9_pid
  vd_inter :: bool
  vd_flexible :: bool
  vd_begin :: bool
  vd_end :: bool
  vd_indices :: "vp9_indices option"
  vd_references :: "nat list"
  vd_tl0 :: u8
  vd_structure :: "(nat \<times> (nat \<times> nat) list option \<times> u8 list list option) option"

definition byte_of :: "nat \<Rightarrow> u8" where
  "byte_of n = of_nat n"

fun pid_bytes :: "vp9_pid \<Rightarrow> u8 list" where
  "pid_bytes NoPid = []"
| "pid_bytes (ShortPid n) = [byte_of n]"
| "pid_bytes (LongPid hi lo) = [0x80 OR hi, lo]"

fun reference_bytes :: "nat list \<Rightarrow> u8 list" where
  "reference_bytes [] = []"
| "reference_bytes [r] = [byte_of (2 * r)]"
| "reference_bytes (r # rs) = byte_of (2 * r + 1) # reference_bytes rs"

definition index_bytes :: "vp9_descriptor \<Rightarrow> u8 list" where
  "index_bytes d = (case vd_indices d of None \<Rightarrow> []
     | Some x \<Rightarrow> byte_of (32 * ix_temporal x + 16 * of_bool (ix_switching x) + 2 * ix_spatial x + of_bool (ix_dependent x))
         # (if vd_flexible d then reference_bytes (vd_references d) else [vd_tl0 d]))"

definition resolution_bytes :: "nat \<times> nat \<Rightarrow> u8 list" where
  "resolution_bytes r = (case r of (w, h) \<Rightarrow> [byte_of (w div 256), byte_of (w mod 256), byte_of (h div 256), byte_of (h mod 256)])"

definition structure_bytes :: "vp9_descriptor \<Rightarrow> u8 list" where
  "structure_bytes d = (case vd_structure d of None \<Rightarrow> []
     | Some (n, rs, gof) \<Rightarrow>
         byte_of (32 * n + 16 * of_bool (rs \<noteq> None) + 8 * of_bool (gof \<noteq> None))
         # (case rs of None \<Rightarrow> [] | Some rs \<Rightarrow> concat (map resolution_bytes rs))
         @ (case gof of None \<Rightarrow> [] | Some fs \<Rightarrow> byte_of (length fs) # concat fs))"

definition first_byte :: "vp9_descriptor \<Rightarrow> u8" where
  "first_byte d = (if vd_pid d \<noteq> NoPid then 0x80 else 0) OR (if vd_inter d then 0x40 else 0)
     OR (if vd_indices d \<noteq> None then 0x20 else 0) OR (if vd_flexible d then 0x10 else 0)
     OR (if vd_begin d then 0x08 else 0) OR (if vd_end d then 0x04 else 0)
     OR (if vd_structure d \<noteq> None then 0x02 else 0)"

definition descriptor_bytes :: "vp9_descriptor \<Rightarrow> u8 list" where
  "descriptor_bytes d = first_byte d # pid_bytes (vd_pid d) @ index_bytes d @ structure_bytes d"

text \<open>The ranges of the fields.\<close>

definition vp9_wf :: "vp9_descriptor \<Rightarrow> bool" where
  "vp9_wf d \<longleftrightarrow> (case vd_pid d of ShortPid n \<Rightarrow> n < 128 | _ \<Rightarrow> True)
     \<and> (case vd_indices d of None \<Rightarrow> True | Some x \<Rightarrow> ix_temporal x < 8 \<and> ix_spatial x < 8)
     \<and> vd_references d \<noteq> [] \<and> list_all (\<lambda>r. r < 128) (vd_references d)
     \<and> (case vd_structure d of None \<Rightarrow> True | Some (n, rs, gof) \<Rightarrow> n < 8
         \<and> (case rs of None \<Rightarrow> True | Some rs \<Rightarrow> length rs = n + 1 \<and> list_all (\<lambda>(w, h). w < 65536 \<and> h < 65536) rs)
         \<and> (case gof of None \<Rightarrow> True | Some fs \<Rightarrow> length fs < 256
              \<and> list_all (\<lambda>f. f \<noteq> [] \<and> length f = 1 + unat (hd f) div 4 mod 4) fs))"

text \<open>The bytes of a list stand in memory.\<close>

fun bytes_at :: "mem \<Rightarrow> nat \<Rightarrow> u8 list \<Rightarrow> bool" where
  "bytes_at m p [] \<longleftrightarrow> True"
| "bytes_at m p (b # bs) \<longleftrightarrow> m p = b \<and> bytes_at m (p + 1) bs"

lemma bytes_at_append: "bytes_at m p (xs @ ys) \<longleftrightarrow> bytes_at m p xs \<and> bytes_at m (p + length xs) ys"
  by (induction xs arbitrary: p) auto

lemma unat_byte_of: "n < 256 \<Longrightarrow> unat (byte_of n) = n"
  by (simp add: byte_of_def unat_of_nat)

lemma u8i_byte_of: "n < 256 \<Longrightarrow> u8i (byte_of n) = int n"
  by (simp add: u8i_def unat_byte_of del: of_nat_unat)

lemma vp9_references_bytes:
  assumes "rs \<noteq> []" "list_all (\<lambda>r. r < 128) rs" "bytes_at m (p + 1) (reference_bytes rs)"
  shows "vp9_references m p v = Some (v\<lparr>referenceIdx := int (last rs), additionalReferenceIdx := False\<rparr>, p + length rs)"
  using assms
proof (induction rs arbitrary: p v rule: reference_bytes.induct)
  case (2 r)
  then have "unat (m (p + 1)) = 2 * r" by (simp add: unat_byte_of)
  then have "unat (drop_bit 1 (m (p + 1) AND 0xFE)) = r" "m (p + 1) AND 0x01 = 0"
    using u8_fields(5,7) [of "m (p + 1)"] by presburger+
  then show ?case
    by (subst vp9_references.simps) (simp only: Let_def u8i_def, simp)
next
  case (3 r r' rs)
  then have "unat (m (p + 1)) = 2 * r + 1" by (simp add: unat_byte_of)
  then have "m (p + 1) AND 0x01 \<noteq> 0"
    using u8_fields(7) [of "m (p + 1)"] by presburger
  then show ?case using 3
    by (subst vp9_references.simps) (simp only: Let_def, simp)
qed simp

lemma length_reference_bytes [simp]: "length (reference_bytes rs) = length rs"
  by (induction rs rule: reference_bytes.induct) auto

lemma vp9_resolutions_bytes:
  assumes "list_all (\<lambda>(w, h). w < 65536 \<and> h < 65536) rs" "bytes_at m p (concat (map resolution_bytes rs))"
  shows "vp9_resolutions (length rs) m p acc = (acc @ map (\<lambda>(w, h). (int w, int h)) rs, p + 4 * length rs)"
  using assms
proof (induction rs arbitrary: p acc)
  case (Cons r rs)
  obtain w h where r: "r = (w, h)" by (cases r)
  then have "w div 256 < 256" "h div 256 < 256" using Cons.prems by auto
  then have v: "u8i (byte_of (w div 256)) * 256 + u8i (byte_of (w mod 256)) = int w"
    "u8i (byte_of (h div 256)) * 256 + u8i (byte_of (h mod 256)) = int h"
    by (simp_all add: u8i_byte_of zdiv_int zmod_int)
  have n4: "p + 4 = Suc (Suc (Suc (Suc p)))" by simp
  have b: "m p = byte_of (w div 256)" "m (p + 1) = byte_of (w mod 256)" "m (p + 2) = byte_of (h div 256)"
    "m (p + 3) = byte_of (h mod 256)" "bytes_at m (p + 4) (concat (map resolution_bytes rs))"
    using Cons.prems(2) by (simp_all add: r resolution_bytes_def [of "(w, h)"] n4 numeral_3_eq_3)
  show ?case using Cons.IH [OF _ b(5)] Cons.prems(1) b(1-4) v by (simp add: r)
qed simp

lemma vp9_gof_frames_bytes:
  assumes "list_all (\<lambda>f. f \<noteq> [] \<and> length f = 1 + unat (hd f) div 4 mod 4) fs" "bytes_at m p (concat fs)"
  shows "vp9_gof_frames (length fs) m p = p + length (concat fs)"
  using assms
proof (induction fs arbitrary: p)
  case (Cons f fs)
  then have f: "m p = hd f" "bytes_at m (p + length f) (concat fs)" "length f = 1 + unat (hd f) div 4 mod 4"
    by (cases f; simp add: bytes_at_append)+
  have "vp9_gof_frames (length (f # fs)) m p = vp9_gof_frames (length fs) m (p + length f)"
    by (simp only: length_Cons vp9_gof_frames.simps u8_fields f(1,3) add.assoc)
  then show ?case using Cons.IH [OF _ f(2)] Cons.prems(1) by simp
qed simp

subsection \<open>Parsing the bytes of a descriptor\<close>

text \<open>What the parser makes of a picture id: of one of 15 bits only the last byte, as the high byte.\<close>

fun parsed_pid :: "vp9_pid \<Rightarrow> int" where
  "parsed_pid NoPid = -1"
| "parsed_pid (ShortPid n) = int n"
| "parsed_pid (LongPid hi lo) = u8i lo * 256"

lemma first_byte_bits:
  "first_byte d AND 0x80 \<noteq> 0 \<longleftrightarrow> vd_pid d \<noteq> NoPid" "first_byte d AND 0x40 \<noteq> 0 \<longleftrightarrow> vd_inter d"
  "first_byte d AND 0x20 \<noteq> 0 \<longleftrightarrow> vd_indices d \<noteq> None" "first_byte d AND 0x10 \<noteq> 0 \<longleftrightarrow> vd_flexible d"
  "first_byte d AND 0x08 \<noteq> 0 \<longleftrightarrow> vd_begin d" "first_byte d AND 0x04 \<noteq> 0 \<longleftrightarrow> vd_end d"
  "first_byte d AND 0x02 \<noteq> 0 \<longleftrightarrow> vd_structure d \<noteq> None"
  by (simp_all add: first_byte_def bit.conj_disj_distrib2)

lemma vp9_picture_id_bytes:
  assumes "case pid of ShortPid n \<Rightarrow> n < 128 | _ \<Rightarrow> True" "bytes_at m p (pid_bytes pid)"
    "vp9_hasPictureID v \<longleftrightarrow> pid \<noteq> NoPid" "vp9_pictureID v = -1"
  shows "\<exists>b. vp9_picture_id m p v = (v\<lparr>largePictureID := b, vp9_pictureID := parsed_pid pid\<rparr>, p + length (pid_bytes pid))"
proof (cases pid)
  case NoPid
  then show ?thesis using assms by (intro exI [of _ "largePictureID v"]) (simp add: vp9_picture_id_def)
next
  case (ShortPid n)
  then have u: "unat (m p) = n" "n < 128" using assms(1,2) by (simp_all add: unat_byte_of)
  have "\<not> bit (m p) 7" using u by (simp add: u8_bit)
  then have "m p AND 2 ^ 7 = 0" by (simp only: and_exp_eq_0_iff_not_bit not_False_eq_True)
  moreover have "m p AND 0x7F = take_bit 7 (m p)"
    by (rule u8_eqI) (auto simp: upt_rec bit_simps dest: bit_imp_le_length)
  then have "u8i (m p AND 0x7F) = int n" using u by (simp add: u8i_def unat_take_bit del: of_nat_unat)
  ultimately show ?thesis using ShortPid assms
    by (intro exI [of _ False]) (simp add: vp9_picture_id_def)
next
  case (LongPid hi lo)
  then have u: "m p = 0x80 OR hi" "m (p + 1) = lo" using assms(2) by simp_all
  have a: "(0x80 OR hi) AND 0x80 \<noteq> 0" by (simp add: bit.conj_disj_distrib2)
  have "unat (ntohs (word_of_int (u8i x * 65536 + u8i lo))) = unat lo * 256" for x
  proof -
    have "(word_of_int (u8i x * 65536 + u8i lo) :: u16) = word_of_int (u8i lo)"
      by (simp only: word_of_int_eq_iff take_bit_eq_mod) simp
    then have "(word_of_int (u8i x * 65536 + u8i lo) :: u16) = ucast lo" by (simp add: u8i_def)
    moreover have "byteN (ucast lo :: u16) 0 = lo" "byteN (ucast lo :: u16) 1 = 0"
      by (rule bit_word_eqI, auto simp: bit_byteN bit_simps dest: bit_imp_le_length)+
    ultimately have "ntohs (word_of_int (u8i x * 65536 + u8i lo)) = push_bit 8 (ucast lo)"
      by (simp add: ntohs_def join16_def)
    moreover have "unat lo * 256 < 65536" using unat_u8_less [of lo] by linarith
    moreover have "unat (push_bit 8 (ucast lo :: u16)) = unat lo * 256 mod 65536"
      by (simp add: unat_push_bit unat_ucast_mod mod_mult_left_eq)
    ultimately show ?thesis by simp
  qed
  then show ?thesis using LongPid assms u a
    by (intro exI [of _ True]) (simp add: vp9_picture_id_def u8i_def)
qed

lemma field_arith:
  fixes k t x s y :: nat
  assumes "k = 32 * t + 16 * x + 2 * s + y" "s < 8" "x \<le> 1" "y \<le> 1"
  shows "k div 32 = t" "odd (k div 16) \<longleftrightarrow> x = 1" "k div 2 mod 8 = s" "odd k \<longleftrightarrow> y = 1"
proof -
  show "k div 32 = t" by (rule div_nat_eqI) (use assms in simp_all)
  have "k div 16 = 2 * t + x" by (rule div_nat_eqI) (use assms in simp_all)
  then show "odd (k div 16) \<longleftrightarrow> x = 1" using assms(3) by (cases x) auto
  have "k div 2 = 8 * (2 * t + x) + s" by (rule div_nat_eqI) (use assms in simp_all)
  then show "k div 2 mod 8 = s" using assms(2) by (simp only: mod_mult_self4 mod_less)
  show "odd k \<longleftrightarrow> y = 1" using assms(1,4) by (cases y) auto
qed

lemma field_arith':
  fixes k t x y :: nat
  assumes "k = 32 * t + 16 * x + 8 * y" "x \<le> 1" "y \<le> 1"
  shows "k div 32 = t" "odd (k div 16) \<longleftrightarrow> x = 1" "odd (k div 8) \<longleftrightarrow> y = 1"
proof -
  show "k div 32 = t" by (rule div_nat_eqI) (use assms in simp_all)
  have "k div 16 = 2 * t + x" by (rule div_nat_eqI) (use assms in simp_all)
  then show "odd (k div 16) \<longleftrightarrow> x = 1" using assms(2) by (cases x) auto
  have "k div 8 = 2 * (2 * t + x) + y" by (rule div_nat_eqI) (use assms in simp_all)
  then show "odd (k div 8) \<longleftrightarrow> y = 1" using assms(3) by (cases y) auto
qed

lemma vp9_layers_bytes:
  assumes "vp9_wf d" "bytes_at m p (index_bytes d)" "hasLayerIndices v \<longleftrightarrow> vd_indices d \<noteq> None"
    "flexibleMode v = vd_flexible d"
  shows "\<exists>v'. vp9_layers m p v = Some (v', p + length (index_bytes d))
    \<and> (case vd_indices d of None \<Rightarrow> v' = v | Some x \<Rightarrow>
         v' = v\<lparr>temporalID := int (ix_temporal x), isSwitchingUp := ix_switching x,
           spatialID := int (ix_spatial x), isInterLayeredDepUsed := ix_dependent x,
           vp9_tl0PicIdx := (if vd_flexible d then vp9_tl0PicIdx v else u8i (vd_tl0 d)),
           referenceIdx := (if vd_flexible d then int (last (vd_references d)) else referenceIdx v),
           additionalReferenceIdx := (if vd_flexible d then False else additionalReferenceIdx v)\<rparr>)"
proof (cases "vd_indices d")
  case None
  then show ?thesis using assms by (simp add: vp9_layers_def index_bytes_def)
next
  case (Some x)
  have w: "ix_temporal x < 8" "ix_spatial x < 8" "vd_references d \<noteq> []" "list_all (\<lambda>r. r < 128) (vd_references d)"
    using assms(1) Some by (simp_all add: vp9_wf_def)
  let ?n = "32 * ix_temporal x + 16 * of_bool (ix_switching x) + 2 * ix_spatial x + of_bool (ix_dependent x)"
  have n: "?n < 256" using w(1,2) by (cases "ix_switching x"; cases "ix_dependent x") simp_all
  have "unat (m p) = ?n" using assms(2) Some n by (simp add: index_bytes_def unat_byte_of)
  then have f: "unat (drop_bit 5 (m p AND 0xE0)) = ix_temporal x" "m p AND 0x10 \<noteq> 0 \<longleftrightarrow> ix_switching x"
    "unat (drop_bit 1 (m p AND 0x0E)) = ix_spatial x" "m p AND 0x01 \<noteq> 0 \<longleftrightarrow> ix_dependent x"
    unfolding u8_fields using field_arith [OF _ w(2), of "unat (m p)"] by (simp_all only: of_bool_eq_1_iff of_bool_less_eq_one)
  have fi: "u8i (drop_bit 5 (m p AND 0xE0)) = int (ix_temporal x)" "u8i (drop_bit 1 (m p AND 0x0E)) = int (ix_spatial x)"
    by (simp_all only: u8i_def f)
  show ?thesis
  proof (cases "vd_flexible d")
    case True
    then have "bytes_at m (p + 1) (reference_bytes (vd_references d))"
      using assms(2) Some by (simp add: index_bytes_def)
    note r = vp9_references_bytes [OF w(3,4) this]
    show ?thesis using assms(3,4) Some True
      by (simp only: vp9_layers_def Let_def f fi r index_bytes_def) (simp add: r)
  next
    case False
    then have "m (p + 1) = vd_tl0 d" using assms(2) Some by (simp add: index_bytes_def)
    then show ?thesis using assms(3,4) Some False
      by (simp only: vp9_layers_def Let_def f fi index_bytes_def) simp
  qed
qed

lemma vp9_structure_bytes:
  assumes "vp9_wf d" "bytes_at m p (structure_bytes d)" "hasScalabilityStructure v \<longleftrightarrow> vd_structure d \<noteq> None"
    "resolutions v = []"
  shows "\<exists>v'. vp9_structure m p v = (v', p + length (structure_bytes d))
    \<and> (case vd_structure d of None \<Rightarrow> v' = v | Some (n, rs, gof) \<Rightarrow>
         v' = v\<lparr>spatialLayers := int n, hasResolution := (rs \<noteq> None), hasGof := (gof \<noteq> None),
           resolutions := (case rs of None \<Rightarrow> [] | Some rs \<Rightarrow> map (\<lambda>(w, h). (int w, int h)) rs),
           numberOfFramesInGof := (case gof of None \<Rightarrow> numberOfFramesInGof v | Some fs \<Rightarrow> int (length fs))\<rparr>)"
proof (cases "vd_structure d")
  case None
  then show ?thesis using assms by (simp add: vp9_structure_def structure_bytes_def)
next
  case (Some s)
  obtain n rs gof where s: "s = (n, rs, gof)" by (cases s)
  have w: "n < 8" "\<And>r. rs = Some r \<Longrightarrow> length r = n + 1 \<and> list_all (\<lambda>(w, h). w < 65536 \<and> h < 65536) r"
    "\<And>f. gof = Some f \<Longrightarrow> length f < 256 \<and> list_all (\<lambda>f. f \<noteq> [] \<and> length f = 1 + unat (hd f) div 4 mod 4) f"
    using assms(1) Some s by (auto simp: vp9_wf_def)
  let ?n = "32 * n + 16 * of_bool (rs \<noteq> None) + 8 * of_bool (gof \<noteq> None)"
  have n: "?n < 256" using w(1) by (cases "rs \<noteq> None"; cases "gof \<noteq> None") simp_all
  have "unat (m p) = ?n" using assms(2) Some s n by (simp add: structure_bytes_def unat_byte_of)
  then have f: "unat (drop_bit 5 (m p AND 0xE0)) = n" "m p AND 0x10 \<noteq> 0 \<longleftrightarrow> rs \<noteq> None" "m p AND 0x08 \<noteq> 0 \<longleftrightarrow> gof \<noteq> None"
    unfolding u8_fields using field_arith' [of "unat (m p)"] by (simp_all only: of_bool_eq_1_iff of_bool_less_eq_one)
  have fi: "u8i (drop_bit 5 (m p AND 0xE0)) = int n" by (simp only: u8i_def f)
  define q where "q = p + 1 + (case rs of None \<Rightarrow> 0 | Some r \<Rightarrow> 4 * length r)"
  have res: "vp9_resolutions (nat (int n + 1)) m (Suc p) [] = (map (\<lambda>(w, h). (int w, int h)) r, q)" if "rs = Some r" for r
  proof -
    have "vp9_resolutions (length r) m (p + 1) [] = (map (\<lambda>(w, h). (int w, int h)) r, p + 1 + 4 * length r)"
      using vp9_resolutions_bytes [of r m "p + 1" "[]"] w(2) assms(2) Some s that
      by (simp add: structure_bytes_def bytes_at_append)
    moreover have "nat (int n + 1) = length r" using w(2) [OF that] by simp
    ultimately show ?thesis using that by (simp add: q_def)
  qed
  have res0: "q = Suc p" if "rs = None" using that by (simp add: q_def)
  have lr: "length (concat (map resolution_bytes r)) = 4 * length r" for r
    by (induction r) (auto simp: resolution_bytes_def)
  have gf: "m q = byte_of (length fs) \<and> bytes_at m (q + 1) (concat fs)" if "gof = Some fs" for fs
    using assms(2) Some s that
    by (cases rs) (simp_all add: structure_bytes_def bytes_at_append q_def lr)
  have len: "p + length (structure_bytes d) = q + (case gof of None \<Rightarrow> 0 | Some fs \<Rightarrow> 1 + length (concat fs))"
    using Some s by (simp add: structure_bytes_def q_def lr split: option.split)
  show ?thesis
  proof (cases gof)
    case None
    then show ?thesis using assms(3,4) Some s
      by (simp only: vp9_structure_def Let_def f fi len) (cases rs; simp add: res res0)
  next
    case (Some fs)
    have "u8i (m q) = int (length fs)" using gf [OF Some] w(3) [OF Some] by (simp add: u8i_byte_of)
    moreover have "vp9_gof_frames (length fs) m (q + 1) = q + 1 + length (concat fs)"
      by (rule vp9_gof_frames_bytes) (use gf [OF Some] w(3) [OF Some] in simp_all)
    ultimately show ?thesis using assms(3,4) \<open>vd_structure d = Some s\<close> s Some
      by (simp only: vp9_structure_def Let_def f fi len) (cases rs; simp add: res res0)
  qed
qed

text \<open>What the parser should have filled in for a descriptor.\<close>

definition vp9_parsed :: "vp9_descriptor \<Rightarrow> RTPPayloadVP9 \<Rightarrow> bool" where
  "vp9_parsed d v \<longleftrightarrow>
     vp9_frameType v = (if vd_inter d then kVP9PFrame else kVP9IFrame)
     \<and> beginningOfLayerFrame v = vd_begin d \<and> endingOfLayerFrame v = vd_end d
     \<and> flexibleMode v = vd_flexible d \<and> vp9_pictureID v = parsed_pid (vd_pid d)
     \<and> (case vd_indices d of None \<Rightarrow> temporalID v = -1 \<and> spatialID v = -1
        | Some x \<Rightarrow> temporalID v = int (ix_temporal x) \<and> spatialID v = int (ix_spatial x)
            \<and> isSwitchingUp v = ix_switching x \<and> isInterLayeredDepUsed v = ix_dependent x
            \<and> (if vd_flexible d then referenceIdx v = int (last (vd_references d)) \<and> \<not> additionalReferenceIdx v
               else vp9_tl0PicIdx v = u8i (vd_tl0 d)))
     \<and> (case vd_structure d of None \<Rightarrow> resolutions v = []
        | Some (n, rs, gof) \<Rightarrow> spatialLayers v = int n
            \<and> resolutions v = (case rs of None \<Rightarrow> [] | Some rs \<Rightarrow> map (\<lambda>(w, h). (int w, int h)) rs)
            \<and> numberOfFramesInGof v = (case gof of None \<Rightarrow> -1 | Some fs \<Rightarrow> int (length fs)))"

lemma parse_descriptor:
  assumes "vp9_wf d" "bytes_at m p (descriptor_bytes d)"
  shows "\<exists>v. parseVP9 m p len = Some v \<and> vp9_data v = p + length (descriptor_bytes d) \<and> vp9_parsed d v"
proof -
  have b: "m p = first_byte d" "bytes_at m (p + 1) (pid_bytes (vd_pid d))"
    "bytes_at m (p + 1 + length (pid_bytes (vd_pid d))) (index_bytes d)"
    "bytes_at m (p + 1 + length (pid_bytes (vd_pid d)) + length (index_bytes d)) (structure_bytes d)"
    using assms(2) by (simp_all add: descriptor_bytes_def bytes_at_append)
  let ?v1 = "new_RTPPayloadVP9\<lparr>vp9_hasPictureID := (vd_pid d \<noteq> NoPid), interPicturePrediction := vd_inter d,
        vp9_frameType := (if vd_inter d then kVP9PFrame else kVP9IFrame), hasLayerIndices := (vd_indices d \<noteq> None),
        flexibleMode := vd_flexible d, beginningOfLayerFrame := vd_begin d, endingOfLayerFrame := vd_end d,
        hasScalabilityStructure := (vd_structure d \<noteq> None)\<rparr>"
  have s1: "vp9_first_byte m p new_RTPPayloadVP9 = (?v1, p + 1)"
    unfolding vp9_first_byte_def b(1) first_byte_bits ..
  have w: "case vd_pid d of ShortPid n \<Rightarrow> n < 128 | _ \<Rightarrow> True" using assms(1) by (simp add: vp9_wf_def)
  obtain l where s2: "vp9_picture_id m (p + 1) ?v1
      = (?v1\<lparr>largePictureID := l, vp9_pictureID := parsed_pid (vd_pid d)\<rparr>, p + 1 + length (pid_bytes (vd_pid d)))"
    using vp9_picture_id_bytes [OF w b(2), of ?v1] by (auto simp: new_RTPPayloadVP9_def)
  let ?v2 = "?v1\<lparr>largePictureID := l, vp9_pictureID := parsed_pid (vd_pid d)\<rparr>"
  obtain v3 where s3: "vp9_layers m (p + 1 + length (pid_bytes (vd_pid d))) ?v2
        = Some (v3, p + 1 + length (pid_bytes (vd_pid d)) + length (index_bytes d))"
      and v3: "case vd_indices d of None \<Rightarrow> v3 = ?v2 | Some x \<Rightarrow>
         v3 = ?v2\<lparr>temporalID := int (ix_temporal x), isSwitchingUp := ix_switching x,
           spatialID := int (ix_spatial x), isInterLayeredDepUsed := ix_dependent x,
           vp9_tl0PicIdx := (if vd_flexible d then vp9_tl0PicIdx ?v2 else u8i (vd_tl0 d)),
           referenceIdx := (if vd_flexible d then int (last (vd_references d)) else referenceIdx ?v2),
           additionalReferenceIdx := (if vd_flexible d then False else additionalReferenceIdx ?v2)\<rparr>"
    using vp9_layers_bytes [OF assms(1) b(3), of ?v2] by auto
  have "(hasScalabilityStructure v3 \<longleftrightarrow> vd_structure d \<noteq> None) \<and> resolutions v3 = []"
    using v3 by (cases "vd_indices d") (simp_all add: new_RTPPayloadVP9_def)
  then obtain v4 where s4: "vp9_structure m (p + 1 + length (pid_bytes (vd_pid d)) + length (index_bytes d)) v3
        = (v4, p + 1 + length (pid_bytes (vd_pid d)) + length (index_bytes d) + length (structure_bytes d))"
      and v4: "case vd_structure d of None \<Rightarrow> v4 = v3 | Some (n, rs, gof) \<Rightarrow>
         v4 = v3\<lparr>spatialLayers := int n, hasResolution := (rs \<noteq> None), hasGof := (gof \<noteq> None),
           resolutions := (case rs of None \<Rightarrow> [] | Some rs \<Rightarrow> map (\<lambda>(w, h). (int w, int h)) rs),
           numberOfFramesInGof := (case gof of None \<Rightarrow> numberOfFramesInGof v3 | Some fs \<Rightarrow> int (length fs))\<rparr>"
    using vp9_structure_bytes [OF assms(1) b(4), of v3] by auto
  let ?q = "p + 1 + length (pid_bytes (vd_pid d)) + length (index_bytes d) + length (structure_bytes d)"
  have q: "?q = p + length (descriptor_bytes d)" by (simp add: descriptor_bytes_def)
  have "parseVP9 m p len = Some (v4\<lparr>vp9_data := ?q, vp9_dataLength := len\<rparr>)"
    unfolding parseVP9_def s1 s2 s3 s4 Let_def prod.case option.case ..
  moreover have "vp9_parsed d (v4\<lparr>vp9_data := ?q, vp9_dataLength := len\<rparr>)"
    using v3 v4 by (cases "vd_indices d"; cases "vd_structure d")
      (auto simp: vp9_parsed_def new_RTPPayloadVP9_def split: option.split)
  ultimately show ?thesis unfolding q [symmetric] by (intro exI [of _ "v4\<lparr>vp9_data := ?q, vp9_dataLength := len\<rparr>"]) simp
qed

subsection \<open>The descriptor as drawn\<close>

text \<open>
  The layout drawn in the comment of the source. It differs from what the parser takes: the
  references (\<^verbatim>\<open>P_DIFF\<close>) are there if the P and the F bit are set, whether or not there are layer
  indices, and \<^verbatim>\<open>TL0PICIDX\<close> follows the layer indices outside flexible mode. The structure is the
  one of the VP9 payload format, which the comment does not draw.
\<close>

definition layer_bytes :: "vp9_descriptor \<Rightarrow> u8 list" where
  "layer_bytes d = (case vd_indices d of None \<Rightarrow> []
     | Some x \<Rightarrow> byte_of (32 * ix_temporal x + 16 * of_bool (ix_switching x) + 2 * ix_spatial x + of_bool (ix_dependent x))
         # (if vd_flexible d then [] else [vd_tl0 d]))"

definition p_diff_bytes :: "vp9_descriptor \<Rightarrow> u8 list" where
  "p_diff_bytes d = (if vd_inter d \<and> vd_flexible d then reference_bytes (vd_references d) else [])"

definition drawn_bytes :: "vp9_descriptor \<Rightarrow> u8 list" where
  "drawn_bytes d = first_byte d # pid_bytes (vd_pid d) @ layer_bytes d @ p_diff_bytes d @ structure_bytes d"

text \<open>The ranges of the fields that are there.\<close>

definition drawn_wf :: "vp9_descriptor \<Rightarrow> bool" where
  "drawn_wf d \<longleftrightarrow> (case vd_pid d of ShortPid n \<Rightarrow> n < 128 | _ \<Rightarrow> True)
     \<and> (case vd_indices d of None \<Rightarrow> True | Some x \<Rightarrow> ix_temporal x < 8 \<and> ix_spatial x < 8)
     \<and> (vd_inter d \<and> vd_flexible d \<longrightarrow> vd_references d \<noteq> [] \<and> list_all (\<lambda>r. r < 128) (vd_references d))
     \<and> (case vd_structure d of None \<Rightarrow> True | Some (n, rs, gof) \<Rightarrow> n < 8
         \<and> (case rs of None \<Rightarrow> True | Some rs \<Rightarrow> length rs = n + 1 \<and> list_all (\<lambda>(w, h). w < 65536 \<and> h < 65536) rs)
         \<and> (case gof of None \<Rightarrow> True | Some fs \<Rightarrow> length fs < 256
              \<and> list_all (\<lambda>f. f \<noteq> [] \<and> length f = 1 + unat (hd f) div 4 mod 4) fs))"

text \<open>What the parser should fill in for it.\<close>

definition vp9_says :: "vp9_descriptor \<Rightarrow> RTPPayloadVP9 \<Rightarrow> bool" where
  "vp9_says d v \<longleftrightarrow>
     vp9_frameType v = (if vd_inter d then kVP9PFrame else kVP9IFrame)
     \<and> beginningOfLayerFrame v = vd_begin d \<and> endingOfLayerFrame v = vd_end d \<and> flexibleMode v = vd_flexible d
     \<and> (case vd_pid d of NoPid \<Rightarrow> vp9_pictureID v = -1 | ShortPid n \<Rightarrow> vp9_pictureID v = int n | LongPid hi lo \<Rightarrow> True)
     \<and> (case vd_indices d of None \<Rightarrow> temporalID v = -1 \<and> spatialID v = -1
        | Some x \<Rightarrow> temporalID v = int (ix_temporal x) \<and> spatialID v = int (ix_spatial x)
            \<and> isSwitchingUp v = ix_switching x \<and> isInterLayeredDepUsed v = ix_dependent x
            \<and> (vd_flexible d \<or> vp9_tl0PicIdx v = u8i (vd_tl0 d)))
     \<and> (vd_inter d \<and> vd_flexible d \<longrightarrow> referenceIdx v = int (last (vd_references d)) \<and> \<not> additionalReferenceIdx v)
     \<and> (case vd_structure d of None \<Rightarrow> resolutions v = []
        | Some (n, rs, gof) \<Rightarrow> spatialLayers v = int n
            \<and> resolutions v = (case rs of None \<Rightarrow> [] | Some rs \<Rightarrow> map (\<lambda>(w, h). (int w, int h)) rs)
            \<and> numberOfFramesInGof v = (case gof of None \<Rightarrow> -1 | Some fs \<Rightarrow> int (length fs)))"

lemma drawn_as_taken:
  assumes "drawn_wf d" "\<not> vd_flexible d \<or> (vd_indices d \<noteq> None) = vd_inter d"
  defines "d' \<equiv> (if vd_inter d \<and> vd_flexible d then d else d\<lparr>vd_references := [0]\<rparr>)"
  shows "descriptor_bytes d' = drawn_bytes d" "vp9_wf d'"
proof -
  have "structure_bytes (d\<lparr>vd_references := [0]\<rparr>) = structure_bytes d" "first_byte (d\<lparr>vd_references := [0]\<rparr>) = first_byte d"
    by (simp_all add: structure_bytes_def first_byte_def)
  then show "descriptor_bytes d' = drawn_bytes d"
    using assms(2) unfolding d'_def
    by (auto simp: descriptor_bytes_def drawn_bytes_def index_bytes_def layer_bytes_def p_diff_bytes_def split: option.split)
  show "vp9_wf d'"
    using assms(1) unfolding d'_def by (auto simp: vp9_wf_def drawn_wf_def)
qed

text \<open>
  C5: The VP9 parser reads back the descriptors drawn in its source, with any number of references,
  resolutions and frames: outside flexible mode all of them, and in flexible mode those that have
  layer indices exactly if the picture is predicted from others. For these it stops exactly after
  the descriptor and fills in the frame type, the flags, the layers, the last reference or
  \<^verbatim>\<open>TL0PICIDX\<close>, the layer count, the resolutions, the frame count, and a picture id of 7 bits; of
  a picture id of 15 bits nothing is said but that its two bytes are passed.
\<close>
theorem vp9_descriptor_parses:
  assumes "drawn_wf d" "bytes_at m p (drawn_bytes d)" "\<not> vd_flexible d \<or> (vd_indices d \<noteq> None) = vd_inter d"
  shows "\<exists>v. parseVP9 m p len = Some v \<and> vp9_data v = p + length (drawn_bytes d) \<and> vp9_says d v"
proof -
  note t = drawn_as_taken [OF assms(1,3)]
  from parse_descriptor [OF t(2), of m p len] assms(2) obtain v where
    "parseVP9 m p len = Some v" "vp9_data v = p + length (drawn_bytes d)"
    "vp9_parsed (if vd_inter d \<and> vd_flexible d then d else d\<lparr>vd_references := [0]\<rparr>) v"
    unfolding t(1) by blast
  moreover have "vp9_says d v"
    if "vp9_parsed (if vd_inter d \<and> vd_flexible d then d else d\<lparr>vd_references := [0]\<rparr>) v"
    using that assms(3) by (auto simp: vp9_parsed_def vp9_says_def split: if_splits option.splits vp9_pid.splits)
  ultimately show ?thesis by blast
qed

definition sample_descriptor :: vp9_descriptor where
  "sample_descriptor = \<lparr>vd_pid = ShortPid 5, vd_inter = True, vd_flexible = True, vd_begin = True, vd_end = False,
     vd_indices = Some \<lparr>ix_temporal = 2, ix_switching = True, ix_spatial = 1, ix_dependent = False\<rparr>,
     vd_references = [1, 3], vd_tl0 = 0, vd_structure = Some (1, Some [(320, 180), (640, 360)], Some [[0x04, 1]])\<rparr>"

definition mem_of :: "u8 list \<Rightarrow> mem" where
  "mem_of bs = (\<lambda>i. if i < length bs then bs ! i else 0)"

lemma bytes_at_mem_of: "bytes_at (mem_of bs) 0 bs"
proof -
  have "bytes_at m p xs" if "\<And>k. k < length xs \<Longrightarrow> m (p + k) = xs ! k" for m p and xs :: "u8 list"
    using that
  proof (induction xs arbitrary: p)
    case (Cons x xs)
    have "m p = x" using Cons.prems [of 0] by simp
    moreover have "bytes_at m (p + 1) xs" by (rule Cons.IH) (use Cons.prems [of "Suc k" for k] in simp)
    ultimately show ?case by simp
  qed simp
  then show ?thesis by (simp add: mem_of_def)
qed

theorem vp9_descriptor_parses_witness:
  "\<exists>v. parseVP9 (mem_of (drawn_bytes sample_descriptor)) 0 40 = Some v \<and> spatialID v = 1
     \<and> resolutions v = [(320, 180), (640, 360)] \<and> vp9_pictureID v = 5 \<and> referenceIdx v = 3"
proof -
  have "drawn_wf sample_descriptor" by (simp add: drawn_wf_def sample_descriptor_def)
  from vp9_descriptor_parses [OF this bytes_at_mem_of, of 40]
  show ?thesis by (auto simp: vp9_says_def sample_descriptor_def)
qed

text \<open>
  What is not read back. A key frame in flexible mode that has layer indices has no references, but
  the parser takes the byte after the indices for one: the two bytes of this descriptor are read
  as three, so the first byte of the frame is lost.
\<close>

lemma vp9_flexible_key_frame_misread:
  "let d = \<lparr>vd_pid = NoPid, vd_inter = False, vd_flexible = True, vd_begin = True, vd_end = True,
      vd_indices = Some \<lparr>ix_temporal = 0, ix_switching = False, ix_spatial = 0, ix_dependent = False\<rparr>,
      vd_references = [], vd_tl0 = 0, vd_structure = None\<rparr>
   in drawn_wf d \<and> length (drawn_bytes d) = 2
    \<and> (\<exists>v. parseVP9 (mem_of (drawn_bytes d @ [0x10])) 0 40 = Some v \<and> vp9_data v = 3)"
proof -
  let ?d = "\<lparr>vd_pid = NoPid, vd_inter = False, vd_flexible = True, vd_begin = True, vd_end = True,
      vd_indices = Some \<lparr>ix_temporal = 0, ix_switching = False, ix_spatial = 0, ix_dependent = False\<rparr>,
      vd_references = [], vd_tl0 = 0, vd_structure = None\<rparr>"
  let ?e = "?d\<lparr>vd_references := [8]\<rparr>"
  have e: "drawn_bytes ?d @ [0x10] = descriptor_bytes ?e" by code_simp
  have "vp9_wf ?e" by (simp add: vp9_wf_def)
  from parse_descriptor [OF this bytes_at_mem_of, of 40] obtain v where
    "parseVP9 (mem_of (descriptor_bytes ?e)) 0 40 = Some v" "vp9_data v = length (descriptor_bytes ?e)" by auto
  moreover have "length (descriptor_bytes ?e) = 3" "length (drawn_bytes ?d) = 2" by code_simp+
  ultimately show ?thesis by (simp add: Let_def drawn_wf_def e)
qed

text \<open>Predicted pictures in flexible mode without layer indices have references that are not read.\<close>

lemma vp9_references_left_unread:
  "let d = \<lparr>vd_pid = NoPid, vd_inter = True, vd_flexible = True, vd_begin = True, vd_end = True,
      vd_indices = None, vd_references = [8], vd_tl0 = 0, vd_structure = None\<rparr>
   in drawn_wf d \<and> length (drawn_bytes d) = 2
    \<and> (\<exists>v. parseVP9 (mem_of (drawn_bytes d)) 0 40 = Some v \<and> vp9_data v = 1)"
proof -
  let ?d = "\<lparr>vd_pid = NoPid, vd_inter = True, vd_flexible = True, vd_begin = True, vd_end = True,
      vd_indices = None, vd_references = [8], vd_tl0 = 0, vd_structure = None\<rparr>"
  have e: "drawn_bytes ?d = descriptor_bytes ?d @ [0x10]" and l: "length (descriptor_bytes ?d) = 1" by code_simp+
  have b: "bytes_at (mem_of (drawn_bytes ?d)) 0 (descriptor_bytes ?d)"
    using bytes_at_mem_of [of "drawn_bytes ?d"] by (simp add: e bytes_at_append)
  have "vp9_wf ?d" by (simp add: vp9_wf_def)
  from parse_descriptor [OF this b, of 40] l
  show ?thesis by (auto simp: Let_def drawn_wf_def e)
qed

text \<open>Picture ids of 15 bits: two that differ in the high byte are parsed alike.\<close>

lemma vp9_long_picture_id_lost:
  "vp9_pictureID (fst (vp9_picture_id (mem_of [0x81, 2]) 0 (new_RTPPayloadVP9\<lparr>vp9_hasPictureID := True\<rparr>)))
   = vp9_pictureID (fst (vp9_picture_id (mem_of [0x83, 2]) 0 (new_RTPPayloadVP9\<lparr>vp9_hasPictureID := True\<rparr>)))"
  by code_simp

end
