(* ===== verification/Worker.thy ===== *)
theory Worker
  imports Prelude "HOL-Library.Multiset"
begin

text \<open>
  \<^verbatim>\<open>thread/Scheduler\<close> and \<^verbatim>\<open>thread/Worker\<close>: tasks that run later. The scheduler keeps a
  multimap ordered by time, from which its threads take the first task when it is due; a worker
  wraps a task so that it is posted to the worker's own queue when due, and skipped there if it was
  cancelled. A task is known by the identity of its \<^verbatim>\<open>ScheduledTaskReference\<close>; times are
  milliseconds. What clients of a worker rely on is the interface \<open>timers\<close>.
\<close>

subsection \<open>The scheduler\<close>

text \<open>
  Where a thread of the scheduler is while it does not hold the lock: about to take it at the loop's
  condition (before its first round, and while it runs a task), in \<^verbatim>\<open>wait\<close>, in \<^verbatim>\<open>wait_until\<close>
  with the time it was given, or ended.
\<close>

datatype service_thread = AtTop | Waits | WaitsUntil int | Ended

record 'f scheduler =
  task_queue :: "(int \<times> 'f) list"
  stop_requested :: bool
  stop_when_empty :: bool
  service_threads :: "service_thread list"

definition new_Scheduler :: "nat \<Rightarrow> 'f scheduler" where
  "new_Scheduler n_threads_servicing_queue =
     \<lparr>task_queue = [], stop_requested = False, stop_when_empty = False,
      service_threads = replicate n_threads_servicing_queue AtTop\<rparr>"

text \<open>\<^verbatim>\<open>std::multimap::insert\<close>: behind the entries with the same key.\<close>

fun mm_insert :: "int \<Rightarrow> 'f \<Rightarrow> (int \<times> 'f) list \<Rightarrow> (int \<times> 'f) list" where
  "mm_insert t f [] = [(t, f)]"
| "mm_insert t f ((t', f') # q) = (if t < t' then (t, f) # (t', f') # q else (t', f') # mm_insert t f q)"

definition schedule :: "'f \<Rightarrow> int \<Rightarrow> 'f scheduler \<Rightarrow> 'f scheduler" where
  "schedule f t s = s\<lparr>task_queue := mm_insert t f (task_queue s)\<rparr>"

definition sched_scheduleFromNow :: "int \<Rightarrow> 'f \<Rightarrow> int \<Rightarrow> 'f scheduler \<Rightarrow> 'f scheduler" where
  "sched_scheduleFromNow now f delta_ms s = schedule f (now + delta_ms) s"

definition sched_stop :: "bool \<Rightarrow> 'f scheduler \<Rightarrow> 'f scheduler" where
  "sched_stop drain s = (if drain then s\<lparr>stop_when_empty := True\<rparr> else s\<lparr>stop_requested := True\<rparr>)"

text \<open>
  \<^verbatim>\<open>serviceQueue\<close> in steps, each from where a thread takes the lock to where it gives it back.
  From the condition of the outer loop a thread comes to one of its waits, or ends; a \<^verbatim>\<open>wait_until\<close>
  whose time has come ends the inner loop, and the thread takes the first task of the queue, which
  other threads may have changed since. The result is the task it runs, if any.
\<close>

definition loop_top :: "'f scheduler \<Rightarrow> service_thread" where
  "loop_top s =
     (if stop_requested s \<or> (stop_when_empty s \<and> task_queue s = []) then Ended
      else case task_queue s of [] \<Rightarrow> Waits | (t, f) # q \<Rightarrow> WaitsUntil t)"

definition serviceQueue_step :: "int \<Rightarrow> service_thread \<Rightarrow> 'f scheduler \<Rightarrow> (int \<times> 'f) option \<times> service_thread \<times> (int \<times> 'f) list" where
  "serviceQueue_step now th s = (case th of
       Ended \<Rightarrow> (None, Ended, task_queue s)
     | WaitsUntil t \<Rightarrow>
         if stop_requested s then (None, Ended, task_queue s)
         else if now < t then (None, loop_top s, task_queue s)
         else (case task_queue s of [] \<Rightarrow> (None, loop_top s, []) | e # q \<Rightarrow> (Some e, AtTop, q))
     | _ \<Rightarrow> (None, loop_top s, task_queue s))"

definition service_round :: "int \<Rightarrow> nat \<Rightarrow> 'f scheduler \<Rightarrow> (int \<times> 'f) option \<times> 'f scheduler" where
  "service_round now k s =
     (if k < length (service_threads s)
      then let (r, th, q) = serviceQueue_step now (service_threads s ! k) s
           in (r, s\<lparr>task_queue := q, service_threads := (service_threads s)[k := th]\<rparr>)
      else (None, s))"

lemma mset_mm_insert [simp]: "mset (mm_insert t f q) = add_mset (t, f) (mset q)"
  by (induction q rule: mm_insert.induct) auto

lemma set_mm_insert [simp]: "set (mm_insert t f q) = insert (t, f) (set q)"
  by (induction q rule: mm_insert.induct) auto

lemma sorted_mm_insert: "sorted (map fst q) \<Longrightarrow> sorted (map fst (mm_insert t f q))"
  by (induction t f q rule: mm_insert.induct) auto

text \<open>Any threads, any interleaving: a round of one of them, a task that is added, a stop.\<close>

datatype 'f sched_event = Add int 'f | Round int nat | Stop bool

inductive sched_run :: "'f scheduler \<Rightarrow> 'f sched_event list \<Rightarrow> (int \<times> int \<times> 'f) list \<Rightarrow> 'f scheduler \<Rightarrow> bool" where
  Done: "sched_run s [] [] s"
| Adds: "sched_run (schedule f t s) es rs s' \<Longrightarrow> sched_run s (Add t f # es) rs s'"
| Runs: "service_round now k s = (Some (t, f), s1) \<Longrightarrow> sched_run s1 es rs s'
    \<Longrightarrow> sched_run s (Round now k # es) ((now, t, f) # rs) s'"
| Idles: "service_round now k s = (None, s1) \<Longrightarrow> sched_run s1 es rs s'
    \<Longrightarrow> sched_run s (Round now k # es) rs s'"
| Stops: "sched_run (sched_stop drain s) es rs s' \<Longrightarrow> sched_run s (Stop drain # es) rs s'"

fun added :: "'f sched_event list \<Rightarrow> (int \<times> 'f) list" where
  "added [] = []"
| "added (Add t f # es) = (t, f) # added es"
| "added (Round now k # es) = added es"
| "added (Stop drain # es) = added es"

lemma service_round_cases:
  "service_round now k s = (Some e, s1) \<Longrightarrow> task_queue s = e # task_queue s1"
  "service_round now k s = (None, s1) \<Longrightarrow> task_queue s1 = task_queue s"
  by (auto simp: service_round_def serviceQueue_step_def split: list.splits if_splits prod.splits service_thread.splits)

lemma sched_run_conserves:
  "sched_run s es rs s' \<Longrightarrow> mset (map snd rs) + mset (task_queue s') = mset (task_queue s) + mset (added es)"
proof (induction rule: sched_run.induct)
  case (Runs now k s t f s1 es rs s')
  then show ?case using service_round_cases(1) [OF Runs.hyps(1)] by simp
next
  case (Idles now k s s1 es rs s')
  then show ?case using service_round_cases(2) [OF Idles.hyps(1)] by simp
qed (auto simp: schedule_def sched_stop_def)

text \<open>Without new tasks, those that run do so in the order of their times.\<close>

lemma sched_run_sorted:
  "sched_run s es rs s' \<Longrightarrow> sorted (map fst (task_queue s)) \<Longrightarrow>
     sorted (map fst (task_queue s')) \<and> (added es = [] \<longrightarrow> map snd rs @ task_queue s' = task_queue s)"
proof (induction rule: sched_run.induct)
  case (Runs now k s t f s1 es rs s')
  then show ?case using service_round_cases(1) [OF Runs.hyps(1)] by auto
next
  case (Idles now k s s1 es rs s')
  then show ?case using service_round_cases(2) [OF Idles.hyps(1)] by auto
qed (auto simp: schedule_def sched_stop_def sorted_mm_insert)

text \<open>A run, computed.\<close>

fun sched_exec :: "'f sched_event list \<Rightarrow> 'f scheduler \<Rightarrow> (int \<times> int \<times> 'f) list \<times> 'f scheduler" where
  "sched_exec [] s = ([], s)"
| "sched_exec (Add t f # es) s = sched_exec es (schedule f t s)"
| "sched_exec (Round now k # es) s =
     (let (r, s1) = service_round now k s; (rs, s2) = sched_exec es s1
      in (case r of None \<Rightarrow> rs | Some (t, f) \<Rightarrow> (now, t, f) # rs, s2))"
| "sched_exec (Stop drain # es) s = sched_exec es (sched_stop drain s)"

lemma sched_exec_run: "sched_exec es s = (rs, s') \<Longrightarrow> sched_run s es rs s'"
  by (induction es s arbitrary: rs s' rule: sched_exec.induct)
    (auto intro: sched_run.intros split: prod.splits option.splits)

text \<open>
  C13: The scheduler neither loses a task nor runs one twice, whatever its threads and its clients
  do: the tasks that ran with those still queued are exactly the tasks that were added. Tasks that
  are all in the queue are taken in the order of their times.
\<close>
theorem scheduler_runs_every_task_once:
  assumes "sched_run (new_Scheduler n) es rs s"
  shows "mset (map snd rs) + mset (task_queue s) = mset (added es) \<and> sorted (map fst (task_queue s))
    \<and> (\<forall>es' rs' s'. sched_run s es' rs' s' \<and> added es' = [] \<longrightarrow> sorted (map (fst \<circ> snd) rs'))"
proof (intro conjI allI impI)
  have s: "sorted (map fst (task_queue s))"
    using sched_run_sorted [OF assms] by (simp add: new_Scheduler_def)
  show "mset (map snd rs) + mset (task_queue s) = mset (added es)"
    using sched_run_conserves [OF assms] by (simp add: new_Scheduler_def)
  show "sorted (map fst (task_queue s))" by (rule s)
  fix es' rs' s' assume r: "sched_run s es' rs' s' \<and> added es' = []"
  then have "map snd rs' @ task_queue s' = task_queue s" using sched_run_sorted s by blast
  then have "sorted (map fst (map snd rs' @ task_queue s'))" using s by simp
  then show "sorted (map (fst \<circ> snd) rs')" by (simp add: sorted_append)
qed

theorem scheduler_runs_every_task_once_witness:
  "mset (map snd [(6, 5, ''b'')]) + mset [(7, ''a'')] = mset [(7, ''a''), (5 :: int, ''b'')]"
proof -
  have "sched_run (new_Scheduler 1) [Add 7 ''a'', Add 5 ''b'', Round 1 0, Round 6 0] [(6, 5, ''b'')]
      ((new_Scheduler 1)\<lparr>task_queue := [(7, ''a'')]\<rparr>)"
    by (rule sched_exec_run) code_simp
  from scheduler_runs_every_task_once [OF this] show ?thesis by (simp add: new_Scheduler_def)
qed

text \<open>
  A scheduler with one thread runs no task before its time: the first task of the queue is never
  later than the time the thread waits for.
\<close>

definition one_waits :: "'f scheduler \<Rightarrow> bool" where
  "one_waits s \<longleftrightarrow> sorted (map fst (task_queue s)) \<and>
     (\<exists>th. service_threads s = [th] \<and> (\<forall>t. th = WaitsUntil t \<longrightarrow> (\<exists>e \<in> set (task_queue s). fst e \<le> t)))"

lemma one_waits_round:
  assumes "one_waits s" "service_round now k s = (r, s1)"
  shows "one_waits s1 \<and> (\<forall>t f. r = Some (t, f) \<longrightarrow> t \<le> now)"
proof -
  obtain th where th: "service_threads s = [th]" "sorted (map fst (task_queue s))"
    "\<forall>t. th = WaitsUntil t \<longrightarrow> (\<exists>e \<in> set (task_queue s). fst e \<le> t)"
    using assms(1) by (auto simp: one_waits_def)
  show ?thesis
    using assms(2) th
    by (auto simp: one_waits_def service_round_def serviceQueue_step_def loop_top_def
        split: list.splits if_splits prod.splits service_thread.splits)
qed

lemma one_thread_never_early:
  "sched_run s es rs s' \<Longrightarrow> one_waits s \<Longrightarrow> \<forall>(now, t, f) \<in> set rs. t \<le> now"
proof (induction rule: sched_run.induct)
  case (Runs now k s t f s1 es rs s')
  then show ?case using one_waits_round [OF Runs.prems Runs.hyps(1)] by simp
next
  case (Idles now k s s1 es rs s')
  then show ?case using one_waits_round [OF Idles.prems Idles.hyps(1)] by simp
next
  case (Adds f t s es rs s')
  have "one_waits (schedule f t s)"
    using Adds.prems by (auto simp: one_waits_def schedule_def sorted_mm_insert)
  then show ?case by (rule Adds.IH)
next
  case (Stops drain s es rs s')
  then show ?case by (auto simp: one_waits_def sched_stop_def)
qed simp

text \<open>
  With two threads, as \<^verbatim>\<open>ThreadPool\<close> creates them, a task can run long before its time: both wait
  for the same task, one takes it, and the other takes the next one, which is not due.
\<close>

lemma two_threads_run_early:
  "sched_run (new_Scheduler 2) [Add 5 ''a'', Add 700 ''b'', Round 0 0, Round 0 1, Round 5 0, Round 5 1]
     [(5, 5, ''a''), (5, 700, ''b'')] ((new_Scheduler 2)\<lparr>service_threads := [AtTop, AtTop]\<rparr>)"
  by (rule sched_exec_run) code_simp

subsection \<open>The worker\<close>

text \<open>
  The scheduler's tasks are those of one worker; the posted ones keep the time they were due,
  which no code reads. \<open>wk_next\<close> names the next reference.
\<close>

record worker =
  wk_scheduler :: "nat scheduler"
  wk_posted :: "(int \<times> nat) list"
  wk_cancelled :: "nat set"
  wk_next :: nat

text \<open>The pool gives its workers one scheduler with two threads.\<close>

definition kNumThreadsPerScheduler :: nat where "kNumThreadsPerScheduler = 2"

definition new_Worker :: worker where
  "new_Worker = \<lparr>wk_scheduler = new_Scheduler kNumThreadsPerScheduler, wk_posted = [], wk_cancelled = {}, wk_next = 0\<rparr>"

definition new_reference :: "worker \<Rightarrow> nat \<times> worker" where
  "new_reference w = (wk_next w, w\<lparr>wk_next := wk_next w + 1\<rparr>)"

definition scheduleFromNow :: "int \<Rightarrow> int \<Rightarrow> worker \<Rightarrow> nat \<times> worker" where
  "scheduleFromNow now delta w =
     (let (i, w) = new_reference w
      in (i, w\<lparr>wk_scheduler := sched_scheduleFromNow now i delta (wk_scheduler w)\<rparr>))"

definition unschedule :: "nat \<Rightarrow> worker \<Rightarrow> worker" where
  "unschedule i w = w\<lparr>wk_cancelled := insert i (wk_cancelled w)\<rparr>"

text \<open>A thread of the scheduler posts the task it takes; the thread of the worker runs a posted one.\<close>

definition wk_post :: "int \<Rightarrow> nat \<Rightarrow> worker \<Rightarrow> worker" where
  "wk_post now k w = (case service_round now k (wk_scheduler w) of
       (Some e, s) \<Rightarrow> w\<lparr>wk_scheduler := s, wk_posted := wk_posted w @ [e]\<rparr>
     | (None, s) \<Rightarrow> w\<lparr>wk_scheduler := s\<rparr>)"

definition wk_run :: "worker \<Rightarrow> nat option \<times> worker" where
  "wk_run w = (case wk_posted w of [] \<Rightarrow> (None, w)
     | (t, i) # ts \<Rightarrow> (if i \<in> wk_cancelled w then None else Some i, w\<lparr>wk_posted := ts\<rparr>))"

definition wk_entries :: "worker \<Rightarrow> (nat \<times> int) list" where
  "wk_entries w = map prod.swap (task_queue (wk_scheduler w) @ wk_posted w)"

definition wk_inv :: "worker \<Rightarrow> bool" where
  "wk_inv w \<longleftrightarrow> distinct (map fst (wk_entries w)) \<and> (\<forall>(i, t) \<in> set (wk_entries w). i < wk_next w)
     \<and> (\<forall>i \<in> wk_cancelled w. i < wk_next w)"

text \<open>The time at which a task will be due that was neither run nor cancelled.\<close>

definition wk_due :: "worker \<Rightarrow> nat \<Rightarrow> int option" where
  "wk_due w i = (if i \<in> wk_cancelled w then None else map_of (wk_entries w) i)"

subsection \<open>The interface\<close>

locale timers =
  fixes ok :: "'w \<Rightarrow> bool" and due :: "'w \<Rightarrow> nat \<Rightarrow> int option" and known :: "'w \<Rightarrow> nat set"
    and fresh :: "'w \<Rightarrow> nat \<times> 'w" and start :: "int \<Rightarrow> int \<Rightarrow> 'w \<Rightarrow> nat \<times> 'w" and cancel :: "nat \<Rightarrow> 'w \<Rightarrow> 'w"
    and post :: "int \<Rightarrow> nat \<Rightarrow> 'w \<Rightarrow> 'w" and run :: "'w \<Rightarrow> nat option \<times> 'w"
  assumes fresh_ok: "ok w \<Longrightarrow> fresh w = (i, w') \<Longrightarrow> ok w' \<and> due w' = due w \<and> due w i = None \<and> known w' = insert i (known w)"
    and start_ok: "ok w \<Longrightarrow> start now d w = (i, w') \<Longrightarrow>
      ok w' \<and> due w' = (due w)(i \<mapsto> now + d) \<and> due w i = None \<and> known w' = insert i (known w)"
    and cancel_ok: "ok w \<Longrightarrow> i \<in> known w \<Longrightarrow>
      ok (cancel i w) \<and> due (cancel i w) = (due w)(i := None) \<and> known (cancel i w) = known w"
    and post_ok: "ok w \<Longrightarrow> ok (post now k w) \<and> due (post now k w) = due w \<and> known (post now k w) = known w"
    and run_ok: "ok w \<Longrightarrow> run w = (r, w') \<Longrightarrow> ok w' \<and> known w' = known w \<and>
      (case r of None \<Rightarrow> due w' = due w | Some i \<Rightarrow> due w i \<noteq> None \<and> due w' = (due w)(i := None))"

definition wk_known :: "worker \<Rightarrow> nat set" where
  "wk_known w = {i. i < wk_next w}"

lemma map_of_same_entries:
  assumes "mset xs = mset ys" "distinct (map fst xs)"
  shows "map_of xs = map_of ys \<and> distinct (map fst ys) \<and> set xs = set ys"
proof -
  have "mset (map fst xs) = mset (map fst ys)" using assms(1) by simp
  then have d: "distinct (map fst ys)" using assms(2) mset_eq_imp_distinct_iff by blast
  have s: "set xs = set ys" using assms(1) by (rule mset_eq_setD)
  then show ?thesis using map_of_inject_set [OF assms(2) d] d by blast
qed

lemma map_of_fresh: "\<forall>(i, t) \<in> set xs. i < (n :: nat) \<Longrightarrow> map_of xs n = None"
  unfolding map_of_eq_None_iff by force

lemma wk_start:
  assumes "wk_inv w" "scheduleFromNow now d w = (i, w')"
  shows "wk_inv w' \<and> wk_due w' = (wk_due w)(i \<mapsto> now + d) \<and> wk_due w i = None \<and> wk_known w' = insert i (wk_known w)"
proof -
  have i: "i = wk_next w" and e: "mset (wk_entries w') = mset ((i, now + d) # wk_entries w)"
    and c: "wk_cancelled w' = wk_cancelled w" and n: "wk_next w' = wk_next w + 1"
    using assms(2) by (auto simp: scheduleFromNow_def new_reference_def sched_scheduleFromNow_def schedule_def wk_entries_def)
  have f: "\<forall>(i, t) \<in> set (wk_entries w). i < wk_next w" "\<forall>i \<in> wk_cancelled w. i < wk_next w"
    and d: "distinct (map fst (wk_entries w))"
    using assms(1) by (simp_all add: wk_inv_def)
  have d': "distinct (map fst ((i, now + d) # wk_entries w))" using d f(1) i by auto
  note m = map_of_same_entries [OF e [symmetric] d']
  then have s: "set (wk_entries w') = insert (i, now + d) (set (wk_entries w))"
    and mo: "map_of (wk_entries w') = (map_of (wk_entries w))(i \<mapsto> now + d)" and d'': "distinct (map fst (wk_entries w'))"
    by simp_all
  have "wk_inv w'" unfolding wk_inv_def s c n using d'' f i by auto
  moreover have "wk_due w' = (wk_due w)(i \<mapsto> now + d)"
    unfolding wk_due_def [abs_def] c mo using f(2) i by (auto simp: fun_eq_iff)
  moreover have "wk_due w i = None" using map_of_fresh [OF f(1)] i by (simp add: wk_due_def)
  ultimately show ?thesis using n i by (auto simp: wk_known_def)
qed

lemma wk_move:
  assumes "mset (wk_entries w') = mset (wk_entries w)" "wk_cancelled w' = wk_cancelled w" "wk_next w' = wk_next w" "wk_inv w"
  shows "wk_inv w' \<and> wk_due w' = wk_due w \<and> wk_known w' = wk_known w"
proof -
  have "distinct (map fst (wk_entries w))" using assms(4) by (simp add: wk_inv_def)
  note m = map_of_same_entries [OF assms(1) [symmetric] this]
  then show ?thesis using assms(2-4) by (simp add: wk_inv_def wk_due_def wk_known_def fun_eq_iff)
qed

lemma wk_post_keeps: "wk_inv w \<Longrightarrow> wk_inv (wk_post now k w) \<and> wk_due (wk_post now k w) = wk_due w \<and> wk_known (wk_post now k w) = wk_known w"
proof (rule wk_move)
  obtain r s where r: "service_round now k (wk_scheduler w) = (r, s)" by fastforce
  show "mset (wk_entries (wk_post now k w)) = mset (wk_entries w)"
  proof (cases r)
    case None
    then show ?thesis using service_round_cases(2) [of now k "wk_scheduler w" s] r by (simp add: wk_post_def wk_entries_def)
  next
    case (Some e)
    then show ?thesis using service_round_cases(1) [of now k "wk_scheduler w" e s] r by (simp add: wk_post_def wk_entries_def)
  qed
  show "wk_cancelled (wk_post now k w) = wk_cancelled w" "wk_next (wk_post now k w) = wk_next w"
    using r by (simp_all add: wk_post_def split: option.splits)
qed

lemma wk_run_keeps:
  assumes "wk_inv w" "wk_run w = (r, w')"
  shows "wk_inv w' \<and> wk_known w' = wk_known w \<and>
      (case r of None \<Rightarrow> wk_due w' = wk_due w | Some i \<Rightarrow> wk_due w i \<noteq> None \<and> wk_due w' = (wk_due w)(i := None))"
proof (cases "wk_posted w")
  case Nil
  then show ?thesis using assms by (auto simp: wk_run_def)
next
  case (Cons e ts)
  obtain t j where e: "e = (t, j)" by (cases e)
  have w': "w' = w\<lparr>wk_posted := ts\<rparr>" "r = (if j \<in> wk_cancelled w then None else Some j)"
    using assms(2) Cons e by (auto simp: wk_run_def)
  have m: "mset ((j, t) # wk_entries w') = mset (wk_entries w)" using Cons e w' by (simp add: wk_entries_def)
  have d: "distinct (map fst (wk_entries w))" using assms(1) by (simp add: wk_inv_def)
  note mm = map_of_same_entries [OF m [symmetric] d]
  then have mo: "map_of (wk_entries w) = (map_of (wk_entries w'))(j \<mapsto> t)" "distinct (map fst (wk_entries w'))"
    "map_of (wk_entries w') j = None" "set (wk_entries w) = insert (j, t) (set (wk_entries w'))"
    by (simp_all add: map_of_eq_None_iff)
  have "wk_inv w'" using assms(1) mo(2,4) w' by (simp add: wk_inv_def)
  moreover have "wk_known w' = wk_known w" using w' by (simp add: wk_known_def)
  moreover have "wk_due w = (if j \<in> wk_cancelled w then wk_due w' else (wk_due w')(j \<mapsto> t))"
    using mo(1) w' by (auto simp: wk_due_def fun_eq_iff)
  moreover have "wk_due w' j = None" using mo(3) by (simp add: wk_due_def)
  ultimately show ?thesis using w'(2) by (auto simp: fun_eq_iff)
qed

lemma wk_fresh:
  assumes "wk_inv w" "new_reference w = (i, w')"
  shows "wk_inv w' \<and> wk_due w' = wk_due w \<and> wk_due w i = None \<and> wk_known w' = insert i (wk_known w)"
proof -
  have w': "i = wk_next w" "w' = w\<lparr>wk_next := wk_next w + 1\<rparr>" and e: "wk_entries w' = wk_entries w"
    using assms(2) by (auto simp: new_reference_def wk_entries_def)
  have f: "\<forall>(i, t) \<in> set (wk_entries w). i < wk_next w" "\<forall>i \<in> wk_cancelled w. i < wk_next w"
    using assms(1) by (simp_all add: wk_inv_def)
  then have "wk_inv w'" using assms(1) unfolding wk_inv_def e unfolding w' by fastforce
  moreover have "wk_due w' = wk_due w" using e w' by (simp add: wk_due_def fun_eq_iff)
  moreover have "wk_due w i = None" using map_of_fresh [OF f(1)] w' by (simp add: wk_due_def)
  ultimately show ?thesis using w' by (auto simp: wk_known_def)
qed

lemma wk_cancel: "wk_inv w \<Longrightarrow> i \<in> wk_known w \<Longrightarrow>
    wk_inv (unschedule i w) \<and> wk_due (unschedule i w) = (wk_due w)(i := None) \<and> wk_known (unschedule i w) = wk_known w"
  by (auto simp: unschedule_def wk_inv_def wk_due_def wk_entries_def wk_known_def fun_eq_iff)

interpretation worker_timers: timers wk_inv wk_due wk_known new_reference scheduleFromNow unschedule wk_post wk_run
proof unfold_locales
  show "wk_inv w \<Longrightarrow> new_reference w = (i, w') \<Longrightarrow> wk_inv w' \<and> wk_due w' = wk_due w \<and> wk_due w i = None \<and> wk_known w' = insert i (wk_known w)"
    for w i w' by (rule wk_fresh)
  show "wk_inv w \<Longrightarrow> scheduleFromNow now d w = (i, w') \<Longrightarrow> wk_inv w' \<and> wk_due w' = (wk_due w)(i \<mapsto> now + d) \<and> wk_due w i = None
      \<and> wk_known w' = insert i (wk_known w)" for w now d i w' by (rule wk_start)
  show "wk_inv w \<Longrightarrow> i \<in> wk_known w \<Longrightarrow> wk_inv (unschedule i w) \<and> wk_due (unschedule i w) = (wk_due w)(i := None)
      \<and> wk_known (unschedule i w) = wk_known w" for w i by (rule wk_cancel)
  show "wk_inv w \<Longrightarrow> wk_inv (wk_post now k w) \<and> wk_due (wk_post now k w) = wk_due w \<and> wk_known (wk_post now k w) = wk_known w"
    for w now k by (rule wk_post_keeps)
  show "wk_inv w \<Longrightarrow> wk_run w = (r, w') \<Longrightarrow> wk_inv w' \<and> wk_known w' = wk_known w \<and>
      (case r of None \<Rightarrow> wk_due w' = wk_due w | Some i \<Rightarrow> wk_due w i \<noteq> None \<and> wk_due w' = (wk_due w)(i := None))"
    for w r w' by (rule wk_run_keeps)
qed

lemma new_Worker_timers: "wk_inv new_Worker" "wk_due new_Worker i = None"
  by (simp_all add: wk_inv_def wk_due_def wk_entries_def new_Worker_def new_Scheduler_def)

subsection \<open>Periodic tasks and pools\<close>

text \<open>
  \<^verbatim>\<open>scheduleEvery\<close>: the delay until the next run of a task that was scheduled at \<open>start\<close> with
  \<open>next_delay\<close> and runs, and is to run again, at \<open>now\<close>.
\<close>

definition every_delay :: "int \<Rightarrow> int \<Rightarrow> int \<Rightarrow> int \<Rightarrow> int" where
  "every_delay start now period next_delay =
     (let clock_skew = now - start - next_delay in max (period - clock_skew) 0)"

text \<open>A late run shortens the next delay by as much: the runs stay on the grid of the period.\<close>

lemma every_delay_grid:
  "0 \<le> lateness \<Longrightarrow> lateness \<le> period \<Longrightarrow>
     start + next_delay + lateness + every_delay start (start + next_delay + lateness) period next_delay
     = start + next_delay + period"
  by (simp add: every_delay_def)

text \<open>
  \<^verbatim>\<open>getLessUsedWorker\<close>, with the use counts of the workers; the copies made by the loop add
  the same to both sides of the comparison.
\<close>

fun less_used :: "'w \<times> nat \<Rightarrow> ('w \<times> nat) list \<Rightarrow> 'w \<times> nat" where
  "less_used chosen [] = chosen"
| "less_used chosen (worker # ws) = less_used (if snd chosen > snd worker then worker else chosen) ws"

definition getLessUsedWorker :: "('w \<times> nat) list \<Rightarrow> ('w \<times> nat) option" where
  "getLessUsedWorker workers = (case workers of [] \<Rightarrow> None | w # _ \<Rightarrow> Some (less_used w workers))"

definition getLessUsedIOWorker :: "('w \<times> nat) list \<Rightarrow> ('w \<times> nat) option" where
  "getLessUsedIOWorker io_workers = (case io_workers of [] \<Rightarrow> None | w # _ \<Rightarrow> Some (less_used w io_workers))"

lemma less_used_least:
  "less_used c ws \<in> insert c (set ws) \<and> snd (less_used c ws) \<le> snd c
   \<and> (\<forall>w \<in> set ws. snd (less_used c ws) \<le> snd w)"
proof (induction c ws rule: less_used.induct)
  case (2 chosen worker ws)
  let ?c = "if snd chosen > snd worker then worker else chosen"
  have "snd ?c \<le> snd chosen" "snd ?c \<le> snd worker" by auto
  with "2.IH" show ?case by (auto simp: dest: order_trans)
qed simp

lemma getLessUsedWorker_least:
  "getLessUsedWorker workers = Some w \<Longrightarrow> w \<in> set workers \<and> (\<forall>v \<in> set workers. snd w \<le> snd v)"
  using less_used_least [of "hd workers" workers] by (cases workers) (auto simp: getLessUsedWorker_def)

end
