(* ===== verification/PliPacer.thy ===== *)
theory PliPacer
  imports RtpUtils Worker
begin

text \<open>
  \<^verbatim>\<open>PliPacerHandler\<close>: it lets one request for a key frame through and repeats it every 200 ms
  until the key frame comes, or asks with FIRs after ten seconds without one. Its task is scheduled
  on the worker of the connection; the operations take the worker's functions as arguments, and what
  is proved of them rests on the interface \<open>timers\<close>. Times are milliseconds.
\<close>

definition kMinPLIPeriod :: int where "kMinPLIPeriod = 200"
definition kKeyframeTimeout :: int where "kKeyframeTimeout = 10000"

record pliPacer =
  pp_enabled :: bool
  time_last_keyframe :: int
  waiting_for_keyframe :: bool
  scheduled_pli :: nat
  pp_video_sink_ssrc :: u32
  pp_video_source_ssrc :: u32
  fir_seq_number :: u8

text \<open>The constructor, given the reference it creates.\<close>

definition new_PliPacerHandler :: "int \<Rightarrow> nat \<Rightarrow> pliPacer" where
  "new_PliPacerHandler now ref = \<lparr>pp_enabled = True, time_last_keyframe = now, waiting_for_keyframe = False,
     scheduled_pli = ref, pp_video_sink_ssrc = 0, pp_video_source_ssrc = 0, fir_seq_number = 0\<rparr>"

definition pp_enable :: "pliPacer \<Rightarrow> pliPacer" where
  "pp_enable h = h\<lparr>pp_enabled := True\<rparr>"

definition pp_disable :: "pliPacer \<Rightarrow> pliPacer" where
  "pp_disable h = h\<lparr>pp_enabled := False\<rparr>"

definition pp_notifyUpdate :: "u32 \<Rightarrow> u32 \<Rightarrow> pliPacer \<Rightarrow> pliPacer" where
  "pp_notifyUpdate sink source h = h\<lparr>pp_video_sink_ssrc := sink, pp_video_source_ssrc := source\<rparr>"

text \<open>A handler and the worker, threaded together.\<close>

definition pp_read :: "(nat \<Rightarrow> 'w \<Rightarrow> 'w) \<Rightarrow> ('w \<Rightarrow> nat \<times> 'w) \<Rightarrow> int \<Rightarrow> dataPacket \<Rightarrow> pliPacer \<times> 'w \<Rightarrow> (pliPacer \<times> 'w) \<times> fire list" where
  "pp_read cancel new_ref now packet s =
     (let (h, w) = s;
          s = (if pp_enabled h \<and> is_keyframe packet
               then let h = h\<lparr>time_last_keyframe := now, waiting_for_keyframe := False\<rparr>;
                        w = cancel (scheduled_pli h) w;
                        (ref, w) = new_ref w
                    in (h\<lparr>scheduled_pli := ref\<rparr>, w)
               else (h, w))
      in (s, [FireRead packet]))"

definition scheduleNextPLI :: "(int \<Rightarrow> int \<Rightarrow> 'w \<Rightarrow> nat \<times> 'w) \<Rightarrow> int \<Rightarrow> pliPacer \<times> 'w \<Rightarrow> pliPacer \<times> 'w" where
  "scheduleNextPLI schedule_from_now now s =
     (let (h, w) = s
      in if \<not> waiting_for_keyframe h \<or> \<not> pp_enabled h then (h, w)
         else let (ref, w) = schedule_from_now now kMinPLIPeriod w in (h\<lparr>scheduled_pli := ref\<rparr>, w))"

definition pp_sendPLI :: "(int \<Rightarrow> int \<Rightarrow> 'w \<Rightarrow> nat \<times> 'w) \<Rightarrow> int \<Rightarrow> pliPacer \<times> 'w \<Rightarrow> (pliPacer \<times> 'w) \<times> fire list" where
  "pp_sendPLI schedule_from_now now s =
     (scheduleNextPLI schedule_from_now now s,
      [FireWrite (createPLI (word_of_int now) (pp_video_source_ssrc (fst s)) (pp_video_sink_ssrc (fst s)))])"

definition pp_fir :: "int \<Rightarrow> pliPacer \<Rightarrow> u8 \<Rightarrow> fire" where
  "pp_fir now h n = FireWrite (createFIR (word_of_int now) (pp_video_source_ssrc h) (pp_video_sink_ssrc h) n)"

definition sendFIR :: "('w \<Rightarrow> nat \<times> 'w) \<Rightarrow> int \<Rightarrow> pliPacer \<times> 'w \<Rightarrow> (pliPacer \<times> 'w) \<times> fire list" where
  "sendFIR new_ref now s =
     (let (h, w) = s; n = fir_seq_number h;
          fs = [pp_fir now h n, pp_fir now h (n + 1), pp_fir now h (n + 2)];
          (ref, w) = new_ref w
      in ((h\<lparr>fir_seq_number := n + 3, waiting_for_keyframe := False, scheduled_pli := ref\<rparr>, w), fs))"

text \<open>The task that \<^verbatim>\<open>scheduleNextPLI\<close> schedules.\<close>

definition pp_task ::
  "(int \<Rightarrow> int \<Rightarrow> 'w \<Rightarrow> nat \<times> 'w) \<Rightarrow> ('w \<Rightarrow> nat \<times> 'w) \<Rightarrow> int \<Rightarrow> pliPacer \<times> 'w \<Rightarrow> (pliPacer \<times> 'w) \<times> fire list" where
  "pp_task schedule_from_now new_ref now s =
     (if now - time_last_keyframe (fst s) \<ge> kKeyframeTimeout then sendFIR new_ref now s
      else pp_sendPLI schedule_from_now now s)"

definition pp_write :: "(int \<Rightarrow> int \<Rightarrow> 'w \<Rightarrow> nat \<times> 'w) \<Rightarrow> int \<Rightarrow> dataPacket \<Rightarrow> pliPacer \<times> 'w \<Rightarrow> (pliPacer \<times> 'w) \<times> fire list" where
  "pp_write schedule_from_now now packet s =
     (let (h, w) = s
      in if pp_enabled h \<and> isPLI packet
         then if waiting_for_keyframe h then ((h, w), [])
              else (scheduleNextPLI schedule_from_now now (h\<lparr>waiting_for_keyframe := True\<rparr>, w), [FireWrite packet])
         else ((h, w), [FireWrite packet]))"

subsection \<open>Never stuck\<close>

text \<open>
  The invariant of a handler that is not disabled while it waits: it waits exactly when its task is
  pending, and no other task is; \<open>T\<close> is a time nothing happened after, and the task is due at most
  200 ms later.
\<close>

definition pacing :: "('w \<Rightarrow> nat \<Rightarrow> int option) \<Rightarrow> ('w \<Rightarrow> nat set) \<Rightarrow> int \<Rightarrow> pliPacer \<times> 'w \<Rightarrow> bool" where
  "pacing due known T s \<longleftrightarrow> pp_enabled (fst s) \<and> scheduled_pli (fst s) \<in> known (snd s) \<and>
     (if waiting_for_keyframe (fst s) then \<exists>t. due (snd s) = [scheduled_pli (fst s) \<mapsto> t] \<and> t \<le> T + kMinPLIPeriod
      else due (snd s) = Map.empty)"

text \<open>What happens to the handler and its worker, and the time at which it happens.\<close>

datatype pp_event = PRead dataPacket | PWrite dataPacket | PPost nat | PRun

definition pp_step ::
  "('w \<Rightarrow> nat \<times> 'w) \<Rightarrow> (int \<Rightarrow> int \<Rightarrow> 'w \<Rightarrow> nat \<times> 'w) \<Rightarrow> (nat \<Rightarrow> 'w \<Rightarrow> 'w) \<Rightarrow> (int \<Rightarrow> nat \<Rightarrow> 'w \<Rightarrow> 'w) \<Rightarrow> ('w \<Rightarrow> nat option \<times> 'w)
     \<Rightarrow> int \<Rightarrow> pp_event \<Rightarrow> pliPacer \<times> 'w \<Rightarrow> (pliPacer \<times> 'w) \<times> fire list" where
  "pp_step fresh start cancel post run now e s = (case e of
       PRead packet \<Rightarrow> pp_read cancel fresh now packet s
     | PWrite packet \<Rightarrow> pp_write start now packet s
     | PPost k \<Rightarrow> ((fst s, post now k (snd s)), [])
     | PRun \<Rightarrow> (case run (snd s) of (None, w) \<Rightarrow> ((fst s, w), [])
                | (Some i, w) \<Rightarrow> pp_task start fresh now (fst s, w)))"

context timers
begin

lemma scheduleNextPLI_pacing:
  assumes "ok w" "waiting_for_keyframe h" "pp_enabled h" "due w = Map.empty" "now \<le> T"
  shows "ok (snd (scheduleNextPLI start now (h, w))) \<and> pacing due known T (scheduleNextPLI start now (h, w))"
proof -
  obtain i w' where s: "start now kMinPLIPeriod w = (i, w')" by fastforce
  show ?thesis using start_ok [OF assms(1) s] assms(2-5) by (auto simp: scheduleNextPLI_def s pacing_def)
qed

lemma fresh_pacing:
  assumes "ok w" "fresh w = (i, w')" "pp_enabled h" "\<not> waiting_for_keyframe h" "due w = Map.empty" "scheduled_pli h = i"
  shows "ok w' \<and> pacing due known T (h, w')"
  using fresh_ok [OF assms(1,2)] assms(3-6) by (simp add: pacing_def)

lemma step_pacing:
  assumes "ok (snd s)" "pacing due known T s" "now \<le> T"
  shows "ok (snd (fst (pp_step fresh start cancel post run now e s)))
    \<and> pacing due known T (fst (pp_step fresh start cancel post run now e s))"
proof -
  obtain h w where s: "s = (h, w)" by (cases s)
  have p: "pp_enabled h" "scheduled_pli h \<in> known w" "ok w"
    "if waiting_for_keyframe h then \<exists>t. due w = [scheduled_pli h \<mapsto> t] \<and> t \<le> T + kMinPLIPeriod else due w = Map.empty"
    using assms by (auto simp: s pacing_def split: if_splits)
  show ?thesis
  proof (cases e)
    case (PRead packet)
    show ?thesis
    proof (cases "is_keyframe packet")
      case True
      let ?w = "cancel (scheduled_pli h) w"
      obtain i w' where f: "fresh ?w = (i, w')" by fastforce
      have "ok ?w \<and> due ?w = Map.empty" using cancel_ok [OF p(3,2)] p(4) by (auto split: if_splits)
      with f show ?thesis
        using True p(1) fresh_pacing [OF _ f, of "h\<lparr>time_last_keyframe := now, waiting_for_keyframe := False, scheduled_pli := i\<rparr>"]
        by (simp add: PRead s pp_step_def pp_read_def)
    next
      case False
      then show ?thesis using assms by (simp add: PRead s pp_step_def pp_read_def)
    qed
  next
    case (PWrite packet)
    then show ?thesis
      using assms p scheduleNextPLI_pacing [OF p(3), of "h\<lparr>waiting_for_keyframe := True\<rparr>" now T]
      by (auto simp: s pp_step_def pp_write_def split: if_splits)
  next
    case (PPost k)
    then show ?thesis using p post_ok [OF p(3)] by (auto simp: s pp_step_def pacing_def)
  next
    case PRun
    obtain r w' where r: "run w = (r, w')" by fastforce
    note k = run_ok [OF p(3) r]
    show ?thesis
    proof (cases r)
      case None
      then show ?thesis using k p by (auto simp: PRun s pp_step_def r pacing_def)
    next
      case (Some i)
      then have wt: "waiting_for_keyframe h" and i: "i = scheduled_pli h"
        using k p(4) by (auto split: if_splits)
      have d: "due w' = Map.empty" and ok': "ok w'" using k Some p(4) wt i by auto
      obtain j v where f: "fresh w' = (j, v)" by fastforce
      show ?thesis
        using scheduleNextPLI_pacing [OF ok' wt p(1) d assms(3)] p(1) f
          fresh_pacing [OF ok' f, of "h\<lparr>fir_seq_number := fir_seq_number h + 3, waiting_for_keyframe := False, scheduled_pli := j\<rparr>"] d
        by (simp add: PRun s pp_step_def r Some pp_task_def pp_sendPLI_def sendFIR_def Let_def)
    qed
  qed
qed

lemma run_pacing:
  assumes "ok (snd s)" "pacing due known T s" "\<forall>(now, e) \<in> set es. now \<le> T"
  shows "ok (snd (fold (\<lambda>(now, e) s. fst (pp_step fresh start cancel post run now e s)) es s))
    \<and> pacing due known T (fold (\<lambda>(now, e) s. fst (pp_step fresh start cancel post run now e s)) es s)"
  using assms
proof (induction es arbitrary: s)
  case (Cons x es)
  obtain now e where x: "x = (now, e)" by (cases x)
  have "ok (snd (fst (pp_step fresh start cancel post run now e s)))
      \<and> pacing due known T (fst (pp_step fresh start cancel post run now e s))"
    by (rule step_pacing) (use Cons.prems x in auto)
  then show ?case using Cons.IH Cons.prems(3) by (simp add: x)
qed simp

end

subsection \<open>On the worker\<close>

definition pacer_step :: "int \<Rightarrow> pp_event \<Rightarrow> pliPacer \<times> worker \<Rightarrow> (pliPacer \<times> worker) \<times> fire list" where
  "pacer_step = pp_step new_reference scheduleFromNow unschedule wk_post wk_run"

definition new_pacer :: "int \<Rightarrow> pliPacer \<times> worker" where
  "new_pacer now = (let (ref, w) = new_reference new_Worker in (new_PliPacerHandler now ref, w))"

definition pacer_run :: "(int \<times> pp_event) list \<Rightarrow> int \<Rightarrow> pliPacer \<times> worker" where
  "pacer_run es now = fold (\<lambda>(now, e) s. fst (pacer_step now e s)) es (new_pacer now)"

lemma new_pacer_pacing: "wk_inv (snd (new_pacer now)) \<and> pacing wk_due wk_known T (new_pacer now)"
proof -
  have "wk_due new_Worker = Map.empty" using new_Worker_timers(2) by auto
  then show ?thesis
    using worker_timers.fresh_pacing [OF new_Worker_timers(1), of 0 _ "new_PliPacerHandler now 0" T]
    by (simp add: new_pacer_def new_reference_def new_PliPacerHandler_def) (simp add: new_Worker_def)
qed

text \<open>
  C40: A request for a key frame that is held back is never forgotten: while the handler waits for a
  key frame, whatever packets came and whichever tasks ran, exactly one task is pending, due at most
  200 ms after the last event; when it does not wait, none is.
\<close>
theorem pacer_never_stuck:
  assumes "\<forall>(t, e) \<in> set es. t \<le> T"
  shows "if waiting_for_keyframe (fst (pacer_run es now))
    then \<exists>i t. wk_due (snd (pacer_run es now)) = [i \<mapsto> t] \<and> t \<le> T + 200
    else wk_due (snd (pacer_run es now)) = Map.empty"
  using worker_timers.run_pacing [OF _ _ assms, of "new_pacer now"] new_pacer_pacing [of now T]
  by (auto simp: pacer_run_def pacer_step_def pacing_def kMinPLIPeriod_def split: if_splits)

text \<open>A request, for the examples.\<close>

definition a_pli :: dataPacket where
  "a_pli = createPLI 0 1 2"

theorem pacer_never_stuck_witness:
  "\<exists>i t. wk_due (snd (pacer_run [(5, PWrite a_pli), (5, PPost 0), (205, PPost 0), (206, PRun)] 0)) = [i \<mapsto> t] \<and> t \<le> 406"
proof -
  have "waiting_for_keyframe (fst (pacer_run [(5, PWrite a_pli), (5, PPost 0), (205, PPost 0), (206, PRun)] 0))" by code_simp
  then show ?thesis using pacer_never_stuck [of "[(5, PWrite a_pli), (5, PPost 0), (205, PPost 0), (206, PRun)]" 206 0] by simp
qed

text \<open>
  Disabled and enabled again while it waits, the handler swallows every request until a key frame
  happens to come: the task found it disabled and did not schedule the next one.
\<close>
lemma pacer_stuck_after_disable:
  "let s = pacer_run [(5, PWrite a_pli), (5, PPost 0)] 0;
       (s, fs) = pacer_step 205 PRun (fst (fst (pacer_step 205 (PPost 0) (pp_disable (fst s), snd s))), snd (fst (pacer_step 205 (PPost 0) (pp_disable (fst s), snd s))));
       s = (pp_enable (fst s), snd s)
   in length fs = 1 \<and> waiting_for_keyframe (fst s) \<and> task_queue (wk_scheduler (snd s)) = [] \<and> wk_posted (snd s) = []
      \<and> length (snd (pacer_step 300 (PWrite a_pli) s)) = 0 \<and> waiting_for_keyframe (fst (fst (pacer_step 300 (PWrite a_pli) s)))"
  by code_simp

text \<open>
  The ten seconds are counted from the last key frame and not from the request: when the last key
  frame is older than that, the first request is followed by three FIRs after 200 ms.
\<close>
lemma pacer_times_out_early:
  "length (snd (pacer_step 20200 PRun (pacer_run [(20000, PWrite a_pli), (20000, PPost 0), (20200, PPost 0)] 0))) = 3"
  by code_simp

end
