(* ===== verification/LayerDetector.thy ===== *)
theory LayerDetector
  imports RtpVP9Parser
begin

text \<open>
  \<^verbatim>\<open>LayerDetectorHandler\<close>: incoming VP8 and VP9 packets are marked with the layers they belong to, so
  that the filter on the way out need not parse them. Which codec a payload type stands for is the
  answer of the session description, an argument here. Using the connection before it is known is
  a null pointer, and a VP9 descriptor without end is not parsed: both are \<open>None\<close>.
\<close>

record layerDetector =
  ld_connection :: bool
  ld_enabled :: bool
  ld_initialized :: bool
  video_ssrc_list :: "u32 list"

definition new_LayerDetectorHandler :: layerDetector where
  "new_LayerDetectorHandler = \<lparr>ld_connection = False, ld_enabled = True, ld_initialized = False, video_ssrc_list = []\<rparr>"

definition ld_enable :: "layerDetector \<Rightarrow> layerDetector" where
  "ld_enable h = h\<lparr>ld_enabled := True\<rparr>"

definition ld_disable :: "layerDetector \<Rightarrow> layerDetector" where
  "ld_disable h = h\<lparr>ld_enabled := False\<rparr>"

fun position_of :: "u32 \<Rightarrow> u32 list \<Rightarrow> nat" where
  "position_of ssrc [] = 0"
| "position_of ssrc (x # xs) = (if x = ssrc then 0 else Suc (position_of ssrc xs))"

definition getSsrcPosition :: "layerDetector \<Rightarrow> u32 \<Rightarrow> int" where
  "getSsrcPosition h ssrc =
     (let index = position_of ssrc (video_ssrc_list h)
      in if index \<noteq> length (video_ssrc_list h) then int index else -1)"

text \<open>The two switches, with their cases falling through.\<close>

definition vp8_temporal_layers :: "int \<Rightarrow> int list" where
  "vp8_temporal_layers tid =
     (if tid = 0 then [0, 1, 2] else if tid = 2 then [1, 2] else if tid = 1 then [2] else [0])"

definition vp9_temporal_layers :: "int \<Rightarrow> int list" where
  "vp9_temporal_layers tid =
     (if tid = 0 then [0, 1, 2, 3] else if tid = 2 then [1, 2, 3] else if tid = 1 then [2, 3]
      else if tid = 3 then [3] else [0])"

definition parseLayerInfoFromVP8 :: "layerDetector \<Rightarrow> dataPacket \<Rightarrow> dataPacket" where
  "parseLayerInfoFromVP8 h packet =
     (let start = getHeaderLength (data packet);
          payload = parseVP8 (data packet) start (packet_length packet - int start);
          packet = (if hasPictureID payload then packet\<lparr>picture_id := pictureID payload\<rparr> else packet);
          packet = packet\<lparr>compatible_temporal_layers := vp8_temporal_layers (tID payload)\<rparr>;
          position = getSsrcPosition h (getSSRC (data packet));
          packet = packet\<lparr>compatible_spatial_layers := [position]\<rparr>
      in packet\<lparr>is_keyframe := (frameType payload = kVP8IFrame)\<rparr>)"

definition vp9_spatial_layers :: "int \<Rightarrow> int list" where
  "vp9_spatial_layers sid = rev [sid..5]"

definition parseLayerInfoFromVP9 :: "dataPacket \<Rightarrow> dataPacket option" where
  "parseLayerInfoFromVP9 packet =
     (let start = getHeaderLength (data packet)
      in case parseVP9 (data packet) start (packet_length packet - int start) of
           None \<Rightarrow> None
         | Some payload \<Rightarrow>
             let packet = packet\<lparr>compatible_spatial_layers := vp9_spatial_layers (spatialID payload)\<rparr>;
                 packet = packet\<lparr>compatible_temporal_layers := vp9_temporal_layers (temporalID payload)\<rparr>;
                 packet = packet\<lparr>is_keyframe := (vp9_frameType payload = kVP9IFrame)\<rparr>
             in Some (packet\<lparr>ending_of_layer_frame := endingOfLayerFrame payload\<rparr>))"

definition ld_read :: "(u8 \<Rightarrow> string option) \<Rightarrow> dataPacket \<Rightarrow> layerDetector \<Rightarrow> fire list option" where
  "ld_read codec_of packet h =
     (if \<not> isRtcp (data packet) 0 \<and> ld_enabled h \<and> packet_type packet = VIDEO_PACKET
      then if \<not> ld_connection h then None
           else if codec_of (getPayloadType (data packet)) = Some ''VP8''
           then let packet = packet\<lparr>codec := ''VP8''\<rparr> in Some [FireRead (parseLayerInfoFromVP8 h packet)]
           else if codec_of (getPayloadType (data packet)) = Some ''VP9''
           then let packet = packet\<lparr>codec := ''VP9''\<rparr>
                in map_option (\<lambda>packet. [FireRead packet]) (parseLayerInfoFromVP9 packet)
           else Some [FireRead packet]
      else Some [FireRead packet])"

text \<open>\<open>connection\<close> is what the pipeline's connection answers; \<open>None\<close> when there is no connection.\<close>

definition ld_notifyUpdate :: "u32 list option \<Rightarrow> layerDetector \<Rightarrow> layerDetector" where
  "ld_notifyUpdate connection h =
     (if ld_initialized h then h
      else case connection of
          None \<Rightarrow> h\<lparr>ld_connection := False\<rparr>
        | Some ssrcs \<Rightarrow> h\<lparr>ld_connection := True, video_ssrc_list := ssrcs\<rparr>)"

lemma position_of_le: "position_of ssrc xs \<le> length xs"
  by (induction xs) auto

lemma position_of_nth: "position_of ssrc xs < length xs \<Longrightarrow> xs ! position_of ssrc xs = ssrc"
  by (induction xs) auto

lemma position_of_in: "position_of ssrc xs < length xs \<longleftrightarrow> ssrc \<in> set xs"
  by (induction xs) auto

lemma getSsrcPosition_cases:
  "getSsrcPosition h ssrc = -1 \<and> ssrc \<notin> set (video_ssrc_list h)
   \<or> 0 \<le> getSsrcPosition h ssrc \<and> nat (getSsrcPosition h ssrc) < length (video_ssrc_list h)
      \<and> video_ssrc_list h ! nat (getSsrcPosition h ssrc) = ssrc"
  using position_of_le [of ssrc "video_ssrc_list h"] position_of_nth [of ssrc "video_ssrc_list h"]
    position_of_in [of ssrc "video_ssrc_list h"]
  by (auto simp: getSsrcPosition_def Let_def)

text \<open>
  A packet of temporal layer 1 is marked for layer 2 only, and one of layer 2 for layers 1 and 2:
  the middle layer and the highest one are swapped.
\<close>
lemma temporal_layers_swapped:
  "1 \<notin> set (vp8_temporal_layers 1)" "1 \<in> set (vp8_temporal_layers 2)"
  "1 \<notin> set (vp9_temporal_layers 1)" "1 \<in> set (vp9_temporal_layers 2)"
  by (simp_all add: vp8_temporal_layers_def vp9_temporal_layers_def)

text \<open>Nothing sets \<^verbatim>\<open>initialized_\<close>: every update fetches the SSRCs again.\<close>

lemma never_initialized: "\<not> ld_initialized h \<Longrightarrow> \<not> ld_initialized (ld_notifyUpdate c h)"
  by (simp add: ld_notifyUpdate_def split: option.splits)

text \<open>
  What a marked packet says: the layers it belongs to form an end segment (whoever gets a layer gets
  the packet also in every higher one), the spatial layer of a VP8 packet is the position of its
  stream in the announced list.
\<close>
lemma detector_marks:
  assumes "ld_read codec_of packet h = Some [FireRead p]" "\<not> isRtcp (data packet) 0" "ld_enabled h"
    "packet_type packet = VIDEO_PACKET" "codec_of (getPayloadType (data packet)) = Some ''VP8''"
  shows "codec p = ''VP8''" "data p = data packet"
    "\<exists>position. compatible_spatial_layers p = [position] \<and> position = getSsrcPosition h (getSSRC (data packet))"
    "compatible_temporal_layers p \<in> {[0, 1, 2], [1, 2], [2], [0]}"
  using assms by (auto simp: ld_read_def parseLayerInfoFromVP8_def vp8_temporal_layers_def Let_def split: if_splits)

end
