(* ===== verification/OrderedMap.thy ===== *)
theory OrderedMap
  imports Main
begin

text \<open>
  A \<^verbatim>\<open>std::map\<close> is the list of its entries, ordered by key: \<^verbatim>\<open>insert\<close>, which keeps what is there,
  \<^verbatim>\<open>erase\<close>, and assignment through an iterator or a reference.
\<close>

fun map_insert :: "'k::linorder \<Rightarrow> 'v \<Rightarrow> ('k \<times> 'v) list \<Rightarrow> ('k \<times> 'v) list" where
  "map_insert k v [] = [(k, v)]"
| "map_insert k v ((k', v') # m) =
     (if k < k' then (k, v) # (k', v') # m else if k = k' then (k', v') # m else (k', v') # map_insert k v m)"

definition map_erase :: "'k \<Rightarrow> ('k \<times> 'v) list \<Rightarrow> ('k \<times> 'v) list" where
  "map_erase k m = filter (\<lambda>e. fst e \<noteq> k) m"

text \<open>Assignment through an iterator: \<^verbatim>\<open>It->second\<close>.\<close>

definition map_assign :: "'k \<Rightarrow> ('v \<Rightarrow> 'v) \<Rightarrow> ('k \<times> 'v) list \<Rightarrow> ('k \<times> 'v) list" where
  "map_assign k f m = map (\<lambda>e. if fst e = k then (k, f (snd e)) else e) m"

definition map_ok :: "('k::linorder \<times> 'v) list \<Rightarrow> bool" where
  "map_ok m \<longleftrightarrow> sorted (map fst m) \<and> distinct (map fst m)"

lemma keys_map_insert: "fst ` set (map_insert k v m) = insert k (fst ` set m)"
  by (induction k v m rule: map_insert.induct) auto

lemma map_ok_insert [simp]: "map_ok m \<Longrightarrow> map_ok (map_insert k v m)"
proof (induction k v m rule: map_insert.induct)
  case (2 k v k' v' m)
  have "fst ` set (map_insert k v m) = insert k (fst ` set m)" by (rule keys_map_insert)
  then have "\<forall>e \<in> set (map_insert k v m). fst e = k \<or> fst e \<in> fst ` set m" by (metis image_eqI insert_iff)
  then show ?case using 2 by (fastforce simp: map_ok_def)
qed (simp add: map_ok_def)

lemma map_ok_fresh: "map_ok ((k', v') # m) \<Longrightarrow> k < k' \<Longrightarrow> map_of m k = None"
  by (force simp: map_ok_def map_of_eq_None_iff)

lemma map_of_insert [simp]:
  "map_ok m \<Longrightarrow> map_of (map_insert k v m) = (case map_of m k of None \<Rightarrow> (map_of m)(k \<mapsto> v) | Some _ \<Rightarrow> map_of m)"
proof (induction k v m rule: map_insert.induct)
  case (2 k v k' v' m)
  have m: "map_ok m" using 2(2) by (simp add: map_ok_def)
  consider "k < k'" | "k = k'" | "k' < k" by (rule linorder_cases)
  then show ?case
  proof cases
    case 1
    then show ?thesis using map_ok_fresh [OF 2(2) 1] by (auto simp: fun_eq_iff)
  next
    case 2
    then show ?thesis by simp
  next
    case 3
    then have i: "map_of (map_insert k v m) = (case map_of m k of None \<Rightarrow> (map_of m)(k \<mapsto> v) | Some _ \<Rightarrow> map_of m)"
      using 2(1) m by auto
    show ?thesis using 3 by (cases "map_of m k") (auto simp: i fun_eq_iff)
  qed
qed simp

lemma map_ok_erase [simp]: "map_ok m \<Longrightarrow> map_ok (map_erase k m)"
  by (auto simp: map_ok_def map_erase_def distinct_map_filter sorted_filter)

lemma map_of_erase [simp]: "map_of (map_erase k m) = (map_of m)(k := None)"
  by (induction m) (auto simp: map_erase_def fun_eq_iff)

lemma map_assign_keys [simp]: "map fst (map_assign k f m) = map fst m"
  by (induction m) (auto simp: map_assign_def)

lemma map_ok_assign [simp]: "map_ok (map_assign k f m) = map_ok m"
  by (simp add: map_ok_def)

lemma map_of_assign [simp]: "map_of (map_assign k f m) = (map_of m)(k := map_option f (map_of m k))"
  by (induction m) (auto simp: map_assign_def fun_eq_iff)

end
