(* ===== verification/StatNode.thy ===== *)
theory StatNode
  imports Complex_Main Decimal OrderedMap "HOL-Library.List_Lexorder" "HOL-Library.Char_ord"
begin

text \<open>
  \<^verbatim>\<open>stats/StatNode.h\<close> and \<^verbatim>\<open>StatNode.cpp\<close>: the tree of statistics that handlers keep, and its leaves:
  counters, the rate of a period, the rate over a window of intervals, the average of a window of
  samples. A \<^verbatim>\<open>double\<close> is a rational number, without rounding. Converting to an integer what is
  infinite, not a number or out of range is undefined: \<open>None\<close>. Times are arguments: nanoseconds for
  \<^verbatim>\<open>time_point\<close>, milliseconds where the code converts at once.
\<close>

subsection \<open>Doubles\<close>

definition quotient :: "rat \<Rightarrow> rat \<Rightarrow> rat option" where
  "quotient a b = (if b = 0 then None else Some (a / b))"

definition u64_of :: "rat \<Rightarrow> u64 option" where
  "u64_of x = (if -1 < x \<and> x < 18446744073709551616 then Some (word_of_int (if x < 0 then 0 else \<lfloor>x\<rfloor>)) else None)"

definition double_of :: "'a::len word \<Rightarrow> rat" where
  "double_of w = of_nat (unat w)"

definition durationToMs :: "int \<Rightarrow> int" where
  "durationToMs d = c_div d 1000000"

subsection \<open>The rate of a period\<close>

record rateStat =
  rs_period :: int
  rs_scale :: rat
  rs_calculation_start :: int
  rs_last :: u64
  rs_total :: u64
  current_period_total :: u64
  last_period_calculated_rate :: u64

definition new_RateStat :: "int \<Rightarrow> rat \<Rightarrow> int \<Rightarrow> rateStat" where
  "new_RateStat p sc now = \<lparr>rs_period = p, rs_scale = sc, rs_calculation_start = now, rs_last = 0,
     rs_total = 0, current_period_total = 0, last_period_calculated_rate = 0\<rparr>"

definition checkPeriod :: "int \<Rightarrow> rateStat \<Rightarrow> rateStat option" where
  "checkPeriod now r =
     (let delay = now - rs_calculation_start r
      in if delay \<ge> rs_period r
         then case quotient (rs_scale r * double_of (current_period_total r) * 1000) (of_int (durationToMs delay)) of
             None \<Rightarrow> None
           | Some x \<Rightarrow> (case u64_of x of
               None \<Rightarrow> None
             | Some rate \<Rightarrow> Some (r\<lparr>last_period_calculated_rate := rate, current_period_total := 0,
                                rs_calculation_start := now\<rparr>))
         else Some r)"

definition rate_add :: "int \<Rightarrow> u64 \<Rightarrow> rateStat \<Rightarrow> rateStat option" where
  "rate_add now v r =
     (let r = r\<lparr>current_period_total := current_period_total r + v\<rparr>;
          r = r\<lparr>rs_last := v\<rparr>;
          r = r\<lparr>rs_total := rs_total r + 1\<rparr>
      in checkPeriod now r)"

definition rate_value :: "int \<Rightarrow> rateStat \<Rightarrow> (u64 \<times> rateStat) option" where
  "rate_value now r = (case checkPeriod now r of None \<Rightarrow> None
     | Some r \<Rightarrow> Some (last_period_calculated_rate r, r))"

subsection \<open>The rate over a window of intervals\<close>

record movingInterval =
  interval_size_ms :: u64
  intervals_in_window :: u32
  mi_scale :: rat
  calculation_start_ms :: u64
  current_interval :: u64
  accumulated_intervals :: u64
  current_window_start_ms :: u64
  current_window_end_ms :: u64
  mi_samples :: "u64 list"
  mi_initialized :: bool

definition new_MovingIntervalRateStat :: "int \<Rightarrow> u32 \<Rightarrow> rat \<Rightarrow> movingInterval" where
  "new_MovingIntervalRateStat interval_size intervals sc =
     \<lparr>interval_size_ms = word_of_int (durationToMs interval_size), intervals_in_window = intervals, mi_scale = sc,
      calculation_start_ms = 0, current_interval = 0, accumulated_intervals = 0, current_window_start_ms = 0,
      current_window_end_ms = 0, mi_samples = replicate (unat intervals) 0, mi_initialized = False\<rparr>"

definition getIntervalForTimeMs :: "u64 \<Rightarrow> movingInterval \<Rightarrow> u32" where
  "getIntervalForTimeMs t m =
     ucast (((t - calculation_start_ms m) div interval_size_ms m) mod ucast (intervals_in_window m))"

definition getNextInterval :: "u32 \<Rightarrow> movingInterval \<Rightarrow> u32" where
  "getNextInterval i m = (i + 1) mod intervals_in_window m"

definition updateWindowTimes :: "movingInterval \<Rightarrow> movingInterval" where
  "updateWindowTimes m =
     m\<lparr>current_window_end_ms := calculation_start_ms m + accumulated_intervals m * interval_size_ms m,
       current_window_start_ms := calculation_start_ms m
         + (accumulated_intervals m - min (accumulated_intervals m) (ucast (intervals_in_window m))) * interval_size_ms m\<rparr>"

definition set_sample :: "nat \<Rightarrow> u64 \<Rightarrow> movingInterval \<Rightarrow> movingInterval" where
  "set_sample i v m = m\<lparr>mi_samples := (mi_samples m)[i := v]\<rparr>"

definition add_sample :: "nat \<Rightarrow> u64 \<Rightarrow> movingInterval \<Rightarrow> movingInterval" where
  "add_sample i v m = set_sample i (mi_samples m ! i + v) m"

definition mi_start :: "u64 \<Rightarrow> movingInterval \<Rightarrow> movingInterval" where
  "mi_start now m =
     (if \<not> mi_initialized m
      then let m = m\<lparr>calculation_start_ms := now, mi_initialized := True, accumulated_intervals := 1,
                     current_window_start_ms := now\<rparr>
           in m\<lparr>current_window_end_ms := now + accumulated_intervals m * interval_size_ms m\<rparr>
      else m)"

fun pass_intervals :: "nat \<Rightarrow> movingInterval \<Rightarrow> movingInterval" where
  "pass_intervals 0 m = m"
| "pass_intervals (Suc n) m =
     (let m = m\<lparr>current_interval := ucast (getNextInterval (ucast (current_interval m)) m)\<rparr>;
          m = set_sample (unat (current_interval m)) 0 m
      in pass_intervals n (m\<lparr>accumulated_intervals := accumulated_intervals m + 1\<rparr>))"

text \<open>The rest of \<^verbatim>\<open>add\<close>, after the intervals that passed.\<close>

definition add_in_interval :: "u64 \<Rightarrow> u64 \<Rightarrow> movingInterval \<Rightarrow> movingInterval" where
  "add_in_interval now v m =
     (let corresponding = getIntervalForTimeMs now m;
          m = (if ucast corresponding \<noteq> current_interval m
               then let m = set_sample (unat corresponding) 0 m;
                        m = m\<lparr>accumulated_intervals := accumulated_intervals m + 1\<rparr>;
                        m = updateWindowTimes m
                    in m\<lparr>current_interval := ucast corresponding\<rparr>
               else m)
      in add_sample (unat (current_interval m)) v m)"

text \<open>With an interval size or a number of intervals of 0 the code divides by zero.\<close>

definition mi_add :: "u64 \<Rightarrow> u64 \<Rightarrow> movingInterval \<Rightarrow> movingInterval option" where
  "mi_add now v m =
     (if interval_size_ms m = 0 \<or> intervals_in_window m = 0 then None else
      let m = mi_start now m;
          to_pass = (ucast ((now - current_window_end_ms m) div interval_size_ms m) :: u32)
      in Some (if 0 <s to_pass
         then if to_pass \<ge> intervals_in_window m
              then let m = m\<lparr>mi_samples := replicate (unat (intervals_in_window m)) 0\<rparr>;
                       m = m\<lparr>current_interval := ucast (getIntervalForTimeMs now m)\<rparr>;
                       m = m\<lparr>accumulated_intervals := accumulated_intervals m + ucast to_pass\<rparr>;
                       m = add_sample (unat (current_interval m)) v m
                   in updateWindowTimes m
              else add_in_interval now v (pass_intervals (unat to_pass) m)
         else add_in_interval now v m))"

partial_function (option) sum_intervals :: "u32 \<Rightarrow> u64 \<Rightarrow> movingInterval \<Rightarrow> u64 option" where
  "sum_intervals i tot m =
     (let tot = tot + mi_samples m ! unat i; i = getNextInterval i m
      in if ucast i \<noteq> current_interval m then sum_intervals i tot m else Some tot)"

declare sum_intervals.simps [code]

definition calculateRateForInterval :: "u64 \<Rightarrow> u64 \<Rightarrow> movingInterval \<Rightarrow> u64 option" where
  "calculateRateForInterval now requested m =
     (if \<not> mi_initialized m then Some 0 else
      let start = max (now - requested) (current_window_start_ms m);
          to_pass = (ucast ((start - current_window_start_ms m) div interval_size_ms m) :: u32)
      in if to_pass \<ge> intervals_in_window m then Some 0
         else case sum_intervals (getNextInterval (ucast (current_interval m + ucast to_pass)) m) 0 m of
             None \<Rightarrow> None
           | Some tot \<Rightarrow>
               let part = double_of (now - (current_window_end_ms m - interval_size_ms m)) / double_of (interval_size_ms m);
                   current = mi_samples m ! unat (current_interval m)
               in case (if part < 1 then u64_of (double_of tot + part * double_of current) else Some (tot + current)) of
                    None \<Rightarrow> None
                  | Some tot \<Rightarrow> (case quotient (double_of tot) (double_of (now - start)) of
                      None \<Rightarrow> None
                    | Some rate \<Rightarrow> u64_of (rate * 1000 * mi_scale m)))"

definition mi_value :: "u64 \<Rightarrow> movingInterval \<Rightarrow> u64 option" where
  "mi_value now m = calculateRateForInterval now (ucast (intervals_in_window m) * interval_size_ms m) m"

definition mi_value_of :: "u64 \<Rightarrow> int \<Rightarrow> movingInterval \<Rightarrow> u64 option" where
  "mi_value_of now stat_interval m = calculateRateForInterval now (word_of_int (durationToMs stat_interval)) m"

subsection \<open>The average of a window of samples\<close>

record movingAverage =
  ma_samples :: "u64 list"
  window_size :: u32
  next_sample_position :: u64
  current_average :: rat

definition new_MovingAverageStat :: "u32 \<Rightarrow> movingAverage" where
  "new_MovingAverageStat w =
     \<lparr>ma_samples = replicate (unat w) 0, window_size = w, next_sample_position = 0, current_average = 0\<rparr>"

text \<open>A window of size 0 makes the code divide by zero.\<close>

definition ma_add :: "u64 \<Rightarrow> movingAverage \<Rightarrow> movingAverage option" where
  "ma_add v m =
     (if window_size m = 0 then None else
      let p = unat (next_sample_position m mod ucast (window_size m));
          average =
            (if next_sample_position m < ucast (window_size m)
             then (current_average m * double_of (next_sample_position m) + double_of v)
                    / double_of (next_sample_position m + 1)
             else let old_value = ma_samples m ! p
                  in if v > old_value
                     then current_average m + double_of (v - old_value) / double_of (window_size m)
                     else current_average m - double_of (old_value - v) / double_of (window_size m))
      in Some (m\<lparr>ma_samples := (ma_samples m)[p := v], next_sample_position := next_sample_position m + 1,
                current_average := average\<rparr>))"

text \<open>\<^verbatim>\<open>std::round\<close>: halfway cases away from zero.\<close>

definition round_double :: "rat \<Rightarrow> rat" where
  "round_double x = (if 0 \<le> x then of_int \<lfloor>x + 1 / 2\<rfloor> else - of_int \<lfloor>- x + 1 / 2\<rfloor>)"

definition ma_value :: "movingAverage \<Rightarrow> u64 option" where
  "ma_value m = u64_of (round_double (current_average m))"

definition getAverage :: "u32 \<Rightarrow> movingAverage \<Rightarrow> rat option" where
  "getAverage sample_number m =
     (if window_size m = 0 then None else
      let current = next_sample_position m - 1;
          sample_number = min sample_number (window_size m);
          sample_number = (ucast (min (ucast sample_number) current) :: u32);
          sum = sum_list (map (\<lambda>i. ma_samples m ! unat ((current - of_nat i) mod ucast (window_size m))) [0..<unat sample_number])
      in quotient (double_of sum) (double_of sample_number))"

definition ma_value_of :: "u32 \<Rightarrow> movingAverage \<Rightarrow> u64 option" where
  "ma_value_of n m = (case getAverage n m of None \<Rightarrow> None | Some x \<Rightarrow> u64_of x)"

subsection \<open>The tree\<close>

datatype stat = Plain | StringStat string | CumulativeStat u64 | RateStat rateStat
  | MovingIntervalRateStat movingInterval | MovingAverageStat movingAverage

datatype stat_node = StatNode stat "(string \<times> stat_node) list"

primrec stat_of :: "stat_node \<Rightarrow> stat" where
  "stat_of (StatNode s m) = s"

primrec node_map :: "stat_node \<Rightarrow> (string \<times> stat_node) list" where
  "node_map (StatNode s m) = m"

definition hasChild :: "string \<Rightarrow> stat_node \<Rightarrow> bool" where
  "hasChild key n \<longleftrightarrow> map_of (node_map n) key \<noteq> None"

text \<open>
  \<^verbatim>\<open>operator[]\<close> returns a reference to the child, made when it is not there; what the caller does
  with the reference is the argument \<open>f\<close>.
\<close>

definition child :: "string \<Rightarrow> (stat_node \<Rightarrow> stat_node) \<Rightarrow> stat_node \<Rightarrow> stat_node" where
  "child key f n = StatNode (stat_of n) (map_assign key f
     (if \<not> hasChild key n then map_insert key (StatNode Plain []) (node_map n) else node_map n))"

definition child_node :: "string \<Rightarrow> stat_node \<Rightarrow> stat_node" where
  "child_node key n = (case map_of (node_map n) key of None \<Rightarrow> StatNode Plain [] | Some c \<Rightarrow> c)"

definition key_text :: "u64 \<Rightarrow> string" where
  "key_text k = decimal (unat k)"

definition insertStat :: "string \<Rightarrow> stat \<Rightarrow> stat_node \<Rightarrow> stat_node" where
  "insertStat key s n = StatNode (stat_of n) (map_insert key (StatNode s [])
     (if hasChild key n then map_erase key (node_map n) else node_map n))"

text \<open>The virtual operators: adding, adding one, and the value. \<open>now\<close> is the clock in nanoseconds.\<close>

definition ms_of :: "int \<Rightarrow> u64" where
  "ms_of now = word_of_int (durationToMs now)"

definition stat_add :: "int \<Rightarrow> u64 \<Rightarrow> stat \<Rightarrow> stat option" where
  "stat_add now v s = (case s of
     Plain \<Rightarrow> Some Plain
   | StringStat t \<Rightarrow> Some (StringStat t)
   | CumulativeStat tot \<Rightarrow> Some (CumulativeStat (tot + v))
   | RateStat r \<Rightarrow> map_option RateStat (rate_add now v r)
   | MovingIntervalRateStat m \<Rightarrow> map_option MovingIntervalRateStat (mi_add (ms_of now) v m)
   | MovingAverageStat m \<Rightarrow> map_option MovingAverageStat (ma_add v m))"

definition stat_increment :: "int \<Rightarrow> stat \<Rightarrow> stat option" where
  "stat_increment now s = stat_add now 1 s"

definition stat_value :: "int \<Rightarrow> stat \<Rightarrow> (u64 \<times> stat) option" where
  "stat_value now s = (case s of
     Plain \<Rightarrow> Some (0, s)
   | StringStat t \<Rightarrow> Some (0, s)
   | CumulativeStat tot \<Rightarrow> Some (tot, s)
   | RateStat r \<Rightarrow> map_option (\<lambda>(v, r). (v, RateStat r)) (rate_value now r)
   | MovingIntervalRateStat m \<Rightarrow> map_option (\<lambda>v. (v, s)) (mi_value (ms_of now) m)
   | MovingAverageStat m \<Rightarrow> map_option (\<lambda>v. (v, s)) (ma_value m))"

definition quoted :: "string \<Rightarrow> string" where
  "quoted t = CHR 0x22 # t @ [CHR 0x22]"

text \<open>\<^verbatim>\<open>toString\<close> asks the leaves for their value, which may close a period of a rate.\<close>

fun node_toString :: "int \<Rightarrow> stat_node \<Rightarrow> (string \<times> stat_node) option"
and members_toString :: "int \<Rightarrow> (string \<times> stat_node) list \<Rightarrow> (string \<times> (string \<times> stat_node) list) option" where
  "node_toString now (StatNode s m) = (case s of
     Plain \<Rightarrow> map_option (\<lambda>(t, m). (''{'' @ t @ ''}'', StatNode Plain m)) (members_toString now m)
   | StringStat t \<Rightarrow> Some (quoted t, StatNode s m)
   | _ \<Rightarrow> map_option (\<lambda>(v, s). (decimal (unat v), StatNode s m)) (stat_value now s))"
| "members_toString now [] = Some ('''', [])"
| "members_toString now ((name, n) # m) = (case node_toString now n of
     None \<Rightarrow> None
   | Some (t, n) \<Rightarrow> (case members_toString now m of
       None \<Rightarrow> None
     | Some (ts, m') \<Rightarrow> Some (quoted name @ '':'' @ t @ (if m \<noteq> [] then '','' else '''') @ ts, (name, n) # m')))"

end
