(* ===== verification/StatNodeProps.thy ===== *)
theory StatNodeProps
  imports StatNode
begin

text \<open>
  What the leaves compute: the moving average is the average of the last samples; the window of
  intervals holds the sums of the last intervals, as long as no pause is longer than the window,
  and the rate is taken over these sums. The last part shows what happens after longer pauses.
\<close>

lemma unat_ucast_u32_u64 [simp]: "unat (ucast (w :: u32) :: u64) = unat w"
  using unat_u32_less [of w] by (simp add: unat_ucast_mod del: unat_u32_less)

subsection \<open>The average\<close>

fun ma_run :: "u64 list \<Rightarrow> movingAverage \<Rightarrow> movingAverage option" where
  "ma_run [] m = Some m"
| "ma_run (v # vs) m = (case ma_add v m of None \<Rightarrow> None | Some m \<Rightarrow> ma_run vs m)"

lemma ma_run_append: "ma_run (xs @ ys) m = (case ma_run xs m of None \<Rightarrow> None | Some m \<Rightarrow> ma_run ys m)"
  by (induction xs arbitrary: m) (auto split: option.splits)

definition last_sum :: "nat \<Rightarrow> u64 list \<Rightarrow> rat" where
  "last_sum w vs = sum_list (map double_of (drop (length vs - w) vs))"

definition ma_inv :: "u32 \<Rightarrow> u64 list \<Rightarrow> movingAverage \<Rightarrow> bool" where
  "ma_inv w vs m \<longleftrightarrow> window_size m = w \<and> length (ma_samples m) = unat w
     \<and> next_sample_position m = of_nat (length vs)
     \<and> (\<forall>i < length vs. length vs \<le> i + unat w \<longrightarrow> ma_samples m ! (i mod unat w) = vs ! i)
     \<and> current_average m * of_nat (min (length vs) (unat w)) = last_sum (unat w) vs"

lemma double_of_diff: "b \<le> a \<Longrightarrow> double_of (a - b) = double_of a - double_of b"
  by (simp add: double_of_def unat_sub word_le_nat_alt of_nat_diff)

lemma last_sum_short: "length vs < w \<Longrightarrow> last_sum w (vs @ [v]) = last_sum w vs + double_of v"
  by (simp add: last_sum_def)

lemma last_sum_full:
  assumes "0 < w" "w \<le> length vs"
  shows "last_sum w (vs @ [v]) = last_sum w vs - double_of (vs ! (length vs - w)) + double_of v"
proof -
  have "drop (length vs - w) vs = vs ! (length vs - w) # drop (Suc (length vs - w)) vs"
    using assms by (intro Cons_nth_drop_Suc [symmetric]) simp
  moreover have "Suc (length vs) - w = Suc (length vs - w)" using assms by simp
  ultimately show ?thesis using assms by (simp add: last_sum_def)
qed

lemma ma_inv_new: "ma_inv w [] (new_MovingAverageStat w)"
  by (simp add: ma_inv_def new_MovingAverageStat_def last_sum_def)

lemma ma_inv_add:
  assumes "ma_inv w vs m" "0 < w" "Suc (length vs) < 2 ^ 64"
  shows "\<exists>m'. ma_add v m = Some m' \<and> ma_inv w (vs @ [v]) m'"
proof -
  let ?n = "length vs" and ?w = "unat w"
  have w: "window_size m = w" "length (ma_samples m) = ?w" "next_sample_position m = of_nat ?n"
    and s: "\<And>i. i < ?n \<Longrightarrow> ?n \<le> i + ?w \<Longrightarrow> ma_samples m ! (i mod ?w) = vs ! i"
    and a: "current_average m * of_nat (min ?n ?w) = last_sum ?w vs"
    using assms(1) by (auto simp: ma_inv_def)
  have pos: "0 < ?w" using assms(2) by (simp add: unat_gt_0 word_gt_0)
  have un: "unat (of_nat ?n :: u64) = ?n" using assms(3) by (intro unat_of_nat_u64) simp
  have u1: "double_of (of_nat ?n + 1 :: u64) = of_nat (Suc ?n)"
    using assms(3) unat_of_nat_u64 [of "Suc ?n"] by (simp add: double_of_def add.commute)
  have p: "unat ((of_nat ?n :: u64) mod ucast w) = ?n mod ?w" by (simp add: unat_mod un)
  have lt: "(of_nat ?n :: u64) < ucast w \<longleftrightarrow> ?n < ?w" by (simp add: word_less_nat_alt un)
  define m' where "m' = the (ma_add v m)"
  have m: "ma_add v m = Some m'"
    using assms(2) by (auto simp: m'_def ma_add_def Let_def w)
  then have avg: "window_size m' = w" "ma_samples m' = (ma_samples m)[?n mod ?w := v]"
    "next_sample_position m' = of_nat (Suc ?n)"
    "current_average m' = (if ?n < ?w then (current_average m * of_nat ?n + double_of v) / of_nat (Suc ?n)
       else current_average m + (double_of v - double_of (ma_samples m ! (?n mod ?w))) / of_nat ?w)"
    using assms(2) by (auto simp: ma_add_def Let_def w p lt double_of_diff word_less_nat_alt word_le_nat_alt
        diff_divide_distrib u1 split: if_splits) (simp_all add: double_of_def un)
  have samples: "ma_samples m' ! (i mod ?w) = (vs @ [v]) ! i" if "i < Suc ?n" "Suc ?n \<le> i + ?w" for i
  proof (cases "i = ?n")
    case True
    then show ?thesis using pos by (simp add: avg w)
  next
    case False
    then have "i mod ?w \<noteq> ?n mod ?w"
      using mod_add_inj [of i 0 ?w "?n - i"] that pos by (cases "?n - i < ?w") auto
    then show ?thesis using False that s [of i] by (simp add: avg nth_append)
  qed
  have "current_average m' * of_nat (min (Suc ?n) ?w) = last_sum ?w (vs @ [v])"
  proof (cases "?n < ?w")
    case True
    then show ?thesis using a by (simp add: avg last_sum_short min_def del: of_nat_Suc)
  next
    case False
    have "ma_samples m ! ((?n - ?w) mod ?w) = vs ! (?n - ?w)" using False pos by (intro s) auto
    moreover have "(?n - ?w) mod ?w = ?n mod ?w" using False by (simp add: le_mod_geq)
    moreover have "current_average m * of_nat ?w = last_sum ?w vs" using a False by (simp add: min_def split: if_splits)
    moreover have "of_nat ?w \<noteq> (0 :: rat)" using pos by (simp del: of_nat_unat)
    ultimately show ?thesis using False by (simp add: avg last_sum_full [OF pos] min_def distrib_right)
  qed
  then have "ma_inv w (vs @ [v]) m'" using samples by (auto simp: ma_inv_def avg w)
  with m show ?thesis by blast
qed

lemma ma_inv_run:
  assumes "0 < w" "length vs < 2 ^ 64"
  shows "\<exists>m. ma_run vs (new_MovingAverageStat w) = Some m \<and> ma_inv w vs m"
  using assms(2)
proof (induction vs rule: rev_induct)
  case Nil
  show ?case by (simp add: ma_inv_new)
next
  case (snoc v vs)
  then obtain m where "ma_run vs (new_MovingAverageStat w) = Some m" "ma_inv w vs m" by auto
  then show ?case using ma_inv_add [of w vs m v] assms(1) snoc.prems by (auto simp: ma_run_append)
qed

text \<open>
  C35: The incremental average of \<open>MovingAverageStat\<close> is the average: after any samples, it is the sum
  of the last \<open>window_size\<close> of them (of all, while there are fewer) divided by their number, also
  when samples fall out of the window and when they are smaller than the ones they replace.
\<close>
theorem moving_average_is_average:
  assumes "0 < w" "vs \<noteq> []" "length vs < 2 ^ 64"
  shows "\<exists>m. ma_run vs (new_MovingAverageStat w) = Some m
    \<and> current_average m
        = sum_list (map double_of (drop (length vs - unat w) vs)) / of_nat (min (length vs) (unat w))"
proof -
  obtain m where m: "ma_run vs (new_MovingAverageStat w) = Some m" "ma_inv w vs m"
    using ma_inv_run [OF assms(1,3)] by blast
  moreover have "min (length vs) (unat w) \<noteq> 0" using assms(1,2) by (auto simp: min_def unat_eq_0 unat_gt_0 word_gt_0)
  ultimately show ?thesis by (intro exI [of _ m]) (simp add: ma_inv_def last_sum_def field_simps)
qed

theorem moving_average_is_average_witness:
  "\<exists>m. ma_run [10, 4, 1, 1] (new_MovingAverageStat 3) = Some m \<and> current_average m = 2"
  using moving_average_is_average [of 3 "[10, 4, 1, 1]"] by (simp add: double_of_def)

subsection \<open>The window of intervals\<close>

fun mi_run :: "(u64 \<times> u64) list \<Rightarrow> movingInterval \<Rightarrow> movingInterval option" where
  "mi_run [] m = Some m"
| "mi_run ((now, v) # es) m = (case mi_add now v m of None \<Rightarrow> None | Some m \<Rightarrow> mi_run es m)"

lemma mi_run_append: "mi_run (xs @ ys) m = (case mi_run xs m of None \<Rightarrow> None | Some m \<Rightarrow> mi_run ys m)"
  by (induction xs m rule: mi_run.induct) (auto split: option.splits)

text \<open>The number of the interval of 100 ms a time falls in, counted from the first sample.\<close>

definition interval_of :: "u64 \<Rightarrow> u64 \<Rightarrow> nat" where
  "interval_of t0 t = (unat t - unat t0) div 100"

text \<open>The clock does not run backwards, and no pause is longer than \<open>n\<close> intervals.\<close>

fun no_pause :: "nat \<Rightarrow> u64 \<Rightarrow> u64 \<Rightarrow> (u64 \<times> u64) list \<Rightarrow> bool" where
  "no_pause n t0 t [] \<longleftrightarrow> unat t + 100 < 18446744073709551616"
| "no_pause n t0 t ((t', v) # es) \<longleftrightarrow> t \<le> t' \<and> interval_of t0 t' \<le> interval_of t0 t + n \<and> no_pause n t0 t' es"

text \<open>The sum of the values of interval \<open>j\<close>, and of those of the last \<open>n\<close> intervals in slot \<open>i\<close>.\<close>

definition interval_sum :: "u64 \<Rightarrow> (u64 \<times> u64) list \<Rightarrow> nat \<Rightarrow> u64" where
  "interval_sum t0 es j = sum_list (map snd (filter (\<lambda>(t, v). interval_of t0 t = j) es))"

definition slot_sum :: "nat \<Rightarrow> u64 \<Rightarrow> (u64 \<times> u64) list \<Rightarrow> nat \<Rightarrow> nat \<Rightarrow> u64" where
  "slot_sum n t0 es c i =
     sum_list (map snd (filter (\<lambda>(t, v). interval_of t0 t mod n = i \<and> c < interval_of t0 t + n) es))"

definition mi_inv :: "u32 \<Rightarrow> u64 \<Rightarrow> (u64 \<times> u64) list \<Rightarrow> nat \<Rightarrow> movingInterval \<Rightarrow> bool" where
  "mi_inv n t0 es c m \<longleftrightarrow>
     interval_size_ms m = 100 \<and> intervals_in_window m = n \<and> mi_initialized m \<and> calculation_start_ms m = t0
     \<and> current_interval m = of_nat (c mod unat n) \<and> accumulated_intervals m = of_nat (Suc c)
     \<and> current_window_end_ms m = t0 + of_nat (Suc c) * 100
     \<and> current_window_start_ms m = t0 + of_nat (Suc c - min (Suc c) (unat n)) * 100
     \<and> length (mi_samples m) = unat n
     \<and> (\<forall>i < unat n. mi_samples m ! i = slot_sum (unat n) t0 es c i)
     \<and> (\<forall>(t, v) \<in> set es. interval_of t0 t \<le> c)"

lemma wrapped_quotient_quiet:
  assumes "0 < d" "d \<le> (100::nat)"
  shows "\<not> 0 <s (ucast (- of_nat d div 100 :: u64) :: u32)"
proof -
  have "unat (- of_nat d :: u64) = 18446744073709551616 - d"
    using assms unat_sub_if' [of 0 "of_nat d :: u64"] by (simp add: unat_of_nat_u64)
  then have "unat (- of_nat d div 100 :: u64) = (18446744073709551616 - d) div 100"
    by (simp add: unat_div)
  also have "\<dots> = 184467440737095516 \<or> \<dots> = 184467440737095515"
    using assms by (cases "d \<le> 16") (rule disjI1 disjI2, rule div_nat_eqI, simp_all)+
  finally have u: "(- of_nat d div 100 :: u64) = 184467440737095516 \<or> (- of_nat d div 100 :: u64) = 184467440737095515"
    by (auto dest!: eq_of_nat_unat)
  then show ?thesis by (elim disjE) (simp_all add: word_sless_alt)
qed

lemma getNextInterval_of_nat:
  assumes "intervals_in_window m = n" "2 \<le> unat n" "unat n < 2147483648"
  shows "getNextInterval (of_nat (c mod unat n)) m = of_nat (Suc c mod unat n)"
proof -
  have l: "c mod unat n < unat n" using assms(2) by simp
  then have "unat (of_nat (c mod unat n) + 1 :: u32) = Suc (c mod unat n)"
    using assms(3) by (simp add: unat_of_nat_u32 unat_word_ariths)
  then have "unat (getNextInterval (of_nat (c mod unat n)) m) = Suc c mod unat n"
    by (simp add: getNextInterval_def assms(1) unat_mod mod_Suc_eq)
  then show ?thesis by (rule eq_of_nat_unat)
qed

lemma ucast_of_nat_small: "k < 4294967296 \<Longrightarrow> (ucast (of_nat k :: u64) :: u32) = of_nat k" "k < 4294967296 \<Longrightarrow> (ucast (of_nat k :: u32) :: u64) = of_nat k"
  by (simp_all add: word_unat_eq_iff unat_of_nat_u32 unat_of_nat_u64 unat_ucast_mod)

lemma pass_intervals_spec:
  assumes "intervals_in_window m = n" "2 \<le> unat n" "unat n < 2147483648" "length (mi_samples m) = unat n"
    "current_interval m = of_nat (c mod unat n)"
  shows "\<exists>S. pass_intervals k m = m\<lparr>current_interval := of_nat ((c + k) mod unat n),
       accumulated_intervals := accumulated_intervals m + of_nat k, mi_samples := S\<rparr>
     \<and> length S = unat n
     \<and> (\<forall>i < unat n. S ! i = (if i \<in> (\<lambda>j. j mod unat n) ` {c<..c + k} then 0 else mi_samples m ! i))"
  using assms
proof (induction k arbitrary: m c)
  case 0
  then show ?case by (intro exI [of _ "mi_samples m"]) simp
next
  case (Suc k)
  have l: "\<And>c. c mod unat n < unat n" using Suc.prems(2) by simp
  have small: "c mod unat n < 4294967296" for c using l [of c] Suc.prems(3) by linarith
  define m1 where "m1 = m\<lparr>current_interval := of_nat (Suc c mod unat n),
    mi_samples := (mi_samples m)[Suc c mod unat n := 0], accumulated_intervals := accumulated_intervals m + 1\<rparr>"
  have "pass_intervals (Suc k) m = pass_intervals k m1"
    using small [of c] small [of "Suc c"]
    by (simp add: Let_def Suc.prems(5) ucast_of_nat_small getNextInterval_of_nat [OF Suc.prems(1-3)]
        unat_of_nat_u64 set_sample_def m1_def del: unsigned_of_nat)
  moreover obtain S where S: "pass_intervals k m1 = m1\<lparr>current_interval := of_nat ((Suc c + k) mod unat n),
       accumulated_intervals := accumulated_intervals m1 + of_nat k, mi_samples := S\<rparr>" "length S = unat n"
     "\<forall>i < unat n. S ! i = (if i \<in> (\<lambda>j. j mod unat n) ` {Suc c<..Suc c + k} then 0 else mi_samples m1 ! i)"
    using Suc.IH [of m1 "Suc c"] Suc.prems by (auto simp: m1_def)
  moreover have "{c<..c + Suc k} = insert (Suc c) {Suc c<..Suc c + k}" by auto
  ultimately show ?case
    using Suc.prems by (intro exI [of _ S]) (auto simp: m1_def nth_list_update)
qed

lemma interval_bounds:
  assumes "unat t0 \<le> unat now"
  shows "unat t0 + interval_of t0 now * 100 \<le> unat now" "unat now < unat t0 + Suc (interval_of t0 now) * 100"
  using assms by (simp_all add: interval_of_def)

lemma getInterval_now:
  assumes "interval_size_ms m = 100" "intervals_in_window m = n" "calculation_start_ms m = t0" "t0 \<le> now"
    "0 < unat n"
  shows "getIntervalForTimeMs now m = of_nat (interval_of t0 now mod unat n)"
proof -
  have "unat (((now - t0) div 100) mod ucast n) = interval_of t0 now mod unat n"
    using assms(4) by (simp add: unat_mod unat_div unat_sub interval_of_def word_le_nat_alt)
  moreover have "interval_of t0 now mod unat n < 4294967296"
    using assms(5) by (intro less_trans [OF mod_less_divisor unat_u32_less])
  ultimately have "unat (getIntervalForTimeMs now m) = interval_of t0 now mod unat n"
    by (simp add: getIntervalForTimeMs_def assms unat_ucast_mod)
  then show ?thesis by (rule eq_of_nat_unat)
qed

text \<open>Slots that are passed are emptied; what they held is too old, and what the others hold is not.\<close>

lemma slot_sum_step:
  assumes "\<forall>(t, v) \<in> set es. interval_of t0 t \<le> c" "c \<le> c'" "c' \<le> c + n" "i < n" "interval_of t0 now = c'"
  shows "slot_sum n t0 (es @ [(now, v)]) c' i =
    (if i \<in> (\<lambda>j. j mod n) ` {c<..c'} then 0 else slot_sum n t0 es c i) + (if i = c' mod n then v else 0)"
proof -
  have old: "slot_sum n t0 es c' i = (if i \<in> (\<lambda>j. j mod n) ` {c<..c'} then 0 else slot_sum n t0 es c i)"
  proof (cases "i \<in> (\<lambda>j. j mod n) ` {c<..c'}")
    case True
    then obtain j where j: "c < j" "j \<le> c'" "i = j mod n" by auto
    have "\<not> (interval_of t0 t mod n = i \<and> c' < interval_of t0 t + n)" if "(t, v) \<in> set es" for t v
    proof
      assume a: "interval_of t0 t mod n = i \<and> c' < interval_of t0 t + n"
      have x: "interval_of t0 t \<le> c" using assms(1) that by blast
      obtain d where d: "j = interval_of t0 t + d" using x j(1) le_Suc_ex [of "interval_of t0 t" j] by auto
      then have "d < n" using a j(2) by linarith
      then show False using mod_add_inj [of "interval_of t0 t" 0 n d] a j x d by auto
    qed
    then have "filter (\<lambda>(t, v). interval_of t0 t mod n = i \<and> c' < interval_of t0 t + n) es = []"
      by (intro filter_False ballI) (simp only: split_beta prod.collapse not_False_eq_True, metis prod.collapse)
    then show ?thesis using True by (simp add: slot_sum_def)
  next
    case False
    have "(interval_of t0 t mod n = i \<and> c' < interval_of t0 t + n) = (interval_of t0 t mod n = i \<and> c < interval_of t0 t + n)"
      if "(t, v) \<in> set es" for t v
    proof (rule conj_cong [OF refl], rule iffI)
      assume x: "interval_of t0 t mod n = i" and "c < interval_of t0 t + n"
      moreover have "interval_of t0 t + n \<notin> {c<..c'}"
        using False x imageI [of "interval_of t0 t + n" "{c<..c'}" "\<lambda>j. j mod n"] by (metis mod_add_self2)
      ultimately show "c' < interval_of t0 t + n" by simp
    qed (use assms(2) in simp)
    then have "filter (\<lambda>(t, v). interval_of t0 t mod n = i \<and> c' < interval_of t0 t + n) es
        = filter (\<lambda>(t, v). interval_of t0 t mod n = i \<and> c < interval_of t0 t + n) es"
      by (intro filter_cong) (simp_all only: split_beta, metis prod.collapse)
    then show ?thesis using False by (simp add: slot_sum_def)
  qed
  have "slot_sum n t0 (es @ [(now, v)]) c' i = slot_sum n t0 es c' i + (if i = c' mod n then v else 0)"
    using assms(4) by (simp add: slot_sum_def assms(5) eq_commute [of i])
  then show ?thesis by (simp only: old)
qed

lemma mod_same_close: "x mod n = (x + d) mod n \<Longrightarrow> d < n \<Longrightarrow> d = (0 :: nat)"
  using mod_add_inj [of x 0 n d] by (cases "n = 0") simp_all

lemma mi_add_start: "mi_add now v m = mi_add now v (mi_start now m)"
proof -
  have "interval_size_ms (mi_start now m) = interval_size_ms m" "intervals_in_window (mi_start now m) = intervals_in_window m"
    "mi_start now (mi_start now m) = mi_start now m"
    by (simp_all add: mi_start_def Let_def)
  then show ?thesis by (simp only: mi_add_def)
qed

lemma mi_inv_start:
  assumes "2 \<le> unat n"
  shows "mi_inv n t0 [] 0 (mi_start t0 (new_MovingIntervalRateStat 100000000 n sc))"
  using assms by (simp add: mi_inv_def mi_start_def new_MovingIntervalRateStat_def Let_def slot_sum_def
      durationToMs_def c_div_def)

lemma mi_add_step:
  assumes "mi_inv n t0 es c m" "2 \<le> unat n" "unat n < 2147483648" "unat t0 \<le> unat now" "unat now + 100 < 18446744073709551616"
    "interval_of t0 now = c'" "c \<le> c'" "c' \<le> c + unat n"
  shows "\<exists>m'. mi_add now v m = Some m' \<and> mi_inv n t0 (es @ [(now, v)]) c' m'"
proof -
  let ?n = "unat n"
  have m: "interval_size_ms m = 100" "intervals_in_window m = n" "mi_initialized m" "calculation_start_ms m = t0"
    "current_interval m = of_nat (c mod ?n)" "accumulated_intervals m = of_nat (Suc c)"
    "current_window_end_ms m = t0 + of_nat (Suc c) * 100" "length (mi_samples m) = ?n"
    "current_window_start_ms m = t0 + of_nat (Suc c - min (Suc c) ?n) * 100"
    and s: "\<And>i. i < ?n \<Longrightarrow> mi_samples m ! i = slot_sum ?n t0 es c i"
    and es: "\<forall>(t, v) \<in> set es. interval_of t0 t \<le> c"
    using assms(1) by (simp_all add: mi_inv_def)
  have n0: "n \<noteq> 0" using assms(2) by auto
  have l: "c mod ?n < 2147483648" for c
    using assms(2,3) by (intro less_trans [OF mod_less_divisor]) simp_all
  have l': "c mod ?n < 4294967296" for c using l [of c] by simp
  note b = interval_bounds [OF assms(4), unfolded assms(6)]
  define d where "d = (now - current_window_end_ms m) div interval_size_ms m"
  have "c' < 184467440737095516" using b assms(5) by linarith
  then have "c < 184467440737095516" using assms(7) by linarith
  then have uc: "unat (of_nat (Suc c) * 100 :: u64) = Suc c * 100"
    by (simp add: unat_word_ariths unat_of_nat_u64)
  have sum: "unat t0 + Suc c * 100 < 18446744073709551616" using b(1) assms(5,7) by simp
  have e: "unat (t0 + of_nat (Suc c) * 100) = unat t0 + Suc c * 100"
    using sum by (simp add: unat_word_ariths(1) uc del: of_nat_Suc)
  have corr: "getIntervalForTimeMs now M = of_nat (c' mod ?n)"
    if "interval_size_ms M = 100" "intervals_in_window M = n" "calculation_start_ms M = t0" for M
    using getInterval_now [OF that] assms(2,4,6) by (simp add: word_le_nat_alt)
  show ?thesis
  proof (cases "c' = c")
    case True
    have d: "of_nat (unat t0 + Suc c * 100 - unat now) = t0 + of_nat (Suc c) * 100 - now"
      using b(2) True by (subst of_nat_diff) (simp_all del: of_nat_Suc mult_Suc)
    have "\<not> 0 <s (ucast (- of_nat (unat t0 + Suc c * 100 - unat now) div 100 :: u64) :: u32)"
      using b True by (intro wrapped_quotient_quiet) simp_all
    then have "mi_add now v m = Some (add_in_interval now v m)"
      unfolding d by (simp add: mi_add_def mi_start_def m n0 Let_def)
    also have "add_in_interval now v m = add_sample (c mod ?n) v m"
      using True l' by (simp add: add_in_interval_def Let_def corr m ucast_of_nat_small)
        (subst unat_of_nat_u64, use l [of c] in simp_all)
    finally show ?thesis using True assms(2) slot_sum_step [OF es, of c ?n _ now v] s assms(6) es
      by (auto simp: mi_inv_def m add_sample_def set_sample_def nth_list_update)
  next
    case False
    define k where "k = c' - c - 1"
    have k: "c' = Suc c + k" "k < ?n" using False assms(7,8) by (auto simp: k_def)
    have "t0 + of_nat (Suc c) * 100 \<le> now"
      unfolding word_le_nat_alt e using b(1) k(1) by simp
    then have "unat (now - current_window_end_ms m) = unat now - (unat t0 + Suc c * 100)"
      unfolding m(7) by (simp only: unat_sub e)
    moreover have "(unat now - (unat t0 + Suc c * 100)) div 100 = k"
      using b k(1) by (intro div_nat_eqI) simp_all
    ultimately have "unat ((now - current_window_end_ms m) div interval_size_ms m) = k"
      by (simp add: unat_div m)
    then have "(now - current_window_end_ms m) div interval_size_ms m = of_nat k" by (rule eq_of_nat_unat)
    then have tp: "(ucast ((now - current_window_end_ms m) div interval_size_ms m) :: u32) = of_nat k"
      using k(2) assms(3) by (simp add: ucast_of_nat_small)
    have "unat (of_nat k :: u32) = k" "sint (of_nat k :: u32) = int k" using k(2) assms(3)
      by (simp_all add: unat_of_nat_u32 signed_of_nat signed_take_bit_int_eq_self)
    then have step: "mi_add now v m = Some (add_in_interval now v (pass_intervals k m))"
      using k(2) by (simp add: mi_add_def mi_start_def m(3) m(1,2) n0 Let_def tp [unfolded m(1)] word_sless_alt word_le_nat_alt)
    obtain S where S: "pass_intervals k m = m\<lparr>current_interval := of_nat ((c + k) mod ?n),
       accumulated_intervals := accumulated_intervals m + of_nat k, mi_samples := S\<rparr>" "length S = ?n"
      "\<forall>i < ?n. S ! i = (if i \<in> (\<lambda>j. j mod ?n) ` {c<..c + k} then 0 else mi_samples m ! i)"
      using pass_intervals_spec [OF m(2) assms(2,3) m(8,5), of k] by blast
    have "(c + k) mod ?n \<noteq> c' mod ?n" using k(1) mod_add_inj [of "c + k" 0 ?n 1] assms(2) by auto
    then have "(of_nat (c' mod ?n) :: u64) \<noteq> of_nat ((c + k) mod ?n)"
      using l' [of c'] l' [of "c + k"] by (auto dest!: arg_cong [where f = unat] simp: unat_of_nat_u64)
    moreover have "accumulated_intervals m + of_nat k + 1 = of_nat (Suc c')" by (simp add: m k(1))
    ultimately have in_interval: "add_in_interval now v (pass_intervals k m)
        = add_sample (c' mod ?n) v ((updateWindowTimes (m\<lparr>mi_samples := S[c' mod ?n := 0],
             accumulated_intervals := of_nat (Suc c')\<rparr>))\<lparr>current_interval := of_nat (c' mod ?n)\<rparr>)"
      using l' [of c'] unat_of_nat_u64 [of "c' mod ?n"] by (simp add: add_in_interval_def Let_def S(1) corr m ucast_of_nat_small unat_of_nat_u32 set_sample_def
        updateWindowTimes_def del: of_nat_Suc)
    have r: "mi_add now v m = Some (add_sample (c' mod ?n) v ((updateWindowTimes (m\<lparr>mi_samples := S[c' mod ?n := 0],
             accumulated_intervals := of_nat (Suc c')\<rparr>))\<lparr>current_interval := of_nat (c' mod ?n)\<rparr>))"
      by (simp only: step in_interval)
    have sub: "(of_nat (Suc c') :: u64) - min (of_nat (Suc c')) (ucast n) = of_nat (Suc c' - min (Suc c') ?n)"
    proof -
      have "unat (of_nat (Suc c') :: u64) = Suc c'"
        using \<open>c' < 184467440737095516\<close> by (intro unat_of_nat_u64) simp
      then have "unat (min (of_nat (Suc c')) (ucast n) :: u64) = min (Suc c') ?n"
        by (simp add: min_def word_le_nat_alt del: of_nat_Suc)
      then have "min (of_nat (Suc c')) (ucast n) = (of_nat (min (Suc c') ?n) :: u64)" by (rule eq_of_nat_unat)
      then show ?thesis by (simp add: of_nat_diff del: of_nat_Suc)
    qed
    have slots: "S[c' mod ?n := v] ! i = slot_sum ?n t0 (es @ [(now, v)]) c' i" if "i < ?n" for i
    proof -
      have "{c<..c'} = insert c' {c<..c + k}" using k(1) by auto
      then have "S[c' mod ?n := v] ! i = (if i \<in> (\<lambda>j. j mod ?n) ` {c<..c'} then 0 else mi_samples m ! i)
          + (if i = c' mod ?n then v else 0)"
        using S(2,3) that by (auto simp: nth_list_update)
      then show ?thesis
        using slot_sum_step [OF es assms(7,8) that assms(6), of v] s [OF that] by simp
    qed
    have p: "c' mod ?n < ?n" using assms(2) by simp
    have "\<forall>(t, v) \<in> set es. interval_of t0 t \<le> c'" using es assms(7) by fastforce
    then have "mi_inv n t0 (es @ [(now, v)]) c' (add_sample (c' mod ?n) v ((updateWindowTimes (m\<lparr>mi_samples := S[c' mod ?n := 0],
             accumulated_intervals := of_nat (Suc c')\<rparr>))\<lparr>current_interval := of_nat (c' mod ?n)\<rparr>))"
      using slots S(2) p assms(6)
      by (simp add: mi_inv_def m updateWindowTimes_def add_sample_def set_sample_def sub del: of_nat_Suc)
    with r show ?thesis by blast
  qed
qed

text \<open>A run from the first sample keeps the invariant.\<close>

lemma mi_inv_run:
  assumes "2 \<le> unat n" "unat n < 2147483648" "no_pause (unat n) t0 t es" "unat t0 \<le> unat t"
    "mi_inv n t0 es0 (interval_of t0 t) m"
  shows "\<exists>m'. mi_run es m = Some m' \<and> mi_inv n t0 (es0 @ es) (interval_of t0 (last (t # map fst es))) m'"
  using assms(3-)
proof (induction es arbitrary: es0 t m)
  case Nil
  then show ?case by auto
next
  case (Cons e es)
  obtain now v where e: "e = (now, v)" by (cases e)
  have p: "t \<le> now" "interval_of t0 now \<le> interval_of t0 t + unat n" "no_pause (unat n) t0 now es"
    using Cons.prems(1) by (simp_all add: e)
  have later: "unat t + 100 < 18446744073709551616" if "no_pause (unat n) t0 t es" for t es
    using that
  proof (induction es arbitrary: t)
    case (Cons e es)
    obtain t' v where "e = (t', v)" by (cases e)
    with Cons.prems Cons.IH [of t'] show ?case by (simp add: word_le_nat_alt)
  qed simp
  have t0: "unat t0 \<le> unat now" using Cons.prems(2) p(1) by (simp add: word_le_nat_alt)
  have "interval_of t0 t \<le> interval_of t0 now"
    using p(1) unfolding interval_of_def word_le_nat_alt by (intro div_le_mono diff_le_mono)
  with mi_add_step [OF Cons.prems(3) assms(1,2) t0 later [OF p(3)] refl _ p(2)]
  obtain m' where m': "mi_add now v m = Some m'" "mi_inv n t0 (es0 @ [(now, v)]) (interval_of t0 now) m'" by blast
  from Cons.IH [OF p(3) t0 m'(2)] show ?case by (simp add: e m'(1))
qed

lemma mi_inv_first:
  assumes "2 \<le> unat n" "unat n < 2147483648" "no_pause (unat n) t0 t0 es"
  shows "\<exists>m. mi_run ((t0, v0) # es) (new_MovingIntervalRateStat 100000000 n sc) = Some m
    \<and> mi_inv n t0 ((t0, v0) # es) (interval_of t0 (last (t0 # map fst es))) m"
proof -
  have start: "mi_inv n t0 [] (interval_of t0 t0) (mi_start t0 (new_MovingIntervalRateStat 100000000 n sc))"
    using mi_inv_start [OF assms(1)] by (simp add: interval_of_def)
  have "no_pause (unat n) t0 t0 ((t0, v0) # es)" using assms(3) by simp
  from mi_inv_run [OF assms(1,2) this _ start] show ?thesis
    by (simp add: mi_add_start [symmetric])
qed

lemma slot_sum_interval:
  assumes "\<forall>(t, v) \<in> set es. interval_of t0 t \<le> c" "j \<le> c" "c < j + n"
  shows "slot_sum n t0 es c (j mod n) = interval_sum t0 es j"
proof -
  have eq: "(interval_of t0 t mod n = j mod n \<and> c < interval_of t0 t + n) = (interval_of t0 t = j)"
    if x: "interval_of t0 t \<le> c" for t
  proof
    assume a: "interval_of t0 t mod n = j mod n \<and> c < interval_of t0 t + n"
    show "interval_of t0 t = j"
    proof (rule linorder_cases [of "interval_of t0 t" j])
      assume l: "interval_of t0 t < j"
      then obtain d where d: "j = interval_of t0 t + d" by (metis less_imp_add_positive)
      then have "d < n" using a assms(2) by linarith
      moreover have "interval_of t0 t mod n = (interval_of t0 t + d) mod n" using a [THEN conjunct1] unfolding d .
      ultimately have "d = 0" by (rule mod_same_close [rotated])
      then show ?thesis using d by simp
    next
      assume l: "j < interval_of t0 t"
      then obtain d where d: "interval_of t0 t = j + d" by (metis less_imp_add_positive)
      then have "d < n" using x assms(3) by linarith
      moreover have "j mod n = (j + d) mod n" using a [THEN conjunct1, symmetric] unfolding d .
      ultimately have "d = 0" by (rule mod_same_close [rotated])
      then show ?thesis using d by simp
    qed
  qed (use assms(3) in auto)
  have "filter (\<lambda>(t, v). interval_of t0 t mod n = j mod n \<and> c < interval_of t0 t + n) es
      = filter (\<lambda>(t, v). interval_of t0 t = j) es"
  proof (intro filter_cong refl)
    fix e assume "e \<in> set es"
    moreover obtain t v where e: "e = (t, v)" by (cases e)
    ultimately have "interval_of t0 t \<le> c" using assms(1) by blast
    then show "(case e of (t, v) \<Rightarrow> interval_of t0 t mod n = j mod n \<and> c < interval_of t0 t + n)
        = (case e of (t, v) \<Rightarrow> interval_of t0 t = j)"
      by (simp only: e prod.case eq)
  qed
  then show ?thesis by (simp add: slot_sum_def interval_sum_def)
qed

text \<open>
  C34: The ring of \<open>MovingIntervalRateStat\<close> holds what its window promises: with intervals of 100 ms (all
  that the code uses), whatever samples arrive, as long as no pause is longer than the window, every
  interval \<open>j\<close> of the last \<open>n\<close> has exactly the sum of its samples in slot \<open>j mod n\<close>, and the window ends
  where the interval of the last sample does.
\<close>
theorem window_holds_last_intervals:
  assumes "2 \<le> unat n" "unat n < 2147483648" "no_pause (unat n) t0 t0 es"
  shows "\<exists>m. mi_run ((t0, v0) # es) (new_MovingIntervalRateStat 100000000 n sc) = Some m
    \<and> (let c = interval_of t0 (last (t0 # map fst es))
       in current_window_end_ms m = t0 + of_nat (Suc c) * 100
        \<and> (\<forall>j. j \<le> c \<and> c < j + unat n
              \<longrightarrow> mi_samples m ! (j mod unat n) = interval_sum t0 ((t0, v0) # es) j))"
proof -
  obtain m where m: "mi_run ((t0, v0) # es) (new_MovingIntervalRateStat 100000000 n sc) = Some m"
    "mi_inv n t0 ((t0, v0) # es) (interval_of t0 (last (t0 # map fst es))) m"
    using mi_inv_first [OF assms] by blast
  then show ?thesis
    using slot_sum_interval [of "(t0, v0) # es" t0] assms(1)
    by (intro exI [of _ m] conjI) (auto simp: mi_inv_def Let_def)
qed

theorem window_holds_last_intervals_witness:
  "\<exists>m. mi_run [(1000, 5), (1030, 7), (1210, 9), (1450, 1), (1460, 2)] (new_MovingIntervalRateStat 100000000 3 8) = Some m
     \<and> mi_samples m ! 2 = 9 \<and> mi_samples m ! 1 = 3"
proof -
  from window_holds_last_intervals [of 3 1000 "[(1030, 7), (1210, 9), (1450, 1), (1460, 2)]" 5 8]
  obtain m where m: "mi_run [(1000, 5), (1030, 7), (1210, 9), (1450, 1), (1460, 2)] (new_MovingIntervalRateStat 100000000 3 8) = Some m"
    "\<forall>j. j \<le> 4 \<and> 4 < j + 3 \<longrightarrow> mi_samples m ! (j mod 3)
        = interval_sum 1000 [(1000, 5), (1030, 7), (1210, 9), (1450, 1), (1460, 2)] j"
    by (auto simp: Let_def interval_of_def)
  have "mi_samples m ! 2 = 9" using m(2) [rule_format, of 2] by (simp add: interval_sum_def interval_of_def)
  moreover have "mi_samples m ! 1 = 3" using m(2) [rule_format, of 4] by (simp add: interval_sum_def interval_of_def)
  ultimately show ?thesis using m(1) by blast
qed

subsection \<open>The rate of a full window\<close>

lemma sum_intervals_spec:
  assumes "intervals_in_window m = n" "2 \<le> unat n" "unat n < 2147483648" "current_interval m = of_nat (c mod unat n)"
    "0 < l" "l < unat n"
  shows "sum_intervals (of_nat ((c + l) mod unat n)) tot m
    = Some (tot + sum_list (map (\<lambda>l. mi_samples m ! ((c + l) mod unat n)) [l..<unat n]))"
  using assms(5,6)
proof (induction "unat n - l" arbitrary: l tot)
  case 0
  then show ?case by simp
next
  case (Suc k)
  let ?n = "unat n"
  have small: "c mod ?n < 4294967296" for c
    using assms(2,3) by (intro less_trans [OF mod_less_divisor]) simp_all
  have idx: "unat (of_nat ((c + l) mod ?n) :: u32) = (c + l) mod ?n"
    using small by (simp only: unat_of_nat_u32)
  have nxt: "getNextInterval (of_nat ((c + l) mod ?n)) m = of_nat ((c + Suc l) mod ?n)"
    using getNextInterval_of_nat [OF assms(1-3), of "c + l"] by simp
  have upt: "[l..<?n] = l # [Suc l..<?n]" using Suc.prems by (simp add: upt_conv_Cons)
  have cur: "(of_nat ((c + Suc l) mod ?n) :: u64) = of_nat (c mod ?n) \<longleftrightarrow> Suc l = ?n"
  proof
    assume "(of_nat ((c + Suc l) mod ?n) :: u64) = of_nat (c mod ?n)"
    then have "unat (of_nat ((c + Suc l) mod ?n) :: u64) = unat (of_nat (c mod ?n) :: u64)" by simp
    moreover have "unat (of_nat (x mod ?n) :: u64) = x mod ?n" for x
      using small [of x] by (intro unat_of_nat_u64) simp
    ultimately have "c mod ?n = (c + Suc l) mod ?n" by simp
    then show "Suc l = ?n" using mod_same_close [of c ?n "Suc l"] Suc.prems(2) by (cases "Suc l < ?n") auto
  next
    assume "Suc l = ?n"
    then show "(of_nat ((c + Suc l) mod ?n) :: u64) = of_nat (c mod ?n)" by simp
  qed
  have rec: "sum_intervals (of_nat ((c + l) mod ?n)) tot m
    = (if Suc l = ?n then Some (tot + mi_samples m ! ((c + l) mod ?n))
       else sum_intervals (of_nat ((c + Suc l) mod ?n)) (tot + mi_samples m ! ((c + l) mod ?n)) m)"
    using small [of "c + Suc l"]
    by (subst sum_intervals.simps)
       (simp only: Let_def idx nxt assms(4) ucast_of_nat_small cur if_not_P not_not split: if_split, simp)
  show ?case
  proof (cases "Suc l = ?n")
    case True
    then have "[Suc l..<?n] = []" by simp
    with True show ?thesis unfolding rec upt by simp
  next
    case False
    then have "sum_intervals (of_nat ((c + Suc l) mod ?n)) (tot + mi_samples m ! ((c + l) mod ?n)) m
      = Some (tot + mi_samples m ! ((c + l) mod ?n) + sum_list (map (\<lambda>l. mi_samples m ! ((c + l) mod ?n)) [Suc l..<?n]))"
      using Suc.hyps(2) Suc.prems by (intro Suc.hyps(1)) simp_all
    with False show ?thesis unfolding rec upt by (simp add: add.assoc)
  qed
qed

lemma sum_of_interval_sums:
  assumes "a \<le> b"
  shows "sum_list (map (interval_sum t0 es) [a..<b])
    = sum_list (map snd (filter (\<lambda>(t, v). a \<le> interval_of t0 t \<and> interval_of t0 t < b) es))"
  using assms
proof (induction b rule: dec_induct)
  case base
  have "filter (\<lambda>(t, v). a \<le> interval_of t0 t \<and> interval_of t0 t < a) es = []"
    by (auto simp: filter_empty_conv)
  then show ?case by simp
next
  case (step b)
  have "sum_list (map snd (filter (\<lambda>(t, v). a \<le> interval_of t0 t \<and> interval_of t0 t < Suc b) es))
    = sum_list (map snd (filter (\<lambda>(t, v). a \<le> interval_of t0 t \<and> interval_of t0 t < b) es)) + interval_sum t0 es b"
    using step(1) by (induction es) (auto simp: interval_sum_def algebra_simps)
  then show ?case using step by simp
qed

text \<open>The sum of the intervals before the current one that are in the window.\<close>

definition older_sum :: "nat \<Rightarrow> u64 \<Rightarrow> (u64 \<times> u64) list \<Rightarrow> nat \<Rightarrow> u64" where
  "older_sum n t0 es c =
     sum_list (map snd (filter (\<lambda>(t, v). Suc c - n \<le> interval_of t0 t \<and> interval_of t0 t < c) es))"

lemma older_slots:
  assumes "mi_inv n t0 es c m" "2 \<le> unat n" "unat n \<le> Suc c"
  shows "sum_list (map (\<lambda>l. mi_samples m ! ((c + l) mod unat n)) [1..<unat n]) = older_sum (unat n) t0 es c"
proof -
  let ?n = "unat n"
  have "mi_samples m ! ((c + l) mod ?n) = interval_sum t0 es (l + (Suc c - ?n) - 1)" if "1 \<le> l" "l < ?n" for l
  proof -
    let ?j = "l + (Suc c - ?n) - 1"
    have j: "c + l = ?j + ?n" "?j \<le> c" "c < ?j + ?n" using that assms(3) by auto
    then have "(c + l) mod ?n = ?j mod ?n" by (metis mod_add_self2)
    moreover have "mi_samples m ! (?j mod ?n) = slot_sum ?n t0 es c (?j mod ?n)"
      using assms(1,2) by (simp add: mi_inv_def)
    moreover have "slot_sum ?n t0 es c (?j mod ?n) = interval_sum t0 es ?j"
      using assms(1) j by (intro slot_sum_interval) (simp_all add: mi_inv_def)
    ultimately show ?thesis by simp
  qed
  then have "map (\<lambda>l. mi_samples m ! ((c + l) mod ?n)) [1..<?n]
      = map (\<lambda>l. interval_sum t0 es (l + (Suc c - ?n) - 1)) [1..<?n]" by simp
  also have "\<dots> = map (interval_sum t0 es) [Suc c - ?n..<c]"
    using assms(2,3) by (intro nth_equalityI) (auto intro!: arg_cong [where f = "interval_sum t0 es"])
  finally show ?thesis
    using assms(2) sum_of_interval_sums [of "Suc c - ?n" c t0 es] by (simp add: older_sum_def)
qed

lemma mi_scale_simps [simp]:
  "mi_scale (set_sample i v m) = mi_scale m" "mi_scale (add_sample i v m) = mi_scale m"
  "mi_scale (updateWindowTimes m) = mi_scale m" "mi_scale (mi_start now m) = mi_scale m"
  "mi_scale (add_in_interval now v m) = mi_scale m"
  by (simp_all add: set_sample_def add_sample_def updateWindowTimes_def mi_start_def add_in_interval_def Let_def)

lemma mi_scale_pass [simp]: "mi_scale (pass_intervals k m) = mi_scale m"
  by (induction k m rule: pass_intervals.induct) (simp_all add: Let_def)

lemma mi_scale_add: "mi_add now v m = Some m' \<Longrightarrow> mi_scale m' = mi_scale m"
  by (auto simp: mi_add_def Let_def split: if_splits)

lemma mi_scale_run: "mi_run es m = Some m' \<Longrightarrow> mi_scale m' = mi_scale m"
  by (induction es m rule: mi_run.induct) (auto split: option.splits dest!: mi_scale_add)

text \<open>
  The rate over a full window: asked in the interval of the last sample, \<open>value()\<close> takes the sums of
  the \<open>n - 1\<close> intervals before it and the part of the current interval's sum that corresponds to the
  time passed in it, and divides by the time since the start of the window.
\<close>
theorem rate_of_full_window:
  assumes "2 \<le> unat n" "unat n < 2147483648" "no_pause (unat n) t0 t0 es"
    "c = interval_of t0 (last (t0 # map fst es))" "unat n \<le> Suc c"
    "unat t0 \<le> unat now" "interval_of t0 now = c" "unat n * 100 \<le> unat now" "unat now + 100 < 18446744073709551616"
  shows "\<exists>m. mi_run ((t0, v0) # es) (new_MovingIntervalRateStat 100000000 n sc) = Some m
    \<and> mi_value now m =
        (case u64_of (double_of (older_sum (unat n) t0 ((t0, v0) # es) c)
             + of_nat (unat now - (unat t0 + c * 100)) / 100 * double_of (interval_sum t0 ((t0, v0) # es) c)) of
           None \<Rightarrow> None
         | Some tot \<Rightarrow> u64_of (double_of tot / of_nat (unat now - (unat t0 + (Suc c - unat n) * 100)) * 1000 * sc))"
proof -
  let ?n = "unat n" and ?es = "(t0, v0) # es"
  obtain m where run: "mi_run ?es (new_MovingIntervalRateStat 100000000 n sc) = Some m"
    and inv: "mi_inv n t0 ?es c m"
    using mi_inv_first [OF assms(1-3)] unfolding assms(4) by blast
  have sc: "mi_scale m = sc" using mi_scale_run [OF run] by (simp add: new_MovingIntervalRateStat_def)
  have m: "interval_size_ms m = 100" "intervals_in_window m = n" "mi_initialized m"
    "current_interval m = of_nat (c mod ?n)" "current_window_end_ms m = t0 + of_nat (Suc c) * 100"
    "current_window_start_ms m = t0 + of_nat (Suc c - ?n) * 100"
    using inv assms(5) by (simp_all add: mi_inv_def)
  note b = interval_bounds [OF assms(6), unfolded assms(7)]
  have small: "c mod ?n < 4294967296" for c
    using assms(1,2) by (intro less_trans [OF mod_less_divisor]) simp_all
  have ws: "unat (current_window_start_ms m) = unat t0 + (Suc c - ?n) * 100"
  proof -
    have "unat (of_nat (Suc c - ?n) :: u64) = Suc c - ?n" using b(1) assms(9) by (intro unat_of_nat_u64) simp
    then have "unat (of_nat (Suc c - ?n) * 100 :: u64) = (Suc c - ?n) * 100"
      using b(1) assms(1,9) by (simp add: unat_word_ariths)
    then show ?thesis using b(1) assms(1,9) by (simp add: m unat_word_ariths(1))
  qed
  have req: "unat (now - ucast n * 100) = unat now - ?n * 100"
  proof -
    have n: "unat (ucast n * 100 :: u64) = ?n * 100" using assms(2) by (simp add: unat_word_ariths)
    then have "ucast n * 100 \<le> now" using assms(8) by (simp add: word_le_nat_alt)
    then show ?thesis by (simp only: unat_sub n)
  qed
  have start: "max (now - ucast n * 100) (current_window_start_ms m) = current_window_start_ms m"
  proof -
    have "?n * 100 \<le> Suc c * 100" using assms(5) by simp
    then have "unat now - ?n * 100 \<le> unat t0 + (Suc c - ?n) * 100"
      using b(2) by (simp only: diff_mult_distrib)
    then show ?thesis by (simp add: max_def word_le_nat_alt req ws)
  qed
  have n0: "\<not> n \<le> 0" using assms(1) by (auto simp: word_le_nat_alt)
  have sum: "sum_intervals (getNextInterval (ucast (current_interval m)) m) 0 m = Some (older_sum ?n t0 ?es c)"
    using sum_intervals_spec [OF m(2) assms(1,2) m(4), of 1 0] older_slots [OF inv assms(1,5)] assms(1) small
    by (simp add: m(4) ucast_of_nat_small getNextInterval_of_nat [OF m(2) assms(1,2)] del: unsigned_of_nat)
  have part: "now - (current_window_end_ms m - 100) = of_nat (unat now - (unat t0 + c * 100))"
    using b(1) by (simp add: m of_nat_diff)
  have cur: "mi_samples m ! unat (current_interval m) = interval_sum t0 ?es c"
    using inv assms(1) small [of c] slot_sum_interval [of ?es t0 c c ?n]
    by (simp add: mi_inv_def unat_of_nat_u64 del: unsigned_of_nat)
  have val: "mi_value now m =
        (case u64_of (double_of (older_sum ?n t0 ?es c)
             + of_nat (unat now - (unat t0 + c * 100)) / 100 * double_of (interval_sum t0 ?es c)) of
           None \<Rightarrow> None
         | Some tot \<Rightarrow> u64_of (double_of tot / of_nat (unat now - (unat t0 + (Suc c - ?n) * 100)) * 1000 * sc))"
  proof -
    have lt: "unat now - (unat t0 + c * 100) < 100" using b(2) by simp
    have ufrac: "double_of (of_nat (unat now - (unat t0 + c * 100)) :: u64) = of_nat (unat now - (unat t0 + c * 100))"
      using lt by (simp add: double_of_def unat_of_nat_u64)
    have hundred: "double_of (100 :: u64) = 100" by (simp add: double_of_def)
    have frac: "(of_nat (unat now - (unat t0 + c * 100)) :: rat) / 100 < 1"
      using lt by (simp del: of_nat_diff)
    have zero: "(current_window_start_ms m - current_window_start_ms m) div 100 = 0" by simp
    have le: "current_window_start_ms m \<le> now" using b(1) assms(1,5) by (simp add: word_le_nat_alt ws)
    have diff: "double_of (now - current_window_start_ms m) = of_nat (unat now - (unat t0 + (Suc c - ?n) * 100))"
      by (simp only: double_of_def unat_sub [OF le] ws)
    have pos: "of_nat (unat now - (unat t0 + (Suc c - ?n) * 100)) \<noteq> (0 :: rat)"
      using b(1) assms(1,5) by (simp del: of_nat_diff)
    have part1: "double_of (now - (current_window_end_ms m - 100)) = of_nat (unat now - (unat t0 + c * 100))"
      by (simp only: part ufrac)
    have c0: "current_interval m + ucast (ucast (0 :: u64) :: u32) = current_interval m" by simp
    have n0': "\<not> (ucast (0 :: u64) :: u32) \<ge> n" using n0 by simp
    show ?thesis
      unfolding mi_value_def calculateRateForInterval_def Let_def m(1-3) start zero c0 sum part1 hundred cur diff
        quotient_def if_not_P [OF pos] if_P [OF frac] if_not_P [OF n0'] option.case sc
      by (simp only: m(3) not_True_eq_False if_False)
  qed
  with run show ?thesis by blast
qed

theorem rate_of_full_window_witness:
  "\<exists>m. mi_run [(1000, 10), (1100, 20), (1250, 40)] (new_MovingIntervalRateStat 100000000 3 8) = Some m
    \<and> mi_value 1250 m = Some 1600"
proof -
  have n: "no_pause (unat (3 :: u32)) 1000 1000 [(1100, 20), (1250, 40)]" "interval_of 1000 1250 = 2"
    by (simp_all add: interval_of_def)
  have s: "older_sum (unat (3 :: u32)) 1000 [(1000, 10), (1100, 20), (1250, 40)] 2 = 30"
    "interval_sum 1000 [(1000, 10), (1100, 20), (1250, 40)] 2 = 40"
    by (simp_all add: older_sum_def interval_sum_def interval_of_def)
  have a: "2 \<le> unat (3 :: u32)" "unat (3 :: u32) < 2147483648" "unat (3 :: u32) \<le> Suc 2"
    "unat (1000 :: u64) \<le> unat (1250 :: u64)" "unat (3 :: u32) * 100 \<le> unat (1250 :: u64)"
    "unat (1250 :: u64) + 100 < 18446744073709551616"
    by simp_all
  have c: "2 = interval_of 1000 (last (1000 # map fst [(1100, 20 :: u64), (1250, 40)]))" by (simp add: n(2))
  have v: "double_of (30 :: u64) + of_nat (unat (1250 :: u64) - (unat (1000 :: u64) + 2 * 100)) / 100 * double_of (40 :: u64) = 50"
    "double_of (50 :: u64) / of_nat (unat (1250 :: u64) - (unat (1000 :: u64) + (Suc 2 - unat (3 :: u32)) * 100)) * 1000 * 8 = 1600"
    by (simp_all add: double_of_def)
  have u: "u64_of 50 = Some 50" "u64_of 1600 = Some 1600" by (simp_all add: u64_of_def)
  from rate_of_full_window [OF a(1,2) n(1) c a(3,4) n(2) a(5,6), of 10 8]
  show ?thesis unfolding s v u option.case .
qed

subsection \<open>Pauses and short intervals\<close>

definition samples_after :: "(u64 \<times> u64) list \<Rightarrow> u64 list option" where
  "samples_after es = map_option mi_samples (mi_run es (new_MovingIntervalRateStat 100000000 3 8))"

text \<open>
  After a pause longer than the window the count of intervals is one too small. The next interval is
  then entered twice: samples of the interval that is running are thrown away.
\<close>
lemma pause_loses_samples:
  "samples_after [(1000, 1), (1500, 2), (1610, 7)] = Some [7, 0, 2]"
  "samples_after [(1000, 1), (1500, 2), (1610, 7), (1620, 5)] = Some [5, 0, 2]"
  by code_simp+

text \<open>
  Asked for a time shorter than one interval at the end of a full window, the sum runs over the whole
  ring and is divided by the short time.
\<close>
definition full_window :: movingInterval where
  "full_window = \<lparr>interval_size_ms = 100, intervals_in_window = 3, mi_scale = 1, calculation_start_ms = 1000,
     current_interval = 2, accumulated_intervals = 3, current_window_start_ms = 1000, current_window_end_ms = 1300,
     mi_samples = [100, 100, 100], mi_initialized = True\<rparr>"

lemma short_interval_sums_everything:
  "(case mi_run [(1000, 100), (1100, 100), (1200, 100), (1290, 0)] (new_MovingIntervalRateStat 100000000 3 1) of
      None \<Rightarrow> None | Some m \<Rightarrow> mi_value_of 1290 50000000 m) = Some 7800"
proof -
  have m: "mi_run [(1000, 100), (1100, 100), (1200, 100), (1290, 0)] (new_MovingIntervalRateStat 100000000 3 1) = Some full_window"
    unfolding full_window_def by code_simp
  have "sum_intervals 2 0 full_window = Some 300"
    by (simp add: sum_intervals.simps full_window_def getNextInterval_def)
  then have "mi_value_of 1290 50000000 full_window = Some 7800"
    by (simp add: mi_value_of_def calculateRateForInterval_def full_window_def getNextInterval_def durationToMs_def c_div_def
        Let_def quotient_def u64_of_def double_of_def)
  then show ?thesis by (simp only: m option.case)
qed

text \<open>Asked in the millisecond of the first sample, the rate divides by zero.\<close>

lemma rate_at_start_undefined:
  "(case mi_run [(1000, 100)] (new_MovingIntervalRateStat 100000000 3 1) of None \<Rightarrow> Some 0 | Some m \<Rightarrow> mi_value 1000 m) = None"
proof -
  define m where "m = \<lparr>interval_size_ms = 100, intervals_in_window = 3, mi_scale = 1, calculation_start_ms = 1000,
     current_interval = 0, accumulated_intervals = 1, current_window_start_ms = 1000, current_window_end_ms = 1100,
     mi_samples = [100, 0, 0], mi_initialized = True\<rparr>"
  have r: "mi_run [(1000, 100)] (new_MovingIntervalRateStat 100000000 3 1) = Some m"
    unfolding m_def by code_simp
  have "sum_intervals 1 0 m = Some 0"
    by (simp add: sum_intervals.simps m_def getNextInterval_def)
  moreover have "max (700 :: u64) 1000 = 1000" by (simp add: max_def)
  ultimately have "mi_value 1000 m = None"
    by (simp add: mi_value_def calculateRateForInterval_def m_def getNextInterval_def Let_def quotient_def u64_of_def double_of_def)
  then show ?thesis by (simp only: r option.case)
qed

text \<open>The average of the last \<open>n\<close> samples leaves one out while there are not more of them, and divides by 0 for one.\<close>

lemma average_of_samples_short:
  "(case ma_run [10, 20] (new_MovingAverageStat 5) of None \<Rightarrow> None | Some m \<Rightarrow> ma_value_of 2 m) = Some 20"
  "(case ma_run [10] (new_MovingAverageStat 5) of None \<Rightarrow> Some 0 | Some m \<Rightarrow> ma_value_of 1 m) = None"
  by code_simp+

end
