(* ===== verification/QualityManager.thy ===== *)
theory QualityManager
  imports StatNode Media
begin

text \<open>
  \<^verbatim>\<open>rtp/QualityManager.cpp\<close>, which chooses the spatial and the temporal layer to send from the bitrates
  of the layers and the estimated bandwidth, and \<^verbatim>\<open>rtp/LayerBitrateCalculationHandler.cpp\<close>, which
  measures these bitrates. The statistics tree is shared by the handlers of a pipeline: it is in
  the state while the manager runs. \<^verbatim>\<open>notifyUpdateToHandlers\<close> is recorded with what the handlers then
  read of the manager. A null pointer, a statistic of another class than the code casts it to, and
  an undefined conversion are \<open>None\<close>.
\<close>

record qualityManager =
  qm_initialized :: bool
  qm_enabled :: bool
  padding_enabled :: bool
  forced_layers :: bool
  slideshow_mode_active :: bool
  spatial_layer :: int
  temporal_layer :: int
  max_active_spatial_layer :: int
  max_active_temporal_layer :: int
  current_estimated_bitrate :: u64
  last_quality_check :: int
  last_activity_check :: int
  qm_stats :: "stat_node option"
  qm_notified :: "(bool \<times> bool \<times> int \<times> int) list"

definition kMinLayerSwitchInterval :: int where "kMinLayerSwitchInterval = 10000000000"
definition kActiveLayerInterval :: int where "kActiveLayerInterval = 500000000"

text \<open>The threshold 0.1 as a \<^verbatim>\<open>float\<close>.\<close>

definition kIncreaseLayerBitrateThreshold :: rat where
  "kIncreaseLayerBitrateThreshold = 13421773 / 134217728"

definition new_QualityManager :: "int \<Rightarrow> qualityManager" where
  "new_QualityManager now = \<lparr>qm_initialized = False, qm_enabled = False, padding_enabled = False,
     forced_layers = False, slideshow_mode_active = False, spatial_layer = 0, temporal_layer = 0,
     max_active_spatial_layer = 0, max_active_temporal_layer = 0, current_estimated_bitrate = 0,
     last_quality_check = now, last_activity_check = now, qm_stats = None, qm_notified = []\<rparr>"

definition notifyUpdateToHandlers :: "qualityManager \<Rightarrow> qualityManager" where
  "notifyUpdateToHandlers q = q\<lparr>qm_notified := qm_notified q
     @ [(padding_enabled q, slideshow_mode_active q, spatial_layer q, temporal_layer q)]\<rparr>"

definition qm_setPadding :: "bool \<Rightarrow> qualityManager \<Rightarrow> qualityManager" where
  "qm_setPadding e q =
     (if padding_enabled q \<noteq> e then notifyUpdateToHandlers (q\<lparr>padding_enabled := e\<rparr>) else q)"

definition qm_enable :: "qualityManager \<Rightarrow> qualityManager" where
  "qm_enable q = (let q = q\<lparr>qm_enabled := True\<rparr> in if \<not> forced_layers q then qm_setPadding True q else q)"

definition qm_disable :: "qualityManager \<Rightarrow> qualityManager" where
  "qm_disable q = qm_setPadding False (q\<lparr>qm_enabled := False\<rparr>)"

definition forceLayers :: "int \<Rightarrow> int \<Rightarrow> qualityManager \<Rightarrow> qualityManager" where
  "forceLayers spa tmp q =
     (if spa = -1 \<or> tmp = -1 then q\<lparr>forced_layers := False\<rparr>
      else (qm_setPadding False (q\<lparr>forced_layers := True\<rparr>))\<lparr>spatial_layer := spa, temporal_layer := tmp\<rparr>)"

subsection \<open>Bitrates of the layers\<close>

definition int_key :: "int \<Rightarrow> string" where
  "int_key i = key_text (word_of_int i)"

definition qualityLayers :: "stat_node \<Rightarrow> stat_node" where
  "qualityLayers st = child_node ''qualityLayers'' st"

text \<open>
  \<^verbatim>\<open>getInstantLayerBitrate\<close>: the tree gets the node of the layers if it has none; the other two
  subscripts are only reached for children that are there.
\<close>

definition getInstantLayerBitrate :: "int \<Rightarrow> int \<Rightarrow> int \<Rightarrow> stat_node \<Rightarrow> u64 option" where
  "getInstantLayerBitrate now spa tmp st =
     (let layers = qualityLayers st
      in if \<not> hasChild (int_key spa) layers \<or> \<not> hasChild (int_key tmp) (child_node (int_key spa) layers) then Some 0
         else case stat_of (child_node (int_key tmp) (child_node (int_key spa) layers)) of
             MovingIntervalRateStat m \<Rightarrow> mi_value_of (ms_of now) kActiveLayerInterval m
           | _ \<Rightarrow> None)"

definition touch_layers :: "stat_node \<Rightarrow> stat_node" where
  "touch_layers st = child ''qualityLayers'' (\<lambda>n. n) st"

text \<open>The loops of \<^verbatim>\<open>calculateMaxActiveLayer\<close>, from \<open>n\<close> downwards.\<close>

fun highest_active :: "(nat \<Rightarrow> u64 option) \<Rightarrow> nat \<Rightarrow> nat option" where
  "highest_active bitrate 0 = Some 0"
| "highest_active bitrate (Suc n) = (case bitrate (Suc n) of None \<Rightarrow> None
     | Some b \<Rightarrow> if b > 0 then Some (Suc n) else highest_active bitrate n)"

definition insert_layer_stat :: "string \<Rightarrow> int \<Rightarrow> stat_node \<Rightarrow> stat_node" where
  "insert_layer_stat key v st = child ''qualityLayers'' (insertStat key (CumulativeStat (word_of_int v))) st"

definition calculateMaxActiveLayer :: "int \<Rightarrow> stat_node \<Rightarrow> qualityManager \<Rightarrow> qualityManager option" where
  "calculateMaxActiveLayer now st q =
     (let st = touch_layers st
      in case highest_active (\<lambda>s. getInstantLayerBitrate now (int s) 0 st) 5 of None \<Rightarrow> None
        | Some s \<Rightarrow> (case highest_active (\<lambda>t. getInstantLayerBitrate now (int s) (int t) st) 5 of None \<Rightarrow> None
          | Some t \<Rightarrow>
              let st = insert_layer_stat ''maxActiveSpatialLayer'' (max_active_spatial_layer q) st;
                  st = insert_layer_stat ''maxActiveTemporalLayer'' (max_active_temporal_layer q) st
              in Some (q\<lparr>qm_stats := Some st, max_active_spatial_layer := int s, max_active_temporal_layer := int t\<rparr>)))"

definition isInBaseLayer :: "qualityManager \<Rightarrow> bool" where
  "isInBaseLayer q \<longleftrightarrow> spatial_layer q = 0 \<and> temporal_layer q = 0"

definition isInMaxLayer :: "qualityManager \<Rightarrow> bool" where
  "isInMaxLayer q \<longleftrightarrow> spatial_layer q \<ge> max_active_spatial_layer q \<and> temporal_layer q \<ge> max_active_temporal_layer q"

subsection \<open>The choice\<close>

text \<open>
  The nested loop of \<^verbatim>\<open>selectLayer\<close>: positions count from 0 in the order of the keys. The result is the
  position chosen last, \<open>None\<close> if none fits; it is wrapped in an option, as values may be undefined.
  Rates that close their period while they are asked are put back into the tree.
\<close>

definition fits :: "rat \<Rightarrow> u64 \<Rightarrow> u64 \<Rightarrow> bool" where
  "fits margin estimate v \<longleftrightarrow> v \<noteq> 0 \<and> (1 + margin) * double_of v < double_of estimate"

fun scan_temporal :: "int \<Rightarrow> rat \<Rightarrow> u64 \<Rightarrow> int \<Rightarrow> int \<Rightarrow> (string \<times> stat_node) list \<Rightarrow> (int \<times> int) option
    \<Rightarrow> ((int \<times> int) option \<times> (string \<times> stat_node) list) option" where
  "scan_temporal now margin estimate aux_s aux_t [] chosen = Some (chosen, [])"
| "scan_temporal now margin estimate aux_s aux_t ((key, n) # m) chosen =
     (case stat_value now (stat_of n) of None \<Rightarrow> None
      | Some (v, s) \<Rightarrow>
          (case scan_temporal now margin estimate aux_s (aux_t + 1) m
              (if fits margin estimate v then Some (aux_s, aux_t) else chosen) of None \<Rightarrow> None
           | Some (chosen, m) \<Rightarrow> Some (chosen, (key, StatNode s (node_map n)) # m)))"

fun scan_spatial :: "int \<Rightarrow> rat \<Rightarrow> u64 \<Rightarrow> int \<Rightarrow> (string \<times> stat_node) list \<Rightarrow> (int \<times> int) option
    \<Rightarrow> ((int \<times> int) option \<times> (string \<times> stat_node) list) option" where
  "scan_spatial now margin estimate aux_s [] chosen = Some (chosen, [])"
| "scan_spatial now margin estimate aux_s ((key, n) # m) chosen =
     (case scan_temporal now margin estimate aux_s 0 (node_map n) chosen of None \<Rightarrow> None
      | Some (chosen, m') \<Rightarrow>
          (case scan_spatial now margin estimate (aux_s + 1) m chosen of None \<Rightarrow> None
           | Some (chosen, m) \<Rightarrow> Some (chosen, (key, StatNode (stat_of n) m') # m)))"

definition set_layer_stat :: "string \<Rightarrow> int \<Rightarrow> qualityManager \<Rightarrow> qualityManager option" where
  "set_layer_stat key v q = (case qm_stats q of None \<Rightarrow> None
     | Some st \<Rightarrow> Some (q\<lparr>qm_stats := Some (insert_layer_stat key v st)\<rparr>))"

definition setSpatialLayer :: "int \<Rightarrow> qualityManager \<Rightarrow> qualityManager option" where
  "setSpatialLayer l q =
     (let q = (if \<not> forced_layers q then q\<lparr>spatial_layer := l\<rparr> else q)
      in set_layer_stat ''selectedSpatialLayer'' (spatial_layer q) q)"

definition setTemporalLayer :: "int \<Rightarrow> qualityManager \<Rightarrow> qualityManager option" where
  "setTemporalLayer l q =
     (let q = (if \<not> forced_layers q then q\<lparr>temporal_layer := l\<rparr> else q)
      in set_layer_stat ''selectedTemporalLayer'' (temporal_layer q) q)"

text \<open>The ends of \<^verbatim>\<open>selectLayer\<close>: the fallback to the slide show, and the switch.\<close>

definition update_slideshow :: "bool \<Rightarrow> bool \<Rightarrow> qualityManager \<Rightarrow> qualityManager" where
  "update_slideshow below_min_layer try_higher_layers q =
     (if below_min_layer \<noteq> slideshow_mode_active q \<and> (below_min_layer \<or> try_higher_layers)
      then notifyUpdateToHandlers (q\<lparr>slideshow_mode_active := below_min_layer\<rparr>) else q)"

definition switch_to :: "int \<times> int \<Rightarrow> qualityManager \<Rightarrow> qualityManager option" where
  "switch_to next_layer q = (case next_layer of (s, t) \<Rightarrow>
     if t \<noteq> temporal_layer q \<or> s \<noteq> spatial_layer q
     then (case setTemporalLayer t q of None \<Rightarrow> None
       | Some q \<Rightarrow> (case setSpatialLayer s q of None \<Rightarrow> None
         | Some q \<Rightarrow> Some (qm_setPadding (\<not> isInMaxLayer q) q)))
     else Some q)"

definition selectLayer :: "int \<Rightarrow> bool \<Rightarrow> qualityManager \<Rightarrow> qualityManager option" where
  "selectLayer now try_higher_layers q =
     (let q = q\<lparr>last_quality_check := now\<rparr>;
          margin = (if try_higher_layers then kIncreaseLayerBitrateThreshold else 0)
      in case qm_stats q of None \<Rightarrow> None
       | Some st \<Rightarrow>
          let st = touch_layers st
          in (case scan_spatial now margin (current_estimated_bitrate q) 0 (node_map (qualityLayers st)) None of None \<Rightarrow> None
           | Some (chosen, m) \<Rightarrow>
              let q = q\<lparr>qm_stats := Some (child ''qualityLayers'' (\<lambda>n. StatNode (stat_of n) m) st)\<rparr>;
                  below_min_layer = (chosen = None);
                  next_layer = (case chosen of None \<Rightarrow> (0, 0) | Some c \<Rightarrow> c)
              in switch_to next_layer (update_slideshow below_min_layer try_higher_layers q)))"

text \<open>
  \<^verbatim>\<open>notifyQualityUpdate\<close>: the first calls fetch the statistics from the pipeline (\<open>service\<close>; \<open>None\<close> when
  there is no pipeline or it has no statistics) and wait for the first estimate.
\<close>

definition fetch_stats :: "stat_node option \<Rightarrow> qualityManager \<Rightarrow> qualityManager" where
  "fetch_stats service q = (case service of None \<Rightarrow> q\<lparr>qm_stats := None\<rparr>
     | Some st \<Rightarrow>
        let st = child ''total'' (\<lambda>n. n) st; q = q\<lparr>qm_stats := Some st\<rparr>
        in if hasChild ''senderBitrateEstimation'' (child_node ''total'' st) then q\<lparr>qm_initialized := True\<rparr> else q)"

definition read_estimate :: "int \<Rightarrow> stat_node \<Rightarrow> (u64 \<times> stat_node) option" where
  "read_estimate now st =
     (case stat_value now (stat_of (child_node ''senderBitrateEstimation'' (child_node ''total'' st))) of None \<Rightarrow> None
      | Some (v, s) \<Rightarrow> Some (v, child ''total''
          (child ''senderBitrateEstimation'' (\<lambda>n. StatNode s (node_map n))) st))"

definition update_layers :: "int \<Rightarrow> qualityManager \<Rightarrow> qualityManager option" where
  "update_layers now q =
     (case qm_stats q of None \<Rightarrow> None
      | Some st \<Rightarrow> (case read_estimate now st of None \<Rightarrow> None
        | Some (estimate, st) \<Rightarrow>
           let q = q\<lparr>current_estimated_bitrate := estimate\<rparr>; st = touch_layers st
           in (case getInstantLayerBitrate now (spatial_layer q) (temporal_layer q) st of None \<Rightarrow> None
            | Some current \<Rightarrow>
               let under = current_estimated_bitrate q < current; q = q\<lparr>qm_stats := Some st\<rparr>
               in (case (if now - last_activity_check q > kActiveLayerInterval
                         then map_option (\<lambda>q. q\<lparr>last_activity_check := now\<rparr>) (calculateMaxActiveLayer now st q)
                         else Some q) of None \<Rightarrow> None
                | Some q \<Rightarrow>
                   let layer_is_active = (spatial_layer q \<le> max_active_spatial_layer q)
                   in if \<not> layer_is_active \<or> under \<and> \<not> slideshow_mode_active q then selectLayer now False q
                      else if now - last_quality_check q > kMinLayerSwitchInterval then selectLayer now True q
                      else Some q))))"

definition notifyQualityUpdate :: "stat_node option \<Rightarrow> int \<Rightarrow> qualityManager \<Rightarrow> qualityManager option" where
  "notifyQualityUpdate service now q =
     (if \<not> qm_enabled q then Some q else
      let q = (if \<not> qm_initialized q then fetch_stats service q else q)
      in if \<not> qm_initialized q then Some q
         else if forced_layers q then Some q
         else update_layers now q)"

subsection \<open>The bitrate of each layer\<close>

record layerBitrate =
  lb_enabled :: bool
  lb_initialized :: bool

definition new_LayerBitrateCalculationHandler :: layerBitrate where
  "new_LayerBitrateCalculationHandler = \<lparr>lb_enabled = True, lb_initialized = False\<rparr>"

definition lb_enable :: "layerBitrate \<Rightarrow> layerBitrate" where
  "lb_enable h = h\<lparr>lb_enabled := True\<rparr>"

definition lb_disable :: "layerBitrate \<Rightarrow> layerBitrate" where
  "lb_disable h = h\<lparr>lb_enabled := False\<rparr>"

definition count_layer :: "int \<Rightarrow> dataPacket \<Rightarrow> int \<Rightarrow> int \<Rightarrow> stat_node \<Rightarrow> stat_node option" where
  "count_layer now packet spa tmp st =
     (let sname = decimal_int spa; tname = decimal_int tmp;
          st = child ''qualityLayers'' (child sname (\<lambda>n. n)) st;
          layer = child_node sname (qualityLayers st)
      in if \<not> hasChild tname layer
         then Some (child ''qualityLayers'' (child sname (insertStat tname
                (MovingIntervalRateStat (new_MovingIntervalRateStat 100000000 30 8)))) st)
         else map_option (\<lambda>s. child ''qualityLayers'' (child sname (child tname (\<lambda>n. StatNode s (node_map n)))) st)
                (stat_add now (word_of_int (packet_length packet)) (stat_of (child_node tname layer))))"

fun count_layers :: "int \<Rightarrow> dataPacket \<Rightarrow> (int \<times> int) list \<Rightarrow> stat_node \<Rightarrow> stat_node option" where
  "count_layers now packet [] st = Some st"
| "count_layers now packet ((spa, tmp) # ls) st =
     (case count_layer now packet spa tmp st of None \<Rightarrow> None | Some st \<Rightarrow> count_layers now packet ls st)"

definition lb_write :: "int \<Rightarrow> dataPacket \<Rightarrow> layerBitrate \<Rightarrow> stat_node \<Rightarrow> qualityManager
    \<Rightarrow> (stat_node \<times> qualityManager \<times> fire list) option" where
  "lb_write now packet h st q =
     (if \<not> lb_enabled h \<or> \<not> lb_initialized h then Some (st, q, [FireWrite packet])
      else case count_layers now packet
               (List.product (compatible_spatial_layers packet) (compatible_temporal_layers packet)) st of None \<Rightarrow> None
        | Some st \<Rightarrow>
           let q = (if qm_stats q = None then q else q\<lparr>qm_stats := Some st\<rparr>)
           in map_option (\<lambda>q. (case qm_stats q of None \<Rightarrow> st | Some st \<Rightarrow> st, q, [FireWrite packet]))
                (notifyQualityUpdate (Some st) now q))"

definition lb_notifyUpdate :: "bool \<Rightarrow> bool \<Rightarrow> layerBitrate \<Rightarrow> layerBitrate" where
  "lb_notifyUpdate has_stats has_manager h =
     (if lb_initialized h \<or> \<not> has_stats \<or> \<not> has_manager then h else h\<lparr>lb_initialized := True\<rparr>)"

subsection \<open>What is chosen\<close>

text \<open>The layers of the tree with the values they have: what the loops go through, in their order.\<close>

fun temporal_values :: "int \<Rightarrow> int \<Rightarrow> int \<Rightarrow> (string \<times> stat_node) list \<Rightarrow> ((int \<times> int) \<times> u64) list option" where
  "temporal_values now s t [] = Some []"
| "temporal_values now s t ((key, n) # m) = (case stat_value now (stat_of n) of None \<Rightarrow> None
     | Some (v, _) \<Rightarrow> map_option (\<lambda>vs. ((s, t), v) # vs) (temporal_values now s (t + 1) m))"

fun layer_values :: "int \<Rightarrow> int \<Rightarrow> (string \<times> stat_node) list \<Rightarrow> ((int \<times> int) \<times> u64) list option" where
  "layer_values now s [] = Some []"
| "layer_values now s ((key, n) # m) = (case temporal_values now s 0 (node_map n) of None \<Rightarrow> None
     | Some vs \<Rightarrow> map_option (\<lambda>ws. vs @ ws) (layer_values now (s + 1) m))"

definition last_fitting :: "rat \<Rightarrow> u64 \<Rightarrow> ((int \<times> int) \<times> u64) list \<Rightarrow> (int \<times> int) option \<Rightarrow> (int \<times> int) option" where
  "last_fitting margin estimate vs chosen =
     (let ls = filter (\<lambda>l. fits margin estimate (snd l)) vs in if ls = [] then chosen else Some (fst (last ls)))"

lemma last_fitting_Nil [simp]: "last_fitting margin estimate [] c = c"
  by (simp add: last_fitting_def)

lemma last_fitting_Cons [simp]: "last_fitting margin estimate (l # vs) c
  = last_fitting margin estimate vs (if fits margin estimate (snd l) then Some (fst l) else c)"
  by (simp add: last_fitting_def Let_def)

lemma last_fitting_append: "last_fitting margin estimate (vs @ ws) c
  = last_fitting margin estimate ws (last_fitting margin estimate vs c)"
  by (simp add: last_fitting_def Let_def)

lemma scan_temporal_values:
  "temporal_values now s t m = Some vs
   \<Longrightarrow> \<exists>m'. scan_temporal now margin estimate s t m c = Some (last_fitting margin estimate vs c, m')"
proof (induction m arbitrary: t vs c)
  case (Cons e m)
  obtain key n where e: "e = (key, n)" by (cases e)
  obtain v st' ws where v: "stat_value now (stat_of n) = Some (v, st')" "temporal_values now s (t + 1) m = Some ws"
    "vs = ((s, t), v) # ws"
    using Cons.prems by (auto simp: e split: option.splits)
  then show ?case
    using Cons.IH [OF v(2), of "if fits margin estimate v then Some (s, t) else c"] by (auto simp: e)
qed simp

lemma scan_spatial_values:
  "layer_values now s m = Some vs
   \<Longrightarrow> \<exists>m'. scan_spatial now margin estimate s m c = Some (last_fitting margin estimate vs c, m')"
proof (induction m arbitrary: s vs c)
  case (Cons e m)
  obtain key n where e: "e = (key, n)" by (cases e)
  obtain ws ws' where v: "temporal_values now s 0 (node_map n) = Some ws" "layer_values now (s + 1) m = Some ws'"
    "vs = ws @ ws'"
    using Cons.prems by (auto simp: e split: option.splits)
  obtain m' where m': "scan_temporal now margin estimate s 0 (node_map n) c = Some (last_fitting margin estimate ws c, m')"
    using scan_temporal_values [OF v(1)] by blast
  then show ?case
    using Cons.IH [OF v(2), of "last_fitting margin estimate ws c"] by (auto simp: e v(3) last_fitting_append)
qed simp

lemma map_of_insert_new: "map_of m k = None \<Longrightarrow> map_of (map_insert k v m) = (map_of m)(k \<mapsto> v)"
  by (induction k v m rule: map_insert.induct) (auto simp: fun_eq_iff split: if_splits)

lemma qualityLayers_touch [simp]: "qualityLayers (touch_layers st) = qualityLayers st"
  by (auto simp: qualityLayers_def touch_layers_def child_def child_node_def hasChild_def map_of_insert_new
      split: option.splits)

lemma setPadding_layers [simp]:
  "spatial_layer (qm_setPadding e q) = spatial_layer q" "temporal_layer (qm_setPadding e q) = temporal_layer q"
  "slideshow_mode_active (qm_setPadding e q) = slideshow_mode_active q"
  "last_quality_check (qm_setPadding e q) = last_quality_check q"
  "padding_enabled (qm_setPadding e q) = e" "isInMaxLayer (qm_setPadding e q) = isInMaxLayer q"
  by (auto simp: qm_setPadding_def notifyUpdateToHandlers_def isInMaxLayer_def)

lemma setPadding_max_active [simp]:
  "max_active_spatial_layer (qm_setPadding e q) = max_active_spatial_layer q"
  "max_active_temporal_layer (qm_setPadding e q) = max_active_temporal_layer q"
  by (simp_all add: qm_setPadding_def notifyUpdateToHandlers_def)

lemma select_last_fitting:
  assumes "qm_stats q = Some st" "\<not> forced_layers q"
    "layer_values now 0 (node_map (qualityLayers st)) = Some vs"
  shows "\<exists>q'. selectLayer now up q = Some q' \<and>
    (let margin = (if up then kIncreaseLayerBitrateThreshold else 0);
         ls = filter (\<lambda>l. fits margin (current_estimated_bitrate q) (snd l)) vs
     in (spatial_layer q', temporal_layer q') = (if ls = [] then (0, 0) else fst (last ls))
      \<and> slideshow_mode_active q' = (if ls = [] then True else if up then False else slideshow_mode_active q)
      \<and> last_quality_check q' = now
      \<and> ((spatial_layer q', temporal_layer q') \<noteq> (spatial_layer q, temporal_layer q)
           \<longrightarrow> padding_enabled q' = (\<not> (max_active_spatial_layer q \<le> spatial_layer q'
                \<and> max_active_temporal_layer q \<le> temporal_layer q'))))"
proof -
  define margin where "margin = (if up then kIncreaseLayerBitrateThreshold else 0)"
  let ?chosen = "last_fitting margin (current_estimated_bitrate q) vs None"
  obtain m' where scan: "scan_spatial now margin (current_estimated_bitrate q) 0 (node_map (qualityLayers st)) None
      = Some (?chosen, m')"
    using scan_spatial_values [OF assms(3)] by blast
  obtain s t where next_layer: "(case ?chosen of None \<Rightarrow> (0, 0) | Some c \<Rightarrow> c) = (s, t)" by (cases "case ?chosen of None \<Rightarrow> (0, 0) | Some c \<Rightarrow> c")
  then have st: "(if filter (\<lambda>l. fits margin (current_estimated_bitrate q) (snd l)) vs = [] then (0, 0)
      else fst (last (filter (\<lambda>l. fits margin (current_estimated_bitrate q) (snd l)) vs))) = (s, t)"
    "(?chosen = None) = (filter (\<lambda>l. fits margin (current_estimated_bitrate q) (snd l)) vs = [])"
    by (simp_all add: last_fitting_def Let_def split: if_splits)
  show ?thesis
    unfolding selectLayer_def Let_def margin_def [symmetric]
    by (simp add: assms(1) scan next_layer st assms(2) setSpatialLayer_def setTemporalLayer_def set_layer_stat_def
        notifyUpdateToHandlers_def switch_to_def update_slideshow_def isInMaxLayer_def)
qed

subsection \<open>Layers by their keys\<close>

text \<open>
  The bitrate measured for a layer is found in the tree under the numbers of the layer. What the
  loops count are these numbers if the keys are the numbers from 0 on, in this order; other
  children, as the code puts them beside the layers, have no children of their own.
\<close>

definition layer_bitrate :: "int \<Rightarrow> stat_node \<Rightarrow> nat \<Rightarrow> nat \<Rightarrow> u64 option" where
  "layer_bitrate now st s t = (case map_of (node_map (qualityLayers st)) (decimal s) of None \<Rightarrow> None
     | Some n \<Rightarrow> (case map_of (node_map n) (decimal t) of None \<Rightarrow> None
       | Some l \<Rightarrow> map_option fst (stat_value now (stat_of l))))"

definition numbered :: "(string \<times> stat_node) list \<Rightarrow> bool" where
  "numbered m \<longleftrightarrow> map fst m = map decimal [0..<length m]"

definition layers_numbered :: "int \<Rightarrow> stat_node \<Rightarrow> bool" where
  "layers_numbered now st \<longleftrightarrow> (let m = node_map (qualityLayers st) in \<exists>n \<in> {0..length m}. numbered (take n m)
     \<and> list_all (\<lambda>(k, c). numbered (node_map c) \<and> list_all (\<lambda>(k, l). stat_value now (stat_of l) \<noteq> None) (node_map c)) (take n m)
     \<and> list_all (\<lambda>(k, c). node_map c = []) (drop n m))"

lemma map_of_numbered:
  assumes "numbered m"
  shows "map_of m (decimal i) = (if i < length m then Some (snd (m ! i)) else None)"
proof -
  have k: "fst (m ! j) = decimal j" if "j < length m" for j
    using assms that by (simp add: numbered_def) (metis add_0 map_equality_iff nth_map nth_upt length_upt diff_zero)
  have d: "distinct (map fst m)"
    using assms by (simp add: numbered_def distinct_map inj_on_def)
  show ?thesis
  proof (cases "i < length m")
    case True
    then have "(decimal i, snd (m ! i)) \<in> set m" using k [OF True] by (metis nth_mem prod.collapse)
    then show ?thesis using True d by simp
  next
    case False
    have "decimal i \<notin> fst ` set m" using k False by (auto simp: in_set_conv_nth) (metis decimal_inject fst_conv)
    then show ?thesis using False by (simp add: map_of_eq_None_iff)
  qed
qed

lemma temporal_values_all:
  assumes "list_all (\<lambda>(k, l). stat_value now (stat_of l) \<noteq> None) m"
  shows "temporal_values now s t m = Some (map (\<lambda>j. ((s, t + int j), fst (the (stat_value now (stat_of (snd (m ! j))))))) [0..<length m])"
  using assms
proof (induction m arbitrary: t)
  case (Cons e m)
  obtain k n where e: "e = (k, n)" by (cases e)
  then obtain v st' where "stat_value now (stat_of n) = Some (v, st')" using Cons.prems by auto
  then show ?case
    using Cons.IH [of "t + 1"] Cons.prems
    by (simp add: e map_upt_Suc add.assoc add.commute [of 1] del: upt_Suc)
qed simp

definition lex_less :: "(int \<times> int) \<times> u64 \<Rightarrow> (int \<times> int) \<times> u64 \<Rightarrow> bool" where
  "lex_less a b \<longleftrightarrow> fst (fst a) < fst (fst b) \<or> fst (fst a) = fst (fst b) \<and> snd (fst a) < snd (fst b)"

lemma layer_values_all:
  assumes "list_all (\<lambda>(k, c). list_all (\<lambda>(k, l). stat_value now (stat_of l) \<noteq> None) (node_map c)) m"
  shows "\<exists>vs. layer_values now s m = Some vs \<and> sorted_wrt lex_less vs
    \<and> (\<forall>x v. (x, v) \<in> set vs \<longleftrightarrow> (\<exists>i j. x = (s + int i, int j) \<and> i < length m \<and> j < length (node_map (snd (m ! i)))
          \<and> map_option fst (stat_value now (stat_of (snd (node_map (snd (m ! i)) ! j)))) = Some v))"
  using assms
proof (induction m arbitrary: s)
  case (Cons e m)
  obtain k n where e: "e = (k, n)" by (cases e)
  have n: "list_all (\<lambda>(k, l). stat_value now (stat_of l) \<noteq> None) (node_map n)"
    and m: "list_all (\<lambda>(k, c). list_all (\<lambda>(k, l). stat_value now (stat_of l) \<noteq> None) (node_map c)) m"
    using Cons.prems by (simp_all add: e)
  let ?ts = "map (\<lambda>j. ((s, int j), fst (the (stat_value now (stat_of (snd (node_map n ! j))))))) [0..<length (node_map n)]"
  have t: "temporal_values now s 0 (node_map n) = Some ?ts" using temporal_values_all [OF n, of s 0] by simp
  obtain ws where ws: "layer_values now (s + 1) m = Some ws" "sorted_wrt lex_less ws"
    "\<And>x v. (x, v) \<in> set ws \<longleftrightarrow> (\<exists>i j. x = (s + 1 + int i, int j) \<and> i < length m \<and> j < length (node_map (snd (m ! i)))
          \<and> map_option fst (stat_value now (stat_of (snd (node_map (snd (m ! i)) ! j)))) = Some v)"
    using Cons.IH [OF m, of "s + 1"] by blast
  have st: "sorted_wrt lex_less ?ts" by (simp add: sorted_wrt_map lex_less_def sorted_wrt_iff_nth_less)
  have stw: "lex_less a b" if "a \<in> set ?ts" "b \<in> set ws" for a b
    using that ws(3) [of "fst b" "snd b"] by (auto simp: lex_less_def)
  have d: "\<exists>v. map_option fst (stat_value now (stat_of (snd (node_map n ! j)))) = Some v" if "j < length (node_map n)" for j
    using n that by (auto simp: list_all_length case_prod_beta)
  have d: "stat_value now (stat_of (snd (node_map n ! j))) = Some (the (stat_value now (stat_of (snd (node_map n ! j)))))"
    if "j < length (node_map n)" for j
    using d [OF that] by auto
  have ts: "(x, v) \<in> set ?ts \<longleftrightarrow> (\<exists>j. x = (s, int j) \<and> j < length (node_map n)
      \<and> map_option fst (stat_value now (stat_of (snd (node_map n ! j)))) = Some v)" for x v
  proof -
    have "map_option fst (stat_value now (stat_of (snd (node_map n ! j)))) = Some v
        \<longleftrightarrow> v = fst (the (stat_value now (stat_of (snd (node_map n ! j)))))" if "j < length (node_map n)" for j
      by (subst d [OF that]) auto
    then show ?thesis by (auto simp: image_iff)
  qed
  have "(x, v) \<in> set (?ts @ ws) \<longleftrightarrow> (\<exists>i j. x = (s + int i, int j) \<and> i < length (e # m) \<and> j < length (node_map (snd ((e # m) ! i)))
          \<and> map_option fst (stat_value now (stat_of (snd (node_map (snd ((e # m) ! i)) ! j)))) = Some v)" (is "?l \<longleftrightarrow> (\<exists>i. ?r i)") for x v
  proof -
    have split: "(\<exists>i. P i) \<longleftrightarrow> P 0 \<or> (\<exists>i. P (Suc i))" for P :: "nat \<Rightarrow> bool" by (metis not0_implies_Suc)
    have "(\<exists>i. ?r i) \<longleftrightarrow> ?r 0 \<or> (\<exists>i. ?r (Suc i))" by (rule split)
    moreover have "?r 0 \<longleftrightarrow> (x, v) \<in> set ?ts" unfolding ts by (auto simp: e)
    moreover have "(\<exists>i. ?r (Suc i)) \<longleftrightarrow> (x, v) \<in> set ws"
      unfolding ws(3) by (simp add: add.assoc)
    ultimately show ?thesis by (simp only: set_append Un_iff)
  qed
  then show ?case
    using t ws(1,2) st stw by (auto simp: e sorted_wrt_append intro!: exI [of _ "?ts @ ws"])
qed simp

lemma layer_bitrate_values:
  assumes "layers_numbered now st"
  shows "\<exists>vs. layer_values now 0 (node_map (qualityLayers st)) = Some vs \<and> sorted_wrt lex_less vs
    \<and> (\<forall>x v. (x, v) \<in> set vs \<longleftrightarrow> (\<exists>s t. x = (int s, int t) \<and> layer_bitrate now st s t = Some v))"
proof -
  let ?m = "node_map (qualityLayers st)"
  obtain n where n: "n \<le> length ?m" "numbered (take n ?m)"
    "list_all (\<lambda>(k, c). numbered (node_map c) \<and> list_all (\<lambda>(k, l). stat_value now (stat_of l) \<noteq> None) (node_map c)) (take n ?m)"
    "list_all (\<lambda>(k, c). node_map c = []) (drop n ?m)"
    using assms unfolding layers_numbered_def Let_def by auto
  have "list_all (\<lambda>(k, c). list_all (\<lambda>(k, l). stat_value now (stat_of l) \<noteq> None) (node_map c)) (take n ?m @ drop n ?m)"
    using n(3,4) unfolding list_all_append by (auto simp: list_all_iff)
  then have a: "list_all (\<lambda>(k, c). list_all (\<lambda>(k, l). stat_value now (stat_of l) \<noteq> None) (node_map c)) ?m" by simp
  have e: "(i < length ?m \<and> j < length (node_map (snd (?m ! i)))
        \<and> map_option fst (stat_value now (stat_of (snd (node_map (snd (?m ! i)) ! j)))) = Some v)
      \<longleftrightarrow> layer_bitrate now st i j = Some v" for i j v
  proof (cases "i < n")
    case True
    then have i: "i < length ?m" using n(1) by simp
    have "map_of (take n ?m) (decimal i) = Some (snd (?m ! i))"
      using map_of_numbered [OF n(2), of i] True n(1) by simp
    then have "map_of (take n ?m @ drop n ?m) (decimal i) = Some (snd (?m ! i))"
      unfolding map_of_append by (rule map_add_find_right)
    then have "map_of ?m (decimal i) = Some (snd (?m ! i))" by simp
    moreover have "numbered (node_map (snd (?m ! i)))"
      using n(3) True i by (auto simp: list_all_length case_prod_beta)
    ultimately show ?thesis
      using i by (simp add: layer_bitrate_def map_of_numbered)
  next
    case False
    have r: "node_map c = []" if "(k, c) \<in> set (drop n ?m)" for k c
      using n(4) that by (auto simp: list_all_iff)
    have "node_map (snd (?m ! i)) = []" if "i < length ?m"
    proof -
      have "?m ! i \<in> set (drop n ?m)" using that False by (auto simp: in_set_conv_nth intro!: exI [of _ "i - n"])
      then show ?thesis using r by (metis prod.collapse)
    qed
    moreover have "layer_bitrate now st i j = None"
    proof -
      have "map_of (take n ?m) (decimal i) = None" using map_of_numbered [OF n(2), of i] False n(1) by simp
      then have "map_of (take n ?m @ drop n ?m) (decimal i) = map_of (drop n ?m) (decimal i)"
        unfolding map_of_append by (simp add: map_add_def)
      then have e: "map_of ?m (decimal i) = map_of (drop n ?m) (decimal i)" by simp
      then show ?thesis
        unfolding layer_bitrate_def e
        by (cases "map_of (drop n ?m) (decimal i)") (auto dest!: map_of_SomeD r)
    qed
    ultimately show ?thesis by auto
  qed
  show ?thesis using layer_values_all [OF a, of 0] unfolding e by simp
qed

text \<open>
  A layer may be sent: it is measured, its bitrate is not 0, and it is less than the estimate, with
  a tenth (as a \<^verbatim>\<open>float\<close>) added to it when going up.
\<close>

definition layer_fits :: "int \<Rightarrow> stat_node \<Rightarrow> u64 \<Rightarrow> bool \<Rightarrow> nat \<Rightarrow> nat \<Rightarrow> bool" where
  "layer_fits now st estimate up s t = (case layer_bitrate now st s t of None \<Rightarrow> False
     | Some v \<Rightarrow> v \<noteq> 0 \<and> (if up then 147639501 / 134217728 else 1) * rat_of_nat (unat v) < rat_of_nat (unat estimate))"

text \<open>
  C23: The choice of a layer. Let the keys of the layers in the tree be the numbers from 0 on in
  their order, their bitrates defined, and no layers forced. Then \<open>selectLayer\<close> leaves the
  current layer the highest one (spatial layers first) whose measured bitrate is not 0 and, with a
  margin of 10% when going up, less than the estimate; without any, it is layer 0/0 and the slide
  show is on. The slide show only ends when the manager tries to go up. When the layer changes,
  padding is on exactly if the new layer is below the highest active one.
\<close>
theorem selected_layer_fits:
  assumes "qm_stats q = Some st" "\<not> forced_layers q" "layers_numbered now st"
  shows "let ok = layer_fits now st (current_estimated_bitrate q) up in \<exists>q'. selectLayer now up q = Some q' \<and> last_quality_check q' = now
    \<and> (if \<exists>s t. ok s t
       then (\<exists>s t. ok s t \<and> spatial_layer q' = int s \<and> temporal_layer q' = int t
              \<and> (\<forall>s' t'. ok s' t' \<longrightarrow> s' < s \<or> s' = s \<and> t' \<le> t))
            \<and> slideshow_mode_active q' = (if up then False else slideshow_mode_active q)
       else spatial_layer q' = 0 \<and> temporal_layer q' = 0 \<and> slideshow_mode_active q')
    \<and> ((spatial_layer q', temporal_layer q') \<noteq> (spatial_layer q, temporal_layer q)
         \<longrightarrow> padding_enabled q' = (\<not> (max_active_spatial_layer q \<le> spatial_layer q'
              \<and> max_active_temporal_layer q \<le> temporal_layer q')))"
proof -
  define ok where "ok = layer_fits now st (current_estimated_bitrate q) up"
  obtain vs where vs: "layer_values now 0 (node_map (qualityLayers st)) = Some vs" "sorted_wrt lex_less vs"
    "\<And>x v. (x, v) \<in> set vs \<longleftrightarrow> (\<exists>s t. x = (int s, int t) \<and> layer_bitrate now st s t = Some v)"
    using layer_bitrate_values [OF assms(3)] by blast
  let ?margin = "if up then kIncreaseLayerBitrateThreshold else 0"
  define ls where "ls = filter (\<lambda>l. fits ?margin (current_estimated_bitrate q) (snd l)) vs"
  have m: "1 + ?margin = (if up then 147639501 / 134217728 else 1)" by (simp add: kIncreaseLayerBitrateThreshold_def)
  have ok: "ok s t \<longleftrightarrow> (\<exists>v. ((int s, int t), v) \<in> set ls)" for s t
    unfolding ok_def layer_fits_def ls_def by (auto simp: vs(3) fits_def m double_of_def split: option.split)
  obtain q' where q': "selectLayer now up q = Some q'"
    "(spatial_layer q', temporal_layer q') = (if ls = [] then (0, 0) else fst (last ls))"
    "slideshow_mode_active q' = (if ls = [] then True else if up then False else slideshow_mode_active q)"
    "last_quality_check q' = now"
    "(spatial_layer q', temporal_layer q') \<noteq> (spatial_layer q, temporal_layer q)
           \<longrightarrow> padding_enabled q' = (\<not> (max_active_spatial_layer q \<le> spatial_layer q'
                \<and> max_active_temporal_layer q \<le> temporal_layer q'))"
    using select_last_fitting [OF assms(1,2) vs(1), of up] unfolding Let_def ls_def by blast
  show ?thesis
  proof (cases "ls = []")
    case True
    then show ?thesis using q' ok unfolding ok_def [symmetric] Let_def by (intro exI [of _ q']) simp
  next
    case False
    obtain s t v where l: "last ls = ((int s, int t), v)"
    proof -
      have "last ls \<in> set vs" using last_in_set [OF False] by (auto simp: ls_def)
      then show ?thesis using vs(3) that by (metis prod.collapse)
    qed
    have "sorted_wrt lex_less (butlast ls @ [last ls])"
      using sorted_wrt_filter [OF vs(2)] False by (simp add: ls_def)
    then have "\<forall>x \<in> set (butlast ls). lex_less x (last ls)" by (simp only: sorted_wrt_append) simp
    moreover have "set ls = insert (last ls) (set (butlast ls))"
      using arg_cong [OF append_butlast_last_id [OF False], of set] by simp
    ultimately have "\<forall>x \<in> set ls. x = last ls \<or> lex_less x (last ls)" by blast
    then have g: "s' < s \<or> s' = s \<and> t' \<le> t" if "ok s' t'" for s' t'
      using that unfolding ok l by (force simp: lex_less_def)
    have o: "ok s t" unfolding ok using l last_in_set [OF False] by metis
    have "spatial_layer q' = int s" "temporal_layer q' = int t" using q'(2) False l by simp_all
    then have "(\<exists>s t. ok s t \<and> spatial_layer q' = int s \<and> temporal_layer q' = int t
              \<and> (\<forall>s' t'. ok s' t' \<longrightarrow> s' < s \<or> s' = s \<and> t' \<le> t))" using o g by blast
    moreover have "\<exists>s t. ok s t" using o by blast
    moreover have "slideshow_mode_active q' = (if up then False else slideshow_mode_active q)" using q'(3) False by simp
    ultimately show ?thesis using q'(1,4,5) unfolding ok_def [symmetric] Let_def by (intro exI [of _ q']) simp
  qed
qed

text \<open>A tree with layers 0 and 1, and their bitrates.\<close>

definition sample_layers :: "(string \<times> (string \<times> u64) list) list \<Rightarrow> u64 \<Rightarrow> stat_node" where
  "sample_layers ls estimate = StatNode Plain
     [(''qualityLayers'', StatNode Plain (map (\<lambda>(s, ts). (s, StatNode Plain
         (map (\<lambda>(t, v). (t, StatNode (CumulativeStat v) [])) ts))) ls)),
      (''total'', StatNode Plain [(''senderBitrateEstimation'', StatNode (CumulativeStat estimate) [])])]"

theorem selected_layer_fits_witness:
  "\<exists>q'. selectLayer 5 True ((new_QualityManager 0)\<lparr>qm_stats := Some (sample_layers [(''0'', [(''0'', 100)]), (''1'', [(''0'', 400), (''1'', 900)])] 800),
       current_estimated_bitrate := 800\<rparr>) = Some q'
    \<and> spatial_layer q' = 1 \<and> temporal_layer q' = 0"
proof -
  let ?st = "sample_layers [(''0'', [(''0'', 100)]), (''1'', [(''0'', 400), (''1'', 900)])] 800"
  let ?q = "(new_QualityManager 0)\<lparr>qm_stats := Some ?st, current_estimated_bitrate := 800\<rparr>"
  have n: "layers_numbered 5 ?st" by code_simp
  have q: "qm_stats ?q = Some ?st" "\<not> forced_layers ?q" "current_estimated_bitrate ?q = 800"
    by (simp_all add: new_QualityManager_def)
  have v: "layer_bitrate 5 ?st 1 0 = Some 400" "layer_bitrate 5 ?st 1 1 = Some 900" by code_simp+
  have d: "decimal n = [CHR ''0''] \<longleftrightarrow> n = 0" "decimal n = [CHR ''1''] \<longleftrightarrow> n = 1" for n
  proof -
    have e: "decimal 0 = [CHR ''0'']" "decimal 1 = [CHR ''1'']" by code_simp+
    show "decimal n = [CHR ''0''] \<longleftrightarrow> n = 0" "decimal n = [CHR ''1''] \<longleftrightarrow> n = 1"
      unfolding e [symmetric] by simp_all
  qed
  have w: "unat (100 :: u64) = 100" "unat (400 :: u64) = 400" "unat (800 :: u64) = 800" "unat (900 :: u64) = 900" by simp_all
  have f: "layer_fits 5 ?st 800 True 1 0" unfolding layer_fits_def v by (simp add: w)
  have k: "s < 1 \<or> s = 1 \<and> t \<le> 1" if "layer_bitrate 5 ?st s t = Some b" for s t b
    using that by (auto simp: layer_bitrate_def sample_layers_def qualityLayers_def child_node_def d split: if_splits)
  have k1: "\<not> layer_fits 5 ?st 800 True 1 1" unfolding layer_fits_def v by (simp add: w)
  have b: "s < 1 \<or> s = 1 \<and> t = 0" if kc: "layer_fits 5 ?st 800 True s t" for s t
  proof -
    obtain x where "layer_bitrate 5 ?st s t = Some x"
      using kc unfolding layer_fits_def by (cases "layer_bitrate 5 ?st s t") simp_all
    then have "s < 1 \<or> s = 1 \<and> t \<le> 1" by (rule k)
    moreover have "\<not> (s = 1 \<and> t = 1)" using kc k1 by blast
    ultimately show ?thesis by linarith
  qed
  from selected_layer_fits [OF q(1,2) n, of True, unfolded q(3) Let_def] f obtain q' s t where
    q': "selectLayer 5 True ?q = Some q'" "layer_fits 5 ?st 800 True s t" "spatial_layer q' = int s" "temporal_layer q' = int t"
      "\<forall>s' t'. layer_fits 5 ?st 800 True s' t' \<longrightarrow> s' < s \<or> s' = s \<and> t' \<le> t"
    by (auto split: if_splits)
  then have "s = 1 \<and> t = 0" using b [OF q'(2)] f by auto
  then show ?thesis using q' by auto
qed

subsection \<open>When it is chosen\<close>

lemma fetch_stats_layers [simp]:
  "spatial_layer (fetch_stats service q) = spatial_layer q" "temporal_layer (fetch_stats service q) = temporal_layer q"
  "forced_layers (fetch_stats service q) = forced_layers q" "last_quality_check (fetch_stats service q) = last_quality_check q"
  "slideshow_mode_active (fetch_stats service q) = slideshow_mode_active q"
  by (simp_all add: fetch_stats_def Let_def split: option.splits)

lemma max_active_kept:
  "max_active_spatial_layer (notifyUpdateToHandlers q) = max_active_spatial_layer q"
  "max_active_spatial_layer (qm_setPadding e q) = max_active_spatial_layer q"
  "setTemporalLayer l q = Some q' \<Longrightarrow> max_active_spatial_layer q' = max_active_spatial_layer q"
  "setSpatialLayer l q = Some q' \<Longrightarrow> max_active_spatial_layer q' = max_active_spatial_layer q"
  by (auto simp: notifyUpdateToHandlers_def qm_setPadding_def setTemporalLayer_def setSpatialLayer_def set_layer_stat_def
      Let_def split: option.splits if_splits)

lemma switch_to_keeps: "switch_to l q = Some q' \<Longrightarrow> max_active_spatial_layer q' = max_active_spatial_layer q"
  by (auto simp: switch_to_def max_active_kept split: prod.splits option.splits if_splits dest!: max_active_kept(3,4))

lemma selectLayer_keeps: "selectLayer now up q = Some q' \<Longrightarrow> max_active_spatial_layer q' = max_active_spatial_layer q"
  by (auto simp: selectLayer_def Let_def update_slideshow_def max_active_kept split: option.splits if_splits
      dest!: switch_to_keeps)

text \<open>
  The layers only change for a reason: when a call of \<open>notifyQualityUpdate\<close> changes the current
  layer, the slide show or the padding, the manager is enabled and no layers are forced, and the last
  check is more than ten seconds ago, or the current spatial layer is above the highest active one, or
  the bitrate of the current layer is above the estimate while the slide show is off.
\<close>
theorem layers_change_for_a_reason:
  assumes "notifyQualityUpdate service now q = Some q'"
    "(spatial_layer q', temporal_layer q', slideshow_mode_active q', padding_enabled q')
       \<noteq> (spatial_layer q, temporal_layer q, slideshow_mode_active q, padding_enabled q)"
    "qm_initialized q" "qm_stats q = Some st" "read_estimate now st = Some (estimate, st1)"
    "getInstantLayerBitrate now (spatial_layer q) (temporal_layer q) (touch_layers st1) = Some current"
  shows "qm_enabled q \<and> \<not> forced_layers q \<and>
    (kMinLayerSwitchInterval < now - last_quality_check q
     \<or> max_active_spatial_layer q' < spatial_layer q
     \<or> estimate < current \<and> \<not> slideshow_mode_active q)"
proof -
  have e: "qm_enabled q" "\<not> forced_layers q"
    using assms(1-3) by (auto simp: notifyQualityUpdate_def Let_def split: if_splits)
  let ?q = "q\<lparr>current_estimated_bitrate := estimate, qm_stats := Some (touch_layers st1)\<rparr>"
  define r where "r = (if now - last_activity_check q > kActiveLayerInterval
    then map_option (\<lambda>q. q\<lparr>last_activity_check := now\<rparr>) (calculateMaxActiveLayer now (touch_layers st1) ?q)
    else Some ?q)"
  have keep: "spatial_layer q1 = spatial_layer q \<and> temporal_layer q1 = temporal_layer q
      \<and> slideshow_mode_active q1 = slideshow_mode_active q \<and> padding_enabled q1 = padding_enabled q
      \<and> last_quality_check q1 = last_quality_check q" if "r = Some q1" for q1
    using that by (auto simp: r_def calculateMaxActiveLayer_def Let_def split: if_splits option.splits)
  have "update_layers now q = Some q'"
    using assms(1,3) e by (simp add: notifyQualityUpdate_def Let_def)
  then obtain q1 where q1: "r = Some q1"
    "(if \<not> spatial_layer q1 \<le> max_active_spatial_layer q1 \<or> estimate < current \<and> \<not> slideshow_mode_active q1
      then selectLayer now False q1
      else if now - last_quality_check q1 > kMinLayerSwitchInterval then selectLayer now True q1 else Some q1) = Some q'"
    by (auto simp: update_layers_def assms(4-6) Let_def r_def split: option.splits)
  with keep [OF q1(1)] selectLayer_keeps [of now _ q1 q'] assms(2) e show ?thesis
    by (auto split: if_splits)
qed

definition too_high :: qualityManager where
  "too_high = (new_QualityManager 0)\<lparr>qm_enabled := True, qm_initialized := True, spatial_layer := 3,
     qm_stats := Some (sample_layers [(''0'', [(''0'', 100), (''1'', 300)])] 800)\<rparr>"

theorem layers_change_for_a_reason_witness:
  "\<exists>q'. notifyQualityUpdate None 5 too_high = Some q' \<and> spatial_layer q' = 0
    \<and> (kMinLayerSwitchInterval < 5 \<or> max_active_spatial_layer q' < 3 \<or> (800 :: u64) < 0)"
proof -
  let ?st = "sample_layers [(''0'', [(''0'', 100), (''1'', 300)])] 800"
  have "map_option spatial_layer (notifyQualityUpdate None 5 too_high) = Some 0" by code_simp
  then obtain q' where q': "notifyQualityUpdate None 5 too_high = Some q'" "spatial_layer q' = 0" by auto
  have s: "qm_initialized too_high" "qm_stats too_high = Some ?st" "spatial_layer too_high = 3" "temporal_layer too_high = 0"
    "last_quality_check too_high = 0" "slideshow_mode_active too_high = False"
    by (simp_all add: too_high_def new_QualityManager_def)
  have "map_option fst (read_estimate 5 ?st) = Some 800" by code_simp
  then obtain st1 where e: "read_estimate 5 ?st = Some (800, st1)" by auto
  have "(case read_estimate 5 ?st of None \<Rightarrow> None | Some (_, st) \<Rightarrow> getInstantLayerBitrate 5 3 0 (touch_layers st)) = Some 0"
    by code_simp
  then have c: "getInstantLayerBitrate 5 (spatial_layer too_high) (temporal_layer too_high) (touch_layers st1) = Some 0"
    by (simp add: e s)
  have "(spatial_layer q', temporal_layer q', slideshow_mode_active q', padding_enabled q')
       \<noteq> (spatial_layer too_high, temporal_layer too_high, slideshow_mode_active too_high, padding_enabled too_high)"
    by (simp add: q' s)
  from layers_change_for_a_reason [OF q'(1) this s(1,2) e c] q' s show ?thesis by auto
qed

text \<open>
  Layers are counted, not read from their keys: with the bitrates of spatial layer 1 only, the layer
  that is selected is 0.
\<close>
lemma position_taken_for_layer:
  "map_option (\<lambda>q. (spatial_layer q, temporal_layer q))
     (selectLayer 5 False ((new_QualityManager 0)\<lparr>qm_stats := Some (sample_layers [(''1'', [(''2'', 100)])] 800),
        current_estimated_bitrate := 800, spatial_layer := 1, temporal_layer := 2\<rparr>)) = Some (0, 0)"
  by code_simp

end
