(* ===== verification/QualityFilter.thy ===== *)
theory QualityFilter
  imports QualityManager SeqTranslatorProps RtpVP8Parser
begin

text \<open>
  \<^verbatim>\<open>rtp/QualityFilterHandler.cpp\<close>: of a stream with several layers the packets of the layers that the
  quality manager has chosen are sent on, renumbered, under one SSRC, with continuous timestamps and
  picture ids. Switching to another spatial layer waits for a key frame of it. The clocks are in
  nanoseconds; \<open>now\<close> is also the time a generated PLI is stamped with.
\<close>

definition kSwitchTimeout :: int where "kSwitchTimeout = 3000000000"

record qualityFilter =
  qf_translator :: translator
  qf_enabled :: bool
  qf_initialized :: bool
  receiving_multiple_ssrc :: bool
  changing_spatial_layer :: bool
  is_scalable :: bool
  target_spatial_layer :: int
  future_spatial_layer :: int
  target_temporal_layer :: int
  qf_video_sink_ssrc :: u32
  qf_video_source_ssrc :: u32
  last_ssrc_received :: u32
  qf_max_video_bw :: u32
  last_timestamp_sent :: u32
  timestamp_offset :: u32
  time_change_started :: int
  picture_id_offset :: int
  last_picture_id_sent :: int

definition new_QualityFilterHandler :: "int \<Rightarrow> qualityFilter" where
  "new_QualityFilterHandler now = \<lparr>qf_translator = new_translator, qf_enabled = True, qf_initialized = False,
     receiving_multiple_ssrc = False, changing_spatial_layer = False, is_scalable = False,
     target_spatial_layer = 0, future_spatial_layer = -1, target_temporal_layer = 0, qf_video_sink_ssrc = 0,
     qf_video_source_ssrc = 0, last_ssrc_received = 0, qf_max_video_bw = 0, last_timestamp_sent = 0,
     timestamp_offset = 0, time_change_started = now, picture_id_offset = 0, last_picture_id_sent = 0\<rparr>"

definition qf_enable :: "qualityFilter \<Rightarrow> qualityFilter" where
  "qf_enable h = h\<lparr>qf_enabled := True\<rparr>"

definition qf_disable :: "qualityFilter \<Rightarrow> qualityFilter" where
  "qf_disable h = h\<lparr>qf_enabled := False\<rparr>"

definition qf_sendPLI :: "int \<Rightarrow> qualityFilter \<Rightarrow> fire" where
  "qf_sendPLI now h = FireRead (createPLI (ms_of now) (qf_video_sink_ssrc h) (qf_video_source_ssrc h))"

text \<open>One PLI for every PLI or SLI block; PLI is tested twice in the source and FIR not at all.\<close>

definition qf_handleFeedbackPackets :: "int \<Rightarrow> dataPacket \<Rightarrow> qualityFilter \<Rightarrow> fire list" where
  "qf_handleFeedbackPackets now packet h =
     snd (forEachRRBlock (\<lambda>p (m, fs). (m,
       if getPacketType m p = RTCP_PS_Feedback_PT \<and>
          (getBlockCount m p = RTCP_PLI_FMT \<or> getBlockCount m p = RTCP_SLI_FMT \<or> getBlockCount m p = RTCP_PLI_FMT)
       then fs @ [qf_sendPLI now h] else fs)) packet [])"

definition qf_read :: "int \<Rightarrow> dataPacket \<Rightarrow> qualityFilter \<Rightarrow> fire list" where
  "qf_read now packet h =
     (if isFeedback (data packet) 0 \<and> qf_enabled h \<and> is_scalable h then qf_handleFeedbackPackets now packet h
      else [FireRead packet])"

definition checkLayers :: "int \<Rightarrow> int \<Rightarrow> int \<Rightarrow> qualityFilter \<Rightarrow> qualityFilter \<times> fire list" where
  "checkLayers now new_spatial_layer new_temporal_layer h =
     (let (h, fs) = (if new_spatial_layer \<noteq> target_spatial_layer h
            then (h\<lparr>future_spatial_layer := new_spatial_layer, changing_spatial_layer := True, time_change_started := now\<rparr>,
                  [qf_sendPLI now h])
            else (h, []))
      in (h\<lparr>target_temporal_layer := new_temporal_layer\<rparr>, fs))"

definition checkSSRCChange :: "u32 \<Rightarrow> qualityFilter \<Rightarrow> bool \<times> qualityFilter" where
  "checkSSRCChange ssrc h = (last_ssrc_received h \<noteq> ssrc, h\<lparr>last_ssrc_received := ssrc\<rparr>)"

definition changeSpatialLayerOnKeyframeReceived :: "int \<Rightarrow> dataPacket \<Rightarrow> qualityFilter \<Rightarrow> qualityFilter \<times> fire list" where
  "changeSpatialLayerOnKeyframeReceived now packet h =
     (if future_spatial_layer h = -1 then (h, [])
      else if belongsToSpatialLayer packet (future_spatial_layer h)
              \<and> belongsToTemporalLayer packet (target_temporal_layer h) \<and> is_keyframe packet
      then (h\<lparr>target_spatial_layer := future_spatial_layer h, future_spatial_layer := -1\<rparr>, [])
      else if now - time_change_started h > kSwitchTimeout
      then (h\<lparr>target_spatial_layer := future_spatial_layer h, future_spatial_layer := -1\<rparr>, [qf_sendPLI now h])
      else (h, []))"

definition detectVideoScalability :: "dataPacket \<Rightarrow> qualityFilter \<Rightarrow> qualityManager \<Rightarrow> qualityFilter \<times> qualityManager" where
  "detectVideoScalability packet h q =
     (if is_scalable h \<or> packet_type packet \<noteq> VIDEO_PACKET then (h, q)
      else if belongsToTemporalLayer packet 1 \<or> belongsToSpatialLayer packet 1
      then (h\<lparr>is_scalable := True\<rparr>, qm_enable q) else (h, q))"

definition updatePictureID :: "dataPacket \<Rightarrow> int \<Rightarrow> dataPacket" where
  "updatePictureID packet pid =
     (if codec packet = ''VP8''
      then let start = getHeaderLength (data packet)
           in packet\<lparr>data := setVP8PictureID start (packet_length packet - int start) pid (data packet)\<rparr>
      else packet)"

text \<open>The offsets after a change of the stream.\<close>

definition start_new_stream :: "u32 \<Rightarrow> int \<Rightarrow> qualityFilter \<Rightarrow> qualityFilter" where
  "start_new_stream new_timestamp pid h =
     (let h = h\<lparr>qf_translator := snt_reset (qf_translator h)\<rparr>;
          h = (if last_timestamp_sent h > 0
               then h\<lparr>timestamp_offset := last_timestamp_sent h - new_timestamp + 1\<rparr> else h)
      in if last_picture_id_sent h > 0 then h\<lparr>picture_id_offset := last_picture_id_sent h - pid + 1\<rparr> else h)"

definition qf_get :: "u16 \<Rightarrow> bool \<Rightarrow> qualityFilter \<Rightarrow> SequenceNumber \<times> qualityFilter" where
  "qf_get n skip h = (let (info, t) = snt_get n skip (qf_translator h) in (info, h\<lparr>qf_translator := t\<rparr>))"

text \<open>The packet as it is sent: marker, SSRC, number, timestamp, picture id.\<close>

definition rewrite_packet :: "dataPacket \<Rightarrow> u16 \<Rightarrow> qualityFilter \<Rightarrow> dataPacket \<times> qualityFilter" where
  "rewrite_packet packet output h =
     (let pid = picture_id packet; new_timestamp = getTimestamp (data packet);
          packet = (if last (compatible_spatial_layers packet) = target_spatial_layer h \<and> ending_of_layer_frame packet
                    then packet\<lparr>data := setMarker 1 (data packet)\<rparr> else packet);
          packet = packet\<lparr>data := setSSRC (qf_video_sink_ssrc h) (data packet)\<rparr>;
          packet = packet\<lparr>data := setSeqNumber output (data packet)\<rparr>;
          h = h\<lparr>last_timestamp_sent := new_timestamp + timestamp_offset h\<rparr>;
          packet = packet\<lparr>data := setTimestamp (last_timestamp_sent h) (data packet)\<rparr>;
          h = h\<lparr>last_picture_id_sent := pid + picture_id_offset h\<rparr>
      in (updatePictureID packet (last_picture_id_sent h), h))"

text \<open>What happens to a packet of the target spatial layer: the packet to send, if any.\<close>

definition forward_packet :: "dataPacket \<Rightarrow> qualityFilter \<Rightarrow> qualityFilter \<times> dataPacket option" where
  "forward_packet packet h =
     (let sequence_number = getSeqNumber (data packet);
          (changed, h) = checkSSRCChange (getSSRC (data packet)) h;
          h = (if changed then start_new_stream (getTimestamp (data packet)) (picture_id packet) h else h)
      in if \<not> belongsToTemporalLayer packet (target_temporal_layer h)
         then (snd (qf_get sequence_number True h), None)
         else let (info, h) = qf_get sequence_number False h
              in if sn_type info \<noteq> Valid then (h, None)
                 else let (packet, h) = rewrite_packet packet (sn_output info) h in (h, Some packet))"

definition filter_packet :: "int \<Rightarrow> dataPacket \<Rightarrow> qualityFilter \<Rightarrow> qualityFilter \<times> fire list" where
  "filter_packet now packet h =
     (let h = (if last_ssrc_received h \<noteq> 0 \<and> getSSRC (data packet) \<noteq> last_ssrc_received h
               then h\<lparr>receiving_multiple_ssrc := True\<rparr> else h);
          (h, fs) = changeSpatialLayerOnKeyframeReceived now packet h
      in if \<not> belongsToSpatialLayer packet (target_spatial_layer h)
         then (if \<not> receiving_multiple_ssrc h then snd (qf_get (getSeqNumber (data packet)) True h) else h, fs)
         else case forward_packet packet h of
             (h, None) \<Rightarrow> (h, fs)
           | (h, Some packet) \<Rightarrow> (h, fs @ [FireWrite packet]))"

definition qf_write :: "int \<Rightarrow> dataPacket \<Rightarrow> qualityFilter \<Rightarrow> qualityManager \<Rightarrow> qualityFilter \<times> qualityManager \<times> fire list" where
  "qf_write now packet h q =
     (let (h, q) = detectVideoScalability packet h q
      in if is_scalable h \<and> \<not> isRtcp (data packet) 0 \<and> qf_enabled h \<and> packet_type packet = VIDEO_PACKET
         then let (h, fs) = checkLayers now (spatial_layer q) (temporal_layer q) h;
                  (h, gs) = filter_packet now packet h
              in (h, q, fs @ gs)
         else (h, q, [FireWrite packet]))"

text \<open>
  What the pipeline answers: the bandwidth of the RTCP processor, the SSRCs of the connection;
  \<open>None\<close> when it has no such service.
\<close>

definition qf_notifyUpdate :: "bool \<Rightarrow> u32 option \<Rightarrow> (u32 \<times> u32) option \<Rightarrow> qualityFilter \<Rightarrow> qualityFilter" where
  "qf_notifyUpdate has_pipeline processor connection h =
     (if \<not> has_pipeline then h else
      let h = (case processor of None \<Rightarrow> h | Some bw \<Rightarrow> h\<lparr>qf_max_video_bw := bw\<rparr>)
      in if qf_initialized h then h
         else case connection of None \<Rightarrow> h
           | Some (sink, source) \<Rightarrow>
               h\<lparr>qf_video_sink_ssrc := sink, qf_video_source_ssrc := source, qf_initialized := True\<rparr>)"

end
