(* ===== verification/Renumbering.thy ===== *)
theory Renumbering
  imports SeqTranslatorProps Media
begin

text \<open>
  What the handlers that renumber a stream have in common: for each packet they run some operations of
  their translator and put out the numbers it gives. The interface \<open>renumbering\<close> states that; inside
  it, once for all handlers, a stream without losses leaves with consecutive numbers.
\<close>

lemma snt_run_append:
  "snt_run (xs @ ys) t = (fst (snt_run xs t) @ fst (snt_run ys (snd (snt_run xs t))), snd (snt_run ys (snd (snt_run xs t))))"
  by (induction xs arbitrary: t) (simp_all add: snt_run_Cons)

lemma paced_append:
  assumes "snt_inv t" "paced (xs @ ys) (last_input_sequence_number t) (unat (offset t))"
  shows "paced xs (last_input_sequence_number t) (unat (offset t))"
    "snt_inv (snd (snt_run xs t))"
    "paced ys (last_input_sequence_number (snd (snt_run xs t))) (unat (offset (snd (snt_run xs t))))"
  using assms
proof (induction xs arbitrary: t)
  case (Cons p xs)
  {
    case 1
    have "paced (zs @ ys) l g \<Longrightarrow> paced zs l g" for zs l g
    proof (induction zs arbitrary: l g)
      case (Cons q zs)
      then show ?case by (cases q) simp_all
    qed simp
    then show ?case using 1(2) by blast
  next
    case 2
    note n = paced_next [OF 2(1) 2(2) [unfolded append_Cons]]
    show ?case using Cons.IH(2) [OF n(1,4)] by (simp add: snt_run_Cons)
  next
    case 3
    note n = paced_next [OF 3(1) 3(2) [unfolded append_Cons]]
    show ?case using Cons.IH(3) [OF n(1,4)] by (simp add: snt_run_Cons)
  }
qed simp_all

text \<open>A run of a handler: the numbers it puts out, and the operations of its translator.\<close>

fun run_numbers :: "('p \<Rightarrow> 's \<Rightarrow> 's \<times> u16 list) \<Rightarrow> 'p list \<Rightarrow> 's \<Rightarrow> u16 list" where
  "run_numbers step [] s = []"
| "run_numbers step (p # ps) s = snd (step p s) @ run_numbers step ps (fst (step p s))"

fun run_ops :: "('p \<Rightarrow> 's \<Rightarrow> 's \<times> u16 list) \<Rightarrow> ('p \<Rightarrow> 's \<Rightarrow> snt_op list) \<Rightarrow> 'p list \<Rightarrow> 's \<Rightarrow> snt_op list" where
  "run_ops step ops [] s = []"
| "run_ops step ops (p # ps) s = ops p s @ run_ops step ops ps (fst (step p s))"

locale renumbering =
  fixes step :: "'p \<Rightarrow> 's \<Rightarrow> 's \<times> u16 list"
    and ops :: "'p \<Rightarrow> 's \<Rightarrow> snt_op list"
    and tr :: "'s \<Rightarrow> translator"
    and ok :: "'s \<Rightarrow> bool"
    and valid :: "'p \<Rightarrow> bool"
  assumes ok_step: "ok s \<Longrightarrow> valid p \<Longrightarrow> ok (fst (step p s))"
    and tr_step: "ok s \<Longrightarrow> valid p \<Longrightarrow> snt_inv (tr s)
      \<Longrightarrow> paced (ops p s) (last_input_sequence_number (tr s)) (unat (offset (tr s)))
      \<Longrightarrow> tr (fst (step p s)) = snd (snt_run (ops p s) (tr s))
        \<and> snd (step p s) = map sn_output (filter sent (fst (snt_run (ops p s) (tr s))))"
begin

lemma numbers_of_run:
  assumes "ok s" "list_all valid ps" "snt_inv (tr s)"
    "paced (run_ops step ops ps s) (last_input_sequence_number (tr s)) (unat (offset (tr s)))"
  shows "run_numbers step ps s = map sn_output (filter sent (fst (snt_run (run_ops step ops ps s) (tr s))))"
  using assms
proof (induction ps arbitrary: s)
  case (Cons p ps)
  have v: "valid p" "list_all valid ps" using Cons.prems(2) by simp_all
  have pc: "paced (ops p s @ run_ops step ops ps (fst (step p s))) (last_input_sequence_number (tr s)) (unat (offset (tr s)))"
    using Cons.prems(4) by simp
  note a = paced_append [OF Cons.prems(3) pc]
  note t = tr_step [OF Cons.prems(1) v(1) Cons.prems(3) a(1)]
  have "run_numbers step ps (fst (step p s))
      = map sn_output (filter sent (fst (snt_run (run_ops step ops ps (fst (step p s))) (tr (fst (step p s))))))"
    using Cons.IH [OF ok_step [OF Cons.prems(1) v(1)] v(2)] a(2,3) t by simp
  then show ?case using t by (simp add: snt_run_append)
qed simp

lemma numbers_consecutive:
  assumes "ok s" "list_all valid ps" "snt_inv (tr s)"
    "paced (run_ops step ops ps s) (last_input_sequence_number (tr s)) (unat (offset (tr s)))"
  shows "run_numbers step ps s = map (\<lambda>k. last_output_sequence_number (tr s) + offset (tr s) + 1 + of_nat k)
    [0..<length (filter uses_number (run_ops step ops ps s))]"
  using numbers_of_run [OF assms] no_gaps [OF assms(3,4)] by simp

end

text \<open>For one packet, one operation: what its number is, and that it is put out exactly when it is not skipped.\<close>

lemma snt_run_one:
  assumes "snt_inv t" "paced [Packet n skip] (last_input_sequence_number t) (unat (offset t))"
  shows "sent (fst (snt_get n skip t)) = (\<not> skip \<and> sn_type (fst (snt_get n skip t)) = Valid)"
    "map sn_output (filter sent (fst (snt_run [Packet n skip] t)))
       = (if \<not> skip \<and> sn_type (fst (snt_get n skip t)) = Valid then [sn_output (fst (snt_get n skip t))] else [])"
    "snd (snt_run [Packet n skip] t) = snd (snt_get n skip t)"
proof -
  have w: "in_window (Packet n skip) (counter_of t)"
    using assms(2) paced_in_window [of "Packet n skip" "[]" "counter_of t"] by (simp add: counter_of_def)
  have d: "0 < seq_dist (last_input_sequence_number t) n" "seq_dist (last_input_sequence_number t) n < 4096"
    using w by (auto simp: counter_of_def)
  show s: "sent (fst (snt_get n skip t)) = (\<not> skip \<and> sn_type (fst (snt_get n skip t)) = Valid)"
    using snt_get_ahead_spec(1) [OF assms(1) d, of skip] by (cases skip) (simp_all add: sent_def)
  show "map sn_output (filter sent (fst (snt_run [Packet n skip] t)))
       = (if \<not> skip \<and> sn_type (fst (snt_get n skip t)) = Valid then [sn_output (fst (snt_get n skip t))] else [])"
    using s by (cases skip) (simp_all add: snt_run_Cons)
  show "snd (snt_run [Packet n skip] t) = snd (snt_get n skip t)" by (simp add: snt_run_Cons)
qed

text \<open>Numbers generated in a row.\<close>

abbreviation generates :: "nat \<Rightarrow> translator \<Rightarrow> SequenceNumber list \<times> translator" where
  "generates k t \<equiv> snt_run (replicate k Generate) t"

lemma generates_sent: "filter sent (fst (generates k t)) = fst (generates k t)"
  by (induction k arbitrary: t) (simp_all add: snt_run_Cons snt_generate_def Let_def sent_def)

lemma paced_generates: "g + k < 4096 \<Longrightarrow> paced (replicate k Generate @ ops) l g = paced ops l (g + k)"
  by (induction k arbitrary: g) simp_all

lemma snt_get_ahead_valid:
  assumes "snt_inv t" "paced [Packet n False] (last_input_sequence_number t) (unat (offset t))"
  shows "sn_type (fst (snt_get n False t)) = Valid"
proof -
  have "in_window (Packet n False) (counter_of t)"
    using assms(2) paced_in_window [of "Packet n False" "[]" "counter_of t"] by (simp add: counter_of_def)
  then have "0 < seq_dist (last_input_sequence_number t) n" "seq_dist (last_input_sequence_number t) n < 4096"
    by (auto simp: counter_of_def)
  from snt_get_ahead_spec(1) [OF assms(1) this, of False] show ?thesis by simp
qed

text \<open>The packets that go out.\<close>

primrec written :: "fire list \<Rightarrow> dataPacket list" where
  "written [] = []"
| "written (f # fs) = (case f of FireWrite p \<Rightarrow> p # written fs | FireRead _ \<Rightarrow> written fs)"

lemma written_append [simp]: "written (fs @ gs) = written fs @ written gs"
  by (induction fs) (auto split: fire.splits)

end
