(* ===== verification/QualityFilterProps.thy ===== *)
theory QualityFilterProps
  imports QualityFilter Renumbering
begin

text \<open>
  The quality filter sends only packets of the layers chosen, numbers them without gaps whichever it
  drops, and goes on with number, timestamp and picture id when the stream is switched.
\<close>

lemma written_PLI [simp]: "written (qf_sendPLI now h # fs) = written fs"
  by (simp add: qf_sendPLI_def)

lemma setVP8PictureID_before: "i \<le> start \<Longrightarrow> setVP8PictureID start len pid m i = m i"
  by (simp add: setVP8PictureID_def Let_def store8_def)

lemma header_after_picture_id [simp]:
  assumes "12 \<le> start"
  shows "getSSRC (setVP8PictureID start len pid m) = getSSRC m"
    "getSeqNumber (setVP8PictureID start len pid m) = getSeqNumber m"
    "getTimestamp (setVP8PictureID start len pid m) = getTimestamp m"
    "getMarker (setVP8PictureID start len pid m) = getMarker m"
  using assms by (simp_all add: getSSRC_def getSeqNumber_def getTimestamp_def getMarker_def load32_def load16_def
      setVP8PictureID_before)

lemma getHeaderLength_min [simp]: "12 \<le> getHeaderLength m"
  by (simp add: getHeaderLength_def rtp_MIN_SIZE_def)

lemma rewrite_packet_spec:
  assumes "rewrite_packet packet output h = (p, h')"
  shows "getSSRC (data p) = qf_video_sink_ssrc h" "getSeqNumber (data p) = output"
    "getTimestamp (data p) = getTimestamp (data packet) + timestamp_offset h"
    "h' = h\<lparr>last_timestamp_sent := getTimestamp (data packet) + timestamp_offset h,
            last_picture_id_sent := picture_id packet + picture_id_offset h\<rparr>"
  using assms by (auto simp: rewrite_packet_def updatePictureID_def Let_def)

subsection \<open>Only the chosen layers\<close>

definition filtered :: "dataPacket \<Rightarrow> bool" where
  "filtered packet \<longleftrightarrow> \<not> isRtcp (data packet) 0 \<and> packet_type packet = VIDEO_PACKET"

lemma change_written [simp]: "written (snd (changeSpatialLayerOnKeyframeReceived now packet h)) = []"
  by (simp add: changeSpatialLayerOnKeyframeReceived_def qf_sendPLI_def)

lemma change_keeps [simp]:
  "qf_video_sink_ssrc (fst (changeSpatialLayerOnKeyframeReceived now packet h)) = qf_video_sink_ssrc h"
  "target_temporal_layer (fst (changeSpatialLayerOnKeyframeReceived now packet h)) = target_temporal_layer h"
  by (simp_all add: changeSpatialLayerOnKeyframeReceived_def)

lemma start_keeps [simp]:
  "target_spatial_layer (start_new_stream ts pid h) = target_spatial_layer h"
  "target_temporal_layer (start_new_stream ts pid h) = target_temporal_layer h"
  "qf_video_sink_ssrc (start_new_stream ts pid h) = qf_video_sink_ssrc h"
  by (simp_all add: start_new_stream_def Let_def)

lemma qf_get_keeps [simp]:
  "target_spatial_layer (snd (qf_get n skip h)) = target_spatial_layer h"
  "target_temporal_layer (snd (qf_get n skip h)) = target_temporal_layer h"
  "qf_video_sink_ssrc (snd (qf_get n skip h)) = qf_video_sink_ssrc h"
  "timestamp_offset (snd (qf_get n skip h)) = timestamp_offset h"
  "future_spatial_layer (snd (qf_get n skip h)) = future_spatial_layer h"
  by (simp_all add: qf_get_def case_prod_beta)

lemma forward_packet_spec:
  assumes "forward_packet packet h = (h', r)"
  shows "target_spatial_layer h' = target_spatial_layer h" "target_temporal_layer h' = target_temporal_layer h"
    "r = Some p \<Longrightarrow> belongsToTemporalLayer packet (target_temporal_layer h) \<and> getSSRC (data p) = qf_video_sink_ssrc h"
  using assms
  by (auto simp: forward_packet_def checkSSRCChange_def Let_def case_prod_beta rewrite_packet_spec [OF prod.collapse [symmetric]]
      split: if_splits)

lemma forward_packet_future: "forward_packet packet h = (h', r) \<Longrightarrow> future_spatial_layer h' = future_spatial_layer h"
  by (auto simp: forward_packet_def checkSSRCChange_def start_new_stream_def qf_get_def Let_def case_prod_beta
      rewrite_packet_spec(4) [OF prod.collapse [symmetric]] split: if_splits)

lemma filter_packet_written:
  assumes "filter_packet now packet h = (h', fs)" "p \<in> set (written fs)"
  shows "belongsToSpatialLayer packet (target_spatial_layer h') \<and> belongsToTemporalLayer packet (target_temporal_layer h')
    \<and> getSSRC (data p) = qf_video_sink_ssrc h \<and> target_temporal_layer h' = target_temporal_layer h
    \<and> target_spatial_layer h' \<in> {target_spatial_layer h, future_spatial_layer h}"
proof -
  define h1 where "h1 = (if last_ssrc_received h \<noteq> 0 \<and> getSSRC (data packet) \<noteq> last_ssrc_received h
               then h\<lparr>receiving_multiple_ssrc := True\<rparr> else h)"
  obtain h2 gs where c: "changeSpatialLayerOnKeyframeReceived now packet h1 = (h2, gs)"
    by (cases "changeSpatialLayerOnKeyframeReceived now packet h1")
  then have k: "written gs = []" "qf_video_sink_ssrc h2 = qf_video_sink_ssrc h" "target_temporal_layer h2 = target_temporal_layer h"
    using change_written [of now packet h1] change_keeps [of now packet h1] by (simp_all add: h1_def)
  have t: "target_spatial_layer h2 \<in> {target_spatial_layer h, future_spatial_layer h}"
    using c by (auto simp: changeSpatialLayerOnKeyframeReceived_def h1_def split: if_splits)
  obtain h3 r where f: "forward_packet packet h2 = (h3, r)" by (cases "forward_packet packet h2")
  show ?thesis
    using assms k t forward_packet_spec [OF f]
    by (auto simp: filter_packet_def Let_def h1_def [symmetric] c f split: if_splits option.splits)
qed

lemma checkLayers_spec:
  assumes "checkLayers now s t h = (h', fs)"
  shows "written fs = []" "target_temporal_layer h' = t" "qf_video_sink_ssrc h' = qf_video_sink_ssrc h"
    "target_spatial_layer h' = target_spatial_layer h" "future_spatial_layer h' \<in> {future_spatial_layer h, s}"
  using assms by (auto simp: checkLayers_def Let_def qf_sendPLI_def split: if_splits prod.splits)

text \<open>
  What happens to a filter: packets to write, each with the manager as it is then, its switches, and
  notifications of the pipeline.
\<close>

datatype qf_event = QfWrite int dataPacket qualityManager | QfEnable | QfDisable
  | QfNotify bool "u32 option" "(u32 \<times> u32) option"

fun qf_step :: "qf_event \<Rightarrow> qualityFilter \<Rightarrow> qualityFilter" where
  "qf_step (QfWrite now packet q) h = fst (qf_write now packet h q)"
| "qf_step QfEnable h = qf_enable h"
| "qf_step QfDisable h = qf_disable h"
| "qf_step (QfNotify has_pipeline processor connection) h = qf_notifyUpdate has_pipeline processor connection h"

fun layers_asked :: "qf_event list \<Rightarrow> int set" where
  "layers_asked [] = {}"
| "layers_asked (e # es) = (case e of QfWrite now packet q \<Rightarrow> {spatial_layer q} | _ \<Rightarrow> {}) \<union> layers_asked es"

lemma detect_keeps:
  "detectVideoScalability packet h q = (h', q') \<Longrightarrow> h' = h\<lparr>is_scalable := is_scalable h'\<rparr>
     \<and> spatial_layer q' = spatial_layer q \<and> temporal_layer q' = temporal_layer q"
  by (auto simp: detectVideoScalability_def qm_enable_def Let_def split: if_splits)

lemma filter_packet_layers:
  assumes "filter_packet now packet h = (h', fs)"
  shows "(target_spatial_layer h', future_spatial_layer h') = (target_spatial_layer h, future_spatial_layer h)
    \<or> target_spatial_layer h' = future_spatial_layer h \<and> future_spatial_layer h' = -1 \<and> future_spatial_layer h \<noteq> -1
      \<and> (is_keyframe packet \<or> 3000000000 < now - time_change_started h)"
proof -
  define h1 where "h1 = (if last_ssrc_received h \<noteq> 0 \<and> getSSRC (data packet) \<noteq> last_ssrc_received h
               then h\<lparr>receiving_multiple_ssrc := True\<rparr> else h)"
  have h1: "target_spatial_layer h1 = target_spatial_layer h" "future_spatial_layer h1 = future_spatial_layer h"
    "time_change_started h1 = time_change_started h" by (simp_all add: h1_def)
  obtain h2 gs where c: "changeSpatialLayerOnKeyframeReceived now packet h1 = (h2, gs)"
    by (cases "changeSpatialLayerOnKeyframeReceived now packet h1")
  have t: "(target_spatial_layer h2, future_spatial_layer h2) = (target_spatial_layer h, future_spatial_layer h)
    \<or> target_spatial_layer h2 = future_spatial_layer h \<and> future_spatial_layer h2 = -1 \<and> future_spatial_layer h \<noteq> -1
      \<and> (is_keyframe packet \<or> 3000000000 < now - time_change_started h)"
  proof -
    have "h2 = fst (changeSpatialLayerOnKeyframeReceived now packet h1)" using c by simp
    then show ?thesis by (simp add: changeSpatialLayerOnKeyframeReceived_def h1 kSwitchTimeout_def)
  qed
  obtain h3 r where f: "forward_packet packet h2 = (h3, r)" by (cases "forward_packet packet h2")
  have "target_spatial_layer h' = target_spatial_layer h2 \<and> future_spatial_layer h' = future_spatial_layer h2"
    using assms forward_packet_spec(1) [OF f] forward_packet_future [OF f]
    by (auto simp: filter_packet_def Let_def h1_def [symmetric] c f split: if_splits option.splits)
  then show ?thesis using t by simp
qed

lemma qf_write_layers:
  assumes "qf_write now packet h q = (h', q', fs)"
  shows "(target_spatial_layer h', future_spatial_layer h') = (target_spatial_layer h, future_spatial_layer h)
    \<or> target_spatial_layer h' = target_spatial_layer h \<and> future_spatial_layer h' = spatial_layer q
    \<or> future_spatial_layer h' = -1 \<and> target_spatial_layer h' \<in> {future_spatial_layer h, spatial_layer q} - {-1}
      \<and> (is_keyframe packet \<or> spatial_layer q = target_spatial_layer h \<and> 3000000000 < now - time_change_started h)"
proof -
  obtain h1 q1 where d: "detectVideoScalability packet h q = (h1, q1)" by (cases "detectVideoScalability packet h q")
  note k = detect_keeps [OF d]
  obtain h2 gs where c: "checkLayers now (spatial_layer q1) (temporal_layer q1) h1 = (h2, gs)"
    by (cases "checkLayers now (spatial_layer q1) (temporal_layer q1) h1")
  obtain h3 ks where f: "filter_packet now packet h2 = (h3, ks)" by (cases "filter_packet now packet h2")
  have h1: "target_spatial_layer h1 = target_spatial_layer h" "future_spatial_layer h1 = future_spatial_layer h"
    "time_change_started h1 = time_change_started h"
    using k by (metis qualityFilter.select_convs qualityFilter.surjective qualityFilter.update_convs(6))+
  have h2: "target_spatial_layer h2 = target_spatial_layer h"
    "if spatial_layer q \<noteq> target_spatial_layer h then future_spatial_layer h2 = spatial_layer q \<and> time_change_started h2 = now
     else future_spatial_layer h2 = future_spatial_layer h \<and> time_change_started h2 = time_change_started h"
    using c k h1 by (auto simp: checkLayers_def Let_def split: if_splits)
  have "h' = h1 \<or> h' = h3" using assms by (auto simp: qf_write_def d c f split: if_splits)
  then show ?thesis
    using filter_packet_layers [OF f] h1 h2 by (auto split: if_splits)
qed

definition within_asked :: "int set \<Rightarrow> qualityFilter \<Rightarrow> bool" where
  "within_asked A h \<longleftrightarrow> target_spatial_layer h \<in> A \<and> (future_spatial_layer h = -1 \<or> future_spatial_layer h \<in> A)"

lemma qf_step_within: "within_asked A h \<Longrightarrow> within_asked (A \<union> layers_asked [e]) (qf_step e h)"
proof (cases e)
  case (QfWrite now packet q)
  assume a: "within_asked A h"
  obtain h' q' fs where w: "qf_write now packet h q = (h', q', fs)" by (metis prod_cases3)
  show ?thesis using qf_write_layers [OF w] a by (auto simp: QfWrite w within_asked_def)
qed (auto simp: within_asked_def qf_enable_def qf_disable_def qf_notifyUpdate_def Let_def split: option.splits)

lemma qf_run_within: "within_asked A h \<Longrightarrow> within_asked (A \<union> layers_asked es) (fold qf_step es h)"
proof (induction es arbitrary: A h)
  case (Cons e es)
  then show ?case using Cons.IH [OF qf_step_within [OF Cons.prems, of e]] by (simp add: Un_assoc)
qed simp

text \<open>
  C24: Once a stream has layers, an enabled filter sends only packets of the layers chosen. After any
  run from the constructor, a packet that is sent belongs to the spatial layer the filter is at
  and to the temporal layer the manager asks for now, and bears the SSRC of the sink. The spatial
  layer is 0, or one the manager asks for now or asked for in the run; it is the one before, or the
  packet is a key frame, or the filter has waited for more than three seconds and the manager asks for the old layer.
  (That an older request is followed after the manager withdrew it is shown below.)
\<close>
theorem only_chosen_layers_are_sent:
  assumes "h = fold qf_step es (new_QualityFilterHandler started)"
    "qf_write now packet h q = (h', q', fs)" "p \<in> set (written fs)" "filtered packet" "qf_enabled h" "is_scalable h'"
  shows "belongsToSpatialLayer packet (target_spatial_layer h')
    \<and> belongsToTemporalLayer packet (temporal_layer q)
    \<and> getSSRC (data p) = qf_video_sink_ssrc h
    \<and> target_spatial_layer h' \<in> {0, spatial_layer q} \<union> layers_asked es
    \<and> (target_spatial_layer h' = target_spatial_layer h \<or> is_keyframe packet
       \<or> spatial_layer q = target_spatial_layer h \<and> 3000000000 < now - time_change_started h)"
proof -
  obtain h1 q1 where d: "detectVideoScalability packet h q = (h1, q1)" by (cases "detectVideoScalability packet h q")
  note k = detect_keeps [OF d]
  obtain h2 gs where c: "checkLayers now (spatial_layer q1) (temporal_layer q1) h1 = (h2, gs)"
    by (cases "checkLayers now (spatial_layer q1) (temporal_layer q1) h1")
  obtain h3 ks where f: "filter_packet now packet h2 = (h3, ks)" by (cases "filter_packet now packet h2")
  have h1: "qf_enabled h1 = qf_enabled h" "qf_video_sink_ssrc h1 = qf_video_sink_ssrc h"
    using k by (metis qualityFilter.select_convs qualityFilter.surjective qualityFilter.update_convs(6))+
  have "is_scalable h1"
    using assms(2,6) by (auto simp: qf_write_def d c f split: if_splits)
  then have fs: "h' = h3" "fs = gs @ ks"
    using assms(2,4,5) h1 by (auto simp: qf_write_def d c f filtered_def)
  note l = checkLayers_spec [OF c]
  have p: "p \<in> set (written ks)" using assms(3) l(1) by (simp add: fs)
  have "within_asked {0} (new_QualityFilterHandler started)" by (simp add: within_asked_def new_QualityFilterHandler_def)
  from qf_run_within [OF this, of es] have "within_asked ({0} \<union> layers_asked es) h" by (simp only: assms(1))
  then have "target_spatial_layer h' \<in> {0, spatial_layer q} \<union> layers_asked es"
    using qf_write_layers [OF assms(2)] by (auto simp: within_asked_def)
  then show ?thesis
    using filter_packet_written [OF f p] l fs k h1 qf_write_layers [OF assms(2)] by auto
qed

subsection \<open>No gaps\<close>

text \<open>The filter at a settled layer, and one stream through it.\<close>

type_synonym qf_state = "qualityFilter \<times> qualityManager"

definition qf_numbers :: "int \<times> dataPacket \<Rightarrow> qf_state \<Rightarrow> qf_state \<times> u16 list" where
  "qf_numbers e s = (case e of (now, packet) \<Rightarrow> case s of (h, q) \<Rightarrow> case qf_write now packet h q of
     (h, q, fs) \<Rightarrow> ((h, q), map (\<lambda>p. getSeqNumber (data p)) (written fs)))"

definition wanted :: "qualityManager \<Rightarrow> dataPacket \<Rightarrow> bool" where
  "wanted q packet \<longleftrightarrow> belongsToSpatialLayer packet (spatial_layer q) \<and> belongsToTemporalLayer packet (temporal_layer q)"

definition qf_ops :: "int \<times> dataPacket \<Rightarrow> qf_state \<Rightarrow> snt_op list" where
  "qf_ops e s = [Packet (getSeqNumber (data (snd e))) (\<not> wanted (snd s) (snd e))]"

definition settled :: "u32 \<Rightarrow> qf_state \<Rightarrow> bool" where
  "settled ssrc s = (case s of (h, q) \<Rightarrow> is_scalable h \<and> qf_enabled h \<and> future_spatial_layer h = -1
     \<and> target_spatial_layer h = spatial_layer q \<and> last_ssrc_received h = ssrc \<and> \<not> receiving_multiple_ssrc h)"

definition of_stream :: "u32 \<Rightarrow> int \<times> dataPacket \<Rightarrow> bool" where
  "of_stream ssrc e \<longleftrightarrow> filtered (snd e) \<and> getSSRC (data (snd e)) = ssrc"

lemma qf_settled_step:
  assumes "settled ssrc (h, q)" "of_stream ssrc (now, packet)"
  defines "n \<equiv> getSeqNumber (data packet)" and "t \<equiv> qf_translator h"
  shows "settled ssrc (fst (qf_numbers (now, packet) (h, q)))"
    "snd (fst (qf_numbers (now, packet) (h, q))) = q"
    "qf_translator (fst (fst (qf_numbers (now, packet) (h, q)))) = snd (snt_get n (\<not> wanted q packet) t)"
    "snd (qf_numbers (now, packet) (h, q))
      = (if wanted q packet \<and> sn_type (fst (snt_get n False t)) = Valid then [sn_output (fst (snt_get n False t))] else [])"
proof -
  have s: "is_scalable h" "qf_enabled h" "future_spatial_layer h = -1" "target_spatial_layer h = spatial_layer q"
    "last_ssrc_received h = ssrc" "\<not> receiving_multiple_ssrc h"
    using assms(1) by (simp_all add: settled_def)
  have p: "\<not> isRtcp (data packet) 0" "packet_type packet = VIDEO_PACKET" "getSSRC (data packet) = ssrc"
    using assms(2) by (simp_all add: of_stream_def filtered_def)
  let ?h = "h\<lparr>target_temporal_layer := temporal_layer q\<rparr>"
  have w: "qf_write now packet h q = (let (h, gs) = filter_packet now packet ?h in (h, q, gs))"
    by (simp add: qf_write_def detectVideoScalability_def checkLayers_def s p)
  have f: "filter_packet now packet ?h = (if \<not> belongsToSpatialLayer packet (spatial_layer q) then (snd (qf_get n True ?h), [])
      else case forward_packet packet ?h of (h, None) \<Rightarrow> (h, []) | (h, Some packet) \<Rightarrow> (h, [FireWrite packet]))"
    by (simp add: filter_packet_def changeSpatialLayerOnKeyframeReceived_def s p n_def)
  have g: "forward_packet packet ?h = (if \<not> belongsToTemporalLayer packet (temporal_layer q)
      then (snd (qf_get n True (?h\<lparr>last_ssrc_received := ssrc\<rparr>)), None)
      else let (info, h) = qf_get n False (?h\<lparr>last_ssrc_received := ssrc\<rparr>)
           in if sn_type info \<noteq> Valid then (h, None)
              else let (packet, h) = rewrite_packet packet (sn_output info) h in (h, Some packet))"
    by (simp add: forward_packet_def checkSSRCChange_def s p n_def)
  let ?r = "qf_write now packet h q"
  have r: "settled ssrc (fst ?r, fst (snd ?r)) \<and> fst (snd ?r) = q \<and> qf_translator (fst ?r) = snd (snt_get n (\<not> wanted q packet) t)
    \<and> map (\<lambda>p. getSeqNumber (data p)) (written (snd (snd ?r)))
      = (if wanted q packet \<and> sn_type (fst (snt_get n False t)) = Valid then [sn_output (fst (snt_get n False t))] else [])"
  proof (cases "wanted q packet")
    case False
    then show ?thesis
      using s by (auto simp: w f g wanted_def qf_get_def settled_def case_prod_beta t_def Let_def)
  next
    case True
    obtain info t' where get: "snt_get n False t = (info, t')" by (cases "snt_get n False t")
    have q: "qf_get n False (?h\<lparr>last_ssrc_received := ssrc\<rparr>) = (info, ?h\<lparr>last_ssrc_received := ssrc, qf_translator := t'\<rparr>)"
      using get by (simp add: qf_get_def t_def)
    obtain p' h' where rw: "rewrite_packet packet (sn_output info) (?h\<lparr>last_ssrc_received := ssrc, qf_translator := t'\<rparr>) = (p', h')"
      by (cases "rewrite_packet packet (sn_output info) (?h\<lparr>last_ssrc_received := ssrc, qf_translator := t'\<rparr>)")
    show ?thesis
      using True s rewrite_packet_spec(2,4) [OF rw]
      by (simp add: w f g wanted_def q rw settled_def Let_def get)
  qed
  show "settled ssrc (fst (qf_numbers (now, packet) (h, q)))"
    "snd (fst (qf_numbers (now, packet) (h, q))) = q"
    "qf_translator (fst (fst (qf_numbers (now, packet) (h, q)))) = snd (snt_get n (\<not> wanted q packet) t)"
    "snd (qf_numbers (now, packet) (h, q))
      = (if wanted q packet \<and> sn_type (fst (snt_get n False t)) = Valid then [sn_output (fst (snt_get n False t))] else [])"
    using r [THEN conjunct1] r by (simp_all add: qf_numbers_def case_prod_beta)
qed

interpretation qf: renumbering qf_numbers qf_ops "\<lambda>s. qf_translator (fst s)" "settled ssrc" "of_stream ssrc" for ssrc
proof
  fix s :: qf_state and e :: "int \<times> dataPacket" and ssrc
  obtain h q now packet where s: "s = (h, q)" "e = (now, packet)" by (cases s, cases e) blast
  assume a: "settled ssrc s" "of_stream ssrc e"
  note r = qf_settled_step [OF a [unfolded s]]
  show "settled ssrc (fst (qf_numbers e s))" using r(1) by (simp add: s)
  assume "snt_inv (qf_translator (fst s))"
    "paced (qf_ops e s) (last_input_sequence_number (qf_translator (fst s))) (unat (offset (qf_translator (fst s))))"
  then have i: "snt_inv (qf_translator h)"
    "paced [Packet (getSeqNumber (data packet)) (\<not> wanted q packet)] (last_input_sequence_number (qf_translator h)) (unat (offset (qf_translator h)))"
    by (simp_all add: s qf_ops_def)
  show "qf_translator (fst (fst (qf_numbers e s))) = snd (snt_run (qf_ops e s) (qf_translator (fst s)))
    \<and> snd (qf_numbers e s) = map sn_output (filter sent (fst (snt_run (qf_ops e s) (qf_translator (fst s)))))"
    using r(3,4) snt_run_one(2,3) [OF i] by (cases "wanted q packet") (simp_all add: s qf_ops_def)
qed

lemma qf_run_ops:
  assumes "settled ssrc (h, q)" "list_all (of_stream ssrc) es"
  shows "run_ops qf_numbers qf_ops es (h, q) = map (\<lambda>e. Packet (getSeqNumber (data (snd e))) (\<not> wanted q (snd e))) es"
  using assms
proof (induction es arbitrary: h)
  case (Cons e es)
  obtain now packet where e: "e = (now, packet)" by (cases e)
  have v: "of_stream ssrc (now, packet)" "list_all (of_stream ssrc) es" using Cons.prems(2) by (simp_all add: e)
  note r = qf_settled_step [OF Cons.prems(1) v(1)]
  obtain h' where h': "fst (qf_numbers (now, packet) (h, q)) = (h', q)"
    using r(2) by (cases "fst (qf_numbers (now, packet) (h, q))") simp
  have "settled ssrc (h', q)" using r(1) by (simp add: h')
  from Cons.IH [OF this v(2)] show ?case by (simp add: e qf_ops_def h')
qed simp

text \<open>
  C25: The packets of a stream that the filter sends are numbered consecutively, whichever of its
  packets belong to other layers and are dropped, and however long it is. It is stated for a stream
  received without losses and in order, with one SSRC, the only
  one received so far, by an enabled filter that is settled: the stream has layers, the filter is
  at the layers the manager asks for, no switch is pending, and the manager keeps them. (The
  hypothesis \<open>paced\<close> says that each packet is the successor of the one before, and that the offset
  of the translator is below 4095 at the start.)
\<close>
theorem filtered_stream_has_no_gaps:
  assumes "settled ssrc (h, q)" "list_all (of_stream ssrc) es" "snt_inv (qf_translator h)"
    "paced (map (\<lambda>e. Packet (getSeqNumber (data (snd e))) (\<not> wanted q (snd e))) es)
       (last_input_sequence_number (qf_translator h)) (unat (offset (qf_translator h)))"
  shows "run_numbers qf_numbers es (h, q)
    = map (\<lambda>k. last_output_sequence_number (qf_translator h) + offset (qf_translator h) + 1 + of_nat k)
        [0..<length (filter (\<lambda>e. wanted q (snd e)) es)]"
proof -
  have "length (filter uses_number (map (\<lambda>e. Packet (getSeqNumber (data (snd e))) (\<not> wanted q (snd e))) es))
      = length (filter (\<lambda>e. wanted q (snd e)) es)"
    by (induction es) simp_all
  then show ?thesis
    using qf.numbers_consecutive [OF assms(1,2)] assms(3,4) by (simp add: qf_run_ops [OF assms(1,2)])
qed

subsection \<open>Switching\<close>

lemma reset_continues: "snt_initialized t \<Longrightarrow> fst (snt_get n False (snt_reset t)) = SN n (last_output_sequence_number t + offset t + 1) Valid"
  by (simp add: snt_reset_def snt_get_def snt_get_first_def Let_def snt_get_const_def snt_add_def)

text \<open>
  A switch to another spatial layer happens on a key frame of it and continues the stream: the key
  frame is sent, with the number after the last one sent or generated, the timestamp after the last one
  sent and the picture id after the last one sent, whatever numbers the other stream uses.
\<close>
theorem switch_continues_the_stream:
  assumes "qf_write now packet h q = (h', q', fs)" "filtered packet" "qf_enabled h" "is_scalable h"
    "spatial_layer q \<noteq> target_spatial_layer h" "spatial_layer q \<noteq> -1"
    "wanted q packet" "is_keyframe packet" "getSSRC (data packet) \<noteq> last_ssrc_received h"
    "snt_initialized (qf_translator h)" "0 < last_timestamp_sent h" "0 < last_picture_id_sent h"
  shows "target_spatial_layer h' = spatial_layer q \<and> (\<exists>p. written fs = [p]
    \<and> getSeqNumber (data p) = last_output_sequence_number (qf_translator h) + offset (qf_translator h) + 1
    \<and> getTimestamp (data p) = last_timestamp_sent h + 1
    \<and> getSSRC (data p) = qf_video_sink_ssrc h)
    \<and> last_timestamp_sent h' = last_timestamp_sent h + 1 \<and> last_picture_id_sent h' = last_picture_id_sent h + 1"
proof -
  define h0 where "h0 = h\<lparr>future_spatial_layer := spatial_layer q, changing_spatial_layer := True,
    time_change_started := now, target_temporal_layer := temporal_layer q\<rparr>"
  define h1 where "h1 = (if last_ssrc_received h0 \<noteq> 0 then h0\<lparr>receiving_multiple_ssrc := True\<rparr> else h0)
    \<lparr>target_spatial_layer := spatial_layer q, future_spatial_layer := -1\<rparr>"
  obtain h3 r where f: "forward_packet packet h1 = (h3, r)" by (cases "forward_packet packet h1")
  have c: "checkLayers now (spatial_layer q) (temporal_layer q) h = (h0, [qf_sendPLI now h])"
    using assms(5) by (simp add: checkLayers_def h0_def)
  have "filter_packet now packet h0 = (case forward_packet packet h1 of (h, None) \<Rightarrow> (h, []) | (h, Some packet) \<Rightarrow> (h, [FireWrite packet]))"
    using assms(6-9) by (simp add: filter_packet_def changeSpatialLayerOnKeyframeReceived_def h1_def wanted_def h0_def)
  then have "qf_write now packet h q = (h3, q, qf_sendPLI now h # (case r of None \<Rightarrow> [] | Some packet \<Rightarrow> [FireWrite packet]))"
    using assms(2-4) by (auto simp: qf_write_def detectVideoScalability_def c f filtered_def split: option.splits)
  then have w: "h' = h3 \<and> written fs = (case r of None \<Rightarrow> [] | Some p \<Rightarrow> [p])"
    using assms(1) by (auto simp: qf_sendPLI_def split: option.splits)
  let ?n = "getSeqNumber (data packet)"
  define h2 where "h2 = start_new_stream (getTimestamp (data packet)) (picture_id packet) (h1\<lparr>last_ssrc_received := getSSRC (data packet)\<rparr>)"
  have h2: "qf_translator h2 = snt_reset (qf_translator h)" "timestamp_offset h2 = last_timestamp_sent h - getTimestamp (data packet) + 1"
    "picture_id_offset h2 = last_picture_id_sent h - picture_id packet + 1" "qf_video_sink_ssrc h2 = qf_video_sink_ssrc h"
    "target_temporal_layer h2 = temporal_layer q" "target_spatial_layer h2 = spatial_layer q"
    using assms(11,12) by (simp_all add: h2_def start_new_stream_def h1_def h0_def Let_def)
  obtain t' where get: "qf_get ?n False h2 = (SN ?n (last_output_sequence_number (qf_translator h) + offset (qf_translator h) + 1) Valid, h2\<lparr>qf_translator := t'\<rparr>)"
    using reset_continues [OF assms(10), of ?n]
    by (cases "snt_get ?n False (snt_reset (qf_translator h))") (auto simp: qf_get_def h2(1))
  obtain p h4 where rw: "rewrite_packet packet (last_output_sequence_number (qf_translator h) + offset (qf_translator h) + 1) (h2\<lparr>qf_translator := t'\<rparr>) = (p, h4)"
    by (cases "rewrite_packet packet (last_output_sequence_number (qf_translator h) + offset (qf_translator h) + 1) (h2\<lparr>qf_translator := t'\<rparr>)")
  have tt: "target_temporal_layer h1 = temporal_layer q" by (simp add: h1_def h0_def)
  have "last_ssrc_received h1 = last_ssrc_received h" by (simp add: h1_def h0_def)
  then have "checkSSRCChange (getSSRC (data packet)) h1 = (True, h1\<lparr>last_ssrc_received := getSSRC (data packet)\<rparr>)"
    using assms(9) by (simp add: checkSSRCChange_def)
  then have "forward_packet packet h1 = (h4, Some p)"
    using assms(7) by (simp add: forward_packet_def h2_def [symmetric] h2(5) get wanted_def rw Let_def tt)
  then show ?thesis using w f rewrite_packet_spec [OF rw] h2 by simp
qed

text \<open>
  While a switch is pending every packet asks for a key frame again and restarts the three seconds after
  which the filter would switch without one: as long as packets keep coming, the time never runs out.
\<close>
lemma pending_switch_never_times_out:
  assumes "qf_write now packet h q = (h', q', fs)" "filtered packet" "qf_enabled h" "is_scalable h"
    "spatial_layer q \<noteq> target_spatial_layer h" "spatial_layer q \<noteq> -1" "\<not> is_keyframe packet"
  shows "target_spatial_layer h' = target_spatial_layer h \<and> future_spatial_layer h' = spatial_layer q
    \<and> qf_sendPLI now h \<in> set fs"
proof -
  define h0 where "h0 = h\<lparr>future_spatial_layer := spatial_layer q, changing_spatial_layer := True,
    time_change_started := now, target_temporal_layer := temporal_layer q\<rparr>"
  define h1 where "h1 = (if last_ssrc_received h0 \<noteq> 0 \<and> getSSRC (data packet) \<noteq> last_ssrc_received h0
    then h0\<lparr>receiving_multiple_ssrc := True\<rparr> else h0)"
  have c: "checkLayers now (spatial_layer q) (temporal_layer q) h = (h0, [qf_sendPLI now h])"
    using assms(5) by (simp add: checkLayers_def h0_def)
  have h1: "future_spatial_layer h1 = spatial_layer q" "time_change_started h1 = now" "target_spatial_layer h1 = target_spatial_layer h"
    by (simp_all add: h1_def h0_def)
  have k: "changeSpatialLayerOnKeyframeReceived now packet h1 = (h1, [])"
    using assms(6,7) by (simp add: changeSpatialLayerOnKeyframeReceived_def h1 kSwitchTimeout_def)
  obtain h2 gs where f: "filter_packet now packet h0 = (h2, gs)" by (cases "filter_packet now packet h0")
  obtain h3 r where g: "forward_packet packet h1 = (h3, r)" by (cases "forward_packet packet h1")
  have "target_spatial_layer h2 = target_spatial_layer h \<and> future_spatial_layer h2 = spatial_layer q"
    using f h1 forward_packet_spec(1) [OF g] forward_packet_future [OF g]
    by (auto simp: filter_packet_def h1_def [symmetric] k g Let_def split: if_splits option.splits)
  moreover have "h' = h2" "fs = qf_sendPLI now h # gs"
    using assms(1-4) by (auto simp: qf_write_def detectVideoScalability_def c f filtered_def)
  ultimately show ?thesis by simp
qed

subsection \<open>Instances\<close>

definition layer_packet :: "u16 \<Rightarrow> u32 \<Rightarrow> int \<Rightarrow> int list \<Rightarrow> dataPacket" where
  "layer_packet n ssrc s ts = (sample_packet n ssrc)\<lparr>compatible_spatial_layers := [s], compatible_temporal_layers := ts,
     is_keyframe := True, picture_id := 40\<rparr>"

definition running_filter :: qualityFilter where
  "running_filter = (new_QualityFilterHandler 0)\<lparr>qf_translator := snd (snt_get 10 False new_translator), is_scalable := True,
     last_ssrc_received := 7, qf_video_sink_ssrc := 9, last_timestamp_sent := 500, last_picture_id_sent := 3\<rparr>"

lemma layer_packet_facts:
  "filtered (layer_packet n ssrc s ts)" "getSSRC (data (layer_packet n ssrc s ts)) = ssrc"
  "getSeqNumber (data (layer_packet n ssrc s ts)) = n" "is_keyframe (layer_packet n ssrc s ts)"
  "wanted q (layer_packet n ssrc s ts) \<longleftrightarrow> spatial_layer q = s \<and> temporal_layer q \<in> set ts"
  by (simp_all add: filtered_def layer_packet_def sample_packet_def new_dataPacket_def zero_mem_def isRtcp_def getPacketType_def
      setSSRC_def setSeqNumber_def store16_def store32_def getSSRC_def getSeqNumber_def load32_def load16_def
      wanted_def belongsToSpatialLayer_def belongsToTemporalLayer_def)

lemma running_filter_facts:
  "qf_enabled running_filter" "is_scalable running_filter" "snt_inv (qf_translator running_filter)"
  "target_spatial_layer running_filter = 0" "last_ssrc_received running_filter = 7"
  "last_timestamp_sent running_filter = 500" "last_picture_id_sent running_filter = 3" "qf_video_sink_ssrc running_filter = 9"
  "last_output_sequence_number (qf_translator running_filter) = 10" "offset (qf_translator running_filter) = 0"
  "last_input_sequence_number (qf_translator running_filter) = 10"
  "settled 7 (running_filter, new_QualityManager 0)"
  by (simp_all add: running_filter_def new_QualityFilterHandler_def first_packet settled_def new_QualityManager_def)

definition sample_qf_events :: "qf_event list" where
  "sample_qf_events = [QfNotify True None (Some (9, 7)), QfWrite 1 (layer_packet 10 7 1 [0]) (new_QualityManager 0)]"

theorem only_chosen_layers_are_sent_witness:
  "\<exists>p. written (snd (snd (qf_write 5 (layer_packet 11 7 0 [0]) (fold qf_step sample_qf_events (new_QualityFilterHandler 0)) (new_QualityManager 0)))) = [p]
     \<and> getSSRC (data p) = 9"
proof -
  let ?h = "fold qf_step sample_qf_events (new_QualityFilterHandler 0)"
  obtain h' q' fs where r: "qf_write 5 (layer_packet 11 7 0 [0]) ?h (new_QualityManager 0) = (h', q', fs)"
    by (cases "qf_write 5 (layer_packet 11 7 0 [0]) ?h (new_QualityManager 0)") blast
  have "length (written (snd (snd (qf_write 5 (layer_packet 11 7 0 [0]) ?h (new_QualityManager 0))))) = 1"
    by code_simp
  then obtain p where p: "written fs = [p]" by (auto simp: r length_Suc_conv)
  have h: "qf_enabled ?h" "qf_video_sink_ssrc ?h = 9" by code_simp+
  have "is_scalable (fst (qf_write 5 (layer_packet 11 7 0 [0]) ?h (new_QualityManager 0)))" by code_simp
  then have "is_scalable h'" by (simp add: r)
  from only_chosen_layers_are_sent [OF refl r _ layer_packet_facts(1) h(1) this, of p] p
  show ?thesis by (simp add: r h)
qed

text \<open>
  A request that the manager has withdrawn is still followed: the manager asks for layer 0, where the
  filter is, but a key frame of layer 1, asked for before, moves the filter to layer 1.
\<close>
lemma stale_request_is_followed:
  "target_spatial_layer (fst (qf_write 5 (layer_packet 11 7 1 [0]) (running_filter\<lparr>future_spatial_layer := 1\<rparr>)
     (new_QualityManager 0))) = 1
   \<and> spatial_layer (new_QualityManager 0) = 0"
  by code_simp

theorem filtered_stream_has_no_gaps_witness:
  "run_numbers qf_numbers [(1, layer_packet 11 7 0 [1]), (2, layer_packet 12 7 0 [0, 1])] (running_filter, new_QualityManager 0) = [11]"
proof -
  let ?es = "[(1, layer_packet 11 7 0 [1]), (2, layer_packet 12 7 0 [0, 1])]"
  have v: "list_all (of_stream 7) ?es" by (simp add: of_stream_def layer_packet_facts)
  have w: "wanted (new_QualityManager 0) (layer_packet n 7 0 ts) \<longleftrightarrow> 0 \<in> set ts" for n ts
    by (simp add: wanted_def layer_packet_def belongsToSpatialLayer_def belongsToTemporalLayer_def new_QualityManager_def)
  from filtered_stream_has_no_gaps [OF running_filter_facts(12) v running_filter_facts(3)]
  show ?thesis by (simp add: w layer_packet_facts(1-4) running_filter_facts)
qed

theorem switch_continues_the_stream_witness:
  "\<exists>p. written (snd (snd (qf_write 5 (layer_packet 4000 8 1 [0]) running_filter ((new_QualityManager 0)\<lparr>spatial_layer := 1\<rparr>)))) = [p]
     \<and> getSeqNumber (data p) = 11 \<and> getTimestamp (data p) = 501"
proof -
  let ?q = "(new_QualityManager 0)\<lparr>spatial_layer := 1\<rparr>"
  obtain h' q' fs where r: "qf_write 5 (layer_packet 4000 8 1 [0]) running_filter ?q = (h', q', fs)"
    by (cases "qf_write 5 (layer_packet 4000 8 1 [0]) running_filter ?q") blast
  have w: "wanted ?q (layer_packet 4000 8 1 [0])" "spatial_layer ?q = 1" by (simp_all add: layer_packet_facts(5) new_QualityManager_def)
  have i: "snt_initialized (qf_translator running_filter)" using running_filter_facts(3) by (simp add: snt_inv_def)
  from switch_continues_the_stream [OF r layer_packet_facts(1) running_filter_facts(1,2) _ _ w(1) layer_packet_facts(4) _ i]
  show ?thesis by (auto simp: r running_filter_facts w(2) layer_packet_facts)
qed

text \<open>A request for a key frame by FIR is swallowed: PLI is tested twice in its place.\<close>

lemma fir_is_swallowed: "qf_read 0 (createFIR 0 1 2 3) running_filter = []"
proof -
  have d: "getPacketType (data (createFIR 0 1 2 3)) 0 = RTCP_PS_Feedback_PT" "getBlockCount (data (createFIR 0 1 2 3)) 0 = RTCP_FIR_FMT"
    by code_simp+
  then have f: "isFeedback (data (createFIR 0 1 2 3)) 0" by (simp add: isFeedback_def)
  have "load16 (data (createFIR 0 1 2 3)) 2 = htons 4" by code_simp
  then have "unat (ntohs (load16 (data (createFIR 0 1 2 3)) 2)) = 4" by simp
  then have b: "block_offsets (data (createFIR 0 1 2 3)) 20 0 = [0]"
    by (subst block_offsets.simps) (simp only: Let_def add_0, simp)
  show ?thesis
    using d f running_filter_facts(1,2)
    by (simp add: qf_read_def qf_handleFeedbackPackets_def forEachRRBlock_def Let_def rr_blocks_fold b)
qed

end
