(* ===== verification/SRPacket.thy ===== *)
theory SRPacket
  imports RtpUtils
begin

text \<open>
  \<^verbatim>\<open>rtp/SRPacketHandler.cpp\<close>: packets and octets sent are counted per SSRC, and the sender reports that pass
  get these numbers, since handlers before this one drop and add packets.
\<close>

record srInfo =
  sr_ssrc :: u32
  sent_octets :: u32
  sent_packets :: u32

definition new_SRInfo :: srInfo where
  "new_SRInfo = \<lparr>sr_ssrc = 0, sent_octets = 0, sent_packets = 0\<rparr>"

record srHandler =
  sr_enabled :: bool
  sr_initialized :: bool
  sr_connection :: bool
  sr_info_map :: "u32 \<rightharpoonup> srInfo"

definition new_SRPacketHandler :: srHandler where
  "new_SRPacketHandler = \<lparr>sr_enabled = True, sr_initialized = False, sr_connection = False, sr_info_map = Map.empty\<rparr>"

definition sr_enable :: "srHandler \<Rightarrow> srHandler" where
  "sr_enable h = h\<lparr>sr_enabled := True\<rparr>"

definition sr_disable :: "srHandler \<Rightarrow> srHandler" where
  "sr_disable h = h\<lparr>sr_enabled := False\<rparr>"

definition payload_octets :: "dataPacket \<Rightarrow> u32" where
  "payload_octets packet = word_of_int (packet_length packet - int (getHeaderLength (data packet)))"

definition sr_handleRtpPacket :: "dataPacket \<Rightarrow> srHandler \<Rightarrow> srHandler" where
  "sr_handleRtpPacket packet h =
     (let ssrc = getSSRC (data packet);
          h = (if sr_info_map h ssrc = None then h\<lparr>sr_info_map := (sr_info_map h)(ssrc \<mapsto> new_SRInfo)\<rparr> else h);
          selected_info = the (sr_info_map h ssrc);
          selected_info = selected_info\<lparr>sent_packets := sent_packets selected_info + 1\<rparr>;
          selected_info = selected_info\<lparr>sent_octets := sent_octets selected_info + payload_octets packet\<rparr>
      in h\<lparr>sr_info_map := (sr_info_map h)(ssrc \<mapsto> selected_info)\<rparr>)"

definition handleSR :: "dataPacket \<Rightarrow> srHandler \<Rightarrow> dataPacket" where
  "handleSR packet h =
     (case sr_info_map h (rtcp_getSSRC (data packet) 0) of
        None \<Rightarrow> packet
      | Some selected_info \<Rightarrow> packet\<lparr>data := setPacketsSent 0 (sent_packets selected_info)
          (setOctetsSent 0 (sent_octets selected_info) (data packet))\<rparr>)"

definition sr_write :: "dataPacket \<Rightarrow> srHandler \<Rightarrow> srHandler \<times> fire list" where
  "sr_write packet h =
     (if sr_initialized h \<and> sr_enabled h
      then if \<not> isRtcp (data packet) 0 \<and> sr_enabled h then (sr_handleRtpPacket packet h, [FireWrite packet])
           else if getPacketType (data packet) 0 = RTCP_Sender_PT \<and> sr_enabled h
           then (h, [FireWrite (handleSR packet h)])
           else (h, [FireWrite packet])
      else (h, [FireWrite packet]))"

definition sr_read :: "dataPacket \<Rightarrow> srHandler \<Rightarrow> srHandler \<times> fire list" where
  "sr_read packet h = (h, [FireRead packet])"

definition sr_notifyUpdate :: "bool \<Rightarrow> srHandler \<Rightarrow> srHandler" where
  "sr_notifyUpdate connection h =
     (if sr_initialized h then h else
      let h = (if \<not> sr_connection h then h\<lparr>sr_connection := connection\<rparr> else h)
      in if \<not> sr_connection h then h else h\<lparr>sr_initialized := True\<rparr>)"

subsection \<open>Reports tell what was sent\<close>

fun sr_run :: "dataPacket list \<Rightarrow> srHandler \<Rightarrow> srHandler \<times> fire list" where
  "sr_run [] h = (h, [])"
| "sr_run (p # ps) h = (let (h, fs) = sr_write p h; (h, gs) = sr_run ps h in (h, fs @ gs))"

definition media_of :: "u32 \<Rightarrow> dataPacket list \<Rightarrow> dataPacket list" where
  "media_of ssrc ps = filter (\<lambda>p. \<not> isRtcp (data p) 0 \<and> getSSRC (data p) = ssrc) ps"

definition counted :: "u32 \<Rightarrow> dataPacket list \<Rightarrow> u32 \<times> u32" where
  "counted ssrc ps = (of_nat (length (media_of ssrc ps)), sum_list (map payload_octets (media_of ssrc ps)))"

definition info_of :: "srHandler \<Rightarrow> u32 \<Rightarrow> u32 \<times> u32" where
  "info_of h ssrc = (case sr_info_map h ssrc of None \<Rightarrow> (0, 0) | Some i \<Rightarrow> (sent_packets i, sent_octets i))"

lemma sr_write_info:
  assumes "sr_initialized h" "sr_enabled h"
  shows "sr_initialized (fst (sr_write p h))" "sr_enabled (fst (sr_write p h))"
    "info_of (fst (sr_write p h)) ssrc
      = (fst (info_of h ssrc) + fst (counted ssrc [p]), snd (info_of h ssrc) + snd (counted ssrc [p]))"
    "sr_info_map (fst (sr_write p h)) ssrc = None \<longleftrightarrow> sr_info_map h ssrc = None \<and> media_of ssrc [p] = []"
  using assms
  by (auto simp: sr_write_def sr_handleRtpPacket_def info_of_def counted_def media_of_def new_SRInfo_def Let_def
      split: option.splits)

lemma sr_run_info:
  assumes "sr_initialized h" "sr_enabled h"
  shows "sr_initialized (fst (sr_run ps h)) \<and> sr_enabled (fst (sr_run ps h))
    \<and> info_of (fst (sr_run ps h)) ssrc
      = (fst (info_of h ssrc) + fst (counted ssrc ps), snd (info_of h ssrc) + snd (counted ssrc ps))
    \<and> (sr_info_map (fst (sr_run ps h)) ssrc = None \<longleftrightarrow> sr_info_map h ssrc = None \<and> media_of ssrc ps = [])"
  using assms
proof (induction ps arbitrary: h)
  case Nil
  then show ?case by (simp add: counted_def media_of_def)
next
  case (Cons p ps)
  note w = sr_write_info [OF Cons.prems, of p]
  have c: "counted ssrc (p # ps) = (fst (counted ssrc [p]) + fst (counted ssrc ps), snd (counted ssrc [p]) + snd (counted ssrc ps))"
    "media_of ssrc (p # ps) = media_of ssrc [p] @ media_of ssrc ps"
    by (simp_all add: counted_def media_of_def)
  show ?case
    using Cons.IH [OF w(1,2)] w(3,4) [of ssrc] by (simp add: c case_prod_beta Let_def add.assoc)
qed

lemma sr_run_snoc: "snd (sr_run (ps @ [report]) h) = snd (sr_run ps h) @ snd (sr_write report (fst (sr_run ps h)))"
  by (induction ps arbitrary: h) (simp_all add: case_prod_beta Let_def)

text \<open>
  C26: A sender report leaves with the truth about what was sent: after any sequence of packets, of any
  streams, the report of a stream of which a media packet has passed has the number of its media
  packets that passed and the sum of their lengths without headers (both modulo 2 to the 32), whatever
  numbers it came with, and is otherwise as it came. If no media packet of its stream has passed, the report leaves exactly
  as it came, with the numbers of its sender. The handler is initialised and enabled, and starts
  without any stream.
\<close>
theorem sender_report_tells_what_was_sent:
  assumes "sr_initialized h" "sr_enabled h" "sr_info_map h = Map.empty"
    "isRtcp (data report) 0" "getPacketType (data report) 0 = RTCP_Sender_PT" "rtcp_getSSRC (data report) 0 = ssrc"
  shows "if media_of ssrc ps = [] then snd (sr_run (ps @ [report]) h) = snd (sr_run ps h) @ [FireWrite report]
    else (\<exists>m. snd (sr_run (ps @ [report]) h) = snd (sr_run ps h) @ [FireWrite (report\<lparr>data := m\<rparr>)]
      \<and> getPacketsSent m 0 = of_nat (length (media_of ssrc ps))
      \<and> getOctetsSent m 0 = word_of_int (sum_list (map (\<lambda>p. packet_length p - int (getHeaderLength (data p))) (media_of ssrc ps)))
      \<and> (\<forall>i. m i \<noteq> data report i \<longrightarrow> 20 \<le> i \<and> i < 28))"
proof -
  let ?h = "fst (sr_run ps h)"
  note i = sr_run_info [OF assms(1,2), of ps ssrc]
  have s: "sum_list (map payload_octets qs)
      = word_of_int (sum_list (map (\<lambda>p. packet_length p - int (getHeaderLength (data p))) qs))" for qs
    by (induction qs) (simp_all add: payload_octets_def)
  show ?thesis
  proof (cases "media_of ssrc ps = []")
    case True
    then have "sr_info_map ?h ssrc = None" using i assms(3) by simp
    then show ?thesis
      using i assms(4-6) True unfolding sr_run_snoc by (simp add: sr_write_def handleSR_def)
  next
    case False
    then obtain info where info: "sr_info_map ?h ssrc = Some info" using i assms(3) by auto
    have c: "(sent_packets info, sent_octets info) = counted ssrc ps"
      using i assms(3) info by (simp add: info_of_def)
    let ?m = "setPacketsSent 0 (sent_packets info) (setOctetsSent 0 (sent_octets info) (data report))"
    have o: "\<forall>i. ?m i \<noteq> data report i \<longrightarrow> 20 \<le> i \<and> i < 28"
      by (auto simp: setPacketsSent_def setOctetsSent_def store32_def split: if_splits)
    have "snd (sr_run (ps @ [report]) h) = snd (sr_run ps h) @ [FireWrite (report\<lparr>data := ?m\<rparr>)]"
      using i assms(4-6) info unfolding sr_run_snoc by (simp add: sr_write_def handleSR_def)
    then show ?thesis
      using c o False by (auto simp: counted_def s intro!: exI [of _ ?m])
  qed
qed

definition sample_report :: dataPacket where
  "sample_report = (sample_packet 0 0)\<lparr>data := rtcp_setSSRC 0 7 (setPacketType 0 RTCP_Sender_PT zero_mem)\<rparr>"

theorem sender_report_tells_what_was_sent_witness:
  "\<exists>p. snd (sr_run [sample_packet 3 7, sample_packet 4 7, sample_report] (sr_notifyUpdate True new_SRPacketHandler))
     = [FireWrite (sample_packet 3 7), FireWrite (sample_packet 4 7), FireWrite p]
    \<and> getPacketsSent (data p) 0 = 2"
proof -
  have b: "data (sample_packet n 7) 0 = 0" "data (sample_packet n 7) 1 = 0" for n
    by (simp_all add: sample_packet_def zero_mem_def setSSRC_def setSeqNumber_def store16_def store32_def)
  have m: "\<not> isRtcp (data (sample_packet n 7)) 0" for n
    using b [of n] by (simp add: isRtcp_def getPacketType_def)
  have mm: "media_of 7 [sample_packet 3 7, sample_packet 4 7] = [sample_packet 3 7, sample_packet 4 7]"
    by (simp add: media_of_def m)
  have r: "isRtcp (data sample_report) 0" "getPacketType (data sample_report) 0 = RTCP_Sender_PT" "rtcp_getSSRC (data sample_report) 0 = 7"
    by code_simp+
  have h: "sr_initialized (sr_notifyUpdate True new_SRPacketHandler)" "sr_enabled (sr_notifyUpdate True new_SRPacketHandler)"
    "sr_info_map (sr_notifyUpdate True new_SRPacketHandler) = Map.empty"
    by (simp_all add: sr_notifyUpdate_def new_SRPacketHandler_def Let_def)
  have f: "snd (sr_run [sample_packet 3 7, sample_packet 4 7] (sr_notifyUpdate True new_SRPacketHandler))
      = [FireWrite (sample_packet 3 7), FireWrite (sample_packet 4 7)]"
    using m by (simp add: sr_write_def case_prod_beta Let_def)
  have ne: "media_of 7 [sample_packet 3 7, sample_packet 4 7] \<noteq> []" by (simp add: mm)
  obtain p where "snd (sr_run ([sample_packet 3 7, sample_packet 4 7] @ [sample_report]) (sr_notifyUpdate True new_SRPacketHandler))
      = [FireWrite (sample_packet 3 7), FireWrite (sample_packet 4 7)] @ [FireWrite p]"
    "getPacketsSent (data p) 0 = of_nat (length [sample_packet 3 7, sample_packet 4 7])"
    using sender_report_tells_what_was_sent [OF h r, of "[sample_packet 3 7, sample_packet 4 7]", unfolded f] ne
    unfolding mm by auto
  then show ?thesis by (intro exI [of _ p]) (simp only: append.simps, simp)
qed

end
