(* ===== verification/StatPaths.thy ===== *)
theory StatPaths
  imports StatNode
begin

text \<open>
  Statistics are reached by two names, as in \<^verbatim>\<open>getNode()["total"]["bitrateCalculated"]\<close>: what the handlers do
  through such paths, and the laws of the tree under it.
\<close>

subsection \<open>Statistics by path\<close>

definition value_at :: "int \<Rightarrow> string \<Rightarrow> string \<Rightarrow> stat_node \<Rightarrow> (u64 \<times> stat_node) option" where
  "value_at now k1 k2 st = map_option (\<lambda>(v, s). (v, child k1 (child k2 (\<lambda>n. StatNode s (node_map n))) st))
     (stat_value now (stat_of (child_node k2 (child_node k1 st))))"

definition add_at :: "int \<Rightarrow> u64 \<Rightarrow> string \<Rightarrow> string \<Rightarrow> stat_node \<Rightarrow> stat_node option" where
  "add_at now v k1 k2 st = map_option (\<lambda>s. child k1 (child k2 (\<lambda>n. StatNode s (node_map n))) st)
     (stat_add now v (stat_of (child_node k2 (child_node k1 st))))"

subsection \<open>Paths in the tree\<close>

lemma map_of_insert_fresh: "map_of m k = None \<Longrightarrow> map_of (map_insert k v m) = (map_of m)(k \<mapsto> v)"
  by (induction k v m rule: map_insert.induct) (auto split: if_splits)

lemma child_node_child: "child_node k (child k' f n) = (if k = k' then f (child_node k n) else child_node k n)"
  by (auto simp: child_node_def child_def hasChild_def map_of_insert_fresh split: option.splits)

lemma hasChild_child: "hasChild k (child k' f n) \<longleftrightarrow> k = k' \<or> hasChild k n"
  by (auto simp: child_def hasChild_def map_of_insert_fresh)

lemma child_node_insertStat: "child_node k (insertStat k' s n) = (if k = k' then StatNode s [] else child_node k n)"
  by (auto simp: child_node_def insertStat_def hasChild_def map_of_insert_fresh)

lemma hasChild_insertStat: "hasChild k (insertStat k' s n) \<longleftrightarrow> k = k' \<or> hasChild k n"
  by (auto simp: insertStat_def hasChild_def map_of_insert_fresh)

lemma through_stat: "child_node k (StatNode s (node_map n)) = child_node k n" "hasChild k (StatNode s (node_map n)) = hasChild k n"
  by (simp_all add: child_node_def hasChild_def)

definition leaf :: "string \<Rightarrow> string \<Rightarrow> stat_node \<Rightarrow> stat" where
  "leaf k1 k2 st = stat_of (child_node k2 (child_node k1 st))"

definition leaf_there :: "string \<Rightarrow> string \<Rightarrow> stat_node \<Rightarrow> bool" where
  "leaf_there k1 k2 st \<longleftrightarrow> hasChild k2 (child_node k1 st)"

definition insert_at :: "string \<Rightarrow> string \<Rightarrow> stat \<Rightarrow> stat_node \<Rightarrow> stat_node" where
  "insert_at k1 k2 s st = child k1 (insertStat k2 s) st"

lemma insert_at_leaf:
  "leaf k1 k2 (insert_at a b s st) = (if k1 = a \<and> k2 = b then s else leaf k1 k2 st)"
  "leaf_there k1 k2 (insert_at a b s st) \<longleftrightarrow> k1 = a \<and> k2 = b \<or> leaf_there k1 k2 st"
  by (auto simp: leaf_def leaf_there_def insert_at_def child_node_child child_node_insertStat hasChild_insertStat)

lemma touch_leaf:
  "leaf k1 k2 (child a (\<lambda>n. n) st) = leaf k1 k2 st" "leaf_there k1 k2 (child a (\<lambda>n. n) st) = leaf_there k1 k2 st"
  by (auto simp: leaf_def leaf_there_def child_node_child)

lemma add_at_leaf:
  assumes "add_at now v a b st = Some st'"
  shows "stat_add now v (leaf a b st) = Some (leaf a b st')"
    "k1 \<noteq> a \<or> k2 \<noteq> b \<Longrightarrow> leaf k1 k2 st' = leaf k1 k2 st"
    "leaf_there k1 k2 st' \<longleftrightarrow> k1 = a \<and> k2 = b \<or> leaf_there k1 k2 st"
  using assms
  by (auto simp: add_at_def leaf_def leaf_there_def child_node_child hasChild_child split: if_splits)

end
