(* ===== verification/RtpPaddingGenerator.thy ===== *)
theory RtpPaddingGenerator
  imports StatPaths Renumbering RtpUtils TokenBucket
begin

text \<open>
  \<^verbatim>\<open>rtp/RtpPaddingGeneratorHandler.cpp\<close>: after each frame packets of padding are put into the stream, as many
  as the estimated bandwidth leaves room for, limited by a token bucket; the media packets are
  renumbered around them. The statistics of the pipeline are part of the state. What the handler does,
  in order, is a list: passing a packet on, and scheduling or cancelling the repetition.
\<close>

datatype pg_out = PgFire fire | PgUnschedule | PgSchedule dataPacket

definition kStatsPeriod :: int where "kStatsPeriod = 100000000"
definition kMaxPaddingSize :: u8 where "kMaxPaddingSize = 255"
definition kMinMarkerRate :: u64 where "kMinMarkerRate = 3"
definition kInitialBitrate :: u64 where "kInitialBitrate = 300000"
definition kPaddingBurstSize :: u64 where "kPaddingBurstSize = 255 * 10"

record paddingGenerator =
  pg_translator :: translator
  pg_connection :: bool
  pg_max_video_bw :: u64
  higher_sequence_number :: u16
  pg_video_sink_ssrc :: u32
  pg_audio_source_ssrc :: u32
  number_of_full_padding_packets :: u64
  last_padding_packet_size :: u8
  last_rate_calculation_time :: int
  started_at :: int
  pg_enabled :: bool
  first_packet_received :: bool
  marker_rate :: movingInterval
  rtp_header_length :: u32
  pg_bucket :: tokenBucket
  pg_stats :: stat_node

definition new_RtpPaddingGeneratorHandler :: "bool list \<Rightarrow> int \<Rightarrow> paddingGenerator" where
  "new_RtpPaddingGeneratorHandler exchanges now = \<lparr>pg_translator = new_translator, pg_connection = False, pg_max_video_bw = 0,
     higher_sequence_number = 0, pg_video_sink_ssrc = 0, pg_audio_source_ssrc = 0,
     number_of_full_padding_packets = 0, last_padding_packet_size = 0, last_rate_calculation_time = now,
     started_at = now, pg_enabled = False, first_packet_received = False,
     marker_rate = new_MovingIntervalRateStat 100000000 20 1, rtp_header_length = 12,
     pg_bucket = new_TokenBucket exchanges kInitialBitrate kPaddingBurstSize, pg_stats = StatNode Plain []\<rparr>"

definition getStat :: "int \<Rightarrow> string \<Rightarrow> paddingGenerator \<Rightarrow> (u64 \<times> paddingGenerator) option" where
  "getStat now stat_name h =
     (let key = key_text (ucast (pg_video_sink_ssrc h)); h = h\<lparr>pg_stats := child key (\<lambda>n. n) (pg_stats h)\<rparr>
      in if hasChild stat_name (child_node key (pg_stats h))
         then map_option (\<lambda>(v, st). (v, h\<lparr>pg_stats := st\<rparr>)) (value_at now key stat_name (pg_stats h))
         else Some (0, h))"

definition getTargetBitrate :: "int \<Rightarrow> paddingGenerator \<Rightarrow> (u64 \<times> paddingGenerator) option" where
  "getTargetBitrate now h =
     (let h = h\<lparr>pg_stats := child ''total'' (\<lambda>n. n) (pg_stats h)\<rparr>
      in case (if hasChild ''senderBitrateEstimation'' (child_node ''total'' (pg_stats h))
               then map_option (\<lambda>(v, st). (v, h\<lparr>pg_stats := st\<rparr>))
                      (value_at now ''total'' ''senderBitrateEstimation'' (pg_stats h))
               else Some (kInitialBitrate, h)) of None \<Rightarrow> None
         | Some (target_bitrate, h) \<Rightarrow>
             Some (if pg_max_video_bw h > 0 then min target_bitrate (pg_max_video_bw h) else target_bitrate, h))"

subsection \<open>How much padding\<close>

definition isTimeToCalculateBitrate :: "int \<Rightarrow> paddingGenerator \<Rightarrow> bool" where
  "isTimeToCalculateBitrate now h \<longleftrightarrow> now - last_rate_calculation_time h \<ge> kStatsPeriod"

text \<open>The last lines of \<^verbatim>\<open>recalculatePaddingRate\<close>: bytes per marker cut into packets.\<close>

definition set_padding_packets :: "u64 \<Rightarrow> paddingGenerator \<Rightarrow> paddingGenerator" where
  "set_padding_packets bytes_per_marker h =
     (let full = (ucast (ucast kMaxPaddingSize + rtp_header_length h :: u32) :: u64);
          h = h\<lparr>number_of_full_padding_packets := bytes_per_marker div full\<rparr>
      in h\<lparr>last_padding_packet_size := ucast (bytes_per_marker mod full - ucast (rtp_header_length h))\<rparr>)"

definition recalculatePaddingRate :: "int \<Rightarrow> paddingGenerator \<Rightarrow> paddingGenerator option" where
  "recalculatePaddingRate now h =
     (if \<not> isTimeToCalculateBitrate now h then Some h else
      let h = h\<lparr>last_rate_calculation_time := now\<rparr>
      in case getStat now ''bitrateCalculated'' h of None \<Rightarrow> None
       | Some (total_bitrate, h) \<Rightarrow> (case value_at now ''total'' ''paddingBitrate'' (pg_stats h) of None \<Rightarrow> None
       | Some (padding_bitrate, st) \<Rightarrow>
           let h = h\<lparr>pg_stats := st\<rparr>;
               media_bitrate = max (sint total_bitrate - sint padding_bitrate) 0
           in (case getTargetBitrate now h of None \<Rightarrow> None
            | Some (target_bitrate, h) \<Rightarrow>
               let target_padding_bitrate = sint (target_bitrate - word_of_int media_bitrate);
                   h = h\<lparr>pg_bucket := tb_reset (word_of_int (max target_padding_bitrate 0)) kPaddingBurstSize (pg_bucket h)\<rparr>
               in if target_padding_bitrate \<le> 0
                  then Some (h\<lparr>number_of_full_padding_packets := 0, last_padding_packet_size := 0\<rparr>)
                  else (case mi_value_of (ms_of now) 500000000 (marker_rate h) of None \<Rightarrow> None
                    | Some rate \<Rightarrow> Some (set_padding_packets
                         (word_of_int target_padding_bitrate div (max rate kMinMarkerRate * 8)) h)))))"

subsection \<open>Padding packets\<close>

definition us_of :: "int \<Rightarrow> u64" where
  "us_of now = word_of_int (c_div now 1000)"

definition sendPaddingPacket :: "int \<Rightarrow> dataPacket \<Rightarrow> u8 \<Rightarrow> paddingGenerator \<Rightarrow> (paddingGenerator \<times> pg_out list) option" where
  "sendPaddingPacket now packet padding_size h =
     (if padding_size = 0 then Some (h, []) else
      let (ok, b) = tb_consume (us_of now) (ucast padding_size) (pg_bucket h); h = h\<lparr>pg_bucket := b\<rparr>
      in if \<not> ok then Some (h, []) else
         let (sequence_number, t) = snt_generate (pg_translator h);
             h = h\<lparr>pg_translator := t\<rparr>;
             padding_packet = makePaddingPacket (ms_of now) packet padding_size;
             padding_packet = padding_packet\<lparr>data := setSeqNumber (sn_output sequence_number) (data padding_packet)\<rparr>
         in map_option (\<lambda>st. (h\<lparr>pg_stats := st\<rparr>, [PgFire (FireWrite padding_packet)]))
              (add_at now (word_of_int (packet_length padding_packet)) ''total'' ''paddingBitrate'' (pg_stats h)))"

fun send_full_packets :: "nat \<Rightarrow> int \<Rightarrow> dataPacket \<Rightarrow> paddingGenerator \<Rightarrow> (paddingGenerator \<times> pg_out list) option" where
  "send_full_packets 0 now packet h = Some (h, [])"
| "send_full_packets (Suc n) now packet h = (case sendPaddingPacket now packet kMaxPaddingSize h of None \<Rightarrow> None
     | Some (h, os) \<Rightarrow> map_option (\<lambda>(h, os'). (h, os @ os')) (send_full_packets n now packet h))"

text \<open>
  Also what the timer runs. The counter of the loop has 32 bits: with more packets to send than it can
  count the loop does not end.
\<close>

definition onPacketWithMarkerSet :: "int \<Rightarrow> dataPacket \<Rightarrow> paddingGenerator \<Rightarrow> (paddingGenerator \<times> pg_out list) option" where
  "onPacketWithMarkerSet now packet h =
     (case mi_add (ms_of now) 1 (marker_rate h) of None \<Rightarrow> None
      | Some m \<Rightarrow>
         let h = h\<lparr>marker_rate := m\<rparr>
         in if number_of_full_padding_packets h \<ge> 4294967296 then None else
            (case send_full_packets (unat (number_of_full_padding_packets h)) now packet h of None \<Rightarrow> None
             | Some (h, os) \<Rightarrow> (case sendPaddingPacket now packet (last_padding_packet_size h) h of None \<Rightarrow> None
               | Some (h, os') \<Rightarrow> Some (h, os @ os' @ [PgSchedule packet]))))"

definition onVideoPacket :: "int \<Rightarrow> dataPacket \<Rightarrow> paddingGenerator \<Rightarrow> (paddingGenerator \<times> pg_out list) option" where
  "onVideoPacket now packet h =
     (if \<not> pg_enabled h then Some (h, []) else
      case recalculatePaddingRate now h of None \<Rightarrow> None
      | Some h \<Rightarrow> if getMarker (data packet) \<noteq> 0 then onPacketWithMarkerSet now packet h else Some (h, []))"

text \<open>The packet with its new number, and whether its old number was a higher one.\<close>

definition isHigherSequenceNumber :: "dataPacket \<Rightarrow> paddingGenerator \<Rightarrow> bool \<times> dataPacket \<times> paddingGenerator" where
  "isHigherSequenceNumber packet h =
     (let h = h\<lparr>rtp_header_length := of_nat (getHeaderLength (data packet))\<rparr>;
          new_sequence_number = getSeqNumber (data packet);
          (sequence_number, t) = snt_get new_sequence_number False (pg_translator h);
          h = h\<lparr>pg_translator := t\<rparr>;
          packet = packet\<lparr>data := setSeqNumber (sn_output sequence_number) (data packet)\<rparr>
      in if first_packet_received h \<and> sequenceNumberLessThan new_sequence_number (higher_sequence_number h)
         then (False, packet, h)
         else (True, packet, h\<lparr>higher_sequence_number := new_sequence_number\<rparr>))"

definition pg_write :: "int \<Rightarrow> dataPacket \<Rightarrow> paddingGenerator \<Rightarrow> (paddingGenerator \<times> pg_out list) option" where
  "pg_write now packet h =
     (if packet_type packet = VIDEO_PACKET \<and> \<not> isRtcp (data packet) 0
      then if \<not> pg_connection h then None else
        let (is_higher, packet, h) = isHigherSequenceNumber packet h;
            h = (if \<not> first_packet_received h then h\<lparr>started_at := now\<rparr> else h);
            h = h\<lparr>first_packet_received := True\<rparr>
        in if is_higher
           then map_option (\<lambda>(h, os). (h, PgUnschedule # PgFire (FireWrite packet) # os)) (onVideoPacket now packet h)
           else Some (h, [PgUnschedule, PgFire (FireWrite packet)])
      else Some (h, [PgFire (FireWrite packet)]))"

definition pg_read :: "dataPacket \<Rightarrow> pg_out list" where
  "pg_read packet = [PgFire (FireRead packet)]"

definition enablePadding :: "int \<Rightarrow> paddingGenerator \<Rightarrow> paddingGenerator" where
  "enablePadding now h = h\<lparr>pg_enabled := True, number_of_full_padding_packets := 0, last_padding_packet_size := 0,
     last_rate_calculation_time := now\<rparr>"

definition disablePadding :: "paddingGenerator \<Rightarrow> paddingGenerator" where
  "disablePadding h = h\<lparr>pg_enabled := False\<rparr>"

text \<open>
  What the pipeline answers: the connection's SSRCs and the statistics, whether the quality manager has
  padding enabled, and the bandwidth of the RTCP processor if there is one.
\<close>

definition pg_notifyUpdate :: "int \<Rightarrow> (u32 \<times> u32) \<Rightarrow> stat_node \<Rightarrow> bool \<Rightarrow> u32 option \<Rightarrow> paddingGenerator \<Rightarrow> paddingGenerator" where
  "pg_notifyUpdate now ssrcs st padding_on processor h =
     (let h = (if \<not> pg_connection h
               then h\<lparr>pg_connection := True, pg_video_sink_ssrc := fst ssrcs, pg_audio_source_ssrc := snd ssrcs,
                      pg_stats := child ''total'' (insertStat ''paddingBitrate''
                        (MovingIntervalRateStat (new_MovingIntervalRateStat 100000000 30 8))) st\<rparr>
               else h);
          h = (if padding_on \<and> \<not> pg_enabled h then enablePadding now h
               else if \<not> padding_on \<and> pg_enabled h then disablePadding h else h)
      in case processor of None \<Rightarrow> h | Some bw \<Rightarrow> h\<lparr>pg_max_video_bw := ucast bw\<rparr>)"

subsection \<open>Numbers\<close>

primrec numbers :: "pg_out list \<Rightarrow> u16 list" where
  "numbers [] = []"
| "numbers (x # os) = (case x of PgFire (FireWrite p) \<Rightarrow> getSeqNumber (data p) # numbers os | _ \<Rightarrow> numbers os)"

lemma numbers_append [simp]: "numbers (xs @ ys) = numbers xs @ numbers ys"
  by (induction xs) (auto split: pg_out.splits fire.splits)

text \<open>What was put out are numbers that the translator generated.\<close>

definition pads :: "translator \<Rightarrow> pg_out list \<Rightarrow> translator \<Rightarrow> bool" where
  "pads t os t' \<longleftrightarrow> t' = snd (generates (length (numbers os)) t)
     \<and> numbers os = map sn_output (fst (generates (length (numbers os)) t))"

lemma pads_Nil: "numbers os = [] \<Longrightarrow> pads t os t"
  by (simp add: pads_def)

lemma pads_append: "pads t xs t1 \<Longrightarrow> pads t1 ys t2 \<Longrightarrow> pads t (xs @ ys) t2"
  by (simp add: pads_def replicate_add snt_run_append)

lemma sendPaddingPacket_pads:
  assumes "sendPaddingPacket now packet n h = Some (h', os)"
  shows "pads (pg_translator h) os (pg_translator h')" "pg_connection h' = pg_connection h"
  using assms
  by (auto simp: sendPaddingPacket_def Let_def case_prod_beta pads_def snt_run_Cons split: if_splits)

lemma send_full_packets_pads:
  assumes "send_full_packets n now packet h = Some (h', os)"
  shows "pads (pg_translator h) os (pg_translator h') \<and> pg_connection h' = pg_connection h"
  using assms
proof (induction n arbitrary: h h' os)
  case 0
  then show ?case by (simp add: pads_Nil)
next
  case (Suc n)
  then obtain h1 os1 os2 where 1: "sendPaddingPacket now packet kMaxPaddingSize h = Some (h1, os1)"
    "send_full_packets n now packet h1 = Some (h', os2)" "os = os1 @ os2"
    by (auto split: option.splits)
  show ?case
    using sendPaddingPacket_pads [OF 1(1)] Suc.IH [OF 1(2)] by (auto simp: 1(3) intro: pads_append)
qed

lemma onPacketWithMarkerSet_pads:
  assumes "onPacketWithMarkerSet now packet h = Some (h', os)"
  shows "pads (pg_translator h) os (pg_translator h') \<and> pg_connection h' = pg_connection h"
proof -
  obtain m h1 os1 os2 where 1: "send_full_packets (unat (number_of_full_padding_packets h)) now packet (h\<lparr>marker_rate := m\<rparr>) = Some (h1, os1)"
    "sendPaddingPacket now packet (last_padding_packet_size h1) h1 = Some (h', os2)" "os = os1 @ os2 @ [PgSchedule packet]"
    using assms by (auto simp: onPacketWithMarkerSet_def Let_def split: option.splits if_splits)
  have "pads (pg_translator h') [PgSchedule packet] (pg_translator h')" by (rule pads_Nil) simp
  then show ?thesis
    using send_full_packets_pads [OF 1(1)] sendPaddingPacket_pads [OF 1(2)]
    unfolding 1(3) by (auto intro!: pads_append)
qed

lemma getStat_keeps: "getStat now k h = Some (v, h') \<Longrightarrow> pg_translator h' = pg_translator h \<and> pg_connection h' = pg_connection h"
  by (auto simp: getStat_def Let_def split: if_splits)

lemma getTargetBitrate_keeps:
  "getTargetBitrate now h = Some (v, h') \<Longrightarrow> pg_translator h' = pg_translator h \<and> pg_connection h' = pg_connection h"
  by (auto simp: getTargetBitrate_def Let_def split: if_splits option.splits)

lemma recalculate_keeps:
  "recalculatePaddingRate now h = Some h' \<Longrightarrow> pg_translator h' = pg_translator h \<and> pg_connection h' = pg_connection h"
  by (auto simp: recalculatePaddingRate_def set_padding_packets_def Let_def split: if_splits option.splits prod.splits
      dest!: getStat_keeps getTargetBitrate_keeps)

lemma onVideoPacket_pads:
  "onVideoPacket now packet h = Some (h', os) \<Longrightarrow> pads (pg_translator h) os (pg_translator h') \<and> pg_connection h' = pg_connection h"
  by (auto simp: onVideoPacket_def pads_Nil split: if_splits option.splits dest!: recalculate_keeps onPacketWithMarkerSet_pads)

definition pg_video :: "dataPacket \<Rightarrow> bool" where
  "pg_video packet \<longleftrightarrow> packet_type packet = VIDEO_PACKET \<and> \<not> isRtcp (data packet) 0"

lemma pg_write_numbers:
  assumes "pg_write now packet h = Some (h', os)" "pg_video packet" "pg_connection h"
  defines "sn \<equiv> snt_get (getSeqNumber (data packet)) False (pg_translator h)"
  shows "numbers os = sn_output (fst sn) # map sn_output (fst (generates (length (numbers os) - 1) (snd sn)))"
    "pg_translator h' = snd (generates (length (numbers os) - 1) (snd sn))" "pg_connection h'"
proof -
  obtain b p1 h1 where hi: "isHigherSequenceNumber packet h = (b, p1, h1)" by (cases "isHigherSequenceNumber packet h")
  then have h1: "pg_translator h1 = snd sn" "getSeqNumber (data p1) = sn_output (fst sn)" "pg_connection h1 = pg_connection h"
    by (auto simp: isHigherSequenceNumber_def sn_def case_prod_beta Let_def split: if_splits)
  define h2 where "h2 = (if \<not> first_packet_received h1 then h1\<lparr>started_at := now\<rparr> else h1)\<lparr>first_packet_received := True\<rparr>"
  have h2: "pg_translator h2 = snd sn" "pg_connection h2" using h1 assms(3) by (simp_all add: h2_def)
  have w: "(if b then map_option (\<lambda>(h, os). (h, PgUnschedule # PgFire (FireWrite p1) # os)) (onVideoPacket now p1 h2)
     else Some (h2, [PgUnschedule, PgFire (FireWrite p1)])) = Some (h', os)"
    using assms(1,2,3) by (cases "first_packet_received h1"; cases b) (simp_all add: pg_write_def pg_video_def hi h2_def Let_def)
  have "\<exists>os'. os = PgUnschedule # PgFire (FireWrite p1) # os' \<and> pads (snd sn) os' (pg_translator h') \<and> pg_connection h'"
  proof (cases b)
    case True
    then obtain os' where "onVideoPacket now p1 h2 = Some (h', os')" "os = PgUnschedule # PgFire (FireWrite p1) # os'"
      using w by auto
    then show ?thesis using onVideoPacket_pads [of now p1 h2 h' os'] h2 by auto
  next
    case False
    then show ?thesis using w h2 pads_Nil [of "[]" "snd sn"] by auto
  qed
  then show "numbers os = sn_output (fst sn) # map sn_output (fst (generates (length (numbers os) - 1) (snd sn)))"
    "pg_translator h' = snd (generates (length (numbers os) - 1) (snd sn))" "pg_connection h'"
    by (auto simp: pads_def h1(2))
qed

text \<open>
  A stream through the handler: its packets, the runs of the scheduled task (at any time, with any
  packet, so more of them than the timer allows), and notifications of the pipeline. For each event
  what is put out.
\<close>

datatype pg_event = PgPacket int dataPacket | PgTimer int dataPacket
  | PgNotify int "u32 \<times> u32" stat_node bool "u32 option"

fun pg_step :: "pg_event \<Rightarrow> paddingGenerator \<Rightarrow> (paddingGenerator \<times> pg_out list) option" where
  "pg_step (PgPacket now p) h = pg_write now p h"
| "pg_step (PgTimer now p) h = onPacketWithMarkerSet now p h"
| "pg_step (PgNotify now ssrcs st on processor) h = Some (pg_notifyUpdate now ssrcs st on processor h, [])"

fun pg_run :: "pg_event list \<Rightarrow> paddingGenerator \<Rightarrow> (pg_out list list \<times> paddingGenerator) option" where
  "pg_run [] h = Some ([], h)"
| "pg_run (e # es) h = (case pg_step e h of None \<Rightarrow> None
     | Some (h, os) \<Rightarrow> map_option (\<lambda>(oss, h). (os # oss, h)) (pg_run es h))"

text \<open>The packets of a run; and fewer than 4000 numbers are used after one before the next.\<close>

fun pg_packets :: "pg_event list \<Rightarrow> dataPacket list" where
  "pg_packets [] = []"
| "pg_packets (PgPacket now p # es) = p # pg_packets es"
| "pg_packets (e # es) = pg_packets es"

fun few_paddings :: "nat \<Rightarrow> pg_event list \<Rightarrow> pg_out list list \<Rightarrow> bool" where
  "few_paddings g (PgPacket now p # es) (os # oss) \<longleftrightarrow>
     length (numbers os) < 4000 \<and> few_paddings (length (numbers os)) es oss"
| "few_paddings g (e # es) (os # oss) \<longleftrightarrow>
     g + length (numbers os) < 4000 \<and> few_paddings (g + length (numbers os)) es oss"
| "few_paddings g _ _ \<longleftrightarrow> True"

text \<open>The operations of the translator behind a run.\<close>

fun pg_ops :: "pg_event list \<Rightarrow> pg_out list list \<Rightarrow> snt_op list" where
  "pg_ops (PgPacket now p # es) (os # oss) =
     Packet (getSeqNumber (data p)) False # replicate (length (numbers os) - 1) Generate @ pg_ops es oss"
| "pg_ops (e # es) (os # oss) = replicate (length (numbers os)) Generate @ pg_ops es oss"
| "pg_ops _ _ = []"

lemma pg_ops_paced:
  "few_paddings g es oss \<Longrightarrow> g' \<le> g \<Longrightarrow> g < 4000
    \<Longrightarrow> consecutive_from (l + 1) (map (\<lambda>p. getSeqNumber (data p)) (pg_packets es))
    \<Longrightarrow> paced (pg_ops es oss) l g'"
proof (induction g es oss arbitrary: l g' rule: few_paddings.induct)
  case (1 g now p es os oss)
  let ?k = "length (numbers os) - 1"
  have f: "few_paddings (length (numbers os)) es oss" "length (numbers os) < 4000" using 1(2) by simp_all
  have c: "consecutive_from (l + 1 + 1) (map (\<lambda>p. getSeqNumber (data p)) (pg_packets es))" using 1(5) by simp
  have "?k \<le> length (numbers os)" by simp
  then have "paced (pg_ops es oss) (l + 1) ?k" using 1(1) [OF f(1) _ f(2) c] by blast
  then have "paced (replicate ?k Generate @ pg_ops es oss) (l + 1) 0"
    using f(2) by (simp add: paced_generates)
  then show ?case using 1 by simp
qed (simp_all add: paced_generates)

lemma pg_run_numbers:
  assumes "pg_run es h = Some (oss, h')" "list_all pg_video (pg_packets es)" "pg_connection h" "snt_inv (pg_translator h)"
    "paced (pg_ops es oss) (last_input_sequence_number (pg_translator h)) (unat (offset (pg_translator h)))"
  shows "concat (map numbers oss) = map sn_output (filter sent (fst (snt_run (pg_ops es oss) (pg_translator h))))"
  using assms
proof (induction es arbitrary: h oss)
  case Nil
  then show ?case by simp
next
  case (Cons e es)
  obtain h1 os oss1 where 1: "pg_step e h = Some (h1, os)" "pg_run es h1 = Some (oss1, h')" "oss = os # oss1"
    using Cons.prems(1) by (auto split: option.splits)
  let ?t = "pg_translator h" and ?rest = "pg_ops es oss1"
  have "\<exists>xs. pg_ops (e # es) oss = xs @ ?rest
      \<and> pg_connection h1 \<and> pg_translator h1 = snd (snt_run xs ?t)
      \<and> (paced xs (last_input_sequence_number ?t) (unat (offset ?t)) \<longrightarrow>
           numbers os = map sn_output (filter sent (fst (snt_run xs ?t))))"
  proof (cases e)
    case (PgPacket now p)
    have v: "pg_video p" using Cons.prems(2) by (simp add: PgPacket)
    have w: "pg_write now p h = Some (h1, os)" using 1(1) by (simp add: PgPacket)
    note w = pg_write_numbers [OF w v Cons.prems(3)]
    let ?n = "getSeqNumber (data p)" and ?k = "length (numbers os) - 1"
    let ?xs = "Packet ?n False # replicate ?k Generate"
    have "numbers os = map sn_output (filter sent (fst (snt_run ?xs ?t)))"
      if p: "paced ?xs (last_input_sequence_number ?t) (unat (offset ?t))"
    proof -
      have "sent (fst (snt_get ?n False ?t))"
        using snt_get_ahead_valid [OF Cons.prems(4), of ?n] p by (simp add: sent_def)
      then show ?thesis using w(1) by (simp add: snt_run_Cons generates_sent)
    qed
    then show ?thesis
      using w(2,3) by (intro exI [of _ ?xs] conjI impI) (simp_all add: 1(3) PgPacket snt_run_Cons del: paced.simps)
  next
    case (PgTimer now p)
    have "pads ?t os (pg_translator h1) \<and> pg_connection h1 = pg_connection h"
      using onPacketWithMarkerSet_pads [of now p h h1 os] 1(1) by (simp add: PgTimer)
    then show ?thesis
      using Cons.prems(3) by (intro exI [of _ "replicate (length (numbers os)) Generate"])
        (simp add: 1(3) PgTimer pads_def generates_sent)
  next
    case (PgNotify now ssrcs st on processor)
    then show ?thesis
      using 1(1) Cons.prems(3) by (intro exI [of _ "[]"])
        (auto simp: 1(3) pg_notifyUpdate_def enablePadding_def disablePadding_def Let_def split: option.splits)
  qed
  then obtain xs where xs: "pg_ops (e # es) oss = xs @ ?rest" "pg_connection h1" "pg_translator h1 = snd (snt_run xs ?t)"
    "paced xs (last_input_sequence_number ?t) (unat (offset ?t)) \<Longrightarrow>
       numbers os = map sn_output (filter sent (fst (snt_run xs ?t)))" by blast
  note a = paced_append [OF Cons.prems(4) Cons.prems(5) [unfolded xs(1)]]
  have v: "list_all pg_video (pg_packets es)" using Cons.prems(2) by (cases e) simp_all
  have rest: "concat (map numbers oss1) = map sn_output (filter sent (fst (snt_run ?rest (snd (snt_run xs ?t)))))"
    using Cons.IH [OF 1(2) v xs(2)] a(2,3) unfolding xs(3) by blast
  have "concat (map numbers oss) = numbers os @ concat (map numbers oss1)" by (simp add: 1(3))
  also have "\<dots> = map sn_output (filter sent (fst (snt_run xs ?t)))
      @ map sn_output (filter sent (fst (snt_run ?rest (snd (snt_run xs ?t)))))"
    by (rule arg_cong2 [of _ _ _ _ append, OF xs(4) [OF a(1)] rest])
  also have "\<dots> = map sn_output (filter sent (fst (snt_run (xs @ ?rest) ?t)))"
    by (simp only: snt_run_append fst_conv filter_append map_append)
  finally show ?case unfolding xs(1) .
qed

text \<open>
  C27: Padding fits into the stream: the packets of a video stream without losses and the padding
  packets put between them, after a frame or by the scheduled task, of any sizes and in any order
  with notifications of the pipeline, leave with consecutive numbers. It is stated for a handler
  that has its connection and has seen a packet, and for fewer than 4000 numbers used between two packets of
  the stream.
\<close>
theorem padded_stream_has_no_gaps:
  assumes "pg_run es h = Some (oss, h')" "list_all pg_video (pg_packets es)" "pg_connection h" "snt_inv (pg_translator h)"
    "consecutive_from (last_input_sequence_number (pg_translator h) + 1) (map (\<lambda>p. getSeqNumber (data p)) (pg_packets es))"
    "unat (offset (pg_translator h)) < 4000" "few_paddings (unat (offset (pg_translator h))) es oss"
  shows "concat (map numbers oss)
    = map (\<lambda>k. last_output_sequence_number (pg_translator h) + offset (pg_translator h) + 1 + of_nat k)
        [0..<length (concat (map numbers oss))]"
proof -
  note p = pg_ops_paced [OF assms(7) order_refl assms(6,5)]
  have s: "concat (map numbers oss) = map sn_output (filter sent (fst (snt_run (pg_ops es oss) (pg_translator h))))"
    by (rule pg_run_numbers [OF assms(1-4) p])
  note g = no_gaps [OF assms(4) p]
  show ?thesis unfolding s g by (simp only: length_map length_upt minus_nat.diff_0)
qed

subsection \<open>Sizes\<close>

text \<open>
  The padding after a marker is what was asked for: the packets of 255 bytes and the last one, with
  their headers, are together \<open>bytes_per_marker\<close> bytes, whenever the rest has room for a header.
  Otherwise the size of the last packet wraps around, and 256 bytes too many are sent.
\<close>
theorem padding_packets_have_the_size:
  assumes "unat (rtp_header_length h) \<le> 100" "h' = set_padding_packets bytes_per_marker h"
  defines "full \<equiv> 255 + unat (rtp_header_length h)"
  shows "unat (number_of_full_padding_packets h') * full
      + (unat (last_padding_packet_size h') + unat (rtp_header_length h))
    = unat bytes_per_marker + (if unat (rtp_header_length h) \<le> unat bytes_per_marker mod full then 0 else 256)"
proof -
  let ?l = "unat (rtp_header_length h)" and ?b = "unat bytes_per_marker"
  have "unat (ucast kMaxPaddingSize + rtp_header_length h :: u32) = full"
    using assms(1) by (simp add: kMaxPaddingSize_def full_def unat_word_ariths)
  then have f: "unat (ucast (ucast kMaxPaddingSize + rtp_header_length h :: u32) :: u64) = full"
    using assms(1) by (simp add: unat_ucast_mod full_def)
  have n: "unat (number_of_full_padding_packets h') = ?b div full"
    by (simp add: assms(2) set_padding_packets_def Let_def unat_div f)
  have r: "?b mod full < full" by (simp add: full_def)
  let ?x = "bytes_per_marker mod ucast (ucast kMaxPaddingSize + rtp_header_length h :: u32)"
  have x: "unat ?x = ?b mod full" by (simp add: unat_mod f)
  have "unat (ucast (rtp_header_length h) :: u64) = ?l" using assms(1) by (simp add: unat_ucast_mod)
  then have "unat (?x - ucast (rtp_header_length h)) = (if ?l \<le> ?b mod full then ?b mod full - ?l else ?b mod full + 18446744073709551616 - ?l)"
    by (simp add: unat_sub_if' x)
  moreover have "last_padding_packet_size h' = ucast (?x - ucast (rtp_header_length h))"
    by (simp add: assms(2) set_padding_packets_def Let_def)
  ultimately have "unat (last_padding_packet_size h')
      = (if ?l \<le> ?b mod full then ?b mod full - ?l else ?b mod full + 18446744073709551616 - ?l) mod 256"
    by (simp add: unat_ucast_mod)
  also have "\<dots> = (if ?l \<le> ?b mod full then ?b mod full - ?l else ?b mod full + 256 - ?l)"
  proof (cases "?l \<le> ?b mod full")
    case True
    then have "?b mod full - ?l < 256" using r True unfolding full_def by linarith
    then show ?thesis using True by simp
  next
    case False
    then have "?b mod full + 18446744073709551616 - ?l = (?b mod full + 256 - ?l) + 256 * 72057594037927935" using assms(1) by simp
    moreover have "?b mod full + 256 - ?l < 256" using False assms(1) by simp
    ultimately show ?thesis using False by (simp only: mod_mult_self2 mod_less if_False)
  qed
  finally have l: "unat (last_padding_packet_size h') = (if ?l \<le> ?b mod full then ?b mod full - ?l else ?b mod full + 256 - ?l)" .
  have "?b div full * full + ?b mod full = ?b" by simp
  then show ?thesis using assms(1) unfolding n l by (auto split: if_splits)
qed

theorem padding_packets_have_the_size_witness:
  "unat (last_padding_packet_size (set_padding_packets 272 (new_RtpPaddingGeneratorHandler [] 0))) = 249"
proof -
  have "unat (rtp_header_length (new_RtpPaddingGeneratorHandler [] 0)) = 12" "unat (272 :: u64) = 272"
    by (simp_all add: new_RtpPaddingGeneratorHandler_def)
  moreover have "number_of_full_padding_packets (set_padding_packets 272 (new_RtpPaddingGeneratorHandler [] 0)) = 1" by code_simp
  ultimately show ?thesis
    using padding_packets_have_the_size [OF _ refl, of "new_RtpPaddingGeneratorHandler [] 0" 272] by simp
qed

definition padding_ready :: paddingGenerator where
  "padding_ready = (pg_notifyUpdate 0 (7, 8) (StatNode Plain []) True None (new_RtpPaddingGeneratorHandler [] 0))
     \<lparr>pg_translator := snd (snt_get 10 False new_translator), number_of_full_padding_packets := 2,
       last_padding_packet_size := 30\<rparr>"

definition marked :: "u16 \<Rightarrow> dataPacket" where
  "marked n = (sample_packet n 7)\<lparr>data := setMarker 1 (data (sample_packet n 7))\<rparr>"

theorem padded_stream_has_no_gaps_witness:
  "\<exists>oss h'. pg_run [PgPacket 50000000 (marked 11), PgTimer 390000000 (marked 11), PgPacket 400000000 (sample_packet 12 7)]
      padding_ready = Some (oss, h')
    \<and> concat (map numbers oss) = [11, 12, 13, 14, 15, 16, 17, 18]"
proof -
  let ?es = "[PgPacket 50000000 (marked 11), PgTimer 390000000 (marked 11), PgPacket 400000000 (sample_packet 12 7)]"
  have "map_option (\<lambda>(oss, h'). map (\<lambda>os. length (numbers os)) oss) (pg_run ?es padding_ready) = Some [4, 3, 1]"
    by code_simp
  then obtain oss h' where r: "pg_run ?es padding_ready = Some (oss, h')" "map (\<lambda>os. length (numbers os)) oss = [4, 3, 1]"
    by auto
  have t: "pg_connection padding_ready" "pg_translator padding_ready = snd (snt_get 10 False new_translator)"
    by (simp_all add: padding_ready_def pg_notifyUpdate_def new_RtpPaddingGeneratorHandler_def enablePadding_def Let_def)
  have l: "few_paddings (unat (offset (pg_translator padding_ready))) ?es oss"
    using r(2) by (auto simp: map_eq_Cons_conv t first_packet)
  have c: "length (concat (map numbers oss)) = 8" using r(2) by (auto simp: map_eq_Cons_conv)
  have v: "list_all pg_video (pg_packets ?es)"
    by (simp add: pg_video_def marked_def sample_packet_def new_dataPacket_def zero_mem_def isRtcp_def getPacketType_def
        setSSRC_def setSeqNumber_def setMarker_def store16_def store32_def store8_def put_bits_def)
  have n: "consecutive_from (last_input_sequence_number (pg_translator padding_ready) + 1)
      (map (\<lambda>p. getSeqNumber (data p)) (pg_packets ?es))"
    by (simp add: t first_packet marked_def)
  from padded_stream_has_no_gaps [OF r(1) v t(1) _ n _ l] r(1) c
  show ?thesis by (intro exI [of _ oss] exI [of _ h']) (simp add: t first_packet upt_rec)
qed

end
