(* ===== verification/RtpSlideShow.thy ===== *)
theory RtpSlideShow
  imports Renumbering RtpUtils
begin

text \<open>
  \<^verbatim>\<open>rtp/RtpSlideShowHandler.cpp\<close>: in slide show mode only key frames are sent; the last complete key frame is
  kept and sent again when none has come for five seconds. The handler keeps pointers to packets that
  it has also passed on and rewrites them when it sends them again: packets are objects in a memory.
  \<open>codec_of\<close> is the answer of the session description.
\<close>

definition kMaxKeyframeSize :: nat where "kMaxKeyframeSize = 20"
definition kFallbackKeyframeTimeout :: int where "kFallbackKeyframeTimeout = 5000000000"

record slideShow =
  ss_connection :: "(u32 \<times> u32) option"
  ss_translator :: translator
  highest_seq_num_initialized :: bool
  is_building_keyframe :: bool
  ss_highest_seq_num :: u16
  packets_received_while_building :: u16
  first_keyframe_seq_num :: u16
  slideshow_is_active :: bool
  current_keyframe_timestamp :: u32
  last_timestamp_received :: u32
  keyframe_buffer :: "nat option list"
  stored_keyframe :: "nat list"
  last_keyframe_sent_time :: int
  packet_heap :: "nat \<Rightarrow> dataPacket"

text \<open>\<open>ss_connection\<close> holds the SSRCs of the video sink and source of the connection, \<open>None\<close> for a null pointer.\<close>

definition new_RtpSlideShowHandler :: "int \<Rightarrow> (nat \<Rightarrow> dataPacket) \<Rightarrow> slideShow" where
  "new_RtpSlideShowHandler now heap = \<lparr>ss_connection = None, ss_translator = new_translator,
     highest_seq_num_initialized = False, is_building_keyframe = False, ss_highest_seq_num = 0,
     packets_received_while_building = 0, first_keyframe_seq_num = 0, slideshow_is_active = False,
     current_keyframe_timestamp = 0, last_timestamp_received = 0,
     keyframe_buffer = replicate kMaxKeyframeSize None, stored_keyframe = [], last_keyframe_sent_time = now,
     packet_heap = heap\<rparr>"

definition resetKeyframeBuilding :: "slideShow \<Rightarrow> slideShow" where
  "resetKeyframeBuilding h = h\<lparr>packets_received_while_building := 0, first_keyframe_seq_num := 0,
     is_building_keyframe := False, keyframe_buffer := replicate kMaxKeyframeSize None\<rparr>"

subsection \<open>Key frames\<close>

definition isVP8Keyframe :: "dataPacket \<Rightarrow> slideShow \<Rightarrow> bool \<times> slideShow" where
  "isVP8Keyframe packet h =
     (let seq_num = getSeqNumber (data packet); timestamp = getTimestamp (data packet)
      in if is_keyframe packet \<and> (sequenceNumberLessThan (ss_highest_seq_num h) seq_num \<or> \<not> highest_seq_num_initialized h)
         then let h = h\<lparr>current_keyframe_timestamp := timestamp\<rparr>;
                  h = resetKeyframeBuilding h;
                  h = h\<lparr>is_building_keyframe := True\<rparr>
              in (True, h\<lparr>first_keyframe_seq_num := seq_num\<rparr>)
         else (timestamp = current_keyframe_timestamp h, h))"

text \<open>
  The loop that makes room in front for an earlier packet counts from \<open>seq_num\<close> to the member that was just
  set to \<open>seq_num\<close>.
\<close>

lemma first_not_last: "unat (w :: u16) = 65535 \<Longrightarrow> unat w < unat (v :: u16) \<Longrightarrow> False"
  using unat_u16_less [of v] by (simp del: unat_u16_less)

function pad_front :: "u16 \<Rightarrow> u16 \<Rightarrow> nat option list \<Rightarrow> nat option list" where
  "pad_front index first buffer = (if index < first then pad_front (index + 1) first (buffer @ [None]) else buffer)"
  by pat_completeness auto
termination
  by (relation "measure (\<lambda>(index, first, b). unat first - unat index)")
     (auto simp: word_less_nat_alt unat_Suc_u16 simp del: unat_u16_less split: if_splits dest!: first_not_last)

declare pad_front.simps [simp del]

definition isVP9Keyframe :: "dataPacket \<Rightarrow> slideShow \<Rightarrow> bool \<times> slideShow" where
  "isVP9Keyframe packet h =
     (let seq_num = getSeqNumber (data packet); timestamp = getTimestamp (data packet)
      in if is_keyframe packet
         then let h = (if sequenceNumberLessThan seq_num (first_keyframe_seq_num h)
                       then let h = h\<lparr>first_keyframe_seq_num := seq_num\<rparr>
                            in h\<lparr>keyframe_buffer := pad_front seq_num (first_keyframe_seq_num h) (keyframe_buffer h)\<rparr>
                       else h)
              in (True, if timestamp \<noteq> current_keyframe_timestamp h
                        then let h = resetKeyframeBuilding h;
                                 h = h\<lparr>first_keyframe_seq_num := seq_num\<rparr>;
                                 h = h\<lparr>current_keyframe_timestamp := timestamp\<rparr>
                             in h\<lparr>is_building_keyframe := True\<rparr>
                        else h)
         else (False, h))"

definition storeKeyframePacket :: "nat \<Rightarrow> slideShow \<Rightarrow> slideShow" where
  "storeKeyframePacket pid h =
     (let index = unat (getSeqNumber (data (packet_heap h pid)) - first_keyframe_seq_num h)
      in if index < length (keyframe_buffer h)
         then h\<lparr>keyframe_buffer := (keyframe_buffer h)[index := Some pid]\<rparr> else h)"

text \<open>The packets from the first on, up to the one with the marker; \<open>None\<close> if the frame is not complete.\<close>

fun collect_keyframe :: "(nat \<Rightarrow> dataPacket) \<Rightarrow> u32 \<Rightarrow> nat option list \<Rightarrow> nat list option" where
  "collect_keyframe heap ts [] = None"
| "collect_keyframe heap ts (None # b) = None"
| "collect_keyframe heap ts (Some pid # b) =
     (if getTimestamp (data (heap pid)) \<noteq> ts then None
      else if getMarker (data (heap pid)) \<noteq> 0 then Some [pid]
      else map_option ((#) pid) (collect_keyframe heap ts b))"

definition consolidateKeyframe :: "slideShow \<Rightarrow> slideShow" where
  "consolidateKeyframe h =
     (let n = packets_received_while_building h; h = h\<lparr>packets_received_while_building := n + 1\<rparr>
      in if unat n > kMaxKeyframeSize then resetKeyframeBuilding h
         else case collect_keyframe (packet_heap h) (current_keyframe_timestamp h)
                (take kMaxKeyframeSize (keyframe_buffer h)) of
             None \<Rightarrow> h
           | Some packets \<Rightarrow> resetKeyframeBuilding (h\<lparr>stored_keyframe := packets\<rparr>))"

subsection \<open>Sending\<close>

text \<open>A packet put out: the object and its bytes at that moment.\<close>

fun send_stored :: "nat list \<Rightarrow> slideShow \<Rightarrow> slideShow \<times> fire list" where
  "send_stored [] h = (h, [])"
| "send_stored (pid # pids) h =
     (let packet = packet_heap h pid;
          packet = packet\<lparr>data := setTimestamp (last_timestamp_received h) (data packet)\<rparr>;
          (sequence_number, t) = snt_generate (ss_translator h);
          packet = packet\<lparr>data := setSeqNumber (sn_output sequence_number) (data packet)\<rparr>;
          (h, fs) = send_stored pids (h\<lparr>ss_translator := t, packet_heap := (packet_heap h)(pid := packet)\<rparr>)
      in (h, FireWrite packet # fs))"

definition maybeSendStoredKeyframe :: "int \<Rightarrow> slideShow \<Rightarrow> slideShow \<times> fire list" where
  "maybeSendStoredKeyframe now h =
     (if now - last_keyframe_sent_time h > kFallbackKeyframeTimeout
      then let (h, fs) = send_stored (stored_keyframe h) h in (h\<lparr>last_keyframe_sent_time := now\<rparr>, fs)
      else (h, []))"

definition maybeUpdateHighestSeqNum :: "u16 \<Rightarrow> slideShow \<Rightarrow> slideShow" where
  "maybeUpdateHighestSeqNum seq_num h =
     (if sequenceNumberLessThan (ss_highest_seq_num h) seq_num \<or> \<not> highest_seq_num_initialized h
      then h\<lparr>ss_highest_seq_num := seq_num, highest_seq_num_initialized := True\<rparr> else h)"

definition detect_keyframe :: "(u8 \<Rightarrow> string option) \<Rightarrow> dataPacket \<Rightarrow> slideShow \<Rightarrow> bool \<times> slideShow" where
  "detect_keyframe codec_of packet h =
     (if codec_of (getPayloadType (data packet)) = Some ''VP8'' then isVP8Keyframe packet h
      else if codec_of (getPayloadType (data packet)) = Some ''VP9'' then isVP9Keyframe packet h
      else (False, h))"

text \<open>What the slide show does with a packet before its number is translated.\<close>

definition slideshow_step :: "int \<Rightarrow> nat \<Rightarrow> bool \<Rightarrow> slideShow \<Rightarrow> slideShow \<times> fire list" where
  "slideshow_step now pid keyframe h =
     (if slideshow_is_active h
      then let h = (if keyframe then storeKeyframePacket pid h else h);
               h = (if is_building_keyframe h then consolidateKeyframe h else h)
           in maybeSendStoredKeyframe now h
      else (h, []))"

text \<open>The object \<open>pid\<close> arrives with the contents \<open>packet\<close>.\<close>

definition ss_write :: "(u8 \<Rightarrow> string option) \<Rightarrow> int \<Rightarrow> nat \<Rightarrow> dataPacket \<Rightarrow> slideShow \<Rightarrow> (slideShow \<times> fire list) option" where
  "ss_write codec_of now pid packet h =
     (let h = h\<lparr>packet_heap := (packet_heap h)(pid := packet)\<rparr>
      in if packet_type packet \<noteq> VIDEO_PACKET \<or> isRtcp (data packet) 0 then Some (h, [FireWrite packet])
         else if ss_connection h = None then None
         else let h = h\<lparr>last_timestamp_received := getTimestamp (data packet)\<rparr>;
                  packet_seq_num = getSeqNumber (data packet);
                  (keyframe, h) = detect_keyframe codec_of packet h;
                  should_skip_packet = (slideshow_is_active h \<and> \<not> keyframe);
                  (h, fs) = slideshow_step now pid keyframe h;
                  h = maybeUpdateHighestSeqNum (getSeqNumber (data (packet_heap h pid))) h;
                  (info, t) = snt_get packet_seq_num should_skip_packet (ss_translator h);
                  h = h\<lparr>ss_translator := t\<rparr>
              in if \<not> should_skip_packet \<and> sn_type info = Valid
                 then let packet = packet_heap h pid;
                          packet = packet\<lparr>data := setSeqNumber (sn_output info) (data packet)\<rparr>
                      in Some (h\<lparr>packet_heap := (packet_heap h)(pid := packet), last_keyframe_sent_time := now\<rparr>,
                               fs @ [FireWrite packet])
                 else Some (h, fs))"

text \<open>
  Reports and requests on their way back: for each block the numbers are translated back.
\<close>

definition ss_translate_block :: "translator \<Rightarrow> nat \<Rightarrow> mem \<times> unit \<Rightarrow> mem \<times> unit" where
  "ss_translate_block t p st =
     (let m = fst st
      in if getPacketType m p = RTCP_Receiver_PT
         then let incoming = getHighestSeqnum m p; input = snt_reverse incoming t
              in if sn_type input \<noteq> Valid then st
                 else let m = (if sequenceNumberLessThan (sn_input input) incoming
                               then setSeqnumCycles p (getSeqnumCycles m p - 1) m else m)
                      in (setHighestSeqnum p (sn_input input) m, ())
         else if getPacketType m p = RTCP_RTP_Feedback_PT
         then let input = snt_reverse (getNackPid m p) t
              in if sn_type input = Valid then (setNackPid p (sn_input input) m, ()) else st
         else st)"

definition ss_read :: "dataPacket \<Rightarrow> slideShow \<Rightarrow> fire list option" where
  "ss_read packet h =
     (case ss_connection h of None \<Rightarrow> None
      | Some (sink, source) \<Rightarrow>
          if sink \<noteq> getSourceSSRC (data packet) 0 then Some [FireRead packet]
          else Some [FireRead (fst (forEachRRBlock (ss_translate_block (ss_translator h)) packet ()))])"

text \<open>The mode; switching the feedback reports of the connection is the boolean in the result.\<close>

definition setSlideShowMode :: "int \<Rightarrow> bool \<Rightarrow> slideShow \<Rightarrow> (slideShow \<times> bool option \<times> fire list) option" where
  "setSlideShowMode now active h =
     (if slideshow_is_active h = active then Some (h, None, [])
      else let h = resetKeyframeBuilding (h\<lparr>last_keyframe_sent_time := now\<rparr>)
           in case ss_connection h of None \<Rightarrow> None
              | Some (sink, source) \<Rightarrow>
                  Some (h\<lparr>slideshow_is_active := active\<rparr>, Some (\<not> active),
                        [FireRead (createPLI (word_of_int (now div 1000000)) sink source)]))"

definition ss_notifyUpdate :: "int \<Rightarrow> (u32 \<times> u32) option \<Rightarrow> bool \<Rightarrow> bool \<Rightarrow> slideShow \<Rightarrow> (slideShow \<times> bool option \<times> fire list) option" where
  "ss_notifyUpdate now connection fallback manual h =
     (let h = (if ss_connection h = None then h\<lparr>ss_connection := connection\<rparr> else h)
      in if ss_connection h = None then None else setSlideShowMode now (fallback \<or> manual) h)"


subsection \<open>Numbers\<close>

text \<open>The first of the stored packets as it goes out, and what is left.\<close>

definition resent :: "nat \<Rightarrow> slideShow \<Rightarrow> dataPacket" where
  "resent pid h = (packet_heap h pid)\<lparr>data := setSeqNumber (sn_output (fst (snt_generate (ss_translator h))))
     (setTimestamp (last_timestamp_received h) (data (packet_heap h pid)))\<rparr>"

definition after_resent :: "nat \<Rightarrow> slideShow \<Rightarrow> slideShow" where
  "after_resent pid h = h\<lparr>ss_translator := snd (snt_generate (ss_translator h)),
     packet_heap := (packet_heap h)(pid := resent pid h)\<rparr>"

lemma send_stored_Cons:
  "send_stored (pid # pids) h = (fst (send_stored pids (after_resent pid h)),
     FireWrite (resent pid h) # snd (send_stored pids (after_resent pid h)))"
  by (simp add: resent_def after_resent_def Let_def case_prod_beta)

declare send_stored.simps(2) [simp del]

lemma after_resent_fields [simp]:
  "ss_translator (after_resent pid h) = snd (snt_generate (ss_translator h))"
  "ss_connection (after_resent pid h) = ss_connection h"
  "slideshow_is_active (after_resent pid h) = slideshow_is_active h"
  "last_timestamp_received (after_resent pid h) = last_timestamp_received h"
  "stored_keyframe (after_resent pid h) = stored_keyframe h"
  "packet_heap (after_resent pid h) = (packet_heap h)(pid := resent pid h)"
  by (simp_all add: after_resent_def)

lemma getSeqNumber_resent [simp]: "getSeqNumber (data (resent pid h)) = sn_output (fst (snt_generate (ss_translator h)))"
  by (simp add: resent_def)

lemma send_stored_numbers:
  "map (\<lambda>p. getSeqNumber (data p)) (written (snd (send_stored pids h)))
     = map sn_output (fst (generates (length pids) (ss_translator h)))"
  "ss_translator (fst (send_stored pids h)) = snd (generates (length pids) (ss_translator h))"
  "ss_connection (fst (send_stored pids h)) = ss_connection h"
  "length (written (snd (send_stored pids h))) = length pids"
  by (induction pids arbitrary: h) (simp_all add: send_stored_Cons snt_run_Cons)

text \<open>A video packet: what is known before its number is translated, and what then happens.\<close>

definition looked_at :: "(u8 \<Rightarrow> string option) \<Rightarrow> nat \<Rightarrow> dataPacket \<Rightarrow> slideShow \<Rightarrow> bool \<times> slideShow" where
  "looked_at codec_of pid packet h = detect_keyframe codec_of packet
     (h\<lparr>packet_heap := (packet_heap h)(pid := packet), last_timestamp_received := getTimestamp (data packet)\<rparr>)"

definition ss_video :: "dataPacket \<Rightarrow> bool" where
  "ss_video packet \<longleftrightarrow> packet_type packet = VIDEO_PACKET \<and> \<not> isRtcp (data packet) 0"

abbreviation timestamp_of :: "dataPacket \<Rightarrow> u32" where "timestamp_of p \<equiv> getTimestamp (data p)"
abbreviation marker_of :: "dataPacket \<Rightarrow> u8" where "marker_of p \<equiv> getMarker (data p)"

lemma reset_fields [simp]:
  "ss_translator (resetKeyframeBuilding h) = ss_translator h"
  "ss_connection (resetKeyframeBuilding h) = ss_connection h"
  "slideshow_is_active (resetKeyframeBuilding h) = slideshow_is_active h"
  "packet_heap (resetKeyframeBuilding h) = packet_heap h"
  "last_timestamp_received (resetKeyframeBuilding h) = last_timestamp_received h"
  "stored_keyframe (resetKeyframeBuilding h) = stored_keyframe h"
  "last_keyframe_sent_time (resetKeyframeBuilding h) = last_keyframe_sent_time h"
  "current_keyframe_timestamp (resetKeyframeBuilding h) = current_keyframe_timestamp h"
  "keyframe_buffer (resetKeyframeBuilding h) = replicate kMaxKeyframeSize None"
  by (simp_all add: resetKeyframeBuilding_def)

lemma detect_fields [simp]:
  "ss_translator (snd (detect_keyframe codec_of packet h)) = ss_translator h"
  "ss_connection (snd (detect_keyframe codec_of packet h)) = ss_connection h"
  "slideshow_is_active (snd (detect_keyframe codec_of packet h)) = slideshow_is_active h"
  "packet_heap (snd (detect_keyframe codec_of packet h)) = packet_heap h"
  "last_timestamp_received (snd (detect_keyframe codec_of packet h)) = last_timestamp_received h"
  "stored_keyframe (snd (detect_keyframe codec_of packet h)) = stored_keyframe h"
  "last_keyframe_sent_time (snd (detect_keyframe codec_of packet h)) = last_keyframe_sent_time h"
  by (simp_all add: detect_keyframe_def isVP8Keyframe_def isVP9Keyframe_def Let_def)

lemma looked_at_fields [simp]:
  "ss_translator (snd (looked_at codec_of pid packet h)) = ss_translator h"
  "ss_connection (snd (looked_at codec_of pid packet h)) = ss_connection h"
  "slideshow_is_active (snd (looked_at codec_of pid packet h)) = slideshow_is_active h"
  "packet_heap (snd (looked_at codec_of pid packet h)) = (packet_heap h)(pid := packet)"
  "last_timestamp_received (snd (looked_at codec_of pid packet h)) = getTimestamp (data packet)"
  "stored_keyframe (snd (looked_at codec_of pid packet h)) = stored_keyframe h"
  "last_keyframe_sent_time (snd (looked_at codec_of pid packet h)) = last_keyframe_sent_time h"
  by (simp_all add: looked_at_def)

lemma store_fields [simp]:
  "ss_translator (storeKeyframePacket pid h) = ss_translator h"
  "ss_connection (storeKeyframePacket pid h) = ss_connection h"
  "slideshow_is_active (storeKeyframePacket pid h) = slideshow_is_active h"
  "packet_heap (storeKeyframePacket pid h) = packet_heap h"
  "last_timestamp_received (storeKeyframePacket pid h) = last_timestamp_received h"
  "stored_keyframe (storeKeyframePacket pid h) = stored_keyframe h"
  "current_keyframe_timestamp (storeKeyframePacket pid h) = current_keyframe_timestamp h"
  by (simp_all add: storeKeyframePacket_def Let_def)

lemma consolidate_fields [simp]:
  "ss_translator (consolidateKeyframe h) = ss_translator h"
  "ss_connection (consolidateKeyframe h) = ss_connection h"
  "slideshow_is_active (consolidateKeyframe h) = slideshow_is_active h"
  "packet_heap (consolidateKeyframe h) = packet_heap h"
  "last_timestamp_received (consolidateKeyframe h) = last_timestamp_received h"
  by (simp_all add: consolidateKeyframe_def Let_def split: option.splits)

lemma update_fields [simp]:
  "ss_translator (maybeUpdateHighestSeqNum n h) = ss_translator h"
  "ss_connection (maybeUpdateHighestSeqNum n h) = ss_connection h"
  "packet_heap (maybeUpdateHighestSeqNum n h) = packet_heap h"
  "stored_keyframe (maybeUpdateHighestSeqNum n h) = stored_keyframe h"
  by (simp_all add: maybeUpdateHighestSeqNum_def)

lemma slideshow_step_numbers:
  assumes "slideshow_step now pid kf h = (h', fs)"
  shows "map (\<lambda>p. getSeqNumber (data p)) (written fs) = map sn_output (fst (generates (length (written fs)) (ss_translator h)))"
    "ss_translator h' = snd (generates (length (written fs)) (ss_translator h))"
    "ss_connection h' = ss_connection h" "\<not> slideshow_is_active h \<Longrightarrow> fs = []"
  using assms
  by (auto simp: slideshow_step_def maybeSendStoredKeyframe_def Let_def case_prod_beta send_stored_numbers split: if_splits)

lemma ss_write_video:
  assumes "ss_video packet" "ss_connection h \<noteq> None" "looked_at codec_of pid packet h = (kf, h1)"
    "slideshow_step now pid kf h1 = (h2, fs)"
  defines "n \<equiv> getSeqNumber (data packet)" and "skip \<equiv> slideshow_is_active h \<and> \<not> kf"
  shows "\<exists>h'. ss_write codec_of now pid packet h = Some (h', if \<not> skip \<and> sn_type (fst (snt_get n skip (ss_translator h2))) = Valid
        then fs @ [FireWrite ((packet_heap h2 pid)\<lparr>data :=
               setSeqNumber (sn_output (fst (snt_get n skip (ss_translator h2)))) (data (packet_heap h2 pid))\<rparr>)]
        else fs)
      \<and> ss_translator h' = snd (snt_get n skip (ss_translator h2)) \<and> ss_connection h' \<noteq> None
      \<and> stored_keyframe h' = stored_keyframe h2
      \<and> (\<forall>p. timestamp_of (packet_heap h' p) = timestamp_of (packet_heap h2 p)
             \<and> marker_of (packet_heap h' p) = marker_of (packet_heap h2 p))"
proof -
  let ?h = "h\<lparr>packet_heap := (packet_heap h)(pid := packet), last_timestamp_received := getTimestamp (data packet)\<rparr>"
  have d: "detect_keyframe codec_of packet ?h = (kf, h1)" using assms(3) by (simp add: looked_at_def)
  have a: "slideshow_is_active h1 = slideshow_is_active h" "ss_connection h1 = ss_connection h"
    using detect_fields(2,3) [of codec_of packet ?h] d by simp_all
  have v: "\<not> (packet_type packet \<noteq> VIDEO_PACKET \<or> isRtcp (data packet) 0)" using assms(1) by (simp add: ss_video_def)
  have c: "ss_connection h2 = ss_connection h" using slideshow_step_numbers(3) [OF assms(4)] a by simp
  then have c': "ss_connection h2 \<noteq> None" using assms(2) by simp
  show ?thesis
    using v assms(2) c' unfolding ss_write_def
    by (simp add: d a assms(4) case_prod_beta Let_def n_def skip_def)
qed

text \<open>One packet through the handler: the numbers it puts out, and the operations of its translator.\<close>

type_synonym arrival = "int \<times> nat \<times> dataPacket"

definition ss_numbers :: "(u8 \<Rightarrow> string option) \<Rightarrow> arrival \<Rightarrow> slideShow \<Rightarrow> slideShow \<times> u16 list" where
  "ss_numbers codec_of e h = (case e of (now, pid, packet) \<Rightarrow> case ss_write codec_of now pid packet h of
     None \<Rightarrow> (h, []) | Some (h', fs) \<Rightarrow> (h', map (\<lambda>p. getSeqNumber (data p)) (written fs)))"

definition ss_ops :: "(u8 \<Rightarrow> string option) \<Rightarrow> arrival \<Rightarrow> slideShow \<Rightarrow> snt_op list" where
  "ss_ops codec_of e h = (case e of (now, pid, packet) \<Rightarrow> case looked_at codec_of pid packet h of
     (kf, h1) \<Rightarrow> replicate (length (written (snd (slideshow_step now pid kf h1)))) Generate
       @ [Packet (getSeqNumber (data packet)) (slideshow_is_active h \<and> \<not> kf)])"

interpretation ss: renumbering "ss_numbers codec_of" "ss_ops codec_of" ss_translator "\<lambda>h. ss_connection h \<noteq> None"
  "\<lambda>e. ss_video (snd (snd e))" for codec_of
proof
  fix h :: slideShow and e :: arrival and codec_of
  obtain now pid packet where e: "e = (now, pid, packet)" by (cases e) blast
  obtain kf h1 where l: "looked_at codec_of pid packet h = (kf, h1)" by (cases "looked_at codec_of pid packet h")
  obtain h2 fs where st: "slideshow_step now pid kf h1 = (h2, fs)" by (cases "slideshow_step now pid kf h1")
  assume c: "ss_connection h \<noteq> None" and v: "ss_video (snd (snd e))"
  let ?n = "getSeqNumber (data packet)" and ?skip = "slideshow_is_active h \<and> \<not> kf"
  obtain h' where w: "ss_write codec_of now pid packet h = Some (h', if \<not> ?skip \<and> sn_type (fst (snt_get ?n ?skip (ss_translator h2))) = Valid
        then fs @ [FireWrite ((packet_heap h2 pid)\<lparr>data :=
               setSeqNumber (sn_output (fst (snt_get ?n ?skip (ss_translator h2)))) (data (packet_heap h2 pid))\<rparr>)]
        else fs)" "ss_translator h' = snd (snt_get ?n ?skip (ss_translator h2))" "ss_connection h' \<noteq> None"
    using ss_write_video [OF v [unfolded e snd_conv] c l st] by blast
  show "ss_connection (fst (ss_numbers codec_of e h)) \<noteq> None"
    using w(3) by (simp only: ss_numbers_def e w(1) prod.case option.case fst_conv) simp
  have t1: "ss_translator h1 = ss_translator h" using looked_at_fields(1) [of codec_of pid packet h] l by simp
  let ?g = "replicate (length (written fs)) Generate"
  have o: "ss_ops codec_of e h = ?g @ [Packet ?n ?skip]" by (simp add: ss_ops_def e l st)
  assume i: "snt_inv (ss_translator h)"
    "paced (ss_ops codec_of e h) (last_input_sequence_number (ss_translator h)) (unat (offset (ss_translator h)))"
  note a = paced_append [OF i(1) i(2) [unfolded o]]
  note s = slideshow_step_numbers [OF st, unfolded t1]
  note r = snt_run_one(2,3) [OF a(2,3)]
  have f: "fst (ss_numbers codec_of e h) = h'" by (simp add: ss_numbers_def e w(1))
  have n: "snd (ss_numbers codec_of e h) = map sn_output (fst (snt_run ?g (ss_translator h)))
      @ map sn_output (filter sent (fst (snt_run [Packet ?n ?skip] (ss_translator h2))))"
    using s(1,2) r(1) by (simp add: ss_numbers_def e w(1))
  show "ss_translator (fst (ss_numbers codec_of e h)) = snd (snt_run (ss_ops codec_of e h) (ss_translator h))
    \<and> snd (ss_numbers codec_of e h) = map sn_output (filter sent (fst (snt_run (ss_ops codec_of e h) (ss_translator h))))"
  proof
    show "ss_translator (fst (ss_numbers codec_of e h)) = snd (snt_run (ss_ops codec_of e h) (ss_translator h))"
      unfolding f o snt_run_append snd_conv using w(2) s(2) r(2) by simp
    show "snd (ss_numbers codec_of e h) = map sn_output (filter sent (fst (snt_run (ss_ops codec_of e h) (ss_translator h))))"
      unfolding n o s(2) snt_run_append fst_conv filter_append map_append generates_sent ..
  qed
qed

text \<open>
  C28: The slide show leaves no gaps: whatever packets it drops, and however often it sends the stored key
  frame in between (fewer than 4096 packets since the last new one), a stream without losses leaves with
  consecutive numbers.
\<close>
theorem slide_show_has_no_gaps:
  assumes "ss_connection h \<noteq> None" "list_all (\<lambda>e. ss_video (snd (snd e))) es" "snt_inv (ss_translator h)"
    "paced (run_ops (ss_numbers codec_of) (ss_ops codec_of) es h)
       (last_input_sequence_number (ss_translator h)) (unat (offset (ss_translator h)))"
  shows "run_numbers (ss_numbers codec_of) es h
    = map (\<lambda>k. last_output_sequence_number (ss_translator h) + offset (ss_translator h) + 1 + of_nat k)
        [0..<length (run_numbers (ss_numbers codec_of) es h)]"
  using arg_cong [OF ss.numbers_consecutive [OF assms], of length] ss.numbers_consecutive [OF assms] by simp


subsection \<open>Whole key frames\<close>

text \<open>The packets of one frame: one timestamp, and the marker in the last packet only.\<close>

fun marked_last :: "u8 list \<Rightarrow> bool" where
  "marked_last [] \<longleftrightarrow> False"
| "marked_last (m # ms) \<longleftrightarrow> (if ms = [] then m \<noteq> 0 else m = 0 \<and> marked_last ms)"

definition whole_frame :: "u32 \<Rightarrow> dataPacket list \<Rightarrow> bool" where
  "whole_frame ts ps \<longleftrightarrow> (\<forall>p \<in> set ps. timestamp_of p = ts) \<and> marked_last (map marker_of ps)"

definition frame_stored :: "slideShow \<Rightarrow> bool" where
  "frame_stored h \<longleftrightarrow> stored_keyframe h = [] \<or> (\<exists>ts. whole_frame ts (map (packet_heap h) (stored_keyframe h)))"

lemma collect_keyframe_whole:
  "collect_keyframe heap ts buffer = Some pids \<Longrightarrow> pids \<noteq> [] \<and> whole_frame ts (map heap pids)"
  by (induction heap ts buffer arbitrary: pids rule: collect_keyframe.induct)
     (auto simp: whole_frame_def split: if_splits)

lemma consolidate_frame_stored: "frame_stored h \<Longrightarrow> frame_stored (consolidateKeyframe h)"
  by (auto simp: frame_stored_def consolidateKeyframe_def Let_def dest: collect_keyframe_whole split: option.splits)

lemma frame_stored_alike:
  assumes "frame_stored h" "stored_keyframe h' = stored_keyframe h"
    "\<And>p. p \<in> set (stored_keyframe h) \<Longrightarrow> timestamp_of (packet_heap h' p) = timestamp_of (packet_heap h p)
      \<and> marker_of (packet_heap h' p) = marker_of (packet_heap h p)"
  shows "frame_stored h'"
proof -
  have "map marker_of (map (packet_heap h') (stored_keyframe h)) = map marker_of (map (packet_heap h) (stored_keyframe h))"
    using assms(3) by simp
  then show ?thesis using assms by (auto simp: frame_stored_def whole_frame_def simp del: map_map)
qed

lemma resent_alike [simp]:
  "marker_of (resent pid h) = marker_of (packet_heap h pid)" "timestamp_of (resent pid h) = last_timestamp_received h"
  by (simp_all add: resent_def)

lemma send_stored_heap:
  "marker_of (packet_heap (fst (send_stored pids h)) p) = marker_of (packet_heap h p)"
  "timestamp_of (packet_heap (fst (send_stored pids h)) p)
    = (if p \<in> set pids then last_timestamp_received h else timestamp_of (packet_heap h p))"
  "stored_keyframe (fst (send_stored pids h)) = stored_keyframe h"
  "map marker_of (written (snd (send_stored pids h))) = map (\<lambda>pid. marker_of (packet_heap h pid)) pids"
  "\<forall>p \<in> set (written (snd (send_stored pids h))). timestamp_of p = last_timestamp_received h"
  by (induction pids arbitrary: h) (auto simp: send_stored_Cons)

lemma send_stored_whole:
  assumes "marked_last (map (\<lambda>pid. marker_of (packet_heap h pid)) pids)"
  shows "whole_frame (last_timestamp_received h) (written (snd (send_stored pids h)))"
    "whole_frame (last_timestamp_received h) (map (packet_heap (fst (send_stored pids h))) pids)"
  using assms by (simp_all add: whole_frame_def send_stored_heap o_def)

lemma slideshow_step_whole:
  assumes "slideshow_step now pid kf h = (h', fs)" "frame_stored h"
  shows "frame_stored h'" "written fs = [] \<or> whole_frame (last_timestamp_received h) (written fs)"
    "fs \<noteq> [] \<Longrightarrow> slideshow_is_active h \<and> now - last_keyframe_sent_time h > kFallbackKeyframeTimeout"
proof -
  define h1 where "h1 = (if kf then storeKeyframePacket pid h else h)"
  define h2 where "h2 = (if is_building_keyframe h1 then consolidateKeyframe h1 else h1)"
  have 1: "frame_stored h1" using assms(2) frame_stored_alike [OF assms(2), of h1] by (simp add: h1_def)
  then have 2: "frame_stored h2" by (simp add: h2_def consolidate_frame_stored)
  have l: "last_timestamp_received h2 = last_timestamp_received h" "last_keyframe_sent_time h2 = last_keyframe_sent_time h"
    by (simp_all add: h2_def h1_def consolidateKeyframe_def storeKeyframePacket_def resetKeyframeBuilding_def Let_def split: option.split)
  have w: "slideshow_step now pid kf h = (if slideshow_is_active h then maybeSendStoredKeyframe now h2 else (h, []))"
    by (simp add: slideshow_step_def h2_def h1_def Let_def)
  let ?s = "send_stored (stored_keyframe h2) h2"
  have m: "stored_keyframe h2 = [] \<or> marked_last (map (\<lambda>pid. marker_of (packet_heap h2 pid)) (stored_keyframe h2))"
    using 2 by (auto simp: frame_stored_def whole_frame_def o_def)
  have "frame_stored ((fst ?s)\<lparr>last_keyframe_sent_time := now\<rparr>)
    \<and> (written (snd ?s) = [] \<or> whole_frame (last_timestamp_received h) (written (snd ?s)))"
    using m send_stored_whole [of h2 "stored_keyframe h2"] by (auto simp: frame_stored_def send_stored_heap l)
  then show "frame_stored h'" "written fs = [] \<or> whole_frame (last_timestamp_received h) (written fs)"
    "fs \<noteq> [] \<Longrightarrow> slideshow_is_active h \<and> now - last_keyframe_sent_time h > kFallbackKeyframeTimeout"
    using assms 2 by (auto simp: w maybeSendStoredKeyframe_def case_prod_beta l split: if_splits)
qed

lemma detect_keyframe_only:
  "fst (detect_keyframe codec_of packet h) \<Longrightarrow> is_keyframe packet \<or> timestamp_of packet = current_keyframe_timestamp h"
  by (auto simp: detect_keyframe_def isVP8Keyframe_def isVP9Keyframe_def Let_def split: if_splits)

text \<open>
  In slide show mode the handler sends nothing but key frames: before the packet that arrives, if five
  seconds have passed since the last, a stored frame that is whole, bearing the timestamp of the new packet;
  then the packet itself, if it is part of a key frame. The stored frame stays whole, although its packets
  are rewritten each time they are sent.
\<close>
theorem slide_show_sends_key_frames:
  assumes "ss_write codec_of now pid packet h = Some (h', fs)" "ss_video packet" "slideshow_is_active h"
    "frame_stored h" "pid \<notin> set (stored_keyframe h)"
  shows "frame_stored h' \<and> (\<exists>frame rest. written fs = frame @ rest
    \<and> (frame = [] \<or> whole_frame (timestamp_of packet) frame
          \<and> now - last_keyframe_sent_time h > kFallbackKeyframeTimeout)
    \<and> (rest = [] \<or> length rest = 1 \<and> (is_keyframe packet \<or> timestamp_of packet = current_keyframe_timestamp h)))"
proof -
  obtain kf h1 where l: "looked_at codec_of pid packet h = (kf, h1)" by (cases "looked_at codec_of pid packet h")
  obtain h2 gs where st: "slideshow_step now pid kf h1 = (h2, gs)" by (cases "slideshow_step now pid kf h1")
  note lf = looked_at_fields [of codec_of pid packet h, unfolded l snd_conv]
  have 1: "frame_stored h1"
    by (rule frame_stored_alike [OF assms(4)]) (use assms(5) lf in auto)
  note s = slideshow_step_whole [OF st 1]
  have k: "kf \<Longrightarrow> is_keyframe packet \<or> timestamp_of packet = current_keyframe_timestamp h"
    using detect_keyframe_only [of codec_of packet "h\<lparr>packet_heap := (packet_heap h)(pid := packet), last_timestamp_received := getTimestamp (data packet)\<rparr>"] l
    by (simp add: looked_at_def)
  have cn: "ss_connection h \<noteq> None" using assms(1,2) by (auto simp: ss_write_def ss_video_def split: if_splits)
  let ?n = "getSeqNumber (data packet)" and ?skip = "slideshow_is_active h \<and> \<not> kf"
  let ?go = "\<not> ?skip \<and> sn_type (fst (snt_get ?n ?skip (ss_translator h2))) = Valid"
  obtain h'' p where w: "ss_write codec_of now pid packet h = Some (h'', if ?go then gs @ [FireWrite p] else gs)"
      "stored_keyframe h'' = stored_keyframe h2"
      "\<forall>p. timestamp_of (packet_heap h'' p) = timestamp_of (packet_heap h2 p) \<and> marker_of (packet_heap h'' p) = marker_of (packet_heap h2 p)"
    using ss_write_video [OF assms(2) cn l st] by blast
  have f: "frame_stored h'" by (rule frame_stored_alike [OF s(1)]) (use w assms(1) in auto)
  show ?thesis
  proof (intro conjI f, rule exI [of _ "written gs"], rule exI [of _ "drop (length (written gs)) (written fs)"])
    show "written fs = written gs @ drop (length (written gs)) (written fs)
      \<and> (written gs = [] \<or> whole_frame (timestamp_of packet) (written gs)
          \<and> now - last_keyframe_sent_time h > kFallbackKeyframeTimeout)
      \<and> (drop (length (written gs)) (written fs) = [] \<or> length (drop (length (written gs)) (written fs)) = 1
          \<and> (is_keyframe packet \<or> timestamp_of packet = current_keyframe_timestamp h))"
      using assms(1,3) w(1) s(2,3) lf k by (cases "gs = []") (auto split: if_splits)
  qed
qed


subsection \<open>Examples\<close>

text \<open>A slide show that has sent packet 10, a key frame of one packet, and a packet of a later frame.\<close>

definition slide_ready :: slideShow where
  "slide_ready = (new_RtpSlideShowHandler 0 (\<lambda>_. sample_packet 0 0))\<lparr>ss_connection := Some (7, 8),
     slideshow_is_active := True, ss_translator := snd (snt_get 10 False new_translator),
     ss_highest_seq_num := 10, highest_seq_num_initialized := True, last_keyframe_sent_time := 0\<rparr>"

definition key_packet :: "u16 \<Rightarrow> dataPacket" where
  "key_packet n = (sample_packet n 7)\<lparr>data := setMarker 1 (setTimestamp 100 (data (sample_packet n 7))), is_keyframe := True\<rparr>"

definition delta_packet :: "u16 \<Rightarrow> dataPacket" where
  "delta_packet n = (sample_packet n 7)\<lparr>data := setTimestamp 200 (data (sample_packet n 7))\<rparr>"

definition vp8 :: "u8 \<Rightarrow> string option" where "vp8 pt = Some ''VP8''"

definition slide_arrivals :: "arrival list" where
  "slide_arrivals = [(1000000000, 0, key_packet 11), (7000000000, 1, delta_packet 12)]"

lemma slide_ops: "run_ops (ss_numbers vp8) (ss_ops vp8) slide_arrivals slide_ready
    = [Packet 11 False, Generate, Packet 12 True]"
  by code_simp

lemma slide_ready_fields:
  "ss_connection slide_ready = Some (7, 8)" "ss_translator slide_ready = snd (snt_get 10 False new_translator)"
  "slideshow_is_active slide_ready" "stored_keyframe slide_ready = []"
  by (simp_all add: slide_ready_def new_RtpSlideShowHandler_def)

lemma samples_video: "ss_video (key_packet n)" "ss_video (delta_packet n)"
  by (simp_all add: ss_video_def key_packet_def delta_packet_def sample_packet_def new_dataPacket_def zero_mem_def isRtcp_def
      getPacketType_def setSSRC_def setSeqNumber_def setMarker_def setTimestamp_def store16_def store32_def store8_def put_bits_def)

theorem slide_show_has_no_gaps_witness:
  "run_numbers (ss_numbers vp8) slide_arrivals slide_ready = [11, 12]"
proof -
  let ?t = "ss_translator slide_ready"
  have c: "ss_connection slide_ready \<noteq> None" "list_all (\<lambda>e. ss_video (snd (snd e))) slide_arrivals" "snt_inv ?t"
    by (simp_all add: slide_ready_fields slide_arrivals_def samples_video first_packet)
  have p: "paced (run_ops (ss_numbers vp8) (ss_ops vp8) slide_arrivals slide_ready)
      (last_input_sequence_number ?t) (unat (offset ?t))"
    by (simp add: slide_ops slide_ready_fields first_packet)
  have "length (run_numbers (ss_numbers vp8) slide_arrivals slide_ready) = 2"
    using arg_cong [OF ss.numbers_consecutive [OF c p], of length] by (simp add: slide_ops)
  then show ?thesis
    using slide_show_has_no_gaps [OF c p] by (simp add: slide_ready_fields first_packet upt_rec)
qed

definition frame_kept :: slideShow where
  "frame_kept = slide_ready\<lparr>stored_keyframe := [5], packet_heap := (\<lambda>_. key_packet 5)\<rparr>"

theorem slide_show_sends_key_frames_witness:
  "\<exists>h' fs frame. ss_write vp8 7000000000 1 (delta_packet 12) frame_kept = Some (h', fs)
    \<and> written fs = frame \<and> whole_frame 200 frame"
proof -
  have "map_option (\<lambda>(h', fs). length (written fs)) (ss_write vp8 7000000000 1 (delta_packet 12) frame_kept) = Some 1"
    by code_simp
  then obtain h' fs where w: "ss_write vp8 7000000000 1 (delta_packet 12) frame_kept = Some (h', fs)" "length (written fs) = 1"
    by auto
  have t: "timestamp_of (delta_packet 12) = 200" "\<not> is_keyframe (delta_packet 12)" "current_keyframe_timestamp frame_kept = 0"
    by (simp_all add: delta_packet_def sample_packet_def new_dataPacket_def frame_kept_def slide_ready_def new_RtpSlideShowHandler_def)
  have "marker_of (key_packet 5) = 1" by code_simp
  then have "frame_stored frame_kept" "slideshow_is_active frame_kept" "1 \<notin> set (stored_keyframe frame_kept)"
    by (simp_all add: frame_stored_def frame_kept_def whole_frame_def slide_ready_fields)
  from slide_show_sends_key_frames [OF w(1) samples_video(2) this(2,1,3)] w t show ?thesis by auto
qed

text \<open>
  A key frame that is complete when the five seconds are over is sent twice, and the number remembered as the
  highest is the rewritten one.
\<close>

lemma late_key_frame_is_sent_twice:
  "map_option (\<lambda>(h, fs). (map (\<lambda>p. (getSeqNumber (data p), timestamp_of p)) (written fs), ss_highest_seq_num h))
     (ss_write vp8 7000000000 0 (key_packet 21) (slide_ready\<lparr>ss_translator := snd (snt_get 20 True (ss_translator slide_ready))\<rparr>))
   = Some ([(11, 100), (12, 100)], 11)"
  by code_simp

text \<open>The loop that was to make room for an earlier packet of a VP9 frame is never entered.\<close>

lemma no_room_is_made: "pad_front n n buffer = buffer"
  by (simp add: pad_front.simps)

text \<open>
  A report whose number, translated back, is smaller, in the same cycle, loses a cycle: the comparison is not
  that of a wrap.
\<close>

lemma report_loses_a_cycle:
  "let t = snd (snt_get 11 False (snd (snt_generate (ss_translator slide_ready))));
       m = setSeqnumCycles 0 1 (setHighestSeqnum 0 12 (setPacketType 0 201 zero_mem));
       m' = fst (ss_translate_block t 0 (m, ()))
   in getHighestSeqnum m' 0 = 11 \<and> getSeqnumCycles m' 0 = 0"
  by code_simp

end
