(* ===== verification/OneToMany.thy ===== *)
theory OneToMany
  imports OrderedMap Media RtcpHeader "HOL-Library.List_Lexorder" "HOL-Library.Char_ord"
begin

text \<open>
  \<^verbatim>\<open>OneToManyProcessor.cpp\<close>: the media of one publisher goes to every subscriber, feedback goes back to the
  publisher. Sinks and sources are objects in memories, numbered; what the processor does to them is
  written there, and what it hands to them is listed in order. The promise is a map from peers to
  sinks, each of which gets every packet once.
\<close>

subsection \<open>Objects\<close>

text \<open>
  A sink: its SSRCs, its source of feedback (\<open>None\<close> for a null pointer) with the sink its feedback goes to,
  and whether it is a \<^verbatim>\<open>WebRtcConnection\<close>.
\<close>

datatype feedbackSink = ThisProcessor | OtherFeedbackSink nat

record sinkObject =
  sink_part :: mediaSink
  sink_fb_source :: "feedbackSink option option"
  sink_is_connection :: bool

record sourceObject =
  source_part :: mediaSource
  source_fb_sink :: "nat option"
  source_is_connection :: bool

record oneToMany =
  otm_subscribers :: "(string \<times> nat option) list"
  otm_publisher :: "nat option"
  otm_feedbackSink :: "nat option"
  sink_heap :: "nat \<Rightarrow> sinkObject"
  source_heap :: "nat \<Rightarrow> sourceObject"

text \<open>What goes out: packets to sinks, feedback, and tasks that close a connection.\<close>

datatype otm_out = ToAudio nat dataPacket | ToVideo nat dataPacket | ToFeedback nat dataPacket
  | CloseSink nat | CloseSource nat

definition new_OneToManyProcessor :: "(nat \<Rightarrow> sinkObject) \<Rightarrow> (nat \<Rightarrow> sourceObject) \<Rightarrow> oneToMany" where
  "new_OneToManyProcessor sinks sources = \<lparr>otm_subscribers = [], otm_publisher = None, otm_feedbackSink = None,
     sink_heap = sinks, source_heap = sources\<rparr>"

definition setFeedbackSink :: "feedbackSink option \<Rightarrow> sinkObject \<Rightarrow> sinkObject" where
  "setFeedbackSink f s = (case sink_fb_source s of None \<Rightarrow> s | Some _ \<Rightarrow> s\<lparr>sink_fb_source := Some f\<rparr>)"

subsection \<open>Delivery\<close>

definition deliverAudioData :: "dataPacket \<Rightarrow> oneToMany \<Rightarrow> otm_out list" where
  "deliverAudioData packet h =
     (if packet_length packet \<le> 0 then []
      else List.map_filter (\<lambda>(peer, sink). map_option (\<lambda>i. ToAudio i packet) sink) (otm_subscribers h))"

text \<open>Without a publisher the pointer that is followed here is null: \<open>None\<close>.\<close>

definition deliverVideoData :: "dataPacket \<Rightarrow> oneToMany \<Rightarrow> otm_out list option" where
  "deliverVideoData packet h =
     (if packet_length packet \<le> 0 then Some []
      else if isFeedback (data packet) 0
      then case otm_feedbackSink h of None \<Rightarrow> Some []
           | Some fb \<Rightarrow> Option.bind (otm_publisher h) (\<lambda>source.
               map_option (\<lambda>ssrc. [ToFeedback fb (packet\<lparr>data := rtcp_setSSRC 0 ssrc (data packet)\<rparr>)])
                 (getVideoSourceSSRC (source_part (source_heap h source))))
      else Some (List.map_filter (\<lambda>(peer, sink). map_option (\<lambda>i. ToVideo i packet) sink) (otm_subscribers h)))"

definition deliverFeedback :: "dataPacket \<Rightarrow> oneToMany \<Rightarrow> otm_out list" where
  "deliverFeedback packet h = (case otm_feedbackSink h of None \<Rightarrow> [] | Some fb \<Rightarrow> [ToFeedback fb packet])"

subsection \<open>Publisher and subscribers\<close>

definition setPublisher :: "nat \<Rightarrow> oneToMany \<Rightarrow> oneToMany" where
  "setPublisher source h = h\<lparr>otm_publisher := Some source, otm_feedbackSink := source_fb_sink (source_heap h source)\<rparr>"

definition addSubscriber :: "nat \<Rightarrow> string \<Rightarrow> oneToMany \<Rightarrow> oneToMany option" where
  "addSubscriber sink peerId h =
     Option.bind (otm_publisher h) (\<lambda>source.
     let p = source_part (source_heap h source)
     in map_option (\<lambda>video.
       let s = sink_heap h sink;
           s = s\<lparr>sink_part := (sink_part s)\<lparr>audio_sink_ssrc := audio_source_ssrc p, video_sink_ssrc := video\<rparr>\<rparr>;
           s = setFeedbackSink (Some ThisProcessor) s;
           subs = otm_subscribers h;
           subs = (if map_of subs peerId \<noteq> None then map_erase peerId subs else subs)
       in h\<lparr>sink_heap := (sink_heap h)(sink := s), otm_subscribers := map_insert peerId (Some sink) subs\<rparr>)
     (getVideoSourceSSRC p))"

definition close_sink :: "nat option \<Rightarrow> oneToMany \<Rightarrow> otm_out list" where
  "close_sink sink h = (case sink of None \<Rightarrow> [] | Some i \<Rightarrow> if sink_is_connection (sink_heap h i) then [CloseSink i] else [])"

definition removeSubscriber :: "string \<Rightarrow> oneToMany \<Rightarrow> oneToMany \<times> otm_out list" where
  "removeSubscriber peerId h =
     (case map_of (otm_subscribers h) peerId of None \<Rightarrow> (h, [])
      | Some sink \<Rightarrow> (h\<lparr>otm_subscribers := map_erase peerId (otm_subscribers h)\<rparr>, close_sink sink h))"

fun close_subscribers :: "(string \<times> nat option) list \<Rightarrow> oneToMany \<Rightarrow> oneToMany \<times> otm_out list" where
  "close_subscribers [] h = (h, [])"
| "close_subscribers ((peer, sink) # subs) h =
     (let os = close_sink sink h;
          h = (case sink of None \<Rightarrow> h
               | Some i \<Rightarrow> h\<lparr>sink_heap := (sink_heap h)(i := setFeedbackSink None (sink_heap h i))\<rparr>);
          h = h\<lparr>otm_subscribers := map_erase peer (otm_subscribers h)\<rparr>;
          (h, os') = close_subscribers subs h
      in (h, os @ os'))"

definition closeAll :: "oneToMany \<Rightarrow> oneToMany \<times> otm_out list" where
  "closeAll h =
     (let h = h\<lparr>otm_feedbackSink := None\<rparr>;
          os = (case otm_publisher h of None \<Rightarrow> []
                | Some s \<Rightarrow> if source_is_connection (source_heap h s) then [CloseSource s] else []);
          h = h\<lparr>otm_publisher := None\<rparr>;
          (h, os') = close_subscribers (otm_subscribers h) h
      in (h\<lparr>otm_subscribers := []\<rparr>, os @ os'))"

subsection \<open>Who gets what\<close>

datatype otm_op = SetPublisher nat | AddSubscriber nat string | RemoveSubscriber string
  | AudioData dataPacket | VideoData dataPacket | CloseAll

fun otm_step :: "otm_op \<Rightarrow> oneToMany \<Rightarrow> (oneToMany \<times> otm_out list) option" where
  "otm_step (SetPublisher source) h = Some (setPublisher source h, [])"
| "otm_step (AddSubscriber sink peer) h = map_option (\<lambda>h. (h, [])) (addSubscriber sink peer h)"
| "otm_step (RemoveSubscriber peer) h = Some (removeSubscriber peer h)"
| "otm_step (AudioData packet) h = Some (h, deliverAudioData packet h)"
| "otm_step (VideoData packet) h = map_option (\<lambda>os. (h, os)) (deliverVideoData packet h)"
| "otm_step CloseAll h = Some (closeAll h)"

fun otm_run :: "otm_op list \<Rightarrow> oneToMany \<Rightarrow> oneToMany option" where
  "otm_run [] h = Some h"
| "otm_run (p # ps) h = Option.bind (otm_step p h) (\<lambda>r. otm_run ps (fst r))"

text \<open>The promise: the map from peers to sinks that the calls describe.\<close>

fun subscribe :: "otm_op \<Rightarrow> (string \<rightharpoonup> nat) \<Rightarrow> (string \<rightharpoonup> nat)" where
  "subscribe (AddSubscriber sink peer) m = m(peer \<mapsto> sink)"
| "subscribe (RemoveSubscriber peer) m = m(peer := None)"
| "subscribe CloseAll m = Map.empty"
| "subscribe _ m = m"

definition serves :: "oneToMany \<Rightarrow> (string \<rightharpoonup> nat) \<Rightarrow> bool" where
  "serves h m \<longleftrightarrow> map_ok (otm_subscribers h) \<and> map_of (otm_subscribers h) = map_option Some \<circ> m"

lemma serves_step:
  assumes "serves h m" "otm_step p h = Some (h', os)"
  shows "serves h' (subscribe p m)"
proof (cases p)
  case (AddSubscriber sink peer)
  let ?subs = "otm_subscribers h"
  let ?e = "if map_of ?subs peer \<noteq> None then map_erase peer ?subs else ?subs"
  have e: "map_ok ?e" "map_of ?e = (map_of ?subs)(peer := None)"
    using assms(1) by (auto simp: serves_def fun_eq_iff)
  have "otm_subscribers h' = map_insert peer (Some sink) ?e"
    using assms(2) by (auto simp: AddSubscriber addSubscriber_def Let_def bind_eq_Some_conv)
  then show ?thesis using assms(1) e by (simp add: AddSubscriber serves_def fun_eq_iff)
next
  case (RemoveSubscriber peer)
  have "map_of (otm_subscribers h') = (map_of (otm_subscribers h))(peer := None)" "map_ok (otm_subscribers h')"
    using assms by (auto simp: RemoveSubscriber removeSubscriber_def serves_def fun_eq_iff split: option.splits)
  then show ?thesis using assms(1) by (simp add: RemoveSubscriber serves_def fun_eq_iff)
qed (use assms in \<open>auto simp: serves_def setPublisher_def closeAll_def Let_def map_ok_def case_prod_beta fun_eq_iff\<close>)

lemma serves_run: "serves h m \<Longrightarrow> otm_run ps h = Some h' \<Longrightarrow> serves h' (fold subscribe ps m)"
  by (induction ps arbitrary: h m) (auto simp: bind_eq_Some_conv intro: serves_step)

text \<open>The entries are in the order of the peers' names, one for each peer.\<close>

lemma serves_entries:
  assumes "serves h m"
  shows "otm_subscribers h = map (\<lambda>peer. (peer, Some (the (m peer)))) (sorted_list_of_set (dom m))"
proof -
  let ?subs = "otm_subscribers h"
  have "dom (map_of ?subs) = dom m" using assms by (auto simp: serves_def dom_def)
  then have "set (map fst ?subs) = dom m" by (simp add: dom_map_of_conv_image_fst)
  then have k: "sorted_list_of_set (dom m) = map fst ?subs"
    using assms sorted_list_of_set.idem_if_sorted_distinct [of "map fst ?subs"]
    by (simp add: serves_def map_ok_def)
  have "e = (fst e, Some (the (m (fst e))))" if "e \<in> set ?subs" for e
  proof -
    have "map_of ?subs (fst e) = Some (snd e)"
      using assms that by (intro map_of_is_SomeI) (simp_all add: serves_def map_ok_def)
    then have "map_option Some (m (fst e)) = Some (snd e)" using assms by (simp add: serves_def)
    then have "snd e = Some (the (m (fst e)))" by (cases "snd e") auto
    then show ?thesis by (cases e) simp
  qed
  then have "map (\<lambda>e. (fst e, Some (the (m (fst e))))) ?subs = map (\<lambda>e. e) ?subs" by (intro map_cong) auto
  then show ?thesis by (simp add: k o_def)
qed

lemma serves_loop:
  assumes "serves h m"
  shows "List.map_filter (\<lambda>(peer, sink). map_option f sink) (otm_subscribers h)
    = map (\<lambda>peer. f (the (m peer))) (sorted_list_of_set (dom m))"
proof -
  have "List.map_filter (\<lambda>(peer, sink). map_option f sink) (map (\<lambda>peer. (peer, Some (g peer))) ps) = map (\<lambda>peer. f (g peer)) ps"
    for ps :: "string list" and g
    by (induction ps) (simp_all add: List.map_filter_simps)
  then show ?thesis by (simp only: serves_entries [OF assms])
qed

text \<open>
  C29: Every subscriber gets every packet exactly once, and nobody else gets it: after any sequence of calls a
  packet goes to the sinks that the calls have left subscribed, one for each peer, in the order of the peers'
  names; a peer who subscribes again gets it at the new sink only.
\<close>
theorem every_subscriber_gets_each_packet:
  assumes "otm_run ps (new_OneToManyProcessor sinks sources) = Some h" "packet_length packet > 0"
  defines "m \<equiv> fold subscribe ps Map.empty"
  shows "deliverAudioData packet h = map (\<lambda>peer. ToAudio (the (m peer)) packet) (sorted_list_of_set (dom m))
    \<and> (\<not> isFeedback (data packet) 0
        \<longrightarrow> deliverVideoData packet h = Some (map (\<lambda>peer. ToVideo (the (m peer)) packet) (sorted_list_of_set (dom m))))"
proof -
  have "serves (new_OneToManyProcessor sinks sources) Map.empty"
    by (simp add: serves_def new_OneToManyProcessor_def map_ok_def fun_eq_iff)
  from serves_run [OF this assms(1)] have s: "serves h m" by (simp add: m_def)
  show ?thesis using assms(2) by (simp add: deliverAudioData_def deliverVideoData_def serves_loop [OF s])
qed

subsection \<open>Setting up and closing\<close>

definition close_publisher :: "oneToMany \<Rightarrow> otm_out list" where
  "close_publisher h = (case otm_publisher h of None \<Rightarrow> []
     | Some s \<Rightarrow> if source_is_connection (source_heap h s) then [CloseSource s] else [])"

lemma setFeedbackSink_fields [simp]:
  "sink_is_connection (setFeedbackSink f s) = sink_is_connection s"
  "setFeedbackSink f (setFeedbackSink f s) = setFeedbackSink f s"
  by (auto simp: setFeedbackSink_def split: option.splits)

lemma close_subscribers_all:
  "close_subscribers (map (\<lambda>peer. (peer, Some (g peer))) ps) h = (h', os)
    \<Longrightarrow> os = concat (map (\<lambda>peer. close_sink (Some (g peer)) h) ps)
      \<and> sink_heap h' = (\<lambda>i. if i \<in> g ` set ps then setFeedbackSink None (sink_heap h i) else sink_heap h i)
      \<and> otm_publisher h' = otm_publisher h \<and> otm_feedbackSink h' = otm_feedbackSink h"
proof (induction ps arbitrary: h h' os)
  case (Cons p ps)
  let ?h = "h\<lparr>sink_heap := (sink_heap h)(g p := setFeedbackSink None (sink_heap h (g p))),
    otm_subscribers := map_erase p (otm_subscribers h)\<rparr>"
  obtain os' where r: "close_subscribers (map (\<lambda>peer. (peer, Some (g peer))) ps) ?h = (h', os')" "os = close_sink (Some (g p)) h @ os'"
    using Cons.prems by (auto simp: Let_def case_prod_beta prod_eq_iff)
  have c: "close_sink x ?h = close_sink x h" for x by (auto simp: close_sink_def split: option.splits)
  show ?case using Cons.IH [OF r(1)] r(2) by (auto simp: c fun_eq_iff)
qed simp

text \<open>
  When all is closed, the publisher and every subscribed connection are closed exactly once, no subscribed
  sink sends feedback to the processor any more, and nobody is left.
\<close>
theorem closing_reaches_everybody:
  assumes "serves h m" "closeAll h = (h', os)"
  shows "otm_subscribers h' = [] \<and> otm_publisher h' = None \<and> otm_feedbackSink h' = None
    \<and> os = close_publisher h @ concat (map (\<lambda>peer. close_sink (m peer) h) (sorted_list_of_set (dom m)))
    \<and> (\<forall>i. sink_heap h' i = (if i \<in> ran m then setFeedbackSink None (sink_heap h i) else sink_heap h i))"
proof -
  let ?ps = "sorted_list_of_set (dom m)" and ?h = "h\<lparr>otm_feedbackSink := None, otm_publisher := None\<rparr>"
  have "finite (dom (map_of (otm_subscribers h)))" by (rule finite_dom_map_of)
  moreover have "dom (map_of (otm_subscribers h)) = dom m" using assms(1) by (auto simp: serves_def dom_def)
  ultimately have d: "set ?ps = dom m" by simp
  obtain h1 os1 where c: "close_subscribers (otm_subscribers h) ?h = (h1, os1)"
    by (cases "close_subscribers (otm_subscribers h) ?h")
  note a = close_subscribers_all [OF c [unfolded serves_entries [OF assms(1)]]]
  have h': "h' = h1\<lparr>otm_subscribers := []\<rparr>" "os = close_publisher h @ os1"
    using assms(2) c by (cases "otm_publisher h"; auto simp: closeAll_def close_publisher_def Let_def)+
  have s: "close_sink x ?h = close_sink x h" for x by (auto simp: close_sink_def split: option.splits)
  have "map (\<lambda>peer. close_sink (Some (the (m peer))) h) ?ps = map (\<lambda>peer. close_sink (m peer) h) ?ps"
    using d by (intro map_cong) auto
  moreover have "os1 = concat (map (\<lambda>peer. close_sink (Some (the (m peer))) h) ?ps)" using a by (simp add: s)
  ultimately have 1: "os1 = concat (map (\<lambda>peer. close_sink (m peer) h) ?ps)" by (simp only:)
  have "(\<lambda>peer. the (m peer)) ` dom m = ran m" by (force simp: ran_def dom_def image_def)
  then have 2: "sink_heap h1 = (\<lambda>i. if i \<in> ran m then setFeedbackSink None (sink_heap h i) else sink_heap h i)"
    using a by (auto simp: d fun_eq_iff)
  show ?thesis using a [THEN conjunct2, THEN conjunct2] 1 by (simp add: h' 2)
qed

subsection \<open>Examples\<close>

definition sample_sinks :: "nat \<Rightarrow> sinkObject" where
  "sample_sinks i = \<lparr>sink_part = new_mediaSink, sink_fb_source = Some None, sink_is_connection = True\<rparr>"

definition sample_sources :: "nat \<Rightarrow> sourceObject" where
  "sample_sources i = \<lparr>source_part = new_mediaSource, source_fb_sink = Some 9, source_is_connection = True\<rparr>"

definition sample_calls :: "otm_op list" where
  "sample_calls = [SetPublisher 0, AddSubscriber 1 ''bob'', AddSubscriber 2 ''alice'', AddSubscriber 3 ''bob'']"

definition sample_media :: dataPacket where
  "sample_media = new_dataPacket 0 zero_mem 20 VIDEO_PACKET 0"

lemma sample_subscribed:
  "fold subscribe sample_calls Map.empty = [''bob'' \<mapsto> 3, ''alice'' \<mapsto> (2::nat)]"
  "sorted_list_of_set (dom [''bob'' \<mapsto> 3, ''alice'' \<mapsto> (2::nat)]) = [''alice'', ''bob'']"
proof -
  show "fold subscribe sample_calls Map.empty = [''bob'' \<mapsto> 3, ''alice'' \<mapsto> (2::nat)]"
    by (simp add: sample_calls_def fun_eq_iff)
  have "''alice'' \<le> ''bob''" by code_simp
  then show "sorted_list_of_set (dom [''bob'' \<mapsto> 3, ''alice'' \<mapsto> (2::nat)]) = [''alice'', ''bob'']"
    by (simp add: insort_key.simps)
qed

theorem every_subscriber_gets_each_packet_witness:
  "\<exists>h. otm_run sample_calls (new_OneToManyProcessor sample_sinks sample_sources) = Some h
    \<and> deliverVideoData sample_media h = Some [ToVideo 2 sample_media, ToVideo 3 sample_media]"
proof -
  have "map_option (\<lambda>h. ()) (otm_run sample_calls (new_OneToManyProcessor sample_sinks sample_sources)) = Some ()"
    by code_simp
  then obtain h where h: "otm_run sample_calls (new_OneToManyProcessor sample_sinks sample_sources) = Some h" by auto
  have p: "packet_length sample_media > 0" "\<not> isFeedback (data sample_media) 0"
    by (simp_all add: sample_media_def new_dataPacket_def isFeedback_def getPacketType_def zero_mem_def copy_mem_def)
  from every_subscriber_gets_each_packet [OF h p(1)] p(2) h show ?thesis
    by (simp add: sample_subscribed)
qed

definition sample_served :: oneToMany where
  "sample_served = (new_OneToManyProcessor sample_sinks sample_sources)
     \<lparr>otm_publisher := Some 0, otm_subscribers := [(''alice'', Some 2), (''bob'', Some 3)]\<rparr>"

theorem closing_reaches_everybody_witness:
  "snd (closeAll sample_served) = [CloseSource 0, CloseSink 2, CloseSink 3]"
proof -
  have "''alice'' \<le> ''bob''" by code_simp
  then have "serves sample_served [''bob'' \<mapsto> 3, ''alice'' \<mapsto> 2]"
    by (auto simp: serves_def sample_served_def map_ok_def fun_eq_iff)
  from closing_reaches_everybody [OF this, of "fst (closeAll sample_served)" "snd (closeAll sample_served)"]
  show ?thesis
    by (simp add: sample_subscribed(2) close_publisher_def close_sink_def)
       (simp add: sample_served_def new_OneToManyProcessor_def sample_sinks_def sample_sources_def)
qed

text \<open>
  The sink of a peer that has left, or has subscribed again, still sends its feedback to the processor, and the
  sinks of a publisher that was replaced keep its SSRCs.
\<close>

lemma former_subscriber_keeps_feedback:
  "map_option (\<lambda>h. (map fst (otm_subscribers h), sink_fb_source (sink_heap h 1)))
     (otm_run [SetPublisher 0, AddSubscriber 1 ''bob'', RemoveSubscriber ''bob'']
        (new_OneToManyProcessor sample_sinks sample_sources))
   = Some ([], Some (Some ThisProcessor))"
  by code_simp

lemma new_publisher_is_not_announced:
  "map_option (\<lambda>h. (otm_publisher h, video_sink_ssrc (sink_part (sink_heap h 1))))
     (otm_run [SetPublisher 0, AddSubscriber 1 ''bob'', SetPublisher 5]
        (new_OneToManyProcessor sample_sinks (\<lambda>i. (sample_sources i)\<lparr>source_part := new_mediaSource\<lparr>video_source_ssrc_list := [of_nat i + 1]\<rparr>\<rparr>)))
   = Some (Some 5, 1)"
  by code_simp

end
