(* ===== verification/StringUtil.thy ===== *)
theory StringUtil
  imports Decimal "HOL-Library.Sublist"
begin

text \<open>
  Texts as \<^verbatim>\<open>SdpInfo.cpp\<close> takes them apart: \<^verbatim>\<open>stringutil::splitOneOf\<close> of \<^verbatim>\<open>StringUtil.cpp\<close>, and what
  is used of the standard library: \<^verbatim>\<open>std::string::find\<close>, \<^verbatim>\<open>std::getline\<close>, \<^verbatim>\<open>strtoul\<close> and
  \<^verbatim>\<open>std::stoul\<close>. A result that the code does not come back with is a \<open>fault\<close>: the element of a vector
  that is not there, a null pointer that is followed, an exception of the library, a loop that does not end.
\<close>

datatype fault = Out_of_bounds | Null_pointer | Invalid_argument | Out_of_range | No_return

type_synonym 'a checked = "fault + 'a"

definition and_then :: "'a checked \<Rightarrow> ('a \<Rightarrow> 'b checked) \<Rightarrow> 'b checked" where
  "and_then m f = (case m of Inl e \<Rightarrow> Inl e | Inr x \<Rightarrow> f x)"

lemma and_then_simps [simp]: "and_then (Inl e) f = Inl e" "and_then (Inr x) f = f x"
  by (simp_all add: and_then_def)

lemma and_then_Inr [simp]: "and_then m f = Inr y \<longleftrightarrow> (\<exists>x. m = Inr x \<and> f x = Inr y)"
  by (cases m) auto

definition nth_checked :: "'a list \<Rightarrow> nat \<Rightarrow> 'a checked" where
  "nth_checked xs i = (if i < length xs then Inr (xs ! i) else Inl Out_of_bounds)"

lemma nth_checked_Inr [simp]: "nth_checked xs i = Inr x \<longleftrightarrow> i < length xs \<and> x = xs ! i"
  by (auto simp: nth_checked_def)

subsection \<open>Splitting\<close>

text \<open>\<open>cut_at\<close> is \<^verbatim>\<open>find_first_of\<close> with the two \<^verbatim>\<open>substr\<close> around the place it finds.\<close>

fun cut_at :: "string \<Rightarrow> string \<Rightarrow> (string \<times> string) option" where
  "cut_at delims [] = None"
| "cut_at delims (c # s) =
     (if c \<in> set delims then Some ([], s) else map_option (\<lambda>(a, b). (c # a, b)) (cut_at delims s))"

lemma cut_at_Some: "cut_at delims s = Some (a, b) \<Longrightarrow>
    (\<exists>c \<in> set delims. s = a @ c # b) \<and> set a \<inter> set delims = {}"
  by (induction s arbitrary: a) (auto split: if_splits)

lemma cut_at_None: "cut_at delims s = None \<longleftrightarrow> set s \<inter> set delims = {}"
  by (induction s) auto

lemma cut_at_append: "set a \<inter> set delims = {} \<Longrightarrow> c \<in> set delims \<Longrightarrow> cut_at delims (a @ c # s) = Some (a, s)"
  by (induction a) auto

lemma cut_at_shorter: "cut_at delims s = Some (a, b) \<Longrightarrow> length b < length s"
  by (drule cut_at_Some) auto

function split_loop :: "string \<Rightarrow> nat \<Rightarrow> string \<Rightarrow> string list \<Rightarrow> nat \<Rightarrow> string \<times> string list" where
  "split_loop delims maxSplits remaining result splits =
     (if maxSplits = 0 \<or> splits < maxSplits
      then case cut_at delims remaining of
          None \<Rightarrow> (remaining, result)
        | Some (a, b) \<Rightarrow> split_loop delims maxSplits b (result @ [a]) (splits + 1)
      else (remaining, result))"
  by pat_completeness auto
termination by (relation "measure (\<lambda>(_, _, s, _). length s)") (auto dest: cut_at_shorter)

declare split_loop.simps [simp del]

definition splitOneOf :: "string \<Rightarrow> string \<Rightarrow> nat \<Rightarrow> string list" where
  "splitOneOf str delims maxSplits =
     (case split_loop delims maxSplits str [] 0 of
        (remaining, result) \<Rightarrow> if 0 < length remaining then result @ [remaining] else result)"

lemma split_loop_cut:
  "set a \<inter> set delims = {} \<Longrightarrow> c \<in> set delims \<Longrightarrow> maxSplits = 0 \<or> splits < maxSplits \<Longrightarrow>
   split_loop delims maxSplits (a @ c # s) result splits =
     split_loop delims maxSplits s (result @ [a]) (splits + 1)"
  by (subst split_loop.simps) (simp add: cut_at_append)

lemma split_loop_last:
  "set s \<inter> set delims = {} \<Longrightarrow> split_loop delims maxSplits s result splits = (s, result)"
  by (subst split_loop.simps) (simp add: cut_at_None [THEN iffD2])

text \<open>The pieces hold no separator, and put together again, with the separators, they are the text.\<close>

lemma split_loop_pieces:
  "split_loop delims maxSplits s result splits = (r, xs) \<Longrightarrow> \<forall>x \<in> set result. set x \<inter> set delims = {} \<Longrightarrow>
   (\<forall>x \<in> set xs. set x \<inter> set delims = {}) \<and>
   (maxSplits = 0 \<longrightarrow> set r \<inter> set delims = {}) \<and>
   (0 < maxSplits \<and> splits \<le> maxSplits \<and> splits \<ge> length result \<longrightarrow> length xs \<le> maxSplits)"
proof (induction delims maxSplits s result splits rule: split_loop.induct)
  case (1 delims maxSplits s result splits)
  show ?case
  proof (cases "maxSplits = 0 \<or> splits < maxSplits")
    case False
    then show ?thesis using "1.prems" by (subst (asm) split_loop.simps) auto
  next
    case True
    show ?thesis
    proof (cases "cut_at delims s")
      case None
      have "s = r \<and> result = xs" using "1.prems"(1) True None by (subst (asm) split_loop.simps) auto
      moreover have "set s \<inter> set delims = {}" using None by (simp add: cut_at_None)
      ultimately show ?thesis using "1.prems"(2) True by auto
    next
      case (Some p)
      obtain a b where p: "p = (a, b)" by (cases p)
      have a: "set a \<inter> set delims = {}" using cut_at_Some [of delims s a b] Some p by auto
      have step: "split_loop delims maxSplits b (result @ [a]) (splits + 1) = (r, xs)"
        using "1.prems"(1) True Some p by (subst (asm) split_loop.simps) auto
      have "\<forall>x \<in> set (result @ [a]). set x \<inter> set delims = {}" using "1.prems"(2) a by auto
      note ih = "1.IH" [OF True Some p [symmetric] step this]
      show ?thesis using ih True by auto
    qed
  qed
qed

lemma splitOneOf_all:
  assumes "x \<in> set (splitOneOf s delims 0)"
  shows "set x \<inter> set delims = {}"
proof -
  obtain r xs where l: "split_loop delims 0 s [] 0 = (r, xs)" by (metis surj_pair)
  have "\<forall>y \<in> set xs. set y \<inter> set delims = {}" and "set r \<inter> set delims = {}"
    using split_loop_pieces [OF l] by auto
  then show ?thesis using assms l by (auto simp: splitOneOf_def split: if_splits)
qed

lemma splitOneOf_most:
  assumes "0 < maxSplits"
  shows "length (splitOneOf s delims maxSplits) \<le> maxSplits + 1"
proof -
  obtain r xs where l: "split_loop delims maxSplits s [] 0 = (r, xs)" by (metis surj_pair)
  have "length xs \<le> maxSplits" using split_loop_pieces [OF l] assms by auto
  then show ?thesis using l by (auto simp: splitOneOf_def)
qed

text \<open>
  Taking apart what was put together: pieces without separators, each followed by one, and a last
  piece. With a limit the last piece may hold separators.
\<close>

lemma split_loop_result:
  "split_loop delims maxSplits s (front @ result) splits =
     map_prod (\<lambda>r. r) ((@) front) (split_loop delims maxSplits s result splits)"
proof (induction delims maxSplits s result splits rule: split_loop.induct)
  case (1 delims maxSplits s result splits)
  show ?case
    using "1.IH" split_loop.simps [of delims maxSplits s "front @ result" splits]
      split_loop.simps [of delims maxSplits s result splits]
    by (auto split: option.splits)
qed

definition pieces_text :: "(string \<times> char) list \<Rightarrow> string" where
  "pieces_text ps = concat (map (\<lambda>(a, c). a @ [c]) ps)"

lemma split_loop_text:
  "\<forall>(a, c) \<in> set ps. set a \<inter> set delims = {} \<and> c \<in> set delims \<Longrightarrow>
   maxSplits = 0 \<or> splits + length ps \<le> maxSplits \<Longrightarrow>
   split_loop delims maxSplits (pieces_text ps @ l) result splits =
     split_loop delims maxSplits l (result @ map fst ps) (splits + length ps)"
proof (induction ps arbitrary: result splits)
  case Nil
  then show ?case by (simp add: pieces_text_def)
next
  case (Cons p ps)
  obtain a c where p: "p = (a, c)" by (cases p)
  have "split_loop delims maxSplits (a @ c # (pieces_text ps @ l)) result splits =
      split_loop delims maxSplits (pieces_text ps @ l) (result @ [a]) (splits + 1)"
    using Cons.prems p by (intro split_loop_cut) auto
  then show ?case using Cons.IH [of "splits + 1" "result @ [a]"] Cons.prems p
    by (simp add: pieces_text_def)
qed

lemma splitOneOf_text:
  assumes "\<forall>(a, c) \<in> set ps. set a \<inter> set delims = {} \<and> c \<in> set delims"
    and "maxSplits = 0 \<and> set l \<inter> set delims = {} \<or> 0 < maxSplits \<and> length ps = maxSplits
      \<or> length ps < maxSplits \<and> set l \<inter> set delims = {}"
  shows "splitOneOf (pieces_text ps @ l) delims maxSplits = map fst ps @ (if l = [] then [] else [l])"
proof -
  have "split_loop delims maxSplits (pieces_text ps @ l) [] 0 =
      split_loop delims maxSplits l (map fst ps) (length ps)"
    using split_loop_text [OF assms(1), of maxSplits 0 l "[]"] assms(2) by auto
  also have "\<dots> = (l, map fst ps)"
  proof (cases "set l \<inter> set delims = {}")
    case True
    then show ?thesis by (rule split_loop_last)
  next
    case False
    then have "0 < maxSplits" "length ps = maxSplits" using assms(2) by auto
    then show ?thesis by (subst split_loop.simps) simp
  qed
  finally show ?thesis by (simp add: splitOneOf_def)
qed

subsection \<open>Searching and reading lines\<close>

text \<open>\<^verbatim>\<open>line.find(text) != npos\<close>.\<close>

definition found_in :: "string \<Rightarrow> string \<Rightarrow> bool" where
  "found_in pat s = sublist pat s"

lemma found_in_iff: "found_in pat s \<longleftrightarrow> (\<exists>a b. s = a @ pat @ b)"
  by (auto simp: found_in_def sublist_def)

text \<open>\<^verbatim>\<open>while (std::getline(iss, line))\<close>: the lines without their ends; nothing follows a last line end.\<close>

function lines_of :: "string \<Rightarrow> string list" where
  "lines_of s =
     (case cut_at [CHR 0x0A] s of
        None \<Rightarrow> if s = [] then [] else [s]
      | Some (a, b) \<Rightarrow> a # lines_of b)"
  by pat_completeness auto
termination by (relation "measure length") (auto dest: cut_at_shorter)

declare lines_of.simps [simp del]

lemma lines_of_line: "CHR 0x0A \<notin> set a \<Longrightarrow> lines_of (a @ CHR 0x0A # s) = a # lines_of s"
  by (subst lines_of.simps) (simp add: cut_at_append)

lemma lines_of_lines:
  "(\<And>l. l \<in> set ls \<Longrightarrow> CHR 0x0A \<notin> set l) \<Longrightarrow> lines_of (concat (map (\<lambda>l. l @ [CHR 0x0A]) ls)) = ls"
proof (induction ls)
  case Nil
  then show ?case by (subst lines_of.simps) simp
next
  case (Cons l ls)
  then show ?case by (simp add: lines_of_line)
qed

subsection \<open>Numbers\<close>

text \<open>
  \<^verbatim>\<open>strtoul(s, nullptr, 10)\<close>: space, a sign, digits; what follows is not looked at. A number that
  does not fit gives \<^verbatim>\<open>ULONG_MAX\<close>, a minus sign the negated word.
\<close>

definition is_space :: "char \<Rightarrow> bool" where
  "is_space c \<longleftrightarrow> c \<in> {CHR 0x20, CHR 0x09, CHR 0x0A, CHR 0x0B, CHR 0x0C, CHR 0x0D}"

definition signed_digits :: "string \<Rightarrow> bool \<times> string" where
  "signed_digits s =
     (case dropWhile is_space s of
        [] \<Rightarrow> (False, [])
      | c # t \<Rightarrow> if c = CHR ''-'' then (True, takeWhile is_digit t)
                 else if c = CHR ''+'' then (False, takeWhile is_digit t)
                 else (False, takeWhile is_digit (c # t)))"

definition digits_value :: "string \<Rightarrow> int" where
  "digits_value s = foldl (\<lambda>v c. 10 * v + (of_char c - 48)) 0 s"

definition strtoul :: "string \<Rightarrow> u64" where
  "strtoul s = (case signed_digits s of (negative, ds) \<Rightarrow>
     let n = digits_value ds in
       if 18446744073709551616 \<le> n then - 1 else if negative then - word_of_int n else word_of_int n)"

text \<open>\<^verbatim>\<open>std::stoul\<close> throws where \<^verbatim>\<open>strtoul\<close> gives 0 or \<^verbatim>\<open>ULONG_MAX\<close>.\<close>

definition stoul :: "string \<Rightarrow> u64 checked" where
  "stoul s = (case signed_digits s of (negative, ds) \<Rightarrow>
     if ds = [] then Inl Invalid_argument
     else if 18446744073709551616 \<le> digits_value ds then Inl Out_of_range
     else Inr (strtoul s))"

lemma digits_value_number: "list_all is_digit s \<Longrightarrow> digits_value s = int (decimal_number s)"
proof -
  have "list_all is_digit s \<Longrightarrow>
      foldl (\<lambda>v c. 10 * v + (of_char c - 48)) (int k) s = int (foldl (\<lambda>v c. 10 * v + digit_value c) k s)" for k
  proof (induction s arbitrary: k)
    case (Cons c s)
    have "10 * int k + (of_char c - 48) = int (10 * k + digit_value c)" using Cons.prems by (simp add: is_digit_def digit_value_def of_nat_diff of_nat_of_char)
    then show ?case using Cons.IH [of "10 * k + digit_value c"] Cons.prems by (simp only: foldl.simps list.pred_inject)
  qed simp
  from this [of 0] show "list_all is_digit s \<Longrightarrow> digits_value s = int (decimal_number s)"
    by (simp add: digits_value_def decimal_number_def)
qed

lemma digits_value_decimal [simp]: "digits_value (decimal n) = int n"
  by (simp add: digits_value_number decimal_digits)

lemma digit_no_space: "is_digit c \<Longrightarrow> \<not> is_space c \<and> c \<noteq> CHR ''-'' \<and> c \<noteq> CHR ''+''"
  by (auto simp: is_digit_def is_space_def)

lemma signed_digits_decimal:
  assumes "\<forall>c. (case rest of [] \<Rightarrow> False | d # _ \<Rightarrow> d = c) \<longrightarrow> \<not> is_digit c"
  shows "signed_digits (decimal n @ rest) = (False, decimal n)"
proof -
  obtain c t where d: "decimal n = c # t" by (cases "decimal n") auto
  have "is_digit c" and t: "\<forall>x \<in> set t. is_digit x"
    using decimal_digits [of n] d by (auto simp: list_all_iff)
  moreover have "takeWhile is_digit rest = []" using assms by (cases rest) auto
  ultimately show ?thesis using digit_no_space [of c]
    by (simp add: signed_digits_def d takeWhile_append2)
qed

lemma strtoul_decimal_rest:
  assumes "\<forall>c. (case rest of [] \<Rightarrow> False | d # _ \<Rightarrow> d = c) \<longrightarrow> \<not> is_digit c" "n < 2 ^ 64"
  shows "strtoul (decimal n @ rest) = of_nat n"
  using assms by (simp add: strtoul_def signed_digits_decimal Let_def)

lemma strtoul_decimal [simp]: "n < 2 ^ 64 \<Longrightarrow> strtoul (decimal n) = of_nat n"
  using strtoul_decimal_rest [of "[]" n] by simp

end
