(* ===== verification/SdpInfo.thy ===== *)
theory SdpInfo
  imports StringUtil OrderedMap "HOL-Library.List_Lexorder" "HOL-Library.Char_ord"
begin

text \<open>
  The session description of \<^verbatim>\<open>SdpInfo.h\<close> and the operations of \<^verbatim>\<open>SdpInfo.cpp\<close> that neither parse
  nor print a whole description: candidates and credentials, the offer and the answer, and the
  translation of payload types. An object whose members the code leaves unset holds what its memory
  held: that memory is an argument.
\<close>

datatype HostType = HOST | SRFLX | PRFLX | RELAY
datatype mediaType = VIDEO_TYPE | AUDIO_TYPE | OTHER
datatype StreamDirection = SENDRECV | SENDONLY | RECVONLY
datatype Profile = AVPF | SAVPF
datatype DtlsRole = ACTPASS | ACTIVE | PASSIVE

record CryptoInfo =
  crypto_tag :: int
  cipherSuite :: string
  keyParams :: string
  crypto_mediaType :: mediaType

record CandidateInfo =
  ci_isBundle :: bool
  ci_tag :: int
  ci_priority :: u32
  componentId :: u32
  foundation :: string
  hostAddress :: string
  rAddress :: string
  hostPort :: int
  rPort :: int
  netProtocol :: string
  hostType :: HostType
  transProtocol :: string
  ci_username :: string
  ci_password :: string
  ci_mediaType :: mediaType
  ci_sdp :: string

record BundleTag =
  tag_id :: string
  tag_mediaType :: mediaType

record RtpMap =
  payload_type :: u32
  encoding_name :: string
  clock_rate :: u32
  media_type :: mediaType
  channels :: u32
  feedback_types :: "string list"
  format_parameters :: "(string \<times> string) list"

record ExtMap =
  ext_value :: u32
  ext_uri :: string
  ext_direction :: StreamDirection
  ext_parameters :: string
  ext_mediaType :: mediaType

record SdpInfo =
  audio_ssrc :: u32
  video_ssrc_list :: "u32 list"
  video_rtx_ssrc_map :: "u32 \<rightharpoonup> u32"
  isBundle :: bool
  hasAudio :: bool
  hasVideo :: bool
  isRtcpMux :: bool
  videoDirection :: StreamDirection
  audioDirection :: StreamDirection
  profile :: Profile
  isFingerprint :: bool
  fingerprint :: string
  dtlsRole :: DtlsRole
  inOutPTMap :: "u32 \<rightharpoonup> u32"
  outInPTMap :: "u32 \<rightharpoonup> u32"
  payloadVector :: "RtpMap list"
  bundleTags :: "BundleTag list"
  extMapVector :: "ExtMap list"
  videoSdpMLine :: int
  audioSdpMLine :: int
  videoCodecs :: int
  audioCodecs :: int
  videoBandwidth :: u32
  candidateVector :: "CandidateInfo list"
  cryptoVector :: "CryptoInfo list"
  internalPayloadVector :: "RtpMap list"
  iceVideoUsername :: string
  iceAudioUsername :: string
  iceVideoPassword :: string
  iceAudioPassword :: string
  payload_parsed_map :: "(u32 \<times> RtpMap) list"
  supported_ext_map :: "ExtMap list"

text \<open>The constructor sets everything but the two directions, which are what their memory held.\<close>

definition new_SdpInfo :: "RtpMap list \<Rightarrow> StreamDirection \<Rightarrow> StreamDirection \<Rightarrow> SdpInfo" where
  "new_SdpInfo rtp_mappings raw_video raw_audio =
     \<lparr>audio_ssrc = 0, video_ssrc_list = [], video_rtx_ssrc_map = Map.empty, isBundle = False,
      hasAudio = False, hasVideo = False, isRtcpMux = False, videoDirection = raw_video,
      audioDirection = raw_audio, profile = SAVPF, isFingerprint = False, fingerprint = [],
      dtlsRole = ACTPASS, inOutPTMap = Map.empty, outInPTMap = Map.empty, payloadVector = [],
      bundleTags = [], extMapVector = [], videoSdpMLine = -1, audioSdpMLine = -1, videoCodecs = 0,
      audioCodecs = 0, videoBandwidth = 0, candidateVector = [], cryptoVector = [],
      internalPayloadVector = rtp_mappings, iceVideoUsername = [], iceAudioUsername = [],
      iceVideoPassword = [], iceAudioPassword = [], payload_parsed_map = [], supported_ext_map = []\<rparr>"

subsection \<open>Candidates, keys, credentials, extensions\<close>

definition hostType_str :: "HostType \<Rightarrow> string" where
  "hostType_str t = (case t of HOST \<Rightarrow> ''host'' | SRFLX \<Rightarrow> ''srflx'' | PRFLX \<Rightarrow> ''prflx'' | RELAY \<Rightarrow> ''relay'')"

definition stringifyCandidate :: "CandidateInfo \<Rightarrow> string" where
  "stringifyCandidate c =
     ''a=candidate:'' @ foundation c @ '' '' @ decimal (unat (componentId c)) @ '' '' @ netProtocol c
     @ '' '' @ decimal (unat (ci_priority c)) @ '' '' @ hostAddress c @ '' '' @ decimal_int (hostPort c)
     @ '' typ '' @ hostType_str (hostType c)
     @ (if hostType c = SRFLX \<or> hostType c = RELAY
        then '' raddr '' @ rAddress c @ '' rport '' @ decimal_int (rPort c) else [])
     @ '' generation 0''"

definition addCandidate :: "CandidateInfo \<Rightarrow> SdpInfo \<Rightarrow> string \<times> SdpInfo" where
  "addCandidate info s = (stringifyCandidate info, s\<lparr>candidateVector := candidateVector s @ [info]\<rparr>)"

definition addCrypto :: "CryptoInfo \<Rightarrow> SdpInfo \<Rightarrow> SdpInfo" where
  "addCrypto info s = s\<lparr>cryptoVector := cryptoVector s @ [info]\<rparr>"

definition updateSupportedExtensionMap :: "ExtMap list \<Rightarrow> SdpInfo \<Rightarrow> SdpInfo" where
  "updateSupportedExtensionMap ext_map s = s\<lparr>supported_ext_map := ext_map\<rparr>"

definition isValidExtension :: "string \<Rightarrow> SdpInfo \<Rightarrow> bool" where
  "isValidExtension uri s = (List.find (\<lambda>extension. ext_uri extension = uri) (supported_ext_map s) \<noteq> None)"

definition setCredentials :: "string \<Rightarrow> string \<Rightarrow> mediaType \<Rightarrow> SdpInfo \<Rightarrow> SdpInfo" where
  "setCredentials username password media s =
     (case media of
        VIDEO_TYPE \<Rightarrow> s\<lparr>iceVideoUsername := username, iceVideoPassword := password\<rparr>
      | AUDIO_TYPE \<Rightarrow> s\<lparr>iceAudioUsername := username, iceAudioPassword := password\<rparr>
      | OTHER \<Rightarrow> s\<lparr>iceVideoUsername := username, iceVideoPassword := password,
                    iceAudioUsername := username, iceAudioPassword := password\<rparr>)"

definition getUsername :: "mediaType \<Rightarrow> SdpInfo \<Rightarrow> string" where
  "getUsername media s = (if media = AUDIO_TYPE then iceAudioUsername s else iceVideoUsername s)"

definition getPassword :: "mediaType \<Rightarrow> SdpInfo \<Rightarrow> string" where
  "getPassword media s = (if media = AUDIO_TYPE then iceAudioPassword s else iceVideoPassword s)"

subsection \<open>Codecs\<close>

definition getCodecByExternalPayloadType :: "u32 \<Rightarrow> SdpInfo \<Rightarrow> RtpMap option" where
  "getCodecByExternalPayloadType pt s = List.find (\<lambda>rtp. payload_type rtp = pt) (payloadVector s)"

definition getCodecByName :: "string \<Rightarrow> u32 \<Rightarrow> SdpInfo \<Rightarrow> RtpMap option" where
  "getCodecByName codecName clockRate s =
     List.find (\<lambda>rtp. encoding_name rtp = codecName \<and> clock_rate rtp = clockRate) (internalPayloadVector s)"

text \<open>\<open>map[k]\<close> of a \<^verbatim>\<open>std::map\<close> that lacks the key puts a zero there.\<close>

definition map_touch :: "u32 \<Rightarrow> (u32 \<rightharpoonup> u32) \<Rightarrow> (u32 \<rightharpoonup> u32)" where
  "map_touch k m = (if m k = None then m(k \<mapsto> 0) else m)"

fun support_scan :: "u32 \<Rightarrow> RtpMap list \<Rightarrow> (u32 \<rightharpoonup> u32) \<Rightarrow> bool \<times> (u32 \<rightharpoonup> u32)" where
  "support_scan payloadType [] m = (False, m)"
| "support_scan payloadType (rtp # rtps) m =
     (let m = map_touch (payload_type rtp) m
      in if m (payload_type rtp) = Some payloadType then (True, m) else support_scan payloadType rtps m)"

definition supportPayloadType :: "u32 \<Rightarrow> SdpInfo \<Rightarrow> bool \<times> SdpInfo" where
  "supportPayloadType payloadType s =
     (if inOutPTMap s payloadType \<noteq> None
      then case support_scan payloadType (payloadVector s) (inOutPTMap s) of
             (found, m) \<Rightarrow> (found, s\<lparr>inOutPTMap := m\<rparr>)
      else (False, s))"

definition supportCodecByName :: "string \<Rightarrow> u32 \<Rightarrow> SdpInfo \<Rightarrow> bool \<times> SdpInfo" where
  "supportCodecByName codecName clockRate s =
     (case getCodecByName codecName clockRate s of
        Some rtp \<Rightarrow> supportPayloadType (payload_type rtp) s
      | None \<Rightarrow> (False, s))"

definition getAudioInternalPT :: "u32 \<Rightarrow> SdpInfo \<Rightarrow> u32" where
  "getAudioInternalPT externalPT s =
     (case outInPTMap s externalPT of Some pt \<Rightarrow> pt | None \<Rightarrow> externalPT)"

definition getVideoInternalPT :: "u32 \<Rightarrow> SdpInfo \<Rightarrow> u32" where
  "getVideoInternalPT externalPT s = getAudioInternalPT externalPT s"

definition getAudioExternalPT :: "u32 \<Rightarrow> SdpInfo \<Rightarrow> u32" where
  "getAudioExternalPT internalPT s =
     (case inOutPTMap s internalPT of Some pt \<Rightarrow> pt | None \<Rightarrow> internalPT)"

definition getVideoExternalPT :: "u32 \<Rightarrow> SdpInfo \<Rightarrow> u32" where
  "getVideoExternalPT internalPT s = getAudioExternalPT internalPT s"

subsection \<open>Offer and answer\<close>

fun count_codec :: "RtpMap \<Rightarrow> SdpInfo \<Rightarrow> SdpInfo" where
  "count_codec rtp s =
     (if media_type rtp = VIDEO_TYPE then s\<lparr>videoCodecs := videoCodecs s + 1\<rparr>
      else if media_type rtp = AUDIO_TYPE then s\<lparr>audioCodecs := audioCodecs s + 1\<rparr> else s)"

declare count_codec.simps [simp del]

definition createOfferSdp :: "bool \<Rightarrow> bool \<Rightarrow> bool \<Rightarrow> SdpInfo \<Rightarrow> SdpInfo" where
  "createOfferSdp videoEnabled audioEnabled bundle s =
     (let s = s\<lparr>payloadVector := internalPayloadVector s, isBundle := bundle, profile := SAVPF,
                isRtcpMux := True\<rparr>;
          s = (if videoEnabled then s\<lparr>videoSdpMLine := 0\<rparr> else s);
          s = (if audioEnabled then s\<lparr>audioSdpMLine := 0\<rparr> else s);
          s = fold count_codec (internalPayloadVector s) s
      in s\<lparr>hasVideo := videoEnabled, hasAudio := audioEnabled, videoDirection := SENDRECV,
           audioDirection := SENDRECV\<rparr>)"

definition answer_direction :: "StreamDirection \<Rightarrow> StreamDirection" where
  "answer_direction d = (case d of SENDONLY \<Rightarrow> RECVONLY | RECVONLY \<Rightarrow> SENDONLY | SENDRECV \<Rightarrow> SENDRECV)"

definition setOfferSdp :: "SdpInfo \<Rightarrow> SdpInfo \<Rightarrow> SdpInfo" where
  "setOfferSdp offerSdp s =
     s\<lparr>videoCodecs := videoCodecs offerSdp, audioCodecs := audioCodecs offerSdp,
       payloadVector := payloadVector offerSdp, isBundle := isBundle offerSdp,
       profile := profile offerSdp, isRtcpMux := isRtcpMux offerSdp,
       videoSdpMLine := videoSdpMLine offerSdp, audioSdpMLine := audioSdpMLine offerSdp,
       inOutPTMap := inOutPTMap offerSdp, outInPTMap := outInPTMap offerSdp,
       hasVideo := hasVideo offerSdp, hasAudio := hasAudio offerSdp,
       bundleTags := bundleTags offerSdp, extMapVector := extMapVector offerSdp,
       videoDirection := answer_direction (videoDirection offerSdp),
       audioDirection := answer_direction (audioDirection offerSdp)\<rparr>"

definition maybeAddSsrcToList :: "u32 \<Rightarrow> SdpInfo \<Rightarrow> SdpInfo" where
  "maybeAddSsrcToList ssrc s =
     (if video_rtx_ssrc_map s ssrc \<noteq> None then s
      else if List.find (\<lambda>current_ssrc. ssrc = current_ssrc) (video_ssrc_list s) = None
      then s\<lparr>video_ssrc_list := video_ssrc_list s @ [ssrc]\<rparr> else s)"

subsection \<open>What they do\<close>

lemma find_is_None: "List.find P xs = None \<longleftrightarrow> (\<forall>x \<in> set xs. \<not> P x)"
  by (induction xs) auto

lemma isValidExtension_iff: "isValidExtension uri s \<longleftrightarrow> uri \<in> ext_uri ` set (supported_ext_map s)"
  by (auto simp: isValidExtension_def find_is_None)

lemma maybeAddSsrcToList_distinct:
  "distinct (video_ssrc_list s) \<Longrightarrow> distinct (video_ssrc_list (maybeAddSsrcToList ssrc s))"
  by (auto simp: maybeAddSsrcToList_def find_is_None)

lemma answer_direction_twice [simp]: "answer_direction (answer_direction d) = d"
  by (cases d) (simp_all add: answer_direction_def)

lemma credentials_read_back:
  "getUsername media (setCredentials u p media s) = u" "getPassword media (setCredentials u p media s) = p"
  by (cases media; simp add: getUsername_def getPassword_def setCredentials_def)+

lemma count_codec_kept [simp]:
  "internalPayloadVector (fold count_codec rtps s) = internalPayloadVector s"
  "payloadVector (fold count_codec rtps s) = payloadVector s"
  "videoSdpMLine (fold count_codec rtps s) = videoSdpMLine s"
  "audioSdpMLine (fold count_codec rtps s) = audioSdpMLine s"
  by (induction rtps arbitrary: s) (simp_all add: count_codec.simps)

lemma count_codecs:
  "videoCodecs (fold count_codec rtps s) = videoCodecs s + int (length (filter (\<lambda>r. media_type r = VIDEO_TYPE) rtps))"
  "audioCodecs (fold count_codec rtps s) = audioCodecs s + int (length (filter (\<lambda>r. media_type r = AUDIO_TYPE) rtps))"
  by (induction rtps arbitrary: s) (simp_all add: count_codec.simps)

text \<open>
  Looking the codecs up the wrong way round: \<open>supportPayloadType\<close> reads \<open>inOutPTMap\<close>, whose keys are
  internal numbers, at the external numbers of the payloads. A codec that the peer numbers
  differently is not found, although it is translated in both directions.
\<close>

definition renumbered_codec :: SdpInfo where
  "renumbered_codec = (new_SdpInfo [] SENDRECV SENDRECV)
     \<lparr>payloadVector := [\<lparr>payload_type = 111, encoding_name = ''opus'', clock_rate = 48000,
        media_type = AUDIO_TYPE, channels = 2, feedback_types = [], format_parameters = []\<rparr>],
      inOutPTMap := [120 \<mapsto> 111], outInPTMap := [111 \<mapsto> 120]\<rparr>"

lemma renumbered_codec_not_supported:
  "getAudioExternalPT 120 renumbered_codec = 111 \<and> getAudioInternalPT 111 renumbered_codec = 120
   \<and> \<not> fst (supportPayloadType 120 renumbered_codec)
   \<and> getAudioExternalPT 111 (snd (supportPayloadType 120 renumbered_codec)) = 0"
  by code_simp

end
