(* ===== verification/RtcpForwarder.thy ===== *)
theory RtcpForwarder
  imports SdpInfo Media RtpUtils RembBitrate
begin

text \<open>
  \<^verbatim>\<open>rtp/RtcpProcessor.h\<close> and \<^verbatim>\<open>rtp/RtcpForwarder.cpp\<close>: what is kept for each source of reports, and the
  processor of the connections: it passes the reports of a subscriber on to the publisher, with the
  publisher's SSRC in them and the bit rate of a REMB cut to the maximum. A compound packet is worked on
  in place.
\<close>

subsection \<open>Data\<close>

record srDelayData =
  sr_ntp :: u32
  sr_send_time :: u64

text \<open>
  The members that the constructor leaves uninitialised (\<open>ssrc\<close>, \<open>maxBandwidth\<close>, which nothing reads, and
  \<open>last_sr_updated\<close>) are 0 in the model.
\<close>

record rtcpData =
  rrsReceivedInPeriod :: u16
  rd_totalPacketsLost :: u32
  prevTotalPacketsLost :: u32
  ratioLost :: u8
  highestSeqNumReceived :: u16
  seqNumCycles :: u16
  rd_extendedSeqNo :: u32
  prevExtendedSeqNo :: u32
  rd_lastSr :: u32
  reportedBandwidth :: u64
  rd_delaySinceLastSr :: u32
  nextPacketInMs :: u32
  lastDelay :: u32
  rd_jitter :: u32
  nackSeqnum :: u16
  rd_nackBlp :: u16
  last_sr_updated :: u64
  last_remb_sent :: u64
  last_rr_was_scheduled :: u64
  last_rr_sent :: u64
  shouldSendPli :: bool
  shouldSendREMB :: bool
  shouldSendNACK :: bool
  requestRr :: bool
  shouldReset :: bool
  rd_mediaType :: mediaType
  senderReports :: "srDelayData list"
  nackedPackets :: "u32 list"

definition new_RtcpData :: "mediaType \<Rightarrow> rtcpData" where
  "new_RtcpData t = \<lparr>rrsReceivedInPeriod = 0, rd_totalPacketsLost = 0, prevTotalPacketsLost = 0, ratioLost = 0,
     highestSeqNumReceived = 0, seqNumCycles = 0, rd_extendedSeqNo = 0, prevExtendedSeqNo = 0, rd_lastSr = 0,
     reportedBandwidth = 0, rd_delaySinceLastSr = 0, nextPacketInMs = 0, lastDelay = 0, rd_jitter = 0,
     nackSeqnum = 0, rd_nackBlp = 0, last_sr_updated = 0, last_remb_sent = 0, last_rr_was_scheduled = 0,
     last_rr_sent = 0, shouldSendPli = False, shouldSendREMB = False, shouldSendNACK = False, requestRr = False,
     shouldReset = False, rd_mediaType = t, senderReports = [], nackedPackets = []\<rparr>"

type_synonym rtcp_map = "(u32 \<times> rtcpData) list"

definition addSourceSsrc :: "mediaSource \<Rightarrow> u32 \<Rightarrow> rtcp_map \<Rightarrow> rtcp_map" where
  "addSourceSsrc source ssrc m =
     (if map_of m ssrc = None
      then map_insert ssrc (new_RtcpData (if ssrc = audio_source_ssrc source then AUDIO_TYPE else VIDEO_TYPE)) m
      else m)"

text \<open>The middle 32 bits of the time stamp, and the time it came in, are kept for the last 20 reports.\<close>

definition keep_report :: "u64 \<Rightarrow> mem \<Rightarrow> nat \<Rightarrow> rtcpData \<Rightarrow> rtcpData" where
  "keep_report now m p d =
     (let ntp = ucast (drop_bit 16 (getNtpTimestamp m p AND 0xFFFFFFFF0000));
          reports = senderReports d @ [\<lparr>sr_ntp = ntp, sr_send_time = now\<rparr>]
      in d\<lparr>senderReports := (if length reports > 20 then tl reports else reports)\<rparr>)"

definition analyzeSr :: "mediaSource \<Rightarrow> u64 \<Rightarrow> mem \<Rightarrow> nat \<Rightarrow> rtcp_map \<Rightarrow> rtcp_map" where
  "analyzeSr source now m p d =
     (let recvSSRC = rtcp_getSSRC m p
      in map_assign recvSSRC (keep_report now m p) (addSourceSsrc source recvSSRC d))"

subsection \<open>Forwarding\<close>

definition capped :: "u32 \<Rightarrow> u64 \<Rightarrow> u64" where
  "capped max_bw bitrate = (if bitrate < ucast max_bw then bitrate else ucast max_bw)"

text \<open>What is done to the report at \<open>p\<close>.\<close>

definition forward_block :: "mediaSink \<Rightarrow> mediaSource \<Rightarrow> u32 \<Rightarrow> nat \<Rightarrow> mem \<Rightarrow> mem" where
  "forward_block sink source max_bw p m =
     (if getPacketType m p = RTCP_Receiver_PT
      then if isVideoSourceSSRC source (getSourceSSRC m p) then rtcp_setSSRC p (video_sink_ssrc sink) m
           else rtcp_setSSRC p (audio_sink_ssrc sink) m
      else if getPacketType m p = RTCP_PS_Feedback_PT \<and> getBlockCount m p = RTCP_AFB \<and> isREMB m p
      then setREMBBitRate p (capped max_bw (getREMBBitRate m p)) m
      else m)"

text \<open>The loop over the compound packet; at a BYE it returns at once.\<close>

function forward_blocks :: "mediaSink \<Rightarrow> mediaSource \<Rightarrow> u32 \<Rightarrow> int \<Rightarrow> nat \<Rightarrow> mem \<Rightarrow> mem \<times> int" where
  "forward_blocks sink source max_bw len p m =
     (let rtcpLength = (unat (ntohs (load16 m (p + 2))) + 1) * 4; totalLength = p + rtcpLength
      in if getPacketType m p = RTCP_BYE then (m, 0)
         else let m' = forward_block sink source max_bw p m
              in if int totalLength < len then forward_blocks sink source max_bw len totalLength m' else (m', len))"
  by pat_completeness auto
termination
  by (relation "measure (\<lambda>(sink, source, b, len, p, m). nat len - p)") (auto simp del: of_nat_unat)

declare forward_blocks.simps [simp del]

definition empty_report :: "mem \<Rightarrow> int \<Rightarrow> bool" where
  "empty_report m len \<longleftrightarrow> getBlockCount m 0 = 0 \<and> (int (unat (rtcp_getLength m 0)) + 1) * 4 = len"

definition rf_analyzeFeedback :: "mediaSink \<Rightarrow> mediaSource \<Rightarrow> u32 \<Rightarrow> int \<Rightarrow> mem \<times> rtcp_map \<Rightarrow> (mem \<times> rtcp_map) \<times> int" where
  "rf_analyzeFeedback sink source max_bw len s =
     (case s of (m, d) \<Rightarrow>
      if isFeedback m 0
      then if empty_report m len then ((m, d), 0)
           else let d = addSourceSsrc source (getSourceSSRC m 0) d;
                    (m, n) = forward_blocks sink source max_bw len 0 m
                in ((m, d), n)
      else ((m, d), 0))"

subsection \<open>What forwarding does to a packet\<close>

definition is_RR :: "mem \<Rightarrow> nat \<Rightarrow> bool" where
  "is_RR m p \<longleftrightarrow> getPacketType m p = RTCP_Receiver_PT"

definition is_REMB :: "mem \<Rightarrow> nat \<Rightarrow> bool" where
  "is_REMB m p \<longleftrightarrow> getPacketType m p = RTCP_PS_Feedback_PT \<and> getBlockCount m p = RTCP_AFB \<and> isREMB m p"

definition next_block :: "mem \<Rightarrow> nat \<Rightarrow> nat" where
  "next_block m p = p + (unat (ntohs (load16 m (p + 2))) + 1) * 4"

text \<open>The reports of a packet are as long as what is written in them.\<close>

definition roomy :: "mem \<Rightarrow> nat \<Rightarrow> bool" where
  "roomy m p \<longleftrightarrow> (is_RR m p \<longrightarrow> p + 8 \<le> next_block m p) \<and> (is_REMB m p \<longrightarrow> p + 20 \<le> next_block m p)"

definition edited :: "mem \<Rightarrow> nat \<Rightarrow> nat \<Rightarrow> bool" where
  "edited m p i \<longleftrightarrow> is_RR m p \<and> p + 4 \<le> i \<and> i < p + 8 \<or> is_REMB m p \<and> p + 17 \<le> i \<and> i < p + 20"

lemma next_block_gt: "p < next_block m p"
  by (simp add: next_block_def)

lemma forward_block_other: "\<not> edited m p i \<Longrightarrow> forward_block sink source b p m i = m i"
  by (auto simp: forward_block_def edited_def is_RR_def is_REMB_def rtcp_setSSRC_def setREMBBitRate_def store32_def store24_def)

lemma forward_block_within:
  assumes "roomy m p" "i < p + 4 \<or> next_block m p \<le> i"
  shows "forward_block sink source b p m i = m i"
  by (rule forward_block_other) (use assms in \<open>auto simp: edited_def roomy_def\<close>)

lemma block_offsets_step: "block_offsets m len p = p # (if int (next_block m p) < len then block_offsets m len (next_block m p) else [])"
  by (subst block_offsets.simps) (simp add: next_block_def Let_def)

lemma block_offsets_cong:
  "(\<And>i. p \<le> i \<Longrightarrow> m i = m' i) \<Longrightarrow> block_offsets m len p = block_offsets m' len p"
proof (induction m len p rule: block_offsets.induct)
  case (1 m len p)
  have n: "next_block m p = next_block m' p" using 1(2) by (simp add: next_block_def load16_def)
  have "block_offsets m len (next_block m p) = block_offsets m' len (next_block m p)" if "int (next_block m p) < len"
    using 1(1) [OF _ , folded next_block_def, OF refl that] 1(2) next_block_gt [of p m] by simp
  then show ?case by (simp add: block_offsets_step [of _ _ p] n)
qed

lemma forward_blocks_step:
  "forward_blocks sink source b len p m =
     (if getPacketType m p = RTCP_BYE then (m, 0)
      else if int (next_block m p) < len then forward_blocks sink source b len (next_block m p) (forward_block sink source b p m)
      else (forward_block sink source b p m, len))"
  by (subst forward_blocks.simps) (simp add: next_block_def Let_def)

text \<open>What a block is and what is done to it depends on its own bytes.\<close>

lemma reads_cong:
  assumes "\<And>i. c \<le> i \<Longrightarrow> m i = m' i" "c \<le> q"
  shows "getPacketType m q = getPacketType m' q" "getBlockCount m q = getBlockCount m' q" "isREMB m q = isREMB m' q"
    "getSourceSSRC m q = getSourceSSRC m' q" "getREMBBitRate m q = getREMBBitRate m' q" "next_block m q = next_block m' q"
  using assms
  by (simp_all add: getPacketType_def getBlockCount_def isREMB_def getSourceSSRC_def getREMBBitRate_def getBrExp_def
      getBrMantis_def next_block_def load32_def load24_def load16_def)

lemma forward_block_cong:
  assumes "\<And>i. c \<le> i \<Longrightarrow> m i = m' i" "c \<le> q" "c \<le> i"
  shows "forward_block sink source b q m i = forward_block sink source b q m' i" "roomy m q = roomy m' q"
proof -
  note r = reads_cong [OF assms(1,2)]
  show "roomy m q = roomy m' q" by (simp add: roomy_def is_RR_def is_REMB_def r)
  show "forward_block sink source b q m i = forward_block sink source b q m' i"
    using assms(1) [OF assms(3)] by (auto simp: forward_block_def r rtcp_setSSRC_def setREMBBitRate_def store32_def store24_def)
qed

definition forwardable :: "mem \<Rightarrow> nat \<Rightarrow> bool" where
  "forwardable m q \<longleftrightarrow> roomy m q \<and> getPacketType m q \<noteq> RTCP_BYE"

lemma forward_blocks_local:
  assumes "\<forall>q \<in> set (block_offsets m len p). forwardable m q" "forward_blocks sink source b len p m = (m', n)"
  shows "n = len \<and> (\<forall>i < p. m' i = m i)
    \<and> (\<forall>q \<in> set (block_offsets m len p). \<forall>i. q \<le> i \<and> i < next_block m q \<longrightarrow> m' i = forward_block sink source b q m i)"
  using assms
proof (induction sink source b len p m rule: forward_blocks.induct)
  case (1 sink source b len p m)
  let ?c = "next_block m p" and ?m = "forward_block sink source b p m"
  have f: "roomy m p" "getPacketType m p \<noteq> RTCP_BYE"
    using 1(2) block_offsets_mem [of m len p] by (auto simp: forwardable_def)
  have w: "i < p \<or> ?c \<le> i \<Longrightarrow> ?m i = m i" for i using forward_block_within [OF f(1), of i] by auto
  have same: "\<And>i. ?c \<le> i \<Longrightarrow> m i = ?m i" using w by simp
  show ?case
  proof (cases "int ?c < len")
    case False
    then show ?thesis using 1(3) f(2) w
      by (simp add: forward_blocks_step [of _ _ _ _ p] block_offsets_step [of _ _ p])
  next
    case True
    have o: "block_offsets ?m len ?c = block_offsets m len ?c" by (rule block_offsets_cong) (use same in simp)
    have ge: "?c \<le> q" if "q \<in> set (block_offsets m len ?c)" for q using block_offsets_lt [OF that] by auto
    have r: "forward_blocks sink source b len ?c ?m = (m', n)"
      using 1(3) f(2) True by (simp add: forward_blocks_step [of _ _ _ _ p])
    have ok: "\<forall>q \<in> set (block_offsets ?m len ?c). forwardable ?m q"
      using 1(2) True forward_block_cong(2) [OF same ge order_refl] reads_cong(1) [OF same ge]
      by (simp add: o block_offsets_step [of _ _ p] forwardable_def)
    have IH: "n = len \<and> (\<forall>i < ?c. m' i = ?m i)
      \<and> (\<forall>q \<in> set (block_offsets m len ?c). \<forall>i. q \<le> i \<and> i < next_block ?m q \<longrightarrow> m' i = forward_block sink source b q ?m i)"
      using 1(1) [OF refl refl, folded next_block_def, OF f(2) refl True ok r] unfolding o .
    have "m' i = forward_block sink source b q m i"
      if q: "q \<in> set (block_offsets m len ?c)" "q \<le> i" "i < next_block m q" for q i
    proof -
      have "i < next_block ?m q" using q reads_cong(6) [OF same ge [OF q(1)]] by simp
      moreover have "forward_block sink source b q m i = forward_block sink source b q ?m i"
        by (rule forward_block_cong(1) [OF same ge [OF q(1)] order_trans [OF ge [OF q(1)] q(2)]])
      ultimately show ?thesis using IH q by simp
    qed
    then show ?thesis using IH w next_block_gt [of p m] True by (auto simp: block_offsets_step [of _ _ p])
  qed
qed

lemma forward_blocks_bye:
  assumes "\<forall>q \<in> set (block_offsets m len p). roomy m q" "q \<in> set (block_offsets m len p)"
    "getPacketType m q = RTCP_BYE" "forward_blocks sink source b len p m = (m', n)"
  shows "n = 0"
  using assms
proof (induction sink source b len p m rule: forward_blocks.induct)
  case (1 sink source b len p m)
  let ?c = "next_block m p" and ?m = "forward_block sink source b p m"
  show ?case
  proof (cases "getPacketType m p = RTCP_BYE")
    case True
    then show ?thesis using 1(5) by (simp add: forward_blocks_step [of _ _ _ _ p])
  next
    case no: False
    have f: "roomy m p" using 1(2) block_offsets_mem [of m len p] by auto
    have same: "\<And>i. ?c \<le> i \<Longrightarrow> m i = ?m i" using forward_block_within [OF f] by simp
    have q: "int ?c < len" "q \<in> set (block_offsets m len ?c)"
      using 1(3,4) no by (auto simp: block_offsets_step [of m len p] split: if_splits)
    have o: "block_offsets ?m len ?c = block_offsets m len ?c" by (rule block_offsets_cong) (use same in simp)
    have ge: "?c \<le> q" if "q \<in> set (block_offsets m len ?c)" for q using block_offsets_lt [OF that] by auto
    have r: "forward_blocks sink source b len ?c ?m = (m', n)"
      using 1(5) no q(1) by (simp add: forward_blocks_step [of _ _ _ _ p])
    have ok: "\<forall>q \<in> set (block_offsets ?m len ?c). roomy ?m q"
      using 1(2) q(1) forward_block_cong(2) [OF same ge order_refl] by (simp add: o block_offsets_step [of m len p])
    have bye: "getPacketType ?m q = RTCP_BYE" using reads_cong(1) [OF same ge [OF q(2)]] 1(4) by simp
    have q': "q \<in> set (block_offsets ?m len ?c)" using q(2) o by simp
    show ?thesis using 1(1) [OF refl refl, folded next_block_def, OF no refl q(1) ok q' bye r] .
  qed
qed

lemma unat_capped: "unat (capped b v) \<le> unat b" "unat (capped b v) \<le> unat v"
  by (auto simp: capped_def word_less_nat_alt unat_ucast_mod mod_less)

text \<open>
  C30: Of a feedback packet whose receiver reports have at least 8 bytes (their header and sender) and whose
  REMBs have at least 20, what is forwarded is this. A lone report without blocks is dropped as it is,
  and so is a packet with a BYE. Any other packet leaves with its length; every receiver report, an empty one
  included, bears the SSRC of the sink (the video one if the word where the first source stands is a
  video SSRC of the publisher, the audio one otherwise); no REMB asks for
  more than the maximum, nor for more than it did; all other bytes of all reports are as they came.
\<close>
theorem feedback_is_forwarded:
  assumes "isFeedback m 0" "\<forall>q \<in> set (block_offsets m len 0). roomy m q"
    "rf_analyzeFeedback sink source b len (m, d) = ((m', d'), n)" "q \<in> set (block_offsets m len 0)"
  shows "if empty_report m len then m' = m \<and> n = 0
    else if \<exists>q \<in> set (block_offsets m len 0). getPacketType m q = RTCP_BYE then n = 0
    else n = len
    \<and> (is_RR m q \<longrightarrow> rtcp_getSSRC m' q = (if isVideoSourceSSRC source (getSourceSSRC m q) then video_sink_ssrc sink else audio_sink_ssrc sink))
    \<and> (is_REMB m q \<longrightarrow> unat (getREMBBitRate m' q) \<le> unat b \<and> unat (getREMBBitRate m' q) \<le> unat (getREMBBitRate m q))
    \<and> (\<forall>i. q \<le> i \<and> i < next_block m q \<and> \<not> edited m q i \<longrightarrow> m' i = m i)"
proof (cases "empty_report m len")
  case True
  then show ?thesis using assms(1,3) by (simp add: rf_analyzeFeedback_def)
next
  case ne: False
  then have fb: "forward_blocks sink source b len 0 m = (m', n)"
    using assms(1,3) by (auto simp: rf_analyzeFeedback_def case_prod_beta prod_eq_iff)
  show ?thesis
  proof (cases "\<exists>q \<in> set (block_offsets m len 0). getPacketType m q = RTCP_BYE")
    case True
    then show ?thesis using forward_blocks_bye [OF assms(2) _ _ fb] ne by auto
  next
    case no: False
    then have "\<forall>q \<in> set (block_offsets m len 0). forwardable m q" using assms(2) by (auto simp: forwardable_def)
    note l = forward_blocks_local [OF this fb]
    let ?m = "forward_block sink source b q m"
    have here: "m' i = ?m i" if "q \<le> i" "i < next_block m q" for i using l assms(4) that by blast
    have r: "roomy m q" using assms(2,4) by simp
    have RR: "rtcp_getSSRC m' q = rtcp_getSSRC ?m q" if "is_RR m q"
      using that r here by (simp add: roomy_def rtcp_getSSRC_def load32_def)
    have REMB: "getREMBBitRate m' q = getREMBBitRate ?m q" if "is_REMB m q"
      using that r here by (simp add: roomy_def getREMBBitRate_def getBrExp_def getBrMantis_def load24_def)
    have rb: "unat (getREMBBitRate ?m q) \<le> unat (capped b (getREMBBitRate m q))" if "is_REMB m q"
    proof -
      have "?m = setREMBBitRate q (capped b (getREMBBitRate m q)) m"
        using that by (simp add: forward_block_def is_REMB_def)
      moreover have "unat (capped b (getREMBBitRate m q)) < 2 ^ 32"
        by (rule order_le_less_trans [OF unat_capped(1) [of b]]) simp
      ultimately show ?thesis by (simp add: unat_getREMBBitRate)
    qed
    have "n = len
      \<and> (is_RR m q \<longrightarrow> rtcp_getSSRC m' q = (if isVideoSourceSSRC source (getSourceSSRC m q) then video_sink_ssrc sink else audio_sink_ssrc sink))
      \<and> (is_REMB m q \<longrightarrow> unat (getREMBBitRate m' q) \<le> unat b \<and> unat (getREMBBitRate m' q) \<le> unat (getREMBBitRate m q))
      \<and> (\<forall>i. q \<le> i \<and> i < next_block m q \<and> \<not> edited m q i \<longrightarrow> m' i = m i)"
      using l RR REMB rb unat_capped [of b "getREMBBitRate m q"] here forward_block_other [of m q _ sink source b]
      by (auto simp: forward_block_def is_RR_def intro: order_trans)
    then show ?thesis using ne no by auto
  qed
qed

text \<open>A BYE anywhere in the packet has all of it dropped, also the reports before it.\<close>

lemma bye_drops_everything:
  "isFeedback m 0 \<Longrightarrow> int (next_block m 0) < len \<Longrightarrow> roomy m 0 \<Longrightarrow> getPacketType m (next_block m 0) = RTCP_BYE
    \<Longrightarrow> snd (rf_analyzeFeedback sink source b len (m, d)) = 0"
proof -
  assume a: "isFeedback m 0" "int (next_block m 0) < len" "roomy m 0" "getPacketType m (next_block m 0) = RTCP_BYE"
  have "forward_block sink source b 0 m (next_block m 0 + 1) = m (next_block m 0 + 1)"
    by (rule forward_block_within [OF a(3)]) simp
  then have "getPacketType (forward_block sink source b 0 m) (next_block m 0) = RTCP_BYE"
    using a(4) by (simp add: getPacketType_def)
  then have "snd (forward_blocks sink source b len 0 m) = 0"
    using a(1,2) by (simp add: forward_blocks_step [of _ _ _ _ 0] forward_blocks_step [of _ _ _ _ "next_block m 0"])
  then show "snd (rf_analyzeFeedback sink source b len (m, d)) = 0"
    by (simp add: rf_analyzeFeedback_def case_prod_beta)
qed

text \<open>A receiver report followed by a REMB of 500000 bits per second.\<close>

definition sample_compound :: mem where
  "sample_compound = setREMBBitRate 32 500000 (setUniqueId 32 (rtcp_setLength 32 5 (setBlockCount 32 RTCP_AFB
     (setPacketType 32 RTCP_PS_Feedback_PT (rtcp_setLength 0 7 (setSourceSSRC 0 7 (setBlockCount 0 1
     (setPacketType 0 RTCP_Receiver_PT zero_mem))))))))"

definition sample_sink :: mediaSink where
  "sample_sink = \<lparr>audio_sink_ssrc = 21, video_sink_ssrc = 22\<rparr>"

definition sample_source :: mediaSource where
  "sample_source = \<lparr>audio_source_ssrc = 6, video_source_ssrc_list = [7]\<rparr>"

definition sample_empty_report :: mem where
  "sample_empty_report = setSourceSSRC 8 7 (rtcp_setLength 8 2 (setBlockCount 8 RTCP_PLI_FMT (setPacketType 8 RTCP_PS_Feedback_PT
     (rtcp_setLength 0 1 (setPacketType 0 RTCP_Receiver_PT zero_mem)))))"

theorem feedback_is_forwarded_witness:
  "rtcp_getSSRC (fst (fst (rf_analyzeFeedback sample_sink sample_source 300000 56 (sample_compound, [])))) 0 = 22
   \<and> unat (getREMBBitRate (fst (fst (rf_analyzeFeedback sample_sink sample_source 300000 56 (sample_compound, [])))) 32) \<le> 300000"
proof -
  obtain m' d' n where a: "rf_analyzeFeedback sample_sink sample_source 300000 56 (sample_compound, []) = ((m', d'), n)"
    by (metis prod.exhaust)
  have o: "block_offsets sample_compound 56 0 = [0, 32]" by code_simp
  have k: "isFeedback sample_compound 0" "\<not> empty_report sample_compound 56"
    "is_RR sample_compound 0" "is_REMB sample_compound 32" "roomy sample_compound 0" "roomy sample_compound 32"
    "getPacketType sample_compound 0 \<noteq> RTCP_BYE" "getPacketType sample_compound 32 \<noteq> RTCP_BYE"
    "getSourceSSRC sample_compound 0 = 7"
    by code_simp+
  have f: "\<forall>q \<in> set (block_offsets sample_compound 56 0). roomy sample_compound q" using k by (simp add: o)
  show ?thesis unfolding a fst_conv
    using feedback_is_forwarded [OF k(1) f a, of 0] feedback_is_forwarded [OF k(1) f a, of 32] k
    by (simp add: o sample_sink_def sample_source_def isVideoSourceSSRC_def)
qed

text \<open>
  An empty report before a PLI is forwarded, but what is taken for its source is the header of the
  PLI: it bears the SSRC of the audio sink, although the PLI is about the video stream.
\<close>

lemma empty_report_is_taken_for_audio:
  "block_offsets sample_empty_report 20 0 = [0, 8] \<and> getSourceSSRC sample_empty_report 8 = 7
   \<and> rtcp_getSSRC (fst (fst (rf_analyzeFeedback sample_sink sample_source 300000 20 (sample_empty_report, [])))) 0 = 21"
  by code_simp

end
