(* ===== verification/RtcpAggregator.thy ===== *)
theory RtcpAggregator
  imports Complex_Main RtcpForwarder
begin

text \<open>
  \<^verbatim>\<open>rtp/RtcpAggregator.cpp\<close>: the other processor of reports. It gathers what all subscribers report about a
  source and sends reports of its own from time to time. It never passes a packet on. Doubles and floats
  are rationals without rounding; what is undefined or stops the process is an \<open>ag_error\<close>.
\<close>

definition MAP_NACK_SIZE :: nat where "MAP_NACK_SIZE = 50"
definition REMB_TIMEOUT :: u32 where "REMB_TIMEOUT = 1000"

record rtcpAggregator =
  ag_data :: rtcp_map
  defaultVideoBw :: u32
  ag_max_video_bw :: u32

definition new_RtcpAggregator :: "u32 \<Rightarrow> rtcpAggregator" where
  "new_RtcpAggregator max_video_bw = \<lparr>ag_data = [], defaultVideoBw = max_video_bw div 2, ag_max_video_bw = max_video_bw\<rparr>"

definition ag_setPublisherBW :: "u32 \<Rightarrow> rtcpAggregator \<Rightarrow> rtcpAggregator" where
  "ag_setPublisherBW bandwidth g =
     (let bw = of_int (uint bandwidth) * 12 / 10 :: rat
      in g\<lparr>defaultVideoBw := (if bw > of_int (uint (ag_max_video_bw g)) then ag_max_video_bw g else word_of_int \<lfloor>bw\<rfloor>)\<rparr>)"

definition ag_addSourceSsrc :: "mediaSource \<Rightarrow> u32 \<Rightarrow> rtcpAggregator \<Rightarrow> rtcpAggregator" where
  "ag_addSourceSsrc source ssrc g =
     (if map_of (ag_data g) ssrc = None
      then g\<lparr>ag_data := map_insert ssrc (new_RtcpData (if ssrc = audio_source_ssrc source then AUDIO_TYPE else VIDEO_TYPE)) (ag_data g)\<rparr>
      else g)"

definition ag_analyzeSr :: "mediaSource \<Rightarrow> u64 \<Rightarrow> mem \<Rightarrow> nat \<Rightarrow> rtcpAggregator \<Rightarrow> rtcpAggregator" where
  "ag_analyzeSr source now m p g =
     (let recvSSRC = rtcp_getSSRC m p; g = ag_addSourceSsrc source recvSSRC g;
          ntp = ucast (drop_bit 16 (getNtpTimestamp m p AND 0xFFFFFFFF0000));
          keep = (\<lambda>d. let reports = senderReports d @ [\<lparr>sr_ntp = ntp, sr_send_time = now\<rparr>]
                       in d\<lparr>senderReports := (if length reports > 20 then tl reports else reports)\<rparr>)
      in g\<lparr>ag_data := map_assign recvSSRC keep (ag_data g)\<rparr>)"

subsection \<open>Reading reports\<close>

text \<open>
  The local \<open>delay\<close> is not initialised: its first value is an argument, and it keeps its value from one
  report of the packet to the next.
\<close>

definition find_delay :: "u64 \<Rightarrow> mem \<Rightarrow> nat \<Rightarrow> srDelayData list \<Rightarrow> u32 \<Rightarrow> u32" where
  "find_delay nowms m p reports delay =
     (let calculatedlsr = getDelaySinceLastSr m p * 1000 div 65536
      in fold (\<lambda>r delay. if sr_ntp r = getLastSr m p then ucast (nowms - sr_send_time r - ucast calculatedlsr) else delay)
           reports delay)"

definition receive_RR :: "u64 \<Rightarrow> mem \<Rightarrow> nat \<Rightarrow> u32 \<times> rtcpData \<Rightarrow> u32 \<times> rtcpData" where
  "receive_RR nowms m p st =
     (case st of (delay, d) \<Rightarrow>
      let d = d\<lparr>rrsReceivedInPeriod := rrsReceivedInPeriod d + 1\<rparr>;
          d = d\<lparr>ratioLost := (if ratioLost d > getFractionLost m p then ratioLost d else getFractionLost m p)\<rparr>;
          d = d\<lparr>rd_totalPacketsLost := (if rd_totalPacketsLost d > getLostPackets m p then rd_totalPacketsLost d else getLostPackets m p)\<rparr>;
          extendedSeqNo = push_bit 16 (ucast (getSeqnumCycles m p)) + ucast (getHighestSeqnum m p);
          d = (if extendedSeqNo > rd_extendedSeqNo d
               then d\<lparr>rd_extendedSeqNo := extendedSeqNo, highestSeqNumReceived := getHighestSeqnum m p,
                      seqNumCycles := getSeqnumCycles m p\<rparr>
               else d);
          d = d\<lparr>rd_jitter := (if rd_jitter d > getJitter m p then rd_jitter d else getJitter m p)\<rparr>;
          delay = find_delay nowms m p (senderReports d) delay
      in (delay, if rd_lastSr d = 0 \<or> lastDelay d < delay
                 then d\<lparr>rd_lastSr := getLastSr m p, rd_delaySinceLastSr := getDelaySinceLastSr m p,
                        last_sr_updated := nowms, lastDelay := delay\<rparr>
                 else d))"

text \<open>The packets already asked for, a set in order.\<close>

definition nacked_insert :: "u32 \<Rightarrow> u32 list \<Rightarrow> bool \<times> u32 list" where
  "nacked_insert n s = (if n \<in> set s then (False, s) else (True, insort n s))"

fun trim_nacked :: "u32 list \<Rightarrow> u32 list" where
  "trim_nacked [] = []"
| "trim_nacked (n # s) = (if length (n # s) \<ge> MAP_NACK_SIZE then trim_nacked s else n # s)"

fun insert_bits :: "u32 \<Rightarrow> u16 \<Rightarrow> nat list \<Rightarrow> bool \<times> u32 list \<Rightarrow> bool \<times> u32 list" where
  "insert_bits pid blp [] r = r"
| "insert_bits pid blp (i # is) (send, s) =
     (if bit blp i
      then let (fresh, s) = nacked_insert (pid + 1 + of_nat i) s in insert_bits pid blp is (send \<or> fresh, s)
      else insert_bits pid blp is (send, s))"

definition receive_NACK :: "mem \<Rightarrow> nat \<Rightarrow> rtcpData \<Rightarrow> rtcpData" where
  "receive_NACK m p d =
     (let pid = ucast (getNackPid m p); blp = getNackBlp m p;
          (fresh, s) = nacked_insert pid (nackedPackets d);
          s = (if fresh then s else trim_nacked s);
          (send, s) = (if blp \<noteq> 0 then insert_bits pid blp [0..<16] (fresh, s) else (fresh, s));
          d = d\<lparr>shouldSendNACK := send, nackedPackets := s\<rparr>
      in if send then d\<lparr>nackSeqnum := getNackPid m p, rd_nackBlp := getNackBlp m p, requestRr := True\<rparr> else d)"

definition receive_PS :: "u32 \<Rightarrow> mem \<Rightarrow> nat \<Rightarrow> rtcpData \<Rightarrow> rtcpData" where
  "receive_PS default_bw m p d =
     (if getBlockCount m p = RTCP_PLI_FMT then d\<lparr>shouldSendPli := True\<rparr>
      else if getBlockCount m p = RTCP_AFB \<and> isREMB m p
      then if getREMBBitRate m p < ucast default_bw
           then d\<lparr>reportedBandwidth := getREMBBitRate m p, shouldSendREMB := True\<rparr>
           else d\<lparr>reportedBandwidth := ucast default_bw\<rparr>
      else d)"

definition receive_block :: "u64 \<Rightarrow> u32 \<Rightarrow> mem \<Rightarrow> nat \<Rightarrow> u32 \<times> rtcpData \<Rightarrow> u32 \<times> rtcpData" where
  "receive_block nowms default_bw m p st =
     (if getPacketType m p = RTCP_Receiver_PT then receive_RR nowms m p st
      else if getPacketType m p = RTCP_RTP_Feedback_PT then (fst st, receive_NACK m p (snd st))
      else if getPacketType m p = RTCP_PS_Feedback_PT then (fst st, receive_PS default_bw m p (snd st))
      else st)"

function receive_blocks :: "u64 \<Rightarrow> u32 \<Rightarrow> mem \<Rightarrow> int \<Rightarrow> nat \<Rightarrow> u32 \<times> rtcpData \<Rightarrow> u32 \<times> rtcpData" where
  "receive_blocks nowms default_bw m len p st =
     (let totalLength = p + (unat (ntohs (load16 m (p + 2))) + 1) * 4;
          st = receive_block nowms default_bw m p st
      in if int totalLength < len then receive_blocks nowms default_bw m len totalLength st else st)"
  by pat_completeness auto
termination
  by (relation "measure (\<lambda>(now, b, m, len, p, st). nat len - p)") (auto simp del: of_nat_unat)

declare receive_blocks.simps [simp del]

text \<open>It returns 0 whatever the packet. \<open>junk\<close> is the first value of \<open>delay\<close>.\<close>

definition ag_analyzeFeedback :: "mediaSource \<Rightarrow> u64 \<Rightarrow> u32 \<Rightarrow> mem \<Rightarrow> int \<Rightarrow> rtcpAggregator \<Rightarrow> rtcpAggregator \<times> int" where
  "ag_analyzeFeedback source nowms junk m len g =
     (if isFeedback m 0
      then if empty_report m len then (g, 0)
           else let sourceSsrc = getSourceSSRC m 0; g = ag_addSourceSsrc source sourceSsrc g
                in (g\<lparr>ag_data := map_assign sourceSsrc
                        (\<lambda>d. snd (receive_blocks nowms (defaultVideoBw g) m len 0 (junk, d))) (ag_data g)\<rparr>, 0)
      else (g, 0))"

subsection \<open>Sending reports\<close>

datatype ag_error = DivisionByZero | FractionOverflow | NoVideoSource

datatype rtcp_out = DeliverVideo dataPacket | DeliverAudio dataPacket | SendSourcePLI

definition addREMB :: "mediaSink \<Rightarrow> u32 \<Rightarrow> nat \<Rightarrow> u32 \<Rightarrow> mem \<Rightarrow> mem \<times> nat" where
  "addREMB sink video_source len bitrate buf =
     (let r = new_RtcpHeader 0 zero_mem;
          r = setPacketType 0 RTCP_PS_Feedback_PT r;
          r = setBlockCount 0 RTCP_AFB r;
          r = setUniqueId 0 r;
          r = rtcp_setSSRC 0 (video_sink_ssrc sink) r;
          r = setSourceSSRC 0 video_source r;
          r = rtcp_setLength 0 5 r;
          r = setREMBBitRate 0 (ucast bitrate) r;
          r = setREMBNumSSRC 0 1 r;
          r = setREMBFeedSSRC 0 video_source r;
          rembLength = (unat (rtcp_getLength r 0) + 1) * 4
      in (copy_mem len r rembLength buf, len + rembLength))"

definition addNACK :: "nat \<Rightarrow> u16 \<Rightarrow> u16 \<Rightarrow> u32 \<Rightarrow> u32 \<Rightarrow> mem \<Rightarrow> mem \<times> nat" where
  "addNACK len seqNum blp sourceSsrc sinkSsrc buf =
     (let r = new_RtcpHeader 0 zero_mem;
          r = setPacketType 0 RTCP_RTP_Feedback_PT r;
          r = setBlockCount 0 1 r;
          r = setNackPid 0 seqNum r;
          r = setNackBlp 0 blp r;
          r = rtcp_setSSRC 0 sinkSsrc r;
          r = setSourceSSRC 0 sourceSsrc r;
          r = rtcp_setLength 0 3 r;
          nackLength = (unat (rtcp_getLength r 0) + 1) * 4
      in (copy_mem len r nackLength buf, len + nackLength))"

definition resetData :: "u32 \<Rightarrow> rtcpData \<Rightarrow> rtcpData" where
  "resetData bandwidth d =
     (let d = d\<lparr>ratioLost := 0, requestRr := False, shouldReset := False, rd_jitter := 0, rrsReceivedInPeriod := 0\<rparr>;
          d = (if reportedBandwidth d > ucast bandwidth then d\<lparr>reportedBandwidth := ucast bandwidth\<rparr> else d)
      in d\<lparr>lastDelay := word_of_int \<lfloor>of_int (uint (lastDelay d)) * 6 / 10 :: rat\<rfloor>\<rparr>)"

text \<open>The receiver report itself; \<open>fraction\<close> is what goes into the member for the fraction lost.\<close>

definition ag_header :: "mediaSink \<Rightarrow> mediaSource \<Rightarrow> u32 \<Rightarrow> u32 \<Rightarrow> u32 \<Rightarrow> u8 \<Rightarrow> rtcpData \<Rightarrow> mem" where
  "ag_header sink source video_source sourceSsrc edlsr fraction d =
     (let h = new_RtcpHeader 0 zero_mem;
          h = setPacketType 0 RTCP_Receiver_PT h;
          h = (if sourceSsrc = audio_source_ssrc source
               then setSourceSSRC 0 (audio_source_ssrc source) (rtcp_setSSRC 0 (audio_sink_ssrc sink) h)
               else setSourceSSRC 0 video_source (rtcp_setSSRC 0 (video_sink_ssrc sink) h));
          h = setFractionLost 0 fraction h;
          h = setHighestSeqnum 0 (highestSeqNumReceived d) h;
          h = setSeqnumCycles 0 (seqNumCycles d) h;
          h = setLostPackets 0 (rd_totalPacketsLost d) h;
          h = setJitter 0 (rd_jitter d) h;
          h = setLastSr 0 (rd_lastSr d) h;
          h = setDelaySinceLastSr 0 (rd_delaySinceLastSr d + edlsr * 65536 div 1000) h;
          h = rtcp_setLength 0 7 h
      in setBlockCount 0 1 h)"

text \<open>
  The quotient of the losses is an integer division: it stops the process when nothing was received, and
  when it is not 0 the product with 256 does not fit into the byte.
\<close>

definition fraction_lost :: "rtcpData \<Rightarrow> ag_error + u8" where
  "fraction_lost d =
     (let received = rd_extendedSeqNo d - prevExtendedSeqNo d; lost = rd_totalPacketsLost d - prevTotalPacketsLost d
      in if received = 0 then Inl DivisionByZero
         else let ratio = lost div received in if unat ratio * 256 > 255 then Inl FractionOverflow else Inr (of_nat (unat ratio * 256)))"

definition due :: "u64 \<Rightarrow> rtcpData \<Rightarrow> bool" where
  "due now d \<longleftrightarrow> (requestRr d \<or> ucast (now - last_rr_sent d) \<ge> nextPacketInMs d \<or> shouldSendREMB d) \<and> rd_lastSr d > 0"

definition with_nack :: "u32 \<Rightarrow> u32 \<Rightarrow> mem \<times> nat \<Rightarrow> rtcpData \<Rightarrow> (mem \<times> nat) \<times> rtcpData" where
  "with_nack sourceSsrc sinkSsrc b d =
     (if shouldSendNACK d
      then (addNACK (snd b) (nackSeqnum d) (rd_nackBlp d) sourceSsrc sinkSsrc (fst b),
            d\<lparr>shouldSendNACK := False, nackSeqnum := 0, rd_nackBlp := 0\<rparr>)
      else (b, d))"

definition with_remb :: "u64 \<Rightarrow> mediaSink \<Rightarrow> u32 \<Rightarrow> mem \<times> nat \<Rightarrow> rtcpData \<Rightarrow> (mem \<times> nat) \<times> rtcpData" where
  "with_remb now sink video_source b d =
     (if rd_mediaType d = VIDEO_TYPE
      then let d = (if (ucast (now - last_remb_sent d) :: u32) > REMB_TIMEOUT then d\<lparr>shouldSendREMB := True\<rparr> else d)
           in if shouldSendREMB d
              then (addREMB sink video_source (snd b) (ucast (reportedBandwidth d)) (fst b),
                    d\<lparr>shouldSendREMB := False, last_remb_sent := now\<rparr>)
              else (b, d)
      else (b, d))"

definition schedule_next :: "u64 \<Rightarrow> nat \<Rightarrow> u32 \<Rightarrow> u32 \<Rightarrow> rtcpData \<Rightarrow> rtcpData" where
  "schedule_next now random dt_scheduled bandwidth d =
     (let d = d\<lparr>last_rr_sent := now\<rparr>;
          d = (if dt_scheduled > nextPacketInMs d then d\<lparr>shouldReset := True\<rparr> else d);
          d = d\<lparr>last_rr_was_scheduled := now\<rparr>;
          interval = (if rd_mediaType d = AUDIO_TYPE then RTCP_AUDIO_INTERVAL else RTCP_VIDEO_INTERVAL);
          d = d\<lparr>nextPacketInMs := word_of_int \<lfloor>of_int (uint interval) * of_nat (random mod 100 + 50) / 100 :: rat\<rfloor>\<rparr>
      in if shouldReset d then resetData bandwidth d else d)"

text \<open>When the SSRC of the video source is read: for a report about video and for a REMB.\<close>

definition sends_remb :: "u64 \<Rightarrow> rtcpData \<Rightarrow> bool" where
  "sends_remb now d \<longleftrightarrow> rd_mediaType d = VIDEO_TYPE \<and>
     (shouldSendREMB d \<or> (ucast (now - last_remb_sent d) :: u32) > REMB_TIMEOUT)"

definition video_source_of :: "u64 \<Rightarrow> mediaSource \<Rightarrow> u32 \<Rightarrow> rtcpData \<Rightarrow> u32 option" where
  "video_source_of now source sourceSsrc d =
     (if sourceSsrc \<noteq> audio_source_ssrc source \<or> sends_remb now d then getVideoSourceSSRC source else Some 0)"

definition send_report :: "u64 \<Rightarrow> nat \<Rightarrow> mediaSink \<Rightarrow> mediaSource \<Rightarrow> u32 \<Rightarrow> u32 \<Rightarrow> rtcpData \<Rightarrow> ag_error + (rtcpData \<times> rtcp_out list)" where
  "send_report now random sink source bandwidth sourceSsrc d =
     (case video_source_of now source sourceSsrc d of None \<Rightarrow> Inl NoVideoSource
      | Some video_source \<Rightarrow> (case fraction_lost d of Inl e \<Rightarrow> Inl e
      | Inr fraction \<Rightarrow>
          let edlsr = ucast (now - last_sr_updated d); dt_scheduled = ucast (now - last_rr_was_scheduled d);
              d = d\<lparr>requestRr := False\<rparr>;
              sinkSsrc = (if sourceSsrc = audio_source_ssrc source then audio_sink_ssrc sink else video_sink_ssrc sink);
              head = ag_header sink source video_source sourceSsrc edlsr fraction d;
              d = d\<lparr>prevTotalPacketsLost := rd_totalPacketsLost d, prevExtendedSeqNo := rd_extendedSeqNo d\<rparr>;
              len = (unat (rtcp_getLength head 0) + 1) * 4;
              (b, d) = with_nack sourceSsrc sinkSsrc (copy_mem 0 head len zero_mem, len) d;
              (b, d) = with_remb now sink video_source b d;
              out = (if isVideoSourceSSRC source sourceSsrc
                     then DeliverVideo (new_dataPacket 0 (fst b) (int (snd b)) VIDEO_PACKET now)
                     else DeliverAudio (new_dataPacket 0 (fst b) (int (snd b)) AUDIO_PACKET now))
          in Inr (schedule_next now random dt_scheduled bandwidth d, [out])))"

definition check_entry :: "u64 \<Rightarrow> nat \<Rightarrow> mediaSink \<Rightarrow> mediaSource \<Rightarrow> u32 \<Rightarrow> u32 \<Rightarrow> rtcpData \<Rightarrow> ag_error + (rtcpData \<times> rtcp_out list)" where
  "check_entry now random sink source bandwidth sourceSsrc d =
     (case (if due now d then send_report now random sink source bandwidth sourceSsrc d else Inr (d, [])) of
        Inl e \<Rightarrow> Inl e
      | Inr (d, os) \<Rightarrow> Inr (if shouldSendPli d then (d\<lparr>shouldSendPli := False\<rparr>, os @ [SendSourcePLI]) else (d, os)))"

text \<open>The loop over all sources; the times and the random numbers drawn for each are functions of its SSRC.\<close>

fun check_entries :: "(u32 \<Rightarrow> u64) \<Rightarrow> (u32 \<Rightarrow> nat) \<Rightarrow> mediaSink \<Rightarrow> mediaSource \<Rightarrow> u32 \<Rightarrow> rtcp_map \<Rightarrow> ag_error + (rtcp_map \<times> rtcp_out list)" where
  "check_entries nows randoms sink source bandwidth [] = Inr ([], [])"
| "check_entries nows randoms sink source bandwidth ((ssrc, d) # m) =
     (case check_entry (nows ssrc) (randoms ssrc) sink source bandwidth ssrc d of Inl e \<Rightarrow> Inl e
      | Inr (d, os) \<Rightarrow> (case check_entries nows randoms sink source bandwidth m of Inl e \<Rightarrow> Inl e
      | Inr (m, os') \<Rightarrow> Inr ((ssrc, d) # m, os @ os')))"

definition checkRtcpFb :: "(u32 \<Rightarrow> u64) \<Rightarrow> (u32 \<Rightarrow> nat) \<Rightarrow> mediaSink \<Rightarrow> mediaSource \<Rightarrow> rtcpAggregator \<Rightarrow> ag_error + (rtcpAggregator \<times> rtcp_out list)" where
  "checkRtcpFb nows randoms sink source g =
     (case check_entries nows randoms sink source (defaultVideoBw g) (ag_data g) of Inl e \<Rightarrow> Inl e
      | Inr (m, os) \<Rightarrow> Inr (g\<lparr>ag_data := m\<rparr>, os))"

subsection \<open>What is sent\<close>

lemma load_copied:
  "k + 2 \<le> n \<Longrightarrow> load16 (copy_mem p r n b) (p + k) = load16 r k"
  "k + 4 \<le> n \<Longrightarrow> load32 (copy_mem p r n b) (p + k) = load32 r k"
  "k + 3 \<le> n \<Longrightarrow> load24 (copy_mem p r n b) (p + k) = load24 r k"
  "k < n \<Longrightarrow> copy_mem p r n b (p + k) = r k"
  by (simp_all add: load16_def load32_def load24_def copy_mem_def)

lemma copied_before: "i < p \<Longrightarrow> copy_mem p r n b i = b i"
  by (simp add: copy_mem_def)

definition nack_header :: "u16 \<Rightarrow> u16 \<Rightarrow> u32 \<Rightarrow> u32 \<Rightarrow> mem" where
  "nack_header seqNum blp sourceSsrc sinkSsrc = rtcp_setLength 0 3 (setSourceSSRC 0 sourceSsrc (rtcp_setSSRC 0 sinkSsrc
     (setNackBlp 0 blp (setNackPid 0 seqNum (setBlockCount 0 1 (setPacketType 0 RTCP_RTP_Feedback_PT (new_RtcpHeader 0 zero_mem)))))))"

lemma addNACK_eq: "addNACK len n blp src snk buf = (copy_mem len (nack_header n blp src snk) 16 buf, len + 16)"
  by (simp add: addNACK_def nack_header_def Let_def)

lemma nack_header_fields:
  "getPacketType (nack_header n blp src snk) 0 = RTCP_RTP_Feedback_PT" "getNackPid (nack_header n blp src snk) 0 = n"
  "getNackBlp (nack_header n blp src snk) 0 = blp" "rtcp_getSSRC (nack_header n blp src snk) 0 = snk"
  "getSourceSSRC (nack_header n blp src snk) 0 = src"
  by (simp_all add: nack_header_def Let_def rtcp_setter_defs rtcp_getter_defs ntohs_def htons_def ntohl_def htonl_def)

definition remb_header :: "u32 \<Rightarrow> u32 \<Rightarrow> u32 \<Rightarrow> mem" where
  "remb_header snk src bitrate = setREMBFeedSSRC 0 src (setREMBNumSSRC 0 1 (setREMBBitRate 0 (ucast bitrate)
     (rtcp_setLength 0 5 (setSourceSSRC 0 src (rtcp_setSSRC 0 snk (setUniqueId 0 (setBlockCount 0 RTCP_AFB
     (setPacketType 0 RTCP_PS_Feedback_PT (new_RtcpHeader 0 zero_mem)))))))))"

lemma addREMB_eq: "addREMB sink src len bitrate buf = (copy_mem len (remb_header (video_sink_ssrc sink) src bitrate) 24 buf, len + 24)"
  by (simp add: addREMB_def remb_header_def Let_def rtcp_setter_defs rtcp_getter_defs setREMBBitRate_def setREMBNumSSRC_def
      setREMBFeedSSRC_def setUniqueId_def ntohs_def htons_def)

lemma remb_header_fields:
  "getPacketType (remb_header snk src b) 0 = RTCP_PS_Feedback_PT" "getBlockCount (remb_header snk src b) 0 = RTCP_AFB"
  "isREMB (remb_header snk src b) 0" "rtcp_getSSRC (remb_header snk src b) 0 = snk"
  "getREMBNumSSRC (remb_header snk src b) 0 = 1" "getREMBFeedSSRC (remb_header snk src b) 0 = src"
  by (simp_all add: remb_header_def rtcp_setter_defs rtcp_getter_defs setREMBBitRate_def setREMBNumSSRC_def getREMBNumSSRC_def
      setREMBFeedSSRC_def getREMBFeedSSRC_def setUniqueId_def isREMB_def ntohs_def htons_def ntohl_def htonl_def get_put_bits)

lemma remb_header_rate: "getREMBBitRate (remb_header snk src b) 0 = getREMBBitRate (setREMBBitRate 0 (ucast b) zero_mem) 0"
proof -
  have "load24 (remb_header snk src b) 17 = load24 (setREMBBitRate 0 (ucast b) zero_mem) 17"
    by (simp add: remb_header_def load24_def setREMBBitRate_def setREMBNumSSRC_def setREMBFeedSSRC_def
        store8_def store32_def store24_def)
  then show ?thesis by (simp add: getREMBBitRate_def getBrExp_def getBrMantis_def)
qed

lemma ag_header_fields:
  "getPacketType (ag_header sink source v ssrc e f d) 0 = RTCP_Receiver_PT"
  "rtcp_getSSRC (ag_header sink source v ssrc e f d) 0 = (if ssrc = audio_source_ssrc source then audio_sink_ssrc sink else video_sink_ssrc sink)"
  "getSourceSSRC (ag_header sink source v ssrc e f d) 0 = (if ssrc = audio_source_ssrc source then ssrc else v)"
  "getFractionLost (ag_header sink source v ssrc e f d) 0 = f"
  "getHighestSeqnum (ag_header sink source v ssrc e f d) 0 = highestSeqNumReceived d"
  "getSeqnumCycles (ag_header sink source v ssrc e f d) 0 = seqNumCycles d"
  "getJitter (ag_header sink source v ssrc e f d) 0 = rd_jitter d"
  "getLastSr (ag_header sink source v ssrc e f d) 0 = rd_lastSr d"
  "getDelaySinceLastSr (ag_header sink source v ssrc e f d) 0 = rd_delaySinceLastSr d + e * 65536 div 1000"
  "rtcp_getLength (ag_header sink source v ssrc e f d) 0 = 7"
  by (simp_all add: ag_header_def Let_def rtcp_setter_defs rtcp_getter_defs ntohs_def htons_def ntohl_def htonl_def)

text \<open>A report that lies at \<open>p\<close> in a packet reads like the header it was copied from.\<close>

definition lies_at :: "mem \<Rightarrow> nat \<Rightarrow> mem \<Rightarrow> nat \<Rightarrow> bool" where
  "lies_at m p r n \<longleftrightarrow> (\<forall>k < n. m (p + k) = r k)"

lemma lies_atD:
  assumes "lies_at m p r n"
  shows "k < n \<Longrightarrow> m (p + k) = r k" "k + 2 \<le> n \<Longrightarrow> load16 m (p + k) = load16 r k"
    "k + 4 \<le> n \<Longrightarrow> load32 m (p + k) = load32 r k" "k + 3 \<le> n \<Longrightarrow> load24 m (p + k) = load24 r k"
proof -
  have b: "\<And>k. k < n \<Longrightarrow> m (p + k) = r k" using assms by (simp add: lies_at_def)
  show "k < n \<Longrightarrow> m (p + k) = r k" by (rule b)
  have e: "m (p + k + j) = r (k + j)" if "k + j < n" for j using b [OF that] by (simp add: add.assoc)
  show "k + 2 \<le> n \<Longrightarrow> load16 m (p + k) = load16 r k" using e [of 0] e [of 1] by (simp add: load16_def)
  show "k + 4 \<le> n \<Longrightarrow> load32 m (p + k) = load32 r k"
    using e [of 0] e [of 1] e [of 2] e [of 3] by (simp add: load32_def)
  show "k + 3 \<le> n \<Longrightarrow> load24 m (p + k) = load24 r k"
    using e [of 0] e [of 1] e [of 2] by (simp add: load24_def)
qed

lemma lies_at_report:
  assumes "lies_at m p r 32"
  shows "getPacketType m p = getPacketType r 0" "rtcp_getSSRC m p = rtcp_getSSRC r 0" "getSourceSSRC m p = getSourceSSRC r 0"
    "getFractionLost m p = getFractionLost r 0" "getHighestSeqnum m p = getHighestSeqnum r 0"
    "getSeqnumCycles m p = getSeqnumCycles r 0" "getJitter m p = getJitter r 0" "getLastSr m p = getLastSr r 0"
    "getDelaySinceLastSr m p = getDelaySinceLastSr r 0"
  using lies_atD(1) [OF assms, of 1] lies_atD(1) [OF assms, of 12] lies_atD(3) [OF assms, of 4] lies_atD(3) [OF assms, of 8]
    lies_atD(2) [OF assms, of 16] lies_atD(2) [OF assms, of 18] lies_atD(3) [OF assms, of 20] lies_atD(3) [OF assms, of 24]
    lies_atD(3) [OF assms, of 28]
  by (simp_all add: getPacketType_def rtcp_getSSRC_def getSourceSSRC_def getFractionLost_def getHighestSeqnum_def
      getSeqnumCycles_def getJitter_def getLastSr_def getDelaySinceLastSr_def)

lemma lies_at_nack:
  assumes "lies_at m p r 16"
  shows "getPacketType m p = getPacketType r 0" "getNackPid m p = getNackPid r 0" "getNackBlp m p = getNackBlp r 0"
    "rtcp_getSSRC m p = rtcp_getSSRC r 0" "getSourceSSRC m p = getSourceSSRC r 0"
  using lies_atD(1) [OF assms, of 1] lies_atD(2) [OF assms, of 12] lies_atD(2) [OF assms, of 14]
    lies_atD(3) [OF assms, of 4] lies_atD(3) [OF assms, of 8]
  by (simp_all add: getPacketType_def getNackPid_def getNackBlp_def rtcp_getSSRC_def getSourceSSRC_def)

lemma lies_at_remb:
  assumes "lies_at m p r 24"
  shows "getPacketType m p = getPacketType r 0" "getBlockCount m p = getBlockCount r 0" "isREMB m p = isREMB r 0"
    "getREMBBitRate m p = getREMBBitRate r 0" "getREMBFeedSSRC m p = getREMBFeedSSRC r 0" "rtcp_getSSRC m p = rtcp_getSSRC r 0"
  using lies_atD(1) [OF assms, of 1] lies_atD(1) [OF assms, of 0] lies_atD(1) [OF assms, of 12] lies_atD(1) [OF assms, of 13]
    lies_atD(1) [OF assms, of 14] lies_atD(1) [OF assms, of 15] lies_atD(4) [OF assms, of 17] lies_atD(3) [OF assms, of 20]
    lies_atD(3) [OF assms, of 4]
  by (simp_all add: getPacketType_def getBlockCount_def isREMB_def getREMBBitRate_def getBrExp_def getBrMantis_def
      getREMBFeedSSRC_def rtcp_getSSRC_def)

primrec delivered :: "rtcp_out \<Rightarrow> dataPacket option" where
  "delivered (DeliverVideo p) = Some p"
| "delivered (DeliverAudio p) = Some p"
| "delivered SendSourcePLI = None"

text \<open>The bytes of a report: the receiver report, the NACK and the REMB one after the other.\<close>

definition nack_size :: "rtcpData \<Rightarrow> nat" where "nack_size d = (if shouldSendNACK d then 16 else 0)"

lemma with_nack_bytes:
  assumes "with_nack src snk (b, len) d = ((b', len'), d')"
  shows "len' = len + nack_size d" "i < len \<Longrightarrow> b' i = b i"
    "shouldSendNACK d \<Longrightarrow> lies_at b' len (nack_header (nackSeqnum d) (rd_nackBlp d) src snk) 16"
    "d' = (if shouldSendNACK d then d\<lparr>shouldSendNACK := False, nackSeqnum := 0, rd_nackBlp := 0\<rparr> else d)"
  using assms
  by (auto simp: with_nack_def addNACK_eq nack_size_def lies_at_def copy_mem_def split: if_splits)

lemma with_remb_bytes:
  assumes "with_remb now sink v (b, len) d = ((b', len'), d')"
  shows "len' = len + (if sends_remb now d then 24 else 0)" "i < len \<Longrightarrow> b' i = b i"
    "sends_remb now d \<Longrightarrow> lies_at b' len (remb_header (video_sink_ssrc sink) v (ucast (reportedBandwidth d))) 24"
    "rd_extendedSeqNo d' = rd_extendedSeqNo d" "prevExtendedSeqNo d' = prevExtendedSeqNo d"
    "shouldSendNACK d' = shouldSendNACK d" "nackedPackets d' = nackedPackets d"
  using assms
  by (auto simp: with_remb_def addREMB_eq sends_remb_def lies_at_def copy_mem_def Let_def split: if_splits)

lemma schedule_next_fields:
  "rd_extendedSeqNo (schedule_next now r dt b d) = rd_extendedSeqNo d"
  "prevExtendedSeqNo (schedule_next now r dt b d) = prevExtendedSeqNo d"
  "shouldSendNACK (schedule_next now r dt b d) = shouldSendNACK d"
  by (simp_all add: schedule_next_def resetData_def Let_def)

lemma send_report_bytes:
  assumes "send_report now random sink source bandwidth ssrc d = Inr (d', os)"
  shows "\<exists>out p v fraction. os = [out] \<and> delivered out = Some p \<and> fraction_lost d = Inr fraction
    \<and> video_source_of now source ssrc d = Some v
    \<and> packet_length p = int (32 + nack_size d + (if sends_remb now d then 24 else 0))
    \<and> lies_at (data p) 0 (ag_header sink source v ssrc (ucast (now - last_sr_updated d)) fraction d) 32
    \<and> (shouldSendNACK d \<longrightarrow> lies_at (data p) 32 (nack_header (nackSeqnum d) (rd_nackBlp d) ssrc
          (if ssrc = audio_source_ssrc source then audio_sink_ssrc sink else video_sink_ssrc sink)) 16)
    \<and> (sends_remb now d \<longrightarrow> lies_at (data p) (32 + nack_size d) (remb_header (video_sink_ssrc sink) v (ucast (reportedBandwidth d))) 24)
    \<and> rd_extendedSeqNo d' = rd_extendedSeqNo d \<and> prevExtendedSeqNo d' = rd_extendedSeqNo d \<and> \<not> shouldSendNACK d'
    \<and> (out = DeliverVideo p \<longleftrightarrow> isVideoSourceSSRC source ssrc)"
proof -
  obtain v where v: "video_source_of now source ssrc d = Some v"
    using assms by (cases "video_source_of now source ssrc d") (simp_all add: send_report_def)
  obtain fraction where f: "fraction_lost d = Inr fraction"
    using assms v by (cases "fraction_lost d") (simp_all add: send_report_def)
  let ?snk = "if ssrc = audio_source_ssrc source then audio_sink_ssrc sink else video_sink_ssrc sink"
  let ?e = "ucast (now - last_sr_updated d) :: u32"
  let ?d1 = "d\<lparr>requestRr := False\<rparr>" and ?head = "ag_header sink source v ssrc ?e fraction (d\<lparr>requestRr := False\<rparr>)"
  let ?d2 = "?d1\<lparr>prevTotalPacketsLost := rd_totalPacketsLost d, prevExtendedSeqNo := rd_extendedSeqNo d\<rparr>"
  obtain b1 l1 d3 where n: "with_nack ssrc ?snk (copy_mem 0 ?head 32 zero_mem, 32) ?d2 = ((b1, l1), d3)" by (metis prod.exhaust)
  obtain b2 l2 d4 where r: "with_remb now sink v (b1, l1) d3 = ((b2, l2), d4)" by (metis prod.exhaust)
  let ?t = "if isVideoSourceSSRC source ssrc then VIDEO_PACKET else AUDIO_PACKET"
  let ?p = "new_dataPacket 0 b2 (int l2) ?t now"
  have len: "(unat (rtcp_getLength ?head 0) + 1) * 4 = 32" by (simp only: ag_header_fields(10)) simp
  have s: "send_report now random sink source bandwidth ssrc d =
      Inr (schedule_next now random (ucast (now - last_rr_was_scheduled d)) bandwidth d4,
        [if isVideoSourceSSRC source ssrc then DeliverVideo ?p else DeliverAudio ?p])"
    unfolding send_report_def v f option.case sum.case Let_def len rtcpData.simps
    using n r by (simp add: case_prod_beta)
  have h: "?head = ag_header sink source v ssrc ?e fraction d" by (simp add: ag_header_def)
  have x: "nack_size ?d2 = nack_size d" "shouldSendNACK ?d2 = shouldSendNACK d" by (simp_all add: nack_size_def)
  note n' = with_nack_bytes [OF n, unfolded x]
  have d3: "sends_remb now d3 = sends_remb now d" "reportedBandwidth d3 = reportedBandwidth d"
    by (simp_all add: n'(4) sends_remb_def)
  note r' = with_remb_bytes [OF r, unfolded d3]
  have l: "l2 = 32 + nack_size d + (if sends_remb now d then 24 else 0)" using n'(1) r'(1) by simp
  have p: "data ?p i = b2 i" if "i < l2" for i using that by (simp add: new_dataPacket_def copy_mem_def)
  have b2: "b2 i = b1 i" if "i < 32 + nack_size d" for i using r'(2) that n'(1) by simp
  have 0: "lies_at (data ?p) 0 (ag_header sink source v ssrc ?e fraction d) 32"
    using p b2 n'(2) by (simp add: lies_at_def l h copy_mem_def)
  have 1: "lies_at (data ?p) 32 (nack_header (nackSeqnum d) (rd_nackBlp d) ssrc ?snk) 16" if "shouldSendNACK d"
    using n'(3) [OF that] p b2 that by (simp add: lies_at_def l nack_size_def)
  have 2: "lies_at (data ?p) (32 + nack_size d) (remb_header (video_sink_ssrc sink) v (ucast (reportedBandwidth d))) 24" if "sends_remb now d"
    using r'(3) [OF that] p that n'(1) by (simp add: lies_at_def l add.assoc)
  have d': "d' = schedule_next now random (ucast (now - last_rr_was_scheduled d)) bandwidth d4"
    "os = [if isVideoSourceSSRC source ssrc then DeliverVideo ?p else DeliverAudio ?p]" using assms s by simp_all
  have k: "rd_extendedSeqNo d' = rd_extendedSeqNo d" "prevExtendedSeqNo d' = rd_extendedSeqNo d" "\<not> shouldSendNACK d'"
    by (simp_all add: d'(1) schedule_next_fields r'(4-6) n'(4))
  show ?thesis
    by (rule exI [of _ "if isVideoSourceSSRC source ssrc then DeliverVideo ?p else DeliverAudio ?p"], rule exI [of _ ?p])
       (use d'(2) 0 1 2 k v f l in \<open>simp add: new_dataPacket_def\<close>)
qed

text \<open>
  C31: A report of the aggregator reads back as what was gathered. It is a receiver report from the
  sink of the stream, with the highest number, cycles, jitter, time of the last sender report, and
  delay since then (moved on by the time since the data came); its source is the audio SSRC if the
  report is about that, but the first video SSRC of the publisher for every other stream; after it
  come the NACK that is to be passed on, with the SSRC of the stream, and, when one is due, a REMB of
  the bandwidth for the first video SSRC; together they never exceed 72 bytes, for which
  the buffer of 128 has room; and a NACK is sent once.
\<close>
theorem aggregated_report_reads_back:
  assumes "send_report now random sink source bandwidth ssrc d = Inr (d', os)"
  shows "\<exists>out p. os = [out] \<and> delivered out = Some p
    \<and> packet_length p = int (32 + nack_size d + (if sends_remb now d then 24 else 0)) \<and> packet_length p \<le> 72
    \<and> getPacketType (data p) 0 = RTCP_Receiver_PT
    \<and> rtcp_getSSRC (data p) 0 = (if ssrc = audio_source_ssrc source then audio_sink_ssrc sink else video_sink_ssrc sink)
    \<and> getSourceSSRC (data p) 0 = (if ssrc = audio_source_ssrc source then ssrc else hd (video_source_ssrc_list source))
    \<and> getHighestSeqnum (data p) 0 = highestSeqNumReceived d \<and> getSeqnumCycles (data p) 0 = seqNumCycles d
    \<and> getJitter (data p) 0 = rd_jitter d \<and> getLastSr (data p) 0 = rd_lastSr d
    \<and> getDelaySinceLastSr (data p) 0 = rd_delaySinceLastSr d + ucast (now - last_sr_updated d) * 65536 div 1000
    \<and> (shouldSendNACK d \<longrightarrow> getPacketType (data p) 32 = RTCP_RTP_Feedback_PT
          \<and> getNackPid (data p) 32 = nackSeqnum d \<and> getNackBlp (data p) 32 = rd_nackBlp d \<and> getSourceSSRC (data p) 32 = ssrc)
    \<and> (sends_remb now d \<longrightarrow> isREMB (data p) (32 + nack_size d)
          \<and> getREMBFeedSSRC (data p) (32 + nack_size d) = hd (video_source_ssrc_list source)
          \<and> getREMBBitRate (data p) (32 + nack_size d)
              = getREMBBitRate (setREMBBitRate 0 (ucast (ucast (reportedBandwidth d) :: u32)) zero_mem) 0)
    \<and> \<not> shouldSendNACK d'"
proof -
  obtain out p v fraction where b: "os = [out]" "delivered out = Some p"
    "video_source_of now source ssrc d = Some v"
    "packet_length p = int (32 + nack_size d + (if sends_remb now d then 24 else 0))"
    "lies_at (data p) 0 (ag_header sink source v ssrc (ucast (now - last_sr_updated d)) fraction d) 32"
    "shouldSendNACK d \<longrightarrow> lies_at (data p) 32 (nack_header (nackSeqnum d) (rd_nackBlp d) ssrc
          (if ssrc = audio_source_ssrc source then audio_sink_ssrc sink else video_sink_ssrc sink)) 16"
    "sends_remb now d \<longrightarrow> lies_at (data p) (32 + nack_size d) (remb_header (video_sink_ssrc sink) v (ucast (reportedBandwidth d))) 24"
    "\<not> shouldSendNACK d'"
    using send_report_bytes [OF assms] by blast
  have v: "v = hd (video_source_ssrc_list source)" if "ssrc \<noteq> audio_source_ssrc source \<or> sends_remb now d"
    using b(3) that by (auto simp: video_source_of_def getVideoSourceSSRC_def split: list.splits if_splits)
  note r = lies_at_report [OF b(5), unfolded ag_header_fields]
  have n: "getPacketType (data p) 32 = RTCP_RTP_Feedback_PT \<and> getNackPid (data p) 32 = nackSeqnum d
      \<and> getNackBlp (data p) 32 = rd_nackBlp d \<and> getSourceSSRC (data p) 32 = ssrc" if "shouldSendNACK d"
    using lies_at_nack [OF b(6) [THEN mp, OF that]] by (simp add: nack_header_fields)
  have m: "isREMB (data p) (32 + nack_size d) \<and> getREMBFeedSSRC (data p) (32 + nack_size d) = hd (video_source_ssrc_list source)
      \<and> getREMBBitRate (data p) (32 + nack_size d)
      = getREMBBitRate (setREMBBitRate 0 (ucast (ucast (reportedBandwidth d) :: u32)) zero_mem) 0" if "sends_remb now d"
    using lies_at_remb [OF b(7) [THEN mp, OF that]] v that by (simp add: remb_header_fields remb_header_rate)
  have l: "packet_length p \<le> 72" using b(4) by (simp add: nack_size_def)
  show ?thesis
    by (rule exI [of _ out], rule exI [of _ p], intro conjI impI)
       (use b(1,2,4,8) l r n m v in simp_all)
qed

text \<open>A report about the second video stream names the first one as its source.\<close>

lemma second_stream_reported_as_first:
  assumes "video_source_ssrc_list source = [7, 9]" "audio_source_ssrc source = 6"
    "send_report now random sink source bandwidth 9 d = Inr (d', os)"
  shows "\<exists>out p. os = [out] \<and> delivered out = Some p \<and> getSourceSSRC (data p) 0 = 7"
proof -
  obtain out p v fraction where b: "os = [out]" "delivered out = Some p" "video_source_of now source 9 d = Some v"
    "lies_at (data p) 0 (ag_header sink source v 9 (ucast (now - last_sr_updated d)) fraction d) 32"
    using send_report_bytes [OF assms(3)] by blast
  then show ?thesis
    using assms(1,2) lies_at_report(3) [OF b(4), unfolded ag_header_fields]
    by (auto simp: video_source_of_def getVideoSourceSSRC_def)
qed

text \<open>
  C32: When no packet has arrived between two reports the second one stops the process: the quotient of the
  losses is an integer division by the packets received since.
\<close>
theorem report_without_news_crashes:
  assumes "send_report now random sink source bandwidth ssrc d = Inr (d', os)" "due now' d'"
    "video_source_of now' source ssrc d' = Some v"
  shows "check_entry now' random' sink source bandwidth' ssrc d' = Inl DivisionByZero"
proof -
  have "rd_extendedSeqNo d' = rd_extendedSeqNo d \<and> prevExtendedSeqNo d' = rd_extendedSeqNo d"
    using send_report_bytes [OF assms(1)] by blast
  then have "fraction_lost d' = Inl DivisionByZero" by (simp add: fraction_lost_def)
  then show ?thesis using assms(2,3) by (simp add: check_entry_def send_report_def)
qed

text \<open>The fraction reported is always 0: a larger one does not fit, a smaller one is rounded down.\<close>

lemma fraction_lost_is_zero: "fraction_lost d = Inr f \<Longrightarrow> f = 0"
proof -
  have "\<not> 255 < unat x * 256 \<Longrightarrow> x = 0" for x :: u32
  proof -
    assume "\<not> 255 < unat x * 256"
    then have "unat x = 0" by linarith
    then show "x = 0" by (simp only: unat_eq_0)
  qed
  then show "fraction_lost d = Inr f \<Longrightarrow> f = 0" by (fastforce simp: fraction_lost_def Let_def split: if_splits)
qed

subsection \<open>NACKs\<close>

text \<open>The packets that a NACK asks for, as the code counts them.\<close>

definition nack_numbers :: "mem \<Rightarrow> nat \<Rightarrow> u32 set" where
  "nack_numbers m p = insert (ucast (getNackPid m p))
     {ucast (getNackPid m p) + 1 + of_nat i |i. i < 16 \<and> bit (getNackBlp m p) i}"

lemma insert_bits_spec:
  "insert_bits pid blp is (send, s) = (send', s') \<Longrightarrow>
     set s' = set s \<union> {pid + 1 + of_nat i |i. i \<in> set is \<and> bit blp i}
     \<and> (send' \<longleftrightarrow> send \<or> (\<exists>i \<in> set is. bit blp i \<and> pid + 1 + of_nat i \<notin> set s))
     \<and> length s \<le> length s'"
proof (induction "is" arbitrary: send s)
  case (Cons i "is")
  show ?case
  proof (cases "bit blp i")
    case True
    let ?n = "pid + 1 + of_nat i"
    obtain fresh s1 where f: "nacked_insert ?n s = (fresh, s1)" by (metis prod.exhaust)
    have s1: "set s1 = insert ?n (set s)" "fresh \<longleftrightarrow> ?n \<notin> set s" "length s \<le> length s1"
      using f by (auto simp: nacked_insert_def set_insort_key split: if_splits)
    have "insert_bits pid blp is (send \<or> fresh, s1) = (send', s')" using Cons.prems True f by simp
    from Cons.IH [OF this] show ?thesis using s1 True by (auto simp: order_trans)
  next
    case False
    then show ?thesis using Cons by auto
  qed
qed auto

lemma trim_nacked_short: "length s < MAP_NACK_SIZE \<Longrightarrow> trim_nacked s = s"
  by (cases s) auto

lemma receive_NACK_spec:
  assumes "length (nackedPackets d) < MAP_NACK_SIZE"
  shows "set (nackedPackets (receive_NACK m p d)) = set (nackedPackets d) \<union> nack_numbers m p"
    "shouldSendNACK (receive_NACK m p d) \<longleftrightarrow> \<not> nack_numbers m p \<subseteq> set (nackedPackets d)"
proof -
  let ?pid = "ucast (getNackPid m p) :: u32" and ?blp = "getNackBlp m p" and ?s = "nackedPackets d"
  obtain fresh s1 where f: "nacked_insert ?pid ?s = (fresh, s1)" by (metis prod.exhaust)
  have s1: "set s1 = insert ?pid (set ?s)" "fresh \<longleftrightarrow> ?pid \<notin> set ?s" "\<not> fresh \<Longrightarrow> s1 = ?s"
    using f by (auto simp: nacked_insert_def set_insort_key split: if_splits)
  have t: "(if fresh then s1 else trim_nacked s1) = s1" using s1(3) assms by (simp add: trim_nacked_short)
  obtain send s2 where b: "(if ?blp \<noteq> 0 then insert_bits ?pid ?blp [0..<16] (fresh, s1) else (fresh, s1)) = (send, s2)"
    by (metis prod.exhaust)
  have s2: "set s2 = set s1 \<union> {?pid + 1 + of_nat i |i. i < 16 \<and> bit ?blp i}
     \<and> (send \<longleftrightarrow> fresh \<or> \<not> {?pid + 1 + of_nat i |i. i < 16 \<and> bit ?blp i} \<subseteq> set s1)"
  proof (cases "?blp = 0")
    case False
    then have "insert_bits ?pid ?blp [0..<16] (fresh, s1) = (send, s2)" using b by simp
    note r = insert_bits_spec [OF this]
    have "(\<exists>i \<in> set [0..<16]. P i \<and> f i \<notin> S) \<longleftrightarrow> \<not> {f i |i. i < 16 \<and> P i} \<subseteq> S" for P f and S :: "u32 set"
    proof
      assume "\<exists>i \<in> set [0..<16]. P i \<and> f i \<notin> S"
      then obtain i where i: "i < 16" "P i" "f i \<notin> S" by auto
      then have "f i \<in> {f i |i. i < 16 \<and> P i}" by blast
      with i(3) show "\<not> {f i |i. i < 16 \<and> P i} \<subseteq> S" by (meson subsetD)
    next
      assume "\<not> {f i |i. i < 16 \<and> P i} \<subseteq> S"
      then obtain x where "x \<in> {f i |i. i < 16 \<and> P i}" "x \<notin> S" by (meson subsetI)
      then show "\<exists>i \<in> set [0..<16]. P i \<and> f i \<notin> S" by auto
    qed
    with r show ?thesis by simp
  qed (use b in simp)
  have r: "nackedPackets (receive_NACK m p d) = s2" "shouldSendNACK (receive_NACK m p d) = send"
    unfolding receive_NACK_def Let_def f prod.case t b by simp_all
  show "set (nackedPackets (receive_NACK m p d)) = set ?s \<union> nack_numbers m p"
    using s1(1) s2 by (auto simp: r(1) nack_numbers_def)
  show "shouldSendNACK (receive_NACK m p d) \<longleftrightarrow> \<not> nack_numbers m p \<subseteq> set ?s"
  proof -
    have "insert ?pid N \<subseteq> set ?s \<longleftrightarrow> \<not> fresh \<and> N \<subseteq> set s1" for N using s1(1,2) by auto
    then show ?thesis unfolding r(2) nack_numbers_def using s2 by simp
  qed
qed

text \<open>
  A NACK is passed on exactly when one of the packets it asks for has not been asked for before, and the
  same NACK, from whichever subscriber, is not passed on again.
\<close>
theorem nack_is_passed_on_once:
  assumes "length (nackedPackets d) < MAP_NACK_SIZE" "d' = receive_NACK m p d" "length (nackedPackets d') < MAP_NACK_SIZE"
    "nack_numbers m' p' \<subseteq> nack_numbers m p"
  shows "(shouldSendNACK d' \<longleftrightarrow> (\<exists>n \<in> nack_numbers m p. n \<notin> set (nackedPackets d)))
    \<and> \<not> shouldSendNACK (receive_NACK m' p' d')"
  using receive_NACK_spec [OF assms(1), of m p] receive_NACK_spec(2) [OF assms(3), of m' p'] assms(2,4) by auto

text \<open>
  The set grows without bound: as long as packets are new nothing is taken out. And a number once asked for
  stays there, so that a NACK for a later packet with the same number is not passed on.
\<close>

lemma nacked_set_grows:
  assumes "ucast (getNackPid m p) \<notin> set (nackedPackets d)"
  shows "length (nackedPackets d) < length (nackedPackets (receive_NACK m p d))"
proof -
  let ?pid = "ucast (getNackPid m p) :: u32" and ?blp = "getNackBlp m p"
  have f: "nacked_insert ?pid (nackedPackets d) = (True, insort ?pid (nackedPackets d))"
    using assms by (simp add: nacked_insert_def)
  obtain send s2 where b: "(if ?blp \<noteq> 0 then insert_bits ?pid ?blp [0..<16] (True, insort ?pid (nackedPackets d))
      else (True, insort ?pid (nackedPackets d))) = (send, s2)"
    by (metis prod.exhaust)
  then have "length (insort ?pid (nackedPackets d)) \<le> length s2"
    using insert_bits_spec [of ?pid ?blp "[0..<16]" True "insort ?pid (nackedPackets d)" send s2] by (auto split: if_splits)
  moreover have "nackedPackets (receive_NACK m p d) = s2"
    unfolding receive_NACK_def Let_def f prod.case if_True b by simp
  ultimately show ?thesis by simp
qed

subsection \<open>Examples\<close>

text \<open>An aggregator that has seen a sender report, then a receiver report that answers it, and NACKs.\<close>

definition sample_data :: rtcpData where
  "sample_data = (new_RtcpData VIDEO_TYPE)\<lparr>rd_lastSr := 5, rd_extendedSeqNo := 70000, highestSeqNumReceived := 4464,
     seqNumCycles := 1, rd_jitter := 3, shouldSendNACK := True, nackSeqnum := 4400, rd_nackBlp := 9, requestRr := True,
     reportedBandwidth := 200000, last_sr_updated := 90000\<rparr>"

lemma sample_report:
  "case send_report 100000 7 sample_sink sample_source 150000 7 sample_data of
     Inl e \<Rightarrow> False
   | Inr (d, os) \<Rightarrow> length os = 1 \<and> due 102000 d \<and> prevExtendedSeqNo d = 70000"
  by code_simp

lemma sample_report_sent:
  obtains d os where "send_report 100000 7 sample_sink sample_source 150000 7 sample_data = Inr (d, os)" "due 102000 d"
  using sample_report by (auto split: sum.splits)

theorem aggregated_report_reads_back_witness:
  "\<exists>d out p. send_report 100000 7 sample_sink sample_source 150000 7 sample_data = Inr (d, [out])
    \<and> delivered out = Some p \<and> packet_length p = 72 \<and> getHighestSeqnum (data p) 0 = 4464
    \<and> getNackPid (data p) 32 = 4400 \<and> isREMB (data p) 48"
proof -
  obtain d os where s: "send_report 100000 7 sample_sink sample_source 150000 7 sample_data = Inr (d, os)"
    by (rule sample_report_sent)
  have k: "highestSeqNumReceived sample_data = 4464" "nackSeqnum sample_data = 4400" "nack_size sample_data = 16"
    "shouldSendNACK sample_data" "sends_remb 100000 sample_data"
    by (simp_all add: sample_data_def new_RtcpData_def nack_size_def sends_remb_def REMB_TIMEOUT_def)
  show ?thesis using aggregated_report_reads_back [OF s] s k by auto
qed

theorem report_without_news_crashes_witness:
  "\<exists>d os. send_report 100000 7 sample_sink sample_source 150000 7 sample_data = Inr (d, os)
    \<and> check_entry 102000 7 sample_sink sample_source 150000 7 d = Inl DivisionByZero"
proof -
  obtain d os where s: "send_report 100000 7 sample_sink sample_source 150000 7 sample_data = Inr (d, os)" "due 102000 d"
    by (rule sample_report_sent)
  have "video_source_of 102000 sample_source 7 d = Some 7"
    by (simp add: video_source_of_def sample_source_def getVideoSourceSSRC_def)
  from report_without_news_crashes [OF s this] s(1) show ?thesis by blast
qed

definition sample_nack :: mem where
  "sample_nack = nack_header 4400 9 7 8"

theorem nack_is_passed_on_once_witness:
  "shouldSendNACK (receive_NACK sample_nack 0 (new_RtcpData VIDEO_TYPE))
    \<and> \<not> shouldSendNACK (receive_NACK sample_nack 0 (receive_NACK sample_nack 0 (new_RtcpData VIDEO_TYPE)))"
proof -
  have l: "length (nackedPackets (new_RtcpData VIDEO_TYPE)) < MAP_NACK_SIZE" by (simp add: new_RtcpData_def MAP_NACK_SIZE_def)
  have "length (nackedPackets (receive_NACK sample_nack 0 (new_RtcpData VIDEO_TYPE))) = 3" by code_simp
  then have l': "length (nackedPackets (receive_NACK sample_nack 0 (new_RtcpData VIDEO_TYPE))) < MAP_NACK_SIZE"
    by (simp add: MAP_NACK_SIZE_def)
  have "ucast (getNackPid sample_nack 0) \<in> nack_numbers sample_nack 0" by (simp add: nack_numbers_def)
  then show ?thesis
    using nack_is_passed_on_once [OF l refl l' subset_refl] by (auto simp: new_RtcpData_def)
qed

text \<open>Losses of as many packets as arrived make a fraction that does not fit into the member.\<close>

lemma heavy_loss_overflows: "fraction_lost (sample_data\<lparr>rd_totalPacketsLost := 70000\<rparr>) = Inl FractionOverflow"
  by code_simp

end
