(* ===== verification/RtcpProcessorHandler.thy ===== *)
theory RtcpProcessorHandler
  imports RtcpAggregator StatPaths
begin

text \<open>
  \<^verbatim>\<open>rtp/RtcpProcessorHandler.cpp\<close> and the class \<^verbatim>\<open>RtcpProcessor\<close>: the handler gives the processor the reports
  that pass. The virtual functions are the operations of a record; the locale \<open>rtcp_processor\<close> states what
  the handler relies on, and both processors are interpretations.
\<close>

record 's processor =
  p_analyzeSr :: "u64 \<Rightarrow> mem \<Rightarrow> nat \<Rightarrow> 's \<Rightarrow> 's"
  p_setPublisherBW :: "u32 \<Rightarrow> 's \<Rightarrow> 's"
  p_analyzeFeedback :: "u64 \<Rightarrow> int \<Rightarrow> mem \<Rightarrow> 's \<Rightarrow> mem \<times> 's \<times> int"
  p_checkRtcpFb :: "'s \<Rightarrow> ag_error + ('s \<times> rtcp_out list)"

text \<open>The forwarder keeps its map and the maximum; it ignores the bandwidth and has nothing to check.\<close>

definition forwarder :: "mediaSink \<Rightarrow> mediaSource \<Rightarrow> (rtcp_map \<times> u32) processor" where
  "forwarder sink source =
     \<lparr>p_analyzeSr = (\<lambda>now m p s. (analyzeSr source now m p (fst s), snd s)),
      p_setPublisherBW = (\<lambda>bandwidth s. s),
      p_analyzeFeedback = (\<lambda>now len m s. case rf_analyzeFeedback sink source (snd s) len (m, fst s) of
         ((m, d), n) \<Rightarrow> (m, (d, snd s), n)),
      p_checkRtcpFb = (\<lambda>s. Inr (s, []))\<rparr>"

definition aggregator :: "mediaSink \<Rightarrow> mediaSource \<Rightarrow> u32 \<Rightarrow> (u32 \<Rightarrow> u64) \<Rightarrow> (u32 \<Rightarrow> nat) \<Rightarrow> rtcpAggregator processor" where
  "aggregator sink source junk nows randoms =
     \<lparr>p_analyzeSr = ag_analyzeSr source, p_setPublisherBW = ag_setPublisherBW,
      p_analyzeFeedback = (\<lambda>now len m g. case ag_analyzeFeedback source now junk m len g of (g, n) \<Rightarrow> (m, g, n)),
      p_checkRtcpFb = checkRtcpFb nows randoms sink source\<rparr>"

definition setMaxVideoBW :: "u32 \<Rightarrow> rtcp_map \<times> u32 \<Rightarrow> rtcp_map \<times> u32" where
  "setMaxVideoBW bandwidth s = (fst s, bandwidth)"

text \<open>The statistics are in the state; a rate that is undefined is \<open>None\<close>, an error of the processor too.\<close>

definition rph_read :: "'s processor \<Rightarrow> int \<Rightarrow> dataPacket \<Rightarrow> 's \<times> stat_node \<Rightarrow> (('s \<times> stat_node) \<times> rtcp_out list \<times> fire list) option" where
  "rph_read P now packet st =
     (case (if isRtcp (data packet) 0
            then Some (if getPacketType (data packet) 0 = RTCP_Sender_PT
                       then (p_analyzeSr P (ms_of now) (data packet) 0 (fst st), snd st) else st)
            else let t = child ''total'' (\<lambda>n. n) (snd st)
                 in if hasChild ''bitrateCalculated'' (child_node ''total'' t)
                    then map_option (\<lambda>(v, t). (p_setPublisherBW P (ucast v) (fst st), t))
                           (value_at now ''total'' ''bitrateCalculated'' t)
                    else Some (fst st, t)) of
        None \<Rightarrow> None
      | Some (s, t) \<Rightarrow> (case p_checkRtcpFb P s of Inl e \<Rightarrow> None
                       | Inr (s, os) \<Rightarrow> Some ((s, t), os, [FireRead packet])))"

definition rph_write :: "'s processor \<Rightarrow> int \<Rightarrow> dataPacket \<Rightarrow> 's \<times> stat_node \<Rightarrow> ('s \<times> stat_node) \<times> fire list" where
  "rph_write P now packet st =
     (if isFeedback (data packet) 0
      then case p_analyzeFeedback P (ms_of now) (packet_length packet) (data packet) (fst st) of
        (m, s, n) \<Rightarrow> ((s, snd st), if n \<noteq> 0 then [FireWrite (packet\<lparr>data := m\<rparr>)] else [])
      else (st, [FireWrite packet]))"

subsection \<open>What the handler relies on\<close>

text \<open>Feedback is passed on whole or not at all, and what is not passed on is left alone or given up.\<close>

locale rtcp_processor =
  fixes P :: "'s processor"
  assumes whole_or_nothing: "p_analyzeFeedback P now len m s = (m', s', n) \<Longrightarrow> n = 0 \<or> n = len"
begin

lemma write_keeps_length:
  assumes "rph_write P now packet st = (st', fs)" "FireWrite p \<in> set fs"
  shows "packet_length p = packet_length packet \<and> packet_type p = packet_type packet \<and> fs = [FireWrite p]
    \<and> (isFeedback (data packet) 0 \<longrightarrow> snd (snd (p_analyzeFeedback P (ms_of now) (packet_length packet) (data packet) (fst st)))
        = packet_length p)"
  using assms whole_or_nothing [of "ms_of now" "packet_length packet" "data packet" "fst st"]
  by (auto simp: rph_write_def split: if_splits prod.splits)

lemma media_passes: "\<not> isFeedback (data packet) 0 \<Longrightarrow> rph_write P now packet st = (st, [FireWrite packet])"
  by (simp add: rph_write_def)

end

lemma forward_blocks_result: "forward_blocks sink source b len p m = (m', n) \<Longrightarrow> n = 0 \<or> n = len"
proof (induction sink source b len p m rule: forward_blocks.induct)
  case (1 sink source b len p m)
  show ?case using 1(2) 1(1) [OF refl refl _ refl]
    by (auto simp: forward_blocks.simps [of _ _ _ _ p] Let_def simp del: of_nat_unat split: if_splits)
qed

interpretation fwd: rtcp_processor "forwarder sink source" for sink source
proof
  fix now len m s m' s' n
  assume "p_analyzeFeedback (forwarder sink source) now len m s = (m', s', n)"
  then show "n = 0 \<or> n = len"
    using forward_blocks_result [of sink source "snd s" len 0 m]
    by (auto simp: forwarder_def rf_analyzeFeedback_def split: if_splits prod.splits)
qed

interpretation agg: rtcp_processor "aggregator sink source junk nows randoms" for sink source junk nows randoms
proof
  fix now len m s m' s' n
  assume "p_analyzeFeedback (aggregator sink source junk nows randoms) now len m s = (m', s', n)"
  then show "n = 0 \<or> n = len"
    by (auto simp: aggregator_def ag_analyzeFeedback_def Let_def split: if_splits prod.splits)
qed

text \<open>With the aggregator no feedback passes the handler.\<close>

lemma aggregator_stops_feedback:
  "isFeedback (data packet) 0 \<Longrightarrow> snd (rph_write (aggregator sink source junk nows randoms) now packet st) = []"
  by (simp add: rph_write_def aggregator_def ag_analyzeFeedback_def Let_def split: prod.splits if_splits)

end
