(* ===== verification/StatsHandler.thy ===== *)
theory StatsHandler
  imports StatPaths StatNodeProps RtpUtils
begin

text \<open>
  \<^verbatim>\<open>rtp/StatsHandler.cpp\<close> and \<^verbatim>\<open>Stats.cpp\<close>: what passes by is counted in the tree of statistics, under its SSRC
  and in total. The connection is its sink and its source; it is set by the first update.
\<close>

subsection \<open>The calculator\<close>

definition kRateStatIntervalSize :: int where "kRateStatIntervalSize = 100000000"
definition kRateStatIntervals :: u32 where "kRateStatIntervals = 30"

definition bitrate_stat :: stat where
  "bitrate_stat = MovingIntervalRateStat (new_MovingIntervalRateStat kRateStatIntervalSize kRateStatIntervals 8)"

record statsCalculator =
  sc_updated :: bool
  sc_node :: stat_node

definition sc_update :: "statsCalculator \<Rightarrow> statsCalculator" where
  "sc_update c =
     (if \<not> sc_updated c
      then let c = c\<lparr>sc_updated := True\<rparr>
           in if \<not> hasChild ''total'' (sc_node c)
              then c\<lparr>sc_node := insert_at ''total'' ''bitrateCalculated'' bitrate_stat (sc_node c)\<rparr> else c
      else c)"

definition isSinkSSRC :: "mediaSink \<Rightarrow> u32 \<Rightarrow> bool" where
  "isSinkSSRC sink ssrc \<longleftrightarrow> isVideoSinkSSRC sink ssrc \<or> isAudioSinkSSRC sink ssrc"

definition isSourceSSRC :: "mediaSource \<Rightarrow> u32 \<Rightarrow> bool" where
  "isSourceSSRC source ssrc \<longleftrightarrow> isVideoSourceSSRC source ssrc \<or> isAudioSourceSSRC source ssrc"

definition ssrc_key :: "u32 \<Rightarrow> string" where
  "ssrc_key ssrc = key_text (ucast ssrc)"

definition incrStat :: "int \<Rightarrow> u32 \<Rightarrow> string \<Rightarrow> stat_node \<Rightarrow> stat_node option" where
  "incrStat now ssrc stat st =
     (let key = ssrc_key ssrc; st = child key (\<lambda>n. n) st
      in if \<not> hasChild stat (child_node key st) then Some (insert_at key stat (CumulativeStat 1) st)
         else add_at now 1 key stat st)"

definition start_ssrc :: "mediaSink \<Rightarrow> mediaSource \<Rightarrow> u32 \<Rightarrow> stat_node \<Rightarrow> stat_node" where
  "start_ssrc sink source ssrc st =
     (let key = ssrc_key ssrc; st = child key (\<lambda>n. n) st
      in if \<not> hasChild ''bitrateCalculated'' (child_node key st)
         then let st = (if isVideoSourceSSRC source ssrc \<or> isVideoSinkSSRC sink ssrc then insert_at key ''type'' (StringStat ''video'') st
                        else if isAudioSourceSSRC source ssrc \<or> isAudioSinkSSRC sink ssrc then insert_at key ''type'' (StringStat ''audio'') st
                        else st)
              in insert_at key ''bitrateCalculated'' bitrate_stat st
         else st)"

definition processRtpPacket :: "mediaSink \<Rightarrow> mediaSource \<Rightarrow> int \<Rightarrow> dataPacket \<Rightarrow> stat_node \<Rightarrow> stat_node option" where
  "processRtpPacket sink source now packet st =
     (let ssrc = getSSRC (data packet)
      in if \<not> isSinkSSRC sink ssrc \<and> \<not> isSourceSSRC source ssrc then Some st
         else Option.bind (add_at now (word_of_int (packet_length packet)) (ssrc_key ssrc) ''bitrateCalculated''
                (start_ssrc sink source ssrc st)) (\<lambda>st.
              Option.bind (add_at now (word_of_int (packet_length packet)) ''total'' ''bitrateCalculated'' st) (\<lambda>st.
              if packet_type packet = VIDEO_PACKET \<and> is_keyframe packet then incrStat now ssrc ''keyFrames'' st else Some st)))"

text \<open>What one report of a compound packet adds; all are booked under the SSRC found in the first.\<close>

definition stats_block :: "int \<Rightarrow> u32 \<Rightarrow> bool \<Rightarrow> mem \<Rightarrow> nat \<Rightarrow> stat_node \<Rightarrow> stat_node option" where
  "stats_block now ssrc is_feedback_on_publisher m p st =
     (let key = ssrc_key ssrc
      in if getPacketType m p = RTCP_Receiver_PT
         then if is_feedback_on_publisher then Some st
              else Some (insert_at key ''sourceSsrc'' (CumulativeStat (ucast ssrc))
                    (insert_at key ''jitter'' (CumulativeStat (ucast (getJitter m p)))
                    (insert_at key ''packetsLost'' (CumulativeStat (ucast (getLostPackets m p)))
                    (insert_at key ''fractionLost'' (CumulativeStat (ucast (getFractionLost m p))) st))))
         else if getPacketType m p = RTCP_Sender_PT
         then Some (insert_at key ''bytesSent'' (CumulativeStat (ucast (getOctetsSent m p)))
               (insert_at key ''packetsSent'' (CumulativeStat (ucast (getPacketsSent m p))) st))
         else if getPacketType m p = RTCP_RTP_Feedback_PT then incrStat now ssrc ''NACK'' st
         else if getPacketType m p = RTCP_PS_Feedback_PT
         then if getBlockCount m p = RTCP_PLI_FMT then incrStat now ssrc ''PLI'' st
              else if getBlockCount m p = RTCP_SLI_FMT then incrStat now ssrc ''SLI'' st
              else if getBlockCount m p = RTCP_FIR_FMT then incrStat now ssrc ''FIR'' st
              else if getBlockCount m p = RTCP_AFB \<and> \<not> is_feedback_on_publisher \<and> isREMB m p
              then Some (insert_at key ''bandwidth'' (CumulativeStat (getREMBBitRate m p)) st)
              else Some st
         else Some st)"

function stats_blocks :: "int \<Rightarrow> u32 \<Rightarrow> bool \<Rightarrow> mem \<Rightarrow> int \<Rightarrow> nat \<Rightarrow> stat_node \<Rightarrow> stat_node option" where
  "stats_blocks now ssrc fp m len p st =
     (let totalLength = p + (unat (ntohs (load16 m (p + 2))) + 1) * 4
      in case stats_block now ssrc fp m p st of None \<Rightarrow> None
         | Some st \<Rightarrow> if int totalLength < len then stats_blocks now ssrc fp m len totalLength st else Some st)"
  by pat_completeness auto
termination
  by (relation "measure (\<lambda>(now, ssrc, fp, m, len, p, st). nat len - p)") (auto simp del: of_nat_unat)

declare stats_blocks.simps [simp del]

text \<open>The SSRC a compound packet is booked under, and whether it is feedback on a publisher.\<close>

definition rtcp_subject :: "mediaSink \<Rightarrow> mediaSource \<Rightarrow> mem \<Rightarrow> (u32 \<times> bool) option" where
  "rtcp_subject sink source m =
     (if isFeedback m 0 then Some (getSourceSSRC m 0, \<not> isSinkSSRC sink (getSourceSSRC m 0))
      else if isSourceSSRC source (rtcp_getSSRC m 0) then Some (rtcp_getSSRC m 0, False) else None)"

text \<open>The text for the listener, when there is one, is the second result.\<close>

definition sendStats :: "int \<Rightarrow> bool \<Rightarrow> stat_node \<Rightarrow> (stat_node \<times> string list) option" where
  "sendStats now listening st =
     (if listening then map_option (\<lambda>(t, st). (st, [t])) (node_toString now st) else Some (st, []))"

definition processRtcpPacket :: "mediaSink \<Rightarrow> mediaSource \<Rightarrow> bool \<Rightarrow> int \<Rightarrow> dataPacket \<Rightarrow> stat_node \<Rightarrow> (stat_node \<times> string list) option" where
  "processRtcpPacket sink source listening now packet st =
     (case rtcp_subject sink source (data packet) of None \<Rightarrow> Some (st, [])
      | Some (ssrc, fp) \<Rightarrow> Option.bind (stats_blocks now ssrc fp (data packet) (packet_length packet) 0 st)
          (sendStats now listening))"

definition processPacket :: "mediaSink \<Rightarrow> mediaSource \<Rightarrow> bool \<Rightarrow> int \<Rightarrow> dataPacket \<Rightarrow> stat_node \<Rightarrow> (stat_node \<times> string list) option" where
  "processPacket sink source listening now packet st =
     (if isRtcp (data packet) 0 then processRtcpPacket sink source listening now packet st
      else map_option (\<lambda>st. (st, [])) (processRtpPacket sink source now packet st))"

definition incoming_read :: "mediaSink \<Rightarrow> mediaSource \<Rightarrow> bool \<Rightarrow> int \<Rightarrow> dataPacket \<Rightarrow> statsCalculator \<Rightarrow> (statsCalculator \<times> string list \<times> fire list) option" where
  "incoming_read sink source listening now packet c =
     (if \<not> sc_updated c then None
      else map_option (\<lambda>(st, texts). (c\<lparr>sc_node := st\<rparr>, texts, [FireRead packet]))
        (processPacket sink source listening now packet (sc_node c)))"

definition outgoing_write :: "mediaSink \<Rightarrow> mediaSource \<Rightarrow> bool \<Rightarrow> int \<Rightarrow> dataPacket \<Rightarrow> statsCalculator \<Rightarrow> (statsCalculator \<times> string list \<times> fire list) option" where
  "outgoing_write sink source listening now packet c =
     (if \<not> sc_updated c then None
      else map_option (\<lambda>(st, texts). (c\<lparr>sc_node := st\<rparr>, texts, [FireWrite packet]))
        (processPacket sink source listening now packet (sc_node c)))"

subsection \<open>Counting\<close>

lemma ssrc_key_inj: "ssrc_key a = ssrc_key b \<longleftrightarrow> a = b"
proof
  assume "ssrc_key a = ssrc_key b"
  then have "decimal_number (ssrc_key a) = decimal_number (ssrc_key b)" by simp
  then have "unat a = unat b" by (simp add: ssrc_key_def key_text_def)
  then show "a = b" by (simp only: word_unat_eq_iff)
qed simp

text \<open>A counter is made when it is first needed, with the value 1.\<close>

definition has_count :: "string \<Rightarrow> string \<Rightarrow> nat \<Rightarrow> stat_node \<Rightarrow> bool" where
  "has_count key name n st \<longleftrightarrow>
     (if n = 0 then \<not> leaf_there key name st
      else leaf_there key name st \<and> leaf key name st = CumulativeStat (of_nat n))"

lemma has_count_insert: "has_count key name n st \<Longrightarrow> name \<noteq> b \<Longrightarrow> has_count key name n (insert_at a b s st)"
  by (simp add: has_count_def insert_at_leaf)

lemma has_count_add: "add_at now v a b st = Some st' \<Longrightarrow> has_count key name n st \<Longrightarrow> name \<noteq> b \<Longrightarrow> has_count key name n st'"
  using add_at_leaf(2) [of now v a b st st' key name] add_at_leaf(3) [of now v a b st st' key name]
  by (auto simp: has_count_def)

lemma has_count_touch: "has_count key name n (child a (\<lambda>n. n) st) = has_count key name n st"
  by (simp add: has_count_def touch_leaf)

lemma has_count_incr:
  assumes "has_count (ssrc_key s) name n st" "incrStat now ssrc stat st = Some st'"
  shows "has_count (ssrc_key s) name (n + (if ssrc = s \<and> stat = name then 1 else 0)) st'"
proof (cases "ssrc = s \<and> stat = name")
  case False
  then have d: "ssrc_key s \<noteq> ssrc_key ssrc \<or> name \<noteq> stat" by (auto simp: ssrc_key_inj)
  show ?thesis
  proof (cases "leaf_there (ssrc_key ssrc) stat st")
    case True
    then have "add_at now 1 (ssrc_key ssrc) stat (child (ssrc_key ssrc) (\<lambda>n. n) st) = Some st'"
      using assms(2) by (simp add: incrStat_def Let_def leaf_there_def child_node_child)
    from add_at_leaf(2,3) [OF this] d show ?thesis using assms(1) False by (auto simp: has_count_def touch_leaf)
  next
    case f: False
    then have "st' = insert_at (ssrc_key ssrc) stat (CumulativeStat 1) (child (ssrc_key ssrc) (\<lambda>n. n) st)"
      using assms(2) by (simp add: incrStat_def Let_def leaf_there_def child_node_child)
    then show ?thesis using assms(1) d False by (auto simp: has_count_def insert_at_leaf touch_leaf)
  qed
next
  case True
  then have e: "ssrc = s" "stat = name" by simp_all
  show ?thesis
  proof (cases "n = 0")
    case z: True
    then have "st' = insert_at (ssrc_key s) name (CumulativeStat 1) (child (ssrc_key s) (\<lambda>n. n) st)"
      using assms by (simp add: incrStat_def Let_def has_count_def leaf_there_def child_node_child e)
    then show ?thesis by (simp add: has_count_def insert_at_leaf z e)
  next
    case False
    then have h: "leaf_there (ssrc_key s) name st" "leaf (ssrc_key s) name st = CumulativeStat (of_nat n)"
      using assms(1) by (simp_all add: has_count_def)
    then have a: "add_at now 1 (ssrc_key s) name (child (ssrc_key s) (\<lambda>n. n) st) = Some st'"
      using assms(2) by (simp add: incrStat_def Let_def leaf_there_def child_node_child e)
    have "leaf (ssrc_key s) name st' = CumulativeStat (of_nat n + 1)"
      using add_at_leaf(1) [OF a] h(2) by (simp add: touch_leaf stat_add_def)
    moreover have "leaf_there (ssrc_key s) name st'" using add_at_leaf(3) [OF a] by simp
    ultimately show ?thesis using False e by (simp add: has_count_def add.commute)
  qed
qed

text \<open>Printing the tree leaves the counters as they are.\<close>

lemma toString_members:
  "members_toString now m = Some (ts, m') \<Longrightarrow> (case map_of m k of None \<Rightarrow> map_of m' k = None
     | Some c \<Rightarrow> \<exists>t c'. node_toString now c = Some (t, c') \<and> map_of m' k = Some c')"
  by (induction m arbitrary: ts m') (auto split: option.splits prod.splits)

lemma toString_keeps:
  assumes "node_toString now n = Some (t, n')"
  shows "hasChild k n' = hasChild k n"
    "child_node k n' = child_node k n \<or> (\<exists>t. node_toString now (child_node k n) = Some (t, child_node k n'))"
    "stat_of n = CumulativeStat v \<Longrightarrow> n' = n"
proof -
  obtain s m where n: "n = StatNode s m" by (cases n)
  show "stat_of n = CumulativeStat v \<Longrightarrow> n' = n" using assms by (auto simp: n stat_value_def)
  have "hasChild k n' = hasChild k n
    \<and> (child_node k n' = child_node k n \<or> (\<exists>t. node_toString now (child_node k n) = Some (t, child_node k n')))"
  proof (cases "s = Plain")
    case True
    then obtain ts m' where m: "members_toString now m = Some (ts, m')" "n' = StatNode Plain m'"
      using assms by (auto simp: n)
    show ?thesis using toString_members [OF m(1), of k]
      by (auto simp: n m(2) hasChild_def child_node_def split: option.splits)
  next
    case False
    then have "node_map n' = m" using assms by (cases s) (auto simp: n)
    then show ?thesis by (simp add: n hasChild_def child_node_def)
  qed
  then show "hasChild k n' = hasChild k n"
    "child_node k n' = child_node k n \<or> (\<exists>t. node_toString now (child_node k n) = Some (t, child_node k n'))" by blast+
qed

lemma has_count_print:
  assumes "sendStats now listening st = Some (st', texts)" "has_count key name n st"
  shows "has_count key name n st'"
proof (cases listening)
  case False
  then show ?thesis using assms by (simp add: sendStats_def)
next
  case True
  then obtain t where t: "node_toString now st = Some (t, st')" using assms(1) by (auto simp: sendStats_def)
  note k = toString_keeps(2) [OF t, of key]
  have there: "leaf_there key name st' = leaf_there key name st"
    using k toString_keeps(1) [of now "child_node key st" _ "child_node key st'" name] by (auto simp: leaf_there_def)
  have "leaf key name st' = CumulativeStat v" if "leaf key name st = CumulativeStat v" for v
  proof -
    have "child_node name (child_node key st') = child_node name (child_node key st)
      \<or> (\<exists>t. node_toString now (child_node name (child_node key st)) = Some (t, child_node name (child_node key st')))"
      using k toString_keeps(2) [of now "child_node key st" _ "child_node key st'" name] by auto
    then show ?thesis using that toString_keeps(3) unfolding leaf_def by metis
  qed
  then show ?thesis using there assms(2) by (auto simp: has_count_def)
qed

text \<open>
  What is to be counted, read from the bytes of the packet. The words at 4 and 8 of a report are its sender and the
  source of media it is about. Feedback (receiver reports, types 201, 205 and 206) is booked under the source of media
  of the first report, other packets under the sender of the first report, when it is a source of the publisher.
\<close>

definition event_names :: "string set" where
  "event_names = {''keyFrames'', ''NACK'', ''PLI'', ''SLI'', ''FIR''}"

definition asks_for :: "mem \<Rightarrow> nat \<Rightarrow> string \<Rightarrow> bool" where
  "asks_for m p name \<longleftrightarrow>
     (name = ''NACK'' \<and> m (p + 1) = 205) \<or> (name = ''PLI'' \<and> m (p + 1) = 206 \<and> getBlockCount m p = 1)
     \<or> (name = ''SLI'' \<and> m (p + 1) = 206 \<and> getBlockCount m p = 2) \<or> (name = ''FIR'' \<and> m (p + 1) = 206 \<and> getBlockCount m p = 4)"

definition published :: "mediaSource \<Rightarrow> u32 set" where
  "published source = insert (audio_source_ssrc source) (set (video_source_ssrc_list source))"

definition subscribed :: "mediaSink \<Rightarrow> u32 set" where
  "subscribed sink = {audio_sink_ssrc sink, video_sink_ssrc sink}"

definition booked_under :: "mediaSource \<Rightarrow> mem \<Rightarrow> u32 \<Rightarrow> bool" where
  "booked_under source m ssrc \<longleftrightarrow>
     (if m 1 = 201 \<or> m 1 = 205 \<or> m 1 = 206 then ntohl (load32 m 8) = ssrc
      else ntohl (load32 m 4) = ssrc \<and> ssrc \<in> published source)"

definition events_of :: "mediaSink \<Rightarrow> mediaSource \<Rightarrow> string \<Rightarrow> u32 \<Rightarrow> dataPacket \<Rightarrow> nat" where
  "events_of sink source name ssrc packet =
     (let m = data packet
      in if 194 \<le> m 1 \<and> m 1 \<le> 223
         then if booked_under source m ssrc
              then length (filter (\<lambda>p. asks_for m p name) (block_offsets m (packet_length packet) 0)) else 0
         else if name = ''keyFrames'' \<and> ntohl (load32 m 8) = ssrc \<and> ssrc \<in> published source \<union> subscribed sink
           \<and> packet_type packet = VIDEO_PACKET \<and> is_keyframe packet then 1 else 0)"

lemma booked_under_subject:
  "booked_under source m ssrc \<longleftrightarrow> (\<exists>fp. rtcp_subject sink source m = Some (ssrc, fp))"
  by (auto simp: booked_under_def rtcp_subject_def isFeedback_def getPacketType_def getSourceSSRC_def rtcp_getSSRC_def
      isSourceSSRC_def isVideoSourceSSRC_def isAudioSourceSSRC_def published_def)

lemma known_ssrc: "isSinkSSRC sink ssrc \<or> isSourceSSRC source ssrc \<longleftrightarrow> ssrc \<in> published source \<union> subscribed sink"
  by (auto simp: isSinkSSRC_def isSourceSSRC_def isVideoSourceSSRC_def isAudioSourceSSRC_def isVideoSinkSSRC_def
      isAudioSinkSSRC_def published_def subscribed_def)

text \<open>The counter a report adds to, as the code finds it.\<close>

definition block_event :: "mem \<Rightarrow> nat \<Rightarrow> string option" where
  "block_event m p =
     (if getPacketType m p = RTCP_RTP_Feedback_PT then Some ''NACK''
      else if getPacketType m p = RTCP_PS_Feedback_PT
      then if getBlockCount m p = RTCP_PLI_FMT then Some ''PLI''
           else if getBlockCount m p = RTCP_SLI_FMT then Some ''SLI''
           else if getBlockCount m p = RTCP_FIR_FMT then Some ''FIR'' else None
      else None)"

lemma block_event_asks: "block_event m p = Some name \<longleftrightarrow> asks_for m p name"
  by (auto simp: block_event_def asks_for_def getPacketType_def)

lemma stats_block_count:
  assumes "stats_block now ssrc fp m p st = Some st'" "has_count (ssrc_key s) name n st" "name \<in> event_names"
  shows "has_count (ssrc_key s) name (n + (if ssrc = s \<and> block_event m p = Some name then 1 else 0)) st'"
proof (cases "block_event m p")
  case None
  then show ?thesis using assms
    by (auto simp: stats_block_def block_event_def Let_def event_names_def has_count_insert split: if_splits)
next
  case (Some e)
  then have "incrStat now ssrc e st = Some st'"
    using assms(1) by (auto simp: stats_block_def block_event_def Let_def split: if_splits)
  from has_count_incr [OF assms(2) this] Some show ?thesis by auto
qed

lemma stats_blocks_count:
  assumes "stats_blocks now ssrc fp m len p st = Some st'" "has_count (ssrc_key s) name n st" "name \<in> event_names"
  shows "has_count (ssrc_key s) name (n + (if ssrc = s
    then length (filter (\<lambda>p. block_event m p = Some name) (block_offsets m len p)) else 0)) st'"
  using assms
proof (induction now ssrc fp m len p st arbitrary: n rule: stats_blocks.induct)
  case (1 now ssrc fp m len p st)
  obtain st1 where b: "stats_block now ssrc fp m p st = Some st1"
    using 1(2) by (auto simp: stats_blocks.simps [of _ _ _ _ _ p] Let_def split: option.splits)
  note c = stats_block_count [OF b 1(3,4)]
  let ?q = "p + (unat (ntohs (load16 m (p + 2))) + 1) * 4"
  show ?case
  proof (cases "int ?q < len")
    case True
    then have "stats_blocks now ssrc fp m len ?q st1 = Some st'"
      using 1(2) b by (simp add: stats_blocks.simps [of _ _ _ _ _ p] Let_def del: of_nat_unat)
    from 1(1) [OF refl b True this c 1(4)] True show ?thesis
      by (simp add: block_offsets.simps [of m len p] Let_def add.assoc del: of_nat_unat split: if_splits)
  next
    case False
    then have "st' = st1" using 1(2) b by (simp add: stats_blocks.simps [of _ _ _ _ _ p] Let_def del: of_nat_unat)
    with c False show ?thesis by (auto simp: block_offsets.simps [of m len p] Let_def simp del: of_nat_unat split: if_splits)
  qed
qed

lemma processPacket_count:
  assumes "processPacket sink source listening now packet st = Some (st', texts)" "has_count (ssrc_key s) name n st"
    "name \<in> event_names"
  shows "has_count (ssrc_key s) name (n + events_of sink source name s packet) st'"
proof (cases "isRtcp (data packet) 0")
  case True
  then have p: "processRtcpPacket sink source listening now packet st = Some (st', texts)" using assms(1) by (simp add: processPacket_def)
  show ?thesis
  proof (cases "rtcp_subject sink source (data packet)")
    case None
    then show ?thesis using p assms(2) True
      by (simp add: processRtcpPacket_def events_of_def Let_def booked_under_subject [of _ _ _ sink] isRtcp_def getPacketType_def)
  next
    case (Some r)
    obtain ssrc fp where r: "r = (ssrc, fp)" by (cases r)
    obtain st1 where "stats_blocks now ssrc fp (data packet) (packet_length packet) 0 st = Some st1"
      "sendStats now listening st1 = Some (st', texts)"
      using p Some r by (auto simp: processRtcpPacket_def bind_eq_Some_conv)
    from has_count_print [OF this(2) stats_blocks_count [OF this(1) assms(2,3)]] True Some r
    show ?thesis by (cases "ssrc = s") (simp_all add: events_of_def Let_def booked_under_subject [of _ _ _ sink] block_event_asks isRtcp_def getPacketType_def)
  qed
next
  case False
  let ?ssrc = "getSSRC (data packet)"
  have p: "processRtpPacket sink source now packet st = Some st'" using assms(1) False by (auto simp: processPacket_def)
  show ?thesis
  proof (cases "isSinkSSRC sink ?ssrc \<or> isSourceSSRC source ?ssrc")
    case f: False
    then have "st' = st" using p by (auto simp: processRtpPacket_def Let_def)
    then show ?thesis using assms(2) False f unfolding known_ssrc
      by (auto simp: events_of_def Let_def getSSRC_def isRtcp_def getPacketType_def)
  next
    case True
    obtain st1 st2 where a: "add_at now (word_of_int (packet_length packet)) (ssrc_key ?ssrc) ''bitrateCalculated''
        (start_ssrc sink source ?ssrc st) = Some st1"
      "add_at now (word_of_int (packet_length packet)) ''total'' ''bitrateCalculated'' st1 = Some st2"
      "(if packet_type packet = VIDEO_PACKET \<and> is_keyframe packet then incrStat now ?ssrc ''keyFrames'' st2 else Some st2) = Some st'"
      using p True by (auto simp: processRtpPacket_def Let_def bind_eq_Some_conv)
    have "has_count (ssrc_key s) name n (start_ssrc sink source ?ssrc st)"
      using assms(2,3) by (auto simp: start_ssrc_def Let_def event_names_def has_count_touch intro!: has_count_insert)
    then have c: "has_count (ssrc_key s) name n st2"
      using has_count_add [OF a(2)] has_count_add [OF a(1)] assms(3) by (auto simp: event_names_def)
    show ?thesis
    proof (cases "packet_type packet = VIDEO_PACKET \<and> is_keyframe packet")
      case k: True
      then have "incrStat now ?ssrc ''keyFrames'' st2 = Some st'" using a(3) by simp
      from has_count_incr [OF c this] k True False show ?thesis unfolding known_ssrc
        by (cases "?ssrc = s") (auto simp: events_of_def Let_def getSSRC_def isRtcp_def getPacketType_def)
    next
      case k: False
      then show ?thesis using a(3) c False by (auto simp: events_of_def Let_def isRtcp_def getPacketType_def)
    qed
  qed
qed

fun stats_run :: "mediaSink \<Rightarrow> mediaSource \<Rightarrow> bool \<Rightarrow> (int \<times> dataPacket) list \<Rightarrow> stat_node \<Rightarrow> stat_node option" where
  "stats_run sink source listening [] st = Some st"
| "stats_run sink source listening ((now, packet) # es) st =
     Option.bind (processPacket sink source listening now packet st) (\<lambda>r. stats_run sink source listening es (fst r))"

text \<open>
  C33: What happens is counted: after any run of packets that do not stop the program, the counters ''keyFrames'',
  ''NACK'', ''PLI'', ''SLI'' and ''FIR'' of an SSRC hold the number of those that passed (modulo 2 to the 64), whatever
  else was counted, looked up or printed meanwhile; a counter that is not there stands for 0, and it is not there at
  the start. A key frame counts for the SSRC of its packet, when that is one of the publisher or the subscriber. The
  requests of a compound packet all count for one SSRC: when its first report is feedback the source of media that
  report names, otherwise the sender of that report, when it is a source of the publisher (and none counts when not).
\<close>
theorem events_are_counted:
  assumes "stats_run sink source listening es st = Some st'" "\<not> leaf_there (ssrc_key ssrc) name st" "name \<in> event_names"
  defines "n \<equiv> sum_list (map (\<lambda>e. events_of sink source name ssrc (snd e)) es)"
  shows "(leaf_there (ssrc_key ssrc) name st' \<longleftrightarrow> n \<noteq> 0)
    \<and> (n \<noteq> 0 \<longrightarrow> leaf (ssrc_key ssrc) name st' = CumulativeStat (of_nat n))"
proof -
  have "has_count (ssrc_key ssrc) name (k + sum_list (map (\<lambda>e. events_of sink source name ssrc (snd e)) es)) st'"
    if "has_count (ssrc_key ssrc) name k st" for k
    using assms(1) that
  proof (induction es arbitrary: st k)
    case (Cons e es)
    obtain now packet where e: "e = (now, packet)" by (cases e)
    obtain st1 texts where s: "processPacket sink source listening now packet st = Some (st1, texts)"
      "stats_run sink source listening es st1 = Some st'"
      using Cons.prems(1) by (auto simp: e bind_eq_Some_conv)
    from Cons.IH [OF s(2) processPacket_count [OF s(1) Cons.prems(2) assms(3)]] show ?case
      by (simp add: e add.assoc)
  qed simp
  from this [of 0] assms(2) show ?thesis by (auto simp: has_count_def n_def split: if_splits)
qed

subsection \<open>Examples\<close>

definition stats_sink :: mediaSink where "stats_sink = \<lparr>audio_sink_ssrc = 21, video_sink_ssrc = 22\<rparr>"
definition stats_source :: mediaSource where "stats_source = \<lparr>audio_source_ssrc = 6, video_source_ssrc_list = [7]\<rparr>"

text \<open>A key frame from the source 7, and a PLI of the subscriber for 22.\<close>

definition stats_sample :: "(int \<times> dataPacket) list" where
  "stats_sample = [(0, (sample_packet 5 7)\<lparr>packet_length := 20, is_keyframe := True\<rparr>), (1000000, createPLI 0 22 9)]"

definition fresh_stats :: stat_node where
  "fresh_stats = sc_node (sc_update \<lparr>sc_updated = False, sc_node = StatNode Plain []\<rparr>)"

theorem events_are_counted_witness:
  "\<exists>st. stats_run stats_sink stats_source True stats_sample fresh_stats = Some st
    \<and> leaf (ssrc_key 7) ''keyFrames'' st = CumulativeStat 1 \<and> leaf (ssrc_key 22) ''PLI'' st = CumulativeStat 1"
proof -
  have "map_option (\<lambda>st. ()) (stats_run stats_sink stats_source True stats_sample fresh_stats) = Some ()" by code_simp
  then obtain st where r: "stats_run stats_sink stats_source True stats_sample fresh_stats = Some st" by auto
  have n: "\<not> leaf_there (ssrc_key 7) ''keyFrames'' fresh_stats" "\<not> leaf_there (ssrc_key 22) ''PLI'' fresh_stats" by code_simp+
  have c: "sum_list (map (\<lambda>e. events_of stats_sink stats_source ''keyFrames'' 7 (snd e)) stats_sample) = 1"
    "sum_list (map (\<lambda>e. events_of stats_sink stats_source ''PLI'' 22 (snd e)) stats_sample) = 1" by code_simp+
  show ?thesis
    using events_are_counted [OF r n(1)] events_are_counted [OF r n(2)] r c by (auto simp: event_names_def)
qed

text \<open>
  Once anything has looked at the total, the statistic for the total bit rate is never made, and what is added to
  it is lost.
\<close>

lemma total_is_lost:
  "let c = sc_update \<lparr>sc_updated = False, sc_node = child ''total'' (\<lambda>n. n) (StatNode Plain [])\<rparr>
   in map_option (leaf ''total'' ''bitrateCalculated'')
        (stats_run stats_sink stats_source False [(0, (sample_packet 5 7)\<lparr>packet_length := 20\<rparr>)] (sc_node c)) = Some Plain"
  by code_simp

text \<open>The reports of a compound packet are all booked under the SSRC of the first one.\<close>

definition two_reports :: mem where
  "two_reports = rtcp_setLength 32 7 (setSourceSSRC 32 21 (setBlockCount 32 1 (setPacketType 32 RTCP_Receiver_PT
     (rtcp_setLength 0 7 (setSourceSSRC 0 22 (setBlockCount 0 1 (setPacketType 0 RTCP_Receiver_PT zero_mem)))))))"

lemma second_report_is_misplaced:
  "map_option (\<lambda>st. (leaf_there (ssrc_key 22) ''jitter'' st, leaf_there (ssrc_key 21) ''jitter'' st))
     (stats_run stats_sink stats_source False [(0, new_dataPacket 0 two_reports 64 VIDEO_PACKET 0)] fresh_stats)
   = Some (True, False)"
  by code_simp

end
