(* ===== verification/SdpParser.thy ===== *)
theory SdpParser
  imports SdpInfo
begin

text \<open>
  Parsing a session description: the body of the loop of \<^verbatim>\<open>SdpInfo::processSdp\<close> over the lines, one
  definition per \<^verbatim>\<open>if\<close> in the order of the code. A line can take part in several of them. Reading
  an element that a vector lacks is \<open>Out_of_bounds\<close>. What an object declared without initialiser
  holds is \<open>raw_memory\<close>: one record for all objects of a run.
\<close>

record raw_memory =
  raw_RtpMap :: RtpMap
  raw_CandidateInfo :: CandidateInfo
  raw_direction :: StreamDirection

definition new_RtpMap :: "raw_memory \<Rightarrow> RtpMap" where
  "new_RtpMap m = (raw_RtpMap m)\<lparr>encoding_name := [], feedback_types := [], format_parameters := []\<rparr>"

definition new_CandidateInfo :: "raw_memory \<Rightarrow> CandidateInfo" where
  "new_CandidateInfo m = (raw_CandidateInfo m)\<lparr>ci_tag := 0, foundation := [], hostAddress := [], rAddress := [],
     netProtocol := [], transProtocol := [], ci_username := [], ci_password := [], ci_sdp := []\<rparr>"

definition new_ExtMap :: "raw_memory \<Rightarrow> u32 \<Rightarrow> string \<Rightarrow> mediaType \<Rightarrow> ExtMap" where
  "new_ExtMap m theValue theUri mtype =
     \<lparr>ext_value = theValue, ext_uri = theUri, ext_direction = raw_direction m, ext_parameters = [],
      ext_mediaType = mtype\<rparr>"

text \<open>\<^verbatim>\<open>strtoul\<close> kept in an \<^verbatim>\<open>unsigned int\<close>; an \<^verbatim>\<open>unsigned int\<close> kept in an \<^verbatim>\<open>int\<close>; \<^verbatim>\<open>s.c_str()\<close>
  assigned to a string; \<^verbatim>\<open>map[k] = v\<close>; \<^verbatim>\<open>pop_back\<close>, which an empty string has not.\<close>

definition to_uint :: "string \<Rightarrow> u32" where
  "to_uint s = ucast (strtoul s)"

definition to_int :: "string \<Rightarrow> int" where
  "to_int s = sint (to_uint s)"

definition c_str :: "string \<Rightarrow> string" where
  "c_str s = takeWhile (\<lambda>c. c \<noteq> CHR 0x00) s"

definition map_put :: "'k::linorder \<Rightarrow> 'v \<Rightarrow> ('k \<times> 'v) list \<Rightarrow> ('k \<times> 'v) list" where
  "map_put k v m = map_assign k (\<lambda>_. v) (map_insert k v m)"

definition pop_back :: "string \<Rightarrow> string checked" where
  "pop_back s = (if s = [] then Inl Out_of_bounds else Inr (butlast s))"

text \<open>A \<^verbatim>\<open>for\<close> over a vector whose index is a byte: it does not end when the vector has 256 elements.\<close>

partial_function (option) byte_loop :: "('a \<Rightarrow> 'b \<Rightarrow> 'b) \<Rightarrow> 'a list \<Rightarrow> u8 \<Rightarrow> 'b \<Rightarrow> 'b option" where
  [code]: "byte_loop f xs i acc =
     (if unat i < length xs then byte_loop f xs (i + 1) (f (xs ! unat i) acc) else Some acc)"

definition for_bytes :: "('a \<Rightarrow> 'b \<Rightarrow> 'b) \<Rightarrow> 'a list \<Rightarrow> 'b \<Rightarrow> 'b checked" where
  "for_bytes f xs acc = (case byte_loop f xs 0 acc of None \<Rightarrow> Inl No_return | Some r \<Rightarrow> Inr r)"

lemma byte_loop_ends:
  fixes f :: "'a \<Rightarrow> 'b \<Rightarrow> 'b"
  assumes "byte_loop f xs i acc = Some r"
  shows "length xs < 256"
proof (rule byte_loop.raw_induct [where P = "\<lambda>f xs i acc r. length xs < 256", OF _ assms])
  fix loop and f :: "'a \<Rightarrow> 'b \<Rightarrow> 'b" and xs and i :: u8 and acc r
  assume ih: "\<And>f xs i acc r. loop f xs i acc = Some r \<Longrightarrow> length xs < 256"
    and step: "(if unat i < length xs then loop f xs (i + 1) (f (xs ! unat i) acc) else Some acc) = Some r"
  show "length xs < 256"
  proof (cases "unat i < length xs")
    case True
    then show ?thesis using step ih by auto
  next
    case False
    then show ?thesis using unat_u8_less [of i] by linarith
  qed
qed

lemma byte_loop_from:
  "length xs < 256 \<Longrightarrow> n \<le> length xs \<Longrightarrow> byte_loop f xs (of_nat (length xs - n)) acc = Some (fold f (drop (length xs - n) xs) acc)"
proof (induction n arbitrary: acc)
  case 0
  then show ?case by (subst byte_loop.simps) (simp add: unat_of_nat)
next
  case (Suc n)
  let ?i = "length xs - Suc n"
  have "unat (of_nat ?i :: u8) = ?i mod 256" by (simp only: unat_of_nat) simp
  then have u: "unat (of_nat ?i :: u8) = ?i" using Suc.prems by simp
  have s: "of_nat ?i + 1 = (of_nat (length xs - n) :: u8)" using Suc.prems
    by (metis Suc_diff_Suc Suc_le_lessD of_nat_Suc add.commute)
  have d: "drop ?i xs = xs ! ?i # drop (length xs - n) xs" using Suc.prems
    by (metis Cons_nth_drop_Suc Suc_diff_Suc Suc_le_lessD diff_less less_le_trans zero_less_Suc)
  have "?i < length xs" using Suc.prems by simp
  then have "byte_loop f xs (of_nat ?i) acc = byte_loop f xs (of_nat ?i + 1) (f (xs ! ?i) acc)"
    using byte_loop.simps [of f xs "of_nat ?i" acc] by (simp only: u if_True)
  then show ?case using Suc.IH [of "f (xs ! ?i) acc"] Suc.prems by (simp only: s d) simp
qed

lemma for_bytes_eq: "for_bytes f xs acc = (if length xs < 256 then Inr (fold f xs acc) else Inl No_return)"
proof (cases "length xs < 256")
  case True
  then show ?thesis using byte_loop_from [of xs "length xs" f acc] by (simp add: for_bytes_def)
next
  case False
  then have "byte_loop f xs 0 acc = None" using byte_loop_ends [of f xs 0 acc] by (cases "byte_loop f xs 0 acc") auto
  then show ?thesis using False by (simp add: for_bytes_def)
qed

subsection \<open>Candidates\<close>

definition candidate_type :: "string \<Rightarrow> HostType" where
  "candidate_type t = (if t = ''relay'' then RELAY else if t = ''prflx'' then PRFLX
     else if t = ''srflx'' then SRFLX else HOST)"

text \<open>\<open>False\<close> for a candidate that is not kept.\<close>

definition processCandidate ::
    "raw_memory \<Rightarrow> string list \<Rightarrow> mediaType \<Rightarrow> string \<Rightarrow> SdpInfo \<Rightarrow> (bool \<times> SdpInfo) checked" where
  "processCandidate m pieces mediaType line s =
     and_then (nth_checked pieces 1) (\<lambda>p1.
     and_then (nth_checked pieces 2) (\<lambda>p2.
     and_then (nth_checked pieces 3) (\<lambda>p3.
       if p3 \<noteq> ''UDP'' \<and> p3 \<noteq> ''udp'' then Inr (False, s)
       else
         and_then (nth_checked pieces 4) (\<lambda>p4.
         and_then (nth_checked pieces 5) (\<lambda>p5.
         and_then (nth_checked pieces 6) (\<lambda>p6.
         and_then (nth_checked pieces 7) (\<lambda>p7.
           if p7 \<noteq> ''typ'' then Inr (False, s)
           else
             and_then (nth_checked pieces 8) (\<lambda>p8.
               let c = (new_CandidateInfo m)\<lparr>ci_mediaType := mediaType, foundation := p1, componentId := to_uint p2,
                     netProtocol := p3, ci_priority := to_uint p4, hostAddress := p5, hostPort := to_int p6,
                     hostType := candidate_type p8\<rparr>
               in and_then
                    (if hostType c = SRFLX \<or> hostType c = RELAY
                     then and_then (nth_checked pieces 10) (\<lambda>p10.
                          and_then (nth_checked pieces 12) (\<lambda>p12.
                            Inr (c\<lparr>rAddress := p10, rPort := to_int p12\<rparr>)))
                     else Inr c) (\<lambda>c.
                  Inr (True, s\<lparr>candidateVector := candidateVector s @ [c\<lparr>ci_sdp := line\<rparr>]\<rparr>))))))))))"

subsection \<open>One line\<close>

definition line_rtcpmux :: "string \<Rightarrow> SdpInfo \<Rightarrow> SdpInfo" where
  "line_rtcpmux line s = (if found_in ''a=rtcp-mux'' line then s\<lparr>isRtcpMux := True\<rparr> else s)"

definition set_direction :: "mediaType \<Rightarrow> StreamDirection \<Rightarrow> SdpInfo \<Rightarrow> SdpInfo" where
  "set_direction mtype d s = (if mtype = AUDIO_TYPE then s\<lparr>audioDirection := d\<rparr> else s\<lparr>videoDirection := d\<rparr>)"

definition line_direction :: "mediaType \<Rightarrow> string \<Rightarrow> SdpInfo \<Rightarrow> SdpInfo" where
  "line_direction mtype line s =
     (if found_in ''a=recvonly'' line then set_direction mtype RECVONLY s
      else if found_in ''a=sendonly'' line then set_direction mtype SENDONLY s
      else if found_in ''a=sendrecv'' line then set_direction mtype SENDRECV s
      else s)"

definition line_profile :: "string \<Rightarrow> SdpInfo \<Rightarrow> SdpInfo" where
  "line_profile line s = (if found_in ''SAVPF'' line then s\<lparr>profile := SAVPF\<rparr> else s)"

definition line_fingerprint :: "string \<Rightarrow> SdpInfo \<Rightarrow> SdpInfo checked" where
  "line_fingerprint line s =
     (if found_in ''a=fingerprint'' line
      then and_then (nth_checked (splitOneOf line '':'' 1) 1) (\<lambda>part.
           and_then (nth_checked (splitOneOf part '' '' 0) 1) (\<lambda>f.
             Inr (s\<lparr>fingerprint := f, isFingerprint := True\<rparr>)))
      else Inr s)"

definition line_setup :: "string \<Rightarrow> SdpInfo \<Rightarrow> SdpInfo checked" where
  "line_setup line s =
     (if found_in ''a=setup:'' line
      then and_then (nth_checked (splitOneOf line '':'' 1) 1) (\<lambda>part.
             Inr (s\<lparr>dtlsRole := (if found_in ''passive'' part then PASSIVE
                               else if found_in ''active'' part then ACTIVE else ACTPASS)\<rparr>))
      else Inr s)"

definition line_group :: "string \<Rightarrow> SdpInfo \<Rightarrow> SdpInfo checked" where
  "line_group line s =
     (if found_in ''a=group:'' line
      then let parts = splitOneOf line ('':  '' @ [CHR 0x0D, CHR 0x0A]) 10
           in and_then (nth_checked parts 1) (\<lambda>part.
                let s = (if part = ''BUNDLE'' then s\<lparr>isBundle := True\<rparr> else s)
                in Inr (if 3 \<le> length parts
                        then s\<lparr>bundleTags := bundleTags s @
                               map (\<lambda>p. \<lparr>tag_id = p, tag_mediaType = OTHER\<rparr>) (drop 2 parts)\<rparr>
                        else s))
      else Inr s)"

text \<open>The media lines move the parser on: \<open>ps_mtype\<close> is the section, \<open>ps_mlineNum\<close> its number.\<close>

record sdp_parser =
  ps_sdp :: SdpInfo
  ps_mtype :: mediaType
  ps_mlineNum :: int

definition line_media :: "string \<Rightarrow> sdp_parser \<Rightarrow> sdp_parser" where
  "line_media line p =
     (let p = (if found_in ''m=video'' line
               then \<lparr>ps_sdp = (ps_sdp p)\<lparr>videoSdpMLine := ps_mlineNum p + 1, hasVideo := True\<rparr>,
                     ps_mtype = VIDEO_TYPE, ps_mlineNum = ps_mlineNum p + 1\<rparr>
               else p)
      in if found_in ''m=audio'' line
         then \<lparr>ps_sdp = (ps_sdp p)\<lparr>audioSdpMLine := ps_mlineNum p + 1, hasAudio := True\<rparr>,
               ps_mtype = AUDIO_TYPE, ps_mlineNum = ps_mlineNum p + 1\<rparr>
         else p)"

definition line_candidate :: "raw_memory \<Rightarrow> mediaType \<Rightarrow> string \<Rightarrow> SdpInfo \<Rightarrow> SdpInfo checked" where
  "line_candidate m mtype line s =
     (if found_in ''a=candidate:'' line
      then and_then (processCandidate m (splitOneOf line '' :'' 0) mtype line s) (\<lambda>(_, s). Inr s)
      else Inr s)"

definition line_crypto :: "mediaType \<Rightarrow> string \<Rightarrow> SdpInfo \<Rightarrow> SdpInfo checked" where
  "line_crypto mtype line s =
     (if found_in ''a=crypto:'' line
      then let cryptopiece = splitOneOf line '' :'' 0
           in and_then (nth_checked cryptopiece 2) (\<lambda>suite.
              and_then (nth_checked cryptopiece 4) (\<lambda>k.
                Inr (s\<lparr>cryptoVector := cryptoVector s @
                       [\<lparr>crypto_tag = 0, cipherSuite = suite, keyParams = k, crypto_mediaType = mtype\<rparr>]\<rparr>)))
      else Inr s)"

text \<open>The value of \<^verbatim>\<open>a=ice-ufrag:\<close> and \<^verbatim>\<open>a=ice-pwd:\<close>: after the first colon, before the line end.\<close>

definition ice_value :: "string \<Rightarrow> string checked" where
  "ice_value line =
     and_then (nth_checked (splitOneOf line '':'' 1) 1) (\<lambda>part.
       nth_checked (splitOneOf part [CHR 0x0D] 1) 0)"

definition line_user :: "mediaType \<Rightarrow> string \<Rightarrow> SdpInfo \<Rightarrow> SdpInfo checked" where
  "line_user mtype line s =
     (if found_in ''a=ice-ufrag'' line
      then and_then (ice_value line) (\<lambda>v.
             Inr (if mtype = AUDIO_TYPE then s\<lparr>iceAudioUsername := v\<rparr> else s\<lparr>iceVideoUsername := v\<rparr>))
      else Inr s)"

definition line_pass :: "mediaType \<Rightarrow> string \<Rightarrow> SdpInfo \<Rightarrow> SdpInfo checked" where
  "line_pass mtype line s =
     (if found_in ''a=ice-pwd'' line
      then and_then (ice_value line) (\<lambda>v.
             Inr (if mtype = AUDIO_TYPE then s\<lparr>iceAudioPassword := v\<rparr> else s\<lparr>iceVideoPassword := v\<rparr>))
      else Inr s)"

definition line_mid :: "mediaType \<Rightarrow> string \<Rightarrow> SdpInfo \<Rightarrow> SdpInfo checked" where
  "line_mid mtype line s =
     (if found_in ''a=mid'' line
      then let parts = splitOneOf line ('': '' @ [CHR 0x0D, CHR 0x0A]) 4
           in if 2 \<le> length parts \<and> isBundle s
              then and_then
                     (for_bytes (\<lambda>tag tags. tags @
                        [if tag_id tag = parts ! 1 then tag\<lparr>tag_mediaType := mtype\<rparr> else tag]) (bundleTags s) [])
                     (\<lambda>tags. Inr (s\<lparr>bundleTags := tags\<rparr>))
              else Inr s
      else Inr s)"

definition line_ssrc :: "mediaType \<Rightarrow> string \<Rightarrow> SdpInfo \<Rightarrow> SdpInfo checked" where
  "line_ssrc mtype line s =
     (if found_in ''a=ssrc:'' line
      then let parts = splitOneOf line '' :'' 2
           in if mtype = VIDEO_TYPE
              then and_then (nth_checked parts 1) (\<lambda>part. Inr (maybeAddSsrcToList (to_uint part) s))
              else if mtype = AUDIO_TYPE \<and> audio_ssrc s = 0
              then and_then (nth_checked parts 1) (\<lambda>part. Inr (s\<lparr>audio_ssrc := to_uint part\<rparr>))
              else Inr s
      else Inr s)"

text \<open>A group line ends the treatment of the line (\<open>True\<close>) when it is of no use.\<close>

definition line_ssrc_group :: "mediaType \<Rightarrow> string \<Rightarrow> SdpInfo \<Rightarrow> bool \<times> SdpInfo" where
  "line_ssrc_group mtype line s =
     (if found_in ''a=ssrc-group'' line
      then if mtype \<noteq> VIDEO_TYPE then (True, s)
           else let parts = splitOneOf line '' :'' 10
                in if length parts < 4 then (True, s)
                   else if parts ! 1 = ''SIM''
                   then (False, fold (\<lambda>part. maybeAddSsrcToList (to_uint part)) (drop 2 parts) s)
                   else if parts ! 1 = ''FID''
                   then if length parts - 2 \<noteq> 2 then (True, s)
                        else (False, s\<lparr>video_rtx_ssrc_map :=
                               (video_rtx_ssrc_map s)(to_uint (parts ! 3) \<mapsto> to_uint (parts ! 2))\<rparr>)
                   else (False, s)
      else (False, s))"

text \<open>The entry of a payload type is changed when it is there and made when it is not.\<close>

definition with_parsed :: "raw_memory \<Rightarrow> u32 \<Rightarrow> (RtpMap \<Rightarrow> RtpMap) \<Rightarrow> SdpInfo \<Rightarrow> SdpInfo" where
  "with_parsed m pt f s =
     s\<lparr>payload_parsed_map :=
        (if map_of (payload_parsed_map s) pt \<noteq> None
         then map_assign pt f (payload_parsed_map s)
         else map_put pt (f ((new_RtpMap m)\<lparr>payload_type := pt\<rparr>)) (payload_parsed_map s))\<rparr>"

definition line_rtpmap :: "raw_memory \<Rightarrow> mediaType \<Rightarrow> string \<Rightarrow> SdpInfo \<Rightarrow> SdpInfo checked" where
  "line_rtpmap m mtype line s =
     (if found_in ''a=rtpmap:'' line
      then let parts = splitOneOf line ('' :/'' @ [CHR 0x0A]) 4
           in and_then (nth_checked parts 1) (\<lambda>p1.
              and_then (nth_checked parts 2) (\<lambda>codecname.
              and_then (nth_checked parts 3) (\<lambda>p3.
                Inr (with_parsed m (to_uint p1) (\<lambda>r. r\<lparr>payload_type := to_uint p1,
                       encoding_name := codecname, clock_rate := to_uint p3, media_type := mtype\<rparr>) s))))
      else Inr s)"

definition line_extmap :: "raw_memory \<Rightarrow> mediaType \<Rightarrow> string \<Rightarrow> SdpInfo \<Rightarrow> SdpInfo checked" where
  "line_extmap m mtype line s =
     (if found_in ''a=extmap:'' line
      then let parts = splitOneOf line '' :='' 3
           in if 3 \<le> length parts
              then and_then (nth_checked parts 3) (\<lambda>uri.
                     Inr (s\<lparr>extMapVector := extMapVector s @ [new_ExtMap m (to_uint (parts ! 2)) (butlast uri) mtype]\<rparr>))
              else Inr s
      else Inr s)"

definition line_feedback :: "raw_memory \<Rightarrow> string \<Rightarrow> SdpInfo \<Rightarrow> SdpInfo checked" where
  "line_feedback m line s =
     (if found_in ''a=rtcp-fb:'' line
      then let parts = splitOneOf line '' :'' 2
           in and_then (nth_checked parts 1) (\<lambda>p1.
              and_then (nth_checked parts 2) (\<lambda>p2.
              and_then (pop_back p2) (\<lambda>feedback.
                Inr (with_parsed m (to_uint p1) (\<lambda>r. r\<lparr>feedback_types := feedback_types r @ [feedback]\<rparr>) s))))
      else Inr s)"

text \<open>\<open>None\<close>: the line is left at once.\<close>

definition line_fmtp :: "raw_memory \<Rightarrow> string \<Rightarrow> SdpInfo \<Rightarrow> SdpInfo option checked" where
  "line_fmtp m line s =
     (if found_in ''a=fmtp:'' line
      then let parts = splitOneOf line '' :='' 4
           in if length parts < 4 then Inr None
              else let (option, val) = (if length parts = 4 then (''none'', c_str (parts ! 3))
                                        else (c_str (parts ! 3), c_str (parts ! 4)))
                   in and_then (pop_back val) (\<lambda>val.
                        Inr (Some (with_parsed m (to_uint (parts ! 2))
                          (\<lambda>r. r\<lparr>format_parameters := map_put option val (format_parameters r)\<rparr>) s)))
      else Inr (Some s))"

definition line_bandwidth :: "mediaType \<Rightarrow> string \<Rightarrow> SdpInfo \<Rightarrow> SdpInfo" where
  "line_bandwidth mtype line s =
     (if found_in ''b=AS:'' line \<and> mtype = VIDEO_TYPE
      then let parts = splitOneOf line '':'' 2
           in if 2 \<le> length parts then s\<lparr>videoBandwidth := to_uint (parts ! 1)\<rparr> else s
      else s)"

text \<open>The line, in three runs of \<^verbatim>\<open>if\<close>s: up to the media lines, up to the groups of sources, the payloads.\<close>

definition line_session :: "string \<Rightarrow> sdp_parser \<Rightarrow> sdp_parser checked" where
  "line_session line p =
     (let s = line_profile line (line_direction (ps_mtype p) line (line_rtcpmux line (ps_sdp p)))
      in and_then (line_fingerprint line s) (\<lambda>s.
         and_then (line_setup line s) (\<lambda>s.
         and_then (line_group line s) (\<lambda>s.
           Inr (line_media line (p\<lparr>ps_sdp := s\<rparr>))))))"

definition line_transport :: "raw_memory \<Rightarrow> mediaType \<Rightarrow> string \<Rightarrow> SdpInfo \<Rightarrow> SdpInfo checked" where
  "line_transport m mtype line s =
     and_then (line_candidate m mtype line s) (\<lambda>s.
     and_then (line_crypto mtype line s) (\<lambda>s.
     and_then (line_user mtype line s) (\<lambda>s.
     and_then (line_pass mtype line s) (\<lambda>s.
     and_then (line_mid mtype line s) (\<lambda>s.
       line_ssrc mtype line s)))))"

definition line_payload :: "raw_memory \<Rightarrow> mediaType \<Rightarrow> string \<Rightarrow> SdpInfo \<Rightarrow> SdpInfo checked" where
  "line_payload m mtype line s =
     and_then (line_rtpmap m mtype line s) (\<lambda>s.
     and_then (line_extmap m mtype line s) (\<lambda>s.
     and_then (line_feedback m line s) (\<lambda>s.
     and_then (line_fmtp m line s) (\<lambda>r.
       Inr (case r of None \<Rightarrow> s | Some s \<Rightarrow> line_bandwidth mtype line s)))))"

definition process_line :: "raw_memory \<Rightarrow> string \<Rightarrow> sdp_parser \<Rightarrow> sdp_parser checked" where
  "process_line m line p =
     and_then (line_session line p) (\<lambda>p.
     and_then (line_transport m (ps_mtype p) line (ps_sdp p)) (\<lambda>s.
       case line_ssrc_group (ps_mtype p) line s of (finished, s) \<Rightarrow>
         if finished then Inr (p\<lparr>ps_sdp := s\<rparr>)
         else and_then (line_payload m (ps_mtype p) line s) (\<lambda>s. Inr (p\<lparr>ps_sdp := s\<rparr>))))"

fun fold_checked :: "('a \<Rightarrow> 'b \<Rightarrow> 'b checked) \<Rightarrow> 'a list \<Rightarrow> 'b \<Rightarrow> 'b checked" where
  "fold_checked f [] s = Inr s"
| "fold_checked f (x # xs) s = and_then (f x s) (fold_checked f xs)"

definition process_lines :: "raw_memory \<Rightarrow> string \<Rightarrow> string \<Rightarrow> SdpInfo \<Rightarrow> sdp_parser checked" where
  "process_lines m sdp media s =
     fold_checked (process_line m) (lines_of sdp)
       \<lparr>ps_sdp = s, ps_mtype = (if media = ''audio'' then AUDIO_TYPE else if media = ''video'' then VIDEO_TYPE else OTHER),
        ps_mlineNum = -1\<rparr>"

text \<open>A memory, for the examples.\<close>

definition sample_raw :: raw_memory where
  "sample_raw =
     \<lparr>raw_RtpMap = \<lparr>payload_type = 7, encoding_name = [], clock_rate = 7, media_type = OTHER, channels = 9,
        feedback_types = [], format_parameters = []\<rparr>,
      raw_CandidateInfo = \<lparr>ci_isBundle = False, ci_tag = 0, ci_priority = 0, componentId = 0, foundation = [],
        hostAddress = [], rAddress = [], hostPort = 0, rPort = 0, netProtocol = [], hostType = HOST,
        transProtocol = [], ci_username = [], ci_password = [], ci_mediaType = OTHER, ci_sdp = []\<rparr>,
      raw_direction = SENDRECV\<rparr>"

end
