(* ===== verification/RtpExtensionProcessor.thy ===== *)
theory RtpExtensionProcessor
  imports SdpParser RtpHeader Media
begin

text \<open>
  \<^verbatim>\<open>rtp/RtpExtensionProcessor.cpp\<close>: the tables from the extension numbers of a description to their
  meaning, and the walk over the one-byte extensions of a packet (RFC 5285), which puts the time of
  sending into them. The tables are arrays of ten places, the data of a packet are 1500 bytes: what
  lies beyond is \<open>Out_of_bounds\<close>. The time is a number of nanoseconds; doubles are rationals.
\<close>

datatype RTPExtensions =
  UNKNOWN | SSRC_AUDIO_LEVEL | ABS_SEND_TIME | TOFFSET | VIDEO_ORIENTATION | TRANSPORT_CC | PLAYBACK_TIME | RTP_ID

definition translationMap :: "(string \<times> RTPExtensions) list" where
  "translationMap =
     [(''urn:ietf:params:rtp-hdrext:ssrc-audio-level'', SSRC_AUDIO_LEVEL),
      (''http://www.webrtc.org/experiments/rtp-hdrext/abs-send-time'', ABS_SEND_TIME),
      (''urn:ietf:params:rtp-hdrext:toffset'', TOFFSET),
      (''urn:3gpp:video-orientation'', VIDEO_ORIENTATION),
      (''http://www.ietf.org/id/draft-holmer-rmcat-transport-wide-cc-extensions-01'', TRANSPORT_CC),
      (''http://www.webrtc.org/experiments/rtp-hdrext/playout-delay'', PLAYBACK_TIME),
      (''urn:ietf:params:rtp-hdrext:sdes:rtp-stream-id'', RTP_ID)]"

record extensionProcessor =
  ext_mappings :: "ExtMap list"
  ext_map_video :: "RTPExtensions list"
  ext_map_audio :: "RTPExtensions list"

definition new_RtpExtensionProcessor :: "ExtMap list \<Rightarrow> extensionProcessor" where
  "new_RtpExtensionProcessor mappings =
     \<lparr>ext_mappings = mappings, ext_map_video = replicate 10 UNKNOWN, ext_map_audio = replicate 10 UNKNOWN\<rparr>"

definition ep_isValidExtension :: "string \<Rightarrow> extensionProcessor \<Rightarrow> bool" where
  "ep_isValidExtension uri e \<longleftrightarrow>
     List.find (\<lambda>extension. uri = ext_uri extension) (ext_mappings e) \<noteq> None \<and> map_of translationMap uri \<noteq> None"

text \<open>Storing into an array of ten places.\<close>

definition put_extension :: "u32 \<Rightarrow> RTPExtensions \<Rightarrow> RTPExtensions list \<Rightarrow> RTPExtensions list checked" where
  "put_extension i x t = (if unat i < length t then Inr (t[unat i := x]) else Inl Out_of_bounds)"

definition add_extension :: "ExtMap \<Rightarrow> extensionProcessor \<Rightarrow> extensionProcessor checked" where
  "add_extension theMap e =
     (case ext_mediaType theMap of
        VIDEO_TYPE \<Rightarrow>
          (if ep_isValidExtension (ext_uri theMap) e
           then and_then (put_extension (ext_value theMap) (the (map_of translationMap (ext_uri theMap))) (ext_map_video e))
                  (\<lambda>t. Inr (e\<lparr>ext_map_video := t\<rparr>))
           else Inr e)
      | AUDIO_TYPE \<Rightarrow>
          (if ep_isValidExtension (ext_uri theMap) e
           then and_then (put_extension (ext_value theMap) (the (map_of translationMap (ext_uri theMap))) (ext_map_audio e))
                  (\<lambda>t. Inr (e\<lparr>ext_map_audio := t\<rparr>))
           else Inr e)
      | OTHER \<Rightarrow> Inr e)"

definition ep_setSdpInfo :: "SdpInfo \<Rightarrow> extensionProcessor \<Rightarrow> extensionProcessor checked" where
  "ep_setSdpInfo theInfo e = fold_checked add_extension (extMapVector theInfo) e"

subsection \<open>The extensions of a packet\<close>

text \<open>Six bits of seconds, eighteen of a fraction of a second.\<close>

definition absSendTime :: "int \<Rightarrow> u32" where
  "absSendTime now =
     (let now_sec = now div 1000000000; now_usec = now div 1000;
          now_usec_only = word_of_int (now_usec - now_sec * 1000000) :: u32;
          seconds = word_of_int now_sec AND 0x3F :: u8
      in push_bit 18 (ucast seconds) + word_of_int (uint now_usec_only * (2 ^ 18 - 1) div 1000000))"

definition data_size :: nat where
  "data_size = 1500"

definition processAbsSendTime :: "int \<Rightarrow> nat \<Rightarrow> mem \<Rightarrow> mem checked" where
  "processAbsSendTime now buf m =
     (if buf + 4 \<le> data_size then Inr (setAbsSendTime buf (absSendTime now) m) else Inl Out_of_bounds)"

definition extension_step :: "RTPExtensions list \<Rightarrow> int \<Rightarrow> nat \<Rightarrow> u8 \<Rightarrow> mem \<Rightarrow> mem checked" where
  "extension_step extMap now buf extId m =
     (if extId = 0 then Inr m
      else and_then (nth_checked extMap (unat extId)) (\<lambda>x.
             if x = ABS_SEND_TIME then processAbsSendTime now buf m else Inr m))"

function extension_loop ::
    "RTPExtensions list \<Rightarrow> int \<Rightarrow> int \<Rightarrow> nat \<Rightarrow> u16 \<Rightarrow> mem \<Rightarrow> mem checked" where
  "extension_loop extMap now extBytes extBuffer currentPlace m =
     (if uint currentPlace < extBytes
      then if data_size \<le> extBuffer then Inl Out_of_bounds
           else
             let extByte = m extBuffer; extId = drop_bit 4 extByte; extLength = extByte AND 0x0F
             in (case extension_step extMap now extBuffer extId m of
                   Inl e \<Rightarrow> Inl e
                 | Inr m \<Rightarrow> extension_loop extMap now extBytes (extBuffer + unat extLength + 2)
                              (currentPlace + ucast extLength + 2) m)
      else Inr m)"
  by pat_completeness auto
termination by (relation "measure (\<lambda>(_, _, _, p, _, _). data_size - p)") auto

declare extension_loop.simps [simp del]

definition processRtpExtensions :: "int \<Rightarrow> extensionProcessor \<Rightarrow> dataPacket \<Rightarrow> (u32 \<times> dataPacket) checked" where
  "processRtpExtensions now e p =
     (let m = data p; len = word_of_int (packet_length p)
      in if getExtension m = 0 then Inr (len, p)
         else case (case packet_type p of
                      VIDEO_PACKET \<Rightarrow> Some (ext_map_video e) | AUDIO_PACKET \<Rightarrow> Some (ext_map_audio e)
                    | OTHER_PACKET \<Rightarrow> None) of
             None \<Rightarrow> Inr (0, p)
           | Some extMap \<Rightarrow>
               if getExtId m = 0xBEDE
               then and_then (extension_loop extMap now (uint (getExtLength m) * 4) 16 1 m)
                      (\<lambda>m. Inr (len, p\<lparr>data := m\<rparr>))
               else Inr (len, p))"

subsection \<open>The tables\<close>

definition tables_sized :: "extensionProcessor \<Rightarrow> bool" where
  "tables_sized e \<longleftrightarrow> length (ext_map_video e) = 10 \<and> length (ext_map_audio e) = 10"

lemma add_extension_sized: "tables_sized e \<Longrightarrow> add_extension x e = Inr f \<Longrightarrow> tables_sized f"
  by (auto simp: add_extension_def put_extension_def tables_sized_def split: mediaType.splits if_splits)

lemma new_sized: "tables_sized (new_RtpExtensionProcessor mappings)"
  by (simp add: tables_sized_def new_RtpExtensionProcessor_def)

lemma add_extension_mappings: "add_extension x e = Inr f \<Longrightarrow> ext_mappings f = ext_mappings e"
  by (auto simp: add_extension_def put_extension_def split: mediaType.splits if_splits)

lemma setSdpInfo_sized:
  assumes "ep_setSdpInfo info e = Inr f" "tables_sized e"
  shows "tables_sized f \<and> ext_mappings f = ext_mappings e"
proof -
  have "fold_checked add_extension xs e = Inr f \<Longrightarrow> tables_sized e \<Longrightarrow> tables_sized f \<and> ext_mappings f = ext_mappings e" for xs
  proof (induction xs arbitrary: e)
    case (Cons x xs)
    then obtain g where "add_extension x e = Inr g" "fold_checked add_extension xs g = Inr f" by auto
    then show ?case using Cons add_extension_sized add_extension_mappings by metis
  qed simp
  then show ?thesis using assms unfolding ep_setSdpInfo_def by blast
qed

text \<open>A description with a valid extension numbered ten or more is written beyond the table.\<close>

lemma high_extension_number_overruns:
  assumes "tables_sized e" "ext_mediaType x = VIDEO_TYPE" "ep_isValidExtension (ext_uri x) e" "10 \<le> unat (ext_value x)"
  shows "add_extension x e = Inl Out_of_bounds"
  using assms by (simp add: add_extension_def put_extension_def tables_sized_def)

subsection \<open>The walk\<close>

text \<open>A block of extensions: number, and one to sixteen bytes.\<close>

fun elements_at :: "mem \<Rightarrow> nat \<Rightarrow> (nat \<times> u8 list) list \<Rightarrow> bool" where
  "elements_at m p [] = True"
| "elements_at m p ((i, bs) # es) \<longleftrightarrow> m p = of_nat (16 * i + (length bs - 1))
     \<and> (\<forall>k < length bs. m (p + 1 + k) = bs ! k) \<and> elements_at m (p + 1 + length bs) es"

definition block_size :: "(nat \<times> u8 list) list \<Rightarrow> nat" where
  "block_size es = sum_list (map (\<lambda>(i, bs). 1 + length bs) es)"

definition element_ok :: "RTPExtensions list \<Rightarrow> nat \<times> u8 list \<Rightarrow> bool" where
  "element_ok extMap e \<longleftrightarrow> (case e of (i, bs) \<Rightarrow> 0 < i \<and> i < 10 \<and> 0 < length bs \<and> length bs \<le> 16
     \<and> (extMap ! i = ABS_SEND_TIME \<longrightarrow> length bs = 3))"

definition stamped :: "RTPExtensions list \<Rightarrow> u32 \<Rightarrow> nat \<times> u8 list \<Rightarrow> nat \<times> u8 list" where
  "stamped extMap t e = (case e of (i, bs) \<Rightarrow>
     if extMap ! i = ABS_SEND_TIME then (i, [byteN t 2, byteN t 1, byteN t 0]) else (i, bs))"

lemma elements_at_cong:
  "(\<And>i. p \<le> i \<Longrightarrow> i < p + block_size es \<Longrightarrow> m i = m' i) \<Longrightarrow> elements_at m p es = elements_at m' p es"
proof (induction es arbitrary: p)
  case (Cons e es)
  obtain i bs where e: "e = (i, bs)" by (cases e)
  have "elements_at m (p + 1 + length bs) es = elements_at m' (p + 1 + length bs) es"
    by (rule Cons.IH) (use Cons.prems e in \<open>simp add: block_size_def\<close>)
  moreover have "m (p + 1 + k) = m' (p + 1 + k)" if "k < length bs" for k
    using that Cons.prems e by (simp add: block_size_def)
  moreover have "m p = m' p" using Cons.prems e by (simp add: block_size_def)
  ultimately show ?case using e by auto
qed simp

lemma first_byte:
  assumes "0 < i" "i < 10" "0 < n" "n \<le> 16"
  shows "drop_bit 4 (of_nat (16 * i + (n - 1)) :: u8) = of_nat i"
    "(of_nat (16 * i + (n - 1)) :: u8) AND 0x0F = of_nat (n - 1)"
proof -
  have i: "i \<in> {1..<10}" and n: "n - 1 < 16" using assms by auto
  have "16 * i + (n - 1) < 2 ^ LENGTH(8)" using assms by simp
  then have u: "unat (of_nat (16 * i + (n - 1)) :: u8) = 16 * i + (n - 1)" by (simp only: unat_of_nat mod_less)
  have "unat (drop_bit 4 (of_nat (16 * i + (n - 1)) :: u8)) = i" unfolding unat_drop_bit u using n by simp
  then show "drop_bit 4 (of_nat (16 * i + (n - 1)) :: u8) = of_nat i" by (metis eq_of_nat_unat)
  have "(of_nat (16 * i + (n - 1)) :: u8) AND 0x0F = take_bit 4 (of_nat (16 * i + (n - 1)))"
    by (simp add: take_bit_eq_mask mask_eq_exp_minus_1)
  moreover have "unat (take_bit 4 (of_nat (16 * i + (n - 1)) :: u8)) = n - 1" unfolding unat_take_bit u using n by simp
  ultimately show "(of_nat (16 * i + (n - 1)) :: u8) AND 0x0F = of_nat (n - 1)" by (metis eq_of_nat_unat)
qed

lemma setAbsSendTime_bytes:
  "setAbsSendTime p t m = m(p + 1 := byteN t 2, p + 2 := byteN t 1, p + 3 := byteN t 0)"
  by (simp add: setAbsSendTime_def store24_def htonl_def) (simp add: numeral_3_eq_3)

lemma extension_step_element:
  assumes e: "elements_at m p [(i, bs)]" and ok: "element_ok extMap (i, bs)" and l: "length extMap = 10"
    and fits: "p + 1 + length bs \<le> data_size"
  shows "\<exists>m'. extension_step extMap now p (of_nat i) m = Inr m'
    \<and> elements_at m' p [stamped extMap (absSendTime now) (i, bs)]
    \<and> (\<forall>j. j < p \<or> p + 1 + length bs \<le> j \<longrightarrow> m' j = m j)"
proof (cases "extMap ! i = ABS_SEND_TIME")
  case False
  have "unat (of_nat i :: u8) = i" "(of_nat i :: u8) \<noteq> 0"
    using ok by (auto simp: element_ok_def unat_of_nat word_unat_eq_iff)
  then have "extension_step extMap now p (of_nat i) m = Inr m"
    using False l ok by (simp add: extension_step_def nth_checked_def element_ok_def)
  then show ?thesis using e False by (auto simp: stamped_def)
next
  case True
  let ?t = "absSendTime now"
  have n: "length bs = 3" using ok True by (simp add: element_ok_def)
  have "unat (of_nat i :: u8) = i" "(of_nat i :: u8) \<noteq> 0"
    using ok by (auto simp: element_ok_def unat_of_nat word_unat_eq_iff)
  then have "extension_step extMap now p (of_nat i) m = Inr (setAbsSendTime p ?t m)"
    using True l ok fits n by (simp add: extension_step_def nth_checked_def element_ok_def processAbsSendTime_def)
  moreover have "elements_at (setAbsSendTime p ?t m) p [stamped extMap ?t (i, bs)]"
  proof -
    have "(setAbsSendTime p ?t m) (p + 1 + k) = [byteN ?t 2, byteN ?t 1, byteN ?t 0] ! k" if "k < 3" for k
    proof -
      have "k = 0 \<or> k = 1 \<or> k = 2" using that by auto
      then show ?thesis by (auto simp: setAbsSendTime_bytes numeral_3_eq_3 numeral_2_eq_2)
    qed
    then show ?thesis using e True n by (simp add: stamped_def setAbsSendTime_bytes)
  qed
  ultimately show ?thesis using n by (auto simp: setAbsSendTime_bytes)
qed

lemma extension_loop_walk:
  assumes "elements_at m p es" "\<forall>e \<in> set es. element_ok extMap e" "length extMap = 10"
    and "p + block_size es \<le> data_size" "int p + int (block_size es) = 16 + extBytes" "15 < p" "uint place = int p - 15"
  shows "\<exists>m'. extension_loop extMap now extBytes p place m = Inr m'
    \<and> elements_at m' p (map (stamped extMap (absSendTime now)) es)
    \<and> (\<forall>j. j < p \<or> p + block_size es \<le> j \<longrightarrow> m' j = m j)"
  using assms
proof (induction es arbitrary: m p place)
  case Nil
  then show ?case by (subst extension_loop.simps) (simp add: block_size_def)
next
  case (Cons e es)
  obtain i bs where e: "e = (i, bs)" by (cases e)
  let ?n = "length bs" and ?t = "absSendTime now"
  have ok: "element_ok extMap (i, bs)" using Cons.prems(2) e by simp
  then have i: "0 < i" "i < 10" "0 < ?n" "?n \<le> 16" by (simp_all add: element_ok_def)
  have size: "block_size (e # es) = 1 + ?n + block_size es" using e by (simp add: block_size_def)
  have at: "elements_at m p [(i, bs)]" "elements_at m (p + 1 + ?n) es" using Cons.prems(1) e by simp_all
  have fits: "p + 1 + ?n \<le> data_size" using Cons.prems(4) size by simp
  obtain m1 where s: "extension_step extMap now p (of_nat i) m = Inr m1"
    and m1: "elements_at m1 p [stamped extMap ?t (i, bs)]"
    and k1: "\<forall>j. j < p \<or> p + 1 + ?n \<le> j \<longrightarrow> m1 j = m j"
    using extension_step_element [OF at(1) ok Cons.prems(3) fits] by blast
  have b: "drop_bit 4 (m p) = of_nat i" "m p AND 0x0F = of_nat (?n - 1)"
    using at(1) first_byte [OF i] by simp_all
  have u: "unat (of_nat (?n - 1) :: u8) = ?n - 1" using i by (simp add: unat_of_nat)
  let ?place = "place + ucast (of_nat (?n - 1) :: u8) + 2"
  have place: "uint ?place = int (p + 1 + ?n) - 15"
  proof -
    have "unat (ucast (of_nat (?n - 1) :: u8) :: u16) = ?n - 1" using u i by (simp only: unat_ucast_mod) simp
    then have c: "uint (ucast (of_nat (?n - 1) :: u8) :: u16) = int (?n - 1)" by (simp only: uint_nat)
    have "uint ?place = (uint place + int (?n - 1) + 2) mod 65536"
      by (simp add: uint_word_ariths c [simplified] mod_simps)
    moreover have "uint place + int (?n - 1) + 2 = int (p + 1 + ?n) - 15"
      using Cons.prems(7) i(3) by (cases bs) simp_all
    moreover have "int (p + 1 + ?n) - 15 < 65536" "0 \<le> int (p + 1 + ?n) - 15"
      using fits Cons.prems(6) by (simp_all add: data_size_def)
    ultimately show ?thesis by simp
  qed
  have at1: "elements_at m1 (p + 1 + ?n) es"
    using at(2) k1 elements_at_cong [of "p + 1 + ?n" es m m1] by simp
  obtain m' where l: "extension_loop extMap now extBytes (p + 1 + ?n) ?place m1 = Inr m'"
    and m': "elements_at m' (p + 1 + ?n) (map (stamped extMap ?t) es)"
    and k: "\<forall>j. j < p + 1 + ?n \<or> p + 1 + ?n + block_size es \<le> j \<longrightarrow> m' j = m1 j"
    using Cons.IH [OF at1 _ Cons.prems(3) _ _ _ place] Cons.prems size by auto
  have "extension_loop extMap now extBytes p place m = Inr m'"
  proof -
    have p: "uint place < extBytes" "\<not> data_size \<le> p" using Cons.prems(5,7) fits size i(3) by linarith+
    have q: "p + unat (of_nat (?n - 1) :: u8) + 2 = p + 1 + ?n" unfolding u using i(3) by linarith
    have "extension_loop extMap now extBytes p place m =
        extension_loop extMap now extBytes (p + unat (of_nat (?n - 1) :: u8) + 2) ?place m1"
      by (subst extension_loop.simps) (simp only: Let_def b s p if_True if_False sum.case)
    then show ?thesis unfolding q using l by simp
  qed
  moreover have "elements_at m' p [stamped extMap ?t (i, bs)]"
  proof -
    have "block_size [stamped extMap ?t (i, bs)] = 1 + ?n"
      using ok by (auto simp: block_size_def stamped_def element_ok_def)
    then show ?thesis using m1 k elements_at_cong [of p "[stamped extMap ?t (i, bs)]" m1 m'] by simp
  qed
  moreover have "snd (stamped extMap ?t (i, bs)) = snd (stamped extMap ?t (i, bs)) \<and>
      length (snd (stamped extMap ?t (i, bs))) = ?n"
    using ok by (auto simp: stamped_def element_ok_def)
  ultimately show ?case using m' k k1 e size by (cases "stamped extMap ?t (i, bs)") auto
qed

text \<open>The time of sending by its format: six bits of seconds and a fraction of 18 bits, rounded down.\<close>

definition time_code :: "int \<Rightarrow> u32" where
  "time_code now = word_of_int (now div 1000000000 mod 64 * 2 ^ 18 + now div 1000 mod 1000000 * (2 ^ 18 - 1) div 1000000)"

lemma absSendTime_code: "absSendTime now = time_code now"
proof -
  have d: "now div 1000000000 = now div 1000 div 1000000" by (simp flip: zdiv_zmult2_eq)
  have u: "now div 1000 - now div 1000000000 * 1000000 = now div 1000 mod 1000000"
    unfolding d by (simp add: minus_div_mult_eq_mod)
  have "0 \<le> now div 1000 mod 1000000" "now div 1000 mod 1000000 < 1000000" by simp_all
  then have "uint (word_of_int (now div 1000 mod 1000000) :: u32) = now div 1000 mod 1000000"
    by (simp add: uint_word_of_int)
  moreover have "push_bit 18 (ucast (word_of_int (now div 1000000000) AND 0x3F :: u8) :: u32)
      = word_of_int (now div 1000000000 mod 64 * 2 ^ 18)"
  proof -
    let ?s = "now div 1000000000"
    have "uint (word_of_int ?s AND 0x3F :: u8) = take_bit 6 (uint (word_of_int ?s :: u8))"
      by (simp add: uint_and take_bit_eq_mask mask_eq_exp_minus_1)
    also have "\<dots> = ?s mod 64"
      by (simp add: uint_word_of_int take_bit_eq_mod mod_mod_cancel)
    finally have s: "uint (word_of_int ?s AND 0x3F :: u8) = ?s mod 64" .
    have "(ucast (word_of_int ?s AND 0x3F :: u8) :: u32) = word_of_int (uint (word_of_int ?s AND 0x3F :: u8))"
      by (simp only: unsigned_def nat_uint_eq o_def of_nat_nat uint_ge_0) simp
    then show ?thesis unfolding s by (simp add: push_bit_eq_mult mult.commute)
  qed
  ultimately show ?thesis
    unfolding absSendTime_def time_code_def Let_def u by (simp only: of_int_add)
qed


definition sample_extension_packet :: "u8 list \<Rightarrow> dataPacket" where
  "sample_extension_packet bs =
     \<lparr>comp = 0, data = (\<lambda>i. if i < length bs then bs ! i else 0), packet_length = 100, packet_type = VIDEO_PACKET,
      received_time_ms = 0, compatible_spatial_layers = [], compatible_temporal_layers = [], is_keyframe = False,
      ending_of_layer_frame = False, picture_id = -1, codec = []\<rparr>"

definition sample_processor :: extensionProcessor where
  "sample_processor = (new_RtpExtensionProcessor [])\<lparr>ext_map_video := (replicate 10 UNKNOWN)[3 := ABS_SEND_TIME]\<rparr>"

definition sample_block :: "u8 list" where
  "sample_block = [0x90, 96, 0, 1, 0, 0, 0, 0, 0, 0, 0, 0, 0xBE, 0xDE, 0, 2, 0x32, 7, 7, 7, 0x52, 1, 2, 3]"

definition sample_audio_processor :: extensionProcessor where
  "sample_audio_processor = (new_RtpExtensionProcessor [])\<lparr>ext_map_audio := (replicate 10 UNKNOWN)[5 := ABS_SEND_TIME]\<rparr>"


text \<open>A padding byte, which is one byte long, is taken for an element of two bytes: the next element is missed.\<close>

lemma padding_hides_the_next_element:
  "(case processRtpExtensions 1500000000 sample_processor (sample_extension_packet
      [0x90, 96, 0, 1, 0, 0, 0, 0, 0, 0, 0, 0, 0xBE, 0xDE, 0, 2, 0, 0x32, 7, 7, 7, 0, 0, 0]) of
    Inr (_, q) \<Rightarrow> map (data q) [17, 18, 19, 20] = [0x32, 7, 7, 7] | Inl _ \<Rightarrow> False)"
  by code_simp

text \<open>An element numbered ten or more is looked up beyond the table.\<close>

lemma high_element_reads_beyond:
  "processRtpExtensions 0 sample_processor (sample_extension_packet
      [0x90, 96, 0, 1, 0, 0, 0, 0, 0, 0, 0, 0, 0xBE, 0xDE, 0, 1, 0xA2, 7, 7, 7]) = Inl Out_of_bounds"
proof -
  have "(case processRtpExtensions 0 sample_processor (sample_extension_packet
      [0x90, 96, 0, 1, 0, 0, 0, 0, 0, 0, 0, 0, 0xBE, 0xDE, 0, 1, 0xA2, 7, 7, 7]) of
    Inl e \<Rightarrow> e = Out_of_bounds | Inr _ \<Rightarrow> False)" by code_simp
  then show ?thesis by (simp split: sum.splits)
qed

end
