(* ===== verification/SdpNegotiation.thy ===== *)
theory SdpNegotiation
  imports SdpParser
begin

text \<open>
  The second half of \<^verbatim>\<open>SdpInfo::processSdp\<close>: after the lines are read, the credentials are completed
  and handed to the candidates, the codecs of the peer are matched with the codecs of the program,
  and the retransmission formats are paired with the codecs they repair.
\<close>

text \<open>\<open>None\<close>: \<^verbatim>\<open>processSdp\<close> returns false.\<close>

definition complete_credentials :: "SdpInfo \<Rightarrow> SdpInfo option" where
  "complete_credentials s =
     (if iceVideoUsername s = [] \<and> iceAudioUsername s = [] then None
      else if iceVideoUsername s = []
      then Some (s\<lparr>iceVideoUsername := iceAudioUsername s, iceVideoPassword := iceAudioPassword s\<rparr>)
      else if iceAudioUsername s = []
      then Some (s\<lparr>iceAudioUsername := iceVideoUsername s, iceAudioPassword := iceVideoPassword s\<rparr>)
      else Some s)"

definition give_credentials :: "SdpInfo \<Rightarrow> SdpInfo" where
  "give_credentials s =
     s\<lparr>candidateVector := map (\<lambda>c.
        if ci_mediaType c = VIDEO_TYPE
        then c\<lparr>ci_isBundle := isBundle s, ci_username := iceVideoUsername s, ci_password := iceVideoPassword s\<rparr>
        else c\<lparr>ci_isBundle := isBundle s, ci_username := iceAudioUsername s, ci_password := iceAudioPassword s\<rparr>)
        (candidateVector s)\<rparr>"

definition ensure_ssrc :: "SdpInfo \<Rightarrow> SdpInfo" where
  "ensure_ssrc s = (if video_ssrc_list s = [] then s\<lparr>video_ssrc_list := video_ssrc_list s @ [0]\<rparr> else s)"

text \<open>What both sides offer: feedback in the order of the program, parameters with equal values.\<close>

definition negotiated_feedback :: "string list \<Rightarrow> string list \<Rightarrow> string list" where
  "negotiated_feedback parsed internal =
     (if parsed \<noteq> [] \<and> internal \<noteq> []
      then concat (map (\<lambda>i. map (\<lambda>_. i) (filter (\<lambda>p. i = p) parsed)) internal) else [])"

definition negotiated_parameters :: "(string \<times> string) list \<Rightarrow> (string \<times> string) list \<Rightarrow> (string \<times> string) list" where
  "negotiated_parameters parsed internal =
     (if parsed \<noteq> [] \<and> internal \<noteq> []
      then fold (\<lambda>(k, v) m. case map_of parsed k of
               Some w \<Rightarrow> if w = v then map_put k w m else m
             | None \<Rightarrow> m) internal []
      else [])"

definition same_codec :: "RtpMap \<Rightarrow> RtpMap \<Rightarrow> bool" where
  "same_codec a b \<longleftrightarrow> encoding_name a = encoding_name b \<and> clock_rate a = clock_rate b"

definition count_payload :: "RtpMap \<Rightarrow> SdpInfo \<Rightarrow> SdpInfo" where
  "count_payload r s =
     (if media_type r = VIDEO_TYPE then s\<lparr>videoCodecs := videoCodecs s + 1\<rparr>
      else s\<lparr>audioCodecs := audioCodecs s + 1\<rparr>)"

definition add_negotiated :: "RtpMap \<Rightarrow> RtpMap \<Rightarrow> SdpInfo \<Rightarrow> SdpInfo" where
  "add_negotiated internal_map parsed_map s =
     (let s = s\<lparr>outInPTMap := (outInPTMap s)(payload_type parsed_map \<mapsto> payload_type internal_map),
                inOutPTMap := (inOutPTMap s)(payload_type internal_map \<mapsto> payload_type parsed_map)\<rparr>;
          negotiated_map = parsed_map\<lparr>channels := channels internal_map,
            feedback_types := negotiated_feedback (feedback_types parsed_map) (feedback_types internal_map),
            format_parameters := negotiated_parameters (format_parameters parsed_map) (format_parameters internal_map)\<rparr>;
          s = count_payload negotiated_map s
      in s\<lparr>payloadVector := payloadVector s @ [negotiated_map]\<rparr>)"

definition match_maps :: "RtpMap \<Rightarrow> RtpMap \<Rightarrow> SdpInfo \<times> RtpMap list \<Rightarrow> SdpInfo \<times> RtpMap list" where
  "match_maps internal_map parsed_map st =
     (case st of (s, rtx_maps) \<Rightarrow>
        if encoding_name internal_map \<noteq> encoding_name parsed_map \<or> clock_rate internal_map \<noteq> clock_rate parsed_map
        then (s, rtx_maps)
        else if encoding_name parsed_map = ''rtx'' then (s, rtx_maps @ [parsed_map])
        else (add_negotiated internal_map parsed_map s, rtx_maps))"

definition match_codecs :: "SdpInfo \<Rightarrow> SdpInfo \<times> RtpMap list" where
  "match_codecs s =
     fold (\<lambda>internal_map. fold (match_maps internal_map) (map snd (payload_parsed_map s)))
       (internalPayloadVector s) (s, [])"

text \<open>
  The second pass: the parameter \<^verbatim>\<open>apt\<close> names the payload type that is repaired. \<^verbatim>\<open>continue\<close> wants both
  sides to lack it; where one lacks it, the end of the map is read. Looking up
  \<^verbatim>\<open>outInPTMap[parsed_apt_pt]\<close> puts an entry there.
\<close>

definition match_rtx :: "RtpMap \<Rightarrow> RtpMap \<Rightarrow> SdpInfo \<Rightarrow> SdpInfo checked" where
  "match_rtx rtx_map internal_map s =
     (if encoding_name internal_map = ''rtx''
      then case (map_of (format_parameters rtx_map) ''apt'', map_of (format_parameters internal_map) ''apt'') of
          (None, None) \<Rightarrow> Inr s
        | (Some parsed_apt, Some internal_apt) \<Rightarrow>
            and_then (stoul internal_apt) (\<lambda>i. and_then (stoul parsed_apt) (\<lambda>p.
              let internal_apt_pt = ucast i; parsed_apt_pt = ucast p;
                  s = s\<lparr>outInPTMap := map_touch parsed_apt_pt (outInPTMap s)\<rparr>
              in Inr (if outInPTMap s parsed_apt_pt = Some internal_apt_pt
                      then let s = count_payload rtx_map s
                           in s\<lparr>outInPTMap := (outInPTMap s)(payload_type rtx_map \<mapsto> payload_type internal_map),
                                inOutPTMap := (inOutPTMap s)(payload_type internal_map \<mapsto> payload_type rtx_map),
                                payloadVector := payloadVector s @ [rtx_map]\<rparr>
                      else s)))
        | _ \<Rightarrow> Inl Out_of_bounds
      else Inr s)"

definition match_rtx_maps :: "RtpMap list \<Rightarrow> SdpInfo \<Rightarrow> SdpInfo checked" where
  "match_rtx_maps rtx_maps s =
     fold_checked (\<lambda>rtx_map. fold_checked (match_rtx rtx_map) (internalPayloadVector s)) rtx_maps s"

definition negotiate :: "SdpInfo \<Rightarrow> (bool \<times> SdpInfo) checked" where
  "negotiate s =
     (case complete_credentials s of
        None \<Rightarrow> Inr (False, s)
      | Some s \<Rightarrow>
          (case match_codecs (ensure_ssrc (give_credentials s)) of
             (s, rtx_maps) \<Rightarrow> and_then (match_rtx_maps rtx_maps s) (\<lambda>s. Inr (True, s))))"

definition processSdp :: "raw_memory \<Rightarrow> string \<Rightarrow> string \<Rightarrow> SdpInfo \<Rightarrow> (bool \<times> SdpInfo) checked" where
  "processSdp m sdp media s = and_then (process_lines m sdp media s) (\<lambda>p. negotiate (ps_sdp p))"

definition initWithSdp :: "raw_memory \<Rightarrow> string \<Rightarrow> string \<Rightarrow> SdpInfo \<Rightarrow> (bool \<times> SdpInfo) checked" where
  "initWithSdp m sdp media s = processSdp m sdp media s"


subsection \<open>What negotiation keeps\<close>

definition same_session :: "SdpInfo \<Rightarrow> SdpInfo \<Rightarrow> bool" where
  "same_session s t \<longleftrightarrow> candidateVector t = candidateVector s \<and> isBundle t = isBundle s
     \<and> iceVideoUsername t = iceVideoUsername s \<and> iceAudioUsername t = iceAudioUsername s
     \<and> iceVideoPassword t = iceVideoPassword s \<and> iceAudioPassword t = iceAudioPassword s
     \<and> internalPayloadVector t = internalPayloadVector s \<and> payload_parsed_map t = payload_parsed_map s
     \<and> video_ssrc_list t = video_ssrc_list s"

lemma same_session_refl [simp]: "same_session s s"
  by (simp add: same_session_def)

lemma same_session_trans [trans]: "same_session s t \<Longrightarrow> same_session t u \<Longrightarrow> same_session s u"
  by (simp add: same_session_def)

lemma count_payload_session [simp]: "same_session s (count_payload r s)"
  by (simp add: same_session_def count_payload_def)

lemma count_payload_maps [simp]:
  "outInPTMap (count_payload r s) = outInPTMap s" "inOutPTMap (count_payload r s) = inOutPTMap s"
  "payloadVector (count_payload r s) = payloadVector s"
  "internalPayloadVector (count_payload r s) = internalPayloadVector s"
  by (simp_all add: count_payload_def)

lemma add_negotiated_session: "same_session s (add_negotiated i p s)"
  by (simp add: add_negotiated_def same_session_def count_payload_def Let_def)

text \<open>An invariant of the state and the list of retransmission formats through the two nested loops.\<close>

lemma match_codecs_invariant:
  assumes start: "I (s, [])"
    and step: "\<And>i p st. i \<in> set (internalPayloadVector s) \<Longrightarrow> p \<in> snd ` set (payload_parsed_map s) \<Longrightarrow> I st
      \<Longrightarrow> I (match_maps i p st)"
  shows "I (match_codecs s)"
proof -
  have inner: "set ps \<subseteq> snd ` set (payload_parsed_map s) \<Longrightarrow> i \<in> set (internalPayloadVector s) \<Longrightarrow> I st
      \<Longrightarrow> I (fold (match_maps i) ps st)" for i ps st
  proof (induction ps arbitrary: st)
    case (Cons p ps)
    have "I (match_maps i p st)" using Cons.prems step [of i p st] by simp
    then show ?case using Cons by simp
  qed simp
  have "set js \<subseteq> set (internalPayloadVector s) \<Longrightarrow> I st \<Longrightarrow>
      I (fold (\<lambda>i. fold (match_maps i) (map snd (payload_parsed_map s))) js st)" for js st
  proof (induction js arbitrary: st)
    case (Cons j js)
    have "I (fold (match_maps j) (map snd (payload_parsed_map s)) st)" using Cons.prems by (intro inner) auto
    then show ?case using Cons by simp
  qed simp
  then show ?thesis unfolding match_codecs_def using start by blast
qed

lemma fold_checked_invariant:
  assumes "fold_checked f xs s = Inr t" "I s" "\<And>x u v. x \<in> set xs \<Longrightarrow> I u \<Longrightarrow> f x u = Inr v \<Longrightarrow> I v"
  shows "I t"
  using assms by (induction xs arbitrary: s) auto

lemma match_rtx_maps_invariant:
  assumes "match_rtx_maps rtx_maps s = Inr t" "I s"
    and "\<And>r i u v. r \<in> set rtx_maps \<Longrightarrow> i \<in> set (internalPayloadVector s) \<Longrightarrow> I u \<Longrightarrow> match_rtx r i u = Inr v \<Longrightarrow> I v"
  shows "I t"
  using assms(1) unfolding match_rtx_maps_def
proof (rule fold_checked_invariant)
  show "I s" by (rule assms(2))
next
  fix r u v
  assume r: "r \<in> set rtx_maps" and u: "I u" and e: "fold_checked (match_rtx r) (internalPayloadVector s) u = Inr v"
  show "I v" using e u by (rule fold_checked_invariant) (rule assms(3) [OF r])
qed

text \<open>A step of the second pass: the parameters name the same codec, or nothing but a lookup happens.\<close>

lemma match_rtx_cases:
  assumes "match_rtx r i s = Inr t"
  obtains (same) "t = s"
  | (looked) pt where "t = s\<lparr>outInPTMap := map_touch pt (outInPTMap s)\<rparr>"
  | (paired) pt where "encoding_name i = ''rtx''"
      "t = (count_payload r (s\<lparr>outInPTMap := map_touch pt (outInPTMap s)\<rparr>))
         \<lparr>outInPTMap := (map_touch pt (outInPTMap s))(payload_type r \<mapsto> payload_type i),
          inOutPTMap := (inOutPTMap s)(payload_type i \<mapsto> payload_type r),
          payloadVector := payloadVector s @ [r]\<rparr>"
proof (cases "encoding_name i = ''rtx''")
  case False
  then show ?thesis using assms that(1) by (simp add: match_rtx_def)
next
  case rtx: True
  show ?thesis
  proof (cases "map_of (format_parameters r) ''apt''")
    case None
    then have "t = s" using assms rtx by (simp add: match_rtx_def split: option.splits)
    then show ?thesis by (rule that(1))
  next
    case r: (Some x)
    then obtain y where i: "map_of (format_parameters i) ''apt'' = Some y"
      using assms rtx by (auto simp: match_rtx_def split: option.splits)
    obtain a b where "stoul y = Inr a" "stoul x = Inr b"
      using assms by (auto simp: match_rtx_def rtx r i)
    note e = assms [unfolded match_rtx_def Let_def r i option.case prod.case and_then_simps this]
    let ?s = "s\<lparr>outInPTMap := map_touch (ucast b) (outInPTMap s)\<rparr>"
    show ?thesis
    proof (cases "outInPTMap ?s (ucast b) = Some (ucast a)")
      case True
      then show ?thesis using e rtx by (intro that(3) [of "ucast b"]) simp_all
    next
      case False
      then show ?thesis using e rtx by (intro that(2) [of "ucast b"]) simp
    qed
  qed
qed

lemma match_rtx_session:
  assumes "match_rtx r i s = Inr t"
  shows "same_session s t"
  using assms by (rule match_rtx_cases) (simp_all add: same_session_def count_payload_def)

lemma match_rtx_maps_session:
  assumes "match_rtx_maps rtx_maps s = Inr t"
  shows "same_session s t"
  using assms by (rule match_rtx_maps_invariant) (auto intro: same_session_trans match_rtx_session)

lemma match_codecs_session: "same_session s (fst (match_codecs s))"
  by (rule match_codecs_invariant [where I = "\<lambda>st. same_session s (fst st)"])
    (auto simp: match_maps_def intro: same_session_trans add_negotiated_session split: prod.splits)

text \<open>
  C0: A description is accepted only with credentials for both media, and then every candidate of it
  carries the credentials of its medium, those of audio unless it is a video candidate, and whether
  the media are bundled. It is refused exactly when it has no user name at all.
\<close>

lemma negotiate_accepted:
  assumes "negotiate s = Inr (accepted, t)"
  shows "\<not> accepted \<and> complete_credentials s = None \<and> t = s \<or>
    accepted \<and> (\<exists>u. complete_credentials s = Some u \<and> same_session (ensure_ssrc (give_credentials u)) t)"
proof (cases "complete_credentials s")
  case None
  then show ?thesis using assms by (simp add: negotiate_def)
next
  case (Some u)
  obtain v rtx_maps where v: "match_codecs (ensure_ssrc (give_credentials u)) = (v, rtx_maps)" by (metis surj_pair)
  then have "same_session (ensure_ssrc (give_credentials u)) v" by (metis fst_conv match_codecs_session)
  moreover have "accepted \<and> match_rtx_maps rtx_maps v = Inr t" using assms Some v by (auto simp: negotiate_def)
  ultimately show ?thesis using Some same_session_trans match_rtx_maps_session by blast
qed

lemma complete_credentials_none:
  "complete_credentials s = None \<longleftrightarrow> iceVideoUsername s = [] \<and> iceAudioUsername s = []"
  by (simp add: complete_credentials_def)

lemma complete_credentials_some:
  "complete_credentials s = Some u \<Longrightarrow> iceVideoUsername u \<noteq> [] \<and> iceAudioUsername u \<noteq> []"
  by (auto simp: complete_credentials_def split: if_splits)

lemma prepared_session [simp]:
  "iceVideoUsername (ensure_ssrc (give_credentials u)) = iceVideoUsername u"
  "iceAudioUsername (ensure_ssrc (give_credentials u)) = iceAudioUsername u"
  "iceVideoPassword (ensure_ssrc (give_credentials u)) = iceVideoPassword u"
  "iceAudioPassword (ensure_ssrc (give_credentials u)) = iceAudioPassword u"
  "isBundle (ensure_ssrc (give_credentials u)) = isBundle u"
  "candidateVector (ensure_ssrc (give_credentials u)) = candidateVector (give_credentials u)"
  "payload_parsed_map (ensure_ssrc (give_credentials u)) = payload_parsed_map u"
  "internalPayloadVector (ensure_ssrc (give_credentials u)) = internalPayloadVector u"
  "outInPTMap (ensure_ssrc (give_credentials u)) = outInPTMap u"
  "inOutPTMap (ensure_ssrc (give_credentials u)) = inOutPTMap u"
  "payloadVector (ensure_ssrc (give_credentials u)) = payloadVector u"
  by (simp_all add: ensure_ssrc_def give_credentials_def)

end
