(* ===== verification/SdpCodecs.thy ===== *)
theory SdpCodecs
  imports SdpNegotiation
begin

text \<open>
  The codecs of a description that has been parsed: what the tables of payload types say once
  \<open>processSdp\<close> has returned.
\<close>

subsection \<open>What the lines leave\<close>

text \<open>Every payload type is parsed into the entry of its own number.\<close>

definition parsed_ok :: "(u32 \<times> RtpMap) list \<Rightarrow> bool" where
  "parsed_ok m \<longleftrightarrow> map_ok m \<and> (\<forall>(k, r) \<in> set m. payload_type r = k)"

definition parse_keeps :: "SdpInfo \<Rightarrow> SdpInfo \<Rightarrow> bool" where
  "parse_keeps s t \<longleftrightarrow> internalPayloadVector t = internalPayloadVector s \<and> payloadVector t = payloadVector s
     \<and> inOutPTMap t = inOutPTMap s \<and> outInPTMap t = outInPTMap s
     \<and> (parsed_ok (payload_parsed_map s) \<longrightarrow> parsed_ok (payload_parsed_map t))
     \<and> (distinct (video_ssrc_list s) \<longrightarrow> distinct (video_ssrc_list t))"

lemma parse_keeps_refl [simp]: "parse_keeps s s"
  by (simp add: parse_keeps_def)

lemma parse_keeps_trans [trans]: "parse_keeps s t \<Longrightarrow> parse_keeps t u \<Longrightarrow> parse_keeps s u"
  by (simp add: parse_keeps_def)

lemma set_map_insert: "set (map_insert k v m) \<subseteq> insert (k, v) (set m)"
  by (induction k v m rule: map_insert.induct) auto

lemma map_ok_put [simp]: "map_ok m \<Longrightarrow> map_ok (map_put k v m)"
  by (simp add: map_put_def)

lemma set_map_put: "set (map_put k v m) \<subseteq> insert (k, v) (set m)"
proof
  fix e
  assume "e \<in> set (map_put k v m)"
  then have "e \<in> (\<lambda>d. if fst d = k then (k, v) else d) ` set (map_insert k v m)"
    by (simp add: map_put_def map_assign_def)
  then obtain d where "d \<in> set (map_insert k v m)" "e = (if fst d = k then (k, v) else d)" by blast
  then show "e \<in> insert (k, v) (set m)" using set_map_insert [of k v m] by (cases "fst d = k") auto
qed

lemma with_parsed_keeps:
  assumes "\<And>r. payload_type r = pt \<Longrightarrow> payload_type (f r) = pt"
  shows "parse_keeps s (with_parsed m pt f s)"
proof -
  have "parsed_ok p \<Longrightarrow> parsed_ok (map_assign pt f p)" for p
  proof -
    assume p: "parsed_ok p"
    have "payload_type r = k" if e: "(k, r) \<in> set (map_assign pt f p)" for k r
    proof -
      obtain k' r' where "(k', r') \<in> set p" "(k, r) = (if k' = pt then (pt, f r') else (k', r'))"
        using e by (auto simp: map_assign_def)
      then show ?thesis using p assms [of r'] by (auto simp: parsed_ok_def split: if_splits)
    qed
    then show ?thesis using p by (auto simp: parsed_ok_def)
  qed
  moreover have "parsed_ok p \<Longrightarrow> payload_type r = pt \<Longrightarrow> parsed_ok (map_put pt r p)" for p r
    using set_map_put [of pt r p] by (auto simp: parsed_ok_def)
  ultimately show ?thesis using assms by (simp add: parse_keeps_def with_parsed_def)
qed

lemma maybeAddSsrc_keeps [simp]: "parse_keeps s (maybeAddSsrcToList ssrc s)"
  using maybeAddSsrcToList_distinct [of s ssrc] by (simp add: parse_keeps_def maybeAddSsrcToList_def)

lemma fold_maybeAddSsrc_keeps: "parse_keeps s (fold (\<lambda>p. maybeAddSsrcToList (f p)) ps s)"
  by (induction ps arbitrary: s) (auto intro: parse_keeps_trans [OF maybeAddSsrc_keeps])

lemma session_lines_keep:
  "parse_keeps s (line_rtcpmux line s)" "parse_keeps s (line_direction mt line s)" "parse_keeps s (line_profile line s)"
  "line_fingerprint line s = Inr t \<Longrightarrow> parse_keeps s t" "line_setup line s = Inr t \<Longrightarrow> parse_keeps s t"
  "line_group line s = Inr t \<Longrightarrow> parse_keeps s t"
  by (auto simp: line_rtcpmux_def line_direction_def set_direction_def line_profile_def line_fingerprint_def
      line_setup_def line_group_def Let_def parse_keeps_def split: if_splits)

lemma line_media_keeps: "parse_keeps (ps_sdp p) (ps_sdp (line_media line p))"
  by (simp add: line_media_def Let_def parse_keeps_def)

lemma processCandidate_keeps: "processCandidate m pieces mt line s = Inr (b, t) \<Longrightarrow> parse_keeps s t"
  by (auto simp: processCandidate_def Let_def parse_keeps_def split: if_splits)

lemma transport_lines_keep:
  "line_candidate m mt line s = Inr t \<Longrightarrow> parse_keeps s t" "line_crypto mt line s = Inr t \<Longrightarrow> parse_keeps s t"
  "line_user mt line s = Inr t \<Longrightarrow> parse_keeps s t" "line_pass mt line s = Inr t \<Longrightarrow> parse_keeps s t"
  "line_mid mt line s = Inr t \<Longrightarrow> parse_keeps s t"
  subgoal by (auto simp: line_candidate_def dest: processCandidate_keeps split: if_splits)
  subgoal by (auto simp: line_crypto_def Let_def parse_keeps_def split: if_splits)
  subgoal by (cases "mt = AUDIO_TYPE") (auto simp: line_user_def parse_keeps_def split: if_splits)
  subgoal by (cases "mt = AUDIO_TYPE") (auto simp: line_pass_def parse_keeps_def split: if_splits)
  subgoal by (auto simp: line_mid_def Let_def parse_keeps_def split: if_splits)
  done

lemma line_ssrc_keeps: "line_ssrc mt line s = Inr t \<Longrightarrow> parse_keeps s t"
  by (auto simp: line_ssrc_def Let_def split: if_splits) (auto simp: parse_keeps_def)

lemma line_ssrc_group_keeps: "line_ssrc_group mt line s = (b, t) \<Longrightarrow> parse_keeps s t"
  by (auto simp: line_ssrc_group_def Let_def fold_maybeAddSsrc_keeps split: if_splits) (auto simp: parse_keeps_def)

lemma payload_lines_keep:
  "line_rtpmap m mt line s = Inr t \<Longrightarrow> parse_keeps s t" "line_extmap m mt line s = Inr t \<Longrightarrow> parse_keeps s t"
  "line_feedback m line s = Inr t \<Longrightarrow> parse_keeps s t" "line_fmtp m line s = Inr (Some t) \<Longrightarrow> parse_keeps s t"
  "parse_keeps s (line_bandwidth mt line s)"
  subgoal by (auto simp: line_rtpmap_def Let_def intro: with_parsed_keeps split: if_splits)
  subgoal by (auto simp: line_extmap_def Let_def parse_keeps_def split: if_splits)
  subgoal by (auto simp: line_feedback_def Let_def intro: with_parsed_keeps split: if_splits)
  subgoal by (auto simp: line_fmtp_def Let_def intro!: with_parsed_keeps split: if_splits)
  subgoal by (auto simp: line_bandwidth_def Let_def parse_keeps_def)
  done

lemmas lines_keep = session_lines_keep transport_lines_keep line_ssrc_keeps payload_lines_keep

lemma line_session_keeps:
  assumes "line_session line p = Inr q"
  shows "parse_keeps (ps_sdp p) (ps_sdp q)"
proof -
  let ?s = "line_profile line (line_direction (ps_mtype p) line (line_rtcpmux line (ps_sdp p)))"
  obtain a b c where "line_fingerprint line ?s = Inr a" "line_setup line a = Inr b" "line_group line b = Inr c"
    and q: "q = line_media line (p\<lparr>ps_sdp := c\<rparr>)"
    using assms unfolding line_session_def Let_def and_then_Inr sum.inject by blast
  then have "parse_keeps ?s c" by (meson session_lines_keep parse_keeps_trans)
  moreover have "parse_keeps (ps_sdp p) ?s" by (meson session_lines_keep parse_keeps_trans)
  moreover have "parse_keeps c (ps_sdp q)" unfolding q using line_media_keeps [of "p\<lparr>ps_sdp := c\<rparr>" line] by simp
  ultimately show ?thesis by (meson parse_keeps_trans)
qed

lemma line_transport_keeps:
  assumes "line_transport m mt line s = Inr t"
  shows "parse_keeps s t"
proof -
  obtain a b c d e where "line_candidate m mt line s = Inr a" "line_crypto mt line a = Inr b"
    "line_user mt line b = Inr c" "line_pass mt line c = Inr d" "line_mid mt line d = Inr e" "line_ssrc mt line e = Inr t"
    using assms unfolding line_transport_def and_then_Inr by blast
  then have "parse_keeps s a" "parse_keeps a b" "parse_keeps b c" "parse_keeps c d" "parse_keeps d e" "parse_keeps e t"
    by (simp_all add: transport_lines_keep line_ssrc_keeps)
  then show ?thesis by (meson parse_keeps_trans)
qed

lemma line_payload_keeps:
  assumes "line_payload m mt line s = Inr t"
  shows "parse_keeps s t"
proof -
  obtain a b c r where l: "line_rtpmap m mt line s = Inr a" "line_extmap m mt line a = Inr b"
      "line_feedback m line b = Inr c" "line_fmtp m line c = Inr r"
    and t: "t = (case r of None \<Rightarrow> c | Some s \<Rightarrow> line_bandwidth mt line s)"
    using assms unfolding line_payload_def and_then_Inr sum.inject by blast
  have "parse_keeps s a" "parse_keeps a b" "parse_keeps b c" using l by (simp_all add: payload_lines_keep)
  moreover have "parse_keeps c t"
  proof (cases r)
    case None
    then show ?thesis using t by simp
  next
    case (Some u)
    then have "parse_keeps c u" using l by (simp add: payload_lines_keep)
    then show ?thesis using Some t payload_lines_keep(5) [of u mt line] by (auto intro: parse_keeps_trans)
  qed
  ultimately show ?thesis by (meson parse_keeps_trans)
qed

lemma process_line_keeps:
  assumes "process_line m line p = Inr q"
  shows "parse_keeps (ps_sdp p) (ps_sdp q)"
proof -
  obtain a :: sdp_parser and b where l: "line_session line p = Inr a" "line_transport m (ps_mtype a) line (ps_sdp a) = Inr b"
    and r: "(case line_ssrc_group (ps_mtype a) line b of (finished, s) \<Rightarrow>
         if finished then Inr (a\<lparr>ps_sdp := s\<rparr>)
         else and_then (line_payload m (ps_mtype a) line s) (\<lambda>s. Inr (a\<lparr>ps_sdp := s\<rparr>))) = Inr q"
    using assms unfolding process_line_def and_then_Inr by blast
  obtain finished c where g: "line_ssrc_group (ps_mtype a) line b = (finished, c)" by (metis surj_pair)
  have "parse_keeps c (ps_sdp q)" using r g by (cases finished) (auto dest: line_payload_keeps)
  then show ?thesis
    using line_session_keeps [OF l(1)] line_transport_keeps [OF l(2)] line_ssrc_group_keeps [OF g]
    by (meson parse_keeps_trans)
qed

lemma process_lines_keeps:
  assumes "process_lines m sdp media s = Inr q"
  shows "parse_keeps s (ps_sdp q)"
  using assms unfolding process_lines_def
  by (rule fold_checked_invariant) (auto intro: parse_keeps_trans process_line_keeps)

subsection \<open>The tables of payload types\<close>

text \<open>
  \<open>negotiated_from i p\<close>: the payload \<open>p\<close> is the codec \<open>i\<close> of the program, with feedback and parameters
  that the program has too.
\<close>

definition negotiated_from :: "RtpMap \<Rightarrow> RtpMap \<Rightarrow> bool" where
  "negotiated_from i p \<longleftrightarrow> same_codec i p \<and> channels p = channels i
     \<and> set (feedback_types p) \<subseteq> set (feedback_types i) \<and> set (format_parameters p) \<subseteq> set (format_parameters i)"

lemma negotiated_feedback_common:
  "set (negotiated_feedback parsed internal) = set parsed \<inter> set internal"
  by (auto simp: negotiated_feedback_def)

lemma negotiated_parameters_common:
  "set (negotiated_parameters parsed internal) \<subseteq> set parsed \<inter> set internal"
proof -
  let ?f = "\<lambda>(k, v) m. case map_of parsed k of Some w \<Rightarrow> if w = v then map_put k w m else m | None \<Rightarrow> m"
  have "set (fold ?f xs m) \<subseteq> set m \<union> (set parsed \<inter> set xs)" for xs m
  proof (induction xs arbitrary: m)
    case (Cons x xs)
    obtain k v where x: "x = (k, v)" by (cases x)
    have "set (?f x m) \<subseteq> insert x (set m) \<and> (set (?f x m) \<subseteq> set m \<or> x \<in> set parsed)"
      using set_map_put [of k v m] unfolding x by (auto split: option.splits dest: map_of_SomeD)
    then show ?case using Cons.IH [of "?f x m"] by auto
  qed simp
  from this [of internal "[]"] show ?thesis by (auto simp: negotiated_parameters_def)
qed

definition internal_ok :: "RtpMap list \<Rightarrow> bool" where
  "internal_ok maps \<longleftrightarrow> distinct (map payload_type maps)
     \<and> distinct (map (\<lambda>r. (encoding_name r, clock_rate r)) (filter (\<lambda>r. encoding_name r \<noteq> ''rtx'') maps))"

lemma internal_ok_type: "internal_ok maps \<Longrightarrow> i \<in> set maps \<Longrightarrow> j \<in> set maps \<Longrightarrow> payload_type i = payload_type j \<Longrightarrow> i = j"
  by (auto simp: internal_ok_def distinct_map dest: inj_onD)

lemma internal_ok_codec:
  "internal_ok maps \<Longrightarrow> i \<in> set maps \<Longrightarrow> j \<in> set maps \<Longrightarrow> same_codec i j \<Longrightarrow> encoding_name i \<noteq> ''rtx'' \<Longrightarrow> i = j"
  by (auto simp: internal_ok_def same_codec_def distinct_map dest!: inj_onD)

text \<open>The invariant of both passes: \<open>maps\<close> are the codecs of the program, \<open>pm\<close> those of the peer.\<close>

definition tables_ok :: "RtpMap list \<Rightarrow> (u32 \<times> RtpMap) list \<Rightarrow> SdpInfo \<Rightarrow> bool" where
  "tables_ok maps pm s \<longleftrightarrow>
     (\<forall>p \<in> set (payloadVector s). \<exists>r. map_of pm (payload_type p) = Some r \<and> same_codec p r)
     \<and> (\<forall>p \<in> set (payloadVector s). encoding_name p \<noteq> ''rtx'' \<longrightarrow>
          (\<exists>i \<in> set maps. negotiated_from i p \<and> outInPTMap s (payload_type p) = Some (payload_type i)))
     \<and> (\<forall>x e. inOutPTMap s x = Some e \<longrightarrow>
          (\<exists>i \<in> set maps. \<exists>p \<in> set (payloadVector s). payload_type i = x \<and> payload_type p = e
             \<and> encoding_name p = encoding_name i \<and> (encoding_name i \<noteq> ''rtx'' \<longrightarrow> same_codec i p)))"

lemma parsed_lookup: "parsed_ok pm \<Longrightarrow> r \<in> snd ` set pm \<Longrightarrow> map_of pm (payload_type r) = Some r"
  by (force simp: parsed_ok_def map_ok_def)

lemma add_negotiated_fields:
  fixes i r s
  defines "p \<equiv> r\<lparr>channels := channels i, feedback_types := negotiated_feedback (feedback_types r) (feedback_types i),
     format_parameters := negotiated_parameters (format_parameters r) (format_parameters i)\<rparr>"
  shows "payloadVector (add_negotiated i r s) = payloadVector s @ [p]"
    "outInPTMap (add_negotiated i r s) = (outInPTMap s)(payload_type r \<mapsto> payload_type i)"
    "inOutPTMap (add_negotiated i r s) = (inOutPTMap s)(payload_type i \<mapsto> payload_type r)"
    "same_codec i r \<Longrightarrow> negotiated_from i p"
    "payload_type p = payload_type r" "encoding_name p = encoding_name r" "clock_rate p = clock_rate r"
  using negotiated_feedback_common [of "feedback_types r" "feedback_types i"]
    negotiated_parameters_common [of "format_parameters r" "format_parameters i"]
  by (simp_all add: p_def add_negotiated_def Let_def negotiated_from_def same_codec_def)

lemma add_negotiated_tables:
  assumes maps: "internal_ok maps" and pm: "parsed_ok pm" and i: "i \<in> set maps" and r: "r \<in> snd ` set pm"
    and same: "same_codec i r" and no_rtx: "encoding_name r \<noteq> ''rtx''" and s: "tables_ok maps pm s"
  shows "tables_ok maps pm (add_negotiated i r s)"
proof -
  let ?t = "add_negotiated i r s"
  define p where "p = r\<lparr>channels := channels i,
    feedback_types := negotiated_feedback (feedback_types r) (feedback_types i),
    format_parameters := negotiated_parameters (format_parameters r) (format_parameters i)\<rparr>"
  note f = add_negotiated_fields [where i = i and r = r, folded p_def]
  have rp: "map_of pm (payload_type r) = Some r" by (rule parsed_lookup [OF pm r])
  have p: "same_codec p r" "same_codec i p" using same f by (simp_all add: same_codec_def)
  have "\<exists>j \<in> set maps. negotiated_from j q \<and> outInPTMap ?t (payload_type q) = Some (payload_type j)"
    if q: "q \<in> set (payloadVector ?t)" "encoding_name q \<noteq> ''rtx''" for q
  proof (cases "q = p")
    case True
    then show ?thesis using i f same by auto
  next
    case False
    then have "q \<in> set (payloadVector s)" using q f by simp
    then obtain j r' where j: "j \<in> set maps" "negotiated_from j q" "outInPTMap s (payload_type q) = Some (payload_type j)"
      and r': "map_of pm (payload_type q) = Some r'" "same_codec q r'"
      using s q(2) unfolding tables_ok_def by blast
    show ?thesis
    proof (cases "payload_type q = payload_type r")
      case True
      then have "same_codec j i" using r' rp j(2) same by (auto simp: negotiated_from_def same_codec_def)
      then have "j = i" using internal_ok_codec [OF maps j(1) i] same no_rtx
        by (auto simp: same_codec_def)
      then show ?thesis using True i j(2) f by auto
    next
      case False
      then show ?thesis using j f by auto
    qed
  qed
  moreover have "\<exists>j \<in> set maps. \<exists>q \<in> set (payloadVector ?t). payload_type j = x \<and> payload_type q = e
      \<and> encoding_name q = encoding_name j \<and> (encoding_name j \<noteq> ''rtx'' \<longrightarrow> same_codec j q)"
    if e: "inOutPTMap ?t x = Some e" for x e
  proof (cases "x = payload_type i")
    case True
    then show ?thesis using e f i p same by (intro bexI [of _ i] bexI [of _ p]) (auto simp: same_codec_def)
  next
    case False
    then have "inOutPTMap s x = Some e" using e f by simp
    then show ?thesis using s f unfolding tables_ok_def by fastforce
  qed
  moreover have "\<exists>r. map_of pm (payload_type q) = Some r \<and> same_codec q r" if "q \<in> set (payloadVector ?t)" for q
    using that s f p rp unfolding tables_ok_def by auto
  ultimately show ?thesis unfolding tables_ok_def by blast
qed

lemma tables_ok_touch:
  assumes "tables_ok maps pm s"
  shows "tables_ok maps pm (s\<lparr>outInPTMap := map_touch pt (outInPTMap s)\<rparr>)"
  using assms unfolding tables_ok_def map_touch_def by fastforce

lemma tables_ok_rtx:
  assumes s: "tables_ok maps pm s" and pm: "parsed_ok pm" and r: "r \<in> snd ` set pm" "encoding_name r = ''rtx''"
    and i: "i \<in> set maps" "encoding_name i = ''rtx''"
  shows "tables_ok maps pm ((count_payload r s)\<lparr>outInPTMap := (outInPTMap s)(payload_type r \<mapsto> payload_type i),
      inOutPTMap := (inOutPTMap s)(payload_type i \<mapsto> payload_type r), payloadVector := payloadVector s @ [r]\<rparr>)"
    (is "tables_ok maps pm ?t")
proof -
  have rp: "map_of pm (payload_type r) = Some r" by (rule parsed_lookup [OF pm r(1)])
  have f: "payloadVector ?t = payloadVector s @ [r]" "outInPTMap ?t = (outInPTMap s)(payload_type r \<mapsto> payload_type i)"
    "inOutPTMap ?t = (inOutPTMap s)(payload_type i \<mapsto> payload_type r)" by simp_all
  have "\<exists>j \<in> set maps. negotiated_from j q \<and> outInPTMap ?t (payload_type q) = Some (payload_type j)"
    if q: "q \<in> set (payloadVector ?t)" "encoding_name q \<noteq> ''rtx''" for q
  proof -
    have "q \<in> set (payloadVector s)" using q r(2) f by auto
    then obtain j r' where j: "j \<in> set maps" "negotiated_from j q" "outInPTMap s (payload_type q) = Some (payload_type j)"
      and r': "map_of pm (payload_type q) = Some r'" "same_codec q r'"
      using s q(2) unfolding tables_ok_def by blast
    then have "payload_type q \<noteq> payload_type r" using rp r(2) q(2) by (auto simp: same_codec_def)
    then show ?thesis using j f by auto
  qed
  moreover have "\<exists>j \<in> set maps. \<exists>q \<in> set (payloadVector ?t). payload_type j = x \<and> payload_type q = e
      \<and> encoding_name q = encoding_name j \<and> (encoding_name j \<noteq> ''rtx'' \<longrightarrow> same_codec j q)"
    if e: "inOutPTMap ?t x = Some e" for x e
  proof (cases "x = payload_type i")
    case True
    then show ?thesis using e f i r by (intro bexI [of _ i] bexI [of _ r]) auto
  next
    case False
    then have "inOutPTMap s x = Some e" using e f by simp
    then show ?thesis using s f unfolding tables_ok_def by fastforce
  qed
  moreover have "\<exists>r. map_of pm (payload_type q) = Some r \<and> same_codec q r" if "q \<in> set (payloadVector ?t)" for q
    using that s f rp unfolding tables_ok_def by (auto simp: same_codec_def)
  ultimately show ?thesis unfolding tables_ok_def by blast
qed

lemma match_codecs_tables:
  assumes maps: "internal_ok (internalPayloadVector s)" and pm: "parsed_ok (payload_parsed_map s)"
    and s: "tables_ok (internalPayloadVector s) (payload_parsed_map s) s"
    and m: "match_codecs s = (t, rtx_maps)"
  shows "tables_ok (internalPayloadVector s) (payload_parsed_map s) t \<and>
    (\<forall>r \<in> set rtx_maps. r \<in> snd ` set (payload_parsed_map s) \<and> encoding_name r = ''rtx'')"
proof -
  let ?I = "\<lambda>st. tables_ok (internalPayloadVector s) (payload_parsed_map s) (fst st) \<and>
    (\<forall>r \<in> set (snd st). r \<in> snd ` set (payload_parsed_map s) \<and> encoding_name r = ''rtx'')"
  have "?I (match_codecs s)"
  proof (rule match_codecs_invariant [where I = ?I])
    show "?I (s, [])" using s by simp
  next
    fix i p st
    assume i: "i \<in> set (internalPayloadVector s)" and p: "p \<in> snd ` set (payload_parsed_map s)" and st: "?I st"
    obtain u rs where u: "st = (u, rs)" by (cases st)
    consider "\<not> same_codec i p" | "same_codec i p" "encoding_name p = ''rtx''" | "same_codec i p" "encoding_name p \<noteq> ''rtx''"
      by blast
    then show "?I (match_maps i p st)"
    proof cases
      case 1
      then show ?thesis using st u by (auto simp: match_maps_def same_codec_def)
    next
      case 2
      then show ?thesis using st u p by (auto simp: match_maps_def same_codec_def)
    next
      case 3
      then have "match_maps i p st = (add_negotiated i p u, rs)" using u by (simp add: match_maps_def same_codec_def)
      then show ?thesis using st u add_negotiated_tables [OF maps pm i p 3] by simp
    qed
  qed
  then show ?thesis using m by simp
qed

lemma match_rtx_tables:
  assumes pm: "parsed_ok pm" and r: "r \<in> snd ` set pm \<and> encoding_name r = ''rtx''" and i: "i \<in> set maps"
    and u: "tables_ok maps pm u" and v: "match_rtx r i u = Inr v"
  shows "tables_ok maps pm v"
  using v
proof (cases rule: match_rtx_cases)
  case same
  then show ?thesis using u by simp
next
  case (looked pt)
  then show ?thesis using tables_ok_touch [OF u] by simp
next
  case (paired pt)
  let ?w = "u\<lparr>outInPTMap := map_touch pt (outInPTMap u)\<rparr>"
  have "tables_ok maps pm ((count_payload r ?w)\<lparr>outInPTMap := (outInPTMap ?w)(payload_type r \<mapsto> payload_type i),
      inOutPTMap := (inOutPTMap ?w)(payload_type i \<mapsto> payload_type r), payloadVector := payloadVector ?w @ [r]\<rparr>)"
    using paired(1) r i by (intro tables_ok_rtx [OF tables_ok_touch [OF u] pm]) auto
  then show ?thesis using paired(2) by simp
qed

lemma negotiate_tables:
  assumes maps: "internal_ok (internalPayloadVector s)" and pm: "parsed_ok (payload_parsed_map s)"
    and fresh: "payloadVector s = []" "inOutPTMap s = Map.empty"
    and n: "negotiate s = Inr (True, t)"
  shows "tables_ok (internalPayloadVector s) (payload_parsed_map s) t"
proof -
  obtain u where u: "complete_credentials s = Some u" using n by (cases "complete_credentials s") (auto simp: negotiate_def)
  let ?v = "ensure_ssrc (give_credentials u)"
  have k: "internalPayloadVector u = internalPayloadVector s" "payload_parsed_map u = payload_parsed_map s"
    "payloadVector u = []" "inOutPTMap u = Map.empty"
    using u fresh by (auto simp: complete_credentials_def split: if_splits)
  obtain w rtx_maps where w: "match_codecs ?v = (w, rtx_maps)" by (metis surj_pair)
  have t: "match_rtx_maps rtx_maps w = Inr t" using n u w by (auto simp: negotiate_def)
  have "tables_ok (internalPayloadVector s) (payload_parsed_map s) ?v" using k by (simp add: tables_ok_def)
  then have m: "tables_ok (internalPayloadVector s) (payload_parsed_map s) w \<and>
      (\<forall>r \<in> set rtx_maps. r \<in> snd ` set (payload_parsed_map s) \<and> encoding_name r = ''rtx'')"
    using match_codecs_tables [of ?v w rtx_maps] maps pm w k by simp
  have i: "internalPayloadVector w = internalPayloadVector s"
    using match_codecs_session [of ?v] w k by (simp add: same_session_def)
  show ?thesis using t m [THEN conjunct1]
  proof (rule match_rtx_maps_invariant [where I = "tables_ok (internalPayloadVector s) (payload_parsed_map s)"])
    fix r i u v
    assume "r \<in> set rtx_maps" "i \<in> set (internalPayloadVector w)"
      "tables_ok (internalPayloadVector s) (payload_parsed_map s) u" "match_rtx r i u = Inr v"
    then show "tables_ok (internalPayloadVector s) (payload_parsed_map s) v"
      by (intro match_rtx_tables [OF pm, of r i _ u v]) (simp_all add: m i)
  qed
qed

lemma processSdp_tables:
  assumes "internal_ok maps" "processSdp m sdp media (new_SdpInfo maps v a) = Inr (True, t)"
  obtains pm where "tables_ok maps pm t"
proof -
  obtain q :: sdp_parser where q: "process_lines m sdp media (new_SdpInfo maps v a) = Inr q"
    and n: "negotiate (ps_sdp q) = Inr (True, t)"
    using assms(2) unfolding processSdp_def and_then_Inr by blast
  have k: "parse_keeps (new_SdpInfo maps v a) (ps_sdp q)" by (rule process_lines_keeps [OF q])
  have "internalPayloadVector (ps_sdp q) = maps" "payloadVector (ps_sdp q) = []" "inOutPTMap (ps_sdp q) = Map.empty"
    "parsed_ok (payload_parsed_map (ps_sdp q))"
    using k by (simp_all add: parse_keeps_def new_SdpInfo_def parsed_ok_def map_ok_def)
  then show thesis using negotiate_tables [OF _ _ _ _ n] assms(1) that by metis
qed

text \<open>
  C15: When the program's own table has distinct payload types, and apart from retransmission formats (''rtx'') no two
  entries with the same name and clock rate (a table with two H264 entries is not covered), then after a description
  has been accepted every payload in the answer other than a retransmission format is a codec of the program: same
  name and clock rate, the channels of the program, and only feedback and parameters that the program has too. Its
  packets are renumbered to the payload type that the program uses for this codec.
\<close>
theorem answer_holds_own_codecs:
  assumes "internal_ok maps" "processSdp m sdp media (new_SdpInfo maps v a) = Inr (True, t)"
    and "p \<in> set (payloadVector t)" "encoding_name p \<noteq> ''rtx''"
  shows "\<exists>i \<in> set maps. negotiated_from i p \<and> getVideoInternalPT (payload_type p) t = payload_type i"
proof -
  obtain pm where "tables_ok maps pm t" using processSdp_tables [OF assms(1,2)] .
  then obtain i where "i \<in> set maps" "negotiated_from i p" "outInPTMap t (payload_type p) = Some (payload_type i)"
    using assms(3,4) unfolding tables_ok_def by blast
  then show ?thesis by (auto simp: getVideoInternalPT_def getAudioInternalPT_def)
qed

text \<open>
  Out and back: the number under which a codec of the program is sent to the peer is a
  number of the peer for the same codec, and a packet of the peer with this number is renumbered
  to the number it had. This holds for every codec that is not a retransmission format and that
  has been negotiated.
\<close>

lemma negotiated_types_translate_back:
  assumes "internal_ok maps" "processSdp m sdp media (new_SdpInfo maps v a) = Inr (True, t)"
    and "i \<in> set maps" "encoding_name i \<noteq> ''rtx''" "payload_type i \<in> dom (inOutPTMap t)"
  shows "getVideoInternalPT (getVideoExternalPT (payload_type i) t) t = payload_type i \<and>
    (\<exists>p \<in> set (payloadVector t). payload_type p = getVideoExternalPT (payload_type i) t \<and> same_codec i p)"
proof -
  obtain pm where t: "tables_ok maps pm t" using processSdp_tables [OF assms(1,2)] .
  obtain e where e: "inOutPTMap t (payload_type i) = Some e" using assms(5) by blast
  then obtain j p where j: "j \<in> set maps" "payload_type j = payload_type i" and p: "p \<in> set (payloadVector t)"
      "payload_type p = e" "encoding_name p = encoding_name j" "encoding_name j \<noteq> ''rtx'' \<longrightarrow> same_codec j p"
    using t unfolding tables_ok_def by blast
  have ji: "j = i" by (rule internal_ok_type [OF assms(1) j(1) assms(3) j(2)])
  then have c: "same_codec i p" "encoding_name p \<noteq> ''rtx''" using p assms(4) by auto
  obtain k where k: "k \<in> set maps" "negotiated_from k p" "outInPTMap t e = Some (payload_type k)"
    using t p c(2) unfolding tables_ok_def by blast
  then have "k = i" using internal_ok_codec [OF assms(1) assms(3) k(1)] c(1) assms(4)
    by (auto simp: negotiated_from_def same_codec_def)
  then have "getVideoExternalPT (payload_type i) t = e" "getVideoInternalPT e t = payload_type i"
    using e k by (simp_all add: getVideoExternalPT_def getAudioExternalPT_def getVideoInternalPT_def getAudioInternalPT_def)
  then show ?thesis using p c(1) by auto
qed

subsection \<open>A run, and where descriptions go wrong\<close>

definition own_codecs :: "RtpMap list" where
  "own_codecs =
     [\<lparr>payload_type = 100, encoding_name = ''VP8'', clock_rate = 90000, media_type = VIDEO_TYPE, channels = 1,
       feedback_types = [''nack'', ''pli''], format_parameters = []\<rparr>,
      \<lparr>payload_type = 96, encoding_name = ''rtx'', clock_rate = 90000, media_type = VIDEO_TYPE, channels = 1,
       feedback_types = [], format_parameters = [(''apt'', ''100'')]\<rparr>]"

definition text_lines :: "string list \<Rightarrow> string" where
  "text_lines ls = concat (map (\<lambda>l. l @ [CHR 0x0D, CHR 0x0A]) ls)"

definition sample_offer :: string where
  "sample_offer = text_lines [''m=video'', ''a=ice-ufrag:u'', ''a=rtpmap:120 VP8/90000'', ''a=rtcp-fb:120 nack'']"

definition sample_result :: "string \<Rightarrow> (bool \<times> SdpInfo) checked" where
  "sample_result sdp = processSdp sample_raw sdp ''video'' (new_SdpInfo own_codecs SENDRECV SENDRECV)"

definition sample_answer :: "string \<Rightarrow> SdpInfo" where
  "sample_answer sdp =
     (case sample_result sdp of Inr (_, t) \<Rightarrow> t | Inl _ \<Rightarrow> new_SdpInfo own_codecs SENDRECV SENDRECV)"

lemma sample_accepted:
  "processSdp sample_raw sample_offer ''video'' (new_SdpInfo own_codecs SENDRECV SENDRECV) =
     Inr (True, sample_answer sample_offer)"
proof -
  have "(case sample_result sample_offer of Inr (b, _) \<Rightarrow> b | Inl _ \<Rightarrow> False)" by code_simp
  then show ?thesis by (auto simp: sample_answer_def sample_result_def split: sum.splits)
qed

lemma own_codecs_ok: "internal_ok own_codecs"
  by code_simp

lemma answer_holds_own_codecs_witness:
  "\<exists>p \<in> set (payloadVector (sample_answer sample_offer)). encoding_name p \<noteq> ''rtx'' \<and> feedback_types p = [''nack'']
     \<and> (\<exists>i \<in> set own_codecs. negotiated_from i p
          \<and> getVideoInternalPT (payload_type p) (sample_answer sample_offer) = payload_type i)"
proof -
  have "\<exists>p \<in> set (payloadVector (sample_answer sample_offer)). encoding_name p \<noteq> ''rtx'' \<and> feedback_types p = [''nack'']"
    by code_simp
  then obtain p where p: "p \<in> set (payloadVector (sample_answer sample_offer))" "encoding_name p \<noteq> ''rtx''"
    and f: "feedback_types p = [''nack'']" by blast
  show ?thesis using answer_holds_own_codecs [OF own_codecs_ok sample_accepted p] p f by blast
qed

lemma sample_types_translate_back:
  "getVideoExternalPT 100 (sample_answer sample_offer) = 120 \<and>
   getVideoInternalPT (getVideoExternalPT 100 (sample_answer sample_offer)) (sample_answer sample_offer) = 100"
proof -
  have "hd own_codecs \<in> set own_codecs" "encoding_name (hd own_codecs) \<noteq> ''rtx''" "payload_type (hd own_codecs) = 100"
    by (simp_all add: own_codecs_def)
  moreover have "getVideoExternalPT 100 (sample_answer sample_offer) = 120" by code_simp
  moreover have "inOutPTMap (sample_answer sample_offer) 100 = Some 120" by code_simp
  ultimately show ?thesis
    using negotiated_types_translate_back [OF own_codecs_ok sample_accepted, of "hd own_codecs"] by auto
qed

text \<open>
  C21: A description is accepted only with credentials for both media, and then every candidate of it
  carries the credentials of its medium, those of audio unless it is a video candidate, and whether
  the media are bundled. It is refused exactly when it has no user name at all.
\<close>
theorem accepted_with_credentials:
  assumes "processSdp m sdp media s = Inr (accepted, t)"
  shows "(accepted \<longleftrightarrow> iceVideoUsername t \<noteq> [] \<or> iceAudioUsername t \<noteq> []) \<and>
    (accepted \<longrightarrow> iceVideoUsername t \<noteq> [] \<and> iceAudioUsername t \<noteq> [] \<and>
      (\<forall>c \<in> set (candidateVector t). ci_isBundle c = isBundle t \<and>
        ci_username c = getUsername (if ci_mediaType c = VIDEO_TYPE then VIDEO_TYPE else AUDIO_TYPE) t \<and>
        ci_password c = getPassword (if ci_mediaType c = VIDEO_TYPE then VIDEO_TYPE else AUDIO_TYPE) t))"
proof -
  obtain p :: sdp_parser where "negotiate (ps_sdp p) = Inr (accepted, t)"
    using assms unfolding processSdp_def and_then_Inr by blast
  note n = negotiate_accepted [OF this]
  consider "\<not> accepted" "complete_credentials t = None"
    | u where "accepted" "complete_credentials (ps_sdp p) = Some u" "same_session (ensure_ssrc (give_credentials u)) t"
    using n by (elim disjE) auto
  then show ?thesis
  proof cases
    case 1
    then show ?thesis by (simp add: complete_credentials_none)
  next
    case 2
    have c: "candidateVector t = candidateVector (give_credentials u)" and k: "isBundle t = isBundle u"
      "iceVideoUsername t = iceVideoUsername u" "iceAudioUsername t = iceAudioUsername u"
      "iceVideoPassword t = iceVideoPassword u" "iceAudioPassword t = iceAudioPassword u"
      using 2(3) by (simp_all add: same_session_def)
    have "\<forall>c \<in> set (candidateVector t). ci_isBundle c = isBundle t \<and>
        ci_username c = getUsername (if ci_mediaType c = VIDEO_TYPE then VIDEO_TYPE else AUDIO_TYPE) t \<and>
        ci_password c = getPassword (if ci_mediaType c = VIDEO_TYPE then VIDEO_TYPE else AUDIO_TYPE) t"
      unfolding c by (auto simp: give_credentials_def getUsername_def getPassword_def k)
    then show ?thesis using 2(1) complete_credentials_some [OF 2(2)] k by simp
  qed
qed

lemma accepted_with_credentials_witness:
  "iceAudioUsername (sample_answer sample_offer) \<noteq> [] \<and> getUsername AUDIO_TYPE (sample_answer sample_offer) = ''u''"
proof -
  have "getUsername AUDIO_TYPE (sample_answer sample_offer) = ''u''" by code_simp
  then show ?thesis using accepted_with_credentials [OF sample_accepted] by simp
qed

text \<open>
  A retransmission format for a codec that has not been negotiated: looking its \<^verbatim>\<open>apt\<close> up leaves an
  entry with the value 0, and packets of that payload type are from then on renumbered to 0, where
  without the format they would keep their number.
\<close>

lemma unmatched_apt_renumbers_to_0:
  "getVideoInternalPT 98 (sample_answer sample_offer) = 98 \<and>
   getVideoInternalPT 98 (sample_answer (sample_offer @
     text_lines [''a=rtpmap:99 rtx/90000'', ''a=fmtp:99 apt=98''])) = 0"
  by code_simp

text \<open>A retransmission format without \<^verbatim>\<open>apt\<close>: the end of the map of its parameters is read.\<close>

lemma rtx_without_apt:
  "sample_result (sample_offer @ text_lines [''a=rtpmap:99 rtx/90000'']) = Inl Out_of_bounds"
proof -
  have "(case sample_result (sample_offer @ text_lines [''a=rtpmap:99 rtx/90000'']) of
      Inl e \<Rightarrow> e = Out_of_bounds | Inr _ \<Rightarrow> False)" by code_simp
  then show ?thesis by (simp split: sum.splits)
qed

lemma rtx_with_words:
  "sample_result (sample_offer @ text_lines [''a=rtpmap:99 rtx/90000'', ''a=fmtp:99 apt=x'']) = Inl Invalid_argument"
proof -
  have "(case sample_result (sample_offer @ text_lines [''a=rtpmap:99 rtx/90000'', ''a=fmtp:99 apt=x'']) of
      Inl e \<Rightarrow> e = Invalid_argument | Inr _ \<Rightarrow> False)" by code_simp
  then show ?thesis by (simp split: sum.splits)
qed

text \<open>Lines that end with a line feed alone lose the last letter of their value.\<close>

lemma feedback_loses_a_letter:
  "map feedback_types (map snd (payload_parsed_map (sample_answer
     (text_lines [''a=ice-ufrag:u''] @ ''a=rtcp-fb:120 nack'' @ [CHR 0x0A])))) = [[''nac'']]"
  by code_simp

text \<open>An attribute without its value is read beyond its end.\<close>

lemma short_lines:
  "list_all (\<lambda>l. case sample_result (text_lines [l]) of Inl e \<Rightarrow> e = Out_of_bounds | Inr _ \<Rightarrow> False)
     [''a=ice-ufrag'', ''a=fingerprint:'', ''a=rtpmap:96 VP8'', ''a=rtcp-fb:96'', ''a=candidate:1 1 udp 9'', ''a=crypto:1'']"
  by code_simp

text \<open>A bundle of more than 255 tags is never walked through: the index of the loop is a byte.\<close>

lemma many_tags_never_return:
  assumes "256 \<le> length (bundleTags s)" "isBundle s"
  shows "line_mid mt ''a=mid:video'' s = Inl No_return"
proof -
  have "2 \<le> length (splitOneOf ''a=mid:video'' ('': '' @ [CHR 0x0D, CHR 0x0A]) 4)" "found_in ''a=mid'' ''a=mid:video''"
    by code_simp+
  then show ?thesis using assms by (simp add: line_mid_def Let_def for_bytes_eq)
qed

end
