(* ===== verification/SdpCandidates.thy ===== *)
theory SdpCandidates
  imports SdpParser
begin

text \<open>
  Candidates written and read: \<open>processCandidate\<close> undoes \<open>stringifyCandidate\<close>, with the words of the
  candidate free of the two separators, blank and colon.
\<close>

definition plain_word :: "string \<Rightarrow> bool" where
  "plain_word w \<longleftrightarrow> CHR '' '' \<notin> set w \<and> CHR '':'' \<notin> set w"

definition plain_candidate :: "CandidateInfo \<Rightarrow> bool" where
  "plain_candidate c \<longleftrightarrow> plain_word (foundation c) \<and> plain_word (hostAddress c)
     \<and> (netProtocol c = ''udp'' \<or> netProtocol c = ''UDP'')
     \<and> - (2 ^ 31) \<le> hostPort c \<and> hostPort c < 2 ^ 31
     \<and> (hostType c = SRFLX \<or> hostType c = RELAY \<longrightarrow>
          plain_word (rAddress c) \<and> - (2 ^ 31) \<le> rPort c \<and> rPort c < 2 ^ 31)"

text \<open>The members that the text carries, in a candidate with the memory \<open>m\<close>.\<close>

definition carried :: "raw_memory \<Rightarrow> mediaType \<Rightarrow> string \<Rightarrow> CandidateInfo \<Rightarrow> CandidateInfo" where
  "carried m mtype line c =
     (let d = (new_CandidateInfo m)\<lparr>ci_mediaType := mtype, foundation := foundation c, componentId := componentId c,
            netProtocol := netProtocol c, ci_priority := ci_priority c, hostAddress := hostAddress c,
            hostPort := hostPort c, hostType := hostType c, ci_sdp := line\<rparr>
      in if hostType c = SRFLX \<or> hostType c = RELAY
         then d\<lparr>rAddress := rAddress c, rPort := rPort c\<rparr> else d)"

lemma plain_digits: "plain_word (decimal n)"
  using decimal_digits [of n] by (auto simp: plain_word_def list_all_iff is_digit_def)

lemma plain_decimal_int: "plain_word (decimal_int i)"
  using plain_digits [of "nat i"] plain_digits [of "nat (- i)"] by (auto simp: decimal_int_def plain_word_def)

lemma plain_hostType: "plain_word (hostType_str t)"
  by (cases t) (simp_all add: hostType_str_def plain_word_def)

lemma ucast_u32_u64_u32 [simp]: "(ucast (ucast (w :: u32) :: u64) :: u32) = w"
  by (rule bit_word_eqI) (simp add: bit_simps)

lemma to_uint_decimal [simp]: "to_uint (decimal (unat (w :: u32))) = w"
proof -
  have "unat w < 2 ^ 64" using unat_u32_less [of w] by (rule less_trans) simp
  then have "to_uint (decimal (unat w)) = ucast (of_nat (unat w) :: u64)" by (simp add: to_uint_def)
  also have "of_nat (unat w) = (ucast w :: u64)" by simp
  finally show ?thesis by simp
qed

lemma strtoul_decimal_int:
  assumes "- (2 ^ 63) \<le> i" "i < 2 ^ 63"
  shows "strtoul (decimal_int i) = word_of_int i"
proof (cases "i < 0")
  case True
  have "signed_digits (decimal_int i) = (True, decimal (nat (- i)))"
    using True decimal_digits [of "nat (- i)"]
    by (simp add: signed_digits_def decimal_int_def is_space_def list_all_iff takeWhile_eq_all_conv)
  then show ?thesis using True assms by (simp add: strtoul_def Let_def)
next
  case False
  then have "nat i < 2 ^ 64" using assms by (simp add: nat_less_iff)
  then have "strtoul (decimal_int i) = of_nat (nat i)" using False by (simp add: decimal_int_def)
  then show ?thesis using False by (simp add: of_nat_nat)
qed

lemma to_uint_decimal_int:
  assumes "- (2 ^ 63) \<le> i" "i < 2 ^ 63"
  shows "to_uint (decimal_int i) = word_of_int i"
proof -
  have "(ucast (word_of_int i :: u64) :: u32) = word_of_int i" by (rule bit_word_eqI) (simp add: bit_simps)
  then show ?thesis using assms by (simp add: to_uint_def strtoul_decimal_int)
qed

lemma to_int_decimal_int:
  assumes "- (2 ^ 31) \<le> i" "i < 2 ^ 31"
  shows "to_int (decimal_int i) = i"
proof -
  have "to_int (decimal_int i) = sint (word_of_int i :: u32)"
    using assms by (simp add: to_int_def to_uint_decimal_int)
  also have "sint (word_of_int i :: u32) = i"
    using assms by (simp add: sint_sbintrunc' signed_take_bit_int_eq_self)
  finally show ?thesis .
qed

lemma candidate_type_hostType [simp]: "candidate_type (hostType_str t) = t"
  by (cases t) (simp_all add: hostType_str_def candidate_type_def)

definition candidate_pieces :: "CandidateInfo \<Rightarrow> string list" where
  "candidate_pieces c =
     [''a=candidate'', foundation c, decimal (unat (componentId c)), netProtocol c,
      decimal (unat (ci_priority c)), hostAddress c, decimal_int (hostPort c), ''typ'', hostType_str (hostType c)]
     @ (if hostType c = SRFLX \<or> hostType c = RELAY
        then [''raddr'', rAddress c, ''rport'', decimal_int (rPort c)] else [])
     @ [''generation'']"

lemma candidate_text:
  "stringifyCandidate c =
     pieces_text (zip (candidate_pieces c) (CHR '':'' # replicate (length (candidate_pieces c)) (CHR '' ''))) @ ''0''"
  by (simp add: stringifyCandidate_def candidate_pieces_def pieces_text_def)

lemma plain_constants [simp]:
  "plain_word ''a=candidate''" "plain_word ''udp''" "plain_word ''UDP''" "plain_word ''typ''" "plain_word ''raddr''"
  "plain_word ''rport''" "plain_word ''generation''"
  by (simp_all add: plain_word_def)

lemma candidate_pieces_plain:
  "plain_candidate c \<Longrightarrow> list_all plain_word (candidate_pieces c)"
  unfolding candidate_pieces_def plain_candidate_def
  by (cases "netProtocol c = ''udp''") (simp_all add: plain_digits plain_decimal_int plain_hostType)

lemma candidate_split:
  assumes "plain_candidate c"
  shows "splitOneOf (stringifyCandidate c) '' :'' 0 = candidate_pieces c @ [''0'']"
proof -
  let ?ps = "zip (candidate_pieces c) (CHR '':'' # replicate (length (candidate_pieces c)) (CHR '' ''))"
  have "set a \<inter> set '' :'' = {} \<and> d \<in> set '' :''" if "(a, d) \<in> set ?ps" for a d
  proof -
    have "plain_word a" using candidate_pieces_plain [OF assms] set_zip_leftD [OF that] by (simp add: list_all_iff)
    moreover have "d = CHR '':'' \<or> d = CHR '' ''" using set_zip_rightD [OF that] by auto
    ultimately show ?thesis by (auto simp: plain_word_def)
  qed
  then have "splitOneOf (stringifyCandidate c) '' :'' 0 = map fst ?ps @ [''0'']"
    unfolding candidate_text by (intro splitOneOf_text [where l = "''0''", simplified]) auto
  then show ?thesis by (simp add: map_fst_zip_take)
qed

text \<open>
  C20: A candidate written by \<open>stringifyCandidate\<close>, cut at spaces and colons and read by \<open>processCandidate\<close>, is the
  same candidate in every member that the text carries: foundation, component, protocol, priority, address, port
  and type, and for reflexive and relayed candidates the related address and port. It is added at the end of the
  list. The candidate must be a UDP one (written ''udp'' or ''UDP''), its foundation and addresses must hold no space
  and no colon, so they are IPv4 addresses or names and not IPv6 (for which see \<open>candidate_of_ipv6_is_dropped\<close>
  below), and its ports must fit an \<open>int\<close>.
\<close>
theorem candidate_reads_back:
  assumes "plain_candidate c"
  shows "processCandidate m (splitOneOf (stringifyCandidate c) '' :'' 0) mtype line s =
    Inr (True, s\<lparr>candidateVector := candidateVector s @ [carried m mtype line c]\<rparr>)"
proof -
  have n: "netProtocol c = ''UDP'' \<or> netProtocol c = ''udp''" using assms by (auto simp: plain_candidate_def)
  have p: "to_int (decimal_int (hostPort c)) = hostPort c"
    using assms by (intro to_int_decimal_int) (auto simp: plain_candidate_def)
  show ?thesis
  proof (cases "hostType c = SRFLX \<or> hostType c = RELAY")
    case True
    then have "to_int (decimal_int (rPort c)) = rPort c"
      using assms by (intro to_int_decimal_int) (auto simp: plain_candidate_def)
    then show ?thesis using n p True unfolding candidate_split [OF assms]
      by (simp add: processCandidate_def candidate_pieces_def nth_checked_def carried_def)
  next
    case False
    then show ?thesis using n p unfolding candidate_split [OF assms]
      by (simp add: processCandidate_def candidate_pieces_def nth_checked_def carried_def)
  qed
qed

definition sample_candidate :: CandidateInfo where
  "sample_candidate = (raw_CandidateInfo sample_raw)\<lparr>foundation := ''4'', componentId := 1, netProtocol := ''udp'',
     ci_priority := 99, hostAddress := ''138.4.4.1'', hostPort := 4946, hostType := RELAY,
     rAddress := ''10.0.0.1'', rPort := 5353\<rparr>"

lemma candidate_reads_back_witness:
  "processCandidate sample_raw (splitOneOf (stringifyCandidate sample_candidate) '' :'' 0) VIDEO_TYPE ''x''
     (new_SdpInfo [] SENDRECV SENDRECV) =
   Inr (True, (new_SdpInfo [] SENDRECV SENDRECV)\<lparr>candidateVector := [carried sample_raw VIDEO_TYPE ''x'' sample_candidate]\<rparr>)"
proof -
  have p: "plain_candidate sample_candidate" by code_simp
  show ?thesis
    using candidate_reads_back [OF p, of sample_raw VIDEO_TYPE "''x''" "new_SdpInfo [] SENDRECV SENDRECV"]
    by (simp add: new_SdpInfo_def)
qed

text \<open>An address with colons falls apart: the candidate is dropped.\<close>

lemma candidate_of_ipv6_is_dropped:
  assumes "plain_candidate (c\<lparr>hostAddress := []\<rparr>)" "hostAddress c = ''::1''" "hostType c = HOST"
  shows "processCandidate m (splitOneOf (stringifyCandidate c) '' :'' 0) mtype line s = Inr (False, s)"
proof -
  let ?ps = "[(''a=candidate'', CHR '':''), (foundation c, CHR '' ''), (decimal (unat (componentId c)), CHR '' ''),
    (netProtocol c, CHR '' ''), (decimal (unat (ci_priority c)), CHR '' ''), ([], CHR '':''), ([], CHR '':''),
    (''1'', CHR '' ''), (decimal_int (hostPort c), CHR '' ''), (''typ'', CHR '' ''), (''host'', CHR '' ''),
    (''generation'', CHR '' '')]"
  have t: "stringifyCandidate c = pieces_text ?ps @ ''0''"
    using assms(2,3) by (simp add: stringifyCandidate_def pieces_text_def hostType_str_def)
  have "splitOneOf (stringifyCandidate c) '' :'' 0 = map fst ?ps @ [''0'']"
    unfolding t using assms(1) plain_digits [unfolded plain_word_def] plain_decimal_int [unfolded plain_word_def]
    by (subst splitOneOf_text) (auto simp: plain_candidate_def plain_word_def)
  then show ?thesis using assms(1)
    by (simp add: processCandidate_def nth_checked_def plain_candidate_def)
qed

end
