(* ===== verification/SdpPrinter.thy ===== *)
theory SdpPrinter
  imports SdpCodecs SdpCandidates
begin

text \<open>
  Writing a description: \<^verbatim>\<open>SdpInfo::getSdp\<close> and \<^verbatim>\<open>gen_random\<close>. The values of \<^verbatim>\<open>rand()\<close> are an argument.
  Two loops run over vectors with an index of one byte.
\<close>

definition alphanum :: string where
  "alphanum = ''0123456789ABCDEFGHIJKLMNOPQRSTUVWXYZabcdefghijklmnopqrstuvwxyz''"

definition gen_random :: "(nat \<Rightarrow> nat) \<Rightarrow> nat \<Rightarrow> string" where
  "gen_random rand n = map (\<lambda>i. alphanum ! (rand i mod length alphanum)) [0..<n]"

definition text_line :: "string \<Rightarrow> string" where
  "text_line l = l @ [CHR 0x0A]"

lemma butlast_text_line [simp]: "butlast (text_line l) = l"
  by (simp add: text_line_def)

definition print_uint :: "u32 \<Rightarrow> string" where
  "print_uint w = decimal (unat w)"

definition profile_text :: "Profile \<Rightarrow> string" where
  "profile_text p = (case p of SAVPF \<Rightarrow> '' UDP/TLS/RTP/SAVPF '' | AVPF \<Rightarrow> '' RTP/AVPF '')"

text \<open>The payload types of a medium: a blank follows while the counter is below the number of codecs.\<close>

fun payload_list :: "mediaType \<Rightarrow> int \<Rightarrow> int \<Rightarrow> RtpMap list \<Rightarrow> string" where
  "payload_list mt codecs counter [] = []"
| "payload_list mt codecs counter (r # rs) =
     (if media_type r = mt
      then print_uint (payload_type r) @ (if counter + 1 < codecs then '' '' else []) @ payload_list mt codecs (counter + 1) rs
      else payload_list mt codecs counter rs)"

definition setup_line :: "DtlsRole \<Rightarrow> string" where
  "setup_line role = text_line (case role of
     ACTPASS \<Rightarrow> ''a=setup:actpass'' | PASSIVE \<Rightarrow> ''a=setup:passive'' | ACTIVE \<Rightarrow> ''a=setup:active'')"

definition direction_line :: "StreamDirection \<Rightarrow> string" where
  "direction_line d = text_line (case d of
     SENDONLY \<Rightarrow> ''a=sendonly'' | SENDRECV \<Rightarrow> ''a=sendrecv'' | RECVONLY \<Rightarrow> ''a=recvonly'')"

definition extmap_lines :: "mediaType \<Rightarrow> SdpInfo \<Rightarrow> string checked" where
  "extmap_lines mt s = for_bytes (\<lambda>e out. out @
     (if ext_mediaType e = mt \<and> isValidExtension (ext_uri e) s
      then text_line (''a=extmap:'' @ print_uint (ext_value e) @ '' '' @ ext_uri e) else [])) (extMapVector s) []"

definition mid_lines :: "mediaType \<Rightarrow> SdpInfo \<Rightarrow> string checked" where
  "mid_lines mt s = for_bytes (\<lambda>t out. out @
     (if tag_mediaType t = mt then text_line (''a=mid:'' @ tag_id t) else [])) (bundleTags s) []"

definition crypto_lines :: "mediaType \<Rightarrow> SdpInfo \<Rightarrow> string" where
  "crypto_lines mt s = concat (map (\<lambda>c.
     text_line (''a=crypto:'' @ decimal_int (crypto_tag c) @ '' '' @ cipherSuite c @ '' inline:'' @ keyParams c))
     (filter (\<lambda>c. crypto_mediaType c = mt) (cryptoVector s)))"

definition feedback_lines :: "RtpMap \<Rightarrow> string" where
  "feedback_lines rtp = concat (map (\<lambda>f.
     text_line (''a=rtcp-fb:'' @ decimal_int (sint (payload_type rtp)) @ '' '' @ f)) (feedback_types rtp))"

definition fmtp_lines :: "RtpMap \<Rightarrow> string" where
  "fmtp_lines rtp = concat (map (\<lambda>(k, v).
     text_line (''a=fmtp:'' @ decimal_int (sint (payload_type rtp)) @ '' '' @
       (if k \<noteq> ''none'' then k @ ''='' @ v else v))) (format_parameters rtp))"

definition rtpmap_line :: "bool \<Rightarrow> RtpMap \<Rightarrow> string" where
  "rtpmap_line with_channels rtp =
     text_line (''a=rtpmap:'' @ decimal_int (sint (payload_type rtp)) @ '' '' @ encoding_name rtp @ ''/'' @
       print_uint (clock_rate rtp) @
       (if with_channels \<and> 1 < channels rtp then ''/'' @ print_uint (channels rtp) else []))"

text \<open>Only the audio section prints the channels.\<close>

definition codec_lines :: "mediaType \<Rightarrow> SdpInfo \<Rightarrow> string" where
  "codec_lines mt s = concat (map (\<lambda>rtp.
     rtpmap_line (mt = AUDIO_TYPE) rtp @ feedback_lines rtp @ fmtp_lines rtp)
     (filter (\<lambda>rtp. media_type rtp = mt) (payloadVector s)))"

definition ssrc_lines :: "string \<Rightarrow> string \<Rightarrow> u32 \<Rightarrow> string" where
  "ssrc_lines msid track ssrc =
     text_line (''a=ssrc:'' @ print_uint ssrc @ '' cname:o/i14u9pJrxRKAsu'') @
     text_line (''a=ssrc:'' @ print_uint ssrc @ '' msid:'' @ msid @ '' '' @ track) @
     text_line (''a=ssrc:'' @ print_uint ssrc @ '' mslabel:'' @ msid) @
     text_line (''a=ssrc:'' @ print_uint ssrc @ '' label:'' @ msid @ track)"

definition candidate_lines :: "(CandidateInfo \<Rightarrow> bool) \<Rightarrow> SdpInfo \<Rightarrow> string" where
  "candidate_lines P s = concat (map (\<lambda>c. text_line (stringifyCandidate c)) (filter P (candidateVector s)))"

definition fingerprint_line :: "SdpInfo \<Rightarrow> string" where
  "fingerprint_line s = (if isFingerprint s then text_line (''a=fingerprint:sha-256 '' @ fingerprint s) else [])"

definition section_head :: "string \<Rightarrow> mediaType \<Rightarrow> int \<Rightarrow> SdpInfo \<Rightarrow> string" where
  "section_head name mt codecs s =
     name @ profile_text (profile s) @ text_line (payload_list mt codecs 0 (payloadVector s)) @
     text_line ''c=IN IP4 0.0.0.0'' @
     (if isRtcpMux s then text_line ''a=rtcp:1 IN IP4 0.0.0.0'' else [])"

definition bundle_text :: "string \<Rightarrow> SdpInfo \<Rightarrow> string checked" where
  "bundle_text msid s =
     (if isBundle s
      then and_then (for_bytes (\<lambda>t out. out @ '' '' @ tag_id t) (bundleTags s) []) (\<lambda>tags.
             Inr (text_line (''a=group:BUNDLE'' @ tags) @ text_line (''a=msid-semantic: WMS '' @ msid)))
      else Inr [])"

definition audio_text :: "string \<Rightarrow> SdpInfo \<Rightarrow> (string \<times> SdpInfo) checked" where
  "audio_text msid s =
     (if hasAudio s
      then
        and_then (extmap_lines AUDIO_TYPE s) (\<lambda>extensions.
        and_then (mid_lines AUDIO_TYPE s) (\<lambda>mids.
          let credentials = (if 0 < length (iceAudioUsername s)
                then text_line (''a=ice-ufrag:'' @ iceAudioUsername s) @ text_line (''a=ice-pwd:'' @ iceAudioPassword s)
                else text_line (''a=ice-ufrag:'' @ iceVideoUsername s) @ text_line (''a=ice-pwd:'' @ iceVideoPassword s));
              s' = (if audio_ssrc s = 0 then s\<lparr>audio_ssrc := 44444\<rparr> else s)
          in Inr (section_head ''m=audio 1'' AUDIO_TYPE (audioCodecs s) s
               @ candidate_lines (\<lambda>c. ci_mediaType c = AUDIO_TYPE \<or> isBundle s) s
               @ credentials @ fingerprint_line s @ setup_line (dtlsRole s) @ direction_line (audioDirection s)
               @ extensions @ mids @ (if isRtcpMux s then text_line ''a=rtcp-mux'' else [])
               @ crypto_lines AUDIO_TYPE s @ codec_lines AUDIO_TYPE s
               @ (if audioDirection s \<noteq> RECVONLY then ssrc_lines msid ''a0'' (audio_ssrc s') else []), s')))
      else Inr ([], s))"

definition video_text :: "string \<Rightarrow> SdpInfo \<Rightarrow> (string \<times> SdpInfo) checked" where
  "video_text msid s =
     (if hasVideo s
      then
        and_then (extmap_lines VIDEO_TYPE s) (\<lambda>extensions.
        and_then (mid_lines VIDEO_TYPE s) (\<lambda>mids.
          let s' = (if video_ssrc_list s = [] then s\<lparr>video_ssrc_list := video_ssrc_list s @ [55543]\<rparr> else s)
          in Inr (section_head ''m=video 1'' VIDEO_TYPE (videoCodecs s) s
               @ candidate_lines (\<lambda>c. ci_mediaType c = VIDEO_TYPE) s
               @ text_line (''a=ice-ufrag:'' @ iceVideoUsername s) @ text_line (''a=ice-pwd:'' @ iceVideoPassword s)
               @ extensions @ fingerprint_line s @ setup_line (dtlsRole s) @ direction_line (videoDirection s)
               @ mids @ (if isRtcpMux s then text_line ''a=rtcp-mux'' else [])
               @ crypto_lines VIDEO_TYPE s @ codec_lines VIDEO_TYPE s
               @ (if videoDirection s \<noteq> RECVONLY
                  then concat (map (ssrc_lines msid ''v0'') (video_ssrc_list s')) else []), s')))
      else Inr ([], s))"

definition getSdp :: "(nat \<Rightarrow> nat) \<Rightarrow> SdpInfo \<Rightarrow> (string \<times> SdpInfo) checked" where
  "getSdp rand s =
     (let msid = gen_random rand 10;
          head = text_line ''v=0'' @ text_line ''o=- 0 0 IN IP4 127.0.0.1'' @ text_line ''s=LicodeMCU'' @ text_line ''t=0 0''
      in and_then (bundle_text msid s) (\<lambda>bundle.
         and_then (audio_text msid s) (\<lambda>(audio, s).
         and_then (video_text msid s) (\<lambda>(video, s).
           Inr (head @ bundle @ audio @ video, s)))))"

subsection \<open>Properties\<close>

text \<open>
  C22: \<open>getSdp\<close> returns exactly when the loops with an index of one byte come to an end: no more than
  255 bundle tags where the tags are printed, and no more than 255 extensions where a medium is.
\<close>
theorem getSdp_returns:
  "(\<exists>r. getSdp rand s = Inr r) \<longleftrightarrow>
     (if isBundle s \<or> hasAudio s \<or> hasVideo s then length (bundleTags s) else 0) < 256 \<and>
     (if hasAudio s \<or> hasVideo s then length (extMapVector s) else 0) < 256"
proof -
  have b: "(\<exists>r. bundle_text msid s = Inr r) \<longleftrightarrow> (isBundle s \<longrightarrow> length (bundleTags s) < 256)" for msid
    by (simp add: bundle_text_def for_bytes_eq)
  have a: "(\<exists>r. audio_text msid s = Inr r) \<longleftrightarrow>
      (hasAudio s \<longrightarrow> length (extMapVector s) < 256 \<and> length (bundleTags s) < 256)" for msid
    by (simp add: audio_text_def extmap_lines_def mid_lines_def for_bytes_eq Let_def)
  have k: "hasVideo t = hasVideo s \<and> extMapVector t = extMapVector s \<and> bundleTags t = bundleTags s"
    if "audio_text msid s = Inr (x, t)" for msid x t
    using that by (auto simp: audio_text_def Let_def split: if_splits)
  have v: "(\<exists>r. video_text msid t = Inr r) \<longleftrightarrow>
      (hasVideo t \<longrightarrow> length (extMapVector t) < 256 \<and> length (bundleTags t) < 256)" for msid t
    by (simp add: video_text_def extmap_lines_def mid_lines_def for_bytes_eq Let_def)
  let ?m = "gen_random rand 10"
  show ?thesis
  proof (cases "\<exists>x t. audio_text ?m s = Inr (x, t)")
    case True
    then obtain x t where x: "audio_text ?m s = Inr (x, t)" by blast
    have "(\<exists>r. getSdp rand s = Inr r) \<longleftrightarrow> (\<exists>r. bundle_text ?m s = Inr r) \<and> (\<exists>r. video_text ?m t = Inr r)"
      by (auto simp: getSdp_def Let_def x)
    then show ?thesis using a [of ?m] b [of ?m] v [of ?m t] k [OF x] x by auto
  next
    case False
    then have "\<not> (\<exists>r. audio_text ?m s = Inr r)" by auto
    moreover from this have "\<not> (\<exists>r. getSdp rand s = Inr r)" by (auto simp: getSdp_def Let_def)
    ultimately show ?thesis using a [of ?m] by auto
  qed
qed

text \<open>
  The \<^verbatim>\<open>a=rtpmap\<close> line that \<open>getSdp\<close> writes for a codec, with or without its channels, is read back by
  \<open>processSdp\<close> as this codec: the entry of its payload type gets its name, its clock rate and the
  medium of the section. The name holds no separator.
\<close>
theorem codec_line_reads_back:
  assumes "set (encoding_name rtp) \<inter> set ('' :/'' @ [CHR 0x0A]) = {}"
  shows "line_rtpmap m mt (butlast (rtpmap_line ch rtp)) s =
    Inr (with_parsed m (payload_type rtp) (\<lambda>r. r\<lparr>payload_type := payload_type rtp,
      encoding_name := encoding_name rtp, clock_rate := clock_rate rtp, media_type := mt\<rparr>) s)"
proof -
  let ?d = "'' :/'' @ [CHR 0x0A]"
  let ?pt = "decimal_int (sint (payload_type rtp))"
  let ?ps = "[(''a=rtpmap'', CHR '':''), (?pt, CHR '' ''), (encoding_name rtp, CHR ''/'')]"
  let ?clock = "decimal (unat (clock_rate rtp))"
  have digits: "set (decimal n) \<inter> set ?d = {}" for n
    using decimal_digits [of n] by (auto simp: list_all_iff is_digit_def)
  then have pieces: "set ?pt \<inter> set ?d = {}" by (auto simp: decimal_int_def)
  have pt: "to_uint ?pt = payload_type rtp"
    using sint_greater_eq [of "payload_type rtp"] sint_less [of "payload_type rtp"]
    by (subst to_uint_decimal_int) simp_all
  have found: "found_in ''a=rtpmap:'' (butlast (rtpmap_line ch rtp))"
    unfolding rtpmap_line_def butlast_text_line found_in_iff by (metis append_Nil)
  have "\<exists>rest. splitOneOf (butlast (rtpmap_line ch rtp)) ?d 4 = [''a=rtpmap'', ?pt, encoding_name rtp, ?clock] @ rest"
  proof (cases "ch \<and> 1 < channels rtp")
    case True
    let ?l = "decimal (unat (channels rtp))"
    have t: "butlast (rtpmap_line ch rtp) = pieces_text (?ps @ [(?clock, CHR ''/'')]) @ ?l"
      using True by (simp add: rtpmap_line_def pieces_text_def print_uint_def)
    have "splitOneOf (butlast (rtpmap_line ch rtp)) ?d 4 = map fst (?ps @ [(?clock, CHR ''/'')]) @ [?l]"
      unfolding t using pieces digits assms by (subst splitOneOf_text) auto
    then show ?thesis by simp
  next
    case False
    have t: "butlast (rtpmap_line ch rtp) = pieces_text ?ps @ ?clock"
      using False by (auto simp: rtpmap_line_def pieces_text_def print_uint_def)
    have "splitOneOf (butlast (rtpmap_line ch rtp)) ?d 4 = map fst ?ps @ [?clock]"
      unfolding t using pieces digits assms by (subst splitOneOf_text) auto
    then show ?thesis by simp
  qed
  then show ?thesis using found pt by (auto simp: line_rtpmap_def nth_checked_def Let_def)
qed

lemma codec_line_reads_back_witness:
  "line_rtpmap sample_raw VIDEO_TYPE (butlast (rtpmap_line True (hd own_codecs))) (new_SdpInfo [] SENDRECV SENDRECV) =
    Inr (with_parsed sample_raw 100 (\<lambda>r. r\<lparr>payload_type := 100,
      encoding_name := ''VP8'', clock_rate := 90000, media_type := VIDEO_TYPE\<rparr>) (new_SdpInfo [] SENDRECV SENDRECV))"
  using codec_line_reads_back [of "hd own_codecs" sample_raw VIDEO_TYPE True "new_SdpInfo [] SENDRECV SENDRECV"]
  by (simp add: own_codecs_def)

text \<open>What is written for the role and the direction is read back.\<close>

lemma setup_reads_back: "line_setup (butlast (setup_line role)) s = Inr (s\<lparr>dtlsRole := role\<rparr>)"
proof -
  have "splitOneOf (butlast (setup_line role)) '':'' 1 =
      [''a=setup'', case role of ACTPASS \<Rightarrow> ''actpass'' | PASSIVE \<Rightarrow> ''passive'' | ACTIVE \<Rightarrow> ''active'']"
    by (cases role; simp; code_simp)
  moreover have "found_in ''a=setup:'' (butlast (setup_line role))" by (cases role; simp; code_simp)
  moreover have "found_in ''passive'' ''passive''" "found_in ''active'' ''active''" "\<not> found_in ''passive'' ''active''"
    "\<not> found_in ''passive'' ''actpass''" "\<not> found_in ''active'' ''actpass''" by code_simp+
  ultimately show ?thesis by (cases role) (simp_all add: line_setup_def nth_checked_def)
qed

lemma direction_reads_back:
  "line_direction mt (butlast (direction_line d)) s = set_direction mt d s"
proof -
  have "found_in ''a=recvonly'' (butlast (direction_line d)) = (d = RECVONLY)"
    "found_in ''a=sendonly'' (butlast (direction_line d)) = (d = SENDONLY)"
    "found_in ''a=sendrecv'' (butlast (direction_line d)) = (d = SENDRECV)"
    by (cases d; simp; code_simp)+
  then show ?thesis by (cases d) (simp_all add: line_direction_def)
qed

text \<open>The payload types of a medium stand apart when the codecs have been counted right.\<close>

lemma payload_list_separated:
  assumes "codecs = counter + int (length (filter (\<lambda>r. media_type r = mt) rtps))"
    and "filter (\<lambda>r. media_type r = mt) rtps = rs @ [r]"
  shows "payload_list mt codecs counter rtps =
    pieces_text (map (\<lambda>q. (print_uint (payload_type q), CHR '' '')) rs) @ print_uint (payload_type r)"
  using assms
proof (induction rtps arbitrary: counter rs)
  case Nil
  then show ?case by simp
next
  case (Cons p rtps)
  have none: "payload_list mt c k xs = []" if "filter (\<lambda>r. media_type r = mt) xs = []" for c k xs
    using that by (induction xs arbitrary: k) (auto split: if_splits)
  show ?case
  proof (cases "media_type p = mt")
    case False
    then show ?thesis using Cons by simp
  next
    case p: True
    show ?thesis
    proof (cases rs)
      case Nil
      then have "filter (\<lambda>r. media_type r = mt) rtps = []" "p = r" using Cons.prems p by auto
      then show ?thesis using Cons.prems p Nil none by (simp add: pieces_text_def)
    next
      case (Cons q qs)
      then have f: "filter (\<lambda>r. media_type r = mt) rtps = qs @ [r]" "p = q" using Cons.prems(2) p by auto
      have "codecs = counter + 1 + int (length (filter (\<lambda>r. media_type r = mt) rtps))"
        using Cons.prems(1) p by simp
      note ih = Cons.IH [OF this f(1)]
      show ?thesis using ih f p Cons Cons.prems(1) by (simp add: pieces_text_def)
    qed
  qed
qed

end
