(* ===== verification/WebRtcConnection.thy ===== *)
theory WebRtcConnection
  imports RtpExtensionProcessor RtcpHeader RtpUtils SdpPrinter
begin

text \<open>
  \<^verbatim>\<open>WebRtcConnection.cpp\<close>, the state of a connection and the way of the packets through it. What a
  connection does to others (its transports, its pipeline, its sinks, its listener, the tasks for
  its worker) is a list of outputs in the order of the calls. A transport shows its state only.
\<close>

datatype webRTCEvent = CONN_INITIAL | CONN_STARTED | CONN_GATHERED | CONN_READY | CONN_FINISHED
  | CONN_CANDIDATE | CONN_SDP | CONN_FAILED

text \<open>The values of the enumeration: \<^verbatim>\<open>getCurrentState() >= CONN_GATHERED\<close> compares them.\<close>

definition event_value :: "webRTCEvent \<Rightarrow> nat" where
  "event_value e = (case e of CONN_INITIAL \<Rightarrow> 101 | CONN_STARTED \<Rightarrow> 102 | CONN_GATHERED \<Rightarrow> 103 | CONN_READY \<Rightarrow> 104
     | CONN_FINISHED \<Rightarrow> 105 | CONN_CANDIDATE \<Rightarrow> 201 | CONN_SDP \<Rightarrow> 202 | CONN_FAILED \<Rightarrow> 500)"

datatype transportState = TRANSPORT_INITIAL | TRANSPORT_STARTED | TRANSPORT_GATHERED | TRANSPORT_READY
  | TRANSPORT_FINISHED | TRANSPORT_FAILED

record webRtcConnection =
  remoteSdp :: SdpInfo
  localSdp :: SdpInfo
  audioEnabled :: bool
  videoEnabled :: bool
  trickleEnabled :: bool
  shouldSendFeedback :: bool
  slide_show_mode :: bool
  sending :: bool
  bundled :: bool
  connEventListener :: bool
  rtp_mappings :: "RtpMap list"
  extProcessor :: extensionProcessor
  rateControl :: u32
  mark_time :: int
  videoTransport :: "transportState option"
  audioTransport :: "transportState option"
  globalState :: webRTCEvent
  audio_muted :: bool
  video_muted :: bool
  pipeline_initialized :: bool
  pipeline_there :: bool
  source_of :: mediaSource
  sink_of :: mediaSink
  has_video_sink :: bool
  has_audio_sink :: bool
  has_fb_sink :: bool

datatype wc_out =
    Notify webRTCEvent string
  | StartTransport mediaType bool bool string string bool
  | CloseTransport mediaType
  | RemoteCredentials mediaType string string
  | RemoteCandidates mediaType "CandidateInfo list" bool
  | LastCandidate mediaType
  | TransportWrite mediaType mem int
  | PipelineInit "string list" | PipelineRead dataPacket | PipelineWrite dataPacket | PipelineNotifyUpdate | PipelineClose
  | DeliverVideo dataPacket | DeliverAudio dataPacket | DeliverFeedback dataPacket
  | SendTask dataPacket | SendPoison
  | MaxVideoBW u32 | AddSourceSsrc u32
  | SlideShowTask bool | TrackTask mediaType string
  | InsertStat u32 string bool | InsertHostType u32 string

type_synonym wc_result = "(webRtcConnection \<times> wc_out list) checked"

definition kDefaultVideoSinkSSRC :: u32 where "kDefaultVideoSinkSSRC = 55543"
definition kDefaultAudioSinkSSRC :: u32 where "kDefaultAudioSinkSSRC = 44444"

text \<open>Milliseconds.\<close>

definition kBitrateControlPeriod :: int where "kBitrateControlPeriod = 100"

definition new_WebRtcConnection ::
    "RtpMap list \<Rightarrow> ExtMap list \<Rightarrow> bool \<Rightarrow> bool \<Rightarrow> int \<Rightarrow> StreamDirection \<Rightarrow> webRtcConnection" where
  "new_WebRtcConnection mappings extensions should_trickle listener now raw =
     \<lparr>remoteSdp = new_SdpInfo mappings raw raw, localSdp = new_SdpInfo mappings raw raw, audioEnabled = False,
      videoEnabled = False, trickleEnabled = should_trickle, shouldSendFeedback = True, slide_show_mode = False,
      sending = True, bundled = False, connEventListener = listener, rtp_mappings = mappings,
      extProcessor = new_RtpExtensionProcessor extensions, rateControl = 0, mark_time = now, videoTransport = None,
      audioTransport = None, globalState = CONN_INITIAL, audio_muted = False, video_muted = False,
      pipeline_initialized = False, pipeline_there = True, source_of = new_mediaSource,
      sink_of = \<lparr>audio_sink_ssrc = kDefaultAudioSinkSSRC, video_sink_ssrc = kDefaultVideoSinkSSRC\<rparr>,
      has_video_sink = False, has_audio_sink = False, has_fb_sink = False\<rparr>"

definition wc_close :: "webRtcConnection \<Rightarrow> webRtcConnection \<times> wc_out list" where
  "wc_close c =
     (if \<not> sending c then (c, [])
      else (c\<lparr>sending := False, globalState := CONN_FINISHED, connEventListener := False, has_video_sink := False,
              has_audio_sink := False, has_fb_sink := False, pipeline_there := False\<rparr>,
            (if videoTransport c \<noteq> None then [CloseTransport VIDEO_TYPE] else []) @
            (if audioTransport c \<noteq> None then [CloseTransport AUDIO_TYPE] else []) @ [PipelineClose]))"

definition wc_init :: "webRtcConnection \<Rightarrow> wc_out list" where
  "wc_init c = (if connEventListener c then [Notify (globalState c) []] else [])"

subsection \<open>Payload types\<close>

definition changeDeliverPayloadType :: "webRtcConnection \<Rightarrow> packetType \<Rightarrow> mem \<Rightarrow> mem" where
  "changeDeliverPayloadType c type m =
     (if isRtcp m 0 then m
      else let internalPT = ucast (getPayloadType m) :: u32;
               externalPT = (case type of AUDIO_PACKET \<Rightarrow> getAudioExternalPT internalPT (remoteSdp c)
                             | VIDEO_PACKET \<Rightarrow> getVideoExternalPT internalPT (remoteSdp c) | OTHER_PACKET \<Rightarrow> internalPT)
           in if internalPT \<noteq> externalPT then setPayloadType (ucast externalPT) m else m)"

definition parseIncomingPayloadType :: "webRtcConnection \<Rightarrow> packetType \<Rightarrow> mem \<Rightarrow> mem" where
  "parseIncomingPayloadType c type m =
     (if isRtcp m 0 then m
      else let externalPT = ucast (getPayloadType m) :: u32;
               internalPT = (case type of AUDIO_PACKET \<Rightarrow> getAudioInternalPT externalPT (remoteSdp c)
                             | VIDEO_PACKET \<Rightarrow> getVideoInternalPT externalPT (remoteSdp c) | OTHER_PACKET \<Rightarrow> externalPT)
           in if externalPT \<noteq> internalPT then setPayloadType (ucast internalPT) m else m)"

subsection \<open>Packets to the peer\<close>

definition sendPacketAsync :: "dataPacket \<Rightarrow> webRtcConnection \<Rightarrow> webRtcConnection \<times> wc_out list" where
  "sendPacketAsync packet c =
     (if \<not> sending c \<or> globalState c \<noteq> CONN_READY then (c, [])
      else if comp packet = -1 then (c\<lparr>sending := False\<rparr>, [SendPoison])
      else (c, [SendTask (packet\<lparr>data := changeDeliverPayloadType c (packet_type packet) (data packet)\<rparr>)]))"

text \<open>The task. \<open>sentVideoBytes\<close> and \<open>lastSecondVideoBytes\<close> are locals of the code, 0 at each call.\<close>

definition sendPacket :: "int \<Rightarrow> dataPacket \<Rightarrow> webRtcConnection \<Rightarrow> wc_result" where
  "sendPacket now p c =
     (if \<not> sending c then Inr (c, [])
      else
        let sentVideoBytes = 0 :: u64; lastSecondVideoBytes = 0 :: u64;
            (finished, c) =
              (if rateControl c \<noteq> 0 \<and> \<not> slide_show_mode c \<and> packet_type p = VIDEO_PACKET
               then if rateControl c = 1 then (True, c)
                    else
                      let (c, lastSecondVideoBytes) =
                            (if kBitrateControlPeriod \<le> now - mark_time c
                             then (c\<lparr>mark_time := now\<rparr>, sentVideoBytes) else (c, lastSecondVideoBytes));
                          partial_bitrate = ucast ((sentVideoBytes - lastSecondVideoBytes) * 8 * 10) :: u32
                      in (rateControl c < partial_bitrate, c)
               else (False, c))
        in if finished then Inr (c, [])
           else if \<not> pipeline_initialized c then Inr (c, [])
           else if \<not> pipeline_there c then Inl Null_pointer
           else Inr (c, [PipelineWrite p]))"

definition wc_deliverAudioData :: "dataPacket \<Rightarrow> webRtcConnection \<Rightarrow> webRtcConnection \<times> wc_out list" where
  "wc_deliverAudioData packet c =
     (if bundled c
      then if videoTransport c \<noteq> None \<and> audioEnabled c then sendPacketAsync packet c else (c, [])
      else if audioTransport c \<noteq> None \<and> audioEnabled c then sendPacketAsync packet c else (c, []))"

definition wc_deliverVideoData :: "dataPacket \<Rightarrow> webRtcConnection \<Rightarrow> webRtcConnection \<times> wc_out list" where
  "wc_deliverVideoData packet c =
     (if videoTransport c \<noteq> None \<and> videoEnabled c then sendPacketAsync packet c else (c, []))"

definition wc_deliverFeedback :: "dataPacket \<Rightarrow> webRtcConnection \<Rightarrow> webRtcConnection \<times> wc_out list" where
  "wc_deliverFeedback packet c =
     (let recvSSRC = getSourceSSRC (data packet) 0
      in if isVideoSourceSSRC (source_of c) recvSSRC then sendPacketAsync (packet\<lparr>packet_type := VIDEO_PACKET\<rparr>) c
         else if isAudioSourceSSRC (source_of c) recvSSRC then sendPacketAsync (packet\<lparr>packet_type := AUDIO_PACKET\<rparr>) c
         else (c, []))"

text \<open>The end of the pipeline; the time is that of the extension.\<close>

definition wc_write :: "int \<Rightarrow> dataPacket \<Rightarrow> webRtcConnection \<Rightarrow> wc_out list checked" where
  "wc_write now packet c =
     (let video = (bundled c \<or> packet_type packet = VIDEO_PACKET);
          transport = (if video then videoTransport c else audioTransport c)
      in case transport of None \<Rightarrow> Inr []
         | Some _ \<Rightarrow> and_then (processRtpExtensions now (extProcessor c) packet) (\<lambda>(_, packet).
             Inr [TransportWrite (if video then VIDEO_TYPE else AUDIO_TYPE) (data packet) (packet_length packet)]))"

definition wc_sendPLI :: "u64 \<Rightarrow> webRtcConnection \<Rightarrow> wc_result" where
  "wc_sendPLI now c =
     (case getVideoSourceSSRC (source_of c) of None \<Rightarrow> Inl Out_of_bounds
      | Some ssrc \<Rightarrow>
          let pli = new_RtcpHeader 0 zero_mem;
              pli = setPacketType 0 RTCP_PS_Feedback_PT pli;
              pli = setBlockCount 0 1 pli;
              pli = rtcp_setSSRC 0 (video_sink_ssrc (sink_of c)) pli;
              pli = setSourceSSRC 0 ssrc pli;
              pli = rtcp_setLength 0 2 pli;
              len = (int (unat (rtcp_getLength pli 0)) + 1) * 4
          in Inr (sendPacketAsync (new_dataPacket 0 pli len VIDEO_PACKET now) c))"

subsection \<open>Packets from the peer\<close>

definition onTransportData :: "dataPacket \<Rightarrow> mediaType \<Rightarrow> webRtcConnection \<Rightarrow> wc_out list" where
  "onTransportData packet transport_type c =
     (if \<not> has_audio_sink c \<and> \<not> has_video_sink c \<and> \<not> has_fb_sink c \<or> globalState c \<noteq> CONN_READY then []
      else
        let packet = (case transport_type of AUDIO_TYPE \<Rightarrow> packet\<lparr>packet_type := AUDIO_PACKET\<rparr>
                      | VIDEO_TYPE \<Rightarrow> packet\<lparr>packet_type := VIDEO_PACKET\<rparr> | OTHER \<Rightarrow> packet);
            recvSSRC = getSSRC (data packet);
            packet = (if isRtcp (data packet) 0 then packet
                      else if isVideoSourceSSRC (source_of c) recvSSRC then packet\<lparr>packet_type := VIDEO_PACKET\<rparr>
                      else if isAudioSourceSSRC (source_of c) recvSSRC then packet\<lparr>packet_type := AUDIO_PACKET\<rparr>
                      else packet)
        in if \<not> pipeline_initialized c then [] else [PipelineRead packet])"

text \<open>
  The end of the pipeline in this direction. \<open>raw_ssrc\<close> is what the local \<^verbatim>\<open>recvSSRC\<close> holds when it is
  not set: for RTCP other than sender reports.
\<close>

definition wc_read :: "u32 \<Rightarrow> dataPacket \<Rightarrow> webRtcConnection \<Rightarrow> wc_result" where
  "wc_read raw_ssrc packet c =
     (let m = data packet;
          recvSSRC = (if \<not> isRtcp m 0 then getSSRC m
                      else if getPacketType m 0 = RTCP_Sender_PT then rtcp_getSSRC m 0 else raw_ssrc)
      in if isFeedback m 0
         then Inr (c, if has_fb_sink c \<and> shouldSendFeedback c then [DeliverFeedback packet] else [])
         else if bundled c
         then if isVideoSourceSSRC (source_of c) recvSSRC
              then if has_video_sink c
                   then Inr (c, [DeliverVideo (packet\<lparr>data := parseIncomingPayloadType c VIDEO_PACKET m\<rparr>)])
                   else Inl Null_pointer
              else if isAudioSourceSSRC (source_of c) recvSSRC
              then if has_audio_sink c
                   then Inr (c, [DeliverAudio (packet\<lparr>data := parseIncomingPayloadType c AUDIO_PACKET m\<rparr>)])
                   else Inl Null_pointer
              else Inr (c, [])
         else if packet_type packet = AUDIO_PACKET \<and> has_audio_sink c
         then let c' = (if audio_source_ssrc (source_of c) = 0
                        then c\<lparr>source_of := (source_of c)\<lparr>audio_source_ssrc := recvSSRC\<rparr>\<rparr> else c)
              in Inr (c', [DeliverAudio (packet\<lparr>data := parseIncomingPayloadType c AUDIO_PACKET m\<rparr>)])
         else if packet_type packet = VIDEO_PACKET \<and> has_video_sink c
         then case getVideoSourceSSRC (source_of c) of None \<Rightarrow> Inl Out_of_bounds
              | Some known \<Rightarrow>
                  let c' = (if known = 0
                            then c\<lparr>source_of := the (setVideoSourceSSRC recvSSRC (source_of c))\<rparr> else c)
                  in Inr (c', [DeliverVideo (packet\<lparr>data := parseIncomingPayloadType c VIDEO_PACKET m\<rparr>)])
         else Inr (c, []))"

subsection \<open>Payload types out and back\<close>

lemma payload_put_back: "setPayloadType (getPayloadType m) (setPayloadType v m) = m"
proof
  fix i
  show "setPayloadType (getPayloadType m) (setPayloadType v m) i = m i"
  proof (cases "i = 1")
    case True
    have "put_bits 0 7 (get_bits 0 7 (m 1)) (put_bits 0 7 v (m 1)) = m 1"
      by (rule bit_word_eqI) (auto simp: bit_put_bits get_bits_def bit_simps dest: bit_imp_le_length)
    then show ?thesis using True by (simp add: setPayloadType_def getPayloadType_def store8_def)
  next
    case False
    then show ?thesis by (simp add: setPayloadType_def store8_def)
  qed
qed

lemma small_payload_type: "e < 128 \<Longrightarrow> ucast (take_bit 7 (ucast (e :: u32) :: u8)) = e"
proof -
  assume "e < 128"
  then have e: "unat e < 128" by (simp add: word_less_nat_alt)
  then have "unat (take_bit 7 (ucast e :: u8)) = unat e" by (simp only: unat_take_bit unat_ucast_mod) simp
  then have "unat (ucast (take_bit 7 (ucast e :: u8)) :: u32) = unat e" using e by (simp only: unat_ucast_mod) simp
  then show ?thesis by (simp add: word_unat_eq_iff)
qed

lemma parse_undoes_change:
  assumes no_rtcp: "\<not> isRtcp d 0" "\<not> isRtcp (changeDeliverPayloadType c VIDEO_PACKET d) 0"
    and i: "ucast (getPayloadType d) = i" and e: "getVideoExternalPT i (remoteSdp c) < 128"
    and again: "getVideoInternalPT (getVideoExternalPT i (remoteSdp c)) (remoteSdp c) = i"
  shows "parseIncomingPayloadType c VIDEO_PACKET (changeDeliverPayloadType c VIDEO_PACKET d) = d
    \<and> ucast (getPayloadType (changeDeliverPayloadType c VIDEO_PACKET d)) = getVideoExternalPT i (remoteSdp c)"
proof (cases "i = getVideoExternalPT i (remoteSdp c)")
  case True
  then have "changeDeliverPayloadType c VIDEO_PACKET d = d"
    using no_rtcp(1) by (simp add: changeDeliverPayloadType_def Let_def i)
  moreover have "getVideoInternalPT i (remoteSdp c) = i" using again True by simp
  ultimately show ?thesis using no_rtcp(1) i True by (simp add: parseIncomingPayloadType_def Let_def)
next
  case False
  let ?e = "getVideoExternalPT i (remoteSdp c)"
  have c: "changeDeliverPayloadType c VIDEO_PACKET d = setPayloadType (ucast ?e) d"
    using no_rtcp(1) False by (simp add: changeDeliverPayloadType_def Let_def i)
  have p: "ucast (getPayloadType (setPayloadType (ucast ?e) d)) = ?e"
    using small_payload_type [OF e] by (simp add: rtp_payload.get_put)
  have "(ucast i :: u8) = getPayloadType d" unfolding i [symmetric] by (rule bit_word_eqI) (simp add: bit_simps)
  then have "parseIncomingPayloadType c VIDEO_PACKET (setPayloadType (ucast ?e) d) = d"
    using no_rtcp(2) False again unfolding c
    by (simp add: parseIncomingPayloadType_def Let_def small_payload_type [OF e] payload_put_back)
  then show ?thesis unfolding c using p by simp
qed

text \<open>
  C16: Renumbering on the way out and on the way in are inverse: the remote description has been parsed and accepted,
  the program's table has distinct payload types and (''rtx'' apart) no two entries with the same name and clock rate,
  and a video packet has the payload type of an entry that is not ''rtx'' and that has been negotiated with the peer.
  Then \<open>changeDeliverPayloadType\<close> gives the packet the peer's number for this codec, and \<open>parseIncomingPayloadType\<close>
  on the result gives the packet back byte for byte. The peer's number must be below 128, and neither the packet nor
  the renumbered one may be taken for RTCP. The property is about these two functions, not about what the handlers
  in between do to a packet.
\<close>
theorem sent_payload_type_comes_back:
  assumes "internal_ok maps" "processSdp m sdp media (new_SdpInfo maps v a) = Inr (True, remoteSdp c)"
    and "i \<in> set maps" "encoding_name i \<noteq> ''rtx''" "payload_type i \<in> dom (inOutPTMap (remoteSdp c))"
    and "ucast (getPayloadType d) = payload_type i" "getVideoExternalPT (payload_type i) (remoteSdp c) < 128"
    and "\<not> isRtcp d 0" "\<not> isRtcp (changeDeliverPayloadType c VIDEO_PACKET d) 0"
  shows "parseIncomingPayloadType c VIDEO_PACKET (changeDeliverPayloadType c VIDEO_PACKET d) = d \<and>
    (\<exists>p \<in> set (payloadVector (remoteSdp c)). same_codec i p
       \<and> ucast (getPayloadType (changeDeliverPayloadType c VIDEO_PACKET d)) = payload_type p)"
proof -
  have t: "getVideoInternalPT (getVideoExternalPT (payload_type i) (remoteSdp c)) (remoteSdp c) = payload_type i"
    and p: "\<exists>p \<in> set (payloadVector (remoteSdp c)).
      payload_type p = getVideoExternalPT (payload_type i) (remoteSdp c) \<and> same_codec i p"
    using negotiated_types_translate_back [OF assms(1-5)] by simp_all
  have "parseIncomingPayloadType c VIDEO_PACKET (changeDeliverPayloadType c VIDEO_PACKET d) = d
    \<and> ucast (getPayloadType (changeDeliverPayloadType c VIDEO_PACKET d)) = getVideoExternalPT (payload_type i) (remoteSdp c)"
    by (rule parse_undoes_change [OF assms(8,9,6,7) t])
  then show ?thesis using p by auto
qed

definition sample_connection :: webRtcConnection where
  "sample_connection =
     (new_WebRtcConnection own_codecs [] False True 0 SENDRECV)\<lparr>remoteSdp := sample_answer sample_offer\<rparr>"

definition sample_video :: mem where
  "sample_video = (\<lambda>_. 0)(0 := 0x80, 1 := 100)"

lemma sent_payload_type_comes_back_witness:
  "parseIncomingPayloadType sample_connection VIDEO_PACKET
     (changeDeliverPayloadType sample_connection VIDEO_PACKET sample_video) = sample_video"
proof -
  have r: "processSdp sample_raw sample_offer ''video'' (new_SdpInfo own_codecs SENDRECV SENDRECV) =
      Inr (True, remoteSdp sample_connection)"
    using sample_accepted by (simp add: sample_connection_def)
  have i: "hd own_codecs \<in> set own_codecs" "encoding_name (hd own_codecs) \<noteq> ''rtx''"
    by (simp_all add: own_codecs_def)
  have t: "inOutPTMap (remoteSdp sample_connection) (payload_type (hd own_codecs)) = Some 120" by code_simp
  have h: "ucast (getPayloadType sample_video) = payload_type (hd own_codecs)"
    "getVideoExternalPT (payload_type (hd own_codecs)) (remoteSdp sample_connection) < 128"
    "\<not> isRtcp sample_video 0" "\<not> isRtcp (changeDeliverPayloadType sample_connection VIDEO_PACKET sample_video) 0"
    by code_simp+
  show ?thesis using sent_payload_type_comes_back [OF own_codecs_ok r i _ h] t by blast
qed

subsection \<open>What leaves and what arrives\<close>

text \<open>A packet read from the peer goes to at most one place, and feedback never to a media sink.\<close>

definition delivered_right :: "webRtcConnection \<Rightarrow> dataPacket \<Rightarrow> wc_out \<Rightarrow> bool" where
  "delivered_right c packet out \<longleftrightarrow>
     (case out of
        DeliverFeedback q \<Rightarrow> isFeedback (data packet) 0 \<and> has_fb_sink c \<and> shouldSendFeedback c \<and> q = packet
      | DeliverVideo q \<Rightarrow> \<not> isFeedback (data packet) 0 \<and> has_video_sink c
          \<and> q = packet\<lparr>data := parseIncomingPayloadType c VIDEO_PACKET (data packet)\<rparr>
          \<and> (if bundled c then isRtcp (data packet) 0 \<or> isVideoSourceSSRC (source_of c) (getSSRC (data packet))
             else packet_type packet = VIDEO_PACKET)
      | DeliverAudio q \<Rightarrow> \<not> isFeedback (data packet) 0 \<and> has_audio_sink c
          \<and> q = packet\<lparr>data := parseIncomingPayloadType c AUDIO_PACKET (data packet)\<rparr>
          \<and> (if bundled c then isRtcp (data packet) 0 \<or> isAudioSourceSSRC (source_of c) (getSSRC (data packet))
             else packet_type packet = AUDIO_PACKET)
      | _ \<Rightarrow> False)"

lemma read_delivers_right:
  assumes "wc_read raw packet c = Inr (c', os)"
  shows "length os \<le> 1 \<and> (\<forall>out \<in> set os. delivered_right c packet out)"
  using assms
  by (auto simp: wc_read_def Let_def delivered_right_def split: if_splits option.splits)

text \<open>
  The bit rate that \<open>setFeedbackReports\<close> asks for limits nothing: the counters of \<^verbatim>\<open>sendPacket\<close> are locals
  that start at 0 with every packet.
\<close>

lemma rate_control_never_drops:
  assumes "sending c" "pipeline_initialized c" "pipeline_there c" "rateControl c \<noteq> 1"
  shows "\<exists>c'. sendPacket now p c = Inr (c', [PipelineWrite p])"
  using assms by (auto simp: sendPacket_def Let_def)

text \<open>In a bundle, RTCP that is neither feedback nor a sender report is delivered by an uninitialised number.\<close>

lemma other_rtcp_goes_by_chance:
  assumes "isRtcp (data packet) 0" "\<not> isFeedback (data packet) 0" "getPacketType (data packet) 0 \<noteq> RTCP_Sender_PT"
    "bundled c" "has_video_sink c" "isVideoSourceSSRC (source_of c) raw" "\<not> isVideoSourceSSRC (source_of c) raw'"
    "\<not> isAudioSourceSSRC (source_of c) raw'"
  shows "(\<exists>q. wc_read raw packet c = Inr (c, [DeliverVideo q])) \<and> wc_read raw' packet c = Inr (c, [])"
  using assms by (simp add: wc_read_def Let_def)

end
