(* ===== verification/WebRtcSession.thy ===== *)
theory WebRtcSession
  imports WebRtcConnection
begin

text \<open>
  \<^verbatim>\<open>WebRtcConnection.cpp\<close>, the session: offer, remote description, candidates, the state of the connection
  as the transports report theirs. What is asked of the transports and of the machine is an
  environment: the memory of objects, random numbers, what \<^verbatim>\<open>processLocalSdp\<close> writes into a description,
  the type of host of the selected pair of candidates, and whether ICE takes candidates.
\<close>

record wc_env =
  env_raw :: raw_memory
  env_rand :: "nat \<Rightarrow> nat"
  env_local :: "mediaType \<Rightarrow> SdpInfo \<Rightarrow> SdpInfo"
  env_host :: "mediaType \<Rightarrow> string"
  env_accepts :: "mediaType \<Rightarrow> CandidateInfo list \<Rightarrow> bool"

definition getLocalSdp :: "wc_env \<Rightarrow> webRtcConnection \<Rightarrow> (string \<times> webRtcConnection) checked" where
  "getLocalSdp env c =
     (let l = localSdp c;
          l = (if videoTransport c \<noteq> None then env_local env VIDEO_TYPE l else l);
          l = (if \<not> bundled c \<and> audioTransport c \<noteq> None then env_local env AUDIO_TYPE l else l);
          l = l\<lparr>profile := profile (remoteSdp c)\<rparr>
      in and_then (getSdp (env_rand env) l) (\<lambda>(text, l). Inr (text, c\<lparr>localSdp := l\<rparr>)))"

text \<open>A new transport takes the place of an old one, which closes if it has not been closed.\<close>

definition reset_transport :: "mediaType \<Rightarrow> bool \<Rightarrow> string \<Rightarrow> string \<Rightarrow> bool \<Rightarrow> webRtcConnection \<Rightarrow> webRtcConnection \<times> wc_out list" where
  "reset_transport mt rtcp_mux username password isServer c =
     (let old = (if mt = VIDEO_TYPE then videoTransport c else audioTransport c);
          os = (if old = None \<or> old = Some TRANSPORT_FINISHED then [] else [CloseTransport mt])
      in (if mt = VIDEO_TYPE then c\<lparr>videoTransport := Some TRANSPORT_INITIAL\<rparr> else c\<lparr>audioTransport := Some TRANSPORT_INITIAL\<rparr>,
          os @ [StartTransport mt (bundled c) rtcp_mux username password isServer]))"

definition createOffer :: "wc_env \<Rightarrow> bool \<Rightarrow> bool \<Rightarrow> bool \<Rightarrow> webRtcConnection \<Rightarrow> wc_result" where
  "createOffer env video audio with_bundle c =
     (let c = c\<lparr>bundled := with_bundle, videoEnabled := video, audioEnabled := audio\<rparr>;
          l = (createOfferSdp video audio with_bundle (localSdp c))\<lparr>dtlsRole := ACTPASS\<rparr>;
          l = (if video then l\<lparr>video_ssrc_list := video_ssrc_list l @ [video_sink_ssrc (sink_of c)]\<rparr> else l);
          l = (if audio then l\<lparr>audio_ssrc := audio_sink_ssrc (sink_of c)\<rparr> else l);
          c = c\<lparr>localSdp := l\<rparr>;
          (c, os1) = (if with_bundle \<or> videoTransport c = None \<and> video then reset_transport VIDEO_TYPE True [] [] True c else (c, []));
          (c, os2) = (if \<not> with_bundle \<and> audioTransport c = None \<and> audio then reset_transport AUDIO_TYPE True [] [] True c else (c, []))
      in if connEventListener c
         then and_then (getLocalSdp env c) (\<lambda>(msg, c). Inr (c, os1 @ os2 @ [Notify (globalState c) msg]))
         else Inr (c, os1 @ os2))"

text \<open>The handlers in the order in which they are put to the front.\<close>

definition pipeline_handlers :: "string list" where
  "pipeline_handlers =
     [''PacketReader'', ''LayerDetectorHandler'', ''RtcpProcessorHandler'', ''FecReceiverHandler'',
      ''LayerBitrateCalculationHandler'', ''QualityFilterHandler'', ''IncomingStatsHandler'', ''RtpTrackMuteHandler'',
      ''RtpSlideShowHandler'', ''RtpPaddingGeneratorHandler'', ''PliPacerHandler'', ''BandwidthEstimationHandler'',
      ''RtpPaddingRemovalHandler'', ''RtcpFeedbackGenerationHandler'', ''RtpRetransmissionHandler'', ''SRPacketHandler'',
      ''SenderBandwidthEstimationHandler'', ''OutgoingStatsHandler'', ''PacketWriter'']"

definition initializePipeline :: "webRtcConnection \<Rightarrow> wc_result" where
  "initializePipeline c =
     (if pipeline_there c then Inr (c\<lparr>pipeline_initialized := True\<rparr>, [PipelineInit pipeline_handlers]) else Inl Null_pointer)"

definition open_transport :: "mediaType \<Rightarrow> webRtcConnection \<Rightarrow> webRtcConnection \<times> wc_out list" where
  "open_transport mt c =
     (let username = getUsername mt (remoteSdp c); password = getPassword mt (remoteSdp c)
      in if (if mt = VIDEO_TYPE then videoTransport c else audioTransport c) = None
         then reset_transport mt (isRtcpMux (remoteSdp c)) username password False c
         else (c, [RemoteCredentials mt username password]))"

definition remote_candidates :: "mediaType \<Rightarrow> webRtcConnection \<Rightarrow> wc_out list checked" where
  "remote_candidates mt c =
     (if (if mt = VIDEO_TYPE then videoTransport c else audioTransport c) = None then Inl Null_pointer
      else Inr [RemoteCandidates mt (candidateVector (remoteSdp c)) (bundled c)])"

definition pass_candidates :: "webRtcConnection \<Rightarrow> wc_out list checked" where
  "pass_candidates c =
     (if candidateVector (remoteSdp c) = [] then Inr []
      else and_then (if hasVideo (remoteSdp c) then remote_candidates VIDEO_TYPE c else Inr []) (\<lambda>os1.
           and_then (if \<not> bundled c \<and> hasAudio (remoteSdp c) then remote_candidates AUDIO_TYPE c else Inr []) (\<lambda>os2.
             Inr (os1 @ os2))))"

text \<open>The remote description once it is in place: what \<^verbatim>\<open>setRemoteSdp\<close> does the first time.\<close>

definition adopt_remote :: "webRtcConnection \<Rightarrow> webRtcConnection checked" where
  "adopt_remote c =
     (let r = remoteSdp c; l = setOfferSdp r (localSdp c)
      in and_then (ep_setSdpInfo l (extProcessor c)) (\<lambda>ext.
           let l = updateSupportedExtensionMap (ext_mappings ext) l;
               l = l\<lparr>video_ssrc_list := video_ssrc_list l @ [video_sink_ssrc (sink_of c)],
                     audio_ssrc := audio_sink_ssrc (sink_of c)\<rparr>;
               l = (if dtlsRole r = ACTPASS then l\<lparr>dtlsRole := ACTIVE\<rparr> else l)
           in Inr (c\<lparr>bundled := isBundle r, localSdp := l, extProcessor := ext,
                source_of := \<lparr>audio_source_ssrc = SdpInfo.audio_ssrc r, video_source_ssrc_list = video_ssrc_list r\<rparr>,
                audioEnabled := hasAudio r, videoEnabled := hasVideo r\<rparr>)))"

definition open_transports :: "webRtcConnection \<Rightarrow> webRtcConnection \<times> wc_out list" where
  "open_transports c =
     (let r = remoteSdp c
      in if profile r = SAVPF \<and> isFingerprint r
         then let (c, os1) = (if hasVideo r \<or> bundled c then open_transport VIDEO_TYPE c else (c, []));
                  (c, os2) = (if \<not> bundled c \<and> hasAudio r then open_transport AUDIO_TYPE c else (c, []))
              in (c, os1 @ os2)
         else (c, []))"

definition setRemoteSdp :: "wc_env \<Rightarrow> string \<Rightarrow> webRtcConnection \<Rightarrow> wc_result" where
  "setRemoteSdp env sdp c =
     and_then (initWithSdp (env_raw env) sdp [] (remoteSdp c)) (\<lambda>(_, r).
       let c = c\<lparr>remoteSdp := r\<rparr>;
           os0 = (if videoBandwidth r \<noteq> 0 then [MaxVideoBW (videoBandwidth r * 1000)] else [])
       in if pipeline_initialized c
          then if pipeline_there c then Inr (c, os0 @ [PipelineNotifyUpdate]) else Inl Null_pointer
          else
            and_then (adopt_remote c) (\<lambda>c.
              let os1 = map AddSourceSsrc (audio_source_ssrc (source_of c) # video_source_ssrc_list (source_of c));
                  (c, os2) = open_transports c
              in and_then (if event_value CONN_GATHERED \<le> event_value (globalState c) then pass_candidates c else Inr [])
                   (\<lambda>os3.
                 and_then
                   (if trickleEnabled c
                    then and_then (getLocalSdp env c) (\<lambda>(object, c).
                           Inr (c, if connEventListener c then [Notify CONN_SDP object] else []))
                    else Inr (c, [])) (\<lambda>(c, os4).
                 and_then (initializePipeline c) (\<lambda>(c, os5).
                   Inr (c, os0 @ os1 @ os2 @ os3 @ os4 @ os5))))))"

subsection \<open>Candidates\<close>

definition addRemoteCandidate :: "wc_env \<Rightarrow> string \<Rightarrow> int \<Rightarrow> string \<Rightarrow> webRtcConnection \<Rightarrow> (bool \<times> webRtcConnection \<times> wc_out list) checked" where
  "addRemoteCandidate env mid mLineIndex sdp c =
     (if videoTransport c = None \<and> audioTransport c = None then Inr (False, c, [])
      else if mLineIndex = -1
      then Inr (True, c, [LastCandidate (if videoTransport c \<noteq> None then VIDEO_TYPE else AUDIO_TYPE)])
      else
        let (theType, theMid) =
              (if mid = ''video'' \<or> mLineIndex = videoSdpMLine (remoteSdp c)
               then (VIDEO_TYPE, ''video'') else (AUDIO_TYPE, ''audio''));
            tempSdp = setCredentials (getUsername theType (remoteSdp c)) (getPassword theType (remoteSdp c)) OTHER
              (new_SdpInfo (rtp_mappings c) (raw_direction (env_raw env)) (raw_direction (env_raw env)))
        in and_then (initWithSdp (env_raw env) sdp theMid tempSdp) (\<lambda>(accepted, tempSdp).
           and_then
             (if accepted
              then let mt = (if theType = VIDEO_TYPE \<or> bundled c then VIDEO_TYPE else AUDIO_TYPE)
                   in if (if mt = VIDEO_TYPE then videoTransport c else audioTransport c) = None then Inl Null_pointer
                      else Inr (env_accepts env mt (candidateVector tempSdp),
                                [RemoteCandidates mt (candidateVector tempSdp) (bundled c)])
              else Inr (False, [])) (\<lambda>(res, os).
           and_then (for_bytes (\<lambda>cand r. snd (addCandidate cand r)) (candidateVector tempSdp) (remoteSdp c)) (\<lambda>r.
             Inr (res, c\<lparr>remoteSdp := r\<rparr>, os)))))"

definition json_entries :: "(string \<times> string) list \<Rightarrow> string" where
  "json_entries es = concat (map (\<lambda>i. [CHR 0x22] @ fst (es ! i) @ [CHR 0x22, CHR 0x3A, CHR 0x22] @ snd (es ! i) @ [CHR 0x22]
     @ (if i + 1 < length es then [CHR 0x2C] else [])) [0..<length es])"

definition getJSONCandidate :: "string \<Rightarrow> string \<Rightarrow> webRtcConnection \<Rightarrow> string" where
  "getJSONCandidate mid sdp c =
     (let object = map_put ''sdpMid'' mid [];
          object = map_put ''candidate'' sdp object;
          object = map_put ''sdpMLineIndex''
            (decimal_int (if mid \<noteq> ''video'' then audioSdpMLine (localSdp c) else videoSdpMLine (localSdp c))) object
      in [CHR 0x7B] @ json_entries object @ [CHR 0x7D])"

definition transport_name :: "mediaType \<Rightarrow> string" where
  "transport_name mt = (if mt = VIDEO_TYPE then ''video'' else ''audio'')"

definition onCandidate :: "CandidateInfo \<Rightarrow> mediaType \<Rightarrow> webRtcConnection \<Rightarrow> webRtcConnection \<times> wc_out list" where
  "onCandidate cand mt c =
     (let (sdp, l) = addCandidate cand (localSdp c);
          c = c\<lparr>localSdp := l\<rparr>
      in (c, if trickleEnabled c \<and> connEventListener c
             then if \<not> bundled c then [Notify CONN_CANDIDATE (getJSONCandidate (transport_name mt) sdp c)]
                  else (if hasAudio (remoteSdp c) then [Notify CONN_CANDIDATE (getJSONCandidate ''audio'' sdp c)] else []) @
                       (if hasVideo (remoteSdp c) then [Notify CONN_CANDIDATE (getJSONCandidate ''video'' sdp c)] else [])
             else []))"

subsection \<open>The state of the connection\<close>

definition all_transports :: "transportState \<Rightarrow> SdpInfo \<Rightarrow> webRtcConnection \<Rightarrow> bool" where
  "all_transports state sdp c \<longleftrightarrow>
     (\<not> hasAudio sdp \<or> audioTransport c = Some state) \<and> (\<not> hasVideo sdp \<or> videoTransport c = Some state)"

text \<open>
  The kind of host the peer is behind goes to the statistics; without a transport for audio it is the
  one of the video transport, and without both it is empty.
\<close>

definition trackTransportInfo :: "wc_env \<Rightarrow> webRtcConnection \<Rightarrow> wc_out list" where
  "trackTransportInfo env c =
     (let video = (videoEnabled c \<and> videoTransport c \<noteq> None);
          host = (if video then env_host env VIDEO_TYPE else [])
      in (if video then [TrackTask VIDEO_TYPE host] else []) @
         (if audioEnabled c
          then [TrackTask AUDIO_TYPE (if audioTransport c \<noteq> None then env_host env AUDIO_TYPE else host)] else []))"

definition video_info_task :: "string \<Rightarrow> webRtcConnection \<Rightarrow> wc_out list checked" where
  "video_info_task host c =
     (case getVideoSourceSSRC (source_of c) of None \<Rightarrow> Inl Out_of_bounds
      | Some source \<Rightarrow>
          Inr ((if video_sink_ssrc (sink_of c) \<noteq> kDefaultVideoSinkSSRC then [InsertHostType (video_sink_ssrc (sink_of c)) host] else []) @
               (if source \<noteq> 0 then [InsertHostType source host] else [])))"

definition audio_info_task :: "string \<Rightarrow> webRtcConnection \<Rightarrow> wc_out list" where
  "audio_info_task host c =
     (if audio_sink_ssrc (sink_of c) \<noteq> kDefaultAudioSinkSSRC then [InsertHostType (audio_sink_ssrc (sink_of c)) host] else []) @
     (if audio_source_ssrc (source_of c) \<noteq> 0 then [InsertHostType (audio_source_ssrc (source_of c)) host] else [])"

definition ready_outputs :: "wc_env \<Rightarrow> u64 \<Rightarrow> webRtcConnection \<Rightarrow> wc_out list checked" where
  "ready_outputs env now c =
     (if has_fb_sink c
      then case getVideoSourceSSRC (source_of c) of None \<Rightarrow> Inl Out_of_bounds
           | Some ssrc \<Rightarrow> Inr (trackTransportInfo env c @ [DeliverFeedback (createPLI now (video_sink_ssrc (sink_of c)) ssrc)])
      else Inr (trackTransportInfo env c))"

text \<open>The new state, the message for the listener, and what happens on the way.\<close>

definition gathered_state :: "wc_env \<Rightarrow> webRtcConnection \<Rightarrow> (webRTCEvent \<times> string \<times> webRtcConnection \<times> wc_out list) checked" where
  "gathered_state env c =
     and_then (if bundled c then pass_candidates c else Inr []) (\<lambda>os.
       if (bundled c \<or> all_transports TRANSPORT_GATHERED (localSdp c) c) \<and> \<not> trickleEnabled c
       then and_then (getLocalSdp env c) (\<lambda>(msg, c). Inr (CONN_GATHERED, msg, c, os))
       else Inr (globalState c, [], c, os))"

definition next_state :: "wc_env \<Rightarrow> u64 \<Rightarrow> transportState \<Rightarrow> webRtcConnection \<Rightarrow> (webRTCEvent \<times> string \<times> webRtcConnection \<times> wc_out list) checked" where
  "next_state env now state c =
     (case state of
        TRANSPORT_STARTED \<Rightarrow>
          Inr (if bundled c \<or> all_transports TRANSPORT_STARTED (remoteSdp c) c then CONN_STARTED else globalState c, [], c, [])
      | TRANSPORT_GATHERED \<Rightarrow> gathered_state env c
      | TRANSPORT_READY \<Rightarrow>
          if bundled c \<or> all_transports TRANSPORT_READY (remoteSdp c) c
          then and_then (ready_outputs env now c) (\<lambda>os. Inr (CONN_READY, [], c, os))
          else Inr (globalState c, [], c, [])
      | TRANSPORT_FAILED \<Rightarrow>
          and_then (getSdp (env_rand env) (remoteSdp c)) (\<lambda>(msg, r).
            Inr (CONN_FAILED, msg, c\<lparr>sending := False, remoteSdp := r\<rparr>, []))
      | _ \<Rightarrow> Inr (globalState c, [], c, []))"

definition updateState :: "wc_env \<Rightarrow> u64 \<Rightarrow> transportState \<Rightarrow> webRtcConnection \<Rightarrow> wc_result" where
  "updateState env now state c =
     (if videoTransport c = None \<and> audioTransport c = None then Inr (c, [])
      else if globalState c = CONN_FAILED then Inr (c, [])
      else and_then (next_state env now state c) (\<lambda>(temp, msg, c, os).
        if globalState c = temp then Inr (c, os)
        else let c = c\<lparr>globalState := temp\<rparr>
             in Inr (c, os @ (if connEventListener c then [Notify temp msg] else []))))"

text \<open>\<^verbatim>\<open>Transport::updateTransportState\<close>: a transport that changes its state tells the connection.\<close>

definition updateTransportState :: "wc_env \<Rightarrow> u64 \<Rightarrow> mediaType \<Rightarrow> transportState \<Rightarrow> webRtcConnection \<Rightarrow> wc_result" where
  "updateTransportState env now mt state c =
     (case (if mt = VIDEO_TYPE then videoTransport c else audioTransport c) of None \<Rightarrow> Inr (c, [])
      | Some old \<Rightarrow>
          if old = state then Inr (c, [])
          else updateState env now state
            (if mt = VIDEO_TYPE then c\<lparr>videoTransport := Some state\<rparr> else c\<lparr>audioTransport := Some state\<rparr>))"

subsection \<open>Settings\<close>

definition wc_setSlideShowMode :: "bool \<Rightarrow> webRtcConnection \<Rightarrow> webRtcConnection \<times> wc_out list" where
  "wc_setSlideShowMode state c =
     (if slide_show_mode c = state then (c, [])
      else (c\<lparr>slide_show_mode := state\<rparr>, [SlideShowTask state, PipelineNotifyUpdate]))"

definition slide_show_task :: "bool \<Rightarrow> webRtcConnection \<Rightarrow> wc_out list" where
  "slide_show_task state c = [InsertStat (video_sink_ssrc (sink_of c)) ''erizoSlideShow'' state]"

text \<open>The task of \<^verbatim>\<open>muteStream\<close>: both statistics go to the audio.\<close>

definition mute_task :: "bool \<Rightarrow> bool \<Rightarrow> webRtcConnection \<Rightarrow> webRtcConnection \<times> wc_out list" where
  "mute_task mute_video mute_audio c =
     (c\<lparr>audio_muted := mute_audio, video_muted := mute_video\<rparr>,
      [InsertStat (audio_sink_ssrc (sink_of c)) ''erizoAudioMute'' mute_audio,
       InsertStat (audio_sink_ssrc (sink_of c)) ''erizoVideoMute'' mute_video, PipelineNotifyUpdate])"

definition setFeedbackReports :: "bool \<Rightarrow> u32 \<Rightarrow> webRtcConnection \<Rightarrow> webRtcConnection" where
  "setFeedbackReports will_send_fb target_bitrate c =
     (let target_bitrate = (if slide_show_mode c then 0 else target_bitrate);
          c = c\<lparr>shouldSendFeedback := will_send_fb\<rparr>;
          c = (if target_bitrate = 1 then c\<lparr>videoEnabled := False\<rparr> else c)
      in c\<lparr>rateControl := target_bitrate\<rparr>)"

subsection \<open>Soundness of the state\<close>

definition same_state :: "webRtcConnection \<Rightarrow> webRtcConnection \<Rightarrow> bool" where
  "same_state c d \<longleftrightarrow> globalState d = globalState c \<and> connEventListener d = connEventListener c
     \<and> sending d = sending c \<and> videoTransport d = videoTransport c \<and> audioTransport d = audioTransport c"

lemma getLocalSdp_state: "getLocalSdp env c = Inr (msg, d) \<Longrightarrow> same_state c d"
  by (auto simp: getLocalSdp_def Let_def same_state_def)

fun is_notify :: "wc_out \<Rightarrow> bool" where
  "is_notify (Notify e msg) = True"
| "is_notify _ = False"

lemma pass_candidates_quiet: "pass_candidates c = Inr os \<Longrightarrow> filter is_notify os = []"
  by (auto simp: pass_candidates_def remote_candidates_def split: if_splits)

lemma ready_outputs_quiet: "ready_outputs env now c = Inr os \<Longrightarrow> filter is_notify os = []"
  by (auto simp: ready_outputs_def trackTransportInfo_def Let_def split: if_splits option.splits)

text \<open>Why the state becomes what it becomes.\<close>

definition state_reason :: "transportState \<Rightarrow> webRtcConnection \<Rightarrow> webRtcConnection \<Rightarrow> webRTCEvent \<Rightarrow> bool" where
  "state_reason st c d e \<longleftrightarrow>
     (case e of
        CONN_STARTED \<Rightarrow> st = TRANSPORT_STARTED \<and> (bundled c \<or> all_transports TRANSPORT_STARTED (remoteSdp c) c)
      | CONN_GATHERED \<Rightarrow> st = TRANSPORT_GATHERED \<and> \<not> trickleEnabled c
          \<and> (bundled c \<or> all_transports TRANSPORT_GATHERED (localSdp c) c)
      | CONN_READY \<Rightarrow> st = TRANSPORT_READY \<and> (bundled c \<or> all_transports TRANSPORT_READY (remoteSdp c) c)
      | CONN_FAILED \<Rightarrow> st = TRANSPORT_FAILED \<and> \<not> sending d
      | _ \<Rightarrow> False)"

lemma gathered_state_sound:
  assumes "gathered_state env c = Inr (temp, msg, d, os)"
  shows "(temp \<noteq> globalState c \<longrightarrow> state_reason TRANSPORT_GATHERED c d temp) \<and> same_state c d
    \<and> filter is_notify os = []"
proof -
  obtain os' where o: "(if bundled c then pass_candidates c else Inr []) = Inr os'"
    and r: "(if (bundled c \<or> all_transports TRANSPORT_GATHERED (localSdp c) c) \<and> \<not> trickleEnabled c
       then and_then (getLocalSdp env c) (\<lambda>(msg, c). Inr (CONN_GATHERED, msg, c, os'))
       else Inr (globalState c, [], c, os')) = Inr (temp, msg, d, os)"
    using assms unfolding gathered_state_def and_then_Inr by blast
  have q: "filter is_notify os' = []" using o pass_candidates_quiet by (auto split: if_splits)
  show ?thesis
  proof (cases "(bundled c \<or> all_transports TRANSPORT_GATHERED (localSdp c) c) \<and> \<not> trickleEnabled c")
    case True
    then obtain m e where g: "getLocalSdp env c = Inr (m, e)" and "temp = CONN_GATHERED" "d = e" "os = os'"
      using r by auto
    then show ?thesis using True q getLocalSdp_state [OF g] by (auto simp: state_reason_def)
  next
    case False
    then show ?thesis using r q by (auto simp: same_state_def)
  qed
qed

lemma next_state_sound:
  assumes "next_state env now st c = Inr (temp, msg, d, os)"
  shows "(temp \<noteq> globalState c \<longrightarrow> state_reason st c d temp) \<and> globalState d = globalState c
    \<and> connEventListener d = connEventListener c \<and> filter is_notify os = []"
proof (cases st)
  case TRANSPORT_GATHERED
  then show ?thesis using assms gathered_state_sound [of env c temp msg d os]
    by (simp add: next_state_def same_state_def)
next
  case TRANSPORT_READY
  then show ?thesis using assms ready_outputs_quiet
    by (auto simp: next_state_def state_reason_def split: if_splits)
next
  case TRANSPORT_FAILED
  then show ?thesis using assms by (auto simp: next_state_def state_reason_def)
qed (use assms in \<open>auto simp: next_state_def state_reason_def split: if_splits\<close>)

text \<open>
  C18: The state of the connection follows the states of the transports. A failed connection stays as it is
  and says nothing. Otherwise the state changes only for its reason: started, gathered and ready
  when the transport that reports is there and, without a bundle, so are the transports of all media
  of the description; failed when a transport fails, and then the connection stops sending.
  The listener hears of every change once, and of nothing else.
\<close>
theorem connection_state_is_sound:
  assumes "updateState env now st c = Inr (d, os)"
  shows "(globalState c = CONN_FAILED \<longrightarrow> d = c \<and> os = [])
    \<and> (globalState d \<noteq> globalState c \<longrightarrow> state_reason st c d (globalState d))
    \<and> (\<exists>msg. filter is_notify os =
        (if globalState d \<noteq> globalState c \<and> connEventListener c then [Notify (globalState d) msg] else []))"
proof (cases "videoTransport c = None \<and> audioTransport c = None \<or> globalState c = CONN_FAILED")
  case True
  then have "d = c \<and> os = []" using assms by (auto simp: updateState_def split: if_splits)
  then show ?thesis by simp
next
  case False
  then have f: "(videoTransport c = None \<and> audioTransport c = None) = False" "(globalState c = CONN_FAILED) = False"
    by auto
  obtain temp msg and e :: webRtcConnection and os' where n: "next_state env now st c = Inr (temp, msg, e, os')"
  proof (cases "next_state env now st c")
    case (Inl e)
    then show ?thesis using assms by (simp add: updateState_def f)
  next
    case (Inr x)
    then show ?thesis using that by (cases x) auto
  qed
  have x: "(if globalState e = temp then Inr (e, os')
      else Inr (e\<lparr>globalState := temp\<rparr>, os' @ (if connEventListener (e\<lparr>globalState := temp\<rparr>) then [Notify temp msg] else []))) = (Inr (d, os) :: wc_result)"
    using assms unfolding updateState_def f n if_False and_then_simps prod.case Let_def .
  note s = next_state_sound [OF n]
  show ?thesis
  proof (cases "globalState e = temp")
    case True
    then have "d = e" "os = os'" using x by simp_all
    then show ?thesis using s True False by simp
  next
    case t: False
    then have d: "d = e\<lparr>globalState := temp\<rparr>" and o: "os = os' @ (if connEventListener c then [Notify temp msg] else [])"
      using x s t by simp_all
    have "state_reason st c d temp" using s t d by (auto simp: state_reason_def split: webRTCEvent.splits)
    then show ?thesis using s t d o False by auto
  qed
qed

definition ready_env :: wc_env where
  "ready_env = \<lparr>env_raw = sample_raw, env_rand = (\<lambda>_. 0), env_local = (\<lambda>_ s. s), env_host = (\<lambda>_. ''host''), env_accepts = (\<lambda>_ _. True)\<rparr>"

definition gathering_connection :: webRtcConnection where
  "gathering_connection = (new_WebRtcConnection own_codecs [] False True 0 SENDRECV)
     \<lparr>bundled := True, videoTransport := Some TRANSPORT_READY, globalState := CONN_GATHERED\<rparr>"

lemma connection_state_is_sound_witness:
  "\<exists>d os. updateState ready_env 0 TRANSPORT_READY gathering_connection = Inr (d, os)
    \<and> globalState d = CONN_READY \<and> state_reason TRANSPORT_READY gathering_connection d CONN_READY"
proof -
  obtain d os where u: "updateState ready_env 0 TRANSPORT_READY gathering_connection = Inr (d, os)"
    and d: "globalState d = CONN_READY" and g: "globalState gathering_connection \<noteq> CONN_READY"
    by (auto simp: updateState_def next_state_def gathering_connection_def ready_outputs_def new_WebRtcConnection_def)
  then show ?thesis using connection_state_is_sound [OF u] by auto
qed

text \<open>Failed for good: whatever the transports report later, nothing is sent.\<close>

fun transport_run :: "wc_env \<Rightarrow> (u64 \<times> mediaType \<times> transportState) list \<Rightarrow> webRtcConnection \<Rightarrow> webRtcConnection checked" where
  "transport_run env [] c = Inr c"
| "transport_run env ((now, mt, st) # es) c =
     and_then (updateTransportState env now mt st c) (\<lambda>(c, _). transport_run env es c)"

lemma updateTransportState_failed:
  assumes "globalState c = CONN_FAILED"
  shows "\<exists>d. updateTransportState env now mt st c = Inr (d, []) \<and> globalState d = CONN_FAILED \<and> sending d = sending c"
  using assms by (auto simp: updateTransportState_def updateState_def split: option.splits)

lemma failed_for_good:
  "globalState c = CONN_FAILED \<Longrightarrow> \<not> sending c \<Longrightarrow>
   \<exists>d. transport_run env es c = Inr d \<and> globalState d = CONN_FAILED \<and> (\<forall>p. sendPacketAsync p d = (d, []))"
proof (induction es arbitrary: c)
  case Nil
  then show ?case by (simp add: sendPacketAsync_def)
next
  case (Cons e es)
  obtain now mt st where e: "e = (now, mt, st)" by (cases e)
  obtain d where "updateTransportState env now mt st c = Inr (d, [])" "globalState d = CONN_FAILED" "sending d = sending c"
    using updateTransportState_failed [OF Cons.prems(1)] by blast
  then show ?case using Cons e by simp
qed

text \<open>A closed connection is not final: a late report of a transport brings it back to ready.\<close>

lemma closed_connection_comes_back:
  assumes "sending c" "bundled c" "videoTransport c = Some TRANSPORT_GATHERED"
  shows "\<exists>d os. updateTransportState env now VIDEO_TYPE TRANSPORT_READY (fst (wc_close c)) = Inr (d, os)
    \<and> globalState (fst (wc_close c)) = CONN_FINISHED \<and> globalState d = CONN_READY"
  using assms
  by (simp add: wc_close_def updateTransportState_def updateState_def next_state_def ready_outputs_def Let_def)

text \<open>
  \<open>setRemoteSdp\<close> does not look at the answer of \<open>initWithSdp\<close>: a description without credentials is
  adopted, and the list of the video sources is empty afterwards, so that asking for a key frame
  reads beyond it.
\<close>

lemma no_source_no_pli: "video_source_ssrc_list (source_of c) = [] \<Longrightarrow> wc_sendPLI now c = Inl Out_of_bounds"
  by (simp add: wc_sendPLI_def getVideoSourceSSRC_def)

lemma refused_description_is_adopted:
  "(case initWithSdp sample_raw ''v=0'' [] (new_SdpInfo [] SENDRECV SENDRECV) of Inr (accepted, _) \<Rightarrow> \<not> accepted | Inl _ \<Rightarrow> False)
   \<and> (case setRemoteSdp ready_env ''v=0'' (new_WebRtcConnection [] [] False False 0 SENDRECV) of
        Inr (c, os) \<Rightarrow> pipeline_initialized c \<and> video_source_ssrc_list (source_of c) = [] | Inl _ \<Rightarrow> False)"
  by code_simp

end
