(* ===== verification/DtlsTransport.thy ===== *)
theory DtlsTransport
  imports WebRtcSession
begin

text \<open>
  \<^verbatim>\<open>SrtpChannel.cpp\<close> and \<^verbatim>\<open>DtlsTransport.cpp\<close>: what protects the packets on their way to and from ICE.
  The library \<^verbatim>\<open>libsrtp\<close> is a parameter: sessions of some type, made from a key, and four functions that
  change a buffer and its length. DTLS handshakes and ICE are seen by what they report. \<open>None\<close> is a
  null pointer that is followed, a buffer that is left, or an assertion that fails.
\<close>

subsection \<open>The SRTP channel\<close>

text \<open>The functions of \<^verbatim>\<open>libsrtp\<close>: result code, buffer, length, and the session afterwards.\<close>

record 's srtp_library =
  srtp_create :: "bool \<Rightarrow> string \<Rightarrow> 's option"
  srtp_protect :: "'s \<Rightarrow> mem \<Rightarrow> int \<Rightarrow> int \<times> mem \<times> int \<times> 's"
  srtp_unprotect :: "'s \<Rightarrow> mem \<Rightarrow> int \<Rightarrow> int \<times> mem \<times> int \<times> 's"
  srtp_protect_rtcp :: "'s \<Rightarrow> mem \<Rightarrow> int \<Rightarrow> int \<times> mem \<times> int \<times> 's"
  srtp_unprotect_rtcp :: "'s \<Rightarrow> mem \<Rightarrow> int \<Rightarrow> int \<times> mem \<times> int \<times> 's"

record 's srtpChannel =
  srtp_active :: bool
  send_session :: "'s option"
  receive_session :: "'s option"

definition new_SrtpChannel :: "'s srtpChannel" where
  "new_SrtpChannel = \<lparr>srtp_active = False, send_session = None, receive_session = None\<rparr>"

definition setRtpParams :: "'s srtp_library \<Rightarrow> string \<Rightarrow> string \<Rightarrow> 's srtpChannel \<Rightarrow> bool \<times> 's srtpChannel" where
  "setRtpParams lib sendingKey receivingKey ch =
     (case srtp_create lib True sendingKey of None \<Rightarrow> (False, ch)
      | Some s \<Rightarrow>
          let ch = ch\<lparr>send_session := Some s\<rparr>
          in case srtp_create lib False receivingKey of None \<Rightarrow> (False, ch)
             | Some r \<Rightarrow> (True, ch\<lparr>receive_session := Some r, srtp_active := True\<rparr>))"

text \<open>\<open>run_srtp\<close>: 0 or -1, the buffer and its length, for a session that an active channel has.\<close>

definition run_srtp ::
    "('s \<Rightarrow> mem \<Rightarrow> int \<Rightarrow> int \<times> mem \<times> int \<times> 's) \<Rightarrow> 's \<Rightarrow> mem \<Rightarrow> int \<Rightarrow> int \<times> mem \<times> int \<times> 's" where
  "run_srtp f s buffer len =
     (case f s buffer len of (val, buffer, len, s) \<Rightarrow> (if val = 0 then 0 else -1, buffer, len, s))"

definition protectRtp :: "'s srtp_library \<Rightarrow> mem \<Rightarrow> int \<Rightarrow> 's srtpChannel \<Rightarrow> (int \<times> mem \<times> int \<times> 's srtpChannel) option" where
  "protectRtp lib buffer len ch =
     (if \<not> srtp_active ch then Some (-1, buffer, len, ch)
      else map_option (\<lambda>s. case run_srtp (srtp_protect lib) s buffer len of
             (val, buffer, len, s) \<Rightarrow> (val, buffer, len, ch\<lparr>send_session := Some s\<rparr>)) (send_session ch))"

definition unprotectRtp :: "'s srtp_library \<Rightarrow> mem \<Rightarrow> int \<Rightarrow> 's srtpChannel \<Rightarrow> (int \<times> mem \<times> int \<times> 's srtpChannel) option" where
  "unprotectRtp lib buffer len ch =
     (if \<not> srtp_active ch then Some (-1, buffer, len, ch)
      else map_option (\<lambda>s. case run_srtp (srtp_unprotect lib) s buffer len of
             (val, buffer, len, s) \<Rightarrow> (val, buffer, len, ch\<lparr>receive_session := Some s\<rparr>)) (receive_session ch))"

definition protectRtcp :: "'s srtp_library \<Rightarrow> mem \<Rightarrow> int \<Rightarrow> 's srtpChannel \<Rightarrow> (int \<times> mem \<times> int \<times> 's srtpChannel) option" where
  "protectRtcp lib buffer len ch =
     (if \<not> srtp_active ch then Some (-1, buffer, len, ch)
      else map_option (\<lambda>s. case run_srtp (srtp_protect_rtcp lib) s buffer len of
             (val, buffer, len, s) \<Rightarrow> (val, buffer, len, ch\<lparr>send_session := Some s\<rparr>)) (send_session ch))"

definition unprotectRtcp :: "'s srtp_library \<Rightarrow> mem \<Rightarrow> int \<Rightarrow> 's srtpChannel \<Rightarrow> (int \<times> mem \<times> int \<times> 's srtpChannel) option" where
  "unprotectRtcp lib buffer len ch =
     (if \<not> srtp_active ch then Some (-1, buffer, len, ch)
      else map_option (\<lambda>s. case run_srtp (srtp_unprotect_rtcp lib) s buffer len of
             (val, buffer, len, s) \<Rightarrow> (val, buffer, len, ch\<lparr>receive_session := Some s\<rparr>)) (receive_session ch))"

subsection \<open>The transport\<close>

text \<open>The kinds of packets by their first byte (\<^verbatim>\<open>DtlsSocketContext::demuxPacket\<close>).\<close>

datatype demuxType = Demux_rtp | Demux_dtls | Demux_stun | Demux_unknown

definition demuxPacket :: "mem \<Rightarrow> demuxType" where
  "demuxPacket m =
     (if m 0 = 0 \<or> m 0 = 1 then Demux_stun
      else if 128 \<le> m 0 \<and> m 0 \<le> 191 then Demux_rtp
      else if 20 \<le> m 0 \<and> m 0 \<le> 64 then Demux_dtls
      else Demux_unknown)"

definition isDtlsPacket :: "mem \<Rightarrow> bool" where
  "isDtlsPacket m \<longleftrightarrow> demuxPacket m = Demux_dtls"

text \<open>The timer that sends a flight of the handshake again.\<close>

record resender =
  res_packet :: "dataPacket option"
  resend_seconds :: u32
  max_resends :: u32
  res_scheduled :: bool

definition kMaxResends :: u32 where "kMaxResends = 6"
definition kInitialSecsPerResend :: u32 where "kInitialSecsPerResend = 1"

definition new_Resender :: resender where
  "new_Resender = \<lparr>res_packet = None, resend_seconds = kInitialSecsPerResend, max_resends = kMaxResends,
     res_scheduled = False\<rparr>"

datatype iceState = ICE_INITIAL | ICE_CANDIDATES_RECEIVED | ICE_READY | ICE_FINISHED | ICE_FAILED

datatype dt_out =
    WriteOnIce int mem int
  | ReportState transportState
  | TransportData dataPacket
  | DtlsRead bool mem int
  | DtlsStart bool | DtlsClose bool | IceClose
  | ResendAfter bool u32

record 's dtlsTransport =
  dt_state :: transportState
  running :: bool
  dt_bundle :: bool
  dt_media :: mediaType
  rtcp_mux :: bool
  isServer :: bool
  readyRtp :: bool
  readyRtcp :: bool
  srtp :: "'s srtpChannel option"
  srtcp :: "'s srtpChannel option"
  has_dtlsRtcp :: bool
  rtp_started :: bool
  rtcp_started :: bool
  rtp_resender :: resender
  rtcp_resender :: "resender option"
  unprotect_packet :: dataPacket

definition new_DtlsTransport :: "mediaType \<Rightarrow> bool \<Rightarrow> bool \<Rightarrow> bool \<Rightarrow> dataPacket \<Rightarrow> 's dtlsTransport" where
  "new_DtlsTransport med with_bundle mux server raw =
     \<lparr>dt_state = TRANSPORT_INITIAL, running = True, dt_bundle = with_bundle, dt_media = med, rtcp_mux = mux,
      isServer = server, readyRtp = False, readyRtcp = False, srtp = None, srtcp = None, has_dtlsRtcp = \<not> mux,
      rtp_started = False, rtcp_started = False, rtp_resender = new_Resender,
      rtcp_resender = (if mux then None else Some new_Resender), unprotect_packet = raw\<rparr>"

type_synonym 's dt_result = "'s dtlsTransport \<times> dt_out list"

definition writeOnIce :: "int \<Rightarrow> mem \<Rightarrow> int \<Rightarrow> 's dtlsTransport \<Rightarrow> dt_out list" where
  "writeOnIce component buf len t = (if running t then [WriteOnIce component buf len] else [])"

definition report_state :: "transportState \<Rightarrow> 's dtlsTransport \<Rightarrow> 's dt_result" where
  "report_state st t = (if st = dt_state t then (t, []) else (t\<lparr>dt_state := st\<rparr>, [ReportState st]))"

definition cancel :: "resender \<Rightarrow> resender" where
  "cancel r = r\<lparr>res_scheduled := False\<rparr>"

definition dt_close :: "'s dtlsTransport \<Rightarrow> 's dt_result" where
  "dt_close t =
     (t\<lparr>running := False, rtp_resender := cancel (rtp_resender t),
        rtcp_resender := map_option cancel (rtcp_resender t), dt_state := TRANSPORT_FINISHED\<rparr>,
      [IceClose, DtlsClose False] @ (if has_dtlsRtcp t then [DtlsClose True] else []))"

subsection \<open>Packets from ICE\<close>

definition protectBuf_size :: int where "protectBuf_size = 5000"

definition get_channel :: "bool \<Rightarrow> 's dtlsTransport \<Rightarrow> 's srtpChannel option" where
  "get_channel rtcp t = (if rtcp then srtcp t else srtp t)"

definition put_channel :: "bool \<Rightarrow> 's srtpChannel \<Rightarrow> 's dtlsTransport \<Rightarrow> 's dtlsTransport" where
  "put_channel rtcp ch t = (if rtcp then t\<lparr>srtcp := Some ch\<rparr> else t\<lparr>srtp := Some ch\<rparr>)"

definition unprotect_with ::
    "'s srtp_library \<Rightarrow> mem \<Rightarrow> int \<Rightarrow> 's srtpChannel \<Rightarrow> (int \<times> mem \<times> int \<times> 's srtpChannel) option" where
  "unprotect_with lib m len ch = (if isRtcp m 0 then unprotectRtcp lib m len ch else unprotectRtp lib m len ch)"

definition received_copy :: "dataPacket \<Rightarrow> 's dtlsTransport \<Rightarrow> dataPacket" where
  "received_copy packet t =
     (unprotect_packet t)\<lparr>packet_length := packet_length packet, received_time_ms := received_time_ms packet,
        data := copy_mem 0 (data packet) (nat (packet_length packet)) (data (unprotect_packet t))\<rparr>"

definition receive_media :: "'s srtp_library \<Rightarrow> bool \<Rightarrow> dataPacket \<Rightarrow> 's dtlsTransport \<Rightarrow> 's dt_result option" where
  "receive_media lib rtcp u t =
     (case get_channel rtcp t of
        None \<Rightarrow> Some (t\<lparr>unprotect_packet := u\<rparr>, [])
      | Some ch \<Rightarrow> map_option (\<lambda>(val, m, len, ch).
          let u = u\<lparr>data := m, packet_length := len\<rparr>
          in ((put_channel rtcp ch t)\<lparr>unprotect_packet := u\<rparr>, if val < 0 then [] else [TransportData u]))
            (unprotect_with lib (data u) (packet_length u) ch))"

definition onIceData :: "'s srtp_library \<Rightarrow> dataPacket \<Rightarrow> 's dtlsTransport \<Rightarrow> 's dt_result option" where
  "onIceData lib packet t =
     (if packet_length packet = 0 then None
      else if isDtlsPacket (data packet)
      then if comp packet = 1
           then Some (t\<lparr>rtp_resender := cancel (rtp_resender t)\<rparr>, [DtlsRead False (data packet) (packet_length packet)])
           else if has_dtlsRtcp t
           then Some (t\<lparr>rtcp_resender := map_option cancel (rtcp_resender t)\<rparr>,
                      [DtlsRead True (data packet) (packet_length packet)])
           else None
      else if dt_state t \<noteq> TRANSPORT_READY then Some (t, [])
      else if packet_length packet < 0 \<or> int data_size < packet_length packet then None
      else receive_media lib (has_dtlsRtcp t \<and> comp packet = 2) (received_copy packet t) t)"

text \<open>A packet of length -1 says that ICE has gone.\<close>

definition onPacketReceived :: "'s srtp_library \<Rightarrow> dataPacket \<Rightarrow> 's dtlsTransport \<Rightarrow> 's dt_result option" where
  "onPacketReceived lib packet t =
     (if 0 < packet_length packet then onIceData lib packet t
      else if packet_length packet = -1 then Some (t\<lparr>running := False\<rparr>, [])
      else Some (t, []))"

subsection \<open>Packets to ICE\<close>

text \<open>
  \<^verbatim>\<open>write\<close> asks ICE for its state twice: before the packet is protected (\<open>ice1\<close>) and before it is
  sent (\<open>ice2\<close>). \<open>m\<close> is \<^verbatim>\<open>protectBuf_\<close> with the packet copied in. What ICE gets is in the output.
\<close>

definition protect_with ::
    "'s srtp_library \<Rightarrow> mem \<Rightarrow> int \<Rightarrow> 's srtpChannel \<Rightarrow> (int \<times> mem \<times> int \<times> 's srtpChannel) option" where
  "protect_with lib m len ch = (if isRtcp m 0 then protectRtcp lib m len ch else protectRtp lib m len ch)"

definition dt_send :: "bool \<Rightarrow> int \<Rightarrow> mem \<Rightarrow> int \<Rightarrow> 's dtlsTransport \<Rightarrow> dt_out list" where
  "dt_send ice2 component buf len t =
     (if len \<le> 10 then [] else if ice2 then writeOnIce component buf len t else [])"

definition dt_write :: "'s srtp_library \<Rightarrow> bool \<Rightarrow> bool \<Rightarrow> mem \<Rightarrow> int \<Rightarrow> 's dtlsTransport \<Rightarrow> 's dt_result option" where
  "dt_write lib ice1 ice2 m len t =
     (if \<not> running t then Some (t, [])
      else if dt_state t \<noteq> TRANSPORT_READY then Some (t, [])
      else if len < 0 \<or> protectBuf_size < len then None
      else
        let component = (if isRtcp m 0 \<and> \<not> rtcp_mux t then 2 else 1);
            rtcp = (isRtcp m 0 \<and> has_dtlsRtcp t)
        in case get_channel rtcp t of
             None \<Rightarrow> Some (t, dt_send ice2 component m len t)
           | Some ch \<Rightarrow>
               if ice1
               then map_option (\<lambda>(val, m, len, ch).
                      let t = put_channel rtcp ch t
                      in (t, if val < 0 then [] else dt_send ice2 component m len t)) (protect_with lib m len ch)
               else Some (t, dt_send ice2 component m len t))"

subsection \<open>The handshake\<close>

definition get_resender :: "bool \<Rightarrow> 's dtlsTransport \<Rightarrow> resender option" where
  "get_resender rtcp t = (if rtcp then rtcp_resender t else Some (rtp_resender t))"

definition put_resender :: "bool \<Rightarrow> resender \<Rightarrow> 's dtlsTransport \<Rightarrow> 's dtlsTransport" where
  "put_resender rtcp r t = (if rtcp then t\<lparr>rtcp_resender := Some r\<rparr> else t\<lparr>rtp_resender := r\<rparr>)"

definition scheduleNext :: "bool \<Rightarrow> resender \<Rightarrow> 's dtlsTransport \<Rightarrow> 's dt_result" where
  "scheduleNext rtcp r t =
     (put_resender rtcp (r\<lparr>res_scheduled := True, resend_seconds := resend_seconds r * 2\<rparr>) t,
      [ResendAfter rtcp (resend_seconds r)])"

definition writeDtlsPacket :: "dataPacket \<Rightarrow> 's dtlsTransport \<Rightarrow> dt_out list" where
  "writeDtlsPacket packet t = writeOnIce (comp packet) (data packet) (packet_length packet) t"

definition scheduleResend :: "bool \<Rightarrow> dataPacket \<Rightarrow> resender \<Rightarrow> 's dtlsTransport \<Rightarrow> 's dt_result" where
  "scheduleResend rtcp packet r t =
     (let r = r\<lparr>res_scheduled := False, resend_seconds := kInitialSecsPerResend, res_packet := Some packet\<rparr>;
          t = put_resender rtcp r t; os = writeDtlsPacket packet t
      in if dt_state t \<noteq> TRANSPORT_READY
         then case scheduleNext rtcp r t of (t, os') \<Rightarrow> (t, os @ os')
         else (t, os))"

definition onDtlsPacket :: "bool \<Rightarrow> dataPacket \<Rightarrow> 's dtlsTransport \<Rightarrow> 's dt_result option" where
  "onDtlsPacket rtcp packet t =
     map_option (\<lambda>r. scheduleResend rtcp (packet\<lparr>comp := (if rtcp then 2 else 1)\<rparr>) r t) (get_resender rtcp t)"

definition onHandshakeFailed :: "'s dtlsTransport \<Rightarrow> 's dt_result" where
  "onHandshakeFailed t = report_state TRANSPORT_FAILED (t\<lparr>running := False\<rparr>)"

text \<open>The timer: \<^verbatim>\<open>max_resends_-- > 0\<close> counts down also when it is 0.\<close>

definition resend :: "bool \<Rightarrow> 's dtlsTransport \<Rightarrow> 's dt_result option" where
  "resend rtcp t =
     Option.bind (get_resender rtcp t) (\<lambda>r.
       let left = max_resends r; r = r\<lparr>res_scheduled := False, max_resends := max_resends r - 1\<rparr>
       in if 0 < left
          then map_option (\<lambda>packet.
                 case scheduleNext rtcp r t of (t', os) \<Rightarrow> (t', writeDtlsPacket packet t @ os)) (res_packet r)
          else Some (onHandshakeFailed (put_resender rtcp r t)))"

definition onHandshakeCompleted :: "'s srtp_library \<Rightarrow> bool \<Rightarrow> string \<Rightarrow> string \<Rightarrow> 's dtlsTransport \<Rightarrow> 's dt_result" where
  "onHandshakeCompleted lib rtcp clientKey serverKey t =
     (let (clientKey, serverKey) = (if isServer t then (serverKey, clientKey) else (clientKey, serverKey));
          (valid, ch) = setRtpParams lib clientKey serverKey new_SrtpChannel;
          (t, os) =
            (if \<not> rtcp
             then let t = t\<lparr>srtp := Some ch\<rparr>;
                      (t, os) = (if valid then (t\<lparr>readyRtp := True\<rparr>, []) else report_state TRANSPORT_FAILED t)
                  in (if \<not> has_dtlsRtcp t then t\<lparr>readyRtcp := True\<rparr> else t, os)
             else let t = t\<lparr>srtcp := Some ch\<rparr>
                  in if valid then (t\<lparr>readyRtcp := True\<rparr>, []) else report_state TRANSPORT_FAILED t);
          (t, os') = (if readyRtp t \<and> readyRtcp t then report_state TRANSPORT_READY t else (t, []))
      in (t, os @ os'))"

definition updateIceStateSync :: "iceState \<Rightarrow> 's dtlsTransport \<Rightarrow> 's dt_result" where
  "updateIceStateSync state t =
     (if state = ICE_INITIAL \<and> dt_state t \<noteq> TRANSPORT_STARTED then report_state TRANSPORT_STARTED t
      else if state = ICE_CANDIDATES_RECEIVED \<and> dt_state t \<noteq> TRANSPORT_GATHERED then report_state TRANSPORT_GATHERED t
      else if state = ICE_FAILED then report_state TRANSPORT_FAILED (t\<lparr>running := False\<rparr>)
      else if state = ICE_READY
      then let (t, os1) = (if \<not> isServer t \<and> \<not> rtp_started t then (t\<lparr>rtp_started := True\<rparr>, [DtlsStart False]) else (t, []));
               (t, os2) = (if \<not> isServer t \<and> has_dtlsRtcp t \<and> \<not> rtcp_started t
                           then (t\<lparr>rtcp_started := True\<rparr>, [DtlsStart True]) else (t, []))
           in (t, os1 @ os2)
      else (t, []))"

text \<open>\<open>fprint\<close>, \<open>user\<close> and \<open>pass\<close> are the answers of the DTLS socket and of ICE.\<close>

definition processLocalSdp :: "string \<Rightarrow> string \<Rightarrow> string \<Rightarrow> 's dtlsTransport \<Rightarrow> SdpInfo \<Rightarrow> SdpInfo" where
  "processLocalSdp fprint user pass t l =
     (let l = l\<lparr>isFingerprint := True, fingerprint := fprint\<rparr>
      in if dt_bundle t then setCredentials user pass AUDIO_TYPE (setCredentials user pass VIDEO_TYPE l)
         else setCredentials user pass (dt_media t) l)"

subsection \<open>Runs\<close>

datatype dt_event =
    IceData dataPacket | WritePacket bool bool mem int | DtlsPacket bool dataPacket | Completed bool string string
  | HandshakeFailed | IceReports iceState | TimerFires bool | CloseTransport

fun dt_step :: "'s srtp_library \<Rightarrow> dt_event \<Rightarrow> 's dtlsTransport \<Rightarrow> 's dt_result option" where
  "dt_step lib (IceData packet) t = onPacketReceived lib packet t"
| "dt_step lib (WritePacket ice1 ice2 m len) t = dt_write lib ice1 ice2 m len t"
| "dt_step lib (DtlsPacket rtcp packet) t = onDtlsPacket rtcp packet t"
| "dt_step lib (Completed rtcp k1 k2) t =
     (if rtcp \<and> \<not> has_dtlsRtcp t then None else Some (onHandshakeCompleted lib rtcp k1 k2 t))"
| "dt_step lib HandshakeFailed t = Some (onHandshakeFailed t)"
| "dt_step lib (IceReports st) t = Some (updateIceStateSync st t)"
| "dt_step lib (TimerFires rtcp) t = resend rtcp t"
| "dt_step lib CloseTransport t = Some (dt_close t)"

inductive dt_reachable :: "'s srtp_library \<Rightarrow> 's dtlsTransport \<Rightarrow> bool" for lib where
  start: "dt_reachable lib (new_DtlsTransport med with_bundle mux server raw)"
| step: "dt_reachable lib t \<Longrightarrow> dt_step lib e t = Some (u, os) \<Longrightarrow> dt_reachable lib u"

text \<open>Ready means keyed: a channel for every context.\<close>

definition keyed :: "'s dtlsTransport \<Rightarrow> bool" where
  "keyed t \<longleftrightarrow> (readyRtp t \<longrightarrow> srtp t \<noteq> None) \<and> (readyRtcp t \<and> has_dtlsRtcp t \<longrightarrow> srtcp t \<noteq> None)
     \<and> (dt_state t = TRANSPORT_READY \<longrightarrow> readyRtp t \<and> readyRtcp t)"

definition keys_kept :: "'s dtlsTransport \<Rightarrow> 's dtlsTransport \<Rightarrow> bool" where
  "keys_kept t u \<longleftrightarrow> readyRtp u = readyRtp t \<and> readyRtcp u = readyRtcp t \<and> has_dtlsRtcp u = has_dtlsRtcp t
     \<and> (srtp t \<noteq> None \<longrightarrow> srtp u \<noteq> None) \<and> (srtcp t \<noteq> None \<longrightarrow> srtcp u \<noteq> None)
     \<and> (dt_state u = TRANSPORT_READY \<longrightarrow> dt_state t = TRANSPORT_READY)"

lemma keyed_kept: "keyed t \<Longrightarrow> keys_kept t u \<Longrightarrow> keyed u"
  by (auto simp: keyed_def keys_kept_def)

lemma report_state_kept: "st \<noteq> TRANSPORT_READY \<Longrightarrow> keys_kept t (fst (report_state st t))"
  by (simp add: report_state_def keys_kept_def)

lemma dt_close_kept: "keys_kept t (fst (dt_close t))"
  by (simp add: dt_close_def keys_kept_def)

lemma onHandshakeFailed_kept: "keys_kept t (fst (onHandshakeFailed t))"
  by (simp add: onHandshakeFailed_def report_state_def keys_kept_def)

lemma updateIceStateSync_kept: "keys_kept t (fst (updateIceStateSync st t))"
  by (auto simp: updateIceStateSync_def report_state_def keys_kept_def)

lemma put_resender_kept: "keys_kept t (put_resender rtcp r t)"
  by (simp add: put_resender_def keys_kept_def)

lemma put_resender_twice: "keys_kept t (put_resender rtcp q (put_resender rtcp r t))"
  by (cases rtcp) (simp_all add: put_resender_def keys_kept_def)

lemma scheduleResend_kept: "keys_kept t (fst (scheduleResend rtcp packet r t))"
  unfolding scheduleResend_def scheduleNext_def Let_def
  by (simp add: put_resender_kept put_resender_twice)

lemma onDtlsPacket_kept: "onDtlsPacket rtcp packet t = Some (u, os) \<Longrightarrow> keys_kept t u"
  unfolding onDtlsPacket_def using scheduleResend_kept
  by (metis (no_types, lifting) fst_conv map_option_eq_Some)

lemma put_resender_failed: "keys_kept t (fst (onHandshakeFailed (put_resender rtcp r t)))"
  by (cases rtcp) (simp_all add: put_resender_def onHandshakeFailed_def report_state_def keys_kept_def)

lemma resend_kept: "resend rtcp t = Some (u, os) \<Longrightarrow> keys_kept t u"
proof -
  assume r: "resend rtcp t = Some (u, os)"
  obtain q where q: "get_resender rtcp t = Some q" using r by (cases "get_resender rtcp t") (simp_all add: resend_def)
  show ?thesis
  proof (cases "0 < max_resends q")
    case True
    then show ?thesis using r q by (auto simp: resend_def scheduleNext_def put_resender_kept)
  next
    case False
    then show ?thesis
      using r q put_resender_failed [of t rtcp "q\<lparr>res_scheduled := False, max_resends := max_resends q - 1\<rparr>"]
      by (simp add: resend_def)
  qed
qed

lemma put_channel_kept: "keys_kept t (put_channel rtcp ch t)" "keys_kept t ((put_channel rtcp ch t)\<lparr>unprotect_packet := u\<rparr>)"
  by (simp_all add: put_channel_def keys_kept_def)

lemma keys_kept_packet: "keys_kept t (t\<lparr>unprotect_packet := p\<rparr>)" "keys_kept t t"
  "keys_kept t (t\<lparr>rtp_resender := r\<rparr>)" "keys_kept t (t\<lparr>rtcp_resender := q\<rparr>)"
  by (simp_all add: keys_kept_def)

lemma receive_media_kept: "receive_media lib rtcp p t = Some (u, os) \<Longrightarrow> keys_kept t u"
  unfolding receive_media_def Let_def
  by (cases "get_channel rtcp t") (auto simp: keys_kept_packet put_channel_kept)

lemma onIceData_kept: "onIceData lib packet t = Some (u, os) \<Longrightarrow> keys_kept t u"
  unfolding onIceData_def
  by (auto simp: keys_kept_packet receive_media_kept split: if_splits)

lemma onPacketReceived_kept: "onPacketReceived lib packet t = Some (u, os) \<Longrightarrow> keys_kept t u"
  unfolding onPacketReceived_def using onIceData_kept [of lib packet t u os]
  by (auto simp: keys_kept_def split: if_splits)

lemma dt_write_kept: "dt_write lib ice1 ice2 m len t = Some (u, os) \<Longrightarrow> keys_kept t u"
  unfolding dt_write_def Let_def
  by (auto simp: keys_kept_packet put_channel_kept split: if_splits option.splits)

lemma onHandshakeCompleted_keyed:
  assumes "keyed t" "rtcp \<longrightarrow> has_dtlsRtcp t"
  shows "keyed (fst (onHandshakeCompleted lib rtcp k1 k2 t))"
  using assms
  by (cases rtcp)
    (auto simp: onHandshakeCompleted_def Let_def keyed_def report_state_def split: prod.splits if_splits)

lemma reachable_keyed: "dt_reachable lib t \<Longrightarrow> keyed t"
proof (induction rule: dt_reachable.induct)
  case (start med with_bundle mux server raw)
  show ?case by (simp add: keyed_def new_DtlsTransport_def)
next
  case (step t e u os)
  show ?case
  proof (cases e)
    case (Completed rtcp k1 k2)
    then show ?thesis using step onHandshakeCompleted_keyed [of t rtcp lib k1 k2]
      by (auto split: if_splits)
  next
    case HandshakeFailed
    then show ?thesis using step keyed_kept onHandshakeFailed_kept by (metis dt_step.simps(5) fst_conv option.inject)
  next
    case (IceReports st)
    then show ?thesis using step keyed_kept updateIceStateSync_kept by (metis dt_step.simps(6) fst_conv option.inject)
  next
    case CloseTransport
    then show ?thesis using step keyed_kept dt_close_kept by (metis dt_step.simps(8) fst_conv option.inject)
  qed (use step keyed_kept onPacketReceived_kept dt_write_kept onDtlsPacket_kept resend_kept in fastforce)+
qed

text \<open>
  C17: No media leaves unprotected. In every state that a transport can reach, by whatever packets,
  handshakes, reports of ICE, timers and closing, what \<open>write\<close> gives to ICE is the output of the
  library's protection of the packet it was given, for RTP or RTCP as the packet is, with
  result code 0. ICE answers alike both times it is asked during the call.
\<close>
theorem nothing_leaves_unprotected:
  assumes "dt_reachable lib t" "dt_write lib ice ice m len t = Some (u, os)" "WriteOnIce component buf n \<in> set os"
  shows "\<exists>s s'. (if isRtcp m 0 then srtp_protect_rtcp lib s m len else srtp_protect lib s m len) = (0, buf, n, s')"
proof -
  have k: "keyed t" by (rule reachable_keyed [OF assms(1)])
  define rtcp where "rtcp = (isRtcp m 0 \<and> has_dtlsRtcp t)"
  have ready: "running t" "dt_state t = TRANSPORT_READY" "\<not> (len < 0 \<or> protectBuf_size < len)"
    using assms(2,3) by (auto simp: dt_write_def split: if_splits)
  have ice: "ice"
    using assms(2,3) ready by (auto simp: dt_write_def dt_send_def Let_def split: if_splits option.splits)
  have "get_channel rtcp t \<noteq> None"
    using k ready(2) unfolding keyed_def rtcp_def get_channel_def by (cases "has_dtlsRtcp t") simp_all
  then obtain ch where ch: "get_channel rtcp t = Some ch" by blast
  obtain val m' len' ch' where p: "protect_with lib m len ch = Some (val, m', len', ch')" and "\<not> val < 0"
    and out: "WriteOnIce component buf n \<in> set (dt_send ice (if isRtcp m 0 \<and> \<not> rtcp_mux t then 2 else 1) m' len'
      (put_channel rtcp ch' t))"
    using assms(2,3) ready ice ch
    by (auto simp: dt_write_def Let_def rtcp_def [symmetric] split: if_splits)
  have "buf = m' \<and> n = len'" using out by (auto simp: dt_send_def writeOnIce_def split: if_splits)
  moreover have "\<exists>s s'. (if isRtcp m 0 then srtp_protect_rtcp lib s m len else srtp_protect lib s m len) = (0, m', len', s')"
    using p \<open>\<not> val < 0\<close>
    by (auto simp: protect_with_def protectRtp_def protectRtcp_def run_srtp_def split: if_splits prod.splits) blast+
  ultimately show ?thesis by simp
qed

definition sample_library :: "unit srtp_library" where
  "sample_library =
     \<lparr>srtp_create = \<lambda>_ _. Some (), srtp_protect = \<lambda>s m len. (0, m(nat len := 7), len + 10, s),
      srtp_unprotect = \<lambda>s m len. (0, m, len - 10, s),
      srtp_protect_rtcp = \<lambda>s m len. (0, m(nat len := 8), len + 14, s),
      srtp_unprotect_rtcp = \<lambda>s m len. (0, m, len - 14, s)\<rparr>"

definition sample_new :: "unit dtlsTransport" where
  "sample_new = new_DtlsTransport VIDEO_TYPE True True False (new_dataPacket 1 zero_mem 0 VIDEO_PACKET 0)"

definition sample_transport :: "unit dtlsTransport" where
  "sample_transport = fst (onHandshakeCompleted sample_library False ''a'' ''b'' sample_new)"

lemma sample_transport_reachable: "dt_reachable sample_library sample_transport"
proof -
  have "dt_reachable sample_library sample_new" unfolding sample_new_def by (rule dt_reachable.start)
  moreover have "dt_step sample_library (Completed False ''a'' ''b'') sample_new
      = Some (sample_transport, snd (onHandshakeCompleted sample_library False ''a'' ''b'' sample_new))"
    by (simp add: sample_transport_def)
  ultimately show ?thesis by (rule dt_reachable.step)
qed

definition sample_rtp :: mem where
  "sample_rtp = zero_mem(0 := 128, 1 := 100)"

lemma sample_write:
  "map_option snd (dt_write sample_library True True sample_rtp 40 sample_transport)
     = Some [WriteOnIce 1 (sample_rtp(40 := 7)) 50]"
  by (simp add: sample_transport_def sample_new_def sample_library_def sample_rtp_def onHandshakeCompleted_def
      new_DtlsTransport_def setRtpParams_def new_SrtpChannel_def report_state_def Let_def dt_write_def
      isRtcp_def getPacketType_def zero_mem_def get_channel_def put_channel_def protectBuf_size_def protect_with_def
      protectRtp_def run_srtp_def dt_send_def writeOnIce_def)

lemma nothing_leaves_unprotected_witness:
  "\<exists>s s'. srtp_protect sample_library s sample_rtp 40 = (0, sample_rtp(40 := 7), 50, s')"
proof -
  obtain u where w: "dt_write sample_library True True sample_rtp 40 sample_transport
      = Some (u, [WriteOnIce 1 (sample_rtp(40 := 7)) 50])"
    using sample_write by (cases "dt_write sample_library True True sample_rtp 40 sample_transport") auto
  have "\<not> isRtcp sample_rtp 0" by (simp add: isRtcp_def sample_rtp_def zero_mem_def getPacketType_def)
  then show ?thesis
    using nothing_leaves_unprotected [OF sample_transport_reachable w, of 1 "sample_rtp(40 := 7)" 50] by simp
qed

subsection \<open>What the model shows besides\<close>

text \<open>
  ICE is asked twice. When it becomes ready between the two questions the packet leaves as it came, in
  the clear.
\<close>

lemma leaves_in_the_clear:
  assumes "running t" "dt_state t = TRANSPORT_READY" "10 < len" "len \<le> protectBuf_size"
  shows "\<exists>component. dt_write lib False True m len t = Some (t, [WriteOnIce component m len])"
  using assms by (auto simp: dt_write_def dt_send_def writeOnIce_def Let_def split: option.splits)

text \<open>The timer sends the flight again and doubles its delay as long as there are attempts left.\<close>

lemma resend_again:
  assumes "get_resender rtcp t = Some r" "0 < max_resends r" "res_packet r = Some p"
  shows "resend rtcp t = Some (put_resender rtcp (r\<lparr>max_resends := max_resends r - 1, res_scheduled := True,
      resend_seconds := resend_seconds r * 2\<rparr>) t, writeDtlsPacket p t @ [ResendAfter rtcp (resend_seconds r)])"
  using assms by (simp add: resend_def scheduleNext_def)

lemma resend_gives_up:
  assumes "get_resender rtcp t = Some r" "max_resends r = 0" "dt_state t \<noteq> TRANSPORT_FAILED"
  shows "\<exists>u. resend rtcp t = Some (u, [ReportState TRANSPORT_FAILED]) \<and> dt_state u = TRANSPORT_FAILED \<and> \<not> running u
    \<and> map_option max_resends (get_resender rtcp u) = Some 0xFFFFFFFF"
  using assms
  by (cases rtcp) (simp_all add: resend_def onHandshakeFailed_def report_state_def put_resender_def get_resender_def)

fun resends :: "nat \<Rightarrow> bool \<Rightarrow> 's dtlsTransport \<Rightarrow> 's dt_result option" where
  "resends 0 rtcp t = Some (t, [])"
| "resends (Suc k) rtcp t =
     Option.bind (resend rtcp t) (\<lambda>(t, os). map_option (\<lambda>(t, os'). (t, os @ os')) (resends k rtcp t))"

text \<open>
  A flight that is never answered leaves seven times within 63 seconds, and 64 seconds later the
  transport fails.
\<close>

lemma unanswered_flight_fails:
  assumes "running t" "dt_state t \<noteq> TRANSPORT_READY" "dt_state t \<noteq> TRANSPORT_FAILED" "max_resends (rtp_resender t) = kMaxResends"
  shows "map_option snd (Option.bind (onDtlsPacket False p t)
        (\<lambda>(t, os). map_option (\<lambda>(t, os'). (t, os @ os')) (resends 7 False t)))
    = Some (let w = WriteOnIce 1 (data p) (packet_length p)
        in [w, ResendAfter False 1, w, ResendAfter False 2, w, ResendAfter False 4, w, ResendAfter False 8,
            w, ResendAfter False 16, w, ResendAfter False 32, w, ResendAfter False 64, ReportState TRANSPORT_FAILED])"
proof -
  have seven: "resends 7 = resends (Suc (Suc (Suc (Suc (Suc (Suc (Suc 0)))))))" by (simp add: numeral_eq_Suc)
  show ?thesis
    using assms unfolding seven
    by (simp add: onDtlsPacket_def scheduleResend_def scheduleNext_def writeDtlsPacket_def writeOnIce_def put_resender_def
        get_resender_def resend_def kInitialSecsPerResend_def kMaxResends_def onHandshakeFailed_def report_state_def Let_def)
qed

text \<open>Data of a second component that looks like DTLS, on a transport without one, follows a null pointer.\<close>

lemma second_component_null:
  "isDtlsPacket (data packet) \<Longrightarrow> comp packet = 2 \<Longrightarrow> \<not> has_dtlsRtcp t \<Longrightarrow> onIceData lib packet t = None"
  by (simp add: onIceData_def)

end
