(* ===== verification/Pipeline.thy ===== *)
theory Pipeline
  imports RtpPaddingRemoval RtpTrackMute SRPacket RtcpFeedbackGeneration
begin

text \<open>
  \<^verbatim>\<open>pipeline/\<close>: the chain of handlers a packet runs through. Contexts and handlers are objects in memories,
  since contexts hold raw pointers to their neighbours and a handler can be in several contexts; a
  context that was freed is \<open>None\<close>. A handler is seen by what its virtual functions do to it and by
  what they pass on, in order; handlers pass on at the end of their functions. \<open>None\<close> as a result is
  undefined behaviour, an assertion that fails, or a run without end.
\<close>

subsection \<open>Contexts and handlers\<close>

datatype handlerDir = Dir_in | Dir_out | Dir_both

definition goes_in :: "handlerDir \<Rightarrow> bool" where
  "goes_in d \<longleftrightarrow> d = Dir_both \<or> d = Dir_in"

definition goes_out :: "handlerDir \<Rightarrow> bool" where
  "goes_out d \<longleftrightarrow> d = Dir_both \<or> d = Dir_out"

record pipelineContext =
  ctx_handler :: nat
  ctx_class :: string
  ctx_dir :: handlerDir
  nextIn :: "nat option"
  nextOut :: "nat option"
  attached :: bool

definition new_context :: "nat \<Rightarrow> string \<Rightarrow> handlerDir \<Rightarrow> pipelineContext" where
  "new_context h cls d =
     \<lparr>ctx_handler = h, ctx_class = cls, ctx_dir = d, nextIn = None, nextOut = None, attached = False\<rparr>"

record 'h pipeline =
  contexts :: "nat \<Rightarrow> pipelineContext option"
  handlers :: "nat \<Rightarrow> 'h"
  attachCount :: "nat \<Rightarrow> u64"
  handler_ctx :: "nat \<Rightarrow> nat option"
  ctxs :: "nat list"
  inCtxs :: "nat list"
  outCtxs :: "nat list"
  front_link :: "nat option"
  back_link :: "nat option"
  pipe_owner :: "nat option"

definition new_pipeline :: "(nat \<Rightarrow> 'h) \<Rightarrow> 'h pipeline" where
  "new_pipeline hs =
     \<lparr>contexts = (\<lambda>_. None), handlers = hs, attachCount = (\<lambda>_. 0), handler_ctx = (\<lambda>_. None), ctxs = [], inCtxs = [],
      outCtxs = [], front_link = None, back_link = None, pipe_owner = None\<rparr>"

record 'h handler_class =
  on_read :: "dataPacket \<Rightarrow> 'h \<Rightarrow> ('h \<times> fire list) option"
  on_write :: "dataPacket \<Rightarrow> 'h \<Rightarrow> ('h \<times> fire list) option"
  on_notify :: "'h \<Rightarrow> ('h \<times> fire list) option"
  on_enable :: "bool \<Rightarrow> 'h \<Rightarrow> 'h"
  handler_name :: "'h \<Rightarrow> string"

subsection \<open>Building a pipeline\<close>

definition place_at :: "bool \<Rightarrow> nat \<Rightarrow> nat list \<Rightarrow> nat list" where
  "place_at front c cs = (if front then c # cs else cs @ [c])"

definition addHelper :: "bool \<Rightarrow> nat \<Rightarrow> pipelineContext \<Rightarrow> 'h pipeline \<Rightarrow> 'h pipeline" where
  "addHelper front c k s =
     s\<lparr>contexts := (contexts s)(c := Some k), ctxs := place_at front c (ctxs s),
       inCtxs := (if goes_in (ctx_dir k) then place_at front c (inCtxs s) else inCtxs s),
       outCtxs := (if goes_out (ctx_dir k) then place_at front c (outCtxs s) else outCtxs s)\<rparr>"

definition addBack :: "nat \<Rightarrow> nat \<Rightarrow> string \<Rightarrow> handlerDir \<Rightarrow> 'h pipeline \<Rightarrow> 'h pipeline" where
  "addBack c h cls d s = addHelper False c (new_context h cls d) s"

definition addFront :: "nat \<Rightarrow> nat \<Rightarrow> string \<Rightarrow> handlerDir \<Rightarrow> 'h pipeline \<Rightarrow> 'h pipeline" where
  "addFront c h cls d s = addHelper True c (new_context h cls d) s"

text \<open>The context is freed with its last \<^verbatim>\<open>shared_ptr\<close>, unless it is the owner of the pipeline.\<close>

definition removeAt :: "nat \<Rightarrow> 'h pipeline \<Rightarrow> 'h pipeline option" where
  "removeAt c s =
     (case contexts s c of
        None \<Rightarrow> None
      | Some k \<Rightarrow>
          if goes_in (ctx_dir k) \<and> c \<notin> set (inCtxs s) \<or> goes_out (ctx_dir k) \<and> c \<notin> set (outCtxs s) then None
          else Some (s\<lparr>contexts := (contexts s)(c := (if pipe_owner s = Some c then Some (k\<lparr>attached := False\<rparr>) else None)),
                       ctxs := remove1 c (ctxs s),
                       inCtxs := (if goes_in (ctx_dir k) then remove1 c (inCtxs s) else inCtxs s),
                       outCtxs := (if goes_out (ctx_dir k) then remove1 c (outCtxs s) else outCtxs s)\<rparr>))"

text \<open>The exception of an empty pipeline is \<open>False\<close>.\<close>

definition removeFront :: "'h pipeline \<Rightarrow> (bool \<times> 'h pipeline) option" where
  "removeFront s = (if ctxs s = [] then Some (False, s) else map_option (Pair True) (removeAt (hd (ctxs s)) s))"

definition removeBack :: "'h pipeline \<Rightarrow> (bool \<times> 'h pipeline) option" where
  "removeBack s = (if ctxs s = [] then Some (False, s) else map_option (Pair True) (removeAt (last (ctxs s)) s))"

text \<open>The loop goes on behind the element after the one it has removed.\<close>

fun remove_loop :: "(pipelineContext \<Rightarrow> bool) \<Rightarrow> nat list \<Rightarrow> 'h pipeline \<Rightarrow> (bool \<times> 'h pipeline) option" where
  "remove_loop sel [] s = Some (False, s)"
| "remove_loop sel (c # cs) s =
     (case contexts s c of
        None \<Rightarrow> None
      | Some k \<Rightarrow>
          if sel k then Option.bind (removeAt c s) (\<lambda>s. map_option (\<lambda>(_, s). (True, s)) (remove_loop sel (tl cs) s))
          else remove_loop sel cs s)"

text \<open>\<open>remove()\<close> and \<open>remove(handler)\<close>: \<open>False\<close> is the exception.\<close>

definition removeHelper :: "string \<Rightarrow> nat option \<Rightarrow> 'h pipeline \<Rightarrow> (bool \<times> 'h pipeline) option" where
  "removeHelper cls handler s =
     remove_loop (\<lambda>k. ctx_class k = cls \<and> (case handler of None \<Rightarrow> True | Some h \<Rightarrow> ctx_handler k = h)) (ctxs s) s"

definition pl_getContext :: "string \<Rightarrow> 'h pipeline \<Rightarrow> nat option" where
  "pl_getContext cls s = find (\<lambda>c. \<exists>k. contexts s c = Some k \<and> ctx_class k = cls) (ctxs s)"

definition setOwner :: "string \<Rightarrow> nat \<Rightarrow> 'h pipeline \<Rightarrow> bool \<times> 'h pipeline" where
  "setOwner cls h s =
     (case find (\<lambda>c. \<exists>k. contexts s c = Some k \<and> ctx_class k = cls \<and> ctx_handler k = h) (ctxs s) of
        None \<Rightarrow> (False, s) | Some c \<Rightarrow> (True, s\<lparr>pipe_owner := Some c\<rparr>))"

subsection \<open>Packets on their way\<close>

datatype task = ReadAt nat dataPacket | WriteAt nat dataPacket

primrec task_of :: "pipelineContext \<Rightarrow> fire \<Rightarrow> task list" where
  "task_of k (FireRead p) = (case nextIn k of None \<Rightarrow> [] | Some c \<Rightarrow> [ReadAt c p])"
| "task_of k (FireWrite p) = (case nextOut k of None \<Rightarrow> [] | Some c \<Rightarrow> [WriteAt c p])"

definition set_handler :: "nat \<Rightarrow> 'h \<Rightarrow> 'h pipeline \<Rightarrow> 'h pipeline" where
  "set_handler h x s = s\<lparr>handlers := (handlers s)(h := x)\<rparr>"

definition call_handler ::
    "('h \<Rightarrow> ('h \<times> fire list) option) \<Rightarrow> nat \<Rightarrow> 'h pipeline \<Rightarrow> ('h pipeline \<times> pipelineContext \<times> fire list) option" where
  "call_handler f c s =
     (case contexts s c of
        None \<Rightarrow> None
      | Some k \<Rightarrow> map_option (\<lambda>(x, fs). (set_handler (ctx_handler k) x s, k, fs)) (f (handlers s (ctx_handler k))))"

primrec call_task :: "'h handler_class \<Rightarrow> task \<Rightarrow> 'h pipeline \<Rightarrow> ('h pipeline \<times> pipelineContext \<times> fire list) option" where
  "call_task ops (ReadAt c p) s = call_handler (on_read ops p) c s"
| "call_task ops (WriteAt c p) s = call_handler (on_write ops p) c s"

partial_function (option) run :: "'h handler_class \<Rightarrow> task list \<Rightarrow> 'h pipeline \<Rightarrow> 'h pipeline option" where
  "run ops ts s =
     (case ts of
        [] \<Rightarrow> Some s
      | t # ts \<Rightarrow>
          Option.bind (call_task ops t s) (\<lambda>(s, k, fs). run ops (concat (map (task_of k) fs) @ ts) s))"

definition pipe_read :: "'h handler_class \<Rightarrow> dataPacket \<Rightarrow> 'h pipeline \<Rightarrow> 'h pipeline option" where
  "pipe_read ops p s = (case front_link s of None \<Rightarrow> Some s | Some c \<Rightarrow> run ops [ReadAt c p] s)"

definition pipe_write :: "'h handler_class \<Rightarrow> dataPacket \<Rightarrow> 'h pipeline \<Rightarrow> 'h pipeline option" where
  "pipe_write ops p s = (case back_link s of None \<Rightarrow> Some s | Some c \<Rightarrow> run ops [WriteAt c p] s)"

subsection \<open>finalize, notifyUpdate, enable, disable\<close>

fun link :: "(nat option \<Rightarrow> pipelineContext \<Rightarrow> pipelineContext) \<Rightarrow> nat list
    \<Rightarrow> (nat \<Rightarrow> pipelineContext option) \<Rightarrow> nat \<Rightarrow> pipelineContext option" where
  "link set_next [] m = m"
| "link set_next (c # cs) m =
     link set_next cs (m(c := map_option (set_next (case cs of [] \<Rightarrow> None | d # _ \<Rightarrow> Some d)) (m c)))"

definition setNextIn :: "nat option \<Rightarrow> pipelineContext \<Rightarrow> pipelineContext" where
  "setNextIn n k = k\<lparr>nextIn := n\<rparr>"

definition setNextOut :: "nat option \<Rightarrow> pipelineContext \<Rightarrow> pipelineContext" where
  "setNextOut n k = k\<lparr>nextOut := n\<rparr>"

definition link_all :: "'h pipeline \<Rightarrow> 'h pipeline" where
  "link_all s =
     s\<lparr>front_link := (case inCtxs s of [] \<Rightarrow> None | c # _ \<Rightarrow> Some c),
       back_link := (case rev (outCtxs s) of [] \<Rightarrow> None | c # _ \<Rightarrow> Some c),
       contexts := link setNextOut (rev (outCtxs s)) (link setNextIn (inCtxs s) (contexts s))\<rparr>"

text \<open>The second context of a handler takes its pointer to a context away.\<close>

definition attachPipeline :: "nat \<Rightarrow> 'h pipeline \<Rightarrow> 'h pipeline" where
  "attachPipeline c s =
     (case contexts s c of
        None \<Rightarrow> s
      | Some k \<Rightarrow>
          if attached k then s
          else let h = ctx_handler k; n = attachCount s h + 1
               in s\<lparr>attachCount := (attachCount s)(h := n),
                    handler_ctx := (handler_ctx s)(h := (if n = 1 then Some c else None)),
                    contexts := (contexts s)(c := Some (k\<lparr>attached := True\<rparr>))\<rparr>)"

text \<open>\<open>HandlerBase::getContext\<close>\<close>

definition handler_getContext :: "nat \<Rightarrow> 'h pipeline \<Rightarrow> nat option" where
  "handler_getContext h s = (if attachCount s h \<noteq> 1 then None else handler_ctx s h)"

text \<open>What \<open>notifyUpdate\<close> of a handler passes on goes through the handler's own pointer to its context.\<close>

definition notify_at :: "'h handler_class \<Rightarrow> nat \<Rightarrow> 'h pipeline \<Rightarrow> 'h pipeline option" where
  "notify_at ops c s =
     Option.bind (call_handler (on_notify ops) c s) (\<lambda>(s, k, fs).
       if fs = [] then Some s
       else Option.bind (handler_getContext (ctx_handler k) s) (\<lambda>d.
         Option.bind (contexts s d) (\<lambda>k'. run ops (concat (map (task_of k') fs)) s)))"

fun each :: "('a \<Rightarrow> 's \<Rightarrow> 's option) \<Rightarrow> 'a list \<Rightarrow> 's \<Rightarrow> 's option" where
  "each f [] s = Some s"
| "each f (x # xs) s = Option.bind (f x s) (each f xs)"

definition pipe_notifyUpdate :: "'h handler_class \<Rightarrow> 'h pipeline \<Rightarrow> 'h pipeline option" where
  "pipe_notifyUpdate ops s = each (notify_at ops) (rev (ctxs s)) s"

definition finalize :: "'h handler_class \<Rightarrow> 'h pipeline \<Rightarrow> 'h pipeline option" where
  "finalize ops s = (let s = link_all s in pipe_notifyUpdate ops (fold attachPipeline (rev (ctxs s)) s))"

definition enable_at :: "'h handler_class \<Rightarrow> bool \<Rightarrow> string \<Rightarrow> nat \<Rightarrow> 'h pipeline \<Rightarrow> 'h pipeline option" where
  "enable_at ops on name c s =
     map_option (\<lambda>k. let x = handlers s (ctx_handler k)
        in if handler_name ops x = name then set_handler (ctx_handler k) (on_enable ops on x) s else s) (contexts s c)"

definition pipe_enable :: "'h handler_class \<Rightarrow> bool \<Rightarrow> string \<Rightarrow> 'h pipeline \<Rightarrow> 'h pipeline option" where
  "pipe_enable ops on name s = each (enable_at ops on name) (rev (ctxs s)) s"

text \<open>What the pipeline is there for, without pointers: a packet through lists of handlers.\<close>

primrec write_down :: "'h handler_class \<Rightarrow> nat list \<Rightarrow> dataPacket \<Rightarrow> 'h pipeline \<Rightarrow> 'h pipeline option" where
  "write_down ops [] = (\<lambda>p s. Some s)"
| "write_down ops (c # lower) = (\<lambda>p s.
     Option.bind (call_handler (on_write ops p) c s) (\<lambda>(s, k, fs).
       each (\<lambda>f s. case f of FireRead q \<Rightarrow> Some s | FireWrite q \<Rightarrow> write_down ops lower q s) fs s))"

definition below :: "nat \<Rightarrow> 'h pipeline \<Rightarrow> nat list" where
  "below c s = (if c \<in> set (outCtxs s) then rev (takeWhile (\<lambda>d. d \<noteq> c) (outCtxs s)) else [])"

primrec read_up :: "'h handler_class \<Rightarrow> nat list \<Rightarrow> dataPacket \<Rightarrow> 'h pipeline \<Rightarrow> 'h pipeline option" where
  "read_up ops [] = (\<lambda>p s. Some s)"
| "read_up ops (c # upper) = (\<lambda>p s.
     Option.bind (call_handler (on_read ops p) c s) (\<lambda>(s, k, fs).
       each (\<lambda>f s. case f of FireRead q \<Rightarrow> read_up ops upper q s | FireWrite q \<Rightarrow> write_down ops (below c s) q s) fs s))"

subsection \<open>Runs change handlers only\<close>

definition rewired :: "'h pipeline \<Rightarrow> 'h pipeline \<Rightarrow> bool" where
  "rewired s t \<longleftrightarrow> (\<exists>hs. t = s\<lparr>handlers := hs\<rparr>)"

lemma rewired_refl [simp]: "rewired s s"
  unfolding rewired_def by (rule exI [of _ "handlers s"]) simp

lemma rewired_trans: "rewired s t \<Longrightarrow> rewired t u \<Longrightarrow> rewired s u"
  unfolding rewired_def by auto

lemma rewired_parts:
  assumes "rewired s t"
  shows "contexts t = contexts s" "ctxs t = ctxs s" "inCtxs t = inCtxs s" "outCtxs t = outCtxs s"
    "front_link t = front_link s" "back_link t = back_link s" "below c t = below c s"
  using assms by (auto simp: rewired_def below_def)

lemma call_handler_rewired: "call_handler f c s = Some (t, k, fs) \<Longrightarrow> rewired s t \<and> contexts s c = Some k"
  by (auto simp: call_handler_def rewired_def set_handler_def split: option.splits)

lemma call_task_rewired: "call_task ops x s = Some (t, k, fs) \<Longrightarrow> rewired s t"
  using call_handler_rewired by (cases x) fastforce+

lemma run_Nil [simp]: "run ops [] s = Some s"
  by (subst run.simps) simp

lemma run_Cons:
  "run ops (x # ts) s = Option.bind (call_task ops x s) (\<lambda>(s, k, fs). run ops (concat (map (task_of k) fs) @ ts) s)"
  by (subst run.simps) simp

lemma run_rewired:
  assumes "run ops ts s = Some t"
  shows "rewired s t"
proof (rule run.raw_induct [OF _ assms])
  fix go ops ts s t
  assume IH: "\<And>ops ts s t. go ops ts s = Some t \<Longrightarrow> rewired s t"
    and r: "(case ts of [] \<Rightarrow> Some s
      | x # ts \<Rightarrow> Option.bind (call_task ops x s) (\<lambda>(s, k, fs). go ops (concat (map (task_of k) fs) @ ts) s)) = Some t"
  show "rewired s t"
  proof (cases ts)
    case (Cons x xs)
    then obtain v where v: "call_task ops x s = Some v" using r by (cases "call_task ops x s") simp_all
    obtain u k fs where "v = (u, k, fs)" by (cases v)
    then have "call_task ops x s = Some (u, k, fs)" "go ops (concat (map (task_of k) fs) @ xs) u = Some t"
      using r v Cons by simp_all
    then show ?thesis using call_task_rewired IH rewired_trans by blast
  qed (use r in simp)
qed

lemma each_rewired:
  assumes "\<And>x s t. x \<in> set xs \<Longrightarrow> f x s = Some t \<Longrightarrow> rewired s t" "each f xs s = Some t"
  shows "rewired s t"
  using assms
proof (induction xs arbitrary: s)
  case (Cons x xs)
  then obtain u where "f x s = Some u" "each f xs u = Some t" by (auto simp: bind_eq_Some_conv)
  then show ?case using Cons by (meson list.set_intros rewired_trans)
qed simp

lemma write_down_rewired: "write_down ops cs p s = Some t \<Longrightarrow> rewired s t"
proof (induction cs arbitrary: p s t)
  case (Cons c cs)
  then obtain u k fs where c: "call_handler (on_write ops p) c s = Some (u, k, fs)"
    and e: "each (\<lambda>f s. case f of FireRead q \<Rightarrow> Some s | FireWrite q \<Rightarrow> write_down ops cs q s) fs u = Some t"
    by (auto simp: bind_eq_Some_conv)
  have "rewired u t" using e by (rule each_rewired [rotated]) (auto split: fire.splits intro: Cons.IH)
  then show ?case using call_handler_rewired [OF c] rewired_trans by blast
qed simp

lemma read_up_rewired: "read_up ops cs p s = Some t \<Longrightarrow> rewired s t"
proof (induction cs arbitrary: p s t)
  case (Cons c cs)
  then obtain u k fs where c: "call_handler (on_read ops p) c s = Some (u, k, fs)"
    and e: "each (\<lambda>f s. case f of FireRead q \<Rightarrow> read_up ops cs q s | FireWrite q \<Rightarrow> write_down ops (below c s) q s) fs u = Some t"
    by (auto simp: bind_eq_Some_conv)
  have "rewired u t" using e by (rule each_rewired [rotated]) (auto split: fire.splits intro: Cons.IH write_down_rewired)
  then show ?case using call_handler_rewired [OF c] rewired_trans by blast
qed simp

subsection \<open>Following the pointers is going through the list\<close>

primrec chained :: "(pipelineContext \<Rightarrow> nat option) \<Rightarrow> (nat \<Rightarrow> pipelineContext option) \<Rightarrow> nat list \<Rightarrow> bool" where
  "chained next_of m [] = True"
| "chained next_of m (c # cs) =
     ((\<exists>k. m c = Some k \<and> next_of k = (case cs of [] \<Rightarrow> None | d # _ \<Rightarrow> Some d)) \<and> chained next_of m cs)"

lemma chained_suffix: "chained next_of m (xs @ ys) \<Longrightarrow> chained next_of m ys"
  by (induction xs) simp_all

text \<open>The tasks of what a handler passes on, one after the other.\<close>

lemma run_fires:
  assumes "\<And>f u ts. f \<in> set fs \<Longrightarrow> rewired s u
      \<Longrightarrow> run ops (task_of k f @ ts) u = Option.bind (g f u) (run ops ts)"
    and "\<And>f u v. f \<in> set fs \<Longrightarrow> rewired s u \<Longrightarrow> g f u = Some v \<Longrightarrow> rewired u v" "rewired s u"
  shows "run ops (concat (map (task_of k) fs) @ ts) u = Option.bind (each g fs u) (run ops ts)"
  using assms
proof (induction fs arbitrary: u)
  case (Cons f fs)
  have one: "run ops (task_of k f @ us) u = Option.bind (g f u) (run ops us)" for us
    using Cons.prems(1,3) by simp
  show ?case
  proof (cases "g f u")
    case None
    then show ?thesis using one [of "concat (map (task_of k) fs) @ ts"] by simp
  next
    case (Some v)
    have "rewired s v" using Some Cons.prems(2,3) rewired_trans by (metis list.set_intros(1))
    then have "run ops (concat (map (task_of k) fs) @ ts) v = Option.bind (each g fs v) (run ops ts)"
      by (intro Cons.IH [OF Cons.prems(1) Cons.prems(2)]) simp_all
    then show ?thesis
      using one [of "concat (map (task_of k) fs) @ ts"] Some by simp
  qed
qed simp

definition out_linked :: "'h pipeline \<Rightarrow> nat \<Rightarrow> bool" where
  "out_linked s c \<longleftrightarrow> chained nextOut (contexts s) (below c s)
     \<and> (\<forall>k. contexts s c = Some k \<longrightarrow> nextOut k = (case below c s of [] \<Rightarrow> None | d # _ \<Rightarrow> Some d))"

locale downward =
  fixes ops :: "'h handler_class"
  assumes writes_go_down: "on_write ops p h = Some (x, fs) \<Longrightarrow> FireRead q \<notin> set fs"
begin

lemma run_write:
  assumes "chained nextOut (contexts s) (c # lower)"
  shows "run ops (WriteAt c p # ts) s = Option.bind (write_down ops (c # lower) p s) (run ops ts)"
  using assms
proof (induction lower arbitrary: c p ts s)
  case Nil
  then obtain k where k: "contexts s c = Some k" "nextOut k = None" by auto
  show ?case
  proof (cases "call_handler (on_write ops p) c s")
    case None
    then show ?thesis by (simp add: run_Cons)
  next
    case (Some r)
    obtain u k' fs where r: "r = (u, k', fs)" by (cases r)
    have kk: "k' = k" "rewired s u" using call_handler_rewired [of "on_write ops p" c s u k' fs] Some r k(1) by simp_all
    have down: "\<And>q. FireRead q \<notin> set fs" using Some r k(1) writes_go_down by (auto simp: call_handler_def)
    have "run ops (concat (map (task_of k) fs) @ ts) u
        = Option.bind (each (\<lambda>f s. case f of FireRead q \<Rightarrow> Some s | FireWrite q \<Rightarrow> write_down ops [] q s) fs u) (run ops ts)"
      by (rule run_fires [OF _ _ kk(2)]) (use down k(2) in \<open>auto split: fire.splits\<close>)
    then show ?thesis using Some by (simp add: run_Cons r kk)
  qed
next
  case (Cons d lower)
  then obtain k where k: "contexts s c = Some k" "nextOut k = Some d" by auto
  show ?case
  proof (cases "call_handler (on_write ops p) c s")
    case None
    then show ?thesis by (simp add: run_Cons)
  next
    case (Some r)
    obtain u k' fs where r: "r = (u, k', fs)" by (cases r)
    have kk: "k' = k" "rewired s u" using call_handler_rewired [of "on_write ops p" c s u k' fs] Some r k(1) by simp_all
    have down: "\<And>q. FireRead q \<notin> set fs" using Some r k(1) writes_go_down by (auto simp: call_handler_def)
    let ?g = "\<lambda>f s. case f of FireRead q \<Rightarrow> Some s | FireWrite q \<Rightarrow> write_down ops (d # lower) q s"
    have "run ops (concat (map (task_of k) fs) @ ts) u = Option.bind (each ?g fs u) (run ops ts)"
    proof (rule run_fires [OF _ _ kk(2)])
      fix f v us assume f: "f \<in> set fs" and v: "rewired s v"
      obtain q where q: "f = FireWrite q" using f down by (metis fire.exhaust)
      have "chained nextOut (contexts v) (d # lower)" using Cons.prems rewired_parts(1) [OF v] by simp
      from Cons.IH [OF this] show "run ops (task_of k f @ us) v = Option.bind (?g f v) (run ops us)"
        by (simp add: q k(2))
    next
      fix f v w assume "?g f v = Some w"
      then show "rewired v w"
        by (cases f) (simp_all only: fire.case option.inject rewired_refl write_down_rewired)
    qed
    then show ?thesis using Some by (simp add: run_Cons r kk)
  qed
qed

lemma run_write_fire:
  assumes "chained nextOut (contexts v) lower" "nextOut k = (case lower of [] \<Rightarrow> None | d # _ \<Rightarrow> Some d)"
  shows "run ops (task_of k (FireWrite q) @ us) v = Option.bind (write_down ops lower q v) (run ops us)"
proof (cases lower)
  case (Cons d ds)
  then show ?thesis using run_write [of v d ds q us] assms by simp
qed (use assms in simp)

lemma run_read:
  assumes "chained nextIn (contexts s) (c # upper)" "\<forall>d\<in>set (c # upper). out_linked s d"
  shows "run ops (ReadAt c p # ts) s = Option.bind (read_up ops (c # upper) p s) (run ops ts)"
  using assms
proof (induction upper arbitrary: c p ts s)
  case Nil
  then obtain k where k: "contexts s c = Some k" "nextIn k = None" by auto
  have o: "out_linked s c" using Nil by simp
  show ?case
  proof (cases "call_handler (on_read ops p) c s")
    case None
    then show ?thesis by (simp add: run_Cons)
  next
    case (Some r)
    obtain u k' fs where r: "r = (u, k', fs)" by (cases r)
    have kk: "k' = k" "rewired s u" using call_handler_rewired [of "on_read ops p" c s u k' fs] Some r k(1) by simp_all
    let ?g = "\<lambda>f s. case f of FireRead q \<Rightarrow> read_up ops [] q s | FireWrite q \<Rightarrow> write_down ops (below c s) q s"
    have "run ops (concat (map (task_of k) fs) @ ts) u = Option.bind (each ?g fs u) (run ops ts)"
    proof (rule run_fires [OF _ _ kk(2)])
      fix f v us assume v: "rewired s v"
      note w = run_write_fire [of v "below c s" k _ us]
      show "run ops (task_of k f @ us) v = Option.bind (?g f v) (run ops us)"
        by (cases f) (use w o k v in \<open>simp_all add: out_linked_def rewired_parts [OF v]\<close>)
    next
      fix f v w assume "?g f v = Some w"
      then show "rewired v w"
        by (cases f) (simp_all only: fire.case read_up.simps option.inject rewired_refl write_down_rewired)
    qed
    then show ?thesis using Some by (simp add: run_Cons r kk)
  qed
next
  case (Cons d upper)
  then obtain k where k: "contexts s c = Some k" "nextIn k = Some d" by auto
  have o: "out_linked s c" using Cons by simp
  show ?case
  proof (cases "call_handler (on_read ops p) c s")
    case None
    then show ?thesis by (simp add: run_Cons)
  next
    case (Some r)
    obtain u k' fs where r: "r = (u, k', fs)" by (cases r)
    have kk: "k' = k" "rewired s u" using call_handler_rewired [of "on_read ops p" c s u k' fs] Some r k(1) by simp_all
    let ?g = "\<lambda>f s. case f of FireRead q \<Rightarrow> read_up ops (d # upper) q s | FireWrite q \<Rightarrow> write_down ops (below c s) q s"
    have "run ops (concat (map (task_of k) fs) @ ts) u = Option.bind (each ?g fs u) (run ops ts)"
    proof (rule run_fires [OF _ _ kk(2)])
      fix f v us assume v: "rewired s v"
      note w = run_write_fire [of v "below c s" k _ us]
      have "chained nextIn (contexts v) (d # upper)" "\<forall>x\<in>set (d # upper). out_linked v x"
        using Cons.prems rewired_parts [OF v] by (simp_all add: out_linked_def)
      note h = Cons.IH [OF this]
      show "run ops (task_of k f @ us) v = Option.bind (?g f v) (run ops us)"
        by (cases f) (use w h o k v in \<open>simp_all only: out_linked_def rewired_parts [OF v] fire.case task_of.simps option.case append.simps\<close>)
    next
      fix f v w assume "?g f v = Some w"
      then show "rewired v w"
        by (cases f) (simp_all only: fire.case read_up_rewired write_down_rewired)
    qed
    then show ?thesis using Some by (simp add: run_Cons r kk)
  qed
qed

end

subsection \<open>Linking\<close>

lemma link_other: "c \<notin> set cs \<Longrightarrow> link set_next cs m c = m c"
  by (induction cs arbitrary: m) simp_all

lemma link_live: "link set_next cs m c = None \<longleftrightarrow> m c = None"
  by (induction cs arbitrary: m) simp_all

lemma link_keeps:
  assumes "\<And>n k. g (set_next n k) = g k"
  shows "map_option g (link set_next cs m c) = map_option g (m c)"
proof (induction cs arbitrary: m)
  case (Cons d cs)
  show ?case using assms by (cases "m d") (simp_all add: Cons.IH)
qed simp

lemma link_chained:
  assumes "distinct cs" "\<forall>c\<in>set cs. m c \<noteq> None" "\<And>n k. next_of (set_next n k) = n"
  shows "chained next_of (link set_next cs m) cs"
  using assms(1,2)
proof (induction cs arbitrary: m)
  case (Cons c cs)
  have "chained next_of (link set_next cs (m(c := map_option (set_next (case cs of [] \<Rightarrow> None | d # _ \<Rightarrow> Some d)) (m c)))) cs"
    by (rule Cons.IH) (use Cons.prems in auto)
  then show ?case using Cons.prems assms(3) by (auto simp: link_other)
qed simp

lemma chained_keeps:
  assumes "\<And>c. map_option next_of (n c) = map_option next_of (m c)"
  shows "chained next_of n cs = chained next_of m cs"
proof (induction cs)
  case (Cons c cs)
  have "(\<exists>k. n c = Some k \<and> next_of k = v) \<longleftrightarrow> (\<exists>k. m c = Some k \<and> next_of k = v)" for v
    using assms [of c] by (cases "n c"; cases "m c") simp_all
  then show ?case using Cons by simp
qed simp

text \<open>The lists of a pipeline: contexts that are alive, each in the lists of its direction, in one order.\<close>

definition dir_at :: "(handlerDir \<Rightarrow> bool) \<Rightarrow> 'h pipeline \<Rightarrow> nat \<Rightarrow> bool" where
  "dir_at g s c \<longleftrightarrow> (\<exists>k. contexts s c = Some k \<and> g (ctx_dir k))"

definition pipe_inv :: "'h pipeline \<Rightarrow> bool" where
  "pipe_inv s \<longleftrightarrow> distinct (ctxs s) \<and> (\<forall>c\<in>set (ctxs s). contexts s c \<noteq> None)
     \<and> inCtxs s = filter (dir_at goes_in s) (ctxs s) \<and> outCtxs s = filter (dir_at goes_out s) (ctxs s)
     \<and> (\<forall>c k. contexts s c = Some k \<longrightarrow> \<not> goes_out (ctx_dir k) \<longrightarrow> nextOut k = None)"

definition pipe_linked :: "'h pipeline \<Rightarrow> bool" where
  "pipe_linked s \<longleftrightarrow> pipe_inv s \<and> chained nextIn (contexts s) (inCtxs s) \<and> chained nextOut (contexts s) (rev (outCtxs s))
     \<and> front_link s = (case inCtxs s of [] \<Rightarrow> None | c # _ \<Rightarrow> Some c)
     \<and> back_link s = (case rev (outCtxs s) of [] \<Rightarrow> None | c # _ \<Rightarrow> Some c)"

lemma rewired_inv:
  assumes "rewired s t"
  shows "pipe_inv t = pipe_inv s"
proof -
  have "dir_at g t = dir_at g s" for g by (rule ext) (simp add: dir_at_def rewired_parts [OF assms])
  then show ?thesis by (simp add: pipe_inv_def rewired_parts [OF assms])
qed

lemma rewired_linked: "rewired s t \<Longrightarrow> pipe_linked t = pipe_linked s"
  by (simp add: rewired_parts rewired_inv pipe_linked_def)

lemma new_pipeline_inv: "pipe_inv (new_pipeline hs)"
  by (simp add: new_pipeline_def pipe_inv_def)

lemma addHelper_inv:
  assumes "pipe_inv s" "contexts s c = None" "nextOut k = None"
  shows "pipe_inv (addHelper front c k s)"
proof -
  have c: "c \<notin> set (ctxs s)" using assms by (auto simp: pipe_inv_def)
  have f: "filter (dir_at g (addHelper front c k s)) (ctxs s) = filter (dir_at g s) (ctxs s)" for g
    using c by (intro filter_cong) (auto simp: dir_at_def addHelper_def)
  have d: "dir_at g (addHelper front c k s) c = g (ctx_dir k)" for g by (simp add: dir_at_def addHelper_def)
  show ?thesis
    using assms c f d unfolding pipe_inv_def by (cases front) (auto simp: addHelper_def place_at_def)
qed

lemma filter_remove1: "distinct xs \<Longrightarrow> filter P (remove1 x xs) = remove1 x (filter P xs)"
  by (induction xs) (auto simp: remove1_idem)

lemma removeAt_inv:
  assumes "pipe_inv s" "removeAt c s = Some t"
  shows "pipe_inv t"
proof -
  obtain k where k: "contexts s c = Some k" using assms(2) by (cases "contexts s c") (simp_all add: removeAt_def)
  have t: "ctxs t = remove1 c (ctxs s)" "contexts t = (contexts s)(c := contexts t c)"
    "inCtxs t = (if goes_in (ctx_dir k) then remove1 c (inCtxs s) else inCtxs s)"
    "outCtxs t = (if goes_out (ctx_dir k) then remove1 c (outCtxs s) else outCtxs s)"
    "contexts t c = None \<or> contexts t c = Some (k\<lparr>attached := False\<rparr>)"
    using assms(2) k by (auto simp: removeAt_def split: if_splits)
  have d: "distinct (ctxs s)" using assms(1) by (simp add: pipe_inv_def)
  have nd: "c \<notin> set (ctxs t)" using d t(1) by simp
  have same: "filter (dir_at g t) (ctxs t) = filter (dir_at g s) (ctxs t)" for g
  proof (rule filter_cong [OF refl])
    fix x assume "x \<in> set (ctxs t)"
    then have "contexts t x = contexts s x" using nd t(2) by (metis fun_upd_other)
    then show "dir_at g t x = dir_at g s x" by (simp add: dir_at_def)
  qed
  have lists: "filter (dir_at g t) (ctxs t)
      = (if g (ctx_dir k) then remove1 c (filter (dir_at g s) (ctxs s)) else filter (dir_at g s) (ctxs s))" for g
  proof -
    have "filter (dir_at g t) (ctxs t) = remove1 c (filter (dir_at g s) (ctxs s))"
      using same t(1) d by (simp add: filter_remove1)
    moreover have "\<not> g (ctx_dir k) \<Longrightarrow> c \<notin> set (filter (dir_at g s) (ctxs s))"
      using k by (simp add: dir_at_def)
    ultimately show ?thesis by (simp add: remove1_idem)
  qed
  have live: "\<forall>d\<in>set (ctxs t). contexts t d \<noteq> None"
  proof
    fix d' assume x: "d' \<in> set (ctxs t)"
    then have "d' \<noteq> c" "d' \<in> set (ctxs s)" using d t(1) by auto
    then show "contexts t d' \<noteq> None" using assms(1) t(2) by (metis fun_upd_other pipe_inv_def)
  qed
  have nx: "\<forall>d' k'. contexts t d' = Some k' \<longrightarrow> \<not> goes_out (ctx_dir k') \<longrightarrow> nextOut k' = None"
  proof (intro allI impI)
    fix d' k' assume a: "contexts t d' = Some k'" "\<not> goes_out (ctx_dir k')"
    have n: "\<And>c k. contexts s c = Some k \<Longrightarrow> \<not> goes_out (ctx_dir k) \<Longrightarrow> nextOut k = None"
      using assms(1) by (simp add: pipe_inv_def)
    show "nextOut k' = None"
    proof (cases "d' = c")
      case True
      then show ?thesis using a t(5) n [OF k] by auto
    next
      case False
      then have "contexts s d' = Some k'" using a(1) t(2) by (metis fun_upd_other)
      then show ?thesis using a(2) n by blast
    qed
  qed
  show ?thesis
    unfolding pipe_inv_def
    using assms(1) d t(1,3,4) lists live nx by (simp add: pipe_inv_def)
qed

lemma remove_loop_inv: "pipe_inv s \<Longrightarrow> remove_loop sel cs s = Some (b, t) \<Longrightarrow> pipe_inv t"
proof (induction sel cs s arbitrary: b t rule: remove_loop.induct)
  case (2 sel c cs s)
  then obtain k where k: "contexts s c = Some k" by (cases "contexts s c") simp_all
  show ?case
  proof (cases "sel k")
    case True
    then obtain u where u: "removeAt c s = Some u" using 2(4) k by (cases "removeAt c s") simp_all
    obtain b' where r: "remove_loop sel (tl cs) u = Some (b', t)" using 2(4) True k u by auto
    show ?thesis by (rule 2(1) [OF k True u removeAt_inv [OF 2(3) u] r])
  next
    case False
    then show ?thesis using 2(2) [OF k False 2(3)] 2(4) k by simp
  qed
qed simp

lemma link_all_linked:
  assumes "pipe_inv s"
  shows "pipe_linked (link_all s)"
proof -
  let ?m = "link setNextIn (inCtxs s) (contexts s)"
  have d: "distinct (inCtxs s)" "distinct (rev (outCtxs s))" using assms by (simp_all add: pipe_inv_def)
  have live: "\<forall>c\<in>set (inCtxs s). contexts s c \<noteq> None" "\<forall>c\<in>set (rev (outCtxs s)). ?m c \<noteq> None"
    using assms by (auto simp: pipe_inv_def link_live)
  have dirs: "map_option ctx_dir (contexts (link_all s) c) = map_option ctx_dir (contexts s c)" for c
  proof -
    have "map_option ctx_dir (link setNextOut (rev (outCtxs s)) ?m c) = map_option ctx_dir (?m c)"
      by (rule link_keeps) (simp add: setNextOut_def)
    moreover have "map_option ctx_dir (?m c) = map_option ctx_dir (contexts s c)"
      by (rule link_keeps) (simp add: setNextIn_def)
    ultimately show ?thesis by (simp add: link_all_def)
  qed
  have da: "dir_at g (link_all s) = dir_at g s" for g
  proof
    fix c show "dir_at g (link_all s) c = dir_at g s c"
      using dirs [of c] unfolding dir_at_def by (cases "contexts s c"; cases "contexts (link_all s) c") simp_all
  qed
  have nx: "nextOut k = None" if kc: "contexts (link_all s) c = Some k" "\<not> goes_out (ctx_dir k)" for c k
  proof -
    obtain k0 where k0: "contexts s c = Some k0" "ctx_dir k0 = ctx_dir k" using dirs [of c] kc by (cases "contexts s c") auto
    have "c \<notin> set (rev (outCtxs s))" using assms k0 kc(2) by (auto simp: pipe_inv_def dir_at_def)
    then have "contexts (link_all s) c = ?m c" by (simp add: link_all_def link_other)
    moreover have "map_option nextOut (?m c) = map_option nextOut (contexts s c)" by (rule link_keeps) (simp add: setNextIn_def)
    ultimately have "nextOut k = nextOut k0" using kc(1) k0(1) by (metis map_option_eq_Some option.inject)
    then show ?thesis using assms k0 kc(2) by (auto simp: pipe_inv_def)
  qed
  have lv: "\<forall>c\<in>set (ctxs s). contexts (link_all s) c \<noteq> None"
    using assms by (simp add: pipe_inv_def link_all_def link_live)
  have "pipe_inv (link_all s)"
    using assms lv nx unfolding pipe_inv_def da by (simp add: link_all_def)
  moreover have "chained nextIn (contexts (link_all s)) (inCtxs (link_all s))"
  proof -
    have "chained nextIn (contexts (link_all s)) (inCtxs s) = chained nextIn ?m (inCtxs s)"
      unfolding link_all_def by (rule chained_keeps) (simp add: link_keeps [of nextIn setNextOut] setNextOut_def)
    then show ?thesis using link_chained [OF d(1) live(1), of nextIn setNextIn]
      by (simp add: setNextIn_def link_all_def)
  qed
  moreover have "chained nextOut (contexts (link_all s)) (rev (outCtxs (link_all s)))"
    using link_chained [OF d(2) live(2), of nextOut setNextOut] by (simp add: setNextOut_def link_all_def)
  ultimately show ?thesis by (simp add: pipe_linked_def link_all_def)
qed

subsection \<open>finalize and traffic keep the links\<close>

lemma attachPipeline_keeps:
  "map_option nextIn (contexts (attachPipeline c s) d) = map_option nextIn (contexts s d)"
  "map_option nextOut (contexts (attachPipeline c s) d) = map_option nextOut (contexts s d)"
  "map_option ctx_dir (contexts (attachPipeline c s) d) = map_option ctx_dir (contexts s d)"
  "ctxs (attachPipeline c s) = ctxs s" "inCtxs (attachPipeline c s) = inCtxs s" "outCtxs (attachPipeline c s) = outCtxs s"
  "front_link (attachPipeline c s) = front_link s" "back_link (attachPipeline c s) = back_link s"
  by (simp_all add: attachPipeline_def Let_def split: option.split)

lemma pipe_inv_keeps:
  assumes "\<And>d. map_option nextOut (contexts t d) = map_option nextOut (contexts s d)"
    "\<And>d. map_option ctx_dir (contexts t d) = map_option ctx_dir (contexts s d)"
    "ctxs t = ctxs s" "inCtxs t = inCtxs s" "outCtxs t = outCtxs s" "pipe_inv s"
  shows "pipe_inv t"
proof -
  have da: "dir_at g t = dir_at g s" for g
  proof
    fix c show "dir_at g t c = dir_at g s c"
      using assms(2) [of c] unfolding dir_at_def by (cases "contexts s c"; cases "contexts t c") simp_all
  qed
  have live: "contexts t c \<noteq> None \<longleftrightarrow> contexts s c \<noteq> None" for c
    using assms(1) [of c] by (cases "contexts s c"; cases "contexts t c") simp_all
  have nx: "nextOut k = None" if k: "contexts t c = Some k" "\<not> goes_out (ctx_dir k)" for c k
  proof -
    obtain k0 where k0: "contexts s c = Some k0" using live [of c] k(1) by auto
    then have "nextOut k0 = nextOut k" "ctx_dir k0 = ctx_dir k" using assms(1,2) [of c] k(1) by simp_all
    then show ?thesis using assms(6) k0 k(2) by (auto simp: pipe_inv_def)
  qed
  show ?thesis using assms(3-6) nx live unfolding pipe_inv_def da by auto
qed

lemma attachPipeline_linked: "pipe_linked s \<Longrightarrow> pipe_linked (attachPipeline c s)"
  unfolding pipe_linked_def
  using pipe_inv_keeps [of "attachPipeline c s" s]
    chained_keeps [of nextIn "contexts (attachPipeline c s)" "contexts s"]
    chained_keeps [of nextOut "contexts (attachPipeline c s)" "contexts s"]
  by (simp add: attachPipeline_keeps)

lemma attach_all_linked: "pipe_linked s \<Longrightarrow> pipe_linked (fold attachPipeline cs s)"
  by (induction cs arbitrary: s) (simp_all add: attachPipeline_linked)

lemma notify_at_rewired: "notify_at ops c s = Some t \<Longrightarrow> rewired s t"
proof -
  assume n: "notify_at ops c s = Some t"
  then obtain u k fs where u: "call_handler (on_notify ops) c s = Some (u, k, fs)"
    by (auto simp: notify_at_def bind_eq_Some_conv)
  have "rewired u t"
    using n u run_rewired by (auto simp: notify_at_def bind_eq_Some_conv split: if_splits)
  then show ?thesis using call_handler_rewired [OF u] rewired_trans by blast
qed

lemma pipe_notifyUpdate_rewired: "pipe_notifyUpdate ops s = Some t \<Longrightarrow> rewired s t"
  unfolding pipe_notifyUpdate_def by (rule each_rewired [rotated]) (auto intro: notify_at_rewired)

lemma set_handler_rewired: "rewired s (set_handler h x s)"
  by (auto simp: rewired_def set_handler_def)

lemma enable_at_rewired: "enable_at ops on name c s = Some t \<Longrightarrow> rewired s t"
  by (auto simp: enable_at_def Let_def set_handler_rewired split: if_splits)

lemma pipe_enable_rewired: "pipe_enable ops on name s = Some t \<Longrightarrow> rewired s t"
  unfolding pipe_enable_def by (rule each_rewired [rotated]) (auto intro: enable_at_rewired)

lemma pipe_read_rewired: "pipe_read ops p s = Some t \<Longrightarrow> rewired s t"
  by (auto simp: pipe_read_def intro: run_rewired split: option.splits)

lemma pipe_write_rewired: "pipe_write ops p s = Some t \<Longrightarrow> rewired s t"
  by (auto simp: pipe_write_def intro: run_rewired split: option.splits)

lemma finalize_linked:
  assumes "pipe_inv s" "finalize ops s = Some t"
  shows "pipe_linked t"
proof -
  have "pipe_linked (fold attachPipeline (rev (ctxs (link_all s))) (link_all s))"
    by (rule attach_all_linked [OF link_all_linked [OF assms(1)]])
  then show ?thesis using assms(2) pipe_notifyUpdate_rewired rewired_linked unfolding finalize_def Let_def by blast
qed

subsection \<open>What can happen to a pipeline\<close>

datatype pipe_traffic = PacketRead dataPacket | PacketWrite dataPacket | NotifyUpdate | SetEnabled bool string

primrec traffic_step :: "'h handler_class \<Rightarrow> pipe_traffic \<Rightarrow> 'h pipeline \<Rightarrow> 'h pipeline option" where
  "traffic_step ops (PacketRead p) s = pipe_read ops p s"
| "traffic_step ops (PacketWrite p) s = pipe_write ops p s"
| "traffic_step ops NotifyUpdate s = pipe_notifyUpdate ops s"
| "traffic_step ops (SetEnabled on name) s = pipe_enable ops on name s"

lemma traffic_rewired: "traffic_step ops e s = Some t \<Longrightarrow> rewired s t"
  by (cases e) (simp_all add: pipe_read_rewired pipe_write_rewired pipe_notifyUpdate_rewired pipe_enable_rewired)

text \<open>A new context is at an address that no context has.\<close>

inductive pipe_reachable :: "'h handler_class \<Rightarrow> 'h pipeline \<Rightarrow> bool" for ops where
  start: "pipe_reachable ops (new_pipeline hs)"
| add: "pipe_reachable ops s \<Longrightarrow> contexts s c = None \<Longrightarrow> pipe_reachable ops (addHelper front c (new_context h cls d) s)"
| remove: "pipe_reachable ops s \<Longrightarrow> removeHelper cls h s = Some (b, t) \<Longrightarrow> pipe_reachable ops t"
| removeFront: "pipe_reachable ops s \<Longrightarrow> removeFront s = Some (b, t) \<Longrightarrow> pipe_reachable ops t"
| removeBack: "pipe_reachable ops s \<Longrightarrow> removeBack s = Some (b, t) \<Longrightarrow> pipe_reachable ops t"
| owner: "pipe_reachable ops s \<Longrightarrow> pipe_reachable ops (snd (setOwner cls h s))"
| finalize: "pipe_reachable ops s \<Longrightarrow> finalize ops s = Some t \<Longrightarrow> pipe_reachable ops t"
| traffic: "pipe_reachable ops s \<Longrightarrow> traffic_step ops e s = Some t \<Longrightarrow> pipe_reachable ops t"

lemma setOwner_inv: "pipe_inv s \<Longrightarrow> pipe_inv (snd (setOwner cls h s))"
proof -
  have "dir_at g (s\<lparr>pipe_owner := x\<rparr>) = dir_at g s" for g x by (rule ext) (simp add: dir_at_def)
  then show "pipe_inv s \<Longrightarrow> ?thesis" by (simp add: setOwner_def pipe_inv_def split: option.split)
qed

lemma pipe_reachable_inv: "pipe_reachable ops s \<Longrightarrow> pipe_inv s"
proof (induction rule: pipe_reachable.induct)
  case (add s c front h cls d)
  then show ?case by (intro addHelper_inv) (simp_all add: new_context_def)
next
  case (remove s cls h b t)
  then show ?case by (auto simp: removeHelper_def intro: remove_loop_inv)
next
  case (removeFront s b t)
  then show ?case by (auto simp: removeFront_def intro: removeAt_inv split: if_splits)
next
  case (removeBack s b t)
  then show ?case by (auto simp: removeBack_def intro: removeAt_inv split: if_splits)
next
  case (finalize s t)
  then show ?case using finalize_linked unfolding pipe_linked_def by blast
next
  case (traffic s e t)
  then show ?case using traffic_rewired rewired_inv by blast
qed (simp_all add: new_pipeline_inv setOwner_inv)

fun traffic_run :: "'h handler_class \<Rightarrow> pipe_traffic list \<Rightarrow> 'h pipeline \<Rightarrow> 'h pipeline option" where
  "traffic_run ops es s = each (traffic_step ops) es s"

lemma traffic_run_linked: "pipe_linked s \<Longrightarrow> traffic_run ops es s = Some t \<Longrightarrow> pipe_linked t"
  using each_rewired [of es "traffic_step ops" s t] traffic_rewired rewired_linked by (metis traffic_run.simps)

text \<open>Below a context are the handlers that writes reach from it.\<close>

lemma below_linked:
  assumes "pipe_linked s" "c \<in> set (ctxs s)"
  shows "out_linked s c"
proof (cases "c \<in> set (outCtxs s)")
  case True
  then obtain xs ys where o: "outCtxs s = xs @ c # ys" "c \<notin> set xs" by (meson split_list_first)
  have "takeWhile (\<lambda>d. d \<noteq> c) (xs @ c # ys) = xs" by (subst takeWhile_append2) (use o(2) in auto)
  then have b: "below c s = rev xs" using o(1) by (simp add: below_def)
  have "chained nextOut (contexts s) (rev ys @ c # rev xs)" using assms(1) o(1) by (simp add: pipe_linked_def)
  then have "chained nextOut (contexts s) (c # rev xs)" by (rule chained_suffix)
  then show ?thesis by (auto simp: out_linked_def b)
next
  case False
  obtain k where k: "contexts s c = Some k" using assms by (auto simp: pipe_linked_def pipe_inv_def)
  then have "\<not> goes_out (ctx_dir k)" using assms False by (auto simp: pipe_linked_def pipe_inv_def dir_at_def)
  then show ?thesis using assms(1) k False by (auto simp: out_linked_def below_def pipe_linked_def pipe_inv_def)
qed

lemma bind_run_Nil: "Option.bind x (run ops []) = x"
  by (cases x) simp_all

context downward begin

lemma linked_read:
  assumes "pipe_linked s"
  shows "pipe_read ops p s = read_up ops (inCtxs s) p s"
proof (cases "inCtxs s")
  case Nil
  then show ?thesis using assms by (simp add: pipe_read_def pipe_linked_def)
next
  case (Cons c cs)
  have "\<forall>d\<in>set (c # cs). d \<in> set (ctxs s)" using assms Cons unfolding pipe_linked_def pipe_inv_def by (metis filter_is_subset subsetD)
  then have o: "\<forall>d\<in>set (c # cs). out_linked s d" using below_linked [OF assms] by blast
  have "chained nextIn (contexts s) (c # cs)" "front_link s = Some c" using assms Cons by (simp_all add: pipe_linked_def)
  then show ?thesis
    using run_read [OF _ o, of p "[]", unfolded bind_run_Nil] unfolding Cons pipe_read_def by (simp only: option.case)
qed

lemma linked_write:
  assumes "pipe_linked s"
  shows "pipe_write ops p s = write_down ops (rev (outCtxs s)) p s"
proof (cases "rev (outCtxs s)")
  case Nil
  then show ?thesis using assms by (simp add: pipe_write_def pipe_linked_def)
next
  case (Cons c cs)
  have "chained nextOut (contexts s) (c # cs)" "back_link s = Some c" using assms Cons by (simp_all add: pipe_linked_def)
  then show ?thesis
    using run_write [of s c cs p "[]", unfolded bind_run_Nil] unfolding Cons pipe_write_def by (simp only: option.case)
qed

end

text \<open>
  Packets go through the handlers in their order. However contexts were added and removed, once the
  pipeline is finalized and whatever traffic, updates and switching followed, following the pointers
  from the front is: the first handler of the inbound direction, with what it passes on to the
  inbound handlers after it and, for what it answers, down through the outbound handlers before it.
  Writing is the same from the back. Every run ends, unless a handler itself fails. The lists are the
  contexts of each direction in the order of the pipeline. Handlers pass nothing up when they write.
\<close>
theorem packets_go_through_the_handlers:
  assumes "pipe_reachable ops s" "finalize ops s = Some t" "traffic_run ops es t = Some u"
    "\<And>p h x fs q. on_write ops p h = Some (x, fs) \<Longrightarrow> FireRead q \<notin> set fs"
  shows "pipe_read ops p u = read_up ops (filter (dir_at goes_in u) (ctxs u)) p u \<and>
    pipe_write ops p u = write_down ops (rev (filter (dir_at goes_out u) (ctxs u))) p u"
proof -
  have d: "downward ops" by (rule downward.intro) (rule assms(4))
  have l: "pipe_linked u"
    by (rule traffic_run_linked [OF finalize_linked [OF pipe_reachable_inv [OF assms(1)] assms(2)] assms(3)])
  have i: "filter (dir_at goes_in u) (ctxs u) = inCtxs u" "filter (dir_at goes_out u) (ctxs u) = outCtxs u"
    using l by (simp_all add: pipe_linked_def pipe_inv_def)
  show ?thesis unfolding i by (intro conjI downward.linked_read [OF d l] downward.linked_write [OF d l])
qed

subsection \<open>The handlers of this development in a pipeline\<close>

datatype media_handler =
  Sender_reports srHandler | Track_mute trackMute | Padding_removal paddingRemoval | Feedback_generation feedbackHandler

record media_env =
  env_random :: "u16 \<Rightarrow> u16 \<Rightarrow> u16"
  env_now :: u64
  env_sink :: mediaSink
  env_source :: u32
  env_audio_muted :: bool
  env_video_muted :: bool
  env_video_ssrcs :: "u32 list"
  env_audio_ssrc :: u32

fun media_read :: "media_env \<Rightarrow> dataPacket \<Rightarrow> media_handler \<Rightarrow> (media_handler \<times> fire list) option" where
  "media_read e p (Sender_reports h) = Some (apfst Sender_reports (sr_read p h))"
| "media_read e p (Track_mute h) = Some (apfst Track_mute (mute_read (env_sink e) p h))"
| "media_read e p (Padding_removal h) = Some (apfst Padding_removal (pr_read p h))"
| "media_read e p (Feedback_generation h) =
     map_option (apfst Feedback_generation) (fh_read (env_random e) (env_now e) p h)"

fun media_write :: "dataPacket \<Rightarrow> media_handler \<Rightarrow> (media_handler \<times> fire list) option" where
  "media_write p (Sender_reports h) = Some (apfst Sender_reports (sr_write p h))"
| "media_write p (Track_mute h) = Some (apfst Track_mute (mute_write p h))"
| "media_write p (Padding_removal h) = Some (apfst Padding_removal (pr_write p h))"
| "media_write p (Feedback_generation h) = Some (apfst Feedback_generation (fh_write p h))"

fun media_notify :: "media_env \<Rightarrow> media_handler \<Rightarrow> (media_handler \<times> fire list) option" where
  "media_notify e (Sender_reports h) = Some (Sender_reports (sr_notifyUpdate True h), [])"
| "media_notify e (Track_mute h) = Some (apfst Track_mute
     (mute_notifyUpdate (env_now e) (env_sink e) (env_source e) (env_audio_muted e) (env_video_muted e) h))"
| "media_notify e (Padding_removal h) = Some (Padding_removal (pr_notifyUpdate h), [])"
| "media_notify e (Feedback_generation h) =
     Some (Feedback_generation (fh_notifyUpdate (env_video_ssrcs e) (env_audio_ssrc e) h), [])"

fun media_enable :: "bool \<Rightarrow> media_handler \<Rightarrow> media_handler" where
  "media_enable on (Sender_reports h) = Sender_reports (if on then sr_enable h else sr_disable h)"
| "media_enable on (Track_mute h) = Track_mute h"
| "media_enable on (Padding_removal h) = Padding_removal (if on then pr_enable h else pr_disable h)"
| "media_enable on (Feedback_generation h) = Feedback_generation (if on then fh_enable h else fh_disable h)"

fun media_name :: "media_handler \<Rightarrow> string" where
  "media_name (Sender_reports h) = ''sr_handler''"
| "media_name (Track_mute h) = ''track-mute''"
| "media_name (Padding_removal h) = ''padding_removal''"
| "media_name (Feedback_generation h) = ''rtcp_feedback_generation''"

definition media_ops :: "media_env \<Rightarrow> media_handler handler_class" where
  "media_ops e = \<lparr>on_read = media_read e, on_write = media_write, on_notify = media_notify e, on_enable = media_enable,
     handler_name = media_name\<rparr>"

lemma media_write_down: "on_write (media_ops e) p h = Some (x, fs) \<Longrightarrow> FireRead q \<notin> set fs"
  by (cases h) (auto simp: media_ops_def sr_write_def mute_write_def mute_handlePacket_def pr_write_def fh_write_def Let_def
      split: if_splits prod.splits option.splits)

interpretation media: downward "media_ops e" for e
  by unfold_locales (rule media_write_down)

definition sample_env :: media_env where
  "sample_env = \<lparr>env_random = (\<lambda>a b. a), env_now = 0, env_sink = new_mediaSink, env_source = 0, env_audio_muted = False,
     env_video_muted = False, env_video_ssrcs = [], env_audio_ssrc = 0\<rparr>"

definition sample_handlers :: "nat \<Rightarrow> media_handler" where
  "sample_handlers h = (if h = 1 then Track_mute new_RtpTrackMuteHandler else Padding_removal new_RtpPaddingRemovalHandler)"

definition sample_built :: "media_handler pipeline" where
  "sample_built = addBack 12 2 ''padding_removal'' Dir_both (addBack 11 1 ''track-mute'' Dir_both (new_pipeline sample_handlers))"

lemma sample_built_reachable: "pipe_reachable ops sample_built"
proof -
  have "pipe_reachable ops (addHelper False 11 (new_context 1 ''track-mute'' Dir_both) (new_pipeline sample_handlers))"
    by (rule pipe_reachable.add [OF pipe_reachable.start]) (simp add: new_pipeline_def)
  then show ?thesis unfolding sample_built_def addBack_def
    by (rule pipe_reachable.add) (simp add: addHelper_def new_pipeline_def)
qed

lemma sample_finalized:
  "map_option (\<lambda>t. (ctxs t, filter (dir_at goes_in t) (ctxs t), map_option nextIn (contexts t 11)))
     (finalize (media_ops sample_env) sample_built) = Some ([11, 12], [11, 12], Some (Some 12))"
  by (simp add: sample_built_def sample_handlers_def sample_env_def finalize_def link_all_def addBack_def addHelper_def new_pipeline_def
      new_context_def place_at_def goes_in_def goes_out_def attachPipeline_def pipe_notifyUpdate_def notify_at_def
      call_handler_def media_ops_def set_handler_def setNextIn_def setNextOut_def dir_at_def
      mute_notifyUpdate_def muteAudio_def muteVideo_def muteTrack_def new_RtpTrackMuteHandler_def new_TrackMuteInfo_def Let_def)

lemma packets_go_through_the_handlers_witness:
  "case finalize (media_ops sample_env) sample_built of
     Some t \<Rightarrow> pipe_read (media_ops sample_env) (new_dataPacket 0 zero_mem 20 VIDEO_PACKET 0) t
       = read_up (media_ops sample_env) [11, 12] (new_dataPacket 0 zero_mem 20 VIDEO_PACKET 0) t
   | None \<Rightarrow> False"
proof -
  obtain t where t: "finalize (media_ops sample_env) sample_built = Some t"
    and l: "filter (dir_at goes_in t) (ctxs t) = [11, 12]"
    using sample_finalized by (cases "finalize (media_ops sample_env) sample_built") auto
  have "traffic_run (media_ops sample_env) [] t = Some t" by simp
  from packets_go_through_the_handlers [where p = "new_dataPacket 0 zero_mem 20 VIDEO_PACKET 0",
      OF sample_built_reachable t this media_write_down]
  show ?thesis by (simp add: t l)
qed

subsection \<open>What the model shows besides\<close>

text \<open>Of two neighbours of one class, removing the class takes the first only.\<close>

lemma remove_skips_the_neighbour:
  "map_option (\<lambda>(b, t). (b, ctxs t)) (removeHelper cls None
     (addBack 2 h cls d (addBack 1 h cls d (new_pipeline hs)))) = Some (True, [2])"
  by (cases d) (simp_all add: removeHelper_def addBack_def addHelper_def new_pipeline_def new_context_def place_at_def
      goes_in_def goes_out_def removeAt_def)

text \<open>
  Between a removal and the next \<open>finalize\<close> the neighbour still points to the context that was freed:
  a packet it passes on follows the pointer.
\<close>

lemma removed_context_is_followed:
  assumes "contexts s c = Some k" "nextIn k = Some d" "contexts s d = None" "front_link s = Some c"
    "on_read ops p (handlers s (ctx_handler k)) = Some (x, FireRead q # fs)"
  shows "pipe_read ops p s = None"
  using assms by (simp add: pipe_read_def run_Cons call_handler_def set_handler_def)

text \<open>A handler that comes back in a second context has no context: \<open>detachPipeline\<close> does not count down.\<close>

lemma second_context_is_none:
  assumes "contexts s c = Some k" "\<not> attached k" "attachCount s (ctx_handler k) = 1"
  shows "handler_getContext (ctx_handler k) (attachPipeline c s) = None"
  using assms by (simp add: handler_getContext_def attachPipeline_def Let_def)

end
