(* ===== verification/Ikcp.thy ===== *)
theory Ikcp
  imports Wire
begin

text \<open>
  \<^verbatim>\<open>KKkcp/ikcp.c\<close>: the KCP protocol, which makes a reliable stream of messages out of UDP
  datagrams. The four queues of the control block, doubly linked lists in the code, are lists; their
  counters are kept as the code keeps them. A pointer that moves over a buffer is the rest of a byte
  list, and what the code gives to the \<^verbatim>\<open>output\<close> callback is a list of datagrams that the
  operations return. Unsigned integers are 32-bit words (little-endian, as on the machines the
  server runs on), the signed ones of the round trip times integers brought back to 32 bits where
  they are stored. Memory for segments is taken to be there: the code asserts it.
\<close>

subsection \<open>Constants\<close>

definition IKCP_RTO_NDL :: u32 where "IKCP_RTO_NDL = 30"
definition IKCP_RTO_MIN :: u32 where "IKCP_RTO_MIN = 100"
definition IKCP_RTO_DEF :: u32 where "IKCP_RTO_DEF = 200"
definition IKCP_RTO_MAX :: u32 where "IKCP_RTO_MAX = 60000"
definition IKCP_CMD_PUSH :: u32 where "IKCP_CMD_PUSH = 81"
definition IKCP_CMD_ACK :: u32 where "IKCP_CMD_ACK = 82"
definition IKCP_CMD_WASK :: u32 where "IKCP_CMD_WASK = 83"
definition IKCP_CMD_WINS :: u32 where "IKCP_CMD_WINS = 84"
definition IKCP_ASK_SEND :: u32 where "IKCP_ASK_SEND = 1"
definition IKCP_ASK_TELL :: u32 where "IKCP_ASK_TELL = 2"
definition IKCP_WND_SND :: u32 where "IKCP_WND_SND = 32"
definition IKCP_WND_RCV :: u32 where "IKCP_WND_RCV = 32"
definition IKCP_MTU_DEF :: u32 where "IKCP_MTU_DEF = 1400"
definition IKCP_INTERVAL :: u32 where "IKCP_INTERVAL = 100"
definition IKCP_OVERHEAD :: u32 where "IKCP_OVERHEAD = 24"
definition IKCP_DEADLINK :: u32 where "IKCP_DEADLINK = 20"
definition IKCP_THRESH_INIT :: u32 where "IKCP_THRESH_INIT = 2"
definition IKCP_THRESH_MIN :: u32 where "IKCP_THRESH_MIN = 2"
definition IKCP_PROBE_INIT :: u32 where "IKCP_PROBE_INIT = 7000"
definition IKCP_PROBE_LIMIT :: u32 where "IKCP_PROBE_LIMIT = 120000"

lemmas ikcp_consts = IKCP_RTO_NDL_def IKCP_RTO_MIN_def IKCP_RTO_DEF_def IKCP_RTO_MAX_def
  IKCP_CMD_PUSH_def IKCP_CMD_ACK_def IKCP_CMD_WASK_def IKCP_CMD_WINS_def IKCP_ASK_SEND_def
  IKCP_ASK_TELL_def IKCP_WND_SND_def IKCP_WND_RCV_def IKCP_MTU_DEF_def IKCP_INTERVAL_def
  IKCP_OVERHEAD_def IKCP_DEADLINK_def IKCP_THRESH_INIT_def IKCP_THRESH_MIN_def
  IKCP_PROBE_INIT_def IKCP_PROBE_LIMIT_def

subsection \<open>Encoding and arithmetic\<close>

definition encode8u :: "u8 \<Rightarrow> u8 list" where
  "encode8u c = [c]"

definition decode8u :: "u8 list \<Rightarrow> u8 \<times> u8 list" where
  "decode8u p = (p ! 0, drop 1 p)"

definition encode16u :: "u16 \<Rightarrow> u8 list" where
  "encode16u w = [byteN w 0, byteN w 1]"

definition decode16u :: "u8 list \<Rightarrow> u16 \<times> u8 list" where
  "decode16u p = (join16 (p ! 0) (p ! 1), drop 2 p)"

definition encode32u :: "u32 \<Rightarrow> u8 list" where
  "encode32u l = [byteN l 0, byteN l 1, byteN l 2, byteN l 3]"

definition decode32u :: "u8 list \<Rightarrow> u32 \<times> u8 list" where
  "decode32u p = (join32 (p ! 0) (p ! 1) (p ! 2) (p ! 3), drop 4 p)"

definition imin :: "u32 \<Rightarrow> u32 \<Rightarrow> u32" where
  "imin a b = (if a \<le> b then a else b)"

definition imax :: "u32 \<Rightarrow> u32 \<Rightarrow> u32" where
  "imax a b = (if a \<ge> b then a else b)"

definition ibound :: "u32 \<Rightarrow> u32 \<Rightarrow> u32 \<Rightarrow> u32" where
  "ibound lower middle upper = imin (imax lower middle) upper"

definition itimediff :: "u32 \<Rightarrow> u32 \<Rightarrow> int" where
  "itimediff later earlier = sint (later - earlier)"

text \<open>The conversion to a signed 32-bit integer.\<close>

definition i32 :: "int \<Rightarrow> int" where
  "i32 x = signed_take_bit 31 x"

subsection \<open>Segments and the control block\<close>

record IKCPSEG =
  seg_conv :: u32
  seg_cmd :: u32
  seg_frg :: u32
  seg_wnd :: u32
  seg_ts :: u32
  seg_sn :: u32
  seg_una :: u32
  seg_len :: u32
  seg_resendts :: u32
  seg_rto :: u32
  seg_fastack :: u32
  seg_xmit :: u32
  seg_data :: "u8 list"

record IKCPCB =
  kcp_conv :: u32
  kcp_mtu :: u32
  kcp_mss :: u32
  kcp_state :: u32
  snd_una :: u32
  snd_nxt :: u32
  rcv_nxt :: u32
  ts_recent :: u32
  ts_lastack :: u32
  ssthresh :: u32
  rx_rttval :: int
  rx_srtt :: int
  rx_rto :: int
  rx_minrto :: int
  snd_wnd :: u32
  rcv_wnd :: u32
  rmt_wnd :: u32
  kcp_cwnd :: u32
  probe :: u32
  kcp_current :: u32
  kcp_interval :: u32
  ts_flush :: u32
  kcp_xmit :: u32
  nrcv_buf :: u32
  nsnd_buf :: u32
  nrcv_que :: u32
  nsnd_que :: u32
  kcp_nodelay :: u32
  updated :: u32
  ts_probe :: u32
  probe_wait :: u32
  dead_link :: u32
  incr :: u32
  snd_queue :: "IKCPSEG list"
  rcv_queue :: "IKCPSEG list"
  snd_buf :: "IKCPSEG list"
  rcv_buf :: "IKCPSEG list"
  acklist :: "(u32 \<times> u32) list"
  ackblock :: nat
  buffer_size :: int
  fastresend :: int
  nocwnd :: int
  stream :: int

text \<open>
  \<^verbatim>\<open>ikcp_segment_new\<close>: fresh memory, whose members all are set before they are read; \<open>acklist\<close>
  holds the \<^verbatim>\<open>ackcount\<close> pairs that are set, \<open>ackblock\<close> the pairs there is room for, and
  \<open>buffer_size\<close> the bytes allocated for \<^verbatim>\<open>kcp->buffer\<close>.
\<close>

definition segment_new :: "u8 list \<Rightarrow> IKCPSEG" where
  "segment_new bytes = \<lparr>seg_conv = 0, seg_cmd = 0, seg_frg = 0, seg_wnd = 0, seg_ts = 0, seg_sn = 0, seg_una = 0,
     seg_len = 0, seg_resendts = 0, seg_rto = 0, seg_fastack = 0, seg_xmit = 0, seg_data = bytes\<rparr>"

definition alloc_size :: "u32 \<Rightarrow> int" where
  "alloc_size mtu = uint ((mtu + IKCP_OVERHEAD) * 3)"

definition ikcp_create :: "bool \<Rightarrow> bool \<Rightarrow> u32 \<Rightarrow> IKCPCB option" where
  "ikcp_create malloc_kcp malloc_buffer conv =
     (if \<not> malloc_kcp \<or> \<not> malloc_buffer then None
      else Some \<lparr>kcp_conv = conv, kcp_mtu = IKCP_MTU_DEF, kcp_mss = IKCP_MTU_DEF - IKCP_OVERHEAD, kcp_state = 0,
        snd_una = 0, snd_nxt = 0, rcv_nxt = 0, ts_recent = 0, ts_lastack = 0, ssthresh = IKCP_THRESH_INIT,
        rx_rttval = 0, rx_srtt = 0, rx_rto = uint IKCP_RTO_DEF, rx_minrto = uint IKCP_RTO_MIN,
        snd_wnd = IKCP_WND_SND, rcv_wnd = IKCP_WND_RCV, rmt_wnd = IKCP_WND_RCV, kcp_cwnd = 0, probe = 0,
        kcp_current = 0, kcp_interval = IKCP_INTERVAL, ts_flush = IKCP_INTERVAL, kcp_xmit = 0,
        nrcv_buf = 0, nsnd_buf = 0, nrcv_que = 0, nsnd_que = 0, kcp_nodelay = 0, updated = 0,
        ts_probe = 0, probe_wait = 0, dead_link = IKCP_DEADLINK, incr = 0,
        snd_queue = [], rcv_queue = [], snd_buf = [], rcv_buf = [], acklist = [], ackblock = 0,
        buffer_size = alloc_size IKCP_MTU_DEF, fastresend = 0, nocwnd = 0, stream = 0\<rparr>)"

subsection \<open>Receiving\<close>

text \<open>The segments of the first message: up to the first one with fragment number 0.\<close>

fun first_message :: "IKCPSEG list \<Rightarrow> IKCPSEG list" where
  "first_message [] = []"
| "first_message (seg # q) = seg # (if seg_frg seg = 0 then [] else first_message q)"

definition merged_len :: "IKCPSEG list \<Rightarrow> int" where
  "merged_len segs = sint (sum_list (map seg_len segs))"

definition merged_data :: "IKCPSEG list \<Rightarrow> u8 list" where
  "merged_data segs = concat (map (\<lambda>seg. take (unat (seg_len seg)) (seg_data seg)) segs)"

definition ikcp_peeksize :: "IKCPCB \<Rightarrow> int" where
  "ikcp_peeksize k = (case rcv_queue k of [] \<Rightarrow> - 1
     | seg # q \<Rightarrow> if seg_frg seg = 0 then sint (seg_len seg)
         else if nrcv_que k < seg_frg seg + 1 then - 1
         else merged_len (first_message (rcv_queue k)))"

text \<open>The loop that moves available segments from \<^verbatim>\<open>rcv_buf\<close> to \<^verbatim>\<open>rcv_queue\<close>.\<close>

fun move_available_loop :: "IKCPSEG list \<Rightarrow> IKCPCB \<Rightarrow> IKCPCB" where
  "move_available_loop [] k = k"
| "move_available_loop (seg # buf) k =
     (if seg_sn seg = rcv_nxt k \<and> nrcv_que k < rcv_wnd k
      then move_available_loop buf (k\<lparr>rcv_buf := buf, nrcv_buf := nrcv_buf k - 1,
             rcv_queue := rcv_queue k @ [seg], nrcv_que := nrcv_que k + 1, rcv_nxt := rcv_nxt k + 1\<rparr>)
      else k)"

definition move_available :: "IKCPCB \<Rightarrow> IKCPCB" where
  "move_available k = move_available_loop (rcv_buf k) k"

text \<open>\<^verbatim>\<open>ikcp_recv\<close> with its result and the bytes it copies; a negative length only peeks.\<close>

definition take_message :: "bool \<Rightarrow> IKCPSEG list \<Rightarrow> IKCPCB \<Rightarrow> IKCPCB" where
  "take_message ispeek segs k = (if ispeek then k
     else k\<lparr>rcv_queue := drop (length segs) (rcv_queue k), nrcv_que := nrcv_que k - of_nat (length segs)\<rparr>)"

definition ikcp_recv :: "int \<Rightarrow> IKCPCB \<Rightarrow> (int \<times> u8 list) \<times> IKCPCB" where
  "ikcp_recv len k =
     (if rcv_queue k = [] then ((- 1, []), k)
      else let peeksize = ikcp_peeksize k in
        if peeksize < 0 then ((- 2, []), k)
        else if peeksize > \<bar>len\<bar> then ((- 3, []), k)
        else let recover = (nrcv_que k \<ge> rcv_wnd k);
                 segs = first_message (rcv_queue k);
                 k = take_message (len < 0) segs k;
                 k = move_available k;
                 k = (if nrcv_que k < rcv_wnd k \<and> recover then k\<lparr>probe := probe k OR IKCP_ASK_TELL\<rparr> else k)
             in ((merged_len segs, merged_data segs), k))"

subsection \<open>Sending\<close>

text \<open>The loop that cuts the message; \<open>n\<close> is \<^verbatim>\<open>count - i\<close>.\<close>

fun fragment_loop :: "nat \<Rightarrow> u8 list \<Rightarrow> int \<Rightarrow> IKCPCB \<Rightarrow> IKCPCB" where
  "fragment_loop 0 buffer len k = k"
| "fragment_loop (Suc n) buffer len k =
     (let size = (if len > sint (kcp_mss k) then sint (kcp_mss k) else len);
          seg = (segment_new (take (nat size) buffer))
            \<lparr>seg_len := word_of_int size, seg_frg := (if stream k = 0 then of_nat n else 0)\<rparr>
      in fragment_loop n (drop (nat size) buffer) (len - size)
           (k\<lparr>snd_queue := snd_queue k @ [seg], nsnd_que := nsnd_que k + 1\<rparr>))"

text \<open>In streaming mode the last segment of the queue is filled up first.\<close>

definition stream_extend :: "u8 list \<Rightarrow> int \<Rightarrow> IKCPCB \<Rightarrow> u8 list \<times> int \<times> IKCPCB" where
  "stream_extend buffer len k =
     (if snd_queue k = [] \<or> \<not> seg_len (last (snd_queue k)) < kcp_mss k then (buffer, len, k)
      else let old = last (snd_queue k);
               capacity = sint (kcp_mss k - seg_len old);
               extend = (if len < capacity then len else capacity);
               seg = (segment_new (take (unat (seg_len old)) (seg_data old) @ take (nat extend) buffer))
                 \<lparr>seg_len := seg_len old + word_of_int extend, seg_frg := 0\<rparr>
           in (drop (nat extend) buffer, len - extend, k\<lparr>snd_queue := butlast (snd_queue k) @ [seg]\<rparr>))"

definition fragment_count :: "u32 \<Rightarrow> int \<Rightarrow> int" where
  "fragment_count mss len = (if len \<le> sint mss then 1 else sint ((word_of_int len + mss - 1) div mss))"

definition ikcp_send :: "u8 list \<Rightarrow> int \<Rightarrow> IKCPCB \<Rightarrow> int \<times> IKCPCB" where
  "ikcp_send buffer len k =
     (if len < 0 then (- 1, k)
      else let (buffer, len, k) = (if stream k \<noteq> 0 then stream_extend buffer len k else (buffer, len, k)) in
        if stream k \<noteq> 0 \<and> len \<le> 0 then (0, k)
        else let count = fragment_count (kcp_mss k) len in
          if count > 255 then (- 2, k)
          else let count = (if count = 0 then 1 else count)
               in (0, fragment_loop (nat count) buffer len k))"

subsection \<open>Acknowledgements\<close>

definition ikcp_update_ack :: "int \<Rightarrow> IKCPCB \<Rightarrow> IKCPCB" where
  "ikcp_update_ack rtt k =
     (let k = (if rx_srtt k = 0 then k\<lparr>rx_srtt := rtt, rx_rttval := c_div rtt 2\<rparr>
               else let delta = \<bar>rtt - rx_srtt k\<bar>;
                        k = k\<lparr>rx_rttval := i32 (c_div (i32 (3 * rx_rttval k) + delta) 4)\<rparr>;
                        k = k\<lparr>rx_srtt := c_div (i32 (7 * rx_srtt k + rtt)) 8\<rparr>
                    in if rx_srtt k < 1 then k\<lparr>rx_srtt := 1\<rparr> else k);
          rto = sint (word_of_int (rx_srtt k) + imax (kcp_interval k) (word_of_int (4 * rx_rttval k)))
      in k\<lparr>rx_rto := sint (ibound (word_of_int (rx_minrto k)) (word_of_int rto) IKCP_RTO_MAX)\<rparr>)"

definition ikcp_shrink_buf :: "IKCPCB \<Rightarrow> IKCPCB" where
  "ikcp_shrink_buf k = (case snd_buf k of [] \<Rightarrow> k\<lparr>snd_una := snd_nxt k\<rparr> | seg # _ \<Rightarrow> k\<lparr>snd_una := seg_sn seg\<rparr>)"

text \<open>The segment numbered \<open>sn\<close>, if the loop finds it, and the list without it.\<close>

fun remove_acked :: "u32 \<Rightarrow> IKCPSEG list \<Rightarrow> bool \<times> IKCPSEG list" where
  "remove_acked sn [] = (False, [])"
| "remove_acked sn (seg # segs) =
     (if sn = seg_sn seg then (True, segs)
      else if itimediff sn (seg_sn seg) < 0 then (False, seg # segs)
      else let (found, segs) = remove_acked sn segs in (found, seg # segs))"

definition outside_sent :: "u32 \<Rightarrow> IKCPCB \<Rightarrow> bool" where
  "outside_sent sn k \<longleftrightarrow> itimediff sn (snd_una k) < 0 \<or> itimediff sn (snd_nxt k) \<ge> 0"

definition ikcp_parse_ack :: "u32 \<Rightarrow> IKCPCB \<Rightarrow> IKCPCB" where
  "ikcp_parse_ack sn k =
     (if outside_sent sn k then k
      else let (found, segs) = remove_acked sn (snd_buf k)
           in if found then k\<lparr>snd_buf := segs, nsnd_buf := nsnd_buf k - 1\<rparr> else k)"

fun remove_una :: "u32 \<Rightarrow> IKCPSEG list \<Rightarrow> u32 \<Rightarrow> IKCPSEG list \<times> u32" where
  "remove_una una [] n = ([], n)"
| "remove_una una (seg # segs) n =
     (if itimediff una (seg_sn seg) > 0 then remove_una una segs (n - 1) else (seg # segs, n))"

definition ikcp_parse_una :: "u32 \<Rightarrow> IKCPCB \<Rightarrow> IKCPCB" where
  "ikcp_parse_una una k =
     (let (segs, n) = remove_una una (snd_buf k) (nsnd_buf k) in k\<lparr>snd_buf := segs, nsnd_buf := n\<rparr>)"

fun count_fastack :: "u32 \<Rightarrow> IKCPSEG list \<Rightarrow> IKCPSEG list" where
  "count_fastack sn [] = []"
| "count_fastack sn (seg # segs) =
     (if itimediff sn (seg_sn seg) < 0 then seg # segs
      else (if sn \<noteq> seg_sn seg then seg\<lparr>seg_fastack := seg_fastack seg + 1\<rparr> else seg) # count_fastack sn segs)"

definition ikcp_parse_fastack :: "u32 \<Rightarrow> IKCPCB \<Rightarrow> IKCPCB" where
  "ikcp_parse_fastack sn k = (if outside_sent sn k then k else k\<lparr>snd_buf := count_fastack sn (snd_buf k)\<rparr>)"

text \<open>The room for acknowledgements is doubled, from 8, until it is enough.\<close>

function grow_block :: "nat \<Rightarrow> nat \<Rightarrow> nat" where
  "grow_block newsize newblock = (if newblock < newsize \<and> 0 < newblock then grow_block newsize (newblock * 2) else newblock)"
  by auto
termination by (relation "measure (\<lambda>(newsize, newblock). newsize - newblock)") auto

declare grow_block.simps [simp del]

definition ikcp_ack_push :: "u32 \<Rightarrow> u32 \<Rightarrow> IKCPCB \<Rightarrow> IKCPCB" where
  "ikcp_ack_push sn ts k =
     (let newsize = length (acklist k) + 1;
          k = (if newsize > ackblock k then k\<lparr>ackblock := grow_block newsize 8\<rparr> else k)
      in k\<lparr>acklist := acklist k @ [(sn, ts)]\<rparr>)"

subsection \<open>Input\<close>

text \<open>The place of a new segment, from the back of \<^verbatim>\<open>rcv_buf\<close>; None if it is there already.\<close>

fun insert_from_back :: "IKCPSEG \<Rightarrow> IKCPSEG list \<Rightarrow> IKCPSEG list option" where
  "insert_from_back newseg [] = Some [newseg]"
| "insert_from_back newseg (seg # segs) =
     (if seg_sn seg = seg_sn newseg then None
      else if itimediff (seg_sn newseg) (seg_sn seg) > 0 then Some (newseg # seg # segs)
      else map_option (\<lambda>segs. seg # segs) (insert_from_back newseg segs))"

definition ikcp_parse_data :: "IKCPSEG \<Rightarrow> IKCPCB \<Rightarrow> IKCPCB" where
  "ikcp_parse_data newseg k =
     (let sn = seg_sn newseg in
      if itimediff sn (rcv_nxt k + rcv_wnd k) \<ge> 0 \<or> itimediff sn (rcv_nxt k) < 0 then k
      else let k = (case insert_from_back newseg (rev (rcv_buf k)) of
                      None \<Rightarrow> k
                    | Some segs \<Rightarrow> k\<lparr>rcv_buf := rev segs, nrcv_buf := nrcv_buf k + 1\<rparr>)
           in move_available k)"

text \<open>The header of a segment, and what the loop of \<^verbatim>\<open>ikcp_input\<close> does with one segment.\<close>

definition decode_header :: "u8 list \<Rightarrow> IKCPSEG \<times> u8 list" where
  "decode_header p =
     (let (conv, p) = decode32u p; (cmd, p) = decode8u p; (frg, p) = decode8u p; (wnd, p) = decode16u p;
          (ts, p) = decode32u p; (sn, p) = decode32u p; (una, p) = decode32u p; (len, p) = decode32u p
      in ((segment_new [])\<lparr>seg_conv := conv, seg_cmd := ucast cmd, seg_frg := ucast frg, seg_wnd := ucast wnd,
            seg_ts := ts, seg_sn := sn, seg_una := una, seg_len := len\<rparr>, p))"

definition input_ack :: "IKCPSEG \<Rightarrow> IKCPCB \<Rightarrow> IKCPCB" where
  "input_ack h k =
     (let rtt = itimediff (kcp_current k) (seg_ts h);
          k = (if rtt \<ge> 0 then ikcp_update_ack rtt k else k)
      in ikcp_shrink_buf (ikcp_parse_ack (seg_sn h) k))"

definition input_push :: "IKCPSEG \<Rightarrow> u8 list \<Rightarrow> IKCPCB \<Rightarrow> IKCPCB" where
  "input_push h bytes k =
     (if itimediff (seg_sn h) (rcv_nxt k + rcv_wnd k) < 0
      then let k = ikcp_ack_push (seg_sn h) (seg_ts h) k
           in if itimediff (seg_sn h) (rcv_nxt k) \<ge> 0
              then ikcp_parse_data (h\<lparr>seg_data := take (unat (seg_len h)) bytes\<rparr>) k else k
      else k)"

definition input_segment :: "IKCPSEG \<Rightarrow> u8 list \<Rightarrow> IKCPCB \<Rightarrow> IKCPCB" where
  "input_segment h bytes k =
     (let k = k\<lparr>rmt_wnd := seg_wnd h\<rparr>;
          k = ikcp_shrink_buf (ikcp_parse_una (seg_una h) k)
      in if seg_cmd h = IKCP_CMD_ACK then input_ack h k
         else if seg_cmd h = IKCP_CMD_PUSH then input_push h bytes k
         else if seg_cmd h = IKCP_CMD_WASK then k\<lparr>probe := probe k OR IKCP_ASK_TELL\<rparr>
         else k)"

definition known_cmd :: "u32 \<Rightarrow> bool" where
  "known_cmd cmd \<longleftrightarrow> cmd = IKCP_CMD_PUSH \<or> cmd = IKCP_CMD_ACK \<or> cmd = IKCP_CMD_WASK \<or> cmd = IKCP_CMD_WINS"

text \<open>\<open>maxack\<close> is the highest acknowledged number so far, None while \<^verbatim>\<open>flag\<close> is 0.\<close>

definition newer_ack :: "u32 option \<Rightarrow> IKCPSEG \<Rightarrow> u32 option" where
  "newer_ack maxack h =
     (if seg_cmd h \<noteq> IKCP_CMD_ACK then maxack
      else case maxack of None \<Rightarrow> Some (seg_sn h)
           | Some m \<Rightarrow> if itimediff (seg_sn h) m > 0 then Some (seg_sn h) else Some m)"

lemma decode_header_rest: "snd (decode_header p) = drop 24 p"
  by (simp add: decode_header_def decode32u_def decode16u_def decode8u_def)

function input_loop :: "u8 list \<Rightarrow> u32 option \<Rightarrow> IKCPCB \<Rightarrow> int \<times> u32 option \<times> IKCPCB" where
  "input_loop p maxack k =
     (if length p < 24 then (0, maxack, k)
      else let (h, rest) = decode_header p in
        if seg_conv h \<noteq> kcp_conv k then (- 1, maxack, k)
        else if length rest < unat (seg_len h) then (- 2, maxack, k)
        else if \<not> known_cmd (seg_cmd h) then (- 3, maxack, k)
        else input_loop (drop (unat (seg_len h)) rest) (newer_ack maxack h) (input_segment h rest k))"
  by auto
termination
  by (relation "measure (\<lambda>(p, maxack, k). length p)") (auto simp: prod_eq_iff decode_header_rest)

declare input_loop.simps [simp del]

text \<open>The congestion window grows when the first unacknowledged number has moved.\<close>

definition grow_cwnd :: "IKCPCB \<Rightarrow> IKCPCB" where
  "grow_cwnd k =
     (if kcp_cwnd k < rmt_wnd k
      then let mss = kcp_mss k;
               k = (if kcp_cwnd k < ssthresh k then k\<lparr>kcp_cwnd := kcp_cwnd k + 1, incr := incr k + mss\<rparr>
                    else let k = (if incr k < mss then k\<lparr>incr := mss\<rparr> else k);
                             k = k\<lparr>incr := incr k + ((mss * mss) div incr k + mss div 16)\<rparr>
                         in if (kcp_cwnd k + 1) * mss \<le> incr k then k\<lparr>kcp_cwnd := kcp_cwnd k + 1\<rparr> else k)
           in if kcp_cwnd k > rmt_wnd k then k\<lparr>kcp_cwnd := rmt_wnd k, incr := rmt_wnd k * mss\<rparr> else k
      else k)"

definition ikcp_input :: "u8 list \<Rightarrow> IKCPCB \<Rightarrow> int \<times> IKCPCB" where
  "ikcp_input p k =
     (if length p < 24 then (- 1, k)
      else let una = snd_una k; (r, maxack, k) = input_loop p None k in
        if r < 0 then (r, k)
        else let k = (case maxack of None \<Rightarrow> k | Some sn \<Rightarrow> ikcp_parse_fastack sn k);
                 k = (if itimediff (snd_una k) una > 0 then grow_cwnd k else k)
             in (0, k))"

subsection \<open>Output\<close>

definition encode_seg :: "IKCPSEG \<Rightarrow> u8 list" where
  "encode_seg seg = encode32u (seg_conv seg) @ encode8u (ucast (seg_cmd seg)) @ encode8u (ucast (seg_frg seg))
     @ encode16u (ucast (seg_wnd seg)) @ encode32u (seg_ts seg) @ encode32u (seg_sn seg)
     @ encode32u (seg_una seg) @ encode32u (seg_len seg)"

definition wnd_unused :: "IKCPCB \<Rightarrow> u32" where
  "wnd_unused k = (if nrcv_que k < rcv_wnd k then rcv_wnd k - nrcv_que k else 0)"

text \<open>
  \<^verbatim>\<open>ikcp_output\<close>, and the test for room before something is appended: the bytes in
  \<^verbatim>\<open>kcp->buffer\<close> up to \<^verbatim>\<open>ptr\<close>, and the datagrams put out so far.
\<close>

type_synonym out_state = "u8 list \<times> u8 list list"

definition ikcp_output :: "u8 list \<Rightarrow> u8 list list" where
  "ikcp_output buf = (if buf = [] then [] else [buf])"

definition put :: "u32 \<Rightarrow> u8 list \<Rightarrow> out_state \<Rightarrow> out_state" where
  "put mtu bytes ps = (case ps of (buf, outs) \<Rightarrow>
     if int (length buf) + int (length bytes) > sint mtu then (bytes, outs @ ikcp_output buf)
     else (buf @ bytes, outs))"

definition flush_acks :: "IKCPSEG \<Rightarrow> IKCPCB \<Rightarrow> out_state \<Rightarrow> IKCPSEG \<times> out_state" where
  "flush_acks seg k ps = fold (\<lambda>(sn, ts) (seg, ps). let seg = seg\<lparr>seg_sn := sn, seg_ts := ts\<rparr>
     in (seg, put (kcp_mtu k) (encode_seg seg) ps)) (acklist k) (seg, ps)"

definition flush_probe_timer :: "IKCPCB \<Rightarrow> IKCPCB" where
  "flush_probe_timer k =
     (if rmt_wnd k = 0
      then if probe_wait k = 0 then k\<lparr>probe_wait := IKCP_PROBE_INIT, ts_probe := kcp_current k + IKCP_PROBE_INIT\<rparr>
           else if itimediff (kcp_current k) (ts_probe k) \<ge> 0
             then let w = (if probe_wait k < IKCP_PROBE_INIT then IKCP_PROBE_INIT else probe_wait k);
                      w = w + w div 2;
                      w = (if w > IKCP_PROBE_LIMIT then IKCP_PROBE_LIMIT else w)
                  in k\<lparr>probe_wait := w, ts_probe := kcp_current k + w, probe := probe k OR IKCP_ASK_SEND\<rparr>
             else k
      else k\<lparr>ts_probe := 0, probe_wait := 0\<rparr>)"

definition flush_probes :: "IKCPSEG \<Rightarrow> IKCPCB \<Rightarrow> out_state \<Rightarrow> out_state" where
  "flush_probes seg k ps =
     (let ps = (if probe k AND IKCP_ASK_SEND \<noteq> 0
                then put (kcp_mtu k) (encode_seg (seg\<lparr>seg_cmd := IKCP_CMD_WASK\<rparr>)) ps else ps)
      in if probe k AND IKCP_ASK_TELL \<noteq> 0
         then put (kcp_mtu k) (encode_seg (seg\<lparr>seg_cmd := IKCP_CMD_WINS\<rparr>)) ps else ps)"

definition send_window :: "IKCPCB \<Rightarrow> u32" where
  "send_window k =
     (let cwnd = imin (snd_wnd k) (rmt_wnd k) in if nocwnd k = 0 then imin (kcp_cwnd k) cwnd else cwnd)"

text \<open>The loop that moves segments from \<^verbatim>\<open>snd_queue\<close> to \<^verbatim>\<open>snd_buf\<close>.\<close>

fun move_to_send_loop :: "IKCPSEG list \<Rightarrow> u32 \<Rightarrow> u32 \<Rightarrow> IKCPCB \<Rightarrow> IKCPCB" where
  "move_to_send_loop [] cwnd wnd k = k"
| "move_to_send_loop (seg # segs) cwnd wnd k =
     (if itimediff (snd_nxt k) (snd_una k + cwnd) < 0
      then let newseg = seg\<lparr>seg_conv := kcp_conv k, seg_cmd := IKCP_CMD_PUSH, seg_wnd := wnd, seg_ts := kcp_current k,
                 seg_sn := snd_nxt k, seg_una := rcv_nxt k, seg_resendts := kcp_current k,
                 seg_rto := word_of_int (rx_rto k), seg_fastack := 0, seg_xmit := 0\<rparr>
           in move_to_send_loop segs cwnd wnd (k\<lparr>snd_queue := segs, snd_buf := snd_buf k @ [newseg],
                nsnd_que := nsnd_que k - 1, nsnd_buf := nsnd_buf k + 1, snd_nxt := snd_nxt k + 1\<rparr>)
      else k)"

definition move_to_send :: "u32 \<Rightarrow> u32 \<Rightarrow> IKCPCB \<Rightarrow> IKCPCB" where
  "move_to_send cwnd wnd k = move_to_send_loop (snd_queue k) cwnd wnd k"

text \<open>Why a segment of \<^verbatim>\<open>snd_buf\<close> is sent now, if it is, and the segment after that.\<close>

datatype sending = NotNow | FirstTime | TimedOut | FastResend

definition sending_of :: "u32 \<Rightarrow> u32 \<Rightarrow> IKCPSEG \<Rightarrow> sending" where
  "sending_of current resent seg =
     (if seg_xmit seg = 0 then FirstTime
      else if itimediff current (seg_resendts seg) \<ge> 0 then TimedOut
      else if seg_fastack seg \<ge> resent then FastResend
      else NotNow)"

definition sent_segment :: "u32 \<Rightarrow> u32 \<Rightarrow> IKCPCB \<Rightarrow> sending \<Rightarrow> IKCPSEG \<Rightarrow> IKCPSEG" where
  "sent_segment wnd rtomin k why seg =
     (let current = kcp_current k;
          seg = (case why of
              NotNow \<Rightarrow> seg
            | FirstTime \<Rightarrow> let rto = word_of_int (rx_rto k)
                in seg\<lparr>seg_xmit := seg_xmit seg + 1, seg_rto := rto, seg_resendts := current + rto + rtomin\<rparr>
            | TimedOut \<Rightarrow> let rto = seg_rto seg + (if kcp_nodelay k = 0 then word_of_int (rx_rto k) else word_of_int (c_div (rx_rto k) 2))
                in seg\<lparr>seg_xmit := seg_xmit seg + 1, seg_rto := rto, seg_resendts := current + rto\<rparr>
            | FastResend \<Rightarrow> seg\<lparr>seg_xmit := seg_xmit seg + 1, seg_fastack := 0, seg_resendts := current + seg_rto seg\<rparr>)
      in if why = NotNow then seg else seg\<lparr>seg_ts := current, seg_wnd := wnd, seg_una := rcv_nxt k\<rparr>)"

definition segment_bytes :: "IKCPSEG \<Rightarrow> u8 list" where
  "segment_bytes seg = encode_seg seg @ take (unat (seg_len seg)) (seg_data seg)"

text \<open>
  The loop over \<^verbatim>\<open>snd_buf\<close>. Its test for room reads the same members of the control block each
  time; what it changes there is returned: the segments, the number of timed out ones (\<open>lost\<close>),
  that of fast resends (\<open>change\<close>) and whether the link is dead.
\<close>

fun flush_segments :: "u32 \<Rightarrow> u32 \<Rightarrow> u32 \<Rightarrow> IKCPCB \<Rightarrow> IKCPSEG list \<Rightarrow> out_state
    \<Rightarrow> (IKCPSEG list \<times> nat \<times> nat \<times> bool) \<times> out_state" where
  "flush_segments wnd resent rtomin k [] ps = (([], 0, 0, False), ps)"
| "flush_segments wnd resent rtomin k (seg # segs) ps =
     (let why = sending_of (kcp_current k) resent seg;
          seg = sent_segment wnd rtomin k why seg;
          ps = (if why = NotNow then ps else put (kcp_mtu k) (segment_bytes seg) ps);
          ((segs, lost, change, dead), ps) = flush_segments wnd resent rtomin k segs ps
      in ((seg # segs, (if why = TimedOut then Suc lost else lost), (if why = FastResend then Suc change else change),
           dead \<or> (why \<noteq> NotNow \<and> seg_xmit seg \<ge> dead_link k)), ps))"

text \<open>The congestion window after the losses the loop has seen; \<open>cwnd\<close> is the window it used.\<close>

definition flush_cwnd :: "u32 \<Rightarrow> u32 \<Rightarrow> nat \<Rightarrow> nat \<Rightarrow> IKCPCB \<Rightarrow> IKCPCB" where
  "flush_cwnd cwnd resent lost change k =
     (let k = (if change > 0
               then let t = (snd_nxt k - snd_una k) div 2;
                        t = (if t < IKCP_THRESH_MIN then IKCP_THRESH_MIN else t)
                    in k\<lparr>ssthresh := t, kcp_cwnd := t + resent, incr := (t + resent) * kcp_mss k\<rparr>
               else k);
          k = (if lost > 0
               then let t = cwnd div 2;
                        t = (if t < IKCP_THRESH_MIN then IKCP_THRESH_MIN else t)
                    in k\<lparr>ssthresh := t, kcp_cwnd := 1, incr := kcp_mss k\<rparr>
               else k)
      in if kcp_cwnd k < 1 then k\<lparr>kcp_cwnd := 1, incr := kcp_mss k\<rparr> else k)"

definition ikcp_flush :: "IKCPCB \<Rightarrow> IKCPCB \<times> u8 list list" where
  "ikcp_flush k =
     (if updated k = 0 then (k, [])
      else
        let wnd = wnd_unused k;
            seg = (segment_new [])\<lparr>seg_conv := kcp_conv k, seg_cmd := IKCP_CMD_ACK, seg_wnd := wnd, seg_una := rcv_nxt k\<rparr>;
            (seg, ps) = flush_acks seg k ([], []);
            k = k\<lparr>acklist := []\<rparr>;
            k = flush_probe_timer k;
            ps = flush_probes seg k ps;
            k = k\<lparr>probe := 0\<rparr>;
            cwnd = send_window k;
            k = move_to_send cwnd wnd k;
            resent = (if fastresend k > 0 then word_of_int (fastresend k) else 0xffffffff);
            rtomin = (if kcp_nodelay k = 0 then word_of_int (rx_rto k div 8) else 0);
            ((segs, lost, change, dead), (buf, outs)) = flush_segments wnd resent rtomin k (snd_buf k) ps;
            k = k\<lparr>snd_buf := segs, kcp_xmit := kcp_xmit k + of_nat lost, kcp_state := (if dead then - 1 else kcp_state k)\<rparr>
        in (flush_cwnd cwnd resent lost change k, outs @ ikcp_output buf))"

text \<open>\<^verbatim>\<open>ikcp_update\<close> up to the flush: whether one is due, and the times it sets.\<close>

definition update_timer :: "u32 \<Rightarrow> IKCPCB \<Rightarrow> bool \<times> IKCPCB" where
  "update_timer current k =
     (let k = k\<lparr>kcp_current := current\<rparr>;
          k = (if updated k = 0 then k\<lparr>updated := 1, ts_flush := current\<rparr> else k);
          slap = itimediff current (ts_flush k);
          (k, slap) = (if slap \<ge> 10000 \<or> slap < - 10000 then (k\<lparr>ts_flush := current\<rparr>, 0) else (k, slap))
      in if slap \<ge> 0
         then let k = k\<lparr>ts_flush := ts_flush k + kcp_interval k\<rparr>
              in (True, if itimediff current (ts_flush k) \<ge> 0 then k\<lparr>ts_flush := current + kcp_interval k\<rparr> else k)
         else (False, k))"

definition ikcp_update :: "u32 \<Rightarrow> IKCPCB \<Rightarrow> IKCPCB \<times> u8 list list" where
  "ikcp_update current k = (let (due, k) = update_timer current k in if due then ikcp_flush k else (k, []))"

subsection \<open>Timing and settings\<close>

text \<open>The least time to a resend; None where the loop returns because one is due.\<close>

fun next_resend :: "u32 \<Rightarrow> IKCPSEG list \<Rightarrow> int \<Rightarrow> int option" where
  "next_resend current [] tm_packet = Some tm_packet"
| "next_resend current (seg # segs) tm_packet =
     (let diff = itimediff (seg_resendts seg) current
      in if diff \<le> 0 then None
         else next_resend current segs (if diff < tm_packet then diff else tm_packet))"

definition ikcp_check :: "u32 \<Rightarrow> IKCPCB \<Rightarrow> u32" where
  "ikcp_check current k =
     (if updated k = 0 then current
      else let ts = ts_flush k;
               ts = (if itimediff current ts \<ge> 10000 \<or> itimediff current ts < - 10000 then current else ts)
           in if itimediff current ts \<ge> 0 then current
              else let tm_flush = itimediff ts current in
                case next_resend current (snd_buf k) 0x7fffffff of
                  None \<Rightarrow> current
                | Some tm_packet \<Rightarrow>
                    let minimal = word_of_int (if tm_packet < tm_flush then tm_packet else tm_flush);
                        minimal = (if minimal \<ge> kcp_interval k then kcp_interval k else minimal)
                    in current + minimal)"

definition ikcp_setmtu :: "bool \<Rightarrow> int \<Rightarrow> IKCPCB \<Rightarrow> int \<times> IKCPCB" where
  "ikcp_setmtu malloc mtu k =
     (if mtu < 50 \<or> mtu < sint IKCP_OVERHEAD then (- 1, k)
      else if \<not> malloc then (- 2, k)
      else (0, k\<lparr>kcp_mtu := word_of_int mtu, kcp_mss := word_of_int mtu - IKCP_OVERHEAD,
              buffer_size := alloc_size (word_of_int mtu)\<rparr>))"

definition clamp_interval :: "int \<Rightarrow> u32" where
  "clamp_interval interval = word_of_int (if interval > 5000 then 5000 else if interval < 10 then 10 else interval)"

definition ikcp_interval :: "int \<Rightarrow> IKCPCB \<Rightarrow> IKCPCB" where
  "ikcp_interval interval k = k\<lparr>kcp_interval := clamp_interval interval\<rparr>"

definition ikcp_nodelay :: "int \<Rightarrow> int \<Rightarrow> int \<Rightarrow> int \<Rightarrow> IKCPCB \<Rightarrow> IKCPCB" where
  "ikcp_nodelay nodelay interval resend nc k =
     (let k = (if nodelay \<ge> 0 then k\<lparr>kcp_nodelay := word_of_int nodelay,
                 rx_minrto := (if nodelay \<noteq> 0 then uint IKCP_RTO_NDL else uint IKCP_RTO_MIN)\<rparr> else k);
          k = (if interval \<ge> 0 then k\<lparr>kcp_interval := clamp_interval interval\<rparr> else k);
          k = (if resend \<ge> 0 then k\<lparr>fastresend := resend\<rparr> else k)
      in if nc \<ge> 0 then k\<lparr>nocwnd := nc\<rparr> else k)"

definition ikcp_wndsize :: "int \<Rightarrow> int \<Rightarrow> IKCPCB \<Rightarrow> IKCPCB" where
  "ikcp_wndsize sndwnd rcvwnd k =
     (let k = (if sndwnd > 0 then k\<lparr>snd_wnd := word_of_int sndwnd\<rparr> else k)
      in if rcvwnd > 0 then k\<lparr>rcv_wnd := word_of_int rcvwnd\<rparr> else k)"

definition ikcp_waitsnd :: "IKCPCB \<Rightarrow> int" where
  "ikcp_waitsnd k = sint (nsnd_buf k + nsnd_que k)"

definition ikcp_getconv :: "u8 list \<Rightarrow> u32" where
  "ikcp_getconv p = fst (decode32u p)"

end
