(* ===== verification/IkcpRecv.thy ===== *)
theory IkcpRecv
  imports Ikcp
begin

text \<open>
  The receiving side of KCP. What a sender cut into segments is a list of chunks, and the segment
  numbered \<open>i\<close> carries chunk \<open>i\<close>; as long as there are fewer than 2 to the 30 chunks, signed
  differences of 32-bit numbers order them, and \<^verbatim>\<open>rcv_queue\<close> continues what was handed out
  in exactly the order of the chunks, whatever arrives.
\<close>

subsection \<open>Numbers\<close>

lemma sint_of_int_u32: "- (2 ^ 31) \<le> x \<Longrightarrow> x < 2 ^ 31 \<Longrightarrow> sint (word_of_int x :: u32) = x"
  by (simp add: signed_take_bit_int_eq_self sint_sbintrunc')

lemma itimediff_of_nat:
  assumes "i < 2 ^ 31" "j < 2 ^ 31"
  shows "itimediff (of_nat i) (of_nat j) = int i - int j"
proof -
  have "itimediff (of_nat i) (of_nat j) = sint (word_of_int (int i - int j) :: u32)"
    by (simp add: itimediff_def)
  also have "\<dots> = int i - int j" using assms by (intro sint_of_int_u32) auto
  finally show ?thesis .
qed

lemma itimediff_unat:
  "unat a < 2 ^ 31 \<Longrightarrow> unat b < 2 ^ 31 \<Longrightarrow> itimediff a b = int (unat a) - int (unat b)"
  using itimediff_of_nat [of "unat a" "unat b"] by simp

lemma unat_add_u32: "unat a + unat b < 2 ^ 32 \<Longrightarrow> unat (a + b :: u32) = unat a + unat b"
  by (simp add: unat_word_ariths)

subsection \<open>The invariant\<close>

text \<open>A chunk is a fragment number and the bytes; \<open>S\<close> lists the chunks of the sender.\<close>

type_synonym chunk = "u32 \<times> u8 list"

definition chunk_of :: "IKCPSEG \<Rightarrow> chunk" where
  "chunk_of seg = (seg_frg seg, seg_data seg)"

definition seg_wf :: "IKCPSEG \<Rightarrow> bool" where
  "seg_wf seg \<longleftrightarrow> unat (seg_len seg) = length (seg_data seg)"

definition carries :: "chunk list \<Rightarrow> IKCPSEG \<Rightarrow> nat \<Rightarrow> bool" where
  "carries S seg i \<longleftrightarrow> i < length S \<and> unat (seg_sn seg) = i \<and> chunk_of seg = S ! i \<and> seg_wf seg"

text \<open>Fewer chunks, and a smaller window, than can be told apart.\<close>

definition few :: "chunk list \<Rightarrow> IKCPCB \<Rightarrow> bool" where
  "few S k \<longleftrightarrow> length S < 2 ^ 30 \<and> unat (rcv_wnd k) < 2 ^ 30"

text \<open>What the receiving operations depend on.\<close>

definition rcv_part :: "IKCPCB \<Rightarrow> (u32 \<times> u32) \<times> IKCPSEG list \<times> IKCPSEG list \<times> u32 \<times> u32" where
  "rcv_part k = ((rcv_nxt k, rcv_wnd k), rcv_queue k, rcv_buf k, nrcv_que k, nrcv_buf k)"

definition rcv_buf_ok :: "chunk list \<Rightarrow> IKCPCB \<Rightarrow> bool" where
  "rcv_buf_ok S k \<longleftrightarrow> sorted_wrt (<) (map (\<lambda>seg. unat (seg_sn seg)) (rcv_buf k))
     \<and> (\<forall>seg \<in> set (rcv_buf k). carries S seg (unat (seg_sn seg)) \<and> unat (rcv_nxt k) \<le> unat (seg_sn seg)
          \<and> unat (seg_sn seg) < unat (rcv_nxt k) + unat (rcv_wnd k))
     \<and> nrcv_buf k = of_nat (length (rcv_buf k))"

definition rcv_queue_ok :: "chunk list \<Rightarrow> chunk list \<Rightarrow> IKCPCB \<Rightarrow> bool" where
  "rcv_queue_ok S got k \<longleftrightarrow> unat (rcv_nxt k) \<le> length S
     \<and> got @ map chunk_of (rcv_queue k) = take (unat (rcv_nxt k)) S
     \<and> (\<forall>seg \<in> set (rcv_queue k). seg_wf seg)
     \<and> unat (nrcv_que k) = length (rcv_queue k) \<and> length (rcv_queue k) \<le> unat (rcv_wnd k)"

definition rcv_ok :: "chunk list \<Rightarrow> chunk list \<Rightarrow> IKCPCB \<Rightarrow> bool" where
  "rcv_ok S got k \<longleftrightarrow> rcv_buf_ok S k \<and> rcv_queue_ok S got k"

text \<open>Nothing that could be handed out waits in \<^verbatim>\<open>rcv_buf\<close>.\<close>

definition rcv_settled :: "IKCPCB \<Rightarrow> bool" where
  "rcv_settled k \<longleftrightarrow> nrcv_que k < rcv_wnd k \<longrightarrow> (\<forall>seg \<in> set (rcv_buf k). seg_sn seg \<noteq> rcv_nxt k)"

lemma rcv_part_cong:
  assumes "rcv_part k' = rcv_part k"
  shows "rcv_ok S got k' = rcv_ok S got k" "few S k' = few S k" "rcv_settled k' = rcv_settled k"
  using assms by (simp_all add: rcv_part_def rcv_ok_def rcv_buf_ok_def rcv_queue_ok_def few_def rcv_settled_def)

subsection \<open>Moving to the queue\<close>

lemma unat_Suc_u32: "unat a < 2 ^ 31 \<Longrightarrow> unat (a + 1 :: u32) = Suc (unat a)"
  using unat_add_u32 [of a 1] by simp

lemma move_one:
  assumes "rcv_ok S got k" "few S k" "rcv_buf k = seg # buf" "seg_sn seg = rcv_nxt k" "nrcv_que k < rcv_wnd k"
  shows "rcv_ok S got (k\<lparr>rcv_buf := buf, nrcv_buf := nrcv_buf k - 1, rcv_queue := rcv_queue k @ [seg],
    nrcv_que := nrcv_que k + 1, rcv_nxt := rcv_nxt k + 1\<rparr>)"
proof -
  have c: "carries S seg (unat (rcv_nxt k))" and q: "rcv_queue_ok S got k" and b: "rcv_buf_ok S k"
    using assms by (auto simp: rcv_ok_def rcv_buf_ok_def)
  have s: "unat (rcv_nxt k) < length S" using c by (simp add: carries_def)
  have n: "unat (rcv_nxt k + 1) = Suc (unat (rcv_nxt k))"
    using s assms(2) by (intro unat_Suc_u32) (simp add: few_def)
  have w: "unat (nrcv_que k) < unat (rcv_wnd k)" using assms(5) by (simp add: word_less_nat_alt)
  then have m: "unat (nrcv_que k + 1) = Suc (unat (nrcv_que k))"
    using assms(2) by (intro unat_Suc_u32) (simp add: few_def)
  show ?thesis
    using c q b s n m w assms(3,4)
    by (auto simp: rcv_ok_def rcv_queue_ok_def rcv_buf_ok_def carries_def take_Suc_conv_app_nth)
qed

lemma move_available_loop_ok:
  "rcv_ok S got k \<Longrightarrow> few S k \<Longrightarrow> rcv_buf k = buf \<Longrightarrow>
     rcv_ok S got (move_available_loop buf k) \<and> few S (move_available_loop buf k) \<and> rcv_settled (move_available_loop buf k)
     \<and> unat (rcv_nxt k) \<le> unat (rcv_nxt (move_available_loop buf k))"
proof (induction buf k rule: move_available_loop.induct)
  case (1 k)
  then show ?case by (simp add: rcv_settled_def)
next
  case (2 seg buf k)
  let ?k = "k\<lparr>rcv_buf := buf, nrcv_buf := nrcv_buf k - 1, rcv_queue := rcv_queue k @ [seg],
    nrcv_que := nrcv_que k + 1, rcv_nxt := rcv_nxt k + 1\<rparr>"
  show ?case
  proof (cases "seg_sn seg = rcv_nxt k \<and> nrcv_que k < rcv_wnd k")
    case True
    have o: "rcv_ok S got ?k" by (rule move_one [OF "2.prems"]) (use True in auto)
    have f: "few S ?k" using "2.prems"(2) by (simp add: few_def)
    have "unat (rcv_nxt k) < 2 ^ 31"
      using "2.prems"(1,2) by (auto simp: rcv_ok_def rcv_queue_ok_def few_def)
    then have "unat (rcv_nxt k) \<le> unat (rcv_nxt ?k)" by (simp add: unat_Suc_u32)
    with "2.IH" [OF True o f] True show ?thesis by simp
  next
    case False
    have "\<forall>s \<in> set buf. unat (seg_sn seg) < unat (seg_sn s)" "unat (rcv_nxt k) \<le> unat (seg_sn seg)"
      using "2.prems"(1,3) by (auto simp: rcv_ok_def rcv_buf_ok_def)
    then have "rcv_settled k" using False "2.prems"(3) by (fastforce simp: rcv_settled_def)
    then show ?thesis using False "2.prems" by auto
  qed
qed

lemma conv_move_available_loop [simp]: "kcp_conv (move_available_loop buf k) = kcp_conv k"
  by (induction buf k rule: move_available_loop.induct) simp_all

lemma move_available_ok:
  assumes "rcv_ok S got k" "few S k"
  shows "rcv_ok S got (move_available k)" "few S (move_available k)" "rcv_settled (move_available k)"
    "unat (rcv_nxt k) \<le> unat (rcv_nxt (move_available k))"
  using move_available_loop_ok [OF assms refl] by (simp_all add: move_available_def)

subsection \<open>A segment arrives\<close>

lemma insert_from_back_ok:
  assumes "sorted_wrt (>) (map (\<lambda>s. unat (seg_sn s)) segs)" "\<forall>s \<in> insert new (set segs). unat (seg_sn s) < 2 ^ 31"
  shows "case insert_from_back new segs of None \<Rightarrow> seg_sn new \<in> seg_sn ` set segs
    | Some segs' \<Rightarrow> set segs' = insert new (set segs) \<and> length segs' = Suc (length segs)
        \<and> sorted_wrt (>) (map (\<lambda>s. unat (seg_sn s)) segs')"
  using assms
proof (induction new segs rule: insert_from_back.induct)
  case (2 new seg segs)
  have d: "itimediff (seg_sn new) (seg_sn seg) = int (unat (seg_sn new)) - int (unat (seg_sn seg))"
    using "2.prems"(2) by (intro itimediff_unat) auto
  have e: "seg_sn seg = seg_sn new \<longleftrightarrow> unat (seg_sn seg) = unat (seg_sn new)" by (simp add: word_unat_eq_iff)
  consider "unat (seg_sn new) = unat (seg_sn seg)" | "unat (seg_sn new) > unat (seg_sn seg)"
    | "unat (seg_sn new) < unat (seg_sn seg)" by linarith
  then show ?case
  proof cases
    case 2
    then have "itimediff (seg_sn new) (seg_sn seg) > 0" using d by linarith
    with 2 "2.prems" e show ?thesis by (auto simp: image_iff)
  next
    case 3
    then have "\<not> itimediff (seg_sn new) (seg_sn seg) > 0" using d by linarith
    with 3 "2.IH" "2.prems" e show ?thesis by (auto split: option.splits)
  qed (auto simp: word_unat_eq_iff)
qed simp

lemma carries_less: "carries S seg i \<Longrightarrow> few S k \<Longrightarrow> i < 2 ^ 30 \<and> unat (seg_sn seg) = i"
  by (auto simp: carries_def few_def)

lemma parse_data_buf:
  assumes "rcv_buf_ok S k" "few S k" "carries S seg i" "unat (rcv_nxt k) \<le> i" "i < unat (rcv_nxt k) + unat (rcv_wnd k)"
  shows "rcv_buf_ok S (case insert_from_back seg (rev (rcv_buf k)) of None \<Rightarrow> k
      | Some segs \<Rightarrow> k\<lparr>rcv_buf := rev segs, nrcv_buf := nrcv_buf k + 1\<rparr>)"
proof -
  have i: "unat (seg_sn seg) = i" using assms(3) by (simp add: carries_def)
  have l: "\<forall>s \<in> insert seg (set (rev (rcv_buf k))). unat (seg_sn s) < 2 ^ 31"
    using assms(1-3) i by (force simp: rcv_buf_ok_def carries_def few_def)
  have "sorted_wrt (>) (map (\<lambda>s. unat (seg_sn s)) (rev (rcv_buf k)))"
    using assms(1) by (simp add: rcv_buf_ok_def rev_map [symmetric] sorted_wrt_rev)
  from insert_from_back_ok [OF this l] show ?thesis
    using assms i
    by (auto simp: rcv_buf_ok_def rev_map [symmetric] sorted_wrt_rev split: option.splits)
qed

lemma parse_data_ok:
  assumes "rcv_ok S got k" "few S k" "carries S seg i"
  shows "rcv_ok S got (ikcp_parse_data seg k)" "few S (ikcp_parse_data seg k)"
    "unat (rcv_nxt k) \<le> unat (rcv_nxt (ikcp_parse_data seg k))"
    "rcv_settled k \<Longrightarrow> rcv_settled (ikcp_parse_data seg k)"
proof -
  let ?k = "case insert_from_back seg (rev (rcv_buf k)) of None \<Rightarrow> k
      | Some segs \<Rightarrow> k\<lparr>rcv_buf := rev segs, nrcv_buf := nrcv_buf k + 1\<rparr>"
  have i: "unat (seg_sn seg) = i" "i < 2 ^ 30" using carries_less [OF assms(3,2)] by auto
  have n: "unat (rcv_nxt k) < 2 ^ 30" "unat (rcv_wnd k) < 2 ^ 30"
    using assms(1,2) by (auto simp: rcv_ok_def rcv_queue_ok_def few_def)
  then have nw: "unat (rcv_nxt k + rcv_wnd k) = unat (rcv_nxt k) + unat (rcv_wnd k)" by (intro unat_add_u32) simp
  have d: "itimediff (seg_sn seg) (rcv_nxt k + rcv_wnd k) = int i - int (unat (rcv_nxt k) + unat (rcv_wnd k))"
    "itimediff (seg_sn seg) (rcv_nxt k) = int i - int (unat (rcv_nxt k))"
    using i n nw by (simp_all add: itimediff_unat)
  have all: "rcv_ok S got (ikcp_parse_data seg k) \<and> few S (ikcp_parse_data seg k)
    \<and> unat (rcv_nxt k) \<le> unat (rcv_nxt (ikcp_parse_data seg k))
    \<and> (rcv_settled k \<longrightarrow> rcv_settled (ikcp_parse_data seg k))"
  proof (cases "unat (rcv_nxt k) \<le> i \<and> i < unat (rcv_nxt k) + unat (rcv_wnd k)")
    case True
    have "rcv_buf_ok S ?k"
      by (rule parse_data_buf [OF _ assms(2,3)]) (use assms(1) True in \<open>auto simp: rcv_ok_def\<close>)
    moreover have q: "rcv_queue_ok S got ?k" "few S ?k" "rcv_nxt ?k = rcv_nxt k"
      using assms(1,2) by (auto simp: rcv_ok_def rcv_queue_ok_def few_def split: option.split)
    ultimately have "rcv_ok S got ?k" by (simp add: rcv_ok_def)
    note m = move_available_ok [OF this q(2)]
    have "itimediff (seg_sn seg) (rcv_nxt k + rcv_wnd k) < 0" "0 \<le> itimediff (seg_sn seg) (rcv_nxt k)"
      using True d by linarith+
    then have "ikcp_parse_data seg k = move_available ?k" by (simp add: ikcp_parse_data_def)
    with m q(3) show ?thesis by simp
  next
    case False
    then have "0 \<le> itimediff (seg_sn seg) (rcv_nxt k + rcv_wnd k) \<or> itimediff (seg_sn seg) (rcv_nxt k) < 0"
      using d by linarith
    then have "ikcp_parse_data seg k = k" by (simp add: ikcp_parse_data_def)
    then show ?thesis using assms by simp
  qed
  then show "rcv_ok S got (ikcp_parse_data seg k)" "few S (ikcp_parse_data seg k)"
    "unat (rcv_nxt k) \<le> unat (rcv_nxt (ikcp_parse_data seg k))"
    "rcv_settled k \<Longrightarrow> rcv_settled (ikcp_parse_data seg k)" by auto
qed

subsection \<open>A message is handed out\<close>

text \<open>The chunks of a message: numbered down to 0, their bytes in order.\<close>

definition is_message :: "chunk list \<Rightarrow> u8 list \<Rightarrow> bool" where
  "is_message cs msg \<longleftrightarrow> cs \<noteq> [] \<and> length cs \<le> 255 \<and> map fst cs = map of_nat (rev [0..<length cs])
     \<and> concat (map snd cs) = msg \<and> length msg < 2 ^ 31"

lemma first_message_take:
  "map chunk_of q @ later = cs @ rest \<Longrightarrow> cs \<noteq> [] \<Longrightarrow> length cs \<le> length q \<Longrightarrow> length cs \<le> 255 \<Longrightarrow>
     map fst cs = map of_nat (rev [0..<length cs]) \<Longrightarrow> first_message q = take (length cs) q"
proof (induction q arbitrary: cs)
  case (Cons seg q)
  obtain c cs' where cs: "cs = c # cs'" using Cons.prems(2) by (cases cs) auto
  have c: "chunk_of seg = c" "map chunk_of q @ later = cs' @ rest" using Cons.prems(1) cs by auto
  have f: "seg_frg seg = of_nat (length cs')" using Cons.prems(5) c(1) by (auto simp: cs chunk_of_def)
  have m: "map fst cs' = map of_nat (rev [0..<length cs'])" using Cons.prems(5) by (simp add: cs)
  show ?case
  proof (cases "cs' = []")
    case True
    then show ?thesis using f cs by simp
  next
    case False
    have "unat (of_nat (length cs') :: u32) = length cs'" by (rule unat_of_nat_u32) (use Cons.prems(4) cs in simp)
    then have "seg_frg seg \<noteq> 0" using f False by (metis length_0_conv unat_0)
    with Cons.IH [OF c(2) False _ _ m] Cons.prems(3,4) cs show ?thesis by simp
  qed
qed simp

lemma merged_chunks:
  assumes "\<forall>seg \<in> set q. seg_wf seg"
  shows "merged_data q = concat (map snd (map chunk_of q))"
    and "length (concat (map snd (map chunk_of q))) < 2 ^ 31 \<Longrightarrow>
      merged_len q = int (length (concat (map snd (map chunk_of q))))"
proof -
  show "merged_data q = concat (map snd (map chunk_of q))"
    using assms by (induction q) (simp_all add: merged_data_def chunk_of_def seg_wf_def)
  have "sum_list (map seg_len q) = of_nat (length (concat (map snd (map chunk_of q))))"
    using assms
  proof (induction q)
    case (Cons seg q)
    then have "seg_len seg = of_nat (length (seg_data seg))" by (simp add: seg_wf_def eq_of_nat_unat)
    then show ?case using Cons by (simp add: chunk_of_def)
  qed simp
  then show "length (concat (map snd (map chunk_of q))) < 2 ^ 31 \<Longrightarrow>
      merged_len q = int (length (concat (map snd (map chunk_of q))))"
    using sint_of_int_u32 [of "int (length (concat (map snd (map chunk_of q))))"]
    by (simp add: merged_len_def)
qed

text \<open>A queue that starts with a message: whether it is complete, and what is handed out then.\<close>

lemma peeksize_message:
  assumes "map chunk_of (rcv_queue k) @ later = cs @ rest" "is_message cs msg" "rcv_queue_ok S got k" "few S k"
    "rcv_queue k \<noteq> []"
  shows "ikcp_peeksize k = (if length cs \<le> length (rcv_queue k) then int (length msg) else - 1)"
    and "length cs \<le> length (rcv_queue k) \<Longrightarrow> first_message (rcv_queue k) = take (length cs) (rcv_queue k)
      \<and> map chunk_of (take (length cs) (rcv_queue k)) = cs
      \<and> merged_data (take (length cs) (rcv_queue k)) = msg \<and> merged_len (take (length cs) (rcv_queue k)) = int (length msg)"
proof -
  have cs: "cs \<noteq> []" "length cs \<le> 255" "map fst cs = map of_nat (rev [0..<length cs])"
    "concat (map snd cs) = msg" "length msg < 2 ^ 31" using assms(2) by (auto simp: is_message_def)
  have wf: "\<forall>seg \<in> set (rcv_queue k). seg_wf seg" using assms(3) by (simp add: rcv_queue_ok_def)
  show g: "first_message (rcv_queue k) = take (length cs) (rcv_queue k)
      \<and> map chunk_of (take (length cs) (rcv_queue k)) = cs
      \<and> merged_data (take (length cs) (rcv_queue k)) = msg \<and> merged_len (take (length cs) (rcv_queue k)) = int (length msg)"
    if l: "length cs \<le> length (rcv_queue k)"
  proof -
    have "take (length cs) (map chunk_of (rcv_queue k) @ later) = cs" by (simp add: assms(1))
    then have c: "map chunk_of (take (length cs) (rcv_queue k)) = cs" using l by (simp add: take_map)
    have w: "\<forall>seg \<in> set (take (length cs) (rcv_queue k)). seg_wf seg" using wf by (auto dest: in_set_takeD)
    show ?thesis
      using first_message_take [OF assms(1) cs(1) l cs(2,3)] c merged_chunks [OF w] cs(4,5) by simp
  qed
  obtain seg q where q: "rcv_queue k = seg # q" using assms(5) by (cases "rcv_queue k") auto
  obtain c cs' where cc: "cs = c # cs'" using cs(1) by (cases cs) auto
  have f: "seg_frg seg = of_nat (length cs')" using cs(3) assms(1) by (auto simp: cc q chunk_of_def)
  have u: "unat (seg_frg seg) = length cs'" unfolding f by (rule unat_of_nat_u32) (use cs(2) cc in simp)
  have "unat (seg_frg seg + 1) = length cs" using u cs(2) cc by (subst unat_Suc_u32) simp_all
  then have n: "nrcv_que k < seg_frg seg + 1 \<longleftrightarrow> length (rcv_queue k) < length cs"
    using assms(3) by (simp add: word_less_nat_alt rcv_queue_ok_def)
  show "ikcp_peeksize k = (if length cs \<le> length (rcv_queue k) then int (length msg) else - 1)"
  proof (cases "seg_frg seg = 0")
    case True
    then have "cs' = []" using u by simp
    then have "msg = seg_data seg" using cs(4) assms(1) cc q by (auto simp: chunk_of_def)
    moreover have "seg_len seg = of_nat (length (seg_data seg))"
      using wf q by (simp add: seg_wf_def eq_of_nat_unat)
    ultimately have "sint (seg_len seg) = int (length msg)"
      using sint_of_int_u32 [of "int (length msg)"] cs(5) by simp
    then show ?thesis using True q cc \<open>cs' = []\<close> by (simp add: ikcp_peeksize_def)
  next
    case False
    then have p: "ikcp_peeksize k = (if nrcv_que k < seg_frg seg + 1 then - 1 else merged_len (first_message (rcv_queue k)))"
      by (simp add: ikcp_peeksize_def q)
    show ?thesis using g by (auto simp: p n not_less)
  qed
qed

lemma take_message_ok:
  assumes "rcv_ok S got k" "few S k" "n \<le> length (rcv_queue k)" "length segs = n"
  shows "rcv_ok S (got @ map chunk_of (take n (rcv_queue k))) (take_message False segs k)"
    "few S (take_message False segs k)"
proof -
  have w: "unat (nrcv_que k) = length (rcv_queue k)" using assms(1) by (simp add: rcv_ok_def rcv_queue_ok_def)
  have "n < 4294967296" using assms(3) w unat_u32_less [of "nrcv_que k"] by linarith
  then have "unat (of_nat n :: u32) = n" by (rule unat_of_nat_u32)
  then have "unat (nrcv_que k - of_nat n) = length (rcv_queue k) - n" using w assms(3) by (simp add: unat_sub_if')
  moreover have "map chunk_of (take n (rcv_queue k)) @ map chunk_of (drop n (rcv_queue k)) = map chunk_of (rcv_queue k)"
    by (simp flip: map_append)
  ultimately show "rcv_ok S (got @ map chunk_of (take n (rcv_queue k))) (take_message False segs k)"
    using assms by (auto simp: rcv_ok_def rcv_queue_ok_def rcv_buf_ok_def take_message_def dest: in_set_dropD)
  show "few S (take_message False segs k)" using assms(2) by (simp add: few_def take_message_def)
qed

lemma take_message_peek [simp]: "take_message True segs k = k"
  by (simp add: take_message_def)

lemma probe_rcv_part [simp]: "rcv_part (k\<lparr>probe := p\<rparr>) = rcv_part k"
  by (simp add: rcv_part_def)

text \<open>
  \<^verbatim>\<open>ikcp_recv\<close> on a queue that continues a list of messages: it hands out the next message, whole,
  or nothing.
\<close>

lemma recv_ok:
  assumes "rcv_ok S (concat (take r Ms)) k" "few S k" "S = concat Ms" "r < length Ms"
    "is_message (Ms ! r) msg" "ikcp_recv len k = ((n, bytes), k')" "rcv_settled k"
  shows "few S k' \<and> rcv_settled k' \<and> kcp_conv k' = kcp_conv k \<and> (if 0 \<le> n \<and> 0 \<le> len
      then bytes = msg \<and> n = int (length msg) \<and> rcv_ok S (concat (take (Suc r) Ms)) k'
      else (0 \<le> n \<longrightarrow> bytes = msg) \<and> rcv_ok S (concat (take r Ms)) k')"
proof (cases "rcv_queue k = []")
  case True
  then show ?thesis using assms(1,2,6,7) by (auto simp: ikcp_recv_def)
next
  case False
  have q: "rcv_queue_ok S (concat (take r Ms)) k" using assms(1) by (simp add: rcv_ok_def)
  have "(concat (take r Ms) @ map chunk_of (rcv_queue k)) @ drop (unat (rcv_nxt k)) S = S"
    using q by (simp only: rcv_queue_ok_def append_take_drop_id)
  also have "S = concat (take r Ms @ Ms ! r # drop (Suc r) Ms)"
    using assms(3,4) by (simp add: id_take_nth_drop [symmetric])
  finally have m: "map chunk_of (rcv_queue k) @ drop (unat (rcv_nxt k)) S = Ms ! r @ concat (drop (Suc r) Ms)" by simp
  note p = peeksize_message [OF m assms(5) q assms(2) False]
  show ?thesis
  proof (cases "length (Ms ! r) \<le> length (rcv_queue k) \<and> int (length msg) \<le> \<bar>len\<bar>")
    case True
    note t = p(2) [OF conjunct1 [OF True]]
    let ?segs = "take (length (Ms ! r)) (rcv_queue k)"
    let ?k1 = "take_message (len < 0) ?segs k"
    let ?k2 = "move_available ?k1"
    have k': "n = int (length msg)" "bytes = msg" "rcv_part k' = rcv_part ?k2"
      using assms(6) True False p(1) t by (auto simp: ikcp_recv_def Let_def split: if_splits)
    have l: "length ?segs = length (Ms ! r)" using True by simp
    have got: "concat (take (Suc r) Ms) = concat (take r Ms) @ map chunk_of ?segs"
      using t assms(4) by (simp add: take_Suc_conv_app_nth)
    have k1: "rcv_ok S (concat (take (if len < 0 then r else Suc r) Ms)) ?k1 \<and> few S ?k1"
      using take_message_ok [OF assms(1,2) conjunct1 [OF True] l] assms(1,2) by (cases "len < 0") (simp_all add: got)
    note m = move_available_ok [OF conjunct1 [OF k1] conjunct2 [OF k1]]
    have "kcp_conv k' = kcp_conv ?k2"
      using assms(6) True False p(1) t by (auto simp: ikcp_recv_def Let_def split: if_splits)
    then have "kcp_conv k' = kcp_conv k" by (simp add: move_available_def take_message_def)
    then show ?thesis using m(1-3) k' by (simp add: rcv_part_cong [OF k'(3)] split: if_splits)
  next
    case False': False
    then have "n < 0" "k' = k" using assms(6) False p(1) by (auto simp: ikcp_recv_def Let_def split: if_splits)
    then show ?thesis using assms(1,2,7) by simp
  qed
qed

end
