(* ===== verification/IkcpWire.thy ===== *)
theory IkcpWire
  imports IkcpRecv
begin

text \<open>
  KCP datagrams: \<^verbatim>\<open>ikcp_input\<close> takes a datagram apart into the very segments it was put
  together from, and what a datagram of a sender's segments does to the receiving side.
\<close>

subsection \<open>A header reads back\<close>

lemma decode32u_encode [simp]: "decode32u (encode32u l @ p) = (l, p)"
  using join32_bytes [of l] by (simp add: decode32u_def encode32u_def numeral_2_eq_2 numeral_3_eq_3 del: join32_bytes)

lemma decode16u_encode [simp]: "decode16u (encode16u w @ p) = (w, p)"
  by (simp add: decode16u_def encode16u_def join16_bytes)

lemma decode8u_encode [simp]: "decode8u (encode8u c @ p) = (c, p)"
  by (simp add: decode8u_def encode8u_def)

lemma length_encode [simp]:
  "length (encode32u l) = 4" "length (encode16u w) = 2" "length (encode8u c) = 1" "length (encode_seg seg) = 24"
  by (simp_all add: encode_seg_def encode32u_def encode16u_def encode8u_def)

text \<open>What the receiver sees of a segment before it takes the data.\<close>

definition received_header :: "IKCPSEG \<Rightarrow> IKCPSEG" where
  "received_header seg = (segment_new [])\<lparr>seg_conv := seg_conv seg, seg_cmd := seg_cmd seg, seg_frg := seg_frg seg,
     seg_wnd := ucast (ucast (seg_wnd seg) :: u16), seg_ts := seg_ts seg, seg_sn := seg_sn seg, seg_una := seg_una seg,
     seg_len := seg_len seg\<rparr>"

lemma received_header_simps [simp]:
  "seg_conv (received_header seg) = seg_conv seg" "seg_cmd (received_header seg) = seg_cmd seg"
  "seg_frg (received_header seg) = seg_frg seg" "seg_sn (received_header seg) = seg_sn seg"
  "seg_ts (received_header seg) = seg_ts seg" "seg_una (received_header seg) = seg_una seg"
  "seg_len (received_header seg) = seg_len seg"
  by (simp_all add: received_header_def)

lemma byte_ucast_u32: "unat (w :: u32) < 256 \<Longrightarrow> ucast (ucast w :: u8) = w"
  by (simp add: word_unat_eq_iff unat_ucast_mod)

lemma decode_encode_seg:
  "unat (seg_cmd seg) < 256 \<Longrightarrow> unat (seg_frg seg) < 256 \<Longrightarrow>
     decode_header (encode_seg seg @ p) = (received_header seg, p)"
  by (simp add: decode_header_def encode_seg_def received_header_def byte_ucast_u32)

subsection \<open>A datagram is taken apart\<close>

definition wire_wf :: "u32 \<Rightarrow> IKCPSEG \<Rightarrow> bool" where
  "wire_wf conv seg \<longleftrightarrow> seg_conv seg = conv \<and> known_cmd (seg_cmd seg) \<and> unat (seg_frg seg) < 256 \<and> seg_wf seg"

lemma known_cmd_byte: "known_cmd cmd \<Longrightarrow> unat cmd < 256"
  by (auto simp: known_cmd_def ikcp_consts)

lemma segment_bytes_wf: "seg_wf seg \<Longrightarrow> segment_bytes seg = encode_seg seg @ seg_data seg"
  by (simp add: segment_bytes_def seg_wf_def)

lemma input_segment_data:
  "unat (seg_len h) = length bytes \<Longrightarrow> input_segment h (bytes @ p) k = input_segment h bytes k"
  by (simp add: input_segment_def input_push_def Let_def)

lemma conv_simps [simp]:
  "kcp_conv (ikcp_shrink_buf k) = kcp_conv k" "kcp_conv (ikcp_parse_una una k) = kcp_conv k"
  "kcp_conv (ikcp_parse_ack sn k) = kcp_conv k" "kcp_conv (ikcp_update_ack rtt k) = kcp_conv k"
  "kcp_conv (ikcp_ack_push sn ts k) = kcp_conv k"
  by (simp_all add: ikcp_shrink_buf_def ikcp_parse_una_def ikcp_parse_ack_def ikcp_update_ack_def
      ikcp_ack_push_def Let_def split: list.split prod.split)

lemma conv_input_segment [simp]: "kcp_conv (input_segment h bytes k) = kcp_conv k"
  by (simp add: input_segment_def input_ack_def input_push_def ikcp_parse_data_def move_available_def Let_def
      split: option.split)

definition input_all :: "IKCPSEG list \<Rightarrow> u32 option \<Rightarrow> IKCPCB \<Rightarrow> u32 option \<times> IKCPCB" where
  "input_all segs maxack k = fold (\<lambda>seg (maxack, k). (newer_ack maxack (received_header seg),
     input_segment (received_header seg) (seg_data seg) k)) segs (maxack, k)"

lemma input_loop_segments:
  assumes "\<forall>seg \<in> set segs. wire_wf (kcp_conv k) seg"
  shows "input_loop (concat (map segment_bytes segs)) maxack k = (0, input_all segs maxack k)"
  using assms
proof (induction segs arbitrary: maxack k)
  case Nil
  then show ?case by (subst input_loop.simps) (simp add: input_all_def)
next
  case (Cons seg segs)
  let ?rest = "concat (map segment_bytes segs)"
  have w: "seg_conv seg = kcp_conv k" "known_cmd (seg_cmd seg)" "unat (seg_frg seg) < 256" "seg_wf seg"
    using Cons.prems by (simp_all add: wire_wf_def)
  have l: "unat (seg_len seg) = length (seg_data seg)" using w(4) by (simp add: seg_wf_def)
  note d = decode_encode_seg [OF known_cmd_byte [OF w(2)] w(3)]
  have "input_loop (segment_bytes seg @ ?rest) maxack k =
      input_loop ?rest (newer_ack maxack (received_header seg)) (input_segment (received_header seg) (seg_data seg @ ?rest) k)"
    by (subst input_loop.simps) (simp add: d w l segment_bytes_wf)
  also have "\<dots> = (0, input_all segs (newer_ack maxack (received_header seg)) (input_segment (received_header seg) (seg_data seg) k))"
    using Cons by (simp add: input_segment_data l)
  finally show ?case by (simp add: input_all_def)
qed

subsection \<open>The receiving side of the operations\<close>

lemma rcv_part_simps [simp]:
  "rcv_part (ikcp_shrink_buf k) = rcv_part k" "rcv_part (ikcp_parse_una una k) = rcv_part k"
  "rcv_part (ikcp_parse_ack sn k) = rcv_part k" "rcv_part (ikcp_update_ack rtt k) = rcv_part k"
  "rcv_part (ikcp_ack_push sn ts k) = rcv_part k" "rcv_part (ikcp_parse_fastack sn k) = rcv_part k"
  "rcv_part (grow_cwnd k) = rcv_part k" "rcv_part (k\<lparr>rmt_wnd := wnd\<rparr>) = rcv_part k"
  by (simp_all add: rcv_part_def ikcp_shrink_buf_def ikcp_parse_una_def ikcp_parse_ack_def ikcp_update_ack_def
      ikcp_ack_push_def ikcp_parse_fastack_def grow_cwnd_def Let_def split: list.split prod.split)

lemma rcv_part_fragment_loop [simp]: "rcv_part (fragment_loop n buffer len k) = rcv_part k"
  by (induction n buffer len k rule: fragment_loop.induct) (simp_all add: rcv_part_def Let_def)

lemma rcv_part_send: "rcv_part (snd (ikcp_send buffer len k)) = rcv_part k"
  by (auto simp: ikcp_send_def stream_extend_def Let_def rcv_part_def [of "_\<lparr>snd_queue := _\<rparr>"] rcv_part_def [of k])

lemma rcv_part_move_to_send_loop [simp]: "rcv_part (move_to_send_loop segs cwnd wnd k) = rcv_part k"
  by (induction segs cwnd wnd k rule: move_to_send_loop.induct) (simp_all add: rcv_part_def Let_def)

lemma rcv_part_flush_cwnd: "rcv_part (flush_cwnd cwnd resent lost change k) = rcv_part k"
  by (simp add: flush_cwnd_def rcv_part_def Let_def)

subsection \<open>Datagrams of a sender\<close>

definition wire_ok :: "chunk list \<Rightarrow> u32 \<Rightarrow> IKCPSEG \<Rightarrow> bool" where
  "wire_ok S conv seg \<longleftrightarrow> wire_wf conv seg \<and> (seg_cmd seg = IKCP_CMD_PUSH \<longrightarrow> carries S seg (unat (seg_sn seg)))"

definition datagram :: "chunk list \<Rightarrow> u32 \<Rightarrow> u8 list \<Rightarrow> bool" where
  "datagram S conv d \<longleftrightarrow> (\<exists>segs. d = concat (map segment_bytes segs) \<and> (\<forall>seg \<in> set segs. wire_ok S conv seg))"

definition rcv_good :: "chunk list \<Rightarrow> chunk list \<Rightarrow> IKCPCB \<Rightarrow> bool" where
  "rcv_good S got k \<longleftrightarrow> rcv_ok S got k \<and> few S k \<and> rcv_settled k"

lemma rcv_good_cong: "rcv_part k' = rcv_part k \<Longrightarrow> rcv_good S got k' = rcv_good S got k"
  unfolding rcv_good_def by (simp only: rcv_part_cong [of k' k])

lemma rcv_part_nxt: "rcv_part k' = rcv_part k \<Longrightarrow> rcv_nxt k' = rcv_nxt k"
  by (simp add: rcv_part_def)

lemma input_push_good:
  assumes "rcv_good S got k" "carries S (h\<lparr>seg_data := bytes\<rparr>) i" "unat (seg_len h) = length bytes"
  shows "rcv_good S got (input_push h bytes k) \<and> unat (rcv_nxt k) \<le> unat (rcv_nxt (input_push h bytes k))"
proof -
  let ?k = "ikcp_ack_push (seg_sn h) (seg_ts h) k"
  have g: "rcv_good S got ?k" "rcv_nxt ?k = rcv_nxt k"
    using assms(1) rcv_good_cong [OF rcv_part_simps(5)] rcv_part_nxt [OF rcv_part_simps(5)] by simp_all
  then have "rcv_good S got (ikcp_parse_data (h\<lparr>seg_data := bytes\<rparr>) ?k)
    \<and> unat (rcv_nxt k) \<le> unat (rcv_nxt (ikcp_parse_data (h\<lparr>seg_data := bytes\<rparr>) ?k))"
    using parse_data_ok [of S got ?k "h\<lparr>seg_data := bytes\<rparr>" i] assms(2) by (simp add: rcv_good_def)
  with g assms(1,3) show ?thesis by (simp add: input_push_def Let_def)
qed

lemma input_segment_good:
  assumes "rcv_good S got k" "wire_ok S conv seg"
  shows "rcv_good S got (input_segment (received_header seg) (seg_data seg) k)
    \<and> unat (rcv_nxt k) \<le> unat (rcv_nxt (input_segment (received_header seg) (seg_data seg) k))"
proof -
  let ?h = "received_header seg"
  let ?k = "ikcp_shrink_buf (ikcp_parse_una (seg_una ?h) (k\<lparr>rmt_wnd := seg_wnd ?h\<rparr>))"
  have p: "rcv_part ?k = rcv_part k" by simp
  then have g: "rcv_good S got ?k" "rcv_nxt ?k = rcv_nxt k"
    using assms(1) rcv_good_cong [OF p] rcv_part_nxt [OF p] by simp_all
  show ?thesis
  proof (cases "seg_cmd seg = IKCP_CMD_PUSH")
    case True
    then have "carries S (?h\<lparr>seg_data := seg_data seg\<rparr>) (unat (seg_sn seg))" "unat (seg_len ?h) = length (seg_data seg)"
      using assms(2) by (auto simp: wire_ok_def carries_def chunk_of_def seg_wf_def)
    from input_push_good [OF g(1) this] show ?thesis
      using True g(2) by (simp add: input_segment_def Let_def ikcp_consts)
  next
    case False
    have a: "rcv_part (input_segment ?h (seg_data seg) k) = rcv_part k"
      using p False by (simp add: input_segment_def input_ack_def Let_def)
    then show ?thesis using assms(1) rcv_good_cong [OF a] rcv_part_nxt [OF a] by simp
  qed
qed

lemma input_all_good:
  assumes "rcv_good S got k" "\<forall>seg \<in> set segs. wire_ok S conv seg"
  shows "rcv_good S got (snd (input_all segs maxack k))"
  using assms
proof (induction segs arbitrary: maxack k)
  case (Cons seg segs)
  then show ?case using input_segment_good [of S got k conv seg] by (simp add: input_all_def)
qed (simp add: input_all_def)

text \<open>Whatever datagram of the sender arrives, and whenever, the receiving side stays good.\<close>

lemma input_good:
  assumes "rcv_good S got k" "datagram S (kcp_conv k) d"
  shows "rcv_good S got (snd (ikcp_input d k))"
proof (cases "length d < 24")
  case True
  then show ?thesis using assms(1) by (simp add: ikcp_input_def)
next
  case False
  obtain segs where d: "d = concat (map segment_bytes segs)" "\<forall>seg \<in> set segs. wire_ok S (kcp_conv k) seg"
    using assms(2) by (auto simp: datagram_def)
  obtain m k1 where l: "input_loop d None k = (0, m, k1)" "rcv_good S got k1"
  proof -
    have "input_loop d None k = (0, input_all segs None k)"
      unfolding d(1) by (rule input_loop_segments) (use d(2) in \<open>simp add: wire_ok_def\<close>)
    with input_all_good [OF assms(1) d(2), of None] that show thesis by (cases "input_all segs None k") auto
  qed
  have p: "rcv_part (snd (ikcp_input d k)) = rcv_part k1"
    using False by (simp add: ikcp_input_def l Let_def split: option.split)
  then show ?thesis using l(2) rcv_good_cong [OF p] by simp
qed

end
