(* ===== verification/IkcpSend.thy ===== *)
theory IkcpSend
  imports IkcpWire
begin

text \<open>
  The sending side of KCP: how a message is cut, and that whatever acknowledgements come, every
  datagram that is put out consists of segments that carry the right chunks, and fits the MTU.
\<close>

subsection \<open>Cutting a message\<close>

fun cut :: "nat \<Rightarrow> nat \<Rightarrow> u8 list \<Rightarrow> chunk list" where
  "cut mss 0 b = []"
| "cut mss (Suc n) b = (of_nat n, take mss b) # cut mss n (drop mss b)"

lemma length_cut [simp]: "length (cut mss n b) = n"
  by (induction n arbitrary: b) simp_all

lemma cut_numbers: "map fst (cut mss n b) = map of_nat (rev [0..<n])"
  by (induction n arbitrary: b) simp_all

lemma cut_bytes: "concat (map snd (cut mss n b)) = take (n * mss) b"
  by (induction n arbitrary: b) (simp_all add: take_add)

lemma cut_message:
  assumes "0 < n" "n \<le> 255" "length b \<le> n * mss" "length b < 2 ^ 31"
  shows "is_message (cut mss n b) b"
proof -
  have "cut mss n b \<noteq> []" using assms(1) by (cases n) simp_all
  then show ?thesis using assms by (simp add: is_message_def cut_numbers cut_bytes)
qed

lemma sint_unat:
  assumes "unat (w :: u32) < 2 ^ 31"
  shows "sint w = int (unat w)"
proof -
  have "sint (word_of_int (int (unat w)) :: u32) = int (unat w)"
    using assms by (intro sint_of_int_u32) (simp_all del: of_nat_unat)
  then show ?thesis by simp
qed

definition snd_part :: "IKCPCB \<Rightarrow> u32 \<times> IKCPSEG list \<times> u32 \<times> int \<times> u32 \<times> u32" where
  "snd_part k = (snd_nxt k, snd_queue k, kcp_conv k, stream k, kcp_mss k, kcp_mtu k)"

lemma fragment_loop_cut:
  assumes "stream k = 0" "unat (kcp_mss k) < 2 ^ 31"
  shows "\<exists>segs. snd_part (fragment_loop n b (int (length b)) k) =
        (snd_nxt k, snd_queue k @ segs, kcp_conv k, stream k, kcp_mss k, kcp_mtu k)
      \<and> snd_buf (fragment_loop n b (int (length b)) k) = snd_buf k
      \<and> map chunk_of segs = cut (unat (kcp_mss k)) n b
      \<and> (\<forall>seg \<in> set segs. seg_wf seg \<and> length (seg_data seg) \<le> unat (kcp_mss k))"
  using assms
proof (induction n arbitrary: b k)
  case 0
  then show ?case by (simp add: snd_part_def)
next
  case (Suc n)
  let ?m = "unat (kcp_mss k)"
  let ?size = "min ?m (length b)"
  let ?seg = "(segment_new (take ?m b))\<lparr>seg_len := of_nat ?size, seg_frg := of_nat n\<rparr>"
  let ?k = "k\<lparr>snd_queue := snd_queue k @ [?seg], nsnd_que := nsnd_que k + 1\<rparr>"
  have m: "sint (kcp_mss k) = int ?m" using Suc.prems(2) by (rule sint_unat)
  have s: "(if int (length b) > int ?m then int ?m else int (length b)) = int ?size"
    by (auto simp: min_def simp del: of_nat_unat)
  have t: "take ?size b = take ?m b" "drop ?size b = drop ?m b" by (simp_all add: min_def)
  have f: "fragment_loop (Suc n) b (int (length b)) k = fragment_loop n (drop ?m b) (int (length (drop ?m b))) ?k"
    using Suc.prems(1) by (simp only: fragment_loop.simps Let_def m s nat_int t) (simp add: min_def)
  have "unat (of_nat ?size :: u32) = ?size" by (rule unat_of_nat_u32) (use Suc.prems(2) in simp)
  then have w: "seg_wf ?seg" "length (seg_data ?seg) \<le> ?m" "chunk_of ?seg = (of_nat n, take ?m b)"
    by (simp_all add: seg_wf_def segment_new_def chunk_of_def min.commute)
  obtain segs where segs: "snd_part (fragment_loop n (drop ?m b) (int (length (drop ?m b))) ?k) =
        (snd_nxt k, snd_queue k @ ?seg # segs, kcp_conv k, stream k, kcp_mss k, kcp_mtu k)"
      "snd_buf (fragment_loop n (drop ?m b) (int (length (drop ?m b))) ?k) = snd_buf k"
      "map chunk_of segs = cut ?m n (drop ?m b)"
      "\<forall>seg \<in> set segs. seg_wf seg \<and> length (seg_data seg) \<le> ?m"
    using Suc.IH [of ?k "drop ?m b"] Suc.prems by auto
  show ?case
    unfolding f by (rule exI [of _ "?seg # segs"]) (use segs w in simp)
qed

text \<open>The number of chunks is what the message needs.\<close>

lemma fragment_count_enough:
  assumes "0 < unat mss" "unat mss < 2 ^ 31" "n < 2 ^ 31"
  shows "0 < fragment_count mss (int n)" "int n \<le> fragment_count mss (int n) * int (unat mss)"
    "fragment_count mss (int n) \<le> int (n div unat mss + 1)"
proof -
  let ?m = "unat mss"
  have m: "sint mss = int ?m" using assms(2) by (rule sint_unat)
  have u: "unat (of_nat n + mss - 1 :: u32) = n + ?m - 1"
  proof -
    have "unat (of_nat n + mss :: u32) = n + ?m" using assms by (subst unat_add_u32) (simp_all add: unat_of_nat_u32)
    moreover from this have "of_nat n + mss \<noteq> 0" using assms(1) by (metis add_is_0 neq0_conv unat_0)
    ultimately show ?thesis using unat_minus_one [of "of_nat n + mss"] by simp
  qed
  have d: "(n + ?m - 1) div ?m \<le> n + ?m - 1" by (rule div_le_dividend)
  have le: "(n + ?m - 1) div ?m < 2 ^ 31"
  proof (cases "n = 0")
    case False
    have "n \<le> n * ?m" using assms(1) by simp
    then have "n + ?m - 1 < Suc n * ?m" using assms(1) by (simp only: mult_Suc)
    then have "(n + ?m - 1) div ?m < Suc n" by (rule less_mult_imp_div_less)
    then show ?thesis using assms(3) by simp
  next
    case True
    show ?thesis by (rule le_less_trans [OF d]) (use True assms(2) in simp)
  qed
  have c: "fragment_count mss (int n) = (if n \<le> ?m then 1 else int ((n + ?m - 1) div ?m))"
  proof -
    have "sint ((of_nat n + mss - 1) div mss) = int ((n + ?m - 1) div ?m)"
      using le by (subst sint_unat) (simp_all only: unat_div_distrib u)
    then show ?thesis by (simp add: fragment_count_def m del: of_nat_unat)
  qed
  have "n \<le> (n + ?m - 1) div ?m * ?m"
    using dividend_less_div_times [OF assms(1), of "n + ?m - 1"] by linarith
  then show "int n \<le> fragment_count mss (int n) * int ?m"
    unfolding c by (cases "n \<le> ?m") (simp_all only: if_True if_False mult_1 of_nat_mult [symmetric] of_nat_le_iff)
  have "(n + ?m - 1) div ?m \<le> (n + ?m) div ?m" by (rule div_le_mono) simp
  moreover have "(n + ?m) div ?m = n div ?m + 1" using assms(1) by (intro div_add_self2) simp
  ultimately have "(n + ?m - 1) div ?m \<le> n div ?m + 1" by linarith
  then show "fragment_count mss (int n) \<le> int (n div ?m + 1)"
    unfolding c by (cases "n \<le> ?m") simp_all
  show "0 < fragment_count mss (int n)" using assms(1) by (auto simp: c div_greater_zero_iff)
qed

subsection \<open>The invariant of the sending side\<close>

definition seg_id :: "IKCPSEG \<Rightarrow> u32 \<times> u32 \<times> u32 \<times> u32 \<times> u32 \<times> u8 list" where
  "seg_id seg = (seg_conv seg, seg_cmd seg, seg_frg seg, seg_sn seg, seg_len seg, seg_data seg)"

definition push_ok :: "chunk list \<Rightarrow> u32 \<Rightarrow> u32 \<Rightarrow> IKCPSEG \<Rightarrow> bool" where
  "push_ok S conv mss seg \<longleftrightarrow> wire_ok S conv seg \<and> seg_cmd seg = IKCP_CMD_PUSH \<and> length (seg_data seg) \<le> unat mss"

definition snd_ok :: "chunk list \<Rightarrow> IKCPCB \<Rightarrow> bool" where
  "snd_ok S k \<longleftrightarrow> length S < 2 ^ 30 \<and> unat (snd_nxt k) \<le> length S
     \<and> map chunk_of (snd_queue k) = drop (unat (snd_nxt k)) S
     \<and> (\<forall>seg \<in> set (snd_queue k). seg_wf seg \<and> unat (seg_frg seg) < 256 \<and> length (seg_data seg) \<le> unat (kcp_mss k))
     \<and> (\<forall>seg \<in> set (snd_buf k). push_ok S (kcp_conv k) (kcp_mss k) seg)
     \<and> stream k = 0 \<and> 0 < unat (kcp_mss k) \<and> unat (kcp_mtu k) = unat (kcp_mss k) + 24 \<and> unat (kcp_mtu k) < 2 ^ 31"

lemma push_ok_id: "seg_id seg' = seg_id seg \<Longrightarrow> push_ok S conv mss seg' = push_ok S conv mss seg"
  by (simp add: seg_id_def push_ok_def wire_ok_def wire_wf_def carries_def chunk_of_def seg_wf_def)

text \<open>
  An operation that only takes segments away from \<^verbatim>\<open>snd_buf\<close>, or changes when and how often they
  are sent.
\<close>

definition snd_shrinks :: "IKCPCB \<Rightarrow> IKCPCB \<Rightarrow> bool" where
  "snd_shrinks k k' \<longleftrightarrow> snd_part k' = snd_part k \<and> seg_id ` set (snd_buf k') \<subseteq> seg_id ` set (snd_buf k)"

lemma snd_shrinks_refl [simp]: "snd_shrinks k k"
  by (simp add: snd_shrinks_def)

lemma snd_shrinks_trans [trans]: "snd_shrinks k k1 \<Longrightarrow> snd_shrinks k1 k2 \<Longrightarrow> snd_shrinks k k2"
  unfolding snd_shrinks_def by (elim conjE, intro conjI, erule (1) trans, erule (1) subset_trans)

lemma snd_shrinks_ok:
  assumes "snd_shrinks k k'" "snd_ok S k"
  shows "snd_ok S k'"
proof -
  have p: "snd_nxt k' = snd_nxt k" "snd_queue k' = snd_queue k" "kcp_conv k' = kcp_conv k" "stream k' = stream k"
    "kcp_mss k' = kcp_mss k" "kcp_mtu k' = kcp_mtu k"
    using assms(1) by (simp_all add: snd_shrinks_def snd_part_def)
  have "push_ok S (kcp_conv k) (kcp_mss k) seg" if "seg \<in> set (snd_buf k')" for seg
  proof -
    have "seg_id seg \<in> seg_id ` set (snd_buf k)"
      by (rule subsetD [OF _ imageI [OF that]]) (use assms(1) in \<open>simp add: snd_shrinks_def\<close>)
    then obtain seg0 where "seg_id seg = seg_id seg0" "seg0 \<in> set (snd_buf k)" by (rule imageE)
    with push_ok_id [of seg seg0] assms(2) show ?thesis by (simp add: snd_ok_def)
  qed
  then show ?thesis using assms(2) by (simp add: snd_ok_def p)
qed

lemma snd_shrinksI:
  "snd_part k' = snd_part k \<Longrightarrow> snd_buf k' = snd_buf k \<Longrightarrow> snd_shrinks k k'"
  by (simp add: snd_shrinks_def)

lemma set_remove_acked: "remove_acked sn segs = (found, segs') \<Longrightarrow> set segs' \<subseteq> set segs"
  by (induction sn segs arbitrary: found segs' rule: remove_acked.induct) (auto split: if_splits prod.splits)

lemma set_remove_una: "remove_una una segs n = (segs', n') \<Longrightarrow> set segs' \<subseteq> set segs"
  by (induction una segs n rule: remove_una.induct) (auto split: if_splits)

lemma seg_id_count_fastack: "map seg_id (count_fastack sn segs) = map seg_id segs"
  by (induction sn segs rule: count_fastack.induct) (simp_all add: seg_id_def)

lemma seg_id_image: "map seg_id segs' = map seg_id segs \<Longrightarrow> seg_id ` set segs' = seg_id ` set segs"
  by (metis list.set_map)

lemma shrinks_parse [simp]:
  "snd_shrinks k (ikcp_parse_una una k)" "snd_shrinks k (ikcp_parse_ack sn k)" "snd_shrinks k (ikcp_parse_fastack sn k)"
proof -
  obtain segs n where u: "remove_una una (snd_buf k) (nsnd_buf k) = (segs, n)" by fastforce
  from image_mono [OF set_remove_una [OF u], of seg_id] show "snd_shrinks k (ikcp_parse_una una k)"
    by (simp add: snd_shrinks_def snd_part_def ikcp_parse_una_def u)
  obtain found segs' where a: "remove_acked sn (snd_buf k) = (found, segs')" by fastforce
  from image_mono [OF set_remove_acked [OF a], of seg_id] show "snd_shrinks k (ikcp_parse_ack sn k)"
    by (simp add: snd_shrinks_def snd_part_def ikcp_parse_ack_def a)
  show "snd_shrinks k (ikcp_parse_fastack sn k)"
    by (simp add: snd_shrinks_def snd_part_def ikcp_parse_fastack_def seg_id_image [OF seg_id_count_fastack])
qed

lemma shrinks_same [simp]:
  "snd_shrinks k (ikcp_shrink_buf k)" "snd_shrinks k (ikcp_update_ack rtt k)" "snd_shrinks k (ikcp_ack_push sn ts k)"
  "snd_shrinks k (grow_cwnd k)" "snd_shrinks k (k\<lparr>rmt_wnd := wnd\<rparr>)" "snd_shrinks k (k\<lparr>probe := p\<rparr>)"
  by (simp_all add: snd_shrinks_def snd_part_def ikcp_shrink_buf_def ikcp_update_ack_def ikcp_ack_push_def
      grow_cwnd_def Let_def split: list.split)

lemma shrinks_move_available [simp]: "snd_shrinks k (move_available_loop buf k)"
proof (induction buf k rule: move_available_loop.induct)
  case (2 seg buf k)
  have "snd_shrinks k (k\<lparr>rcv_buf := buf, nrcv_buf := nrcv_buf k - 1, rcv_queue := rcv_queue k @ [seg],
    nrcv_que := nrcv_que k + 1, rcv_nxt := rcv_nxt k + 1\<rparr>)" by (simp add: snd_shrinks_def snd_part_def)
  with 2 show ?case by (auto dest: snd_shrinks_trans)
qed simp

lemma shrinks_parse_data [simp]: "snd_shrinks k (ikcp_parse_data seg k)"
proof -
  let ?k = "case insert_from_back seg (rev (rcv_buf k)) of None \<Rightarrow> k
      | Some segs \<Rightarrow> k\<lparr>rcv_buf := rev segs, nrcv_buf := nrcv_buf k + 1\<rparr>"
  have "snd_shrinks k ?k" by (simp add: snd_shrinks_def snd_part_def split: option.split)
  then have "snd_shrinks k (move_available ?k)" unfolding move_available_def by (rule snd_shrinks_trans) simp
  then show ?thesis by (simp add: ikcp_parse_data_def Let_def)
qed

lemma shrinks_recv: "snd_shrinks k (snd (ikcp_recv len k))"
proof -
  have "snd_shrinks k (move_available (take_message peek segs k))" for peek segs
    unfolding move_available_def
    by (rule snd_shrinks_trans [OF _ shrinks_move_available]) (simp add: snd_shrinks_def snd_part_def take_message_def)
  moreover have "snd_shrinks k k' \<Longrightarrow> snd_shrinks k (k'\<lparr>probe := p\<rparr>)" for k' p
    by (rule snd_shrinks_trans [OF _ shrinks_same(6)])
  ultimately show ?thesis by (simp add: ikcp_recv_def Let_def)
qed

text \<open>Input, even of bytes nobody sent.\<close>

lemma shrinks_input_segment: "snd_shrinks k (input_segment h bytes k)"
proof -
  let ?k = "ikcp_shrink_buf (ikcp_parse_una (seg_una h) (k\<lparr>rmt_wnd := seg_wnd h\<rparr>))"
  have s: "snd_shrinks k ?k" 
    by (rule snd_shrinks_trans [OF shrinks_same(5)], rule snd_shrinks_trans [OF shrinks_parse(1)], rule shrinks_same(1))
  have a: "snd_shrinks k' (input_ack h k')" for k'
  proof -
    let ?u = "if itimediff (kcp_current k') (seg_ts h) \<ge> 0 then ikcp_update_ack (itimediff (kcp_current k') (seg_ts h)) k' else k'"
    have "snd_shrinks k' ?u" by simp
    then show ?thesis unfolding input_ack_def Let_def
      by (rule snd_shrinks_trans) (rule snd_shrinks_trans [OF shrinks_parse(2) shrinks_same(1)])
  qed
  have p: "snd_shrinks k' (input_push h bytes k')" for k'
    by (auto simp: input_push_def Let_def intro: snd_shrinks_trans [OF _ shrinks_parse_data])
  have "snd_shrinks k' (if seg_cmd h = IKCP_CMD_ACK then input_ack h k'
      else if seg_cmd h = IKCP_CMD_PUSH then input_push h bytes k'
      else if seg_cmd h = IKCP_CMD_WASK then k'\<lparr>probe := probe k' OR IKCP_ASK_TELL\<rparr> else k')" for k'
    using a p by simp
  with s show ?thesis unfolding input_segment_def Let_def by (rule snd_shrinks_trans)
qed

lemma shrinks_input_loop: "snd_shrinks k (snd (snd (input_loop p maxack k)))"
proof (induction p maxack k rule: input_loop.induct)
  case (1 p maxack k)
  obtain h rest where h: "decode_header p = (h, rest)" by fastforce
  show ?case
    using "1.IH" [OF _ h [symmetric] refl] snd_shrinks_trans [OF shrinks_input_segment [of k h rest]]
    by (subst input_loop.simps) (auto simp: h)
qed

lemma shrinks_input: "snd_shrinks k (snd (ikcp_input p k))"
proof -
  obtain r m k1 where l: "input_loop p None k = (r, m, k1)" by (cases "input_loop p None k") auto
  have s: "snd_shrinks k k1" using shrinks_input_loop [of k p None] l by simp
  have "snd_shrinks k (case m of None \<Rightarrow> k1 | Some sn \<Rightarrow> ikcp_parse_fastack sn k1)"
    using s by (auto split: option.split intro: snd_shrinks_trans)
  then show ?thesis using s by (auto simp: ikcp_input_def l Let_def intro: snd_shrinks_trans)
qed

subsection \<open>A message is queued\<close>

lemma carries_append: "carries S seg i \<Longrightarrow> carries (S @ cs) seg i"
  by (auto simp: carries_def nth_append)

lemma push_ok_append: "push_ok S conv mss seg \<Longrightarrow> push_ok (S @ cs) conv mss seg"
  by (auto simp: push_ok_def wire_ok_def intro: carries_append)

lemma datagram_append: "datagram S conv d \<Longrightarrow> datagram (S @ cs) conv d"
  by (auto simp: datagram_def wire_ok_def intro: carries_append)

text \<open>\<^verbatim>\<open>ikcp_send\<close> queues a whole message, or refuses it and changes nothing.\<close>

lemma send_ok:
  assumes "snd_ok S k" "length b < 2 ^ 31" "ikcp_send b (int (length b)) k = (r, k')"
  shows "if r = 0 then kcp_mtu k' = kcp_mtu k \<and> kcp_mss k' = kcp_mss k \<and> kcp_conv k' = kcp_conv k \<and>
    (\<exists>cs. is_message cs b \<and> length cs \<le> length b div unat (kcp_mss k) + 1 \<and> (length (S @ cs) < 2 ^ 30 \<longrightarrow> snd_ok (S @ cs) k'))
    else k' = k"
proof -
  let ?m = "unat (kcp_mss k)"
  have st: "stream k = 0" "0 < ?m" "?m < 2 ^ 31" using assms(1) by (simp_all add: snd_ok_def)
  define n where "n = nat (fragment_count (kcp_mss k) (int (length b)))"
  note f = fragment_count_enough [OF st(2,3) assms(2)]
  have n: "fragment_count (kcp_mss k) (int (length b)) = int n" "0 < n" "length b \<le> n * ?m"
    using f by (simp_all add: n_def del: of_nat_unat) (metis f(1) n_def nat_0_le nat_int_comparison(3) of_nat_mult order_less_imp_le)
  have e: "ikcp_send b (int (length b)) k = (if n > 255 then (- 2, k) else (0, fragment_loop n b (int (length b)) k))"
    using n(2) st(1) by (auto simp: ikcp_send_def n(1))
  show ?thesis
  proof (cases "n > 255")
    case False
    then have r: "r = 0" "k' = fragment_loop n b (int (length b)) k" using assms(3) e by auto
    obtain segs where segs: "snd_part k' = (snd_nxt k, snd_queue k @ segs, kcp_conv k, stream k, kcp_mss k, kcp_mtu k)"
      "snd_buf k' = snd_buf k" "map chunk_of segs = cut ?m n b"
      "\<forall>seg \<in> set segs. seg_wf seg \<and> length (seg_data seg) \<le> ?m"
      using fragment_loop_cut [OF st(1,3), of n b] r(2) by auto
    have frg: "unat (seg_frg seg) < 256" if "seg \<in> set segs" for seg
    proof -
      have "seg_frg seg \<in> set (map fst (map chunk_of segs))" using that by (force simp: chunk_of_def)
      then obtain i where "i < n" "seg_frg seg = of_nat i" by (auto simp: segs(3) cut_numbers)
      then show ?thesis using False by (simp add: unat_of_nat_u32)
    qed
    have "is_message (cut ?m n b) b" using cut_message n False assms(2) by simp
    moreover have "snd_ok (S @ cut ?m n b) k'" if "length (S @ cut ?m n b) < 2 ^ 30"
      using assms(1) segs frg that push_ok_append by (auto simp: snd_ok_def snd_part_def)
    moreover have "length (cut ?m n b) \<le> length b div ?m + 1" using f(3) n(1) by simp
    moreover have "kcp_mtu k' = kcp_mtu k" "kcp_mss k' = kcp_mss k" "kcp_conv k' = kcp_conv k"
      using segs(1) by (simp_all add: snd_part_def)
    ultimately show ?thesis using r(1) by (auto simp del: length_append)
  qed (use assms(3) e in auto)
qed

end
