(* ===== verification/IkcpFlush.thy ===== *)
theory IkcpFlush
  imports IkcpSend
begin

text \<open>
  What \<^verbatim>\<open>ikcp_flush\<close> and \<^verbatim>\<open>ikcp_update\<close> put out: datagrams that consist of whole segments and
  fit the MTU, so that \<^verbatim>\<open>kcp->buffer\<close> is never overrun. The receiving side is left alone.
\<close>

subsection \<open>Datagrams are built from whole segments\<close>

definition outs_ok :: "chunk list \<Rightarrow> u32 \<Rightarrow> u32 \<Rightarrow> out_state \<Rightarrow> bool" where
  "outs_ok S conv mtu ps \<longleftrightarrow> (\<forall>d \<in> insert (fst ps) (set (snd ps)). datagram S conv d \<and> length d \<le> unat mtu)
     \<and> [] \<notin> set (snd ps)"

lemma datagram_Nil: "datagram S conv []"
  unfolding datagram_def by (rule exI [of _ "[]"]) simp

lemma datagram_snoc: "datagram S conv d \<Longrightarrow> wire_ok S conv seg \<Longrightarrow> datagram S conv (d @ segment_bytes seg)"
proof -
  assume "datagram S conv d" "wire_ok S conv seg"
  then obtain segs where "d = concat (map segment_bytes segs)" "\<forall>s \<in> set segs. wire_ok S conv s" by (auto simp: datagram_def)
  then show ?thesis
    unfolding datagram_def using \<open>wire_ok S conv seg\<close> by (intro exI [of _ "segs @ [seg]"]) simp
qed

lemma length_segment_bytes: "seg_wf seg \<Longrightarrow> length (segment_bytes seg) = 24 + length (seg_data seg)"
  by (simp add: segment_bytes_wf)

lemma put_ok:
  assumes "outs_ok S conv mtu ps" "wire_ok S conv seg" "24 + length (seg_data seg) \<le> unat mtu" "unat mtu < 2 ^ 31"
  shows "outs_ok S conv mtu (put mtu (segment_bytes seg) ps)"
proof -
  obtain buf outs where ps: "ps = (buf, outs)" by (cases ps)
  have l: "length (segment_bytes seg) = 24 + length (seg_data seg)"
    using assms(2) by (simp add: length_segment_bytes wire_ok_def wire_wf_def)
  have "datagram S conv buf" using assms(1) ps by (simp add: outs_ok_def)
  note d = datagram_snoc [OF this assms(2)] datagram_snoc [OF datagram_Nil assms(2)]
  have t: "int (length buf) + int (length (segment_bytes seg)) > sint mtu
      \<longleftrightarrow> length buf + length (segment_bytes seg) > unat mtu"
    unfolding sint_unat [OF assms(4)] by linarith
  have l': "length (segment_bytes seg) \<le> unat mtu" using l assms(3) by simp
  show ?thesis
  proof (cases "int (length buf) + int (length (segment_bytes seg)) > sint mtu")
    case True
    then show ?thesis using assms(1) d l' by (auto simp: put_def ps outs_ok_def ikcp_output_def)
  next
    case False
    then have "length (buf @ segment_bytes seg) \<le> unat mtu" using t by simp
    then show ?thesis using False assms(1) d by (simp add: put_def ps outs_ok_def)
  qed
qed

text \<open>Segments without data: acknowledgements and window probes.\<close>

definition plain_ok :: "u32 \<Rightarrow> IKCPSEG \<Rightarrow> bool" where
  "plain_ok conv seg \<longleftrightarrow> wire_wf conv seg \<and> seg_cmd seg \<noteq> IKCP_CMD_PUSH \<and> seg_data seg = []"

lemma put_plain:
  assumes "outs_ok S conv mtu ps" "plain_ok conv seg" "24 \<le> unat mtu" "unat mtu < 2 ^ 31"
  shows "outs_ok S conv mtu (put mtu (encode_seg seg) ps)"
proof -
  have w: "wire_ok S conv seg" "seg_data seg = []" using assms(2) by (simp_all add: plain_ok_def wire_ok_def)
  have "encode_seg seg = segment_bytes seg" by (simp add: segment_bytes_def w)
  then show ?thesis using put_ok [OF assms(1) w(1) _ assms(4)] w(2) assms(3) by simp
qed

lemma flush_acks_ok:
  assumes "outs_ok S conv (kcp_mtu k) ps" "plain_ok conv seg" "24 \<le> unat (kcp_mtu k)" "unat (kcp_mtu k) < 2 ^ 31"
  shows "plain_ok conv (fst (flush_acks seg k ps)) \<and> outs_ok S conv (kcp_mtu k) (snd (flush_acks seg k ps))"
proof -
  have "plain_ok conv (fst r) \<and> outs_ok S conv (kcp_mtu k) (snd r)"
    if "r = fold (\<lambda>(sn, ts) (seg, ps). let seg = seg\<lparr>seg_sn := sn, seg_ts := ts\<rparr>
        in (seg, put (kcp_mtu k) (encode_seg seg) ps)) acks (seg, ps)" for acks r
    using that assms(1,2)
  proof (induction acks arbitrary: seg ps)
    case (Cons a acks)
    obtain sn ts where a: "a = (sn, ts)" by (cases a)
    have p: "plain_ok conv (seg\<lparr>seg_sn := sn, seg_ts := ts\<rparr>)"
      using Cons.prems(3) by (simp add: plain_ok_def wire_wf_def seg_wf_def)
    from Cons.IH [OF _ put_plain [OF Cons.prems(2) p assms(3,4)] p] Cons.prems(1) show ?case by (simp add: a Let_def)
  qed simp
  then show ?thesis by (simp add: flush_acks_def)
qed

lemma flush_probes_ok:
  assumes "outs_ok S conv (kcp_mtu k) ps" "plain_ok conv seg" "24 \<le> unat (kcp_mtu k)" "unat (kcp_mtu k) < 2 ^ 31"
  shows "outs_ok S conv (kcp_mtu k) (flush_probes seg k ps)"
proof -
  have "plain_ok conv (seg\<lparr>seg_cmd := IKCP_CMD_WASK\<rparr>)" "plain_ok conv (seg\<lparr>seg_cmd := IKCP_CMD_WINS\<rparr>)"
    using assms(2) by (simp_all add: plain_ok_def wire_wf_def seg_wf_def known_cmd_def ikcp_consts)
  with put_plain [OF _ _ assms(3,4)] assms(1) show ?thesis by (simp add: flush_probes_def Let_def)
qed

subsection \<open>Segments are numbered\<close>

lemma move_to_send_loop_ok:
  "snd_ok S k \<Longrightarrow> snd_queue k = segs \<Longrightarrow> snd_ok S (move_to_send_loop segs cwnd wnd k)"
proof (induction segs cwnd wnd k rule: move_to_send_loop.induct)
  case (2 seg segs cwnd wnd k)
  let ?new = "seg\<lparr>seg_conv := kcp_conv k, seg_cmd := IKCP_CMD_PUSH, seg_wnd := wnd, seg_ts := kcp_current k,
    seg_sn := snd_nxt k, seg_una := rcv_nxt k, seg_resendts := kcp_current k,
    seg_rto := word_of_int (rx_rto k), seg_fastack := 0, seg_xmit := 0\<rparr>"
  let ?k = "k\<lparr>snd_queue := segs, snd_buf := snd_buf k @ [?new], nsnd_que := nsnd_que k - 1,
    nsnd_buf := nsnd_buf k + 1, snd_nxt := snd_nxt k + 1\<rparr>"
  have q: "chunk_of seg # map chunk_of segs = drop (unat (snd_nxt k)) S" using "2.prems" by (simp add: snd_ok_def)
  then have n: "unat (snd_nxt k) < length S" by (metis drop_all list.discI not_le)
  then have c: "chunk_of seg = S ! unat (snd_nxt k)" "map chunk_of segs = drop (Suc (unat (snd_nxt k))) S"
    using q by (auto simp: Cons_nth_drop_Suc [symmetric])
  have s: "unat (snd_nxt k + 1) = Suc (unat (snd_nxt k))"
    using n "2.prems"(1) by (intro unat_Suc_u32) (simp add: snd_ok_def)
  have "push_ok S (kcp_conv k) (kcp_mss k) ?new"
    using "2.prems" n c(1) by (simp add: push_ok_def wire_ok_def wire_wf_def carries_def snd_ok_def chunk_of_def
        seg_wf_def known_cmd_def)
  then have "snd_ok S ?k" using "2.prems" n c s by (simp add: snd_ok_def)
  with "2.IH" "2.prems" show ?case by simp
qed simp

lemma seg_id_sent [simp]: "seg_id (sent_segment wnd rtomin k why seg) = seg_id seg"
  by (simp add: sent_segment_def seg_id_def Let_def split: sending.split)

lemma flush_segments_ok:
  assumes "unat (kcp_mtu k) = unat mss + 24" "unat (kcp_mtu k) < 2 ^ 31"
  shows "outs_ok S conv (kcp_mtu k) ps \<Longrightarrow> \<forall>seg \<in> set segs. push_ok S conv mss seg \<Longrightarrow>
    map seg_id (fst (fst (flush_segments wnd resent rtomin k segs ps))) = map seg_id segs
    \<and> outs_ok S conv (kcp_mtu k) (snd (flush_segments wnd resent rtomin k segs ps))"
proof (induction segs arbitrary: ps)
  case (Cons seg segs)
  let ?why = "sending_of (kcp_current k) resent seg"
  let ?seg = "sent_segment wnd rtomin k ?why seg"
  let ?ps = "if ?why = NotNow then ps else put (kcp_mtu k) (segment_bytes ?seg) ps"
  have p: "push_ok S conv mss ?seg" using Cons.prems(2) push_ok_id [OF seg_id_sent] by simp
  then have "wire_ok S conv ?seg" "24 + length (seg_data ?seg) \<le> unat (kcp_mtu k)"
    using assms(1) by (simp_all add: push_ok_def)
  from put_ok [OF Cons.prems(1) this assms(2)] have "outs_ok S conv (kcp_mtu k) ?ps" using Cons.prems(1) by simp
  with Cons.IH [of ?ps] Cons.prems(2)
  have ih: "map seg_id (fst (fst (flush_segments wnd resent rtomin k segs ?ps))) = map seg_id segs
    \<and> outs_ok S conv (kcp_mtu k) (snd (flush_segments wnd resent rtomin k segs ?ps))" by simp
  obtain segs' lost change dead ps' where r: "flush_segments wnd resent rtomin k segs ?ps = ((segs', lost, change, dead), ps')"
    by (metis prod.collapse)
  have "\<exists>lc. flush_segments wnd resent rtomin k (seg # segs) ps = ((?seg # segs', lc), ps')"
    by (simp only: flush_segments.simps Let_def r prod.case) blast
  then show ?case using ih r by auto
qed simp

subsection \<open>A flush\<close>

lemma snd_same_simps [simp]:
  "snd_part (k\<lparr>acklist := al\<rparr>) = snd_part k" "snd_part (flush_probe_timer k) = snd_part k"
  "snd_buf (flush_probe_timer k) = snd_buf k" "snd_part (flush_cwnd cwnd resent lost change k) = snd_part k"
  "snd_buf (flush_cwnd cwnd resent lost change k) = snd_buf k" "rcv_part (flush_probe_timer k) = rcv_part k"
  "rcv_part (k\<lparr>acklist := al\<rparr>) = rcv_part k"
  by (simp_all add: snd_part_def rcv_part_def flush_probe_timer_def flush_cwnd_def Let_def)

lemma mtu_same:
  "snd_part k' = snd_part k \<Longrightarrow> kcp_mtu k' = kcp_mtu k \<and> kcp_mss k' = kcp_mss k \<and> kcp_conv k' = kcp_conv k"
  by (simp add: snd_part_def)

lemma snd_part_move_to_send:
  "kcp_mtu (move_to_send_loop segs cwnd wnd k) = kcp_mtu k \<and> kcp_mss (move_to_send_loop segs cwnd wnd k) = kcp_mss k
   \<and> kcp_conv (move_to_send_loop segs cwnd wnd k) = kcp_conv k"
  by (induction segs cwnd wnd k rule: move_to_send_loop.induct) (simp_all add: Let_def)

text \<open>The stages of a flush, by name.\<close>

definition flush_resent :: "IKCPCB \<Rightarrow> u32" where
  "flush_resent k = (if fastresend k > 0 then word_of_int (fastresend k) else 0xffffffff)"

definition flush_rtomin :: "IKCPCB \<Rightarrow> u32" where
  "flush_rtomin k = (if kcp_nodelay k = 0 then word_of_int (rx_rto k div 8) else 0)"

definition flush_head :: "IKCPCB \<Rightarrow> IKCPSEG" where
  "flush_head k = (segment_new [])\<lparr>seg_conv := kcp_conv k, seg_cmd := IKCP_CMD_ACK, seg_wnd := wnd_unused k, seg_una := rcv_nxt k\<rparr>"

definition flush_timed :: "IKCPCB \<Rightarrow> IKCPCB" where
  "flush_timed k = flush_probe_timer (k\<lparr>acklist := []\<rparr>)"

definition flush_control :: "IKCPCB \<Rightarrow> out_state" where
  "flush_control k = (let a = flush_acks (flush_head k) k ([], []) in flush_probes (fst a) (flush_timed k) (snd a))"

definition flush_queued :: "IKCPCB \<Rightarrow> IKCPCB" where
  "flush_queued k = (let k' = (flush_timed k)\<lparr>probe := 0\<rparr> in move_to_send (send_window k') (wnd_unused k) k')"

definition flush_data :: "IKCPCB \<Rightarrow> (IKCPSEG list \<times> nat \<times> nat \<times> bool) \<times> out_state" where
  "flush_data k = (let k' = flush_queued k
     in flush_segments (wnd_unused k) (flush_resent k') (flush_rtomin k') k' (snd_buf k') (flush_control k))"

lemma flush_stages:
  assumes "updated k \<noteq> 0" "flush_data k = ((segs, lost, change, dead), (buf, outs))"
  shows "ikcp_flush k = (flush_cwnd (send_window ((flush_timed k)\<lparr>probe := 0\<rparr>)) (flush_resent (flush_queued k)) lost change
      ((flush_queued k)\<lparr>snd_buf := segs, kcp_xmit := kcp_xmit (flush_queued k) + of_nat lost,
         kcp_state := (if dead then - 1 else kcp_state (flush_queued k))\<rparr>), outs @ ikcp_output buf)"
  using assms
  by (simp add: ikcp_flush_def flush_data_def flush_queued_def flush_control_def flush_timed_def flush_head_def
      flush_resent_def flush_rtomin_def Let_def case_prod_beta)

lemma snd_shrinks_timed: "snd_shrinks k ((flush_timed k)\<lparr>probe := 0\<rparr>)"
  by (simp add: snd_shrinks_def flush_timed_def snd_part_def flush_probe_timer_def Let_def)

lemma flush_head_plain: "plain_ok (kcp_conv k) (flush_head k)"
  by (simp add: plain_ok_def wire_wf_def seg_wf_def flush_head_def segment_new_def known_cmd_def ikcp_consts)

text \<open>The receiving side, whatever the sending side is like.\<close>

lemma flush_same:
  "rcv_part (fst (ikcp_flush k)) = rcv_part k \<and> kcp_conv (fst (ikcp_flush k)) = kcp_conv k
    \<and> kcp_mtu (fst (ikcp_flush k)) = kcp_mtu k"
proof (cases "updated k = 0")
  case False
  obtain segs lost change dead buf outs where r: "flush_data k = ((segs, lost, change, dead), (buf, outs))"
    by (metis prod.collapse)
  have q: "rcv_part (flush_queued k) = rcv_part k" "kcp_conv (flush_queued k) = kcp_conv k" "kcp_mtu (flush_queued k) = kcp_mtu k"
    by (simp_all add: flush_queued_def move_to_send_def Let_def snd_part_move_to_send)
      (simp_all add: flush_timed_def flush_probe_timer_def rcv_part_def Let_def)
  show ?thesis
    using q by (simp add: flush_stages [OF False r] rcv_part_flush_cwnd) (simp add: rcv_part_def flush_cwnd_def Let_def)
qed (simp add: ikcp_flush_def)

lemma update_same:
  "rcv_part (fst (ikcp_update t k)) = rcv_part k \<and> kcp_conv (fst (ikcp_update t k)) = kcp_conv k
    \<and> kcp_mtu (fst (ikcp_update t k)) = kcp_mtu k"
proof -
  obtain due k1 where u: "update_timer t k = (due, k1)" by fastforce
  have "snd_part k1 = snd_part k" "rcv_part k1 = rcv_part k"
    using arg_cong [OF u, of "snd_part \<circ> snd"] arg_cong [OF u, of "rcv_part \<circ> snd"]
    by (simp_all add: update_timer_def Let_def snd_part_def rcv_part_def split: if_splits)
  then show ?thesis using flush_same [of k1] mtu_same [of k1 k] by (simp add: ikcp_update_def u)
qed

lemma flush_ok:
  assumes "snd_ok S k"
  shows "snd_ok S (fst (ikcp_flush k)) \<and> rcv_part (fst (ikcp_flush k)) = rcv_part k
    \<and> (\<forall>d \<in> set (snd (ikcp_flush k)). datagram S (kcp_conv k) d \<and> length d \<le> unat (kcp_mtu k) \<and> d \<noteq> [])
    \<and> kcp_mtu (fst (ikcp_flush k)) = kcp_mtu k \<and> kcp_conv (fst (ikcp_flush k)) = kcp_conv k"
proof (cases "updated k = 0")
  case True
  then show ?thesis using assms by (simp add: ikcp_flush_def)
next
  case False
  have mtu: "unat (kcp_mtu k) = unat (kcp_mss k) + 24" "unat (kcp_mtu k) < 2 ^ 31" using assms by (simp_all add: snd_ok_def)
  let ?t = "(flush_timed k)\<lparr>probe := 0\<rparr>"
  let ?q = "flush_queued k"
  have t: "snd_ok S ?t" by (rule snd_shrinks_ok [OF snd_shrinks_timed assms])
  have tk: "kcp_mtu (flush_timed k) = kcp_mtu k" "kcp_mss (flush_timed k) = kcp_mss k" "kcp_conv (flush_timed k) = kcp_conv k"
    "rcv_part (flush_timed k) = rcv_part k"
    by (simp_all add: flush_timed_def flush_probe_timer_def rcv_part_def Let_def)
  have q: "snd_ok S ?q" "kcp_mtu ?q = kcp_mtu k" "kcp_mss ?q = kcp_mss k" "kcp_conv ?q = kcp_conv k" "rcv_part ?q = rcv_part k"
    using move_to_send_loop_ok [OF t refl] tk
    by (simp_all add: flush_queued_def move_to_send_def Let_def snd_part_move_to_send)
  have "outs_ok S (kcp_conv k) (kcp_mtu k) (flush_control k)"
  proof -
    have "outs_ok S (kcp_conv k) (kcp_mtu k) ([], [])" by (simp add: outs_ok_def datagram_Nil)
    note a = flush_acks_ok [OF this flush_head_plain] mtu
    then show ?thesis
      using flush_probes_ok [of S "kcp_conv k" "flush_timed k"] by (simp add: flush_control_def Let_def tk)
  qed
  then have d: "map seg_id (fst (fst (flush_data k))) = map seg_id (snd_buf ?q)" "outs_ok S (kcp_conv k) (kcp_mtu k) (snd (flush_data k))"
    using flush_segments_ok [of ?q "kcp_mss k" S "kcp_conv k" "flush_control k" "snd_buf ?q"] q mtu
    by (simp_all add: flush_data_def Let_def snd_ok_def)
  obtain segs lost change dead buf outs where r: "flush_data k = ((segs, lost, change, dead), (buf, outs))"
    by (metis prod.collapse)
  let ?r = "?q\<lparr>snd_buf := segs, kcp_xmit := kcp_xmit ?q + of_nat lost, kcp_state := (if dead then - 1 else kcp_state ?q)\<rparr>"
  have "snd_shrinks ?q (fst (ikcp_flush k))"
    using seg_id_image [of segs "snd_buf ?q"] d(1)
    by (simp add: flush_stages [OF False r] snd_shrinks_def r) (simp add: snd_part_def)
  then have "snd_ok S (fst (ikcp_flush k))" using q(1) by (rule snd_shrinks_ok)
  moreover have "\<forall>d \<in> set (snd (ikcp_flush k)). datagram S (kcp_conv k) d \<and> length d \<le> unat (kcp_mtu k) \<and> d \<noteq> []"
    using d(2) by (auto simp: flush_stages [OF False r] r outs_ok_def ikcp_output_def)
  ultimately show ?thesis using flush_same [of k] by simp
qed

lemma update_ok:
  assumes "snd_ok S k"
  shows "snd_ok S (fst (ikcp_update t k)) \<and> rcv_part (fst (ikcp_update t k)) = rcv_part k
    \<and> (\<forall>d \<in> set (snd (ikcp_update t k)). datagram S (kcp_conv k) d \<and> length d \<le> unat (kcp_mtu k) \<and> d \<noteq> [])
    \<and> kcp_mtu (fst (ikcp_update t k)) = kcp_mtu k \<and> kcp_conv (fst (ikcp_update t k)) = kcp_conv k"
proof -
  obtain due k1 where u: "update_timer t k = (due, k1)" by fastforce
  have k1: "snd_part k1 = snd_part k" "snd_buf k1 = snd_buf k" "rcv_part k1 = rcv_part k"
    using arg_cong [OF u, of "snd_part \<circ> snd"] arg_cong [OF u, of "snd_buf \<circ> snd"] arg_cong [OF u, of "rcv_part \<circ> snd"]
    by (simp_all add: update_timer_def Let_def snd_part_def rcv_part_def split: if_splits)
  then have "snd_ok S k1" using snd_shrinks_ok [OF snd_shrinksI assms] by simp
  with flush_ok [OF this] show ?thesis using k1(3) mtu_same [OF k1(1)] by (simp add: ikcp_update_def u)
qed

end
