(* ===== verification/KcpLink.thy ===== *)
theory KcpLink
  imports IkcpFlush
begin

text \<open>
  Two KCP control blocks and a network between them that may lose, repeat, delay and reorder
  datagrams: whatever happens, the messages handed out at one end are the first of those sent at the
  other, whole and in order.
\<close>

subsection \<open>The link\<close>

text \<open>
  The control block that \<^verbatim>\<open>CKKkcp::CreateKcp\<close> sets up. The link has the state of both ends,
  all datagrams the sending end has put out so far, and the messages accepted at one end and handed
  out at the other.
\<close>

definition endpoint :: "u32 \<Rightarrow> u16 \<Rightarrow> IKCPCB" where
  "endpoint conv mtu = (snd (ikcp_setmtu True (uint mtu - 1) (ikcp_nodelay 1 5 2 1 (the (ikcp_create True True conv)))))
     \<lparr>rx_minrto := 10\<rparr>"

record kcp_link =
  l_snd :: IKCPCB
  l_rcv :: IKCPCB
  l_net :: "u8 list list"
  l_sent :: "u8 list list"
  l_got :: "u8 list list"

definition new_link :: "u32 \<Rightarrow> u16 \<Rightarrow> u16 \<Rightarrow> kcp_link" where
  "new_link conv mtu mtu' = \<lparr>l_snd = endpoint conv mtu, l_rcv = endpoint conv mtu', l_net = [], l_sent = [], l_got = []\<rparr>"

text \<open>
  What can happen: the sending end takes a message, is updated, gets any bytes whatever, hands out
  what it received itself; a datagram of the network arrives, at any time and any number of times;
  the receiving end hands out a message, is updated, takes a message for the other direction.
\<close>

datatype link_event = Sends "u8 list" | Updates u32 | Hears "u8 list" | TakesOut int
  | Arrives nat | Receives int | PeerUpdates u32 | PeerSends "u8 list"

definition send_msg :: "u8 list \<Rightarrow> IKCPCB \<Rightarrow> int \<times> IKCPCB" where
  "send_msg msg k = ikcp_send msg (int (length msg)) k"

fun link_step :: "link_event \<Rightarrow> kcp_link \<Rightarrow> kcp_link" where
  "link_step (Sends msg) l = (case send_msg msg (l_snd l) of
     (r, k) \<Rightarrow> l\<lparr>l_snd := k, l_sent := (if r = 0 then l_sent l @ [msg] else l_sent l)\<rparr>)"
| "link_step (Updates t) l = (case ikcp_update t (l_snd l) of (k, outs) \<Rightarrow> l\<lparr>l_snd := k, l_net := l_net l @ outs\<rparr>)"
| "link_step (Hears bytes) l = l\<lparr>l_snd := snd (ikcp_input bytes (l_snd l))\<rparr>"
| "link_step (TakesOut len) l = l\<lparr>l_snd := snd (ikcp_recv len (l_snd l))\<rparr>"
| "link_step (Arrives i) l = (if i < length (l_net l) then l\<lparr>l_rcv := snd (ikcp_input (l_net l ! i) (l_rcv l))\<rparr> else l)"
| "link_step (Receives len) l = (case ikcp_recv len (l_rcv l) of
     ((n, bytes), k) \<Rightarrow> l\<lparr>l_rcv := k, l_got := (if 0 \<le> n \<and> 0 \<le> len then l_got l @ [bytes] else l_got l)\<rparr>)"
| "link_step (PeerUpdates t) l = l\<lparr>l_rcv := fst (ikcp_update t (l_rcv l))\<rparr>"
| "link_step (PeerSends msg) l = l\<lparr>l_rcv := snd (send_msg msg (l_rcv l))\<rparr>"

definition link_run :: "link_event list \<Rightarrow> kcp_link \<Rightarrow> kcp_link" where
  "link_run es l = fold link_step es l"

text \<open>The segments that the messages of a run need at most.\<close>

fun segments_needed :: "nat \<Rightarrow> link_event list \<Rightarrow> nat" where
  "segments_needed mss [] = 0"
| "segments_needed mss (e # es) = (case e of Sends msg \<Rightarrow> length msg div mss + 1 | _ \<Rightarrow> 0) + segments_needed mss es"

subsection \<open>The invariant\<close>

definition messages_ok :: "chunk list list \<Rightarrow> kcp_link \<Rightarrow> bool" where
  "messages_ok Ms l \<longleftrightarrow> length Ms = length (l_sent l) \<and> (\<forall>i < length Ms. is_message (Ms ! i) (l_sent l ! i))
     \<and> snd_ok (concat Ms) (l_snd l) \<and> length (l_got l) \<le> length (l_sent l) \<and> l_got l = take (length (l_got l)) (l_sent l)
     \<and> rcv_good (concat Ms) (concat (take (length (l_got l)) Ms)) (l_rcv l)"

definition net_ok :: "chunk list list \<Rightarrow> kcp_link \<Rightarrow> bool" where
  "net_ok Ms l \<longleftrightarrow> kcp_conv (l_rcv l) = kcp_conv (l_snd l)
     \<and> (\<forall>d \<in> set (l_net l). datagram (concat Ms) (kcp_conv (l_snd l)) d \<and> length d \<le> unat (kcp_mtu (l_snd l)) \<and> d \<noteq> [])"

definition link_ok :: "u32 \<Rightarrow> u32 \<Rightarrow> nat \<Rightarrow> kcp_link \<Rightarrow> bool" where
  "link_ok mss mtu n l \<longleftrightarrow> (\<exists>Ms. messages_ok Ms l \<and> net_ok Ms l \<and> length (concat Ms) \<le> n)
     \<and> kcp_mss (l_snd l) = mss \<and> kcp_mtu (l_snd l) = mtu"

lemma endpoint_fields:
  "snd_nxt (endpoint conv mtu) = 0" "rcv_nxt (endpoint conv mtu) = 0" "snd_queue (endpoint conv mtu) = []"
  "snd_buf (endpoint conv mtu) = []" "rcv_queue (endpoint conv mtu) = []" "rcv_buf (endpoint conv mtu) = []"
  "stream (endpoint conv mtu) = 0" "kcp_conv (endpoint conv mtu) = conv" "nrcv_que (endpoint conv mtu) = 0"
  "nrcv_buf (endpoint conv mtu) = 0" "rcv_wnd (endpoint conv mtu) = 32"
  "kcp_mtu (endpoint conv mtu) = (if uint mtu < 51 then 1400 else word_of_int (uint mtu - 1))"
  "kcp_mss (endpoint conv mtu) = kcp_mtu (endpoint conv mtu) - 24"
  "buffer_size (endpoint conv mtu) = alloc_size (kcp_mtu (endpoint conv mtu))"
  by (simp_all add: endpoint_def ikcp_setmtu_def ikcp_nodelay_def ikcp_create_def ikcp_consts Let_def)

lemma endpoint_mtu:
  "50 \<le> unat (kcp_mtu (endpoint conv mtu))" "unat (kcp_mtu (endpoint conv mtu)) < 65535"
  "unat (kcp_mtu (endpoint conv mtu)) = unat (kcp_mss (endpoint conv mtu)) + 24"
proof -
  have u: "uint mtu = int (unat mtu)" by simp
  have e: "kcp_mtu (endpoint conv mtu) = of_nat (if unat mtu < 51 then 1400 else unat mtu - 1)"
    unfolding endpoint_fields u by (auto simp: of_nat_diff simp del: of_nat_unat)
  then have m: "unat (kcp_mtu (endpoint conv mtu)) = (if unat mtu < 51 then 1400 else unat mtu - 1)"
    by (simp only: e) (rule unat_of_nat_u32, use unat_u16_less [of mtu] in \<open>auto simp del: unat_u16_less\<close>)
  then show "50 \<le> unat (kcp_mtu (endpoint conv mtu))" "unat (kcp_mtu (endpoint conv mtu)) < 65535"
    using unat_u16_less [of mtu] by (auto simp del: unat_u16_less)
  then show "unat (kcp_mtu (endpoint conv mtu)) = unat (kcp_mss (endpoint conv mtu)) + 24"
    by (simp add: endpoint_fields(13) unat_sub_if')
qed

lemma endpoint_snd_ok: "snd_ok [] (endpoint conv mtu)"
  using endpoint_mtu [of conv mtu] by (simp add: snd_ok_def endpoint_fields(1,3,4,7))

lemma endpoint_rcv_good: "rcv_good [] [] (endpoint conv mtu)"
  by (simp add: rcv_good_def rcv_ok_def rcv_buf_ok_def rcv_queue_ok_def few_def rcv_settled_def endpoint_fields(2,5,6,9,10,11))

lemma new_link_ok:
  "link_ok (kcp_mss (endpoint conv mtu)) (kcp_mtu (endpoint conv mtu)) 0 (new_link conv mtu mtu')"
  unfolding link_ok_def
  by (intro conjI exI [of _ "[]"])
    (simp_all add: messages_ok_def net_ok_def new_link_def endpoint_snd_ok endpoint_rcv_good endpoint_fields(8))

subsection \<open>Every step keeps it\<close>

text \<open>What the sending end does between two messages.\<close>

lemma link_ok_snd:
  assumes "link_ok mss mtu n l" "snd_shrinks (l_snd l) k"
  shows "link_ok mss mtu n (l\<lparr>l_snd := k\<rparr>)"
proof -
  obtain Ms where "messages_ok Ms l" "net_ok Ms l" "length (concat Ms) \<le> n"
    "kcp_mss (l_snd l) = mss" "kcp_mtu (l_snd l) = mtu"
    using assms(1) by (auto simp: link_ok_def)
  moreover have "kcp_mtu k = kcp_mtu (l_snd l) \<and> kcp_mss k = kcp_mss (l_snd l) \<and> kcp_conv k = kcp_conv (l_snd l)"
    using assms(2) by (intro mtu_same) (simp add: snd_shrinks_def)
  moreover have "snd_ok (concat Ms) (l_snd l) \<Longrightarrow> snd_ok (concat Ms) k" by (rule snd_shrinks_ok [OF assms(2)])
  ultimately have "messages_ok Ms (l\<lparr>l_snd := k\<rparr>) \<and> net_ok Ms (l\<lparr>l_snd := k\<rparr>) \<and> length (concat Ms) \<le> n
      \<and> kcp_mss k = mss \<and> kcp_mtu k = mtu" by (simp add: messages_ok_def net_ok_def)
  then show ?thesis unfolding link_ok_def by auto
qed

lemma link_ok_rcv:
  assumes "link_ok mss mtu n l" "rcv_part k = rcv_part (l_rcv l)" "kcp_conv k = kcp_conv (l_rcv l)"
  shows "link_ok mss mtu n (l\<lparr>l_rcv := k\<rparr>)"
proof -
  obtain Ms where "messages_ok Ms l" "net_ok Ms l" "length (concat Ms) \<le> n"
    "kcp_mss (l_snd l) = mss" "kcp_mtu (l_snd l) = mtu"
    using assms(1) by (auto simp: link_ok_def)
  with assms(3) have "messages_ok Ms (l\<lparr>l_rcv := k\<rparr>) \<and> net_ok Ms (l\<lparr>l_rcv := k\<rparr>) \<and> length (concat Ms) \<le> n
      \<and> kcp_mss (l_snd l) = mss \<and> kcp_mtu (l_snd l) = mtu"
    using rcv_good_cong [OF assms(2), of "concat Ms" "concat (take (length (l_got l)) Ms)"]
    by (simp add: messages_ok_def net_ok_def)
  then show ?thesis unfolding link_ok_def by auto
qed

text \<open>A message is accepted.\<close>

lemma rcv_good_append:
  assumes "rcv_good S got k" "length (S @ cs) < 2 ^ 30"
  shows "rcv_good (S @ cs) got k"
  using assms carries_append
  by (auto simp: rcv_good_def rcv_ok_def rcv_buf_ok_def rcv_queue_ok_def few_def)

lemma take_messages: "n \<le> length Ms \<Longrightarrow> take n (Ms @ Ms') = take n Ms"
  by simp

lemma link_ok_send:
  assumes "link_ok mss mtu n l" "length msg < 2 ^ 31" "n + (length msg div unat mss + 1) < 2 ^ 30"
  shows "link_ok mss mtu (n + (length msg div unat mss + 1)) (link_step (Sends msg) l)"
proof -
  obtain Ms where Ms: "messages_ok Ms l" "net_ok Ms l" "length (concat Ms) \<le> n"
    and m: "kcp_mss (l_snd l) = mss" "kcp_mtu (l_snd l) = mtu"
    using assms(1) by (auto simp: link_ok_def)
  obtain r k where s: "send_msg msg (l_snd l) = (r, k)" by fastforce
  have "snd_ok (concat Ms) (l_snd l)" using Ms(1) by (simp add: messages_ok_def)
  note so = send_ok [OF this assms(2) s [unfolded send_msg_def]]
  show ?thesis
  proof (cases "r = 0")
    case True
    then obtain cs where cs: "is_message cs msg" "length cs \<le> length msg div unat mss + 1"
      "length (concat Ms @ cs) < 2 ^ 30 \<longrightarrow> snd_ok (concat Ms @ cs) k"
      and k: "kcp_mtu k = mtu" "kcp_mss k = mss" "kcp_conv k = kcp_conv (l_snd l)"
      using so m by auto
    have l: "length (concat Ms @ cs) \<le> n + (length msg div unat mss + 1)" using cs(2) Ms(3) by simp
    then have few: "length (concat Ms @ cs) < 2 ^ 30" using assms(3) by linarith
    have "messages_ok (Ms @ [cs]) (link_step (Sends msg) l)"
      using Ms(1) cs(1,3) few rcv_good_append [OF _ few] True s
      by (auto simp: messages_ok_def nth_append less_Suc_eq)
    moreover have "net_ok (Ms @ [cs]) (link_step (Sends msg) l)"
      using Ms(2) k m s True datagram_append by (auto simp: net_ok_def)
    ultimately show ?thesis unfolding link_ok_def using l k s by (intro conjI exI [of _ "Ms @ [cs]"]) simp_all
  next
    case False
    then have "link_step (Sends msg) l = l" using so s by simp
    then show ?thesis using Ms m by (auto simp: link_ok_def intro!: exI [of _ Ms])
  qed
qed

lemma link_ok_update:
  assumes "link_ok mss mtu n l"
  shows "link_ok mss mtu n (link_step (Updates t) l)"
proof -
  obtain Ms where Ms: "messages_ok Ms l" "net_ok Ms l" "length (concat Ms) \<le> n"
    and m: "kcp_mss (l_snd l) = mss" "kcp_mtu (l_snd l) = mtu"
    using assms by (auto simp: link_ok_def)
  obtain k outs where u: "ikcp_update t (l_snd l) = (k, outs)" by fastforce
  have s: "snd_ok (concat Ms) (l_snd l)" using Ms(1) by (simp add: messages_ok_def)
  note uo = update_ok [OF s, of t, unfolded u, simplified]
  have "unat (kcp_mss k) + 24 = unat (kcp_mss (l_snd l)) + 24" using uo s unfolding snd_ok_def by metis
  then have mss: "kcp_mss k = mss" using m by (simp add: word_unat_eq_iff)
  have "messages_ok Ms (link_step (Updates t) l)" using Ms(1) uo u by (simp add: messages_ok_def)
  moreover have "net_ok Ms (link_step (Updates t) l)" using Ms(2) uo u by (auto simp: net_ok_def)
  ultimately show ?thesis unfolding link_ok_def using Ms(3) u uo m mss by (intro conjI exI [of _ Ms]) simp_all
qed

lemma link_ok_arrives:
  assumes "link_ok mss mtu n l"
  shows "link_ok mss mtu n (link_step (Arrives i) l)"
proof (cases "i < length (l_net l)")
  case True
  obtain Ms where Ms: "messages_ok Ms l" "net_ok Ms l" "length (concat Ms) \<le> n"
    and m: "kcp_mss (l_snd l) = mss" "kcp_mtu (l_snd l) = mtu"
    using assms by (auto simp: link_ok_def)
  have "datagram (concat Ms) (kcp_conv (l_rcv l)) (l_net l ! i)" using Ms(2) True by (simp add: net_ok_def)
  then have "messages_ok Ms (link_step (Arrives i) l)"
    using Ms(1) True input_good by (simp add: messages_ok_def)
  moreover have "kcp_conv (snd (ikcp_input (l_net l ! i) (l_rcv l))) = kcp_conv (l_rcv l)"
    using shrinks_input [of "l_rcv l" "l_net l ! i"] by (simp add: snd_shrinks_def snd_part_def)
  then have "net_ok Ms (link_step (Arrives i) l)" using Ms(2) True by (simp add: net_ok_def)
  ultimately show ?thesis unfolding link_ok_def using Ms(3) m True by (intro conjI exI [of _ Ms]) simp_all
qed (use assms in simp)

text \<open>A message is handed out; when all were, the queue is empty.\<close>

lemma all_got_empty:
  assumes "rcv_good S S k"
  shows "rcv_queue k = []"
proof -
  have "S @ map chunk_of (rcv_queue k) = take (unat (rcv_nxt k)) S" using assms by (simp add: rcv_good_def rcv_ok_def rcv_queue_ok_def)
  then have "length (S @ map chunk_of (rcv_queue k)) \<le> length S" by (simp only: length_take min.cobounded1)
  then show ?thesis by simp
qed

lemma recv_nothing: "rcv_queue k = [] \<Longrightarrow> ikcp_recv len k = ((- 1, []), k)"
  by (simp add: ikcp_recv_def)

lemma link_ok_receives:
  assumes "link_ok mss mtu n l"
  shows "link_ok mss mtu n (link_step (Receives len) l)"
proof -
  obtain Ms where Ms: "messages_ok Ms l" "net_ok Ms l" "length (concat Ms) \<le> n"
    and m: "kcp_mss (l_snd l) = mss" "kcp_mtu (l_snd l) = mtu"
    using assms by (auto simp: link_ok_def)
  let ?r = "length (l_got l)"
  obtain c bytes k where rc: "ikcp_recv len (l_rcv l) = ((c, bytes), k)" by (metis prod.collapse)
  have g: "rcv_good (concat Ms) (concat (take ?r Ms)) (l_rcv l)" and le: "?r \<le> length Ms"
    and got: "l_got l = take ?r (l_sent l)"
    using Ms(1) by (auto simp: messages_ok_def)
  have "messages_ok Ms (link_step (Receives len) l) \<and> net_ok Ms (link_step (Receives len) l)"
  proof (cases "?r < length Ms")
    case True
    have msg: "is_message (Ms ! ?r) (l_sent l ! ?r)" using Ms(1) True by (simp add: messages_ok_def)
    have gd: "rcv_ok (concat Ms) (concat (take ?r Ms)) (l_rcv l)" "few (concat Ms) (l_rcv l)" "rcv_settled (l_rcv l)"
      using g by (simp_all add: rcv_good_def)
    note ro = recv_ok [OF gd(1,2) refl True msg rc gd(3)]
    show ?thesis
    proof (cases "0 \<le> c \<and> 0 \<le> len")
      case yes: True
      have "l_got l @ [bytes] = take (Suc ?r) (l_sent l)"
        using ro yes got True Ms(1) by (simp add: messages_ok_def take_Suc_conv_app_nth)
      then show ?thesis using Ms(1,2) ro yes rc True by (simp add: messages_ok_def net_ok_def rcv_good_def)
    next
      case False
      then have "rcv_good (concat Ms) (concat (take ?r Ms)) k" "kcp_conv k = kcp_conv (l_rcv l)"
        using ro by (auto simp: rcv_good_def split: if_splits)
      then show ?thesis using Ms(1,2) False rc by (auto simp: messages_ok_def net_ok_def)
    qed
  next
    case False
    then have "rcv_queue (l_rcv l) = []" using le g by (intro all_got_empty [of "concat Ms"]) simp
    then have "link_step (Receives len) l = l" using recv_nothing by simp
    then show ?thesis using Ms by simp
  qed
  then show ?thesis unfolding link_ok_def using Ms(3) m rc by (intro conjI exI [of _ Ms]) simp_all
qed

lemma conv_fragment_loop [simp]: "kcp_conv (fragment_loop n buffer len k) = kcp_conv k"
  by (induction n buffer len k rule: fragment_loop.induct) (simp_all add: Let_def)

lemma conv_send: "kcp_conv (snd (ikcp_send b len k)) = kcp_conv k"
  by (simp add: ikcp_send_def stream_extend_def Let_def)

lemma link_step_ok:
  assumes "link_ok mss mtu n l" "\<forall>msg. e = Sends msg \<longrightarrow> length msg < 2 ^ 31"
    "n + segments_needed (unat mss) [e] < 2 ^ 30"
  shows "link_ok mss mtu (n + segments_needed (unat mss) [e]) (link_step e l)"
proof (cases e)
  case (Sends msg)
  with link_ok_send [OF assms(1), of msg] assms(2,3) show ?thesis by simp
next
  case (Updates t)
  with link_ok_update [OF assms(1)] show ?thesis by simp
next
  case (Hears bytes)
  with link_ok_snd [OF assms(1) shrinks_input] show ?thesis by simp
next
  case (TakesOut len)
  with link_ok_snd [OF assms(1) shrinks_recv] show ?thesis by simp
next
  case (Arrives i)
  with link_ok_arrives [OF assms(1)] show ?thesis by simp
next
  case (Receives len)
  with link_ok_receives [OF assms(1)] show ?thesis by simp
next
  case (PeerUpdates t)
  with link_ok_rcv [OF assms(1), of "fst (ikcp_update t (l_rcv l))"] update_same [of t "l_rcv l"] show ?thesis by simp
next
  case (PeerSends msg)
  with link_ok_rcv [OF assms(1) rcv_part_send conv_send, of msg "int (length msg)"] show ?thesis by (simp add: send_msg_def)
qed

lemma link_run_ok:
  assumes "link_ok mss mtu n l" "\<forall>msg. Sends msg \<in> set es \<longrightarrow> length msg < 2 ^ 31"
    "n + segments_needed (unat mss) es < 2 ^ 30"
  shows "link_ok mss mtu (n + segments_needed (unat mss) es) (link_run es l)"
  using assms
proof (induction es arbitrary: n l)
  case (Cons e es)
  let ?s = "segments_needed (unat mss) [e]"
  have "link_ok mss mtu (n + ?s) (link_step e l)" by (rule link_step_ok) (use Cons.prems in auto)
  from Cons.IH [OF this] Cons.prems(2,3) show ?case by (simp add: link_run_def add.assoc)
qed (simp add: link_run_def)

text \<open>
  C3: Over a network that loses, repeats, delays and reorders datagrams as it likes, and whatever
  bytes come back to the sender, KCP hands out exactly the messages that were sent, each once, whole
  and in the order they were sent: at any moment those handed out are the first of those accepted.
\<close>
theorem kcp_delivers_in_order:
  assumes "\<forall>msg. Sends msg \<in> set es \<longrightarrow> length msg < 2 ^ 31"
    and "segments_needed (unat (kcp_mss (endpoint conv mtu))) es < 2 ^ 30"
  shows "\<exists>later. l_sent (link_run es (new_link conv mtu mtu')) = l_got (link_run es (new_link conv mtu mtu')) @ later"
proof -
  have "link_ok (kcp_mss (endpoint conv mtu)) (kcp_mtu (endpoint conv mtu)) (0 + segments_needed (unat (kcp_mss (endpoint conv mtu))) es)
      (link_run es (new_link conv mtu mtu'))"
    by (rule link_run_ok [OF new_link_ok]) (use assms in simp_all)
  then obtain Ms where "messages_ok Ms (link_run es (new_link conv mtu mtu'))" by (auto simp: link_ok_def)
  then show ?thesis by (metis messages_ok_def append_take_drop_id)
qed

text \<open>
  C14: Every datagram fits the MTU, and with it the buffer it is put together in.
\<close>
theorem kcp_datagrams_fit:
  assumes "\<forall>msg. Sends msg \<in> set es \<longrightarrow> length msg < 2 ^ 31"
    and "segments_needed (unat (kcp_mss (endpoint conv mtu))) es < 2 ^ 30"
    and "d \<in> set (l_net (link_run es (new_link conv mtu mtu')))"
  shows "0 < length d \<and> length d \<le> unat (kcp_mtu (endpoint conv mtu)) \<and> int (length d) \<le> buffer_size (endpoint conv mtu)"
proof -
  let ?mtu = "kcp_mtu (endpoint conv mtu)"
  have "link_ok (kcp_mss (endpoint conv mtu)) ?mtu (0 + segments_needed (unat (kcp_mss (endpoint conv mtu))) es)
      (link_run es (new_link conv mtu mtu'))"
    by (rule link_run_ok [OF new_link_ok]) (use assms in simp_all)
  then have "length d \<le> unat ?mtu" "d \<noteq> []" using assms(3) by (auto simp: link_ok_def net_ok_def)
  moreover have "int (unat ?mtu) \<le> buffer_size (endpoint conv mtu)"
  proof -
    have "unat ((?mtu + IKCP_OVERHEAD) * 3) = (unat ?mtu + 24) * 3"
      using endpoint_mtu(2) [of conv mtu] by (simp add: unat_word_ariths IKCP_OVERHEAD_def)
    then have "uint ((?mtu + IKCP_OVERHEAD) * 3) = int ((unat ?mtu + 24) * 3)" by (metis of_nat_unat)
    then show ?thesis by (simp add: endpoint_fields(14) alloc_size_def del: of_nat_unat)
  qed
  ultimately show ?thesis by (simp del: of_nat_unat)
qed

text \<open>A run in which a datagram is repeated and two arrive in the wrong order.\<close>

definition some_run :: "link_event list" where
  "some_run = [Sends [1, 2, 3], Sends [4], Updates 0, Sends [5, 6], Updates 5, Arrives 1, Arrives 0, Arrives 0,
     Receives 9, Receives 9]"

lemma some_run_few: "segments_needed (unat (kcp_mss (endpoint 7 60))) some_run < 2 ^ 30"
  "\<forall>msg. Sends msg \<in> set some_run \<longrightarrow> length msg < 2 ^ 31"
proof -
  have "unat (kcp_mss (endpoint 7 60)) = 35" by code_simp
  then show "segments_needed (unat (kcp_mss (endpoint 7 60))) some_run < 2 ^ 30" by (simp add: some_run_def)
qed (simp add: some_run_def)

theorem kcp_delivers_in_order_witness:
  "\<exists>later. l_sent (link_run some_run (new_link 7 60 60)) = [[1, 2, 3], [4]] @ later"
proof -
  have "l_got (link_run some_run (new_link 7 60 60)) = [[1, 2, 3], [4]]" by code_simp
  then show ?thesis using kcp_delivers_in_order [OF some_run_few(2,1), of 60] by simp
qed

theorem kcp_datagrams_fit_witness:
  "0 < length (l_net (link_run some_run (new_link 7 60 60)) ! 0)
    \<and> length (l_net (link_run some_run (new_link 7 60 60)) ! 0) \<le> 59"
proof -
  have "0 < length (l_net (link_run some_run (new_link 7 60 60)))" by code_simp
  then have "l_net (link_run some_run (new_link 7 60 60)) ! 0 \<in> set (l_net (link_run some_run (new_link 7 60 60)))"
    by (rule nth_mem)
  moreover have "unat (kcp_mtu (endpoint 7 60)) = 59" by code_simp
  ultimately show ?thesis using kcp_datagrams_fit [OF some_run_few(2,1)] by fastforce
qed

end
