(* ===== verification/IkcpProps.thy ===== *)
theory IkcpProps
  imports KcpLink
begin

text \<open>
  More of KCP: progress of the receiver, datagrams taken apart, the timing of \<^verbatim>\<open>ikcp_check\<close>, the
  bounds of the retransmission timeout, and the messages that are accepted and never handed out.
\<close>

subsection \<open>Progress\<close>

lemma insert_back_first:
  assumes "rcv_good S got k" "carries S seg (unat (rcv_nxt k))" "nrcv_que k < rcv_wnd k"
  shows "\<exists>buf. (case insert_from_back seg (rev (rcv_buf k)) of None \<Rightarrow> k
      | Some segs \<Rightarrow> k\<lparr>rcv_buf := rev segs, nrcv_buf := nrcv_buf k + 1\<rparr>)
    = k\<lparr>rcv_buf := seg # buf, nrcv_buf := nrcv_buf k + 1\<rparr>"
proof -
  have ok: "rcv_buf_ok S k" "few S k" "rcv_settled k" using assms(1) by (simp_all add: rcv_good_def rcv_ok_def)
  have sn: "unat (seg_sn seg) = unat (rcv_nxt k)" using assms(2) by (simp add: carries_def)
  have later: "\<forall>s \<in> set (rcv_buf k). unat (seg_sn seg) < unat (seg_sn s)"
  proof
    fix s assume s: "s \<in> set (rcv_buf k)"
    then have "unat (rcv_nxt k) \<le> unat (seg_sn s)" "seg_sn s \<noteq> rcv_nxt k"
      using ok(1,3) assms(3) by (auto simp: rcv_settled_def rcv_buf_ok_def)
    then show "unat (seg_sn seg) < unat (seg_sn s)" using sn by (simp add: word_unat_eq_iff)
  qed
  have small: "\<forall>s \<in> insert seg (set (rcv_buf k)). unat (seg_sn s) < 2 ^ 31"
    using ok(1,2) assms(2) by (force simp: rcv_buf_ok_def carries_def few_def)
  have "insert_from_back seg segs = Some (segs @ [seg])"
    if "\<forall>s \<in> set segs. unat (seg_sn seg) < unat (seg_sn s)" "\<forall>s \<in> insert seg (set segs). unat (seg_sn s) < 2 ^ 31" for segs
    using that
  proof (induction segs)
    case (Cons s segs)
    have "seg_sn s \<noteq> seg_sn seg" using Cons.prems(1) by auto
    moreover have "\<not> itimediff (seg_sn seg) (seg_sn s) > 0"
      using Cons.prems by (subst itimediff_unat) (auto simp del: of_nat_unat)
    ultimately show ?case using Cons by simp
  qed simp
  from this [of "rev (rcv_buf k)"] later small show ?thesis by auto
qed

text \<open>
  The receiver makes progress: when the segment it waits for arrives and there is room in
  \<^verbatim>\<open>rcv_queue\<close>, it moves past that segment, and past all that had arrived before their turn: nothing
  that could be handed out stays in \<^verbatim>\<open>rcv_buf\<close>.
\<close>
theorem next_segment_advances:
  assumes "rcv_good S got k" "carries S seg (unat (rcv_nxt k))" "nrcv_que k < rcv_wnd k"
  shows "unat (rcv_nxt k) < unat (rcv_nxt (ikcp_parse_data seg k)) \<and> rcv_good S got (ikcp_parse_data seg k)
    \<and> (nrcv_que (ikcp_parse_data seg k) < rcv_wnd (ikcp_parse_data seg k) \<longrightarrow>
        (\<forall>s \<in> set (rcv_buf (ikcp_parse_data seg k)). seg_sn s \<noteq> rcv_nxt (ikcp_parse_data seg k)))"
proof -
  have g: "rcv_ok S got k" "few S k" "rcv_settled k" using assms(1) by (simp_all add: rcv_good_def)
  note p = parse_data_ok [OF g(1,2) assms(2)]
  obtain buf where b: "(case insert_from_back seg (rev (rcv_buf k)) of None \<Rightarrow> k
      | Some segs \<Rightarrow> k\<lparr>rcv_buf := rev segs, nrcv_buf := nrcv_buf k + 1\<rparr>)
    = k\<lparr>rcv_buf := seg # buf, nrcv_buf := nrcv_buf k + 1\<rparr>" (is "_ = ?k")
    using insert_back_first [OF assms] by blast
  have n: "unat (rcv_nxt k) < 2 ^ 30" "0 < unat (rcv_wnd k)" "unat (rcv_wnd k) < 2 ^ 30" "seg_sn seg = rcv_nxt k"
    using g(1,2) assms(2,3) by (auto simp: rcv_ok_def rcv_queue_ok_def few_def carries_def word_less_nat_alt word_unat_eq_iff)
  have "unat (rcv_nxt k + rcv_wnd k) = unat (rcv_nxt k) + unat (rcv_wnd k)" using n by (intro unat_add_u32) simp
  then have d: "itimediff (seg_sn seg) (rcv_nxt k + rcv_wnd k) < 0" "\<not> itimediff (seg_sn seg) (rcv_nxt k) < 0"
    using n by (auto simp: itimediff_unat simp del: of_nat_unat)
  then have e: "ikcp_parse_data seg k = move_available ?k" by (simp add: ikcp_parse_data_def b)
  have "rcv_buf_ok S ?k"
    unfolding b [symmetric] by (rule parse_data_buf [OF _ g(2) assms(2)]) (use g(1) n in \<open>auto simp: rcv_ok_def\<close>)
  moreover have q: "rcv_queue_ok S got ?k" "few S ?k" using g(1,2) by (simp_all add: rcv_ok_def rcv_queue_ok_def few_def)
  ultimately have k: "rcv_ok S got ?k" by (simp add: rcv_ok_def)
  let ?m = "?k\<lparr>rcv_buf := buf, nrcv_buf := nrcv_buf ?k - 1, rcv_queue := rcv_queue ?k @ [seg],
    nrcv_que := nrcv_que ?k + 1, rcv_nxt := rcv_nxt ?k + 1\<rparr>"
  have m: "rcv_ok S got ?m" by (rule move_one [OF k q(2)]) (use n assms(3) in simp_all)
  have "few S ?m" "rcv_buf ?m = buf" using q(2) by (simp_all add: few_def)
  note l = move_available_loop_ok [OF m this]
  have "move_available ?k = move_available_loop buf ?m" using n assms(3) by (simp add: move_available_def)
  then have "unat (rcv_nxt ?m) \<le> unat (rcv_nxt (ikcp_parse_data seg k))" using l e by simp
  moreover have "unat (rcv_nxt ?m) = Suc (unat (rcv_nxt k))" using n by (simp add: unat_Suc_u32)
  ultimately show ?thesis using p g(3) by (auto simp: rcv_good_def rcv_settled_def)
qed

theorem next_segment_advances_witness:
  "0 < unat (rcv_nxt (ikcp_parse_data ((segment_new [9])\<lparr>seg_len := 1\<rparr>) (endpoint 7 60)))"
proof -
  have "rcv_good [(0, [9])] [] (endpoint 7 60)"
    by (simp add: rcv_good_def rcv_ok_def rcv_buf_ok_def rcv_queue_ok_def few_def rcv_settled_def endpoint_fields(2,5,6,9,10,11))
  moreover have "carries [(0, [9])] ((segment_new [9])\<lparr>seg_len := 1\<rparr>) (unat (rcv_nxt (endpoint 7 60)))"
    by (simp add: carries_def endpoint_fields(2) segment_new_def chunk_of_def seg_wf_def)
  ultimately show ?thesis
    using next_segment_advances [of "[(0, [9])]" "[]" "endpoint 7 60" "(segment_new [9])\<lparr>seg_len := 1\<rparr>"]
    by (simp add: endpoint_fields(2,9,11))
qed

subsection \<open>Datagrams\<close>

text \<open>
  C36: \<^verbatim>\<open>ikcp_input\<close> takes a datagram apart into exactly the segments that were encoded into it,
  one after the other, whatever their data: each is handled with the header and the data it was
  encoded with.
\<close>
theorem datagram_parses_back:
  assumes "\<forall>seg \<in> set segs. seg_conv seg = kcp_conv k \<and> known_cmd (seg_cmd seg) \<and> unat (seg_frg seg) < 256
    \<and> unat (seg_len seg) = length (seg_data seg)"
  shows "input_loop (concat (map segment_bytes segs)) None k =
    (0, fold (\<lambda>seg m. newer_ack m (received_header seg)) segs None,
     fold (\<lambda>seg. input_segment (received_header seg) (seg_data seg)) segs k)"
proof -
  have "input_loop (concat (map segment_bytes segs)) None k = (0, input_all segs None k)"
    by (rule input_loop_segments) (use assms in \<open>simp add: wire_wf_def seg_wf_def\<close>)
  moreover have "input_all segs m k = (fold (\<lambda>seg m. newer_ack m (received_header seg)) segs m,
      fold (\<lambda>seg. input_segment (received_header seg) (seg_data seg)) segs k)" for m
    by (induction segs arbitrary: m k) (simp_all add: input_all_def)
  ultimately show ?thesis by simp
qed

theorem datagram_parses_back_witness:
  "fst (input_loop (concat (map segment_bytes [(segment_new [9, 8])\<lparr>seg_conv := 7, seg_cmd := 81, seg_len := 2\<rparr>,
     (segment_new [])\<lparr>seg_conv := 7, seg_cmd := 82, seg_sn := 3\<rparr>])) None (endpoint 7 60)) = 0"
  by (subst datagram_parses_back) (simp_all add: endpoint_fields(8) segment_new_def known_cmd_def ikcp_consts)

subsection \<open>Timing\<close>

lemma next_resend_le: "next_resend current segs tm = Some tm' \<Longrightarrow> 0 < tm \<Longrightarrow> 0 < tm' \<and> tm' \<le> tm"
  by (induction current segs tm rule: next_resend.induct) (auto simp: Let_def split: if_splits)

lemma u32_diff_less:
  assumes "unat (t - now :: u32) < d" "itimediff ts now = int d" "d \<le> 10000"
  shows "- 10000 \<le> itimediff t ts \<and> itimediff t ts < 0"
proof -
  have "ts - now = of_int (sint (ts - now))" by simp
  also have "\<dots> = of_nat d" using assms(2) by (simp add: itimediff_def)
  finally have "ts - now = of_nat d" .
  moreover have "t - ts = (t - now) - (ts - now)" by simp
  ultimately have w: "t - ts = word_of_int (int (unat (t - now)) - int d)" by simp
  have "- (2 ^ 31) \<le> int (unat (t - now)) - int d" "int (unat (t - now)) - int d < 2 ^ 31"
    using assms(1,3) by (simp_all del: of_nat_unat)
  from sint_of_int_u32 [OF this] have "itimediff t ts = int (unat (t - now)) - int d"
    by (simp only: itimediff_def w)
  then show ?thesis using assms(1,3) by linarith
qed

lemma itimediff_self [simp]: "itimediff a a = 0"
  by (simp add: itimediff_def)

lemma itimediff_swap: "- (2 ^ 31) < itimediff a b \<Longrightarrow> itimediff b a = - itimediff a b"
proof -
  assume l: "- (2 ^ 31) < itimediff a b"
  have "sint (a - b) < 2 ^ (LENGTH(32) - 1)" by (rule sint_lt)
  then have u: "itimediff a b < 2 ^ 31" by (simp add: itimediff_def)
  have "b - a = - of_int (sint (a - b))" by simp
  then have "b - a = word_of_int (- itimediff a b)" by (simp only: itimediff_def) simp
  then show ?thesis unfolding itimediff_def [of b a] using l u by (simp only:) (rule sint_of_int_u32, linarith+)
qed

text \<open>
  \<^verbatim>\<open>ikcp_check\<close> never lets a caller sleep past a flush: before the time it returns,
  \<^verbatim>\<open>ikcp_update\<close> has nothing to put out; and that time is at most the interval away.
\<close>
theorem check_never_oversleeps:
  assumes "updated k \<noteq> 0"
  shows "unat (ikcp_check now k - now) \<le> unat (kcp_interval k)
    \<and> (unat (t - now) < unat (ikcp_check now k - now) \<longrightarrow> snd (ikcp_update t k) = [])"
proof (cases "ikcp_check now k = now")
  case False
  let ?d = "itimediff now (ts_flush k)"
  have r: "- 10000 \<le> ?d" "?d < 0"
    using False assms by (auto simp: ikcp_check_def Let_def split: if_splits)
  define d where "d = nat (- ?d)"
  have d: "itimediff (ts_flush k) now = int d" "0 < d" "d \<le> 10000"
    using itimediff_swap [of now "ts_flush k"] r by (simp_all add: d_def)
  obtain tm where tm: "next_resend now (snd_buf k) 0x7fffffff = Some tm"
    using False assms r by (auto simp: ikcp_check_def Let_def split: option.splits if_splits)
  define m where "m = nat (if tm < int d then tm else int d)"
  have m: "(if tm < int d then tm else int d) = int m" "m \<le> d" using next_resend_le [OF tm] by (auto simp: m_def)
  have c: "ikcp_check now k - now = (if of_nat m \<ge> kcp_interval k then kcp_interval k else of_nat m)"
    using False assms r m(1) d by (simp add: ikcp_check_def Let_def tm)
  have u: "unat (of_nat m :: u32) = m" by (rule unat_of_nat_u32) (use m(2) d(3) in simp)
  have le: "unat (ikcp_check now k - now) \<le> unat (kcp_interval k)" "unat (ikcp_check now k - now) \<le> d"
    using m(2) u by (auto simp: c word_le_nat_alt)
  have "snd (ikcp_update t k) = []" if "unat (t - now) < unat (ikcp_check now k - now)"
  proof -
    have "unat (t - now) < d" using that le(2) by linarith
    from u32_diff_less [OF this d(1,3)] show ?thesis
      using assms by (simp add: ikcp_update_def update_timer_def Let_def)
  qed
  then show ?thesis using le(1) by blast
qed simp

theorem check_never_oversleeps_witness:
  "unat (ikcp_check 2 (fst (ikcp_update 0 (endpoint 7 60))) - 2) = 8
    \<and> snd (ikcp_update 9 (fst (ikcp_update 0 (endpoint 7 60)))) = []"
proof -
  have u: "updated (fst (ikcp_update 0 (endpoint 7 60))) \<noteq> 0" by code_simp
  have c: "ikcp_check 2 (fst (ikcp_update 0 (endpoint 7 60))) = 10" by code_simp
  show ?thesis using check_never_oversleeps [OF u, of 2 9] by (simp add: c)
qed

text \<open>
  The retransmission timeout stays between the minimum that was set and a minute, whatever
  round trip times are measured and whatever was stored before, overflow included.
\<close>
theorem rto_stays_bounded:
  assumes "0 \<le> rx_minrto k" "rx_minrto k \<le> 60000"
  shows "rx_minrto k \<le> rx_rto (ikcp_update_ack rtt k) \<and> rx_rto (ikcp_update_ack rtt k) \<le> 60000"
proof -
  have b: "rx_minrto k \<le> sint (ibound (word_of_int (rx_minrto k)) w IKCP_RTO_MAX)
    \<and> sint (ibound (word_of_int (rx_minrto k)) w IKCP_RTO_MAX) \<le> 60000" for w
  proof -
    have m: "unat (word_of_int (rx_minrto k) :: u32) = nat (rx_minrto k)"
      using assms unat_of_nat_u32 [of "nat (rx_minrto k)"] by simp
    let ?b = "ibound (word_of_int (rx_minrto k)) w IKCP_RTO_MAX"
    have "nat (rx_minrto k) \<le> unat ?b" "unat ?b \<le> 60000"
      using m assms by (auto simp: ibound_def imin_def imax_def word_le_nat_alt IKCP_RTO_MAX_def)
    moreover from this(2) have "sint ?b = int (unat ?b)" by (intro sint_unat) simp
    ultimately show ?thesis using assms by (simp del: of_nat_unat)
  qed
  show ?thesis using b by (simp add: ikcp_update_ack_def Let_def)
qed

theorem rto_stays_bounded_witness:
  "10 \<le> rx_rto (ikcp_update_ack 5 (endpoint 7 60)) \<and> rx_rto (ikcp_update_ack 5 (endpoint 7 60)) \<le> 60000"
  using rto_stays_bounded [of "endpoint 7 60" 5]
  by (simp add: endpoint_def ikcp_setmtu_def ikcp_nodelay_def ikcp_create_def ikcp_consts Let_def)

subsection \<open>Messages that block the link\<close>

text \<open>
  \<^verbatim>\<open>ikcp_send\<close> accepts up to 255 chunks, but a message of more chunks than the receive window is
  never complete in \<^verbatim>\<open>rcv_queue\<close>: it is never handed out, and neither is anything sent after it.
\<close>
lemma oversized_message_blocks:
  assumes "rcv_good (concat Ms) (concat (take r Ms)) k" "r < length Ms" "is_message (Ms ! r) msg"
    "unat (rcv_wnd k) < length (Ms ! r)"
  shows "fst (fst (ikcp_recv len k)) < 0 \<and> snd (ikcp_recv len k) = k"
proof (cases "rcv_queue k = []")
  case False
  have q: "rcv_queue_ok (concat Ms) (concat (take r Ms)) k" "few (concat Ms) k"
    using assms(1) by (simp_all add: rcv_good_def rcv_ok_def)
  have "(concat (take r Ms) @ map chunk_of (rcv_queue k)) @ drop (unat (rcv_nxt k)) (concat Ms) = concat Ms"
    using q(1) by (simp only: rcv_queue_ok_def append_take_drop_id)
  also have "concat Ms = concat (take r Ms @ Ms ! r # drop (Suc r) Ms)"
    using assms(2) by (simp add: id_take_nth_drop [symmetric])
  finally have m: "map chunk_of (rcv_queue k) @ drop (unat (rcv_nxt k)) (concat Ms) = Ms ! r @ concat (drop (Suc r) Ms)" by simp
  have "length (rcv_queue k) < length (Ms ! r)" using q(1) assms(4) by (simp add: rcv_queue_ok_def)
  then show ?thesis using peeksize_message(1) [OF m assms(3) q False] False by (simp add: ikcp_recv_def)
qed (simp add: ikcp_recv_def)

text \<open>
  Setting a smaller MTU while longer segments wait lets a flush write past the new buffer: a segment
  of 230 bytes and its header do not fit the 222 bytes that are allocated for an MTU of 50.
\<close>
lemma smaller_mtu_overruns:
  "let k = snd (ikcp_setmtu True 50 (snd (send_msg (replicate 230 0) (endpoint 7 400))));
       (k', outs) = ikcp_update 0 k
   in int (length (hd outs)) > buffer_size k"
  by code_simp

end
