(* ===== verification/TwoKeyMap.thy ===== *)
theory TwoKeyMap
  imports OrderedMap
begin

text \<open>
  \<^verbatim>\<open>KKkcp/KKTwoKeyMap.h\<close>: objects found under either of two keys. The maps are
  those of \<open>OrderedMap\<close>; an iterator is the rest of the list. The interface \<open>two_keys\<close> states
  what the connection manager and the transponder rely on.
\<close>

subsection \<open>The two keys\<close>

record ('k1, 'k2, 'v) TKKTwoKeyMap =
  m_Map1 :: "('k1 \<times> 'v) list"
  m_Map2 :: "('k2 \<times> 'v) list"
  m_Map3 :: "('v \<times> ('k1 \<times> 'k2)) list"

definition empty_TwoKeyMap :: "('k1, 'k2, 'v) TKKTwoKeyMap" where
  "empty_TwoKeyMap = \<lparr>m_Map1 = [], m_Map2 = [], m_Map3 = []\<rparr>"

definition Key1Find :: "'k1 \<Rightarrow> ('k1, 'k2, 'v) TKKTwoKeyMap \<Rightarrow> 'v option" where
  "Key1Find k1 m = map_of (m_Map1 m) k1"

definition Key2Find :: "'k2 \<Rightarrow> ('k1, 'k2, 'v) TKKTwoKeyMap \<Rightarrow> 'v option" where
  "Key2Find k2 m = map_of (m_Map2 m) k2"

definition set_Map3 :: "'v::linorder \<Rightarrow> ('k1 \<times> 'k2) \<Rightarrow> ('k1 \<times> 'k2 \<Rightarrow> 'k1 \<times> 'k2) \<Rightarrow> ('v \<times> ('k1 \<times> 'k2)) list \<Rightarrow> ('v \<times> ('k1 \<times> 'k2)) list" where
  "set_Map3 v keys upd m3 = (case map_of m3 v of None \<Rightarrow> map_insert v keys m3 | Some _ \<Rightarrow> map_assign v upd m3)"

definition tk_insert :: "'k1::linorder \<Rightarrow> 'k2::linorder \<Rightarrow> 'v::linorder \<Rightarrow> ('k1, 'k2, 'v) TKKTwoKeyMap \<Rightarrow> ('k1, 'k2, 'v) TKKTwoKeyMap" where
  "tk_insert k1 k2 v m =
     m\<lparr>m_Map1 := map_insert k1 v (m_Map1 m), m_Map2 := map_insert k2 v (m_Map2 m),
       m_Map3 := set_Map3 v (k1, k2) (\<lambda>_. (k1, k2)) (m_Map3 m)\<rparr>"

definition Key1Insert :: "'k1::linorder \<Rightarrow> 'v::linorder \<Rightarrow> ('k1, 'k2::zero, 'v) TKKTwoKeyMap \<Rightarrow> ('k1, 'k2, 'v) TKKTwoKeyMap" where
  "Key1Insert k1 v m = m\<lparr>m_Map1 := map_insert k1 v (m_Map1 m), m_Map3 := set_Map3 v (k1, 0) (\<lambda>(_, k2). (k1, k2)) (m_Map3 m)\<rparr>"

definition key2insert :: "'k1 \<Rightarrow> 'k2::linorder \<Rightarrow> 'v::linorder \<Rightarrow> ('k1, 'k2, 'v) TKKTwoKeyMap \<Rightarrow> ('k1, 'k2, 'v) TKKTwoKeyMap" where
  "key2insert k1 k2 v m = m\<lparr>m_Map2 := map_insert k2 v (m_Map2 m), m_Map3 := set_Map3 v (k1, k2) (\<lambda>(k1', _). (k1', k2)) (m_Map3 m)\<rparr>"

text \<open>
  \<^verbatim>\<open>Key1Del\<close>, with the iterator it returns. When the key is not there, \<^verbatim>\<open>It3\<close> is still the
  beginning of \<^verbatim>\<open>m_Map3\<close>, and what it points to is erased.
\<close>

definition Key1Del :: "'k1::linorder \<Rightarrow> ('k1, 'k2, 'v) TKKTwoKeyMap \<Rightarrow> ('k1 \<times> 'v) list \<times> ('k1, 'k2, 'v) TKKTwoKeyMap" where
  "Key1Del k1 m =
     (case map_of (m_Map1 m) k1 of
        None \<Rightarrow> ([], m\<lparr>m_Map3 := tl (m_Map3 m)\<rparr>)
      | Some v \<Rightarrow>
          (tl (dropWhile (\<lambda>e. fst e \<noteq> k1) (m_Map1 m)),
           m\<lparr>m_Map1 := map_erase k1 (m_Map1 m),
             m_Map2 := (case map_of (m_Map3 m) v of None \<Rightarrow> m_Map2 m | Some keys \<Rightarrow> map_erase (snd keys) (m_Map2 m)),
             m_Map3 := map_erase v (m_Map3 m)\<rparr>))"

lemma Key1Del_length:
  assumes "Key1Del k m = (it, m')"
  shows "length (m_Map1 m') < length (m_Map1 m) \<or> length (m_Map1 m') = length (m_Map1 m) \<and> it = []"
proof (cases "map_of (m_Map1 m) k")
  case None
  then show ?thesis using assms by (auto simp: Key1Del_def)
next
  case (Some v)
  then have "(k, v) \<in> set (m_Map1 m)" by (rule map_of_SomeD)
  then have "length (map_erase k (m_Map1 m)) < length (m_Map1 m)" unfolding map_erase_def by (rule length_filter_less) simp
  then show ?thesis using assms Some by (auto simp: Key1Del_def)
qed

subsection \<open>The interface\<close>

locale two_keys =
  fixes ok :: "'m \<Rightarrow> bool" and find1 :: "'k1 \<Rightarrow> 'm \<Rightarrow> 'v option" and find2 :: "'k2 \<Rightarrow> 'm \<Rightarrow> 'v option"
    and held :: "'m \<Rightarrow> 'v set" and insert :: "'k1 \<Rightarrow> 'k2 \<Rightarrow> 'v \<Rightarrow> 'm \<Rightarrow> 'm" and del :: "'k1 \<Rightarrow> 'm \<Rightarrow> 'm"
  assumes insert_ok: "ok m \<Longrightarrow> find1 k1 m = None \<Longrightarrow> find2 k2 m = None \<Longrightarrow> v \<notin> held m \<Longrightarrow>
      ok (insert k1 k2 v m) \<and> held (insert k1 k2 v m) = Set.insert v (held m)
      \<and> find1 l1 (insert k1 k2 v m) = (if l1 = k1 then Some v else find1 l1 m)
      \<and> find2 l2 (insert k1 k2 v m) = (if l2 = k2 then Some v else find2 l2 m)"
    and del_ok: "ok m \<Longrightarrow> find1 k1 m = Some v \<Longrightarrow>
      ok (del k1 m) \<and> held (del k1 m) = held m - {v}
      \<and> find1 l1 (del k1 m) = (if l1 = k1 then None else find1 l1 m)
      \<and> find2 l2 (del k1 m) = (if find2 l2 m = Some v then None else find2 l2 m)"
    and found_held: "ok m \<Longrightarrow> find1 k1 m = Some v \<Longrightarrow> v \<in> held m" "ok m \<Longrightarrow> find2 k2 m = Some v \<Longrightarrow> v \<in> held m"
    and found_once: "ok m \<Longrightarrow> find1 k1 m = Some v \<Longrightarrow> find1 l1 m = Some v \<Longrightarrow> k1 = l1"
      "ok m \<Longrightarrow> find2 k2 m = Some v \<Longrightarrow> find2 l2 m = Some v \<Longrightarrow> k2 = l2"
    and held_found: "ok m \<Longrightarrow> v \<in> held m \<Longrightarrow> \<exists>k1 k2. find1 k1 m = Some v \<and> find2 k2 m = Some v"

text \<open>Every object is held under both of its keys.\<close>

definition tk_ok :: "('k1::linorder, 'k2::linorder, 'v::linorder) TKKTwoKeyMap \<Rightarrow> bool" where
  "tk_ok m \<longleftrightarrow> map_ok (m_Map1 m) \<and> map_ok (m_Map2 m) \<and> map_ok (m_Map3 m)
     \<and> (\<forall>k1 v. map_of (m_Map1 m) k1 = Some v \<longleftrightarrow> (\<exists>k2. map_of (m_Map3 m) v = Some (k1, k2)))
     \<and> (\<forall>k2 v. map_of (m_Map2 m) k2 = Some v \<longleftrightarrow> (\<exists>k1. map_of (m_Map3 m) v = Some (k1, k2)))"

definition tk_held :: "('k1, 'k2, 'v) TKKTwoKeyMap \<Rightarrow> 'v set" where
  "tk_held m = dom (map_of (m_Map3 m))"

definition tk_del :: "'k1::linorder \<Rightarrow> ('k1, 'k2, 'v) TKKTwoKeyMap \<Rightarrow> ('k1, 'k2, 'v) TKKTwoKeyMap" where
  "tk_del k1 m = snd (Key1Del k1 m)"

lemma tk_insert_law:
  assumes "tk_ok m" "Key1Find k1 m = None" "Key2Find k2 m = None" "v \<notin> tk_held m"
  shows "tk_ok (tk_insert k1 k2 v m) \<and> tk_held (tk_insert k1 k2 v m) = Set.insert v (tk_held m)
      \<and> Key1Find l1 (tk_insert k1 k2 v m) = (if l1 = k1 then Some v else Key1Find l1 m)
      \<and> Key2Find l2 (tk_insert k1 k2 v m) = (if l2 = k2 then Some v else Key2Find l2 m)"
proof -
  let ?m = "tk_insert k1 k2 v m"
  have ok: "map_ok (m_Map1 m)" "map_ok (m_Map2 m)" "map_ok (m_Map3 m)"
    "\<And>k1 v. map_of (m_Map1 m) k1 = Some v \<longleftrightarrow> (\<exists>k2. map_of (m_Map3 m) v = Some (k1, k2))"
    "\<And>k2 v. map_of (m_Map2 m) k2 = Some v \<longleftrightarrow> (\<exists>k1. map_of (m_Map3 m) v = Some (k1, k2))"
    using assms(1) by (simp_all add: tk_ok_def)
  have n: "map_of (m_Map3 m) v = None" using assms(4) by (auto simp: tk_held_def)
  have e: "map_of (m_Map1 ?m) = (map_of (m_Map1 m))(k1 \<mapsto> v)" "map_of (m_Map2 ?m) = (map_of (m_Map2 m))(k2 \<mapsto> v)"
    "map_of (m_Map3 ?m) = (map_of (m_Map3 m))(v \<mapsto> (k1, k2))"
    using assms(2,3) ok(1-3) n by (simp_all add: tk_insert_def set_Map3_def Key1Find_def Key2Find_def)
  have mo: "map_ok (m_Map1 ?m)" "map_ok (m_Map2 ?m)" "map_ok (m_Map3 ?m)"
    using ok(1-3) n by (simp_all add: tk_insert_def set_Map3_def)
  have u1: "map_of (m_Map3 m) w \<noteq> Some (k1, l)" for w l using ok(4) [of k1 w] assms(2) by (auto simp: Key1Find_def)
  have u2: "map_of (m_Map3 m) w \<noteq> Some (l, k2)" for w l using ok(5) [of k2 w] assms(3) by (auto simp: Key2Find_def)
  have "tk_ok ?m" unfolding tk_ok_def e
  proof (intro conjI mo allI)
    show "((map_of (m_Map1 m))(k1 \<mapsto> v)) l = Some w \<longleftrightarrow> (\<exists>k. ((map_of (m_Map3 m))(v \<mapsto> (k1, k2))) w = Some (l, k))" for l w
      using u1 [of w] n ok(4) [of l w] by auto
    show "((map_of (m_Map2 m))(k2 \<mapsto> v)) l = Some w \<longleftrightarrow> (\<exists>k. ((map_of (m_Map3 m))(v \<mapsto> (k1, k2))) w = Some (k, l))" for l w
      using u2 [of w] n ok(5) [of l w] by auto
  qed
  then show ?thesis using e by (auto simp: tk_held_def Key1Find_def Key2Find_def)
qed

lemma tk_del_law:
  assumes "tk_ok m" "Key1Find k1 m = Some v"
  shows "tk_ok (tk_del k1 m) \<and> tk_held (tk_del k1 m) = tk_held m - {v}
      \<and> Key1Find l1 (tk_del k1 m) = (if l1 = k1 then None else Key1Find l1 m)
      \<and> Key2Find l2 (tk_del k1 m) = (if Key2Find l2 m = Some v then None else Key2Find l2 m)"
proof -
  let ?m = "tk_del k1 m"
  have ok: "map_ok (m_Map1 m)" "map_ok (m_Map2 m)" "map_ok (m_Map3 m)"
    "\<And>k1 v. map_of (m_Map1 m) k1 = Some v \<longleftrightarrow> (\<exists>k2. map_of (m_Map3 m) v = Some (k1, k2))"
    "\<And>k2 v. map_of (m_Map2 m) k2 = Some v \<longleftrightarrow> (\<exists>k1. map_of (m_Map3 m) v = Some (k1, k2))"
    using assms(1) by (simp_all add: tk_ok_def)
  have f: "map_of (m_Map1 m) k1 = Some v" using assms(2) by (simp add: Key1Find_def)
  then obtain k2 where k2: "map_of (m_Map3 m) v = Some (k1, k2)" using ok(4) by blast
  have e: "map_of (m_Map1 ?m) = (map_of (m_Map1 m))(k1 := None)" "map_of (m_Map2 ?m) = (map_of (m_Map2 m))(k2 := None)"
    "map_of (m_Map3 ?m) = (map_of (m_Map3 m))(v := None)"
    by (simp_all add: tk_del_def Key1Del_def f k2)
  have mo: "map_ok (m_Map1 ?m)" "map_ok (m_Map2 ?m)" "map_ok (m_Map3 ?m)"
    using ok(1-3) by (simp_all add: tk_del_def Key1Del_def f k2)
  have u1: "w \<noteq> v \<Longrightarrow> map_of (m_Map3 m) w \<noteq> Some (k1, l)" for w l using ok(4) [of k1 w] f by auto
  have u2: "w \<noteq> v \<Longrightarrow> map_of (m_Map3 m) w \<noteq> Some (l, k2)" for w l using ok(5) [of k2 w] ok(5) [of k2 v] k2 by auto
  have "tk_ok ?m" unfolding tk_ok_def e
  proof (intro conjI mo allI)
    show "((map_of (m_Map1 m))(k1 := None)) l = Some w \<longleftrightarrow> (\<exists>k. ((map_of (m_Map3 m))(v := None)) w = Some (l, k))" for l w
    proof (cases "l = k1 \<or> w = v")
      case True
      then show ?thesis using u1 [of w] k2 ok(4) [of l v] by (cases "l = k1"; cases "w = v") simp_all
    next
      case False
      then show ?thesis using ok(4) [of l w] by simp
    qed
    show "((map_of (m_Map2 m))(k2 := None)) l = Some w \<longleftrightarrow> (\<exists>k. ((map_of (m_Map3 m))(v := None)) w = Some (k, l))" for l w
    proof (cases "l = k2 \<or> w = v")
      case True
      then show ?thesis using u2 [of w] k2 ok(5) [of l v] by (cases "l = k2"; cases "w = v") simp_all
    next
      case False
      then show ?thesis using ok(5) [of l w] by simp
    qed
  qed
  moreover have "Key2Find l2 ?m = (if Key2Find l2 m = Some v then None else Key2Find l2 m)"
    using ok(5) [of l2 v] k2 e(2) by (auto simp: Key2Find_def)
  ultimately show ?thesis using e by (auto simp: tk_held_def Key1Find_def)
qed

interpretation connections: two_keys tk_ok Key1Find Key2Find tk_held tk_insert tk_del
proof unfold_locales
  show "tk_ok m \<Longrightarrow> Key1Find k1 m = Some v \<Longrightarrow> v \<in> tk_held m" for m :: "('a, 'b, 'c) TKKTwoKeyMap" and k1 v
    by (auto simp: tk_ok_def Key1Find_def tk_held_def)
  show "tk_ok m \<Longrightarrow> Key2Find k2 m = Some v \<Longrightarrow> v \<in> tk_held m" for m :: "('a, 'b, 'c) TKKTwoKeyMap" and k2 v
    by (auto simp: tk_ok_def Key2Find_def tk_held_def)
  show "tk_ok m \<Longrightarrow> Key1Find k1 m = Some v \<Longrightarrow> Key1Find l1 m = Some v \<Longrightarrow> k1 = l1"
    for m :: "('a, 'b, 'c) TKKTwoKeyMap" and k1 l1 v by (auto simp: tk_ok_def Key1Find_def)
  show "tk_ok m \<Longrightarrow> Key2Find k2 m = Some v \<Longrightarrow> Key2Find l2 m = Some v \<Longrightarrow> k2 = l2"
    for m :: "('a, 'b, 'c) TKKTwoKeyMap" and k2 l2 v by (auto simp: tk_ok_def Key2Find_def)
  show "tk_ok m \<Longrightarrow> v \<in> tk_held m \<Longrightarrow> \<exists>k1 k2. Key1Find k1 m = Some v \<and> Key2Find k2 m = Some v"
    for m :: "('a, 'b, 'c) TKKTwoKeyMap" and v by (auto simp: tk_ok_def Key1Find_def Key2Find_def tk_held_def)
  show "tk_ok m \<Longrightarrow> Key1Find k1 m = None \<Longrightarrow> Key2Find k2 m = None \<Longrightarrow> v \<notin> tk_held m \<Longrightarrow>
      tk_ok (tk_insert k1 k2 v m) \<and> tk_held (tk_insert k1 k2 v m) = Set.insert v (tk_held m)
      \<and> Key1Find l1 (tk_insert k1 k2 v m) = (if l1 = k1 then Some v else Key1Find l1 m)
      \<and> Key2Find l2 (tk_insert k1 k2 v m) = (if l2 = k2 then Some v else Key2Find l2 m)"
    for m :: "('a, 'b, 'c) TKKTwoKeyMap" and k1 k2 v l1 l2 by (rule tk_insert_law)
  show "tk_ok m \<Longrightarrow> Key1Find k1 m = Some v \<Longrightarrow>
      tk_ok (tk_del k1 m) \<and> tk_held (tk_del k1 m) = tk_held m - {v}
      \<and> Key1Find l1 (tk_del k1 m) = (if l1 = k1 then None else Key1Find l1 m)
      \<and> Key2Find l2 (tk_del k1 m) = (if Key2Find l2 m = Some v then None else Key2Find l2 m)"
    for m :: "('a, 'b, 'c) TKKTwoKeyMap" and k1 v l1 l2 by (rule tk_del_law)
qed

lemma empty_tk_ok: "tk_ok empty_TwoKeyMap" "tk_held empty_TwoKeyMap = {}" "Key1Find k1 empty_TwoKeyMap = None"
  "Key2Find k2 empty_TwoKeyMap = None"
  by (simp_all add: tk_ok_def tk_held_def empty_TwoKeyMap_def map_ok_def Key1Find_def Key2Find_def)


end
