(* ===== verification/KKAddr.thy ===== *)
theory KKAddr
  imports Prelude
begin

text \<open>
  \<^verbatim>\<open>kkRes/socket/kkAddr\<close>: addresses of peers, and the texts under which their connections are
  kept. The text of an address determines the address: no two peers share a connection.
\<close>

subsection \<open>Decimal numbers\<close>

definition digit_char :: "nat \<Rightarrow> char" where
  "digit_char d = ''0123456789abcdef'' ! d"

text \<open>The loop of \<^verbatim>\<open>Itoa\<close>: the digits, last one first; \<open>q\<close> is \<^verbatim>\<open>quotient\<close>.\<close>

function itoa_digits :: "int \<Rightarrow> int \<Rightarrow> string" where
  "itoa_digits q base =
     (let c = digit_char (nat \<bar>q - c_div q base * base\<bar>); q' = c_div q base
      in if base < 2 then [] else if q' = 0 then [c] else c # itoa_digits q' base)"
  by auto
termination
proof (relation "measure (\<lambda>(q, base). nat \<bar>q\<bar>)")
  fix q base :: int and c q'
  assume a: "c = digit_char (nat \<bar>q - c_div q base * base\<bar>)" "q' = c_div q base" "\<not> base < 2" "q' \<noteq> 0"
  have "\<bar>q\<bar> div \<bar>base\<bar> < \<bar>q\<bar>" if "q \<noteq> 0" using that a(3) by (intro int_div_less_self) auto
  moreover have "q \<noteq> 0" using a(2,4) by (auto simp: c_div_def)
  moreover have "\<bar>c_div q base\<bar> = \<bar>q\<bar> div \<bar>base\<bar>" if "q \<noteq> 0"
    using that a(3) by (simp add: c_div_def abs_mult pos_imp_zdiv_nonneg_iff)
  ultimately show "((q', base), q, base) \<in> measure (\<lambda>(q, base). nat \<bar>q\<bar>)" using a(2) by auto
qed auto

declare itoa_digits.simps [simp del]

definition Itoa :: "int \<Rightarrow> int \<Rightarrow> string" where
  "Itoa value base = (if base < 2 \<or> base > 16 then []
     else rev (itoa_digits value base @ (if value < 0 \<and> base = 10 then ''-'' else [])))"

text \<open>Reading the text back.\<close>

definition digits :: "char set" where
  "digits = set ''0123456789''"

definition digit_of :: "char \<Rightarrow> nat" where
  "digit_of c = of_char c - 48"

definition decimal_value :: "string \<Rightarrow> nat" where
  "decimal_value ds = foldl (\<lambda>n c. 10 * n + digit_of c) 0 ds"

definition read_decimal :: "string \<Rightarrow> int" where
  "read_decimal s = (case s of [] \<Rightarrow> 0
     | c # ds \<Rightarrow> if c = CHR ''-'' then - int (decimal_value ds) else int (decimal_value (c # ds)))"

lemma digit_char_cases: "d < 10 \<Longrightarrow> digit_of (digit_char d) = d \<and> digit_char d \<in> digits"
proof -
  have "list_all (\<lambda>d. digit_of (digit_char d) = d \<and> digit_char d \<in> set ''0123456789'') [0..<10]" by code_simp
  then show "d < 10 \<Longrightarrow> digit_of (digit_char d) = d \<and> digit_char d \<in> digits"
    by (simp only: list_all_iff set_upt digits_def) simp
qed

lemma c_div_10: "\<bar>q - c_div q 10 * 10\<bar> = \<bar>q\<bar> mod 10" "\<bar>c_div q 10\<bar> = \<bar>q\<bar> div 10"
proof -
  have "c_div q 10 = (if q < 0 then - (- q div 10) else q div 10)" by (simp add: c_div_def sgn_if)
  then show "\<bar>q - c_div q 10 * 10\<bar> = \<bar>q\<bar> mod 10" "\<bar>c_div q 10\<bar> = \<bar>q\<bar> div 10"
    by (auto simp: abs_if minus_div_mult_eq_mod [of "- q" 10] minus_div_mult_eq_mod [of q 10]) presburger+
qed

lemma itoa_digits_spec:
  "base = 10 \<Longrightarrow> int (foldr (\<lambda>c n. 10 * n + digit_of c) (itoa_digits q base) 0) = \<bar>q\<bar>
    \<and> set (itoa_digits q base) \<subseteq> digits \<and> itoa_digits q base \<noteq> []"
proof (induction q base rule: itoa_digits.induct)
  case (1 q base)
  let ?d = "nat (\<bar>q\<bar> mod 10)"
  have d: "nat \<bar>q - c_div q 10 * 10\<bar> = ?d" by (simp only: c_div_10)
  have lt: "?d < 10" by simp
  note dc = digit_char_cases [OF lt]
  show ?case
  proof (cases "c_div q 10 = 0")
    case True
    then have "\<bar>q\<bar> div 10 = 0" using c_div_10(2) [of q] by simp
    then have "int ?d = \<bar>q\<bar>" by (simp add: zmod_trivial_iff)
    then show ?thesis using True dc 1(2) by (subst (1 2 3) itoa_digits.simps) (simp add: d)
  next
    case False
    have "int (foldr (\<lambda>c n. 10 * n + digit_of c) (itoa_digits (c_div q 10) 10) 0) = \<bar>q\<bar> div 10"
      "set (itoa_digits (c_div q 10) 10) \<subseteq> digits"
      using "1.IH" [OF refl refl] False 1(2) c_div_10(2) [of q] by auto
    then show ?thesis using False dc 1(2) by (subst (1 2 3) itoa_digits.simps) (simp add: d)
  qed
qed

lemma Itoa_10: "Itoa v 10 = (if v < 0 then ''-'' else []) @ rev (itoa_digits v 10)"
  by (simp add: Itoa_def)

lemma Itoa_chars: "set (Itoa v 10) \<subseteq> insert (CHR ''-'') digits" "0 \<le> v \<Longrightarrow> set (Itoa v 10) \<subseteq> digits"
  using itoa_digits_spec [of 10 v] by (auto simp: Itoa_10)

lemma read_Itoa: "read_decimal (Itoa v 10) = v"
proof -
  note i = itoa_digits_spec [OF refl, of v]
  have f: "int (decimal_value (rev (itoa_digits v 10))) = \<bar>v\<bar>"
    using i by (simp add: decimal_value_def foldl_conv_foldr)
  show ?thesis
  proof (cases "v < 0")
    case True
    then have "Itoa v 10 = CHR ''-'' # rev (itoa_digits v 10)" by (simp add: Itoa_10)
    then show ?thesis using True f by (simp add: read_decimal_def)
  next
    case False
    obtain c ds where c: "rev (itoa_digits v 10) = c # ds" using i by (cases "rev (itoa_digits v 10)") auto
    then have "c \<in> set (itoa_digits v 10)" by (metis list.set_intros(1) set_rev)
    then have "c \<in> digits" using i by blast
    then have "c \<noteq> CHR ''-''" by (auto simp: digits_def)
    moreover have "Itoa v 10 = c # ds" using False c by (simp add: Itoa_10)
    ultimately show ?thesis using False f c by (simp add: read_decimal_def)
  qed
qed

lemma Itoa_inj: "Itoa v 10 = Itoa w 10 \<Longrightarrow> v = w"
  by (metis read_Itoa)

subsection \<open>Addresses\<close>

text \<open>
  \<open>s_addr\<close> is in network order, as in \<^verbatim>\<open>sockaddr_in\<close>; the port is in host order. \<^verbatim>\<open>inet_ntoa\<close>
  and \<^verbatim>\<open>inet_addr\<close> are the functions of the C library; the latter, which parses, is an argument.
\<close>

record KKAddress =
  s_addr :: u32
  sin_port :: u16
  DestTranId :: u64

definition inet_ntoa :: "u32 \<Rightarrow> string" where
  "inet_ntoa ip = (let b = (\<lambda>n. Itoa (uint (ucast (drop_bit n ip) :: u8)) 10)
     in b 0 @ ''.'' @ b 8 @ ''.'' @ b 16 @ ''.'' @ b 24)"

definition FromString :: "(string \<Rightarrow> u32) \<Rightarrow> string \<Rightarrow> u16 \<Rightarrow> u64 \<Rightarrow> KKAddress" where
  "FromString inet_addr str port nDestTranId = \<lparr>s_addr = inet_addr str, sin_port = port, DestTranId = nDestTranId\<rparr>"

definition GetPort :: "KKAddress \<Rightarrow> u16" where
  "GetPort a = sin_port a"

text \<open>The conversion of an unsigned argument to the \<^verbatim>\<open>int\<close> that \<^verbatim>\<open>Itoa\<close> takes.\<close>

definition tran_text :: "u64 \<Rightarrow> string" where
  "tran_text n = Itoa (sint (ucast n :: u32)) 10"

definition ToString2 :: "u64 \<Rightarrow> char \<Rightarrow> KKAddress \<Rightarrow> string" where
  "ToString2 nDestTranId d a = inet_ntoa (s_addr a) @ [d] @ Itoa (uint (sin_port a)) 10
     @ (if nDestTranId > 0 then [d] @ tran_text nDestTranId else [])"

definition ToString :: "bool \<Rightarrow> char \<Rightarrow> KKAddress \<Rightarrow> string" where
  "ToString writePort d a = inet_ntoa (s_addr a) @ (if writePort
     then [d] @ Itoa (uint (sin_port a)) 10 @ (if DestTranId a > 0 then [d] @ tran_text (DestTranId a) else []) else [])"

definition addr_eq :: "KKAddress \<Rightarrow> KKAddress \<Rightarrow> bool" where
  "addr_eq a b \<longleftrightarrow> sin_port a = sin_port b \<and> s_addr a = s_addr b"

text \<open>Texts without the separator before it determine both sides.\<close>

lemma separated: "d \<notin> set xs \<Longrightarrow> d \<notin> set xs' \<Longrightarrow> xs @ [d] @ ys = xs' @ [d] @ ys' \<longleftrightarrow> xs = xs' \<and> ys = ys'"
proof (induction xs arbitrary: xs')
  case Nil
  then show ?case by (cases xs') auto
next
  case (Cons x xs)
  then show ?case by (cases xs') auto
qed

lemma not_in_Itoa: "d \<notin> insert (CHR ''-'') digits \<Longrightarrow> d \<notin> set (Itoa v 10)"
  using Itoa_chars(1) by blast

lemma u32_bytes_of: "(\<forall>n \<in> {0, 8, 16, 24}. (ucast (drop_bit n a) :: u8) = ucast (drop_bit n b)) \<Longrightarrow> a = (b :: u32)"
proof (rule bit_word_eqI)
  fix n assume e: "\<forall>n \<in> {0, 8, 16, 24}. (ucast (drop_bit n a) :: u8) = ucast (drop_bit n b)" and n: "n < LENGTH(32)"
  have "8 * (n div 8) \<in> {0, 8, 16, 24}" using n by auto
  then have "(ucast (drop_bit (8 * (n div 8)) a) :: u8) = ucast (drop_bit (8 * (n div 8)) b)" using e by blast
  from arg_cong [OF this, of "\<lambda>w. bit w (n mod 8)"] show "bit a n = bit b n" by (simp add: bit_simps)
qed

lemma inet_ntoa_inj: "inet_ntoa a = inet_ntoa b \<Longrightarrow> a = b"
proof -
  assume e: "inet_ntoa a = inet_ntoa b"
  have d: "CHR ''.'' \<notin> set (Itoa v 10)" for v by (rule not_in_Itoa) (simp add: digits_def)
  show ?thesis
    using e d by (intro u32_bytes_of)
      (auto simp: inet_ntoa_def Let_def separated [of "CHR ''.''", unfolded append_Cons append_Nil] word_uint_eq_iff dest!: Itoa_inj)
qed

lemma inet_ntoa_chars: "CHR ''|'' \<notin> set (inet_ntoa ip)"
proof -
  have "CHR ''|'' \<notin> set (Itoa v 10)" for v by (rule not_in_Itoa) (simp add: digits_def)
  then show ?thesis by (simp add: inet_ntoa_def Let_def)
qed

text \<open>The text of an address determines it, as long as the transponder's number has 32 bits.\<close>

lemma tran_text_inj: "unat a < 2 ^ 32 \<Longrightarrow> unat b < 2 ^ 32 \<Longrightarrow> tran_text a = tran_text b \<Longrightarrow> a = b"
proof -
  assume l: "unat a < 2 ^ 32" "unat b < 2 ^ 32" and "tran_text a = tran_text b"
  then have "(ucast a :: u32) = ucast b" by (auto simp: tran_text_def dest!: Itoa_inj signed_word_eqI)
  then have "unat (ucast a :: u32) = unat (ucast b :: u32)" by simp
  then show "a = b" using l by (simp add: unat_ucast_mod word_unat_eq_iff)
qed

lemma ToString_True: "ToString True d a = ToString2 (DestTranId a) d a"
  by (simp add: ToString_def ToString2_def)

lemma address_text_inj:
  assumes "ToString2 m (CHR ''|'') a = ToString2 n (CHR ''|'') b" "unat m < 2 ^ 32" "unat n < 2 ^ 32"
  shows "s_addr a = s_addr b \<and> sin_port a = sin_port b \<and> m = n"
proof -
  have i: "CHR ''|'' \<notin> set (Itoa v 10)" for v by (rule not_in_Itoa) (simp add: digits_def)
  have e: "inet_ntoa (s_addr a) = inet_ntoa (s_addr b)"
    "Itoa (uint (sin_port a)) 10 @ (if m > 0 then [CHR ''|''] @ tran_text m else [])
      = Itoa (uint (sin_port b)) 10 @ (if n > 0 then [CHR ''|''] @ tran_text n else [])"
    using assms(1) separated [OF inet_ntoa_chars inet_ntoa_chars] by (simp_all only: ToString2_def)
  have p: "Itoa (uint (sin_port a)) 10 = Itoa (uint (sin_port b)) 10 \<and> m = n"
  proof (cases "m > 0"; cases "n > 0")
    assume "m > 0" "n > 0"
    then show ?thesis using e(2) separated [OF i i] tran_text_inj [OF assms(2,3)] by simp
  next
    assume "m > 0" "\<not> n > 0"
    then have "Itoa (uint (sin_port b)) 10 = Itoa (uint (sin_port a)) 10 @ CHR ''|'' # tran_text m" using e(2) by simp
    then have "CHR ''|'' \<in> set (Itoa (uint (sin_port b)) 10)" by simp
    then show ?thesis using i by blast
  next
    assume "\<not> m > 0" "n > 0"
    then have "Itoa (uint (sin_port a)) 10 = Itoa (uint (sin_port b)) 10 @ CHR ''|'' # tran_text n" using e(2) by simp
    then have "CHR ''|'' \<in> set (Itoa (uint (sin_port a)) 10)" by simp
    then show ?thesis using i by blast
  next
    assume "\<not> m > 0" "\<not> n > 0"
    then show ?thesis using e(2) by (simp add: word_less_nat_alt unat_eq_0)
  qed
  then show ?thesis using inet_ntoa_inj [OF e(1)] Itoa_inj by (auto simp: word_uint_eq_iff)
qed

end
