(* ===== verification/KcpPackets.thy ===== *)
theory KcpPackets
  imports KKAddr Ikcp
begin

text \<open>
  \<^verbatim>\<open>KKkcp/defkkkcp\<close>: the states of a connection, and the datagrams that the two ends and the
  transponder exchange to set one up, with the reading of their members by \<^verbatim>\<open>OnBufHandle\<close> and
  \<^verbatim>\<open>OnConHandle\<close>. A datagram is the list of its bytes; a 32-bit number is written in network order.
\<close>

datatype KKConState = KKUnKown | KKUnLink | KKSYN | KKSYNACK | KKACK | KKLink | KKAutoDisConnect
  | KKDisConnect | KKKckLost | KKKcpHeart | KKTranServer | KKGetTranId | KKTranIdOk

text \<open>The number of an enumerator.\<close>

fun con_state :: "KKConState \<Rightarrow> u32" where
  "con_state KKUnKown = 0"
| "con_state KKUnLink = 1"
| "con_state KKSYN = 2"
| "con_state KKSYNACK = 3"
| "con_state KKACK = 4"
| "con_state KKLink = 5"
| "con_state KKAutoDisConnect = 6"
| "con_state KKDisConnect = 7"
| "con_state KKKckLost = 8"
| "con_state KKKcpHeart = 9"
| "con_state KKTranServer = 10"
| "con_state KKGetTranId = 11"
| "con_state KKTranIdOk = 12"

datatype KKP2PMSGID = MSGUnKown | MSGUnLink | MSGKckLost | MSGConnectFail | MSGLinkLost | MSGLinkAccepted
  | MSGLinkIncoming | MSGKcpHeart | MSGKcpData | MSGKcpDisConnect | MSGTranConnectFail | MSGTranHeart
  | MSGTranIdOk | MSGUdpData

definition UDPGETTRANID :: u8 where "UDPGETTRANID = 1"
definition UDPDELTRANID :: u8 where "UDPDELTRANID = 2"
definition UDPUNTRANID :: u8 where "UDPUNTRANID = 3"
definition UDPUNDEFTRANID :: u8 where "UDPUNDEFTRANID = 4"
definition UDPLOOKPRETRAN :: u8 where "UDPLOOKPRETRAN = 5"
definition UDPTranHeart :: u8 where "UDPTranHeart = 6"
definition UDPCTLMSG :: u32 where "UDPCTLMSG = 0xAF"

lemmas udp_msgs = UDPGETTRANID_def UDPDELTRANID_def UDPUNTRANID_def UDPUNDEFTRANID_def UDPLOOKPRETRAN_def
  UDPTranHeart_def UDPCTLMSG_def

subsection \<open>Numbers in network order\<close>

definition net32 :: "u32 \<Rightarrow> u8 list" where
  "net32 w = [byteN w 3, byteN w 2, byteN w 1, byteN w 0]"

definition net16 :: "u16 \<Rightarrow> u8 list" where
  "net16 w = [byteN w 1, byteN w 0]"

text \<open>
  \<^verbatim>\<open>ntohl(*(unsigned long*)(buf+n))\<close>: whatever the width of \<^verbatim>\<open>long\<close>, \<^verbatim>\<open>ntohl\<close> takes the 32 bits
  of the first four bytes.
\<close>

definition read32 :: "nat \<Rightarrow> u8 list \<Rightarrow> u32" where
  "read32 n p = join32 (p ! (n + 3)) (p ! (n + 2)) (p ! (n + 1)) (p ! n)"

definition read16 :: "nat \<Rightarrow> u8 list \<Rightarrow> u16" where
  "read16 n p = join16 (p ! (n + 1)) (p ! n)"

lemma read_net [simp]:
  "read32 (length xs) (xs @ net32 w @ ys) = w" "read16 (length xs) (xs @ net16 v @ ys) = v"
  using join32_bytes [of w]
  by (simp_all add: read32_def read16_def net32_def net16_def nth_append numeral_2_eq_2 numeral_3_eq_3 del: join32_bytes)

lemma length_net [simp]: "length (net32 w) = 4" "length (net16 v) = 2"
  by (simp_all add: net32_def net16_def)

subsection \<open>The datagrams\<close>

text \<open>A buffer of \<open>n\<close> bytes that was cleared, with its first bytes set.\<close>

definition padded :: "nat \<Rightarrow> u8 list \<Rightarrow> u8 list" where
  "padded n bytes = bytes @ replicate (n - length bytes) 0"

definition putsyn :: "u32 \<Rightarrow> u32 \<Rightarrow> u8 list" where
  "putsyn cov nDestTranId =
     (let MTUMAX = (if nDestTranId > 0 then 1436 - 9 else 1436 :: u16)
      in padded (unat MTUMAX) (0xAF # net32 UDPCTLMSG @ net32 (con_state KKSYN) @ net32 cov @ net16 MTUMAX))"

definition putsynack :: "u32 \<Rightarrow> u16 \<Rightarrow> u8 list" where
  "putsynack cov mtu = padded 15 (0xAF # net32 UDPCTLMSG @ net32 (con_state KKSYNACK) @ net32 cov @ net16 mtu)"

definition putack :: "u32 \<Rightarrow> u16 \<Rightarrow> u8 list" where
  "putack cov mtu = padded 15 (0xAF # net32 UDPCTLMSG @ net32 (con_state KKACK) @ net32 cov @ net16 mtu)"

definition putlink :: "u32 \<Rightarrow> u16 \<Rightarrow> u8 list" where
  "putlink cov mtu = padded 15 (0xAF # net32 UDPCTLMSG @ net32 (con_state KKLink) @ net32 cov @ net16 mtu)"

definition putkcpheart :: "u32 \<Rightarrow> u8 list" where
  "putkcpheart cov = padded 15 (0xAF # net32 UDPCTLMSG @ net32 (con_state KKKcpHeart) @ net32 cov)"

definition putkcpdisconnect :: "u32 \<Rightarrow> u8 list" where
  "putkcpdisconnect cov = padded 15 (0xAF # net32 UDPCTLMSG @ net32 (con_state KKDisConnect) @ net32 cov)"

definition putunlink :: "u8 list" where
  "putunlink = padded 15 (0xAF # net32 UDPCTLMSG @ net32 (con_state KKUnLink))"

definition putkcplost :: "u32 \<Rightarrow> u8 list" where
  "putkcplost cov = padded 15 (0xAF # net32 UDPCTLMSG @ net32 (con_state KKKckLost) @ net32 cov)"

text \<open>These two store an \<^verbatim>\<open>unsigned int\<close> in the order of the machine, of which one byte is meant.\<close>

definition putGetTranId :: "u8 list" where
  "putGetTranId = padded 15 (0xAC # encode32u (ucast UDPGETTRANID))"

definition putDelTranId :: "u8 list" where
  "putDelTranId = padded 15 (0xAC # encode32u (ucast UDPDELTRANID))"

definition butTranspondHeadr :: "u16 \<Rightarrow> u32 \<Rightarrow> u32 \<Rightarrow> u8 list" where
  "butTranspondHeadr bufLen nTranId nDestTranId =
     (if bufLen < 5 then [] else 0xAD # net32 nTranId @ net32 nDestTranId)"

definition kk_check_sum :: "u8 list \<Rightarrow> u32" where
  "kk_check_sum bytes = fold (\<lambda>b s. s + ucast b) bytes 0"

text \<open>\<^verbatim>\<open>SendSign\<close>: a datagram for a peer behind the transponder gets the transponder's header.\<close>

definition SendSign :: "u8 list \<Rightarrow> u32 \<Rightarrow> u32 \<Rightarrow> u8 list" where
  "SendSign bufref nTranId nDestTranId =
     (if nDestTranId > 0 then butTranspondHeadr (of_nat (length bufref)) nTranId nDestTranId @ bufref else bufref)"

end
