(* ===== verification/TranServer.thy ===== *)
theory TranServer
  imports TwoKeyMap KcpPackets "HOL-Library.List_Lexorder" "HOL-Library.Char_ord"
begin

text \<open>
  \<^verbatim>\<open>KKkcp/TranServer\<close>: the transponder, through which peers that cannot reach each other talk. A
  peer registers and gets a number; a datagram that carries the number of another registered peer
  is passed on to its address. Objects of type \<^verbatim>\<open>TranInfo\<close> are on a heap of their own; the clock and
  the addresses that \<^verbatim>\<open>new\<close> returns come with each round of the loop. A dereference of an address
  without an object, and the loop over the numbers that does not end, are values of the result.
\<close>

record TranInfo =
  Addr :: KKAddress
  Id :: u32
  Tick :: u64

record CKKTranServer =
  m_Id :: u32
  m_IdSet :: "u32 set"
  m_TranInfoMap :: "(string, u32, nat) TKKTwoKeyMap"
  tran_heap :: "nat \<Rightarrow> TranInfo option"
  RecBuf :: "u8 list"
  adr :: KKAddress
  sent :: "(u8 list \<times> KKAddress) list"

datatype tran_error = Dangling | Endless

definition MaxTranTick :: u64 where
  "MaxTranTick = 120000"

text \<open>The server before the first datagram, with what the memory of its buffer and of \<^verbatim>\<open>adr\<close> held.\<close>

definition new_TranServer :: "u8 list \<Rightarrow> u32 \<Rightarrow> u16 \<Rightarrow> CKKTranServer" where
  "new_TranServer mem ip port = \<lparr>m_Id = 1, m_IdSet = {}, m_TranInfoMap = empty_TwoKeyMap, tran_heap = (\<lambda>_. None),
     RecBuf = mem, adr = \<lparr>s_addr = ip, sin_port = port, DestTranId = 0\<rparr>, sent = []\<rparr>"

subsection \<open>Answers\<close>

definition kksend :: "u8 list \<Rightarrow> KKAddress \<Rightarrow> CKKTranServer \<Rightarrow> CKKTranServer" where
  "kksend buf a s = s\<lparr>sent := sent s @ [(buf, a)]\<rparr>"

definition SendTranId :: "u32 \<Rightarrow> KKAddress \<Rightarrow> CKKTranServer \<Rightarrow> CKKTranServer" where
  "SendTranId n add s = kksend ([0xAC, UDPGETTRANID] @ net32 n) add s"

definition SendNotifyCode :: "u8 \<Rightarrow> u32 \<Rightarrow> KKAddress \<Rightarrow> CKKTranServer \<Rightarrow> CKKTranServer" where
  "SendNotifyCode errcode n add s = kksend (padded 256
     (if errcode = UDPUNDEFTRANID then [0xAC, errcode] @ net32 n
      else if errcode = UDPUNTRANID then [0xAC, errcode] else [0xAC, 0])) add s"

subsection \<open>Numbers\<close>

text \<open>The loop of the registration: the next number that was not given out.\<close>

partial_function (option) next_id :: "u32 set \<Rightarrow> u32 \<Rightarrow> u32 option" where
  "next_id used n = (if n \<in> used then next_id used (if n + 1 > 0xfffe then 0 else n + 1) else Some n)"

declare next_id.simps [code]

subsection \<open>The operations\<close>

definition ipport :: "KKAddress \<Rightarrow> string" where
  "ipport a = ToString True (CHR ''|'') a"

definition FreeTranInfo :: "nat \<Rightarrow> CKKTranServer \<Rightarrow> tran_error + ((string \<times> nat) list \<times> CKKTranServer)" where
  "FreeTranInfo p s = (case tran_heap s p of None \<Rightarrow> Inl Dangling
     | Some i \<Rightarrow> (case Key1Del (ipport (Addr i)) (m_TranInfoMap s) of
         (it, m) \<Rightarrow> Inr (it, s\<lparr>m_TranInfoMap := m, tran_heap := (tran_heap s)(p := None)\<rparr>)))"

definition touch :: "u64 \<Rightarrow> nat \<Rightarrow> CKKTranServer \<Rightarrow> tran_error + (TranInfo \<times> CKKTranServer)" where
  "touch now p s = (case tran_heap s p of None \<Rightarrow> Inl Dangling
     | Some i \<Rightarrow> Inr (i\<lparr>Tick := now\<rparr>, s\<lparr>tran_heap := (tran_heap s)(p \<mapsto> i\<lparr>Tick := now\<rparr>)\<rparr>))"

definition on_del_tran :: "KKAddress \<Rightarrow> CKKTranServer \<Rightarrow> tran_error + CKKTranServer" where
  "on_del_tran addr s = (case Key1Find (ipport addr) (m_TranInfoMap s) of None \<Rightarrow> Inr s
     | Some p \<Rightarrow> (case FreeTranInfo p s of Inl e \<Rightarrow> Inl e | Inr (_, s) \<Rightarrow> Inr s))"

definition on_get_tran :: "u64 \<Rightarrow> nat \<Rightarrow> KKAddress \<Rightarrow> CKKTranServer \<Rightarrow> tran_error + CKKTranServer" where
  "on_get_tran now new addr s = (case Key1Find (ipport addr) (m_TranInfoMap s) of
       Some p \<Rightarrow> (case touch now p s of Inl e \<Rightarrow> Inl e | Inr (i, s) \<Rightarrow> Inr (SendTranId (Id i) addr s))
     | None \<Rightarrow> (case next_id (m_IdSet s) (m_Id s) of None \<Rightarrow> Inl Endless
         | Some n \<Rightarrow> Inr (SendTranId n addr
             (s\<lparr>m_Id := n, m_IdSet := insert n (m_IdSet s),
                tran_heap := (tran_heap s)(new \<mapsto> \<lparr>Addr = addr, Id = n, Tick = now\<rparr>),
                m_TranInfoMap := tk_insert (ipport addr) n new (m_TranInfoMap s)\<rparr>))))"

definition on_look_tran :: "u64 \<Rightarrow> u8 list \<Rightarrow> KKAddress \<Rightarrow> CKKTranServer \<Rightarrow> tran_error + CKKTranServer" where
  "on_look_tran now buf addr s =
     (let found = (case Key2Find (read32 2 buf) (m_TranInfoMap s) of Some _ \<Rightarrow> 1 | None \<Rightarrow> 0);
          reply = kksend ([0xAC, UDPLOOKPRETRAN, found] @ take 4 (drop 2 buf)) addr
      in case Key1Find (ipport addr) (m_TranInfoMap s) of None \<Rightarrow> Inr (reply s)
         | Some p \<Rightarrow> (case touch now p s of Inl e \<Rightarrow> Inl e | Inr (i, s) \<Rightarrow> Inr (reply (SendTranId (Id i) addr s))))"

definition on_tran_heart :: "u64 \<Rightarrow> KKAddress \<Rightarrow> CKKTranServer \<Rightarrow> tran_error + CKKTranServer" where
  "on_tran_heart now addr s = (case Key1Find (ipport addr) (m_TranInfoMap s) of None \<Rightarrow> Inr s
     | Some p \<Rightarrow> (case touch now p s of Inl e \<Rightarrow> Inl e | Inr (_, s) \<Rightarrow> Inr s))"

definition on_transpond :: "u64 \<Rightarrow> u8 list \<Rightarrow> KKAddress \<Rightarrow> CKKTranServer \<Rightarrow> tran_error + CKKTranServer" where
  "on_transpond now buf addr s = (case Key1Find (ipport addr) (m_TranInfoMap s) of
       None \<Rightarrow> Inr (SendNotifyCode UDPUNTRANID 0 addr s)
     | Some p \<Rightarrow> (case touch now p s of Inl e \<Rightarrow> Inl e
         | Inr (_, s) \<Rightarrow> (case Key2Find (read32 5 buf) (m_TranInfoMap s) of
             None \<Rightarrow> Inr (SendNotifyCode UDPUNDEFTRANID (read32 5 buf) addr s)
           | Some q \<Rightarrow> (case tran_heap s q of None \<Rightarrow> Inl Dangling | Some d \<Rightarrow> Inr (kksend buf (Addr d) s)))))"

definition OnTranBufHandle :: "u64 \<Rightarrow> nat \<Rightarrow> u8 list \<Rightarrow> KKAddress \<Rightarrow> CKKTranServer \<Rightarrow> tran_error + CKKTranServer" where
  "OnTranBufHandle now new buf addr s =
     (if buf ! 0 = 0xAC then
        if buf ! 1 = UDPDELTRANID then on_del_tran addr s
        else if buf ! 1 = UDPGETTRANID then on_get_tran now new addr s
        else if buf ! 1 = UDPLOOKPRETRAN then on_look_tran now buf addr s
        else if buf ! 1 = UDPTranHeart then on_tran_heart now addr s
        else Inr s
      else if buf ! 0 = 0xAD then on_transpond now buf addr s
      else Inr s)"

subsection \<open>The loop of the thread\<close>

text \<open>The sweep over the registered peers; the first argument is the iterator.\<close>

function sweep :: "u64 \<Rightarrow> (string \<times> nat) list \<Rightarrow> CKKTranServer \<Rightarrow> tran_error + CKKTranServer" where
  "sweep now [] s = Inr s"
| "sweep now ((k, p) # rest) s = (case tran_heap s p of None \<Rightarrow> Inl Dangling
     | Some i \<Rightarrow> if now - Tick i > MaxTranTick
         then (case FreeTranInfo p s of Inl e \<Rightarrow> Inl e | Inr (it, s') \<Rightarrow> sweep now it s')
         else sweep now rest s)"
  by pat_completeness auto
termination
proof (relation "measures [\<lambda>(now, it, s). length (m_Map1 (m_TranInfoMap s)), \<lambda>(now, it, s). length it]")
  fix now :: u64 and k :: string and p rest s i r it s'
  assume "FreeTranInfo p s = Inr r" "(it, s') = r" "tran_heap s p = Some i"
  then have "Key1Del (ipport (Addr i)) (m_TranInfoMap s) = (it, m_TranInfoMap s')"
    by (auto simp: FreeTranInfo_def split: prod.splits)
  from Key1Del_length [OF this]
  show "((now, it, s'), now, (k, p) # rest, s)
      \<in> measures [\<lambda>(now, it, s). length (m_Map1 (m_TranInfoMap s)), \<lambda>(now, it, s). length it]"
    by auto
qed auto

text \<open>
  A round of \<^verbatim>\<open>HandleRecUdp\<close>. \<^verbatim>\<open>recvfrom\<close> writes the datagram over the beginning of the buffer, and
  the handler is called with the length of the buffer.
\<close>

datatype tran_event = Datagram "u8 list" u32 u16 | NoDatagram

definition HandleRecUdp :: "u64 \<Rightarrow> nat \<Rightarrow> tran_event \<Rightarrow> CKKTranServer \<Rightarrow> tran_error + CKKTranServer" where
  "HandleRecUdp now new ev s = (case ev of
       NoDatagram \<Rightarrow> sweep now (m_Map1 (m_TranInfoMap s)) s
     | Datagram datagram ip port \<Rightarrow>
         (let buf = take 2048 datagram @ drop (length datagram) (RecBuf s);
              a = (adr s)\<lparr>s_addr := ip, sin_port := port\<rparr>;
              s = s\<lparr>RecBuf := buf, adr := a\<rparr>
          in if datagram = [] then sweep now (m_Map1 (m_TranInfoMap s)) s else OnTranBufHandle now new buf a s))"

text \<open>The states that rounds lead to, where \<^verbatim>\<open>new\<close> returns the address of no object.\<close>

inductive tran_reach :: "CKKTranServer \<Rightarrow> CKKTranServer \<Rightarrow> bool" for s0 where
  tran_start: "tran_reach s0 s0"
| tran_round: "tran_reach s0 s \<Longrightarrow> tran_heap s new = None \<Longrightarrow> HandleRecUdp now new ev s = Inr s' \<Longrightarrow> tran_reach s0 s'"

subsection \<open>The invariant\<close>

text \<open>The peers on the heap are those of the map, each under the text of its address and its number.\<close>

definition tran_ok :: "CKKTranServer \<Rightarrow> bool" where
  "tran_ok s \<longleftrightarrow> tk_ok (m_TranInfoMap s) \<and> tk_held (m_TranInfoMap s) = dom (tran_heap s)
     \<and> (\<forall>p i. tran_heap s p = Some i \<longrightarrow> Key1Find (ipport (Addr i)) (m_TranInfoMap s) = Some p
           \<and> Key2Find (Id i) (m_TranInfoMap s) = Some p \<and> Id i \<in> m_IdSet s \<and> DestTranId (Addr i) = 0)
     \<and> m_Id s \<le> 0xfffe \<and> m_IdSet s \<subseteq> {..0xfffe} \<and> DestTranId (adr s) = 0 \<and> length (RecBuf s) = 2048"

lemma tran_okD:
  assumes "tran_ok s"
  shows "tk_ok (m_TranInfoMap s)" "tk_held (m_TranInfoMap s) = dom (tran_heap s)"
    "tran_heap s p = Some i \<Longrightarrow> Key1Find (ipport (Addr i)) (m_TranInfoMap s) = Some p"
    "tran_heap s p = Some i \<Longrightarrow> Key2Find (Id i) (m_TranInfoMap s) = Some p"
    "tran_heap s p = Some i \<Longrightarrow> Id i \<in> m_IdSet s" "tran_heap s p = Some i \<Longrightarrow> DestTranId (Addr i) = 0"
    "m_Id s \<le> 0xfffe" "m_IdSet s \<subseteq> {..0xfffe}" "DestTranId (adr s) = 0" "length (RecBuf s) = 2048"
  using assms by (auto simp: tran_ok_def)

lemma key1_object:
  assumes "tran_ok s" "Key1Find k (m_TranInfoMap s) = Some p"
  obtains i where "tran_heap s p = Some i" "ipport (Addr i) = k"
proof -
  have "p \<in> dom (tran_heap s)" using connections.found_held(1) assms tran_okD(1,2) by metis
  then obtain i where i: "tran_heap s p = Some i" by auto
  show ?thesis by (rule that [OF i])
    (rule connections.found_once(1) [OF tran_okD(1) [OF assms(1)] tran_okD(3) [OF assms(1) i] assms(2)])
qed

lemma key2_object:
  assumes "tran_ok s" "Key2Find n (m_TranInfoMap s) = Some p"
  obtains i where "tran_heap s p = Some i" "Id i = n"
proof -
  have "p \<in> dom (tran_heap s)" using connections.found_held(2) assms tran_okD(1,2) by metis
  then obtain i where i: "tran_heap s p = Some i" by auto
  show ?thesis by (rule that [OF i])
    (rule connections.found_once(2) [OF tran_okD(1) [OF assms(1)] tran_okD(4) [OF assms(1) i] assms(2)])
qed

lemma tran_ok_kksend [simp]: "tran_ok (kksend b a s) = tran_ok s"
  by (simp add: tran_ok_def kksend_def)

lemmas send_defs = SendTranId_def SendNotifyCode_def

lemma touch_ok: "tran_ok s \<Longrightarrow> touch now p s = Inr (i, s') \<Longrightarrow> tran_ok s'"
  by (auto simp: tran_ok_def touch_def split: option.splits if_splits)

lemma touch_result:
  assumes "tran_ok s" "Key1Find k (m_TranInfoMap s) = Some p"
  obtains i where "tran_heap s p = Some i" "ipport (Addr i) = k"
    "touch now p s = Inr (i\<lparr>Tick := now\<rparr>, s\<lparr>tran_heap := (tran_heap s)(p \<mapsto> i\<lparr>Tick := now\<rparr>)\<rparr>)"
  by (rule key1_object [OF assms]) (auto simp: touch_def that)

lemma Key1Del_found:
  "Key1Find k m = Some v \<Longrightarrow> Key1Del k m = (tl (dropWhile (\<lambda>e. fst e \<noteq> k) (m_Map1 m)), tk_del k m)"
  by (simp add: Key1Find_def tk_del_def Key1Del_def)

lemma FreeTranInfo_result:
  assumes "tran_ok s" "tran_heap s p = Some i"
  shows "FreeTranInfo p s = Inr (tl (dropWhile (\<lambda>e. fst e \<noteq> ipport (Addr i)) (m_Map1 (m_TranInfoMap s))),
      s\<lparr>m_TranInfoMap := tk_del (ipport (Addr i)) (m_TranInfoMap s), tran_heap := (tran_heap s)(p := None)\<rparr>)"
  using assms(2) Key1Del_found [OF tran_okD(3) [OF assms]] by (simp add: FreeTranInfo_def)

lemma FreeTranInfo_ok:
  assumes "tran_ok s" "tran_heap s p = Some i"
  shows "tran_ok (s\<lparr>m_TranInfoMap := tk_del (ipport (Addr i)) (m_TranInfoMap s), tran_heap := (tran_heap s)(p := None)\<rparr>)"
proof -
  note d = connections.del_ok [OF tran_okD(1) [OF assms(1)] tran_okD(3) [OF assms]]
  have k: "ipport (Addr j) \<noteq> ipport (Addr i)" if "tran_heap s q = Some j" "q \<noteq> p" for q j
    using tran_okD(3) [OF assms(1) that(1)] tran_okD(3) [OF assms] that(2) by auto
  show ?thesis using d k assms(1) by (auto simp: tran_ok_def)
qed

subsection \<open>Numbers are found when there are any\<close>

lemma next_id_step: "next_id used n = (if n \<in> used then next_id used (if n + 1 > 0xfffe then 0 else n + 1) else Some n)"
  by (rule next_id.simps)

lemma next_id_free: "next_id used n = Some m \<Longrightarrow> m \<notin> used \<and> (n \<le> 0xfffe \<longrightarrow> m \<le> 0xfffe)"
proof (induction rule: next_id.raw_induct [rotated 1, consumes 1, case_names step])
  case (step loop used n m)
  then show ?case by (auto split: if_splits)
qed

lemma next_id_range: "n \<le> 0xfffe \<Longrightarrow> \<forall>m \<le> 0xfffe. m \<in> used \<Longrightarrow> next_id used n = None"
  using next_id_free [of used n] by (cases "next_id used n") auto

lemma unat_dist_Suc:
  fixes k n :: u32
  assumes "Suc d = unat (k - n)"
  shows "d = unat (k - (n + 1))"
proof -
  have "k - (n + 1) = (k - n) - 1" by simp
  moreover have "k - n \<noteq> 0" using assms by (metis nat.distinct(1) unat_0)
  ultimately show ?thesis using assms unat_minus_one by (metis diff_Suc_1)
qed

lemma next_id_up: "d = unat (k - n) \<Longrightarrow> n \<le> k \<Longrightarrow> k \<le> 0xfffe \<Longrightarrow> k \<notin> used \<Longrightarrow> \<exists>m. next_id used n = Some m"
proof (induction d arbitrary: n)
  case 0
  then have "n = k" by (simp add: unat_eq_0)
  then show ?case using 0 by (subst next_id_step) simp
next
  case (Suc d)
  show ?case
  proof (cases "n \<in> used")
    case True
    then have n: "n < k" using Suc.prems by (metis order_le_less)
    then have s1: "n + 1 \<le> k" by (rule inc_le)
    then have s: "n + 1 \<le> k" "\<not> n + 1 > 0xfffe" using order_trans [OF s1 Suc.prems(3)] by (simp_all only: not_less)
    have "d = unat (k - (n + 1))" by (rule unat_dist_Suc [OF Suc.prems(1)])
    then obtain m where "next_id used (n + 1) = Some m" using Suc.IH [of "n + 1"] s(1) Suc.prems by auto
    then show ?thesis using True s(2) by (subst next_id_step) simp
  next
    case False
    then show ?thesis by (subst next_id_step) simp
  qed
qed

lemma next_id_wrap: "d = unat (0xfffe - n) \<Longrightarrow> n \<le> 0xfffe \<Longrightarrow> k \<le> 0xfffe \<Longrightarrow> k \<notin> used \<Longrightarrow> \<exists>m. next_id used n = Some m"
proof (induction d arbitrary: n)
  case 0
  then have n: "n = 0xfffe" by (simp add: unat_eq_0)
  have "\<exists>m. next_id used 0 = Some m" by (rule next_id_up [OF refl _ 0(3,4)]) simp
  then show ?case using n by (subst next_id_step) simp
next
  case (Suc d)
  then have "n \<noteq> 0xfffe" by auto
  then have n: "n < 0xfffe" using Suc.prems(2) by simp
  then have s: "n + 1 \<le> 0xfffe" "\<not> n + 1 > 0xfffe" by (simp_all add: inc_le not_less)
  have "d = unat (0xfffe - (n + 1))" by (rule unat_dist_Suc [OF Suc.prems(1)])
  then obtain m where "next_id used (n + 1) = Some m" using Suc.IH [of "n + 1"] s Suc.prems by auto
  then show ?case using s(2) by (subst next_id_step) simp
qed

lemma next_id_None_iff: "n \<le> 0xfffe \<Longrightarrow> next_id used n = None \<longleftrightarrow> {..0xfffe} \<subseteq> used"
proof
  assume n: "n \<le> 0xfffe" "next_id used n = None"
  show "{..0xfffe} \<subseteq> used"
  proof (rule subsetI, rule ccontr)
    fix k assume "k \<in> {..0xfffe}" "k \<notin> used"
    then show False using next_id_wrap [OF refl n(1), of k used] n(2) by auto
  qed
qed (rule next_id_range, auto)

subsection \<open>The sweep\<close>

definition expired :: "u64 \<Rightarrow> TranInfo \<Rightarrow> bool" where
  "expired now i \<longleftrightarrow> now - Tick i > MaxTranTick"

definition still_there :: "u64 \<Rightarrow> nat set \<Rightarrow> (nat \<Rightarrow> TranInfo option) \<Rightarrow> nat \<Rightarrow> TranInfo option" where
  "still_there now ps h p = (case h p of None \<Rightarrow> None | Some i \<Rightarrow> if p \<in> ps \<and> expired now i then None else Some i)"

definition only_freed :: "CKKTranServer \<Rightarrow> CKKTranServer \<Rightarrow> bool" where
  "only_freed s s' \<longleftrightarrow> m_Id s' = m_Id s \<and> m_IdSet s' = m_IdSet s \<and> sent s' = sent s \<and> adr s' = adr s \<and> RecBuf s' = RecBuf s"

lemma dropWhile_to_key:
  "distinct (map fst (pre @ (k, p) # rest)) \<Longrightarrow> dropWhile (\<lambda>e. fst e \<noteq> k) (pre @ (k, p) # rest) = (k, p) # rest"
  by (induction pre) auto

lemma map_erase_at:
  "distinct (map fst (pre @ (k, p) # rest)) \<Longrightarrow> map_erase k (pre @ (k, p) # rest) = pre @ rest"
proof -
  assume "distinct (map fst (pre @ (k, p) # rest))"
  then have "\<forall>e \<in> set pre. fst e \<noteq> k" "\<forall>e \<in> set rest. fst e \<noteq> k" by force+
  then show ?thesis by (simp add: map_erase_def filter_id_conv)
qed

lemma free_first:
  assumes "tran_ok s" "m_Map1 (m_TranInfoMap s) = pre @ (k, p) # rest"
  obtains i where "tran_heap s p = Some i" "ipport (Addr i) = k"
    "FreeTranInfo p s = Inr (rest, s\<lparr>m_TranInfoMap := tk_del k (m_TranInfoMap s), tran_heap := (tran_heap s)(p := None)\<rparr>)"
    "m_Map1 (tk_del k (m_TranInfoMap s)) = pre @ rest"
proof -
  have d: "distinct (map fst (pre @ (k, p) # rest))"
    using tran_okD(1) [OF assms(1)] assms(2) by (simp add: tk_ok_def map_ok_def)
  then have f: "Key1Find k (m_TranInfoMap s) = Some p" using assms(2) map_of_is_SomeI [OF d, of k p] by (simp add: Key1Find_def)
  obtain i where i: "tran_heap s p = Some i" "ipport (Addr i) = k" using key1_object [OF assms(1) f] .
  show ?thesis
  proof (rule that [OF i])
    show "FreeTranInfo p s = Inr (rest, s\<lparr>m_TranInfoMap := tk_del k (m_TranInfoMap s), tran_heap := (tran_heap s)(p := None)\<rparr>)"
      using FreeTranInfo_result [OF assms(1) i(1)] i(2) assms(2) dropWhile_to_key [OF d] by simp
    show "m_Map1 (tk_del k (m_TranInfoMap s)) = pre @ rest"
      using f assms(2) map_erase_at [OF d] by (simp add: tk_del_def Key1Del_def Key1Find_def)
  qed
qed

lemma sweep_spec:
  "tran_ok s \<Longrightarrow> m_Map1 (m_TranInfoMap s) = pre @ it \<Longrightarrow>
   \<exists>s'. sweep now it s = Inr s' \<and> tran_ok s' \<and> only_freed s s' \<and> tran_heap s' = still_there now (snd ` set it) (tran_heap s)"
proof (induction "length it" arbitrary: it s pre)
  case 0
  then show ?case by (auto simp: only_freed_def still_there_def fun_eq_iff split: option.splits)
next
  case (Suc n)
  then obtain k p rest where it: "it = (k, p) # rest" by (cases it) auto
  obtain i where i: "tran_heap s p = Some i" "ipport (Addr i) = k"
    "FreeTranInfo p s = Inr (rest, s\<lparr>m_TranInfoMap := tk_del k (m_TranInfoMap s), tran_heap := (tran_heap s)(p := None)\<rparr>)"
    "m_Map1 (tk_del k (m_TranInfoMap s)) = pre @ rest"
    using free_first [OF Suc.prems(1), of pre k p rest] Suc.prems(2) it by auto
  show ?case
  proof (cases "expired now i")
    case True
    let ?s = "s\<lparr>m_TranInfoMap := tk_del k (m_TranInfoMap s), tran_heap := (tran_heap s)(p := None)\<rparr>"
    have "tran_ok ?s" using FreeTranInfo_ok [OF Suc.prems(1) i(1)] i(2) by simp
    then obtain s' where s': "sweep now rest ?s = Inr s'" "tran_ok s'" "only_freed ?s s'"
      "tran_heap s' = still_there now (snd ` set rest) (tran_heap ?s)"
      using Suc.hyps(1) [of rest ?s pre] Suc.hyps(2) i(4) it by auto
    have "sweep now it s = Inr s'" using True i(1,3) s'(1) it by (simp add: expired_def)
    moreover have "still_there now (snd ` set rest) (tran_heap ?s) = still_there now (snd ` set it) (tran_heap s)"
      using True i(1) it by (auto simp: still_there_def fun_eq_iff split: option.splits)
    ultimately show ?thesis using s' by (auto simp: only_freed_def)
  next
    case False
    obtain s' where s': "sweep now rest s = Inr s'" "tran_ok s'" "only_freed s s'"
      "tran_heap s' = still_there now (snd ` set rest) (tran_heap s)"
      using Suc.hyps(1) [of rest s "pre @ [(k, p)]"] Suc.hyps(2) Suc.prems it by auto
    have "sweep now it s = Inr s'" using False i(1) s'(1) it by (simp add: expired_def)
    moreover have "still_there now (snd ` set rest) (tran_heap s) = still_there now (snd ` set it) (tran_heap s)"
      using False i(1) it by (auto simp: still_there_def fun_eq_iff split: option.splits)
    ultimately show ?thesis using s' by auto
  qed
qed

lemma values_are_held: "tk_ok m \<Longrightarrow> snd ` set (m_Map1 m) = tk_held m"
proof
  assume m: "tk_ok m"
  then have d: "distinct (map fst (m_Map1 m))" by (simp add: tk_ok_def map_ok_def)
  show "snd ` set (m_Map1 m) \<subseteq> tk_held m"
  proof
    fix v assume "v \<in> snd ` set (m_Map1 m)"
    then obtain k where "(k, v) \<in> set (m_Map1 m)" by auto
    then have "Key1Find k m = Some v" using map_of_is_SomeI [OF d] by (simp add: Key1Find_def)
    then show "v \<in> tk_held m" by (rule connections.found_held(1) [OF m])
  qed
  show "tk_held m \<subseteq> snd ` set (m_Map1 m)"
  proof
    fix v assume "v \<in> tk_held m"
    then obtain k where "Key1Find k m = Some v" using connections.held_found [OF m] by blast
    then show "v \<in> snd ` set (m_Map1 m)" by (force simp: Key1Find_def dest: map_of_SomeD)
  qed
qed

lemma sweep_all:
  assumes "tran_ok s"
  shows "\<exists>s'. sweep now (m_Map1 (m_TranInfoMap s)) s = Inr s' \<and> tran_ok s' \<and> only_freed s s'
    \<and> (\<forall>p. tran_heap s' p = (case tran_heap s p of None \<Rightarrow> None | Some i \<Rightarrow> if expired now i then None else Some i))"
proof -
  have "snd ` set (m_Map1 (m_TranInfoMap s)) = dom (tran_heap s)"
    using values_are_held [OF tran_okD(1) [OF assms]] tran_okD(2) [OF assms] by simp
  then have "still_there now (snd ` set (m_Map1 (m_TranInfoMap s))) (tran_heap s) p
      = (case tran_heap s p of None \<Rightarrow> None | Some i \<Rightarrow> if expired now i then None else Some i)" for p
    by (auto simp: still_there_def split: option.splits)
  then show ?thesis using sweep_spec [OF assms, of "[]" "m_Map1 (m_TranInfoMap s)" now] by auto
qed

end
