(* ===== verification/TranServerProps.thy ===== *)
theory TranServerProps
  imports TranServer
begin

text \<open>
  What the transponder promises: it never follows a pointer to a peer it has freed, no two peers
  share a number, a datagram goes to the peer registered under the number it names and only for
  registered senders, and peers that were silent for two minutes are forgotten. Numbers are never
  given back, so that the registration ends only as long as fewer than 65535 were given out.
\<close>

subsection \<open>The handlers keep the invariant\<close>

lemma registered_ok:
  assumes ok: "tran_ok s" and a: "DestTranId a = 0" and u: "Key1Find (ipport a) (m_TranInfoMap s) = None"
    and n: "next_id (m_IdSet s) (m_Id s) = Some n" and p: "tran_heap s new = None"
  shows "tran_ok (s\<lparr>m_Id := n, m_IdSet := insert n (m_IdSet s),
    tran_heap := (tran_heap s)(new \<mapsto> \<lparr>Addr = a, Id = n, Tick = now\<rparr>),
    m_TranInfoMap := tk_insert (ipport a) n new (m_TranInfoMap s)\<rparr>)"
proof -
  have f: "n \<notin> m_IdSet s" "n \<le> 0xfffe" using next_id_free [OF n] tran_okD(7) [OF ok] by auto
  have k: "Key2Find n (m_TranInfoMap s) = None"
  proof (cases "Key2Find n (m_TranInfoMap s)")
    case (Some q)
    then show ?thesis using key2_object [OF ok Some] tran_okD(5) [OF ok] f(1) by metis
  qed simp
  have h: "new \<notin> tk_held (m_TranInfoMap s)" using p tran_okD(2) [OF ok] by auto
  note i = connections.insert_ok [OF tran_okD(1) [OF ok] u k h]
  have q: "ipport (Addr j) \<noteq> ipport a \<and> Id j \<noteq> n" if "tran_heap s q = Some j" for q j
    using tran_okD(3,5) [OF ok that] u f(1) by auto
  show ?thesis using i q p f a ok by (auto simp: tran_ok_def)
qed

text \<open>What a handler does in a sound state: it ends, or the numbers have run out.\<close>

definition sound_result :: "CKKTranServer \<Rightarrow> tran_error + CKKTranServer \<Rightarrow> bool" where
  "sound_result s r \<longleftrightarrow> (case r of Inr s' \<Rightarrow> tran_ok s' \<and> m_IdSet s \<subseteq> m_IdSet s'
     | Inl e \<Rightarrow> e = Endless \<and> m_IdSet s = {..0xfffe})"

lemma sent_keeps [simp]:
  "tran_ok (SendTranId n a s) = tran_ok s" "tran_ok (SendNotifyCode c n a s) = tran_ok s"
  "m_IdSet (kksend buf a s) = m_IdSet s" "m_IdSet (SendTranId n a s) = m_IdSet s" "m_IdSet (SendNotifyCode c n a s) = m_IdSet s"
  by (simp_all add: send_defs) (simp_all add: kksend_def)

lemma touch_sound:
  assumes "tran_ok s" "Key1Find k (m_TranInfoMap s) = Some p"
  obtains i s' where "tran_heap s p = Some i" "ipport (Addr i) = k" "touch now p s = Inr (i\<lparr>Tick := now\<rparr>, s')"
    "s' = s\<lparr>tran_heap := (tran_heap s)(p \<mapsto> i\<lparr>Tick := now\<rparr>)\<rparr>" "tran_ok s'" "m_IdSet s' = m_IdSet s"
proof -
  obtain i where i: "tran_heap s p = Some i" "ipport (Addr i) = k"
    "touch now p s = Inr (i\<lparr>Tick := now\<rparr>, s\<lparr>tran_heap := (tran_heap s)(p \<mapsto> i\<lparr>Tick := now\<rparr>)\<rparr>)"
    by (rule touch_result [OF assms, where now = now])
  show ?thesis by (rule that [OF i refl touch_ok [OF assms(1) i(3)]]) simp
qed

lemma sound_get_tran:
  assumes "tran_ok s" "DestTranId a = 0" "tran_heap s new = None"
  shows "sound_result s (on_get_tran now new a s)"
proof (cases "Key1Find (ipport a) (m_TranInfoMap s)")
  case None
  show ?thesis
  proof (cases "next_id (m_IdSet s) (m_Id s)")
    case c: None
    then have "{..0xfffe} \<subseteq> m_IdSet s" using next_id_None_iff tran_okD(7) [OF assms(1)] by blast
    then show ?thesis using None c tran_okD(8) [OF assms(1)] by (auto simp: on_get_tran_def sound_result_def)
  next
    case (Some n)
    then show ?thesis using None registered_ok [OF assms(1,2) None Some assms(3)]
      by (auto simp: on_get_tran_def sound_result_def send_defs kksend_def tran_ok_def)
  qed
next
  case (Some p)
  show ?thesis
    by (rule touch_sound [OF assms(1) Some, where now = now]) (simp add: on_get_tran_def sound_result_def Some)
qed

lemma sound_look_tran: "tran_ok s \<Longrightarrow> sound_result s (on_look_tran now buf a s)"
proof (cases "Key1Find (ipport a) (m_TranInfoMap s)")
  case (Some p)
  assume ok: "tran_ok s"
  show ?thesis
    by (rule touch_sound [OF ok Some, where now = now]) (simp add: on_look_tran_def sound_result_def Let_def Some)
qed (simp add: on_look_tran_def sound_result_def Let_def)

lemma sound_tran_heart: "tran_ok s \<Longrightarrow> sound_result s (on_tran_heart now a s)"
proof (cases "Key1Find (ipport a) (m_TranInfoMap s)")
  case (Some p)
  assume ok: "tran_ok s"
  show ?thesis by (rule touch_sound [OF ok Some, where now = now]) (simp add: on_tran_heart_def sound_result_def Some)
qed (simp add: on_tran_heart_def sound_result_def)

lemma sound_del_tran: "tran_ok s \<Longrightarrow> sound_result s (on_del_tran a s)"
proof (cases "Key1Find (ipport a) (m_TranInfoMap s)")
  case (Some p)
  assume ok: "tran_ok s"
  obtain i where i: "tran_heap s p = Some i" "ipport (Addr i) = ipport a" by (rule key1_object [OF ok Some])
  show ?thesis using FreeTranInfo_result [OF ok i(1)] FreeTranInfo_ok [OF ok i(1)]
    by (simp add: on_del_tran_def sound_result_def Some)
qed (simp add: on_del_tran_def sound_result_def)

lemma transpond_result:
  assumes ok: "tran_ok s" and k: "Key1Find (ipport a) (m_TranInfoMap s) = Some p"
  shows "\<exists>s1. tran_ok s1 \<and> m_IdSet s1 = m_IdSet s \<and> sent s1 = sent s
    \<and> (Key2Find (read32 5 buf) (m_TranInfoMap s) = None \<longrightarrow>
         on_transpond now buf a s = Inr (SendNotifyCode UDPUNDEFTRANID (read32 5 buf) a s1))
    \<and> (\<forall>q d. tran_heap s q = Some d \<longrightarrow> Key2Find (read32 5 buf) (m_TranInfoMap s) = Some q \<longrightarrow>
         on_transpond now buf a s = Inr (kksend buf (Addr d) s1))"
proof -
  obtain i s1 where i: "tran_heap s p = Some i" "touch now p s = Inr (i\<lparr>Tick := now\<rparr>, s1)"
    "s1 = s\<lparr>tran_heap := (tran_heap s)(p \<mapsto> i\<lparr>Tick := now\<rparr>)\<rparr>" "tran_ok s1" "m_IdSet s1 = m_IdSet s"
    by (rule touch_sound [OF ok k, where now = now])
  have "on_transpond now buf a s = Inr (kksend buf (Addr d) s1)"
    if "tran_heap s q = Some d" "Key2Find (read32 5 buf) (m_TranInfoMap s) = Some q" for q d
    using that i(1,3) by (cases "q = p") (simp_all add: on_transpond_def k i(2))
  moreover have "sent s1 = sent s" "Key2Find (read32 5 buf) (m_TranInfoMap s) = None \<longrightarrow>
      on_transpond now buf a s = Inr (SendNotifyCode UDPUNDEFTRANID (read32 5 buf) a s1)"
    by (simp_all add: on_transpond_def k i(2) i(3))
  ultimately show ?thesis using i(4,5) by (intro exI [of _ s1] conjI allI impI) simp_all
qed

lemma sound_transpond: "tran_ok s \<Longrightarrow> sound_result s (on_transpond now buf a s)"
proof (cases "Key1Find (ipport a) (m_TranInfoMap s)")
  case (Some p)
  assume ok: "tran_ok s"
  obtain s1 where s1: "tran_ok s1" "m_IdSet s1 = m_IdSet s"
    "Key2Find (read32 5 buf) (m_TranInfoMap s) = None \<longrightarrow>
       on_transpond now buf a s = Inr (SendNotifyCode UDPUNDEFTRANID (read32 5 buf) a s1)"
    "\<forall>q d. tran_heap s q = Some d \<longrightarrow> Key2Find (read32 5 buf) (m_TranInfoMap s) = Some q \<longrightarrow>
       on_transpond now buf a s = Inr (kksend buf (Addr d) s1)"
    using transpond_result [OF ok Some, of buf now] by (elim exE conjE) (rule that)
  show ?thesis
  proof (cases "Key2Find (read32 5 buf) (m_TranInfoMap s)")
    case None
    then show ?thesis using s1(1-3) by (simp add: sound_result_def)
  next
    case (Some q)
    obtain d where "tran_heap s q = Some d" by (rule key2_object [OF ok Some])
    then show ?thesis using s1(1,2,4) Some by (simp add: sound_result_def)
  qed
qed (simp add: on_transpond_def sound_result_def)

lemma sound_handler:
  assumes "tran_ok s" "DestTranId a = 0" "tran_heap s new = None"
  shows "sound_result s (OnTranBufHandle now new buf a s)"
  using sound_del_tran [OF assms(1)] sound_get_tran [OF assms] sound_look_tran [OF assms(1)]
    sound_tran_heart [OF assms(1)] sound_transpond [OF assms(1)] assms(1)
  by (simp add: OnTranBufHandle_def) (simp add: sound_result_def)

text \<open>The state after the datagram was received, before it is handled.\<close>

definition after_recv :: "u8 list \<Rightarrow> u32 \<Rightarrow> u16 \<Rightarrow> CKKTranServer \<Rightarrow> CKKTranServer" where
  "after_recv datagram ip port s =
     s\<lparr>RecBuf := take 2048 datagram @ drop (length datagram) (RecBuf s), adr := (adr s)\<lparr>s_addr := ip, sin_port := port\<rparr>\<rparr>"

lemma after_recv_ok: "tran_ok s \<Longrightarrow> tran_ok (after_recv datagram ip port s)"
  by (simp add: tran_ok_def after_recv_def)

lemma HandleRecUdp_Datagram:
  "HandleRecUdp now new (Datagram datagram ip port) s =
     (let s = after_recv datagram ip port s
      in if datagram = [] then sweep now (m_Map1 (m_TranInfoMap s)) s else OnTranBufHandle now new (RecBuf s) (adr s) s)"
  by (simp add: HandleRecUdp_def after_recv_def Let_def)

lemma sound_same_numbers: "m_IdSet s = m_IdSet t \<Longrightarrow> sound_result s r = sound_result t r"
  by (cases r) (simp_all add: sound_result_def)

lemma sound_sweep: "tran_ok s \<Longrightarrow> sound_result s (sweep now (m_Map1 (m_TranInfoMap s)) s)"
  using sweep_all [of s now] by (auto simp: sound_result_def only_freed_def)

lemma sound_if: "sound_result s x \<Longrightarrow> sound_result s y \<Longrightarrow> sound_result s (if c then x else y)"
  by simp

lemma sound_round:
  assumes "tran_ok s" "tran_heap s new = None"
  shows "sound_result s (HandleRecUdp now new ev s)"
proof (cases ev)
  case (Datagram datagram ip port)
  let ?s = "after_recv datagram ip port s"
  have ok: "tran_ok ?s" by (rule after_recv_ok [OF assms(1)])
  have h: "tran_heap ?s new = None" using assms(2) by (simp add: after_recv_def)
  have "sound_result ?s (if datagram = [] then sweep now (m_Map1 (m_TranInfoMap ?s)) ?s
      else OnTranBufHandle now new (RecBuf ?s) (adr ?s) ?s)"
    by (rule sound_if [OF sound_sweep [OF ok] sound_handler [OF ok tran_okD(9) [OF ok] h]])
  then have "sound_result ?s (HandleRecUdp now new ev s)"
    unfolding Datagram HandleRecUdp_Datagram Let_def .
  moreover have "m_IdSet s = m_IdSet ?s" by (simp add: after_recv_def)
  ultimately show ?thesis using sound_same_numbers by metis
next
  case NoDatagram
  then show ?thesis using sound_sweep [OF assms(1)] by (simp add: HandleRecUdp_def)
qed

subsection \<open>Reachable states\<close>

lemma new_TranServer_ok: "length mem = 2048 \<Longrightarrow> tran_ok (new_TranServer mem ip port)"
  using empty_tk_ok by (auto simp: tran_ok_def new_TranServer_def)

lemma reach_sound: "tran_reach s0 s \<Longrightarrow> tran_ok s0 \<Longrightarrow> tran_ok s \<and> m_IdSet s0 \<subseteq> m_IdSet s"
proof (induction rule: tran_reach.induct)
  case (tran_round s new now ev s')
  then show ?case using sound_round [of s new now ev] by (auto simp: sound_result_def)
qed simp

lemma reach_ok: "tran_reach (new_TranServer mem ip port) s \<Longrightarrow> length mem = 2048 \<Longrightarrow> tran_ok s"
  using reach_sound new_TranServer_ok by blast

text \<open>A registered sender: the peer on the heap under the address the datagram came from.\<close>

definition registered :: "CKKTranServer \<Rightarrow> u32 \<Rightarrow> u16 \<Rightarrow> bool" where
  "registered s ip port \<longleftrightarrow> (\<exists>p i. tran_heap s p = Some i \<and> s_addr (Addr i) = ip \<and> sin_port (Addr i) = port)"

lemma registered_iff:
  assumes "tran_ok s" "DestTranId a = 0"
  shows "registered s (s_addr a) (sin_port a) \<longleftrightarrow> Key1Find (ipport a) (m_TranInfoMap s) \<noteq> None"
proof
  assume "registered s (s_addr a) (sin_port a)"
  then obtain p i where i: "tran_heap s p = Some i" "s_addr (Addr i) = s_addr a" "sin_port (Addr i) = sin_port a"
    by (auto simp: registered_def)
  then have "Addr i = a" using tran_okD(6) [OF assms(1) i(1)] assms(2) by simp
  then show "Key1Find (ipport a) (m_TranInfoMap s) \<noteq> None" using tran_okD(3) [OF assms(1) i(1)] by simp
next
  assume "Key1Find (ipport a) (m_TranInfoMap s) \<noteq> None"
  then obtain p where p: "Key1Find (ipport a) (m_TranInfoMap s) = Some p" by auto
  obtain i where i: "tran_heap s p = Some i" "ipport (Addr i) = ipport a" by (rule key1_object [OF assms(1) p])
  have "s_addr (Addr i) = s_addr a \<and> sin_port (Addr i) = sin_port a"
    using address_text_inj [of "DestTranId (Addr i)" "Addr i" "DestTranId a" a] i(2) tran_okD(6) [OF assms(1) i(1)] assms(2)
    by (simp add: ipport_def ToString_True)
  then show "registered s (s_addr a) (sin_port a)" using i(1) by (auto simp: registered_def)
qed

subsection \<open>The properties\<close>

text \<open>C39: in every state that the rounds lead to, a round never dereferences a pointer to a peer that
  was freed; it fails to end only when all 65535 numbers have been given out; and two registered
  peers share neither their number nor their address.\<close>
theorem transponder_is_sound:
  assumes "tran_reach (new_TranServer mem ip port) s" "length mem = 2048" "tran_heap s new = None"
  shows "HandleRecUdp now new ev s \<noteq> Inl Dangling
    \<and> (HandleRecUdp now new ev s = Inl Endless \<longrightarrow> m_IdSet s = {..0xfffe})
    \<and> (\<forall>p q i j. tran_heap s p = Some i \<and> tran_heap s q = Some j
          \<and> (Id i = Id j \<or> s_addr (Addr i) = s_addr (Addr j) \<and> sin_port (Addr i) = sin_port (Addr j)) \<longrightarrow> p = q)"
proof -
  have ok: "tran_ok s" using reach_ok assms(1,2) by blast
  have "sound_result s (HandleRecUdp now new ev s)" by (rule sound_round [OF ok assms(3)])
  moreover have "p = q" if "tran_heap s p = Some i" "tran_heap s q = Some j"
    "Id i = Id j \<or> s_addr (Addr i) = s_addr (Addr j) \<and> sin_port (Addr i) = sin_port (Addr j)" for p q i j
  proof (cases "Id i = Id j")
    case True
    then show ?thesis using tran_okD(4) [OF ok that(1)] tran_okD(4) [OF ok that(2)] by simp
  next
    case False
    then have "Addr i = Addr j" using that(3) tran_okD(6) [OF ok that(1)] tran_okD(6) [OF ok that(2)] by simp
    then show ?thesis using tran_okD(3) [OF ok that(1)] tran_okD(3) [OF ok that(2)] by simp
  qed
  ultimately show ?thesis by (auto simp: sound_result_def split: sum.splits)
qed

text \<open>what a round does with a datagram to be passed on. When the sender is registered and the
  number in the datagram is that of a registered peer, exactly one datagram goes out, to the address
  of that peer; when only the sender is registered it is told that the number is unknown; anybody
  else is told to register. Nothing else is sent.\<close>
theorem transponder_forwards:
  assumes "tran_reach (new_TranServer mem ip0 port0) s" "length mem = 2048" "tran_heap s new = None"
    and "9 \<le> length datagram" "datagram ! 0 = 0xAD"
  shows "\<exists>s' reply. HandleRecUdp now new (Datagram datagram ip port) s = Inr s' \<and> sent s' = sent s @ [reply]
    \<and> (\<not> registered s ip port \<longrightarrow> fst reply = padded 256 [0xAC, UDPUNTRANID] \<and> addr_eq (snd reply) \<lparr>s_addr = ip, sin_port = port, DestTranId = 0\<rparr>)
    \<and> (registered s ip port \<and> (\<forall>q d. tran_heap s q = Some d \<longrightarrow> Id d \<noteq> read32 5 datagram) \<longrightarrow>
         fst reply = padded 256 ([0xAC, UDPUNDEFTRANID] @ net32 (read32 5 datagram))
         \<and> addr_eq (snd reply) \<lparr>s_addr = ip, sin_port = port, DestTranId = 0\<rparr>)
    \<and> (\<forall>q d. registered s ip port \<and> tran_heap s q = Some d \<and> Id d = read32 5 datagram \<longrightarrow>
         snd reply = Addr d \<and> take (length datagram) (fst reply) = take 2048 datagram)"
proof -
  let ?s = "after_recv datagram ip port s"
  let ?a = "adr ?s"
  let ?b = "RecBuf ?s"
  have ok: "tran_ok s" using reach_ok assms(1,2) by blast
  have ok': "tran_ok ?s" by (rule after_recv_ok [OF ok])
  have same: "m_TranInfoMap ?s = m_TranInfoMap s" "tran_heap ?s = tran_heap s" "sent ?s = sent s"
    "s_addr ?a = ip" "sin_port ?a = port" "DestTranId ?a = 0"
    using tran_okD(9) [OF ok] by (simp_all add: after_recv_def)
  have "registered ?s = registered s" by (intro ext) (simp add: registered_def same)
  then have r: "registered s ip port \<longleftrightarrow> Key1Find (ipport ?a) (m_TranInfoMap s) \<noteq> None"
    using registered_iff [OF ok' same(6)] by (simp only: same)
  have b: "?b ! n = datagram ! n" if "n < 9" for n using that assms(4) by (simp add: after_recv_def nth_append)
  have n: "read32 5 ?b = read32 5 datagram" by (simp add: read32_def b)
  have h: "HandleRecUdp now new (Datagram datagram ip port) s = on_transpond now ?b ?a ?s"
    using assms(4,5) b [of 0] by (auto simp: HandleRecUdp_Datagram Let_def OnTranBufHandle_def)
  have e: "addr_eq ?a \<lparr>s_addr = ip, sin_port = port, DestTranId = 0\<rparr>" by (simp add: addr_eq_def same)
  have t: "take (length datagram) ?b = take 2048 datagram"
    using tran_okD(10) [OF ok] by (cases "length datagram \<le> 2048") (simp_all add: after_recv_def)
  show ?thesis
  proof (cases "Key1Find (ipport ?a) (m_TranInfoMap s)")
    case None
    then have "on_transpond now ?b ?a ?s = Inr (SendNotifyCode UDPUNTRANID 0 ?a ?s)"
      by (simp add: on_transpond_def same)
    then show ?thesis using h e None r
      by (intro exI [of _ "SendNotifyCode UDPUNTRANID 0 ?a ?s"] exI [of _ "(padded 256 [0xAC, UDPUNTRANID], ?a)"])
        (simp add: SendNotifyCode_def kksend_def same udp_msgs)
  next
    case (Some p)
    have reg: "registered s ip port" using r Some by simp
    have k: "Key1Find (ipport ?a) (m_TranInfoMap ?s) = Some p" using Some by (simp only: same)
    obtain s1 where s1: "sent s1 = sent s" "Key2Find (read32 5 datagram) (m_TranInfoMap s) = None \<longrightarrow>
         on_transpond now ?b ?a ?s = Inr (SendNotifyCode UDPUNDEFTRANID (read32 5 datagram) ?a s1)"
      "\<forall>q d. tran_heap s q = Some d \<longrightarrow> Key2Find (read32 5 datagram) (m_TranInfoMap s) = Some q \<longrightarrow>
         on_transpond now ?b ?a ?s = Inr (kksend ?b (Addr d) s1)"
      using transpond_result [OF ok' k, of ?b now] by (simp only: same n) (elim exE conjE, rule that)
    have f: "Key2Find (read32 5 datagram) (m_TranInfoMap s) = Some q" if "tran_heap s q = Some d" "Id d = read32 5 datagram" for q d
      using tran_okD(4) [OF ok that(1)] that(2) by simp
    show ?thesis
    proof (cases "Key2Find (read32 5 datagram) (m_TranInfoMap s)")
      case None
      then have "on_transpond now ?b ?a ?s = Inr (SendNotifyCode UDPUNDEFTRANID (read32 5 datagram) ?a s1)" using s1(2) by blast
      moreover have "tran_heap s q = Some d \<Longrightarrow> Id d \<noteq> read32 5 datagram" for q d using f [of q d] None by auto
      ultimately show ?thesis using h e s1(1) reg
        by (intro exI [of _ "SendNotifyCode UDPUNDEFTRANID (read32 5 datagram) ?a s1"]
            exI [of _ "(padded 256 ([0xAC, UDPUNDEFTRANID] @ net32 (read32 5 datagram)), ?a)"])
          (auto simp: SendNotifyCode_def kksend_def)
    next
      case (Some q)
      obtain d where d: "tran_heap s q = Some d" "Id d = read32 5 datagram" by (rule key2_object [OF ok Some])
      have "on_transpond now ?b ?a ?s = Inr (kksend ?b (Addr d) s1)" using s1(3) d(1) Some by blast
      moreover have "q' = q" if "tran_heap s q' = Some d'" "Id d' = read32 5 datagram" for q' d' using f [OF that] Some by simp
      ultimately show ?thesis using h s1(1) reg d t
        by (intro exI [of _ "kksend ?b (Addr d) s1"] exI [of _ "(?b, Addr d)"]) (auto simp: kksend_def)
    qed
  qed
qed

text \<open>a peer that asks for a number and has none gets one that nobody had before, is kept under
  it with the time, and is told; as long as there is such a number, that is, until 65535 were given
  out. From then on the loop of the registration does not end.\<close>
theorem registration_gives_fresh_number:
  assumes "tran_reach (new_TranServer mem ip0 port0) s" "length mem = 2048" "tran_heap s new = None"
    and "2 \<le> length datagram" "datagram ! 0 = 0xAC" "datagram ! 1 = UDPGETTRANID" "\<not> registered s ip port"
  shows "if m_IdSet s = {..0xfffe} then HandleRecUdp now new (Datagram datagram ip port) s = Inl Endless
    else \<exists>s' n a. HandleRecUdp now new (Datagram datagram ip port) s = Inr s'
      \<and> n \<notin> m_IdSet s \<and> n \<le> 0xfffe \<and> m_IdSet s' = insert n (m_IdSet s)
      \<and> a = \<lparr>s_addr = ip, sin_port = port, DestTranId = 0\<rparr>
      \<and> tran_heap s' = (tran_heap s)(new \<mapsto> \<lparr>Addr = a, Id = n, Tick = now\<rparr>)
      \<and> sent s' = sent s @ [([0xAC, UDPGETTRANID] @ net32 n, a)]"
proof -
  let ?s = "after_recv datagram ip port s"
  let ?a = "adr ?s"
  have ok: "tran_ok s" using reach_ok assms(1,2) by blast
  have ok': "tran_ok ?s" by (rule after_recv_ok [OF ok])
  have same: "m_TranInfoMap ?s = m_TranInfoMap s" "tran_heap ?s = tran_heap s" "sent ?s = sent s" "m_IdSet ?s = m_IdSet s"
    "m_Id ?s = m_Id s" by (simp_all add: after_recv_def)
  have a: "?a = \<lparr>s_addr = ip, sin_port = port, DestTranId = 0\<rparr>" using tran_okD(9) [OF ok] by (simp add: after_recv_def)
  have "registered ?s = registered s" by (intro ext) (simp add: registered_def same)
  then have r: "Key1Find (ipport ?a) (m_TranInfoMap s) = None"
    using registered_iff [OF ok', of ?a] assms(7) a same(1) by auto
  have b: "RecBuf ?s ! n = datagram ! n" if "n < 2" for n using that assms(4) by (simp add: after_recv_def nth_append)
  have h: "HandleRecUdp now new (Datagram datagram ip port) s = on_get_tran now new ?a ?s"
    using assms(4-6) b by (auto simp: HandleRecUdp_Datagram Let_def OnTranBufHandle_def udp_msgs)
  have "{..0xfffe} \<subseteq> m_IdSet s \<longleftrightarrow> m_IdSet s = {..0xfffe}" using tran_okD(8) [OF ok] by blast
  then have e: "next_id (m_IdSet s) (m_Id s) = None \<longleftrightarrow> m_IdSet s = {..0xfffe}"
    using next_id_None_iff [OF tran_okD(7) [OF ok]] by simp
  show ?thesis
  proof (cases "next_id (m_IdSet s) (m_Id s)")
    case None
    then show ?thesis using e h r by (simp add: on_get_tran_def same)
  next
    case (Some n)
    then have "n \<notin> m_IdSet s" "n \<le> 0xfffe" using next_id_free [OF Some] tran_okD(7) [OF ok] by auto
    then show ?thesis using e h r Some a
      by (simp add: on_get_tran_def same SendTranId_def kksend_def) (intro exI [of _ n] conjI; simp)
  qed
qed

text \<open>a round without a datagram forgets exactly the peers that were silent for more than two
  minutes; their numbers stay taken.\<close>
theorem idle_peers_are_forgotten:
  assumes "tran_reach (new_TranServer mem ip port) s" "length mem = 2048"
  shows "\<exists>s'. HandleRecUdp now new NoDatagram s = Inr s' \<and> sent s' = sent s \<and> m_IdSet s' = m_IdSet s
    \<and> (\<forall>p. tran_heap s' p = (case tran_heap s p of None \<Rightarrow> None | Some i \<Rightarrow> if now - Tick i > 120000 then None else Some i))"
  using sweep_all [OF reach_ok [OF assms], of now] by (auto simp: HandleRecUdp_def only_freed_def expired_def MaxTranTick_def split: option.split)

subsection \<open>A run with two peers\<close>

definition first_peer :: CKKTranServer where
  "first_peer = projr (HandleRecUdp 5 1 (Datagram [0xAC, 1] 10 100) (new_TranServer (replicate 2048 0) 0 0))"

definition second_peer :: CKKTranServer where
  "second_peer = projr (HandleRecUdp 7 2 (Datagram [0xAC, 1] 20 200) first_peer)"

lemma reach_second: "tran_reach (new_TranServer (replicate 2048 0) 0 0) second_peer"
proof -
  have p: "\<not> isl (HandleRecUdp 5 1 (Datagram [0xAC, 1] 10 100) (new_TranServer (replicate 2048 0) 0 0))"
    "\<not> isl (HandleRecUdp 7 2 (Datagram [0xAC, 1] 20 200) first_peer)" "tran_heap first_peer 2 = None"
    by code_simp+
  have "tran_reach (new_TranServer (replicate 2048 0) 0 0) first_peer"
    by (rule tran_round [OF tran_start, where new = 1 and now = 5 and ev = "Datagram [0xAC, 1] 10 100"])
      (use p in \<open>simp_all add: first_peer_def new_TranServer_def\<close>)
  then show ?thesis
    by (rule tran_round [where new = 2 and now = 7 and ev = "Datagram [0xAC, 1] 20 200"])
      (use p in \<open>simp_all add: second_peer_def\<close>)
qed

lemma two_peers:
  "tran_heap second_peer 1 = Some \<lparr>Addr = \<lparr>s_addr = 10, sin_port = 100, DestTranId = 0\<rparr>, Id = 1, Tick = 5\<rparr>"
  "tran_heap second_peer 2 = Some \<lparr>Addr = \<lparr>s_addr = 20, sin_port = 200, DestTranId = 0\<rparr>, Id = 2, Tick = 7\<rparr>"
  "tran_heap second_peer 3 = None" "m_IdSet second_peer = {1, 2}"
  by (code_simp; simp?)+

lemma no_third_peer: "\<not> registered second_peer 30 300"
proof -
  have "Key1Find (ipport \<lparr>s_addr = 30, sin_port = 300, DestTranId = 0\<rparr>) (m_TranInfoMap second_peer) = None" by code_simp
  then show ?thesis
    using registered_iff [OF reach_ok [OF reach_second], of "\<lparr>s_addr = 30, sin_port = 300, DestTranId = 0\<rparr>"] by simp
qed

theorem transponder_is_sound_witness:
  "HandleRecUdp 9 3 NoDatagram second_peer \<noteq> Inl Dangling \<and> HandleRecUdp 9 3 NoDatagram second_peer \<noteq> Inl Endless"
proof -
  have "m_IdSet second_peer \<noteq> {..0xfffe}"
  proof
    assume "m_IdSet second_peer = {..0xfffe}"
    then have "(0 :: u32) \<in> {1, 2}" unfolding two_peers(4) by simp
    then show False by simp
  qed
  then show ?thesis
    using transponder_is_sound [OF reach_second _ two_peers(3), of 9 NoDatagram] by simp
qed

theorem transponder_forwards_witness:
  "\<exists>s' reply. HandleRecUdp 9 3 (Datagram ([0xAD, 0, 0, 0, 1, 0, 0, 0, 2, 65, 66]) 10 100) second_peer = Inr s'
    \<and> sent s' = sent second_peer @ [reply] \<and> s_addr (snd reply) = 20
    \<and> take 11 (fst reply) = [0xAD, 0, 0, 0, 1, 0, 0, 0, 2, 65, 66]"
proof -
  let ?d = "[0xAD, 0, 0, 0, 1, 0, 0, 0, 2, 65, 66] :: u8 list"
  have r: "registered second_peer 10 100" using two_peers(1) unfolding registered_def by fastforce
  have n: "read32 5 ?d = 2" by code_simp
  have h: "length (replicate 2048 0 :: u8 list) = 2048" "9 \<le> length ?d" "?d ! 0 = 0xAD" by simp_all
  obtain s' reply where s': "HandleRecUdp 9 3 (Datagram ?d 10 100) second_peer = Inr s'" "sent s' = sent second_peer @ [reply]"
    "\<forall>q d. registered second_peer 10 100 \<and> tran_heap second_peer q = Some d \<and> Id d = read32 5 ?d \<longrightarrow>
         snd reply = Addr d \<and> take (length ?d) (fst reply) = take 2048 ?d"
    using transponder_forwards [OF reach_second h(1) two_peers(3) h(2,3), where now = 9 and ip = 10 and port = 100]
    by (elim exE conjE) (rule that)
  have "snd reply = \<lparr>s_addr = 20, sin_port = 200, DestTranId = 0\<rparr> \<and> take (length ?d) (fst reply) = take 2048 ?d"
    using s'(3) [rule_format, of 2] r two_peers(2) n by simp
  then show ?thesis using s'(1,2) by (intro exI [of _ s'] exI [of _ reply]) (simp add: eval_nat_numeral)
qed

theorem registration_gives_fresh_number_witness:
  "\<exists>s' n. HandleRecUdp 9 3 (Datagram [0xAC, 1] 30 300) second_peer = Inr s' \<and> n \<notin> {1, 2} \<and> m_IdSet s' = {n, 1, 2}"
proof -
  have "m_IdSet second_peer \<noteq> {..0xfffe}"
  proof
    assume "m_IdSet second_peer = {..0xfffe}"
    then have "(0 :: u32) \<in> {1, 2}" unfolding two_peers(4) by simp
    then show False by simp
  qed
  then show ?thesis
    using registration_gives_fresh_number [OF reach_second _ two_peers(3), of "[0xAC, 1]" 30 300 9] no_third_peer
    by (auto simp: UDPGETTRANID_def two_peers(4))
qed

theorem idle_peers_are_forgotten_witness:
  "\<exists>s'. HandleRecUdp 120006 3 NoDatagram second_peer = Inr s' \<and> tran_heap s' 1 = None \<and> tran_heap s' 2 \<noteq> None"
proof -
  obtain s' where "HandleRecUdp 120006 3 NoDatagram second_peer = Inr s'"
    "\<forall>p. tran_heap s' p = (case tran_heap second_peer p of None \<Rightarrow> None | Some i \<Rightarrow> if 120006 - Tick i > 120000 then None else Some i)"
    using idle_peers_are_forgotten [OF reach_second, where now = 120006 and new = 3] by auto
  then show ?thesis by (intro exI [of _ s']) (simp add: two_peers two_peers(1) [unfolded One_nat_def])
qed

end
