(* ===== verification/KKKcp.thy ===== *)
theory KKKcp
  imports TwoKeyMap KcpPackets KcpLink "HOL-Library.List_Lexorder" "HOL-Library.Char_ord"
begin

text \<open>
  \<^verbatim>\<open>KKkcp/KKKcp\<close>: the connection manager over UDP. It sets connections up with a handshake of four
  datagrams, directly or through the transponder, gives every connection a KCP control block, keeps
  it alive and takes it down. The objects of type \<^verbatim>\<open>KcpInfo\<close> are on a heap; the clock, the addresses
  that \<^verbatim>\<open>new\<close> returns and \<^verbatim>\<open>inet_addr\<close> are arguments. A handler that dereferences an address
  without an object or a null control block, reads or writes past a buffer, or reaches
  \<^verbatim>\<open>assert(0)\<close>, which the makefiles leave enabled, has the error as its result.
\<close>

subsection \<open>State\<close>

record KcpInfo =
  Conv :: u32
  kcp :: "IKCPCB option"
  Addr :: KKAddress
  State :: KKConState
  con_mtu :: u16
  sendtick :: u64
  rectick :: u64
  sponsor :: bool
  HandShake :: u8
  bTranspond :: bool
  nTranId :: u32
  nDestTranId :: u32

datatype KKCMD = CMDUnKown | CMDConnect | CMDDisConnect

record KK_Cmd_Info =
  cmd :: KKCMD
  cmd_Conv :: u32
  cmd_nTranId :: u32
  cmd_nDestTranId :: u32
  cmd_Addr :: KKAddress

record KK_Packet =
  p_buf :: "u8 list"
  msgId :: KKP2PMSGID
  p_Addr :: KKAddress
  ConId :: u32

record CKKkcp =
  m_AutomaticHeart :: bool
  m_conId :: u32
  m_CurConv :: u32
  m_ConIPInfoMap :: "(string, u32, nat) TKKTwoKeyMap"
  kk_heap :: "nat \<Rightarrow> KcpInfo option"
  m_SendUdpQue :: "KK_Cmd_Info list"
  m_RecPacketQue :: "KK_Packet list"
  RecBuf :: "u8 list"
  adr :: KKAddress
  sent :: "(u8 list \<times> KKAddress) list"

datatype kk_error = Dangling | NullPointer | Overrun | Aborted

type_synonym kk_result = "kk_error + CKKkcp"

definition MAXBUF :: int where "MAXBUF = 1048576"
definition MinHeartValue :: u64 where "MinHeartValue = 5000"
definition MaxHeartValue :: u64 where "MaxHeartValue = 60000"
definition SYNTICK :: u64 where "SYNTICK = 5000"
definition SYNTICKD :: u64 where "SYNTICKD = 10000"
definition SYNTICKT :: u64 where "SYNTICKT = 20000"
definition MAXHANDSHAKE :: u8 where "MAXHANDSHAKE = 4"
definition MaxConTick :: u64 where "MaxConTick = 60000"
definition KCP_MAXPKT_LEN :: nat where "KCP_MAXPKT_LEN = 2000"

lemmas kk_consts = MAXBUF_def MinHeartValue_def MaxHeartValue_def SYNTICK_def SYNTICKD_def SYNTICKT_def
  MAXHANDSHAKE_def MaxConTick_def KCP_MAXPKT_LEN_def

definition new_KcpInfo :: "u64 \<Rightarrow> KKAddress \<Rightarrow> KcpInfo" where
  "new_KcpInfo now a = \<lparr>Conv = 0, kcp = None, Addr = a, State = KKUnLink, con_mtu = 0, sendtick = now, rectick = now,
     sponsor = False, HandShake = 0, bTranspond = False, nTranId = 0, nDestTranId = 0\<rparr>"

text \<open>The manager after \<^verbatim>\<open>Start\<close>, with what the memory of its buffer and of \<^verbatim>\<open>adr\<close> held.\<close>

definition new_CKKkcp :: "bool \<Rightarrow> u8 list \<Rightarrow> u32 \<Rightarrow> u16 \<Rightarrow> CKKkcp" where
  "new_CKKkcp heart mem ip port = \<lparr>m_AutomaticHeart = heart, m_conId = 0, m_CurConv = 100,
     m_ConIPInfoMap = empty_TwoKeyMap, kk_heap = (\<lambda>_. None), m_SendUdpQue = [], m_RecPacketQue = [],
     RecBuf = mem, adr = \<lparr>s_addr = ip, sin_port = port, DestTranId = 0\<rparr>, sent = []\<rparr>"

definition deref :: "nat \<Rightarrow> CKKkcp \<Rightarrow> (KcpInfo \<Rightarrow> kk_error + 'a) \<Rightarrow> kk_error + 'a" where
  "deref p s f = (case kk_heap s p of None \<Rightarrow> Inl Dangling | Some i \<Rightarrow> f i)"

definition put_info :: "nat \<Rightarrow> KcpInfo \<Rightarrow> CKKkcp \<Rightarrow> CKKkcp" where
  "put_info p i s = s\<lparr>kk_heap := (kk_heap s)(p \<mapsto> i)\<rparr>"

text \<open>A handler that reads the first \<open>n\<close> bytes of a buffer.\<close>

definition need :: "nat \<Rightarrow> u8 list \<Rightarrow> kk_error + 'a \<Rightarrow> kk_error + 'a" where
  "need n buf r = (if length buf < n then Inl Overrun else r)"

definition PutKKPacket :: "KK_Packet \<Rightarrow> CKKkcp \<Rightarrow> CKKkcp" where
  "PutKKPacket p s = s\<lparr>m_RecPacketQue := m_RecPacketQue s @ [p]\<rparr>"

definition Receive :: "CKKkcp \<Rightarrow> KK_Packet option \<times> CKKkcp" where
  "Receive s = (case m_RecPacketQue s of [] \<Rightarrow> (None, s) | p # ps \<Rightarrow> (Some p, s\<lparr>m_RecPacketQue := ps\<rparr>))"

subsection \<open>Sending datagrams\<close>

definition kk_send :: "u8 list \<Rightarrow> KKAddress \<Rightarrow> CKKkcp \<Rightarrow> CKKkcp" where
  "kk_send buf a s = s\<lparr>sent := sent s @ [(buf, a)]\<rparr>"

definition SendSyn :: "u32 \<Rightarrow> KKAddress \<Rightarrow> u32 \<Rightarrow> u32 \<Rightarrow> CKKkcp \<Rightarrow> CKKkcp" where
  "SendSyn cov addr nTran nDest = kk_send (SendSign (putsyn cov nDest) nTran nDest) addr"

definition SendSynAck :: "u32 \<Rightarrow> u16 \<Rightarrow> KKAddress \<Rightarrow> u32 \<Rightarrow> u32 \<Rightarrow> CKKkcp \<Rightarrow> CKKkcp" where
  "SendSynAck cov mtu addr nTran nDest = kk_send (SendSign (putsynack cov mtu) nTran nDest) addr"

definition SendAck :: "u32 \<Rightarrow> u16 \<Rightarrow> KKAddress \<Rightarrow> u32 \<Rightarrow> u32 \<Rightarrow> CKKkcp \<Rightarrow> CKKkcp" where
  "SendAck cov mtu addr nTran nDest = kk_send (SendSign (putack cov mtu) nTran nDest) addr"

definition SendLink :: "u32 \<Rightarrow> u16 \<Rightarrow> KKAddress \<Rightarrow> u32 \<Rightarrow> u32 \<Rightarrow> CKKkcp \<Rightarrow> CKKkcp" where
  "SendLink cov mtu addr nTran nDest = kk_send (SendSign (putlink cov mtu) nTran nDest) addr"

definition SendUnLink :: "KKAddress \<Rightarrow> u32 \<Rightarrow> u32 \<Rightarrow> CKKkcp \<Rightarrow> CKKkcp" where
  "SendUnLink addr nTran nDest = kk_send (SendSign putunlink nTran nDest) addr"

definition SendKcpHeart :: "u32 \<Rightarrow> KKAddress \<Rightarrow> u32 \<Rightarrow> u32 \<Rightarrow> CKKkcp \<Rightarrow> CKKkcp" where
  "SendKcpHeart cov addr nTran nDest = kk_send (SendSign (putkcpheart cov) nTran nDest) addr"

definition SendKckLost :: "u32 \<Rightarrow> KKAddress \<Rightarrow> u32 \<Rightarrow> u32 \<Rightarrow> CKKkcp \<Rightarrow> CKKkcp" where
  "SendKckLost cov addr nTran nDest = kk_send (SendSign (putkcplost cov) nTran nDest) addr"

definition SendKcpDisconnect :: "u32 \<Rightarrow> KKAddress \<Rightarrow> u32 \<Rightarrow> u32 \<Rightarrow> CKKkcp \<Rightarrow> CKKkcp" where
  "SendKcpDisconnect cov addr nTran nDest =
     kk_send (SendSign (if nTran > 0 \<and> nDest = 0 then putDelTranId else putkcpdisconnect cov) nTran nDest) addr"

definition SendGetTranId :: "KKAddress \<Rightarrow> CKKkcp \<Rightarrow> CKKkcp" where
  "SendGetTranId addr = kk_send putGetTranId addr"

lemmas kk_sends = SendSyn_def SendSynAck_def SendAck_def SendLink_def SendUnLink_def SendKcpHeart_def
  SendKckLost_def SendKcpDisconnect_def SendGetTranId_def

text \<open>The output of a control block. The datagram is put together in a buffer of 2048 bytes.\<close>

definition kk_udp_output :: "KcpInfo \<Rightarrow> u8 list \<Rightarrow> CKKkcp \<Rightarrow> kk_result" where
  "kk_udp_output i buf s =
     (if buf = [] then Inr s
      else if length buf > 2048 then Inl Aborted
      else let out = (if bTranspond i then butTranspondHeadr 1024 (nTranId i) (nDestTranId i) @ [0xAE] @ buf else 0xAE # buf)
        in if length out > 2048 then Inl Overrun else Inr (kk_send out (Addr i) s))"

fun kk_outputs :: "KcpInfo \<Rightarrow> u8 list list \<Rightarrow> CKKkcp \<Rightarrow> kk_result" where
  "kk_outputs i [] s = Inr s"
| "kk_outputs i (buf # bufs) s = (case kk_udp_output i buf s of Inl e \<Rightarrow> Inl e | Inr s \<Rightarrow> kk_outputs i bufs s)"

subsection \<open>Connections\<close>

definition GenSysKKPacket :: "KKConState \<Rightarrow> KKAddress \<Rightarrow> u32 \<Rightarrow> CKKkcp \<Rightarrow> CKKkcp" where
  "GenSysKKPacket sys addr conId = PutKKPacket \<lparr>p_buf = [],
     msgId = (if sys = KKLink \<or> sys = KKKckLost then MSGLinkLost
       else if con_state sys \<le> con_state KKACK then MSGConnectFail
       else if sys = KKAutoDisConnect then MSGKcpDisConnect
       else if sys = KKGetTranId then MSGTranConnectFail else MSGUnKown),
     p_Addr = addr, ConId = conId\<rparr>"

definition con_key :: "KKAddress \<Rightarrow> string" where
  "con_key a = ToString True (CHR ''|'') a"

text \<open>The key of the peer behind a datagram that may have come through the transponder.\<close>

definition tran_key :: "u32 \<Rightarrow> KKAddress \<Rightarrow> string" where
  "tran_key nTran a = (if nTran > 0 then ToString2 (ucast nTran) (CHR ''|'') a else con_key a)"

definition FreeKcpInfo :: "nat \<Rightarrow> bool \<Rightarrow> CKKkcp \<Rightarrow> kk_error + ((string \<times> nat) list \<times> CKKkcp)" where
  "FreeKcpInfo p NeedMsg s = deref p s (\<lambda>i.
     case Key1Del (con_key (Addr i)) (m_ConIPInfoMap s) of
       (it, m) \<Rightarrow> Inr (it, (if NeedMsg then GenSysKKPacket (State i) (Addr i) (Conv i) else (\<lambda>s. s))
                          (s\<lparr>m_ConIPInfoMap := m, kk_heap := (kk_heap s)(p := None)\<rparr>)))"

definition CreateKcp :: "string \<Rightarrow> u32 \<Rightarrow> u16 \<Rightarrow> CKKkcp \<Rightarrow> kk_result" where
  "CreateKcp Ipport conv mtu s = (case Key1Find Ipport (m_ConIPInfoMap s) of None \<Rightarrow> Inl Aborted
     | Some p \<Rightarrow> deref p s (\<lambda>i. Inr (put_info p (i\<lparr>kcp := Some (endpoint conv mtu), Conv := conv\<rparr>) s)))"

text \<open>One message of a control block goes to the queue of received packets.\<close>

definition GetRecKcpData :: "nat \<Rightarrow> KKAddress \<Rightarrow> CKKkcp \<Rightarrow> kk_result" where
  "GetRecKcpData p addr s = deref p s (\<lambda>i. case kcp i of None \<Rightarrow> Inl NullPointer
     | Some k \<Rightarrow> (case ikcp_recv MAXBUF k of ((n, bytes), k') \<Rightarrow>
         let s = put_info p (i\<lparr>kcp := Some k'\<rparr>) s
         in Inr (if n > 0 then PutKKPacket \<lparr>p_buf = bytes, msgId = MSGKcpData, p_Addr = addr, ConId = kcp_conv k'\<rparr> s else s)))"

definition run_update :: "u32 \<Rightarrow> nat \<Rightarrow> KKAddress \<Rightarrow> CKKkcp \<Rightarrow> kk_result" where
  "run_update ic p addr s = deref p s (\<lambda>i. case kcp i of None \<Rightarrow> Inl NullPointer
     | Some k \<Rightarrow> (case ikcp_update ic k of (k', outs) \<Rightarrow>
         (case kk_outputs i outs (put_info p (i\<lparr>kcp := Some k'\<rparr>) s) of Inl e \<Rightarrow> Inl e
          | Inr s \<Rightarrow> GetRecKcpData p addr s)))"

subsection \<open>Messages of the handshake\<close>

definition on_disconnect :: "KKAddress \<Rightarrow> CKKkcp \<Rightarrow> kk_result" where
  "on_disconnect addr s = (case Key1Find (con_key addr) (m_ConIPInfoMap s) of None \<Rightarrow> Inr s
     | Some p \<Rightarrow> deref p s (\<lambda>i. Inr (put_info p (i\<lparr>State := KKAutoDisConnect\<rparr>) s)))"

text \<open>The address that an answer to a first datagram goes to. It overwrites \<^verbatim>\<open>adr\<close> of the loop.\<close>

definition syn_addr :: "(string \<Rightarrow> u32) \<Rightarrow> u32 \<Rightarrow> KKAddress \<Rightarrow> KKAddress" where
  "syn_addr inet_addr nTran addr =
     (if nTran > 0 then FromString inet_addr (ToString False (CHR ''|'') addr) (GetPort addr) (ucast nTran) else addr)"

definition syn_mtu :: "u8 list \<Rightarrow> u16 \<Rightarrow> u16" where
  "syn_mtu buf buflen = (if read16 8 buf > buflen then buflen - 1 else read16 8 buf)"

definition syn_conv :: "u8 list \<Rightarrow> CKKkcp \<Rightarrow> u32" where
  "syn_conv buf s = (if read32 4 buf > m_CurConv s then read32 4 buf else m_CurConv s + 1)"

definition on_syn :: "(string \<Rightarrow> u32) \<Rightarrow> u64 \<Rightarrow> nat \<Rightarrow> u8 list \<Rightarrow> u16 \<Rightarrow> u32 \<Rightarrow> u32 \<Rightarrow> KKAddress \<Rightarrow> CKKkcp \<Rightarrow> kk_result" where
  "on_syn inet_addr now new buf buflen nTran nDest addr s = need 10 buf
     (let mtu = syn_mtu buf buflen;
          conv = syn_conv buf s;
          a = syn_addr inet_addr nTran addr;
          info = (new_KcpInfo now a)\<lparr>Conv := conv, con_mtu := mtu, State := KKSYNACK, bTranspond := (nTran > 0),
            nTranId := (if nTran > 0 then nDest else 0), nDestTranId := (if nTran > 0 then nTran else 0)\<rparr>;
          s = s\<lparr>m_CurConv := conv, adr := a\<rparr>;
          freed = (case Key1Find (con_key a) (m_ConIPInfoMap s) of None \<Rightarrow> Inr s
            | Some p \<Rightarrow> (case FreeKcpInfo p False s of Inl e \<Rightarrow> Inl e | Inr (_, s) \<Rightarrow> Inr s))
      in case freed of Inl e \<Rightarrow> Inl e
         | Inr s \<Rightarrow> Inr (SendSynAck conv mtu a (nTranId info) (nDestTranId info)
             (put_info new info (s\<lparr>m_ConIPInfoMap := Key1Insert (con_key a) new (m_ConIPInfoMap s)\<rparr>))))"

definition on_synack :: "u64 \<Rightarrow> u8 list \<Rightarrow> u32 \<Rightarrow> KKAddress \<Rightarrow> CKKkcp \<Rightarrow> kk_result" where
  "on_synack now buf nTran addr s = need 10 buf
     (let conv = read32 4 buf; mtu = read16 8 buf; key = tran_key nTran addr
      in case Key1Find key (m_ConIPInfoMap s) of None \<Rightarrow> Inl Aborted
         | Some p \<Rightarrow> deref p s (\<lambda>i.
             case CreateKcp key conv mtu (put_info p (i\<lparr>State := KKACK, sendtick := now\<rparr>) s) of Inl e \<Rightarrow> Inl e
             | Inr s \<Rightarrow> deref p s (\<lambda>i.
                 Inr (SendAck conv mtu addr (nTranId i) (nDestTranId i)
                   (put_info p (i\<lparr>Conv := conv, HandShake := 0, con_mtu := mtu\<rparr>)
                     (s\<lparr>m_ConIPInfoMap := key2insert key conv p (m_ConIPInfoMap s)\<rparr>))))))"

definition on_ack :: "u64 \<Rightarrow> u8 list \<Rightarrow> u32 \<Rightarrow> u32 \<Rightarrow> KKAddress \<Rightarrow> CKKkcp \<Rightarrow> kk_result" where
  "on_ack now buf nTran nDest addr s = need 10 buf
     (let conv = read32 4 buf; mtu = read16 8 buf; key = tran_key nTran addr;
          linked = (case Key1Find key (m_ConIPInfoMap s) of None \<Rightarrow> Inl Aborted
            | Some p \<Rightarrow> deref p s (\<lambda>i.
                if State i = KKSYNACK \<and> Conv i = conv \<and> con_mtu i = mtu
                then (case CreateKcp key conv mtu (put_info p (i\<lparr>State := KKLink, sendtick := now\<rparr>) s) of Inl e \<Rightarrow> Inl e
                  | Inr s \<Rightarrow> Inr (PutKKPacket \<lparr>p_buf = [], msgId = MSGLinkIncoming, p_Addr = Addr i, ConId = conv\<rparr>
                      (s\<lparr>m_ConIPInfoMap := key2insert key conv p (m_ConIPInfoMap s)\<rparr>)))
                else Inr (put_info p (i\<lparr>sendtick := now\<rparr>) s)))
      in case linked of Inl e \<Rightarrow> Inl e | Inr s \<Rightarrow> Inr (SendLink conv mtu addr nDest nTran s))"

definition on_link :: "u64 \<Rightarrow> u8 list \<Rightarrow> u32 \<Rightarrow> KKAddress \<Rightarrow> CKKkcp \<Rightarrow> kk_result" where
  "on_link now buf nTran addr s = need 10 buf
     (let conv = read32 4 buf; mtu = read16 8 buf
      in case Key1Find (tran_key nTran addr) (m_ConIPInfoMap s) of None \<Rightarrow> Inr (SendKckLost conv addr 0 0 s)
         | Some p \<Rightarrow> deref p s (\<lambda>i.
             if Conv i = conv \<and> con_mtu i = mtu
             then Inr (PutKKPacket \<lparr>p_buf = [], msgId = MSGLinkAccepted, p_Addr = Addr i, ConId = conv\<rparr>
                    (put_info p (i\<lparr>State := KKLink, sendtick := now, HandShake := 0\<rparr>) s))
             else Inr (SendKckLost conv addr 0 0 s)))"

definition on_heart :: "u64 \<Rightarrow> u8 list \<Rightarrow> KKAddress \<Rightarrow> CKKkcp \<Rightarrow> kk_result" where
  "on_heart now buf addr s = need 8 buf
     (let conv = read32 4 buf
      in case Key2Find conv (m_ConIPInfoMap s) of None \<Rightarrow> Inr (SendKckLost conv addr 0 0 s)
         | Some p \<Rightarrow> deref p s (\<lambda>i.
             Inr (PutKKPacket \<lparr>p_buf = [], msgId = MSGKcpHeart, p_Addr = Addr i, ConId = conv\<rparr>
               (if \<not> sponsor i then SendKcpHeart (Conv i) (Addr i) (nTranId i) (nDestTranId i) (put_info p (i\<lparr>sendtick := now\<rparr>) s)
                else put_info p (i\<lparr>sendtick := now, rectick := now\<rparr>) s))))"

text \<open>The connection that was lost is looked up under \<^verbatim>\<open>ipport\<close>, which is still empty.\<close>

definition on_lost :: "KKAddress \<Rightarrow> CKKkcp \<Rightarrow> kk_result" where
  "on_lost addr s = (case Key1Find [] (m_ConIPInfoMap s) of
       None \<Rightarrow> Inr (PutKKPacket \<lparr>p_buf = [], msgId = MSGKckLost, p_Addr = addr, ConId = 0\<rparr> s)
     | Some p \<Rightarrow> deref p s (\<lambda>i. case FreeKcpInfo p True (put_info p (i\<lparr>State := KKKckLost\<rparr>) s) of Inl e \<Rightarrow> Inl e
         | Inr (_, s) \<Rightarrow> Inr (PutKKPacket \<lparr>p_buf = [], msgId = MSGKckLost, p_Addr = addr, ConId = Conv i\<rparr> s)))"

definition OnConHandle :: "(string \<Rightarrow> u32) \<Rightarrow> u64 \<Rightarrow> nat \<Rightarrow> u8 list \<Rightarrow> u16 \<Rightarrow> u32 \<Rightarrow> u32 \<Rightarrow> KKAddress \<Rightarrow> CKKkcp \<Rightarrow> kk_result" where
  "OnConHandle inet_addr now new buf buflen nTran nDest addr s = need 4 buf
     (let m = read32 0 buf
      in if m = con_state KKDisConnect then on_disconnect addr s
         else if m = con_state KKSYN then on_syn inet_addr now new buf buflen nTran nDest addr s
         else if m = con_state KKSYNACK then on_synack now buf nTran addr s
         else if m = con_state KKACK then on_ack now buf nTran nDest addr s
         else if m = con_state KKLink then on_link now buf nTran addr s
         else if m = con_state KKKcpHeart then on_heart now buf addr s
         else if m = con_state KKUnLink then Inr (PutKKPacket \<lparr>p_buf = [], msgId = MSGUnLink, p_Addr = addr, ConId = 0\<rparr> s)
         else if m = con_state KKKckLost then on_lost addr s
         else Inr s)"

subsection \<open>Datagrams\<close>

definition OnKcp :: "u64 \<Rightarrow> u8 list \<Rightarrow> u16 \<Rightarrow> u32 \<Rightarrow> u32 \<Rightarrow> KKAddress \<Rightarrow> CKKkcp \<Rightarrow> kk_result" where
  "OnKcp now buf buflen nTran nDest addr s = (case Key1Find (tran_key nTran addr) (m_ConIPInfoMap s) of
       None \<Rightarrow> Inr (SendUnLink addr nTran nDest s)
     | Some p \<Rightarrow> deref p s (\<lambda>i.
         let i = i\<lparr>sendtick := now, rectick := now\<rparr>
         in case kcp i of None \<Rightarrow> Inr (put_info p i s)
            | Some k \<Rightarrow> need (unat buflen) buf
                (run_update (ucast now) p addr (put_info p (i\<lparr>kcp := Some (snd (ikcp_input (take (unat buflen) buf) k))\<rparr>) s))))"

definition on_tran_id :: "u64 \<Rightarrow> u8 list \<Rightarrow> KKAddress \<Rightarrow> CKKkcp \<Rightarrow> kk_result" where
  "on_tran_id now buf addr s = need 1 buf
     (if buf ! 0 \<noteq> UDPGETTRANID then Inr s
      else case Key1Find (con_key addr) (m_ConIPInfoMap s) of None \<Rightarrow> Inr s
         | Some p \<Rightarrow> deref p s (\<lambda>i. need 5 buf
             (Inr (PutKKPacket \<lparr>p_buf = [], msgId = MSGTranIdOk, p_Addr = Addr i, ConId = read32 1 buf\<rparr>
                (put_info p (i\<lparr>State := KKTranIdOk, sendtick := now, nTranId := read32 1 buf\<rparr>) s)))))"

text \<open>
  The first argument lists what is in memory from \<^verbatim>\<open>RecBuf\<close> to the end of the buffer; \<^verbatim>\<open>RecLen\<close> is
  the length of the datagram. A datagram from the transponder has another one in it.
\<close>

function OnBufHandle :: "(string \<Rightarrow> u32) \<Rightarrow> u64 \<Rightarrow> nat \<Rightarrow> u8 list \<Rightarrow> u16 \<Rightarrow> u32 \<Rightarrow> u32 \<Rightarrow> KKAddress \<Rightarrow> CKKkcp \<Rightarrow> kk_result" where
  "OnBufHandle inet_addr now new buf RecLen nTran nDest addr s =
     (if buf = [] then Inl Overrun
      else if buf ! 0 = 0xAF then need 5 buf
        (if read32 1 buf = UDPCTLMSG then OnConHandle inet_addr now new (drop 5 buf) (RecLen - 5) nTran nDest addr s else Inr s)
      else if buf ! 0 = 0xAE then OnKcp now (drop 1 buf) (RecLen - 1) nTran nDest addr s
      else if buf ! 0 = 0xAD then need 9 buf
        (OnBufHandle inet_addr now new (drop 9 buf) (RecLen - 9) (read32 1 buf) (read32 5 buf) addr s)
      else if buf ! 0 = 0xAC then on_tran_id now (drop 1 buf) addr s
      else if buf ! 0 = 0xAB \<and> RecLen > 1 then need (unat RecLen) buf
        (Inr (PutKKPacket \<lparr>p_buf = take (unat (RecLen - 1)) (drop 1 buf), msgId = MSGUdpData, p_Addr = addr, ConId = 0\<rparr> s))
      else Inr s)"
  by pat_completeness auto
termination
  by (relation "measure (\<lambda>(ia, now, new, buf, _). length buf)") auto

declare OnBufHandle.simps [simp del]

text \<open>A round of \<^verbatim>\<open>HandleRecUdp\<close> that received a datagram.\<close>

definition receive_datagram :: "(string \<Rightarrow> u32) \<Rightarrow> u64 \<Rightarrow> nat \<Rightarrow> u8 list \<Rightarrow> u32 \<Rightarrow> u16 \<Rightarrow> CKKkcp \<Rightarrow> kk_result" where
  "receive_datagram inet_addr now new dgram ip port s =
     (if dgram = [] then Inr s
      else let a = (adr s)\<lparr>s_addr := ip, sin_port := port\<rparr>;
               buf = take 2048 dgram @ drop (length dgram) (RecBuf s)
           in OnBufHandle inet_addr now new buf (of_nat (min 2048 (length dgram))) 0 0 a (s\<lparr>RecBuf := buf, adr := a\<rparr>))"

subsection \<open>What the application calls\<close>

definition push_cmd :: "KK_Cmd_Info \<Rightarrow> CKKkcp \<Rightarrow> CKKkcp" where
  "push_cmd c s = s\<lparr>m_SendUdpQue := m_SendUdpQue s @ [c]\<rparr>"

definition int_text :: "int \<Rightarrow> string" where
  "int_text n = ''|'' @ Itoa n 10"

definition Connect :: "(string \<Rightarrow> u32) \<Rightarrow> u64 \<Rightarrow> nat \<Rightarrow> string \<Rightarrow> int \<Rightarrow> CKKkcp \<Rightarrow> kk_result" where
  "Connect inet_addr now new ip port s = (case Key1Find (ip @ int_text port) (m_ConIPInfoMap s) of
       Some p \<Rightarrow> deref p s (\<lambda>i. if con_state (State i) < con_state KKSYN then Inl Aborted else Inr s)
     | None \<Rightarrow>
         (let a = FromString inet_addr ip (word_of_int port) 0;
              conv = m_CurConv s + 1;
              info = (new_KcpInfo now a)\<lparr>sponsor := True, State := KKSYN, Conv := conv\<rparr>
          in Inr (push_cmd \<lparr>cmd = CMDConnect, cmd_Conv = conv, cmd_nTranId = 0, cmd_nDestTranId = 0, cmd_Addr = a\<rparr>
               (put_info new info (s\<lparr>m_CurConv := conv, m_ConIPInfoMap := Key1Insert (ip @ int_text port) new (m_ConIPInfoMap s)\<rparr>)))))"

text \<open>A connection through the transponder \<open>ip\<close>, at which this end is registered.\<close>

definition Connect_tran :: "(string \<Rightarrow> u32) \<Rightarrow> u64 \<Rightarrow> nat \<Rightarrow> string \<Rightarrow> u16 \<Rightarrow> u64 \<Rightarrow> CKKkcp \<Rightarrow> kk_result" where
  "Connect_tran inet_addr now new ip port nDest s = (case Key1Find (ip @ int_text (uint port)) (m_ConIPInfoMap s) of None \<Rightarrow> Inr s
     | Some p \<Rightarrow> (case Key1Find (ip @ int_text (uint port) @ ''|'' @ tran_text nDest) (m_ConIPInfoMap s) of Some _ \<Rightarrow> Inr s
         | None \<Rightarrow> deref p s (\<lambda>t.
             let a = FromString inet_addr ip port nDest;
                 conv = m_CurConv s + 1;
                 info = (new_KcpInfo now a)\<lparr>bTranspond := True, sponsor := True, State := KKSYN, nTranId := nTranId t,
                   nDestTranId := ucast nDest, Conv := conv\<rparr>
             in Inr (push_cmd \<lparr>cmd = CMDConnect, cmd_Conv = conv, cmd_nTranId = nTranId t, cmd_nDestTranId = ucast nDest, cmd_Addr = a\<rparr>
                  (put_info new info (s\<lparr>m_CurConv := conv, m_ConIPInfoMap := Key1Insert (con_key a) new (m_ConIPInfoMap s)\<rparr>))))))"

definition ConnectTranServer :: "(string \<Rightarrow> u32) \<Rightarrow> u64 \<Rightarrow> nat \<Rightarrow> string \<Rightarrow> u16 \<Rightarrow> CKKkcp \<Rightarrow> kk_result" where
  "ConnectTranServer inet_addr now new ip port s = (case Key1Find (ip @ int_text (uint port)) (m_ConIPInfoMap s) of
       Some _ \<Rightarrow> Inl Aborted
     | None \<Rightarrow> Inr (put_info new ((new_KcpInfo now (FromString inet_addr ip port 0))\<lparr>sponsor := True, State := KKGetTranId, bTranspond := True\<rparr>)
         (s\<lparr>m_ConIPInfoMap := Key1Insert (ip @ int_text (uint port)) new (m_ConIPInfoMap s)\<rparr>)))"

definition disconnect_cmd :: "KcpInfo \<Rightarrow> KK_Cmd_Info" where
  "disconnect_cmd i = \<lparr>cmd = CMDDisConnect, cmd_Conv = Conv i, cmd_nTranId = nTranId i, cmd_nDestTranId = nDestTranId i, cmd_Addr = Addr i\<rparr>"

definition DisConnect :: "u32 \<Rightarrow> CKKkcp \<Rightarrow> kk_error + (int \<times> CKKkcp)" where
  "DisConnect n s = (case Key2Find n (m_ConIPInfoMap s) of None \<Rightarrow> Inr (- 1, s)
     | Some p \<Rightarrow> deref p s (\<lambda>i. Inr (0, push_cmd (disconnect_cmd i) s)))"

definition DisConnect_addr :: "u64 \<Rightarrow> string \<Rightarrow> int \<Rightarrow> u64 \<Rightarrow> CKKkcp \<Rightarrow> kk_result" where
  "DisConnect_addr now ip port nDest s =
     (case Key1Find (ip @ int_text port @ (if nDest > 0 then ''|'' @ tran_text nDest else [])) (m_ConIPInfoMap s) of None \<Rightarrow> Inr s
      | Some p \<Rightarrow> deref p s (\<lambda>i. Inr (push_cmd (disconnect_cmd i) (put_info p (i\<lparr>State := KKAutoDisConnect, sendtick := now\<rparr>) s))))"

text \<open>A round of \<^verbatim>\<open>HandleCmd\<close>.\<close>

definition HandleCmd :: "CKKkcp \<Rightarrow> CKKkcp" where
  "HandleCmd s = (case m_SendUdpQue s of [] \<Rightarrow> s
     | c # cs \<Rightarrow> (let s = s\<lparr>m_SendUdpQue := cs\<rparr> in
         case cmd c of CMDConnect \<Rightarrow> SendSyn (cmd_Conv c) (cmd_Addr c) (cmd_nTranId c) (cmd_nDestTranId c) s
         | CMDDisConnect \<Rightarrow> SendKcpDisconnect (cmd_Conv c) (cmd_Addr c) (cmd_nTranId c) (cmd_nDestTranId c) s
         | CMDUnKown \<Rightarrow> s))"

definition GetMtuSize :: "u32 \<Rightarrow> CKKkcp \<Rightarrow> kk_error + u16" where
  "GetMtuSize n s = (case Key2Find n (m_ConIPInfoMap s) of None \<Rightarrow> Inr 0 | Some p \<Rightarrow> deref p s (\<lambda>i. Inr (con_mtu i)))"

text \<open>The connection that a number stands for; 0 stands for the first one.\<close>

definition pick_con :: "u32 \<Rightarrow> CKKkcp \<Rightarrow> u32 \<times> CKKkcp" where
  "pick_con n s = (if n = 0 then (case m_Map2 (m_ConIPInfoMap s) of [] \<Rightarrow> (n, s) | (k, _) # _ \<Rightarrow> (k, s\<lparr>m_conId := k\<rparr>)) else (n, s))"

text \<open>The loop of \<^verbatim>\<open>StablySend\<close>: packets of 2000 bytes and the rest. It returns \<^verbatim>\<open>Ret\<close> and \<^verbatim>\<open>buflen\<close>.\<close>

function send_packets :: "u8 list \<Rightarrow> int \<Rightarrow> IKCPCB \<Rightarrow> int \<times> nat \<times> IKCPCB" where
  "send_packets buf ret k =
     (if KCP_MAXPKT_LEN \<le> length buf
      then (case send_msg (take KCP_MAXPKT_LEN buf) k of (r, k) \<Rightarrow> send_packets (drop KCP_MAXPKT_LEN buf) r k)
      else if buf = [] then (ret, 0, k)
      else (case send_msg buf k of (r, k) \<Rightarrow> (r, length buf, k)))"
  by pat_completeness auto
termination
  by (relation "measure (\<lambda>(buf, _). length buf)") (auto simp: KCP_MAXPKT_LEN_def)

declare send_packets.simps [simp del]

definition StablySend :: "u64 \<Rightarrow> u32 \<Rightarrow> u8 list \<Rightarrow> CKKkcp \<Rightarrow> kk_error + (int \<times> CKKkcp)" where
  "StablySend now n buf s = (case pick_con n s of (n, s) \<Rightarrow>
     (case Key2Find n (m_ConIPInfoMap s) of None \<Rightarrow> Inr (0, s)
      | Some p \<Rightarrow> deref p s (\<lambda>i.
          let i = (if sponsor i then i\<lparr>sendtick := now\<rparr> else i\<lparr>rectick := now\<rparr>)
          in if buf = [] then Inr (0, put_info p i s)
             else case kcp i of None \<Rightarrow> Inl NullPointer
             | Some k \<Rightarrow> (case send_packets buf 0 k of (ret, left, k) \<Rightarrow>
                 if ret < 0 then Inl Aborted else Inr (int left, put_info p (i\<lparr>kcp := Some k\<rparr>) s)))))"

definition KKSend :: "u64 \<Rightarrow> u32 \<Rightarrow> u8 list \<Rightarrow> CKKkcp \<Rightarrow> kk_error + (int \<times> CKKkcp)" where
  "KKSend now n buf s = (case pick_con n s of (n, s) \<Rightarrow>
     (case Key2Find n (m_ConIPInfoMap s) of None \<Rightarrow> Inr (- 1, s)
      | Some p \<Rightarrow> deref p s (\<lambda>i.
          let i = (if sponsor i then i\<lparr>sendtick := now\<rparr> else i\<lparr>rectick := now\<rparr>)
          in case kcp i of None \<Rightarrow> Inl NullPointer
             | Some k \<Rightarrow> (case send_msg buf k of (ret, k) \<Rightarrow>
                 if ret < 0 then Inl Aborted else Inr (ret, put_info p (i\<lparr>kcp := Some k\<rparr>) s)))))"

subsection \<open>The thread that manages the connections\<close>

datatype con_action = Keeps KcpInfo "u8 list option" | Frees KcpInfo "u8 list option"

text \<open>The datagram that an action sends has the header of the transponder in it where it needs one.\<close>

definition tick_since :: "u64 \<Rightarrow> u64 \<Rightarrow> u64" where
  "tick_since now tick = (if now > tick then now - tick else 0)"

definition heartx :: "u8 list" where
  "heartx = padded 15 [0xAC, UDPTranHeart, 0]"

definition tran_action :: "u64 \<Rightarrow> u64 \<Rightarrow> KcpInfo \<Rightarrow> con_action" where
  "tran_action now kcptick i =
     (if HandShake i = 0 \<and> kcptick > SYNTICKD \<or> HandShake i = 1 \<and> kcptick > SYNTICKT \<or> HandShake i = 2 \<and> kcptick > MaxConTick
      then (let i = i\<lparr>HandShake := HandShake i + 1\<rparr>
            in if HandShake i < 3 then Keeps (i\<lparr>rectick := now, sendtick := now\<rparr>) (Some putGetTranId) else Keeps i None)
      else if HandShake i > 2 then Frees (i\<lparr>HandShake := 0, rectick := now, sendtick := now\<rparr>) None
      else Keeps i None)"

definition handshake_action :: "u64 \<Rightarrow> u64 \<Rightarrow> u8 list \<Rightarrow> KcpInfo \<Rightarrow> con_action" where
  "handshake_action now kcptick again i =
     (if HandShake i = 0 \<and> kcptick > SYNTICK \<or> HandShake i = 1 \<and> kcptick > SYNTICKD
      then Keeps (i\<lparr>HandShake := HandShake i + 1, rectick := now, sendtick := now\<rparr>) (Some again)
      else if HandShake i \<ge> 2 \<and> kcptick > SYNTICKT then Frees (i\<lparr>HandShake := HandShake i + 1\<rparr>) None
      else Keeps i None)"

definition sponsor_action :: "bool \<Rightarrow> u64 \<Rightarrow> u64 \<Rightarrow> u64 \<Rightarrow> KcpInfo \<Rightarrow> con_action" where
  "sponsor_action heart now kcptick rectick' i =
     (if HandShake i < MAXHANDSHAKE \<and> (State i = KKSYN \<or> State i = KKACK) then
        if kcptick > MaxConTick then Frees i None
        else if State i = KKSYN then handshake_action now kcptick (SendSign (putsyn (Conv i) (nDestTranId i)) (nTranId i) (nDestTranId i)) i
        else handshake_action now kcptick (SendSign (putack (Conv i) (con_mtu i)) (nTranId i) (nDestTranId i)) i
      else if heart \<and> State i = KKLink \<and> kcptick > MinHeartValue
        then Keeps (i\<lparr>sendtick := now\<rparr>) (Some (SendSign (putkcpheart (Conv i)) (nTranId i) (nDestTranId i)))
      else if rectick' > MaxHeartValue then Frees i None
      else Keeps i None)"

definition accepted_action :: "u64 \<Rightarrow> u64 \<Rightarrow> u64 \<Rightarrow> KcpInfo \<Rightarrow> con_action" where
  "accepted_action now kcptick rectick' i =
     (let beats = (State i = KKLink \<and> rectick' > MinHeartValue);
          i = (if beats then i\<lparr>rectick := now\<rparr> else i);
          out = (if beats then Some heartx else None)
      in if State i = KKLink \<and> kcptick > MaxHeartValue then Frees i out else Keeps i out)"

definition mgr_action :: "bool \<Rightarrow> u64 \<Rightarrow> u64 \<Rightarrow> u64 \<Rightarrow> KcpInfo \<Rightarrow> con_action" where
  "mgr_action heart now kcptick rectick' i =
     (if State i = KKAutoDisConnect \<or> State i = KKKckLost \<or> \<not> sponsor i \<and> kcptick > MaxHeartValue then Frees i None
      else if State i = KKGetTranId then tran_action now kcptick i
      else if sponsor i then sponsor_action heart now kcptick rectick' i
      else if State i = KKTranIdOk \<and> kcptick > MinHeartValue then Keeps (i\<lparr>sendtick := now\<rparr>) (Some heartx)
      else accepted_action now kcptick rectick' i)"

text \<open>\<^verbatim>\<open>ikcp_check\<close> returns a time; any but 0 counts as yes.\<close>

definition mgr_kcp :: "u64 \<Rightarrow> nat \<Rightarrow> CKKkcp \<Rightarrow> kk_result" where
  "mgr_kcp now p s = deref p s (\<lambda>i. case kcp i of None \<Rightarrow> Inr s
     | Some k \<Rightarrow> if ikcp_check (ucast now) k \<noteq> 0 then run_update (ucast now) p (Addr i) s else Inr s)"

definition send_action :: "KcpInfo \<Rightarrow> u8 list option \<Rightarrow> CKKkcp \<Rightarrow> CKKkcp" where
  "send_action i out s = (case out of None \<Rightarrow> s | Some buf \<Rightarrow> kk_send buf (Addr i) s)"

text \<open>One connection: its control block runs, then the action; \<open>True\<close> when it is to be freed.\<close>

definition mgr_step :: "u64 \<Rightarrow> nat \<Rightarrow> CKKkcp \<Rightarrow> kk_error + (bool \<times> CKKkcp)" where
  "mgr_step now p s = deref p s (\<lambda>i0. case mgr_kcp now p s of Inl e \<Rightarrow> Inl e
     | Inr s \<Rightarrow> deref p s (\<lambda>i.
         case mgr_action (m_AutomaticHeart s) now (tick_since now (sendtick i0)) (tick_since now (rectick i0)) i of
           Keeps i out \<Rightarrow> Inr (False, send_action i out (put_info p i s))
         | Frees i out \<Rightarrow> Inr (True, send_action i out (put_info p i s))))"

lemma FreeKcpInfo_length:
  assumes "FreeKcpInfo p b s = Inr (it, s')"
  shows "length (m_Map1 (m_ConIPInfoMap s')) < length (m_Map1 (m_ConIPInfoMap s))
    \<or> length (m_Map1 (m_ConIPInfoMap s')) = length (m_Map1 (m_ConIPInfoMap s)) \<and> it = []"
proof -
  obtain i where i: "kk_heap s p = Some i" using assms by (auto simp: FreeKcpInfo_def deref_def split: option.splits)
  obtain m where m: "Key1Del (con_key (Addr i)) (m_ConIPInfoMap s) = (it, m)" "m_ConIPInfoMap s' = m"
    using assms i by (auto simp: FreeKcpInfo_def deref_def GenSysKKPacket_def PutKKPacket_def split: prod.splits if_splits)
  show ?thesis using Key1Del_length [OF m(1)] m(2) by simp
qed

lemma kk_outputs_map: "kk_outputs i bufs s = Inr s' \<Longrightarrow> m_ConIPInfoMap s' = m_ConIPInfoMap s"
proof (induction i bufs s rule: kk_outputs.induct)
  case (2 i buf bufs s)
  then show ?case by (fastforce simp: kk_udp_output_def kk_send_def Let_def split: sum.splits if_splits)
qed simp

lemma mgr_step_map:
  assumes "mgr_step now p s = Inr (b, s')"
  shows "m_ConIPInfoMap s' = m_ConIPInfoMap s"
proof -
  have g: "m_ConIPInfoMap s' = m_ConIPInfoMap s" if "GetRecKcpData p a s = Inr s'" for a s s'
    using that by (auto simp: GetRecKcpData_def deref_def put_info_def PutKKPacket_def Let_def split: option.splits prod.splits if_splits)
  have r: "m_ConIPInfoMap s' = m_ConIPInfoMap s" if "run_update t p a s = Inr s'" for t a s s'
    using that g kk_outputs_map
    by (fastforce simp: run_update_def deref_def put_info_def split: option.splits prod.splits sum.splits)
  have "m_ConIPInfoMap s' = m_ConIPInfoMap s" if "mgr_kcp now p s = Inr s'" for s'
    using that r by (auto simp: mgr_kcp_def deref_def split: option.splits if_splits)
  then show ?thesis using assms
    by (auto simp: mgr_step_def deref_def put_info_def send_action_def kk_send_def
        split: option.splits sum.splits con_action.splits)
qed

text \<open>The loop over the connections; the second argument is the iterator.\<close>

function mgr_loop :: "u64 \<Rightarrow> (string \<times> nat) list \<Rightarrow> CKKkcp \<Rightarrow> kk_result" where
  "mgr_loop now [] s = Inr s"
| "mgr_loop now ((k, p) # rest) s = (case mgr_step now p s of Inl e \<Rightarrow> Inl e
     | Inr (False, s') \<Rightarrow> mgr_loop now rest s'
     | Inr (True, s') \<Rightarrow> (case FreeKcpInfo p True s' of Inl e \<Rightarrow> Inl e | Inr (it, s'') \<Rightarrow> mgr_loop now it s''))"
  by pat_completeness auto
termination
proof (relation "measures [\<lambda>(now, it, s). length (m_Map1 (m_ConIPInfoMap s)), \<lambda>(now, it, s). length it]")
  fix now :: u64 and k :: string and p rest s x b s' r it s''
  assume a: "mgr_step now p s = Inr x" "(b, s') = x" "FreeKcpInfo p True s' = Inr r" "(it, s'') = r"
  then have "mgr_step now p s = Inr (b, s')" "FreeKcpInfo p True s' = Inr (it, s'')" by simp_all
  from mgr_step_map [OF this(1)] FreeKcpInfo_length [OF this(2)]
  show "((now, it, s''), now, (k, p) # rest, s)
      \<in> measures [\<lambda>(now, it, s). length (m_Map1 (m_ConIPInfoMap s)), \<lambda>(now, it, s). length it]"
    by auto
next
  fix now :: u64 and k :: string and p rest s x b s'
  assume a: "mgr_step now p s = Inr x" "(b, s') = x"
  then have "mgr_step now p s = Inr (b, s')" by simp
  from mgr_step_map [OF this]
  show "((now, rest, s'), now, (k, p) # rest, s)
      \<in> measures [\<lambda>(now, it, s). length (m_Map1 (m_ConIPInfoMap s)), \<lambda>(now, it, s). length it]"
    by auto
qed auto

definition ConnMgrThread :: "u64 \<Rightarrow> CKKkcp \<Rightarrow> kk_result" where
  "ConnMgrThread now s = mgr_loop now (m_Map1 (m_ConIPInfoMap s)) s"

end
