(* ===== verification/KKKcpProps.thy ===== *)
theory KKKcpProps
  imports KKKcp
begin

text \<open>
  The handshake of the connection manager: without losses it leaves both ends linked under the same
  number, each with a control block that the KCP link starts from. What goes wrong when datagrams
  are repeated, and what the manager does with the connections over time.
\<close>

subsection \<open>Control datagrams\<close>

text \<open>A control datagram that carries a number and an MTU.\<close>

definition ctl :: "KKConState \<Rightarrow> u32 \<Rightarrow> u16 \<Rightarrow> u8 list \<Rightarrow> u8 list" where
  "ctl st c m rest = 0xAF # net32 UDPCTLMSG @ net32 (con_state st) @ net32 c @ net16 m @ rest"

lemma built_ctl:
  "putsyn c 0 = ctl KKSYN c 1436 (replicate 1421 0)" "putsynack c m = ctl KKSYNACK c m []"
  "putack c m = ctl KKACK c m []" "putlink c m = ctl KKLink c m []"
  by (simp_all add: putsyn_def putsynack_def putack_def putlink_def padded_def ctl_def)

lemma read_ctl:
  "read32 0 (net32 a @ net32 b @ net16 m @ r) = a" "read32 4 (net32 a @ net32 b @ net16 m @ r) = b"
  "read16 8 (net32 a @ net32 b @ net16 m @ r) = m"
  using read_net(1) [of "[]" a] read_net(1) [of "net32 a" b] read_net(2) [of "net32 a @ net32 b" m r]
  by simp_all

definition from_addr :: "u32 \<Rightarrow> u16 \<Rightarrow> KKAddress" where
  "from_addr ip port = \<lparr>s_addr = ip, sin_port = port, DestTranId = 0\<rparr>"

text \<open>The state once a datagram is in the buffer.\<close>

definition received :: "u8 list \<Rightarrow> u32 \<Rightarrow> u16 \<Rightarrow> CKKkcp \<Rightarrow> CKKkcp" where
  "received d ip port s = s\<lparr>RecBuf := take 2048 d @ drop (length d) (RecBuf s), adr := from_addr ip port\<rparr>"

lemma receive_ctl:
  assumes "DestTranId (adr s) = 0" "length rest \<le> 2000"
  shows "\<exists>r. receive_datagram ia now new (ctl st c m rest) ip port s =
    OnConHandle ia now new (net32 (con_state st) @ net32 c @ net16 m @ r) (of_nat (length rest + 15) - 5) 0 0
      (from_addr ip port) (received (ctl st c m rest) ip port s)"
proof -
  let ?d = "ctl st c m rest"
  have l: "length ?d = length rest + 15" by (simp add: ctl_def)
  have t: "take 2048 ?d = ?d" using assms(2) l by simp
  have a: "(adr s)\<lparr>s_addr := ip, sin_port := port\<rparr> = from_addr ip port" using assms(1) by (simp add: from_addr_def)
  obtain r where r: "?d @ drop (length ?d) (RecBuf s) = 0xAF # net32 UDPCTLMSG @ net32 (con_state st) @ net32 c @ net16 m @ r"
    by (simp add: ctl_def)
  have n: "?d \<noteq> []" by (simp add: ctl_def)
  have m: "min 2048 (length ?d) = length rest + 15" using assms(2) l by simp
  have c: "read32 1 (0xAF # net32 UDPCTLMSG @ x) = UDPCTLMSG" for x using read_net(1) [of "[0xAF]" UDPCTLMSG x] by simp
  have d: "drop 5 (0xAF # net32 UDPCTLMSG @ x) = x" for x by (simp add: net32_def)
  have "receive_datagram ia now new ?d ip port s =
      OnBufHandle ia now new (?d @ drop (length ?d) (RecBuf s)) (of_nat (length rest + 15)) 0 0 (from_addr ip port) (received ?d ip port s)"
    by (simp only: receive_datagram_def received_def Let_def t a n m if_False)
  also have "\<dots> = OnConHandle ia now new (net32 (con_state st) @ net32 c @ net16 m @ r) (of_nat (length rest + 15) - 5) 0 0
      (from_addr ip port) (received ?d ip port s)"
    unfolding r OnBufHandle.simps [of _ _ _ "0xAF # _"] by (simp add: need_def c c [unfolded One_nat_def] d)
  finally show ?thesis by blast
qed

lemma OnConHandle_ctl:
  "OnConHandle ia now new (net32 (con_state KKSYN) @ net32 c @ net16 m @ r) len nTran nDest a s =
     on_syn ia now new (net32 (con_state KKSYN) @ net32 c @ net16 m @ r) len nTran nDest a s"
  "OnConHandle ia now new (net32 (con_state KKSYNACK) @ net32 c @ net16 m @ r) len nTran nDest a s =
     on_synack now (net32 (con_state KKSYNACK) @ net32 c @ net16 m @ r) nTran a s"
  "OnConHandle ia now new (net32 (con_state KKACK) @ net32 c @ net16 m @ r) len nTran nDest a s =
     on_ack now (net32 (con_state KKACK) @ net32 c @ net16 m @ r) nTran nDest a s"
  "OnConHandle ia now new (net32 (con_state KKLink) @ net32 c @ net16 m @ r) len nTran nDest a s =
     on_link now (net32 (con_state KKLink) @ net32 c @ net16 m @ r) nTran a s"
  by (simp_all add: OnConHandle_def need_def read_ctl Let_def)

subsection \<open>The handshake\<close>

definition maps_ok :: "CKKkcp \<Rightarrow> bool" where
  "maps_ok s \<longleftrightarrow> map_ok (m_Map1 (m_ConIPInfoMap s)) \<and> map_ok (m_Map2 (m_ConIPInfoMap s)) \<and> map_ok (m_Map3 (m_ConIPInfoMap s))
     \<and> DestTranId (adr s) = 0"

text \<open>A peer that waits for the next message of the handshake.\<close>

definition has_con :: "nat \<Rightarrow> string \<Rightarrow> KcpInfo \<Rightarrow> CKKkcp \<Rightarrow> bool" where
  "has_con p key i s \<longleftrightarrow> maps_ok s \<and> Key1Find key (m_ConIPInfoMap s) = Some p \<and> kk_heap s p = Some i"

lemma maps_ok_received [simp]: "maps_ok s \<Longrightarrow> maps_ok (received d ip port s)"
  by (simp add: maps_ok_def received_def from_addr_def)

lemma Key1Find_insert:
  "map_ok (m_Map1 m) \<Longrightarrow> Key1Find k m = None \<Longrightarrow> Key1Find k (Key1Insert k v m) = Some v"
  by (simp add: Key1Find_def Key1Insert_def)

lemma maps_ok_Key1Insert:
  "map_ok (m_Map1 m) \<and> map_ok (m_Map2 m) \<and> map_ok (m_Map3 m) \<Longrightarrow>
   map_ok (m_Map1 (Key1Insert k v m)) \<and> map_ok (m_Map2 (Key1Insert k v m)) \<and> map_ok (m_Map3 (Key1Insert k v m))"
  by (auto simp: Key1Insert_def set_Map3_def split: option.splits)

lemma maps_ok_key2insert:
  "map_ok (m_Map1 m) \<and> map_ok (m_Map2 m) \<and> map_ok (m_Map3 m) \<Longrightarrow>
   map_ok (m_Map1 (key2insert k c v m)) \<and> map_ok (m_Map2 (key2insert k c v m)) \<and> map_ok (m_Map3 (key2insert k c v m))"
  by (auto simp: key2insert_def set_Map3_def split: option.splits)

lemma Key1Find_key2insert [simp]: "Key1Find k (key2insert l c v m) = Key1Find k m"
  by (simp add: Key1Find_def key2insert_def)

lemma Key2Find_key2insert:
  "map_ok (m_Map2 m) \<Longrightarrow> Key2Find c m = None \<Longrightarrow> Key2Find c (key2insert l c v m) = Some v"
  by (simp add: Key2Find_def key2insert_def)

lemma con_key_from: "con_key (from_addr ip port) = inet_ntoa ip @ int_text (uint port)"
  by (simp add: con_key_def ToString_def from_addr_def int_text_def)

lemma tran_key_0 [simp]: "tran_key 0 a = con_key a"
  by (simp add: tran_key_def)

lemma connect_step:
  assumes "maps_ok s" "Key1Find (con_key (from_addr ip port)) (m_ConIPInfoMap s) = None" "ia (inet_ntoa ip) = ip" "m_SendUdpQue s = []"
  shows "\<exists>s' i. Connect ia now p (inet_ntoa ip) (uint port) s = Inr s' \<and> has_con p (con_key (from_addr ip port)) i (HandleCmd s')
    \<and> State i = KKSYN \<and> nTranId i = 0 \<and> nDestTranId i = 0 \<and> Addr i = from_addr ip port
    \<and> m_Map2 (m_ConIPInfoMap (HandleCmd s')) = m_Map2 (m_ConIPInfoMap s) \<and> m_RecPacketQue (HandleCmd s') = m_RecPacketQue s
    \<and> sent (HandleCmd s') = sent s @ [(ctl KKSYN (m_CurConv s + 1) 1436 (replicate 1421 0), from_addr ip port)]"
proof -
  let ?a = "from_addr ip port"
  let ?c = "m_CurConv s + 1"
  let ?i = "(new_KcpInfo now ?a)\<lparr>sponsor := True, State := KKSYN, Conv := ?c\<rparr>"
  let ?s = "push_cmd \<lparr>cmd = CMDConnect, cmd_Conv = ?c, cmd_nTranId = 0, cmd_nDestTranId = 0, cmd_Addr = ?a\<rparr>
     (put_info p ?i (s\<lparr>m_CurConv := ?c, m_ConIPInfoMap := Key1Insert (con_key ?a) p (m_ConIPInfoMap s)\<rparr>))"
  have a: "FromString ia (inet_ntoa ip) (word_of_int (uint port)) 0 = ?a" using assms(3) by (simp add: FromString_def from_addr_def)
  have e: "Connect ia now p (inet_ntoa ip) (uint port) s = Inr ?s"
    unfolding Connect_def con_key_from [symmetric] assms(2) a by (simp add: Let_def)
  have h: "HandleCmd ?s = kk_send (ctl KKSYN ?c 1436 (replicate 1421 0)) ?a
      (put_info p ?i (s\<lparr>m_CurConv := ?c, m_ConIPInfoMap := Key1Insert (con_key ?a) p (m_ConIPInfoMap s)\<rparr>))"
    using assms(4) by (simp add: HandleCmd_def push_cmd_def put_info_def Let_def SendSyn_def SendSign_def built_ctl kk_send_def)
  have m: "maps_ok (HandleCmd ?s)"
    using assms(1) maps_ok_Key1Insert [of "m_ConIPInfoMap s" "con_key ?a" p]
    unfolding h by (simp add: maps_ok_def kk_send_def put_info_def)
  have f: "Key1Find (con_key ?a) (Key1Insert (con_key ?a) p (m_ConIPInfoMap s)) = Some p"
    using assms(1,2) by (intro Key1Find_insert) (simp_all add: maps_ok_def)
  show ?thesis
    by (intro exI [of _ ?s] exI [of _ ?i] conjI e)
      (use m f in \<open>simp_all add: has_con_def h\<close>, simp_all add: kk_send_def put_info_def new_KcpInfo_def Key1Insert_def)
qed

lemma syn_step:
  assumes "maps_ok s" "Key1Find (con_key (from_addr ip port)) (m_ConIPInfoMap s) = None"
  shows "\<exists>s' i. receive_datagram ia now p (ctl KKSYN c 1436 (replicate 1421 0)) ip port s = Inr s'
    \<and> has_con p (con_key (from_addr ip port)) i s' \<and> State i = KKSYNACK \<and> Addr i = from_addr ip port \<and> con_mtu i = 1430
    \<and> Conv i = (if c > m_CurConv s then c else m_CurConv s + 1)
    \<and> m_Map2 (m_ConIPInfoMap s') = m_Map2 (m_ConIPInfoMap s) \<and> m_RecPacketQue s' = m_RecPacketQue s
    \<and> sent s' = sent s @ [(ctl KKSYNACK (Conv i) 1430 [], from_addr ip port)]"
proof -
  let ?a = "from_addr ip port"
  let ?c = "if c > m_CurConv s then c else m_CurConv s + 1"
  let ?r = "received (ctl KKSYN c 1436 (replicate 1421 0)) ip port s"
  let ?i = "(new_KcpInfo now ?a)\<lparr>Conv := ?c, con_mtu := 1430, State := KKSYNACK\<rparr>"
  let ?s = "kk_send (ctl KKSYNACK ?c 1430 []) ?a
    (put_info p ?i (?r\<lparr>m_CurConv := ?c, adr := ?a, m_ConIPInfoMap := Key1Insert (con_key ?a) p (m_ConIPInfoMap s)\<rparr>))"
  have d: "DestTranId (adr s) = 0" using assms(1) by (simp add: maps_ok_def)
  obtain r where r: "receive_datagram ia now p (ctl KKSYN c 1436 (replicate 1421 0)) ip port s =
      OnConHandle ia now p (net32 (con_state KKSYN) @ net32 c @ net16 1436 @ r) (of_nat (length (replicate 1421 (0::u8)) + 15) - 5) 0 0 ?a ?r"
    using receive_ctl [OF d, of "replicate 1421 0" ia now p KKSYN c 1436 ip port] by auto
  have l: "of_nat (length (replicate 1421 (0::u8)) + 15) - 5 = (1431 :: u16)" by simp
  have t: "m_ConIPInfoMap ?r = m_ConIPInfoMap s" "m_CurConv ?r = m_CurConv s" by (simp_all add: received_def)
  have e: "receive_datagram ia now p (ctl KKSYN c 1436 (replicate 1421 0)) ip port s = Inr ?s"
    unfolding r l OnConHandle_ctl on_syn_def
    using assms(2) by (simp add: need_def syn_mtu_def syn_conv_def syn_addr_def read_ctl Let_def t kk_sends SendSign_def built_ctl new_KcpInfo_def)
  have m: "maps_ok ?s"
    using assms(1) maps_ok_Key1Insert [of "m_ConIPInfoMap s" "con_key ?a" p]
    by (simp add: maps_ok_def kk_send_def put_info_def from_addr_def)
  have f: "Key1Find (con_key ?a) (Key1Insert (con_key ?a) p (m_ConIPInfoMap s)) = Some p"
    using assms by (intro Key1Find_insert) (simp_all add: maps_ok_def)
  show ?thesis
    by (intro exI [of _ ?s] exI [of _ ?i] conjI e)
      (use m f in \<open>simp_all add: has_con_def\<close>, simp_all add: kk_send_def put_info_def new_KcpInfo_def Key1Insert_def received_def)
qed

lemma has_con_put:
  "has_con p key i s \<Longrightarrow> has_con p key j (put_info p j s)" "has_con p key i s \<Longrightarrow> has_con p key i (received d ip port s)"
  "has_con p key i (kk_send buf a s) = has_con p key i s" "has_con p key i (PutKKPacket pk s) = has_con p key i s"
  "has_con p key i s \<Longrightarrow> has_con p key i (s\<lparr>m_ConIPInfoMap := key2insert l c v (m_ConIPInfoMap s)\<rparr>)"
  using maps_ok_key2insert [of "m_ConIPInfoMap s" l c v]
  by (auto simp: has_con_def maps_ok_def put_info_def received_def kk_send_def PutKKPacket_def from_addr_def)

lemma receive_step:
  assumes "DestTranId (adr s) = 0"
  shows "\<exists>r. receive_datagram ia now new (ctl st c m []) ip port s =
    OnConHandle ia now new (net32 (con_state st) @ net32 c @ net16 m @ r) 10 0 0 (from_addr ip port) (received (ctl st c m []) ip port s)"
  using receive_ctl [OF assms, of "[]" ia now new st c m ip port] by simp

lemma CreateKcp_con:
  "has_con p key i s \<Longrightarrow> CreateKcp key c m s = Inr (put_info p (i\<lparr>kcp := Some (endpoint c m), Conv := c\<rparr>) s)"
  by (simp add: CreateKcp_def has_con_def deref_def)

lemma put_info_twice [simp]: "put_info p j (put_info p i s) = put_info p j s"
  by (simp add: put_info_def)

lemma put_info_map [simp]: "m_ConIPInfoMap (put_info p i s) = m_ConIPInfoMap s"
  by (simp add: put_info_def)

lemma deref_put_info [simp]: "deref p (put_info p i s) f = f i"
  by (simp add: deref_def put_info_def)

lemma deref_con: "has_con p key i s \<Longrightarrow> deref p s f = f i"
  by (simp add: deref_def has_con_def)

lemma synack_step:
  assumes "has_con p (con_key (from_addr ip port)) i s" "nTranId i = 0" "nDestTranId i = 0"
  shows "\<exists>s'. receive_datagram ia now new (ctl KKSYNACK c m []) ip port s = Inr s'
    \<and> has_con p (con_key (from_addr ip port)) (i\<lparr>State := KKACK, sendtick := now, kcp := Some (endpoint c m), Conv := c, HandShake := 0, con_mtu := m\<rparr>) s'
    \<and> m_Map2 (m_ConIPInfoMap s') = map_insert c p (m_Map2 (m_ConIPInfoMap s)) \<and> m_RecPacketQue s' = m_RecPacketQue s
    \<and> sent s' = sent s @ [(ctl KKACK c m [], from_addr ip port)]"
proof -
  let ?a = "from_addr ip port"
  let ?r = "received (ctl KKSYNACK c m []) ip port s"
  let ?i = "i\<lparr>State := KKACK, sendtick := now\<rparr>"
  let ?j = "?i\<lparr>kcp := Some (endpoint c m), Conv := c, HandShake := 0, con_mtu := m\<rparr>"
  let ?s = "kk_send (ctl KKACK c m []) ?a
     (put_info p ?j (?r\<lparr>m_ConIPInfoMap := key2insert (con_key ?a) c p (m_ConIPInfoMap ?r)\<rparr>))"
  have h: "has_con p (con_key ?a) i ?r" by (rule has_con_put(2) [OF assms(1)])
  have f: "Key1Find (con_key ?a) (m_ConIPInfoMap ?r) = Some p" using h by (simp add: has_con_def)
  have d: "DestTranId (adr s) = 0" using assms(1) by (simp add: has_con_def maps_ok_def)
  obtain r where r: "receive_datagram ia now new (ctl KKSYNACK c m []) ip port s =
      OnConHandle ia now new (net32 (con_state KKSYNACK) @ net32 c @ net16 m @ r) 10 0 0 ?a ?r"
    using receive_step [OF d] by blast
  have e: "receive_datagram ia now new (ctl KKSYNACK c m []) ip port s = Inr ?s"
    unfolding r OnConHandle_ctl on_synack_def
    by (simp add: need_def read_ctl Let_def f deref_con [OF h] CreateKcp_con [OF has_con_put(1) [OF h]]
        assms(2,3) kk_sends SendSign_def built_ctl)
      (simp add: put_info_def deref_def)
  have t: "m_ConIPInfoMap ?r = m_ConIPInfoMap s" "m_RecPacketQue ?r = m_RecPacketQue s" "sent ?r = sent s" by (simp_all add: received_def)
  have hs: "has_con p (con_key ?a) ?j ?s"
    unfolding has_con_put(3) by (rule has_con_put(1) [OF has_con_put(5) [OF h]])
  show ?thesis
    by (intro exI [of _ ?s] conjI e) (use hs in \<open>simp\<close>, simp_all add: kk_send_def put_info_def key2insert_def t)
qed

lemma ack_step:
  assumes "has_con p (con_key (from_addr ip port)) i s" "State i = KKSYNACK" "Conv i = c" "con_mtu i = m" "Addr i = from_addr ip port"
  shows "\<exists>s'. receive_datagram ia now new (ctl KKACK c m []) ip port s = Inr s'
    \<and> has_con p (con_key (from_addr ip port)) (i\<lparr>State := KKLink, sendtick := now, kcp := Some (endpoint c m), Conv := c\<rparr>) s'
    \<and> m_Map2 (m_ConIPInfoMap s') = map_insert c p (m_Map2 (m_ConIPInfoMap s))
    \<and> m_RecPacketQue s' = m_RecPacketQue s @ [\<lparr>p_buf = [], msgId = MSGLinkIncoming, p_Addr = from_addr ip port, ConId = c\<rparr>]
    \<and> sent s' = sent s @ [(ctl KKLink c m [], from_addr ip port)]"
proof -
  let ?a = "from_addr ip port"
  let ?r = "received (ctl KKACK c m []) ip port s"
  let ?j = "i\<lparr>State := KKLink, sendtick := now, kcp := Some (endpoint c m), Conv := c\<rparr>"
  let ?s = "kk_send (ctl KKLink c m []) ?a (PutKKPacket \<lparr>p_buf = [], msgId = MSGLinkIncoming, p_Addr = ?a, ConId = c\<rparr>
     ((put_info p ?j ?r)\<lparr>m_ConIPInfoMap := key2insert (con_key ?a) c p (m_ConIPInfoMap (put_info p ?j ?r))\<rparr>))"
  have h: "has_con p (con_key ?a) i ?r" by (rule has_con_put(2) [OF assms(1)])
  have f: "Key1Find (con_key ?a) (m_ConIPInfoMap ?r) = Some p" using h by (simp add: has_con_def)
  have d: "DestTranId (adr s) = 0" using assms(1) by (simp add: has_con_def maps_ok_def)
  obtain r where r: "receive_datagram ia now new (ctl KKACK c m []) ip port s =
      OnConHandle ia now new (net32 (con_state KKACK) @ net32 c @ net16 m @ r) 10 0 0 ?a ?r"
    using receive_step [OF d] by blast
  have e: "receive_datagram ia now new (ctl KKACK c m []) ip port s = Inr ?s"
    unfolding r OnConHandle_ctl on_ack_def
    by (simp add: need_def read_ctl Let_def f deref_con [OF h] CreateKcp_con [OF has_con_put(1) [OF h]]
        assms(2-5) kk_sends SendSign_def built_ctl)
  have t: "m_ConIPInfoMap ?r = m_ConIPInfoMap s" "m_RecPacketQue ?r = m_RecPacketQue s" "sent ?r = sent s" by (simp_all add: received_def)
  have hs: "has_con p (con_key ?a) ?j ?s"
    unfolding has_con_put(3,4) by (rule has_con_put(5) [OF has_con_put(1) [OF h]])
  show ?thesis
    by (intro exI [of _ ?s] conjI e) (use hs in \<open>simp\<close>, simp_all add: kk_send_def PutKKPacket_def put_info_def key2insert_def t)
qed

lemma link_step:
  assumes "has_con p (con_key (from_addr ip port)) i s" "Conv i = c" "con_mtu i = m" "Addr i = from_addr ip port"
  shows "\<exists>s'. receive_datagram ia now new (ctl KKLink c m []) ip port s = Inr s'
    \<and> has_con p (con_key (from_addr ip port)) (i\<lparr>State := KKLink, sendtick := now, HandShake := 0\<rparr>) s'
    \<and> m_Map2 (m_ConIPInfoMap s') = m_Map2 (m_ConIPInfoMap s)
    \<and> m_RecPacketQue s' = m_RecPacketQue s @ [\<lparr>p_buf = [], msgId = MSGLinkAccepted, p_Addr = from_addr ip port, ConId = c\<rparr>]"
proof -
  let ?a = "from_addr ip port"
  let ?r = "received (ctl KKLink c m []) ip port s"
  let ?j = "i\<lparr>State := KKLink, sendtick := now, HandShake := 0\<rparr>"
  let ?s = "PutKKPacket \<lparr>p_buf = [], msgId = MSGLinkAccepted, p_Addr = ?a, ConId = c\<rparr> (put_info p ?j ?r)"
  have h: "has_con p (con_key ?a) i ?r" by (rule has_con_put(2) [OF assms(1)])
  have f: "Key1Find (con_key ?a) (m_ConIPInfoMap ?r) = Some p" using h by (simp add: has_con_def)
  have d: "DestTranId (adr s) = 0" using assms(1) by (simp add: has_con_def maps_ok_def)
  obtain r where r: "receive_datagram ia now new (ctl KKLink c m []) ip port s =
      OnConHandle ia now new (net32 (con_state KKLink) @ net32 c @ net16 m @ r) 10 0 0 ?a ?r"
    using receive_step [OF d] by blast
  have e: "receive_datagram ia now new (ctl KKLink c m []) ip port s = Inr ?s"
    unfolding r OnConHandle_ctl on_link_def
    by (simp add: need_def read_ctl Let_def f deref_con [OF h] assms(2-4))
  have t: "m_ConIPInfoMap ?r = m_ConIPInfoMap s" "m_RecPacketQue ?r = m_RecPacketQue s" "sent ?r = sent s" by (simp_all add: received_def)
  have hs: "has_con p (con_key ?a) ?j ?s" unfolding has_con_put(4) by (rule has_con_put(1) [OF h])
  show ?thesis
    by (intro exI [of _ ?s] conjI e) (use hs in \<open>simp\<close>, simp_all add: PutKKPacket_def put_info_def t)
qed

definition last_sent :: "CKKkcp \<Rightarrow> u8 list" where
  "last_sent s = fst (last (sent s))"

lemma Key2Find_inserted:
  assumes "maps_ok s" "Key2Find c (m_ConIPInfoMap s) = None" "m_Map2 (m_ConIPInfoMap s') = map_insert c p (m_Map2 (m_ConIPInfoMap s))"
  shows "Key2Find c (m_ConIPInfoMap s') = Some p"
  using assms by (simp add: maps_ok_def Key2Find_def)

text \<open>
  C37: The handshake, without a transponder. A client with nothing queued to send and no connection to the server's
  address connects, and the server has no connection to the client's address. The number of the connection is the
  larger of the two ends' next numbers; it must be free at both ends (the numbers are not negotiated against those
  that other peers have given out, see \<open>same_number_twice\<close>). When the four datagrams arrive, each at the end it is
  meant for, both ends are linked under that number, with the control blocks that \<^verbatim>\<open>new_link\<close> of the KCP link starts
  from, each end finds its connection under the number, and each application has been told.
\<close>
theorem handshake_links_both_ends:
  assumes "maps_ok A" "Key1Find (con_key (from_addr ipB pB)) (m_ConIPInfoMap A) = None" "m_SendUdpQue A = []"
    and "maps_ok B" "Key1Find (con_key (from_addr ipA pA)) (m_ConIPInfoMap B) = None"
    and "c = (if m_CurConv A + 1 > m_CurConv B then m_CurConv A + 1 else m_CurConv B + 1)"
    and "Key2Find c (m_ConIPInfoMap A) = None" "Key2Find c (m_ConIPInfoMap B) = None"
    and "inet_addr (inet_ntoa ipB) = ipB"
  shows "\<exists>A1 B1 A2 B2 A3 i j.
      Connect inet_addr ta p (inet_ntoa ipB) (uint pB) A = Inr A1
    \<and> receive_datagram inet_addr tb q (last_sent (HandleCmd A1)) ipA pA B = Inr B1
    \<and> receive_datagram inet_addr tc n (last_sent B1) ipB pB (HandleCmd A1) = Inr A2
    \<and> receive_datagram inet_addr td n (last_sent A2) ipA pA B1 = Inr B2
    \<and> receive_datagram inet_addr te n (last_sent B2) ipB pB A2 = Inr A3
    \<and> kk_heap A3 p = Some i \<and> State i = KKLink \<and> Conv i = c \<and> kcp i = Some (endpoint c 1430)
    \<and> kk_heap B2 q = Some j \<and> State j = KKLink \<and> Conv j = c \<and> kcp j = Some (endpoint c 1430)
    \<and> Key2Find c (m_ConIPInfoMap A3) = Some p \<and> Key2Find c (m_ConIPInfoMap B2) = Some q
    \<and> m_RecPacketQue A3 = m_RecPacketQue A @ [\<lparr>p_buf = [], msgId = MSGLinkAccepted, p_Addr = from_addr ipB pB, ConId = c\<rparr>]
    \<and> m_RecPacketQue B2 = m_RecPacketQue B @ [\<lparr>p_buf = [], msgId = MSGLinkIncoming, p_Addr = from_addr ipA pA, ConId = c\<rparr>]"
proof -
  let ?kA = "con_key (from_addr ipB pB)"
  let ?kB = "con_key (from_addr ipA pA)"
  obtain A1 i where A1: "Connect inet_addr ta p (inet_ntoa ipB) (uint pB) A = Inr A1" "has_con p ?kA i (HandleCmd A1)"
    "nTranId i = 0" "nDestTranId i = 0" "Addr i = from_addr ipB pB"
    "m_Map2 (m_ConIPInfoMap (HandleCmd A1)) = m_Map2 (m_ConIPInfoMap A)" "m_RecPacketQue (HandleCmd A1) = m_RecPacketQue A"
    "last_sent (HandleCmd A1) = ctl KKSYN (m_CurConv A + 1) 1436 (replicate 1421 0)"
    using connect_step [where ia = inet_addr and now = ta and p = p, OF assms(1,2,9,3)] by (auto simp: last_sent_def)
  obtain B1 j where B1: "receive_datagram inet_addr tb q (last_sent (HandleCmd A1)) ipA pA B = Inr B1" "has_con q ?kB j B1"
    "State j = KKSYNACK" "Addr j = from_addr ipA pA" "con_mtu j = 1430" "Conv j = c"
    "m_Map2 (m_ConIPInfoMap B1) = m_Map2 (m_ConIPInfoMap B)" "m_RecPacketQue B1 = m_RecPacketQue B" "last_sent B1 = ctl KKSYNACK c 1430 []"
    using syn_step [OF assms(4,5), of inet_addr tb q "m_CurConv A + 1"] unfolding A1(8) by (auto simp: last_sent_def assms(6))
  obtain A2 where A2: "receive_datagram inet_addr tc n (last_sent B1) ipB pB (HandleCmd A1) = Inr A2"
    "has_con p ?kA (i\<lparr>State := KKACK, sendtick := tc, kcp := Some (endpoint c 1430), Conv := c, HandShake := 0, con_mtu := 1430\<rparr>) A2"
    "m_Map2 (m_ConIPInfoMap A2) = map_insert c p (m_Map2 (m_ConIPInfoMap A))" "m_RecPacketQue A2 = m_RecPacketQue A"
    "last_sent A2 = ctl KKACK c 1430 []"
    using synack_step [OF A1(2-4), of inet_addr tc n c 1430] unfolding B1(9) A1(6,7) by (auto simp: last_sent_def)
  obtain B2 where B2: "receive_datagram inet_addr td n (last_sent A2) ipA pA B1 = Inr B2"
    "has_con q ?kB (j\<lparr>State := KKLink, sendtick := td, kcp := Some (endpoint c 1430), Conv := c\<rparr>) B2"
    "m_Map2 (m_ConIPInfoMap B2) = map_insert c q (m_Map2 (m_ConIPInfoMap B))"
    "m_RecPacketQue B2 = m_RecPacketQue B @ [\<lparr>p_buf = [], msgId = MSGLinkIncoming, p_Addr = from_addr ipA pA, ConId = c\<rparr>]"
    "last_sent B2 = ctl KKLink c 1430 []"
    using ack_step [OF B1(2,3,6,5,4), of inet_addr td n] unfolding A2(5) B1(7,8) by (auto simp: last_sent_def)
  obtain A3 where A3: "receive_datagram inet_addr te n (last_sent B2) ipB pB A2 = Inr A3"
    "has_con p ?kA (i\<lparr>State := KKACK, sendtick := tc, kcp := Some (endpoint c 1430), Conv := c, HandShake := 0, con_mtu := 1430,
        State := KKLink, sendtick := te, HandShake := 0\<rparr>) A3"
    "m_Map2 (m_ConIPInfoMap A3) = map_insert c p (m_Map2 (m_ConIPInfoMap A))"
    "m_RecPacketQue A3 = m_RecPacketQue A @ [\<lparr>p_buf = [], msgId = MSGLinkAccepted, p_Addr = from_addr ipB pB, ConId = c\<rparr>]"
    using link_step [OF A2(2), of c 1430 inet_addr te n] A1(5) unfolding B2(5) A2(3,4) by auto
  let ?i = "i\<lparr>State := KKACK, sendtick := tc, kcp := Some (endpoint c 1430), Conv := c, HandShake := 0, con_mtu := 1430,
        State := KKLink, sendtick := te, HandShake := 0\<rparr>"
  let ?j = "j\<lparr>State := KKLink, sendtick := td, kcp := Some (endpoint c 1430), Conv := c\<rparr>"
  have h: "kk_heap A3 p = Some ?i" "kk_heap B2 q = Some ?j"
    using A3(2) B2(2) unfolding has_con_def by blast+
  note k = Key2Find_inserted [OF assms(1,7) A3(3)] Key2Find_inserted [OF assms(4,8) B2(3)]
  show ?thesis
    by (intro exI [of _ A1] exI [of _ B1] exI [of _ A2] exI [of _ B2] exI [of _ A3] exI [of _ ?i] exI [of _ ?j] conjI
        A1(1) B1(1) A2(1) B2(1,4) A3(1,4) h k) simp_all
qed

lemma new_CKKkcp_ok: "maps_ok (new_CKKkcp h mem ip port)" "Key1Find k (m_ConIPInfoMap (new_CKKkcp h mem ip port)) = None"
  "Key2Find c (m_ConIPInfoMap (new_CKKkcp h mem ip port)) = None" "m_SendUdpQue (new_CKKkcp h mem ip port) = []"
  by (simp_all add: maps_ok_def new_CKKkcp_def empty_TwoKeyMap_def map_ok_def Key1Find_def Key2Find_def)

theorem handshake_links_both_ends_witness:
  "\<exists>A1 B1 A2 B2 A3 i j.
      Connect (\<lambda>_. 9) 1 1 (inet_ntoa 9) 5000 (new_CKKkcp True (replicate 2048 0) 0 0) = Inr A1
    \<and> receive_datagram (\<lambda>_. 9) 2 1 (last_sent (HandleCmd A1)) 8 4000 (new_CKKkcp True (replicate 2048 0) 0 0) = Inr B1
    \<and> receive_datagram (\<lambda>_. 9) 3 2 (last_sent B1) 9 5000 (HandleCmd A1) = Inr A2
    \<and> receive_datagram (\<lambda>_. 9) 4 2 (last_sent A2) 8 4000 B1 = Inr B2
    \<and> receive_datagram (\<lambda>_. 9) 5 2 (last_sent B2) 9 5000 A2 = Inr A3
    \<and> kk_heap A3 1 = Some i \<and> State i = KKLink \<and> kk_heap B2 1 = Some j \<and> State j = KKLink \<and> Conv i = 101 \<and> Conv j = 101"
proof -
  have "m_CurConv (new_CKKkcp True (replicate 2048 0) 0 0) = 100" by (simp add: new_CKKkcp_def)
  then have c: "(101 :: u32) = (if m_CurConv (new_CKKkcp True (replicate 2048 0) 0 0) + 1 > m_CurConv (new_CKKkcp True (replicate 2048 0) 0 0)
      then m_CurConv (new_CKKkcp True (replicate 2048 0) 0 0) + 1 else m_CurConv (new_CKKkcp True (replicate 2048 0) 0 0) + 1)"
    by simp
  have p: "uint (5000 :: u16) = 5000" by simp
  show ?thesis
    using handshake_links_both_ends [where inet_addr = "\<lambda>_. 9" and ipB = 9 and pB = 5000 and ipA = 8 and pA = 4000 and ta = 1
        and tb = 2 and tc = 3 and td = 4 and te = 5 and p = 1 and q = 1 and n = 2,
        OF new_CKKkcp_ok(1,2,4) new_CKKkcp_ok(1,2) c new_CKKkcp_ok(3,3) refl] unfolding p by blast
qed

end
