(* ===== verification/KKKcpRuns.thy ===== *)
theory KKKcpRuns
  imports KKKcpProps
begin

text \<open>Runs of the connection manager that end badly, and the life of a connection nobody answers.\<close>

datatype kk_event = Connects nat string int | RunsCmd | Gets nat "u8 list" u32 u16 | Manages | SendsOut u32 "u8 list"

fun kk_step :: "(string \<Rightarrow> u32) \<Rightarrow> u64 \<times> kk_event \<Rightarrow> CKKkcp \<Rightarrow> kk_result" where
  "kk_step inet_addr (now, Connects new ip port) s = Connect inet_addr now new ip port s"
| "kk_step inet_addr (now, RunsCmd) s = Inr (HandleCmd s)"
| "kk_step inet_addr (now, Gets new dgram ip port) s = receive_datagram inet_addr now new dgram ip port s"
| "kk_step inet_addr (now, Manages) s = ConnMgrThread now s"
| "kk_step inet_addr (now, SendsOut n buf) s = (case StablySend now n buf s of Inl e \<Rightarrow> Inl e | Inr (_, s) \<Rightarrow> Inr s)"

fun kk_run :: "(string \<Rightarrow> u32) \<Rightarrow> (u64 \<times> kk_event) list \<Rightarrow> CKKkcp \<Rightarrow> kk_result" where
  "kk_run inet_addr [] s = Inr s"
| "kk_run inet_addr (e # es) s = (case kk_step inet_addr e s of Inl err \<Rightarrow> Inl err | Inr s \<Rightarrow> kk_run inet_addr es s)"

definition fails_with :: "kk_error \<Rightarrow> kk_error + 'a \<Rightarrow> bool" where
  "fails_with e r = (case r of Inl e' \<Rightarrow> e' = e | Inr _ \<Rightarrow> False)"

text \<open>The runs touch the first bytes of the buffer only, so that 64 of them stand for all.\<close>

definition a_manager :: CKKkcp where
  "a_manager = new_CKKkcp True (replicate 64 0) 0 0"

text \<open>
  A first datagram that was sent twice is answered under two numbers. The second answer leaves the
  first number in the map of numbers; when the connection ends, the number stays and points to freed
  memory, and the next message that is sent to the first connection follows it.
\<close>

definition twice_answered :: "(u64 \<times> kk_event) list" where
  "twice_answered = [(1, Connects 1 (inet_ntoa 9) 5000), (1, RunsCmd), (2, Gets 2 (putsynack 101 1400) 9 5000),
     (3, Gets 2 (putsynack 102 1400) 9 5000), (4, Gets 2 (putkcpdisconnect 102) 9 5000), (5, Manages), (6, SendsOut 0 [1, 2, 3])]"

lemma second_synack_dangles: "fails_with Dangling (kk_run (\<lambda>_. 9) twice_answered a_manager)"
  by code_simp

text \<open>
  Two servers answer with the same number. Both connections are linked under it, but the number finds the first only:
  what is sent to the second goes to the first.
\<close>

definition two_servers :: "(u64 \<times> kk_event) list" where
  "two_servers = [(1, Connects 1 (inet_ntoa 9) 5000), (1, RunsCmd), (2, Gets 3 (putsynack 201 1430) 9 5000),
     (3, Gets 3 (putlink 201 1430) 9 5000), (4, Connects 2 (inet_ntoa 10) 5000), (4, RunsCmd),
     (5, Gets 3 (putsynack 201 1430) 10 5000), (6, Gets 3 (putlink 201 1430) 10 5000)]"

lemma same_number_twice:
  "(case kk_run (\<lambda>t. if t = inet_ntoa 9 then 9 else 10) two_servers a_manager of Inl _ \<Rightarrow> False
    | Inr s \<Rightarrow> map (\<lambda>p. map_option (\<lambda>i. (State i, Conv i)) (kk_heap s p)) [1, 2] = [Some (KKLink, 201), Some (KKLink, 201)]
        \<and> Key2Find 201 (m_ConIPInfoMap s) = Some 1)"
  by code_simp

text \<open>An answer that nobody waits for stops the process.\<close>

lemma stray_synack_aborts: "fails_with Aborted (receive_datagram (\<lambda>_. 9) 2 2 (putsynack 101 1400) 9 5000 a_manager)"
  by code_simp

text \<open>
  A datagram of one byte that claims to come through the transponder: the lengths that are handed on
  wrap around, and what an earlier datagram left in the buffer is taken for a KCP datagram of 65527 bytes.
\<close>

lemma short_transpond_overruns:
  assumes "RecBuf s = x # [0, 0, 0, 0, 0, 0, 0, 0, 0xAE] @ rest" "length (RecBuf s) = 2048" "DestTranId (adr s) = 0"
    and "Key1Find (con_key (from_addr ip port)) (m_ConIPInfoMap s) = Some p" "kk_heap s p = Some i" "kcp i \<noteq> None"
  shows "receive_datagram inet_addr now new [0xAD] ip port s = Inl Overrun"
proof -
  obtain k where k: "kcp i = Some k" using assms(6) by auto
  have a: "(adr s)\<lparr>s_addr := ip, sin_port := port\<rparr> = from_addr ip port" using assms(3) by (simp add: from_addr_def)
  have l: "length rest < 65527" using assms(1,2) by simp
  show ?thesis
    using assms(4,5) k l
    by (simp add: receive_datagram_def a assms(1) Let_def OnBufHandle.simps [of _ _ _ "_ # _"] need_def read32_def
        join32_def OnKcp_def deref_def)
qed

text \<open>
  An end that registered at the transponder is the sponsor of that connection, and the branch that
  would send it the heartbeat of the transponder is for other connections only.
\<close>

lemma tran_heart_never_sent:
  "State i = KKTranIdOk \<Longrightarrow> sponsor i \<Longrightarrow> mgr_action heart now kcptick rectick' i \<in> {Keeps i None, Frees i None}"
  by (simp add: mgr_action_def sponsor_action_def)

text \<open>What \<^verbatim>\<open>StablySend\<close> returns is the size of the last packet only.\<close>

lemma StablySend_returns_rest:
  "send_packets buf ret k = (r, left, k') \<Longrightarrow> left = length buf mod KCP_MAXPKT_LEN"
proof (induction buf ret k rule: send_packets.induct)
  case (1 buf ret k)
  show ?case
  proof (cases "KCP_MAXPKT_LEN \<le> length buf")
    case True
    obtain r' k1 where e: "send_msg (take KCP_MAXPKT_LEN buf) k = (r', k1)" by (cases "send_msg (take KCP_MAXPKT_LEN buf) k")
    have "send_packets (drop KCP_MAXPKT_LEN buf) r' k1 = (r, left, k')"
      using 1(2) True e by (subst (asm) send_packets.simps) simp
    then have "left = (length buf - KCP_MAXPKT_LEN) mod KCP_MAXPKT_LEN"
      using "1.IH" [OF True e [symmetric]] by simp
    then show ?thesis using True by (simp add: le_mod_geq)
  next
    case False
    then have l: "length buf mod KCP_MAXPKT_LEN = length buf" by simp
    show ?thesis using 1(2) False by (subst (asm) send_packets.simps) (auto simp: l split: if_splits prod.splits)
  qed
qed

subsection \<open>A connection that nobody answers\<close>

text \<open>Times that follow each other by at most \<open>g\<close> milliseconds.\<close>

fun steady :: "nat \<Rightarrow> u64 \<Rightarrow> u64 list \<Rightarrow> bool" where
  "steady g t [] = True"
| "steady g t (u # us) = (t \<le> u \<and> unat u \<le> unat t + g \<and> steady g u us)"

text \<open>How long the manager waits after the \<open>n\<close>-th try, and how long all the waits before it take.\<close>

definition patience :: "nat \<Rightarrow> nat" where
  "patience n = (if n = 0 then 5000 else if n = 1 then 10000 else 20000)"

definition waited :: "nat \<Rightarrow> nat" where
  "waited n = (if n = 0 then 0 else if n = 1 then 5000 else 15000)"

text \<open>
  The connection that was started at \<open>t0\<close>, at the time \<open>t\<close> after \<open>n\<close> repetitions, when the rounds are at most \<open>g\<close>
  apart, and the manager that holds it and nothing else.
\<close>

definition tried :: "u64 \<Rightarrow> nat \<Rightarrow> KKAddress \<Rightarrow> u64 \<Rightarrow> nat \<Rightarrow> KcpInfo \<Rightarrow> bool" where
  "tried t0 g a t n i \<longleftrightarrow> n \<le> 2 \<and> sponsor i \<and> State i = KKSYN \<and> HandShake i = of_nat n \<and> Conv i = 101 \<and> Addr i = a
     \<and> nTranId i = 0 \<and> nDestTranId i = 0 \<and> kcp i = None \<and> sendtick i \<le> t
     \<and> unat t \<le> unat (sendtick i) + patience n
     \<and> unat t0 + waited n \<le> unat (sendtick i) \<and> unat (sendtick i) \<le> unat t0 + waited n + n * g"

definition waits_for :: "bool \<Rightarrow> u8 list \<Rightarrow> KKAddress \<Rightarrow> nat \<Rightarrow> KKAddress \<Rightarrow> nat \<Rightarrow> KcpInfo \<Rightarrow> CKKkcp" where
  "waits_for heart mem own p a n i = \<lparr>m_AutomaticHeart = heart, m_conId = 0, m_CurConv = 101,
     m_ConIPInfoMap = Key1Insert (con_key a) p empty_TwoKeyMap, kk_heap = (\<lambda>_. None)(p \<mapsto> i), m_SendUdpQue = [],
     m_RecPacketQue = [], RecBuf = mem, adr = own, sent = replicate (Suc n) (putsyn 101 0, a)\<rparr>"

definition gave_up :: "bool \<Rightarrow> u8 list \<Rightarrow> KKAddress \<Rightarrow> KKAddress \<Rightarrow> CKKkcp" where
  "gave_up heart mem own a = \<lparr>m_AutomaticHeart = heart, m_conId = 0, m_CurConv = 101,
     m_ConIPInfoMap = empty_TwoKeyMap, kk_heap = (\<lambda>_. None), m_SendUdpQue = [],
     m_RecPacketQue = [\<lparr>p_buf = [], msgId = MSGConnectFail, p_Addr = a, ConId = 101\<rparr>], RecBuf = mem, adr = own,
     sent = replicate 3 (putsyn 101 0, a)\<rparr>"

lemma unat_tick_since: "s \<le> t \<Longrightarrow> unat (tick_since t s) = unat t - unat s"
  by (cases "s = t") (simp_all add: tick_since_def unat_sub)

lemma tick_gt: "s \<le> t \<Longrightarrow> n < 2 ^ 64 \<Longrightarrow> tick_since t s > of_nat n \<longleftrightarrow> unat t > unat s + n"
  by (simp add: word_less_nat_alt unat_tick_since unat_of_nat_u64) linarith

lemma tried_action:
  assumes "tried t0 g a t n i" "t \<le> u" "unat u \<le> unat t + g" "g \<le> 50000"
  obtains (waits) "mgr_action heart u (tick_since u (sendtick i)) r i = Keeps i None" "tried t0 g a u n i"
  | (tries) j where "mgr_action heart u (tick_since u (sendtick i)) r i = Keeps j (Some (putsyn 101 0))" "tried t0 g a u (Suc n) j"
  | (ends) j where "mgr_action heart u (tick_since u (sendtick i)) r i = Frees j None" "n = 2"
      "unat t0 + 35000 < unat u" "State j = KKSYN" "Addr j = a" "Conv j = 101"
proof -
  have s: "sendtick i \<le> u" using assms(1,2) unfolding tried_def by (meson order_trans)
  have gt: "tick_since u (sendtick i) > 60000 \<longleftrightarrow> unat u > unat (sendtick i) + 60000"
    "tick_since u (sendtick i) > 5000 \<longleftrightarrow> unat u > unat (sendtick i) + 5000"
    "tick_since u (sendtick i) > 10000 \<longleftrightarrow> unat u > unat (sendtick i) + 10000"
    "tick_since u (sendtick i) > 20000 \<longleftrightarrow> unat u > unat (sendtick i) + 20000"
    using tick_gt [OF s, of 60000] tick_gt [OF s, of 5000] tick_gt [OF s, of 10000] tick_gt [OF s, of 20000] by simp_all
  have c: "sponsor i" "State i = KKSYN" "Conv i = 101" "Addr i = a" "nTranId i = 0" "nDestTranId i = 0" "kcp i = None"
    "HandShake i = of_nat n" "n \<le> 2"
    using assms(1) by (simp_all add: tried_def)
  have n: "n = 0 \<or> n = 1 \<or> n = 2" using c(9) by linarith
  then have h: "HandShake i < 4" using c(8) by auto
  have a: "mgr_action heart u (tick_since u (sendtick i)) r i =
      (if unat u > unat (sendtick i) + 60000 then Frees i None
       else handshake_action u (tick_since u (sendtick i)) (putsyn 101 0) i)"
    using c(1-7) h by (auto simp: mgr_action_def sponsor_action_def kk_consts gt SendSign_def)
  consider "n = 0" | "n = 1" | "n = 2" using n by blast
  then show thesis
  proof cases
    case 1
    then show thesis using assms c a s waits tries
      by (cases "unat u > unat (sendtick i) + 5000")
        (auto simp: tried_def handshake_action_def kk_consts gt patience_def waited_def)
  next
    case 2
    then show thesis using assms c a s waits tries
      by (cases "unat u > unat (sendtick i) + 10000")
        (auto simp: tried_def handshake_action_def kk_consts gt patience_def waited_def)
  next
    case 3
    then show thesis using assms c a s waits ends
      by (cases "unat u > unat (sendtick i) + 20000")
        (auto simp: tried_def handshake_action_def kk_consts gt patience_def waited_def split: if_splits)
  qed
qed

text \<open>A round of the manager.\<close>

lemma mgr_waits:
  assumes "kcp i = None"
  shows "ConnMgrThread u (waits_for heart mem own p a n i) =
    (case mgr_action heart u (tick_since u (sendtick i)) (tick_since u (rectick i)) i of
       Keeps j out \<Rightarrow> Inr (send_action j out (waits_for heart mem own p a n j))
     | Frees j out \<Rightarrow> (case FreeKcpInfo p True (send_action j out (waits_for heart mem own p a n j)) of
         Inl e \<Rightarrow> Inl e | Inr (it, s) \<Rightarrow> mgr_loop u it s))"
  using assms
  by (simp add: ConnMgrThread_def waits_for_def Key1Insert_def empty_TwoKeyMap_def mgr_step_def mgr_kcp_def deref_def
      put_info_def split: con_action.splits)

lemma free_waiting:
  assumes "State j = KKSYN" "Addr j = a" "Conv j = 101"
  shows "FreeKcpInfo p True (waits_for heart mem own p a 2 j) = Inr ([], gave_up heart mem own a)"
  using assms
  by (simp add: FreeKcpInfo_def deref_def waits_for_def gave_up_def Key1Del_def Key1Insert_def empty_TwoKeyMap_def
      set_Map3_def map_erase_def GenSysKKPacket_def PutKKPacket_def fun_eq_iff)

lemma mgr_round:
  assumes "tried t0 g a t n i" "t \<le> u" "unat u \<le> unat t + g" "g \<le> 50000"
  shows "\<exists>s. ConnMgrThread u (waits_for heart mem own p a n i) = Inr s
    \<and> ((\<exists>n j. tried t0 g a u n j \<and> s = waits_for heart mem own p a n j) \<or> unat t0 + 35000 < unat u \<and> s = gave_up heart mem own a)"
proof -
  have k: "kcp i = None" using assms(1) by (simp add: tried_def)
  show ?thesis
  proof (cases rule: tried_action [OF assms, of heart "tick_since u (rectick i)", case_names waits tries ends])
    case waits
    then show ?thesis by (auto simp: mgr_waits [OF k] send_action_def)
  next
    case (tries j)
    have "send_action j (Some (putsyn 101 0)) (waits_for heart mem own p a n j) = waits_for heart mem own p a (Suc n) j"
      using tries(2) by (simp add: send_action_def kk_send_def waits_for_def tried_def replicate_append_same)
    then show ?thesis using tries by (auto simp: mgr_waits [OF k])
  next
    case (ends j)
    then show ?thesis using free_waiting [OF ends(4-6), of p heart mem own] by (simp add: mgr_waits [OF k] send_action_def)
  qed
qed

lemma mgr_rounds:
  "tried t0 g a t n i \<Longrightarrow> steady g t ts \<Longrightarrow> g \<le> 50000 \<Longrightarrow>
   \<exists>s. kk_run ia (map (\<lambda>t. (t, Manages)) ts) (waits_for heart mem own p a n i) = Inr s
    \<and> ((\<exists>n j. tried t0 g a (last (t # ts)) n j \<and> s = waits_for heart mem own p a n j)
      \<or> unat t0 + 35000 < unat (last (t # ts)) \<and> s = gave_up heart mem own a)"
proof (induction ts arbitrary: t n i)
  case (Cons u ts)
  have u: "t \<le> u" "unat u \<le> unat t + g" "steady g u ts" using Cons.prems(2) by simp_all
  obtain s where s: "ConnMgrThread u (waits_for heart mem own p a n i) = Inr s"
    "(\<exists>n j. tried t0 g a u n j \<and> s = waits_for heart mem own p a n j) \<or> unat t0 + 35000 < unat u \<and> s = gave_up heart mem own a"
    using mgr_round [OF Cons.prems(1) u(1,2) Cons.prems(3), of heart mem own p] by blast
  from s(2) show ?case
  proof (elim disjE exE conjE)
    fix n' j assume "tried t0 g a u n' j" "s = waits_for heart mem own p a n' j"
    then show ?thesis using Cons.IH [of u n' j] u(3) Cons.prems(3) s(1) by simp
  next
    assume l: "unat t0 + 35000 < unat u" "s = gave_up heart mem own a"
    have idle: "kk_run ia (map (\<lambda>t. (t, Manages)) ts) (gave_up heart mem own a) = Inr (gave_up heart mem own a)" for ts
      by (induction ts) (simp_all add: ConnMgrThread_def gave_up_def empty_TwoKeyMap_def)
    have "unat u \<le> unat (last (u # ts))" using u(3)
    proof (induction ts arbitrary: u)
      case (Cons v ts)
      then have "unat u \<le> unat v" "unat v \<le> unat (last (v # ts))" by (simp_all add: word_le_nat_alt)
      then show ?case by simp
    qed simp
    then show ?thesis using l s(1) idle by auto
  qed
qed auto

text \<open>
  C38: A connection that nobody answers, from the start of the manager: it is asked for, the first KKSYN goes out, and
  from then on the thread that manages the connections comes round at any times that are at most \<open>g\<close> milliseconds
  apart (\<open>g\<close> up to 50 s), while no datagram arrives and the program makes no other connection. The run never fails.
  The only datagrams sent are that KKSYN, at most three in all. Up to 35 s after the start the connection is kept and
  the program is told nothing. Later than 35 s and twice \<open>g\<close> after the start, exactly three have been sent, the
  connection is freed and no longer found, and the program has got one message, that the connection failed.
\<close>
theorem unanswered_connection_is_given_up:
  fixes ip port
  defines "a \<equiv> from_addr ip port"
  assumes "inet_addr (inet_ntoa ip) = ip" "steady g t0 ts" "g \<le> 50000"
  shows "\<exists>s k. kk_run inet_addr ((t0, Connects p (inet_ntoa ip) (uint port)) # (t0, RunsCmd) # map (\<lambda>t. (t, Manages)) ts)
        (new_CKKkcp heart mem own_ip own_port) = Inr s
    \<and> sent s = replicate k (putsyn 101 0, a) \<and> k \<le> 3
    \<and> (unat (last (t0 # ts)) \<le> unat t0 + 35000 \<longrightarrow> kk_heap s p \<noteq> None \<and> m_RecPacketQue s = [])
    \<and> (unat (last (t0 # ts)) > unat t0 + 35000 + 2 * g \<longrightarrow>
         k = 3 \<and> kk_heap s p = None \<and> Key1Find (con_key a) (m_ConIPInfoMap s) = None
         \<and> m_RecPacketQue s = [\<lparr>p_buf = [], msgId = MSGConnectFail, p_Addr = a, ConId = 101\<rparr>])"
proof -
  let ?i = "(new_KcpInfo t0 a)\<lparr>sponsor := True, State := KKSYN, Conv := 101\<rparr>"
  let ?own = "from_addr own_ip own_port"
  obtain s1 where c: "Connect inet_addr t0 p (inet_ntoa ip) (uint port) (new_CKKkcp heart mem own_ip own_port) = Inr s1"
    "HandleCmd s1 = waits_for heart mem ?own p a 0 ?i"
    using assms(2)
    by (simp add: Connect_def new_CKKkcp_def Key1Find_def empty_TwoKeyMap_def Let_def FromString_def push_cmd_def put_info_def
        HandleCmd_def SendSyn_def SendSign_def kk_send_def waits_for_def a_def from_addr_def con_key_from [unfolded from_addr_def])
  have "tried t0 g a t0 0 ?i" by (simp add: tried_def new_KcpInfo_def patience_def waited_def)
  from mgr_rounds [OF this assms(3,4), of inet_addr heart mem ?own p]
  obtain s where s: "kk_run inet_addr (map (\<lambda>t. (t, Manages)) ts) (waits_for heart mem ?own p a 0 ?i) = Inr s"
    "(\<exists>n j. tried t0 g a (last (t0 # ts)) n j \<and> s = waits_for heart mem ?own p a n j)
      \<or> unat t0 + 35000 < unat (last (t0 # ts)) \<and> s = gave_up heart mem ?own a" by blast
  have r: "kk_run inet_addr ((t0, Connects p (inet_ntoa ip) (uint port)) # (t0, RunsCmd) # map (\<lambda>t. (t, Manages)) ts)
        (new_CKKkcp heart mem own_ip own_port) = Inr s" using c s(1) by simp
  from s(2) show ?thesis
  proof (elim disjE exE conjE)
    fix n j assume t: "tried t0 g a (last (t0 # ts)) n j" and e: "s = waits_for heart mem ?own p a n j"
    have n: "n \<le> 2" using t by (simp add: tried_def)
    then have "n = 0 \<or> n = 1 \<or> n = 2" by linarith
    then have "unat (last (t0 # ts)) \<le> unat t0 + 35000 + 2 * g"
      using t unfolding tried_def waited_def patience_def by (elim disjE) simp_all
    then show ?thesis using n
      by (intro exI [of _ s] exI [of _ "Suc n"] conjI r) (simp_all add: e waits_for_def)
  next
    assume l: "unat t0 + 35000 < unat (last (t0 # ts))" and e: "s = gave_up heart mem ?own a"
    then show ?thesis
      by (intro exI [of _ s] exI [of _ 3] conjI r) (simp_all add: gave_up_def Key1Find_def empty_TwoKeyMap_def)
  qed
qed

theorem unanswered_connection_is_given_up_witness:
  "\<exists>s. kk_run (\<lambda>_. 9) ((0, Connects 1 (inet_ntoa 9) (uint (5000 :: u16))) # (0, RunsCmd)
      # map (\<lambda>t. (t, Manages)) [3000, 6000, 9000, 12000, 15000, 18000, 21000, 24000, 27000, 30000, 33000, 36000, 39000, 42000])
      (new_CKKkcp True (replicate 64 0) 0 0) = Inr s \<and> length (sent s) = 3 \<and> kk_heap s 1 = None"
  using unanswered_connection_is_given_up [where inet_addr = "\<lambda>_. 9" and ip = 9 and port = 5000 and g = 3000 and ?t0.0 = 0 and p = 1
      and ts = "[3000, 6000, 9000, 12000, 15000, 18000, 21000, 24000, 27000, 30000, 33000, 36000, 39000, 42000]"
      and heart = True and mem = "replicate 64 0" and own_ip = 0 and own_port = 0]
  by fastforce

end
