(* ===== verification/Spec2Isabelle.thy ===== *)
theory Spec2Isabelle
  imports SeqTranslatorProps RtcpNackGenerator RtcpRrGenerator RtcpFeedbackGeneration RtpPacketQueue
    RtpPaddingRemoval RtpTrackMute RtpRetransmission RtpVP9Parser PliPacer LayerDetector StatNodeProps QualityFilterProps SRPacket
    RtpPaddingGenerator RtpSlideShow OneToMany RtcpProcessorHandler
    StatsHandler DtlsTransport Pipeline IkcpProps TranServerProps KKKcpRuns
begin

text \<open>
  Kernel-checked models of the media pipeline of \<^verbatim>\<open>src/erizo\<close> and of the signalling transport of
  \<^verbatim>\<open>src/servererizo\<close>.

  \<^bold>\<open>The program.\<close> Erizo is an SFU: it takes RTP and RTCP packets from one peer, runs them through a
  pipeline of handlers and sends them to others. Each handler reads and rewrites headers in place,
  keeps a little state per stream, and passes packets on or drops them; feedback travels the other
  way. The server process reaches its peers over UDP: a connection manager sets connections up by a
  handshake, directly or through a transponder, and runs the KCP protocol over each of them.

  \<^bold>\<open>Bytes.\<close> \<open>Prelude\<close> and \<open>Wire\<close> fix what all share: machine words at their width, packet memory as
  a function of the offset, loads and stores in network order, reads past a bound as \<open>None\<close>.
  \<open>RtpHeader\<close>, \<open>RtcpHeader\<close> and \<open>RembBitrate\<close> are the accessors of \<^verbatim>\<open>rtp/RtpHeaders.h\<close>, \<open>RtpUtils\<close> the
  traversals of compound packets of \<^verbatim>\<open>rtp/RtpUtils.cpp\<close>, \<open>SeqOrder\<close> the two circular comparisons of
  sequence numbers, \<open>Media\<close> the packet and the SSRCs of \<^verbatim>\<open>MediaDefinitions.h\<close>.

  \<^bold>\<open>Handlers.\<close> \<open>SeqTranslator\<close> and \<open>SeqTranslatorProps\<close> (renumbering; it refines a counter without
  gaps); \<open>Renumbering\<close>, the interface of the handlers that renumber a stream, proves once that none of
  them leaves gaps, for \<open>RtpPaddingRemoval\<close>, \<open>RtpPaddingGenerator\<close>, \<open>QualityFilter\<close> and \<open>RtpSlideShow\<close>;
  \<open>RtcpNackGenerator\<close> and \<open>RtcpRrGenerator\<close> (NACK lists and
  receiver reports), driven by \<open>RtcpFeedbackGeneration\<close>; \<open>RtpPacketQueue\<close> (reordering); \<open>RtpTrackMute\<close>;
  \<open>PacketBuffer\<close> and \<open>TokenBucket\<close> (the store and the rate limit of \<open>RtpRetransmission\<close>); \<open>RtpVP8Parser\<close> and
  \<open>RtpVP9Parser\<close> (payload descriptors); \<open>PliPacer\<close>; \<open>SRPacket\<close> (sender reports); \<open>Worker\<close> (\<^verbatim>\<open>thread/\<close>: the scheduler, which the
  handlers' timers run on, thread by thread and step by step). \<open>RtpSlideShow\<close> sends key frames only and renumbers what
  it sends; \<open>RtpExtensionProcessor\<close> writes send times into header extensions. \<open>OneToMany\<close> hands the media of a
  publisher to its subscribers. \<open>RtcpForwarder\<close> and \<open>RtcpAggregator\<close> are the two implementations of the interface
  \<open>rtcp_processor\<close> of \<open>RtcpProcessorHandler\<close>, which hands feedback to either of them: one passes reports on under the
  SSRCs of the connection, the other gathers them and writes its own. \<open>Pipeline\<close> is the chain the handlers stand in,
  with its pointers: its interface \<open>downward\<close> is what a handler must do for a packet to go through the handlers in order.

  \<^bold>\<open>Layers and statistics.\<close> \<open>LayerDetector\<close> marks each packet with the layers it belongs to, \<open>QualityManager\<close>
  measures their rates and chooses the layers that fit the estimate, \<open>QualityFilter\<close> (promises in
  \<open>QualityFilterProps\<close>) sends only those. \<open>StatNode\<close>, \<open>StatNodeProps\<close> and \<open>StatPaths\<close> are the tree of statistics, its
  moving windows and what its paths lead to, on \<open>OrderedMap\<close> (\<^verbatim>\<open>std::map\<close>) and \<open>Decimal\<close> (the names of its nodes);
  \<open>StatsHandler\<close> counts in it what passes by.

  \<^bold>\<open>Sessions.\<close> \<open>StringUtil\<close>, \<open>SdpInfo\<close>, \<open>SdpParser\<close>, \<open>SdpNegotiation\<close> and \<open>SdpPrinter\<close> are \<^verbatim>\<open>StringUtil.cpp\<close> and
  \<^verbatim>\<open>SdpInfo.cpp\<close>: the line parser, the negotiation of codecs and the printer; \<open>SdpCandidates\<close> and \<open>SdpCodecs\<close> are what they
  promise. \<open>WebRtcConnection\<close> has what a connection does to packets and with descriptions, \<open>WebRtcSession\<close> its state
  machine, with the transports as an environment. \<open>DtlsTransport\<close> is the transport with its resenders and its SRTP
  channels; libsrtp is a parameter, and the DTLS handshake and ICE are seen by what they report.

  \<^bold>\<open>Transport.\<close> \<open>Ikcp\<close> is the whole of \<^verbatim>\<open>KKkcp/ikcp.c\<close>. \<open>IkcpRecv\<close>, \<open>IkcpWire\<close>, \<open>IkcpSend\<close> and \<open>IkcpFlush\<close>
  are the lemmas about the receiver, about datagrams, about cutting messages and about what is put
  out; \<open>KcpLink\<close> joins two ends by a network that loses, repeats and reorders, and proves delivery
  in order; \<open>IkcpProps\<close> has progress, timing and round trips. \<open>KKAddr\<close>, \<open>KcpPackets\<close> and \<open>TwoKeyMap\<close> are
  the addresses, the datagrams and the map with two keys (with the interface \<open>two_keys\<close>) that
  \<open>TranServer\<close> (the transponder; its promises are in \<open>TranServerProps\<close>) and \<open>KKKcp\<close> (the connection
  manager; handshake, bad runs and timeouts are in \<open>KKKcpProps\<close> and \<open>KKKcpRuns\<close>) are built on.

  \<^bold>\<open>How code becomes definitions.\<close> A class is a record of its members, a method a function from the
  state to the state (and the result), a loop a recursive function. Integers keep their width;
  signed members that cannot overflow are \<open>int\<close>. Packets and objects that the code shares by pointer
  are in memories and heaps passed along. Undefined behaviour and assertions that a run can reach are
  values: \<open>None\<close>, or the errors \<open>tran_error\<close> and \<open>kk_error\<close>. Clocks, random numbers, the outcomes of
  atomic exchanges, the addresses that \<^verbatim>\<open>new\<close> returns, and \<^verbatim>\<open>inet_addr\<close> are arguments. Handlers of one
  object run one at a time, as the pipeline's event loop and the locks of the manager have it; where the
  code interleaves (the scheduler's threads) the model has explicit steps.

  \<^bold>\<open>Bounds and fuel.\<close> Every loop is a total function, by structural recursion or by a measure, except five that
  need not end and are partial functions with the value \<open>None\<close>: the search for a free number in \<open>TranServer\<close>, the loops
  of the session description over an index of one byte, the list of references in \<open>RtpVP9Parser\<close>, the way around the
  ring of a window in \<open>StatNode\<close>, and a packet on its way through a \<open>Pipeline\<close>. Where a property says that they return,
  that is proved. The delivery theorem of KCP is for runs of fewer than 2 to the 30 segments, far
  within which the signed comparison of serial numbers is an order. No fuel is used.

  \<^bold>\<open>Not modelled.\<close> Code outside the repository that the sources call (OpenSSL, libsrtp, nICEr, libnice, libav), the
  copied WebRTC sources under \<^verbatim>\<open>third_party\<close>, and the classes that mostly call them: the DTLS sockets, the ICE
  connections, bandwidth estimation, forward error correction, codecs, mixers, external input and output. Logging,
  thread starts, sleeping and sockets; the services of the pipeline; the program's main functions, examples and tests.
  They are listed in the manifest with the reason.
\<close>

end
